(* ===== verification/Senn_Prelude.thy ===== *)
theory Senn_Prelude
  imports Complex_Main "HOL-Library.Word"
begin

text \<open>
  What every theory of the development shares: the type of a computation that may throw
  (\<open>'e + 'a\<close>, \<open>Inl\<close> for the thrown error) and its sequencing, the two ways the TypeScript sources run a throwing
  function over an array (\<open>map\<close> that stops at the first error, \<open>for ... of\<close> that only checks), and
  generic lemmas on lists and association lists.
\<close>

unbundle bit_operations_syntax

named_theorems senn_defs \<open>definitions of the model that proofs unfold together\<close>

type_synonym byte = "8 word"
type_synonym bytes = "byte list"

subsection \<open>Computations that may throw\<close>

text \<open>
  \<open>throwing_map f xs\<close> is \<open>xs.map(f)\<close> for an \<open>f\<close> that may throw: the first error, from the left,
  wins.
\<close>

fun throwing_map :: "('a \<Rightarrow> 'e + 'b) \<Rightarrow> 'a list \<Rightarrow> 'e + 'b list" where
  "throwing_map f [] = Inr []"
| "throwing_map f (x # xs) =
     (case f x of
        Inl e \<Rightarrow> Inl e
      | Inr y \<Rightarrow> (case throwing_map f xs of Inl e \<Rightarrow> Inl e | Inr ys \<Rightarrow> Inr (y # ys)))"

text \<open>
  \<open>throwing_all bad xs\<close> is a loop \<open>for (const x of xs) if (bad x) throw ...\<close>; \<open>bad x\<close> is the error
  thrown at \<open>x\<close>, if any.
\<close>

fun throwing_all :: "('a \<Rightarrow> 'e option) \<Rightarrow> 'a list \<Rightarrow> 'e option" where
  "throwing_all bad [] = None"
| "throwing_all bad (x # xs) = (case bad x of Some e \<Rightarrow> Some e | None \<Rightarrow> throwing_all bad xs)"

text \<open>
  A thrown error: its class and its message, from which the values met at run time are left out (the
  message of an error the runtime itself throws is empty).
\<close>

datatype err = Thrown string string

text \<open>
  Sequencing: \<open>then_ok r k\<close> goes on with the value of \<open>r\<close>, or throws what \<open>r\<close> threw. \<open>guards gs\<close> is
  a run of statements \<open>if (c) throw e\<close>: the error of the first condition that holds.
\<close>

definition then_ok :: "'e + 'a \<Rightarrow> ('a \<Rightarrow> 'e + 'b) \<Rightarrow> 'e + 'b" where
  "then_ok r k = (case r of Inl e \<Rightarrow> Inl e | Inr x \<Rightarrow> k x)"

fun guards :: "(bool \<times> 'e) list \<Rightarrow> 'e + unit" where
  "guards [] = Inr ()"
| "guards ((c, e) # gs) = (if c then Inl e else guards gs)"

definition of_option :: "'e \<Rightarrow> 'a option \<Rightarrow> 'e + 'a" where
  "of_option e r = (case r of None \<Rightarrow> Inl e | Some x \<Rightarrow> Inr x)"

definition is_ok :: "'e + 'a \<Rightarrow> bool" where
  "is_ok r = (case r of Inl _ \<Rightarrow> False | Inr _ \<Rightarrow> True)"

lemma is_ok_simps [simp]: "is_ok (Inr x)" "\<not> is_ok (Inl e)"
  by (simp_all add: is_ok_def)

lemma is_ok_ex: "is_ok r \<longleftrightarrow> (\<exists>x. r = Inr x)"
  by (cases r) auto

lemma then_ok_simps [simp]: "then_ok (Inl e) k = Inl e" "then_ok (Inr x) k = k x"
  by (simp_all add: then_ok_def)

lemma then_ok_Inr: "then_ok r k = Inr y \<longleftrightarrow> (\<exists>x. r = Inr x \<and> k x = Inr y)"
  by (cases r) auto

lemma then_ok_Inl: "then_ok r k = Inl e \<longleftrightarrow> r = Inl e \<or> (\<exists>x. r = Inr x \<and> k x = Inl e)"
  by (cases r) auto

lemma then_ok_assoc: "then_ok (then_ok r f) g = then_ok r (\<lambda>x. then_ok (f x) g)"
  by (cases r) auto

lemma guards_Inr [simp]: "guards gs = Inr u \<longleftrightarrow> list_all (\<lambda>g. \<not> fst g) gs"
  by (induction gs rule: guards.induct) auto

lemma guards_Inl: "guards gs = Inl e \<Longrightarrow> e \<in> snd ` set gs"
  by (induction gs rule: guards.induct) (auto split: if_splits)

lemma of_option_Inr [simp]: "of_option e r = Inr x \<longleftrightarrow> r = Some x"
  by (cases r) (auto simp: of_option_def)

lemma of_option_simps [simp]: "of_option e (Some x) = Inr x" "of_option e None = Inl e"
  by (simp_all add: of_option_def)

lemma throwing_map_Inr:
  "throwing_map f xs = Inr ys \<longleftrightarrow> list_all2 (\<lambda>x y. f x = Inr y) xs ys"
proof (induction xs arbitrary: ys)
  case (Cons x xs)
  then show ?case
    by (cases "f x"; cases "throwing_map f xs") (force simp: list_all2_Cons1)+
qed auto

lemma throwing_map_Inr_same:
  "(\<And>x. x \<in> set xs \<Longrightarrow> f x = Inr (g x)) \<Longrightarrow> throwing_map f xs = Inr (map g xs)"
  by (induction xs) auto

lemma throwing_map_length: "throwing_map f xs = Inr ys \<Longrightarrow> length ys = length xs"
  by (auto simp: throwing_map_Inr dest: list_all2_lengthD)

lemma throwing_map_set:
  "throwing_map f xs = Inr ys \<Longrightarrow> y \<in> set ys \<Longrightarrow> \<exists>x\<in>set xs. f x = Inr y"
  by (induction xs arbitrary: ys) (auto split: sum.splits)

lemma throwing_map_in: "throwing_map f xs = Inr ys \<Longrightarrow> x \<in> set xs \<Longrightarrow> \<exists>y\<in>set ys. f x = Inr y"
  by (induction xs arbitrary: ys) (auto split: sum.splits)

lemma throwing_map_total: "(\<And>x. x \<in> set xs \<Longrightarrow> \<exists>y. f x = Inr y) \<Longrightarrow> \<exists>ys. throwing_map f xs = Inr ys"
  by (induction xs) fastforce+

lemma throwing_all_None: "throwing_all bad xs = None \<longleftrightarrow> (\<forall>x\<in>set xs. bad x = None)"
  by (induction xs) (auto split: option.splits)

lemma throwing_all_cong_None [simp]: "(\<And>x. x \<in> set xs \<Longrightarrow> bad x = None) \<Longrightarrow> throwing_all bad xs = None"
  by (simp add: throwing_all_None)

subsection \<open>Association lists in insertion order\<close>

text \<open>
  JavaScript's \<open>Map\<close> and plain objects keep their keys in the order of first insertion; storing
  under a key that is present replaces the value in place, deleting removes the entry.
\<close>

fun al_set :: "'k \<Rightarrow> 'v \<Rightarrow> ('k \<times> 'v) list \<Rightarrow> ('k \<times> 'v) list" where
  "al_set k v [] = [(k, v)]"
| "al_set k v ((k', v') # m) = (if k = k' then (k, v) # m else (k', v') # al_set k v m)"

definition al_del :: "'k \<Rightarrow> ('k \<times> 'v) list \<Rightarrow> ('k \<times> 'v) list" where
  "al_del k m = filter (\<lambda>e. fst e \<noteq> k) m"

lemma map_of_al_set [simp]: "map_of (al_set k v m) = (map_of m)(k \<mapsto> v)"
  by (induction k v m rule: al_set.induct) (auto simp: fun_eq_iff)

lemma al_set_fresh: "k \<notin> fst ` set m \<Longrightarrow> al_set k v m = m @ [(k, v)]"
  by (induction k v m rule: al_set.induct) auto

lemma dom_al_set [simp]: "fst ` set (al_set k v m) = insert k (fst ` set m)"
  by (induction k v m rule: al_set.induct) auto

lemma distinct_al_set [simp]: "distinct (map fst m) \<Longrightarrow> distinct (map fst (al_set k v m))"
  by (induction k v m rule: al_set.induct) (use dom_al_set in \<open>auto simp: image_iff\<close>)

lemma al_del_keys [simp]: "fst ` set (al_del k m) = fst ` set m - {k}"
  by (auto simp: al_del_def)

lemma map_of_al_del [simp]: "map_of (al_del k m) = (map_of m)(k := None)"
  by (induction m) (auto simp: al_del_def fun_eq_iff)

lemma distinct_al_del [simp]: "distinct (map fst m) \<Longrightarrow> distinct (map fst (al_del k m))"
  by (induction m) (auto simp: al_del_def)

lemma al_del_absent: "map_of m k = None \<Longrightarrow> al_del k m = m"
  unfolding al_del_def by (induction m) (auto split: if_splits)

lemma al_del_subset: "set (al_del k m) \<subseteq> set m"
  by (auto simp: al_del_def)

lemma al_del_mem: "x \<in> set (al_del k m) \<longleftrightarrow> x \<in> set m \<and> fst x \<noteq> k"
  by (auto simp: al_del_def)

lemma al_set_mem:
  "distinct (map fst m) \<Longrightarrow> x \<in> set (al_set k v m) \<longleftrightarrow> x = (k, v) \<or> (x \<in> set m \<and> fst x \<noteq> k)"
  by (induction k v m rule: al_set.induct) (auto simp: image_iff)

text \<open>Sums over the entries, for accounting invariants.\<close>

lemma sum_list_al_del:
  "distinct (map fst m) \<Longrightarrow> map_of m k = Some v \<Longrightarrow>
   sum_list (map (f \<circ> snd) (al_del k m)) + f v = (sum_list (map (f \<circ> snd) m) :: nat)"
proof (induction m)
  case (Cons e m)
  obtain k' v' where e: "e = (k', v')" by (cases e)
  show ?case
  proof (cases "k' = k")
    case True
    then have "map_of m k = None"
      using Cons.prems(1) by (auto simp: e map_of_eq_None_iff)
    with True Cons.prems show ?thesis
      by (simp add: e al_del_def [of k "(k, v) # m"] al_del_absent [unfolded al_del_def])
  next
    case False
    with Cons show ?thesis by (simp add: e al_del_def)
  qed
qed simp

lemma sum_list_al_set_old:
  "map_of m k = Some v \<Longrightarrow>
   sum_list (map (f \<circ> snd) (al_set k v' m)) + f v = (sum_list (map (f \<circ> snd) m) :: nat) + f v'"
  by (induction k v' m rule: al_set.induct) (auto split: if_splits)

lemma sum_list_al_set_new:
  "map_of m k = None \<Longrightarrow>
   sum_list (map (f \<circ> snd) (al_set k v m)) = (sum_list (map (f \<circ> snd) m) :: nat) + f v"
  by (induction k v m rule: al_set.induct) (auto split: if_splits)

subsection \<open>Lists\<close>

lemma sum_list_map_le:
  fixes f g :: "'a \<Rightarrow> nat"
  shows "(\<And>x. x \<in> set xs \<Longrightarrow> f x \<le> g x) \<Longrightarrow> sum_list (map f xs) \<le> sum_list (map g xs)"
  by (induction xs) (auto intro: add_mono)

lemma length_concat_map: "length (concat (map f xs)) = sum_list (map (length \<circ> f) xs)"
  by (induction xs) auto

lemma takeWhile_append_stop:
  "(\<forall>x\<in>set xs. P x) \<Longrightarrow> (case ys of [] \<Rightarrow> True | y # _ \<Rightarrow> \<not> P y) \<Longrightarrow>
   takeWhile P (xs @ ys) = xs \<and> dropWhile P (xs @ ys) = ys"
  by (induction xs) (auto split: list.splits)

lemma nth_upd: "i < length xs \<Longrightarrow> xs[n := p] ! i = (if n = i then p else xs ! i)"
  by (cases "n < length xs") (simp_all add: nth_list_update)

end
