(* ===== verification/JS_Values.thy ===== *)
theory JS_Values
  imports Senn_Prelude
begin

text \<open>
  The JavaScript values the sources handle as \<open>unknown\<close>: strings are lists of 16-bit code units (as
  \<open>.length\<close> and \<open>charCodeAt\<close> see them), numbers are the finite ones, read exactly, and the three
  special values, objects keep their own properties in insertion order. \<open>U8\<close> is a \<open>Uint8Array\<close>,
  the one class instance the sources look for. Functions, symbols, bigints and getters do not
  occur in any value the modelled code inspects.
\<close>

type_synonym jschar = "16 word"
type_synonym jsstring = "jschar list"

text \<open>The code unit of an ASCII character, and a string literal.\<close>

definition ch :: "char \<Rightarrow> jschar" where
  "ch c = of_char c"

definition js :: "string \<Rightarrow> jsstring" where
  "js s = map ch s"

datatype jsnum = NaN | PosInf | NegInf | Fin rat

datatype jsval =
    Undef
  | Null
  | Bool bool
  | Num jsnum
  | Str jsstring
  | Arr "jsval list"
  | Obj "(jsstring \<times> jsval) list"
  | U8 bytes

type_synonym jsfields = "(jsstring \<times> jsval) list"

abbreviation jint :: "int \<Rightarrow> jsval" where
  "jint i \<equiv> Num (Fin (of_int i))"

subsection \<open>String literals\<close>

lemma unat_ch [simp]: "unat (ch c) = of_char c"
proof -
  have "(of_char c :: 16 word) = word_of_nat (of_char c)"
    by (rule of_nat_of_char [symmetric])
  moreover have "of_char c < (2 :: nat) ^ 16"
    by (rule less_trans [OF nat_of_char_less_256]) simp
  ultimately show ?thesis
    by (simp add: ch_def unat_of_nat)
qed

lemma ch_eq_iff [simp]: "ch c = ch d \<longleftrightarrow> c = d"
proof
  assume "ch c = ch d"
  then have "unat (ch c) = unat (ch d)" by simp
  then show "c = d" by simp
qed simp

lemma js_eq_iff [simp]: "js a = js b \<longleftrightarrow> a = b"
proof -
  have "inj ch" by (rule injI) simp
  then show ?thesis by (simp add: js_def)
qed

lemma js_Cons: "js (c # s) = ch c # js s"
  by (simp add: js_def)

lemma js_Nil [simp]: "js [] = []"
  by (simp add: js_def)

lemma js_eq_Nil [simp]: "js a = [] \<longleftrightarrow> a = []" "[] = js a \<longleftrightarrow> a = []"
  by (auto simp: js_def)

lemma length_js [simp]: "length (js a) = length a"
  by (simp add: js_def)

subsection \<open>Property access and type tests\<close>

text \<open>\<open>o.k\<close>: the own property, else \<open>undefined\<close> (no modelled key is on \<open>Object.prototype\<close>).\<close>

definition fld :: "jsfields \<Rightarrow> string \<Rightarrow> jsval" where
  "fld fs k = (case map_of fs (js k) of None \<Rightarrow> Undef | Some v \<Rightarrow> v)"

text \<open>\<open>k in o\<close>.\<close>

definition has_prop :: "jsfields \<Rightarrow> string \<Rightarrow> bool" where
  "has_prop fs k = (map_of fs (js k) \<noteq> None)"

text \<open>\<open>typeof v === "object" && v !== null\<close>.\<close>

fun is_objecty :: "jsval \<Rightarrow> bool" where
  "is_objecty (Arr _) = True"
| "is_objecty (Obj _) = True"
| "is_objecty (U8 _) = True"
| "is_objecty _ = False"

text \<open>
  The own properties a value has when the code reads \<open>value.k\<close> of an object that is not an array: a
  \<open>Uint8Array\<close> has none of the names the code reads.
\<close>

fun own_fields :: "jsval \<Rightarrow> jsfields" where
  "own_fields (Obj fs) = fs"
| "own_fields _ = []"

text \<open>The string a value is, once the code has tested that it is one.\<close>

fun str_of :: "jsval \<Rightarrow> jsstring" where
  "str_of (Str s) = s"
| "str_of _ = []"

fun is_str :: "jsval \<Rightarrow> bool" where
  "is_str (Str _) = True"
| "is_str _ = False"

lemma is_str_iff: "is_str v \<longleftrightarrow> v = Str (str_of v)"
  by (cases v) auto

text \<open>The number tests \<open>Number.isFinite\<close> and \<open>Number.isInteger\<close>.\<close>

fun is_finite_num :: "jsval \<Rightarrow> bool" where
  "is_finite_num (Num (Fin _)) = True"
| "is_finite_num _ = False"

definition is_int_rat :: "rat \<Rightarrow> bool" where
  "is_int_rat r = (snd (quotient_of r) = 1)"

text \<open>\<open>a < b\<close> on numbers: false when either side is \<open>NaN\<close>.\<close>

fun num_less :: "jsnum \<Rightarrow> jsnum \<Rightarrow> bool" where
  "num_less NaN _ = False"
| "num_less _ NaN = False"
| "num_less PosInf _ = False"
| "num_less _ NegInf = False"
| "num_less NegInf _ = True"
| "num_less _ PosInf = True"
| "num_less (Fin a) (Fin b) = (a < b)"

text \<open>\<open>a <= b\<close>.\<close>

definition num_le :: "jsnum \<Rightarrow> jsnum \<Rightarrow> bool" where
  "num_le a b = (a \<noteq> NaN \<and> b \<noteq> NaN \<and> \<not> num_less b a)"

lemma is_int_rat_iff: "is_int_rat r \<longleftrightarrow> (\<exists>i. r = of_int i)"
proof
  assume "is_int_rat r"
  then obtain p where "quotient_of r = (p, 1)"
    by (cases "quotient_of r") (simp add: is_int_rat_def)
  then have "r = of_int p / of_int 1"
    by (rule quotient_of_div)
  then show "\<exists>i. r = of_int i" by auto
qed (auto simp: is_int_rat_def)

lemma is_int_rat_of_int [simp]: "is_int_rat (of_int i)"
  by (auto simp: is_int_rat_iff)

lemma is_int_rat_numerals [simp]:
  "is_int_rat 0" "is_int_rat 1" "is_int_rat (numeral n)" "is_int_rat (- numeral n)"
  using is_int_rat_of_int [of 0] is_int_rat_of_int [of 1] is_int_rat_of_int [of "numeral n"]
    is_int_rat_of_int [of "- numeral n"] by simp_all

lemma is_int_rat_of_nat [simp]: "is_int_rat (of_nat n)"
  using is_int_rat_of_int [of "int n"] by simp

lemma fld_Nil [simp]: "fld [] k = Undef"
  by (simp add: fld_def)

lemma fld_Cons [simp]: "fld ((js k', v) # fs) k = (if k = k' then v else fld fs k)"
  by (simp add: fld_def)

lemma has_prop_Nil [simp]: "\<not> has_prop [] k"
  by (simp add: has_prop_def)

lemma has_prop_Cons [simp]: "has_prop ((js k', v) # fs) k = (k = k' \<or> has_prop fs k)"
  by (simp add: has_prop_def)

lemma fld_append: "fld (fs @ gs) k = (if has_prop fs k then fld fs k else fld gs k)"
  by (auto simp: fld_def has_prop_def map_add_def split: option.splits)

lemma fld_not_has: "\<not> has_prop fs k \<Longrightarrow> fld fs k = Undef"
  by (simp add: fld_def has_prop_def)

lemma fld_Some: "fld fs k = v \<Longrightarrow> v \<noteq> Undef \<Longrightarrow> map_of fs (js k) = Some v"
  by (auto simp: fld_def split: option.splits)

text \<open>Two objects with the same keys and values, in whatever order.\<close>

lemma set_eq_map_of:
  assumes "distinct (map fst fs)" "distinct (map fst gs)"
  shows "set fs = set gs \<longleftrightarrow> map_of fs = map_of gs"
  using assms by (metis map_of_eqI map_of_inject_set)

subsection \<open>Coercions\<close>

text \<open>\<open>s.startsWith(p)\<close>.\<close>

definition startsWith :: "jsstring \<Rightarrow> jsstring \<Rightarrow> bool" where
  "startsWith s p = (take (length p) s = p)"

text \<open>\<open>s.replace(/\/+$/, "")\<close>.\<close>

definition strip_slashes :: "jsstring \<Rightarrow> jsstring" where
  "strip_slashes s = rev (dropWhile (\<lambda>c. c = ch CHR ''/'') (rev s))"

text \<open>\<open>s.trim()\<close>: white space and line terminators.\<close>

definition js_space :: "jschar \<Rightarrow> bool" where
  "js_space c = (unat c \<in> {9, 10, 11, 12, 13, 0x20, 0xA0, 0x1680, 0x2028, 0x2029, 0x202F, 0x205F, 0x3000, 0xFEFF}
     \<or> 0x2000 \<le> unat c \<and> unat c \<le> 0x200A)"

definition js_trim :: "jsstring \<Rightarrow> jsstring" where
  "js_trim s = rev (dropWhile js_space (rev (dropWhile js_space s)))"

text \<open>\<open>Boolean(v)\<close>.\<close>

fun truthy :: "jsval \<Rightarrow> bool" where
  "truthy Undef = False"
| "truthy Null = False"
| "truthy (Bool b) = b"
| "truthy (Num n) = (n \<noteq> NaN \<and> n \<noteq> Fin 0)"
| "truthy (Str s) = (s \<noteq> [])"
| "truthy _ = True"

subsection \<open>Code-unit classes\<close>

text \<open>UTF-16 surrogates.\<close>

definition is_high :: "jschar \<Rightarrow> bool" where
  "is_high u = (0xD800 \<le> unat u \<and> unat u \<le> 0xDBFF)"

definition is_low :: "jschar \<Rightarrow> bool" where
  "is_low u = (0xDC00 \<le> unat u \<and> unat u \<le> 0xDFFF)"

text \<open>\<open>[...s].length\<close>: the string iterator joins a high surrogate with a low one after it.\<close>

fun code_points :: "jsstring \<Rightarrow> nat" where
  "code_points [] = 0"
| "code_points [u] = 1"
| "code_points (u # v # s) =
     (if is_high u \<and> is_low v then Suc (code_points s) else Suc (code_points (v # s)))"

lemma code_points_le: "code_points s \<le> length s"
  by (induction s rule: code_points.induct) auto

lemma length_le_code_points: "length s \<le> 2 * code_points s"
  by (induction s rule: code_points.induct) auto

end
