(* ===== verification/JS_Regex.thy ===== *)
theory JS_Regex
  imports JS_Values
begin

text \<open>
  The regular expressions of the sources, written as the sources write them (character classes,
  sequence, alternative, \<open>*\<close>, \<open>+\<close>, \<open>?\<close>, \<open>{n}\<close>, \<open>{m,n}\<close>) and matched by Brzozowski derivatives.
  Every pattern of the sources that is modelled is anchored (\<open>^...$\<close>, no flags), so \<open>test\<close> is
  membership of the whole string. The section proves the matcher equal to the language of the
  expression, and the facts about alphabets and lengths the components use.
\<close>

datatype rx =
    Zero
  | One
  | Cls "(char \<times> char) list"
  | Seq rx rx
  | Alt rx rx
  | Star rx

definition in_cls :: "(char \<times> char) list \<Rightarrow> jschar \<Rightarrow> bool" where
  "in_cls cs c = list_ex (\<lambda>(lo, hi). of_char lo \<le> unat c \<and> unat c \<le> of_char hi) cs"

text \<open>\<open>\w\<close>, on whose edges \<open>\b\<close> matches.\<close>

definition word_char :: "jschar \<Rightarrow> bool" where
  "word_char = in_cls [(CHR ''a'', CHR ''z''), (CHR ''A'', CHR ''Z''), (CHR ''0'', CHR ''9''), (CHR ''_'', CHR ''_'')]"

primrec rx_nullable :: "rx \<Rightarrow> bool" where
  "rx_nullable Zero = False"
| "rx_nullable One = True"
| "rx_nullable (Cls _) = False"
| "rx_nullable (Seq r s) = (rx_nullable r \<and> rx_nullable s)"
| "rx_nullable (Alt r s) = (rx_nullable r \<or> rx_nullable s)"
| "rx_nullable (Star _) = True"

fun mk_seq :: "rx \<Rightarrow> rx \<Rightarrow> rx" where
  "mk_seq Zero s = Zero"
| "mk_seq One s = s"
| "mk_seq r s = Seq r s"

fun mk_alt :: "rx \<Rightarrow> rx \<Rightarrow> rx" where
  "mk_alt Zero s = s"
| "mk_alt r Zero = r"
| "mk_alt r s = Alt r s"

primrec rx_deriv :: "jschar \<Rightarrow> rx \<Rightarrow> rx" where
  "rx_deriv c Zero = Zero"
| "rx_deriv c One = Zero"
| "rx_deriv c (Cls cs) = (if in_cls cs c then One else Zero)"
| "rx_deriv c (Seq r s) =
     (if rx_nullable r then mk_alt (mk_seq (rx_deriv c r) s) (rx_deriv c s)
      else mk_seq (rx_deriv c r) s)"
| "rx_deriv c (Alt r s) = mk_alt (rx_deriv c r) (rx_deriv c s)"
| "rx_deriv c (Star r) = mk_seq (rx_deriv c r) (Star r)"

fun rx_match :: "rx \<Rightarrow> jsstring \<Rightarrow> bool" where
  "rx_match r [] = rx_nullable r"
| "rx_match r (c # s) = rx_match (rx_deriv c r) s"

subsection \<open>The language of an expression\<close>

inductive rx_in :: "rx \<Rightarrow> jsstring \<Rightarrow> bool" where
  rx_one: "rx_in One []"
| rx_cls: "in_cls cs c \<Longrightarrow> rx_in (Cls cs) [c]"
| rx_seq: "rx_in r u \<Longrightarrow> rx_in s v \<Longrightarrow> rx_in (Seq r s) (u @ v)"
| rx_alt1: "rx_in r u \<Longrightarrow> rx_in (Alt r s) u"
| rx_alt2: "rx_in s u \<Longrightarrow> rx_in (Alt r s) u"
| rx_star0: "rx_in (Star r) []"
| rx_star1: "rx_in r u \<Longrightarrow> rx_in (Star r) v \<Longrightarrow> rx_in (Star r) (u @ v)"

inductive_simps rx_in_Zero [simp]: "rx_in Zero u"
inductive_simps rx_in_One [simp]: "rx_in One u"
inductive_simps rx_in_Cls: "rx_in (Cls cs) u"
inductive_simps rx_in_Seq: "rx_in (Seq r s) u"
inductive_simps rx_in_Alt [simp]: "rx_in (Alt r s) u"
inductive_cases rx_in_StarE: "rx_in (Star r) u"

lemma rx_nullable_iff: "rx_nullable r \<longleftrightarrow> rx_in r []"
  by (induction r) (auto simp: rx_in_Cls rx_in_Seq intro: rx_in.intros)

lemma rx_in_mk_seq [simp]: "rx_in (mk_seq r s) u \<longleftrightarrow> rx_in (Seq r s) u"
  by (induction r s rule: mk_seq.induct) (auto simp: rx_in_Seq)

lemma rx_in_mk_alt [simp]: "rx_in (mk_alt r s) u \<longleftrightarrow> rx_in (Alt r s) u"
  by (induction r s rule: mk_alt.induct) auto

lemma rx_star_cons:
  assumes "rx_in t u" "t = Star r" "u = c # w"
  shows "\<exists>x y. w = x @ y \<and> rx_in r (c # x) \<and> rx_in (Star r) y"
  using assms
proof (induction arbitrary: w rule: rx_in.induct)
  case (rx_star1 r' u v)
  then show ?case by (cases u) auto
qed auto

lemma rx_deriv_iff: "rx_in (rx_deriv c r) u \<longleftrightarrow> rx_in r (c # u)"
proof (induction r arbitrary: u)
  case (Seq r s)
  then show ?case
    by (auto simp: rx_in_Seq rx_nullable_iff Cons_eq_append_conv)
next
  case (Star r)
  show ?case
    using Star rx_star_cons [of "Star r" "c # u" r c u] rx_star1 [of r "c # _" _]
    by (auto simp: rx_in_Seq)
qed (auto simp: rx_in_Cls)

theorem rx_match_correct: "rx_match r s \<longleftrightarrow> rx_in r s"
  by (induction s arbitrary: r) (simp_all add: rx_nullable_iff rx_deriv_iff)

subsection \<open>Derived forms\<close>

definition Chr :: "char \<Rightarrow> rx" where "Chr c = Cls [(c, c)]"
definition Plus :: "rx \<Rightarrow> rx" where "Plus r = Seq r (Star r)"
definition Opt :: "rx \<Rightarrow> rx" where "Opt r = Alt One r"

primrec Rep :: "nat \<Rightarrow> rx \<Rightarrow> rx" where
  "Rep 0 r = One"
| "Rep (Suc n) r = Seq r (Rep n r)"

text \<open>\<open>r{0,n}\<close>.\<close>

primrec Upto :: "nat \<Rightarrow> rx \<Rightarrow> rx" where
  "Upto 0 r = One"
| "Upto (Suc n) r = Opt (Seq r (Upto n r))"

text \<open>A word in sequence.\<close>

fun Seqs :: "rx list \<Rightarrow> rx" where
  "Seqs [] = One"
| "Seqs [r] = r"
| "Seqs (r # rs) = Seq r (Seqs rs)"

lemmas rx_forms = Chr_def Plus_def Opt_def

lemma rx_in_Rep_Cls: "rx_in (Rep n (Cls cs)) s \<longleftrightarrow> length s = n \<and> (\<forall>c\<in>set s. in_cls cs c)"
proof (induction n arbitrary: s)
  case (Suc n)
  show ?case
  proof (cases s)
    case (Cons c t)
    have "rx_in (Rep (Suc n) (Cls cs)) s \<longleftrightarrow> in_cls cs c \<and> rx_in (Rep n (Cls cs)) t"
      using Cons by (auto simp: rx_in_Seq rx_in_Cls) (metis append_Cons append_Nil)
    with Suc Cons show ?thesis by auto
  qed (auto simp: rx_in_Seq rx_in_Cls)
qed auto

lemma rx_match_Rep_Cls [simp]:
  "rx_match (Rep n (Cls cs)) s \<longleftrightarrow> length s = n \<and> (\<forall>c\<in>set s. in_cls cs c)"
  by (simp add: rx_match_correct rx_in_Rep_Cls)

lemma rx_in_Star_Cls: "rx_in (Star (Cls cs)) s \<longleftrightarrow> (\<forall>c\<in>set s. in_cls cs c)"
proof
  assume "rx_in (Star (Cls cs)) s"
  then show "\<forall>c\<in>set s. in_cls cs c"
    by (induction "Star (Cls cs)" s rule: rx_in.induct) (auto simp: rx_in_Cls)
next
  assume "\<forall>c\<in>set s. in_cls cs c"
  then show "rx_in (Star (Cls cs)) s"
  proof (induction s)
    case (Cons c s)
    then have "rx_in (Star (Cls cs)) ([c] @ s)"
      by (intro rx_star1 rx_cls) auto
    then show ?case by simp
  qed (rule rx_star0)
qed

subsection \<open>The characters an expression can use\<close>

primrec rx_chars :: "rx \<Rightarrow> jschar \<Rightarrow> bool" where
  "rx_chars Zero c = False"
| "rx_chars One c = False"
| "rx_chars (Cls cs) c = in_cls cs c"
| "rx_chars (Seq r s) c = (rx_chars r c \<or> rx_chars s c)"
| "rx_chars (Alt r s) c = (rx_chars r c \<or> rx_chars s c)"
| "rx_chars (Star r) c = rx_chars r c"

lemma rx_in_chars: "rx_in r s \<Longrightarrow> c \<in> set s \<Longrightarrow> rx_chars r c"
  by (induction rule: rx_in.induct) auto

lemma rx_match_chars: "rx_match r s \<Longrightarrow> c \<in> set s \<Longrightarrow> rx_chars r c"
  by (simp add: rx_match_correct rx_in_chars)

lemma rx_chars_Rep: "rx_chars (Rep n r) c \<Longrightarrow> rx_chars r c"
  by (induction n) auto

lemma rx_chars_Upto: "rx_chars (Upto n r) c \<Longrightarrow> rx_chars r c"
  by (induction n) (auto simp: Opt_def)

lemma rx_match_nonempty: "rx_match r s \<Longrightarrow> \<not> rx_nullable r \<Longrightarrow> s \<noteq> []"
  by (cases s) auto

end
