(* ===== verification/JS_Unicode.thy ===== *)
theory JS_Unicode
  imports JS_Values
begin

text \<open>
  The Encoding API the sources use: \<open>new TextEncoder().encode\<close> (UTF-8, a lone surrogate becomes
  U+FFFD) and \<open>new TextDecoder().decode\<close> (UTF-8, not fatal: an ill-formed sequence becomes U+FFFD, a
  leading byte order mark is dropped), after the WHATWG decoder's states. The main result is that
  decoding gives back every string that has no lone surrogate and no leading U+FEFF.
\<close>

subsection \<open>UTF-16 code units and scalar values\<close>

definition scalar_of :: "jschar \<Rightarrow> nat" where
  "scalar_of u = (if is_high u \<or> is_low u then 0xFFFD else unat u)"

fun scalars :: "jsstring \<Rightarrow> nat list" where
  "scalars [] = []"
| "scalars [u] = [scalar_of u]"
| "scalars (u # v # s) =
     (if is_high u \<and> is_low v
      then (0x10000 + (unat u - 0xD800) * 0x400 + (unat v - 0xDC00)) # scalars s
      else scalar_of u # scalars (v # s))"

definition units :: "nat \<Rightarrow> jsstring" where
  "units cp =
     (if cp < 0x10000 then [word_of_nat cp]
      else [word_of_nat (0xD800 + (cp - 0x10000) div 0x400),
            word_of_nat (0xDC00 + (cp - 0x10000) mod 0x400)])"

definition is_scalar :: "nat \<Rightarrow> bool" where
  "is_scalar cp = (cp < 0xD800 \<or> (0xE000 \<le> cp \<and> cp < 0x110000))"

text \<open>No surrogate without its partner.\<close>

fun well_formed :: "jsstring \<Rightarrow> bool" where
  "well_formed [] = True"
| "well_formed [u] = (\<not> is_high u \<and> \<not> is_low u)"
| "well_formed (u # v # s) =
     (if is_high u \<and> is_low v then well_formed s
      else \<not> is_high u \<and> \<not> is_low u \<and> well_formed (v # s))"

subsection \<open>UTF-8\<close>

definition utf8_seq :: "nat \<Rightarrow> nat list" where
  "utf8_seq cp =
     (if cp < 0x80 then [cp]
      else if cp < 0x800 then [0xC0 + cp div 0x40, 0x80 + cp mod 0x40]
      else if cp < 0x10000 then
        [0xE0 + cp div 0x1000, 0x80 + (cp div 0x40) mod 0x40, 0x80 + cp mod 0x40]
      else [0xF0 + cp div 0x40000, 0x80 + (cp div 0x1000) mod 0x40,
            0x80 + (cp div 0x40) mod 0x40, 0x80 + cp mod 0x40])"

definition utf8_encode :: "jsstring \<Rightarrow> bytes" where
  "utf8_encode s = concat (map (\<lambda>cp. map word_of_nat (utf8_seq cp)) (scalars s))"

text \<open>\<open>utf8_run needed cp lower upper bs\<close>: the decoder's state and the bytes still to read.\<close>

function utf8_run :: "nat \<Rightarrow> nat \<Rightarrow> nat \<Rightarrow> nat \<Rightarrow> nat list \<Rightarrow> nat list" where
  "utf8_run needed cp lower upper [] = (if needed = 0 then [] else [0xFFFD])"
| "utf8_run 0 cp lower upper (b # bs) =
     (if b \<le> 0x7F then b # utf8_run 0 0 0x80 0xBF bs
      else if 0xC2 \<le> b \<and> b \<le> 0xDF then utf8_run 1 (b mod 32) 0x80 0xBF bs
      else if 0xE0 \<le> b \<and> b \<le> 0xEF then
        utf8_run 2 (b mod 16) (if b = 0xE0 then 0xA0 else 0x80) (if b = 0xED then 0x9F else 0xBF) bs
      else if 0xF0 \<le> b \<and> b \<le> 0xF4 then
        utf8_run 3 (b mod 8) (if b = 0xF0 then 0x90 else 0x80) (if b = 0xF4 then 0x8F else 0xBF) bs
      else 0xFFFD # utf8_run 0 0 0x80 0xBF bs)"
| "utf8_run (Suc n) cp lower upper (b # bs) =
     (if b < lower \<or> upper < b then 0xFFFD # utf8_run 0 0 0x80 0xBF (b # bs)
      else if n = 0 then (cp * 64 + b mod 64) # utf8_run 0 0 0x80 0xBF bs
      else utf8_run n (cp * 64 + b mod 64) 0x80 0xBF bs)"
  by pat_completeness auto
termination
  by (relation "measure (\<lambda>(needed, _, _, _, bs). 2 * length bs + (if needed = 0 then 0 else 1))") auto

definition strip_bom :: "bytes \<Rightarrow> bytes" where
  "strip_bom bs = (if take 3 bs = [0xEF, 0xBB, 0xBF] then drop 3 bs else bs)"

definition utf8_decode :: "bytes \<Rightarrow> jsstring" where
  "utf8_decode bs = concat (map units (utf8_run 0 0 0x80 0xBF (map unat (strip_bom bs))))"

text \<open>\<open>new TextEncoder().encode(s).byteLength\<close>.\<close>

definition utf8_size :: "jsstring \<Rightarrow> nat" where
  "utf8_size s = length (utf8_encode s)"

subsection \<open>Scalar values\<close>

lemma unat_lt16 [simp]: "unat (u :: jschar) < 0x10000"
  using unsigned_less [of u, where ?'a = nat] by simp

lemma unat_word16: "n < 0x10000 \<Longrightarrow> unat (word_of_nat n :: jschar) = n"
  by (simp add: unat_of_nat)

lemma unat_word8: "n < 256 \<Longrightarrow> unat (word_of_nat n :: byte) = n"
  by (simp add: unat_of_nat)

lemma is_scalar_of: "is_scalar (scalar_of u)"
proof -
  have "unat u < 0x10000" by (rule unat_lt16)
  then have "unat u < 0x110000" by (rule less_trans) simp
  then show ?thesis by (auto simp: is_scalar_def scalar_of_def is_high_def is_low_def)
qed

lemma scalars_are_scalar: "cp \<in> set (scalars s) \<Longrightarrow> is_scalar cp"
proof (induction s rule: scalars.induct)
  case (3 u v s)
  have "is_high u \<Longrightarrow> is_low v \<Longrightarrow>
    is_scalar (0x10000 + (unat u - 0xD800) * 0x400 + (unat v - 0xDC00))"
    by (auto simp: is_scalar_def is_high_def is_low_def)
  with 3 show ?case by (auto simp: is_scalar_of split: if_splits)
qed (auto simp: is_scalar_of)

lemma units_pair:
  assumes "is_high u" "is_low v"
  shows "units (0x10000 + (unat u - 0xD800) * 0x400 + (unat v - 0xDC00)) = [u, v]"
proof -
  define a b where "a = unat u - 0xD800" and "b = unat v - 0xDC00"
  have ab: "a < 0x400" "b < 0x400" and u: "unat u = 0xD800 + a" and v: "unat v = 0xDC00 + b"
    using assms by (auto simp: a_def b_def is_high_def is_low_def)
  define cp where "cp = 0x10000 + a * 0x400 + b"
  have cp: "\<not> cp < 0x10000" "(cp - 0x10000) div 0x400 = a" "(cp - 0x10000) mod 0x400 = b"
    using ab by (simp_all add: cp_def)
  have "units cp = [word_of_nat (unat u), word_of_nat (unat v)]"
    unfolding units_def u v cp using cp(1) by simp
  then show ?thesis by (simp add: cp_def a_def b_def)
qed

lemma units_scalars: "well_formed s \<Longrightarrow> concat (map units (scalars s)) = s"
proof (induction s rule: scalars.induct)
  case (2 u)
  then show ?case by (auto simp: units_def scalar_of_def)
next
  case (3 u v s)
  then show ?case
    by (auto simp: units_pair scalar_of_def split: if_splits) (auto simp: units_def)
qed auto

lemma utf8_seq_byte: "is_scalar cp \<Longrightarrow> b \<in> set (utf8_seq cp) \<Longrightarrow> b < 256"
  by (auto simp: utf8_seq_def is_scalar_def split: if_splits)

lemma utf8_seq_length: "1 \<le> length (utf8_seq cp) \<and> length (utf8_seq cp) \<le> 4"
  by (simp add: utf8_seq_def)

subsection \<open>Decoding undoes encoding\<close>

declare utf8_run.simps [simp del]

lemma utf8_run_Nil [simp]: "utf8_run 0 cp lower upper [] = []"
  by (simp add: utf8_run.simps)

lemma utf8_run_ascii: "b < 0x80 \<Longrightarrow> utf8_run 0 cp lower upper (b # bs) = b # utf8_run 0 0 0x80 0xBF bs"
  by (simp add: utf8_run.simps)

lemma run_cont:
  assumes "a < 64" "lower \<le> 128 + a" "128 + a \<le> upper"
  shows "utf8_run (Suc n) cp lower upper ((128 + a) # bs) =
    (if n = 0 then (cp * 64 + a) # utf8_run 0 0 0x80 0xBF bs
     else utf8_run n (cp * 64 + a) 0x80 0xBF bs)"
proof -
  have "(128 + a) mod 64 = a" using assms(1) mod_mult_self3 [of 2 64 a] by simp
  moreover have "\<not> (128 + a < lower \<or> upper < 128 + a)" using assms(2,3) by simp
  ultimately show ?thesis by (simp only: utf8_run.simps if_False)
qed

lemma run_lead2:
  assumes "2 \<le> h" "h < 32"
  shows "utf8_run 0 c l u ((192 + h) # bs) = utf8_run 1 h 0x80 0xBF bs"
proof -
  have "(192 + h) mod 32 = h" using assms mod_mult_self3 [of 6 32 h] by simp
  moreover have "\<not> 192 + h \<le> 0x7F" "0xC2 \<le> 192 + h \<and> 192 + h \<le> 0xDF" using assms by auto
  ultimately show ?thesis by (simp only: utf8_run.simps if_True if_False simp_thms)
qed

lemma run_lead3:
  assumes "h < 16"
  shows "utf8_run 0 c l u ((224 + h) # bs) =
    utf8_run 2 h (if h = 0 then 0xA0 else 0x80) (if h = 13 then 0x9F else 0xBF) bs"
proof -
  have "(224 + h) mod 16 = h" using assms mod_mult_self3 [of 14 16 h] by simp
  moreover have "224 + h = 0xE0 \<longleftrightarrow> h = 0" "224 + h = 0xED \<longleftrightarrow> h = 13" by simp_all
  moreover have "\<not> 224 + h \<le> 0x7F" "\<not> (0xC2 \<le> 224 + h \<and> 224 + h \<le> 0xDF)"
    "0xE0 \<le> 224 + h \<and> 224 + h \<le> 0xEF" using assms by auto
  ultimately show ?thesis by (simp only: utf8_run.simps if_True if_False simp_thms)
qed

lemma run_lead4:
  assumes "h \<le> 4"
  shows "utf8_run 0 c l u ((240 + h) # bs) =
    utf8_run 3 h (if h = 0 then 0x90 else 0x80) (if h = 4 then 0x8F else 0xBF) bs"
proof -
  have "(240 + h) mod 8 = h" using assms mod_mult_self3 [of 30 8 h] by simp
  moreover have "240 + h = 0xF0 \<longleftrightarrow> h = 0" "240 + h = 0xF4 \<longleftrightarrow> h = 4" by simp_all
  moreover have "\<not> 240 + h \<le> 0x7F" "\<not> (0xC2 \<le> 240 + h \<and> 240 + h \<le> 0xDF)"
    "\<not> (0xE0 \<le> 240 + h \<and> 240 + h \<le> 0xEF)" "0xF0 \<le> 240 + h \<and> 240 + h \<le> 0xF4"
    using assms by auto
  ultimately show ?thesis by (simp only: utf8_run.simps if_True if_False simp_thms)
qed

text \<open>One continuation byte that is not the last, and one that is.\<close>

lemma run_mid:
  "a < 64 \<Longrightarrow> lower \<le> 128 + a \<Longrightarrow> 128 + a \<le> upper \<Longrightarrow>
   utf8_run (Suc (Suc n)) cp lower upper ((128 + a) # bs) =
   utf8_run (Suc n) (cp * 64 + a) 0x80 0xBF bs"
  by (simp add: run_cont)

lemma run_last:
  "a < 64 \<Longrightarrow> utf8_run (Suc 0) cp 0x80 0xBF ((128 + a) # bs) =
   (cp * 64 + a) # utf8_run 0 0 0x80 0xBF bs"
  by (simp add: run_cont)

lemma run_seq2:
  assumes "2 \<le> h" "h < 32" "a < 64"
  shows "utf8_run 0 c l u ((192 + h) # (128 + a) # bs) = (h * 64 + a) # utf8_run 0 0 0x80 0xBF bs"
  using assms by (simp only: run_lead2 run_last One_nat_def)

lemma run_seq3:
  assumes "h < 16" "a < 64" "b < 64" "h = 0 \<Longrightarrow> 32 \<le> a" "h = 13 \<Longrightarrow> a < 32"
  shows "utf8_run 0 c l u ((224 + h) # (128 + a) # (128 + b) # bs) =
    ((h * 64 + a) * 64 + b) # utf8_run 0 0 0x80 0xBF bs"
proof -
  define lo hi :: nat where "lo = (if h = 0 then 0xA0 else 0x80)" and "hi = (if h = 13 then 0x9F else 0xBF)"
  have "lo \<le> 128 + a" "128 + a \<le> hi" using assms by (auto simp: lo_def hi_def)
  note mid = run_mid [OF assms(2) this, of 0 h "(128 + b) # bs"]
  show ?thesis
    unfolding run_lead3 [OF assms(1)] lo_def [symmetric] hi_def [symmetric] numeral_2_eq_2 mid
    by (rule run_last [OF assms(3)])
qed

lemma run_seq4:
  assumes "h \<le> 4" "a < 64" "b < 64" "d < 64" "h = 0 \<Longrightarrow> 16 \<le> a" "h = 4 \<Longrightarrow> a < 16"
  shows "utf8_run 0 c l u ((240 + h) # (128 + a) # (128 + b) # (128 + d) # bs) =
    (((h * 64 + a) * 64 + b) * 64 + d) # utf8_run 0 0 0x80 0xBF bs"
proof -
  define lo hi :: nat where "lo = (if h = 0 then 0x90 else 0x80)" and "hi = (if h = 4 then 0x8F else 0xBF)"
  have "lo \<le> 128 + a" "128 + a \<le> hi" using assms by (auto simp: lo_def hi_def)
  note mid = run_mid [OF assms(2) this, of 1 h "(128 + b) # (128 + d) # bs"]
  have mid2: "utf8_run 2 cp 0x80 0xBF ((128 + b) # (128 + d) # bs) =
      utf8_run 1 (cp * 64 + b) 0x80 0xBF ((128 + d) # bs)" for cp
    using run_mid [of b "0x80" "0xBF" 0 cp] assms(3) by (simp add: numeral_2_eq_2)
  show ?thesis
    using mid mid2 run_last [OF assms(4)]
    unfolding run_lead4 [OF assms(1)] lo_def [symmetric] hi_def [symmetric]
    by (simp add: numeral_3_eq_3 numeral_2_eq_2)
qed

lemma utf8_run_seq:
  assumes "is_scalar cp"
  shows "utf8_run 0 c l u (utf8_seq cp @ bs) = cp # utf8_run 0 0 0x80 0xBF bs"
proof -
  define q1 q2 q3 where "q1 = cp div 64" and "q2 = q1 div 64" and "q3 = q2 div 64"
  define b a d where "b = cp mod 64" and "a = q1 mod 64" and "d = q2 mod 64"
  have lt: "b < 64" "a < 64" "d < 64" by (simp_all add: a_def b_def d_def)
  have eq: "q1 * 64 + b = cp" "q2 * 64 + a = q1" "q3 * 64 + d = q2"
    by (simp_all add: q1_def q2_def q3_def a_def b_def d_def)
  have divs: "cp div 64 = q1" "cp div 4096 = q2" "cp div 262144 = q3"
    using div_mult2_eq [of cp 64 64] div_mult2_eq [of "cp" 64 4096] div_mult2_eq [of "cp div 64" 64 64]
    by (simp_all add: q1_def q2_def q3_def)
  consider "cp < 0x80" | "0x80 \<le> cp" "cp < 0x800" | "0x800 \<le> cp" "cp < 0x10000" | "0x10000 \<le> cp"
    by linarith
  then show ?thesis
  proof cases
    case 1
    then show ?thesis by (simp add: utf8_seq_def utf8_run_ascii)
  next
    case 2
    have seq: "utf8_seq cp = [192 + q1, 128 + b]"
      using 2 by (simp add: utf8_seq_def q1_def b_def)
    have "2 \<le> q1" "q1 < 32" using 2 lt eq by linarith+
    with lt eq show ?thesis by (simp add: seq run_seq2)
  next
    case 3
    have seq: "utf8_seq cp = [224 + q2, 128 + a, 128 + b]"
      using 3 by (simp add: utf8_seq_def divs a_def b_def)
    have "q2 < 16" "q2 = 0 \<Longrightarrow> 32 \<le> a" "q2 = 13 \<Longrightarrow> a < 32"
      using 3 lt eq assms unfolding is_scalar_def by linarith+
    with lt eq show ?thesis by (simp add: seq run_seq3)
  next
    case 4
    have seq: "utf8_seq cp = [240 + q3, 128 + d, 128 + a, 128 + b]"
      using 4 by (simp add: utf8_seq_def divs a_def b_def d_def)
    have "q3 \<le> 4" "q3 = 0 \<Longrightarrow> 16 \<le> d" "q3 = 4 \<Longrightarrow> d < 16"
      using 4 lt eq assms unfolding is_scalar_def by linarith+
    with lt eq show ?thesis by (simp add: seq run_seq4)
  qed
qed

lemma utf8_run_seqs:
  "(\<forall>cp\<in>set cps. is_scalar cp) \<Longrightarrow>
   utf8_run 0 0 0x80 0xBF (concat (map utf8_seq cps)) = cps"
  by (induction cps) (simp_all add: utf8_run_seq)

lemma map_unat_utf8_encode:
  "map unat (utf8_encode s) = concat (map utf8_seq (scalars s))"
proof -
  have "map unat (map (word_of_nat :: nat \<Rightarrow> byte) (utf8_seq cp)) = utf8_seq cp"
    if "cp \<in> set (scalars s)" for cp
    using utf8_seq_byte [OF scalars_are_scalar [OF that]]
    by (auto simp: o_def unat_word8 intro: map_idI)
  then show ?thesis
    by (simp add: utf8_encode_def map_concat o_def cong: map_cong)
qed

text \<open>The first code unit decides whether the encoding starts with a byte order mark.\<close>

lemma strip_bom_encode:
  assumes "s = [] \<or> hd s \<noteq> 0xFEFF"
  shows "strip_bom (utf8_encode s) = utf8_encode s"
proof (rule ccontr)
  assume "strip_bom (utf8_encode s) \<noteq> utf8_encode s"
  then have "take 3 (utf8_encode s) = [0xEF, 0xBB, 0xBF]"
    by (auto simp: strip_bom_def split: if_splits)
  then obtain rest where "utf8_encode s = [0xEF, 0xBB, 0xBF] @ rest"
    by (metis append_take_drop_id)
  then have "map unat (utf8_encode s) = [0xEF, 0xBB, 0xBF] @ map unat rest" by simp
  then have bytes: "concat (map utf8_seq (scalars s)) = [0xEF, 0xBB, 0xBF] @ map unat rest"
    by (simp only: map_unat_utf8_encode)
  have "utf8_run 0 0 0x80 0xBF ([0xEF, 0xBB, 0xBF] @ map unat rest) =
      0xFEFF # utf8_run 0 0 0x80 0xBF (map unat rest)"
    using run_seq3 [of 15 59 63 0 128 191 "map unat rest"] by simp
  with bytes have "scalars s = 0xFEFF # utf8_run 0 0 0x80 0xBF (map unat rest)"
    using utf8_run_seqs [of "scalars s"] scalars_are_scalar by metis
  then have "\<exists>u s'. s = u # s' \<and> unat u = 0xFEFF"
    by (cases s rule: scalars.cases) (auto simp: scalar_of_def is_high_def is_low_def split: if_splits)
  then obtain u s' where u: "s = u # s'" "unat u = 0xFEFF" by blast
  then have "unat u = unat (0xFEFF :: jschar)" by simp
  then have "u = 0xFEFF" by (simp only: unsigned_word_eqI)
  with u assms show False by simp
qed

theorem utf8_decode_encode:
  assumes "well_formed s" "s = [] \<or> hd s \<noteq> 0xFEFF"
  shows "utf8_decode (utf8_encode s) = s"
proof -
  have "utf8_run 0 0 0x80 0xBF (map unat (utf8_encode s)) = scalars s"
    unfolding map_unat_utf8_encode by (rule utf8_run_seqs) (use scalars_are_scalar in blast)
  then show ?thesis
    by (simp add: utf8_decode_def strip_bom_encode assms units_scalars)
qed

subsection \<open>Sizes\<close>

lemma length_scalars: "length (scalars s) = code_points s"
  by (induction s rule: scalars.induct) auto

lemma utf8_size_concat: "utf8_size s = sum_list (map (length \<circ> utf8_seq) (scalars s))"
  by (simp add: utf8_size_def utf8_encode_def length_concat_map o_def)

lemma utf8_size_js: "(\<forall>c\<in>set s. (of_char c :: nat) < 128) \<Longrightarrow> utf8_size (js s) = length s"
proof -
  assume ascii: "\<forall>c\<in>set s. (of_char c :: nat) < 128"
  then have "scalars (js s) = map of_char s"
  proof (induction s)
    case (Cons c s)
    then have c: "unat (ch c) = of_char c" "(of_char c :: nat) < 128" by auto
    then show ?case
      using Cons by (cases s) (auto simp: js_def scalar_of_def is_high_def is_low_def)
  qed simp
  then show ?thesis
    using ascii by (simp add: utf8_size_concat o_def utf8_seq_def sum_list_triv cong: map_cong)
qed

end
