(* ===== verification/JS_JSON.thy ===== *)
theory JS_JSON
  imports JS_Unicode
begin

text \<open>
  \<open>Number.prototype.toString(radix)\<close>, \<open>JSON.stringify\<close> and \<open>JSON.parse\<close>, as the sources use them.
  A finite number stands for its exact value: the printer writes its shortest decimal form in the
  layout of \<open>Number::toString\<close>, the parser reads decimals without rounding (and overflows to an
  infinity where a double does). The main results: the parser's fuel is always enough, and parsing
  a printed value gives the value back up to what JSON cannot express (\<open>undefined\<close>, \<open>NaN\<close>,
  infinities).
\<close>

subsection \<open>Numbers\<close>

definition dig :: "nat \<Rightarrow> jschar" where
  "dig d = word_of_nat (if d < 10 then 48 + d else 87 + d)"

function radix_str :: "nat \<Rightarrow> nat \<Rightarrow> jsstring" where
  "radix_str b n = (if n < b \<or> b < 2 then [dig n] else radix_str b (n div b) @ [dig (n mod b)])"
  by pat_completeness auto
termination
  by (relation "measure snd") (auto intro: div_less_dividend)

declare radix_str.simps [simp del]

text \<open>The own properties of a \<open>Uint8Array\<close>: its bytes under their indices.\<close>

definition u8_fields :: "bytes \<Rightarrow> jsfields" where
  "u8_fields bs = map (\<lambda>(i, b). (radix_str 10 i, jint (int (unat b)))) (enumerate 0 bs)"

text \<open>
  The idiom \<open>asObject\<close> of the validators: a value that is an object and not an array, as its own
  properties.
\<close>

definition as_object :: "string \<Rightarrow> string \<Rightarrow> jsval \<Rightarrow> err + jsfields" where
  "as_object cls what v =
     (case v of
        Obj fs \<Rightarrow> Inr fs
      | U8 bs \<Rightarrow> Inr (u8_fields bs)
      | _ \<Rightarrow> Inl (Thrown cls (what @ '' is not an object'')))"

text \<open>\<open>for (const key of Object.keys(obj)) if (!allowed.includes(key)) throw ...\<close>.\<close>

definition unknown_field :: "string list \<Rightarrow> err \<Rightarrow> jsfields \<Rightarrow> err option" where
  "unknown_field allowed e fs = throwing_all (\<lambda>(k, v). if k \<in> set (map js allowed) then None else Some e) fs"

text \<open>The number of decimals of a finite decimal fraction; a double's shortest form has at most 341.\<close>

fun dec_scale :: "nat \<Rightarrow> rat \<Rightarrow> nat" where
  "dec_scale 0 r = 0"
| "dec_scale (Suc f) r = (if is_int_rat r then 0 else Suc (dec_scale f (10 * r)))"

definition exp_layout :: "jsstring \<Rightarrow> int \<Rightarrow> jsstring" where
  "exp_layout ds n =
     (let e = n - 1 in
      hd ds # (if tl ds = [] then [] else ch CHR ''.'' # tl ds) @ js ''e''
        @ (if e < 0 then js ''-'' else js ''+'') @ radix_str 10 (nat \<bar>e\<bar>))"

text \<open>The digits \<open>ds\<close> of a number \<open>0.ds * 10^n\<close>, laid out as \<open>Number::toString\<close> does.\<close>

definition num_layout :: "jsstring \<Rightarrow> int \<Rightarrow> jsstring" where
  "num_layout ds n =
     (if int (length ds) \<le> n \<and> n \<le> 21 then ds @ replicate (nat n - length ds) (ch CHR ''0'')
      else if 0 < n \<and> n \<le> 21 then take (nat n) ds @ js ''.'' @ drop (nat n) ds
      else if -6 < n \<and> n \<le> 0 then js ''0.'' @ replicate (nat (- n)) (ch CHR ''0'') @ ds
      else exp_layout ds n)"

definition nonneg_str :: "rat \<Rightarrow> jsstring" where
  "nonneg_str r =
     (if is_int_rat r \<and> r < 10 ^ 21 then radix_str 10 (nat \<lfloor>r\<rfloor>)
      else if is_int_rat r then
        (let full = radix_str 10 (nat \<lfloor>r\<rfloor>) in
         num_layout (rev (dropWhile (\<lambda>c. c = ch CHR ''0'') (rev full))) (int (length full)))
      else
        (let k = dec_scale 400 r; full = radix_str 10 (nat \<lfloor>r * 10 ^ k\<rfloor>) in
         num_layout full (int (length full) - int k)))"

fun num_str :: "jsnum \<Rightarrow> jsstring" where
  "num_str NaN = js ''NaN''"
| "num_str PosInf = js ''Infinity''"
| "num_str NegInf = js ''-Infinity''"
| "num_str (Fin r) = (if r < 0 then ch CHR ''-'' # nonneg_str (- r) else nonneg_str r)"

subsection \<open>\<open>JSON.stringify\<close>\<close>

definition hex4 :: "nat \<Rightarrow> jsstring" where
  "hex4 n = [dig (n div 4096), dig (n div 256 mod 16), dig (n div 16 mod 16), dig (n mod 16)]"

definition esc_unit :: "jschar \<Rightarrow> jsstring" where
  "esc_unit u =
     (if u = ch CHR 0x22 then [ch CHR 0x5C, ch CHR 0x22]
      else if u = ch CHR 0x5C then [ch CHR 0x5C, ch CHR 0x5C]
      else if unat u = 8 then [ch CHR 0x5C, ch CHR ''b'']
      else if unat u = 9 then [ch CHR 0x5C, ch CHR ''t'']
      else if unat u = 10 then [ch CHR 0x5C, ch CHR ''n'']
      else if unat u = 12 then [ch CHR 0x5C, ch CHR ''f'']
      else if unat u = 13 then [ch CHR 0x5C, ch CHR ''r'']
      else if unat u < 0x20 \<or> is_high u \<or> is_low u then [ch CHR 0x5C, ch CHR ''u''] @ hex4 (unat u)
      else [u])"

fun quote_units :: "jsstring \<Rightarrow> jsstring" where
  "quote_units [] = []"
| "quote_units [u] = esc_unit u"
| "quote_units (u # v # s) =
     (if is_high u \<and> is_low v then u # v # quote_units s else esc_unit u @ quote_units (v # s))"

definition json_quote :: "jsstring \<Rightarrow> jsstring" where
  "json_quote s = ch CHR 0x22 # quote_units s @ [ch CHR 0x22]"

fun json_join :: "jsstring list \<Rightarrow> jsstring" where
  "json_join [] = []"
| "json_join [t] = t"
| "json_join (t # ts) = t @ ch CHR '','' # json_join ts"

definition json_num :: "jsnum \<Rightarrow> jsstring" where
  "json_num n = (case n of Fin _ \<Rightarrow> num_str n | _ \<Rightarrow> js ''null'')"

text \<open>
  \<open>None\<close> is the \<open>undefined\<close> that \<open>JSON.stringify(undefined)\<close> returns. A \<open>Uint8Array\<close> prints as the
  object of its indices.
\<close>

fun json_str :: "jsval \<Rightarrow> jsstring option"
and json_elems :: "jsval list \<Rightarrow> jsstring list"
and json_members :: "jsfields \<Rightarrow> jsstring list" where
  "json_str Undef = None"
| "json_str Null = Some (js ''null'')"
| "json_str (Bool b) = Some (if b then js ''true'' else js ''false'')"
| "json_str (Num n) = Some (json_num n)"
| "json_str (Str s) = Some (json_quote s)"
| "json_str (Arr xs) = Some (ch CHR ''['' # json_join (json_elems xs) @ js '']'')"
| "json_str (Obj fs) = Some (ch CHR ''{'' # json_join (json_members fs) @ js ''}'')"
| "json_str (U8 bs) =
     Some (ch CHR ''{'' # json_join (map (\<lambda>(i, b). json_quote (radix_str 10 i) @ ch CHR '':'' # radix_str 10 (unat b))
       (enumerate 0 bs)) @ js ''}'')"
| "json_elems [] = []"
| "json_elems (x # xs) =
     (case json_str x of None \<Rightarrow> js ''null'' | Some t \<Rightarrow> t) # json_elems xs"
| "json_members [] = []"
| "json_members ((k, v) # fs) =
     (case json_str v of
        None \<Rightarrow> json_members fs
      | Some t \<Rightarrow> (json_quote k @ ch CHR '':'' # t) # json_members fs)"

subsection \<open>\<open>JSON.parse\<close>\<close>

definition is_ws :: "jschar \<Rightarrow> bool" where
  "is_ws u = (unat u = 9 \<or> unat u = 10 \<or> unat u = 13 \<or> unat u = 32)"

definition skip_ws :: "jsstring \<Rightarrow> jsstring" where
  "skip_ws s = dropWhile is_ws s"

definition is_digit :: "jschar \<Rightarrow> bool" where
  "is_digit u = (48 \<le> unat u \<and> unat u \<le> 57)"

definition take_digits :: "jsstring \<Rightarrow> nat list \<times> jsstring" where
  "take_digits s = (map (\<lambda>u. unat u - 48) (takeWhile is_digit s), dropWhile is_digit s)"

definition digits_val :: "nat list \<Rightarrow> nat" where
  "digits_val ds = foldl (\<lambda>a d. a * 10 + d) 0 ds"

text \<open>Conversion to a double: the value itself, or the infinity a double overflows to.\<close>

definition to_double :: "rat \<Rightarrow> jsnum" where
  "to_double r = (if r \<ge> 2 ^ 1024 - 2 ^ 970 then PosInf
                  else if r \<le> - (2 ^ 1024 - 2 ^ 970) then NegInf else Fin r)"

definition dec_val :: "bool \<Rightarrow> nat list \<Rightarrow> nat list \<Rightarrow> int \<Rightarrow> rat" where
  "dec_val neg ds fs e =
     (let m = of_nat (digits_val (ds @ fs)) / 10 ^ length fs;
          v = (if e < 0 then m / 10 ^ nat (- e) else m * 10 ^ nat e)
      in if neg then - v else v)"

definition parse_exp :: "jsstring \<Rightarrow> (int \<times> jsstring) option" where
  "parse_exp s =
     (case s of
        [] \<Rightarrow> Some (0, s)
      | u # t \<Rightarrow>
          if u = ch CHR ''e'' \<or> u = ch CHR ''E'' then
            (let (neg, t1) = (case t of
                 [] \<Rightarrow> (False, t)
               | v # w \<Rightarrow> if v = ch CHR ''-'' then (True, w) else if v = ch CHR ''+'' then (False, w) else (False, t));
                 (ds, t2) = take_digits t1
             in if ds = [] then None
                else Some (if neg then - int (digits_val ds) else int (digits_val ds), t2))
          else Some (0, s))"

definition parse_frac :: "jsstring \<Rightarrow> (nat list \<times> jsstring) option" where
  "parse_frac s =
     (case s of
        [] \<Rightarrow> Some ([], s)
      | u # t \<Rightarrow>
          if u = ch CHR ''.'' then
            (let (fs, t1) = take_digits t in if fs = [] then None else Some (fs, t1))
          else Some ([], s))"

definition parse_num :: "jsstring \<Rightarrow> (jsval \<times> jsstring) option" where
  "parse_num s =
     (let (neg, s1) = (case s of [] \<Rightarrow> (False, s) | u # t \<Rightarrow> if u = ch CHR ''-'' then (True, t) else (False, s));
          (ds, s2) = take_digits s1
      in if ds = [] \<or> (hd ds = 0 \<and> tl ds \<noteq> []) then None
         else (case parse_frac s2 of
             None \<Rightarrow> None
           | Some (fs, s3) \<Rightarrow>
               (case parse_exp s3 of
                  None \<Rightarrow> None
                | Some (e, s4) \<Rightarrow> Some (Num (to_double (dec_val neg ds fs e)), s4))))"

definition unhex :: "jschar \<Rightarrow> nat option" where
  "unhex u =
     (if 48 \<le> unat u \<and> unat u \<le> 57 then Some (unat u - 48)
      else if 97 \<le> unat u \<and> unat u \<le> 102 then Some (unat u - 87)
      else if 65 \<le> unat u \<and> unat u \<le> 70 then Some (unat u - 55)
      else None)"

definition unesc :: "jschar \<Rightarrow> jschar option" where
  "unesc e =
     (if e = ch CHR 0x22 then Some (ch CHR 0x22)
      else if e = ch CHR 0x5C then Some (ch CHR 0x5C)
      else if e = ch CHR ''/'' then Some (ch CHR ''/'')
      else if e = ch CHR ''b'' then Some 8
      else if e = ch CHR ''f'' then Some 12
      else if e = ch CHR ''n'' then Some 10
      else if e = ch CHR ''r'' then Some 13
      else if e = ch CHR ''t'' then Some 9
      else None)"

definition unhex4 :: "jsstring \<Rightarrow> (jschar \<times> jsstring) option" where
  "unhex4 s =
     (case s of
        a # b # c # d # t \<Rightarrow>
          (case (unhex a, unhex b, unhex c, unhex d) of
             (Some w, Some x, Some y, Some z) \<Rightarrow>
               Some (word_of_nat (((w * 16 + x) * 16 + y) * 16 + z), t)
           | _ \<Rightarrow> None)
      | _ \<Rightarrow> None)"

text \<open>The characters of a string literal, after its opening quote.\<close>

function parse_chars :: "jsstring \<Rightarrow> (jsstring \<times> jsstring) option" where
  "parse_chars [] = None"
| "parse_chars (u # s) =
     (if u = ch CHR 0x22 then Some ([], s)
      else if u = ch CHR 0x5C then
        (case s of
           [] \<Rightarrow> None
         | e # t \<Rightarrow>
             if e = ch CHR ''u'' then
               (case unhex4 t of
                  None \<Rightarrow> None
                | Some (w, t') \<Rightarrow> map_option (apfst ((#) w)) (parse_chars t'))
             else
               (case unesc e of
                  None \<Rightarrow> None
                | Some w \<Rightarrow> map_option (apfst ((#) w)) (parse_chars t)))
      else if unat u < 0x20 then None
      else map_option (apfst ((#) u)) (parse_chars s))"
  by pat_completeness auto
termination
  by (relation "measure length") (auto simp: unhex4_def split: list.splits option.splits)

fun strip_word :: "jsstring \<Rightarrow> jsstring \<Rightarrow> jsstring option" where
  "strip_word [] s = Some s"
| "strip_word (w # ws) [] = None"
| "strip_word (w # ws) (u # s) = (if w = u then strip_word ws s else None)"

fun parse_value :: "nat \<Rightarrow> jsstring \<Rightarrow> (jsval \<times> jsstring) option"
and parse_elems :: "nat \<Rightarrow> jsval list \<Rightarrow> jsstring \<Rightarrow> (jsval \<times> jsstring) option"
and parse_members :: "nat \<Rightarrow> jsfields \<Rightarrow> jsstring \<Rightarrow> (jsval \<times> jsstring) option" where
  "parse_value 0 s = None"
| "parse_value (Suc n) s =
     (case skip_ws s of
        [] \<Rightarrow> None
      | u # t \<Rightarrow>
          if u = ch CHR ''{'' then
            (case skip_ws t of
               [] \<Rightarrow> None
             | c # t' \<Rightarrow> if c = ch CHR ''}'' then Some (Obj [], t') else parse_members n [] (c # t'))
          else if u = ch CHR ''['' then
            (case skip_ws t of
               [] \<Rightarrow> None
             | c # t' \<Rightarrow> if c = ch CHR '']'' then Some (Arr [], t') else parse_elems n [] (c # t'))
          else if u = ch CHR 0x22 then map_option (apfst Str) (parse_chars t)
          else if u = ch CHR ''t'' then map_option (Pair (Bool True)) (strip_word (js ''true'') (u # t))
          else if u = ch CHR ''f'' then map_option (Pair (Bool False)) (strip_word (js ''false'') (u # t))
          else if u = ch CHR ''n'' then map_option (Pair Null) (strip_word (js ''null'') (u # t))
          else parse_num (u # t))"
| "parse_elems 0 xs s = None"
| "parse_elems (Suc n) xs s =
     (case parse_value n s of
        None \<Rightarrow> None
      | Some (v, t) \<Rightarrow>
          (case skip_ws t of
             [] \<Rightarrow> None
           | d # t' \<Rightarrow>
               if d = ch CHR '','' then parse_elems n (xs @ [v]) t'
               else if d = ch CHR '']'' then Some (Arr (xs @ [v]), t')
               else None))"
| "parse_members 0 fs s = None"
| "parse_members (Suc n) fs s =
     (case skip_ws s of
        [] \<Rightarrow> None
      | q # t \<Rightarrow>
          if q \<noteq> ch CHR 0x22 then None
          else (case parse_chars t of
              None \<Rightarrow> None
            | Some (k, t1) \<Rightarrow>
                (case skip_ws t1 of
                   [] \<Rightarrow> None
                 | c # t2 \<Rightarrow>
                     if c \<noteq> ch CHR '':'' then None
                     else (case parse_value n t2 of
                         None \<Rightarrow> None
                       | Some (v, t3) \<Rightarrow>
                           (case skip_ws t3 of
                              [] \<Rightarrow> None
                            | d # t4 \<Rightarrow>
                                if d = ch CHR '','' then parse_members n (al_set k v fs) t4
                                else if d = ch CHR ''}'' then Some (Obj (al_set k v fs), t4)
                                else None)))))"

text \<open>
  \<open>JSON.parse(s)\<close>; \<open>None\<close> is the \<open>SyntaxError\<close>. Each character costs at most two calls, so the fuel
  never runs out (\<open>parse_value_fuel\<close> in \<open>JS_JSON_Props\<close>).
\<close>

definition json_parse :: "jsstring \<Rightarrow> jsval option" where
  "json_parse s =
     (case parse_value (2 * length s + 2) s of
        None \<Rightarrow> None
      | Some (v, t) \<Rightarrow> if skip_ws t = [] then Some v else None)"

subsection \<open>\<open>String(v)\<close>\<close>

fun js_String :: "jsval \<Rightarrow> jsstring" where
  "js_String Undef = js ''undefined''"
| "js_String Null = js ''null''"
| "js_String (Bool b) = js (if b then ''true'' else ''false'')"
| "js_String (Num n) = num_str n"
| "js_String (Str s) = s"
| "js_String (Arr vs) = json_join (map (\<lambda>v. if v = Undef \<or> v = Null then [] else js_String v) vs)"
| "js_String (Obj _) = js ''[object Object]''"
| "js_String (U8 bs) = json_join (map (\<lambda>b. radix_str 10 (unat b)) bs)"

text \<open>
  \<open>String(v)\<close> throws a \<open>TypeError\<close> on an object whose own \<open>toString\<close> is no function (no data property of the
  model is one): the inherited \<open>valueOf\<close> gives the object back. An array joins its elements, with
  nothing for \<open>null\<close> and \<open>undefined\<close>.
\<close>

fun unprintable :: "jsval \<Rightarrow> bool" where
  "unprintable (Obj fs) = has_prop fs ''toString''"
| "unprintable (Arr xs) = (\<exists>x\<in>set xs. unprintable x)"
| "unprintable _ = False"

text \<open>\<open>Set\<close>'s comparison: two objects that come from two texts, or from two places of one, are never the same.\<close>

fun same_value :: "jsval \<Rightarrow> jsval \<Rightarrow> bool" where
  "same_value (Arr _) _ = False"
| "same_value (Obj _) _ = False"
| "same_value (U8 _) _ = False"
| "same_value a b = (a = b)"

end
