(* ===== verification/JS_JSON_Props.thy ===== *)
theory JS_JSON_Props
  imports JS_JSON
begin

text \<open>
  The laws of \<open>JSON.stringify\<close> and \<open>JSON.parse\<close>: digits and numbers, string literals, whole values;
  the parser's fuel; and what printing then parsing does to a value.
\<close>

subsection \<open>Digits\<close>

lemma unat_dig: "d < 36 \<Longrightarrow> unat (dig d) = (if d < 10 then 48 + d else 87 + d)"
  by (simp add: dig_def unat_word16)

lemma is_digit_dig: "d < 36 \<Longrightarrow> is_digit (dig d) \<longleftrightarrow> d < 10"
  by (simp add: is_digit_def unat_dig)

lemma radix_str_not_Nil [simp]: "radix_str b n \<noteq> []"
  by (subst radix_str.simps) simp

lemma radix_digits:
  assumes "2 \<le> b"
  shows "\<exists>ds. radix_str b n = map dig ds \<and> (\<forall>d\<in>set ds. d < b) \<and> foldl (\<lambda>a d. a * b + d) 0 ds = n
    \<and> ds \<noteq> [] \<and> (hd ds = 0 \<longrightarrow> ds = [0])"
proof (induction n rule: less_induct)
  case (less n)
  show ?case
  proof (cases "n < b")
    case True
    then show ?thesis
      by (intro exI [of _ "[n]"]) (simp add: radix_str.simps [of b n])
  next
    case False
    with assms have lt: "n div b < n" and b: "0 < n div b" by (auto simp: div_greater_zero_iff)
    obtain ds where
      ds: "radix_str b (n div b) = map dig ds" "\<forall>d\<in>set ds. d < b"
        "foldl (\<lambda>a d. a * b + d) 0 ds = n div b" "ds \<noteq> []" "hd ds = 0 \<longrightarrow> ds = [0]"
      using less [OF lt] by (elim exE conjE)
    have "hd ds \<noteq> 0"
    proof
      assume "hd ds = 0"
      with ds(5) have "ds = [0]" by simp
      with ds(3) b show False by simp
    qed
    have str: "radix_str b n = map dig (ds @ [n mod b])"
      using False assms ds(1) by (subst radix_str.simps) simp
    have val: "foldl (\<lambda>a d. a * b + d) 0 (ds @ [n mod b]) = n"
      using ds(3) by simp
    have "\<forall>d\<in>set (ds @ [n mod b]). d < b" using ds(2) assms by simp
    moreover have "hd (ds @ [n mod b]) \<noteq> 0" using \<open>hd ds \<noteq> 0\<close> ds(4) by simp
    ultimately show ?thesis
      using str val by (intro exI [of _ "ds @ [n mod b]"] conjI) simp_all
  qed
qed

lemma dig_inj: "d < 36 \<Longrightarrow> e < 36 \<Longrightarrow> dig d = dig e \<Longrightarrow> d = e"
proof -
  assume lt: "d < 36" "e < 36" and "dig d = dig e"
  then have "(if d < 10 then 48 + d else 87 + d) = (if e < 10 then 48 + e else 87 + e)"
    using unat_dig [of d] unat_dig [of e] by simp
  then show "d = e" by (simp split: if_splits)
qed

lemma map_dig_inj:
  "(\<forall>d\<in>set ds. d < 36) \<Longrightarrow> (\<forall>d\<in>set es. d < 36) \<Longrightarrow> map dig ds = map dig es \<Longrightarrow> ds = es"
proof (induction ds arbitrary: es)
  case (Cons d ds)
  then show ?case by (cases es) (auto dest: dig_inj)
qed simp

lemma radix_str_inj: "2 \<le> b \<Longrightarrow> b \<le> 36 \<Longrightarrow> radix_str b m = radix_str b n \<Longrightarrow> m = n"
proof -
  assume b: "2 \<le> b" "b \<le> 36" and eq: "radix_str b m = radix_str b n"
  obtain ds where ds: "radix_str b m = map dig ds" "\<forall>d\<in>set ds. d < b" "foldl (\<lambda>a d. a * b + d) 0 ds = m"
    using radix_digits [OF b(1)] by blast
  obtain es where es: "radix_str b n = map dig es" "\<forall>d\<in>set es. d < b" "foldl (\<lambda>a d. a * b + d) 0 es = n"
    using radix_digits [OF b(1)] by blast
  have "ds = es"
    by (rule map_dig_inj) (use ds es b eq in auto)
  with ds es show ?thesis by simp
qed

text \<open>An index is never one of the names the code reads.\<close>

lemma fld_u8_fields:
  "\<not> (48 \<le> (of_char c :: nat) \<and> (of_char c :: nat) \<le> 57) \<Longrightarrow> fld (u8_fields bs) (c # k) = Undef"
proof -
  assume c: "\<not> (48 \<le> (of_char c :: nat) \<and> (of_char c :: nat) \<le> 57)"
  have "js (c # k) \<noteq> radix_str 10 i" for i
  proof
    assume eq: "js (c # k) = radix_str 10 i"
    obtain ds where ds: "radix_str 10 i = map dig ds" "\<forall>d\<in>set ds. d < 10" "ds \<noteq> []"
      using radix_digits [of 10 i] by auto
    then have "is_digit (hd (radix_str 10 i))" by (cases ds) (auto simp: is_digit_dig)
    then have "48 \<le> (of_char c :: nat)" "(of_char c :: nat) \<le> 57"
      unfolding eq [symmetric] by (simp_all add: js_Cons is_digit_def)
    with c show False by simp
  qed
  moreover have "fst ` set (u8_fields bs) \<subseteq> range (radix_str 10)"
    by (auto simp: u8_fields_def)
  ultimately have "js (c # k) \<notin> fst ` set (u8_fields bs)" by blast
  then have "map_of (u8_fields bs) (js (c # k)) = None"
    by (simp add: map_of_eq_None_iff)
  then show ?thesis by (simp add: fld_def)
qed

lemma as_object_Inr:
  "as_object cls what v = Inr fs \<longleftrightarrow> v = Obj fs \<or> (\<exists>bs. v = U8 bs \<and> fs = u8_fields bs)"
  by (cases v) (auto simp: as_object_def)

lemma unknown_field_None:
  "unknown_field allowed e fs = None \<longleftrightarrow> fst ` set fs \<subseteq> js ` set allowed"
  by (auto simp: unknown_field_def throwing_all_None split: if_splits)

lemma unknown_field_Some: "unknown_field allowed e fs = Some e' \<Longrightarrow> e' = e"
  unfolding unknown_field_def by (induction fs) (auto split: if_splits option.splits)

lemma unknown_field_sets:
  "fst ` set fs = fst ` set gs \<Longrightarrow> unknown_field allowed e fs = unknown_field allowed e gs"
  by (metis not_Some_eq unknown_field_None unknown_field_Some)

definition num_stop :: "jsstring \<Rightarrow> bool" where
  "num_stop s = (case s of [] \<Rightarrow> True
     | u # _ \<Rightarrow> \<not> is_digit u \<and> u \<noteq> ch CHR ''.'' \<and> u \<noteq> ch CHR ''e'' \<and> u \<noteq> ch CHR ''E'')"

lemma num_stop_Nil [simp]: "num_stop []"
  by (simp add: num_stop_def)

lemma num_stop_punct [simp]:
  "num_stop (ch CHR '','' # s)" "num_stop (ch CHR ''}'' # s)" "num_stop (ch CHR '']'' # s)"
  by (simp_all add: num_stop_def is_digit_def)

lemma take_digits_append:
  assumes "\<forall>d\<in>set ds. d < 10" "num_stop rest"
  shows "take_digits (map dig ds @ rest) = (ds, rest)"
proof -
  have "\<forall>x\<in>set (map dig ds). is_digit x"
    using assms(1) by (auto simp: is_digit_dig)
  moreover have "case rest of [] \<Rightarrow> True | y # _ \<Rightarrow> \<not> is_digit y"
    using assms(2) by (auto simp: num_stop_def split: list.splits)
  ultimately have "takeWhile is_digit (map dig ds @ rest) = map dig ds"
    "dropWhile is_digit (map dig ds @ rest) = rest"
    using takeWhile_append_stop by blast+
  moreover have "map ((\<lambda>u. unat u - 48) \<circ> dig) ds = ds"
    using assms(1) by (auto simp: unat_dig intro!: map_idI)
  ultimately show ?thesis by (simp add: take_digits_def)
qed

lemma parse_frac_exp_stop: "num_stop s \<Longrightarrow> parse_frac s = Some ([], s) \<and> parse_exp s = Some (0, s)"
  by (auto simp: num_stop_def parse_frac_def parse_exp_def split: list.splits)

lemma json_num_of_int:
  assumes "\<bar>i\<bar> < 10 ^ 21"
  shows "json_num (Fin (of_int i)) =
    (if i < 0 then ch CHR ''-'' # radix_str 10 (nat (- i)) else radix_str 10 (nat i))"
proof -
  have "(of_int \<bar>i\<bar> :: rat) < of_int (10 ^ 21)" using assms by (simp only: of_int_less_iff)
  then have "(of_int \<bar>i\<bar> :: rat) < 10 ^ 21" by simp
  then have "- of_int i < (10 ^ 21 :: rat)" "of_int i < (10 ^ 21 :: rat)" by auto
  moreover have "is_int_rat (- of_int i)" using is_int_rat_of_int [of "- i"] by simp
  moreover have "\<lfloor>- (of_int i :: rat)\<rfloor> = - i" by (metis floor_of_int of_int_minus)
  ultimately show ?thesis
    by (simp add: json_num_def nonneg_str_def)
qed

lemma to_double_small:
  assumes "\<bar>i\<bar> < 10 ^ 21"
  shows "to_double (of_int i) = Fin (of_int i)"
proof -
  have "(10 :: int) ^ 21 < 2 ^ 1024 - 2 ^ 970" by simp
  with assms have "\<bar>i\<bar> < 2 ^ 1024 - 2 ^ 970" by linarith
  then have "(of_int \<bar>i\<bar> :: rat) < of_int (2 ^ 1024 - 2 ^ 970)" by (simp only: of_int_less_iff)
  then have "\<bar>of_int i :: rat\<bar> < 2 ^ 1024 - 2 ^ 970" by simp
  then show ?thesis
    unfolding to_double_def abs_less_iff by (auto simp del: power_numeral)
qed

lemma parse_num_of_int:
  assumes "\<bar>i\<bar> < 10 ^ 21" "num_stop rest"
  shows "parse_num (json_num (Fin (of_int i)) @ rest) = Some (jint i, rest)"
proof -
  obtain ds where ds: "radix_str 10 (nat \<bar>i\<bar>) = map dig ds" "\<forall>d\<in>set ds. d < 10"
      "digits_val ds = nat \<bar>i\<bar>" "ds \<noteq> []" "hd ds = 0 \<longrightarrow> ds = [0]"
    using radix_digits [of 10 "nat \<bar>i\<bar>"] by (auto simp: digits_val_def)
  have hd: "hd (map dig ds @ rest) \<noteq> ch CHR ''-''"
  proof
    assume "hd (map dig ds @ rest) = ch CHR ''-''"
    then have "unat (dig (hd ds)) = 45" using ds(4) by (cases ds) auto
    moreover have "hd ds < 10" using ds(2,4) by (cases ds) auto
    ultimately show False by (simp add: unat_dig)
  qed
  have neg: "(case map dig ds @ rest of [] \<Rightarrow> (False, map dig ds @ rest)
      | u # t \<Rightarrow> if u = ch CHR ''-'' then (True, t) else (False, map dig ds @ rest))
      = (False, map dig ds @ rest)"
    using hd by (auto split: list.splits)
  have val: "dec_val b ds [] 0 = (if b then - of_int \<bar>i\<bar> else of_int \<bar>i\<bar>)" for b
    using ds(3) by (simp add: dec_val_def digits_val_def)
  note eqs = ds take_digits_append [OF ds(2) assms(2)] parse_frac_exp_stop [OF assms(2)] val
    to_double_small [OF assms(1)]
  have cond: "\<not> (ds = [] \<or> (hd ds = 0 \<and> tl ds \<noteq> []))" using ds(4,5) by auto
  show ?thesis
  proof (cases "i < 0")
    case True
    then have "json_num (Fin (of_int i)) = ch CHR ''-'' # map dig ds"
      using json_num_of_int [OF assms(1)] ds(1) by simp
    then show ?thesis using cond True
      by (simp add: parse_num_def eqs)
  next
    case False
    then have "json_num (Fin (of_int i)) = map dig ds"
      using json_num_of_int [OF assms(1)] ds(1) by simp
    then show ?thesis using cond False
      by (simp only: parse_num_def neg) (simp add: eqs)
  qed
qed

subsection \<open>String literals\<close>

lemma unhex_dig: "d < 16 \<Longrightarrow> unhex (dig d) = Some d"
  by (simp add: unhex_def unat_dig)

lemma hex_digits_val:
  "((n div 4096 * 16 + n div 256 mod 16) * 16 + n div 16 mod 16) * 16 + n mod 16 = (n :: nat)"
proof -
  have "n div 256 = n div 16 div 16" "n div 4096 = n div 16 div 16 div 16"
    by (simp_all add: div_mult2_eq [symmetric])
  then show ?thesis by (metis div_mult_mod_eq)
qed

lemma unhex4_hex4:
  assumes "n < 65536"
  shows "unhex4 (hex4 n @ t) = Some (word_of_nat n, t)"
proof -
  have "n div 4096 < 16" using assms by simp
  then show ?thesis
    using hex_digits_val [of n]
    by (simp add: unhex4_def hex4_def unhex_dig del: of_nat_add of_nat_mult)
qed

declare parse_chars.simps [simp del]

lemma parse_chars_quote [simp]: "parse_chars (ch CHR 0x22 # s) = Some ([], s)"
  by (simp add: parse_chars.simps)

lemma parse_chars_plain:
  assumes "u \<noteq> ch CHR 0x22" "u \<noteq> ch CHR 0x5C" "0x20 \<le> unat u"
  shows "parse_chars (u # t) = map_option (apfst ((#) u)) (parse_chars t)"
  using assms by (simp add: parse_chars.simps)

lemma parse_chars_hex:
  "n < 65536 \<Longrightarrow> parse_chars ([ch CHR 0x5C, ch CHR ''u''] @ hex4 n @ t) =
     map_option (apfst ((#) (word_of_nat n))) (parse_chars t)"
  by (simp add: parse_chars.simps unhex4_hex4)

lemma parse_chars_unesc:
  "e \<noteq> ch CHR ''u'' \<Longrightarrow> unesc e = Some w \<Longrightarrow>
   parse_chars (ch CHR 0x5C # e # t) = map_option (apfst ((#) w)) (parse_chars t)"
  by (simp add: parse_chars.simps)

lemma word_of_unat_eq: "unat (u :: jschar) = n \<Longrightarrow> u = word_of_nat n"
  by auto

lemma parse_chars_esc:
  "parse_chars (esc_unit u @ t) = map_option (apfst ((#) u)) (parse_chars t)"
proof -
  have hex: "parse_chars (ch CHR 0x5C # ch CHR ''u'' # hex4 (unat u) @ t) =
      map_option (apfst ((#) u)) (parse_chars t)"
    using parse_chars_hex [of "unat u" t] by simp
  have units: "unat u = 8 \<Longrightarrow> u = 8" "unat u = 9 \<Longrightarrow> u = 9" "unat u = 10 \<Longrightarrow> u = 10"
    "unat u = 12 \<Longrightarrow> u = 12" "unat u = 13 \<Longrightarrow> u = 13"
    by (auto dest: word_of_unat_eq)
  show ?thesis
    unfolding esc_unit_def
    by (auto simp: hex parse_chars_unesc unesc_def parse_chars_plain dest: units)
qed

lemma surrogate_plain: "is_high u \<or> is_low u \<Longrightarrow> u \<noteq> ch CHR 0x22 \<and> u \<noteq> ch CHR 0x5C \<and> 0x20 \<le> unat u"
  by (auto simp: is_high_def is_low_def)

lemma parse_chars_quote_units:
  "parse_chars (quote_units s @ ch CHR 0x22 # rest) = Some (s, rest)"
proof (induction s rule: quote_units.induct)
  case (3 u v s)
  then show ?case
    by (auto simp: parse_chars_esc parse_chars_plain surrogate_plain)
qed (simp_all add: parse_chars_esc)

lemma parse_chars_shorter: "parse_chars s = Some (x, t) \<Longrightarrow> length t < length s"
proof (induction s arbitrary: x t rule: parse_chars.induct)
  case (2 u s)
  show ?case
    using 2 by (force simp: parse_chars.simps(2) [of u s] unhex4_def
        split: if_splits list.splits option.splits)
qed (simp add: parse_chars.simps)

subsection \<open>Values\<close>

text \<open>The values JSON expresses, with integers below \<open>10^21\<close> as their numbers.\<close>

fun json_clean :: "jsval \<Rightarrow> bool" where
  "json_clean Undef = False"
| "json_clean Null = True"
| "json_clean (Bool b) = True"
| "json_clean (Num n) = (case n of Fin r \<Rightarrow> is_int_rat r \<and> \<bar>r\<bar> < 10 ^ 21 | _ \<Rightarrow> False)"
| "json_clean (Str s) = True"
| "json_clean (Arr xs) = list_all json_clean xs"
| "json_clean (Obj fs) = (distinct (map fst fs) \<and> list_all (\<lambda>(k, v). json_clean v) fs)"
| "json_clean (U8 bs) = False"

text \<open>What a value becomes when it is printed and parsed: members that are \<open>undefined\<close> vanish, an
\<open>undefined\<close> element and a number that is not finite become \<open>null\<close>.\<close>

fun json_norm :: "jsval \<Rightarrow> jsval" where
  "json_norm Undef = Null"
| "json_norm (Num n) = (case n of Fin _ \<Rightarrow> Num n | _ \<Rightarrow> Null)"
| "json_norm (Arr xs) = Arr (map json_norm xs)"
| "json_norm (Obj fs) = Obj (map (\<lambda>(k, v). (k, json_norm v)) (filter (\<lambda>(k, v). v \<noteq> Undef) fs))"
| "json_norm v = v"

lemma json_clean_int [simp]: "\<bar>i\<bar> < 10 ^ 21 \<Longrightarrow> json_clean (jint i)"
proof -
  assume "\<bar>i\<bar> < 10 ^ 21"
  then have "(of_int \<bar>i\<bar> :: rat) < of_int (10 ^ 21)" by (simp only: of_int_less_iff)
  then show ?thesis by simp
qed

lemma json_clean_numE:
  assumes "json_clean (Num n)"
  obtains i where "n = Fin (of_int i)" "\<bar>i\<bar> < 10 ^ 21"
proof -
  obtain r where r: "n = Fin r" "is_int_rat r" "\<bar>r\<bar> < 10 ^ 21"
    using assms by (auto split: jsnum.splits)
  then obtain i where i: "r = of_int i" by (auto simp: is_int_rat_iff)
  with r(3) have "(of_int \<bar>i\<bar> :: rat) < of_int (10 ^ 21)" by simp
  then have "\<bar>i\<bar> < 10 ^ 21" by (simp only: of_int_less_iff)
  with r i that show ?thesis by blast
qed

text \<open>How the text of a value starts: never with white space or a closing bracket.\<close>

definition text_start :: "jsstring \<Rightarrow> bool" where
  "text_start t = (\<exists>u t'. t = u # t' \<and> \<not> is_ws u \<and> u \<noteq> ch CHR '']'' \<and> u \<noteq> ch CHR ''}'')"

lemma text_startI: "\<not> is_ws u \<Longrightarrow> u \<noteq> ch CHR '']'' \<Longrightarrow> u \<noteq> ch CHR ''}'' \<Longrightarrow> text_start (u # t)"
  by (auto simp: text_start_def)

lemma skip_ws_start: "text_start t \<Longrightarrow> skip_ws (t @ rest) = t @ rest"
  by (auto simp: text_start_def skip_ws_def)

lemma is_ws_ch [simp]: "is_ws (ch c) \<longleftrightarrow> c \<in> {CHR 0x09, CHR 0x0A, CHR 0x0D, CHR '' ''}"
proof -
  have "is_ws (ch c) \<longleftrightarrow> (of_char c :: nat) \<in> {of_char (CHR 0x09), of_char (CHR 0x0A), of_char (CHR 0x0D), of_char (CHR '' '')}"
    by (auto simp: is_ws_def)
  then show ?thesis by (simp only: of_char_eq_iff insert_iff empty_iff)
qed

lemma text_start_num:
  assumes "\<bar>i\<bar> < 10 ^ 21"
  shows "\<exists>u t. json_num (Fin (of_int i)) = u # t \<and> (is_digit u \<or> u = ch CHR ''-'')"
proof -
  obtain ds where ds: "radix_str 10 (nat \<bar>i\<bar>) = map dig ds" "\<forall>d\<in>set ds. d < 10" "ds \<noteq> []"
    using radix_digits [of 10 "nat \<bar>i\<bar>"] by auto
  then show ?thesis
    using json_num_of_int [OF assms] by (cases ds) (auto simp: is_digit_dig)
qed

lemma digit_start: "is_digit u \<or> u = ch CHR ''-'' \<Longrightarrow> text_start (u # t)"
  by (rule text_startI) (auto simp: is_digit_def is_ws_def)

lemma json_str_start:
  assumes "json_clean v" "json_str v = Some t"
  shows "text_start t"
proof (cases v)
  case (Num n)
  with assms obtain i where i: "n = Fin (of_int i)" "\<bar>i\<bar> < 10 ^ 21"
    using json_clean_numE by metis
  with Num assms text_start_num [OF i(2)] show ?thesis by (auto intro: digit_start)
qed (use assms in \<open>auto simp: js_def json_quote_def intro!: text_startI split: if_splits\<close>)

lemma json_clean_str: "json_clean v \<Longrightarrow> \<exists>t. json_str v = Some t"
  by (cases v) auto

lemma json_join_Cons: "json_join (t # ts) = t @ (if ts = [] then [] else ch CHR '','' # json_join ts)"
  by (cases ts) auto

lemma json_elems_Nil_iff [simp]: "json_elems xs = [] \<longleftrightarrow> xs = []"
  by (cases xs) auto

lemma json_members_clean_Nil:
  "list_all (\<lambda>(k, v). json_clean v) fs \<Longrightarrow> json_members fs = [] \<longleftrightarrow> fs = []"
  by (cases fs) (auto dest!: json_clean_str)

lemma skip_ws_ch: "c \<notin> {CHR 0x09, CHR 0x0A, CHR 0x0D, CHR '' ''} \<Longrightarrow> skip_ws (ch c # s) = ch c # s"
  by (simp add: skip_ws_def)

lemma digit_start_ch:
  assumes "is_digit u \<or> u = ch CHR ''-''" "\<not> (48 \<le> (of_char c :: nat) \<and> (of_char c :: nat) \<le> 57)" "c \<noteq> CHR ''-''"
  shows "u \<noteq> ch c"
  using assms by (auto simp: is_digit_def)

lemma parse_value_num:
  assumes "\<bar>i\<bar> < 10 ^ 21" "num_stop rest"
  shows "parse_value (Suc n) (json_num (Fin (of_int i)) @ rest) = Some (jint i, rest)"
proof -
  obtain u t where ut: "json_num (Fin (of_int i)) = u # t" "is_digit u \<or> u = ch CHR ''-''"
    using text_start_num [OF assms(1)] by blast
  then have ws: "skip_ws (u # t @ rest) = u # t @ rest"
    using skip_ws_start [OF digit_start [of u t], of rest] by simp
  show ?thesis
    using digit_start_ch [OF ut(2)] parse_num_of_int [OF assms] ws by (simp add: ut(1))
qed

lemma json_roundtrip_aux:
  shows "json_clean v \<Longrightarrow> json_str v = Some t \<Longrightarrow> length t < n \<Longrightarrow> num_stop rest \<Longrightarrow>
      parse_value n (t @ rest) = Some (v, rest)"
    and "list_all json_clean xs \<Longrightarrow> xs \<noteq> [] \<Longrightarrow> Suc (length (json_join (json_elems xs))) < n \<Longrightarrow>
      parse_elems n acc (json_join (json_elems xs) @ ch CHR '']'' # rest) = Some (Arr (acc @ xs), rest)"
    and "list_all (\<lambda>(k, v). json_clean v) fs \<Longrightarrow> fs \<noteq> [] \<Longrightarrow> distinct (map fst (facc @ fs)) \<Longrightarrow>
      Suc (length (json_join (json_members fs))) < n \<Longrightarrow>
      parse_members n facc (json_join (json_members fs) @ ch CHR ''}'' # rest) = Some (Obj (facc @ fs), rest)"
proof (induction v and xs and fs arbitrary: t n rest and n acc rest and n facc rest
    rule: json_str_json_elems_json_members.induct)
  case (4 m)
  then obtain i where i: "m = Fin (of_int i)" "\<bar>i\<bar> < 10 ^ 21"
    using json_clean_numE by metis
  from 4 obtain n' where "n = Suc n'" by (cases n) auto
  with 4 i parse_value_num [OF i(2)] show ?case by simp
next
  case (5 s)
  then obtain n' where "n = Suc n'" by (cases n) auto
  with 5 show ?case by (auto simp: json_quote_def skip_ws_ch parse_chars_quote_units)
next
  case (6 xs)
  then obtain n' where n: "n = Suc n'" "Suc (length (json_join (json_elems xs))) < n'"
    by (cases n) (auto simp: js_def)
  show ?case
  proof (cases "xs = []")
    case True
    with 6 n show ?thesis by (auto simp: skip_ws_ch js_def)
  next
    case False
    then obtain x ys where xs: "xs = x # ys" by (cases xs) auto
    with "6.prems"(1) obtain tx where tx: "json_str x = Some tx" "json_clean x"
      using json_clean_str [of x] by auto
    then have "text_start tx" by (rule json_str_start [rotated])
    then obtain u t' where u: "tx = u # t'" "\<not> is_ws u" "u \<noteq> ch CHR '']''"
      by (auto simp: text_start_def)
    let ?j = "json_join (json_elems xs) @ ch CHR '']'' # rest"
    obtain j' where j: "?j = u # j'"
      using xs tx u by (auto simp: json_join_Cons)
    have "parse_elems n' [] ?j = Some (Arr xs, rest)"
      using "6.IH" [of n' "[]" rest] "6.prems" n False by simp
    moreover have "t @ rest = ch CHR ''['' # ?j"
      using "6.prems" by (auto simp: js_def)
    ultimately show ?thesis
      using u j n(1) by (simp add: skip_ws_ch) (simp add: skip_ws_def)
  qed
next
  case (7 fs)
  then obtain n' where n: "n = Suc n'" "Suc (length (json_join (json_members fs))) < n'"
    by (cases n) (auto simp: js_def)
  show ?case
  proof (cases "fs = []")
    case True
    with 7 n show ?thesis by (auto simp: skip_ws_ch js_def)
  next
    case False
    then obtain k v gs where fs: "fs = (k, v) # gs" by (cases fs) auto
    with "7.prems"(1) obtain tv where tv: "json_str v = Some tv"
      using json_clean_str [of v] by auto
    let ?j = "json_join (json_members fs) @ ch CHR ''}'' # rest"
    obtain j' where j: "?j = ch CHR 0x22 # j'"
      using fs tv by (auto simp: json_join_Cons json_quote_def)
    have "parse_members n' [] ?j = Some (Obj fs, rest)"
      using "7.IH" [of "[]" n' rest] "7.prems" n False by simp
    moreover have "t @ rest = ch CHR ''{'' # ?j"
      using "7.prems" by (auto simp: js_def)
    ultimately show ?thesis
      using j n(1) by (simp add: skip_ws_ch)
  qed
next
  case (10 x xs)
  then obtain tx where tx: "json_str x = Some tx" using json_clean_str [of x] by auto
  obtain m where n: "n = Suc m" using "10.prems" by (cases n) auto
  let ?tail = "if xs = [] then ch CHR '']'' # rest else ch CHR '','' # json_join (json_elems xs) @ ch CHR '']'' # rest"
  have split: "json_join (json_elems (x # xs)) @ ch CHR '']'' # rest = tx @ ?tail"
    by (simp add: json_join_Cons tx)
  have len: "length tx < m"
    using "10.prems" n by (auto simp: json_join_Cons tx split: if_splits)
  have val: "parse_value m (tx @ ?tail) = Some (x, ?tail)"
    using "10.IH"(1) [of tx m ?tail] "10.prems" tx len by simp
  show ?case
  proof (cases "xs = []")
    case True
    with val n tx show ?thesis by (simp add: skip_ws_ch)
  next
    case False
    then have "parse_elems m (acc @ [x]) (json_join (json_elems xs) @ ch CHR '']'' # rest) =
        Some (Arr ((acc @ [x]) @ xs), rest)"
      using "10.IH"(2) [of m "acc @ [x]" rest] "10.prems" n by (simp add: json_join_Cons tx)
    with False val n split show ?thesis by (simp add: skip_ws_ch)
  qed
next
  case (12 k v fs)
  then obtain tv where tv: "json_str v = Some tv" using json_clean_str [of v] by auto
  obtain m where n: "n = Suc m" using "12.prems" by (cases n) auto
  have nil: "json_members fs = [] \<longleftrightarrow> fs = []"
    using "12.prems"(1) by (intro json_members_clean_Nil) simp
  let ?tail = "if fs = [] then ch CHR ''}'' # rest else ch CHR '','' # json_join (json_members fs) @ ch CHR ''}'' # rest"
  have split: "json_join (json_members ((k, v) # fs)) @ ch CHR ''}'' # rest =
      ch CHR 0x22 # quote_units k @ ch CHR 0x22 # ch CHR '':'' # tv @ ?tail"
    by (simp add: json_join_Cons tv nil json_quote_def)
  have len: "length tv < m"
    using "12.prems" n by (auto simp: json_join_Cons tv json_quote_def split: if_splits)
  have val: "parse_value m (tv @ ?tail) = Some (v, ?tail)"
    using "12.IH"(1) [of tv m ?tail] "12.prems" tv len by simp
  have fresh: "al_set k v facc = facc @ [(k, v)]"
    using "12.prems"(3) by (intro al_set_fresh) auto
  note step = skip_ws_ch parse_chars_quote_units fresh
  show ?case
  proof (cases "fs = []")
    case True
    with val n tv show ?thesis unfolding split by (simp add: step)
  next
    case False
    then have "parse_members m (facc @ [(k, v)]) (json_join (json_members fs) @ ch CHR ''}'' # rest) =
        Some (Obj ((facc @ [(k, v)]) @ fs), rest)"
      using "12.IH"(3) [OF tv, of "facc @ [(k, v)]" m rest] "12.prems" n tv
      by (simp add: json_join_Cons nil)
    with False val n show ?thesis unfolding split by (simp add: step)
  qed
next
  case 2
  then obtain m where "n = Suc m" by (cases n) auto
  with 2 show ?case by (auto simp: js_def skip_ws_ch)
next
  case (3 b)
  then obtain m where "n = Suc m" by (cases n) auto
  with 3 show ?case by (auto simp: js_def skip_ws_ch)
qed auto

text \<open>Printing then parsing: the identity on clean values.\<close>

theorem json_parse_str:
  assumes "json_clean v" "json_str v = Some t"
  shows "json_parse t = Some v"
  using json_roundtrip_aux(1) [OF assms, of "2 * length t + 2" "[]"]
  by (simp add: json_parse_def skip_ws_def)

subsection \<open>The parser's fuel\<close>

lemma skip_ws_length: "length (skip_ws s) \<le> length s"
  by (simp add: skip_ws_def length_dropWhile_le)

lemma skip_ws_Cons_length: "skip_ws s = u # t \<Longrightarrow> length t < length s"
  using skip_ws_length [of s] by simp

lemma take_digits_length: "take_digits s = (ds, t) \<Longrightarrow> length s = length ds + length t"
proof -
  assume "take_digits s = (ds, t)"
  then have "length ds = length (takeWhile is_digit s)" "t = dropWhile is_digit s"
    by (auto simp: take_digits_def)
  then show ?thesis by (metis length_append takeWhile_dropWhile_id)
qed

lemma parse_frac_length: "parse_frac s = Some (fs, t) \<Longrightarrow> length t \<le> length s"
  by (auto simp: parse_frac_def split: list.splits if_splits prod.splits dest: take_digits_length)

lemma parse_exp_length: "parse_exp s = Some (e, t) \<Longrightarrow> length t \<le> length s"
  by (auto simp: parse_exp_def Let_def split: list.splits if_splits prod.splits dest!: take_digits_length)

lemma parse_num_length: "parse_num s = Some (v, t) \<Longrightarrow> length t < length s"
proof -
  assume p: "parse_num s = Some (v, t)"
  obtain neg s1 where s1: "(case s of [] \<Rightarrow> (False, s) | u # t \<Rightarrow> if u = ch CHR ''-'' then (True, t) else (False, s)) = (neg, s1)"
    by fastforce
  then have "length s1 \<le> length s" by (auto split: list.splits if_splits)
  moreover obtain ds s2 where s2: "take_digits s1 = (ds, s2)" by fastforce
  moreover have "ds \<noteq> []" using p s1 s2 by (auto simp: parse_num_def split: if_splits)
  moreover have "length t \<le> length s2"
    using p s1 s2 by (auto simp: parse_num_def split: if_splits option.splits
        dest!: parse_frac_length parse_exp_length)
  ultimately show ?thesis using take_digits_length [OF s2] by (cases ds) auto
qed

lemma strip_word_length: "strip_word w s = Some t \<Longrightarrow> length s = length w + length t"
  by (induction w s rule: strip_word.induct) (auto split: if_splits)

lemma parse_value_step_length:
  assumes el: "\<And>xs s v t. parse_elems n xs s = Some (v, t) \<Longrightarrow> length t < length s"
    and mem: "\<And>fs s v t. parse_members n fs s = Some (v, t) \<Longrightarrow> length t < length s"
    and p: "parse_value (Suc n) s = Some (v, t)"
  shows "length t < length s"
proof -
  from p obtain u r where u: "skip_ws s = u # r" by (auto split: list.splits)
  then have len: "length r < length s" by (rule skip_ws_Cons_length)
  have c: "skip_ws r = c # r' \<Longrightarrow> length (c # r') < length s" for c r'
    using skip_ws_length [of r] len by simp
  consider (obj) "u = ch CHR ''{''" | (arr) "u = ch CHR ''[''" | (str) "u = ch CHR 0x22"
    | (t) "u = ch CHR ''t''" | (f) "u = ch CHR ''f''" | (n) "u = ch CHR ''n''"
    | (num) "u \<noteq> ch CHR ''{''" "u \<noteq> ch CHR ''[''" "u \<noteq> ch CHR 0x22" "u \<noteq> ch CHR ''t''"
        "u \<noteq> ch CHR ''f''" "u \<noteq> ch CHR ''n''"
    by blast
  then show ?thesis
  proof cases
    case obj
    with p u show ?thesis by (auto split: list.splits if_splits dest!: c mem)
  next
    case arr
    with p u show ?thesis by (auto split: list.splits if_splits dest!: c el)
  next
    case str
    with p u len show ?thesis by (auto dest: parse_chars_shorter)
  next
    case num
    with p u have "parse_num (u # r) = Some (v, t)" by simp
    then show ?thesis using len parse_num_length by fastforce
  qed (use p u len in \<open>auto dest!: strip_word_length\<close>)
qed

lemma parse_length_all:
  "(\<forall>s v t. parse_value n s = Some (v, t) \<longrightarrow> length t < length s) \<and>
   (\<forall>xs s v t. parse_elems n xs s = Some (v, t) \<longrightarrow> length t < length s) \<and>
   (\<forall>fs s v t. parse_members n fs s = Some (v, t) \<longrightarrow> length t < length s)"
proof (induction n)
  case (Suc n)
  have v: "length t < length s" if "parse_value n s = Some (v, t)" for s v t using Suc that by blast
  have e: "length t < length s" if "parse_elems n xs s = Some (v, t)" for xs s v t using Suc that by blast
  have m: "length t < length s" if "parse_members n fs s = Some (v, t)" for fs s v t using Suc that by blast
  show ?case
  proof (intro conjI allI impI)
    fix s w t assume "parse_value (Suc n) s = Some (w, t)"
    then show "length t < length s" using parse_value_step_length e m by blast
  next
    fix xs s w t assume "parse_elems (Suc n) xs s = Some (w, t)"
    then show "length t < length s"
      by (fastforce split: option.splits list.splits if_splits prod.splits
          dest!: v e skip_ws_Cons_length)
  next
    fix fs s w t assume "parse_members (Suc n) fs s = Some (w, t)"
    then show "length t < length s"
      by (fastforce split: option.splits list.splits if_splits prod.splits
          dest!: v m skip_ws_Cons_length parse_chars_shorter)
  qed
qed simp

lemma parse_value_length: "parse_value n s = Some (v, t) \<Longrightarrow> length t < length s"
  using parse_length_all [of n] by blast

lemma parse_fuel_step:
  "(\<forall>s. 2 * length s + 2 \<le> n \<longrightarrow> parse_value (Suc n) s = parse_value n s) \<and>
   (\<forall>xs s. 2 * length s + 3 \<le> n \<longrightarrow> parse_elems (Suc n) xs s = parse_elems n xs s) \<and>
   (\<forall>fs s. 2 * length s + 3 \<le> n \<longrightarrow> parse_members (Suc n) fs s = parse_members n fs s)"
proof (induction n)
  case (Suc n)
  have v: "parse_value (Suc n) s = parse_value n s" if "2 * length s + 2 \<le> n" for s using Suc that by blast
  have e: "parse_elems (Suc n) xs s = parse_elems n xs s" if "2 * length s + 3 \<le> n" for xs s using Suc that by blast
  have m: "parse_members (Suc n) fs s = parse_members n fs s" if "2 * length s + 3 \<le> n" for fs s using Suc that by blast
  have ws2: "2 * length (c # r') + 3 \<le> n"
    if "2 * length s + 2 \<le> Suc n" "skip_ws s = u # r" "skip_ws r = c # r'" for s u r c r'
    using that skip_ws_length [of r] skip_ws_length [of s] by simp
  have "parse_value (Suc (Suc n)) s = parse_value (Suc n) s" if s: "2 * length s + 2 \<le> Suc n" for s
    unfolding parse_value.simps(2) [of "Suc n" s] parse_value.simps(2) [of n s]
    by (auto simp del: parse_value.simps parse_elems.simps parse_members.simps
        intro!: e m ws2 [OF s] split: list.splits)
  moreover have "parse_elems (Suc (Suc n)) xs s = parse_elems (Suc n) xs s"
    if s: "2 * length s + 3 \<le> Suc n" for xs s
  proof -
    have "parse_value (Suc n) s = parse_value n s" using s by (intro v) simp
    moreover have "parse_elems (Suc n) ys r = parse_elems n ys r"
      if "parse_value n s = Some (w, t)" "skip_ws t = d # r" for ys r w t d
      using parse_value_length [OF that(1)] skip_ws_Cons_length [OF that(2)] s by (intro e) simp
    ultimately show ?thesis
      unfolding parse_elems.simps(2) [of "Suc n" xs s] parse_elems.simps(2) [of n xs s]
      by (auto simp del: parse_value.simps parse_elems.simps parse_members.simps
          split: list.splits option.splits)
  qed
  moreover have "parse_members (Suc (Suc n)) fs s = parse_members (Suc n) fs s"
    if s: "2 * length s + 3 \<le> Suc n" for fs s
  proof -
    have len: "length r < length s" if "skip_ws s = q # t" "parse_chars t = Some (k, t1)" "skip_ws t1 = c # r" for q t k t1 c r
      using skip_ws_Cons_length [OF that(1)] parse_chars_shorter [OF that(2)] skip_ws_Cons_length [OF that(3)] by simp
    have pv: "parse_value (Suc n) r = parse_value n r" if "length r < length s" for r
      using that s by (intro v) simp
    have pm: "parse_members (Suc n) ys r' = parse_members n ys r'"
      if "length r < length s" "parse_value n r = Some (w, t)" "skip_ws t = d # r'" for ys r w t d r'
      using that(1) parse_value_length [OF that(2)] skip_ws_Cons_length [OF that(3)] s by (intro m) simp
    have cont: "(case parse_value (Suc n) r of None \<Rightarrow> None | Some (w, t) \<Rightarrow> (case skip_ws t of [] \<Rightarrow> None
          | d # u \<Rightarrow> if d = ch CHR '','' then parse_members (Suc n) (al_set k w fs) u
                   else if d = ch CHR ''}'' then Some (Obj (al_set k w fs), u) else None)) =
        (case parse_value n r of None \<Rightarrow> None | Some (w, t) \<Rightarrow> (case skip_ws t of [] \<Rightarrow> None
          | d # u \<Rightarrow> if d = ch CHR '','' then parse_members n (al_set k w fs) u
                   else if d = ch CHR ''}'' then Some (Obj (al_set k w fs), u) else None))"
      if r: "length r < length s" for r k
      unfolding pv [OF r] using pm [OF r] by (auto split: list.splits option.splits)
    show ?thesis
    proof (cases "\<exists>q t k t1 c t2. skip_ws s = q # t \<and> parse_chars t = Some (k, t1) \<and> skip_ws t1 = c # t2")
      case True
      then obtain q t k t1 c t2 where
        eqs: "skip_ws s = q # t" "parse_chars t = Some (k, t1)" "skip_ws t1 = c # t2"
        by (elim exE conjE)
      show ?thesis
        unfolding parse_members.simps(2) [of "Suc n" fs s] parse_members.simps(2) [of n fs s]
        by (simp only: eqs list.case option.case prod.case cont [OF len [OF eqs]])
    next
      case False
      then have "parse_members (Suc m) fs s = None" for m
        unfolding parse_members.simps(2) [of m fs s]
        by (cases "skip_ws s"; cases "parse_chars (tl (skip_ws s))";
            cases "skip_ws (snd (the (parse_chars (tl (skip_ws s)))))")
          (auto simp del: parse_value.simps parse_elems.simps parse_members.simps)
      then show ?thesis by simp
    qed
  qed
  ultimately show ?case by blast
qed simp

text \<open>More fuel than \<open>json_parse\<close> gives the parser changes nothing.\<close>

theorem parse_value_fuel:
  assumes "2 * length s + 2 \<le> n"
  shows "parse_value n s = parse_value (2 * length s + 2) s"
  using assms
proof (induction n rule: dec_induct)
  case (step n)
  then show ?case using parse_fuel_step [of n] by simp
qed simp

subsection \<open>Values that JSON changes\<close>

lemma json_str_Undef: "json_str v = None \<longleftrightarrow> v = Undef"
  by (cases v) auto

lemma json_num_norm: "json_str (json_norm (Num n)) = json_str (Num n)"
  by (cases n) (auto simp: json_num_def)

text \<open>A value and its normal form print alike (\<open>undefined\<close> alone prints as nothing).\<close>

lemma json_str_norm:
  "v \<noteq> Undef \<Longrightarrow> json_str (json_norm v) = json_str v"
  "json_elems (map json_norm xs) = json_elems xs"
  "json_members (map (\<lambda>(k, v). (k, json_norm v)) (filter (\<lambda>(k, v). v \<noteq> Undef) fs)) = json_members fs"
proof (induction v and xs and fs rule: json_str_json_elems_json_members.induct)
  case (10 x xs)
  then show ?case by (cases "x = Undef") auto
next
  case (12 k v fs)
  then show ?case
    by (cases "json_str v") (auto simp: json_str_Undef)
qed (auto simp: json_num_def split: jsnum.splits)

text \<open>Which values have a clean normal form.\<close>

fun json_data :: "jsval \<Rightarrow> bool" where
  "json_data (Num n) = (case n of Fin r \<Rightarrow> is_int_rat r \<and> \<bar>r\<bar> < 10 ^ 21 | _ \<Rightarrow> True)"
| "json_data (Arr xs) = list_all json_data xs"
| "json_data (Obj fs) = (distinct (map fst fs) \<and> list_all (\<lambda>(k, v). json_data v) fs)"
| "json_data (U8 bs) = False"
| "json_data _ = True"

lemma distinct_filter_map_fst:
  "distinct (map fst fs) \<Longrightarrow> distinct (map fst (map (\<lambda>(k, v). (k, f v)) (filter P fs)))"
  by (induction fs) (auto simp: image_iff)

lemma json_clean_norm: "json_data v \<Longrightarrow> json_clean (json_norm v)"
proof (induction v rule: json_data.induct)
  case (3 fs)
  have "list_all (\<lambda>(k, v). json_clean v) (map (\<lambda>(k, v). (k, json_norm v)) (filter (\<lambda>(k, v). v \<noteq> Undef) fs))"
    using 3 by (auto simp: list_all_iff)
  with 3 show ?case
    using distinct_filter_map_fst [of fs json_norm "\<lambda>(k, v). v \<noteq> Undef"] by simp
qed (auto simp: list_all_iff split: jsnum.splits)

theorem json_parse_norm:
  assumes "json_data v" "json_str v = Some t"
  shows "json_parse t = Some (json_norm v)"
proof (rule json_parse_str)
  show "json_clean (json_norm v)" using assms(1) by (rule json_clean_norm)
  show "json_str (json_norm v) = Some t" using assms json_str_norm(1) [of v] by (cases "v = Undef") auto
qed

lemma json_clean_data: "json_clean v \<Longrightarrow> json_data v"
  by (induction v rule: json_data.induct) (auto simp: list_all_iff split: jsnum.splits)

lemma json_clean_norm_id: "json_clean v \<Longrightarrow> json_norm v = v"
proof (induction v rule: json_clean.induct)
  case (7 fs)
  have "\<forall>x\<in>set fs. (case x of (k, v) \<Rightarrow> v \<noteq> Undef) \<and> (case x of (k, v) \<Rightarrow> (k, json_norm v)) = x"
    using 7 by (fastforce simp: list_all_iff)
  then have "filter (\<lambda>(k, v). v \<noteq> Undef) fs = fs" "map (\<lambda>(k, v). (k, json_norm v)) fs = fs"
    by (auto simp: filter_id_conv map_idI)
  then show ?case by simp
qed (auto simp: list_all_iff map_idI split: jsnum.splits)

subsection \<open>The printed text survives UTF-8\<close>

lemma well_formed_append:
  "well_formed s \<Longrightarrow> well_formed t \<Longrightarrow> well_formed (s @ t)"
proof (induction s rule: well_formed.induct)
  case (2 u)
  then show ?case by (cases t) auto
qed (auto split: if_splits)

lemma well_formed_plain: "(\<forall>u\<in>set s. \<not> is_high u \<and> \<not> is_low u) \<Longrightarrow> well_formed s"
  by (induction s rule: well_formed.induct) auto

lemma ch_not_surrogate [simp]: "\<not> is_high (ch c)" "\<not> is_low (ch c)"
proof -
  have "(of_char c :: nat) < 0xD800" by (rule less_trans [OF nat_of_char_less_256]) simp
  then show "\<not> is_high (ch c)" "\<not> is_low (ch c)" by (auto simp: is_high_def is_low_def)
qed

lemma well_formed_js [simp]: "well_formed (js s)"
  by (rule well_formed_plain) (auto simp: js_def)

lemma well_formed_ch_Cons [simp]: "well_formed (ch c # s) \<longleftrightarrow> well_formed s"
  by (cases s) auto

lemma dig_not_surrogate: "d < 36 \<Longrightarrow> \<not> is_high (dig d) \<and> \<not> is_low (dig d)"
  by (auto simp: is_high_def is_low_def unat_dig)

lemma well_formed_radix [simp]:
  assumes "2 \<le> b" "b \<le> 36"
  shows "well_formed (radix_str b n)"
proof -
  obtain ds where "radix_str b n = map dig ds" "\<forall>d\<in>set ds. d < b"
    using radix_digits [OF assms(1)] by blast
  then show ?thesis
    using assms(2) by (intro well_formed_plain) (auto simp: dig_not_surrogate dest!: bspec)
qed

lemma well_formed_hex4: "n < 65536 \<Longrightarrow> well_formed (hex4 n)"
  by (rule well_formed_plain) (auto simp: hex4_def dig_not_surrogate)

lemma well_formed_esc: "well_formed (esc_unit u)"
  by (auto simp: esc_unit_def well_formed_hex4)

lemma well_formed_quote_units: "well_formed (quote_units s)"
proof (induction s rule: quote_units.induct)
  case (3 u v s)
  then show ?case by (auto intro: well_formed_append well_formed_esc)
qed (auto intro: well_formed_esc)

lemma well_formed_json_quote [simp]: "well_formed (json_quote s)"
  by (simp add: json_quote_def well_formed_append well_formed_quote_units)

lemma well_formed_join: "(\<And>t. t \<in> set ts \<Longrightarrow> well_formed t) \<Longrightarrow> well_formed (json_join ts)"
  by (induction ts rule: json_join.induct) (auto intro: well_formed_append)

lemma json_clean_well_formed:
  "json_clean v \<Longrightarrow> json_str v = Some t \<Longrightarrow> well_formed t"
  "list_all json_clean xs \<Longrightarrow> t \<in> set (json_elems xs) \<Longrightarrow> well_formed t"
  "list_all (\<lambda>(k, v). json_clean v) fs \<Longrightarrow> t \<in> set (json_members fs) \<Longrightarrow> well_formed t"
proof (induction v and xs and fs arbitrary: t and t and t rule: json_str_json_elems_json_members.induct)
  case (4 n)
  then obtain i where "n = Fin (of_int i)" "\<bar>i\<bar> < 10 ^ 21" using json_clean_numE by metis
  with 4 show ?case by (auto simp: json_num_of_int split: if_splits)
qed (auto intro!: well_formed_append well_formed_join split: option.splits if_splits)

lemma utf8_encode_Nil: "utf8_encode s = [] \<longleftrightarrow> s = []"
proof (cases "scalars s")
  case Nil
  then show ?thesis by (cases s rule: scalars.cases) (auto simp: utf8_encode_def split: if_splits)
next
  case (Cons cp cps)
  then have "s \<noteq> []" by auto
  with Cons utf8_seq_length [of cp] show ?thesis by (auto simp: utf8_encode_def)
qed

lemma json_str_hd: "json_str v = Some t \<Longrightarrow> json_clean v \<Longrightarrow> t = [] \<or> hd t \<noteq> 0xFEFF"
proof (cases v)
  case (Num n)
  assume v: "json_str v = Some t" "json_clean v"
  with Num obtain i where i: "n = Fin (of_int i)" "\<bar>i\<bar> < 10 ^ 21"
    using json_clean_numE by metis
  with text_start_num [OF i(2)] Num v show ?thesis
    by (auto simp: is_digit_def ch_def)
qed (auto simp: js_def json_quote_def ch_def split: if_splits)

text \<open>\<open>JSON.parse(new TextDecoder().decode(new TextEncoder().encode(JSON.stringify(v))))\<close>.\<close>

theorem json_utf8_roundtrip:
  assumes "json_data v" "json_str v = Some t"
  shows "json_parse (utf8_decode (utf8_encode t)) = Some (json_norm v)"
proof -
  have n: "json_clean (json_norm v)" "json_str (json_norm v) = Some t"
    using assms json_clean_norm json_str_norm(1) [of v] by (cases "v = Undef"; auto)+
  then have "utf8_decode (utf8_encode t) = t"
    by (intro utf8_decode_encode json_clean_well_formed(1) json_str_hd)
  with json_parse_norm [OF assms] show ?thesis by simp
qed

subsection \<open>Sizes\<close>

lemma length_esc_unit: "length (esc_unit u) \<le> 6"
  by (simp add: esc_unit_def hex4_def)

lemma length_quote_units: "length (quote_units s) \<le> 6 * length s"
proof (induction s rule: quote_units.induct)
  case (2 u)
  then show ?case using length_esc_unit [of u] by simp
next
  case (3 u v s)
  then show ?case using length_esc_unit [of u] by auto
qed simp

lemma length_json_quote: "length (json_quote s) \<le> 6 * length s + 2"
  using length_quote_units [of s] by (simp add: json_quote_def)

lemma length_radix_str: "2 \<le> b \<Longrightarrow> n < b ^ k \<Longrightarrow> 0 < k \<Longrightarrow> length (radix_str b n) \<le> k"
proof (induction k arbitrary: n)
  case (Suc k)
  show ?case
  proof (cases "n < b")
    case True
    then show ?thesis by (subst radix_str.simps) simp
  next
    case False
    have k: "0 < k" using False Suc.prems(2) by (cases k) auto
    have "n div b < b ^ k"
      using Suc.prems(2) by (simp add: less_mult_imp_div_less mult.commute)
    then have "length (radix_str b (n div b)) \<le> k" using Suc.IH [OF Suc.prems(1) _ k] by blast
    then show ?thesis using False Suc.prems(1) by (subst radix_str.simps) simp
  qed
qed simp

lemma length_utf8_encode: "length (utf8_encode s) \<le> 3 * length s"
proof (induction s rule: scalars.induct)
  case (2 u)
  have "unat u < 0x10000" by simp
  then show ?case by (auto simp: utf8_encode_def scalar_of_def utf8_seq_def)
next
  case (3 u v s)
  have "unat u < 0x10000" by simp
  then have "length (utf8_seq (scalar_of u)) \<le> 3" by (auto simp: scalar_of_def utf8_seq_def)
  with 3 show ?case
    using utf8_seq_length [of "0x10000 + (unat u - 0xD800) * 0x400 + (unat v - 0xDC00)"]
    by (auto simp: utf8_encode_def)
qed (simp add: utf8_encode_def)

subsection \<open>Plain text\<close>

text \<open>ASCII that JSON does not escape.\<close>

definition plain_unit :: "jschar \<Rightarrow> bool" where
  "plain_unit u = (0x20 \<le> unat u \<and> unat u < 128 \<and> u \<noteq> ch CHR 0x22 \<and> u \<noteq> ch CHR 0x5C)"

lemma plain_esc: "plain_unit u \<Longrightarrow> esc_unit u = [u]"
  by (simp add: plain_unit_def esc_unit_def is_high_def is_low_def)

lemma quote_units_plain: "list_all plain_unit s \<Longrightarrow> quote_units s = s"
  by (induction s rule: quote_units.induct) (auto simp: plain_esc)

lemma json_quote_plain: "list_all plain_unit s \<Longrightarrow> json_quote s = ch CHR 0x22 # s @ [ch CHR 0x22]"
  by (simp add: json_quote_def quote_units_plain)

lemma length_utf8_ascii: "list_all (\<lambda>u. unat u < 128) s \<Longrightarrow> length (utf8_encode s) = length s"
proof (induction s rule: scalars.induct)
  case (2 u)
  then show ?case by (auto simp: utf8_encode_def scalar_of_def utf8_seq_def is_high_def is_low_def)
next
  case (3 u v s)
  then show ?case by (auto simp: utf8_encode_def scalar_of_def utf8_seq_def is_high_def is_low_def)
qed (simp add: utf8_encode_def)

end
