(* ===== verification/Base64url.thy ===== *)
theory Base64url
  imports JS_Regex JS_Unicode
begin

text \<open>
  The base64url codec of \<open>protocol/src/bundle.ts\<close>, \<open>protocol/src/invite.ts\<close> and
  \<open>manifest/src/index.ts\<close>: three copies of the same two functions, which differ only in the error
  class they throw. Bytes and table indices are the 32-bit integers JavaScript's bitwise operators
  work on; storing into the output array keeps the low 8 bits. The theory shows that decoding
  inverts encoding, what decoding accepts and how long its results are, and that the third error
  of the decoder ("invalid base64url digit") is never thrown.
\<close>

subsection \<open>The codec\<close>

definition B64_ALPHABET :: jsstring where
  "B64_ALPHABET = js ''ABCDEFGHIJKLMNOPQRSTUVWXYZabcdefghijklmnopqrstuvwxyz0123456789-_''"

definition b64_digit :: "32 word \<Rightarrow> jschar" where
  "b64_digit i = B64_ALPHABET ! unat i"

text \<open>The loop over groups of three bytes, and the one or two bytes left over.\<close>

fun b64_encode32 :: "32 word list \<Rightarrow> jsstring" where
  "b64_encode32 (a # b # c # rest) =
     [b64_digit (drop_bit 2 a),
      b64_digit (push_bit 4 (a AND 3) OR drop_bit 4 b),
      b64_digit (push_bit 2 (b AND 15) OR drop_bit 6 c),
      b64_digit (c AND 63)] @ b64_encode32 rest"
| "b64_encode32 [a] = [b64_digit (drop_bit 2 a), b64_digit (push_bit 4 (a AND 3))]"
| "b64_encode32 [a, b] =
     [b64_digit (drop_bit 2 a),
      b64_digit (push_bit 4 (a AND 3) OR drop_bit 4 b),
      b64_digit (push_bit 2 (b AND 15))]"
| "b64_encode32 [] = []"

definition b64_encode :: "bytes \<Rightarrow> jsstring" where
  "b64_encode bs = b64_encode32 (map ucast bs)"

text \<open>
  \<open>lookup[s.charCodeAt(i)] ?? -1\<close>: the \<open>Int8Array\<close> of 128 entries filled with -1 and then with the
  position of each letter of the alphabet; outside the array, -1.
\<close>

fun index_from :: "nat \<Rightarrow> jschar \<Rightarrow> jsstring \<Rightarrow> nat option" where
  "index_from i c [] = None"
| "index_from i c (d # ds) = (if c = d then Some i else index_from (Suc i) c ds)"

definition b64_lookup :: "jschar \<Rightarrow> 32 word" where
  "b64_lookup c = (case index_from 0 c B64_ALPHABET of None \<Rightarrow> -1 | Some i \<Rightarrow> word_of_nat i)"

text \<open>The groups of four digits, then the tail; \<open>None\<close> is the digit error (a negative value of the
  disjunction of the digits).\<close>

fun b64_groups :: "jsstring \<Rightarrow> bytes option" where
  "b64_groups (w # x # y # z # rest) =
     (let a = b64_lookup w; b = b64_lookup x; c = b64_lookup y; d = b64_lookup z in
      if sint (a OR b OR c OR d) < 0 then None
      else map_option (append
             [ucast (push_bit 2 a OR drop_bit 4 b),
              ucast (push_bit 4 (b AND 15) OR drop_bit 2 c),
              ucast (push_bit 6 (c AND 3) OR d)]) (b64_groups rest))"
| "b64_groups [w, x, y] =
     (let a = b64_lookup w; b = b64_lookup x; c = b64_lookup y in
      if sint (a OR b OR c) < 0 then None
      else Some [ucast (push_bit 2 a OR drop_bit 4 b), ucast (push_bit 4 (b AND 15) OR drop_bit 2 c)])"
| "b64_groups [w, x] =
     (let a = b64_lookup w; b = b64_lookup x in
      if sint (a OR b) < 0 then None else Some [ucast (push_bit 2 a OR drop_bit 4 b)])"
| "b64_groups [w] = Some []"
| "b64_groups [] = Some []"

definition B64_CLASS :: rx where
  "B64_CLASS = Star (Cls [(CHR ''A'', CHR ''Z''), (CHR ''a'', CHR ''z''), (CHR ''0'', CHR ''9''),
     (CHR ''_'', CHR ''_''), (CHR ''-'', CHR ''-'')])"

text \<open>\<open>cls\<close> is the error class of the copy, \<open>what\<close> its message for a character outside the alphabet.\<close>

definition b64_decode :: "string \<Rightarrow> string \<Rightarrow> jsstring \<Rightarrow> err + bytes" where
  "b64_decode cls what s =
     (if \<not> rx_match B64_CLASS s then Inl (Thrown cls what)
      else if length s mod 4 = 1 then Inl (Thrown cls ''invalid base64url length'')
      else (case b64_groups s of
          None \<Rightarrow> Inl (Thrown cls ''invalid base64url digit'')
        | Some bs \<Rightarrow> Inr bs))"

subsection \<open>The three copies\<close>

definition bundle_base64urlEncode :: "bytes \<Rightarrow> jsstring" where
  "bundle_base64urlEncode bs = b64_encode bs"

definition bundle_base64urlDecode :: "jsstring \<Rightarrow> err + bytes" where
  "bundle_base64urlDecode s = b64_decode ''BundleValidationError'' ''bundle is not base64url'' s"

definition invite_base64urlEncode :: "bytes \<Rightarrow> jsstring" where
  "invite_base64urlEncode bs = b64_encode bs"

definition invite_base64urlDecode :: "jsstring \<Rightarrow> err + bytes" where
  "invite_base64urlDecode s = b64_decode ''InviteValidationError'' ''invite is not base64url'' s"

definition manifest_base64urlEncode :: "bytes \<Rightarrow> jsstring" where
  "manifest_base64urlEncode bs = b64_encode bs"

definition manifest_base64urlDecode :: "jsstring \<Rightarrow> err + bytes" where
  "manifest_base64urlDecode s = b64_decode ''ManifestSignatureError'' ''not base64url'' s"

lemmas b64_copies = bundle_base64urlEncode_def bundle_base64urlDecode_def
  invite_base64urlEncode_def invite_base64urlDecode_def
  manifest_base64urlEncode_def manifest_base64urlDecode_def

subsection \<open>Digits\<close>

lemma index_from_Some:
  "index_from i c ds = Some j \<longleftrightarrow> i \<le> j \<and> j - i < length ds \<and> ds ! (j - i) = c \<and> c \<notin> set (take (j - i) ds)"
proof (induction i c ds rule: index_from.induct)
  case (2 i c d ds)
  show ?case
  proof (cases "j = i")
    case False
    then show ?thesis
      using 2 by (cases "j - i") (auto simp: Suc_le_eq Suc_diff_Suc [symmetric])
  qed (use 2 in auto)
qed simp

lemma b64_units: "map unat B64_ALPHABET = [65..<91] @ [97..<123] @ [48..<58] @ [45, 95]"
  by (simp add: B64_ALPHABET_def js_def upt_rec)

lemma length_b64_alphabet [simp]: "length B64_ALPHABET = 64"
  by (simp add: B64_ALPHABET_def)

lemma distinct_b64_alphabet: "distinct B64_ALPHABET"
proof -
  have "distinct (map unat B64_ALPHABET)"
    unfolding b64_units by simp
  then show ?thesis by (simp add: distinct_map)
qed

definition B64_RANGES :: "(char \<times> char) list" where
  "B64_RANGES = [(CHR ''A'', CHR ''Z''), (CHR ''a'', CHR ''z''), (CHR ''0'', CHR ''9''),
     (CHR ''_'', CHR ''_''), (CHR ''-'', CHR ''-'')]"

lemma b64_class_alphabet: "in_cls B64_RANGES c \<longleftrightarrow> c \<in> set B64_ALPHABET"
proof -
  have "inj (unat :: jschar \<Rightarrow> nat)" by (rule injI) (simp add: word_unat_eq_iff)
  then have "c \<in> set B64_ALPHABET \<longleftrightarrow> unat c \<in> unat ` set B64_ALPHABET"
    by (simp add: inj_image_mem_iff)
  also have "\<dots> \<longleftrightarrow> unat c \<in> set (map unat B64_ALPHABET)" by simp
  also have "\<dots> \<longleftrightarrow> in_cls B64_RANGES c"
  proof -
    define u where "u = unat c"
    have "u \<in> set (map unat B64_ALPHABET) \<longleftrightarrow>
        (65 \<le> u \<and> u < 91) \<or> (97 \<le> u \<and> u < 123) \<or> (48 \<le> u \<and> u < 58) \<or> u = 45 \<or> u = 95"
      unfolding b64_units set_append set_upt by auto
    moreover have "in_cls B64_RANGES c \<longleftrightarrow>
        (65 \<le> u \<and> u \<le> 90) \<or> (97 \<le> u \<and> u \<le> 122) \<or> (48 \<le> u \<and> u \<le> 57) \<or> (95 \<le> u \<and> u \<le> 95) \<or> (45 \<le> u \<and> u \<le> 45)"
      unfolding in_cls_def B64_RANGES_def u_def [symmetric] by simp
    ultimately show ?thesis unfolding u_def [symmetric] by presburger
  qed
  finally show ?thesis by simp
qed

lemma b64_class_iff: "rx_match B64_CLASS s \<longleftrightarrow> set s \<subseteq> set B64_ALPHABET"
  unfolding B64_CLASS_def
  by (auto simp: rx_match_correct rx_in_Star_Cls b64_class_alphabet [unfolded B64_RANGES_def])

lemma b64_lookup_digit: "unat i < 64 \<Longrightarrow> b64_lookup (b64_digit i) = i"
proof -
  assume i: "unat i < 64"
  then have "index_from 0 (B64_ALPHABET ! unat i) B64_ALPHABET = Some (unat i)"
    using distinct_b64_alphabet
    by (auto simp: index_from_Some in_set_conv_nth nth_eq_iff_index_eq)
  then show ?thesis by (simp add: b64_lookup_def b64_digit_def)
qed

lemma b64_digit_in: "unat i < 64 \<Longrightarrow> b64_digit i \<in> set B64_ALPHABET"
  by (simp add: b64_digit_def)

lemma b64_lookup_range: "c \<in> set B64_ALPHABET \<Longrightarrow> unat (b64_lookup c) < 64 \<and> b64_digit (b64_lookup c) = c"
proof -
  assume "c \<in> set B64_ALPHABET"
  then obtain n where n: "n < 64" "B64_ALPHABET ! n = c" by (auto simp: in_set_conv_nth)
  have u: "unat (word_of_nat n :: 32 word) = n" using n by (simp add: unat_of_nat)
  then have "b64_digit (word_of_nat n) = c" using n by (simp add: b64_digit_def)
  with b64_lookup_digit [of "word_of_nat n"] u n show ?thesis by simp
qed

subsection \<open>Groups\<close>

text \<open>Which of the low bits an integer may have set.\<close>

definition below_bit :: "nat \<Rightarrow> 32 word \<Rightarrow> bool" where
  "below_bit n w = (\<forall>k. bit w k \<longrightarrow> k < n)"

lemma below_bit_unat: "n < 32 \<Longrightarrow> below_bit n w \<longleftrightarrow> unat w < 2 ^ n"
proof -
  assume n: "n < 32"
  have "below_bit n w \<longleftrightarrow> take_bit n w = w"
    unfolding below_bit_def by (metis bit_eqI bit_take_bit_iff)
  also have "\<dots> \<longleftrightarrow> unat (take_bit n w) = unat w"
    by (metis unsigned_word_eqI)
  also have "\<dots> \<longleftrightarrow> unat w < 2 ^ n"
    by (simp add: unsigned_take_bit_eq take_bit_nat_eq_self_iff)
  finally show ?thesis .
qed

lemma below_bit_or: "below_bit n a \<Longrightarrow> below_bit n b \<Longrightarrow> below_bit n (a OR b)"
  by (auto simp: below_bit_def bit_or_iff)

lemma below_bit_ucast: "below_bit 8 (ucast (b :: byte))"
  by (auto simp: below_bit_def bit_unsigned_iff dest: bit_imp_le_length)

lemma below_bit_sint: "below_bit n w \<Longrightarrow> n < 32 \<Longrightarrow> \<not> sint w < 0"
  by (force simp: below_bit_def bit_last_iff [symmetric])

lemma masks: "(3 :: 32 word) = mask 2" "(15 :: 32 word) = mask 4" "(63 :: 32 word) = mask 6"
  by (simp_all add: mask_eq_exp_minus_1)

lemmas b64_bits = below_bit_def bit_or_iff bit_and_iff bit_push_bit_iff bit_drop_bit_eq bit_mask_iff masks

lemma below_bits:
  "below_bit 8 a \<Longrightarrow> below_bit 6 (drop_bit 2 a)"
  "below_bit 6 (push_bit 4 (a AND 3))"
  "below_bit 8 b \<Longrightarrow> below_bit 6 (push_bit 4 (a AND 3) OR drop_bit 4 b)"
  "below_bit 6 (push_bit 2 (b AND 15))"
  "below_bit 8 c \<Longrightarrow> below_bit 6 (push_bit 2 (b AND 15) OR drop_bit 6 c)"
  "below_bit 6 (c AND 63)"
  by (auto simp: b64_bits; drule spec, drule (1) mp, simp)+

text \<open>Each decoded byte is the byte it was encoded from.\<close>

lemma byte_bit_none: "8 \<le> n \<Longrightarrow> \<not> bit (b :: byte) n"
  by (auto dest: bit_imp_le_length)

lemma byte_eqI:
  fixes a b :: byte
  assumes "bit a 0 = bit b 0" "bit a 1 = bit b 1" "bit a 2 = bit b 2" "bit a 3 = bit b 3"
    "bit a 4 = bit b 4" "bit a 5 = bit b 5" "bit a 6 = bit b 6" "bit a 7 = bit b 7"
  shows "a = b"
proof (rule bit_word_eqI)
  fix n assume "n < LENGTH(8)"
  then have "n \<in> {0, 1, 2, 3, 4, 5, 6, 7}" by auto
  with assms show "bit a n = bit b n" by auto
qed

lemma b64_bytes:
  fixes a b c :: byte and A B C :: "32 word"
  defines "A \<equiv> ucast a" and "B \<equiv> ucast b" and "C \<equiv> ucast c"
  shows "ucast (push_bit 2 (drop_bit 2 A) OR drop_bit 4 (push_bit 4 (A AND 3) OR drop_bit 4 B)) = a"
    and "ucast (push_bit 2 (drop_bit 2 A) OR drop_bit 4 (push_bit 4 (A AND 3))) = a"
    and "ucast (push_bit 4 ((push_bit 4 (A AND 3) OR drop_bit 4 B) AND 15) OR
           drop_bit 2 (push_bit 2 (B AND 15) OR drop_bit 6 C)) = b"
    and "ucast (push_bit 4 ((push_bit 4 (A AND 3) OR drop_bit 4 B) AND 15) OR
           drop_bit 2 (push_bit 2 (B AND 15))) = b"
    and "ucast (push_bit 6 ((push_bit 2 (B AND 15) OR drop_bit 6 C) AND 3) OR (C AND 63)) = c"
  unfolding A_def B_def C_def
  by - (rule byte_eqI; simp add: b64_bits bit_ucast_iff byte_bit_none)+

text \<open>The digits the encoder writes are below 64, so the decoder reads them back.\<close>

lemmas b64_digit_lookups =
  below_bits(1) [OF below_bit_ucast] below_bits(2) below_bits(3) [OF below_bit_ucast]
  below_bits(4) below_bits(5) [OF below_bit_ucast] below_bits(6)

lemma b64_lookup_below: "below_bit 6 i \<Longrightarrow> b64_lookup (b64_digit i) = i"
  by (rule b64_lookup_digit) (simp add: below_bit_unat)

lemma b64_digit_below: "below_bit 6 i \<Longrightarrow> b64_digit i \<in> set B64_ALPHABET"
  by (rule b64_digit_in) (simp add: below_bit_unat)

lemma digits_not_negative:
  "below_bit 6 a \<Longrightarrow> below_bit 6 b \<Longrightarrow> \<not> sint (a OR b) < 0"
  "below_bit 6 a \<Longrightarrow> below_bit 6 b \<Longrightarrow> below_bit 6 c \<Longrightarrow> \<not> sint (a OR b OR c) < 0"
  "below_bit 6 a \<Longrightarrow> below_bit 6 b \<Longrightarrow> below_bit 6 c \<Longrightarrow> below_bit 6 d \<Longrightarrow> \<not> sint (a OR b OR c OR d) < 0"
  by (intro below_bit_sint [where n = 6] below_bit_or; simp)+

lemma b64_groups_encode: "b64_groups (b64_encode32 (map ucast bs)) = Some bs"
proof (induction "map ucast bs :: 32 word list" arbitrary: bs rule: b64_encode32.induct)
  case (1 a b c rest)
  then obtain x y z bs' where "bs = x # y # z # bs'" "a = ucast x" "b = ucast y" "c = ucast z" "rest = map ucast bs'"
    by (auto simp: Cons_eq_map_conv)
  with 1 show ?case
    by (simp add: Let_def b64_lookup_below b64_digit_lookups digits_not_negative b64_bytes
        del: push_bit_and drop_bit_or drop_bit_drop_bit)
next
  case (2 a)
  then obtain x where "bs = [x]" "a = ucast x" by (auto simp: Cons_eq_map_conv)
  then show ?case
    by (simp add: Let_def b64_lookup_below b64_digit_lookups digits_not_negative b64_bytes
        del: push_bit_and drop_bit_or drop_bit_drop_bit)
next
  case (3 a b)
  then obtain x y where "bs = [x, y]" "a = ucast x" "b = ucast y" by (auto simp: Cons_eq_map_conv)
  then show ?case
    by (simp add: Let_def b64_lookup_below b64_digit_lookups digits_not_negative b64_bytes
        del: push_bit_and drop_bit_or drop_bit_drop_bit)
qed simp

lemma b64_encode32_alphabet:
  "list_all (below_bit 8) ws \<Longrightarrow> set (b64_encode32 ws) \<subseteq> set B64_ALPHABET"
  by (induction ws rule: b64_encode32.induct) (simp_all add: b64_digit_below below_bits del: push_bit_and)

lemma b64_encode_alphabet: "set (b64_encode bs) \<subseteq> set B64_ALPHABET"
  unfolding b64_encode_def by (rule b64_encode32_alphabet) (simp add: list_all_iff below_bit_ucast)

lemma length_b64_encode: "length (b64_encode bs) = (4 * length bs + 2) div 3"
proof -
  have "length (b64_encode32 ws) = (4 * length ws + 2) div 3" for ws
    by (induction ws rule: b64_encode32.induct) auto
  then show ?thesis by (simp add: b64_encode_def)
qed

lemma b64_encode_length_mod: "length (b64_encode bs) mod 4 \<noteq> 1"
  unfolding length_b64_encode by presburger

theorem b64_decode_encode: "b64_decode cls what (b64_encode bs) = Inr bs"
  using b64_encode_alphabet [of bs] b64_encode_length_mod [of bs]
  by (simp add: b64_decode_def b64_class_iff b64_groups_encode [folded b64_encode_def])

lemma b64_encode_inj [simp]: "b64_encode a = b64_encode b \<longleftrightarrow> a = b"
  by (metis b64_decode_encode sum.inject(2))

subsection \<open>What the decoder accepts\<close>

lemma b64_lookup_below_bit: "c \<in> set B64_ALPHABET \<Longrightarrow> below_bit 6 (b64_lookup c)"
  using b64_lookup_range [of c] by (simp add: below_bit_unat)

text \<open>The digit error cannot happen, and the output array is filled exactly.\<close>

lemma b64_groups_ok:
  "set s \<subseteq> set B64_ALPHABET \<Longrightarrow> \<exists>bs. b64_groups s = Some bs \<and> length bs = 3 * length s div 4"
proof (induction s rule: b64_groups.induct)
  case (1 w x y z rest)
  then have "sint (b64_lookup w OR b64_lookup x OR b64_lookup y OR b64_lookup z) < 0 \<longleftrightarrow> False"
    by (simp add: digits_not_negative b64_lookup_below_bit)
  with "1.IH" [OF refl refl refl refl] "1.prems"
  obtain bs where "b64_groups rest = Some bs" "length bs = 3 * length rest div 4" by auto
  with 1 show ?case
    by (simp add: Let_def digits_not_negative b64_lookup_below_bit)
qed (simp_all add: Let_def digits_not_negative b64_lookup_below_bit)

theorem b64_decode_spec:
  "b64_decode cls what s =
     (if \<not> set s \<subseteq> set B64_ALPHABET then Inl (Thrown cls what)
      else if length s mod 4 = 1 then Inl (Thrown cls ''invalid base64url length'')
      else Inr (the (b64_groups s)))"
  using b64_groups_ok [of s] by (auto simp: b64_decode_def b64_class_iff)

lemma b64_decode_length:
  assumes "b64_decode cls what s = Inr bs"
  shows "length bs = 3 * (length s div 4) + (if length s mod 4 = 0 then 0 else length s mod 4 - 1)"
proof -
  from assms have "set s \<subseteq> set B64_ALPHABET" "length s mod 4 \<noteq> 1" "bs = the (b64_groups s)"
    by (auto simp: b64_decode_spec split: if_splits)
  with b64_groups_ok [of s] have "length bs = 3 * length s div 4" by auto
  moreover have "3 * n div 4 = 3 * (n div 4) + (if n mod 4 = 0 then 0 else n mod 4 - 1)"
    if "n mod 4 \<noteq> 1" for n :: nat
  proof -
    have "3 * n div 4 = 3 * (n div 4) + 3 * (n mod 4) div 4" by presburger
    moreover have "n mod 4 \<in> {0, 2, 3}" using that by auto
    ultimately show ?thesis by auto
  qed
  ultimately show ?thesis using \<open>length s mod 4 \<noteq> 1\<close> by metis
qed

subsection \<open>The contract of a text codec\<close>

text \<open>
  What the sources rely on when they put bytes into a text: the text uses only the letters of an
  alphabet, and the decoder gives back the bytes.
\<close>

locale text_codec =
  fixes enc :: "bytes \<Rightarrow> jsstring"
    and dec :: "jsstring \<Rightarrow> err + bytes"
    and letters :: "jschar set"
  assumes dec_enc: "dec (enc bs) = Inr bs"
    and enc_letters: "set (enc bs) \<subseteq> letters"
    and dec_letters: "dec s = Inr bs \<Longrightarrow> set s \<subseteq> letters"
begin

lemma enc_inj: "enc a = enc b \<longleftrightarrow> a = b"
  by (metis dec_enc sum.inject(2))

lemma dec_surj: "\<exists>s. dec s = Inr bs"
  using dec_enc by blast

lemma dec_rejects: "\<not> set s \<subseteq> letters \<Longrightarrow> \<exists>e. dec s = Inl e"
  using dec_letters [of s] by (cases "dec s") simp_all

end

lemma b64_decode_Inr: "b64_decode cls what s = Inr bs \<Longrightarrow> set s \<subseteq> set B64_ALPHABET"
  by (auto simp: b64_decode_spec split: if_splits)

interpretation bundle_codec: text_codec bundle_base64urlEncode bundle_base64urlDecode "set B64_ALPHABET"
  by unfold_locales (simp_all add: b64_copies b64_decode_encode b64_encode_alphabet b64_decode_Inr)

interpretation invite_codec: text_codec invite_base64urlEncode invite_base64urlDecode "set B64_ALPHABET"
  by unfold_locales (simp_all add: b64_copies b64_decode_encode b64_encode_alphabet b64_decode_Inr)

interpretation manifest_codec: text_codec manifest_base64urlEncode manifest_base64urlDecode "set B64_ALPHABET"
  by unfold_locales (simp_all add: b64_copies b64_decode_encode b64_encode_alphabet b64_decode_Inr)

end
