(* ===== verification/Ids.thy ===== *)
theory Ids
  imports JS_Regex JS_Unicode "HOL-Library.List_Lexorder"
begin

text \<open>
  \<open>protocol/src/ids.ts\<close>: room ids (128 random bits) and peer ids (ULIDs: 48 bits of time, 80 random
  bits), both 26 letters of Crockford's base 32. Big integers are natural numbers; the random bytes
  \<open>crypto.getRandomValues\<close> fills in are an argument, \<open>None\<close> when there is no Web Crypto. The order
  on strings is JavaScript's: lexicographic on code units.
\<close>

subsection \<open>Encoding\<close>

definition ID_ALPHABET :: jsstring where
  "ID_ALPHABET = js ''0123456789abcdefghjkmnpqrstvwxyz''"

definition ID_RANGES :: "(char \<times> char) list" where
  "ID_RANGES = [(CHR ''0'', CHR ''9''), (CHR ''a'', CHR ''h''), (CHR ''j'', CHR ''k''), (CHR ''m'', CHR ''n''),
     (CHR ''p'', CHR ''t''), (CHR ''v'', CHR ''z'')]"

definition ID_PATTERN :: rx where
  "ID_PATTERN = Rep 26 (Cls ID_RANGES)"

definition id_letter :: "nat \<Rightarrow> jschar" where
  "id_letter d = ID_ALPHABET ! d"

text \<open>\<open>hi = (hi << 8n) | BigInt(bytes[i])\<close>.\<close>

definition big_endian :: "bytes \<Rightarrow> nat" where
  "big_endian bs = foldl (\<lambda>hi b. push_bit 8 hi OR unat b) 0 bs"

text \<open>\<open>ALPHABET[Number((n >> BigInt(i * 5)) & 0x1fn)]\<close> for \<open>i = k-1 .. 0\<close>.\<close>

definition base32_digits :: "nat \<Rightarrow> nat \<Rightarrow> jsstring" where
  "base32_digits k n = map (\<lambda>i. id_letter (drop_bit (i * 5) n AND 0x1F)) (rev [0..<k])"

definition encodeBase32_130 :: "bytes \<Rightarrow> err + jsstring" where
  "encodeBase32_130 bytes =
     (if length bytes \<noteq> 16 then Inl (Thrown ''Error'' ''senn: expected 16 bytes'')
      else Inr (base32_digits 26 (push_bit 2 (big_endian bytes))))"

text \<open>The loop of the time part: the low five bits first, the string reversed afterwards.\<close>

fun ulid_time :: "nat \<Rightarrow> nat \<Rightarrow> jsstring" where
  "ulid_time 0 ts = []"
| "ulid_time (Suc k) ts = id_letter (ts AND 0x1F) # ulid_time k (drop_bit 5 ts)"

definition encodeUlid :: "jsnum \<Rightarrow> bytes \<Rightarrow> err + jsstring" where
  "encodeUlid timestampMs random10 =
     (if length random10 \<noteq> 10 then Inl (Thrown ''Error'' ''senn: ulid randomness must be 10 bytes'')
      else (case timestampMs of
          Fin t \<Rightarrow>
            (if \<not> is_int_rat t \<or> t < 0 \<or> t > 0xFFFFFFFFFFFF
             then Inl (Thrown ''Error'' ''senn: ulid timestamp out of range'')
             else Inr (rev (ulid_time 10 (nat \<lfloor>t\<rfloor>)) @ base32_digits 16 (big_endian random10)))
        | _ \<Rightarrow> Inl (Thrown ''Error'' ''senn: ulid timestamp out of range'')))"

subsection \<open>Operations\<close>

definition getCrypto :: "bytes option \<Rightarrow> err + bytes" where
  "getCrypto c = (case c of
     None \<Rightarrow> Inl (Thrown ''Error'' ''senn: Web Crypto (crypto.getRandomValues) is required'')
   | Some bs \<Rightarrow> Inr bs)"

definition newRoomId :: "bytes option \<Rightarrow> err + jsstring" where
  "newRoomId c = (case getCrypto c of Inl e \<Rightarrow> Inl e | Inr bytes \<Rightarrow> encodeBase32_130 bytes)"

definition newPeerId :: "jsnum \<Rightarrow> bytes option \<Rightarrow> err + jsstring" where
  "newPeerId now c = (case getCrypto c of Inl e \<Rightarrow> Inl e | Inr random \<Rightarrow> encodeUlid now random)"

fun isRoomId :: "jsval \<Rightarrow> bool" where
  "isRoomId (Str s) = rx_match ID_PATTERN s"
| "isRoomId _ = False"

fun isPeerId :: "jsval \<Rightarrow> bool" where
  "isPeerId (Str s) = rx_match ID_PATTERN s"
| "isPeerId _ = False"

definition assertRoomId :: "jsval \<Rightarrow> err + unit" where
  "assertRoomId v = (if \<not> isRoomId v then Inl (Thrown ''Error'' ''senn: invalid RoomId'') else Inr ())"

definition assertPeerId :: "jsval \<Rightarrow> err + unit" where
  "assertPeerId v = (if \<not> isPeerId v then Inl (Thrown ''Error'' ''senn: invalid PeerId'') else Inr ())"

subsection \<open>The alphabet\<close>

lemma id_units: "map unat ID_ALPHABET = [48..<58] @ [97..<105] @ [106..<108] @ [109..<111] @ [112..<117] @ [118..<123]"
  by (simp add: ID_ALPHABET_def js_def upt_rec)

lemma length_id_alphabet [simp]: "length ID_ALPHABET = 32"
  by (simp add: ID_ALPHABET_def)

lemma id_alphabet_sorted: "sorted_wrt (<) (map unat ID_ALPHABET)"
  unfolding id_units by (simp add: upt_rec)

lemma id_letter_less: "i < j \<Longrightarrow> j < 32 \<Longrightarrow> id_letter i < id_letter j"
  using id_alphabet_sorted by (simp add: sorted_wrt_iff_nth_less id_letter_def word_less_nat_alt)

lemma id_letter_inj: "i < 32 \<Longrightarrow> j < 32 \<Longrightarrow> id_letter i = id_letter j \<longleftrightarrow> i = j"
  using id_letter_less [of i j] id_letter_less [of j i] by (cases i j rule: linorder_cases) auto

lemma id_class_alphabet: "c \<in> set ID_ALPHABET \<Longrightarrow> in_cls ID_RANGES c"
proof -
  assume "c \<in> set ID_ALPHABET"
  then have "unat c \<in> set (map unat ID_ALPHABET)" by simp
  then have "unat c \<in> set ([48..<58] @ [97..<105] @ [106..<108] @ [109..<111] @ [112..<117] @ [118..<123])"
    unfolding id_units .
  then show ?thesis
    unfolding set_append set_upt by (auto simp: in_cls_def ID_RANGES_def)
qed

lemma id_letter_class: "i < 32 \<Longrightarrow> in_cls ID_RANGES (id_letter i)"
  by (rule id_class_alphabet) (simp add: id_letter_def)

subsection \<open>Positional notation\<close>

lemma and_31: "(n :: nat) AND 0x1F = n mod 32"
  using take_bit_eq_mask [of 5 n] by (simp add: take_bit_eq_mod mask_eq_exp_minus_1)

lemma base32_digits_arith:
  "base32_digits k n = map (\<lambda>i. id_letter (n div 32 ^ i mod 32)) (rev [0..<k])"
proof -
  have "(2 :: nat) ^ (i * 5) = 32 ^ i" for i
    using power_mult [of "2 :: nat" 5 i] by (simp add: mult.commute)
  then show ?thesis
    by (simp add: base32_digits_def and_31 drop_bit_eq_div)
qed

lemma length_base32_digits [simp]: "length (base32_digits k n) = k"
  by (simp add: base32_digits_def)

lemma mod_mult_div: "(m :: nat) mod (b * c) div b = m div b mod c"
  by (cases "b = 0") (simp_all add: mod_mult2_eq)

lemma base32_digits_Suc:
  "base32_digits (Suc k) n = id_letter (n div 32 ^ k mod 32) # base32_digits k (n mod 32 ^ k)"
proof -
  have "n div 32 ^ i mod 32 = n mod 32 ^ k div 32 ^ i mod 32" if lt: "i < k" for i
  proof -
    obtain j where k: "k = i + Suc j" using less_imp_Suc_add [OF lt] by auto
    have "n mod 32 ^ k = n mod (32 ^ i * 32 ^ Suc j)" by (simp only: k power_add)
    then have "n mod 32 ^ k div 32 ^ i = n div 32 ^ i mod 32 ^ Suc j"
      by (simp only: mod_mult_div)
    moreover have "(32 :: nat) dvd 32 ^ Suc j" by simp
    ultimately show ?thesis by (simp only: mod_mod_cancel)
  qed
  then show ?thesis
    by (auto simp: base32_digits_arith)
qed

lemma base32_digits_inj:
  "m < 32 ^ k \<Longrightarrow> n < 32 ^ k \<Longrightarrow> base32_digits k m = base32_digits k n \<longleftrightarrow> m = n"
proof (induction k arbitrary: m n)
  case (Suc k)
  have "m div 32 ^ k < 32" "n div 32 ^ k < 32"
    using Suc.prems by (auto simp: less_mult_imp_div_less)
  then show ?case
    using Suc.IH [of "m mod 32 ^ k" "n mod 32 ^ k"]
    by (auto simp: base32_digits_Suc id_letter_inj) (metis div_mult_mod_eq)
qed simp

lemma base32_digits_less:
  "m < n \<Longrightarrow> n < 32 ^ k \<Longrightarrow> base32_digits k m @ s < base32_digits k n @ t"
proof (induction k arbitrary: m n)
  case (Suc k)
  have lt: "m div 32 ^ k < 32" "n div 32 ^ k < 32"
    using Suc.prems by (auto simp: less_mult_imp_div_less)
  show ?case
  proof (cases "m div 32 ^ k = n div 32 ^ k")
    case True
    then have "m mod 32 ^ k < n mod 32 ^ k"
      using Suc.prems(1) by (metis div_mult_mod_eq nat_add_left_cancel_less)
    then show ?thesis
      using Suc.IH [of "m mod 32 ^ k" "n mod 32 ^ k"] True by (simp add: base32_digits_Suc)
  next
    case False
    then have "m div 32 ^ k < n div 32 ^ k"
      using Suc.prems(1) by (metis div_le_mono le_neq_implies_less less_imp_le)
    then show ?thesis
      using lt by (simp add: base32_digits_Suc id_letter_less)
  qed
qed simp

lemma upt_0_Suc: "[0..<Suc k] = 0 # map Suc [0..<k]"
  by (simp add: map_Suc_upt upt_conv_Cons del: upt_Suc)

lemma ulid_time_digits: "n < 32 ^ k \<Longrightarrow> rev (ulid_time k n) = base32_digits k n"
proof (induction k arbitrary: n)
  case (Suc k)
  have "rev (ulid_time (Suc k) n) = base32_digits k (n div 32) @ [id_letter (n mod 32)]"
    using Suc by (simp add: and_31 drop_bit_eq_div less_mult_imp_div_less mult.commute)
  also have "\<dots> = base32_digits (Suc k) n"
    by (simp add: base32_digits_arith div_mult2_eq [symmetric] upt_0_Suc rev_map del: upt_Suc)
  finally show ?case .
qed (simp add: base32_digits_def)

lemma base32_digits_class: "c \<in> set (base32_digits k n) \<Longrightarrow> in_cls ID_RANGES c"
  by (auto simp: base32_digits_arith intro: id_letter_class)

subsection \<open>Big-endian values\<close>

lemma or_byte: "push_bit 8 (hi :: nat) OR unat (b :: byte) = hi * 256 + unat b"
proof -
  have "push_bit 8 hi AND unat b = 0"
    by (rule bit_eqI) (auto simp: bit_and_iff bit_push_bit_iff bit_unsigned_iff dest: bit_imp_le_length)
  then have "push_bit 8 hi OR unat b = push_bit 8 hi + unat b"
    by (simp add: disjunctive_add_eq_or)
  then show ?thesis by (simp add: push_bit_eq_mult)
qed

lemma big_endian_snoc: "big_endian (bs @ [b]) = big_endian bs * 256 + unat b"
  by (simp add: big_endian_def or_byte)

lemma big_endian_less: "big_endian bs < 256 ^ length bs"
proof (induction bs rule: rev_induct)
  case (snoc b bs)
  moreover have "unat b < 256" using unsigned_less [of b] by simp
  ultimately show ?case by (simp add: big_endian_snoc)
qed (simp add: big_endian_def)

lemma base256_eq: "u < 256 \<Longrightarrow> v < 256 \<Longrightarrow> x * 256 + u = y * 256 + v \<longleftrightarrow> x = y \<and> u = (v :: nat)"
proof -
  assume lt: "u < 256" "v < 256"
  then have "(x * 256 + u) div 256 = x" "(y * 256 + v) div 256 = y"
    "(x * 256 + u) mod 256 = u" "(y * 256 + v) mod 256 = v"
    by simp_all
  then show ?thesis by metis
qed

lemma big_endian_inj: "length bs = length cs \<Longrightarrow> big_endian bs = big_endian cs \<longleftrightarrow> bs = cs"
proof (induction bs arbitrary: cs rule: rev_induct)
  case (snoc b bs)
  then obtain c ds where cs: "cs = ds @ [c]" "length bs = length ds"
    by (cases cs rule: rev_cases) auto
  have "unat b < 256" "unat c < 256" using unsigned_less [of b] unsigned_less [of c] by simp_all
  then have "big_endian bs * 256 + unat b = big_endian ds * 256 + unat c \<longleftrightarrow>
      big_endian bs = big_endian ds \<and> unat b = unat c"
    by (rule base256_eq)
  with snoc.IH [OF cs(2)] show ?case
    by (auto simp: cs big_endian_snoc word_unat_eq_iff)
qed simp

lemma push_bit_2: "push_bit 2 n = 4 * (n :: nat)"
  by (simp add: push_bit_eq_mult)

subsection \<open>Generated ids\<close>

lemma base32_digits_pattern: "rx_match ID_PATTERN (base32_digits 26 n)"
  by (auto simp: ID_PATTERN_def dest: base32_digits_class)

theorem encodeBase32_130_ok:
  assumes "length bytes = 16"
  shows "\<exists>s. encodeBase32_130 bytes = Inr s \<and> isRoomId (Str s)"
  using assms by (simp add: encodeBase32_130_def base32_digits_pattern)

theorem encodeBase32_130_inj:
  assumes "length a = 16" "length b = 16" "encodeBase32_130 a = encodeBase32_130 b"
  shows "a = b"
proof -
  have "big_endian a < 256 ^ 16" "big_endian b < 256 ^ 16"
    using big_endian_less [of a] big_endian_less [of b] assms by simp_all
  then have "4 * big_endian a < 32 ^ 26" "4 * big_endian b < 32 ^ 26" by simp_all
  then have "big_endian a = big_endian b"
    using assms base32_digits_inj [of "4 * big_endian a" 26 "4 * big_endian b"]
    by (simp add: encodeBase32_130_def push_bit_2)
  then show ?thesis using assms by (simp add: big_endian_inj)
qed

text \<open>A time of the ULID range.\<close>

definition ulid_time_ok :: "nat \<Rightarrow> bool" where
  "ulid_time_ok t = (t \<le> 0xFFFFFFFFFFFF)"

lemma encodeUlid_ok:
  assumes "length r = 10" "ulid_time_ok t"
  shows "encodeUlid (Fin (of_nat t)) r = Inr (base32_digits 10 t @ base32_digits 16 (big_endian r))"
proof -
  have t: "t \<le> 0xFFFFFFFFFFFF" using assms(2) by (simp add: ulid_time_ok_def)
  then have "(of_nat t :: rat) \<le> of_nat 0xFFFFFFFFFFFF" by (simp only: of_nat_le_iff)
  then have "\<not> (of_nat t :: rat) > 0xFFFFFFFFFFFF" by simp
  moreover have "is_int_rat (of_nat t)" using is_int_rat_of_int [of "int t"] by simp
  moreover have "t < 32 ^ 10" using t by simp
  ultimately show ?thesis
    using assms(1) ulid_time_digits [of t 10] by (simp add: encodeUlid_def)
qed

lemma ulid_pattern: "rx_match ID_PATTERN (base32_digits 10 t @ base32_digits 16 n)"
  by (auto simp: ID_PATTERN_def dest: base32_digits_class)

theorem encodeUlid_error:
  assumes "\<nexists>t. ulid_time_ok t \<and> now = Fin (of_nat t)"
  shows "\<exists>m. encodeUlid now r = Inl (Thrown ''Error'' m)"
proof (cases now)
  case (Fin q)
  show ?thesis
  proof (cases "is_int_rat q \<and> 0 \<le> q \<and> q \<le> 0xFFFFFFFFFFFF")
    case True
    then obtain i where i: "q = of_int i" by (auto simp: is_int_rat_iff)
    with True have "0 \<le> i" "(of_int i :: rat) \<le> of_int 0xFFFFFFFFFFFF" by simp_all
    then have "0 \<le> i" "i \<le> 0xFFFFFFFFFFFF" by (simp_all only: of_int_le_iff)
    then have "ulid_time_ok (nat i)" "q = of_nat (nat i)" by (simp_all add: ulid_time_ok_def i)
    with assms Fin show ?thesis by auto
  next
    case False
    with Fin show ?thesis by (auto simp: encodeUlid_def not_le)
  qed
qed (auto simp: encodeUlid_def)

theorem encodeUlid_ordered:
  assumes "length r1 = 10" "length r2 = 10" "ulid_time_ok t1" "ulid_time_ok t2" "t1 < t2"
    and "encodeUlid (Fin (of_nat t1)) r1 = Inr s1" "encodeUlid (Fin (of_nat t2)) r2 = Inr s2"
  shows "s1 < s2"
proof -
  have "t2 < 32 ^ 10" using assms(4) by (simp add: ulid_time_ok_def)
  then show ?thesis
    using assms base32_digits_less [of t1 t2 10] by (auto simp: encodeUlid_ok)
qed

theorem encodeUlid_inj:
  assumes "length r1 = 10" "length r2 = 10" "ulid_time_ok t1" "ulid_time_ok t2"
    and "encodeUlid (Fin (of_nat t1)) r1 = encodeUlid (Fin (of_nat t2)) r2"
  shows "t1 = t2 \<and> r1 = r2"
proof -
  have "t1 < 32 ^ 10" "t2 < 32 ^ 10" using assms by (simp_all add: ulid_time_ok_def)
  moreover have "big_endian r1 < 32 ^ 16" "big_endian r2 < 32 ^ 16"
    using big_endian_less [of r1] big_endian_less [of r2] assms by simp_all
  ultimately show ?thesis
    using assms by (auto simp: encodeUlid_ok base32_digits_inj big_endian_inj)
qed

end
