(* ===== verification/Envelope.thy ===== *)
theory Envelope
  imports JS_Regex JS_JSON_Props
begin

text \<open>
  \<open>protocol/src/envelope.ts\<close>: the envelope add-on messages travel in over the \<open>core.text\<close> channel. An
  incoming value is a \<open>jsval\<close>; a validated envelope is a record. The theory shows exactly which
  values validate, that a parsed envelope is always valid, and what a receiver gets of an envelope
  that was printed with \<open>JSON.stringify\<close>.
\<close>

record addon_envelope =
  env_id :: jsstring
  env_addon :: jsstring
  env_version :: jsstring
  env_createdAt :: rat
  env_payload :: jsval

definition LOWER :: "char \<times> char" where "LOWER = (CHR ''a'', CHR ''z'')"
definition DIGITS :: "char \<times> char" where "DIGITS = (CHR ''0'', CHR ''9'')"

definition LABEL :: rx where
  "LABEL = Seq (Cls [LOWER]) (Star (Cls [LOWER, DIGITS, (CHR ''-'', CHR ''-'')]))"

definition ADDON_ID :: rx where
  "ADDON_ID = Seq LABEL (Plus (Seq (Chr CHR ''.'') LABEL))"

definition SEMVER_TAIL :: rx where
  "SEMVER_TAIL = Plus (Cls [DIGITS, (CHR ''A'', CHR ''Z''), LOWER, (CHR ''.'', CHR ''.''), (CHR ''-'', CHR ''-'')])"

definition SEMVER :: rx where
  "SEMVER = Seqs [Plus (Cls [DIGITS]), Chr CHR ''.'', Plus (Cls [DIGITS]), Chr CHR ''.'', Plus (Cls [DIGITS]),
     Opt (Seq (Chr CHR ''-'') SEMVER_TAIL), Opt (Seq (Chr CHR ''+'') SEMVER_TAIL)]"

abbreviation envelope_error :: "string \<Rightarrow> err + 'a" where
  "envelope_error m \<equiv> Inl (Thrown ''EnvelopeValidationError'' m)"

definition env_asObject :: "jsval \<Rightarrow> string \<Rightarrow> err + jsfields" where
  "env_asObject v lbl = as_object ''EnvelopeValidationError'' lbl v"

definition validateAddonEnvelope :: "jsval \<Rightarrow> err + addon_envelope" where
  "validateAddonEnvelope v =
     (case env_asObject v ''addon envelope'' of
        Inl e \<Rightarrow> Inl e
      | Inr obj \<Rightarrow>
          if fld obj ''kind'' \<noteq> Str (js ''addon.message'') then envelope_error ''kind must be addon.message''
          else (case fld obj ''id'' of
              Str i \<Rightarrow>
                if length i = 0 then envelope_error ''id must be a non-empty string''
                else (case fld obj ''addon'' of
                    Str a \<Rightarrow>
                      if \<not> rx_match ADDON_ID a then envelope_error ''addon must be a reverse-DNS id''
                      else (case fld obj ''version'' of
                          Str w \<Rightarrow>
                            if \<not> rx_match SEMVER w then envelope_error ''version must be SemVer''
                            else (case fld obj ''createdAt'' of
                                Num (Fin t) \<Rightarrow>
                                  if \<not> has_prop obj ''payload'' then envelope_error ''payload missing''
                                  else Inr \<lparr>env_id = i, env_addon = a, env_version = w,
                                            env_createdAt = t, env_payload = fld obj ''payload''\<rparr>
                              | _ \<Rightarrow> envelope_error ''createdAt must be a finite number'')
                        | _ \<Rightarrow> envelope_error ''version must be SemVer'')
                  | _ \<Rightarrow> envelope_error ''addon must be a reverse-DNS id'')
            | _ \<Rightarrow> envelope_error ''id must be a non-empty string''))"

text \<open>\<open>None\<close> is \<open>null\<close>: whatever \<open>JSON.parse\<close> or the validation throws is caught.\<close>

definition tryParseAddonEnvelope :: "jsstring \<Rightarrow> addon_envelope option" where
  "tryParseAddonEnvelope json =
     (case json_parse json of
        None \<Rightarrow> None
      | Some parsed \<Rightarrow>
          if \<not> is_objecty parsed then None
          else if fld (own_fields parsed) ''kind'' \<noteq> Str (js ''addon.message'') then None
          else (case validateAddonEnvelope parsed of Inl _ \<Rightarrow> None | Inr e \<Rightarrow> Some e))"

text \<open>The object literal of an envelope.\<close>

definition envelope_val :: "addon_envelope \<Rightarrow> jsval" where
  "envelope_val e = Obj [(js ''id'', Str (env_id e)), (js ''kind'', Str (js ''addon.message'')),
     (js ''addon'', Str (env_addon e)), (js ''version'', Str (env_version e)),
     (js ''createdAt'', Num (Fin (env_createdAt e))), (js ''payload'', env_payload e)]"

subsection \<open>What validates\<close>

definition envelope_ok :: "addon_envelope \<Rightarrow> bool" where
  "envelope_ok e = (env_id e \<noteq> [] \<and> rx_match ADDON_ID (env_addon e) \<and> rx_match SEMVER (env_version e))"

theorem validateAddonEnvelope_iff:
  "validateAddonEnvelope v = Inr e \<longleftrightarrow>
     (\<exists>fs. v = Obj fs \<and> fld fs ''kind'' = Str (js ''addon.message'') \<and> fld fs ''id'' = Str (env_id e)
        \<and> fld fs ''addon'' = Str (env_addon e) \<and> fld fs ''version'' = Str (env_version e)
        \<and> fld fs ''createdAt'' = Num (Fin (env_createdAt e)) \<and> has_prop fs ''payload''
        \<and> fld fs ''payload'' = env_payload e \<and> envelope_ok e)"
  unfolding validateAddonEnvelope_def env_asObject_def as_object_def envelope_ok_def
  by (cases v; cases e) (auto simp: fld_u8_fields split: jsval.splits jsnum.splits if_splits)

lemma validate_envelope_val: "validateAddonEnvelope (envelope_val e) = Inr e \<longleftrightarrow> envelope_ok e"
  by (simp add: validateAddonEnvelope_iff envelope_val_def)

lemma validateAddonEnvelope_ok: "validateAddonEnvelope v = Inr e \<Longrightarrow> envelope_ok e"
  by (auto simp: validateAddonEnvelope_iff)

theorem tryParse_ok: "tryParseAddonEnvelope s = Some e \<Longrightarrow> envelope_ok e"
  by (auto simp: tryParseAddonEnvelope_def validateAddonEnvelope_ok split: option.splits if_splits sum.splits)

subsection \<open>Over the wire\<close>

text \<open>An envelope whose time is an integer a clock can read.\<close>

definition envelope_wire_ok :: "addon_envelope \<Rightarrow> bool" where
  "envelope_wire_ok e = (is_int_rat (env_createdAt e) \<and> \<bar>env_createdAt e\<bar> < 10 ^ 21 \<and> json_data (env_payload e))"

lemma json_str_envelope: "\<exists>t. json_str (envelope_val e) = Some t"
  by (simp add: envelope_val_def)

theorem tryParse_stringify:
  assumes "envelope_ok e" "envelope_wire_ok e" "json_str (envelope_val e) = Some t"
  shows "tryParseAddonEnvelope t =
    (if env_payload e = Undef then None else Some (e\<lparr>env_payload := json_norm (env_payload e)\<rparr>))"
proof -
  have "json_data (envelope_val e)"
    using assms(2) by (simp add: envelope_val_def envelope_wire_ok_def)
  then have p: "json_parse t = Some (json_norm (envelope_val e))"
    using assms(3) by (rule json_parse_norm)
  show ?thesis
  proof (cases "env_payload e = Undef")
    case True
    then have "\<not> is_ok (validateAddonEnvelope (json_norm (envelope_val e)))"
      by (auto simp: is_ok_ex validateAddonEnvelope_iff envelope_val_def)
    with True p show ?thesis
      by (auto simp: tryParseAddonEnvelope_def split: sum.splits)
  next
    case False
    then have n: "json_norm (envelope_val e) = envelope_val (e\<lparr>env_payload := json_norm (env_payload e)\<rparr>)"
      by (simp add: envelope_val_def)
    have "envelope_ok (e\<lparr>env_payload := json_norm (env_payload e)\<rparr>)"
      using assms(1) by (simp add: envelope_ok_def)
    then have "validateAddonEnvelope (json_norm (envelope_val e)) = Inr (e\<lparr>env_payload := json_norm (env_payload e)\<rparr>)"
      unfolding n by (simp add: validate_envelope_val)
    then show ?thesis
      using p False by (simp add: tryParseAddonEnvelope_def) (simp add: envelope_val_def)
  qed
qed

subsection \<open>Add-on ids\<close>

text \<open>The letters of an add-on id; no control characters, spaces or upper case.\<close>

lemma addon_id_chars:
  assumes "rx_match ADDON_ID s" "c \<in> set s"
  shows "in_cls [LOWER, DIGITS, (CHR ''-'', CHR ''.'')] c"
proof -
  have "rx_chars ADDON_ID c" using assms by (rule rx_match_chars)
  then show ?thesis
    by (auto simp: ADDON_ID_def LABEL_def rx_forms in_cls_def LOWER_def DIGITS_def)
qed

end
