(* ===== verification/Web_Platform.thy ===== *)
theory Web_Platform
  imports JS_Unicode Base64url
begin

text \<open>
  What the sources use of the web platform beside strings and JSON: transform streams (their output
  arrives in chunks that \<open>runStream\<close> joins), the \<open>URL\<close> class (not code of the repository: a record of
  its operations, with the documented facts the code relies on as the named hypothesis
  \<open>url_api_ok\<close>), and \<open>URLSearchParams\<close>, written out after the form-urlencoded parser.
\<close>

subsection \<open>Transform streams\<close>

text \<open>A transform either fails or delivers its output in chunks.\<close>

type_synonym transform = "bytes \<Rightarrow> err + bytes list"

definition bytes_set :: "bytes \<Rightarrow> nat \<Rightarrow> bytes \<Rightarrow> bytes" where
  "bytes_set out off c = take off out @ c @ drop (off + length c) out"

fun copy_chunks :: "bytes \<Rightarrow> nat \<Rightarrow> bytes list \<Rightarrow> bytes" where
  "copy_chunks out off [] = out"
| "copy_chunks out off (c # cs) = copy_chunks (bytes_set out off c) (off + length c) cs"

definition run_stream :: "transform \<Rightarrow> bytes \<Rightarrow> err + bytes" where
  "run_stream ts input =
     (case ts input of
        Inl e \<Rightarrow> Inl e
      | Inr chunks \<Rightarrow>
          let total = sum_list (map length chunks) in
          Inr (copy_chunks (replicate total 0) 0 chunks))"

text \<open>The two copies, of \<open>bundle.ts\<close> and \<open>invite.ts\<close>.\<close>

definition bundle_runStream :: "transform \<Rightarrow> bytes \<Rightarrow> err + bytes" where
  "bundle_runStream ts input = run_stream ts input"

definition invite_runStream :: "transform \<Rightarrow> bytes \<Rightarrow> err + bytes" where
  "invite_runStream ts input = run_stream ts input"

lemma copy_chunks_concat:
  "length rest = sum_list (map length cs) \<Longrightarrow> copy_chunks (done @ rest) (length done) cs = done @ concat cs"
proof (induction cs arbitrary: "done" rest)
  case (Cons c cs)
  have "bytes_set (done @ rest) (length done) c = (done @ c) @ drop (length c) rest"
    by (simp add: bytes_set_def)
  with Cons.IH [of "drop (length c) rest" "done @ c"] Cons.prems show ?case by simp
qed simp

theorem run_stream_concat:
  "run_stream ts input = (case ts input of Inl e \<Rightarrow> Inl e | Inr chunks \<Rightarrow> Inr (concat chunks))"
  using copy_chunks_concat [of "replicate _ 0" _ "[]"]
  by (auto simp: run_stream_def Let_def split: sum.splits)

text \<open>
  What the compression streams promise: inflating what deflating gave returns the input, and
  deflating something gives something.
\<close>

definition streams_inverse :: "transform \<Rightarrow> transform \<Rightarrow> bool" where
  "streams_inverse deflate inflate =
     (\<forall>x. \<exists>cs ds. deflate x = Inr cs \<and> inflate (concat cs) = Inr ds \<and> concat ds = x
       \<and> (x \<noteq> [] \<longrightarrow> concat cs \<noteq> []))"

lemma streams_inverse_run:
  "streams_inverse deflate inflate \<Longrightarrow> 
   \<exists>z. run_stream deflate x = Inr z \<and> run_stream inflate z = Inr x \<and> (x \<noteq> [] \<longrightarrow> z \<noteq> [])"
proof -
  assume "streams_inverse deflate inflate"
  then obtain cs ds where "deflate x = Inr cs" "inflate (concat cs) = Inr ds" "concat ds = x"
      "x \<noteq> [] \<longrightarrow> concat cs \<noteq> []"
    unfolding streams_inverse_def by blast
  then show ?thesis
    by (intro exI [of _ "concat cs"]) (simp add: run_stream_concat)
qed

text \<open>The store-only compressor: one chunk per byte.\<close>

definition stored :: transform where
  "stored x = Inr (map (\<lambda>b. [b]) x)"

lemma streams_inverse_stored [simp]: "streams_inverse stored stored"
  by (auto simp: streams_inverse_def stored_def concat_map_singleton neq_Nil_conv)

subsection \<open>\<open>URL\<close>\<close>

record 'u url_api =
  url_parse :: "jsstring \<Rightarrow> 'u option"
  url_protocol :: "'u \<Rightarrow> jsstring"
  url_hostname :: "'u \<Rightarrow> jsstring"
  url_hash :: "'u \<Rightarrow> jsstring"
  url_set_hash :: "jsstring \<Rightarrow> 'u \<Rightarrow> 'u"
  url_toString :: "'u \<Rightarrow> jsstring"

text \<open>The characters no URL parser escapes or drops in a fragment.\<close>

definition FRAGMENT_RANGES :: "(char \<times> char) list" where
  "FRAGMENT_RANGES = B64_RANGES @ [(CHR ''='', CHR ''=''), (CHR ''&'', CHR ''&'')]"

definition fragment_safe :: "jsstring \<Rightarrow> bool" where
  "fragment_safe s = (s \<noteq> [] \<and> list_all (in_cls FRAGMENT_RANGES) s)"

text \<open>A fragment of such characters survives being set, printed with its URL and parsed again.\<close>

definition url_api_ok :: "'u url_api \<Rightarrow> bool" where
  "url_api_ok api =
     (\<forall>u s. fragment_safe s \<longrightarrow>
        (\<exists>u'. url_parse api (url_toString api (url_set_hash api s u)) = Some u'
          \<and> url_hash api u' = ch CHR ''#'' # s))"

text \<open>\<open>url.hash.startsWith("#") ? url.hash.slice(1) : url.hash\<close>.\<close>

definition url_fragment :: "'u url_api \<Rightarrow> 'u \<Rightarrow> jsstring" where
  "url_fragment api u =
     (case url_hash api u of
        [] \<Rightarrow> []
      | c # s \<Rightarrow> if c = ch CHR ''#'' then s else c # s)"

text \<open>A small instance: the text up to the first \<open>#\<close>, and the rest.\<close>

definition split_url :: "(jsstring \<times> jsstring) url_api" where
  "split_url = \<lparr>
     url_parse = (\<lambda>s. let b = takeWhile (\<lambda>c. c \<noteq> ch CHR ''#'') s in
        if b = [] then None else Some (b, dropWhile (\<lambda>c. c \<noteq> ch CHR ''#'') s)),
     url_protocol = (\<lambda>(b, h). takeWhile (\<lambda>c. c \<noteq> ch CHR '':'') b @ js '':''),
     url_hostname = (\<lambda>(b, h). takeWhile (\<lambda>c. c \<noteq> ch CHR ''/'') (drop 3 (dropWhile (\<lambda>c. c \<noteq> ch CHR '':'') b))),
     url_hash = snd,
     url_set_hash = (\<lambda>s (b, h). (b, ch CHR ''#'' # s)),
     url_toString = (\<lambda>(b, h). (if takeWhile (\<lambda>c. c \<noteq> ch CHR ''#'') b = [] then js ''x:'' else takeWhile (\<lambda>c. c \<noteq> ch CHR ''#'') b) @ h) \<rparr>"

lemma takeWhile_neq_stop:
  "c \<notin> set b \<Longrightarrow> takeWhile (\<lambda>x. x \<noteq> c) (b @ c # s) = b \<and> dropWhile (\<lambda>x. x \<noteq> c) (b @ c # s) = c # s"
  by (rule takeWhile_append_stop) auto

lemma split_url_ok [simp]: "url_api_ok split_url"
proof -
  have "c \<notin> set (takeWhile (\<lambda>x. x \<noteq> c) b)" for c :: jschar and b
    by (auto dest: set_takeWhileD)
  moreover have "ch CHR ''#'' \<notin> set (js ''x:'')" by (simp add: js_def)
  ultimately show ?thesis
    by (auto simp: url_api_ok_def split_url_def Let_def takeWhile_neq_stop)
qed

subsection \<open>\<open>URLSearchParams\<close>\<close>

fun split_at :: "byte \<Rightarrow> bytes \<Rightarrow> bytes list" where
  "split_at c [] = [[]]"
| "split_at c (b # bs) =
     (if b = c then [] # split_at c bs
      else (case split_at c bs of [] \<Rightarrow> [[b]] | p # ps \<Rightarrow> (b # p) # ps))"

definition hex_digit :: "byte \<Rightarrow> nat option" where
  "hex_digit b =
     (if 48 \<le> unat b \<and> unat b \<le> 57 then Some (unat b - 48)
      else if 65 \<le> unat b \<and> unat b \<le> 70 then Some (unat b - 55)
      else if 97 \<le> unat b \<and> unat b \<le> 102 then Some (unat b - 87)
      else None)"

fun percent_decode :: "bytes \<Rightarrow> bytes" where
  "percent_decode (p # a # b # bs) =
     (if unat p = 0x25 then
        (case (hex_digit a, hex_digit b) of
           (Some x, Some y) \<Rightarrow> word_of_nat (16 * x + y) # percent_decode bs
         | _ \<Rightarrow> p # percent_decode (a # b # bs))
      else p # percent_decode (a # b # bs))"
| "percent_decode bs = bs"

text \<open>UTF-8 decoding that keeps a byte order mark.\<close>

definition utf8_decode_nobom :: "bytes \<Rightarrow> jsstring" where
  "utf8_decode_nobom bs = concat (map units (utf8_run 0 0 0x80 0xBF (map unat bs)))"

definition form_text :: "bytes \<Rightarrow> jsstring" where
  "form_text bs = utf8_decode_nobom (percent_decode (map (\<lambda>b. if unat b = 0x2B then 0x20 else b) bs))"

definition form_pair :: "bytes \<Rightarrow> jsstring \<times> jsstring" where
  "form_pair p =
     (form_text (takeWhile (\<lambda>b. b \<noteq> 0x3D) p), form_text (drop 1 (dropWhile (\<lambda>b. b \<noteq> 0x3D) p)))"

text \<open>The constructor drops one leading question mark.\<close>

definition drop_question :: "jsstring \<Rightarrow> jsstring" where
  "drop_question s = (case s of [] \<Rightarrow> [] | c # r \<Rightarrow> if c = ch CHR ''?'' then r else s)"

definition search_params :: "jsstring \<Rightarrow> (jsstring \<times> jsstring) list" where
  "search_params s =
     map form_pair (filter (\<lambda>p. p \<noteq> []) (split_at 0x26 (utf8_encode (drop_question s))))"

subsection \<open>Parameters without special characters\<close>

text \<open>ASCII letters that the form parser leaves alone.\<close>

definition form_plain :: "jschar \<Rightarrow> bool" where
  "form_plain u = (unat u < 128 \<and> u \<noteq> ch CHR ''&'' \<and> u \<noteq> ch CHR ''='' \<and> u \<noteq> ch CHR ''%'' \<and> u \<noteq> ch CHR ''+'' \<and> u \<noteq> ch CHR ''?'')"

lemma utf8_encode_ascii: "(\<forall>u\<in>set s. unat u < 128) \<Longrightarrow> utf8_encode s = map ucast s"
proof (induction s rule: scalars.induct)
  case (2 u)
  then show ?case by (auto simp: utf8_encode_def scalar_of_def is_high_def is_low_def utf8_seq_def unsigned_ucast_eq)
next
  case (3 u v s)
  then show ?case by (auto simp: utf8_encode_def scalar_of_def is_high_def is_low_def utf8_seq_def)
qed (simp add: utf8_encode_def)

lemma utf8_decode_nobom_encode: "well_formed s \<Longrightarrow> utf8_decode_nobom (utf8_encode s) = s"
proof -
  assume s: "well_formed s"
  have "utf8_run 0 0 0x80 0xBF (map unat (utf8_encode s)) = scalars s"
    unfolding map_unat_utf8_encode by (rule utf8_run_seqs) (use scalars_are_scalar in blast)
  then show ?thesis by (simp add: utf8_decode_nobom_def units_scalars s)
qed

lemma ascii_well_formed: "(\<forall>u\<in>set s. unat u < 128) \<Longrightarrow> well_formed s"
  by (induction s rule: well_formed.induct) (auto simp: is_high_def is_low_def)

lemma unat_ucast_ascii: "unat (u :: jschar) < 128 \<Longrightarrow> unat (ucast u :: byte) = unat u"
  by (simp add: unsigned_ucast_eq take_bit_nat_eq_self)

lemma ucast_ascii_eq: "unat (u :: jschar) < 128 \<Longrightarrow> (ucast u :: byte) = ucast (ch c) \<longleftrightarrow> u = ch c" if "of_char c < (128 :: nat)"
proof -
  assume u: "unat u < 128"
  have "(ucast u :: byte) = ucast (ch c) \<longleftrightarrow> unat (ucast u :: byte) = unat (ucast (ch c) :: byte)"
    by (simp add: word_unat_eq_iff)
  also have "\<dots> \<longleftrightarrow> unat u = unat (ch c)"
    using u that by (simp only: unat_ucast_ascii unat_ch)
  finally show ?thesis by (simp add: word_unat_eq_iff)
qed

lemma percent_decode_plain: "(\<forall>b\<in>set bs. unat b \<noteq> 0x25) \<Longrightarrow> percent_decode bs = bs"
  by (induction bs rule: percent_decode.induct) auto

lemma form_text_plain:
  assumes "\<forall>u\<in>set s. form_plain u"
  shows "form_text (map ucast s) = s"
proof -
  have a: "\<forall>u\<in>set s. unat u < 128" using assms by (simp add: form_plain_def)
  have plus: "map (\<lambda>b. if unat b = 0x2B then 0x20 else b) (map ucast s) = (map ucast s :: bytes)"
  proof (intro map_idI)
    fix b :: byte assume "b \<in> set (map ucast s)"
    then obtain u where u: "u \<in> set s" "b = ucast u" by auto
    with assms have "unat u \<noteq> unat (ch CHR ''+'')" by (auto simp: form_plain_def word_unat_eq_iff)
    with u a show "(if unat b = 0x2B then 0x20 else b) = b" by (simp add: unat_ucast_ascii)
  qed
  have "\<forall>b\<in>set (map ucast s :: bytes). unat b \<noteq> 0x25"
  proof
    fix b :: byte assume "b \<in> set (map ucast s)"
    then obtain u where u: "u \<in> set s" "b = ucast u" by auto
    with assms have "unat u \<noteq> unat (ch CHR ''%'')" by (auto simp: form_plain_def word_unat_eq_iff)
    with u a show "unat b \<noteq> 0x25" by (simp add: unat_ucast_ascii)
  qed
  then have "form_text (map ucast s) = utf8_decode_nobom (map ucast s)"
    unfolding form_text_def plus by (simp add: percent_decode_plain)
  also have "\<dots> = s"
    using utf8_decode_nobom_encode [OF ascii_well_formed [OF a]] utf8_encode_ascii [OF a] by simp
  finally show ?thesis .
qed

lemma form_plain_not:
  assumes "\<forall>u\<in>set s. form_plain u"
  shows "(0x26 :: byte) \<notin> ucast ` set s" "(0x3D :: byte) \<notin> ucast ` set s"
proof -
  have "(0x26 :: byte) = ucast (ch CHR ''&'')" "(0x3D :: byte) = ucast (ch CHR ''='')"
    by (simp_all add: ch_def)
  moreover have "(ucast u :: byte) \<noteq> ucast (ch CHR ''&'') \<and> (ucast u :: byte) \<noteq> ucast (ch CHR ''='')"
    if "u \<in> set s" for u
    using that assms ucast_ascii_eq [of "CHR ''&''" u] ucast_ascii_eq [of "CHR ''=''" u]
    by (simp add: form_plain_def)
  ultimately show "(0x26 :: byte) \<notin> ucast ` set s" "(0x3D :: byte) \<notin> ucast ` set s"
    by (metis imageE)+
qed

lemma split_at_none: "c \<notin> set bs \<Longrightarrow> split_at c bs = [bs]"
  by (induction bs) auto

lemma split_at_append: "c \<notin> set bs \<Longrightarrow> split_at c (bs @ c # r) = bs # split_at c r"
  by (induction bs) auto

text \<open>The text of one parameter and of two.\<close>

definition param_text :: "jsstring \<Rightarrow> jsstring \<Rightarrow> jsstring" where
  "param_text k v = k @ ch CHR ''='' # v"

lemma form_pair_plain:
  assumes "\<forall>u\<in>set k. form_plain u" "\<forall>u\<in>set v. form_plain u"
  shows "form_pair (map ucast (param_text k v)) = (k, v)"
proof -
  have "ucast (ch CHR ''='') = (0x3D :: byte)" by (simp add: ch_def)
  then have split: "map ucast (param_text k v) = map ucast k @ 0x3D # (map ucast v :: bytes)"
    by (simp add: param_text_def)
  have "\<forall>x\<in>set (map ucast k :: bytes). x \<noteq> 0x3D"
    using form_plain_not(2) [OF assms(1)] by (metis image_set)
  then have "takeWhile (\<lambda>b. b \<noteq> 0x3D) (map ucast k @ 0x3D # (map ucast v :: bytes)) = map ucast k \<and>
      dropWhile (\<lambda>b. b \<noteq> 0x3D) (map ucast k @ 0x3D # (map ucast v :: bytes)) = 0x3D # map ucast v"
    by (rule takeWhile_append_stop) simp
  then show ?thesis
    unfolding form_pair_def split by (simp add: form_text_plain assms)
qed

lemma param_text_ascii:
  "(\<forall>u\<in>set k. form_plain u) \<Longrightarrow> (\<forall>u\<in>set v. form_plain u) \<Longrightarrow> \<forall>u\<in>set (param_text k v). unat u < 128"
  by (auto simp: param_text_def form_plain_def)

lemma param_text_no_amp:
  assumes "\<forall>u\<in>set k. form_plain u" "\<forall>u\<in>set v. form_plain u"
  shows "(0x26 :: byte) \<notin> set (map ucast (param_text k v))"
proof -
  have "(0x26 :: byte) \<noteq> ucast (ch CHR ''='')" by (simp add: ch_def)
  then show ?thesis
    using assms form_plain_not(1) [of k] form_plain_not(1) [of v] by (auto simp: param_text_def)
qed

lemma no_question:
  "(\<forall>u\<in>set k. form_plain u) \<Longrightarrow>
   drop_question (param_text k v @ r) = param_text k v @ r"
  by (cases k) (auto simp: drop_question_def param_text_def form_plain_def)

lemma search_params_one:
  assumes "\<forall>u\<in>set k. form_plain u" "\<forall>u\<in>set v. form_plain u"
  shows "search_params (param_text k v) = [(k, v)]"
  using no_question [OF assms(1), of v "[]"]
  by (simp add: search_params_def utf8_encode_ascii [OF param_text_ascii [OF assms]]
      split_at_none [OF param_text_no_amp [OF assms]] form_pair_plain [OF assms])
     (simp add: param_text_def)

lemma search_params_two:
  assumes "\<forall>u\<in>set k. form_plain u" "\<forall>u\<in>set v. form_plain u"
    and "\<forall>u\<in>set k'. form_plain u" "\<forall>u\<in>set v'. form_plain u"
  shows "search_params (param_text k v @ ch CHR ''&'' # param_text k' v') = [(k, v), (k', v')]"
proof -
  let ?s = "param_text k v @ ch CHR ''&'' # param_text k' v'"
  have "\<forall>u\<in>set ?s. unat u < 128"
    using param_text_ascii [OF assms(1,2)] param_text_ascii [OF assms(3,4)] by auto
  moreover have "ucast (ch CHR ''&'') = (0x26 :: byte)" by (simp add: ch_def)
  ultimately have "utf8_encode ?s = map ucast (param_text k v) @ 0x26 # map ucast (param_text k' v')"
    by (simp add: utf8_encode_ascii)
  then have "split_at 0x26 (utf8_encode ?s) = [map ucast (param_text k v), map ucast (param_text k' v')]"
    using split_at_append [OF param_text_no_amp [OF assms(1,2)]]
      split_at_none [OF param_text_no_amp [OF assms(3,4)]] by simp
  moreover have "map ucast (param_text k v) \<noteq> ([] :: bytes)" "map ucast (param_text k' v') \<noteq> ([] :: bytes)"
    by (simp_all add: param_text_def)
  ultimately show ?thesis
    using no_question [OF assms(1), of v "ch CHR ''&'' # param_text k' v'"]
    by (simp add: search_params_def form_pair_plain assms)
qed

lemma b64_plain: "u \<in> set B64_ALPHABET \<Longrightarrow> form_plain u"
proof -
  assume "u \<in> set B64_ALPHABET"
  then have "in_cls B64_RANGES u" by (simp add: b64_class_alphabet)
  then show ?thesis by (auto simp: in_cls_def B64_RANGES_def form_plain_def)
qed

lemma b64_fragment: "u \<in> set B64_ALPHABET \<Longrightarrow> in_cls FRAGMENT_RANGES u"
proof -
  assume "u \<in> set B64_ALPHABET"
  then have "in_cls B64_RANGES u" by (simp add: b64_class_alphabet)
  then show ?thesis by (auto simp: in_cls_def FRAGMENT_RANGES_def)
qed

end
