(* ===== verification/Bundle.thy ===== *)
theory Bundle
  imports Web_Platform Ids JS_JSON_Props
begin

text \<open>
  \<open>protocol/src/signaling.ts\<close> and \<open>protocol/src/bundle.ts\<close>: the signaling messages, the closed schema a
  bundle of them is validated against, and its wire form (JSON, UTF-8, deflate-raw, base64url). The
  compression streams are arguments. The theory shows which values validate, that decoding never
  returns an invalid bundle, and that a bundle survives encoding.
\<close>

subsection \<open>Messages\<close>

datatype sig_message =
    Offer (msg_from: jsstring) (msg_sdp: jsstring)
  | Answer (msg_from: jsstring) (msg_to: jsstring) (msg_sdp: jsstring)
  | Ice (msg_from: jsstring) (msg_to: jsstring) (msg_candidate: jsval)
  | Bye (msg_from: jsstring)

text \<open>The object literals of the messages.\<close>

fun msg_fields :: "sig_message \<Rightarrow> jsfields" where
  "msg_fields (Offer f s) = [(js ''kind'', Str (js ''offer'')), (js ''from'', Str f), (js ''sdp'', Str s)]"
| "msg_fields (Answer f t s) =
     [(js ''kind'', Str (js ''answer'')), (js ''from'', Str f), (js ''to'', Str t), (js ''sdp'', Str s)]"
| "msg_fields (Ice f t c) =
     [(js ''kind'', Str (js ''ice'')), (js ''from'', Str f), (js ''to'', Str t), (js ''candidate'', c)]"
| "msg_fields (Bye f) = [(js ''kind'', Str (js ''bye'')), (js ''from'', Str f)]"

definition msg_val :: "sig_message \<Rightarrow> jsval" where
  "msg_val m = Obj (msg_fields m)"

abbreviation bundle_error :: "string \<Rightarrow> err" where
  "bundle_error m \<equiv> Thrown ''BundleValidationError'' m"

definition bundle_asObject :: "jsval \<Rightarrow> string \<Rightarrow> err + jsfields" where
  "bundle_asObject v lbl = as_object ''BundleValidationError'' lbl v"

definition KNOWN_KINDS :: "string list" where
  "KNOWN_KINDS = [''offer'', ''answer'', ''ice'', ''bye'']"

definition non_empty_str :: "jsval \<Rightarrow> jsstring option" where
  "non_empty_str v = (case v of Str s \<Rightarrow> if length s = 0 then None else Some s | _ \<Rightarrow> None)"

definition validateMessage :: "jsval \<Rightarrow> nat \<Rightarrow> err + sig_message" where
  "validateMessage v idx =
     (case bundle_asObject v ''messages[]'' of
        Inl e \<Rightarrow> Inl e
      | Inr obj \<Rightarrow>
          (case fld obj ''kind'' of
             Str kind \<Rightarrow>
               if kind \<notin> set (map js KNOWN_KINDS) then Inl (bundle_error ''messages[].kind is invalid: '')
               else if \<not> isPeerId (fld obj ''from'') then Inl (bundle_error ''messages[].from is not a PeerId'')
               else (let from = str_of (fld obj ''from'') in
                     if kind = js ''offer'' then
                       (case non_empty_str (fld obj ''sdp'') of
                          None \<Rightarrow> Inl (bundle_error ''messages[].sdp must be a non-empty string'')
                        | Some sdp \<Rightarrow>
                            (case unknown_field [''kind'', ''from'', ''sdp''] (bundle_error ''messages[] unknown field: '') obj of
                               Some e \<Rightarrow> Inl e
                             | None \<Rightarrow> Inr (Offer from sdp)))
                     else if kind = js ''answer'' then
                       (case non_empty_str (fld obj ''sdp'') of
                          None \<Rightarrow> Inl (bundle_error ''messages[].sdp must be a non-empty string'')
                        | Some sdp \<Rightarrow>
                            if \<not> isPeerId (fld obj ''to'') then Inl (bundle_error ''messages[].to is not a PeerId'')
                            else (case unknown_field [''kind'', ''from'', ''to'', ''sdp''] (bundle_error ''messages[] unknown field: '') obj of
                                Some e \<Rightarrow> Inl e
                              | None \<Rightarrow> Inr (Answer from (str_of (fld obj ''to'')) sdp)))
                     else if kind = js ''ice'' then
                       (if \<not> is_objecty (fld obj ''candidate'')
                        then Inl (bundle_error ''messages[].candidate must be an RTCIceCandidateInit'')
                        else if \<not> isPeerId (fld obj ''to'') then Inl (bundle_error ''messages[].to is not a PeerId'')
                        else (case unknown_field [''kind'', ''from'', ''to'', ''candidate''] (bundle_error ''messages[] unknown field: '') obj of
                            Some e \<Rightarrow> Inl e
                          | None \<Rightarrow> Inr (Ice from (str_of (fld obj ''to'')) (fld obj ''candidate''))))
                     else if kind = js ''bye'' then
                       (case unknown_field [''kind'', ''from''] (bundle_error ''messages[] unknown field: '') obj of
                          Some e \<Rightarrow> Inl e
                        | None \<Rightarrow> Inr (Bye from))
                     else Inl (bundle_error ''unreachable kind ''))
           | _ \<Rightarrow> Inl (bundle_error ''messages[].kind is invalid: '')))"

subsection \<open>Bundles\<close>

record sig_bundle =
  bundle_roomId :: jsstring
  bundle_messages :: "sig_message list"

definition bundle_val :: "sig_bundle \<Rightarrow> jsval" where
  "bundle_val b = Obj [(js ''v'', jint 1), (js ''roomId'', Str (bundle_roomId b)),
     (js ''messages'', Arr (map msg_val (bundle_messages b)))]"

definition ALLOWED_BUNDLE_KEYS :: "string list" where
  "ALLOWED_BUNDLE_KEYS = [''v'', ''roomId'', ''messages'']"

definition validateSignalingBundle :: "jsval \<Rightarrow> err + sig_bundle" where
  "validateSignalingBundle v =
     (case bundle_asObject v ''bundle'' of
        Inl e \<Rightarrow> Inl e
      | Inr obj \<Rightarrow>
          (case unknown_field ALLOWED_BUNDLE_KEYS (bundle_error ''unknown field: '') obj of
             Some e \<Rightarrow> Inl e
           | None \<Rightarrow>
               if fld obj ''v'' \<noteq> jint 1 then Inl (bundle_error ''v must be 1'')
               else if \<not> isRoomId (fld obj ''roomId'') then Inl (bundle_error ''roomId is not a RoomId'')
               else (case fld obj ''messages'' of
                   Arr ms \<Rightarrow>
                     if length ms = 0 then Inl (bundle_error ''messages must be a non-empty array'')
                     else (case throwing_map (\<lambda>(i, m). validateMessage m i) (enumerate 0 ms) of
                         Inl e \<Rightarrow> Inl e
                       | Inr messages \<Rightarrow>
                           Inr \<lparr>bundle_roomId = str_of (fld obj ''roomId''), bundle_messages = messages\<rparr>)
                 | _ \<Rightarrow> Inl (bundle_error ''messages must be a non-empty array''))))"

text \<open>The client's object is validated and then printed as it is.\<close>

definition encodeSignalingBundle :: "transform \<Rightarrow> jsval \<Rightarrow> err + jsstring" where
  "encodeSignalingBundle deflate bundle =
     (case validateSignalingBundle bundle of
        Inl e \<Rightarrow> Inl e
      | Inr _ \<Rightarrow>
          (case json_str bundle of
             None \<Rightarrow> Inl (Thrown ''TypeError'' '''')
           | Some json \<Rightarrow>
               (case bundle_runStream deflate (utf8_encode json) of
                  Inl e \<Rightarrow> Inl e
                | Inr compressed \<Rightarrow> Inr (bundle_base64urlEncode compressed))))"

definition decodeSignalingBundle :: "transform \<Rightarrow> jsstring \<Rightarrow> err + sig_bundle" where
  "decodeSignalingBundle inflate encoded =
     (case bundle_base64urlDecode encoded of
        Inl e \<Rightarrow> Inl e
      | Inr compressed \<Rightarrow>
          (case bundle_runStream inflate compressed of
             Inl e \<Rightarrow> Inl e
           | Inr utf8 \<Rightarrow>
               (case json_parse (utf8_decode utf8) of
                  None \<Rightarrow> Inl (bundle_error ''payload is not valid JSON: '')
                | Some parsed \<Rightarrow> validateSignalingBundle parsed)))"

text \<open>\<open>None\<close> is \<open>null\<close>.\<close>

definition extractBundleFromUrl :: "'u url_api \<Rightarrow> jsstring \<Rightarrow> err + jsstring option" where
  "extractBundleFromUrl api href =
     (case url_parse api href of
        None \<Rightarrow> Inl (bundle_error ''not a valid URL: '')
      | Some url \<Rightarrow>
          if url_fragment api url = [] then Inr None
          else Inr (map_of (search_params (url_fragment api url)) (js ''s'')))"

subsection \<open>The schema\<close>

fun msg_ok :: "sig_message \<Rightarrow> bool" where
  "msg_ok (Offer f s) = (isPeerId (Str f) \<and> s \<noteq> [])"
| "msg_ok (Answer f t s) = (isPeerId (Str f) \<and> isPeerId (Str t) \<and> s \<noteq> [])"
| "msg_ok (Ice f t c) = (isPeerId (Str f) \<and> isPeerId (Str t) \<and> is_objecty c)"
| "msg_ok (Bye f) = isPeerId (Str f)"

lemma isPeerId_str: "isPeerId v \<longleftrightarrow> (\<exists>s. v = Str s \<and> isPeerId (Str s))"
  by (cases v) auto

lemma isRoomId_str: "isRoomId v \<longleftrightarrow> (\<exists>s. v = Str s \<and> isRoomId (Str s))"
  by (cases v) auto

lemma non_empty_str_Some: "non_empty_str v = Some s \<longleftrightarrow> v = Str s \<and> s \<noteq> []"
  by (cases v) (auto simp: non_empty_str_def)

lemma validateMessage_val: "validateMessage (msg_val m) i = Inr m \<longleftrightarrow> msg_ok m"
  by (cases m)
    (auto simp: validateMessage_def bundle_asObject_def as_object_def msg_val_def KNOWN_KINDS_def
      non_empty_str_def unknown_field_def split: option.splits)

lemma fld_objecty: "is_objecty (fld fs k) \<Longrightarrow> map_of fs (js k) = Some (fld fs k)"
  by (rule fld_Some) auto

text \<open>What a validated message says of the object: its fields are those of the message's literal.\<close>

lemma validateMessage_Inr:
  assumes "validateMessage v i = Inr m"
  shows "\<exists>fs. v = Obj fs \<and> msg_ok m \<and> fst ` set fs \<subseteq> fst ` set (msg_fields m) \<and>
    (\<forall>(k, x)\<in>set (msg_fields m). map_of fs k = Some x)"
proof -
  obtain fs where fs: "as_object ''BundleValidationError'' ''messages[]'' v = Inr fs"
    using assms by (auto simp: validateMessage_def bundle_asObject_def split: sum.splits)
  have "v = Obj fs"
    using fs assms by (auto simp: as_object_Inr validateMessage_def bundle_asObject_def fld_u8_fields split: sum.splits)
  moreover have "fld fs ''kind'' \<in> {Str (js ''offer''), Str (js ''answer''), Str (js ''ice''), Str (js ''bye'')}"
    using assms fs by (auto simp: validateMessage_def bundle_asObject_def KNOWN_KINDS_def Let_def
        split: jsval.splits if_splits)
  ultimately show ?thesis
    using assms fs
    by (auto simp: validateMessage_def bundle_asObject_def KNOWN_KINDS_def Let_def non_empty_str_Some
        unknown_field_None isPeerId_str [of "fld fs _"] fld_Some
        split: jsval.splits if_splits option.splits dest: fld_Some fld_objecty)
qed

lemma msg_fields_distinct: "distinct (map fst (msg_fields m))"
  by (cases m) simp_all

theorem validateMessage_schema:
  assumes "distinct (map fst fs)"
  shows "validateMessage (Obj fs) i = Inr m \<longleftrightarrow> msg_ok m \<and> set fs = set (msg_fields m)"
proof
  assume "validateMessage (Obj fs) i = Inr m"
  then have m: "msg_ok m" "fst ` set fs \<subseteq> fst ` set (msg_fields m)"
      "\<forall>(k, x)\<in>set (msg_fields m). map_of fs k = Some x"
    using validateMessage_Inr by blast+
  have "set (msg_fields m) \<subseteq> set fs"
    using m(3) by (auto dest: map_of_SomeD)
  moreover have "set fs \<subseteq> set (msg_fields m)"
  proof
    fix kx assume kx: "kx \<in> set fs"
    then obtain y where "(fst kx, y) \<in> set (msg_fields m)" using m(2) by force
    with m(3) have "map_of fs (fst kx) = Some y" by blast
    moreover have "map_of fs (fst kx) = Some (snd kx)" using assms kx by (simp add: map_of_eq_Some_iff)
    ultimately show "kx \<in> set (msg_fields m)"
      using \<open>(fst kx, y) \<in> set (msg_fields m)\<close> by (metis option.inject prod.collapse)
  qed
  ultimately show "msg_ok m \<and> set fs = set (msg_fields m)" using m(1) by blast
next
  assume m: "msg_ok m \<and> set fs = set (msg_fields m)"
  then have maps: "map_of fs = map_of (msg_fields m)"
    using assms msg_fields_distinct [of m] by (simp add: set_eq_map_of)
  have flds: "fld fs k = fld (msg_fields m) k" for k by (simp add: fld_def maps)
  have unknown: "unknown_field al e fs = unknown_field al e (msg_fields m)" for al e
    by (rule unknown_field_sets) (simp add: m)
  have "validateMessage (Obj fs) i = validateMessage (msg_val m) i"
    unfolding validateMessage_def msg_val_def bundle_asObject_def as_object_def jsval.case sum.case
    by (simp only: flds unknown)
  with m show "validateMessage (Obj fs) i = Inr m" by (simp add: validateMessage_val)
qed

subsection \<open>Bundles that validate\<close>

definition bundle_ok :: "sig_bundle \<Rightarrow> bool" where
  "bundle_ok b = (isRoomId (Str (bundle_roomId b)) \<and> bundle_messages b \<noteq> [] \<and> list_all msg_ok (bundle_messages b))"

lemma throwing_map_messages:
  "throwing_map (\<lambda>(i, m). validateMessage m i) (enumerate n ms) = Inr bs \<Longrightarrow>
   list_all msg_ok bs \<and> length bs = length ms"
proof (induction ms arbitrary: n bs)
  case (Cons m ms)
  then show ?case
    by (auto split: sum.splits dest!: Cons.IH validateMessage_Inr)
qed simp

lemma throwing_map_vals:
  "list_all msg_ok ms \<Longrightarrow> throwing_map (\<lambda>(i, m). validateMessage m i) (enumerate n (map msg_val ms)) = Inr ms"
  by (induction ms arbitrary: n) (auto simp: validateMessage_val [THEN iffD2])

lemma validate_bundle_val: "bundle_ok b \<Longrightarrow> validateSignalingBundle (bundle_val b) = Inr b"
  using throwing_map_vals [of "bundle_messages b" 0]
  by (cases b)
    (simp add: bundle_ok_def validateSignalingBundle_def bundle_asObject_def as_object_def bundle_val_def
      unknown_field_def ALLOWED_BUNDLE_KEYS_def)

theorem validateSignalingBundle_ok:
  assumes "validateSignalingBundle v = Inr b"
  shows "bundle_ok b \<and> (\<exists>fs. v = Obj fs \<and> fst ` set fs \<subseteq> js ` set ALLOWED_BUNDLE_KEYS)"
proof -
  obtain fs where fs: "as_object ''BundleValidationError'' ''bundle'' v = Inr fs"
    using assms by (auto simp: validateSignalingBundle_def bundle_asObject_def split: sum.splits)
  have v: "fld fs ''v'' = jint 1" "fst ` set fs \<subseteq> js ` set ALLOWED_BUNDLE_KEYS"
    using assms fs by (auto simp: validateSignalingBundle_def bundle_asObject_def unknown_field_None
        split: option.splits if_splits)
  then have "v = Obj fs"
    using fs by (auto simp: as_object_Inr fld_u8_fields)
  moreover have "bundle_ok b"
    using assms fs isRoomId_str [of "fld fs ''roomId''"]
    by (auto simp: validateSignalingBundle_def bundle_asObject_def bundle_ok_def
        split: option.splits if_splits jsval.splits sum.splits dest!: throwing_map_messages)
  ultimately show ?thesis using v by blast
qed

subsection \<open>Over the wire\<close>

theorem decodeSignalingBundle_ok:
  "decodeSignalingBundle inflate s = Inr b \<Longrightarrow> bundle_ok b"
  by (auto simp: decodeSignalingBundle_def validateSignalingBundle_ok split: sum.splits option.splits)

text \<open>Encoding any value whose JSON text is faithful, then decoding, is validating the value.\<close>

lemma decode_encode_clean:
  assumes "streams_inverse deflate inflate" "json_clean v" "validateSignalingBundle v = Inr b"
  shows "\<exists>s. encodeSignalingBundle deflate v = Inr s \<and> set s \<subseteq> set B64_ALPHABET \<and> s \<noteq> [] \<and>
    decodeSignalingBundle inflate s = Inr b"
proof -
  obtain json where json: "json_str v = Some json"
    using assms(2) json_str_Undef [of v] by (cases v) auto
  have "utf8_encode json \<noteq> []"
    using json_str_start [OF assms(2) json] utf8_encode_Nil [of json] by (auto simp: text_start_def)
  then obtain z where z: "run_stream deflate (utf8_encode json) = Inr z"
      "run_stream inflate z = Inr (utf8_encode json)" "z \<noteq> []"
    using streams_inverse_run [OF assms(1)] by blast
  have "json_parse (utf8_decode (utf8_encode json)) = Some v"
    using json_utf8_roundtrip [OF json_clean_data [OF assms(2)] json] json_clean_norm_id [OF assms(2)] by simp
  then have dec: "decodeSignalingBundle inflate (b64_encode z) = Inr b"
    by (simp add: decodeSignalingBundle_def bundle_base64urlDecode_def b64_decode_encode
        bundle_runStream_def z assms(3))
  have enc: "encodeSignalingBundle deflate v = Inr (b64_encode z)"
    by (simp add: encodeSignalingBundle_def assms(3) json bundle_runStream_def z bundle_base64urlEncode_def)
  show ?thesis
    using dec enc z(3) b64_encode_alphabet [of z] b64_encode_inj [of z "[]"] by (auto simp: b64_encode_def)
qed

text \<open>An ICE candidate is an object whose fields JSON keeps.\<close>

definition bundle_clean :: "sig_bundle \<Rightarrow> bool" where
  "bundle_clean b = list_all (\<lambda>m. json_clean (msg_val m)) (bundle_messages b)"

lemma json_clean_bundle: "bundle_clean b \<Longrightarrow> json_clean (bundle_val b)"
  by (auto simp: bundle_clean_def bundle_val_def list_all_iff)

theorem decodeSignalingBundle_encode:
  assumes "streams_inverse deflate inflate" "bundle_ok b" "bundle_clean b"
  shows "\<exists>s. encodeSignalingBundle deflate (bundle_val b) = Inr s \<and> decodeSignalingBundle inflate s = Inr b"
  using decode_encode_clean [OF assms(1) json_clean_bundle [OF assms(3)] validate_bundle_val [OF assms(2)]] by blast

end
