(* ===== verification/Invite.thy ===== *)
theory Invite
  imports Bundle Envelope
begin

text \<open>
  \<open>protocol/src/invite.ts\<close>: the invite payload and its closed schema, its canonical JSON text, the
  encoded form, and the URLs that carry an invite alone or with a signaling bundle. The compression
  streams and the URL class are arguments. The theory shows what validates, that encoding depends
  only on the validated content, that both kinds of URL give back what was put in, and what a parsed
  invite-and-bundle is guaranteed to satisfy.
\<close>

subsection \<open>Payloads\<close>

record invite_payload =
  inv_roomId :: jsstring
  inv_from :: jsstring
  inv_protocolVersion :: jsstring
  inv_capabilities :: "jsstring list"
  inv_note :: "jsstring option"

definition INVITE_ALLOWED_KEYS :: "string list" where
  "INVITE_ALLOWED_KEYS = [''v'', ''roomId'', ''from'', ''protocolVersion'', ''capabilities'', ''note'']"

definition INVITE_URL_MAX_LENGTH :: nat where
  "INVITE_URL_MAX_LENGTH = 2048"

definition CAPABILITY_TAG :: rx where
  "CAPABILITY_TAG = Seqs [LABEL, Chr CHR ''-'', Chr CHR ''v'', Plus (Cls [DIGITS])]"

abbreviation invite_error :: "string \<Rightarrow> err" where
  "invite_error m \<equiv> Thrown ''InviteValidationError'' m"

definition invite_asObject :: "jsval \<Rightarrow> err + jsfields" where
  "invite_asObject v = as_object ''InviteValidationError'' ''payload'' v"

definition bad_capability :: "jsval \<Rightarrow> err option" where
  "bad_capability tag =
     (case tag of
        Str s \<Rightarrow> if rx_match CAPABILITY_TAG s then None else Some (invite_error ''invalid capability tag: '')
      | _ \<Rightarrow> Some (invite_error ''invalid capability tag: ''))"

text \<open>The check of \<open>note\<close>: absent, or a string of at most 64 code points.\<close>

definition check_note :: "jsval \<Rightarrow> err + jsstring option" where
  "check_note v =
     (case v of
        Undef \<Rightarrow> Inr None
      | Str s \<Rightarrow> if code_points s > 64 then Inl (invite_error ''note exceeds 64 code points'') else Inr (Some s)
      | _ \<Rightarrow> Inl (invite_error ''note must be a string when present''))"

definition validateInvitePayload :: "jsval \<Rightarrow> err + invite_payload" where
  "validateInvitePayload v =
     (case invite_asObject v of
        Inl e \<Rightarrow> Inl e
      | Inr obj \<Rightarrow>
          (case unknown_field INVITE_ALLOWED_KEYS (invite_error ''unknown field: '') obj of
             Some e \<Rightarrow> Inl e
           | None \<Rightarrow>
               if fld obj ''v'' \<noteq> jint 1 then Inl (invite_error ''v must be 1'')
               else if \<not> isRoomId (fld obj ''roomId'') then Inl (invite_error ''roomId is not a RoomId'')
               else if \<not> isPeerId (fld obj ''from'') then Inl (invite_error ''from is not a PeerId'')
               else (case fld obj ''protocolVersion'' of
                   Str pv \<Rightarrow>
                     if \<not> rx_match SEMVER pv then Inl (invite_error ''protocolVersion is not SemVer'')
                     else (case fld obj ''capabilities'' of
                         Arr caps \<Rightarrow>
                           if length caps = 0 then Inl (invite_error ''capabilities must be a non-empty array'')
                           else (case throwing_all bad_capability caps of
                               Some e \<Rightarrow> Inl e
                             | None \<Rightarrow>
                                 (case check_note (fld obj ''note'') of
                                    Inl e \<Rightarrow> Inl e
                                  | Inr note \<Rightarrow>
                                      Inr \<lparr>inv_roomId = str_of (fld obj ''roomId''),
                                           inv_from = str_of (fld obj ''from''),
                                           inv_protocolVersion = pv,
                                           inv_capabilities = map str_of caps,
                                           inv_note = note\<rparr>))
                       | _ \<Rightarrow> Inl (invite_error ''capabilities must be a non-empty array''))
                 | _ \<Rightarrow> Inl (invite_error ''protocolVersion is not SemVer''))))"

text \<open>The validated payload as an object.\<close>

definition invite_val :: "invite_payload \<Rightarrow> jsval" where
  "invite_val p = Obj ([(js ''v'', jint 1), (js ''roomId'', Str (inv_roomId p)), (js ''from'', Str (inv_from p)),
     (js ''protocolVersion'', Str (inv_protocolVersion p)), (js ''capabilities'', Arr (map Str (inv_capabilities p)))]
     @ (case inv_note p of None \<Rightarrow> [] | Some n \<Rightarrow> [(js ''note'', Str n)]))"

subsection \<open>Encoding\<close>

definition canonicalJsonStringify :: "jsval \<Rightarrow> jsstring option" where
  "canonicalJsonStringify payload =
     (let p = own_fields payload;
          ordered = [(js ''v'', fld p ''v''), (js ''roomId'', fld p ''roomId''), (js ''from'', fld p ''from''),
            (js ''protocolVersion'', fld p ''protocolVersion''), (js ''capabilities'', fld p ''capabilities'')]
      in json_str (Obj (if fld p ''note'' \<noteq> Undef then ordered @ [(js ''note'', fld p ''note'')] else ordered)))"

definition deflateRaw :: "transform \<Rightarrow> bytes \<Rightarrow> err + bytes" where
  "deflateRaw deflate input = invite_runStream deflate input"

definition inflateRaw :: "transform \<Rightarrow> bytes \<Rightarrow> err + bytes" where
  "inflateRaw inflate input = invite_runStream inflate input"

definition encodeInvite :: "transform \<Rightarrow> jsval \<Rightarrow> err + jsstring" where
  "encodeInvite deflate payload =
     (case validateInvitePayload payload of
        Inl e \<Rightarrow> Inl e
      | Inr _ \<Rightarrow>
          (case canonicalJsonStringify payload of
             None \<Rightarrow> Inl (Thrown ''TypeError'' '''')
           | Some json \<Rightarrow>
               (case deflateRaw deflate (utf8_encode json) of
                  Inl e \<Rightarrow> Inl e
                | Inr compressed \<Rightarrow> Inr (invite_base64urlEncode compressed))))"

definition decodeInvite :: "transform \<Rightarrow> jsstring \<Rightarrow> err + invite_payload" where
  "decodeInvite inflate encoded =
     (case invite_base64urlDecode encoded of
        Inl e \<Rightarrow> Inl e
      | Inr compressed \<Rightarrow>
          (case inflateRaw inflate compressed of
             Inl e \<Rightarrow> Inl e
           | Inr utf8 \<Rightarrow>
               (case json_parse (utf8_decode utf8) of
                  None \<Rightarrow> Inl (invite_error ''payload is not valid JSON: '')
                | Some parsed \<Rightarrow> validateInvitePayload parsed)))"

subsection \<open>URLs\<close>

definition LOOPBACK_HOSTS :: "string list" where
  "LOOPBACK_HOSTS = [''localhost'', ''127.0.0.1'', ''[::1]'', ''::1'']"

definition scheme_allowed :: "'u url_api \<Rightarrow> 'u \<Rightarrow> bool" where
  "scheme_allowed api u =
     (url_protocol api u = js ''https:'' \<or> url_protocol api u = js ''file:'' \<or>
      (url_protocol api u = js ''http:'' \<and> url_hostname api u \<in> set (map js LOOPBACK_HOSTS)))"

definition assertAllowedScheme :: "'u url_api \<Rightarrow> 'u \<Rightarrow> err + unit" where
  "assertAllowedScheme api u =
     (if scheme_allowed api u then Inr ()
      else Inl (invite_error ''invite scheme must be https (or http on loopback / file://), got ''))"

definition buildInviteUrl :: "'u url_api \<Rightarrow> transform \<Rightarrow> jsstring \<Rightarrow> jsval \<Rightarrow> err + jsstring" where
  "buildInviteUrl api deflate baseUrl payload =
     (case url_parse api baseUrl of
        None \<Rightarrow> Inl (Thrown ''TypeError'' '''')
      | Some url \<Rightarrow>
          (case assertAllowedScheme api url of
             Inl e \<Rightarrow> Inl e
           | Inr _ \<Rightarrow>
               (case encodeInvite deflate payload of
                  Inl e \<Rightarrow> Inl e
                | Inr enc \<Rightarrow>
                    (let result = url_toString api (url_set_hash api (param_text (js ''i'') enc) url) in
                     if length result > INVITE_URL_MAX_LENGTH then Inl (invite_error ''invite URL exceeds 2048 chars'')
                     else Inr result))))"

text \<open>\<open>params.get(k)\<close> when it is neither missing nor empty.\<close>

definition get_param :: "jsstring \<Rightarrow> string \<Rightarrow> jsstring option" where
  "get_param fragment k =
     (case map_of (search_params fragment) (js k) of None \<Rightarrow> None | Some v \<Rightarrow> if v = [] then None else Some v)"

definition parseInviteUrl :: "'u url_api \<Rightarrow> transform \<Rightarrow> jsstring \<Rightarrow> err + invite_payload" where
  "parseInviteUrl api inflate href =
     (case url_parse api href of
        None \<Rightarrow> Inl (Thrown ''TypeError'' '''')
      | Some url \<Rightarrow>
          (case get_param (url_fragment api url) ''i'' of
             None \<Rightarrow> Inl (invite_error ''missing #i= fragment'')
           | Some encoded \<Rightarrow> decodeInvite inflate encoded))"

definition buildInviteBundleUrl ::
  "'u url_api \<Rightarrow> transform \<Rightarrow> jsstring \<Rightarrow> jsval \<Rightarrow> jsval \<Rightarrow> err + jsstring" where
  "buildInviteBundleUrl api deflate baseUrl invite bundle =
     (case validateInvitePayload invite of
        Inl e \<Rightarrow> Inl e
      | Inr ip \<Rightarrow>
          (case validateSignalingBundle bundle of
             Inl e \<Rightarrow> Inl e
           | Inr b \<Rightarrow>
               if bundle_roomId b \<noteq> inv_roomId ip
               then Inl (invite_error ''bundle.roomId must equal invite.roomId'')
               else (case throwing_all (\<lambda>m. if msg_from m \<noteq> inv_from ip
                         then Some (invite_error ''every bundle message.from must equal invite.from on the first hop'')
                         else None) (bundle_messages b) of
                   Some e \<Rightarrow> Inl e
                 | None \<Rightarrow>
                     (case url_parse api baseUrl of
                        None \<Rightarrow> Inl (Thrown ''TypeError'' '''')
                      | Some url \<Rightarrow>
                          (case assertAllowedScheme api url of
                             Inl e \<Rightarrow> Inl e
                           | Inr _ \<Rightarrow>
                               (case encodeInvite deflate invite of
                                  Inl e \<Rightarrow> Inl e
                                | Inr ie \<Rightarrow>
                                    (case encodeSignalingBundle deflate bundle of
                                       Inl e \<Rightarrow> Inl e
                                     | Inr be \<Rightarrow>
                                         (let result = url_toString api (url_set_hash api
                                            (param_text (js ''i'') ie @ ch CHR ''&'' # param_text (js ''s'') be) url) in
                                          if length result > INVITE_URL_MAX_LENGTH
                                          then Inl (invite_error ''invite+bundle URL exceeds 2048 chars'')
                                          else Inr result))))))))"

record parsed_invite_bundle =
  parsed_invite :: invite_payload
  parsed_bundle :: "sig_bundle option"

definition parseInviteBundleUrl ::
  "'u url_api \<Rightarrow> transform \<Rightarrow> jsstring \<Rightarrow> err + parsed_invite_bundle" where
  "parseInviteBundleUrl api inflate href =
     (case url_parse api href of
        None \<Rightarrow> Inl (Thrown ''TypeError'' '''')
      | Some url \<Rightarrow>
          (let fragment = url_fragment api url in
           case throwing_all (\<lambda>(k, v). if k \<noteq> js ''i'' \<and> k \<noteq> js ''s''
                  then Some (invite_error ''unknown fragment key: '') else None) (search_params fragment) of
             Some e \<Rightarrow> Inl e
           | None \<Rightarrow>
               (case get_param fragment ''i'' of
                  None \<Rightarrow> Inl (invite_error ''missing #i= fragment'')
                | Some inviteEncoded \<Rightarrow>
                    (case decodeInvite inflate inviteEncoded of
                       Inl e \<Rightarrow> Inl e
                     | Inr invite \<Rightarrow>
                         (case get_param fragment ''s'' of
                            None \<Rightarrow> Inr \<lparr>parsed_invite = invite, parsed_bundle = None\<rparr>
                          | Some bundleEncoded \<Rightarrow>
                              (case decodeSignalingBundle inflate bundleEncoded of
                                 Inl e \<Rightarrow> Inl e
                               | Inr bundle \<Rightarrow>
                                   if bundle_roomId bundle \<noteq> inv_roomId invite
                                   then Inl (invite_error ''bundle.roomId does not match invite.roomId'')
                                   else (case throwing_all (\<lambda>m. if msg_from m \<noteq> inv_from invite
                                             then Some (invite_error ''bundle message.from does not match invite.from on the first hop'')
                                             else None) (bundle_messages bundle) of
                                       Some e \<Rightarrow> Inl e
                                     | None \<Rightarrow> Inr \<lparr>parsed_invite = invite, parsed_bundle = Some bundle\<rparr>)))))))"

subsection \<open>The schema\<close>

definition invite_ok :: "invite_payload \<Rightarrow> bool" where
  "invite_ok p = (isRoomId (Str (inv_roomId p)) \<and> isPeerId (Str (inv_from p))
     \<and> rx_match SEMVER (inv_protocolVersion p) \<and> inv_capabilities p \<noteq> []
     \<and> list_all (rx_match CAPABILITY_TAG) (inv_capabilities p)
     \<and> (\<forall>n. inv_note p = Some n \<longrightarrow> code_points n \<le> 64))"

lemma bad_capability_None: "bad_capability t = None \<longleftrightarrow> (\<exists>s. t = Str s \<and> rx_match CAPABILITY_TAG s)"
  by (cases t) (auto simp: bad_capability_def)

lemma capabilities_None:
  "throwing_all bad_capability caps = None \<longleftrightarrow>
     (\<exists>ss. caps = map Str ss \<and> list_all (rx_match CAPABILITY_TAG) ss)"
proof
  assume "throwing_all bad_capability caps = None"
  then have all: "\<forall>c\<in>set caps. \<exists>s. c = Str s \<and> rx_match CAPABILITY_TAG s"
    by (simp add: throwing_all_None bad_capability_None)
  then have "caps = map Str (map str_of caps)" "list_all (rx_match CAPABILITY_TAG) (map str_of caps)"
    by (induction caps) auto
  then show "\<exists>ss. caps = map Str ss \<and> list_all (rx_match CAPABILITY_TAG) ss" by blast
qed (auto simp: throwing_all_None bad_capability_None list_all_iff)

lemma str_of_Str [simp]: "map (str_of \<circ> Str) ss = ss"
  by (induction ss) auto

lemma check_note_Inr:
  "check_note v = Inr n \<longleftrightarrow> (v = Undef \<and> n = None) \<or> (\<exists>s. v = Str s \<and> n = Some s \<and> code_points s \<le> 64)"
  by (cases v) (auto simp: check_note_def)

lemma validateInvitePayload_fields:
  "validateInvitePayload v = Inr p \<longleftrightarrow>
     (\<exists>fs. v = Obj fs \<and> fst ` set fs \<subseteq> js ` set INVITE_ALLOWED_KEYS \<and> invite_ok p
        \<and> fld fs ''v'' = jint 1 \<and> fld fs ''roomId'' = Str (inv_roomId p) \<and> fld fs ''from'' = Str (inv_from p)
        \<and> fld fs ''protocolVersion'' = Str (inv_protocolVersion p)
        \<and> fld fs ''capabilities'' = Arr (map Str (inv_capabilities p))
        \<and> fld fs ''note'' = (case inv_note p of None \<Rightarrow> Undef | Some n \<Rightarrow> Str n))"
  (is "?l \<longleftrightarrow> ?r")
proof
  assume l: ?l
  then obtain fs where fs: "as_object ''InviteValidationError'' ''payload'' v = Inr fs"
    by (auto simp: validateInvitePayload_def invite_asObject_def split: sum.splits)
  have one: "fld fs ''v'' = jint 1"
    using l fs by (auto simp: validateInvitePayload_def invite_asObject_def split: option.splits if_splits)
  then have v: "v = Obj fs"
    using fs by (auto simp: as_object_Inr fld_u8_fields)
  show ?r
    using l fs one unfolding v
    by (auto simp: validateInvitePayload_def invite_asObject_def invite_ok_def unknown_field_None
        check_note_Inr capabilities_None isRoomId_str [of "fld fs _"] isPeerId_str [of "fld fs _"]
        split: option.splits if_splits jsval.splits sum.splits)
next
  assume ?r
  then obtain fs where fs: "v = Obj fs" "fst ` set fs \<subseteq> js ` set INVITE_ALLOWED_KEYS" "invite_ok p"
    "fld fs ''v'' = jint 1" "fld fs ''roomId'' = Str (inv_roomId p)" "fld fs ''from'' = Str (inv_from p)"
    "fld fs ''protocolVersion'' = Str (inv_protocolVersion p)"
    "fld fs ''capabilities'' = Arr (map Str (inv_capabilities p))"
    "fld fs ''note'' = (case inv_note p of None \<Rightarrow> Undef | Some n \<Rightarrow> Str n)"
    by blast
  have "unknown_field INVITE_ALLOWED_KEYS (invite_error ''unknown field: '') fs = None"
    using fs(2) by (simp add: unknown_field_None)
  moreover have "throwing_all bad_capability (map Str (inv_capabilities p)) = None"
    unfolding capabilities_None using fs(3) by (auto simp: invite_ok_def)
  moreover have "check_note (fld fs ''note'') = Inr (inv_note p)"
    using fs(3,9) by (auto simp: check_note_Inr invite_ok_def split: option.splits)
  ultimately show ?l
    using fs by (simp add: validateInvitePayload_def invite_asObject_def as_object_def invite_ok_def)
qed

lemma validateInvitePayload_ok: "validateInvitePayload v = Inr p \<Longrightarrow> invite_ok p"
  by (auto simp: validateInvitePayload_fields)

lemma validate_invite_val: "validateInvitePayload (invite_val p) = Inr p \<longleftrightarrow> invite_ok p"
  by (auto simp: validateInvitePayload_fields invite_val_def INVITE_ALLOWED_KEYS_def split: option.splits)

subsection \<open>Canonical text\<close>

text \<open>The text printed depends only on the content: it is that of the payload's own object.\<close>

lemma canonical_invite_val:
  "validateInvitePayload v = Inr p \<Longrightarrow> canonicalJsonStringify v = json_str (invite_val p)"
  by (cases "inv_note p")
    (auto simp: validateInvitePayload_fields canonicalJsonStringify_def invite_val_def Let_def
      simp del: json_str.simps)

lemma invite_val_clean: "json_clean (invite_val p)"
  by (auto simp: invite_val_def list_all_iff split: option.splits)

lemma encodeInvite_val:
  "validateInvitePayload v = Inr p \<Longrightarrow> encodeInvite deflate v = encodeInvite deflate (invite_val p)"
  using validate_invite_val [of p] validateInvitePayload_ok [of v p]
  by (simp add: encodeInvite_def canonical_invite_val)

theorem encodeInvite_canonical:
  "validateInvitePayload v = Inr p \<Longrightarrow> validateInvitePayload w = Inr p \<Longrightarrow>
   encodeInvite deflate v = encodeInvite deflate w"
  by (metis encodeInvite_val)

lemma decode_encode_invite:
  assumes "streams_inverse deflate inflate" "validateInvitePayload v = Inr p"
  shows "\<exists>s. encodeInvite deflate v = Inr s \<and> set s \<subseteq> set B64_ALPHABET \<and> s \<noteq> [] \<and> decodeInvite inflate s = Inr p"
proof -
  obtain json where json: "json_str (invite_val p) = Some json" by (simp add: invite_val_def)
  have "utf8_encode json \<noteq> []"
    using json_str_start [OF invite_val_clean json] utf8_encode_Nil [of json] by (auto simp: text_start_def)
  then obtain z where z: "run_stream deflate (utf8_encode json) = Inr z"
      "run_stream inflate z = Inr (utf8_encode json)" "z \<noteq> []"
    using streams_inverse_run [OF assms(1)] by blast
  have parse: "json_parse (utf8_decode (utf8_encode json)) = Some (invite_val p)"
    using json_utf8_roundtrip [OF json_clean_data [OF invite_val_clean] json] json_clean_norm_id [OF invite_val_clean]
    by simp
  have enc: "encodeInvite deflate v = Inr (b64_encode z)"
    using assms(2) by (simp add: encodeInvite_def canonical_invite_val json deflateRaw_def
        invite_runStream_def z invite_base64urlEncode_def)
  have "validateInvitePayload (invite_val p) = Inr p"
    using validate_invite_val validateInvitePayload_ok [OF assms(2)] by blast
  then have dec: "decodeInvite inflate (b64_encode z) = Inr p"
    using parse by (simp add: decodeInvite_def invite_base64urlDecode_def b64_decode_encode
        inflateRaw_def invite_runStream_def z)
  show ?thesis
    using dec enc z(3) b64_encode_alphabet [of z] b64_encode_inj [of z "[]"] by (auto simp: b64_encode_def)
qed

lemma decodeInvite_ok: "decodeInvite inflate s = Inr p \<Longrightarrow> invite_ok p"
  by (auto simp: decodeInvite_def validateInvitePayload_ok split: sum.splits option.splits)

subsection \<open>URLs give back what was put in\<close>

lemma ascii_key_plain: "\<forall>u\<in>set (js ''i''). form_plain u" "\<forall>u\<in>set (js ''s''). form_plain u"
  by (simp_all add: js_def form_plain_def)

lemma b64_all_plain: "set s \<subseteq> set B64_ALPHABET \<Longrightarrow> \<forall>u\<in>set s. form_plain u"
  by (auto simp: b64_plain)

lemma fragment_safe_param:
  assumes "set s \<subseteq> set B64_ALPHABET" "set t \<subseteq> set B64_ALPHABET"
  shows "fragment_safe (param_text (js ''i'') s)"
    and "fragment_safe (param_text (js ''i'') s @ ch CHR ''&'' # param_text (js ''s'') t)"
proof -
  have "in_cls FRAGMENT_RANGES (ch CHR ''i'')" "in_cls FRAGMENT_RANGES (ch CHR ''s'')"
    "in_cls FRAGMENT_RANGES (ch CHR ''='')" "in_cls FRAGMENT_RANGES (ch CHR ''&'')"
    by (simp_all add: in_cls_def FRAGMENT_RANGES_def B64_RANGES_def)
  then show "fragment_safe (param_text (js ''i'') s)"
    "fragment_safe (param_text (js ''i'') s @ ch CHR ''&'' # param_text (js ''s'') t)"
    using assms b64_fragment by (auto simp: fragment_safe_def param_text_def js_def list_all_iff)
qed

lemma url_fragment_hash: "url_hash api u = ch CHR ''#'' # s \<Longrightarrow> url_fragment api u = s"
  by (simp add: url_fragment_def)

lemma get_param_one:
  "set s \<subseteq> set B64_ALPHABET \<Longrightarrow> s \<noteq> [] \<Longrightarrow> get_param (param_text (js ''i'') s) ''i'' = Some s"
  by (simp add: get_param_def search_params_one ascii_key_plain b64_all_plain)

theorem parse_build_invite_url:
  assumes api: "url_api_ok api" and streams: "streams_inverse deflate inflate"
    and valid: "validateInvitePayload v = Inr p"
    and built: "buildInviteUrl api deflate base v = Inr href"
  shows "parseInviteUrl api inflate href = Inr p \<and> length href \<le> 2048"
proof -
  obtain s where s: "encodeInvite deflate v = Inr s" "set s \<subseteq> set B64_ALPHABET" "s \<noteq> []"
      "decodeInvite inflate s = Inr p"
    using decode_encode_invite [OF streams valid] by blast
  obtain u where href: "href = url_toString api (url_set_hash api (param_text (js ''i'') s) u)" "length href \<le> 2048"
    using built s(1) by (auto simp: buildInviteUrl_def Let_def INVITE_URL_MAX_LENGTH_def
        split: option.splits sum.splits if_splits)
  obtain u' where u': "url_parse api href = Some u'" "url_hash api u' = ch CHR ''#'' # param_text (js ''i'') s"
    using api fragment_safe_param(1) [OF s(2,2)] unfolding url_api_ok_def href(1) by blast
  show ?thesis
    using s href(2) by (simp add: parseInviteUrl_def u'(1) url_fragment_hash [OF u'(2)] get_param_one)
qed

theorem parse_build_invite_bundle_url:
  assumes api: "url_api_ok api" and streams: "streams_inverse deflate inflate"
    and valid: "validateInvitePayload v = Inr p" "validateSignalingBundle w = Inr b" "json_clean w"
    and built: "buildInviteBundleUrl api deflate base v w = Inr href"
  shows "parseInviteBundleUrl api inflate href = Inr \<lparr>parsed_invite = p, parsed_bundle = Some b\<rparr>
    \<and> length href \<le> 2048"
proof -
  obtain s where s: "encodeInvite deflate v = Inr s" "set s \<subseteq> set B64_ALPHABET" "s \<noteq> []"
      "decodeInvite inflate s = Inr p"
    using decode_encode_invite [OF streams valid(1)] by blast
  obtain t where t: "encodeSignalingBundle deflate w = Inr t" "set t \<subseteq> set B64_ALPHABET" "t \<noteq> []"
      "decodeSignalingBundle inflate t = Inr b"
    using decode_encode_clean [OF streams valid(3,2)] by blast
  let ?frag = "param_text (js ''i'') s @ ch CHR ''&'' # param_text (js ''s'') t"
  obtain u where href: "href = url_toString api (url_set_hash api ?frag u)" "length href \<le> 2048"
    and same: "bundle_roomId b = inv_roomId p" "\<forall>m\<in>set (bundle_messages b). msg_from m = inv_from p"
    using built s(1) t(1) valid
    by (auto simp: buildInviteBundleUrl_def Let_def INVITE_URL_MAX_LENGTH_def throwing_all_None
        split: option.splits sum.splits if_splits)
  obtain u' where u': "url_parse api href = Some u'" "url_hash api u' = ch CHR ''#'' # ?frag"
    using api fragment_safe_param(2) [OF s(2) t(2)] unfolding url_api_ok_def href(1) by blast
  have params: "search_params ?frag = [(js ''i'', s), (js ''s'', t)]"
    by (rule search_params_two) (use ascii_key_plain b64_all_plain s(2) t(2) in auto)
  have "throwing_all (\<lambda>m. if msg_from m \<noteq> inv_from p then Some e else None) (bundle_messages b) = None" for e :: err
    using same(2) by (simp add: throwing_all_None)
  then show ?thesis
    using s t same(1) href(2)
    by (simp add: parseInviteBundleUrl_def u'(1) url_fragment_hash [OF u'(2)] params get_param_def Let_def)
qed

subsection \<open>What a parsed or built URL is guaranteed to satisfy\<close>

theorem parseInviteBundleUrl_ok:
  assumes "parseInviteBundleUrl api inflate href = Inr r"
  shows "invite_ok (parsed_invite r) \<and>
    (\<forall>b. parsed_bundle r = Some b \<longrightarrow> bundle_ok b \<and> bundle_roomId b = inv_roomId (parsed_invite r)
       \<and> (\<forall>m\<in>set (bundle_messages b). msg_from m = inv_from (parsed_invite r)))"
  using assms
  by (auto simp: parseInviteBundleUrl_def Let_def throwing_all_None decodeInvite_ok decodeSignalingBundle_ok
      split: option.splits sum.splits if_splits)

theorem buildInviteUrl_scheme:
  assumes "buildInviteUrl api deflate base v = Inr href"
  shows "\<exists>u. url_parse api base = Some u \<and> scheme_allowed api u \<and> is_ok (validateInvitePayload v) \<and> length href \<le> 2048"
  using assms
  by (auto simp: buildInviteUrl_def assertAllowedScheme_def encodeInvite_def Let_def INVITE_URL_MAX_LENGTH_def is_ok_ex
      split: option.splits sum.splits if_splits)

subsection \<open>URLs that are short enough\<close>

lemma length_encode_stored: "length (b64_encode z) \<le> 2 * length z + 1"
  unfolding length_b64_encode by presburger

text \<open>A built URL can only fail by its scheme, its parts and its length.\<close>

lemma built_of_parts:
  assumes "validateInvitePayload v = Inr p" "validateSignalingBundle w = Inr b"
    and "bundle_roomId b = inv_roomId p" "\<forall>m\<in>set (bundle_messages b). msg_from m = inv_from p"
    and "url_parse api base = Some u" "scheme_allowed api u"
    and "encodeInvite deflate v = Inr s" "encodeSignalingBundle deflate w = Inr t"
    and "length (url_toString api (url_set_hash api (param_text (js ''i'') s @ ch CHR ''&'' # param_text (js ''s'') t) u)) \<le> 2048"
  shows "is_ok (buildInviteBundleUrl api deflate base v w)"
proof -
  have "throwing_all (\<lambda>m. if msg_from m \<noteq> inv_from p then Some e else None) (bundle_messages b) = None" for e :: err
    using assms(4) by (simp add: throwing_all_None)
  with assms show ?thesis
    by (simp add: buildInviteBundleUrl_def assertAllowedScheme_def Let_def INVITE_URL_MAX_LENGTH_def)
qed

end
