(* ===== verification/Frames.thy ===== *)
theory Frames
  imports Web_Platform JS_JSON_Props
begin

text \<open>
  The binary channel of \<open>core/src/peer-session.ts\<close>: how \<open>sendBinary\<close> cuts a message into wire frames
  (a 4-byte little-endian header length, a JSON header, the body), how a received frame is parsed,
  and the reassembly of chunked messages under its two limits, 4 MiB for a message and 16 MiB for all
  messages in flight. Events are emitted in the order of the result's list; \<open>now\<close> is \<open>Date.now()\<close>.
\<close>

definition BIN_FRAME_MAX_BYTES :: nat where "BIN_FRAME_MAX_BYTES = 64 * 1024"
definition BIN_BODY_PER_FRAME :: nat where "BIN_BODY_PER_FRAME = 60 * 1024"
definition BIN_MESSAGE_MAX_BYTES :: nat where "BIN_MESSAGE_MAX_BYTES = 4 * 1024 * 1024"
definition BIN_REASSEMBLY_BUDGET_BYTES :: nat where "BIN_REASSEMBLY_BUDGET_BYTES = 16 * 1024 * 1024"
definition BIN_REASSEMBLY_TIMEOUT_MS :: int where "BIN_REASSEMBLY_TIMEOUT_MS = 60000"

lemmas bin_limits = BIN_FRAME_MAX_BYTES_def BIN_BODY_PER_FRAME_def BIN_MESSAGE_MAX_BYTES_def
  BIN_REASSEMBLY_BUDGET_BYTES_def BIN_REASSEMBLY_TIMEOUT_MS_def

subsection \<open>Sending\<close>

record frame_opts =
  fo_addon :: jsstring
  fo_mime :: jsstring
  fo_body :: bytes
  fo_chunk :: "(jsstring \<times> nat \<times> nat) option"

text \<open>The header object: the chunk's id, seq and total only when there are several frames.\<close>

definition header_fields :: "frame_opts \<Rightarrow> jsfields" where
  "header_fields opts =
     [(js ''v'', jint 1), (js ''addon'', Str (fo_addon opts)), (js ''mime'', Str (fo_mime opts)),
      (js ''size'', jint (int (length (fo_body opts))))]
     @ (case fo_chunk opts of None \<Rightarrow> []
        | Some (i, seq, tot) \<Rightarrow>
            [(js ''id'', Str i), (js ''seq'', jint (int seq)), (js ''total'', jint (int tot))])"

definition header_bytes :: "frame_opts \<Rightarrow> bytes" where
  "header_bytes opts =
     (case json_str (Obj (header_fields opts)) of None \<Rightarrow> [] | Some json \<Rightarrow> utf8_encode json)"

text \<open>\<open>view.setUint32(0, n, true)\<close> and \<open>getUint32(0, true)\<close>.\<close>

definition le32 :: "nat \<Rightarrow> bytes" where
  "le32 n = [word_of_nat n, word_of_nat (n div 256), word_of_nat (n div 65536), word_of_nat (n div 16777216)]"

definition get_le32 :: "bytes \<Rightarrow> nat" where
  "get_le32 b = unat (b ! 0) + 256 * unat (b ! 1) + 65536 * unat (b ! 2) + 16777216 * unat (b ! 3)"

definition sendOneFrame :: "frame_opts \<Rightarrow> err + bytes" where
  "sendOneFrame opts =
     (let headerBytes = header_bytes opts;
          frameLen = 4 + length headerBytes + length (fo_body opts) in
      if frameLen > BIN_FRAME_MAX_BYTES then Inl (Thrown ''Error'' ''PeerSession.sendBinary: frame B exceeds 65536B'')
      else Inr (le32 (length headerBytes) @ headerBytes @ fo_body opts))"

text \<open>The frames handed to the channel before the loop ends or throws.\<close>

fun send_frames :: "frame_opts list \<Rightarrow> bytes list \<times> err option" where
  "send_frames [] = ([], None)"
| "send_frames (opts # rest) =
     (case sendOneFrame opts of
        Inl e \<Rightarrow> ([], Some e)
      | Inr frame \<Rightarrow> (let (fs, e) = send_frames rest in (frame # fs, e)))"

definition frame_total :: "nat \<Rightarrow> nat" where
  "frame_total n = max 1 ((n + BIN_BODY_PER_FRAME - 1) div BIN_BODY_PER_FRAME)"

text \<open>\<open>message.bytes.subarray(start, end)\<close> of chunk \<open>seq\<close>.\<close>

definition chunk_slice :: "bytes \<Rightarrow> nat \<Rightarrow> bytes" where
  "chunk_slice bs seq =
     (let start = seq * BIN_BODY_PER_FRAME; stop = min (start + BIN_BODY_PER_FRAME) (length bs) in
      take (stop - start) (drop start bs))"

definition message_frames :: "jsstring \<Rightarrow> jsstring \<Rightarrow> bytes \<Rightarrow> jsstring \<Rightarrow> frame_opts list" where
  "message_frames addon mime bs i =
     (let tot = frame_total (length bs) in
      if tot = 1 then [\<lparr>fo_addon = addon, fo_mime = mime, fo_body = bs, fo_chunk = None\<rparr>]
      else map (\<lambda>seq. \<lparr>fo_addon = addon, fo_mime = mime, fo_body = chunk_slice bs seq, fo_chunk = Some (i, seq, tot)\<rparr>)
             [0..<tot])"

text \<open>\<open>newMessageId\<close>: the counter after, and the id.\<close>

definition newMessageId :: "int \<Rightarrow> nat \<Rightarrow> nat \<times> jsstring" where
  "newMessageId now nextSendId =
     (let n = (nextSendId + 1) mod 0xFFFFFF in
      (n, js ''m_'' @ radix_str 36 (nat now) @ js ''_'' @ radix_str 36 n))"

subsection \<open>Reassembly\<close>

datatype frame_event = EvError string | EvBinary jsstring jsstring bytes

record slot =
  slot_id :: jsstring
  slot_addon :: jsstring
  slot_mime :: jsstring
  slot_total :: nat
  slot_frames :: "(jsnum \<times> bytes) list"
  slot_received :: nat
  slot_bytes :: nat
  slot_firstSeenAt :: int

record reasm =
  reassembly :: "(jsstring \<times> slot) list"
  reassemblyBytes :: int
  reassemblyGcTimer :: bool

definition reasm0 :: reasm where
  "reasm0 = \<lparr>reassembly = [], reassemblyBytes = 0, reassemblyGcTimer = False\<rparr>"

text \<open>The reassembly part of \<open>close\<close>.\<close>

definition reasm_clear :: "reasm \<Rightarrow> reasm" where
  "reasm_clear r = r\<lparr>reassembly := [], reassemblyBytes := 0, reassemblyGcTimer := False\<rparr>"

text \<open>The messages of the events.\<close>

definition E_SHORT :: string where "E_SHORT = ''PeerSession.bin: frame too short for header_len''"
definition E_HEADER_LEN :: string where "E_HEADER_LEN = ''PeerSession.bin: header_len out of range''"
definition E_PARSE :: string where "E_PARSE = ''PeerSession.bin: header parse: ''"
definition E_SCHEMA :: string where "E_SCHEMA = ''PeerSession.bin: header schema invalid''"
definition E_SIZE :: string where "E_SIZE = ''PeerSession.bin: header.size != body length''"
definition E_SEQ :: string where "E_SEQ = ''PeerSession.bin: seq/total out of range''"
definition E_MISMATCH :: string where "E_MISMATCH = ''PeerSession.bin: chunk total/mime mismatch within message''"
definition E_CAP :: string where "E_CAP = ''PeerSession.bin: message exceeds cap''"
definition E_OVERFLOW :: string where "E_OVERFLOW = ''PeerSession.bin: reassembly-overflow dropped ''"
definition E_TIMEOUT :: string where "E_TIMEOUT = ''PeerSession.bin: reassembly-timeout dropped ''"

definition slot_key :: "jsstring \<Rightarrow> jsstring \<Rightarrow> jsstring" where
  "slot_key addon i = addon @ 0x1F # i"

definition startReassemblyGcIfNeeded :: "reasm \<Rightarrow> reasm" where
  "startReassemblyGcIfNeeded r = r\<lparr>reassemblyGcTimer := True\<rparr>"

definition maybeStopReassemblyGc :: "reasm \<Rightarrow> reasm" where
  "maybeStopReassemblyGc r =
     (if length (reassembly r) = 0 \<and> reassemblyGcTimer r then r\<lparr>reassemblyGcTimer := False\<rparr> else r)"

definition drop_slot :: "jsstring \<Rightarrow> slot \<Rightarrow> reasm \<Rightarrow> reasm" where
  "drop_slot k s r = r\<lparr>reassembly := al_del k (reassembly r), reassemblyBytes := reassemblyBytes r - int (slot_bytes s)\<rparr>"

text \<open>The loop that looks for the oldest slot, the protected one left aside.\<close>

fun oldest_slot :: "jsstring \<Rightarrow> (jsstring \<times> int) option \<Rightarrow> (jsstring \<times> slot) list \<Rightarrow> (jsstring \<times> int) option" where
  "oldest_slot prot best [] = best"
| "oldest_slot prot best ((k, s) # rest) =
     (if k = prot then oldest_slot prot best rest
      else (case best of
          None \<Rightarrow> oldest_slot prot (Some (k, slot_firstSeenAt s)) rest
        | Some (_, t0) \<Rightarrow>
            if slot_firstSeenAt s < t0 then oldest_slot prot (Some (k, slot_firstSeenAt s)) rest
            else oldest_slot prot best rest))"

lemma oldest_slot_key:
  "oldest_slot prot best m = Some (k, t0) \<Longrightarrow> best = Some (k, t0) \<or> (k \<noteq> prot \<and> k \<in> fst ` set m)"
proof (induction m arbitrary: best)
  case (Cons e m)
  obtain a s where e: "e = (a, s)" by (cases e)
  show ?case
    using Cons.prems Cons.IH [of best] Cons.IH [of "Some (a, slot_firstSeenAt s)"]
    by (cases best) (auto simp: e split: if_splits)
qed simp

function evict_loop :: "jsstring \<Rightarrow> reasm \<Rightarrow> reasm \<times> frame_event list" where
  "evict_loop prot r =
     (if reassemblyBytes r \<le> int BIN_REASSEMBLY_BUDGET_BYTES then (maybeStopReassemblyGc r, [])
      else (case oldest_slot prot None (reassembly r) of
          None \<Rightarrow> (r, [])
        | Some (k, _) \<Rightarrow>
            if k = [] then (r, [])
            else (case map_of (reassembly r) k of
                None \<Rightarrow> (r, [])
              | Some dropped \<Rightarrow>
                  (let (r', evs) = evict_loop prot (drop_slot k dropped r) in (r', EvError E_OVERFLOW # evs)))))"
  by pat_completeness auto
termination
proof (relation "measure (\<lambda>(prot, r). length (reassembly r))")
  fix prot k dropped x b and r :: reasm
  assume "oldest_slot prot None (reassembly r) = Some x" "(k, b) = x"
  then have "k \<in> fst ` set (reassembly r)" using oldest_slot_key by fastforce
  then have "length (al_del k (reassembly r)) < length (reassembly r)"
    unfolding al_del_def by (auto intro: length_filter_less)
  then show "((prot, drop_slot k dropped r), prot, r) \<in> measure (\<lambda>(prot, r). length (reassembly r))"
    by (simp add: drop_slot_def)
qed simp

declare evict_loop.simps [simp del]

text \<open>The frames a completed slot is joined from: those stored under the indices below \<open>total\<close>.\<close>

definition slot_parts :: "slot \<Rightarrow> bytes list" where
  "slot_parts s = List.map_filter (\<lambda>i. map_of (slot_frames s) (Fin (of_nat i))) [0..<slot_total s]"

definition slot_join :: "slot \<Rightarrow> bytes" where
  "slot_join s = copy_chunks (replicate (slot_bytes s) 0) 0 (slot_parts s)"

record chunk_args =
  ca_addon :: jsstring
  ca_mime :: jsstring
  ca_id :: jsstring
  ca_seq :: jsnum
  ca_total :: jsnum
  ca_body :: bytes

text \<open>\<open>new Array(n)\<close>: the length it makes, or \<open>None\<close> for its \<open>RangeError\<close>.\<close>

fun array_length :: "jsnum \<Rightarrow> nat option" where
  "array_length (Fin r) = (if is_int_rat r \<and> 0 \<le> r \<and> r < 2 ^ 32 then Some (nat \<lfloor>r\<rfloor>) else None)"
| "array_length _ = None"

text \<open>What a handler leaves: the state, the events and, if it threw, the error.\<close>

type_synonym handled = "reasm \<times> frame_event list \<times> err option"

text \<open>The part of \<open>handleChunk\<close> after the slot is known to match.\<close>

definition store_chunk :: "chunk_args \<Rightarrow> jsstring \<Rightarrow> slot \<Rightarrow> reasm \<Rightarrow> handled" where
  "store_chunk a key s0 r0 =
     (if map_of (slot_frames s0) (ca_seq a) \<noteq> None then (r0, [], None)
      else
        let n = length (ca_body a);
            s = s0\<lparr>slot_frames := slot_frames s0 @ [(ca_seq a, ca_body a)],
                   slot_received := slot_received s0 + 1, slot_bytes := slot_bytes s0 + n\<rparr>;
            r1 = r0\<lparr>reassembly := al_set key s (reassembly r0), reassemblyBytes := reassemblyBytes r0 + int n\<rparr> in
        if slot_bytes s > BIN_MESSAGE_MAX_BYTES
        then (maybeStopReassemblyGc (drop_slot key s r1), [EvError E_CAP], None)
        else
          let (r2, evs) = evict_loop key r1 in
          if slot_received s = slot_total s
          then (maybeStopReassemblyGc (drop_slot key s r2), evs @ [EvBinary (slot_addon s) (slot_mime s) (slot_join s)], None)
          else (r2, evs, None))"

definition handleChunk :: "int \<Rightarrow> chunk_args \<Rightarrow> reasm \<Rightarrow> handled" where
  "handleChunk now a r =
     (if num_less (ca_total a) (Fin 1) \<or> num_less (ca_seq a) (Fin 0) \<or> num_le (ca_total a) (ca_seq a)
      then (r, [EvError E_SEQ], None)
      else
        let key = slot_key (ca_addon a) (ca_id a) in
        (case map_of (reassembly r) key of
           None \<Rightarrow>
             (case array_length (ca_total a) of
                None \<Rightarrow> (r, [], Some (Thrown ''RangeError'' ''''))
              | Some tot \<Rightarrow>
                  let s = \<lparr>slot_id = ca_id a, slot_addon = ca_addon a, slot_mime = ca_mime a, slot_total = tot,
                           slot_frames = [], slot_received = 0, slot_bytes = 0, slot_firstSeenAt = now\<rparr> in
                  store_chunk a key s (startReassemblyGcIfNeeded (r\<lparr>reassembly := al_set key s (reassembly r)\<rparr>)))
         | Some s \<Rightarrow>
             if Fin (of_nat (slot_total s)) \<noteq> ca_total a \<or> slot_mime s \<noteq> ca_mime a
             then (r, [EvError E_MISMATCH], None)
             else store_chunk a key s r))"

text \<open>The header as parsed: reading a property of \<open>null\<close> throws, outside the code's \<open>try\<close>.\<close>

definition handleBinaryFrame :: "int \<Rightarrow> bytes \<Rightarrow> reasm \<Rightarrow> handled" where
  "handleBinaryFrame now buf r =
     (if length buf < 4 then (r, [EvError E_SHORT], None)
      else
        let headerLen = get_le32 buf in
        if headerLen = 0 \<or> 4 + headerLen > length buf then (r, [EvError E_HEADER_LEN], None)
        else (case json_parse (utf8_decode (take headerLen (drop 4 buf))) of
            None \<Rightarrow> (r, [EvError E_PARSE], None)
          | Some header \<Rightarrow>
              if header = Null then (r, [], Some (Thrown ''TypeError'' ''''))
              else
                let h = own_fields header; body = drop (4 + headerLen) buf in
                (case (fld h ''addon'', fld h ''mime'', fld h ''size'') of
                   (Str addon, Str mime, Num sz) \<Rightarrow>
                     if fld h ''v'' \<noteq> jint 1 \<or> length addon = 0 then (r, [EvError E_SCHEMA], None)
                     else if sz \<noteq> Fin (of_nat (length body)) then (r, [EvError E_SIZE], None)
                     else (case (fld h ''id'', fld h ''seq'', fld h ''total'') of
                         (Str i, Num seq, Num tot) \<Rightarrow>
                           if num_less (Fin 1) tot
                           then handleChunk now \<lparr>ca_addon = addon, ca_mime = mime, ca_id = i, ca_seq = seq,
                                  ca_total = tot, ca_body = body\<rparr> r
                           else (r, [EvBinary addon mime body], None)
                       | _ \<Rightarrow> (r, [EvBinary addon mime body], None))
                 | _ \<Rightarrow> (r, [EvError E_SCHEMA], None))))"

text \<open>The timer's callback: a pass over the slots in their order.\<close>

fun gc_pass :: "int \<Rightarrow> (jsstring \<times> slot) list \<Rightarrow> reasm \<Rightarrow> reasm \<times> frame_event list" where
  "gc_pass now [] r = (r, [])"
| "gc_pass now ((k, s) # rest) r =
     (if now - slot_firstSeenAt s < BIN_REASSEMBLY_TIMEOUT_MS then gc_pass now rest r
      else (let (r', evs) = gc_pass now rest (drop_slot k s r) in (r', EvError E_TIMEOUT # evs)))"

definition gcStaleReassemblies :: "int \<Rightarrow> reasm \<Rightarrow> reasm \<times> frame_event list" where
  "gcStaleReassemblies now r =
     (let (r', evs) = gc_pass now (reassembly r) r in (maybeStopReassemblyGc r', evs))"

end
