(* ===== verification/Frames_Props.thy ===== *)
theory Frames_Props
  imports Frames
begin

text \<open>
  The binary channel's properties: the accounting invariant of the reassembly and its bounds, which
  every handler preserves; that a frame is parsed back into what it was made of; and that a message
  sent and received frame by frame is delivered exactly once, unchanged, if its last frame comes
  before the timer finds it too old, and never otherwise.
\<close>

subsection \<open>The accounting invariant\<close>

definition slot_ok :: "slot \<Rightarrow> bool" where
  "slot_ok s = (slot_bytes s = sum_list (map (length \<circ> snd) (slot_frames s))
     \<and> slot_received s = length (slot_frames s) \<and> distinct (map fst (slot_frames s))
     \<and> slot_received s < slot_total s \<and> slot_bytes s \<le> BIN_MESSAGE_MAX_BYTES)"

text \<open>The books: every slot is under its own key, and the byte counter is the sum of the slots'.\<close>

definition books :: "reasm \<Rightarrow> bool" where
  "books r = (distinct (map fst (reassembly r))
     \<and> reassemblyBytes r = int (sum_list (map (slot_bytes \<circ> snd) (reassembly r)))
     \<and> (\<forall>(k, s)\<in>set (reassembly r). k = slot_key (slot_addon s) (slot_id s)))"

definition reasm_ok :: "reasm \<Rightarrow> bool" where
  "reasm_ok r = (books r \<and> (\<forall>(k, s)\<in>set (reassembly r). slot_ok s)
     \<and> reassemblyBytes r \<le> int BIN_REASSEMBLY_BUDGET_BYTES
     \<and> (reassemblyGcTimer r \<longleftrightarrow> reassembly r \<noteq> []))"

lemma slot_key_not_Nil [simp]: "slot_key a i \<noteq> []"
  by (simp add: slot_key_def)

lemma books_key: "books r \<Longrightarrow> map_of (reassembly r) k = Some s \<Longrightarrow> k = slot_key (slot_addon s) (slot_id s)"
  by (auto simp: books_def dest!: map_of_SomeD)

lemma books_entry:
  "books r \<Longrightarrow> (k, s) \<in> set (reassembly r) \<longleftrightarrow> map_of (reassembly r) k = Some s"
  by (auto simp: books_def)

lemma books_drop:
  assumes "books r" "map_of (reassembly r) k = Some s"
  shows "books (drop_slot k s r)"
proof -
  have "sum_list (map (slot_bytes \<circ> snd) (al_del k (reassembly r))) + slot_bytes s =
      sum_list (map (slot_bytes \<circ> snd) (reassembly r))"
    using assms by (intro sum_list_al_del) (auto simp: books_def)
  with assms(1) show ?thesis
    by (auto simp: books_def drop_slot_def al_del_mem)
qed

lemma drop_slot_fields [simp]:
  "reassembly (drop_slot k s r) = al_del k (reassembly r)"
  "reassemblyGcTimer (drop_slot k s r) = reassemblyGcTimer r"
  "reassemblyBytes (drop_slot k s r) = reassemblyBytes r - int (slot_bytes s)"
  by (simp_all add: drop_slot_def)

lemma stop_fields [simp]:
  "reassembly (maybeStopReassemblyGc r) = reassembly r"
  "reassemblyBytes (maybeStopReassemblyGc r) = reassemblyBytes r"
  "reassemblyGcTimer (maybeStopReassemblyGc r) = (reassemblyGcTimer r \<and> reassembly r \<noteq> [])"
  by (auto simp: maybeStopReassemblyGc_def)

lemma books_stop [simp]: "books (maybeStopReassemblyGc r) = books r"
  by (simp add: books_def)

lemma oldest_slot_None: "oldest_slot prot best m = None \<Longrightarrow> best = None \<and> fst ` set m \<subseteq> {prot}"
proof (induction m arbitrary: best)
  case (Cons e m)
  obtain a s where e: "e = (a, s)" by (cases e)
  show ?case
    using Cons.prems Cons.IH [of best] Cons.IH [of "Some (a, slot_firstSeenAt s)"]
    by (cases best) (auto simp: e split: if_splits)
qed simp

text \<open>What eviction leaves: a part of the slots with the protected one, the books in order, and the
budget kept unless the protected slot alone is left.\<close>

definition evicted :: "jsstring \<Rightarrow> reasm \<Rightarrow> reasm \<Rightarrow> bool" where
  "evicted prot r r' = (books r' \<and> set (reassembly r') \<subseteq> set (reassembly r)
     \<and> map_of (reassembly r') prot = map_of (reassembly r) prot
     \<and> (reassemblyBytes r' \<le> int BIN_REASSEMBLY_BUDGET_BYTES \<or> fst ` set (reassembly r') \<subseteq> {prot})
     \<and> (map_of (reassembly r) prot \<noteq> None \<longrightarrow> reassemblyGcTimer r' = reassemblyGcTimer r))"

lemma evict_loop_evicted: "books r \<Longrightarrow> evicted prot r (fst (evict_loop prot r))"
proof (induction prot r rule: evict_loop.induct)
  case (1 prot r)
  show ?case
  proof (cases "reassemblyBytes r \<le> int BIN_REASSEMBLY_BUDGET_BYTES")
    case True
    then have "evict_loop prot r = (maybeStopReassemblyGc r, [])" by (simp add: evict_loop.simps)
    with True "1.prems" show ?thesis by (auto simp: evicted_def)
  next
    case over: False
    show ?thesis
    proof (cases "oldest_slot prot None (reassembly r)")
      case None
      then have "evict_loop prot r = (r, [])" using over by (simp add: evict_loop.simps)
      with oldest_slot_None [OF None] "1.prems" show ?thesis by (simp add: evicted_def)
    next
      case (Some kt)
      then obtain k t where kt: "oldest_slot prot None (reassembly r) = Some (k, t)" by (cases kt) auto
      from oldest_slot_key [OF kt] have k: "k \<noteq> prot" "k \<in> fst ` set (reassembly r)" by auto
      then obtain s where s: "map_of (reassembly r) k = Some s"
        by (metis map_of_eq_None_iff not_None_eq)
      have "k \<noteq> []" using books_key [OF "1.prems" s] by simp
      then have step: "fst (evict_loop prot r) = fst (evict_loop prot (drop_slot k s r))"
        using over kt s by (subst evict_loop.simps) (simp add: split_beta)
      have "evicted prot (drop_slot k s r) (fst (evict_loop prot (drop_slot k s r)))"
        using "1.IH" [OF over kt refl \<open>k \<noteq> []\<close> s] books_drop [OF "1.prems" s] by simp
      then show ?thesis
        unfolding step using k(1) al_del_subset [of k "reassembly r"] by (auto simp: evicted_def)
    qed
  qed
qed

lemma evict_loop_events: "set (snd (evict_loop prot r)) \<subseteq> {EvError E_OVERFLOW}"
proof (induction prot r rule: evict_loop.induct)
  case (1 prot r)
  show ?case
  proof (cases "\<not> reassemblyBytes r \<le> int BIN_REASSEMBLY_BUDGET_BYTES \<and>
      (\<exists>k t s. oldest_slot prot None (reassembly r) = Some (k, t) \<and> k \<noteq> [] \<and> map_of (reassembly r) k = Some s)")
    case True
    then obtain k t s where k: "\<not> reassemblyBytes r \<le> int BIN_REASSEMBLY_BUDGET_BYTES"
      "oldest_slot prot None (reassembly r) = Some (k, t)" "k \<noteq> []" "map_of (reassembly r) k = Some s"
      by blast
    then have "snd (evict_loop prot r) = EvError E_OVERFLOW # snd (evict_loop prot (drop_slot k s r))"
      by (subst evict_loop.simps) (simp add: split_beta)
    then show ?thesis using "1.IH" [OF k(1,2) refl k(3,4)] by simp
  next
    case False
    then have "snd (evict_loop prot r) = []"
      by (subst evict_loop.simps) (auto split: option.split)
    then show ?thesis by simp
  qed
qed

text \<open>A sum that only the protected slot contributes to.\<close>

lemma books_only:
  assumes "books r" "fst ` set (reassembly r) \<subseteq> {k}" "map_of (reassembly r) k = Some s"
  shows "reassemblyBytes r = int (slot_bytes s)"
proof -
  have "reassembly r = [(k, s)]"
  proof (cases "reassembly r")
    case (Cons e m)
    with assms show ?thesis by (cases m) (auto simp: books_def)
  qed (use assms in simp)
  with assms(1) show ?thesis by (simp add: books_def)
qed

subsection \<open>Storing a chunk\<close>

text \<open>The slot a chunk goes to, before and after.\<close>

definition slot_open :: "slot \<Rightarrow> bool" where
  "slot_open s = (slot_bytes s = sum_list (map (length \<circ> snd) (slot_frames s))
     \<and> slot_received s = length (slot_frames s) \<and> distinct (map fst (slot_frames s))
     \<and> slot_received s < slot_total s)"

definition add_chunk :: "chunk_args \<Rightarrow> slot \<Rightarrow> slot" where
  "add_chunk a s = s\<lparr>slot_frames := slot_frames s @ [(ca_seq a, ca_body a)],
     slot_received := slot_received s + 1, slot_bytes := slot_bytes s + length (ca_body a)\<rparr>"

lemma store_chunk_step:
  assumes "map_of (slot_frames s) (ca_seq a) = None"
  shows "store_chunk a key s r =
     (let s' = add_chunk a s;
          r1 = r\<lparr>reassembly := al_set key s' (reassembly r),
                 reassemblyBytes := reassemblyBytes r + int (length (ca_body a))\<rparr> in
      if slot_bytes s' > BIN_MESSAGE_MAX_BYTES
      then (maybeStopReassemblyGc (drop_slot key s' r1), [EvError E_CAP], None)
      else let (r2, evs) = evict_loop key r1 in
        if slot_received s' = slot_total s'
        then (maybeStopReassemblyGc (drop_slot key s' r2),
              evs @ [EvBinary (slot_addon s') (slot_mime s') (slot_join s')], None)
        else (r2, evs, None))"
  using assms by (simp add: store_chunk_def add_chunk_def Let_def)

lemma add_chunk_fields [simp]:
  "slot_id (add_chunk a s) = slot_id s" "slot_addon (add_chunk a s) = slot_addon s"
  "slot_mime (add_chunk a s) = slot_mime s" "slot_total (add_chunk a s) = slot_total s"
  by (simp_all add: add_chunk_def)

lemma books_store:
  assumes "books r" "map_of (reassembly r) key = Some s" "slot_bytes s' = slot_bytes s + n"
    "slot_addon s' = slot_addon s" "slot_id s' = slot_id s"
  shows "books (r\<lparr>reassembly := al_set key s' (reassembly r), reassemblyBytes := reassemblyBytes r + int n\<rparr>)"
proof -
  have "sum_list (map (slot_bytes \<circ> snd) (al_set key s' (reassembly r))) + slot_bytes s =
      sum_list (map (slot_bytes \<circ> snd) (reassembly r)) + slot_bytes s'"
    using assms(2) by (rule sum_list_al_set_old)
  moreover have "key = slot_key (slot_addon s) (slot_id s)" using books_key [OF assms(1,2)] .
  ultimately show ?thesis
    using assms by (auto simp: books_def al_set_mem)
qed

lemma store_chunk_ok:
  assumes r: "books r" "reassemblyGcTimer r" "map_of (reassembly r) key = Some s" "slot_open s"
    "slot_bytes s \<le> BIN_MESSAGE_MAX_BYTES"
    "\<forall>(k, s')\<in>set (reassembly r). k \<noteq> key \<longrightarrow> slot_ok s'" "reassemblyBytes r \<le> int BIN_REASSEMBLY_BUDGET_BYTES"
    and run: "store_chunk a key s r = (r', evs, e)"
  shows "reasm_ok r' \<and> e = None"
proof (cases "map_of (slot_frames s) (ca_seq a)")
  case (Some b)
  then have "r' = r" "e = None" using run by (auto simp: store_chunk_def)
  moreover have "slot_ok s" using r(4,5) by (simp add: slot_ok_def slot_open_def)
  then have "\<forall>(k, s')\<in>set (reassembly r). slot_ok s'"
    using r(3,6) books_entry [OF r(1)] by (metis (mono_tags, lifting) case_prodI2 case_prodD option.inject)
  moreover have "reassembly r \<noteq> []" using r(3) by auto
  ultimately show ?thesis using r by (simp add: reasm_ok_def)
next
  case None
  let ?s = "add_chunk a s"
  let ?r1 = "r\<lparr>reassembly := al_set key ?s (reassembly r), reassemblyBytes := reassemblyBytes r + int (length (ca_body a))\<rparr>"
  have b1: "books ?r1"
    by (rule books_store [OF r(1,3)]) (simp_all add: add_chunk_def)
  have key1: "map_of (reassembly ?r1) key = Some ?s" by simp
  have others1: "\<forall>(k, s')\<in>set (reassembly ?r1). k \<noteq> key \<longrightarrow> slot_ok s'"
    using r(1,6) by (auto simp: al_set_mem books_def)
  have t: "reassemblyGcTimer ?r1" using r(2) by simp
  show ?thesis
  proof (cases "slot_bytes ?s > BIN_MESSAGE_MAX_BYTES")
    case True
    then have run': "r' = maybeStopReassemblyGc (drop_slot key ?s ?r1)" "e = None"
      using run by (auto simp: store_chunk_step [OF None] Let_def)
    have "books r'" using books_drop [OF b1 key1] by (simp add: run')
    moreover have "\<forall>(k, s')\<in>set (reassembly r'). slot_ok s'"
      using others1 by (auto simp: run' al_del_mem)
    moreover have "reassemblyBytes r' = reassemblyBytes r - int (slot_bytes s)"
      by (simp add: run' add_chunk_def)
    moreover have "reassemblyGcTimer r' \<longleftrightarrow> reassembly r' \<noteq> []"
      using t by (simp add: run')
    ultimately show ?thesis using r(7) run'(2) by (simp add: reasm_ok_def)
  next
    case False
    obtain r2 evs2 where ev: "evict_loop key ?r1 = (r2, evs2)" by (cases "evict_loop key ?r1")
    have ed: "evicted key ?r1 r2" using evict_loop_evicted [OF b1, of key] by (simp add: ev)
    then have key2: "map_of (reassembly r2) key = Some ?s" and b2: "books r2"
      and t2: "reassemblyGcTimer r2" and sub: "set (reassembly r2) \<subseteq> set (reassembly ?r1)"
      using t by (auto simp: evicted_def)
    have bound: "reassemblyBytes r2 \<le> int BIN_REASSEMBLY_BUDGET_BYTES"
      using ed books_only [OF b2 _ key2] False by (auto simp: evicted_def bin_limits)
    have others2: "\<forall>(k, s')\<in>set (reassembly r2). k \<noteq> key \<longrightarrow> slot_ok s'"
      using others1 sub by blast
    show ?thesis
    proof (cases "slot_received ?s = slot_total ?s")
      case True
      with False ev run have run': "r' = maybeStopReassemblyGc (drop_slot key ?s r2)" "e = None"
        by (auto simp: store_chunk_step [OF None] Let_def)
      have "books r'" using books_drop [OF b2 key2] by (simp add: run')
      moreover have "\<forall>(k, s')\<in>set (reassembly r'). slot_ok s'"
        using others2 by (auto simp: run' al_del_mem)
      ultimately show ?thesis
        using bound t2 by (auto simp: reasm_ok_def run')
    next
      case inc: False
      with False ev run have run': "r' = r2" "e = None"
        by (auto simp: store_chunk_step [OF None] Let_def)
      have "slot_ok ?s"
        using r(4) None False inc by (auto simp: slot_ok_def slot_open_def add_chunk_def map_of_eq_None_iff)
      then have "\<forall>(k, s')\<in>set (reassembly r2). slot_ok s'"
        using others2 key2 books_entry [OF b2] by (metis (mono_tags, lifting) case_prodI2 case_prodD option.inject)
      moreover have "reassembly r2 \<noteq> []" using key2 by auto
      ultimately show ?thesis
        using b2 bound t2 by (simp add: reasm_ok_def run')
    qed
  qed
qed

subsection \<open>Every handler keeps the invariant\<close>

lemma array_length_pos:
  assumes "array_length n = Some m" "\<not> num_less n (Fin 1)"
  shows "0 < m \<and> n = Fin (of_nat m)"
proof -
  obtain r where r: "n = Fin r" "is_int_rat r" "0 \<le> r" "m = nat \<lfloor>r\<rfloor>"
    using assms(1) by (cases n) (auto split: if_splits)
  then obtain i where i: "r = of_int i" by (auto simp: is_int_rat_iff)
  have "1 \<le> r" using assms(2) r(1) by simp
  then have "(of_int 1 :: rat) \<le> of_int i" by (simp add: i)
  then have "1 \<le> i" by (simp only: of_int_le_iff)
  with r i show ?thesis by simp
qed

definition fresh_slot :: "int \<Rightarrow> chunk_args \<Rightarrow> nat \<Rightarrow> slot" where
  "fresh_slot now a n = \<lparr>slot_id = ca_id a, slot_addon = ca_addon a, slot_mime = ca_mime a, slot_total = n,
     slot_frames = [], slot_received = 0, slot_bytes = 0, slot_firstSeenAt = now\<rparr>"

definition chunk_key :: "chunk_args \<Rightarrow> jsstring" where
  "chunk_key a = slot_key (ca_addon a) (ca_id a)"

definition chunk_range_bad :: "chunk_args \<Rightarrow> bool" where
  "chunk_range_bad a =
     (num_less (ca_total a) (Fin 1) \<or> num_less (ca_seq a) (Fin 0) \<or> num_le (ca_total a) (ca_seq a))"

text \<open>The state a first chunk finds its new slot in.\<close>

definition with_fresh :: "int \<Rightarrow> chunk_args \<Rightarrow> nat \<Rightarrow> reasm \<Rightarrow> reasm" where
  "with_fresh now a n r = startReassemblyGcIfNeeded
     (r\<lparr>reassembly := al_set (chunk_key a) (fresh_slot now a n) (reassembly r)\<rparr>)"

text \<open>The outcomes of \<open>handleChunk\<close>.\<close>

lemma handleChunk_cases:
  "handleChunk now a r =
     (if chunk_range_bad a then (r, [EvError E_SEQ], None)
      else case map_of (reassembly r) (chunk_key a) of
        None \<Rightarrow>
          (case array_length (ca_total a) of
             None \<Rightarrow> (r, [], Some (Thrown ''RangeError'' ''''))
           | Some n \<Rightarrow> store_chunk a (chunk_key a) (fresh_slot now a n) (with_fresh now a n r))
      | Some s \<Rightarrow>
          if Fin (of_nat (slot_total s)) \<noteq> ca_total a \<or> slot_mime s \<noteq> ca_mime a
          then (r, [EvError E_MISMATCH], None)
          else store_chunk a (chunk_key a) s r)"
  by (simp add: handleChunk_def chunk_range_bad_def chunk_key_def fresh_slot_def with_fresh_def Let_def
      split: option.split)

lemma books_fresh:
  assumes "books r" "map_of (reassembly r) (chunk_key a) = None"
  shows "books (with_fresh now a n r)"
proof -
  have "sum_list (map (slot_bytes \<circ> snd) (al_set (chunk_key a) (fresh_slot now a n) (reassembly r))) =
      sum_list (map (slot_bytes \<circ> snd) (reassembly r)) + slot_bytes (fresh_slot now a n)"
    using assms(2) by (rule sum_list_al_set_new)
  then show ?thesis
    using assms by (auto simp: books_def with_fresh_def startReassemblyGcIfNeeded_def fresh_slot_def
        chunk_key_def al_set_mem)
qed

lemma slot_ok_open: "slot_ok s \<Longrightarrow> slot_open s \<and> slot_bytes s \<le> BIN_MESSAGE_MAX_BYTES"
  by (simp add: slot_ok_def slot_open_def)

theorem handleChunk_ok:
  assumes "reasm_ok r" "handleChunk now a r = (r', evs, e)"
  shows "reasm_ok r'"
proof -
  have b: "books r" and slots: "\<forall>(k, s)\<in>set (reassembly r). slot_ok s"
    and bound: "reassemblyBytes r \<le> int BIN_REASSEMBLY_BUDGET_BYTES"
    and timer: "reassemblyGcTimer r \<longleftrightarrow> reassembly r \<noteq> []"
    using assms(1) by (auto simp: reasm_ok_def)
  show ?thesis
  proof (cases "chunk_range_bad a")
    case True
    with assms show ?thesis by (simp add: handleChunk_cases)
  next
    case ok: False
    show ?thesis
    proof (cases "map_of (reassembly r) (chunk_key a)")
      case None
      show ?thesis
      proof (cases "array_length (ca_total a)")
        case (Some n)
        with ok None assms(2) have run:
          "store_chunk a (chunk_key a) (fresh_slot now a n) (with_fresh now a n r) = (r', evs, e)"
          by (simp add: handleChunk_cases)
        have "0 < n" using array_length_pos [OF Some] ok by (simp add: chunk_range_bad_def)
        then have op: "slot_open (fresh_slot now a n)" "slot_bytes (fresh_slot now a n) \<le> BIN_MESSAGE_MAX_BYTES"
          by (simp_all add: slot_open_def fresh_slot_def)
        have "\<forall>(k, s')\<in>set (reassembly (with_fresh now a n r)). k \<noteq> chunk_key a \<longrightarrow> slot_ok s'"
          using slots b by (auto simp: with_fresh_def startReassemblyGcIfNeeded_def al_set_mem books_def)
        then show ?thesis
          using store_chunk_ok [OF books_fresh [OF b None] _ _ op _ _ run] bound
          by (simp add: with_fresh_def startReassemblyGcIfNeeded_def)
      qed (use ok None assms in \<open>simp add: handleChunk_cases\<close>)
    next
      case (Some s)
      then have mem: "(chunk_key a, s) \<in> set (reassembly r)" by (rule map_of_SomeD)
      with slots have so: "slot_open s" "slot_bytes s \<le> BIN_MESSAGE_MAX_BYTES"
        using slot_ok_open by blast+
      have t: "reassemblyGcTimer r" using timer mem by auto
      show ?thesis
      proof (cases "Fin (of_nat (slot_total s)) \<noteq> ca_total a \<or> slot_mime s \<noteq> ca_mime a")
        case True
        with ok Some assms show ?thesis by (simp add: handleChunk_cases)
      next
        case False
        with ok Some assms(2) have "store_chunk a (chunk_key a) s r = (r', evs, e)"
          by (simp add: handleChunk_cases)
        then show ?thesis
          using store_chunk_ok [OF b t Some so _ bound] slots by fast
      qed
    qed
  qed
qed

lemma handleChunk_witness:
  "num_less (Fin 1) t \<Longrightarrow> ad \<noteq> [] \<Longrightarrow>
   \<exists>a. handleChunk now \<lparr>ca_addon = ad, ca_mime = mm, ca_id = i, ca_seq = q, ca_total = t, ca_body = b\<rparr> r =
       handleChunk now a r \<and> num_less (Fin 1) (ca_total a) \<and> ca_addon a \<noteq> []"
  by (rule exI [of _ "\<lparr>ca_addon = ad, ca_mime = mm, ca_id = i, ca_seq = q, ca_total = t, ca_body = b\<rparr>"]) simp

lemma handleBinaryFrame_cases:
  "\<exists>evs e. handleBinaryFrame now buf r = (r, evs, e) \<or>
    (\<exists>a. handleBinaryFrame now buf r = handleChunk now a r \<and> num_less (Fin 1) (ca_total a) \<and> ca_addon a \<noteq> [])"
  by (auto simp: handleBinaryFrame_def Let_def split: option.split jsval.split intro!: handleChunk_witness)

theorem handleBinaryFrame_ok:
  assumes "reasm_ok r" "handleBinaryFrame now buf r = (r', evs, e)"
  shows "reasm_ok r'"
  using handleBinaryFrame_cases [of now buf r] handleChunk_ok [OF assms(1)] assms
  by (metis prod.inject)

lemma al_del_sub: "set m \<subseteq> set n \<Longrightarrow> k \<notin> fst ` set m \<Longrightarrow> set m \<subseteq> set (al_del k n)"
  by (force simp: al_del_mem)

lemma gc_pass_books:
  "books r \<Longrightarrow> set m \<subseteq> set (reassembly r) \<Longrightarrow> distinct (map fst m) \<Longrightarrow>
   books (fst (gc_pass now m r)) \<and> set (reassembly (fst (gc_pass now m r))) \<subseteq> set (reassembly r) \<and>
   reassemblyBytes (fst (gc_pass now m r)) \<le> reassemblyBytes r \<and>
   reassemblyGcTimer (fst (gc_pass now m r)) = reassemblyGcTimer r"
proof (induction m arbitrary: r)
  case (Cons e m)
  obtain k s where e: "e = (k, s)" by (cases e)
  show ?case
  proof (cases "now - slot_firstSeenAt s < BIN_REASSEMBLY_TIMEOUT_MS")
    case True
    with Cons show ?thesis by (simp add: e)
  next
    case False
    have "map_of (reassembly r) k = Some s" using Cons.prems books_entry e by auto
    then have "books (drop_slot k s r)" by (rule books_drop [OF Cons.prems(1)])
    moreover have "set m \<subseteq> set (reassembly (drop_slot k s r))"
      using Cons.prems(2,3) by (simp add: e al_del_sub)
    ultimately have ih: "books (fst (gc_pass now m (drop_slot k s r))) \<and>
       set (reassembly (fst (gc_pass now m (drop_slot k s r)))) \<subseteq> set (reassembly (drop_slot k s r)) \<and>
       reassemblyBytes (fst (gc_pass now m (drop_slot k s r))) \<le> reassemblyBytes (drop_slot k s r) \<and>
       reassemblyGcTimer (fst (gc_pass now m (drop_slot k s r))) = reassemblyGcTimer (drop_slot k s r)"
      using Cons.prems(3) by (intro Cons.IH) (simp_all add: e)
    have "fst (gc_pass now (e # m) r) = fst (gc_pass now m (drop_slot k s r))"
      using False by (simp add: e split_beta)
    with ih al_del_subset [of k "reassembly r"] show ?thesis by auto
  qed
qed simp

theorem gcStaleReassemblies_ok:
  assumes "reasm_ok r"
  shows "reasm_ok (fst (gcStaleReassemblies now r))"
proof -
  have "fst (gcStaleReassemblies now r) = maybeStopReassemblyGc (fst (gc_pass now (reassembly r) r))"
    by (simp add: gcStaleReassemblies_def split_beta)
  then show ?thesis
    using gc_pass_books [of r "reassembly r" now] assms by (auto simp: reasm_ok_def books_def)
qed

lemma reasm0_ok [simp]: "reasm_ok reasm0"
  by (simp add: reasm_ok_def books_def reasm0_def)

lemma reasm_clear_ok [simp]: "reasm_ok (reasm_clear r)"
  by (simp add: reasm_ok_def books_def reasm_clear_def)

text \<open>After the timer's pass no slot is older than the limit.\<close>

lemma gc_pass_young:
  "books r \<Longrightarrow> set m \<subseteq> set (reassembly r) \<Longrightarrow> distinct (map fst m) \<Longrightarrow>
   (k, s) \<in> set (reassembly (fst (gc_pass now m r))) \<Longrightarrow> (k, s) \<in> set m \<Longrightarrow>
   now - slot_firstSeenAt s < BIN_REASSEMBLY_TIMEOUT_MS"
proof (induction m arbitrary: r)
  case (Cons e m)
  obtain k' s' where e: "e = (k', s')" by (cases e)
  show ?case
  proof (cases "now - slot_firstSeenAt s' < BIN_REASSEMBLY_TIMEOUT_MS")
    case True
    with Cons show ?thesis by (auto simp: e)
  next
    case False
    have "map_of (reassembly r) k' = Some s'" using Cons.prems books_entry e by auto
    then have b: "books (drop_slot k' s' r)" by (rule books_drop [OF Cons.prems(1)])
    have sub: "set m \<subseteq> set (reassembly (drop_slot k' s' r))"
      using Cons.prems(2,3) by (simp add: e al_del_sub)
    have mem: "(k, s) \<in> set (reassembly (fst (gc_pass now m (drop_slot k' s' r))))"
      using Cons.prems(4) False by (simp add: e split_beta)
    with gc_pass_books [OF b sub, of now] Cons.prems(3) have "(k, s) \<in> set (al_del k' (reassembly r))"
      by (auto simp: e)
    then have "(k, s) \<in> set m" using Cons.prems(5) by (auto simp: e al_del_mem)
    with Cons.IH [OF b sub _ mem] Cons.prems(3) show ?thesis by (simp add: e)
  qed
qed simp

theorem gcStaleReassemblies_young:
  assumes "reasm_ok r" "(k, s) \<in> set (reassembly (fst (gcStaleReassemblies now r)))"
  shows "now - slot_firstSeenAt s < BIN_REASSEMBLY_TIMEOUT_MS"
proof -
  have b: "books r" "distinct (map fst (reassembly r))" using assms(1) by (simp_all add: reasm_ok_def books_def)
  have mem: "(k, s) \<in> set (reassembly (fst (gc_pass now (reassembly r) r)))"
    using assms(2) by (simp add: gcStaleReassemblies_def split_beta)
  then have "(k, s) \<in> set (reassembly r)" using gc_pass_books [OF b(1) _ b(2), of now] by auto
  with gc_pass_young [OF b(1) _ b(2) mem] show ?thesis by simp
qed

subsection \<open>A frame is parsed back\<close>

lemma base256_digits:
  "n = 256 * a + x \<Longrightarrow> a = 256 * b + y \<Longrightarrow> b = 256 * c + z \<Longrightarrow>
   n = x + 256 * y + 65536 * z + 16777216 * (c :: nat)"
  by simp

lemma div_split: "(n :: nat) = n mod 256 + 256 * (n div 256 mod 256) + 65536 * (n div 65536 mod 256) + 16777216 * (n div 16777216)"
proof (rule base256_digits)
  show "n = 256 * (n div 256) + n mod 256" by simp
  show "n div 256 = 256 * (n div 65536) + n div 256 mod 256"
    using div_mult2_eq [of n 256 256] mult_div_mod_eq [of 256 "n div 256"] by simp
  show "n div 65536 = 256 * (n div 16777216) + n div 65536 mod 256"
    using div_mult2_eq [of n 65536 256] mult_div_mod_eq [of 256 "n div 65536"] by simp
qed

lemma get_le32_le32: "n < 2 ^ 32 \<Longrightarrow> get_le32 (le32 n @ rest) = n"
proof -
  assume "n < 2 ^ 32"
  then have "n div 16777216 mod 256 = n div 16777216" by simp
  then show ?thesis
    using div_split [of n] by (simp add: get_le32_def le32_def unat_of_nat)
qed

text \<open>Numbers of a header that JSON prints exactly.\<close>

definition opts_ok :: "frame_opts \<Rightarrow> bool" where
  "opts_ok opts = (fo_addon opts \<noteq> [] \<and>
     (\<forall>i q n. fo_chunk opts = Some (i, q, n) \<longrightarrow> q < n \<and> n < 2 ^ 32))"

lemma json_clean_one: "json_clean (Num (Fin 1))"
  using json_clean_int [of 1] by simp

lemma header_clean:
  assumes "opts_ok opts" "length (fo_body opts) < 2 ^ 32"
  shows "json_clean (Obj (header_fields opts))"
proof -
  have "int (length (fo_body opts)) < 10 ^ 21" using assms(2) by simp
  then have b: "json_clean (jint (int (length (fo_body opts))))" by (intro json_clean_int) simp
  have c: "json_clean (jint (int q)) \<and> json_clean (jint (int n))" if "fo_chunk opts = Some (i, q, n)" for i q n
  proof -
    have "q < 2 ^ 32" "n < 2 ^ 32" using assms(1) that by (auto simp: opts_ok_def)
    then show ?thesis by (intro conjI json_clean_int) simp_all
  qed
  show ?thesis
  proof (cases "fo_chunk opts")
    case None
    with b show ?thesis by (simp add: header_fields_def json_clean_one del: json_clean.simps(4))
  next
    case (Some x)
    obtain i q n where x: "fo_chunk opts = Some (i, q, n)" using Some by (cases x) auto
    with b c [OF x] show ?thesis by (simp add: header_fields_def json_clean_one del: json_clean.simps(4))
  qed
qed

lemma header_parse:
  assumes "opts_ok opts" "length (fo_body opts) < 2 ^ 32"
  shows "json_parse (utf8_decode (header_bytes opts)) = Some (Obj (header_fields opts)) \<and> header_bytes opts \<noteq> []"
proof -
  note clean = header_clean [OF assms]
  obtain t where t: "json_str (Obj (header_fields opts)) = Some t" by simp
  then have hb: "header_bytes opts = utf8_encode t" by (simp add: header_bytes_def del: json_str.simps)
  have "json_parse (utf8_decode (utf8_encode t)) = Some (Obj (header_fields opts))"
    using json_utf8_roundtrip [OF json_clean_data [OF clean] t] json_clean_norm_id [OF clean] by simp
  moreover have "utf8_encode t \<noteq> []"
    using json_str_start [OF clean t] utf8_encode_Nil [of t] by (auto simp: text_start_def)
  ultimately show ?thesis by (simp add: hb)
qed

definition frame_args :: "frame_opts \<Rightarrow> jsstring \<Rightarrow> nat \<Rightarrow> nat \<Rightarrow> chunk_args" where
  "frame_args opts i q n = \<lparr>ca_addon = fo_addon opts, ca_mime = fo_mime opts, ca_id = i,
     ca_seq = Fin (of_nat q), ca_total = Fin (of_nat n), ca_body = fo_body opts\<rparr>"

lemma handle_sent_frame:
  assumes ok: "opts_ok opts" and sent: "sendOneFrame opts = Inr f"
  shows "handleBinaryFrame now f r =
    (case fo_chunk opts of
       None \<Rightarrow> (r, [EvBinary (fo_addon opts) (fo_mime opts) (fo_body opts)], None)
     | Some (i, q, n) \<Rightarrow>
         if 1 < n then handleChunk now (frame_args opts i q n) r
         else (r, [EvBinary (fo_addon opts) (fo_mime opts) (fo_body opts)], None))"
proof -
  let ?h = "header_bytes opts"
  have f: "f = le32 (length ?h) @ ?h @ fo_body opts" and len: "4 + length ?h + length (fo_body opts) \<le> 65536"
    using sent by (auto simp: sendOneFrame_def Let_def bin_limits split: if_splits)
  have hp: "json_parse (utf8_decode ?h) = Some (Obj (header_fields opts))" "?h \<noteq> []"
    using header_parse [OF ok] len by auto
  have le: "get_le32 f = length ?h" using len by (simp add: f get_le32_le32)
  have l4: "length (le32 (length ?h)) = 4" by (simp add: le32_def)
  have "\<not> length f < 4" "\<not> (length ?h = 0 \<or> 4 + length ?h > length f)"
    "take (length ?h) (drop 4 f) = ?h" "drop (4 + length ?h) f = fo_body opts"
    using hp(2) l4 by (simp_all add: f)
  then have step: "handleBinaryFrame now f r =
    (let h = header_fields opts; body = fo_body opts in
       (case (fld h ''addon'', fld h ''mime'', fld h ''size'') of
          (Str addon, Str mime, Num sz) \<Rightarrow>
            if fld h ''v'' \<noteq> jint 1 \<or> length addon = 0 then (r, [EvError E_SCHEMA], None)
            else if sz \<noteq> Fin (of_nat (length body)) then (r, [EvError E_SIZE], None)
            else (case (fld h ''id'', fld h ''seq'', fld h ''total'') of
                (Str i, Num seq, Num tot) \<Rightarrow>
                  if num_less (Fin 1) tot
                  then handleChunk now \<lparr>ca_addon = addon, ca_mime = mime, ca_id = i, ca_seq = seq,
                         ca_total = tot, ca_body = body\<rparr> r
                  else (r, [EvBinary addon mime body], None)
              | _ \<Rightarrow> (r, [EvBinary addon mime body], None))
        | _ \<Rightarrow> (r, [EvError E_SCHEMA], None)))"
    by (simp add: handleBinaryFrame_def Let_def le hp(1))
  have one: "num_less (Fin 1) (Fin (of_nat n)) = (1 < n)" for n
  proof -
    have "num_less (Fin 1) (Fin (of_nat n)) = (of_nat 1 < (of_nat n :: rat))" by simp
    then show ?thesis by (simp only: of_nat_less_iff)
  qed
  have "fo_addon opts \<noteq> []" using ok by (simp add: opts_ok_def)
  then show ?thesis
    unfolding step
    by (auto simp: header_fields_def Let_def one frame_args_def split: option.split prod.split)
qed

subsection \<open>Chunks in order\<close>

text \<open>Storing a new chunk that keeps the message under its cap.\<close>

lemma store_chunk_new:
  assumes r: "books r" "map_of (reassembly r) key = Some s" "map_of (slot_frames s) (ca_seq a) = None"
    and cap: "slot_bytes (add_chunk a s) \<le> BIN_MESSAGE_MAX_BYTES"
    and run: "store_chunk a key s r = (r', evs, e)"
  shows "\<exists>es. set es \<subseteq> {EvError E_OVERFLOW} \<and>
    (if slot_received s + 1 = slot_total s
     then map_of (reassembly r') key = None
       \<and> evs = es @ [EvBinary (slot_addon s) (slot_mime s) (slot_join (add_chunk a s))]
     else map_of (reassembly r') key = Some (add_chunk a s) \<and> evs = es)"
proof -
  let ?s = "add_chunk a s"
  let ?r1 = "r\<lparr>reassembly := al_set key ?s (reassembly r), reassemblyBytes := reassemblyBytes r + int (length (ca_body a))\<rparr>"
  have "books ?r1" by (rule books_store [OF r(1,2)]) (simp_all add: add_chunk_def)
  then have ed: "evicted key ?r1 (fst (evict_loop key ?r1))" by (rule evict_loop_evicted)
  obtain r2 es where ev: "evict_loop key ?r1 = (r2, es)" by (cases "evict_loop key ?r1")
  have es: "set es \<subseteq> {EvError E_OVERFLOW}" using evict_loop_events [of key ?r1] ev by simp
  have k2: "map_of (reassembly r2) key = Some ?s" using ed ev by (simp add: evicted_def)
  have rec: "slot_received ?s = slot_received s + 1" by (simp add: add_chunk_def)
  show ?thesis
    using run cap es k2
    by (intro exI [of _ es]) (auto simp: store_chunk_step [OF r(3)] Let_def ev rec)
qed

text \<open>
  The slot of a message that holds its chunks from the \<open>k0\<close>-th up to the \<open>k\<close>-th (not included); the
  bodies are \<open>b 0, b 1, ...\<close>. Unless the timer dropped the earlier chunks, \<open>k0\<close> is 0.
\<close>

definition partial_slot :: "int \<Rightarrow> jsstring \<Rightarrow> jsstring \<Rightarrow> jsstring \<Rightarrow> nat \<Rightarrow> (nat \<Rightarrow> bytes) \<Rightarrow> nat \<Rightarrow> nat \<Rightarrow> slot" where
  "partial_slot t addon mime i n b k0 k = \<lparr>slot_id = i, slot_addon = addon, slot_mime = mime, slot_total = n,
     slot_frames = map (\<lambda>q. (Fin (of_nat q), b q)) [k0..<k], slot_received = k - k0,
     slot_bytes = sum_list (map (length \<circ> b) [k0..<k]), slot_firstSeenAt = t\<rparr>"

definition nth_chunk :: "jsstring \<Rightarrow> jsstring \<Rightarrow> jsstring \<Rightarrow> nat \<Rightarrow> (nat \<Rightarrow> bytes) \<Rightarrow> nat \<Rightarrow> chunk_args" where
  "nth_chunk addon mime i n b k = \<lparr>ca_addon = addon, ca_mime = mime, ca_id = i,
     ca_seq = Fin (of_nat k), ca_total = Fin (of_nat n), ca_body = b k\<rparr>"

lemma nth_chunk_fields [simp]:
  "chunk_key (nth_chunk addon mime i n b k) = slot_key addon i"
  "ca_total (nth_chunk addon mime i n b k) = Fin (of_nat n)"
  by (simp_all add: nth_chunk_def chunk_key_def)

lemma add_nth_chunk:
  "k0 \<le> k \<Longrightarrow>
    add_chunk (nth_chunk addon mime i n b k) (partial_slot t addon mime i n b k0 k) = partial_slot t addon mime i n b k0 (Suc k)"
  by (simp add: add_chunk_def nth_chunk_def partial_slot_def Suc_diff_le)

lemma map_of_upto:
  "map_of (map (\<lambda>q. (Fin (of_nat q), b q)) [k0..<k]) (Fin (of_nat j)) = (if k0 \<le> j \<and> j < k then Some (b j) else None)"
  by (induction k) (auto simp: map_add_def less_Suc_eq split: option.split)

lemma partial_slot_fresh: "partial_slot t addon mime i n b k0 k0 = fresh_slot t (nth_chunk addon mime i n b k) n"
  by (simp add: partial_slot_def fresh_slot_def nth_chunk_def)

lemma slot_join_partial:
  "slot_join (partial_slot t addon mime i n b 0 n) = concat (map b [0..<n])"
proof -
  have "slot_parts (partial_slot t addon mime i n b 0 n) = map b [0..<n]"
    unfolding slot_parts_def partial_slot_def slot.simps
    by (simp add: map_of_upto map_filter_def map_of_upto cong: map_cong filter_cong)
  then show ?thesis
    using copy_chunks_concat [of "replicate (sum_list (map (length \<circ> b) [0..<n])) 0" "map b [0..<n]" "[]"]
    by (simp add: slot_join_def) (simp add: partial_slot_def)
qed

lemma nat_num_less: "num_less (Fin (of_nat a)) (Fin (of_nat b)) = (a < b)"
  by simp

lemma nth_chunk_range: "k < n \<Longrightarrow> \<not> chunk_range_bad (nth_chunk addon mime i n b k)"
  using nat_num_less [of n 1] nat_num_less [of k 0] nat_num_less [of k n]
  by (simp add: chunk_range_bad_def nth_chunk_def num_le_def)

lemma array_length_nat: "n < 2 ^ 32 \<Longrightarrow> array_length (Fin (of_nat n)) = Some n"
proof -
  assume "n < 2 ^ 32"
  then have "(of_nat n :: rat) < of_nat (2 ^ 32)" by (simp only: of_nat_less_iff)
  then show ?thesis by simp
qed

lemma sum_list_upto_mono:
  fixes g :: "nat \<Rightarrow> nat"
  shows "k0 \<le> k \<Longrightarrow> k \<le> n \<Longrightarrow> sum_list (map g [k0..<k]) \<le> sum_list (map g [0..<n])"
proof -
  assume "k0 \<le> k" "k \<le> n"
  then have "[0..<n] = [0..<k0] @ [k0..<k] @ [k..<n]"
    using upt_add_eq_append [of 0 k0 "n - k0"] upt_add_eq_append [of k0 k "n - k"] by simp
  then show ?thesis by simp
qed

text \<open>One more chunk of a message that is being received; only with its last chunk is a message delivered that lost none.\<close>

lemma handle_nth_chunk:
  assumes ok: "reasm_ok r" and k: "k0 \<le> k" "k < n" "n < 2 ^ 32"
    and cap: "sum_list (map (length \<circ> b) [0..<n]) \<le> BIN_MESSAGE_MAX_BYTES"
    and at: "map_of (reassembly r) (slot_key addon i) = (if k = k0 then None else Some (partial_slot t addon mime i n b k0 k))"
  obtains r' es where "set es \<subseteq> {EvError E_OVERFLOW}" "reasm_ok r'"
    and "handleChunk now (nth_chunk addon mime i n b k) r =
      (r', es @ (if Suc k = n \<and> k0 = 0 then [EvBinary addon mime (concat (map b [0..<n]))] else []), None)"
    and "\<not> (Suc k = n \<and> k0 = 0) \<Longrightarrow>
      map_of (reassembly r') (slot_key addon i) = Some (partial_slot (if k = k0 then now else t) addon mime i n b k0 (Suc k))"
proof -
  let ?a = "nth_chunk addon mime i n b k" and ?key = "slot_key addon i"
  let ?t = "if k = k0 then now else t"
  let ?s = "partial_slot ?t addon mime i n b k0 k"
  let ?r = "if k = k0 then with_fresh now ?a n r else r"
  have b: "books r" using ok by (simp add: reasm_ok_def)
  have run: "handleChunk now ?a r = store_chunk ?a ?key ?s ?r"
  proof (cases "k = k0")
    case True
    then show ?thesis
      using at nth_chunk_range [OF k(2)] array_length_nat [OF k(3)] partial_slot_fresh [of now addon mime i n b k0 k]
      by (simp add: handleChunk_cases)
  next
    case False
    then show ?thesis
      using at nth_chunk_range [OF k(2)]
      by (simp add: handleChunk_cases) (simp add: partial_slot_def nth_chunk_def)
  qed
  have br: "books ?r" using b books_fresh [of r ?a now n] at by (cases "k = k0") simp_all
  have sr: "map_of (reassembly ?r) ?key = Some ?s"
    using at partial_slot_fresh [of now addon mime i n b k0 k]
    by (auto simp: with_fresh_def startReassemblyGcIfNeeded_def)
  have fr: "map_of (slot_frames ?s) (ca_seq ?a) = None"
    by (simp add: partial_slot_def nth_chunk_def map_of_upto)
  have add: "add_chunk ?a ?s = partial_slot ?t addon mime i n b k0 (Suc k)" by (rule add_nth_chunk [OF k(1)])
  have cap': "slot_bytes (add_chunk ?a ?s) \<le> BIN_MESSAGE_MAX_BYTES"
    unfolding add using cap sum_list_upto_mono [of k0 "Suc k" n "length \<circ> b"] k by (simp add: partial_slot_def)
  obtain r' evs e where st: "store_chunk ?a ?key ?s ?r = (r', evs, e)" by (cases "store_chunk ?a ?key ?s ?r")
  have "slot_addon ?s = addon" "slot_mime ?s = mime" "slot_received ?s + 1 = slot_total ?s \<longleftrightarrow> Suc k = n \<and> k0 = 0"
    using k by (auto simp: partial_slot_def)
  then obtain es where es: "set es \<subseteq> {EvError E_OVERFLOW}"
      "if Suc k = n \<and> k0 = 0 then map_of (reassembly r') ?key = None \<and> evs = es @ [EvBinary addon mime (slot_join (add_chunk ?a ?s))]
       else map_of (reassembly r') ?key = Some (add_chunk ?a ?s) \<and> evs = es"
    using store_chunk_new [OF br sr fr cap' st] by metis
  have r': "reasm_ok r'" using handleChunk_ok [OF ok] run st by metis
  have e: "e = None" using st by (simp add: store_chunk_step [OF fr] Let_def split: if_splits prod.splits)
  show thesis
  proof (rule that [OF es(1) r'])
    show "handleChunk now ?a r = (r', es @ (if Suc k = n \<and> k0 = 0 then [EvBinary addon mime (concat (map b [0..<n]))] else []), None)"
    proof (cases "Suc k = n \<and> k0 = 0")
      case True
      then have "slot_join (add_chunk ?a ?s) = concat (map b [0..<n])" unfolding add by (simp add: slot_join_partial)
      with True es(2) run st e show ?thesis by simp
    qed (use es(2) run st e in simp)
    show "map_of (reassembly r') ?key = Some (partial_slot ?t addon mime i n b k0 (Suc k))" if "\<not> (Suc k = n \<and> k0 = 0)"
      using es(2) that by (auto simp: add)
  qed
qed

subsection \<open>A message is delivered once, unchanged\<close>

text \<open>
  What happens on the receiving side, each thing at its time: a frame arrives, or the timer is due, which
  runs only while a message is incomplete.
\<close>

datatype arrival = Arrival int bytes | TimerDue int

fun receive_frames :: "arrival list \<Rightarrow> reasm \<Rightarrow> reasm \<times> frame_event list" where
  "receive_frames [] r = (r, [])"
| "receive_frames (Arrival now f # as) r =
     (let (r1, evs, e) = handleBinaryFrame now f r; (r2, evs2) = receive_frames as r1 in (r2, evs @ evs2))"
| "receive_frames (TimerDue now # as) r =
     (let (r1, evs) = (if reassemblyGcTimer r then gcStaleReassemblies now r else (r, []));
          (r2, evs2) = receive_frames as r1 in (r2, evs @ evs2))"

fun frames_of :: "arrival list \<Rightarrow> bytes list" where
  "frames_of [] = []"
| "frames_of (Arrival now f # as) = f # frames_of as"
| "frames_of (TimerDue now # as) = frames_of as"

text \<open>
  Whether the last frame comes in time: no pass of the timer before it finds the first frame, which came
  at \<open>t0\<close> if it has come, older than the limit.
\<close>

fun in_time :: "int option \<Rightarrow> arrival list \<Rightarrow> bool" where
  "in_time t0 [] = True"
| "in_time t0 (Arrival now f # as) = in_time (Some (case t0 of None \<Rightarrow> now | Some t \<Rightarrow> t)) as"
| "in_time t0 (TimerDue now # as) =
     ((case t0 of None \<Rightarrow> True | Some t \<Rightarrow> frames_of as = [] \<or> now - t < BIN_REASSEMBLY_TIMEOUT_MS) \<and> in_time t0 as)"

definition notices :: "frame_event set" where
  "notices = {EvError E_OVERFLOW, EvError E_TIMEOUT}"

text \<open>A pass of the timer drops exactly the slots that are too old.\<close>

lemma gc_pass_lookup:
  "map_of (reassembly (fst (gc_pass now m r))) k =
    (if \<exists>s. (k, s) \<in> set m \<and> BIN_REASSEMBLY_TIMEOUT_MS \<le> now - slot_firstSeenAt s then None else map_of (reassembly r) k)"
proof (induction m arbitrary: r)
  case (Cons e m)
  obtain k' s' where "e = (k', s')" by (cases e)
  then show ?case using Cons [of r] Cons [of "drop_slot k' s' r"] by (auto simp: split_beta not_less)
qed simp

lemma gc_lookup:
  assumes "reasm_ok r"
  shows "map_of (reassembly (fst (gcStaleReassemblies now r))) k =
    (case map_of (reassembly r) k of None \<Rightarrow> None
     | Some s \<Rightarrow> if now - slot_firstSeenAt s < BIN_REASSEMBLY_TIMEOUT_MS then Some s else None)"
proof -
  have "distinct (map fst (reassembly r))" using assms by (simp add: reasm_ok_def books_def)
  then have "(k, s) \<in> set (reassembly r) \<longleftrightarrow> map_of (reassembly r) k = Some s" for s by simp
  then show ?thesis
    using gc_pass_lookup [of now "reassembly r" r k]
    by (auto simp: gcStaleReassemblies_def split_beta not_less split: option.split)
qed

lemma gc_events: "set (snd (gcStaleReassemblies now r)) \<subseteq> notices"
proof -
  have "set (snd (gc_pass now m r)) \<subseteq> notices" for m
  proof (induction m arbitrary: r)
    case (Cons e m)
    obtain k s where "e = (k, s)" by (cases e)
    then show ?case using Cons [of r] Cons [of "drop_slot k s r"] by (simp add: split_beta notices_def)
  qed simp
  then show ?thesis by (simp add: gcStaleReassemblies_def split_beta)
qed

text \<open>The timer's turn, whether it runs or not.\<close>

lemma timer_turn:
  assumes "reasm_ok r"
  obtains r1 evs where "receive_frames (TimerDue now # as) r = (let (r2, evs2) = receive_frames as r1 in (r2, evs @ evs2))"
    and "reasm_ok r1" "set evs \<subseteq> notices"
    and "\<And>k. map_of (reassembly r1) k =
      (case map_of (reassembly r) k of None \<Rightarrow> None
       | Some s \<Rightarrow> if now - slot_firstSeenAt s < BIN_REASSEMBLY_TIMEOUT_MS then Some s else None)"
proof (cases "reassemblyGcTimer r")
  case True
  show thesis
    by (rule that [of "fst (gcStaleReassemblies now r)" "snd (gcStaleReassemblies now r)"])
      (simp_all add: True split_beta gcStaleReassemblies_ok [OF assms] gc_events gc_lookup [OF assms])
next
  case False
  then have "reassembly r = []" using assms by (simp add: reasm_ok_def)
  then show thesis by (intro that [of r "[]"]) (simp_all add: False assms)
qed

lemma receive_frames_ok: "reasm_ok r \<Longrightarrow> reasm_ok (fst (receive_frames as r))"
proof (induction as arbitrary: r)
  case (Cons a as)
  show ?case
  proof (cases a)
    case (Arrival now f)
    obtain r1 evs e where h: "handleBinaryFrame now f r = (r1, evs, e)" by (cases "handleBinaryFrame now f r")
    have "reasm_ok r1" by (rule handleBinaryFrame_ok [OF Cons.prems h])
    with Cons.IH show ?thesis by (simp add: Arrival h split_beta)
  next
    case (TimerDue now)
    obtain r1 evs where "receive_frames (TimerDue now # as) r = (let (r2, evs2) = receive_frames as r1 in (r2, evs @ evs2))"
      "reasm_ok r1" using timer_turn [OF Cons.prems] by metis
    with Cons.IH show ?thesis by (simp add: TimerDue split_beta)
  qed
qed simp

lemma no_more_frames: "frames_of as = [] \<Longrightarrow> reasm_ok r \<Longrightarrow> in_time t0 as \<and> set (snd (receive_frames as r)) \<subseteq> notices"
proof (induction as arbitrary: r)
  case (Cons a as)
  then obtain now where a: "a = TimerDue now" by (cases a) simp_all
  obtain r1 evs where "receive_frames (TimerDue now # as) r = (let (r2, evs2) = receive_frames as r1 in (r2, evs @ evs2))"
    "reasm_ok r1" "set evs \<subseteq> notices" using timer_turn [OF Cons.prems(2)] by metis
  with Cons.IH [of r1] Cons.prems(1) show ?case by (simp add: a split_beta split: option.split)
qed simp

lemma send_frames_all:
  "send_frames opts = (fs, None) \<Longrightarrow> list_all2 (\<lambda>o' f. sendOneFrame o' = Inr f) opts fs"
  by (induction opts arbitrary: fs) (auto split: sum.splits prod.splits)

definition chunk_opts :: "jsstring \<Rightarrow> jsstring \<Rightarrow> jsstring \<Rightarrow> nat \<Rightarrow> (nat \<Rightarrow> bytes) \<Rightarrow> nat \<Rightarrow> frame_opts" where
  "chunk_opts addon mime i n b q = \<lparr>fo_addon = addon, fo_mime = mime, fo_body = b q, fo_chunk = Some (i, q, n)\<rparr>"

lemma handle_chunk_frame:
  assumes "addon \<noteq> []" "k < n" "1 < n" "n < 2 ^ 32" "sendOneFrame (chunk_opts addon mime i n b k) = Inr f"
  shows "handleBinaryFrame now f r = handleChunk now (nth_chunk addon mime i n b k) r"
  using handle_sent_frame [OF _ assms(5)] assms
  by (simp add: opts_ok_def chunk_opts_def frame_args_def nth_chunk_def)

text \<open>
  The frames from the \<open>k\<close>-th on. The message is delivered if the timer has dropped no chunk of it and
  drops none before the last one; otherwise it never is.
\<close>

definition delivers :: "bool \<Rightarrow> jsstring \<Rightarrow> jsstring \<Rightarrow> bytes \<Rightarrow> frame_event list \<Rightarrow> bool" where
  "delivers ok addon mime bs evs \<longleftrightarrow>
     (if ok then \<exists>xs ys. evs = xs @ EvBinary addon mime bs # ys \<and> set xs \<union> set ys \<subseteq> notices else set evs \<subseteq> notices)"

lemma delivers_after: "set xs \<subseteq> notices \<Longrightarrow> delivers ok addon mime bs evs \<Longrightarrow> delivers ok addon mime bs (xs @ evs)"
  proof (cases ok)
  case True
  assume x: "set xs \<subseteq> notices" and "delivers ok addon mime bs evs"
  with True obtain ys zs where "evs = ys @ EvBinary addon mime bs # zs" "set ys \<union> set zs \<subseteq> notices" by (auto simp: delivers_def)
  with x True have "xs @ evs = (xs @ ys) @ EvBinary addon mime bs # zs \<and> set (xs @ ys) \<union> set zs \<subseteq> notices" by auto
  with True show ?thesis unfolding delivers_def by metis
qed (simp add: delivers_def)

lemma delivers_now: "set xs \<subseteq> notices \<Longrightarrow> set ys \<subseteq> notices \<Longrightarrow> delivers True addon mime bs (xs @ EvBinary addon mime bs # ys)"
  by (auto simp: delivers_def)

lemma delivers_not: "delivers False addon mime bs evs \<longleftrightarrow> set evs \<subseteq> notices"
  by (simp add: delivers_def)

lemma overflow_notices: "set es \<subseteq> {EvError E_OVERFLOW} \<Longrightarrow> set es \<subseteq> notices"
  by (auto simp: notices_def)

lemma receive_chunks_from:
  assumes "addon \<noteq> []" "1 < n" "n < 2 ^ 32" "sum_list (map (length \<circ> b) [0..<n]) \<le> BIN_MESSAGE_MAX_BYTES"
  shows "k0 \<le> k \<Longrightarrow> k < n \<Longrightarrow> list_all2 (\<lambda>q f. sendOneFrame (chunk_opts addon mime i n b q) = Inr f) [k..<n] (frames_of as) \<Longrightarrow>
    reasm_ok r \<Longrightarrow>
    map_of (reassembly r) (slot_key addon i) = (if k = k0 then None else Some (partial_slot t addon mime i n b k0 k)) \<Longrightarrow>
    delivers (k0 = 0 \<and> in_time (if k = k0 then None else Some t) as) addon mime (concat (map b [0..<n])) (snd (receive_frames as r))"
proof (induction as arbitrary: k0 k r t)
  case (Cons a as)
  let ?bs = "concat (map b [0..<n])" and ?key = "slot_key addon i"
  show ?case
  proof (cases a)
    case (TimerDue now)
    obtain r1 evs where turn: "receive_frames (TimerDue now # as) r = (let (r2, evs2) = receive_frames as r1 in (r2, evs @ evs2))"
      "reasm_ok r1" "set evs \<subseteq> notices"
      "\<And>k. map_of (reassembly r1) k = (case map_of (reassembly r) k of None \<Rightarrow> None
       | Some s \<Rightarrow> if now - slot_firstSeenAt s < BIN_REASSEMBLY_TIMEOUT_MS then Some s else None)"
      by (rule timer_turn [OF Cons.prems(4), of now as]) (rule that)
    have fs: "list_all2 (\<lambda>q f. sendOneFrame (chunk_opts addon mime i n b q) = Inr f) [k..<n] (frames_of as)" "frames_of as \<noteq> []"
      using Cons.prems(2,3) TimerDue by auto
    let ?young = "k = k0 \<or> now - t < BIN_REASSEMBLY_TIMEOUT_MS"
    have rest: "delivers (k0 = 0 \<and> in_time (if k = k0 then None else Some t) (a # as)) addon mime ?bs (snd (receive_frames as r1))"
    proof (cases ?young)
      case True
      then have "map_of (reassembly r1) ?key = (if k = k0 then None else Some (partial_slot t addon mime i n b k0 k))"
        using turn(4) [of ?key] Cons.prems(5) by (auto simp: partial_slot_def)
      from Cons.IH [OF Cons.prems(1,2) fs(1) turn(2) this] True show ?thesis by (auto simp: TimerDue)
    next
      case False
      then have "map_of (reassembly r1) ?key = (if k = k then None else Some (partial_slot t addon mime i n b k k))"
        using turn(4) [of ?key] Cons.prems(5) by (auto simp: partial_slot_def)
      from Cons.IH [OF order_refl Cons.prems(2) fs(1) turn(2) this] False Cons.prems(1) fs(2)
      show ?thesis by (auto simp: TimerDue delivers_not)
    qed
    from delivers_after [OF turn(3) rest] show ?thesis by (simp add: TimerDue turn(1) split_beta del: receive_frames.simps in_time.simps)
  next
    case (Arrival now f)
    have upt: "[k..<n] = k # [Suc k..<n]" using Cons.prems(2) by (simp add: upt_conv_Cons)
    then have f: "sendOneFrame (chunk_opts addon mime i n b k) = Inr f"
      and fs: "list_all2 (\<lambda>q f. sendOneFrame (chunk_opts addon mime i n b q) = Inr f) [Suc k..<n] (frames_of as)"
      using Cons.prems(3) Arrival by simp_all
    let ?t = "if k = k0 then now else t" and ?whole = "Suc k = n \<and> k0 = 0"
    obtain r1 es where step: "set es \<subseteq> {EvError E_OVERFLOW}" "reasm_ok r1"
        "handleChunk now (nth_chunk addon mime i n b k) r = (r1, es @ (if ?whole then [EvBinary addon mime ?bs] else []), None)"
        "\<not> ?whole \<Longrightarrow> map_of (reassembly r1) ?key = Some (partial_slot ?t addon mime i n b k0 (Suc k))"
      using handle_nth_chunk [OF Cons.prems(4,1,2) assms(3,4) Cons.prems(5)] by metis
    have run: "snd (receive_frames (a # as) r) = (es @ (if ?whole then [EvBinary addon mime ?bs] else [])) @ snd (receive_frames as r1)"
      using handle_chunk_frame [OF assms(1) Cons.prems(2) assms(2,3) f, of now r] step(3) by (simp add: Arrival split_beta)
    have time: "in_time (if k = k0 then None else Some t) (a # as) = in_time (Some ?t) as" by (simp add: Arrival)
    show ?thesis
    proof (cases "Suc k = n")
      case True
      with fs have "frames_of as = []" by simp
      from no_more_frames [OF this step(2)] overflow_notices [OF step(1)] True show ?thesis
        unfolding run time by (cases "k0 = 0") (simp_all add: delivers_not delivers_now)
    next
      case False
      with Cons.prems(1,2) have k: "k0 \<le> Suc k" "Suc k < n" "Suc k \<noteq> k0" by simp_all
      have "map_of (reassembly r1) ?key = (if Suc k = k0 then None else Some (partial_slot ?t addon mime i n b k0 (Suc k)))"
        using step(4) False k(3) by simp
      from Cons.IH [OF k(1,2) fs step(2) this] k(3) False show ?thesis
        unfolding run time by (auto intro!: delivers_after [OF overflow_notices [OF step(1)]])
    qed
  qed
qed simp

lemma chunk_slice_take: "chunk_slice bs q = take BIN_BODY_PER_FRAME (drop (q * BIN_BODY_PER_FRAME) bs)"
  by (auto simp: chunk_slice_def Let_def min_def)

lemma concat_slices: "concat (map (chunk_slice bs) [0..<k]) = take (k * BIN_BODY_PER_FRAME) bs"
proof (induction k)
  case (Suc k)
  have "Suc k * BIN_BODY_PER_FRAME = k * BIN_BODY_PER_FRAME + BIN_BODY_PER_FRAME" by simp
  with Suc show ?case by (simp only: take_add) (simp add: chunk_slice_take)
qed simp

lemma frame_total_enough: "length bs \<le> frame_total (length bs) * BIN_BODY_PER_FRAME"
  unfolding frame_total_def by (simp add: bin_limits)

lemma frame_total_bound: "n \<le> BIN_MESSAGE_MAX_BYTES \<Longrightarrow> frame_total n \<le> 69"
  unfolding frame_total_def by (simp add: bin_limits)

lemma message_frames_chunks:
  "frame_total (length bs) \<noteq> 1 \<Longrightarrow> message_frames addon mime bs i =
     map (chunk_opts addon mime i (frame_total (length bs)) (chunk_slice bs)) [0..<frame_total (length bs)]"
  by (simp add: message_frames_def chunk_opts_def [abs_def] Let_def)

lemma lone_frame:
  "frames_of as = [f] \<Longrightarrow> reasm_ok r \<Longrightarrow> (\<And>now r. handleBinaryFrame now f r = (r, [EvBinary addon mime bs], None)) \<Longrightarrow>
    in_time None as \<and> delivers True addon mime bs (snd (receive_frames as r))"
proof (induction as arbitrary: r)
  case (Cons a as)
  show ?case
  proof (cases a)
    case (Arrival now f')
    with Cons.prems no_more_frames [of as r "Some now"] delivers_now [of "[]"] show ?thesis by (simp add: split_beta)
  next
    case (TimerDue now)
    obtain r1 evs where turn: "receive_frames (TimerDue now # as) r = (let (r2, evs2) = receive_frames as r1 in (r2, evs @ evs2))"
      "reasm_ok r1" "set evs \<subseteq> notices" using timer_turn [OF Cons.prems(2)] by metis
    with Cons.IH [OF _ turn(2) Cons.prems(3)] Cons.prems(1) delivers_after [OF turn(3)]
    show ?thesis by (simp add: TimerDue split_beta del: receive_frames.simps)
  qed
qed simp

theorem binary_delivery:
  assumes ok: "reasm_ok r" and addon: "addon \<noteq> []" and cap: "length bs \<le> BIN_MESSAGE_MAX_BYTES"
    and fresh: "map_of (reassembly r) (slot_key addon i) = None"
    and sent: "send_frames (message_frames addon mime bs i) = (frames_of as, None)"
  shows "delivers (in_time None as) addon mime bs (snd (receive_frames as r))"
proof (cases "frame_total (length bs) = 1")
  case True
  let ?o = "\<lparr>fo_addon = addon, fo_mime = mime, fo_body = bs, fo_chunk = None\<rparr>"
  obtain f where f: "frames_of as = [f]" "sendOneFrame ?o = Inr f"
    using sent True by (cases "frames_of as") (auto simp: message_frames_def split: sum.splits)
  have "handleBinaryFrame now f r = (r, [EvBinary addon mime bs], None)" for now r
    using handle_sent_frame [OF _ f(2)] addon by (simp add: opts_ok_def)
  from lone_frame [OF f(1) ok this] show ?thesis by simp
next
  case False
  let ?n = "frame_total (length bs)" and ?b = "chunk_slice bs"
  have n: "0 < ?n" "1 < ?n" "?n < 2 ^ 32"
    using False frame_total_bound [OF cap] by (auto simp: frame_total_def)
  have all: "concat (map ?b [0..<?n]) = bs"
    using concat_slices [of bs ?n] frame_total_enough [of bs] by simp
  have "sum_list (map (length \<circ> ?b) [0..<?n]) = length (concat (map ?b [0..<?n]))"
    by (simp add: length_concat_map)
  then have le: "sum_list (map (length \<circ> ?b) [0..<?n]) \<le> BIN_MESSAGE_MAX_BYTES" using cap all by simp
  have "list_all2 (\<lambda>q f. sendOneFrame (chunk_opts addon mime i ?n ?b q) = Inr f) [0..<?n] (frames_of as)"
    using send_frames_all [OF sent] message_frames_chunks [OF False] by (simp add: list_all2_map1)
  from receive_chunks_from [OF addon n(2,3) le order_refl n(1) this ok] fresh all show ?thesis by simp
qed

lemma sendOneFrame_bound: "sendOneFrame opts = Inr f \<Longrightarrow> length f \<le> BIN_FRAME_MAX_BYTES"
  by (auto simp: sendOneFrame_def Let_def le32_def split: if_splits)

subsection \<open>Frames that fit\<close>

text \<open>The longest header of a message whose names and id have few characters.\<close>

lemma length_json_nat: "n < 10 ^ 21 \<Longrightarrow> json_num (Fin (of_nat n)) = radix_str 10 n"
  using json_num_of_int [of "int n"] by simp

lemma header_size:
  assumes "length (fo_body opts) < 10 ^ 10" "\<And>i q n. fo_chunk opts = Some (i, q, n) \<Longrightarrow> q < 10 ^ 10 \<and> n < 10 ^ 10"
  shows "length (header_bytes opts) \<le> 18 * (length (fo_addon opts) + length (fo_mime opts)
    + (case fo_chunk opts of None \<Rightarrow> 0 | Some (i, q, n) \<Rightarrow> length i)) + 750"
proof -
  have num: "length (json_num (Fin (of_nat n))) \<le> 10" if "n < 10 ^ 10" for n
    using that length_radix_str [of 10 n 10] by (subst length_json_nat) auto
  have one: "length (json_num (Fin 1)) \<le> 10" using num [of 1] by simp
  have q: "length (json_quote (js k)) \<le> 6 * length k + 2" for k using length_json_quote [of "js k"] by simp
  have b: "length (json_num (Fin (of_nat (length (fo_body opts))))) \<le> 10" by (rule num [OF assms(1)])
  note qs = q [of "''v''"] q [of "''addon''"] q [of "''mime''"] q [of "''size''"] q [of "''id''"] q [of "''seq''"]
    q [of "''total''"] length_json_quote [of "fo_addon opts"] length_json_quote [of "fo_mime opts"]
  show ?thesis
  proof (cases "fo_chunk opts")
    case None
    obtain t where t: "json_str (Obj (header_fields opts)) = Some t" by simp
    then have "length t \<le> 6 * (length (fo_addon opts) + length (fo_mime opts)) + 250"
      using one b qs by (auto simp: header_fields_def None)
    then show ?thesis
      using length_utf8_encode [of t] t None by (simp add: header_bytes_def del: json_str.simps)
  next
    case (Some x)
    then obtain i q' n where x: "fo_chunk opts = Some (i, q', n)" by (cases x) auto
    obtain t where t: "json_str (Obj (header_fields opts)) = Some t" by simp
    then have "length t \<le> 6 * (length (fo_addon opts) + length (fo_mime opts) + length i) + 250"
      using one b qs num [of q'] num [of n] assms(2) [OF x] length_json_quote [of i]
      by (auto simp: header_fields_def x)
    then show ?thesis
      using length_utf8_encode [of t] t x by (simp add: header_bytes_def del: json_str.simps)
  qed
qed

lemma sendOneFrame_fits:
  assumes "length (fo_body opts) \<le> BIN_BODY_PER_FRAME"
    and "\<And>i q n. fo_chunk opts = Some (i, q, n) \<Longrightarrow> q < 10 ^ 10 \<and> n < 10 ^ 10"
    and "length (fo_addon opts) + length (fo_mime opts) + (case fo_chunk opts of None \<Rightarrow> 0 | Some (i, q, n) \<Rightarrow> length i) \<le> 180"
  shows "\<exists>f. sendOneFrame opts = Inr f"
proof -
  have "length (fo_body opts) < 10 ^ 10" using assms(1) by (simp add: bin_limits)
  then have "length (header_bytes opts) \<le> 18 * (length (fo_addon opts) + length (fo_mime opts)
      + (case fo_chunk opts of None \<Rightarrow> 0 | Some (i, q, n) \<Rightarrow> length i)) + 750"
    by (rule header_size) (use assms(2) in blast)
  also have "\<dots> \<le> 18 * 180 + 750"
    by (rule add_right_mono, rule mult_le_mono2, rule assms(3))
  finally have "length (header_bytes opts) \<le> 4020" by simp
  with assms(1) show ?thesis by (simp add: sendOneFrame_def Let_def bin_limits)
qed

lemma send_frames_fits: "(\<And>o'. o' \<in> set opts \<Longrightarrow> \<exists>f. sendOneFrame o' = Inr f) \<Longrightarrow> snd (send_frames opts) = None"
proof (induction opts)
  case (Cons o' opts)
  then obtain f where "sendOneFrame o' = Inr f" by auto
  moreover have "snd (send_frames opts) = None" using Cons by simp
  ultimately show ?case by (simp add: split_beta)
qed simp

lemma message_frames_fit:
  assumes "length addon + length mime + length i \<le> 180" "length bs \<le> BIN_MESSAGE_MAX_BYTES"
  shows "snd (send_frames (message_frames addon mime bs i)) = None"
proof (rule send_frames_fits)
  fix o' assume o': "o' \<in> set (message_frames addon mime bs i)"
  have n: "frame_total (length bs) \<le> 69" using assms(2) by (rule frame_total_bound)
  show "\<exists>f. sendOneFrame o' = Inr f"
  proof (cases "frame_total (length bs) = 1")
    case True
    then have "o' = \<lparr>fo_addon = addon, fo_mime = mime, fo_body = bs, fo_chunk = None\<rparr>"
      using o' by (simp add: message_frames_def)
    moreover have "length bs \<le> BIN_BODY_PER_FRAME"
      using frame_total_enough [of bs] True by simp
    ultimately show ?thesis using assms(1) by (intro sendOneFrame_fits) simp_all
  next
    case False
    then obtain q where q: "q < frame_total (length bs)"
        "o' = chunk_opts addon mime i (frame_total (length bs)) (chunk_slice bs) q"
      using o' by (auto simp: message_frames_chunks)
    show ?thesis
      by (rule sendOneFrame_fits) (use q n assms(1) in \<open>auto simp: chunk_opts_def chunk_slice_take\<close>)
  qed
qed

lemma newMessageId_length:
  assumes "0 \<le> now" "now < 36 ^ 9"
  shows "length (snd (newMessageId now k)) \<le> 17"
proof -
  have "nat now < nat (36 ^ 9)" using assms by (simp only: nat_less_eq_zless)
  then have "length (radix_str 36 (nat now)) \<le> 9" by (intro length_radix_str) (simp_all add: nat_power_eq)
  moreover have "(k + 1) mod 0xFFFFFF < 36 ^ 5" by (rule less_trans [OF mod_less_divisor]) simp_all
  then have "length (radix_str 36 ((k + 1) mod 0xFFFFFF)) \<le> 5" by (intro length_radix_str) simp_all
  ultimately show ?thesis by (simp add: newMessageId_def Let_def)
qed

subsection \<open>What a hostile peer can make the handlers throw\<close>

lemma null_header_throws:
  "handleBinaryFrame now (le32 4 @ utf8_encode (js ''null'') @ body) r = (r, [], Some (Thrown ''TypeError'' ''''))"
proof -
  have le: "get_le32 (le32 4 @ utf8_encode (js ''null'') @ body) = 4" by (rule get_le32_le32) simp
  have len: "length (utf8_encode (js ''null'')) = 4" using utf8_size_js [of "''null''"] by (simp add: utf8_size_def)
  have "json_parse (utf8_decode (utf8_encode (js ''null''))) = Some Null"
    using json_utf8_roundtrip [of Null "js ''null''"] by simp
  moreover have l4: "length (le32 4) = 4" by (simp add: le32_def)
  moreover have "take 4 (drop 4 (le32 4 @ utf8_encode (js ''null'') @ body)) = utf8_encode (js ''null'')"
    using len l4 by simp
  ultimately show ?thesis
    using len by (simp only: handleBinaryFrame_def Let_def le length_append) simp
qed

lemma bad_total_throws:
  assumes "1 < t" "\<not> is_int_rat t \<or> 2 ^ 32 \<le> t" "0 \<le> q" "q < t" "map_of (reassembly r) (slot_key addon i) = None"
  shows "handleChunk now \<lparr>ca_addon = addon, ca_mime = mime, ca_id = i, ca_seq = Fin q, ca_total = Fin t, ca_body = b\<rparr> r
    = (r, [], Some (Thrown ''RangeError'' ''''))"
  using assms by (auto simp: handleChunk_def num_le_def)

end
