(* ===== verification/Peer_Session.thy ===== *)
theory Peer_Session
  imports Frames_Props Bundle
begin

text \<open>
  \<open>core/src/peer-session.ts\<close>: the peer session as a state machine. The session's fields are a record;
  what it does to the outside (events to its listeners, calls to the peer connection, its channels and
  the signaling transport) is a list of effects. An \<open>async\<close> method runs up to its first \<open>await\<close> and
  leaves a task; the environment resumes a task with the outcome of what it awaits. The peer
  connection, the channels and the transport are the environment: their answers (the local
  description, \<open>signalingState\<close>, \<open>readyState\<close>, rejections) are arguments. Listeners are not modelled
  beyond what is emitted to them.
\<close>

subsection \<open>State\<close>

datatype ps_role = Inviter | Joiner

datatype ps_status = SIdle | SConnecting | SConnected | SClosed | SFailed

datatype track_kind = Audio | Video

datatype conn_state = CsNew | CsConnecting | CsConnected | CsDisconnected | CsFailed | CsClosed

datatype sig_state = SgStable | SgHaveLocalOffer | SgHaveRemoteOffer | SgOther

datatype effect =
    EState ps_status
  | EText jsstring
  | EBinary jsstring jsstring bytes
  | ETrack track_kind nat
  | ETrackEnded track_kind nat
  | EError string
  | FPublish sig_message
  | FNewPeerConnection
  | FCreateChannel string
  | FSubscribe
  | FUnsubscribe
  | FSetLocal
  | FSetRemote string jsstring
  | FAddIce jsval
  | FSendText jsstring
  | FSendFrame bytes
  | FAddTrack nat
  | FRemoveTrack nat
  | FCloseIncoming
  | FCloseChannel
  | FCloseBin
  | FClosePc

text \<open>
  What an \<open>async\<close> method waits for: \<open>runNegotiation\<close> for its description and for its publication, the
  three waits of an incoming offer, those of an answer and of a candidate, the publications of a
  candidate and of \<open>close\<close>'s \<open>bye\<close>, and the bytes of a \<open>Blob\<close>.
\<close>

datatype task =
    TNegDesc | TNegPub
  | TOfferRemote | TOfferLocal | TOfferPub
  | TAnswerRemote | TIceAdd | TIcePub
  | TCloseBye
  | TBlob

datatype result_of =
    Done
  | DoneDesc "jsstring option"
  | DoneBytes bytes
  | Rejected string

record session =
  ps_role :: ps_role
  ps_roomId :: jsstring
  ps_localPeerId :: jsstring
  ps_remotePeerId :: "jsstring option"
  ps_pc :: bool
  ps_channel :: bool
  ps_binChannel :: bool
  ps_subscribed :: bool
  ps_reasm :: reasm
  ps_nextSendId :: nat
  ps_state :: ps_status
  ps_nextSenderId :: nat
  ps_makingOffer :: bool
  ps_ignoreOffer :: bool

type_synonym ps_result = "session \<times> effect list \<times> task list"

definition new_session :: "ps_role \<Rightarrow> jsstring \<Rightarrow> jsstring \<Rightarrow> jsstring option \<Rightarrow> session" where
  "new_session role roomId localPeerId remotePeerId = \<lparr>
     ps_role = role, ps_roomId = roomId, ps_localPeerId = localPeerId, ps_remotePeerId = remotePeerId,
     ps_pc = False, ps_channel = False, ps_binChannel = False, ps_subscribed = False, ps_reasm = reasm0,
     ps_nextSendId = 0, ps_state = SIdle, ps_nextSenderId = 0, ps_makingOffer = False, ps_ignoreOffer = False\<rparr>"

definition isPolite :: "session \<Rightarrow> bool" where
  "isPolite s = (ps_role s = Joiner)"

definition setState :: "ps_status \<Rightarrow> session \<Rightarrow> session \<times> effect list" where
  "setState st s = (if ps_state s = st then (s, []) else (s\<lparr>ps_state := st\<rparr>, [EState st]))"

definition TEXT_MAX_BYTES :: nat where "TEXT_MAX_BYTES = 64 * 1024"

subsection \<open>Starting\<close>

definition bindDataChannel :: "session \<Rightarrow> session" where
  "bindDataChannel s = s\<lparr>ps_channel := True\<rparr>"

definition bindBinaryChannel :: "session \<Rightarrow> session" where
  "bindBinaryChannel s = s\<lparr>ps_binChannel := True\<rparr>"

text \<open>\<open>start\<close>; \<open>pc_ok\<close> is false when the \<open>RTCPeerConnection\<close> constructor throws.\<close>

definition start :: "bool \<Rightarrow> session \<Rightarrow> ps_result \<times> err option" where
  "start pc_ok s =
     (if ps_state s \<noteq> SIdle then ((s, [], []), Some (Thrown ''Error'' ''PeerSession.start() called in state ''))
      else
        let (s1, e1) = setState SConnecting s in
        if \<not> pc_ok then ((s1, e1, []), Some (Thrown ''Error'' ''''))
        else
          let s2 = s1\<lparr>ps_pc := True\<rparr>;
              (s3, e3) = (if ps_role s2 = Inviter
                then (bindBinaryChannel (bindDataChannel s2), [FCreateChannel ''core.text'', FCreateChannel ''core.bin''])
                else (s2, []))
          in ((s3\<lparr>ps_subscribed := True\<rparr>, e1 @ [FNewPeerConnection] @ e3 @ [FSubscribe], []), None))"

subsection \<open>Handlers of the peer connection\<close>

text \<open>\<open>!this.remotePeerId\<close> is false of a non-empty string.\<close>

definition remote_of :: "session \<Rightarrow> jsstring option" where
  "remote_of s = (case ps_remotePeerId s of None \<Rightarrow> None | Some r \<Rightarrow> if r = [] then None else Some r)"

definition onicecandidate :: "jsval option \<Rightarrow> session \<Rightarrow> ps_result" where
  "onicecandidate cand s =
     (case (cand, remote_of s) of
        (Some c, Some r) \<Rightarrow> (s, [FPublish (Ice (ps_localPeerId s) r c)], [TIcePub])
      | _ \<Rightarrow> (s, [], []))"

definition onconnectionstatechange :: "conn_state \<Rightarrow> session \<Rightarrow> ps_result" where
  "onconnectionstatechange cs s =
     (if cs = CsFailed \<or> cs = CsClosed then
        if ps_state s \<noteq> SClosed then
          let (s', e) = setState (if cs = CsFailed then SFailed else SClosed) s in (s', e, [])
        else (s, [], [])
      else (s, [], []))"

definition ontrack :: "track_kind \<Rightarrow> nat \<Rightarrow> session \<Rightarrow> ps_result" where
  "ontrack kind track s = (s, [ETrack kind track], [])"

definition ontrack_ended :: "track_kind \<Rightarrow> nat \<Rightarrow> session \<Rightarrow> ps_result" where
  "ontrack_ended kind track s = (s, [ETrackEnded kind track], [])"

definition ondatachannel :: "jsstring \<Rightarrow> session \<Rightarrow> ps_result" where
  "ondatachannel label s =
     (if label = js ''core.text'' then (bindDataChannel s, [], [])
      else if label = js ''core.bin'' then (bindBinaryChannel s, [], [])
      else (s, [FCloseIncoming], []))"

text \<open>\<open>runNegotiation\<close>, up to each of its awaits; the \<open>finally\<close> clears \<open>makingOffer\<close>.\<close>

definition runNegotiation :: "session \<Rightarrow> ps_result" where
  "runNegotiation s =
     (if \<not> ps_pc s then (s, [], []) else (s\<lparr>ps_makingOffer := True\<rparr>, [FSetLocal], [TNegDesc]))"

definition negotiation_described :: "result_of \<Rightarrow> session \<Rightarrow> ps_result" where
  "negotiation_described res s =
     (case res of
        DoneDesc (Some sdp) \<Rightarrow>
          if sdp = [] then (s\<lparr>ps_makingOffer := False\<rparr>, [], [])
          else (s, [FPublish (Offer (ps_localPeerId s) sdp)], [TNegPub])
      | Rejected m \<Rightarrow> (s\<lparr>ps_makingOffer := False\<rparr>, [EError m], [])
      | _ \<Rightarrow> (s\<lparr>ps_makingOffer := False\<rparr>, [], []))"

definition negotiation_published :: "result_of \<Rightarrow> session \<Rightarrow> ps_result" where
  "negotiation_published res s =
     (case res of
        Rejected m \<Rightarrow> (s\<lparr>ps_makingOffer := False\<rparr>, [EError m], [])
      | _ \<Rightarrow> (s\<lparr>ps_makingOffer := False\<rparr>, [], []))"

subsection \<open>Sending\<close>

text \<open>\<open>is_open\<close> is \<open>this.channel.readyState === "open"\<close>.\<close>

definition sendText :: "jsstring \<Rightarrow> bool \<Rightarrow> session \<Rightarrow> ps_result \<times> err option" where
  "sendText message is_open s =
     (if ps_state s \<noteq> SConnected
      then ((s, [], []), Some (Thrown ''Error'' ''PeerSession.sendText() called in state ''))
      else if utf8_size message > TEXT_MAX_BYTES
      then ((s, [], []), Some (Thrown ''Error'' ''PeerSession.sendText: payload B exceeds 65536B''))
      else if \<not> ps_channel s \<or> \<not> is_open
      then ((s, [], []), Some (Thrown ''Error'' ''PeerSession.sendText: data channel is not open''))
      else ((s, [FSendText message], []), None))"

text \<open>The message handed to \<open>sendBinary\<close>, as it comes.\<close>

record binary_message =
  bm_addon :: jsval
  bm_mime :: jsval
  bm_bytes :: jsval

definition sendBinary :: "int \<Rightarrow> binary_message \<Rightarrow> bool \<Rightarrow> session \<Rightarrow> ps_result \<times> err option" where
  "sendBinary now m is_open s =
     (if ps_state s \<noteq> SConnected
      then ((s, [], []), Some (Thrown ''Error'' ''PeerSession.sendBinary() called in state ''))
      else (case bm_addon m of
          Str addon \<Rightarrow>
            if length addon = 0
            then ((s, [], []), Some (Thrown ''Error'' ''PeerSession.sendBinary: addon must be a non-empty string''))
            else (case bm_mime m of
                Str mime \<Rightarrow>
                  (case bm_bytes m of
                     U8 bs \<Rightarrow>
                       if length bs > BIN_MESSAGE_MAX_BYTES
                       then ((s, [], []), Some (Thrown ''Error'' ''PeerSession.sendBinary: payload B exceeds 4194304B''))
                       else if \<not> ps_binChannel s \<or> \<not> is_open
                       then ((s, [], []), Some (Thrown ''Error'' ''PeerSession.sendBinary: binary channel is not open''))
                       else
                         let (n, i) = (if frame_total (length bs) = 1 then (ps_nextSendId s, [])
                                       else newMessageId now (ps_nextSendId s));
                             (fs, e) = send_frames (message_frames addon mime bs i)
                         in ((s\<lparr>ps_nextSendId := n\<rparr>, map FSendFrame fs, []), e)
                   | _ \<Rightarrow> ((s, [], []), Some (Thrown ''Error'' ''PeerSession.sendBinary: bytes must be a Uint8Array'')))
              | _ \<Rightarrow> ((s, [], []), Some (Thrown ''Error'' ''PeerSession.sendBinary: mime must be a string'')))
        | _ \<Rightarrow> ((s, [], []), Some (Thrown ''Error'' ''PeerSession.sendBinary: addon must be a non-empty string''))))"

text \<open>\<open>addLocalTrack\<close>: the sender's id, and its \<open>remove\<close>.\<close>

definition addLocalTrack :: "nat \<Rightarrow> session \<Rightarrow> ps_result \<times> (err + jsstring)" where
  "addLocalTrack track s =
     (if ps_state s = SClosed \<or> ps_state s = SFailed
      then ((s, [], []), Inl (Thrown ''Error'' ''PeerSession.addLocalTrack: session is ''))
      else if \<not> ps_pc s
      then ((s, [], []), Inl (Thrown ''Error'' ''PeerSession.addLocalTrack: no peer connection''))
      else
        let n = (ps_nextSenderId s + 1) mod 0xFFFFFF in
        ((s\<lparr>ps_nextSenderId := n\<rparr>, [FAddTrack track], []), Inr (js ''s_'' @ radix_str 36 n)))"

definition removeLocalTrack :: "nat \<Rightarrow> session \<Rightarrow> ps_result" where
  "removeLocalTrack track s = (if \<not> ps_pc s then (s, [], []) else (s, [FRemoveTrack track], []))"

subsection \<open>Closing\<close>

text \<open>The \<open>finally\<close> of \<open>close\<close>.\<close>

definition close_finish :: "session \<Rightarrow> ps_result" where
  "close_finish s =
     (s\<lparr>ps_subscribed := False, ps_channel := False, ps_binChannel := False, ps_pc := False,
        ps_reasm := reasm_clear (ps_reasm s)\<rparr>,
      (if ps_subscribed s then [FUnsubscribe] else []) @ (if ps_channel s then [FCloseChannel] else [])
        @ (if ps_binChannel s then [FCloseBin] else []) @ (if ps_pc s then [FClosePc] else []), [])"

definition close_session :: "session \<Rightarrow> ps_result" where
  "close_session s =
     (if ps_state s = SClosed then (s, [], [])
      else
        let wasActive = (ps_state s \<noteq> SIdle);
            (s1, e1) = setState SClosed s
        in if wasActive then (s1, e1 @ [FPublish (Bye (ps_localPeerId s1))], [TCloseBye])
           else let (s2, e2, t2) = close_finish s1 in (s2, e1 @ e2, t2))"

subsection \<open>Handlers of the channels\<close>

definition channel_onopen :: "session \<Rightarrow> ps_result" where
  "channel_onopen s = (let (s', e) = setState SConnected s in (s', e, []))"

definition channel_onclose :: "session \<Rightarrow> ps_result" where
  "channel_onclose s =
     (if ps_state s \<noteq> SClosed then let (s', e) = setState SClosed s in (s', e, []) else (s, [], []))"

definition channel_onerror :: "string \<Rightarrow> session \<Rightarrow> ps_result" where
  "channel_onerror m s = (s, [EError m], [])"

text \<open>Only text is read from \<open>core.text\<close>.\<close>

definition channel_onmessage :: "jsval \<Rightarrow> session \<Rightarrow> ps_result" where
  "channel_onmessage data s = (case data of Str t \<Rightarrow> (s, [EText t], []) | _ \<Rightarrow> (s, [], []))"

datatype bin_data = ArrayBuffer bytes | Blob | OtherData

fun frame_effect :: "frame_event \<Rightarrow> effect" where
  "frame_effect (EvError m) = EError m"
| "frame_effect (EvBinary addon mime bs) = EBinary addon mime bs"

text \<open>A frame, its events; an error the handler throws is nobody's.\<close>

definition binary_frame :: "int \<Rightarrow> bytes \<Rightarrow> session \<Rightarrow> ps_result" where
  "binary_frame now buf s =
     (let (r, evs, e) = handleBinaryFrame now buf (ps_reasm s) in (s\<lparr>ps_reasm := r\<rparr>, map frame_effect evs, []))"

definition bin_onmessage :: "int \<Rightarrow> bin_data \<Rightarrow> session \<Rightarrow> ps_result" where
  "bin_onmessage now data s =
     (case data of
        ArrayBuffer buf \<Rightarrow> binary_frame now buf s
      | Blob \<Rightarrow> (s, [], [TBlob])
      | OtherData \<Rightarrow> (s, [EError ''PeerSession.bin: unexpected non-binary frame''], []))"

definition gc_tick :: "int \<Rightarrow> session \<Rightarrow> ps_result" where
  "gc_tick now s =
     (let (r, evs) = gcStaleReassemblies now (ps_reasm s) in (s\<lparr>ps_reasm := r\<rparr>, map frame_effect evs, []))"

subsection \<open>Signaling\<close>

text \<open>Whether a message passes the checks at the head of \<open>handleSignalingMessage\<close>.\<close>

definition message_for :: "session \<Rightarrow> sig_message \<Rightarrow> bool" where
  "message_for s m =
     (isPeerId (Str (msg_from m)) \<and> msg_from m \<noteq> ps_localPeerId s
      \<and> (case remote_of s of None \<Rightarrow> True | Some r \<Rightarrow> msg_from m = r)
      \<and> (case m of
           Answer f t d \<Rightarrow> isPeerId (Str t) \<and> t = ps_localPeerId s
         | Ice f t c \<Rightarrow> isPeerId (Str t) \<and> t = ps_localPeerId s
         | _ \<Rightarrow> True))"

definition learn_remote :: "jsstring \<Rightarrow> session \<Rightarrow> session" where
  "learn_remote f s = (if remote_of s = None then s\<lparr>ps_remotePeerId := Some f\<rparr> else s)"

text \<open>\<open>sg\<close> is \<open>pc.signalingState\<close>.\<close>

definition handleSignalingMessage :: "sig_state \<Rightarrow> sig_message \<Rightarrow> session \<Rightarrow> ps_result" where
  "handleSignalingMessage sg m s =
     (if \<not> message_for s m \<or> \<not> ps_pc s then (s, [], [])
      else (case m of
          Offer f sdp \<Rightarrow>
            (let offerCollision = (ps_makingOffer s \<or> (sg \<noteq> SgStable \<and> sg \<noteq> SgHaveRemoteOffer));
                 s1 = s\<lparr>ps_ignoreOffer := (\<not> isPolite s \<and> offerCollision)\<rparr>
             in if ps_ignoreOffer s1 then (s1, [], [])
                else (learn_remote f s1, [FSetRemote ''offer'' sdp], [TOfferRemote]))
        | Answer f t sdp \<Rightarrow> (learn_remote f s, [FSetRemote ''answer'' sdp], [TAnswerRemote])
        | Ice f t c \<Rightarrow> (s, [FAddIce c], [TIceAdd])
        | Bye f \<Rightarrow> close_session s))"

definition offer_applied :: "result_of \<Rightarrow> session \<Rightarrow> ps_result" where
  "offer_applied res s = (case res of Rejected m \<Rightarrow> (s, [EError m], []) | _ \<Rightarrow> (s, [FSetLocal], [TOfferLocal]))"

text \<open>The answer goes to \<open>this.remotePeerId\<close>, which an accepted offer has set.\<close>

definition offer_described :: "result_of \<Rightarrow> session \<Rightarrow> ps_result" where
  "offer_described res s =
     (case res of
        DoneDesc (Some sdp) \<Rightarrow>
          if sdp = [] then (s, [], [])
          else (s, [FPublish (Answer (ps_localPeerId s) (case ps_remotePeerId s of None \<Rightarrow> [] | Some r \<Rightarrow> r) sdp)], [TOfferPub])
      | Rejected m \<Rightarrow> (s, [EError m], [])
      | _ \<Rightarrow> (s, [], []))"

text \<open>An answer or a candidate that is refused is reported unless an offer was ignored.\<close>

definition remote_refused :: "result_of \<Rightarrow> session \<Rightarrow> ps_result" where
  "remote_refused res s =
     (case res of Rejected m \<Rightarrow> (s, if ps_ignoreOffer s then [] else [EError m], []) | _ \<Rightarrow> (s, [], []))"

definition publish_refused :: "result_of \<Rightarrow> session \<Rightarrow> ps_result" where
  "publish_refused res s = (case res of Rejected m \<Rightarrow> (s, [EError m], []) | _ \<Rightarrow> (s, [], []))"

subsection \<open>The machine\<close>

text \<open>A task goes on with what it waited for; \<open>now\<close> is the time it does.\<close>

definition resume :: "int \<Rightarrow> task \<Rightarrow> result_of \<Rightarrow> session \<Rightarrow> ps_result" where
  "resume now t res s =
     (case t of
        TNegDesc \<Rightarrow> negotiation_described res s
      | TNegPub \<Rightarrow> negotiation_published res s
      | TOfferRemote \<Rightarrow> offer_applied res s
      | TOfferLocal \<Rightarrow> offer_described res s
      | TOfferPub \<Rightarrow> publish_refused res s
      | TAnswerRemote \<Rightarrow> remote_refused res s
      | TIceAdd \<Rightarrow> remote_refused res s
      | TIcePub \<Rightarrow> publish_refused res s
      | TCloseBye \<Rightarrow> close_finish s
      | TBlob \<Rightarrow> (case res of DoneBytes b \<Rightarrow> binary_frame now b s | _ \<Rightarrow> (s, [], [])))"

datatype ps_event =
    CallStart bool
  | CallSendText jsstring bool
  | CallSendBinary int binary_message bool
  | CallAddTrack nat
  | CallRemoveTrack nat
  | CallClose
  | PcCandidate "jsval option"
  | PcState conn_state
  | PcTrack track_kind nat
  | PcTrackEnded track_kind nat
  | PcNegotiation
  | PcChannel jsstring
  | ChOpen | ChClose | ChError string | ChMessage jsval
  | BinError string | BinMessage int bin_data
  | GcTick int
  | Incoming sig_state sig_message
  | Resume int nat result_of

record ps_config =
  cf_session :: session
  cf_tasks :: "task list"

text \<open>
  Which events can happen: calls always; events of the peer connection once it is made and until it is
  closed (a candidate prints as an object), those of a channel while it is bound; the timer while it runs; messages while subscribed.
\<close>

definition enabled :: "ps_event \<Rightarrow> ps_config \<Rightarrow> bool" where
  "enabled ev c =
     (let s = cf_session c in
      case ev of
        PcCandidate cand \<Rightarrow> ps_pc s \<and> (\<forall>x. cand = Some x \<longrightarrow> is_objecty x)
      | PcState _ \<Rightarrow> ps_pc s
      | PcTrack _ _ \<Rightarrow> ps_pc s
      | PcTrackEnded _ _ \<Rightarrow> ps_pc s
      | PcNegotiation \<Rightarrow> ps_pc s
      | PcChannel _ \<Rightarrow> ps_pc s \<and> ps_role s = Joiner
      | ChOpen \<Rightarrow> ps_channel s | ChClose \<Rightarrow> ps_channel s | ChError _ \<Rightarrow> ps_channel s | ChMessage _ \<Rightarrow> ps_channel s
      | BinError _ \<Rightarrow> ps_binChannel s | BinMessage _ _ \<Rightarrow> ps_binChannel s
      | GcTick _ \<Rightarrow> reassemblyGcTimer (ps_reasm s)
      | Incoming _ _ \<Rightarrow> ps_subscribed s
      | Resume _ n _ \<Rightarrow> n < length (cf_tasks c)
      | _ \<Rightarrow> True)"

definition run_event :: "ps_event \<Rightarrow> ps_config \<Rightarrow> ps_result" where
  "run_event ev c =
     (let s = cf_session c in
      case ev of
        CallStart ok \<Rightarrow> fst (start ok s)
      | CallSendText t op \<Rightarrow> fst (sendText t op s)
      | CallSendBinary now m op \<Rightarrow> fst (sendBinary now m op s)
      | CallAddTrack n \<Rightarrow> fst (addLocalTrack n s)
      | CallRemoveTrack n \<Rightarrow> removeLocalTrack n s
      | CallClose \<Rightarrow> close_session s
      | PcCandidate cand \<Rightarrow> onicecandidate cand s
      | PcState cs \<Rightarrow> onconnectionstatechange cs s
      | PcTrack k n \<Rightarrow> ontrack k n s
      | PcTrackEnded k n \<Rightarrow> ontrack_ended k n s
      | PcNegotiation \<Rightarrow> runNegotiation s
      | PcChannel l \<Rightarrow> ondatachannel l s
      | ChOpen \<Rightarrow> channel_onopen s
      | ChClose \<Rightarrow> channel_onclose s
      | ChError m \<Rightarrow> channel_onerror m s
      | ChMessage d \<Rightarrow> channel_onmessage d s
      | BinError m \<Rightarrow> channel_onerror m s
      | BinMessage now d \<Rightarrow> bin_onmessage now d s
      | GcTick now \<Rightarrow> gc_tick now s
      | Incoming sg m \<Rightarrow> handleSignalingMessage sg m s
      | Resume now n res \<Rightarrow> resume now (cf_tasks c ! n) res s)"

definition tasks_after :: "ps_event \<Rightarrow> task list \<Rightarrow> task list" where
  "tasks_after ev ts = (case ev of Resume _ n _ \<Rightarrow> take n ts @ drop (Suc n) ts | _ \<Rightarrow> ts)"

definition ps_next :: "ps_event \<Rightarrow> ps_config \<Rightarrow> ps_config \<times> effect list" where
  "ps_next ev c =
     (let (s, es, ts) = run_event ev c in
      (\<lparr>cf_session = s, cf_tasks = tasks_after ev (cf_tasks c) @ ts\<rparr>, es))"

inductive ps_step :: "ps_config \<Rightarrow> ps_event \<times> effect list \<Rightarrow> ps_config \<Rightarrow> bool" where
  "enabled ev c \<Longrightarrow> ps_next ev c = (c', es) \<Longrightarrow> ps_step c (ev, es) c'"

inductive_cases ps_stepE: "ps_step c (ev, es) c'"
inductive_simps ps_step_iff: "ps_step c (ev, es) c'"

definition initial :: "ps_config \<Rightarrow> bool" where
  "initial c = (\<exists>role room me rem. c = \<lparr>cf_session = new_session role room me rem, cf_tasks = []\<rparr>)"

text \<open>What a session can come to, with all it has done on the way.\<close>

inductive reached :: "ps_config \<Rightarrow> effect list \<Rightarrow> ps_config \<Rightarrow> bool" for c0 where
  reached_start: "reached c0 [] c0"
| reached_step: "reached c0 es c \<Longrightarrow> ps_step c (ev, es') c' \<Longrightarrow> reached c0 (es @ es') c'"

text \<open>A run of given events, each of which has to be enabled.\<close>

fun ps_run :: "ps_event list \<Rightarrow> ps_config \<Rightarrow> (ps_config \<times> effect list) option" where
  "ps_run [] c = Some (c, [])"
| "ps_run (ev # evs) c =
     (if enabled ev c
      then let (c1, es) = ps_next ev c in map_option (apsnd (append es)) (ps_run evs c1)
      else None)"

lemma ps_run_reached: "reached c0 es0 c \<Longrightarrow> ps_run evs c = Some (c', es) \<Longrightarrow> reached c0 (es0 @ es) c'"
proof (induction evs arbitrary: es0 c es)
  case (Cons ev evs)
  obtain c1 es1 where n: "ps_next ev c = (c1, es1)" by (cases "ps_next ev c")
  with Cons.prems(2) obtain es2 where en: "enabled ev c" and r: "ps_run evs c1 = Some (c', es2)" and es: "es = es1 @ es2"
    by (auto split: if_splits)
  have "ps_step c (ev, es1) c1" using en n by (simp add: ps_step_iff)
  then have "reached c0 (es0 @ es1) c1" by (rule reached_step [OF Cons.prems(1)])
  from Cons.IH [OF this r] show ?case by (simp add: es)
qed simp

end
