(* ===== verification/Peer_Session_Props.thy ===== *)
theory Peer_Session_Props
  imports Peer_Session
begin

text \<open>
  Properties of the peer session: what no step changes, the status machine, who it publishes to and
  as whom, what the reassembly keeps, negotiation, closing, and the delivery of a binary message from
  one session to another.
\<close>

lemmas ps_ops = start_def onicecandidate_def onconnectionstatechange_def ontrack_def ontrack_ended_def
  ondatachannel_def runNegotiation_def negotiation_described_def negotiation_published_def
  sendText_def sendBinary_def addLocalTrack_def removeLocalTrack_def close_finish_def close_session_def
  channel_onopen_def channel_onclose_def channel_onerror_def channel_onmessage_def
  binary_frame_def bin_onmessage_def gc_tick_def handleSignalingMessage_def offer_applied_def
  offer_described_def remote_refused_def publish_refused_def resume_def
  bindDataChannel_def bindBinaryChannel_def learn_remote_def setState_def

lemmas ps_splits = if_splits option.splits jsval.splits sig_message.splits result_of.splits prod.splits
  bin_data.splits task.splits

text \<open>The result of an event on a session, whatever the tasks; the first component of \<open>run_event\<close>.\<close>

definition after :: "ps_event \<Rightarrow> ps_config \<Rightarrow> session" where
  "after ev c = fst (run_event ev c)"

definition effects :: "ps_event \<Rightarrow> ps_config \<Rightarrow> effect list" where
  "effects ev c = fst (snd (run_event ev c))"

definition spawned :: "ps_event \<Rightarrow> ps_config \<Rightarrow> task list" where
  "spawned ev c = snd (snd (run_event ev c))"

lemma ps_step_unfold:
  "ps_step c (ev, es) c' \<longleftrightarrow> enabled ev c \<and> es = effects ev c \<and>
     c' = \<lparr>cf_session = after ev c, cf_tasks = tasks_after ev (cf_tasks c) @ spawned ev c\<rparr>"
  by (auto simp: ps_step_iff ps_next_def after_def effects_def spawned_def split_beta)

subsection \<open>What no step changes\<close>

definition same_identity :: "session \<Rightarrow> session \<Rightarrow> bool" where
  "same_identity s s' = (ps_role s' = ps_role s \<and> ps_roomId s' = ps_roomId s
     \<and> ps_localPeerId s' = ps_localPeerId s
     \<and> (remote_of s \<noteq> None \<longrightarrow> ps_remotePeerId s' = ps_remotePeerId s))"

lemma same_identity_refl [simp]: "same_identity s s"
  by (simp add: same_identity_def)

lemma remote_of_upd [simp]:
  "remote_of (s\<lparr>ps_pc := a\<rparr>) = remote_of s" "remote_of (s\<lparr>ps_channel := a\<rparr>) = remote_of s"
  "remote_of (s\<lparr>ps_binChannel := a\<rparr>) = remote_of s" "remote_of (s\<lparr>ps_subscribed := a\<rparr>) = remote_of s"
  "remote_of (s\<lparr>ps_reasm := r\<rparr>) = remote_of s" "remote_of (s\<lparr>ps_nextSendId := n\<rparr>) = remote_of s"
  "remote_of (s\<lparr>ps_state := st\<rparr>) = remote_of s" "remote_of (s\<lparr>ps_nextSenderId := n\<rparr>) = remote_of s"
  "remote_of (s\<lparr>ps_makingOffer := a\<rparr>) = remote_of s" "remote_of (s\<lparr>ps_ignoreOffer := a\<rparr>) = remote_of s"
  by (simp_all add: remote_of_def)

lemma resume_identity: "same_identity s (fst (resume now t res s))"
  by (cases t) (auto simp: ps_ops same_identity_def split: ps_splits)

text \<open>Whatever \<open>sendBinary\<close> does, it sends some frames and moves the message counter.\<close>

lemma sendBinary_shape:
  "\<exists>n fs e. sendBinary now m op s = ((s\<lparr>ps_nextSendId := n\<rparr>, map FSendFrame fs, []), e)"
proof -
  have idle: "\<exists>n fs e'. ((s, [], []), e) = ((s\<lparr>ps_nextSendId := n\<rparr>, map FSendFrame fs, []), e')" for e :: "err option"
    by (intro exI [of _ "ps_nextSendId s"] exI [of _ "[]"] exI [of _ e]) simp
  show ?thesis
    unfolding sendBinary_def
    by (auto simp: split_beta Let_def idle [simplified] split: jsval.split intro: idle)
qed

lemma after_identity: "same_identity (cf_session c) (after ev c)"
proof (cases ev)
  case (Resume now n res)
  then show ?thesis by (simp add: after_def run_event_def resume_identity)
next
  case (CallSendBinary now m op)
  then show ?thesis
    using sendBinary_shape [of now m op "cf_session c"] by (auto simp: after_def run_event_def same_identity_def)
qed (auto simp: after_def run_event_def ps_ops same_identity_def Let_def split: ps_splits)

subsection \<open>The reassembly\<close>

lemma binary_frame_reasm: "reasm_ok (ps_reasm s) \<Longrightarrow> reasm_ok (ps_reasm (fst (binary_frame now buf s)))"
proof -
  assume ok: "reasm_ok (ps_reasm s)"
  obtain r evs e where h: "handleBinaryFrame now buf (ps_reasm s) = (r, evs, e)"
    by (cases "handleBinaryFrame now buf (ps_reasm s)")
  show ?thesis using handleBinaryFrame_ok [OF ok h] by (simp add: binary_frame_def h)
qed

lemma resume_reasm: "reasm_ok (ps_reasm s) \<Longrightarrow> reasm_ok (ps_reasm (fst (resume now t res s)))"
proof (cases t)
  case TBlob
  assume "reasm_ok (ps_reasm s)"
  with TBlob binary_frame_reasm show ?thesis by (cases res) (auto simp: resume_def)
qed (auto simp: ps_ops split: ps_splits)

theorem step_reasm:
  assumes "ps_step c (ev, es) c'" "reasm_ok (ps_reasm (cf_session c))"
  shows "reasm_ok (ps_reasm (cf_session c'))"
proof -
  have "reasm_ok (ps_reasm (after ev c))"
  proof (cases ev)
    case (Resume now n res)
    with assms(2) show ?thesis by (simp add: after_def run_event_def resume_reasm)
  next
    case (CallSendBinary now m op)
    with assms(2) sendBinary_shape [of now m op "cf_session c"] show ?thesis
      by (auto simp: after_def run_event_def)
  next
    case (BinMessage now d)
    with assms(2) show ?thesis
      by (cases d) (auto simp: after_def run_event_def bin_onmessage_def binary_frame_reasm)
  next
    case (GcTick now)
    then show ?thesis
      using gcStaleReassemblies_ok [OF assms(2), of now]
      by (simp add: after_def run_event_def gc_tick_def split_beta Let_def)
  qed (use assms(2) in \<open>auto simp: after_def run_event_def ps_ops Let_def split: ps_splits\<close>)
  then show ?thesis using assms(1) by (simp add: ps_step_unfold)
qed

subsection \<open>Status\<close>

definition statuses :: "effect list \<Rightarrow> ps_status list" where
  "statuses es = List.map_filter (\<lambda>e. case e of EState st \<Rightarrow> Some st | _ \<Rightarrow> None) es"

lemma statuses_simps [simp]:
  "statuses [] = []" "statuses (EState st # es) = st # statuses es"
  "statuses (EText t # es) = statuses es" "statuses (EError m # es) = statuses es"
  "statuses (FPublish p # es) = statuses es" "statuses (FSetLocal # es) = statuses es"
  "statuses (FSetRemote k d # es) = statuses es" "statuses (FAddIce x # es) = statuses es"
  "statuses (FNewPeerConnection # es) = statuses es" "statuses (FCreateChannel l # es) = statuses es"
  "statuses (FSubscribe # es) = statuses es" "statuses (FUnsubscribe # es) = statuses es"
  "statuses (FCloseIncoming # es) = statuses es" "statuses (FCloseChannel # es) = statuses es"
  "statuses (FCloseBin # es) = statuses es" "statuses (FClosePc # es) = statuses es"
  "statuses (ETrack kd n # es) = statuses es" "statuses (ETrackEnded kd n # es) = statuses es"
  "statuses (FAddTrack n # es) = statuses es" "statuses (FRemoveTrack n # es) = statuses es"
  "statuses (FSendText t # es) = statuses es"
  by (simp_all add: statuses_def List.map_filter_def)

lemma statuses_append [simp]: "statuses (es @ fs) = statuses es @ statuses fs"
  by (simp add: statuses_def List.map_filter_def)

lemma statuses_frames [simp]: "statuses (map FSendFrame fs) = []"
  by (induction fs) (simp_all add: statuses_def List.map_filter_def)

lemma statuses_frame_events [simp]: "statuses (map frame_effect evs) = []"
proof (induction evs)
  case (Cons e evs)
  then show ?case by (cases e) (simp_all add: statuses_def List.map_filter_def)
qed simp

text \<open>Before \<open>start\<close> nothing is made; without a peer connection there are no channels and no
subscription.\<close>

definition made_ok :: "ps_config \<Rightarrow> bool" where
  "made_ok c = (let s = cf_session c in
     (ps_state s = SIdle \<longrightarrow> \<not> ps_pc s \<and> cf_tasks c = []) \<and>
     (\<not> ps_pc s \<longrightarrow> \<not> ps_channel s \<and> \<not> ps_binChannel s \<and> \<not> ps_subscribed s))"

text \<open>The status changes the session can announce.\<close>

definition legal :: "ps_status \<Rightarrow> ps_status \<Rightarrow> bool" where
  "legal a b = (a \<noteq> b \<and> b \<noteq> SIdle \<and> (b = SConnecting \<longrightarrow> a = SIdle)
     \<and> (a = SIdle \<longrightarrow> b = SConnecting \<or> b = SClosed) \<and> (a = SClosed \<longrightarrow> b = SConnected))"

text \<open>What one event does to the status.\<close>

definition status_step :: "session \<Rightarrow> session \<Rightarrow> effect list \<Rightarrow> bool" where
  "status_step s s' es =
     ((statuses es = [] \<and> ps_state s' = ps_state s) \<or>
      (statuses es = [ps_state s'] \<and> legal (ps_state s) (ps_state s')))"

lemma resume_status: "status_step s (fst (resume now t res s)) (fst (snd (resume now t res s)))"
  by (cases t) (auto simp: ps_ops status_step_def split: ps_splits)

lemma event_status:
  assumes "enabled ev c" "made_ok c"
  shows "status_step (cf_session c) (after ev c) (effects ev c)"
proof (cases ev)
  case (Resume now n res)
  then show ?thesis by (simp add: after_def effects_def run_event_def resume_status)
next
  case (CallSendBinary now m op)
  then show ?thesis
    using sendBinary_shape [of now m op "cf_session c"]
    by (auto simp: after_def effects_def run_event_def status_step_def)
qed (use assms in \<open>auto simp: after_def effects_def run_event_def enabled_def made_ok_def ps_ops Let_def
      status_step_def legal_def split: ps_splits\<close>)

lemma resume_made:
  "made_ok c \<Longrightarrow> t \<in> set (cf_tasks c) \<Longrightarrow> s' = fst (resume now t res (cf_session c)) \<Longrightarrow>
   ps_state s' \<noteq> SIdle \<and> (\<not> ps_pc s' \<longrightarrow> \<not> ps_channel s' \<and> \<not> ps_binChannel s' \<and> \<not> ps_subscribed s')"
  by (cases t) (auto simp: made_ok_def ps_ops Let_def split: ps_splits)

lemma step_made:
  assumes "ps_step c (ev, es) c'" "made_ok c"
  shows "made_ok c'"
proof (cases ev)
  case (Resume now n res)
  then have "n < length (cf_tasks c)" using assms(1) by (simp add: ps_step_unfold enabled_def)
  then show ?thesis
    using resume_made [OF assms(2), of "cf_tasks c ! n" _ now res] assms(1) Resume
    by (simp add: ps_step_unfold made_ok_def after_def run_event_def Let_def)
next
  case (CallSendBinary now m op)
  then show ?thesis
    using sendBinary_shape [of now m op "cf_session c"] assms
    by (auto simp: ps_step_unfold made_ok_def after_def spawned_def run_event_def tasks_after_def Let_def)
next
  case (Incoming sg m)
  then show ?thesis
    using assms
    by (auto simp: ps_step_unfold made_ok_def after_def spawned_def run_event_def tasks_after_def enabled_def ps_ops Let_def
        split: ps_splits)
qed (use assms in \<open>auto simp: ps_step_unfold made_ok_def after_def spawned_def run_event_def tasks_after_def
      enabled_def ps_ops Let_def split: ps_splits\<close>)

lemma initial_made: "initial c \<Longrightarrow> made_ok c"
  by (auto simp: initial_def made_ok_def new_session_def)

lemma reached_made: "reached c0 es c \<Longrightarrow> initial c0 \<Longrightarrow> made_ok c"
  by (induction rule: reached.induct) (auto intro: initial_made step_made)

text \<open>The announced statuses lead from \<open>idle\<close> to the status, each by a legal change.\<close>

theorem reached_statuses:
  assumes "initial c0" "reached c0 es c"
  shows "last (SIdle # statuses es) = ps_state (cf_session c) \<and> successively legal (SIdle # statuses es)"
  using assms(2,1)
proof (induction rule: reached.induct)
  case reached_start
  then show ?case by (auto simp: initial_def new_session_def)
next
  case (reached_step es c ev es' c')
  from reached_step.hyps(2) have st: "enabled ev c" "es' = effects ev c" "cf_session c' = after ev c"
    by (auto simp: ps_step_unfold)
  then have ss: "status_step (cf_session c) (cf_session c') es'"
    using event_status [OF st(1) reached_made [OF reached_step.hyps(1) reached_step.prems]] by simp
  note ih = reached_step.IH [OF reached_step.prems]
  with ss have "successively legal ((SIdle # statuses es) @ statuses es')"
    unfolding successively_append_iff by (auto simp: status_step_def split: if_splits)
  moreover have "last ((SIdle # statuses es) @ statuses es') = ps_state (cf_session c')"
    using ih ss by (auto simp: status_step_def)
  ultimately show ?case by simp
qed

theorem reached_reasm: "reached c0 es c \<Longrightarrow> initial c0 \<Longrightarrow> reasm_ok (ps_reasm (cf_session c))"
  by (induction rule: reached.induct) (auto simp: initial_def new_session_def intro: step_reasm)

subsection \<open>Publications\<close>

lemma peer_id_not_Nil: "isPeerId (Str f) \<Longrightarrow> f \<noteq> []"
  by (auto simp: ID_PATTERN_def)

text \<open>A task that will publish an answer knows to whom.\<close>

definition remote_known :: "ps_config \<Rightarrow> bool" where
  "remote_known c = ((TOfferRemote \<in> set (cf_tasks c) \<or> TOfferLocal \<in> set (cf_tasks c)) \<longrightarrow>
     remote_of (cf_session c) \<noteq> None)"

definition remote_valid :: "session \<Rightarrow> bool" where
  "remote_valid s = (\<forall>r. remote_of s = Some r \<longrightarrow> isPeerId (Str r))"

text \<open>What a session may publish: as itself, to its remote peer, with a description that is not
empty.\<close>

definition publishes_ok :: "session \<Rightarrow> sig_message \<Rightarrow> bool" where
  "publishes_ok s m = (msg_from m = ps_localPeerId s \<and>
     (case m of
        Offer f d \<Rightarrow> d \<noteq> []
      | Answer f t d \<Rightarrow> remote_of s = Some t \<and> d \<noteq> []
      | Ice f t cand \<Rightarrow> remote_of s = Some t \<and> is_objecty cand
      | Bye f \<Rightarrow> True))"

lemma remote_of_learned: "isPeerId (Str f) \<Longrightarrow> remote_of s = None \<Longrightarrow> remote_of (s\<lparr>ps_remotePeerId := Some f\<rparr>) = Some f"
  using peer_id_not_Nil [of f] by (simp add: remote_of_def)

lemma remote_of_same: "same_identity s s' \<Longrightarrow> remote_of s = Some r \<Longrightarrow> remote_of s' = Some r"
  by (simp add: same_identity_def remote_of_def split: option.splits)

lemma no_publish_frames [simp]: "FPublish m \<notin> frame_effect ` evs"
proof
  assume "FPublish m \<in> frame_effect ` evs"
  then obtain e where "FPublish m = frame_effect e" by blast
  then show False by (cases e) auto
qed

lemma binary_frame_no_publish [simp]: "FPublish m \<notin> set (fst (snd (binary_frame now buf s)))"
  by (simp add: binary_frame_def split_beta)

lemma resume_publishes:
  assumes "remote_known c" "t \<in> set (cf_tasks c)" "FPublish m \<in> set (fst (snd (resume now t res (cf_session c))))"
  shows "publishes_ok (cf_session c) m"
proof (cases t)
  case TBlob
  with assms(3) show ?thesis by (cases res) (auto simp: resume_def)
qed (use assms in \<open>auto simp: ps_ops publishes_ok_def remote_known_def remote_of_def split: ps_splits\<close>)

lemma event_publishes:
  assumes "enabled ev c" "remote_known c" "FPublish m \<in> set (effects ev c)"
  shows "publishes_ok (cf_session c) m"
proof (cases ev)
  case (Resume now n res)
  then have "cf_tasks c ! n \<in> set (cf_tasks c)" using assms(1) by (simp add: enabled_def)
  with Resume assms(2,3) show ?thesis
    by (intro resume_publishes) (auto simp: effects_def run_event_def)
next
  case (CallSendBinary now m' op)
  with assms(3) sendBinary_shape [of now m' op "cf_session c"] show ?thesis
    by (auto simp: effects_def run_event_def)
next
  case (BinMessage now d)
  with assms(3) show ?thesis
    by (cases d) (auto simp: effects_def run_event_def bin_onmessage_def)
next
  case (GcTick now)
  with assms(3) show ?thesis
    by (simp add: effects_def run_event_def gc_tick_def split_beta Let_def)
next
  case (PcCandidate cand)
  with assms(1,3) show ?thesis
    by (auto simp: effects_def run_event_def onicecandidate_def enabled_def publishes_ok_def Let_def split: option.splits)
qed (use assms(3) in \<open>auto simp: effects_def run_event_def ps_ops publishes_ok_def Let_def split: ps_splits\<close>)

lemma resume_remote_known:
  "remote_known c \<Longrightarrow> t \<in> set (cf_tasks c) \<Longrightarrow> x \<in> set (snd (snd (resume now t res (cf_session c)))) \<Longrightarrow>
   x = TOfferRemote \<or> x = TOfferLocal \<Longrightarrow> remote_of (cf_session c) \<noteq> None"
  by (cases t) (auto simp: ps_ops remote_known_def split: ps_splits)

lemma spawned_remote:
  assumes "enabled ev c" "remote_known c" "x \<in> set (spawned ev c)" "x = TOfferRemote \<or> x = TOfferLocal"
  shows "remote_of (after ev c) \<noteq> None"
proof (cases ev)
  case (Resume now n res)
  then have "cf_tasks c ! n \<in> set (cf_tasks c)" using assms(1) by (simp add: enabled_def)
  then have "remote_of (cf_session c) \<noteq> None"
    using resume_remote_known [OF assms(2), of "cf_tasks c ! n" x now res] assms(3,4) Resume
    by (simp add: spawned_def run_event_def)
  then show ?thesis using remote_of_same [OF after_identity [of c ev]] by auto
next
  case (CallSendBinary now m' op)
  with assms(3) sendBinary_shape [of now m' op "cf_session c"] show ?thesis
    by (auto simp: spawned_def run_event_def)
next
  case (Incoming sg m)
  show ?thesis
  proof (cases "remote_of (cf_session c)")
    case None
    with assms(3,4) Incoming show ?thesis
      by (auto simp: spawned_def after_def run_event_def handleSignalingMessage_def message_for_def learn_remote_def
          close_session_def close_finish_def setState_def Let_def remote_of_learned split: ps_splits)
  next
    case (Some r)
    with remote_of_same [OF after_identity [of c ev]] show ?thesis by auto
  qed
qed (use assms(3,4) in \<open>auto simp: spawned_def run_event_def ps_ops Let_def split: ps_splits\<close>)

lemma step_remote_known:
  assumes "ps_step c (ev, es) c'" "remote_known c"
  shows "remote_known c'"
proof -
  have "set (tasks_after ev (cf_tasks c)) \<subseteq> set (cf_tasks c)"
    by (cases ev) (auto simp: tasks_after_def dest: in_set_takeD in_set_dropD)
  then show ?thesis
    using assms spawned_remote [of ev c] remote_of_same [OF after_identity [of c ev]]
    by (auto simp: ps_step_unfold remote_known_def)
qed

lemma publishes_ok_identity:
  "same_identity s s' \<Longrightarrow> publishes_ok s m \<Longrightarrow> publishes_ok s' m"
  using remote_of_same [of s s'] by (cases m) (auto simp: publishes_ok_def same_identity_def)

lemma same_identity_trans: "same_identity a b \<Longrightarrow> same_identity b c \<Longrightarrow> same_identity a c"
  by (auto simp: same_identity_def remote_of_def split: option.splits)

text \<open>All that a session ever published is its own, and went to its remote peer.\<close>

theorem reached_publishes:
  assumes "initial c0" "reached c0 es c"
  shows "\<forall>m. FPublish m \<in> set es \<longrightarrow> publishes_ok (cf_session c) m"
proof -
  have "remote_known c \<and> (\<forall>m. FPublish m \<in> set es \<longrightarrow> publishes_ok (cf_session c) m)"
    using assms(2,1)
  proof (induction rule: reached.induct)
    case reached_start
    then show ?case by (auto simp: initial_def remote_known_def)
  next
    case (reached_step es c ev es' c')
    from reached_step.hyps(2) have st: "enabled ev c" "es' = effects ev c" "cf_session c' = after ev c"
      by (auto simp: ps_step_unfold)
    note ih = reached_step.IH [OF reached_step.prems]
    have id: "same_identity (cf_session c) (cf_session c')" using st(3) after_identity by simp
    have "\<forall>m. FPublish m \<in> set (es @ es') \<longrightarrow> publishes_ok (cf_session c) m"
      using ih event_publishes [OF st(1)] st(2) by auto
    then show ?case
      using step_remote_known [OF reached_step.hyps(2)] ih publishes_ok_identity [OF id] by blast
  qed
  then show ?thesis by blast
qed

text \<open>The remote peer's id, given or learned, is a peer id; so what is published validates.\<close>

lemma resume_remote_valid: "remote_valid s \<Longrightarrow> remote_valid (fst (resume now t res s))"
  using resume_identity [of s now t res]
  by (cases t) (auto simp: remote_valid_def ps_ops split: ps_splits)

lemma step_remote_valid:
  assumes "ps_step c (ev, es) c'" "remote_valid (cf_session c)"
  shows "remote_valid (cf_session c')"
proof (cases "remote_of (cf_session c)")
  case (Some r)
  with assms remote_of_same [OF after_identity [of c ev] Some] show ?thesis
    by (simp add: ps_step_unfold remote_valid_def)
next
  case None
  have "remote_valid (after ev c)"
  proof (cases ev)
    case (Resume now n res)
    with assms(2) show ?thesis by (simp add: after_def run_event_def resume_remote_valid)
  next
    case (CallSendBinary now m op)
    with assms(2) sendBinary_shape [of now m op "cf_session c"] show ?thesis
      by (auto simp: after_def run_event_def remote_valid_def)
  next
    case (Incoming sg m)
    with None show ?thesis
      by (auto simp: after_def run_event_def handleSignalingMessage_def message_for_def learn_remote_def
          close_session_def close_finish_def setState_def Let_def remote_valid_def remote_of_learned split: ps_splits)
  qed (use None in \<open>auto simp: after_def run_event_def ps_ops Let_def remote_valid_def split: ps_splits\<close>)
  with assms(1) show ?thesis by (simp add: ps_step_unfold)
qed

lemma reached_remote_valid:
  "reached c0 es c \<Longrightarrow> remote_valid (cf_session c0) \<Longrightarrow> remote_valid (cf_session c)"
  by (induction rule: reached.induct) (auto intro: step_remote_valid)

lemma reached_identity: "reached c0 es c \<Longrightarrow> same_identity (cf_session c0) (cf_session c)"
proof (induction rule: reached.induct)
  case (reached_step es c ev es' c')
  then have "same_identity (cf_session c) (cf_session c')"
    using after_identity [of c ev] by (auto simp: ps_step_unfold)
  with reached_step.IH show ?case by (rule same_identity_trans)
qed simp

lemma publishes_valid:
  "publishes_ok s m \<Longrightarrow> isPeerId (Str (ps_localPeerId s)) \<Longrightarrow> remote_valid s \<Longrightarrow> msg_ok m"
  by (cases m) (auto simp: publishes_ok_def remote_valid_def simp del: isPeerId.simps)

theorem reached_publishes_valid:
  assumes "reached \<lparr>cf_session = new_session role room me rem, cf_tasks = []\<rparr> es c"
    and "isPeerId (Str me)" "\<forall>r. rem = Some r \<longrightarrow> isPeerId (Str r)" "FPublish m \<in> set es"
  shows "validateMessage (msg_val m) i = Inr m \<and> msg_from m = me"
proof -
  let ?c0 = "\<lparr>cf_session = new_session role room me rem, cf_tasks = []\<rparr>"
  have init: "initial ?c0" by (auto simp: initial_def)
  have "publishes_ok (cf_session c) m" using reached_publishes [OF init assms(1)] assms(4) by blast
  moreover have "same_identity (cf_session ?c0) (cf_session c)" by (rule reached_identity [OF assms(1)])
  then have me: "ps_localPeerId (cf_session c) = me" by (simp add: same_identity_def new_session_def)
  moreover have "remote_valid (cf_session ?c0)"
    using assms(3) by (auto simp: remote_valid_def new_session_def remote_of_def split: option.splits if_splits)
  then have "remote_valid (cf_session c)" by (rule reached_remote_valid [OF assms(1)])
  ultimately show ?thesis
    using publishes_valid [of "cf_session c" m] assms(2) by (simp add: validateMessage_val publishes_ok_def)
qed

subsection \<open>Closing\<close>

definition released :: "session \<Rightarrow> bool" where
  "released s = (ps_state s \<noteq> SIdle \<and> \<not> ps_pc s \<and> \<not> ps_channel s \<and> \<not> ps_binChannel s \<and> \<not> ps_subscribed s)"

lemma resume_released: "released s \<Longrightarrow> released (fst (resume now t res s))"
  by (cases t) (auto simp: ps_ops released_def split: ps_splits)

lemma step_released:
  assumes "ps_step c (ev, es) c'" "released (cf_session c)"
  shows "released (cf_session c')"
proof -
  have "released (after ev c)"
  proof (cases ev)
    case (Resume now n res)
    with assms(2) show ?thesis by (simp add: after_def run_event_def resume_released)
  next
    case (CallSendBinary now m op)
    with assms(2) sendBinary_shape [of now m op "cf_session c"] show ?thesis
      by (auto simp: after_def run_event_def released_def)
  next
    case (Incoming sg m)
    with assms show ?thesis by (auto simp: ps_step_unfold enabled_def released_def)
  qed (use assms in \<open>auto simp: ps_step_unfold after_def run_event_def enabled_def ps_ops Let_def released_def
        split: ps_splits\<close>)
  then show ?thesis using assms(1) by (simp add: ps_step_unfold)
qed

text \<open>When the \<open>bye\<close> of \<open>close\<close> is done, however it went, everything is released for good.\<close>

theorem close_releases:
  assumes "initial c0" "reached c0 es0 c" "n < length (cf_tasks c)" "cf_tasks c ! n = TCloseBye"
    and "ps_step c (Resume now n res, es) c1" "reached c1 es2 c2"
  shows "released (cf_session c2)"
proof -
  have "made_ok c" using reached_made assms(1,2) by blast
  moreover have "cf_tasks c \<noteq> []" using assms(3) by auto
  ultimately have "ps_state (cf_session c) \<noteq> SIdle" by (auto simp: made_ok_def Let_def)
  then have r1: "released (cf_session c1)"
    using assms(4,5) by (simp add: ps_step_unfold after_def run_event_def resume_def close_finish_def released_def Let_def)
  show ?thesis
    using assms(6) r1 by (induction rule: reached.induct) (auto intro: step_released)
qed

text \<open>Calling \<open>close\<close> on an active session announces it, says \<open>bye\<close> and leaves that task.\<close>

theorem close_starts:
  assumes "ps_state (cf_session c) \<notin> {SIdle, SClosed}"
  shows "ps_step c (CallClose, [EState SClosed, FPublish (Bye (ps_localPeerId (cf_session c)))])
    \<lparr>cf_session = (cf_session c)\<lparr>ps_state := SClosed\<rparr>, cf_tasks = cf_tasks c @ [TCloseBye]\<rparr>"
  using assms by (simp add: ps_step_iff enabled_def ps_next_def run_event_def close_session_def setState_def
      tasks_after_def Let_def)

text \<open>A session closed by its channel is not closed again: \<open>close\<close> and \<open>bye\<close> do nothing to it.\<close>

lemma close_closed: "ps_state s = SClosed \<Longrightarrow> close_session s = (s, [], [])"
  by (simp add: close_session_def)

theorem remote_close_leaks:
  assumes "ps_channel s" "ps_state s \<noteq> SClosed"
  shows "channel_onclose s = (s\<lparr>ps_state := SClosed\<rparr>, [EState SClosed], [])
    \<and> close_session (s\<lparr>ps_state := SClosed\<rparr>) = (s\<lparr>ps_state := SClosed\<rparr>, [], [])"
  using assms by (simp add: channel_onclose_def setState_def close_session_def)

subsection \<open>Signaling messages that are not for the session\<close>

theorem foreign_message_ignored:
  assumes "msg_from m = ps_localPeerId s \<or> \<not> isPeerId (Str (msg_from m))
    \<or> (\<exists>r. remote_of s = Some r \<and> msg_from m \<noteq> r)
    \<or> (case m of Answer f t d \<Rightarrow> t \<noteq> ps_localPeerId s | Ice f t x \<Rightarrow> t \<noteq> ps_localPeerId s | _ \<Rightarrow> False)"
  shows "handleSignalingMessage sg m s = (s, [], [])"
proof -
  have "\<not> message_for s m"
    using assms by (cases m) (auto simp: message_for_def)
  then show ?thesis by (simp add: handleSignalingMessage_def)
qed

subsection \<open>Negotiation\<close>

lemma offer_impolite:
  "message_for s (Offer f d) \<Longrightarrow> ps_pc s \<Longrightarrow> ps_role s = Inviter \<Longrightarrow>
   ps_makingOffer s \<or> (sg \<noteq> SgStable \<and> sg \<noteq> SgHaveRemoteOffer) \<Longrightarrow>
   handleSignalingMessage sg (Offer f d) s = (s\<lparr>ps_ignoreOffer := True\<rparr>, [], [])"
  by (auto simp: handleSignalingMessage_def isPolite_def)

lemma offer_polite:
  "message_for s (Offer f d) \<Longrightarrow> ps_pc s \<Longrightarrow> ps_role s = Joiner \<Longrightarrow>
   handleSignalingMessage sg (Offer f d) s =
     (learn_remote f (s\<lparr>ps_ignoreOffer := False\<rparr>), [FSetRemote ''offer'' d], [TOfferRemote])"
  by (auto simp: handleSignalingMessage_def isPolite_def)

text \<open>Two sessions of a room, each the other's peer.\<close>

definition paired :: "session \<Rightarrow> session \<Rightarrow> bool" where
  "paired a b = (isPeerId (Str (ps_localPeerId a)) \<and> isPeerId (Str (ps_localPeerId b))
     \<and> ps_localPeerId a \<noteq> ps_localPeerId b \<and> ps_pc a \<and> ps_pc b
     \<and> (remote_of a = None \<or> remote_of a = Some (ps_localPeerId b))
     \<and> (remote_of b = None \<or> remote_of b = Some (ps_localPeerId a)))"

text \<open>
  Both have made an offer (the inviter is making it, or it is set and not answered yet) and receive the
  other's: the inviter ignores the joiner's and keeps its own,
  the joiner takes the inviter's, and once its descriptions are set answers it to the inviter, which
  applies the answer.
\<close>

theorem glare_resolved:
  assumes p: "paired a b" and roles: "ps_role a = Inviter" "ps_role b = Joiner"
    and making: "ps_makingOffer a \<or> sa \<noteq> SgStable \<and> sa \<noteq> SgHaveRemoteOffer" and d: "da \<noteq> []"
  shows glare_ignored: "handleSignalingMessage sa (Offer (ps_localPeerId b) db) a = (a\<lparr>ps_ignoreOffer := True\<rparr>, [], [])"
    and glare_answered: "\<exists>b1. handleSignalingMessage sb (Offer (ps_localPeerId a) da') b = (b1, [FSetRemote ''offer'' da'], [TOfferRemote])
      \<and> offer_applied Done b1 = (b1, [FSetLocal], [TOfferLocal])
      \<and> offer_described (DoneDesc (Some da)) b1 =
          (b1, [FPublish (Answer (ps_localPeerId b) (ps_localPeerId a) da)], [TOfferPub])
      \<and> (\<exists>a1. handleSignalingMessage sa' (Answer (ps_localPeerId b) (ps_localPeerId a) da) (a\<lparr>ps_ignoreOffer := True\<rparr>) =
          (a1, [FSetRemote ''answer'' da], [TAnswerRemote]) \<and> remote_of a1 = Some (ps_localPeerId b))"
proof -
  have ids: "ps_localPeerId a \<noteq> []" "ps_localPeerId b \<noteq> []"
    using p peer_id_not_Nil by (auto simp: paired_def)
  have ma: "message_for a (Offer (ps_localPeerId b) db)" and mb: "message_for b (Offer (ps_localPeerId a) da')"
    using p by (auto simp: paired_def message_for_def)
  show "handleSignalingMessage sa (Offer (ps_localPeerId b) db) a = (a\<lparr>ps_ignoreOffer := True\<rparr>, [], [])"
    using offer_impolite [OF ma _ roles(1)] making p by (simp add: paired_def)
  let ?b1 = "learn_remote (ps_localPeerId a) (b\<lparr>ps_ignoreOffer := False\<rparr>)"
  have b1: "ps_localPeerId ?b1 = ps_localPeerId b" "ps_remotePeerId ?b1 = Some (ps_localPeerId a)"
    using p ids by (auto simp: learn_remote_def paired_def remote_of_def split: option.splits if_splits)
  have ans: "message_for (a\<lparr>ps_ignoreOffer := True\<rparr>) (Answer (ps_localPeerId b) (ps_localPeerId a) da)"
    using p by (auto simp: paired_def message_for_def)
  have rem: "remote_of (learn_remote (ps_localPeerId b) (a\<lparr>ps_ignoreOffer := True\<rparr>)) = Some (ps_localPeerId b)"
    using p ids by (auto simp: learn_remote_def paired_def remote_of_def split: option.splits if_splits)
  have "handleSignalingMessage sa' (Answer (ps_localPeerId b) (ps_localPeerId a) da) (a\<lparr>ps_ignoreOffer := True\<rparr>) =
      (learn_remote (ps_localPeerId b) (a\<lparr>ps_ignoreOffer := True\<rparr>), [FSetRemote ''answer'' da], [TAnswerRemote])"
    using ans p by (simp add: handleSignalingMessage_def paired_def)
  with rem show "\<exists>b1. handleSignalingMessage sb (Offer (ps_localPeerId a) da') b = (b1, [FSetRemote ''offer'' da'], [TOfferRemote])
      \<and> offer_applied Done b1 = (b1, [FSetLocal], [TOfferLocal])
      \<and> offer_described (DoneDesc (Some da)) b1 =
          (b1, [FPublish (Answer (ps_localPeerId b) (ps_localPeerId a) da)], [TOfferPub])
      \<and> (\<exists>a1. handleSignalingMessage sa' (Answer (ps_localPeerId b) (ps_localPeerId a) da) (a\<lparr>ps_ignoreOffer := True\<rparr>) =
          (a1, [FSetRemote ''answer'' da], [TAnswerRemote]) \<and> remote_of a1 = Some (ps_localPeerId b))"
    using offer_polite [OF mb _ roles(2)] p d b1
    by (intro exI [of _ ?b1]) (simp add: paired_def offer_applied_def offer_described_def)
qed

subsection \<open>Sending\<close>

theorem sendText_spec:
  "snd (sendText t op s) = None \<longleftrightarrow> ps_state s = SConnected \<and> utf8_size t \<le> 65536 \<and> ps_channel s \<and> op"
  "snd (sendText t op s) = None \<Longrightarrow> fst (sendText t op s) = (s, [FSendText t], [])"
  "snd (sendText t op s) \<noteq> None \<Longrightarrow> fst (sendText t op s) = (s, [], [])"
  by (auto simp: sendText_def TEXT_MAX_BYTES_def split: if_splits)

text \<open>The frames of a list of effects.\<close>

definition frames_sent :: "effect list \<Rightarrow> bytes list" where
  "frames_sent es = List.map_filter (\<lambda>e. case e of FSendFrame f \<Rightarrow> Some f | _ \<Rightarrow> None) es"

lemma frames_sent_map [simp]: "frames_sent (map FSendFrame fs) = fs"
  by (induction fs) (simp_all add: frames_sent_def List.map_filter_def)

text \<open>The frames a call of \<open>sendBinary\<close> puts on the channel.\<close>

definition sent_frames :: "int \<Rightarrow> binary_message \<Rightarrow> session \<Rightarrow> bytes list" where
  "sent_frames now m s = frames_sent (fst (snd (fst (sendBinary now m True s))))"

text \<open>
  A session that receives frames on its binary channel while the timer comes due now and then: each is an
  event of its own, and the timer's callback is run if the timer is.
\<close>

fun receive_all :: "arrival list \<Rightarrow> session \<Rightarrow> session \<times> effect list" where
  "receive_all [] s = (s, [])"
| "receive_all (Arrival now f # as) s =
     (let (s1, es, ts) = bin_onmessage now (ArrayBuffer f) s; (s2, es2) = receive_all as s1 in (s2, es @ es2))"
| "receive_all (TimerDue now # as) s =
     (let (s1, es, ts) = (if reassemblyGcTimer (ps_reasm s) then gc_tick now s else (s, [], []));
          (s2, es2) = receive_all as s1 in (s2, es @ es2))"

lemma receive_all_frames:
  "receive_all as s = (let (r, evs) = receive_frames as (ps_reasm s) in (s\<lparr>ps_reasm := r\<rparr>, map frame_effect evs))"
proof (induction as arbitrary: s)
  case (Cons a as)
  then show ?case
    by (cases a) (simp_all add: bin_onmessage_def binary_frame_def gc_tick_def Let_def split_beta)
qed simp

text \<open>These are the steps of the session.\<close>

fun arrival_event :: "arrival \<Rightarrow> ps_event" where
  "arrival_event (Arrival now f) = BinMessage now (ArrayBuffer f)"
| "arrival_event (TimerDue now) = GcTick now"

lemma receive_all_steps:
  assumes "ps_run (map arrival_event as) c = Some (c', es)"
  shows "receive_all as (cf_session c) = (cf_session c', es)"
  using assms
proof (induction as arbitrary: c es)
  case (Cons a as)
  then show ?case
    by (cases a)
      (fastforce simp: enabled_def ps_next_def run_event_def Let_def bin_onmessage_def binary_frame_def gc_tick_def split_beta
        split: if_splits option.splits)+
qed simp

definition message_id :: "int \<Rightarrow> bytes \<Rightarrow> session \<Rightarrow> jsstring" where
  "message_id now bs s = (if frame_total (length bs) = 1 then [] else snd (newMessageId now (ps_nextSendId s)))"

lemma sendBinary_frames:
  assumes "ps_state s = SConnected" "ps_binChannel s" "addon \<noteq> []" "length bs \<le> BIN_MESSAGE_MAX_BYTES"
  shows "\<exists>s'. sendBinary now \<lparr>bm_addon = Str addon, bm_mime = Str mime, bm_bytes = U8 bs\<rparr> True s =
    ((s', map FSendFrame (fst (send_frames (message_frames addon mime bs (message_id now bs s)))), []),
     snd (send_frames (message_frames addon mime bs (message_id now bs s))))"
  using assms by (simp add: sendBinary_def message_id_def split_beta Let_def)

text \<open>
  A message of a connected session, within the cap and with short names, is sent. The other session's channel
  delivers it once, unchanged, if the last frame comes before the timer finds the first one too old, and never
  otherwise; beside it there are only notices of messages that were dropped.
\<close>

definition drop_notices :: "effect set" where
  "drop_notices = {EError E_OVERFLOW, EError E_TIMEOUT}"

theorem session_binary_delivery:
  assumes s: "ps_state s = SConnected" "ps_binChannel s"
    and m: "addon \<noteq> []" "length addon + length mime \<le> 160" "length bs \<le> BIN_MESSAGE_MAX_BYTES"
    and now: "0 \<le> now" "now < 36 ^ 9"
    and r: "reasm_ok (ps_reasm r)"
    and fresh: "\<forall>i\<in>{[], snd (newMessageId now (ps_nextSendId s))}. map_of (reassembly (ps_reasm r)) (slot_key addon i) = None"
    and as: "frames_of as = sent_frames now \<lparr>bm_addon = Str addon, bm_mime = Str mime, bm_bytes = U8 bs\<rparr> s"
  shows "\<exists>s'. sendBinary now \<lparr>bm_addon = Str addon, bm_mime = Str mime, bm_bytes = U8 bs\<rparr> True s =
      ((s', map FSendFrame (frames_of as), []), None)"
    and "reasm_ok (ps_reasm (fst (receive_all as r)))"
    and "in_time None as \<Longrightarrow> \<exists>xs ys. snd (receive_all as r) = xs @ EBinary addon mime bs # ys \<and> set xs \<union> set ys \<subseteq> drop_notices"
    and "\<not> in_time None as \<Longrightarrow> set (snd (receive_all as r)) \<subseteq> drop_notices"
proof -
  let ?m = "\<lparr>bm_addon = Str addon, bm_mime = Str mime, bm_bytes = U8 bs\<rparr>"
  let ?i = "message_id now bs s"
  have "length ?i \<le> 17" using newMessageId_length [OF now, of "ps_nextSendId s"] by (simp add: message_id_def)
  then have none: "snd (send_frames (message_frames addon mime bs ?i)) = None"
    using m by (intro message_frames_fit) auto
  obtain s' where sent: "sendBinary now ?m True s =
      ((s', map FSendFrame (fst (send_frames (message_frames addon mime bs ?i))), []), None)"
    using sendBinary_frames [OF s m(1,3), of now mime] none by auto
  then have fs: "fst (send_frames (message_frames addon mime bs ?i)) = frames_of as" using as by (simp add: sent_frames_def)
  with sent show "\<exists>s'. sendBinary now ?m True s = ((s', map FSendFrame (frames_of as), []), None)" by auto
  have all: "receive_all as r = (let (r', evs) = receive_frames as (ps_reasm r) in (r\<lparr>ps_reasm := r'\<rparr>, map frame_effect evs))"
    by (rule receive_all_frames)
  show "reasm_ok (ps_reasm (fst (receive_all as r)))"
    using receive_frames_ok [OF r, of as] by (simp add: all split_beta)
  have "map_of (reassembly (ps_reasm r)) (slot_key addon ?i) = None" using fresh by (simp add: message_id_def)
  moreover have "send_frames (message_frames addon mime bs ?i) = (frames_of as, None)" using fs none by (metis prod.collapse)
  ultimately have d: "delivers (in_time None as) addon mime bs (snd (receive_frames as (ps_reasm r)))"
    by (rule binary_delivery [OF r m(1,3)])
  have n: "frame_effect ` A \<subseteq> drop_notices" if "A \<subseteq> notices" for A
    using that by (auto simp: notices_def drop_notices_def)
  show "\<exists>xs ys. snd (receive_all as r) = xs @ EBinary addon mime bs # ys \<and> set xs \<union> set ys \<subseteq> drop_notices" if t: "in_time None as"
  proof -
    obtain xs ys where x: "snd (receive_frames as (ps_reasm r)) = xs @ EvBinary addon mime bs # ys" "set xs \<union> set ys \<subseteq> notices"
      using d t by (auto simp: delivers_def)
    then have "set (map frame_effect xs) \<union> set (map frame_effect ys) \<subseteq> drop_notices"
      using n [of "set xs"] n [of "set ys"] by auto
    moreover have "snd (receive_all as r) = map frame_effect xs @ EBinary addon mime bs # map frame_effect ys"
      using x(1) by (simp add: all split_beta)
    ultimately show ?thesis by blast
  qed
  show "set (snd (receive_all as r)) \<subseteq> drop_notices" if "\<not> in_time None as"
    using d that n [of "set (snd (receive_frames as (ps_reasm r)))"] by (simp add: delivers_not all split_beta)
qed

lemma length_sent_frames:
  assumes "ps_state s = SConnected" "ps_binChannel s" "addon \<noteq> []" "length addon + length mime \<le> 160"
    "length bs \<le> BIN_MESSAGE_MAX_BYTES" "0 \<le> now" "now < 36 ^ 9"
  shows "length (sent_frames now \<lparr>bm_addon = Str addon, bm_mime = Str mime, bm_bytes = U8 bs\<rparr> s) = frame_total (length bs)"
proof -
  let ?opts = "message_frames addon mime bs (message_id now bs s)"
  have "length (message_id now bs s) \<le> 17" using newMessageId_length [OF assms(6,7), of "ps_nextSendId s"] by (simp add: message_id_def)
  then have "snd (send_frames ?opts) = None" using assms by (intro message_frames_fit) auto
  then have "length (fst (send_frames ?opts)) = length ?opts"
    using send_frames_all [of ?opts "fst (send_frames ?opts)"] by (metis list_all2_lengthD prod.collapse)
  moreover have "length ?opts = frame_total (length bs)" by (simp add: message_frames_def Let_def)
  ultimately show ?thesis
    using sendBinary_frames [OF assms(1,2,3,5), of now mime] by (auto simp: sent_frames_def)
qed

text \<open>Frames that come at one time, the timer being due once after each.\<close>

definition paced :: "int \<Rightarrow> int \<Rightarrow> bytes list \<Rightarrow> arrival list" where
  "paced t u fs = concat (map (\<lambda>f. [Arrival t f, TimerDue u]) fs)"

lemma frames_of_paced [simp]: "frames_of (paced t u fs) = fs"
  by (induction fs) (simp_all add: paced_def)

lemma paced_in_time: "u - t < BIN_REASSEMBLY_TIMEOUT_MS \<Longrightarrow> in_time None (paced t u fs)"
proof -
  assume "u - t < BIN_REASSEMBLY_TIMEOUT_MS"
  then have "in_time (Some t) (paced t u fs)" by (induction fs) (simp_all add: paced_def)
  then show ?thesis by (cases fs) (simp_all add: paced_def)
qed

lemma paced_too_late: "BIN_REASSEMBLY_TIMEOUT_MS \<le> u - t \<Longrightarrow> 1 < length fs \<Longrightarrow> \<not> in_time None (paced t u fs)"
  by (cases fs; cases "tl fs") (auto simp: paced_def)

end
