(* ===== verification/Manifest.thy ===== *)
theory Manifest
  imports Base64url JS_JSON_Props
begin

text \<open>
  \<open>manifest/src/index.ts\<close>: detached Ed25519 signatures of add-on manifests and the key store. Web
  Crypto (the record \<open>web_crypto\<close>) and the engine's \<open>Date\<close> (the record \<open>date_api\<close>) are arguments; what
  the code relies on is \<open>crypto_ok\<close>. The theory shows what validates as a signature,
  that a signature just made validates, verifies and survives JSON, that a positive answer of
  \<open>verifyManifest\<close> always comes from a trusted key and from Web Crypto's own verification, and that
  a key pair stored and loaded is the same key pair.
\<close>

subsection \<open>The platform\<close>

record ('pk, 'sk) web_crypto =
  wc_exportRaw :: "'pk \<Rightarrow> err + bytes"
  wc_exportPkcs8 :: "'sk \<Rightarrow> err + bytes"
  wc_importRaw :: "bytes \<Rightarrow> err + 'pk"
  wc_importPkcs8 :: "bytes \<Rightarrow> err + 'sk"
  wc_sign :: "'sk \<Rightarrow> bytes \<Rightarrow> err + bytes"
  wc_verify :: "'pk \<Rightarrow> bytes \<Rightarrow> bytes \<Rightarrow> err + bool"

text \<open>\<open>Date.parse\<close> and \<open>new Date(t).toISOString()\<close>, which throws on an invalid date (\<open>NaN\<close>).\<close>

record date_api =
  date_parse :: "jsstring \<Rightarrow> jsnum"
  date_iso :: "jsnum \<Rightarrow> err + jsstring"

definition manifest_getCrypto :: "('pk, 'sk) web_crypto option \<Rightarrow> err + ('pk, 'sk) web_crypto" where
  "manifest_getCrypto c = of_option (Thrown ''ManifestSignatureError'' ''Web Crypto subtle is not available'') c"

subsection \<open>Signatures and keys\<close>

definition ED25519_PUBLIC_KEY_BYTES :: nat where "ED25519_PUBLIC_KEY_BYTES = 32"
definition ED25519_SIGNATURE_BYTES :: nat where "ED25519_SIGNATURE_BYTES = 64"

record manifest_signature =
  sg_publicKey :: jsstring
  sg_signature :: jsstring
  sg_signedAt :: jsstring

definition SIGNATURE_KEYS :: "string list" where
  "SIGNATURE_KEYS = [''v'', ''alg'', ''publicKey'', ''signature'', ''signedAt'']"

abbreviation signature_error :: "string \<Rightarrow> err" where
  "signature_error m \<equiv> Thrown ''ManifestSignatureError'' m"

text \<open>The object literal of a signature.\<close>

definition signature_val :: "manifest_signature \<Rightarrow> jsval" where
  "signature_val s = Obj [(js ''v'', jint 1), (js ''alg'', Str (js ''Ed25519'')), (js ''publicKey'', Str (sg_publicKey s)),
     (js ''signature'', Str (sg_signature s)), (js ''signedAt'', Str (sg_signedAt s))]"

record ('pk, 'sk) key_pair =
  kp_publicKey :: 'pk
  kp_privateKey :: 'sk
  kp_publicKeyBase64 :: jsstring

text \<open>\<open>made\<close> is what \<open>subtle.generateKey\<close> came back with.\<close>

definition generateKeyPair :: "('pk, 'sk) web_crypto option \<Rightarrow> err + ('pk \<times> 'sk) \<Rightarrow> err + ('pk, 'sk) key_pair" where
  "generateKeyPair c made =
     then_ok (manifest_getCrypto c) (\<lambda>crypto. then_ok made (\<lambda>(pk, sk).
     then_ok (wc_exportRaw crypto pk) (\<lambda>raw.
       if length raw \<noteq> ED25519_PUBLIC_KEY_BYTES then Inl (signature_error ''unexpected public key length'')
       else Inr \<lparr>kp_publicKey = pk, kp_privateKey = sk, kp_publicKeyBase64 = manifest_base64urlEncode raw\<rparr>)))"

definition importPublicKey :: "('pk, 'sk) web_crypto option \<Rightarrow> jsstring \<Rightarrow> err + 'pk" where
  "importPublicKey c base64url =
     then_ok (manifest_base64urlDecode base64url) (\<lambda>raw.
       if length raw \<noteq> ED25519_PUBLIC_KEY_BYTES then Inl (signature_error ''public key must be 32 bytes'')
       else then_ok (manifest_getCrypto c) (\<lambda>crypto. wc_importRaw crypto raw))"

subsection \<open>The key store\<close>

abbreviation keystore_error :: "string \<Rightarrow> err" where
  "keystore_error m \<equiv> Thrown ''KeystoreError'' m"

record keystore =
  ks_publicKey :: jsstring
  ks_privateKey :: jsstring

definition keystore_val :: "keystore \<Rightarrow> jsval" where
  "keystore_val k = Obj [(js ''v'', jint 1), (js ''alg'', Str (js ''Ed25519'')),
     (js ''publicKey'', Str (ks_publicKey k)), (js ''privateKey'', Str (ks_privateKey k))]"

definition exportKeystore :: "('pk, 'sk) web_crypto option \<Rightarrow> ('pk, 'sk) key_pair \<Rightarrow> err + keystore" where
  "exportKeystore c kp =
     then_ok (manifest_getCrypto c) (\<lambda>crypto.
     then_ok (wc_exportPkcs8 crypto (kp_privateKey kp)) (\<lambda>pkcs8.
       Inr \<lparr>ks_publicKey = kp_publicKeyBase64 kp, ks_privateKey = manifest_base64urlEncode pkcs8\<rparr>))"

definition loadKeystore :: "('pk, 'sk) web_crypto option \<Rightarrow> jsval \<Rightarrow> err + ('pk, 'sk) key_pair" where
  "loadKeystore c v =
     then_ok (as_object ''KeystoreError'' '''' v) (\<lambda>obj.
     then_ok (guards [(fld obj ''v'' \<noteq> jint 1, keystore_error ''v must be 1''),
                      (fld obj ''alg'' \<noteq> Str (js ''Ed25519''), keystore_error ''alg must be Ed25519''),
                      (\<not> is_str (fld obj ''publicKey'') \<or> \<not> is_str (fld obj ''privateKey''),
                       keystore_error ''publicKey/privateKey must be strings'')]) (\<lambda>_.
     then_ok (manifest_base64urlDecode (str_of (fld obj ''publicKey''))) (\<lambda>pubRaw.
     if length pubRaw \<noteq> ED25519_PUBLIC_KEY_BYTES then Inl (keystore_error ''publicKey is not 32 bytes'')
     else then_ok (manifest_base64urlDecode (str_of (fld obj ''privateKey''))) (\<lambda>privBytes.
     then_ok (manifest_getCrypto c) (\<lambda>crypto.
     then_ok (wc_importPkcs8 crypto privBytes) (\<lambda>privateKey.
     then_ok (wc_importRaw crypto pubRaw) (\<lambda>publicKey.
       Inr \<lparr>kp_publicKey = publicKey, kp_privateKey = privateKey,
            kp_publicKeyBase64 = str_of (fld obj ''publicKey'')\<rparr>)))))))"

subsection \<open>Signing and verifying\<close>

text \<open>\<open>now\<close> is the clock, read when no \<open>signedAt\<close> is given.\<close>

definition signManifest ::
  "('pk, 'sk) web_crypto option \<Rightarrow> date_api \<Rightarrow> jsnum \<Rightarrow> bytes \<Rightarrow> ('pk, 'sk) key_pair \<Rightarrow> jsnum option \<Rightarrow> err + manifest_signature" where
  "signManifest c dates now manifestBytes keyPair signedAt =
     then_ok (manifest_getCrypto c) (\<lambda>crypto.
     then_ok (wc_sign crypto (kp_privateKey keyPair) manifestBytes) (\<lambda>sig.
       if length sig \<noteq> ED25519_SIGNATURE_BYTES then Inl (signature_error ''signature must be 64 bytes'')
       else then_ok (date_iso dates (case signedAt of None \<Rightarrow> now | Some d \<Rightarrow> d)) (\<lambda>iso.
         Inr \<lparr>sg_publicKey = kp_publicKeyBase64 keyPair, sg_signature = manifest_base64urlEncode sig,
              sg_signedAt = iso\<rparr>)))"

definition manifest_asObject :: "jsval \<Rightarrow> err + jsfields" where
  "manifest_asObject v = as_object ''ManifestSignatureError'' ''signature'' v"

text \<open>A field that must be a base64url string of \<open>n\<close> bytes.\<close>

definition sized_field :: "string \<Rightarrow> string \<Rightarrow> nat \<Rightarrow> jsval \<Rightarrow> err + jsstring" where
  "sized_field no_string bad_size n v =
     (case v of
        Str s \<Rightarrow> then_ok (manifest_base64urlDecode s) (\<lambda>raw.
          if length raw \<noteq> n then Inl (signature_error bad_size) else Inr s)
      | _ \<Rightarrow> Inl (signature_error no_string))"

definition validateSignaturePayload :: "date_api \<Rightarrow> jsval \<Rightarrow> err + manifest_signature" where
  "validateSignaturePayload dates v =
     then_ok (manifest_asObject v) (\<lambda>obj.
       case unknown_field SIGNATURE_KEYS (signature_error ''unknown field: '') obj of
         Some e \<Rightarrow> Inl e
       | None \<Rightarrow>
           then_ok (guards [(fld obj ''v'' \<noteq> jint 1, signature_error ''v must be 1''),
                            (fld obj ''alg'' \<noteq> Str (js ''Ed25519''), signature_error ''alg must be Ed25519'')]) (\<lambda>_.
           then_ok (sized_field ''publicKey must be a string'' ''publicKey must decode to 32 bytes''
                      ED25519_PUBLIC_KEY_BYTES (fld obj ''publicKey'')) (\<lambda>pk.
           then_ok (sized_field ''signature must be a string'' ''signature must decode to 64 bytes''
                      ED25519_SIGNATURE_BYTES (fld obj ''signature'')) (\<lambda>sig.
           if \<not> is_str (fld obj ''signedAt'') \<or> date_parse dates (str_of (fld obj ''signedAt'')) = NaN
           then Inl (signature_error ''signedAt must be ISO-8601'')
           else Inr \<lparr>sg_publicKey = pk, sg_signature = sig, sg_signedAt = str_of (fld obj ''signedAt'')\<rparr>))))"

record verify_result =
  vr_ok :: bool
  vr_reason :: "string option"

definition verifyManifest ::
  "('pk, 'sk) web_crypto option \<Rightarrow> bytes \<Rightarrow> manifest_signature \<Rightarrow> jsstring list option \<Rightarrow> err + verify_result" where
  "verifyManifest c manifestBytes sig trustedKeys =
     (if (case trustedKeys of None \<Rightarrow> False | Some ks \<Rightarrow> sg_publicKey sig \<notin> set ks)
      then Inr \<lparr>vr_ok = False, vr_reason = Some ''untrusted-key''\<rparr>
      else then_ok (importPublicKey c (sg_publicKey sig)) (\<lambda>publicKey.
        then_ok (manifest_base64urlDecode (sg_signature sig)) (\<lambda>sigBytes.
        then_ok (manifest_getCrypto c) (\<lambda>crypto.
        then_ok (wc_verify crypto publicKey sigBytes manifestBytes) (\<lambda>ok.
          Inr (if ok then \<lparr>vr_ok = True, vr_reason = None\<rparr>
               else \<lparr>vr_ok = False, vr_reason = Some ''bad-signature''\<rparr>))))))"

subsection \<open>What the code relies on\<close>

text \<open>
  Keys exported and imported are the same keys, and a signature by a private key verifies under the
  public key made with it.
\<close>

definition crypto_ok :: "('pk, 'sk) web_crypto \<Rightarrow> ('pk \<times> 'sk) set \<Rightarrow> bool" where
  "crypto_ok crypto made \<longleftrightarrow>
     (\<forall>pk sk. (pk, sk) \<in> made \<longrightarrow>
        (\<exists>raw. wc_exportRaw crypto pk = Inr raw \<and> length raw = 32 \<and> wc_importRaw crypto raw = Inr pk)
      \<and> (\<exists>p8. wc_exportPkcs8 crypto sk = Inr p8 \<and> wc_importPkcs8 crypto p8 = Inr sk)
      \<and> (\<forall>m. \<exists>s. wc_sign crypto sk m = Inr s \<and> length s = 64 \<and> wc_verify crypto pk s m = Inr True))"

subsection \<open>What validates\<close>

lemma sized_field_Inr:
  "sized_field a b n v = Inr s \<longleftrightarrow> v = Str s \<and> (\<exists>raw. manifest_base64urlDecode s = Inr raw \<and> length raw = n)"
  by (auto simp: sized_field_def then_ok_Inr split: jsval.splits if_splits)

definition signature_ok :: "date_api \<Rightarrow> manifest_signature \<Rightarrow> bool" where
  "signature_ok dates g \<longleftrightarrow>
     (\<exists>pk sig. manifest_base64urlDecode (sg_publicKey g) = Inr pk \<and> length pk = 32
        \<and> manifest_base64urlDecode (sg_signature g) = Inr sig \<and> length sig = 64)
     \<and> date_parse dates (sg_signedAt g) \<noteq> NaN"

theorem validateSignaturePayload_iff:
  "validateSignaturePayload dates v = Inr g \<longleftrightarrow>
     (\<exists>fs. v = Obj fs \<and> fst ` set fs \<subseteq> set (map js SIGNATURE_KEYS) \<and> fld fs ''v'' = jint 1
        \<and> fld fs ''alg'' = Str (js ''Ed25519'') \<and> fld fs ''publicKey'' = Str (sg_publicKey g)
        \<and> fld fs ''signature'' = Str (sg_signature g) \<and> fld fs ''signedAt'' = Str (sg_signedAt g))
     \<and> signature_ok dates g" (is "?l \<longleftrightarrow> ?r")
proof
  assume ?l
  then obtain fs where o: "manifest_asObject v = Inr fs"
    and u: "unknown_field SIGNATURE_KEYS (signature_error ''unknown field: '') fs = None"
    and f: "fld fs ''v'' = jint 1" "fld fs ''alg'' = Str (js ''Ed25519'')" "fld fs ''publicKey'' = Str (sg_publicKey g)"
      "fld fs ''signature'' = Str (sg_signature g)" "fld fs ''signedAt'' = Str (sg_signedAt g)"
    and g: "signature_ok dates g"
    by (auto simp: validateSignaturePayload_def then_ok_Inr sized_field_Inr is_str_iff signature_ok_def
        ED25519_PUBLIC_KEY_BYTES_def ED25519_SIGNATURE_BYTES_def split: option.splits if_splits)
  from o f(1) have "v = Obj fs"
    by (auto simp: manifest_asObject_def as_object_def fld_u8_fields split: jsval.splits)
  with u f g show ?r by (auto simp: unknown_field_None)
next
  assume ?r
  then show ?l
    by (cases g) (auto simp: validateSignaturePayload_def then_ok_Inr sized_field_Inr signature_ok_def
        manifest_asObject_def as_object_def unknown_field_None ED25519_PUBLIC_KEY_BYTES_def ED25519_SIGNATURE_BYTES_def
        split: option.splits)
qed

lemma validate_signature_val: "validateSignaturePayload dates (signature_val g) = Inr g \<longleftrightarrow> signature_ok dates g"
  by (auto simp: validateSignaturePayload_iff signature_val_def SIGNATURE_KEYS_def)

text \<open>A valid signature's texts are base64url, 43 and 86 characters long.\<close>

lemma signature_text_lengths:
  assumes "signature_ok dates g"
  shows "length (sg_publicKey g) = 43 \<and> length (sg_signature g) = 86"
proof -
  have len: "length s = (4 * length bs + 2) div 3"
    if "manifest_base64urlDecode s = Inr bs" "length bs \<in> {32, 64}" for s bs
  proof -
    have l: "length bs = 3 * (length s div 4) + (if length s mod 4 = 0 then 0 else length s mod 4 - 1)"
      using b64_decode_length that(1) by (simp add: manifest_base64urlDecode_def)
    have m: "length s mod 4 \<noteq> 1"
      using that(1) by (auto simp: manifest_base64urlDecode_def b64_decode_spec split: if_splits)
    have "n = 4 * (n div 4) + n mod 4 \<and> n mod 4 < 4" for n :: nat by simp
    from this [of "length s"] l m that(2) show ?thesis
      by (cases "length s mod 4 = 0"; cases "length s mod 4 = 2"; cases "length s mod 4 = 3") auto
  qed
  from assms obtain pk sig where "manifest_base64urlDecode (sg_publicKey g) = Inr pk" "length pk = 32"
    "manifest_base64urlDecode (sg_signature g) = Inr sig" "length sig = 64"
    by (auto simp: signature_ok_def)
  with len [of "sg_publicKey g" pk] len [of "sg_signature g" sig] show ?thesis by simp
qed

subsection \<open>Signing, then verifying\<close>

lemma generateKeyPair_ok:
  assumes "crypto_ok crypto made" "(pk, sk) \<in> made"
  shows "\<exists>raw. generateKeyPair (Some crypto) (Inr (pk, sk)) =
      Inr \<lparr>kp_publicKey = pk, kp_privateKey = sk, kp_publicKeyBase64 = manifest_base64urlEncode raw\<rparr>
    \<and> length raw = 32 \<and> wc_importRaw crypto raw = Inr pk"
  using assms unfolding crypto_ok_def generateKeyPair_def manifest_getCrypto_def ED25519_PUBLIC_KEY_BYTES_def
  by fastforce

theorem sign_then_verify:
  assumes c: "crypto_ok crypto made" "(pk, sk) \<in> made" and stamp: "date_iso dates t = Inr stamp" "date_parse dates stamp \<noteq> NaN"
    and kp: "generateKeyPair (Some crypto) (Inr (pk, sk)) = Inr kp"
  shows "\<exists>g. signManifest (Some crypto) dates now m kp (Some t) = Inr g \<and> signature_ok dates g
    \<and> sg_publicKey g = kp_publicKeyBase64 kp
    \<and> verifyManifest (Some crypto) m g trusted =
        Inr (if (case trusted of None \<Rightarrow> True | Some ks \<Rightarrow> kp_publicKeyBase64 kp \<in> set ks)
             then \<lparr>vr_ok = True, vr_reason = None\<rparr> else \<lparr>vr_ok = False, vr_reason = Some ''untrusted-key''\<rparr>)"
proof -
  from c kp obtain raw where kp': "kp = \<lparr>kp_publicKey = pk, kp_privateKey = sk, kp_publicKeyBase64 = manifest_base64urlEncode raw\<rparr>"
    and raw: "length raw = 32" "wc_importRaw crypto raw = Inr pk"
    using generateKeyPair_ok by fastforce
  from c obtain s where s: "wc_sign crypto sk m = Inr s" "length s = 64" "wc_verify crypto pk s m = Inr True"
    unfolding crypto_ok_def by blast
  define g where "g = \<lparr>sg_publicKey = manifest_base64urlEncode raw, sg_signature = manifest_base64urlEncode s, sg_signedAt = stamp\<rparr>"
  have "signManifest (Some crypto) dates now m kp (Some t) = Inr g"
    using s(1,2) stamp(1) by (simp add: signManifest_def manifest_getCrypto_def kp' ED25519_SIGNATURE_BYTES_def g_def)
  moreover have "signature_ok dates g"
    using raw s(2) stamp(2) by (simp add: signature_ok_def g_def manifest_codec.dec_enc)
  moreover have "verifyManifest (Some crypto) m g trusted =
      Inr (if (case trusted of None \<Rightarrow> True | Some ks \<Rightarrow> kp_publicKeyBase64 kp \<in> set ks)
           then \<lparr>vr_ok = True, vr_reason = None\<rparr> else \<lparr>vr_ok = False, vr_reason = Some ''untrusted-key''\<rparr>)"
    using raw s by (simp add: verifyManifest_def importPublicKey_def manifest_getCrypto_def g_def kp'
        manifest_codec.dec_enc ED25519_PUBLIC_KEY_BYTES_def split: option.splits)
  ultimately show ?thesis by (auto simp: g_def kp')
qed

text \<open>A positive answer is Web Crypto's own, for the bytes given and for a key on the list of trusted keys.\<close>

theorem verify_sound:
  assumes "verifyManifest c m g trusted = Inr r" "vr_ok r"
  shows "\<exists>crypto pk raw sig. c = Some crypto \<and> manifest_base64urlDecode (sg_publicKey g) = Inr raw \<and> length raw = 32
    \<and> wc_importRaw crypto raw = Inr pk \<and> manifest_base64urlDecode (sg_signature g) = Inr sig
    \<and> wc_verify crypto pk sig m = Inr True \<and> pred_option (\<lambda>ks. sg_publicKey g \<in> set ks) trusted"
  using assms
  by (auto simp: verifyManifest_def importPublicKey_def manifest_getCrypto_def ED25519_PUBLIC_KEY_BYTES_def then_ok_Inr
      split: option.splits if_splits)

subsection \<open>The key store\<close>

theorem keystore_roundtrip:
  assumes c: "crypto_ok crypto made" "(pk, sk) \<in> made" and kp: "generateKeyPair (Some crypto) (Inr (pk, sk)) = Inr kp"
  shows "\<exists>k. exportKeystore (Some crypto) kp = Inr k \<and> loadKeystore (Some crypto) (keystore_val k) = Inr kp"
proof -
  from c kp obtain raw where kp': "kp = \<lparr>kp_publicKey = pk, kp_privateKey = sk, kp_publicKeyBase64 = manifest_base64urlEncode raw\<rparr>"
    and raw: "length raw = 32" "wc_importRaw crypto raw = Inr pk"
    using generateKeyPair_ok by fastforce
  from c obtain p8 where "wc_exportPkcs8 crypto sk = Inr p8" "wc_importPkcs8 crypto p8 = Inr sk"
    unfolding crypto_ok_def by blast
  then show ?thesis
    using raw by (simp add: exportKeystore_def loadKeystore_def manifest_getCrypto_def kp' keystore_val_def as_object_def
        manifest_codec.dec_enc ED25519_PUBLIC_KEY_BYTES_def)
qed

end
