(* ===== verification/Storage.thy ===== *)
theory Storage
  imports JS_JSON_Props Envelope "HOL-Library.List_Lexorder"
begin

text \<open>
  \<open>storage/src/index.ts\<close>: the key/value store of each add-on. The store an add-on sees
  (\<open>AddonStorageImpl\<close>) works over any backend; the two backends are the in-memory map and IndexedDB,
  whose database is an argument. The interface between them is the locale \<open>storage_backend\<close>: its laws
  say that a backend is a map from keys to records for each add-on, and the lemmas inside it show
  that the add-on's view is that of a private map. A state is returned updated, together with the
  operation's result; a rejected promise is \<open>Inl\<close>.
\<close>

subsection \<open>Records, errors, keys\<close>

datatype storage_code =
    PermissionDenied | KeyTooLong | ValueTooLarge | QuotaExceeded | ValueNotCloneable | ClosedCode | InvalidRequest

text \<open>A \<open>StorageError\<close>, or the \<open>DOMException\<close> of a failed request by its name.\<close>

datatype storage_failure = StorageError storage_code string | RequestError string

record storage_record =
  rec_value :: jsval
  rec_updatedAt :: jsnum

type_synonym ('s, 'a) storage_op = "'s \<Rightarrow> (storage_failure + 'a) \<times> 's"

definition MAX_KEY_LENGTH :: nat where "MAX_KEY_LENGTH = 256"
definition MAX_VALUE_BYTES :: nat where "MAX_VALUE_BYTES = 1 * 1024 * 1024"

definition namespaceKey :: "jsstring \<Rightarrow> jsstring \<Rightarrow> jsstring" where
  "namespaceKey addonId key = addonId @ js '' '' @ key"

definition validateKey :: "jsval \<Rightarrow> storage_failure + jsstring" where
  "validateKey key =
     (case key of
        Str k \<Rightarrow> if length k > MAX_KEY_LENGTH then Inl (StorageError KeyTooLong '''') else Inr k
      | _ \<Rightarrow> Inl (StorageError InvalidRequest ''key must be a string''))"

text \<open>\<open>JSON.stringify\<close> of \<open>undefined\<close> is \<open>undefined\<close>, which the encoder takes as no text at all.\<close>

definition approximateBytes :: "jsval \<Rightarrow> nat" where
  "approximateBytes value = (case json_str value of None \<Rightarrow> 0 | Some json \<Rightarrow> length (utf8_encode json))"

subsection \<open>The store of an add-on\<close>

record 's storage_backend =
  sb_get :: "jsstring \<Rightarrow> jsstring \<Rightarrow> ('s, storage_record option) storage_op"
  sb_put :: "jsstring \<Rightarrow> jsstring \<Rightarrow> storage_record \<Rightarrow> ('s, unit) storage_op"
  sb_delete :: "jsstring \<Rightarrow> jsstring \<Rightarrow> ('s, unit) storage_op"
  sb_list :: "jsstring \<Rightarrow> ('s, jsstring list) storage_op"
  sb_clear :: "jsstring \<Rightarrow> ('s, unit) storage_op"

text \<open>\<open>v ?? null\<close>.\<close>

definition or_null :: "jsval \<Rightarrow> jsval" where
  "or_null v = (if v = Undef then Null else v)"

definition addon_get :: "'s storage_backend \<Rightarrow> jsstring \<Rightarrow> jsval \<Rightarrow> ('s, jsval) storage_op" where
  "addon_get backend addonId key s =
     (case validateKey key of
        Inl e \<Rightarrow> (Inl e, s)
      | Inr k \<Rightarrow>
          (case sb_get backend addonId k s of
             (Inl e, s') \<Rightarrow> (Inl e, s')
           | (Inr rec, s') \<Rightarrow> (Inr (case rec of None \<Rightarrow> Null | Some r \<Rightarrow> or_null (rec_value r)), s')))"

definition addon_put :: "'s storage_backend \<Rightarrow> jsnum \<Rightarrow> jsstring \<Rightarrow> jsval \<Rightarrow> jsval \<Rightarrow> ('s, unit) storage_op" where
  "addon_put backend now addonId key value s =
     (case validateKey key of
        Inl e \<Rightarrow> (Inl e, s)
      | Inr k \<Rightarrow>
          if approximateBytes value > MAX_VALUE_BYTES then (Inl (StorageError ValueTooLarge ''''), s)
          else sb_put backend addonId k \<lparr>rec_value = value, rec_updatedAt = now\<rparr> s)"

definition addon_delete :: "'s storage_backend \<Rightarrow> jsstring \<Rightarrow> jsval \<Rightarrow> ('s, unit) storage_op" where
  "addon_delete backend addonId key s =
     (case validateKey key of Inl e \<Rightarrow> (Inl e, s) | Inr k \<Rightarrow> sb_delete backend addonId k s)"

definition addon_list :: "'s storage_backend \<Rightarrow> jsstring \<Rightarrow> ('s, jsstring list) storage_op" where
  "addon_list backend addonId s = sb_list backend addonId s"

definition addon_clear :: "'s storage_backend \<Rightarrow> jsstring \<Rightarrow> ('s, unit) storage_op" where
  "addon_clear backend addonId s = sb_clear backend addonId s"

subsection \<open>The in-memory backend\<close>

record memory_storage =
  mem_map :: "(jsstring \<times> storage_record) list"
  mem_closed :: bool

definition memory_get :: "jsstring \<Rightarrow> jsstring \<Rightarrow> (memory_storage, storage_record option) storage_op" where
  "memory_get addonId key s =
     (if mem_closed s then (Inl (StorageError ClosedCode ''''), s)
      else (Inr (map_of (mem_map s) (namespaceKey addonId key)), s))"

definition memory_put :: "jsstring \<Rightarrow> jsstring \<Rightarrow> storage_record \<Rightarrow> (memory_storage, unit) storage_op" where
  "memory_put addonId key record s =
     (if mem_closed s then (Inl (StorageError ClosedCode ''''), s)
      else (Inr (), s\<lparr>mem_map := al_set (namespaceKey addonId key) record (mem_map s)\<rparr>))"

definition memory_delete :: "jsstring \<Rightarrow> jsstring \<Rightarrow> (memory_storage, unit) storage_op" where
  "memory_delete addonId key s =
     (if mem_closed s then (Inl (StorageError ClosedCode ''''), s)
      else (Inr (), s\<lparr>mem_map := al_del (namespaceKey addonId key) (mem_map s)\<rparr>))"

definition memory_list :: "jsstring \<Rightarrow> (memory_storage, jsstring list) storage_op" where
  "memory_list addonId s =
     (if mem_closed s then (Inl (StorageError ClosedCode ''''), s)
      else (let prefix = addonId @ js '' '';
                out = map (drop (length prefix)) (filter (\<lambda>k. startsWith k prefix) (map fst (mem_map s)))
            in (Inr (sort out), s)))"

definition memory_clear :: "jsstring \<Rightarrow> (memory_storage, unit) storage_op" where
  "memory_clear addonId s =
     (if mem_closed s then (Inl (StorageError ClosedCode ''''), s)
      else (let prefix = addonId @ js '' '' in
            (Inr (), s\<lparr>mem_map := fold (\<lambda>k m. if startsWith k prefix then al_del k m else m)
                                    (map fst (mem_map s)) (mem_map s)\<rparr>)))"

definition memory_close :: "memory_storage \<Rightarrow> memory_storage" where
  "memory_close s = s\<lparr>mem_closed := True, mem_map := []\<rparr>"

definition memory_backend :: "memory_storage storage_backend" where
  "memory_backend = \<lparr>sb_get = memory_get, sb_put = memory_put, sb_delete = memory_delete,
     sb_list = memory_list, sb_clear = memory_clear\<rparr>"

subsection \<open>The IndexedDB backend\<close>

text \<open>How an attempt to open the database ends.\<close>

datatype idb_opening = NoIndexedDB | OpenDone | OpenError "string option" | OpenBlocked

text \<open>
  The browser's database: what opening it comes to, the requests on the object store (an error is
  the name of the request's \<open>DOMException\<close>), and the keys a cursor over \<open>IDBKeyRange.bound(lo, hi)\<close>
  visits.
\<close>

record 'db idb_api =
  idb_open :: "'db \<Rightarrow> idb_opening"
  idb_get :: "jsstring \<Rightarrow> 'db \<Rightarrow> string + storage_record option"
  idb_put :: "storage_record \<Rightarrow> jsstring \<Rightarrow> 'db \<Rightarrow> string + 'db"
  idb_delete :: "jsstring \<Rightarrow> 'db \<Rightarrow> string + 'db"
  idb_cursor :: "jsstring \<Rightarrow> jsstring \<Rightarrow> 'db \<Rightarrow> string + jsstring list"

text \<open>\<open>ib_dbPromise\<close> is the promise \<open>openDb\<close> keeps, settled; a rejected one is kept too.\<close>

record 'db idb_storage =
  ib_closed :: bool
  ib_dbPromise :: "(storage_failure + unit) option"
  ib_db :: 'db

definition idb_openDb :: "'db idb_api \<Rightarrow> ('db idb_storage, unit) storage_op" where
  "idb_openDb api s =
     (case ib_dbPromise s of
        Some p \<Rightarrow> (p, s)
      | None \<Rightarrow>
          (let p = (case idb_open api (ib_db s) of
                      NoIndexedDB \<Rightarrow> Inl (StorageError InvalidRequest ''IndexedDB is not available'')
                    | OpenDone \<Rightarrow> Inr ()
                    | OpenError (Some name) \<Rightarrow> Inl (RequestError name)
                    | OpenError None \<Rightarrow> Inl (StorageError InvalidRequest '''')
                    | OpenBlocked \<Rightarrow> Inl (StorageError InvalidRequest ''open blocked''))
           in (p, s\<lparr>ib_dbPromise := Some p\<rparr>)))"

definition idb_tx :: "'db idb_api \<Rightarrow> ('db idb_storage, unit) storage_op" where
  "idb_tx api s = (if ib_closed s then (Inl (StorageError ClosedCode ''''), s) else idb_openDb api s)"

definition idb_storage_get :: "'db idb_api \<Rightarrow> jsstring \<Rightarrow> jsstring \<Rightarrow> ('db idb_storage, storage_record option) storage_op" where
  "idb_storage_get api addonId key s =
     (case idb_tx api s of
        (Inl e, s') \<Rightarrow> (Inl e, s')
      | (Inr _, s') \<Rightarrow>
          (case idb_get api (namespaceKey addonId key) (ib_db s') of
             Inl name \<Rightarrow> (Inl (RequestError name), s')
           | Inr r \<Rightarrow> (Inr r, s')))"

definition idb_storage_put :: "'db idb_api \<Rightarrow> jsstring \<Rightarrow> jsstring \<Rightarrow> storage_record \<Rightarrow> ('db idb_storage, unit) storage_op" where
  "idb_storage_put api addonId key record s =
     (case idb_tx api s of
        (Inl e, s') \<Rightarrow> (Inl e, s')
      | (Inr _, s') \<Rightarrow>
          (case idb_put api record (namespaceKey addonId key) (ib_db s') of
             Inl name \<Rightarrow>
               (if name = ''QuotaExceededError'' then (Inl (StorageError QuotaExceeded ''''), s')
                else (Inl (RequestError name), s'))
           | Inr db \<Rightarrow> (Inr (), s'\<lparr>ib_db := db\<rparr>)))"

definition idb_storage_delete :: "'db idb_api \<Rightarrow> jsstring \<Rightarrow> jsstring \<Rightarrow> ('db idb_storage, unit) storage_op" where
  "idb_storage_delete api addonId key s =
     (case idb_tx api s of
        (Inl e, s') \<Rightarrow> (Inl e, s')
      | (Inr _, s') \<Rightarrow>
          (case idb_delete api (namespaceKey addonId key) (ib_db s') of
             Inl name \<Rightarrow> (Inl (RequestError name), s')
           | Inr db \<Rightarrow> (Inr (), s'\<lparr>ib_db := db\<rparr>)))"

text \<open>The upper end of the range: the prefix and the last code unit.\<close>

definition range_end :: "jsstring \<Rightarrow> jsstring" where
  "range_end prefix = prefix @ [0xFFFF]"

definition idb_storage_list :: "'db idb_api \<Rightarrow> jsstring \<Rightarrow> ('db idb_storage, jsstring list) storage_op" where
  "idb_storage_list api addonId s =
     (case idb_tx api s of
        (Inl e, s') \<Rightarrow> (Inl e, s')
      | (Inr _, s') \<Rightarrow>
          (let prefix = addonId @ js '' '' in
           case idb_cursor api prefix (range_end prefix) (ib_db s') of
             Inl name \<Rightarrow> (Inl (RequestError name), s')
           | Inr ks \<Rightarrow> (Inr (sort (map (drop (length prefix)) ks)), s')))"

text \<open>\<open>c.delete()\<close> at each key the cursor visits; a request that fails rejects the promise.\<close>

fun cursor_deletes :: "'db idb_api \<Rightarrow> jsstring list \<Rightarrow> 'db \<Rightarrow> string + 'db" where
  "cursor_deletes api [] db = Inr db"
| "cursor_deletes api (k # ks) db =
     (case idb_delete api k db of Inl name \<Rightarrow> Inl name | Inr db' \<Rightarrow> cursor_deletes api ks db')"

definition idb_storage_clear :: "'db idb_api \<Rightarrow> jsstring \<Rightarrow> ('db idb_storage, unit) storage_op" where
  "idb_storage_clear api addonId s =
     (case idb_tx api s of
        (Inl e, s') \<Rightarrow> (Inl e, s')
      | (Inr _, s') \<Rightarrow>
          (let prefix = addonId @ js '' '' in
           case idb_cursor api prefix (range_end prefix) (ib_db s') of
             Inl name \<Rightarrow> (Inl (RequestError name), s')
           | Inr ks \<Rightarrow>
               (case cursor_deletes api ks (ib_db s') of
                  Inl name \<Rightarrow> (Inl (RequestError name), s')
                | Inr db \<Rightarrow> (Inr (), s'\<lparr>ib_db := db\<rparr>))))"

definition idb_storage_close :: "'db idb_storage \<Rightarrow> 'db idb_storage" where
  "idb_storage_close s = s\<lparr>ib_closed := True, ib_dbPromise := None\<rparr>"

definition idb_backend :: "'db idb_api \<Rightarrow> 'db idb_storage storage_backend" where
  "idb_backend api = \<lparr>sb_get = idb_storage_get api, sb_put = idb_storage_put api, sb_delete = idb_storage_delete api,
     sb_list = idb_storage_list api, sb_clear = idb_storage_clear api\<rparr>"

subsection \<open>Keys of different add-ons\<close>

text \<open>An add-on id without a space; every reverse-DNS id is one.\<close>

definition plain_id :: "jsstring \<Rightarrow> bool" where
  "plain_id a = (ch CHR '' '' \<notin> set a)"

lemma addon_id_plain: "rx_match ADDON_ID a \<Longrightarrow> plain_id a"
  using addon_id_chars [of a "ch CHR '' ''"]
  by (auto simp: plain_id_def in_cls_def LOWER_def DIGITS_def)

lemma namespaceKey_Cons: "namespaceKey a k = a @ ch CHR '' '' # k"
  by (simp add: namespaceKey_def js_def)

lemma namespaceKey_inj:
  assumes "plain_id a" "plain_id b"
  shows "namespaceKey a k = namespaceKey b l \<longleftrightarrow> a = b \<and> k = l"
proof
  let ?P = "\<lambda>c. c \<noteq> ch CHR '' ''"
  have tw: "takeWhile ?P (namespaceKey a k) = a \<and> dropWhile ?P (namespaceKey a k) = ch CHR '' '' # k"
    if "plain_id a" for a k
    unfolding namespaceKey_Cons by (rule takeWhile_append_stop) (use that in \<open>auto simp: plain_id_def\<close>)
  assume "namespaceKey a k = namespaceKey b l"
  with tw [OF assms(1), of k] tw [OF assms(2), of l] show "a = b \<and> k = l" by (metis list.inject)
qed simp

text \<open>The map an add-on sees in a store of full keys.\<close>

type_synonym namespaces = "jsstring \<Rightarrow> jsstring \<Rightarrow> storage_record option"

definition ns_of :: "(jsstring \<Rightarrow> storage_record option) \<Rightarrow> namespaces" where
  "ns_of c a k = (if plain_id a then c (namespaceKey a k) else None)"

lemma ns_of_update: "plain_id a \<Longrightarrow> ns_of (c(namespaceKey a k := v)) = (ns_of c)(a := (ns_of c a)(k := v))"
  by (auto simp: ns_of_def fun_eq_iff namespaceKey_inj)

lemma ns_of_cleared:
  assumes "plain_id a" "\<And>x. c' x = (if \<exists>l. x = namespaceKey a l then None else c x)"
  shows "ns_of c' = (ns_of c)(a := Map.empty)"
proof (intro ext)
  fix b k
  have "(\<exists>l. namespaceKey b k = namespaceKey a l) \<longleftrightarrow> b = a" if "plain_id b"
    using namespaceKey_inj [OF that assms(1)] by simp
  then show "ns_of c' b k = ((ns_of c)(a := Map.empty)) b k"
    by (cases "b = a") (auto simp: ns_of_def assms(2))
qed

lemma namespaced_iff: "startsWith x (a @ js '' '') \<longleftrightarrow> (\<exists>l. x = namespaceKey a l)"
proof
  assume "startsWith x (a @ js '' '')"
  then have "x = (a @ js '' '') @ drop (length (a @ js '' '')) x"
    unfolding startsWith_def by (metis append_take_drop_id)
  then show "\<exists>l. x = namespaceKey a l" by (auto simp: namespaceKey_def)
qed (auto simp: startsWith_def namespaceKey_def)

lemma drop_namespaceKey [simp]: "drop (Suc (length a)) (namespaceKey a l) = l"
  by (simp add: namespaceKey_def)

subsection \<open>What an add-on is promised\<close>

text \<open>The calls an add-on can make, their answers, and the map they work on.\<close>

datatype storage_call = CGet jsval | CPut jsnum jsval jsval | CDelete jsval | CList | CClear

datatype storage_answer = AValue jsval | ADone | AKeys "jsstring list"

definition addon_call :: "'s storage_backend \<Rightarrow> jsstring \<Rightarrow> storage_call \<Rightarrow> ('s, storage_answer) storage_op" where
  "addon_call B a call s =
     (case call of
        CGet key \<Rightarrow> apfst (map_sum id AValue) (addon_get B a key s)
      | CPut now key v \<Rightarrow> apfst (map_sum id (\<lambda>_. ADone)) (addon_put B now a key v s)
      | CDelete key \<Rightarrow> apfst (map_sum id (\<lambda>_. ADone)) (addon_delete B a key s)
      | CList \<Rightarrow> apfst (map_sum id AKeys) (addon_list B a s)
      | CClear \<Rightarrow> apfst (map_sum id (\<lambda>_. ADone)) (addon_clear B a s))"

fun spec_call :: "storage_call \<Rightarrow> (jsstring \<Rightarrow> storage_record option) \<Rightarrow>
    (storage_failure + storage_answer) \<times> (jsstring \<Rightarrow> storage_record option)" where
  "spec_call (CGet key) m =
     (case validateKey key of Inl e \<Rightarrow> (Inl e, m)
      | Inr k \<Rightarrow> (Inr (AValue (case m k of None \<Rightarrow> Null | Some r \<Rightarrow> or_null (rec_value r))), m))"
| "spec_call (CPut now key v) m =
     (case validateKey key of Inl e \<Rightarrow> (Inl e, m)
      | Inr k \<Rightarrow> if approximateBytes v > MAX_VALUE_BYTES then (Inl (StorageError ValueTooLarge ''''), m)
          else (Inr ADone, m(k \<mapsto> \<lparr>rec_value = v, rec_updatedAt = now\<rparr>)))"
| "spec_call (CDelete key) m =
     (case validateKey key of Inl e \<Rightarrow> (Inl e, m) | Inr k \<Rightarrow> (Inr ADone, m(k := None)))"
| "spec_call CList m = (Inr (AKeys (sorted_list_of_set (dom m))), m)"
| "spec_call CClear m = (Inr ADone, Map.empty)"

text \<open>
  The contract of a backend: for each add-on, \<open>ns\<close> is the map it keeps; every operation does its
  effect on that map or fails and leaves it. \<open>key_ok\<close> are the keys it keeps its promise for.
\<close>

locale storage_backend =
  fixes B :: "'s storage_backend"
    and ns :: "'s \<Rightarrow> namespaces"
    and inv :: "'s \<Rightarrow> bool"
    and key_ok :: "jsstring \<Rightarrow> bool"
  assumes get_law: "\<lbrakk>inv s; plain_id a; sb_get B a k s = (res, s')\<rbrakk>
      \<Longrightarrow> inv s' \<and> ns s' = ns s \<and> (\<forall>r. res = Inr r \<longrightarrow> r = ns s a k)"
    and put_law: "\<lbrakk>inv s; plain_id a; key_ok k; sb_put B a k r s = (res', s')\<rbrakk>
      \<Longrightarrow> inv s' \<and> ns s' = (if is_ok res' then (ns s)(a := (ns s a)(k \<mapsto> r)) else ns s)"
    and delete_law: "\<lbrakk>inv s; plain_id a; sb_delete B a k s = (res', s')\<rbrakk>
      \<Longrightarrow> inv s' \<and> ns s' = (if is_ok res' then (ns s)(a := (ns s a)(k := None)) else ns s)"
    and list_law: "\<lbrakk>inv s; plain_id a; sb_list B a s = (res'', s')\<rbrakk>
      \<Longrightarrow> inv s' \<and> ns s' = ns s \<and> (\<forall>ks. res'' = Inr ks \<longrightarrow> sorted ks \<and> distinct ks \<and> set ks = dom (ns s a))"
    and clear_law: "\<lbrakk>inv s; plain_id a; sb_clear B a s = (res', s')\<rbrakk>
      \<Longrightarrow> inv s' \<and> ns s' = (if is_ok res' then (ns s)(a := Map.empty) else ns s)"

fun call_ok :: "(jsstring \<Rightarrow> bool) \<Rightarrow> storage_call \<Rightarrow> bool" where
  "call_ok key_ok (CPut _ (Str k) _) = key_ok k"
| "call_ok key_ok _ = True"

context storage_backend begin

lemma list_is_sorted_dom:
  assumes "inv s" "plain_id a" "sb_list B a s = (Inr ks, s')"
  shows "ks = sorted_list_of_set (dom (ns s a))"
  using list_law [OF assms] sorted_list_of_set.idem_if_sorted_distinct [of ks] by simp

text \<open>Each call of an add-on does what it does on a private map, or fails and changes nothing.\<close>

theorem call_refines:
  assumes "inv s" "plain_id a" "call_ok key_ok call" "addon_call B a call s = (res, s')"
  shows "inv s' \<and> ((res, ns s') = (fst (spec_call call (ns s a)), (ns s)(a := snd (spec_call call (ns s a))))
    \<or> (\<exists>e. res = Inl e) \<and> ns s' = ns s)"
proof (cases call)
  case (CGet key)
  show ?thesis
  proof (cases "validateKey key")
    case (Inr k)
    obtain r s1 where r: "sb_get B a k s = (r, s1)" by (cases "sb_get B a k s")
    with get_law [OF assms(1,2) r] Inr CGet assms(4) show ?thesis
      by (cases r) (auto simp: addon_call_def addon_get_def)
  qed (use CGet assms in \<open>auto simp: addon_call_def addon_get_def\<close>)
next
  case (CPut now key v)
  show ?thesis
  proof (cases "validateKey key")
    case (Inr k)
    then have ok: "key_ok k"
      using assms(3) CPut by (cases key) (auto simp: validateKey_def split: if_splits)
    obtain r s1 where r: "sb_put B a k \<lparr>rec_value = v, rec_updatedAt = now\<rparr> s = (r, s1)"
      by (cases "sb_put B a k \<lparr>rec_value = v, rec_updatedAt = now\<rparr> s")
    with put_law [OF assms(1,2) ok r] Inr CPut assms(1,4) show ?thesis
      by (cases r) (auto simp: addon_call_def addon_put_def split: if_splits)
  qed (use CPut assms in \<open>auto simp: addon_call_def addon_put_def\<close>)
next
  case (CDelete key)
  show ?thesis
  proof (cases "validateKey key")
    case (Inr k)
    obtain r s1 where r: "sb_delete B a k s = (r, s1)" by (cases "sb_delete B a k s")
    with delete_law [OF assms(1,2) r] Inr CDelete assms(4) show ?thesis
      by (cases r) (auto simp: addon_call_def addon_delete_def)
  qed (use CDelete assms in \<open>auto simp: addon_call_def addon_delete_def\<close>)
next
  case CList
  obtain r s1 where r: "sb_list B a s = (r, s1)" by (cases "sb_list B a s")
  with list_law [OF assms(1,2) r] list_is_sorted_dom [OF assms(1,2)] CList assms(4) show ?thesis
    by (cases r) (auto simp: addon_call_def addon_list_def)
next
  case CClear
  obtain r s1 where r: "sb_clear B a s = (r, s1)" by (cases "sb_clear B a s")
  with clear_law [OF assms(1,2) r] CClear assms(4) show ?thesis
    by (cases r) (auto simp: addon_call_def addon_clear_def)
qed

text \<open>No call changes what another add-on sees.\<close>

lemma call_isolated:
  assumes "inv s" "plain_id a" "call_ok key_ok call" "addon_call B a call s = (res, s')" "b \<noteq> a"
  shows "ns s' b = ns s b"
  using call_refines [OF assms(1-4)] assms(5) by auto

end

subsection \<open>Runs of calls\<close>

fun storage_run :: "'s storage_backend \<Rightarrow> (jsstring \<times> storage_call) list \<Rightarrow> 's \<Rightarrow> (storage_failure + storage_answer) list" where
  "storage_run B [] s = []"
| "storage_run B ((a, call) # calls) s =
     (let (res, s') = addon_call B a call s in res # storage_run B calls s')"

fun spec_run :: "(jsstring \<times> storage_call) list \<Rightarrow> namespaces \<Rightarrow> (storage_failure + storage_answer) list" where
  "spec_run [] m = []"
| "spec_run ((a, call) # calls) m =
     (let (res, m') = spec_call call (m a) in res # spec_run calls (m(a := m')))"

lemma is_ok_map_sum [simp]: "is_ok (map_sum f g r) = is_ok r"
  by (cases r) simp_all

text \<open>A backend none of whose operations fails while it is \<open>ready\<close>.\<close>

locale storage_backend_total = storage_backend B ns inv key_ok
  for B :: "'s storage_backend" and ns inv key_ok +
  fixes ready :: "'s \<Rightarrow> bool"
  assumes get_ready: "ready s \<Longrightarrow> sb_get B a k s = (res, s') \<Longrightarrow> is_ok res \<and> ready s'"
    and put_ready: "ready s \<Longrightarrow> sb_put B a k r s = (res', s') \<Longrightarrow> is_ok res' \<and> ready s'"
    and delete_ready: "ready s \<Longrightarrow> sb_delete B a k s = (res', s') \<Longrightarrow> is_ok res' \<and> ready s'"
    and list_ready: "ready s \<Longrightarrow> sb_list B a s = (res'', s') \<Longrightarrow> is_ok res'' \<and> ready s'"
    and clear_ready: "ready s \<Longrightarrow> sb_clear B a s = (res', s') \<Longrightarrow> is_ok res' \<and> ready s'"

context storage_backend_total begin

lemma call_total:
  assumes "inv s" "plain_id a" "call_ok key_ok call" "ready s" "addon_call B a call s = (res, s')"
  shows "inv s' \<and> ready s' \<and> (res, ns s') = (fst (spec_call call (ns s a)), (ns s)(a := snd (spec_call call (ns s a))))"
proof -
  have "ready s' \<and> (is_ok res \<or> res = fst (spec_call call (ns s a)) \<and> ns s' = (ns s)(a := snd (spec_call call (ns s a))))"
  proof (cases call)
    case (CGet key)
    obtain r s1 where "sb_get B a (str_of key) s = (r, s1)" by (cases "sb_get B a (str_of key) s")
    with CGet assms(4,5) get_ready [OF assms(4) this] show ?thesis
      by (cases key; cases r) (auto simp: addon_call_def addon_get_def validateKey_def split: if_splits)
  next
    case (CPut now key v)
    let ?r = "\<lparr>rec_value = v, rec_updatedAt = now\<rparr>"
    obtain r s1 where "sb_put B a (str_of key) ?r s = (r, s1)" by (cases "sb_put B a (str_of key) ?r s")
    with CPut assms(4,5) put_ready [OF assms(4) this] show ?thesis
      by (cases key; cases r) (auto simp: addon_call_def addon_put_def validateKey_def split: if_splits)
  next
    case (CDelete key)
    obtain r s1 where "sb_delete B a (str_of key) s = (r, s1)" by (cases "sb_delete B a (str_of key) s")
    with CDelete assms(4,5) delete_ready [OF assms(4) this] show ?thesis
      by (cases key; cases r) (auto simp: addon_call_def addon_delete_def validateKey_def split: if_splits)
  next
    case CList
    obtain r s1 where "sb_list B a s = (r, s1)" by (cases "sb_list B a s")
    with CList assms(5) list_ready [OF assms(4) this] show ?thesis
      by (auto simp: addon_call_def addon_list_def)
  next
    case CClear
    obtain r s1 where "sb_clear B a s = (r, s1)" by (cases "sb_clear B a s")
    with CClear assms(5) clear_ready [OF assms(4) this] show ?thesis
      by (auto simp: addon_call_def addon_clear_def)
  qed
  with call_refines [OF assms(1-3,5)] show ?thesis by auto
qed

theorem run_refines:
  assumes "inv s" "ready s" "list_all (\<lambda>(a, call). plain_id a \<and> call_ok key_ok call) calls"
  shows "storage_run B calls s = spec_run calls (ns s)"
  using assms
proof (induction calls arbitrary: s)
  case (Cons ac calls)
  obtain a call res s' where ac: "ac = (a, call)" and c: "addon_call B a call s = (res, s')"
    by (metis surj_pair)
  have p: "plain_id a" "call_ok key_ok call" using Cons.prems(3) ac by auto
  from call_total [OF Cons.prems(1) p Cons.prems(2) c] Cons show ?case
    by (auto simp: ac c Let_def split: prod.splits)
qed simp

end

subsection \<open>The in-memory backend keeps the contract\<close>

definition memory_ns :: "memory_storage \<Rightarrow> namespaces" where
  "memory_ns s = ns_of (map_of (mem_map s))"

definition memory_inv :: "memory_storage \<Rightarrow> bool" where
  "memory_inv s = distinct (map fst (mem_map s))"

lemma memory_list_keys:
  assumes "distinct (map fst m)" "plain_id a"
  shows "distinct (map (drop (length (a @ js '' ''))) (filter (\<lambda>k. startsWith k (a @ js '' '')) (map fst m)))
    \<and> set (map (drop (length (a @ js '' ''))) (filter (\<lambda>k. startsWith k (a @ js '' '')) (map fst m))) = dom (ns_of (map_of m) a)"
proof -
  let ?d = "drop (length (a @ js '' ''))"
  have k: "x = namespaceKey a (?d x)" if "startsWith x (a @ js '' '')" for x
    using that by (auto simp: namespaced_iff)
  have "inj_on ?d (set (filter (\<lambda>k. startsWith k (a @ js '' '')) (map fst m)))"
  proof (rule inj_onI)
    fix x y assume "x \<in> set (filter (\<lambda>k. startsWith k (a @ js '' '')) (map fst m))"
      "y \<in> set (filter (\<lambda>k. startsWith k (a @ js '' '')) (map fst m))" "?d x = ?d y"
    with k [of x] k [of y] show "x = y" by auto
  qed
  moreover have "distinct (filter (\<lambda>k. startsWith k (a @ js '' '')) (map fst m))"
    using assms(1) by simp
  moreover have "?d ` set (filter (\<lambda>k. startsWith k (a @ js '' '')) (map fst m)) = dom (ns_of (map_of m) a)"
  proof (intro set_eqI iffI)
    fix l assume "l \<in> ?d ` set (filter (\<lambda>k. startsWith k (a @ js '' '')) (map fst m))"
    then obtain x where "x \<in> set (map fst m)" "startsWith x (a @ js '' '')" "l = ?d x" by auto
    then have "namespaceKey a l \<in> dom (map_of m)" using k by (simp add: dom_map_of_conv_image_fst)
    then show "l \<in> dom (ns_of (map_of m) a)" using assms(2) by (auto simp: ns_of_def)
  next
    fix l assume "l \<in> dom (ns_of (map_of m) a)"
    then have "namespaceKey a l \<in> dom (map_of m)" by (auto simp: ns_of_def split: if_splits)
    then have "namespaceKey a l \<in> set (filter (\<lambda>k. startsWith k (a @ js '' '')) (map fst m))"
      by (auto simp: dom_map_of_conv_image_fst namespaced_iff)
    then show "l \<in> ?d ` set (filter (\<lambda>k. startsWith k (a @ js '' '')) (map fst m))"
      by (rule rev_image_eqI) simp
  qed
  ultimately show ?thesis by (simp add: distinct_map)
qed

lemma fold_al_del:
  "distinct (map fst m) \<Longrightarrow> distinct (map fst (fold (\<lambda>k m. if P k then al_del k m else m) ks m))
    \<and> map_of (fold (\<lambda>k m. if P k then al_del k m else m) ks m) = (\<lambda>x. if P x \<and> x \<in> set ks then None else map_of m x)"
  by (induction ks arbitrary: m) (auto simp: fun_eq_iff)

lemma memory_cleared:
  assumes "distinct (map fst m)" "plain_id a"
  shows "ns_of (map_of (fold (\<lambda>k m. if startsWith k (a @ js '' '') then al_del k m else m) (map fst m) m))
    = (ns_of (map_of m))(a := Map.empty)"
proof (rule ns_of_cleared [OF assms(2)])
  fix x
  show "map_of (fold (\<lambda>k m. if startsWith k (a @ js '' '') then al_del k m else m) (map fst m) m) x
      = (if \<exists>l. x = namespaceKey a l then None else map_of m x)"
    using fold_al_del [OF assms(1)] by (auto simp: namespaced_iff map_of_eq_None_iff)
qed

interpretation memory: storage_backend_total memory_backend memory_ns memory_inv "\<lambda>_. True" "\<lambda>s. \<not> mem_closed s"
proof unfold_locales
  fix s s' a and res :: "storage_failure + jsstring list"
  assume "memory_inv s" "plain_id a" "sb_list memory_backend a s = (res, s')"
  then show "memory_inv s' \<and> memory_ns s' = memory_ns s
      \<and> (\<forall>ks. res = Inr ks \<longrightarrow> sorted ks \<and> distinct ks \<and> set ks = dom (memory_ns s a))"
    using memory_list_keys [of "mem_map s" a]
    by (auto simp: memory_backend_def memory_list_def memory_inv_def memory_ns_def Let_def split: if_splits)
next
  fix s s' a and res :: "storage_failure + unit"
  assume "memory_inv s" "plain_id a" "sb_clear memory_backend a s = (res, s')"
  then show "memory_inv s' \<and> memory_ns s' = (if is_ok res then (memory_ns s)(a := Map.empty) else memory_ns s)"
    using memory_cleared [of "mem_map s" a] fold_al_del [of "mem_map s" "\<lambda>k. startsWith k (a @ js '' '')" "map fst (mem_map s)"]
    by (auto simp: memory_backend_def memory_clear_def memory_inv_def memory_ns_def Let_def split: if_splits)
qed (auto simp: memory_backend_def memory_get_def memory_put_def memory_delete_def memory_list_def memory_clear_def
    memory_inv_def memory_ns_def ns_of_update Let_def ns_of_def [of _ _ k for k] split: if_splits)

subsection \<open>The IndexedDB backend keeps it too\<close>

text \<open>
  What IndexedDB documents: requests read and write the map \<open>content\<close>; a cursor over a range visits
  the keys of the range, once each.
\<close>

definition idb_ok :: "'db idb_api \<Rightarrow> ('db \<Rightarrow> jsstring \<Rightarrow> storage_record option) \<Rightarrow> bool" where
  "idb_ok api content \<longleftrightarrow>
     (\<forall>db k r. idb_get api k db = Inr r \<longrightarrow> r = content db k)
   \<and> (\<forall>db k r db'. idb_put api r k db = Inr db' \<longrightarrow> content db' = (content db)(k \<mapsto> r))
   \<and> (\<forall>db k db'. idb_delete api k db = Inr db' \<longrightarrow> content db' = (content db)(k := None))
   \<and> (\<forall>db lo hi ks. idb_cursor api lo hi db = Inr ks \<longrightarrow>
        distinct ks \<and> set ks = {k. content db k \<noteq> None \<and> lo \<le> k \<and> k \<le> hi})"

text \<open>The keys the range of a namespace covers: those up to the string of the last code unit.\<close>

definition in_range :: "jsstring \<Rightarrow> bool" where
  "in_range k = (k \<le> [0xFFFF])"

lemma range_of_prefix: "p \<le> x \<and> x \<le> p @ u \<longleftrightarrow> (\<exists>l. x = p @ l \<and> l \<le> u)" for p x u :: jsstring
proof (induction p arbitrary: x)
  case (Cons c p)
  show ?case
  proof (cases x)
    case (Cons d y)
    have "(c < d \<or> c = d \<and> p \<le> y) \<and> (d < c \<or> d = c \<and> y \<le> p @ u) \<longleftrightarrow> c = d \<and> p \<le> y \<and> y \<le> p @ u"
      by (meson less_asym)
    with Cons.IH [of y] show ?thesis by (auto simp: Cons)
  qed simp
qed simp

lemma namespace_range:
  "a @ js '' '' \<le> x \<and> x \<le> range_end (a @ js '' '') \<longleftrightarrow> (\<exists>l. x = namespaceKey a l \<and> in_range l)"
  using range_of_prefix [of "a @ js '' ''" x "[0xFFFF]"]
  by (simp add: range_end_def in_range_def namespaceKey_def)

definition idb_ns :: "('db \<Rightarrow> jsstring \<Rightarrow> storage_record option) \<Rightarrow> 'db idb_storage \<Rightarrow> namespaces" where
  "idb_ns content s = ns_of (content (ib_db s))"

definition idb_inv :: "('db \<Rightarrow> jsstring \<Rightarrow> storage_record option) \<Rightarrow> 'db idb_storage \<Rightarrow> bool" where
  "idb_inv content s \<longleftrightarrow> (\<forall>a l. plain_id a \<longrightarrow> content (ib_db s) (namespaceKey a l) \<noteq> None \<longrightarrow> in_range l)"

lemma idb_tx_db: "idb_tx api s = (r, s') \<Longrightarrow> ib_db s' = ib_db s"
  by (auto simp: idb_tx_def idb_openDb_def Let_def split: if_splits option.splits)

lemma cursor_deletes_content:
  "idb_ok api content \<Longrightarrow> cursor_deletes api ks db = Inr db' \<Longrightarrow>
   content db' = (\<lambda>x. if x \<in> set ks then None else content db x)"
proof (induction ks arbitrary: db)
  case (Cons k ks)
  from Cons.prems(2) obtain db1 where d: "idb_delete api k db = Inr db1" "cursor_deletes api ks db1 = Inr db'"
    by (auto split: sum.splits)
  with Cons.prems(1) have "content db1 = (content db)(k := None)"
    unfolding idb_ok_def by blast
  with Cons.IH [OF Cons.prems(1) d(2)] show ?case by auto
qed auto

lemma idb_listed:
  assumes "idb_ok api content" "idb_inv content s" "plain_id a"
    and "idb_cursor api (a @ js '' '') (range_end (a @ js '' '')) (ib_db s) = Inr ks"
  shows "distinct (map (drop (Suc (length a))) ks) \<and> set (map (drop (Suc (length a))) ks) = dom (idb_ns content s a)
    \<and> set ks = {x. content (ib_db s) x \<noteq> None \<and> (\<exists>l. x = namespaceKey a l)}"
proof -
  from assms(1,4) have "distinct ks"
    and "set ks = {x. content (ib_db s) x \<noteq> None \<and> a @ js '' '' \<le> x \<and> x \<le> range_end (a @ js '' '')}"
    unfolding idb_ok_def by blast+
  then have d: "distinct ks" and ks: "set ks = {x. content (ib_db s) x \<noteq> None \<and> (\<exists>l. x = namespaceKey a l)}"
    using assms(2,3) unfolding namespace_range idb_inv_def by auto
  have "inj_on (drop (Suc (length a))) (set ks)"
    unfolding ks by (rule inj_onI) auto
  moreover have "drop (Suc (length a)) ` set ks = dom (idb_ns content s a)"
    unfolding ks using assms(3) by (force simp: idb_ns_def ns_of_def image_iff)
  ultimately show ?thesis using d ks by (simp add: distinct_map)
qed

lemma idb_clear_ok:
  assumes "idb_storage_clear api a s = (res, s')" "is_ok res"
  shows "\<exists>s1 u ks db. idb_tx api s = (Inr u, s1) \<and> idb_cursor api (a @ js '' '') (range_end (a @ js '' '')) (ib_db s1) = Inr ks
    \<and> cursor_deletes api ks (ib_db s1) = Inr db \<and> s' = s1\<lparr>ib_db := db\<rparr>"
proof -
  obtain r s1 where t: "idb_tx api s = (r, s1)" by (cases "idb_tx api s")
  show ?thesis
  proof (cases r)
    case (Inr u)
    let ?c = "idb_cursor api (a @ js '' '') (range_end (a @ js '' '')) (ib_db s1)"
    show ?thesis
    proof (cases ?c)
      case ks: (Inr ks)
      show ?thesis
        using assms t Inr ks by (cases "cursor_deletes api ks (ib_db s1)") (auto simp: idb_storage_clear_def Let_def)
    qed (use assms t Inr in \<open>auto simp: idb_storage_clear_def Let_def\<close>)
  qed (use assms t in \<open>auto simp: idb_storage_clear_def\<close>)
qed

lemma none_twice: "(if p \<noteq> None \<and> Q then None else p) = (if Q then None else p)"
  by auto

theorem idb_is_backend:
  assumes ok: "idb_ok api content"
  shows "storage_backend (idb_backend api) (idb_ns content) (idb_inv content) in_range"
proof
  fix s s' a k and res :: "storage_failure + storage_record option"
  assume "idb_inv content s" "plain_id a" "sb_get (idb_backend api) a k s = (res, s')"
  with ok show "idb_inv content s' \<and> idb_ns content s' = idb_ns content s \<and> (\<forall>r. res = Inr r \<longrightarrow> r = idb_ns content s a k)"
    by (auto simp: idb_backend_def idb_storage_get_def idb_inv_def idb_ns_def ns_of_def idb_ok_def
        split: prod.splits sum.splits dest!: idb_tx_db)
next
  fix s s' a k r and res :: "storage_failure + unit"
  assume a: "idb_inv content s" "plain_id a" "in_range k" "sb_put (idb_backend api) a k r s = (res, s')"
  show "idb_inv content s' \<and> idb_ns content s' = (if is_ok res then (idb_ns content s)(a := (idb_ns content s a)(k \<mapsto> r)) else idb_ns content s)"
  proof (cases "is_ok res")
    case True
    with a(4) obtain s1 u db where "idb_tx api s = (Inr u, s1)" "idb_put api r (namespaceKey a k) (ib_db s1) = Inr db"
      "s' = s1\<lparr>ib_db := db\<rparr>"
      by (auto simp: idb_backend_def idb_storage_put_def split: prod.splits sum.splits if_splits)
    with ok have c: "content (ib_db s') = (content (ib_db s))(namespaceKey a k \<mapsto> r)"
      using idb_tx_db unfolding idb_ok_def by fastforce
    then have "idb_inv content s'"
      using a(1-3) unfolding idb_inv_def c by (auto simp: namespaceKey_inj)
    with c True a(2) show ?thesis by (simp add: idb_ns_def ns_of_update)
  next
    case False
    with a show ?thesis
      by (auto simp: idb_backend_def idb_storage_put_def idb_inv_def idb_ns_def split: prod.splits sum.splits if_splits
          dest!: idb_tx_db)
  qed
next
  fix s s' a k and res :: "storage_failure + unit"
  assume a: "idb_inv content s" "plain_id a" "sb_delete (idb_backend api) a k s = (res, s')"
  show "idb_inv content s' \<and> idb_ns content s' = (if is_ok res then (idb_ns content s)(a := (idb_ns content s a)(k := None)) else idb_ns content s)"
  proof (cases "is_ok res")
    case True
    with a(3) obtain s1 u db where "idb_tx api s = (Inr u, s1)" "idb_delete api (namespaceKey a k) (ib_db s1) = Inr db"
      "s' = s1\<lparr>ib_db := db\<rparr>"
      by (auto simp: idb_backend_def idb_storage_delete_def split: prod.splits sum.splits)
    with ok have c: "content (ib_db s') = (content (ib_db s))(namespaceKey a k := None)"
      using idb_tx_db unfolding idb_ok_def by fastforce
    with True a(1,2) show ?thesis by (auto simp: idb_inv_def idb_ns_def ns_of_update)
  next
    case False
    with a show ?thesis
      by (auto simp: idb_backend_def idb_storage_delete_def idb_inv_def idb_ns_def split: prod.splits sum.splits
          dest!: idb_tx_db)
  qed
next
  fix s s' a and res :: "storage_failure + jsstring list"
  assume a: "idb_inv content s" "plain_id a" "sb_list (idb_backend api) a s = (res, s')"
  then have same: "ib_db s' = ib_db s"
    by (auto simp: idb_backend_def idb_storage_list_def Let_def split: prod.splits sum.splits dest!: idb_tx_db)
  have "sorted ks \<and> distinct ks \<and> set ks = dom (idb_ns content s a)" if "res = Inr ks" for ks
  proof -
    from a(3) that obtain s1 u ks0 where "idb_tx api s = (Inr u, s1)"
      "idb_cursor api (a @ js '' '') (range_end (a @ js '' '')) (ib_db s1) = Inr ks0" "ks = sort (map (drop (Suc (length a))) ks0)"
      by (auto simp: idb_backend_def idb_storage_list_def Let_def split: prod.splits sum.splits)
    moreover from this have "idb_cursor api (a @ js '' '') (range_end (a @ js '' '')) (ib_db s) = Inr ks0"
      using idb_tx_db by metis
    from idb_listed [OF ok a(1,2) this] have "distinct (map (drop (Suc (length a))) ks0)"
      "set (map (drop (Suc (length a))) ks0) = dom (idb_ns content s a)" by blast+
    ultimately show ?thesis by simp
  qed
  with a(1) same show "idb_inv content s' \<and> idb_ns content s' = idb_ns content s
      \<and> (\<forall>ks. res = Inr ks \<longrightarrow> sorted ks \<and> distinct ks \<and> set ks = dom (idb_ns content s a))"
    by (simp add: idb_inv_def idb_ns_def)
next
  fix s s' a and res :: "storage_failure + unit"
  assume a: "idb_inv content s" "plain_id a" "sb_clear (idb_backend api) a s = (res, s')"
  show "idb_inv content s' \<and> idb_ns content s' = (if is_ok res then (idb_ns content s)(a := Map.empty) else idb_ns content s)"
  proof (cases "is_ok res")
    case True
    with a(3) obtain s1 u ks db where t: "idb_tx api s = (Inr u, s1)"
      and k: "idb_cursor api (a @ js '' '') (range_end (a @ js '' '')) (ib_db s1) = Inr ks"
      and d: "cursor_deletes api ks (ib_db s1) = Inr db" and s': "s' = s1\<lparr>ib_db := db\<rparr>"
      by (auto simp: idb_backend_def dest!: idb_clear_ok)
    have gone: "content db x = (if x \<in> set ks then None else content (ib_db s) x)" for x
      using cursor_deletes_content [OF ok d] idb_tx_db [OF t] by simp
    have "set ks = {x. content (ib_db s) x \<noteq> None \<and> (\<exists>l. x = namespaceKey a l)}"
      using idb_listed [OF ok a(1,2), of ks] k idb_tx_db [OF t] by simp
    then have keys: "x \<in> set ks \<longleftrightarrow> content (ib_db s) x \<noteq> None \<and> (\<exists>l. x = namespaceKey a l)" for x
      by (rule ssubst) (rule mem_Collect_eq)
    have c: "content db x = (if \<exists>l. x = namespaceKey a l then None else content (ib_db s) x)" for x
      unfolding gone keys by (rule none_twice)
    have "idb_inv content s'"
      unfolding idb_inv_def
    proof (intro allI impI)
      fix b l assume "plain_id b" "content (ib_db s') (namespaceKey b l) \<noteq> None"
      moreover from this(2) have "content (ib_db s) (namespaceKey b l) \<noteq> None"
        using c [of "namespaceKey b l"] unfolding s' by (metis idb_storage.select_convs(3) idb_storage.update_convs(3) idb_storage.surjective)
      ultimately show "in_range l" using a(1) unfolding idb_inv_def by blast
    qed
    with ns_of_cleared [OF a(2) c] True show ?thesis by (simp add: idb_ns_def s')
  next
    case False
    with a show ?thesis
      by (auto simp: idb_backend_def idb_storage_clear_def idb_inv_def idb_ns_def Let_def split: prod.splits sum.splits
          dest!: idb_tx_db)
  qed
qed

text \<open>
  A key that begins with the last code unit and goes on is above the range: it is stored and read,
  but listing does not show it and clearing does not remove it.
\<close>

lemma idb_key_above_range:
  assumes ok: "idb_ok api content" and a: "plain_id a" "\<not> in_range k"
  shows "idb_storage_list api a s = (Inr ks, s') \<Longrightarrow> k \<notin> set ks"
    and "idb_storage_clear api a s = (Inr u, s') \<Longrightarrow> idb_ns content s' a k = idb_ns content s a k"
proof -
  have out: "namespaceKey a k \<notin> set xs"
    if "idb_cursor api (a @ js '' '') (range_end (a @ js '' '')) db = Inr xs" for xs db
  proof -
    have "set xs = {x. content db x \<noteq> None \<and> a @ js '' '' \<le> x \<and> x \<le> range_end (a @ js '' '')}"
      using ok that unfolding idb_ok_def by blast
    then show ?thesis using a(2) unfolding namespace_range by (auto simp: namespaceKey_def)
  qed
  have pre: "\<exists>l. x = namespaceKey a l"
    if "idb_cursor api (a @ js '' '') (range_end (a @ js '' '')) db = Inr xs" "x \<in> set xs" for xs x db
  proof -
    have "set xs = {x. content db x \<noteq> None \<and> a @ js '' '' \<le> x \<and> x \<le> range_end (a @ js '' '')}"
      using ok that(1) unfolding idb_ok_def by blast
    then show ?thesis using that(2) unfolding namespace_range by auto
  qed
  show "k \<notin> set ks" if "idb_storage_list api a s = (Inr ks, s')"
  proof -
    from that obtain db xs where xs: "idb_cursor api (a @ js '' '') (range_end (a @ js '' '')) db = Inr xs"
      "set ks = drop (Suc (length a)) ` set xs"
      by (auto simp: idb_storage_list_def Let_def split: prod.splits sum.splits)
    have "x = namespaceKey a (drop (Suc (length a)) x)" if "x \<in> set xs" for x
      using pre [OF xs(1) that] by auto
    with out [OF xs(1)] xs(2) show ?thesis by (metis imageE)
  qed
  show "idb_ns content s' a k = idb_ns content s a k" if "idb_storage_clear api a s = (Inr u, s')"
  proof -
    from idb_clear_ok [OF that] obtain s1 v xs db where t: "idb_tx api s = (Inr v, s1)"
      and xs: "idb_cursor api (a @ js '' '') (range_end (a @ js '' '')) (ib_db s1) = Inr xs"
      and d: "cursor_deletes api xs (ib_db s1) = Inr db" and s': "s' = s1\<lparr>ib_db := db\<rparr>"
      by auto
    have "content db (namespaceKey a k) = content (ib_db s) (namespaceKey a k)"
      using cursor_deletes_content [OF ok d] out [OF xs] idb_tx_db [OF t] by simp
    then show ?thesis by (simp add: idb_ns_def ns_of_def s')
  qed
qed

lemma call_ok_True: "call_ok (\<lambda>_. True) call"
proof (cases call)
  case (CPut now k v)
  then show ?thesis by (cases k) simp_all
qed simp_all

end
