(* ===== verification/Event_System.thy ===== *)
theory Event_System
  imports Senn_Prelude
begin

text \<open>
  Event-driven components: a configuration (the object's state and the continuations that wait for a
  promise), a step function that runs one event to its end or is \<open>None\<close> when the event cannot happen
  now, and the outputs in the order they are made. The relation \<open>reach\<close> is what a component can come
  to; the two locales are the contracts of an invariant of the configuration and of one that also
  sees the outputs so far. Components discharge them with their own step functions.
\<close>

inductive reach :: "('ev \<Rightarrow> 'c \<Rightarrow> ('c \<times> 'o list) option) \<Rightarrow> 'c \<Rightarrow> 'o list \<Rightarrow> 'c \<Rightarrow> bool"
  for step c0 where
  reach_start: "reach step c0 [] c0"
| reach_step: "reach step c0 os c \<Longrightarrow> step ev c = Some (c', os') \<Longrightarrow> reach step c0 (os @ os') c'"

fun run_events :: "('ev \<Rightarrow> 'c \<Rightarrow> ('c \<times> 'o list) option) \<Rightarrow> 'ev list \<Rightarrow> 'c \<Rightarrow> ('c \<times> 'o list) option" where
  "run_events step [] c = Some (c, [])"
| "run_events step (ev # evs) c =
     (case step ev c of
        None \<Rightarrow> None
      | Some (c1, os) \<Rightarrow> map_option (apsnd (append os)) (run_events step evs c1))"

lemma run_events_reach:
  "reach step c0 os0 c \<Longrightarrow> run_events step evs c = Some (c', os) \<Longrightarrow> reach step c0 (os0 @ os) c'"
proof (induction evs arbitrary: os0 c os)
  case (Cons ev evs)
  from Cons.prems(2) obtain c1 os1 os2 where "step ev c = Some (c1, os1)"
    and r: "run_events step evs c1 = Some (c', os2)" and os: "os = os1 @ os2"
    by (auto split: option.splits)
  then have "reach step c0 (os0 @ os1) c1" using reach_step [OF Cons.prems(1)] by blast
  from Cons.IH [OF this r] show ?case by (simp add: os)
qed simp

lemma run_events_append:
  "run_events step (xs @ ys) c =
     (case run_events step xs c of
        None \<Rightarrow> None
      | Some (c1, os) \<Rightarrow> map_option (apsnd (append os)) (run_events step ys c1))"
proof (induction xs arbitrary: c)
  case (Cons x xs)
  show ?case
  proof (cases "step x c")
    case (Some p)
    then show ?thesis
      using Cons by (cases p) (auto split: option.splits simp: option.map_comp o_def apsnd_compose intro!: option.map_cong)
  qed simp
next
  case Nil
  show ?case by (cases "run_events step ys c") auto
qed

locale preserved =
  fixes step :: "'ev \<Rightarrow> 'c \<Rightarrow> ('c \<times> 'o list) option"
    and I :: "'c \<Rightarrow> bool"
  assumes step_preserves: "I c \<Longrightarrow> step ev c = Some (c', os) \<Longrightarrow> I c'"
begin

lemma reach_preserves: "reach step c0 os c \<Longrightarrow> I c0 \<Longrightarrow> I c"
  by (induction rule: reach.induct) (auto intro: step_preserves)

lemma run_preserves: "run_events step evs c = Some (c', os) \<Longrightarrow> I c \<Longrightarrow> I c'"
  using run_events_reach [OF reach_start] reach_preserves by fastforce

end

locale monitored =
  fixes step :: "'ev \<Rightarrow> 'c \<Rightarrow> ('c \<times> 'o list) option"
    and M :: "'o list \<Rightarrow> 'c \<Rightarrow> bool"
  assumes step_monitored: "M os c \<Longrightarrow> step ev c = Some (c', os') \<Longrightarrow> M (os @ os') c'"
begin

lemma reach_monitored: "reach step c0 os c \<Longrightarrow> M [] c0 \<Longrightarrow> M os c"
  by (induction rule: reach.induct) (auto intro: step_monitored)

end

text \<open>A property of every single output, under an invariant of the configuration.\<close>

locale output_safe = preserved step I
  for step :: "'ev \<Rightarrow> 'c \<Rightarrow> ('c \<times> 'o list) option" and I +
  fixes P :: "'o \<Rightarrow> bool"
  assumes step_outputs: "I c \<Longrightarrow> step ev c = Some (c', os) \<Longrightarrow> list_all P os"
begin

sublocale monitored step "\<lambda>os c. I c \<and> list_all P os"
  by unfold_locales (use step_preserves step_outputs in fastforce)

lemma reach_outputs: "reach step c0 os c \<Longrightarrow> I c0 \<Longrightarrow> list_all P os"
  using reach_monitored by fastforce

end

end
