(* ===== verification/Addon_Manifest.thy ===== *)
theory Addon_Manifest
  imports Envelope Manifest
begin

text \<open>
  The first half of \<open>addon-runtime/src/index.ts\<close>: the schema of an add-on's manifest and
  \<open>AddonHost.load\<close> up to the constructor: fetch, optional signature check on the raw bytes, parsing,
  validation. The network, the URL class and Web Crypto are arguments. The theory shows what a
  manifest that loads satisfies and that in the modes that ask for a signature nothing is accepted
  that Web Crypto has not verified under a trusted key (or, in mode \<open>optional\<close>, that has no signature
  file at all).
\<close>

subsection \<open>The schema\<close>

definition ADDON_ID_PATTERN :: rx where "ADDON_ID_PATTERN = ADDON_ID"
definition SEMVER_PATTERN :: rx where "SEMVER_PATTERN = SEMVER"

definition KNOWN_PERMISSIONS :: "string list" where
  "KNOWN_PERMISSIONS = [''peer.send'', ''peer.receive'', ''peer.send.bin'', ''peer.receive.bin'',
     ''storage.local.read'', ''storage.local.write'', ''file.read.user_selected'', ''file.write.user_approved'',
     ''ui.panel'', ''ui.overlay'', ''presence.read'', ''audio.level'',
     ''media.send.audio'', ''media.send.video'', ''media.receive.audio'', ''media.receive.video'']"

record addon_manifest =
  am_id :: jsstring
  am_name :: jsstring
  am_version :: jsstring
  am_entry :: jsstring
  am_license :: jsstring
  am_permissions :: "jsstring list"
  am_capabilities :: "jsval list"

abbreviation addon_error :: "string \<Rightarrow> err" where
  "addon_error m \<equiv> Thrown ''AddonValidationError'' m"

definition addon_asObject :: "jsval \<Rightarrow> string \<Rightarrow> err + jsfields" where
  "addon_asObject v lbl = as_object ''AddonValidationError'' lbl v"

text \<open>\<open>typeof v !== "string" || !pattern.test(v)\<close>, and \<open>typeof v !== "string" || v.length === 0\<close>.\<close>

definition not_matching :: "rx \<Rightarrow> jsval \<Rightarrow> bool" where
  "not_matching p v = (\<not> is_str v \<or> \<not> rx_match p (str_of v))"

definition no_text :: "jsval \<Rightarrow> bool" where
  "no_text v = (\<not> is_str v \<or> length (str_of v) = 0)"

fun arr_of :: "jsval \<Rightarrow> jsval list" where
  "arr_of (Arr xs) = xs"
| "arr_of _ = []"

fun is_arr :: "jsval \<Rightarrow> bool" where
  "is_arr (Arr _) = True"
| "is_arr _ = False"

definition bad_permission :: "jsval \<Rightarrow> err option" where
  "bad_permission perm =
     (if \<not> is_str perm \<or> str_of perm \<notin> set (map js KNOWN_PERMISSIONS)
      then Some (if unprintable perm then Thrown ''TypeError'' '''' else addon_error ''unknown permission: '') else None)"

definition validateManifest :: "jsval \<Rightarrow> err + addon_manifest" where
  "validateManifest v =
     then_ok (addon_asObject v ''manifest'') (\<lambda>obj.
     then_ok (guards
       [(not_matching ADDON_ID_PATTERN (fld obj ''id''), addon_error ''id must match reverse-DNS''),
        (no_text (fld obj ''name''), addon_error ''name must be non-empty string''),
        (not_matching SEMVER_PATTERN (fld obj ''version''), addon_error ''version must be SemVer''),
        (no_text (fld obj ''entry''), addon_error ''entry must be non-empty string''),
        (no_text (fld obj ''license''), addon_error ''license must be non-empty string''),
        (fld obj ''network'' \<noteq> Bool False, addon_error ''network must be false''),
        (\<not> is_arr (fld obj ''permissions''), addon_error ''permissions must be array'')]) (\<lambda>_.
     case throwing_all bad_permission (arr_of (fld obj ''permissions'')) of
       Some e \<Rightarrow> Inl e
     | None \<Rightarrow>
         if \<not> is_arr (fld obj ''capabilities'') \<or> length (arr_of (fld obj ''capabilities'')) = 0
         then Inl (addon_error ''capabilities must be non-empty array'')
         else Inr \<lparr>am_id = str_of (fld obj ''id''), am_name = str_of (fld obj ''name''),
                   am_version = str_of (fld obj ''version''), am_entry = str_of (fld obj ''entry''),
                   am_license = str_of (fld obj ''license''),
                   am_permissions = map str_of (arr_of (fld obj ''permissions'')),
                   am_capabilities = arr_of (fld obj ''capabilities'')\<rparr>))"

subsection \<open>Loading\<close>

datatype verify_mode = VerifyNone | VerifyOptional | VerifyRequired

record verify_options =
  vo_mode :: verify_mode
  vo_trustedKeys :: "jsstring list option"

record response =
  rs_status :: nat
  rs_body :: "err + bytes"

definition rs_ok :: "response \<Rightarrow> bool" where
  "rs_ok r = (200 \<le> rs_status r \<and> rs_status r \<le> 299)"

text \<open>The platform: \<open>new URL(text, base)\<close>, with the page's location as the base for the manifest's own
  address, and \<open>fetch\<close>.\<close>

record 'u load_env =
  le_manifestUrl :: "jsstring \<Rightarrow> 'u option"
  le_resolve :: "jsstring \<Rightarrow> 'u \<Rightarrow> 'u option"
  le_fetch :: "'u \<Rightarrow> err + response"

definition new_URL :: "'u option \<Rightarrow> err + 'u" where
  "new_URL u = of_option (Thrown ''TypeError'' '''') u"

text \<open>\<open>await res.json()\<close>.\<close>

definition rs_json :: "response \<Rightarrow> err + jsval" where
  "rs_json r = then_ok (rs_body r) (\<lambda>b. of_option (Thrown ''SyntaxError'' '''') (json_parse (utf8_decode b)))"

text \<open>Step 2: the signature, when one is asked for.\<close>

definition check_signature ::
  "'u load_env \<Rightarrow> ('pk, 'sk) web_crypto option \<Rightarrow> date_api \<Rightarrow> verify_options \<Rightarrow> 'u \<Rightarrow> bytes \<Rightarrow> err + unit" where
  "check_signature env c dates verify manifestUrl manifestBytes =
     (if vo_mode verify = VerifyNone then Inr ()
      else (case vo_trustedKeys verify of
          None \<Rightarrow> Inl (addon_error ''verify.trustedKeys is required when verify.mode is not none'')
        | Some keys \<Rightarrow>
            if keys = [] then Inl (addon_error ''verify.trustedKeys is required when verify.mode is not none'')
            else then_ok (new_URL (le_resolve env (js ''manifest.sig.json'') manifestUrl)) (\<lambda>sigUrl.
              then_ok (le_fetch env sigUrl) (\<lambda>sigRes.
                if rs_status sigRes = 404
                then (if vo_mode verify = VerifyRequired then Inl (addon_error ''required signature missing: '') else Inr ())
                else if \<not> rs_ok sigRes then Inl (addon_error ''fetch signature returned '')
                else (case then_ok (rs_json sigRes) (validateSignaturePayload dates) of
                    Inl _ \<Rightarrow> Inl (addon_error ''signature payload invalid: '')
                  | Inr sigPayload \<Rightarrow>
                      then_ok (verifyManifest c manifestBytes sigPayload (Some keys)) (\<lambda>result.
                        if \<not> vr_ok result then Inl (addon_error ''signature verification failed: '') else Inr ()))))))"

text \<open>The manifest, its address and the address of its entry page.\<close>

definition load_manifest ::
  "'u load_env \<Rightarrow> ('pk, 'sk) web_crypto option \<Rightarrow> date_api \<Rightarrow> jsstring \<Rightarrow> verify_options option \<Rightarrow>
     err + (addon_manifest \<times> 'u \<times> 'u)" where
  "load_manifest env c dates url verify =
     then_ok (new_URL (le_manifestUrl env url)) (\<lambda>manifestUrl.
     then_ok (le_fetch env manifestUrl) (\<lambda>res.
     if \<not> rs_ok res then Inl (addon_error ''fetch manifest returned '')
     else then_ok (rs_body res) (\<lambda>manifestBytes.
     then_ok (check_signature env c dates
         (case verify of None \<Rightarrow> \<lparr>vo_mode = VerifyNone, vo_trustedKeys = None\<rparr> | Some v \<Rightarrow> v) manifestUrl manifestBytes) (\<lambda>_.
     case json_parse (utf8_decode manifestBytes) of
       None \<Rightarrow> Inl (addon_error ''manifest is not valid JSON: '')
     | Some parsed \<Rightarrow>
         then_ok (validateManifest parsed) (\<lambda>manifest.
         then_ok (new_URL (le_resolve env (am_entry manifest) manifestUrl)) (\<lambda>entryUrl.
           Inr (manifest, manifestUrl, entryUrl)))))))"

subsection \<open>What a loaded manifest satisfies\<close>

definition manifest_ok :: "addon_manifest \<Rightarrow> bool" where
  "manifest_ok m \<longleftrightarrow> rx_match ADDON_ID (am_id m) \<and> am_name m \<noteq> [] \<and> rx_match SEMVER (am_version m) \<and> am_entry m \<noteq> []
     \<and> am_license m \<noteq> [] \<and> set (am_permissions m) \<subseteq> set (map js KNOWN_PERMISSIONS) \<and> am_capabilities m \<noteq> []"

lemma is_arr_iff: "is_arr v \<longleftrightarrow> v = Arr (arr_of v)"
  by (cases v) auto

theorem validateManifest_iff:
  "validateManifest v = Inr m \<longleftrightarrow>
     (\<exists>fs. v = Obj fs \<and> fld fs ''id'' = Str (am_id m) \<and> fld fs ''name'' = Str (am_name m)
        \<and> fld fs ''version'' = Str (am_version m) \<and> fld fs ''entry'' = Str (am_entry m)
        \<and> fld fs ''license'' = Str (am_license m) \<and> fld fs ''network'' = Bool False
        \<and> fld fs ''permissions'' = Arr (map Str (am_permissions m)) \<and> fld fs ''capabilities'' = Arr (am_capabilities m))
     \<and> manifest_ok m" (is "?l \<longleftrightarrow> ?r")
proof
  assume ?l
  then obtain fs where o: "addon_asObject v ''manifest'' = Inr fs"
    and f: "is_str (fld fs ''id'')" "is_str (fld fs ''name'')" "is_str (fld fs ''version'')" "is_str (fld fs ''entry'')"
      "is_str (fld fs ''license'')" "fld fs ''network'' = Bool False" "is_arr (fld fs ''permissions'')" "is_arr (fld fs ''capabilities'')"
    and g: "rx_match ADDON_ID (str_of (fld fs ''id''))" "str_of (fld fs ''name'') \<noteq> []" "rx_match SEMVER (str_of (fld fs ''version''))"
      "str_of (fld fs ''entry'') \<noteq> []" "str_of (fld fs ''license'') \<noteq> []" "arr_of (fld fs ''capabilities'') \<noteq> []"
    and p: "throwing_all bad_permission (arr_of (fld fs ''permissions'')) = None"
    and m: "m = \<lparr>am_id = str_of (fld fs ''id''), am_name = str_of (fld fs ''name''),
                 am_version = str_of (fld fs ''version''), am_entry = str_of (fld fs ''entry''),
                 am_license = str_of (fld fs ''license''), am_permissions = map str_of (arr_of (fld fs ''permissions'')),
                 am_capabilities = arr_of (fld fs ''capabilities'')\<rparr>"
    by (auto simp: validateManifest_def then_ok_Inr not_matching_def no_text_def ADDON_ID_PATTERN_def SEMVER_PATTERN_def
        split: option.splits if_splits)
  from p have perms: "\<forall>q\<in>set (arr_of (fld fs ''permissions'')). is_str q \<and> str_of q \<in> set (map js KNOWN_PERMISSIONS)"
    by (auto simp: throwing_all_None bad_permission_def split: if_splits)
  from o f(1) have "v = Obj fs"
    by (auto simp: addon_asObject_def as_object_def fld_u8_fields split: jsval.splits)
  moreover have "map Str (map str_of (arr_of (fld fs ''permissions''))) = arr_of (fld fs ''permissions'')"
    unfolding map_map by (rule map_idI) (use perms is_str_iff in \<open>simp add: eq_commute\<close>)
  ultimately show ?r
    using f g perms unfolding m manifest_ok_def by (auto simp: is_str_iff is_arr_iff)
next
  assume ?r
  then obtain fs where v: "v = Obj fs" and f: "fld fs ''id'' = Str (am_id m)" "fld fs ''name'' = Str (am_name m)"
      "fld fs ''version'' = Str (am_version m)" "fld fs ''entry'' = Str (am_entry m)"
      "fld fs ''license'' = Str (am_license m)" "fld fs ''network'' = Bool False"
      "fld fs ''permissions'' = Arr (map Str (am_permissions m))" "fld fs ''capabilities'' = Arr (am_capabilities m)"
    and ok: "manifest_ok m"
    by blast
  have "throwing_all bad_permission (map Str (am_permissions m)) = None"
    using ok by (auto simp: throwing_all_None bad_permission_def manifest_ok_def)
  moreover have "map (str_of \<circ> Str) xs = xs" for xs by (induction xs) auto
  ultimately show ?l
    using ok by (simp add: validateManifest_def v f addon_asObject_def as_object_def not_matching_def no_text_def
        ADDON_ID_PATTERN_def SEMVER_PATTERN_def manifest_ok_def)
qed

theorem load_manifest_ok:
  assumes "load_manifest env c dates url verify = Inr (m, u, e)"
  shows "manifest_ok m \<and> le_resolve env (am_entry m) u = Some e"
  using assms by (auto simp: load_manifest_def then_ok_Inr new_URL_def validateManifest_iff split: option.splits if_splits)

text \<open>
  In a mode other than \<open>none\<close>, what was loaded was signed: the signature file was there, and Web Crypto
  verified it over the very bytes the manifest was parsed from, under a key the caller trusts. In mode
  \<open>optional\<close> the server may also have answered that there is no such file.
\<close>

theorem load_manifest_verified:
  assumes "load_manifest env c dates url (Some v) = Inr (m, u, e)" "vo_mode v \<noteq> VerifyNone"
  shows "\<exists>su sr res bytes. le_resolve env (js ''manifest.sig.json'') u = Some su \<and> le_fetch env su = Inr sr
    \<and> le_fetch env u = Inr res \<and> rs_body res = Inr bytes
    \<and> (\<exists>parsed. json_parse (utf8_decode bytes) = Some parsed \<and> validateManifest parsed = Inr m)
    \<and> (vo_mode v = VerifyOptional \<and> rs_status sr = 404
       \<or> (\<exists>keys g crypto pk sig. vo_trustedKeys v = Some keys \<and> sg_publicKey g \<in> set keys \<and> signature_ok dates g
            \<and> c = Some crypto \<and> manifest_base64urlDecode (sg_signature g) = Inr sig \<and> wc_verify crypto pk sig bytes = Inr True))"
proof -
  from assms(1) obtain res bytes parsed where l: "le_fetch env u = Inr res" "rs_body res = Inr bytes"
      "json_parse (utf8_decode bytes) = Some parsed" "validateManifest parsed = Inr m"
    and chk: "check_signature env c dates v u bytes = Inr ()"
    by (auto simp: load_manifest_def then_ok_Inr split: option.splits if_splits)
  from chk assms(2) obtain keys su sr where s: "vo_trustedKeys v = Some keys"
      "le_resolve env (js ''manifest.sig.json'') u = Some su" "le_fetch env su = Inr sr"
    and alt: "rs_status sr = 404 \<and> vo_mode v \<noteq> VerifyRequired \<or> rs_status sr \<noteq> 404
       \<and> (\<exists>j g r. rs_json sr = Inr j \<and> validateSignaturePayload dates j = Inr g
            \<and> verifyManifest c bytes g (Some keys) = Inr r \<and> vr_ok r)"
    by (auto simp: check_signature_def then_ok_Inr new_URL_def split: option.splits if_splits sum.splits)
  from alt show ?thesis
  proof
    assume "rs_status sr = 404 \<and> vo_mode v \<noteq> VerifyRequired"
    with assms(2) l s show ?thesis by (cases "vo_mode v") auto
  next
    assume "rs_status sr \<noteq> 404 \<and> (\<exists>j g r. rs_json sr = Inr j \<and> validateSignaturePayload dates j = Inr g
            \<and> verifyManifest c bytes g (Some keys) = Inr r \<and> vr_ok r)"
    then obtain j g r where "validateSignaturePayload dates j = Inr g" and v: "verifyManifest c bytes g (Some keys) = Inr r" "vr_ok r"
      by blast
    then have "signature_ok dates g" by (simp add: validateSignaturePayload_iff)
    with verify_sound [OF v] l s show ?thesis by (fastforce intro: exI [of _ keys] exI [of _ g])
  qed
qed

end
