(* ===== verification/Addon_Host.thy ===== *)
theory Addon_Host
  imports Addon_Manifest Storage Event_System
begin

text \<open>
  The second half of \<open>addon-runtime/src/index.ts\<close>: \<open>AddonHost\<close>, which runs an add-on in a sandboxed
  iframe and mediates everything between it, its store, the peer session and the page's media
  providers. The host's state is a record; each handler returns the new state, what it does outside
  (in order) and the continuations it leaves behind an \<open>await\<close>. A promise's continuation is a later
  event, so calls and messages interleave with it as they do in the browser. The backend of the store
  is an argument. Errors the page's listeners throw are swallowed by \<open>emit\<close> and not modelled.
\<close>

subsection \<open>Messages, outputs, continuations\<close>

datatype host_state = HCreated | HMounted | HInitialized | HActive | HClosed

datatype media_kind = MAudio | MVideo

text \<open>Bridge messages to the add-on; an error is its code.\<close>

datatype bridge_out =
    BInit jsstring jsstring jsstring
  | BDeliver jsval "jsstring option"
  | BDeliverBin jsstring bytes "jsstring option"
  | BError string
  | BAudioLevel rat
  | BTrack bool media_kind bool
  | BStorageOk jsstring jsval
  | BStorageErr jsstring string

text \<open>
  What the host does outside: \<open>OPost\<close> to the iframe's window, \<open>OSend\<close>, \<open>OState\<close>, \<open>OError\<close> to its listeners, the others calls of the
  platform, of the session and of the media providers. Tracks and detachers are numbers.
\<close>

datatype host_out =
    OPost bridge_out
  | OState host_state
  | OSend jsval
  | OError
  | OIframe "string list"
  | ORemoveIframe
  | OSendText jsstring
  | OSendBinary jsstring jsstring bytes
  | OCapture media_kind "jsval option"
  | OAddTrack media_kind nat
  | ORemoveSender media_kind nat
  | OStopTrack nat
  | OAttach media_kind nat
  | ODetach nat

datatype host_task =
    TSendText
  | TSendBin
  | TStorage jsstring "storage_failure + storage_answer"
  | TCapture media_kind
  | TNoProvider media_kind
  | TAddTrack media_kind nat
  | TStop media_kind nat
  | TClose nat nat

datatype host_answer = HDone | HTrack nat | HNoTrack | HRejected

record capture_provider =
  cap_audio :: bool
  cap_video :: bool

record sink_provider =
  sink_audio :: bool
  sink_video :: bool

text \<open>\<open>ah_link\<close> is the peer link, with whether it has \<open>addLocalTrack\<close>; \<open>ah_counter\<close> the module's counter.\<close>

record 's addon_host =
  ah_manifest :: addon_manifest
  ah_sessionId :: jsstring
  ah_link :: "bool option"
  ah_hasStorage :: bool
  ah_store :: 's
  ah_iframe :: bool
  ah_state :: host_state
  ah_bound :: bool
  ah_listening :: bool
  ah_audioLevel :: bool
  ah_capture :: "capture_provider option"
  ah_sink :: "sink_provider option"
  ah_senders :: "(media_kind \<times> nat) list"
  ah_recvAudio :: bool
  ah_recvVideo :: bool
  ah_detachers :: "(media_kind \<times> nat) list"
  ah_tracks :: "(media_kind \<times> nat) list"
  ah_counter :: nat

type_synonym 's host_result = "'s addon_host \<times> host_out list \<times> host_task list"

definition has_permission :: "string \<Rightarrow> 's addon_host \<Rightarrow> bool" where
  "has_permission p h = (js p \<in> set (am_permissions (ah_manifest h)))"

definition ADDON_BIN_MAX_BYTES :: nat where "ADDON_BIN_MAX_BYTES = 4 * 1024 * 1024"

subsection \<open>Construction\<close>

definition newEnvelopeId :: "nat \<Rightarrow> nat \<Rightarrow> jsstring \<times> nat" where
  "newEnvelopeId now counter =
     (let c = (counter + 1) mod 0xffffff in
      (js ''addon_'' @ radix_str 36 now @ js ''_'' @ radix_str 36 c, c))"

definition host_setState :: "host_state \<Rightarrow> 's addon_host \<Rightarrow> 's addon_host \<times> host_out list" where
  "host_setState next h = (if ah_state h = next then (h, []) else (h\<lparr>ah_state := next\<rparr>, [OState next]))"

definition postToIframe :: "bridge_out \<Rightarrow> 's addon_host \<Rightarrow> host_out list" where
  "postToIframe m h = (if ah_iframe h then [OPost m] else [])"

text \<open>The constructor; \<open>opts\<close> are the link, the store's presence and state, and the media providers.\<close>

definition new_host ::
  "addon_manifest \<Rightarrow> bool option \<Rightarrow> bool \<Rightarrow> 's \<Rightarrow> capture_provider option \<Rightarrow> sink_provider option \<Rightarrow> nat \<Rightarrow> nat \<Rightarrow> 's addon_host" where
  "new_host m lnk hasStorage store capture sink now counter =
     (let (sid, c) = newEnvelopeId now counter in
      \<lparr>ah_manifest = m, ah_sessionId = sid, ah_link = lnk, ah_hasStorage = hasStorage, ah_store = store,
       ah_iframe = False, ah_state = HCreated, ah_bound = False, ah_listening = False, ah_audioLevel = False,
       ah_capture = capture, ah_sink = sink, ah_senders = [], ah_recvAudio = False, ah_recvVideo = False,
       ah_detachers = [], ah_tracks = [], ah_counter = c\<rparr>)"

definition mount :: "'s addon_host \<Rightarrow> 's addon_host \<times> host_out list" where
  "mount h =
     (let sandbox = [''allow-scripts''] @ (if has_permission ''file.write.user_approved'' h then [''allow-downloads''] else []);
          (h1, es) = host_setState HMounted (h\<lparr>ah_iframe := True\<rparr>)
      in (h1\<lparr>ah_listening := True\<rparr>, OIframe sandbox # es))"

definition bindToSession :: "'s addon_host \<Rightarrow> 's addon_host" where
  "bindToSession h = h\<lparr>ah_bound := True\<rparr>"

text \<open>The end of \<open>load\<close>: construct, mount, bind.\<close>

definition load_host ::
  "addon_manifest \<Rightarrow> bool option \<Rightarrow> bool \<Rightarrow> 's \<Rightarrow> capture_provider option \<Rightarrow> sink_provider option \<Rightarrow> nat \<Rightarrow> nat \<Rightarrow>
     's addon_host \<times> host_out list" where
  "load_host m lnk hasStorage store capture sink now counter =
     (let (h, es) = mount (new_host m lnk hasStorage store capture sink now counter) in
      (if lnk \<noteq> None then bindToSession h else h, es))"

subsection \<open>Deliveries\<close>

definition deliver :: "jsval \<Rightarrow> jsstring option \<Rightarrow> 's addon_host \<Rightarrow> host_out list \<times> err option" where
  "deliver payload from h =
     (if ah_state h \<noteq> HActive then ([], Some (Thrown ''Error'' ''AddonHost.deliver() called in state ''))
      else if \<not> has_permission ''peer.receive'' h then ([], Some (Thrown ''Error'' ''addon manifest does not declare peer.receive''))
      else (postToIframe (BDeliver payload from) h, None))"

definition deliverBinary :: "jsstring \<Rightarrow> bytes \<Rightarrow> jsstring option \<Rightarrow> 's addon_host \<Rightarrow> host_out list \<times> err option" where
  "deliverBinary mime bs from h =
     (if ah_state h \<noteq> HActive then ([], Some (Thrown ''Error'' ''AddonHost.deliverBinary() called in state ''))
      else if \<not> has_permission ''peer.receive.bin'' h
      then ([], Some (Thrown ''Error'' ''addon manifest does not declare peer.receive.bin''))
      else (postToIframe (BDeliverBin mime bs from) h, None))"

text \<open>The session's listeners; a delivery that is refused is emitted as an error.\<close>

definition caught :: "host_out list \<times> err option \<Rightarrow> host_out list" where
  "caught r = fst r @ (case snd r of None \<Rightarrow> [] | Some _ \<Rightarrow> [OError])"

definition on_peer_text :: "jsstring \<Rightarrow> 's addon_host \<Rightarrow> 's host_result" where
  "on_peer_text json h =
     (case tryParseAddonEnvelope json of
        None \<Rightarrow> (h, [], [])
      | Some e \<Rightarrow>
          if env_addon e \<noteq> am_id (ah_manifest h) then (h, [], [])
          else (h, caught (deliver (env_payload e) (Some (env_addon e)) h), []))"

definition on_peer_binary :: "jsstring \<Rightarrow> jsstring \<Rightarrow> bytes \<Rightarrow> 's addon_host \<Rightarrow> 's host_result" where
  "on_peer_binary addon mime bs h =
     (if addon \<noteq> am_id (ah_manifest h) then (h, [], [])
      else if \<not> has_permission ''peer.receive.bin'' h then (h, [], [])
      else (h, caught (deliverBinary mime bs (Some addon) h), []))"

subsection \<open>The add-on's life cycle\<close>

definition init_message :: "'s addon_host \<Rightarrow> bridge_out" where
  "init_message h = BInit (am_id (ah_manifest h)) (am_version (ah_manifest h)) (ah_sessionId h)"

definition onIframeLoad :: "'s addon_host \<Rightarrow> 's host_result" where
  "onIframeLoad h =
     (if ah_state h \<noteq> HMounted then (h, [], [])
      else let (h1, es) = host_setState HInitialized h in (h1, es @ postToIframe (init_message h1) h1, []))"

definition ensureInitPosted :: "'s addon_host \<Rightarrow> 's addon_host \<times> host_out list" where
  "ensureInitPosted h =
     (if ah_state h = HMounted
      then let (h1, es) = host_setState HInitialized h in (h1, es @ postToIframe (init_message h1) h1)
      else (h, []))"

definition on_ready :: "'s addon_host \<Rightarrow> 's host_result" where
  "on_ready h =
     (let (h1, es) = ensureInitPosted h in
      if ah_state h1 = HInitialized then let (h2, es2) = host_setState HActive h1 in (h2, es @ es2, [])
      else (h1, es, []))"

subsection \<open>Sending\<close>

definition handleSend :: "nat \<Rightarrow> jsval \<Rightarrow> 's addon_host \<Rightarrow> 's host_result \<times> err option" where
  "handleSend now payload h =
     (if \<not> has_permission ''peer.send'' h then ((h, [OError], []), None)
      else if ah_link h = None then ((h, [OSend payload], []), None)
      else
        let (eid, c) = newEnvelopeId now (ah_counter h);
            h1 = h\<lparr>ah_counter := c\<rparr>;
            envelope = Obj [(js ''id'', Str eid), (js ''kind'', Str (js ''addon.message'')),
              (js ''addon'', Str (am_id (ah_manifest h))), (js ''version'', Str (am_version (ah_manifest h))),
              (js ''createdAt'', jint (int now)), (js ''payload'', payload)]
        in case validateAddonEnvelope envelope of
             Inl e \<Rightarrow> ((h1, [OSend payload], []), Some e)
           | Inr _ \<Rightarrow>
               (case json_str envelope of
                  None \<Rightarrow> ((h1, [OSend payload], []), None)
                | Some t \<Rightarrow> ((h1, [OSend payload, OSendText t], [TSendText]), None)))"

definition handleSendBin :: "jsval \<Rightarrow> jsval \<Rightarrow> 's addon_host \<Rightarrow> 's host_result" where
  "handleSendBin mime bs h =
     (if \<not> has_permission ''peer.send.bin'' h then (h, postToIframe (BError ''permission-denied'') h, [])
      else case (mime, bs) of
          (Str m, U8 b) \<Rightarrow>
            if length b > ADDON_BIN_MAX_BYTES then (h, postToIframe (BError ''payload-too-large'') h, [])
            else if ah_link h = None then (h, postToIframe (BError ''not-connected'') h, [])
            else (h, [OSendBinary (am_id (ah_manifest h)) m b], [TSendBin])
        | _ \<Rightarrow> (h, postToIframe (BError ''bad-payload'') h, []))"

subsection \<open>Storage requests\<close>

fun code_text :: "storage_code \<Rightarrow> string" where
  "code_text PermissionDenied = ''permission-denied''"
| "code_text KeyTooLong = ''key-too-long''"
| "code_text ValueTooLarge = ''value-too-large''"
| "code_text QuotaExceeded = ''quota-exceeded''"
| "code_text ValueNotCloneable = ''value-not-cloneable''"
| "code_text ClosedCode = ''closed''"
| "code_text InvalidRequest = ''invalid-request''"

definition storageReply :: "jsstring \<Rightarrow> jsval \<Rightarrow> 's addon_host \<Rightarrow> host_out list" where
  "storageReply rid value h = postToIframe (BStorageOk rid value) h"

definition storageError :: "jsstring \<Rightarrow> string \<Rightarrow> 's addon_host \<Rightarrow> host_out list" where
  "storageError rid e h = postToIframe (BStorageErr rid e) h"

text \<open>The call a request's sub-operation makes; \<open>None\<close>: the \<open>default\<close> branch.\<close>

definition storage_request :: "nat \<Rightarrow> jsval \<Rightarrow> jsval \<Rightarrow> jsval \<Rightarrow> (string + storage_call)" where
  "storage_request now subOp key value =
     (if subOp = Str (js ''get'') then (if is_str key then Inr (CGet key) else Inl ''invalid-request'')
      else if subOp = Str (js ''put'')
      then (if is_str key then Inr (CPut (Fin (of_nat now)) key value) else Inl ''invalid-request'')
      else if subOp = Str (js ''delete'') then (if is_str key then Inr (CDelete key) else Inl ''invalid-request'')
      else if subOp = Str (js ''list'') then Inr CList
      else if subOp = Str (js ''clear'') then Inr CClear
      else Inl ''invalid-request'')"

definition needs_read :: "jsval \<Rightarrow> bool" where
  "needs_read subOp = (subOp = Str (js ''get'') \<or> subOp = Str (js ''list''))"

definition needs_write :: "jsval \<Rightarrow> bool" where
  "needs_write subOp = (subOp = Str (js ''put'') \<or> subOp = Str (js ''delete'') \<or> subOp = Str (js ''clear''))"

text \<open>The request up to its \<open>await\<close>; the operation runs when it is made, its reply comes later.\<close>

definition handleStorage :: "'s storage_backend \<Rightarrow> nat \<Rightarrow> jsfields \<Rightarrow> 's addon_host \<Rightarrow> 's host_result" where
  "handleStorage B now msg h =
     (case fld msg ''rid'' of
        Str rid \<Rightarrow>
          if length rid = 0 then (h, [], [])
          else if ah_state h = HClosed then (h, storageError rid ''closed'' h, [])
          else if \<not> ah_hasStorage h then (h, storageError rid ''permission-denied'' h, [])
          else if needs_read (fld msg ''storage'') \<and> \<not> has_permission ''storage.local.read'' h
          then (h, storageError rid ''permission-denied'' h, [])
          else if needs_write (fld msg ''storage'') \<and> \<not> has_permission ''storage.local.write'' h
          then (h, storageError rid ''permission-denied'' h, [])
          else (case storage_request now (fld msg ''storage'') (fld msg ''key'') (fld msg ''value'') of
              Inl code \<Rightarrow> (h, storageError rid code h, [])
            | Inr call \<Rightarrow>
                (let (res, store) = addon_call B (am_id (ah_manifest h)) call (ah_store h) in
                 (h\<lparr>ah_store := store\<rparr>, [], [TStorage rid res])))
      | _ \<Rightarrow> (h, [], []))"

definition storage_settled :: "jsstring \<Rightarrow> storage_failure + storage_answer \<Rightarrow> 's addon_host \<Rightarrow> host_out list" where
  "storage_settled rid res h =
     (case res of
        Inr (AValue v) \<Rightarrow> storageReply rid v h
      | Inr ADone \<Rightarrow> storageReply rid Null h
      | Inr (AKeys ks) \<Rightarrow> storageReply rid (Arr (map Str ks)) h
      | Inl (StorageError code _) \<Rightarrow> storageError rid (code_text code) h
      | Inl (RequestError _) \<Rightarrow> storageError rid ''invalid-request'' h @ [OError])"

subsection \<open>MAudio level\<close>

definition handleAudioLevelSubscribe :: "'s addon_host \<Rightarrow> 's host_result" where
  "handleAudioLevelSubscribe h =
     (if \<not> has_permission ''audio.level'' h then (h, postToIframe (BError ''permission-denied'') h, [])
      else (h\<lparr>ah_audioLevel := True\<rparr>, [], []))"

definition publishAudioLevel :: "jsnum \<Rightarrow> 's addon_host \<Rightarrow> 's host_result" where
  "publishAudioLevel level h =
     (if \<not> ah_audioLevel h then (h, [], [])
      else if ah_state h \<noteq> HActive then (h, [], [])
      else (case level of
          Fin l \<Rightarrow> (h, postToIframe (BAudioLevel (if l < 0 then 0 else if l > 1 then 1 else l)) h, [])
        | _ \<Rightarrow> (h, [], [])))"

subsection \<open>Media\<close>

fun send_permission :: "media_kind \<Rightarrow> string" where
  "send_permission MAudio = ''media.send.audio''"
| "send_permission MVideo = ''media.send.video''"

fun receive_permission :: "media_kind \<Rightarrow> string" where
  "receive_permission MAudio = ''media.receive.audio''"
| "receive_permission MVideo = ''media.receive.video''"

fun can_capture :: "media_kind \<Rightarrow> capture_provider \<Rightarrow> bool" where
  "can_capture MAudio p = cap_audio p"
| "can_capture MVideo p = cap_video p"

fun can_attach :: "media_kind \<Rightarrow> sink_provider \<Rightarrow> bool" where
  "can_attach MAudio p = sink_audio p"
| "can_attach MVideo p = sink_video p"

text \<open>\<open>handleMediaSendStart\<close> up to the capture; a provider without the function gives no track.\<close>

definition handleMediaSendStart :: "media_kind \<Rightarrow> jsval option \<Rightarrow> 's addon_host \<Rightarrow> 's host_result" where
  "handleMediaSendStart kind source h =
     (if \<not> has_permission (send_permission kind) h then (h, postToIframe (BError ''permission-denied'') h, [])
      else (case ah_capture h of
          None \<Rightarrow> (h, postToIframe (BError ''device-unavailable'') h, [])
        | Some cap \<Rightarrow>
            if ah_link h \<noteq> Some True then (h, postToIframe (BError ''not-connected'') h, [])
            else if map_of (ah_senders h) kind \<noteq> None then (h, postToIframe (BTrack False kind True) h, [])
            else if can_capture kind cap then (h, [OCapture kind source], [TCapture kind])
            else (h, [], [TNoProvider kind])))"

definition send_captured :: "media_kind \<Rightarrow> host_answer \<Rightarrow> 's addon_host \<Rightarrow> 's host_result" where
  "send_captured kind res h =
     (case res of
        HTrack t \<Rightarrow> (h, [OAddTrack kind t], [TAddTrack kind t])
      | HRejected \<Rightarrow> (h, postToIframe (BError ''user-denied'') h, [])
      | _ \<Rightarrow> (h, postToIframe (BError ''device-unavailable'') h, []))"

definition send_added :: "media_kind \<Rightarrow> nat \<Rightarrow> host_answer \<Rightarrow> 's addon_host \<Rightarrow> 's host_result" where
  "send_added kind t res h =
     (if res = HRejected then (h, OStopTrack t # postToIframe (BError ''not-connected'') h, [])
      else (h\<lparr>ah_senders := al_set kind t (ah_senders h)\<rparr>, postToIframe (BTrack False kind True) h, []))"

definition handleMediaSendStop :: "media_kind \<Rightarrow> 's addon_host \<Rightarrow> 's host_result" where
  "handleMediaSendStop kind h =
     (case map_of (ah_senders h) kind of
        None \<Rightarrow> (h, [], [])
      | Some t \<Rightarrow> (h\<lparr>ah_senders := al_del kind (ah_senders h)\<rparr>, [ORemoveSender kind t], [TStop kind t]))"

definition send_stopped :: "media_kind \<Rightarrow> nat \<Rightarrow> host_answer \<Rightarrow> 's addon_host \<Rightarrow> 's host_result" where
  "send_stopped kind t res h =
     (h, (if res = HRejected then [OError] else []) @ OStopTrack t # postToIframe (BTrack False kind False) h, [])"

fun set_receive :: "media_kind \<Rightarrow> bool \<Rightarrow> 's addon_host \<Rightarrow> 's addon_host" where
  "set_receive MAudio b h = h\<lparr>ah_recvAudio := b\<rparr>"
| "set_receive MVideo b h = h\<lparr>ah_recvVideo := b\<rparr>"

fun receives :: "media_kind \<Rightarrow> 's addon_host \<Rightarrow> bool" where
  "receives MAudio h = ah_recvAudio h"
| "receives MVideo h = ah_recvVideo h"

definition handleMediaReceiveSubscribe :: "media_kind \<Rightarrow> 's addon_host \<Rightarrow> 's host_result" where
  "handleMediaReceiveSubscribe kind h =
     (if \<not> has_permission (receive_permission kind) h then (h, postToIframe (BError ''permission-denied'') h, [])
      else if ah_sink h = None then (h, postToIframe (BError ''device-unavailable'') h, [])
      else (set_receive kind True h, [], []))"

definition handleMediaReceiveUnsubscribe :: "media_kind \<Rightarrow> 's addon_host \<Rightarrow> 's host_result" where
  "handleMediaReceiveUnsubscribe kind h =
     (let h1 = set_receive kind False h in
      case map_of (ah_detachers h1) kind of
        None \<Rightarrow> (h1, [], [])
      | Some d \<Rightarrow> (h1\<lparr>ah_detachers := al_del kind (ah_detachers h1)\<rparr>, [ODetach d], []))"

text \<open>\<open>attached\<close> is the detacher the page's provider returned, or \<open>None\<close> when it threw.\<close>

definition handleRemoteTrack :: "media_kind \<Rightarrow> nat \<Rightarrow> nat option \<Rightarrow> 's addon_host \<Rightarrow> 's host_result" where
  "handleRemoteTrack kind t attached h =
     (if \<not> receives kind h then (h, [], [])
      else (case ah_sink h of
          None \<Rightarrow> (h, [], [])
        | Some sink \<Rightarrow>
            if \<not> can_attach kind sink then (h, [], [])
            else (case attached of
                None \<Rightarrow> (h, [OAttach kind t, OError], [])
              | Some d \<Rightarrow>
                  (h\<lparr>ah_detachers := al_set kind d (ah_detachers h), ah_tracks := ah_tracks h @ [(kind, t)]\<rparr>,
                   [OAttach kind t] @ (case map_of (ah_detachers h) kind of None \<Rightarrow> [] | Some p \<Rightarrow> [ODetach p])
                     @ postToIframe (BTrack True kind True) h, []))))"

definition on_track_ended :: "media_kind \<Rightarrow> nat \<Rightarrow> 's addon_host \<Rightarrow> 's host_result" where
  "on_track_ended kind t h =
     (let h1 = h\<lparr>ah_detachers := al_del kind (ah_detachers h), ah_tracks := remove1 (kind, t) (ah_tracks h)\<rparr>
      in (h1, postToIframe (BTrack True kind False) h1, []))"

subsection \<open>Closing\<close>

text \<open>The part of \<open>close\<close> after the senders' loop.\<close>

definition host_close_finish :: "'s addon_host \<Rightarrow> 's host_result" where
  "host_close_finish h =
     (h\<lparr>ah_senders := [], ah_detachers := [], ah_recvAudio := False, ah_recvVideo := False, ah_iframe := False\<rparr>,
      map (ODetach \<circ> snd) (ah_detachers h) @ (if ah_iframe h then [ORemoveIframe] else []), [])"

text \<open>The loop over the map of senders, at the \<open>i\<close>-th entry: entries added meanwhile are visited too.\<close>

definition close_sender :: "nat \<Rightarrow> 's addon_host \<Rightarrow> 's host_result" where
  "close_sender i h =
     (if i < length (ah_senders h)
      then (h, [ORemoveSender (fst (ah_senders h ! i)) (snd (ah_senders h ! i))], [TClose i (snd (ah_senders h ! i))])
      else host_close_finish h)"

definition close_sender_removed :: "nat \<Rightarrow> nat \<Rightarrow> 's addon_host \<Rightarrow> 's host_result" where
  "close_sender_removed i t h =
     (let (h1, es, ts) = close_sender (Suc i) h in (h1, OStopTrack t # es, ts))"

definition host_close :: "'s addon_host \<Rightarrow> 's host_result" where
  "host_close h =
     (if ah_state h = HClosed then (h, [], [])
      else let (h1, es) = host_setState HClosed h;
               (h2, es2, ts) = close_sender 0 (h1\<lparr>ah_listening := False, ah_bound := False, ah_audioLevel := False\<rparr>)
           in (h2, es @ es2, ts))"

subsection \<open>Messages of the add-on\<close>

text \<open>\<open>isBridgeMessage\<close>: the fields of a bridge message.\<close>

definition bridge_fields :: "jsval \<Rightarrow> jsfields option" where
  "bridge_fields v =
     (if \<not> is_objecty v then None
      else if fld (own_fields v) ''kind'' \<noteq> Str (js ''senn.addon.v1'') then None
      else if is_str (fld (own_fields v) ''op'') then Some (own_fields v) else None)"

definition truthy_source :: "jsval \<Rightarrow> jsval option" where
  "truthy_source v =
     (if v \<in> {Undef, Null, Bool False, Str [], Num NaN, jint 0} then None else Some v)"

definition handleWindowMessage :: "'s storage_backend \<Rightarrow> nat \<Rightarrow> bool \<Rightarrow> jsval \<Rightarrow> 's addon_host \<Rightarrow> 's host_result" where
  "handleWindowMessage B now fromIframe data h =
     (if \<not> ah_iframe h \<or> \<not> fromIframe then (h, [], [])
      else (case bridge_fields data of
          None \<Rightarrow> (h, [], [])
        | Some msg \<Rightarrow>
            (let op = str_of (fld msg ''op'') in
             if op = js ''ready'' then on_ready h
             else if op = js ''send'' then fst (handleSend now (fld msg ''payload'') h)
             else if op = js ''send-bin'' then handleSendBin (fld msg ''mime'') (fld msg ''bytes'') h
             else if op = js ''audio.level.subscribe'' then handleAudioLevelSubscribe h
             else if op = js ''audio.level.unsubscribe'' then (h\<lparr>ah_audioLevel := False\<rparr>, [], [])
             else if op = js ''media.send.audio.start'' then handleMediaSendStart MAudio None h
             else if op = js ''media.send.audio.stop'' then handleMediaSendStop MAudio h
             else if op = js ''media.send.video.start'' then handleMediaSendStart MVideo (truthy_source (fld msg ''source'')) h
             else if op = js ''media.send.video.stop'' then handleMediaSendStop MVideo h
             else if op = js ''media.receive.audio.subscribe'' then handleMediaReceiveSubscribe MAudio h
             else if op = js ''media.receive.audio.unsubscribe'' then handleMediaReceiveUnsubscribe MAudio h
             else if op = js ''media.receive.video.subscribe'' then handleMediaReceiveSubscribe MVideo h
             else if op = js ''media.receive.video.unsubscribe'' then handleMediaReceiveUnsubscribe MVideo h
             else if op = js ''error'' then (h, [OError], [])
             else if op = js ''storage'' then handleStorage B now msg h
             else (h, [], []))))"

subsection \<open>Events\<close>

definition host_resume :: "host_task \<Rightarrow> host_answer \<Rightarrow> 's addon_host \<Rightarrow> 's host_result" where
  "host_resume t res h =
     (case t of
        TSendText \<Rightarrow> (h, if res = HRejected then [OError] else [], [])
      | TSendBin \<Rightarrow> (h, if res = HRejected then postToIframe (BError ''not-connected'') h else [], [])
      | TStorage rid r \<Rightarrow> (h, storage_settled rid r h, [])
      | TCapture kind \<Rightarrow> send_captured kind res h
      | TNoProvider kind \<Rightarrow> (h, postToIframe (BError ''device-unavailable'') h, [])
      | TAddTrack kind trk \<Rightarrow> send_added kind trk res h
      | TStop kind trk \<Rightarrow> send_stopped kind trk res h
      | TClose i trk \<Rightarrow> close_sender_removed i trk h)"

datatype host_event =
    IframeLoad
  | WindowMessage nat bool jsval
  | PeerText jsstring
  | PeerBinary jsstring jsstring bytes
  | PeerTrack media_kind nat "nat option"
  | TrackEnded media_kind nat
  | CallDeliver jsval "jsstring option"
  | CallDeliverBinary jsstring bytes "jsstring option"
  | CallAudioLevel jsnum
  | CallHostClose
  | HResume nat host_answer

record 's host_config =
  hc_host :: "'s addon_host"
  hc_tasks :: "host_task list"

definition host_enabled :: "host_event \<Rightarrow> 's host_config \<Rightarrow> bool" where
  "host_enabled ev c =
     (let h = hc_host c in
      case ev of
        IframeLoad \<Rightarrow> ah_iframe h
      | WindowMessage _ _ _ \<Rightarrow> ah_listening h
      | PeerText _ \<Rightarrow> ah_bound h
      | PeerBinary _ _ _ \<Rightarrow> ah_bound h
      | PeerTrack _ _ _ \<Rightarrow> ah_bound h
      | TrackEnded kind t \<Rightarrow> (kind, t) \<in> set (ah_tracks h)
      | HResume n _ \<Rightarrow> n < length (hc_tasks c)
      | _ \<Rightarrow> True)"

definition host_run :: "'s storage_backend \<Rightarrow> host_event \<Rightarrow> 's host_config \<Rightarrow> 's host_result" where
  "host_run B ev c =
     (let h = hc_host c in
      case ev of
        IframeLoad \<Rightarrow> onIframeLoad h
      | WindowMessage now fromIframe data \<Rightarrow> handleWindowMessage B now fromIframe data h
      | PeerText json \<Rightarrow> on_peer_text json h
      | PeerBinary addon mime bs \<Rightarrow> on_peer_binary addon mime bs h
      | PeerTrack kind t attached \<Rightarrow> handleRemoteTrack kind t attached h
      | TrackEnded kind t \<Rightarrow> on_track_ended kind t h
      | CallDeliver payload from \<Rightarrow> (h, fst (deliver payload from h), [])
      | CallDeliverBinary mime bs from \<Rightarrow> (h, fst (deliverBinary mime bs from h), [])
      | CallAudioLevel level \<Rightarrow> publishAudioLevel level h
      | CallHostClose \<Rightarrow> host_close h
      | HResume n res \<Rightarrow> host_resume (hc_tasks c ! n) res h)"

definition host_tasks_after :: "host_event \<Rightarrow> host_task list \<Rightarrow> host_task list" where
  "host_tasks_after ev ts = (case ev of HResume n _ \<Rightarrow> take n ts @ drop (Suc n) ts | _ \<Rightarrow> ts)"

definition host_step :: "'s storage_backend \<Rightarrow> host_event \<Rightarrow> 's host_config \<Rightarrow> ('s host_config \<times> host_out list) option" where
  "host_step B ev c =
     (if host_enabled ev c
      then let (h, es, ts) = host_run B ev c in
           Some (\<lparr>hc_host = h, hc_tasks = host_tasks_after ev (hc_tasks c) @ ts\<rparr>, es)
      else None)"

end
