(* ===== verification/Addon_Host_Props.thy ===== *)
theory Addon_Host_Props
  imports Addon_Host
begin

text \<open>
  What \<open>AddonHost\<close> guarantees on every run, whatever the add-on, the peer and the page do in whatever
  order: nothing happens that the manifest gives no permission for; the announced states only go
  forward; the add-on is initialised once and before anything is delivered to it; it reads and writes
  its own namespace only; after \<open>close\<close> nothing is left attached. Then the cases where a track
  outlives its host, which the code does not handle.
\<close>

subsection \<open>Permissions\<close>

definition allowed :: "addon_manifest \<Rightarrow> string \<Rightarrow> bool" where
  "allowed m p = (js p \<in> set (am_permissions m))"

text \<open>What an output needs.\<close>

fun bridge_allowed :: "addon_manifest \<Rightarrow> bridge_out \<Rightarrow> bool" where
  "bridge_allowed m (BDeliver _ _) = allowed m ''peer.receive''"
| "bridge_allowed m (BDeliverBin _ _ _) = allowed m ''peer.receive.bin''"
| "bridge_allowed m (BAudioLevel l) = (allowed m ''audio.level'' \<and> 0 \<le> l \<and> l \<le> 1)"
| "bridge_allowed m (BTrack remote k added) =
     (added \<longrightarrow> allowed m (if remote then receive_permission k else send_permission k))"
| "bridge_allowed m (BStorageOk _ _) = (allowed m ''storage.local.read'' \<or> allowed m ''storage.local.write'')"
| "bridge_allowed m _ = True"

text \<open>A text that goes to the peer is a valid envelope of this add-on.\<close>

definition own_envelope :: "addon_manifest \<Rightarrow> jsstring \<Rightarrow> bool" where
  "own_envelope m t = (\<exists>e. json_str (envelope_val e) = Some t \<and> envelope_ok e \<and> env_addon e = am_id m \<and> env_version e = am_version m)"

fun out_allowed :: "addon_manifest \<Rightarrow> host_out \<Rightarrow> bool" where
  "out_allowed m (OPost b) = bridge_allowed m b"
| "out_allowed m (OSend _) = allowed m ''peer.send''"
| "out_allowed m (OSendText t) = (allowed m ''peer.send'' \<and> own_envelope m t)"
| "out_allowed m (OSendBinary a _ b) = (allowed m ''peer.send.bin'' \<and> a = am_id m \<and> length b \<le> ADDON_BIN_MAX_BYTES)"
| "out_allowed m (OCapture k _) = allowed m (send_permission k)"
| "out_allowed m (OAddTrack k _) = allowed m (send_permission k)"
| "out_allowed m (OAttach k _) = allowed m (receive_permission k)"
| "out_allowed m (OIframe tokens) = (set tokens \<subseteq> {''allow-scripts'', ''allow-downloads''}
     \<and> (''allow-downloads'' \<in> set tokens \<longrightarrow> allowed m ''file.write.user_approved''))"
| "out_allowed m _ = True"

fun task_allowed :: "addon_manifest \<Rightarrow> host_task \<Rightarrow> bool" where
  "task_allowed m (TStorage _ (Inr _)) = (allowed m ''storage.local.read'' \<or> allowed m ''storage.local.write'')"
| "task_allowed m (TCapture k) = allowed m (send_permission k)"
| "task_allowed m (TAddTrack k _) = allowed m (send_permission k)"
| "task_allowed m _ = True"

definition host_allowed :: "addon_manifest \<Rightarrow> 's addon_host \<Rightarrow> bool" where
  "host_allowed m h \<longleftrightarrow> ah_manifest h = m \<and> manifest_ok m
     \<and> (ah_audioLevel h \<longrightarrow> allowed m ''audio.level'') \<and> (\<forall>k. receives k h \<longrightarrow> allowed m (receive_permission k))"

definition result_allowed :: "addon_manifest \<Rightarrow> 's host_result \<Rightarrow> bool" where
  "result_allowed m r = (case r of (h, es, ts) \<Rightarrow>
     host_allowed m h \<and> list_all (out_allowed m) es \<and> list_all (task_allowed m) ts)"

lemma result_allowedI [intro]:
  "host_allowed m h \<Longrightarrow> list_all (out_allowed m) es \<Longrightarrow> list_all (task_allowed m) ts \<Longrightarrow> result_allowed m (h, es, ts)"
  by (simp add: result_allowed_def)

lemma has_permission_allowed [simp]: "host_allowed m h \<Longrightarrow> has_permission p h = allowed m p"
  by (auto simp: has_permission_def allowed_def host_allowed_def)

lemma post_allowed [simp]: "list_all (out_allowed m) (postToIframe b h) \<longleftrightarrow> (ah_iframe h \<longrightarrow> bridge_allowed m b)"
  by (simp add: postToIframe_def)

text \<open>Changes of the state that the permissions do not depend on.\<close>

lemma receives_updates [simp]:
  "receives k (h\<lparr>ah_state := st\<rparr>) = receives k h" "receives k (h\<lparr>ah_senders := x\<rparr>) = receives k h"
  "receives k (h\<lparr>ah_detachers := y\<rparr>) = receives k h" "receives k (h\<lparr>ah_tracks := z\<rparr>) = receives k h"
  "receives k (h\<lparr>ah_counter := n\<rparr>) = receives k h" "receives k (h\<lparr>ah_store := s\<rparr>) = receives k h"
  "receives k (h\<lparr>ah_iframe := b\<rparr>) = receives k h" "receives k (h\<lparr>ah_listening := b\<rparr>) = receives k h"
  "receives k (h\<lparr>ah_bound := b\<rparr>) = receives k h" "receives k (h\<lparr>ah_audioLevel := b\<rparr>) = receives k h"
  by (cases k; simp)+

lemma receives_set [simp]: "receives k (set_receive k' b h) = (if k = k' then b else receives k h)"
  by (cases k; cases k') simp_all

lemma set_receive_same [simp]:
  "ah_manifest (set_receive k b h) = ah_manifest h" "ah_audioLevel (set_receive k b h) = ah_audioLevel h"
  "ah_iframe (set_receive k b h) = ah_iframe h" "ah_state (set_receive k b h) = ah_state h"
  "ah_detachers (set_receive k b h) = ah_detachers h" "ah_senders (set_receive k b h) = ah_senders h"
  "ah_bound (set_receive k b h) = ah_bound h" "ah_listening (set_receive k b h) = ah_listening h"
  "ah_store (set_receive k b h) = ah_store h"
  by (cases k; simp)+

lemma host_setState_simps:
  "host_setState st h = (h\<lparr>ah_state := st\<rparr>, if ah_state h = st then [] else [OState st])"
  by (simp add: host_setState_def)

text \<open>The envelope that \<open>handleSend\<close> builds always validates.\<close>

lemma handleSend_sends:
  assumes "manifest_ok (ah_manifest h)" "has_permission ''peer.send'' h" "ah_link h \<noteq> None"
  shows "\<exists>e t c. handleSend now payload h = ((h\<lparr>ah_counter := c\<rparr>, [OSend payload, OSendText t], [TSendText]), None)
    \<and> json_str (envelope_val e) = Some t \<and> envelope_ok e \<and> env_addon e = am_id (ah_manifest h)
    \<and> env_version e = am_version (ah_manifest h) \<and> env_createdAt e = of_int (int now) \<and> env_payload e = payload"
proof -
  obtain eid c where n: "newEnvelopeId now (ah_counter h) = (eid, c)" by (cases "newEnvelopeId now (ah_counter h)")
  define e where "e = \<lparr>env_id = eid, env_addon = am_id (ah_manifest h), env_version = am_version (ah_manifest h),
                   env_createdAt = rat_of_int (int now), env_payload = payload\<rparr>"
  have "eid \<noteq> []" using n by (auto simp: newEnvelopeId_def Let_def)
  then have ok: "envelope_ok e" using assms by (simp add: e_def envelope_ok_def manifest_ok_def)
  then have v: "validateAddonEnvelope (envelope_val e) = Inr e" by (simp only: validate_envelope_val)
  obtain t where t: "json_str (envelope_val e) = Some t" using json_str_envelope by blast
  have lit: "Obj [(js ''id'', Str eid), (js ''kind'', Str (js ''addon.message'')),
              (js ''addon'', Str (am_id (ah_manifest h))), (js ''version'', Str (am_version (ah_manifest h))),
              (js ''createdAt'', jint (int now)), (js ''payload'', payload)] = envelope_val e"
    by (simp add: envelope_val_def e_def)
  have "handleSend now payload h = ((h\<lparr>ah_counter := c\<rparr>, [OSend payload, OSendText t], [TSendText]), None)"
    using assms(2,3) unfolding handleSend_def n Let_def prod.case lit v t by simp
  with t ok show ?thesis by (intro exI [of _ e] exI [of _ t] exI [of _ c]) (simp add: e_def)
qed

lemma handleSend_allowed:
  assumes "host_allowed m h"
  shows "result_allowed m (fst (handleSend now payload h))"
proof (cases "has_permission ''peer.send'' h \<and> ah_link h \<noteq> None")
  case True
  have m: "manifest_ok (ah_manifest h)" "ah_manifest h = m" using assms by (auto simp: host_allowed_def)
  from handleSend_sends [OF m(1), of now payload] True obtain e t c where
    r: "handleSend now payload h = ((h\<lparr>ah_counter := c\<rparr>, [OSend payload, OSendText t], [TSendText]), None)"
    and e: "json_str (envelope_val e) = Some t" "envelope_ok e" "env_addon e = am_id m" "env_version e = am_version m"
    using m(2) by auto
  from e have "own_envelope m t" unfolding own_envelope_def by blast
  with assms True show ?thesis by (simp add: r result_allowed_def) (simp add: host_allowed_def)
qed (use assms in \<open>auto simp: handleSend_def result_allowed_def\<close>)

subsection \<open>Every handler stays within the permissions\<close>

lemma on_ready_allowed: "host_allowed m h \<Longrightarrow> result_allowed m (on_ready h)"
  by (auto simp: on_ready_def ensureInitPosted_def host_setState_simps init_message_def Let_def host_allowed_def result_allowed_def)

lemma handleSendBin_allowed: "host_allowed m h \<Longrightarrow> result_allowed m (handleSendBin mime bs h)"
  by (auto simp: handleSendBin_def result_allowed_def split: jsval.splits) (auto simp: host_allowed_def)

lemma media_send_allowed:
  "host_allowed m h \<Longrightarrow> result_allowed m (handleMediaSendStart k src h)"
  "host_allowed m h \<Longrightarrow> result_allowed m (handleMediaSendStop k h)"
  by (auto simp: handleMediaSendStart_def handleMediaSendStop_def result_allowed_def split: option.splits)
    (auto simp: host_allowed_def)

lemma media_receive_allowed:
  "host_allowed m h \<Longrightarrow> result_allowed m (handleMediaReceiveSubscribe k h)"
  "host_allowed m h \<Longrightarrow> result_allowed m (handleMediaReceiveUnsubscribe k h)"
  by (auto simp: handleMediaReceiveSubscribe_def handleMediaReceiveUnsubscribe_def result_allowed_def Let_def split: option.splits)
    (auto simp: host_allowed_def)

lemma audio_level_allowed:
  "host_allowed m h \<Longrightarrow> result_allowed m (handleAudioLevelSubscribe h)"
  "host_allowed m h \<Longrightarrow> result_allowed m (publishAudioLevel l h)"
  by (auto simp: handleAudioLevelSubscribe_def publishAudioLevel_def result_allowed_def split: jsnum.splits)
    (auto simp: host_allowed_def)

lemma storage_errors_allowed [simp]: "list_all (out_allowed m) (storageError rid e h)"
  by (simp add: storageError_def)

lemma storage_request_needs:
  "storage_request now op k v = Inr call \<Longrightarrow> needs_read op \<or> needs_write op"
  by (auto simp: storage_request_def needs_read_def needs_write_def split: if_splits)

lemma handleStorage_allowed:
  assumes "host_allowed m h"
  shows "result_allowed m (handleStorage B now msg h)"
proof (cases "\<exists>rid. fld msg ''rid'' = Str rid \<and> rid \<noteq> []")
  case True
  then obtain rid where rid: "fld msg ''rid'' = Str rid" "rid \<noteq> []" by blast
  let ?op = "fld msg ''storage''"
  show ?thesis
  proof (cases "storage_request now ?op (fld msg ''key'') (fld msg ''value'')")
    case (Inr call)
    obtain res st where c: "addon_call B (am_id (ah_manifest h)) call (ah_store h) = (res, st)"
      by (cases "addon_call B (am_id (ah_manifest h)) call (ah_store h)")
    have "task_allowed m (TStorage rid res)"
      if "needs_read ?op \<longrightarrow> allowed m ''storage.local.read''" "needs_write ?op \<longrightarrow> allowed m ''storage.local.write''"
      using storage_request_needs [OF Inr] that by (cases res) auto
    with assms Inr c rid show ?thesis
      by (auto simp: handleStorage_def result_allowed_def) (auto simp: host_allowed_def)
  qed (use assms rid in \<open>auto simp: handleStorage_def result_allowed_def\<close>)
qed (use assms in \<open>auto simp: handleStorage_def result_allowed_def split: jsval.splits\<close>)

lemma window_message_allowed:
  assumes "host_allowed m h"
  shows "result_allowed m (handleWindowMessage B now fr data h)"
proof -
  have "host_allowed m (h\<lparr>ah_audioLevel := False\<rparr>)" using assms by (simp add: host_allowed_def)
  with assms show ?thesis
    unfolding handleWindowMessage_def Let_def
    by (auto simp: on_ready_allowed handleSend_allowed handleSendBin_allowed media_send_allowed media_receive_allowed
        audio_level_allowed handleStorage_allowed split: option.splits)
qed

lemma delivery_allowed:
  "host_allowed m h \<Longrightarrow> list_all (out_allowed m) (fst (deliver p from h))"
  "host_allowed m h \<Longrightarrow> list_all (out_allowed m) (fst (deliverBinary mime bs from h))"
  by (auto simp: deliver_def deliverBinary_def)

lemma peer_allowed:
  "host_allowed m h \<Longrightarrow> result_allowed m (on_peer_text t h)"
  "host_allowed m h \<Longrightarrow> result_allowed m (on_peer_binary a mime bs h)"
  "host_allowed m h \<Longrightarrow> result_allowed m (handleRemoteTrack k trk d h)"
  by (auto simp: on_peer_text_def on_peer_binary_def handleRemoteTrack_def caught_def result_allowed_def delivery_allowed
      split: option.splits) (auto simp: host_allowed_def)

lemma detached_allowed [simp]: "list_all (out_allowed m) (map (ODetach \<circ> snd) ds)"
  by (induction ds) auto

lemma receives_none [simp]: "\<not> receives k (h\<lparr>ah_recvAudio := False, ah_recvVideo := False\<rparr>)"
  by (cases k) simp_all

lemma close_finish_allowed: "host_allowed m h \<Longrightarrow> result_allowed m (host_close_finish h)"
  unfolding host_close_finish_def result_allowed_def host_allowed_def by (auto elim: receives.elims)

lemma close_allowed:
  "host_allowed m h \<Longrightarrow> result_allowed m (close_sender i h)"
  by (simp add: close_sender_def close_finish_allowed result_allowedI)

lemma host_close_allowed: "host_allowed m h \<Longrightarrow> result_allowed m (host_close h)"
proof -
  assume h: "host_allowed m h"
  let ?h = "h\<lparr>ah_state := HClosed, ah_listening := False, ah_bound := False, ah_audioLevel := False\<rparr>"
  have "host_allowed m ?h" using h by (simp add: host_allowed_def)
  then have "result_allowed m (close_sender 0 ?h)" by (rule close_allowed)
  with h show ?thesis
    by (auto simp: host_close_def host_setState_simps Let_def result_allowed_def split: prod.splits)
qed

lemma storage_settled_allowed:
  "task_allowed m (TStorage rid r) \<Longrightarrow> list_all (out_allowed m) (storage_settled rid r h)"
  by (auto simp: storage_settled_def storageReply_def split: sum.splits storage_answer.splits storage_failure.splits)

lemma resume_allowed:
  assumes "host_allowed m h" "task_allowed m t"
  shows "result_allowed m (host_resume t res h)"
proof (cases t)
  case (TClose i trk)
  obtain h1 es ts where "close_sender (Suc i) h = (h1, es, ts)" by (metis prod_cases3)
  with close_allowed [OF assms(1), of "Suc i"] TClose show ?thesis
    by (simp add: host_resume_def close_sender_removed_def result_allowed_def)
next
  case (TAddTrack k trk)
  with assms show ?thesis
    by (auto simp: host_resume_def send_added_def result_allowed_def) (auto simp: host_allowed_def)
qed (use assms storage_settled_allowed in \<open>auto simp: host_resume_def send_captured_def send_stopped_def result_allowed_def
    split: host_answer.splits\<close>)

definition config_allowed :: "addon_manifest \<Rightarrow> 's host_config \<Rightarrow> bool" where
  "config_allowed m c \<longleftrightarrow> host_allowed m (hc_host c) \<and> list_all (task_allowed m) (hc_tasks c)"

lemma ended_allowed: "host_allowed m h \<Longrightarrow> result_allowed m (on_track_ended k t h)"
  by (auto simp: on_track_ended_def Let_def result_allowed_def) (auto simp: host_allowed_def)

lemma load_allowed: "host_allowed m h \<Longrightarrow> result_allowed m (onIframeLoad h)"
  by (auto simp: onIframeLoad_def host_setState_simps init_message_def Let_def result_allowed_def) (auto simp: host_allowed_def)

lemma run_allowed:
  assumes "config_allowed m c" "host_enabled ev c"
  shows "result_allowed m (host_run B ev c)"
proof -
  have h: "host_allowed m (hc_host c)" and ts: "list_all (task_allowed m) (hc_tasks c)"
    using assms(1) by (auto simp: config_allowed_def)
  show ?thesis
  proof (cases ev)
    case (HResume n res)
    then have "task_allowed m (hc_tasks c ! n)"
      using ts assms(2) by (auto simp: host_enabled_def list_all_length)
    with h HResume show ?thesis by (simp add: host_run_def resume_allowed)
  qed (use h in \<open>auto simp: host_run_def Let_def load_allowed window_message_allowed peer_allowed ended_allowed delivery_allowed
      audio_level_allowed host_close_allowed\<close>)
qed

lemma step_unfold:
  "host_step B ev c = Some (c', os) \<longleftrightarrow> host_enabled ev c \<and>
     (\<exists>h ts. host_run B ev c = (h, os, ts) \<and> c' = \<lparr>hc_host = h, hc_tasks = host_tasks_after ev (hc_tasks c) @ ts\<rparr>)"
  by (auto simp: host_step_def split: prod.splits)

lemma tasks_after_allowed: "list_all P ts \<Longrightarrow> list_all P (host_tasks_after ev ts)"
  by (cases ev) (auto simp: host_tasks_after_def list_all_iff dest: in_set_takeD in_set_dropD)

text \<open>Whatever happens, the host does only what the manifest gives permission for.\<close>

interpretation permissions: output_safe "host_step B" "config_allowed m" "out_allowed m" for B m
proof
  fix c c' :: "'a host_config" and ev os
  assume c: "config_allowed m c" and s: "host_step B ev c = Some (c', os)"
  from s obtain h ts where r: "host_run B ev c = (h, os, ts)" "host_enabled ev c"
    and c': "c' = \<lparr>hc_host = h, hc_tasks = host_tasks_after ev (hc_tasks c) @ ts\<rparr>"
    by (auto simp: step_unfold)
  from run_allowed [OF c r(2), of B] have a: "host_allowed m h" "list_all (out_allowed m) os" "list_all (task_allowed m) ts"
    by (simp_all add: r result_allowed_def)
  show "list_all (out_allowed m) os" by (rule a(2))
  show "config_allowed m c'"
    using a c tasks_after_allowed [of "task_allowed m" "hc_tasks c" ev] by (simp add: c' config_allowed_def)
qed

text \<open>What \<open>load\<close> builds is a good start.\<close>

definition loaded :: "addon_manifest \<Rightarrow> bool option \<Rightarrow> bool \<Rightarrow> 's \<Rightarrow> capture_provider option \<Rightarrow> sink_provider option \<Rightarrow>
    nat \<Rightarrow> nat \<Rightarrow> 's host_config" where
  "loaded m lnk hasStorage store capture sink now counter =
     \<lparr>hc_host = fst (load_host m lnk hasStorage store capture sink now counter), hc_tasks = []\<rparr>"

lemma loaded_host:
  "\<exists>sid c. hc_host (loaded m lnk hs st cap snk now cnt) =
     \<lparr>ah_manifest = m, ah_sessionId = sid, ah_link = lnk, ah_hasStorage = hs, ah_store = st, ah_iframe = True,
      ah_state = HMounted, ah_bound = (lnk \<noteq> None), ah_listening = True, ah_audioLevel = False, ah_capture = cap, ah_sink = snk,
      ah_senders = [], ah_recvAudio = False, ah_recvVideo = False, ah_detachers = [], ah_tracks = [], ah_counter = c\<rparr>"
  by (auto simp: loaded_def load_host_def mount_def new_host_def bindToSession_def host_setState_def Let_def split: prod.splits)

lemma loaded_allowed: "manifest_ok m \<Longrightarrow> config_allowed m (loaded m lnk hs st cap snk now cnt)"
proof -
  assume m: "manifest_ok m"
  obtain sid c where h: "hc_host (loaded m lnk hs st cap snk now cnt) =
     \<lparr>ah_manifest = m, ah_sessionId = sid, ah_link = lnk, ah_hasStorage = hs, ah_store = st, ah_iframe = True,
      ah_state = HMounted, ah_bound = (lnk \<noteq> None), ah_listening = True, ah_audioLevel = False, ah_capture = cap, ah_sink = snk,
      ah_senders = [], ah_recvAudio = False, ah_recvVideo = False, ah_detachers = [], ah_tracks = [], ah_counter = c\<rparr>"
    using loaded_host [of m lnk hs st cap snk now cnt] by blast
  have r: "receives k (hc_host (loaded m lnk hs st cap snk now cnt)) = False" for k by (cases k) (simp_all add: h)
  have "hc_tasks (loaded m lnk hs st cap snk now cnt) = []" by (simp add: loaded_def)
  then show ?thesis using m unfolding config_allowed_def host_allowed_def r by (simp add: h)
qed

theorem host_within_permissions:
  assumes "manifest_ok m" "reach (host_step B) (loaded m lnk hs st cap snk now cnt) os c"
  shows "list_all (out_allowed m) (snd (load_host m lnk hs st cap snk now cnt) @ os)"
proof -
  have "list_all (out_allowed m) os"
    using permissions.reach_outputs [OF assms(2) loaded_allowed [OF assms(1)]] .
  moreover have "list_all (out_allowed m) (snd (load_host m lnk hs st cap snk now cnt))"
    by (auto simp: load_host_def mount_def new_host_def host_setState_def has_permission_def allowed_def Let_def split: prod.splits)
  ultimately show ?thesis by simp
qed

subsection \<open>Life cycle\<close>

text \<open>The states in the order an add-on goes through them.\<close>

fun rank :: "host_state \<Rightarrow> nat" where
  "rank HCreated = 0"
| "rank HMounted = 1"
| "rank HInitialized = 2"
| "rank HActive = 3"
| "rank HClosed = 4"

lemma rank_inj: "rank a = rank b \<Longrightarrow> a = b"
  by (cases a; cases b) simp_all

instantiation host_state :: linorder
begin

definition less_eq_host_state :: "host_state \<Rightarrow> host_state \<Rightarrow> bool" where
  "a \<le> b \<longleftrightarrow> rank a \<le> rank b"

definition less_host_state :: "host_state \<Rightarrow> host_state \<Rightarrow> bool" where
  "a < b \<longleftrightarrow> rank a < rank b"

instance
  by standard (auto simp: less_eq_host_state_def less_host_state_def intro: rank_inj)

end

lemma host_state_order [simp]:
  "HCreated < HMounted" "HMounted < HInitialized" "HInitialized < HActive" "HMounted < HActive" "a \<le> HClosed"
  "HActive < HClosed" "HMounted < HClosed" "HInitialized < HClosed" "HCreated < HClosed"
  by (cases a; simp add: less_eq_host_state_def less_host_state_def)+

lemma less_HClosed: "st < HClosed \<longleftrightarrow> st \<noteq> HClosed"
  by (cases st) (simp_all add: less_host_state_def)

fun announced :: "host_out list \<Rightarrow> host_state list" where
  "announced [] = []"
| "announced (OState st # os) = st # announced os"
| "announced (_ # os) = announced os"

lemma announced_append [simp]: "announced (xs @ ys) = announced xs @ announced ys"
  by (induction xs rule: announced.induct) simp_all

lemma announced_post [simp]: "announced (postToIframe b h) = []"
  by (simp add: postToIframe_def)

lemma announced_detach [simp]: "announced (map (ODetach \<circ> snd) ds) = []"
  by (induction ds) simp_all

text \<open>A handler either leaves the state or moves it up and announces it.\<close>

definition forward :: "'s addon_host \<Rightarrow> 's host_result \<Rightarrow> bool" where
  "forward h r = (case r of (h', es, ts) \<Rightarrow>
     sorted_wrt (<) (ah_state h # announced es) \<and> last (ah_state h # announced es) = ah_state h')"

lemma forwardI: "announced es = [] \<Longrightarrow> ah_state h' = ah_state h \<Longrightarrow> forward h (h', es, ts)"
  by (simp add: forward_def)

lemma storage_error_announced [simp]: "announced (storageError rid e h) = []" "announced (storageReply rid v h) = []"
  by (simp_all add: storageError_def storageReply_def)

lemma forward_simple:
  "forward h (handleSendBin mi b h)" "forward h (handleMediaSendStart k src h)" "forward h (handleMediaSendStop k h)"
  "forward h (handleMediaReceiveSubscribe k h)" "forward h (handleMediaReceiveUnsubscribe k h)"
  "forward h (handleAudioLevelSubscribe h)" "forward h (publishAudioLevel l h)" "forward h (handleStorage B now msg h)"
  "forward h (on_peer_text t h)" "forward h (on_peer_binary a mime bs h)" "forward h (handleRemoteTrack k trk d h)"
  "forward h (on_track_ended k trk h)"
  by (auto simp: handleSendBin_def handleMediaSendStart_def handleMediaSendStop_def handleMediaReceiveSubscribe_def
      handleMediaReceiveUnsubscribe_def handleAudioLevelSubscribe_def publishAudioLevel_def handleStorage_def
      on_peer_text_def on_peer_binary_def handleRemoteTrack_def on_track_ended_def caught_def deliver_def deliverBinary_def Let_def
      intro!: forwardI split: jsval.splits option.splits jsnum.splits sum.splits prod.splits)

lemma forward_send: "forward h (fst (handleSend now p h))"
  by (auto simp: handleSend_def Let_def intro!: forwardI split: sum.splits option.splits prod.splits)

lemma forward_ready: "forward h (on_ready h)"
  by (cases "ah_state h") (auto simp: on_ready_def ensureInitPosted_def host_setState_simps Let_def forward_def)

lemma forward_load: "forward h (onIframeLoad h)"
  by (cases "ah_state h") (auto simp: onIframeLoad_def host_setState_simps Let_def forward_def)

lemma close_sender_shape:
  "\<exists>h' es ts. close_sender i h = (h', es, ts) \<and> announced es = [] \<and> ah_state h' = ah_state h"
  by (auto simp: close_sender_def host_close_finish_def)

lemma forward_close: "forward h (host_close h)"
proof -
  obtain h' es ts where "close_sender 0 (h\<lparr>ah_state := HClosed, ah_listening := False, ah_bound := False, ah_audioLevel := False\<rparr>)
      = (h', es, ts)" "announced es = []" "ah_state h' = HClosed"
    using close_sender_shape by fastforce
  then show ?thesis by (auto simp: host_close_def host_setState_simps forward_def less_HClosed)
qed

lemma forward_resume: "forward h (host_resume t res h)"
proof (cases t)
  case (TClose i trk)
  obtain h' es ts where "close_sender (Suc i) h = (h', es, ts)" "announced es = []" "ah_state h' = ah_state h"
    using close_sender_shape by blast
  then show ?thesis by (simp add: TClose host_resume_def close_sender_removed_def forward_def)
qed (auto simp: host_resume_def send_captured_def send_added_def send_stopped_def storage_settled_def intro!: forwardI
    split: host_answer.splits sum.splits storage_answer.splits storage_failure.splits)

lemma forward_window: "forward h (handleWindowMessage B now fr data h)"
  unfolding handleWindowMessage_def Let_def
  by (auto simp: forward_simple forward_send forward_ready intro!: forwardI split: option.splits)

lemma forward_run: "forward (hc_host c) (host_run B ev c)"
  by (cases ev) (auto simp: host_run_def forward_simple forward_load forward_window forward_close forward_resume
      deliver_def deliverBinary_def Let_def intro!: forwardI)

text \<open>Announced states only go up, and the last one is the current one.\<close>

definition lifecycle :: "host_out list \<Rightarrow> 's host_config \<Rightarrow> bool" where
  "lifecycle os c \<longleftrightarrow> sorted_wrt (<) (HMounted # announced os) \<and> last (HMounted # announced os) = ah_state (hc_host c)"

lemma sorted_wrt_extend:
  fixes x :: "'a :: linorder"
  assumes "sorted_wrt (<) (x # xs)" "sorted_wrt (<) (last (x # xs) # ys)"
  shows "sorted_wrt (<) (x # xs @ ys) \<and> last (x # xs @ ys) = last (last (x # xs) # ys)"
  using assms
proof (induction xs arbitrary: x)
  case (Cons z zs)
  have ih: "sorted_wrt (<) (z # zs @ ys) \<and> last (z # zs @ ys) = last (last (z # zs) # ys)"
    by (rule Cons.IH) (use Cons.prems in simp_all)
  have "x < z" using Cons.prems(1) by simp
  then have "\<forall>w\<in>set (z # zs @ ys). x < w" using ih by (auto intro: less_trans [of x z])
  with ih show ?case by simp
qed simp

interpretation lifecycle: monitored "host_step B" lifecycle for B
proof
  fix os os' and c c' :: "'a host_config" and ev
  assume l: "lifecycle os c" and s: "host_step B ev c = Some (c', os')"
  from s obtain h ts where r: "host_run B ev c = (h, os', ts)" and c': "hc_host c' = h"
    by (auto simp: step_unfold)
  from forward_run [of c B ev] have f: "sorted_wrt (<) (ah_state (hc_host c) # announced os')"
    "last (ah_state (hc_host c) # announced os') = ah_state h"
    by (simp_all add: r forward_def)
  with l sorted_wrt_extend [of HMounted "announced os" "announced os'"] show "lifecycle (os @ os') c'"
    by (simp add: lifecycle_def c')
qed

theorem host_lifecycle:
  assumes "reach (host_step B) (loaded m lnk hs st cap snk now cnt) os c"
  shows "sorted_wrt (<) (HMounted # announced os) \<and> last (HMounted # announced os) = ah_state (hc_host c)"
proof -
  have "lifecycle [] (loaded m lnk hs st cap snk now cnt)"
    using loaded_host [of m lnk hs st cap snk now cnt] by (auto simp: lifecycle_def)
  with lifecycle.reach_monitored [OF assms] show ?thesis by (simp add: lifecycle_def)
qed

subsection \<open>Initialisation comes first, once\<close>

fun is_init :: "host_out \<Rightarrow> bool" where
  "is_init (OPost (BInit _ _ _)) = True"
| "is_init _ = False"

fun is_delivery :: "host_out \<Rightarrow> bool" where
  "is_delivery (OPost (BDeliver _ _)) = True"
| "is_delivery (OPost (BDeliverBin _ _ _)) = True"
| "is_delivery (OPost (BAudioLevel _)) = True"
| "is_delivery _ = False"

fun init_first :: "bool \<Rightarrow> host_out list \<Rightarrow> bool" where
  "init_first seen [] = True"
| "init_first seen (e # es) = ((is_delivery e \<longrightarrow> seen) \<and> init_first (seen \<or> is_init e) es)"

lemma init_first_append: "init_first b (xs @ ys) \<longleftrightarrow> init_first b xs \<and> init_first (b \<or> list_ex is_init xs) ys"
  by (induction xs arbitrary: b) (auto simp: disj_assoc)

lemma init_first_none: "\<not> list_ex is_delivery xs \<Longrightarrow> init_first b xs"
  by (induction xs arbitrary: b) auto

lemma init_first_seen: "init_first True xs"
  by (induction xs) auto

abbreviation inits :: "host_out list \<Rightarrow> nat" where
  "inits es \<equiv> length (filter is_init es)"

lemma inits_0: "inits es = 0 \<longleftrightarrow> \<not> list_ex is_init es"
  by (induction es) auto

fun is_close :: "host_task \<Rightarrow> bool" where
  "is_close (TClose _ _) = True"
| "is_close _ = False"

definition quiet :: "'s addon_host \<Rightarrow> 's host_result \<Rightarrow> bool" where
  "quiet h r = (case r of (h', es, ts) \<Rightarrow> inits es = 0 \<and> (list_ex is_delivery es \<longrightarrow> ah_state h = HActive)
     \<and> (ah_state h' = HClosed \<or> ah_state h' = ah_state h \<and> ah_iframe h' = ah_iframe h)
     \<and> (list_ex is_close ts \<longrightarrow> ah_state h' = HClosed))"

definition initialises :: "'s addon_host \<Rightarrow> 's host_result \<Rightarrow> bool" where
  "initialises h r = (case r of (h', es, ts) \<Rightarrow> ah_state h' \<in> {HInitialized, HActive} \<and> ah_iframe h' = ah_iframe h
     \<and> \<not> list_ex is_delivery es \<and> \<not> list_ex is_close ts
     \<and> (ah_state h = HMounted \<and> (ah_iframe h \<longrightarrow> inits es = 1) \<or> ah_state h = HInitialized \<and> inits es = 0))"

lemma post_counts [simp]:
  "filter is_init (postToIframe b h) = (if ah_iframe h \<and> is_init (OPost b) then [OPost b] else [])"
  "list_ex is_delivery (postToIframe b h) \<longleftrightarrow> ah_iframe h \<and> is_delivery (OPost b)"
  by (simp_all add: postToIframe_def)

lemma storage_counts [simp]:
  "filter is_init (storageError rid e h) = []" "filter is_init (storageReply rid v h) = []"
  "\<not> list_ex is_delivery (storageError rid e h)" "\<not> list_ex is_delivery (storageReply rid v h)"
  by (simp_all add: storageError_def storageReply_def)

lemma detach_counts [simp]:
  "filter is_init (map (ODetach \<circ> snd) ds) = []" "\<not> list_ex is_delivery (map (ODetach \<circ> snd) ds)"
  by (induction ds) simp_all

lemma quietI:
  "inits es = 0 \<Longrightarrow> (list_ex is_delivery es \<Longrightarrow> ah_state h = HActive) \<Longrightarrow> ah_state h' = ah_state h \<Longrightarrow>
   ah_iframe h' = ah_iframe h \<Longrightarrow> \<not> list_ex is_close ts \<Longrightarrow> quiet h (h', es, ts)"
  by (simp add: quiet_def)

lemma quiet_media:
  "quiet h (handleMediaSendStart k src h)" "quiet h (handleMediaSendStop k h)"
  "quiet h (handleMediaReceiveSubscribe k h)" "quiet h (handleMediaReceiveUnsubscribe k h)"
  "quiet h (handleRemoteTrack k trk d h)" "quiet h (on_track_ended k trk h)"
  by (simp_all add: quiet_def handleMediaSendStart_def handleMediaSendStop_def handleMediaReceiveSubscribe_def
      handleMediaReceiveUnsubscribe_def handleRemoteTrack_def on_track_ended_def Let_def split: option.splits)

lemma quiet_peer:
  "quiet h (on_peer_text t h)" "quiet h (on_peer_binary a mime bs h)" "quiet h (handleAudioLevelSubscribe h)"
  "quiet h (publishAudioLevel l h)"
  by (simp_all add: quiet_def on_peer_text_def on_peer_binary_def caught_def deliver_def deliverBinary_def
      handleAudioLevelSubscribe_def publishAudioLevel_def split: option.splits jsnum.splits)

lemma quiet_requests:
  "quiet h (handleSendBin mi b h)" "quiet h (handleStorage B now msg h)"
  by (simp_all add: quiet_def handleSendBin_def handleStorage_def Let_def split: jsval.splits sum.splits prod.splits)

lemmas quiet_simple = quiet_media quiet_peer quiet_requests

lemma quiet_send: "quiet h (fst (handleSend now p h))"
  by (auto simp: handleSend_def Let_def intro!: quietI split: sum.splits option.splits prod.splits)

lemma ready_starts: "quiet h (on_ready h) \<or> initialises h (on_ready h)"
  by (cases "ah_state h") (auto simp: on_ready_def ensureInitPosted_def host_setState_simps init_message_def Let_def
      quiet_def initialises_def)

lemma load_starts: "quiet h (onIframeLoad h) \<or> initialises h (onIframeLoad h)"
  by (cases "ah_state h") (auto simp: onIframeLoad_def host_setState_simps init_message_def Let_def quiet_def initialises_def)

lemma close_sender_quiet:
  "\<exists>h' es ts. close_sender i h = (h', es, ts) \<and> inits es = 0 \<and> \<not> list_ex is_delivery es \<and> ah_state h' = ah_state h
    \<and> (i < length (ah_senders h) \<longrightarrow> ah_iframe h' = ah_iframe h)"
  by (auto simp: close_sender_def host_close_finish_def)

lemma quiet_close: "quiet h (host_close h)"
proof -
  obtain h' es ts where "close_sender 0 (h\<lparr>ah_state := HClosed, ah_listening := False, ah_bound := False, ah_audioLevel := False\<rparr>)
      = (h', es, ts)" "inits es = 0" "\<not> list_ex is_delivery es" "ah_state h' = HClosed"
    using close_sender_quiet [of 0 "h\<lparr>ah_state := HClosed, ah_listening := False, ah_bound := False, ah_audioLevel := False\<rparr>"]
    by auto
  then show ?thesis by (auto simp: host_close_def host_setState_simps quiet_def)
qed

text \<open>The continuation of \<open>close\<close> only ever runs in a closed host.\<close>

definition closing :: "'s host_config \<Rightarrow> bool" where
  "closing c \<longleftrightarrow> (\<exists>i t. TClose i t \<in> set (hc_tasks c)) \<longrightarrow> ah_state (hc_host c) = HClosed"

lemma quiet_resume:
  assumes "\<And>i trk. t = TClose i trk \<Longrightarrow> ah_state h = HClosed"
  shows "quiet h (host_resume t res h)"
proof (cases t)
  case (TClose i trk)
  then have "ah_state h = HClosed" using assms by blast
  moreover obtain h' es ts where "close_sender (Suc i) h = (h', es, ts)" "inits es = 0" "\<not> list_ex is_delivery es" "ah_state h' = ah_state h"
    using close_sender_quiet [of "Suc i" h] by auto
  ultimately show ?thesis by (simp add: TClose host_resume_def close_sender_removed_def quiet_def)
qed (auto simp: host_resume_def send_captured_def send_added_def send_stopped_def storage_settled_def intro!: quietI
    split: host_answer.splits sum.splits storage_answer.splits storage_failure.splits if_splits)

lemma quiet_window: "quiet h (handleWindowMessage B now fr data h) \<or> initialises h (handleWindowMessage B now fr data h)"
  unfolding handleWindowMessage_def Let_def
  by (auto simp: quiet_simple quiet_send ready_starts intro!: quietI split: option.splits)

lemma run_starts:
  assumes "closing c" "host_enabled ev c"
  shows "quiet (hc_host c) (host_run B ev c) \<or> initialises (hc_host c) (host_run B ev c)"
proof (cases ev)
  case (HResume n res)
  then have "hc_tasks c ! n \<in> set (hc_tasks c)" using assms(2) by (simp add: host_enabled_def)
  then have "quiet (hc_host c) (host_resume (hc_tasks c ! n) res (hc_host c))"
    using assms(1) by (intro quiet_resume) (auto simp: closing_def)
  then show ?thesis by (simp add: HResume host_run_def)
qed (auto simp: host_run_def quiet_simple quiet_close quiet_window load_starts deliver_def deliverBinary_def Let_def
    intro!: quietI split: if_splits)

definition started :: "host_out list \<Rightarrow> 's host_config \<Rightarrow> bool" where
  "started os c \<longleftrightarrow> init_first False os \<and> closing c \<and> ah_state (hc_host c) \<noteq> HCreated
     \<and> (ah_state (hc_host c) \<noteq> HClosed \<longrightarrow> ah_iframe (hc_host c)
          \<and> inits os = (if ah_state (hc_host c) = HMounted then 0 else 1))
     \<and> inits os \<le> 1"

lemma closing_after:
  assumes "closing c" "quiet (hc_host c) (h, es, ts) \<or> initialises (hc_host c) (h, es, ts)"
  shows "closing \<lparr>hc_host = h, hc_tasks = host_tasks_after ev (hc_tasks c) @ ts\<rparr>"
proof -
  have sub: "set (host_tasks_after ev (hc_tasks c)) \<subseteq> set (hc_tasks c)"
    by (cases ev) (auto simp: host_tasks_after_def dest: in_set_takeD in_set_dropD)
  have keep: "ah_state (hc_host c) = HClosed \<Longrightarrow> ah_state h = HClosed"
    using assms(2) by (auto simp: quiet_def initialises_def)
  have new: "TClose i t \<in> set ts \<Longrightarrow> ah_state h = HClosed" for i t
  proof -
    assume "TClose i t \<in> set ts"
    then have "list_ex is_close ts" by (force simp: list_ex_iff)
    then show ?thesis using assms(2) by (auto simp: quiet_def initialises_def)
  qed
  from sub keep new assms(1) show ?thesis by (auto simp: closing_def)
qed

interpretation starting: monitored "host_step B" started for B
proof
  fix os os' and c c' :: "'a host_config" and ev
  assume st: "started os c" and s: "host_step B ev c = Some (c', os')"
  from s obtain h ts where r: "host_run B ev c = (h, os', ts)" "host_enabled ev c"
    and c': "c' = \<lparr>hc_host = h, hc_tasks = host_tasks_after ev (hc_tasks c) @ ts\<rparr>"
    by (auto simp: step_unfold)
  have cl: "closing c" using st by (simp add: started_def)
  have q: "quiet (hc_host c) (h, os', ts) \<or> initialises (hc_host c) (h, os', ts)"
    using run_starts [OF cl r(2), of B] by (simp add: r(1))
  have "closing c'" unfolding c' by (rule closing_after [OF cl q])
  moreover have "init_first (list_ex is_init os) os'"
  proof (cases "list_ex is_delivery os'")
    case True
    then have "ah_state (hc_host c) = HActive" using q by (auto simp: quiet_def initialises_def)
    then have "inits os \<noteq> 0" using st by (simp add: started_def)
    then have "list_ex is_init os" unfolding inits_0 by simp
    then show ?thesis by (simp add: init_first_seen)
  qed (rule init_first_none)
  ultimately show "started (os @ os') c'"
    using st q unfolding started_def init_first_append c'
    by (auto simp: quiet_def initialises_def)
qed

theorem host_init_once:
  assumes "reach (host_step B) (loaded m lnk hs st cap snk now cnt) os c"
  shows "init_first False os \<and> length (filter is_init os) \<le> 1"
proof -
  have "started [] (loaded m lnk hs st cap snk now cnt)"
    using loaded_host [of m lnk hs st cap snk now cnt] by (auto simp: started_def closing_def loaded_def)
  with starting.reach_monitored [OF assms] show ?thesis by (simp add: started_def)
qed

subsection \<open>The store\<close>

text \<open>Only a storage request touches the store, and nothing changes the manifest.\<close>

definition keeps_store :: "'s addon_host \<Rightarrow> 's host_result \<Rightarrow> bool" where
  "keeps_store h r \<longleftrightarrow> ah_store (fst r) = ah_store h \<and> ah_manifest (fst r) = ah_manifest h"

lemma keeps_store_same [simp]: "keeps_store h (h, es, ts)"
  by (simp add: keeps_store_def)

lemma keeps_media:
  "keeps_store h (handleMediaSendStart k src h)" "keeps_store h (handleMediaSendStop k h)"
  "keeps_store h (handleMediaReceiveSubscribe k h)" "keeps_store h (handleMediaReceiveUnsubscribe k h)"
  "keeps_store h (handleRemoteTrack k trk d h)" "keeps_store h (on_track_ended k trk h)"
  by (simp_all add: keeps_store_def handleMediaSendStart_def handleMediaSendStop_def handleMediaReceiveSubscribe_def
      handleMediaReceiveUnsubscribe_def handleRemoteTrack_def on_track_ended_def Let_def split: option.splits)

lemma keeps_peer:
  "keeps_store h (on_peer_text t h)" "keeps_store h (on_peer_binary a mime bs h)" "keeps_store h (handleAudioLevelSubscribe h)"
  "keeps_store h (publishAudioLevel l h)" "keeps_store h (handleSendBin mi b h)"
  by (simp_all add: keeps_store_def on_peer_text_def on_peer_binary_def handleAudioLevelSubscribe_def publishAudioLevel_def
      handleSendBin_def split: option.splits jsnum.splits jsval.splits)

lemma keeps_send: "keeps_store h (fst (handleSend now p h))"
  by (simp add: keeps_store_def handleSend_def Let_def split: sum.splits option.splits prod.splits)

lemma keeps_lifecycle: "keeps_store h (on_ready h)" "keeps_store h (onIframeLoad h)"
  by (simp_all add: keeps_store_def on_ready_def ensureInitPosted_def onIframeLoad_def host_setState_simps Let_def)

lemma keeps_close_sender: "keeps_store h (close_sender i h)"
  by (simp add: keeps_store_def close_sender_def host_close_finish_def)

lemma keeps_close: "keeps_store h (host_close h)"
proof -
  let ?h = "h\<lparr>ah_state := HClosed, ah_listening := False, ah_bound := False, ah_audioLevel := False\<rparr>"
  obtain h' es ts where c: "close_sender 0 ?h = (h', es, ts)" by (metis prod_cases3)
  with keeps_close_sender [of ?h 0] have "ah_store h' = ah_store h \<and> ah_manifest h' = ah_manifest h"
    by (simp add: keeps_store_def)
  then show ?thesis by (simp add: keeps_store_def host_close_def host_setState_simps c)
qed

lemma keeps_resume: "keeps_store h (host_resume t res h)"
proof (cases t)
  case (TClose i trk)
  obtain h' es ts where c: "close_sender (Suc i) h = (h', es, ts)" by (metis prod_cases3)
  with keeps_close_sender [of h "Suc i"] show ?thesis
    by (simp add: TClose keeps_store_def host_resume_def close_sender_removed_def)
qed (simp_all add: keeps_store_def host_resume_def send_captured_def send_added_def send_stopped_def
    split: host_answer.splits)

lemma keeps_run:
  assumes "\<And>now fr data. ev \<noteq> WindowMessage now fr data"
  shows "keeps_store (hc_host c) (host_run B ev c)"
  using assms by (cases ev) (auto simp: host_run_def Let_def keeps_media keeps_peer keeps_lifecycle keeps_close keeps_resume)

lemma window_store:
  "keeps_store h (handleWindowMessage B now fr data h) \<or>
   (\<exists>msg. handleWindowMessage B now fr data h = handleStorage B now msg h)"
  unfolding handleWindowMessage_def Let_def
  by (auto simp: keeps_media keeps_peer keeps_send keeps_lifecycle split: option.splits) (simp_all add: keeps_store_def)?

definition calls_store :: "'s storage_backend \<Rightarrow> 's addon_host \<Rightarrow> 's host_result \<Rightarrow> bool" where
  "calls_store B h r \<longleftrightarrow> ah_manifest (fst r) = ah_manifest h
     \<and> (\<exists>call res. addon_call B (am_id (ah_manifest h)) call (ah_store h) = (res, ah_store (fst r)))"

lemma handleStorage_store:
  "keeps_store h (handleStorage B now msg h) \<or> calls_store B h (handleStorage B now msg h)"
proof -
  have "(case addon_call B (am_id (ah_manifest h)) call (ah_store h) of (res, store) \<Rightarrow> P res store) \<longleftrightarrow>
      (\<exists>res store. addon_call B (am_id (ah_manifest h)) call (ah_store h) = (res, store) \<and> P res store)" for call P
    by (auto split: prod.splits)
  then show ?thesis
    by (cases "storage_request now (fld msg ''storage'') (fld msg ''key'') (fld msg ''value'')")
      (auto simp: handleStorage_def keeps_store_def calls_store_def Let_def split: jsval.splits prod.splits)
qed

lemma run_store: "keeps_store (hc_host c) (host_run B ev c) \<or> calls_store B (hc_host c) (host_run B ev c)"
proof (cases "\<exists>now fr data. ev = WindowMessage now fr data")
  case True
  then obtain now fr data where ev: "ev = WindowMessage now fr data" by blast
  have "host_run B ev c = handleWindowMessage B now fr data (hc_host c)" by (simp add: ev host_run_def)
  with window_store [of "hc_host c" B now fr data] handleStorage_store [of "hc_host c" B now] show ?thesis by metis
qed (use keeps_run in blast)

text \<open>
  On any backend that keeps its contract for every key, a host never changes what another add-on has
  stored.
\<close>

definition isolated :: "('s \<Rightarrow> namespaces) \<Rightarrow> ('s \<Rightarrow> bool) \<Rightarrow> addon_manifest \<Rightarrow> 's \<Rightarrow> 's host_config \<Rightarrow> bool" where
  "isolated ns good m s0 c \<longleftrightarrow> ah_manifest (hc_host c) = m \<and> good (ah_store (hc_host c))
     \<and> (\<forall>b. b \<noteq> am_id m \<longrightarrow> ns (ah_store (hc_host c)) b = ns s0 b)"

context storage_backend begin

lemma host_step_isolated:
  assumes "\<And>k. key_ok k" "plain_id (am_id m)" "isolated ns inv m s0 c" "host_step B ev c = Some (c', os)"
  shows "isolated ns inv m s0 c'"
proof -
  from assms(4) obtain h ts where r: "host_run B ev c = (h, os, ts)" and c': "hc_host c' = h"
    by (auto simp: step_unfold)
  have i: "ah_manifest (hc_host c) = m" "inv (ah_store (hc_host c))"
    "b \<noteq> am_id m \<Longrightarrow> ns (ah_store (hc_host c)) b = ns s0 b" for b
    using assms(3) by (auto simp: isolated_def)
  from run_store [of c B ev] show ?thesis
  proof
    assume "keeps_store (hc_host c) (host_run B ev c)"
    with assms(3) show ?thesis by (simp add: r keeps_store_def isolated_def c')
  next
    assume "calls_store B (hc_host c) (host_run B ev c)"
    then obtain call res st where c: "addon_call B (am_id m) call (ah_store (hc_host c)) = (res, st)"
      and h: "ah_store h = st" "ah_manifest h = m"
      using i(1) by (auto simp: r calls_store_def)
    have ok: "call_ok key_ok call" using assms(1) by (cases "(key_ok, call)" rule: call_ok.cases) auto
    from call_refines [OF i(2) assms(2) ok c] have inv: "inv st" by blast
    moreover have "ns st b = ns s0 b" if "b \<noteq> am_id m" for b
      using call_isolated [OF i(2) assms(2) ok c that] i(3) [OF that] by simp
    ultimately show ?thesis by (simp add: isolated_def c' h)
  qed
qed

end

interpretation memory_isolation: preserved "host_step memory_backend"
    "\<lambda>c. plain_id (am_id m) \<and> isolated memory_ns memory_inv m s0 c" for m s0
  using memory.host_step_isolated by unfold_locales blast

theorem host_store_isolated:
  assumes "manifest_ok m" "memory_inv st" "b \<noteq> am_id m"
    and "reach (host_step memory_backend) (loaded m lnk hs st cap snk now cnt) os c"
  shows "memory_ns (ah_store (hc_host c)) b = memory_ns st b"
proof -
  have "plain_id (am_id m)" using assms(1) addon_id_plain by (simp add: manifest_ok_def)
  moreover have "isolated memory_ns memory_inv m st (loaded m lnk hs st cap snk now cnt)"
    using loaded_host [of m lnk hs st cap snk now cnt] assms(2) by (auto simp: isolated_def)
  ultimately show ?thesis
    using memory_isolation.reach_preserves [OF assms(4)] assms(3) by (auto simp: isolated_def)
qed

subsection \<open>Closing\<close>

definition cut_off :: "'s addon_host \<Rightarrow> bool" where
  "cut_off h \<longleftrightarrow> ah_state h = HClosed \<and> \<not> ah_bound h \<and> \<not> ah_listening h \<and> \<not> ah_audioLevel h"

definition host_released :: "'s addon_host \<Rightarrow> bool" where
  "host_released h \<longleftrightarrow> cut_off h \<and> \<not> ah_iframe h \<and> \<not> ah_recvAudio h \<and> \<not> ah_recvVideo h \<and> ah_detachers h = []"

text \<open>A closed host is cut off, and it is released unless its \<open>close\<close> still waits.\<close>

definition closes :: "'s host_config \<Rightarrow> bool" where
  "closes c \<longleftrightarrow> (ah_state (hc_host c) = HClosed \<longrightarrow>
     cut_off (hc_host c) \<and> (list_ex is_close (hc_tasks c) \<or> host_released (hc_host c)))"

lemma close_sender_releases:
  "cut_off h \<Longrightarrow> close_sender i h = (h', es, ts) \<Longrightarrow>
   cut_off h' \<and> (list_ex is_close ts \<or> host_released h') \<and> (host_released h \<longrightarrow> host_released h')"
  by (auto simp: close_sender_def host_close_finish_def cut_off_def host_released_def split: if_splits)

lemma host_close_cut_off:
  assumes "ah_state h \<noteq> HClosed" "host_close h = (h', es, ts)"
  shows "cut_off h' \<and> (list_ex is_close ts \<or> host_released h')"
proof -
  let ?h = "h\<lparr>ah_state := HClosed, ah_listening := False, ah_bound := False, ah_audioLevel := False\<rparr>"
  obtain h1 es1 ts1 where c: "close_sender 0 ?h = (h1, es1, ts1)" by (metis prod_cases3)
  have "cut_off ?h" by (simp add: cut_off_def)
  from close_sender_releases [OF this c] show ?thesis
    using assms c by (simp add: host_close_def host_setState_simps)
qed

lemma closed_run:
  assumes "cut_off (hc_host c)" "host_enabled ev c" "host_run B ev c = (h, es, ts)"
  shows "cut_off h \<and> (host_released (hc_host c) \<longrightarrow> host_released h)
    \<and> (\<forall>n res i t. ev = HResume n res \<longrightarrow> hc_tasks c ! n = TClose i t \<longrightarrow> list_ex is_close ts \<or> host_released h)"
proof (cases ev)
  case (HResume n res)
  show ?thesis
  proof (cases "hc_tasks c ! n")
    case (TClose i t)
    obtain h1 es1 ts1 where c: "close_sender (Suc i) (hc_host c) = (h1, es1, ts1)" by (metis prod_cases3)
    from close_sender_releases [OF assms(1) c] assms(3) c HResume TClose show ?thesis
      by (simp add: host_run_def host_resume_def close_sender_removed_def)
  qed (use assms HResume in \<open>auto simp: host_run_def host_resume_def send_captured_def send_added_def send_stopped_def
      cut_off_def host_released_def Let_def split: host_answer.splits if_splits\<close>)
qed (use assms in \<open>auto simp: host_run_def host_enabled_def onIframeLoad_def on_track_ended_def publishAudioLevel_def
      host_close_def cut_off_def host_released_def al_del_def Let_def\<close>)

text \<open>Only a call of \<open>close\<close> closes a host.\<close>

definition not_closing :: "'s addon_host \<Rightarrow> 's host_result \<Rightarrow> bool" where
  "not_closing h r \<longleftrightarrow> (ah_state (fst r) = HClosed \<longrightarrow> ah_state h = HClosed)"

lemma not_closing_same [simp]: "not_closing h (h, es, ts)"
  by (simp add: not_closing_def)

lemma not_closing_window: "not_closing h (handleWindowMessage B now fr data h)"
proof -
  have s: "not_closing h (fst (handleSend now p h))" for p
    by (simp add: not_closing_def handleSend_def Let_def split: sum.splits option.splits prod.splits)
  have m: "not_closing h (handleMediaSendStart k src h)" "not_closing h (handleMediaSendStop k h)"
    "not_closing h (handleMediaReceiveSubscribe k h)" "not_closing h (handleMediaReceiveUnsubscribe k h)"
    "not_closing h (handleAudioLevelSubscribe h)" for k src
    by (simp_all add: not_closing_def handleMediaSendStart_def handleMediaSendStop_def handleMediaReceiveSubscribe_def
        handleMediaReceiveUnsubscribe_def handleAudioLevelSubscribe_def Let_def split: option.splits)
  have r: "not_closing h (on_ready h)" "not_closing h (handleSendBin mi b h)" for mi b
    by (simp_all add: not_closing_def on_ready_def ensureInitPosted_def host_setState_simps handleSendBin_def Let_def split: jsval.splits)
  have st: "not_closing h (handleStorage B now msg h)" for msg
    by (simp add: not_closing_def handleStorage_def Let_def split: jsval.splits sum.splits prod.splits)
  show ?thesis
    unfolding handleWindowMessage_def Let_def
    by (auto simp: s m r st split: option.splits) (simp_all add: not_closing_def)?
qed

lemma closes_only_on_call:
  assumes "ah_state (hc_host c) \<noteq> HClosed" "host_run B ev c = (h, es, ts)" "ah_state h = HClosed"
  shows "ev = CallHostClose"
proof (cases ev)
  case (WindowMessage now fr data)
  with assms not_closing_window [of "hc_host c" B now fr data] show ?thesis by (simp add: host_run_def not_closing_def)
next
  case (HResume n res)
  have "ah_state (fst (host_resume t res (hc_host c))) = ah_state (hc_host c)" for t
  proof (cases t)
    case (TClose i trk)
    obtain h' es' ts' where "close_sender (Suc i) (hc_host c) = (h', es', ts')" "ah_state h' = ah_state (hc_host c)"
      using close_sender_shape by blast
    then show ?thesis by (simp add: TClose host_resume_def close_sender_removed_def)
  qed (simp_all add: host_resume_def send_captured_def send_added_def send_stopped_def split: host_answer.splits)
  from this [of "hc_tasks c ! n"] assms HResume show ?thesis by (simp add: host_run_def)
qed (use assms in \<open>auto simp: host_run_def onIframeLoad_def host_setState_simps on_peer_text_def on_peer_binary_def
      handleRemoteTrack_def on_track_ended_def publishAudioLevel_def Let_def split: if_splits option.splits jsnum.splits\<close>)

interpretation closes: preserved "host_step B" closes for B
proof
  fix c c' :: "'a host_config" and ev os
  assume i: "closes c" and s: "host_step B ev c = Some (c', os)"
  from s obtain h ts where r: "host_run B ev c = (h, os, ts)" "host_enabled ev c"
    and c': "c' = \<lparr>hc_host = h, hc_tasks = host_tasks_after ev (hc_tasks c) @ ts\<rparr>"
    by (auto simp: step_unfold)
  show "closes c'"
  proof (cases "ah_state (hc_host c) = HClosed")
    case True
    then have co: "cut_off (hc_host c)" and rel: "list_ex is_close (hc_tasks c) \<or> host_released (hc_host c)"
      using i by (auto simp: closes_def)
    from closed_run [OF co r(2,1)] have h: "cut_off h" "host_released (hc_host c) \<Longrightarrow> host_released h"
      and res: "\<And>n res i t. ev = HResume n res \<Longrightarrow> hc_tasks c ! n = TClose i t \<Longrightarrow> list_ex is_close ts \<or> host_released h"
      by blast+
    have "list_ex is_close (host_tasks_after ev (hc_tasks c) @ ts) \<or> host_released h"
      if "list_ex is_close (hc_tasks c)"
    proof (cases ev)
      case (HResume n a)
      then have n: "n < length (hc_tasks c)" using r(2) by (simp add: host_enabled_def)
      have "list_ex is_close (hc_tasks c) \<longleftrightarrow> list_ex is_close (take n (hc_tasks c) @ hc_tasks c ! n # drop (Suc n) (hc_tasks c))"
        using id_take_nth_drop [OF n] by simp
      then have "list_ex is_close (host_tasks_after ev (hc_tasks c)) \<or> is_close (hc_tasks c ! n)"
        using that by (auto simp: HResume host_tasks_after_def)
      moreover have "is_close (hc_tasks c ! n) \<Longrightarrow> list_ex is_close ts \<or> host_released h"
        using res [OF HResume] by (cases "hc_tasks c ! n") auto
      ultimately show ?thesis by auto
    qed (use that in \<open>auto simp: host_tasks_after_def\<close>)
    with rel h show ?thesis by (auto simp: closes_def c')
  next
    case False
    show ?thesis
    proof (cases "ah_state h = HClosed")
      case True
      have "ev = CallHostClose"
        by (rule closes_only_on_call [OF False r(1) True])
      then have "host_close (hc_host c) = (h, os, ts)" using r(1) by (simp add: host_run_def)
      from host_close_cut_off [OF False this] show ?thesis by (auto simp: closes_def c')
    qed (simp add: closes_def c')
  qed
qed

theorem host_close_releases:
  assumes "reach (host_step B) (loaded m lnk hs st cap snk now cnt) os c"
    and "ah_state (hc_host c) = HClosed" "\<not> list_ex is_close (hc_tasks c)"
  shows "host_released (hc_host c)"
proof -
  have "closes (loaded m lnk hs st cap snk now cnt)"
    using loaded_host [of m lnk hs st cap snk now cnt] by (auto simp: closes_def)
  from closes.reach_preserves [OF assms(1) this] assms(2,3) show ?thesis by (simp add: closes_def)
qed

subsection \<open>What closing does not release\<close>

text \<open>
  A capture the user grants after \<open>close\<close>: the track is added to the session and kept, and nothing
  stops it any more.
\<close>

lemma capture_outlives_close:
  assumes "hc_tasks c = [TCapture k]" "ah_state (hc_host c) \<noteq> HClosed" "ah_senders (hc_host c) = []"
  shows "\<exists>c' os. run_events (host_step B) [CallHostClose, HResume 0 (HTrack t), HResume 0 HDone] c = Some (c', os)
    \<and> OAddTrack k t \<in> set os \<and> OStopTrack t \<notin> set os
    \<and> ah_senders (hc_host c') = [(k, t)] \<and> host_released (hc_host c') \<and> hc_tasks c' = []
    \<and> host_close (hc_host c') = (hc_host c', [], [])"
  using assms
  by (auto simp: host_step_def host_enabled_def host_run_def host_close_def host_setState_simps close_sender_def
      host_close_finish_def host_tasks_after_def host_resume_def send_captured_def send_added_def postToIframe_def
      host_released_def cut_off_def Let_def)

text \<open>
  Two requests to send audio, both made before the first is granted: the second track takes the place
  of the first, which closing then neither removes nor stops.
\<close>

lemma double_start_leaks:
  assumes "has_permission (send_permission k) (hc_host c)" "ah_capture (hc_host c) = Some cap" "can_capture k cap"
    and "ah_link (hc_host c) = Some True" "ah_senders (hc_host c) = []" "ah_state (hc_host c) = HActive"
    and "hc_tasks c = [TCapture k, TCapture k]" "t1 \<noteq> t2" "ah_detachers (hc_host c) = []"
  shows "handleMediaSendStart k src (hc_host c) = (hc_host c, [OCapture k src], [TCapture k])
    \<and> (\<exists>c' os. run_events (host_step B) [HResume 0 (HTrack t1), HResume 0 (HTrack t2), HResume 0 HDone, HResume 0 HDone,
          CallHostClose, HResume 0 HDone] c = Some (c', os)
        \<and> OAddTrack k t1 \<in> set os \<and> OStopTrack t1 \<notin> set os \<and> ORemoveSender k t1 \<notin> set os \<and> OStopTrack t2 \<in> set os
        \<and> host_released (hc_host c') \<and> hc_tasks c' = [])"
  using assms
  by (auto simp: host_step_def host_enabled_def host_run_def host_close_def host_setState_simps close_sender_def
      host_close_finish_def host_tasks_after_def host_resume_def send_captured_def send_added_def postToIframe_def
      close_sender_removed_def host_released_def cut_off_def handleMediaSendStart_def Let_def)

text \<open>
  A second remote track of a kind replaces the first one's sink; when the first then ends, it is the
  second's detacher that is forgotten, so unsubscribing no longer detaches anything.
\<close>

lemma stale_end_forgets_sink:
  assumes "receives k h" "ah_sink h = Some sink" "can_attach k sink" "ah_detachers h = []"
  shows "\<exists>h1 h2 h3 e1 e2 e3. handleRemoteTrack k t1 (Some d1) h = (h1, e1, []) \<and> handleRemoteTrack k t2 (Some d2) h1 = (h2, e2, [])
    \<and> ODetach d1 \<in> set e2 \<and> map_of (ah_detachers h2) k = Some d2
    \<and> on_track_ended k t1 h2 = (h3, e3, []) \<and> ah_detachers h3 = []
    \<and> fst (snd (handleMediaReceiveUnsubscribe k h3)) = []"
  using assms by (auto simp: handleRemoteTrack_def on_track_ended_def handleMediaReceiveUnsubscribe_def al_del_def Let_def)

subsection \<open>From add-on to add-on\<close>

text \<open>What one add-on sends, its counterpart on the other side gets, as JSON leaves it.\<close>

theorem send_then_deliver:
  assumes "manifest_ok (ah_manifest a)" "has_permission ''peer.send'' a" "ah_link a \<noteq> None"
    and "am_id (ah_manifest b) = am_id (ah_manifest a)" "ah_state b = HActive" "ah_iframe b" "has_permission ''peer.receive'' b"
    and "json_data payload" "payload \<noteq> Undef" "int now < 10 ^ 21"
  shows "\<exists>a' t. handleSend now payload a = ((a', [OSend payload, OSendText t], [TSendText]), None)
    \<and> on_peer_text t b = (b, [OPost (BDeliver (json_norm payload) (Some (am_id (ah_manifest a))))], [])"
proof -
  from handleSend_sends [OF assms(1-3), of now payload] obtain e t c where
    s: "handleSend now payload a = ((a\<lparr>ah_counter := c\<rparr>, [OSend payload, OSendText t], [TSendText]), None)"
    and t: "json_str (envelope_val e) = Some t" "envelope_ok e" and e: "env_addon e = am_id (ah_manifest a)"
      "env_createdAt e = of_int (int now)" "env_payload e = payload"
    by blast
  have "\<bar>env_createdAt e\<bar> < 10 ^ 21"
    using assms(10) unfolding e(2) by (metis abs_of_nat of_int_less_iff of_int_of_nat_eq of_int_numeral of_int_power)
  then have "envelope_wire_ok e"
    using assms(8) by (simp add: envelope_wire_ok_def e)
  from tryParse_stringify [OF t(2) this t(1)] assms(9)
  have "tryParseAddonEnvelope t = Some (e\<lparr>env_payload := json_norm payload\<rparr>)" by (simp add: e)
  with assms(4-7) e show ?thesis
    using s by (auto simp: on_peer_text_def caught_def deliver_def postToIframe_def)
qed

end
