(* ===== verification/Signaling_Transport.thy ===== *)
theory Signaling_Transport
  imports Event_System JS_Values
begin

text \<open>
  What the signaling adapters share: the handlers of a room are a JavaScript \<open>Set\<close> (a list without
  repetition, in the order of insertion), a transport keeps such a set per room, and the contract
  \<open>subscribe\<close>, the closure it returns and \<open>close\<close> have in every adapter: they keep a table from rooms to
  sets of handlers, as the \<open>SignalingTransport\<close> interface promises. A handler is an opaque function,
  so it is represented by a number (its identity is all a \<open>Set\<close> looks at). Handlers do not call the
  adapter from within their own call.
\<close>

type_synonym handler = nat

subsection \<open>\<open>Set\<close>\<close>

definition set_add :: "'a \<Rightarrow> 'a list \<Rightarrow> 'a list" where
  "set_add x xs = (if x \<in> set xs then xs else xs @ [x])"

definition set_delete :: "'a \<Rightarrow> 'a list \<Rightarrow> 'a list" where
  "set_delete x xs = filter (\<lambda>y. y \<noteq> x) xs"

lemma set_set_add [simp]: "set (set_add x xs) = insert x (set xs)"
  by (auto simp: set_add_def)

lemma set_add_not_Nil [simp]: "set_add x xs \<noteq> []"
  by (auto simp: set_add_def)

lemma distinct_set_add [simp]: "distinct xs \<Longrightarrow> distinct (set_add x xs)"
  by (simp add: set_add_def)

lemma set_set_delete [simp]: "set (set_delete x xs) = set xs - {x}"
  by (auto simp: set_delete_def)

lemma set_delete_Nil [simp]: "set_delete x [] = []"
  by (simp add: set_delete_def)

lemma distinct_set_delete [simp]: "distinct xs \<Longrightarrow> distinct (set_delete x xs)"
  by (simp add: set_delete_def)

subsection \<open>The table of subscriptions\<close>

text \<open>
  \<open>Sub\<close> is \<open>subscribe(roomId, handler)\<close>, \<open>Unsub\<close> a call of the closure that \<open>subscribe\<close> returned for
  this room and handler (the closure holds nothing else), \<open>Shut\<close> is \<open>close()\<close>.
\<close>

datatype sub_op = Sub jsstring handler | Unsub jsstring handler | Shut

type_synonym sub_table = "jsstring \<Rightarrow> handler list"

fun spec_op :: "sub_op \<Rightarrow> bool \<times> sub_table \<Rightarrow> bool \<times> sub_table" where
  "spec_op (Sub r h) (acc, t) = (acc, if acc then t(r := set_add h (t r)) else t)"
| "spec_op (Unsub r h) (acc, t) = (acc, t(r := set_delete h (t r)))"
| "spec_op Shut (acc, t) = (False, \<lambda>_. [])"

definition spec_ops :: "sub_op list \<Rightarrow> bool \<times> sub_table \<Rightarrow> bool \<times> sub_table" where
  "spec_ops ops a = fold spec_op ops a"

locale subscription_table =
  fixes wf :: "'s \<Rightarrow> bool"
    and accepts :: "'s \<Rightarrow> bool"
    and listeners :: "'s \<Rightarrow> sub_table"
    and sub :: "jsstring \<Rightarrow> handler \<Rightarrow> 's \<Rightarrow> 's option"
    and unsub :: "jsstring \<Rightarrow> handler \<Rightarrow> 's \<Rightarrow> 's"
    and shut :: "'s \<Rightarrow> 's"
  assumes sub_throws: "sub r h s = None \<longleftrightarrow> \<not> accepts s"
    and sub_law: "wf s \<Longrightarrow> sub r h s = Some s' \<Longrightarrow>
      wf s' \<and> accepts s' \<and> listeners s' = (listeners s)(r := set_add h (listeners s r))"
    and unsub_law: "wf s \<Longrightarrow> wf (unsub r h s) \<and> accepts (unsub r h s) = accepts s
      \<and> listeners (unsub r h s) = (listeners s)(r := set_delete h (listeners s r))"
    and shut_law: "wf s \<Longrightarrow> wf (shut s) \<and> \<not> accepts (shut s) \<and> listeners (shut s) = (\<lambda>_. [])"

text \<open>One call on the adapter: \<open>None\<close> is a throw, which leaves the adapter as it was.\<close>

fun table_op :: "(jsstring \<Rightarrow> handler \<Rightarrow> 's \<Rightarrow> 's option) \<Rightarrow> (jsstring \<Rightarrow> handler \<Rightarrow> 's \<Rightarrow> 's)
    \<Rightarrow> ('s \<Rightarrow> 's) \<Rightarrow> sub_op \<Rightarrow> 's \<Rightarrow> 's" where
  "table_op sub unsub shut (Sub r h) s = (case sub r h s of None \<Rightarrow> s | Some s' \<Rightarrow> s')"
| "table_op sub unsub shut (Unsub r h) s = unsub r h s"
| "table_op sub unsub shut Shut s = shut s"

definition table_ops :: "(jsstring \<Rightarrow> handler \<Rightarrow> 's \<Rightarrow> 's option) \<Rightarrow> (jsstring \<Rightarrow> handler \<Rightarrow> 's \<Rightarrow> 's)
    \<Rightarrow> ('s \<Rightarrow> 's) \<Rightarrow> sub_op list \<Rightarrow> 's \<Rightarrow> 's" where
  "table_ops sub unsub shut ops s = fold (table_op sub unsub shut) ops s"

context subscription_table begin

abbreviation abs_table :: "'s \<Rightarrow> bool \<times> sub_table" where
  "abs_table s \<equiv> (accepts s, listeners s)"

lemma op_refines:
  "wf s \<Longrightarrow> wf (table_op sub unsub shut x s) \<and> abs_table (table_op sub unsub shut x s) = spec_op x (abs_table s)"
proof (cases x)
  case (Sub r h)
  assume "wf s"
  then show ?thesis
    using Sub sub_throws [of r h s] sub_law [of s r h]
    by (cases "sub r h s") auto
qed (use unsub_law shut_law in auto)

lemma ops_refine:
  "wf s \<Longrightarrow> wf (table_ops sub unsub shut ops s)
    \<and> abs_table (table_ops sub unsub shut ops s) = spec_ops ops (abs_table s)"
proof (induction ops arbitrary: s)
  case (Cons x ops)
  from op_refines [OF Cons.prems, of x] Cons.IH [of "table_op sub unsub shut x s"]
  show ?case by (simp add: table_ops_def spec_ops_def)
qed (simp add: table_ops_def spec_ops_def)

text \<open>A handler whose closure was called last does not listen any more, nobody does after \<open>close\<close>.\<close>

lemma unsubscribed: "wf s \<Longrightarrow> h \<notin> set (listeners (unsub r h s) r)"
  by (simp add: unsub_law)

lemma subscribed: "wf s \<Longrightarrow> sub r h s = Some s' \<Longrightarrow> h \<in> set (listeners s' r)"
  using sub_law by auto

end

subsection \<open>Rooms that hold their handlers by reference\<close>

text \<open>
  An adapter may keep a map from rooms to references and the handlers behind them (\<open>hs ! ref\<close>); a
  reference that no room holds any more has no handlers, unless the adapter is closed.
\<close>

definition rooms_ok :: "(jsstring \<times> nat) list \<Rightarrow> handler list list \<Rightarrow> bool \<Rightarrow> bool" where
  "rooms_ok rooms hs cl \<longleftrightarrow>
     distinct (map fst rooms) \<and> distinct (map snd rooms) \<and> list_all distinct hs
     \<and> (\<forall>(r, ref)\<in>set rooms. ref < length hs \<and> hs ! ref \<noteq> [])
     \<and> (\<not> cl \<longrightarrow> (\<forall>ref<length hs. ref \<notin> snd ` set rooms \<longrightarrow> hs ! ref = []))"

definition rooms_table :: "(jsstring \<times> nat) list \<Rightarrow> handler list list \<Rightarrow> sub_table" where
  "rooms_table rooms hs r = (case map_of rooms r of None \<Rightarrow> [] | Some ref \<Rightarrow> hs ! ref)"

lemma rooms_live:
  assumes "rooms_ok rooms hs cl" "map_of rooms r = Some ref"
  shows "ref < length hs" "hs ! ref \<noteq> []" "distinct (hs ! ref)" "(r', ref) \<in> set rooms \<longleftrightarrow> r' = r"
proof -
  show l: "ref < length hs" "hs ! ref \<noteq> []"
    using assms map_of_SomeD [OF assms(2)] by (auto simp: rooms_ok_def)
  with assms(1) show "distinct (hs ! ref)" by (simp add: rooms_ok_def list_all_length)
  have "inj_on snd (set rooms)" using assms(1) by (simp add: rooms_ok_def distinct_map)
  then show "(r', ref) \<in> set rooms \<longleftrightarrow> r' = r"
    using map_of_SomeD [OF assms(2)] inj_onD [of snd "set rooms" "(r', ref)" "(r, ref)"] by auto
qed

lemma rooms_update:
  assumes "rooms_ok rooms hs cl" "map_of rooms r = Some ref" "h' \<noteq> []" "distinct h'"
  shows "rooms_ok rooms (hs[ref := h']) cl \<and> rooms_table rooms (hs[ref := h']) = (rooms_table rooms hs)(r := h')"
proof
  note live = rooms_live [OF assms(1,2)]
  have all: "list_all distinct (hs[ref := h'])"
    using assms(1,4) set_update_subset_insert [of hs ref h'] by (auto simp: rooms_ok_def list_all_iff)
  have "ref \<in> snd ` set rooms" using map_of_SomeD [OF assms(2)] by force
  then show "rooms_ok rooms (hs[ref := h']) cl"
    using assms(1,3) all live(1) unfolding rooms_ok_def by (auto simp: nth_list_update)
  have other: "ref' \<noteq> ref" if "map_of rooms r' = Some ref'" "r' \<noteq> r" for r' ref'
    using live(4) map_of_SomeD [OF that(1)] that(2) by blast
  show "rooms_table rooms (hs[ref := h']) = (rooms_table rooms hs)(r := h')"
  proof
    fix r'
    show "rooms_table rooms (hs[ref := h']) r' = ((rooms_table rooms hs)(r := h')) r'"
      using live(1) assms(2) other [of r']
      by (cases "map_of rooms r'"; cases "r' = r") (auto simp: rooms_table_def)
  qed
qed

lemma rooms_insert:
  assumes "rooms_ok rooms hs False" "map_of rooms r = None"
  shows "rooms_ok (al_set r (length hs) rooms) (hs @ [[h]]) False
    \<and> rooms_table (al_set r (length hs) rooms) (hs @ [[h]]) = (rooms_table rooms hs)(r := [h])"
proof
  have new: "r \<notin> fst ` set rooms" using assms(2) by (simp add: map_of_eq_None_iff)
  have lt: "ref < length hs" if "(r', ref) \<in> set rooms" for r' ref
    using assms(1) that by (auto simp: rooms_ok_def)
  then have fresh: "length hs \<notin> snd ` set rooms" by (force dest: lt)
  show "rooms_ok (al_set r (length hs) rooms) (hs @ [[h]]) False"
    using assms(1) new fresh lt unfolding al_set_fresh [OF new] rooms_ok_def
    by (auto simp: nth_append less_Suc_eq)
  show "rooms_table (al_set r (length hs) rooms) (hs @ [[h]]) = (rooms_table rooms hs)(r := [h])"
    using lt by (auto simp: rooms_table_def fun_eq_iff nth_append dest: map_of_SomeD split: option.splits)
qed

lemma rooms_remove:
  assumes "rooms_ok rooms hs cl" "map_of rooms r = Some ref"
  shows "rooms_ok (al_del r rooms) (hs[ref := []]) cl
    \<and> rooms_table (al_del r rooms) (hs[ref := []]) = (rooms_table rooms hs)(r := [])"
proof
  note live = rooms_live [OF assms]
  have other: "ref' \<noteq> ref \<longleftrightarrow> r' \<noteq> r" if "(r', ref') \<in> set rooms" for r' ref'
  proof -
    have "distinct (map fst rooms)" using assms(1) by (simp add: rooms_ok_def)
    then show ?thesis
      using live(4) [of r'] that map_of_SomeD [OF assms(2)] by (auto dest: eq_key_imp_eq_value)
  qed
  have "list_all distinct (hs[ref := []])"
    using assms(1) set_update_subset_insert [of hs ref "[]"] by (auto simp: rooms_ok_def list_all_iff)
  moreover have "hs[ref := []] ! i = []" if "i < length hs" "i \<notin> snd ` set (al_del r rooms)" "\<not> cl" for i
  proof (cases "i \<in> snd ` set rooms")
    case True
    then obtain r' where "(r', i) \<in> set rooms" by auto
    with that(2) other [OF this] have "i = ref" by (force simp: al_del_mem)
    with live(1) show ?thesis by simp
  qed (use assms(1) that live(1) in \<open>auto simp: rooms_ok_def nth_list_update\<close>)
  ultimately show "rooms_ok (al_del r rooms) (hs[ref := []]) cl"
    using assms(1) other live(1) unfolding rooms_ok_def
    by (auto simp: al_del_def distinct_map_filter nth_list_update)
  show "rooms_table (al_del r rooms) (hs[ref := []]) = (rooms_table rooms hs)(r := [])"
    using other live(1) by (auto simp: rooms_table_def fun_eq_iff nth_list_update dest: map_of_SomeD split: option.splits)
qed

subsection \<open>Who listens, in the specification\<close>

text \<open>
  The calls after the last \<open>close\<close> decide nothing; before it, a handler listens to a room when the
  last call about the two is a subscription.
\<close>

fun last_is_sub :: "jsstring \<Rightarrow> handler \<Rightarrow> sub_op list \<Rightarrow> bool \<Rightarrow> bool" where
  "last_is_sub r h [] b = b"
| "last_is_sub r h (Sub r' h' # ops) b = last_is_sub r h ops (b \<or> (r' = r \<and> h' = h))"
| "last_is_sub r h (Unsub r' h' # ops) b = last_is_sub r h ops (b \<and> \<not> (r' = r \<and> h' = h))"
| "last_is_sub r h (Shut # ops) b = False"

lemma spec_ops_Cons: "spec_ops (x # ops) a = spec_ops ops (spec_op x a)"
  by (simp add: spec_ops_def)

lemma spec_ops_closed: "spec_ops ops (False, \<lambda>_. []) = (False, \<lambda>_. [])"
proof (induction ops)
  case (Cons x ops)
  have "(\<lambda>_. [])(r := []) = (\<lambda>_. [] :: handler list)" for r :: jsstring by auto
  with Cons show ?case by (cases x) (simp_all add: spec_ops_Cons)
qed (simp add: spec_ops_def)

lemma spec_ops_listeners:
  "h \<in> set (snd (spec_ops ops (True, t)) r) \<longleftrightarrow> last_is_sub r h ops (h \<in> set (t r))"
proof (induction ops arbitrary: t)
  case (Cons x ops)
  show ?case
  proof (cases x)
    case (Sub r' h')
    have "h \<in> set ((t(r' := set_add h' (t r'))) r) \<longleftrightarrow> h \<in> set (t r) \<or> (r' = r \<and> h' = h)" by auto
    with Sub Cons.IH [of "t(r' := set_add h' (t r'))"] show ?thesis by (simp only: spec_ops_Cons spec_op.simps last_is_sub.simps if_True)
  next
    case (Unsub r' h')
    have "h \<in> set ((t(r' := set_delete h' (t r'))) r) \<longleftrightarrow> h \<in> set (t r) \<and> \<not> (r' = r \<and> h' = h)" by auto
    with Unsub Cons.IH [of "t(r' := set_delete h' (t r'))"] show ?thesis by (simp only: spec_ops_Cons spec_op.simps last_is_sub.simps)
  next
    case Shut
    then show ?thesis by (simp add: spec_ops_Cons spec_ops_closed)
  qed
qed (simp add: spec_ops_def)

end
