(* ===== verification/Http_Poll.thy ===== *)
theory Http_Poll
  imports Signaling_Transport Web_Platform JS_JSON_Props Bundle
begin

text \<open>
  The HTTP-poll signaling adapter (\<open>packages/signaling-http-poll/src/index.ts\<close>): one polling loop per
  subscribed room, which fetches, delivers what it has not delivered yet and sleeps. A room's state is
  an object that the loop goes on holding after the room was dropped from the map, so the objects
  live in a heap indexed by the order of their creation, beside the place where each loop waits.
  \<open>fetch\<close> and the endpoint are the environment: their answers are the events of the step function.
\<close>

subsection \<open>Building the request URLs\<close>

definition hex_upper :: "nat \<Rightarrow> jschar" where
  "hex_upper n = (js ''0123456789ABCDEF'') ! n"

definition percent_byte :: "nat \<Rightarrow> jsstring" where
  "percent_byte b = [ch CHR ''%'', hex_upper (b div 16), hex_upper (b mod 16)]"

text \<open>\<open>encodeURIComponent\<close>; a lone surrogate is a \<open>URIError\<close>.\<close>

definition URI_PLAIN :: "(char \<times> char) list" where
  "URI_PLAIN = [(CHR ''A'', CHR ''Z''), (CHR ''a'', CHR ''z''), (CHR ''0'', CHR ''9''),
     (CHR ''-'', CHR ''.''), (CHR ''_'', CHR ''_''), (CHR ''!'', CHR ''!''), (CHR ''~'', CHR ''~''),
     (CHR ''*'', CHR ''*''), (CHR 0x27, CHR '')'')]"

definition uri_point :: "nat \<Rightarrow> jsstring" where
  "uri_point cp =
     (if cp < 128 \<and> in_cls URI_PLAIN (word_of_nat cp) then [word_of_nat cp]
      else concat (map percent_byte (utf8_seq cp)))"

definition encodeURIComponent :: "jsstring \<Rightarrow> jsstring option" where
  "encodeURIComponent s = (if well_formed s then Some (concat (map uri_point (scalars s))) else None)"

text \<open>The serializer of \<open>URLSearchParams\<close>.\<close>

definition FORM_PLAIN :: "(char \<times> char) list" where
  "FORM_PLAIN = [(CHR ''A'', CHR ''Z''), (CHR ''a'', CHR ''z''), (CHR ''0'', CHR ''9''),
     (CHR ''-'', CHR ''.''), (CHR ''_'', CHR ''_''), (CHR ''*'', CHR ''*'')]"

definition form_byte :: "byte \<Rightarrow> jsstring" where
  "form_byte b =
     (if unat b = 0x20 then [ch CHR ''+'']
      else if in_cls FORM_PLAIN (ucast b) then [ucast b]
      else percent_byte (unat b))"

definition form_serialize :: "jsstring \<Rightarrow> jsstring" where
  "form_serialize s = concat (map form_byte (utf8_encode s))"

subsection \<open>The adapter's state\<close>

definition MIN_INTERVAL_MS :: rat where "MIN_INTERVAL_MS = 200"
definition MAX_INTERVAL_MS :: rat where "MAX_INTERVAL_MS = 60000"
definition DEFAULT_INTERVAL_MS :: rat where "DEFAULT_INTERVAL_MS = 1000"

record poll_room =
  pr_handlers :: "handler list"
  pr_delivered :: "jsstring list"
  pr_cursor :: jsstring
  pr_aborted :: bool

definition new_poll_room :: poll_room where
  "new_poll_room = \<lparr>pr_handlers = [], pr_delivered = [], pr_cursor = [], pr_aborted = False\<rparr>"

text \<open>Where a loop waits: for the response, for its body, in \<open>delay\<close>; or it has returned.\<close>

datatype poll_phase = AwaitFetch | AwaitBody | AwaitDelay | LoopDone

record http_poll =
  hp_endpoint :: jsstring
  hp_interval :: jsnum
  hp_rooms :: "(jsstring \<times> nat) list"
  hp_closed :: bool
  hp_states :: "poll_room list"
  hp_loops :: "(jsstring \<times> poll_phase) list"
  hp_posts :: "nat list"
  hp_next_post :: nat

definition new_http_poll :: "jsstring \<Rightarrow> jsnum option \<Rightarrow> err + http_poll" where
  "new_http_poll endpoint intervalMs =
     (if endpoint = [] then Inl (Thrown ''Error'' ''HttpPollSignaling: `endpoint` is required'')
      else let interval = (case intervalMs of None \<Rightarrow> Fin DEFAULT_INTERVAL_MS | Some i \<Rightarrow> i) in
        if num_less interval (Fin MIN_INTERVAL_MS) \<or> num_less (Fin MAX_INTERVAL_MS) interval
        then Inl (Thrown ''Error'' ''HttpPollSignaling: intervalMs outside allowed range'')
        else Inr \<lparr>hp_endpoint = strip_slashes endpoint, hp_interval = interval, hp_rooms = [],
          hp_closed = False, hp_states = [], hp_loops = [], hp_posts = [], hp_next_post = 0\<rparr>)"

text \<open>
  What the adapter does outwardly: requests, the outcome of \<open>publish\<close>, the calls of handlers (with
  the room and the id of the item), and the pauses it asks for.
\<close>

datatype hp_out =
    Post nat jsstring "jsstring option"
  | Get nat jsstring
  | Abort nat
  | Sleep nat jsnum
  | Published nat "err option"
  | CallHandler nat handler jsstring jsval

definition closed_error :: err where
  "closed_error = Thrown ''HttpPollClosedError'' ''senn: http-poll adapter closed''"

definition URI_ERROR :: err where
  "URI_ERROR = Thrown ''URIError'' []"

subsection \<open>Publishing\<close>

text \<open>
  \<open>publish(roomId, message)\<close> up to its \<open>await\<close> (the body's text is what \<open>JSON.stringify\<close> gives), and
  after it: a response that is not \<open>ok\<close> rejects with its status, whatever text it carries.
\<close>

definition hp_publish :: "jsstring \<Rightarrow> jsval \<Rightarrow> http_poll \<Rightarrow> http_poll \<times> hp_out list" where
  "hp_publish roomId message st =
     (let n = hp_next_post st; st1 = st\<lparr>hp_next_post := Suc n\<rparr> in
      if hp_closed st then (st1, [Published n (Some closed_error)])
      else (case encodeURIComponent roomId of
          None \<Rightarrow> (st1, [Published n (Some URI_ERROR)])
        | Some r \<Rightarrow>
            (st1\<lparr>hp_posts := hp_posts st @ [n]\<rparr>,
             [Post n (hp_endpoint st @ js ''/'' @ r) (json_str (Obj [(js ''message'', message)]))])))"

datatype fetch_result = FetchFailed string | Response nat

definition response_ok :: "nat \<Rightarrow> bool" where
  "response_ok status = (200 \<le> status \<and> status \<le> 299)"

definition server_error :: "nat \<Rightarrow> err" where
  "server_error status = Thrown ''HttpPollServerError'' (''senn: http-poll endpoint returned '' @ map (\<lambda>d. char_of (48 + d)) [status div 100, status div 10 mod 10, status mod 10])"

definition hp_posted :: "nat \<Rightarrow> fetch_result \<Rightarrow> http_poll \<Rightarrow> (http_poll \<times> hp_out list) option" where
  "hp_posted n res st =
     (if n \<notin> set (hp_posts st) then None
      else Some (st\<lparr>hp_posts := set_delete n (hp_posts st)\<rparr>,
        [Published n (case res of
            FetchFailed name \<Rightarrow> Some (Thrown name [])
          | Response status \<Rightarrow> if response_ok status then None else Some (server_error status))]))"

subsection \<open>The polling loop\<close>

definition set_room :: "nat \<Rightarrow> (poll_room \<Rightarrow> poll_room) \<Rightarrow> http_poll \<Rightarrow> http_poll" where
  "set_room ref f st = st\<lparr>hp_states := (hp_states st)[ref := f (hp_states st ! ref)]\<rparr>"

definition set_phase :: "nat \<Rightarrow> poll_phase \<Rightarrow> http_poll \<Rightarrow> http_poll" where
  "set_phase ref ph st = st\<lparr>hp_loops := (hp_loops st)[ref := (fst (hp_loops st ! ref), ph)]\<rparr>"

text \<open>\<open>this.closed || state.controller.signal.aborted\<close>.\<close>

definition loop_stopped :: "nat \<Rightarrow> http_poll \<Rightarrow> bool" where
  "loop_stopped ref st = (hp_closed st \<or> pr_aborted (hp_states st ! ref))"

text \<open>The loop after \<open>pollOnce\<close> has returned or thrown: stop, or sleep.\<close>

definition after_poll :: "nat \<Rightarrow> http_poll \<Rightarrow> http_poll \<times> hp_out list" where
  "after_poll ref st =
     (if loop_stopped ref st then (set_phase ref LoopDone st, [])
      else (set_phase ref AwaitDelay st, [Sleep ref (hp_interval st)]))"

text \<open>\<open>pollOnce\<close> up to its first \<open>await\<close>.\<close>

definition poll_query :: "jsstring \<Rightarrow> jsstring" where
  "poll_query cursor = (if cursor = [] then [] else js ''?since='' @ form_serialize cursor)"

definition poll_start :: "jsstring \<Rightarrow> nat \<Rightarrow> http_poll \<Rightarrow> http_poll \<times> hp_out list" where
  "poll_start roomId ref st =
     (case encodeURIComponent roomId of
        None \<Rightarrow> after_poll ref st
      | Some r \<Rightarrow>
          (set_phase ref AwaitFetch st,
           [Get ref (hp_endpoint st @ js ''/'' @ r @ poll_query (pr_cursor (hp_states st ! ref)))]))"

text \<open>The head of the \<open>while\<close> loop.\<close>

definition loop_head :: "jsstring \<Rightarrow> nat \<Rightarrow> http_poll \<Rightarrow> http_poll \<times> hp_out list" where
  "loop_head roomId ref st =
     (if loop_stopped ref st then (set_phase ref LoopDone st, []) else poll_start roomId ref st)"

text \<open>
  The rest of \<open>pollOnce\<close>: the fetch rejected (an \<open>AbortError\<close> ends the loop), the status, the body.
\<close>

definition poll_fetched :: "nat \<Rightarrow> fetch_result \<Rightarrow> http_poll \<Rightarrow> http_poll \<times> hp_out list" where
  "poll_fetched ref res st =
     (case res of
        FetchFailed name \<Rightarrow>
          if name = ''AbortError'' then (set_phase ref LoopDone st, []) else after_poll ref st
      | Response status \<Rightarrow>
          if response_ok status then (set_phase ref AwaitBody st, []) else after_poll ref st)"

fun poll_items :: "nat \<Rightarrow> handler list \<Rightarrow> jsval list \<Rightarrow> jsstring list \<Rightarrow> jsstring list \<times> hp_out list" where
  "poll_items ref hs [] delivered = (delivered, [])"
| "poll_items ref hs (item # items) delivered =
     (case fld (own_fields item) ''id'' of
        Str i \<Rightarrow>
          if i \<in> set delivered then poll_items ref hs items delivered
          else apsnd (append (map (\<lambda>h. CallHandler ref h i (fld (own_fields item) ''message'')) hs))
            (poll_items ref hs items (set_add i delivered))
      | _ \<Rightarrow> poll_items ref hs items delivered)"

definition next_cursor :: "jsval \<Rightarrow> jsstring \<Rightarrow> jsstring" where
  "next_cursor body cursor =
     (case fld (own_fields body) ''cursor'' of
        Str c \<Rightarrow> if c = [] then cursor else c
      | _ \<Rightarrow> cursor)"

definition poll_body :: "nat \<Rightarrow> jsval \<Rightarrow> http_poll \<Rightarrow> http_poll \<times> hp_out list" where
  "poll_body ref body st =
     (case fld (own_fields body) ''messages'' of
        Arr items \<Rightarrow>
          (let room = hp_states st ! ref;
               (delivered, calls) = poll_items ref (pr_handlers room) items (pr_delivered room) in
           (set_room ref (\<lambda>r. r\<lparr>pr_delivered := delivered, pr_cursor := next_cursor body (pr_cursor r)\<rparr>) st, calls))
      | _ \<Rightarrow> (st, []))"

text \<open>\<open>res.json()\<close> settles: with the name of the error it rejects with, or with a value.\<close>

definition poll_read :: "nat \<Rightarrow> string + jsval \<Rightarrow> http_poll \<Rightarrow> http_poll \<times> hp_out list" where
  "poll_read ref res st =
     (case res of
        Inl name \<Rightarrow>
          if name = ''AbortError'' then (set_phase ref LoopDone st, []) else after_poll ref st
      | Inr body \<Rightarrow>
          (let (st1, calls) = poll_body ref body st in apsnd (append calls) (after_poll ref st1)))"

subsection \<open>Subscribing and closing\<close>

definition hp_start_room :: "jsstring \<Rightarrow> http_poll \<Rightarrow> http_poll \<times> hp_out list" where
  "hp_start_room roomId st =
     (let ref = length (hp_states st);
          st1 = st\<lparr>hp_rooms := al_set roomId ref (hp_rooms st), hp_states := hp_states st @ [new_poll_room],
            hp_loops := hp_loops st @ [(roomId, LoopDone)]\<rparr> in
      loop_head roomId ref st1)"

definition hp_subscribe :: "jsstring \<Rightarrow> handler \<Rightarrow> http_poll \<Rightarrow> (http_poll \<times> hp_out list) option" where
  "hp_subscribe roomId handler st =
     (if hp_closed st then None
      else let (st1, os) = (case map_of (hp_rooms st) roomId of
               Some _ \<Rightarrow> (st, [])
             | None \<Rightarrow> hp_start_room roomId st) in
        Some (set_room (the (map_of (hp_rooms st1) roomId)) (\<lambda>r. r\<lparr>pr_handlers := set_add handler (pr_handlers r)\<rparr>) st1, os))"

text \<open>The closure that \<open>subscribe\<close> returns looks the room up again.\<close>

definition abort_room :: "nat \<Rightarrow> http_poll \<Rightarrow> http_poll" where
  "abort_room ref st = set_room ref (\<lambda>r. r\<lparr>pr_aborted := True\<rparr>) st"

definition hp_unsubscribe :: "jsstring \<Rightarrow> handler \<Rightarrow> http_poll \<Rightarrow> http_poll \<times> hp_out list" where
  "hp_unsubscribe roomId handler st =
     (case map_of (hp_rooms st) roomId of
        None \<Rightarrow> (st, [])
      | Some ref \<Rightarrow>
          let st1 = set_room ref (\<lambda>r. r\<lparr>pr_handlers := set_delete handler (pr_handlers r)\<rparr>) st in
          if pr_handlers (hp_states st1 ! ref) = []
          then (abort_room ref st1\<lparr>hp_rooms := al_del roomId (hp_rooms st1)\<rparr>, [Abort ref])
          else (st1, []))"

definition hp_close :: "http_poll \<Rightarrow> http_poll \<times> hp_out list" where
  "hp_close st =
     (if hp_closed st then (st, [])
      else ((fold abort_room (map snd (hp_rooms st)) (st\<lparr>hp_closed := True\<rparr>))\<lparr>hp_rooms := []\<rparr>,
            map (Abort \<circ> snd) (hp_rooms st)))"

subsection \<open>One event\<close>

datatype hp_event =
    Publish jsstring jsval
  | PostSettled nat fetch_result
  | Subscribe jsstring handler
  | Unsubscribe jsstring handler
  | CloseAdapter
  | FetchSettled nat fetch_result
  | BodySettled nat "string + jsval"
  | DelayOver nat

definition loop_waits :: "nat \<Rightarrow> poll_phase \<Rightarrow> http_poll \<Rightarrow> bool" where
  "loop_waits ref ph st = (ref < length (hp_loops st) \<and> snd (hp_loops st ! ref) = ph)"

fun hp_step :: "hp_event \<Rightarrow> http_poll \<Rightarrow> (http_poll \<times> hp_out list) option" where
  "hp_step (Publish r m) st = Some (hp_publish r m st)"
| "hp_step (PostSettled n res) st = hp_posted n res st"
| "hp_step (Subscribe r h) st = hp_subscribe r h st"
| "hp_step (Unsubscribe r h) st = Some (hp_unsubscribe r h st)"
| "hp_step CloseAdapter st = Some (hp_close st)"
| "hp_step (FetchSettled ref res) st = (if loop_waits ref AwaitFetch st then Some (poll_fetched ref res st) else None)"
| "hp_step (BodySettled ref res) st = (if loop_waits ref AwaitBody st then Some (poll_read ref res st) else None)"
| "hp_step (DelayOver ref) st =
     (if loop_waits ref AwaitDelay st then Some (loop_head (fst (hp_loops st ! ref)) ref st) else None)"

end
