(* ===== verification/Http_Poll_Props.thy ===== *)
theory Http_Poll_Props
  imports Http_Poll
begin

text \<open>
  Correctness of the HTTP-poll adapter: its table of subscriptions refines the shared contract, no
  item is handed twice to the handlers of a room object, handlers run only while they listen, a
  round of polling delivers every new item and asks for the next ones with the endpoint's cursor.
\<close>

subsection \<open>Well-formed states\<close>

text \<open>The handlers of a room: those of the object the map holds.\<close>

definition hp_listeners :: "http_poll \<Rightarrow> jsstring \<Rightarrow> handler list" where
  "hp_listeners st r = (case map_of (hp_rooms st) r of None \<Rightarrow> [] | Some ref \<Rightarrow> pr_handlers (hp_states st ! ref))"

definition hp_wf :: "http_poll \<Rightarrow> bool" where
  "hp_wf st \<longleftrightarrow>
     distinct (map fst (hp_rooms st)) \<and> distinct (map snd (hp_rooms st))
     \<and> length (hp_loops st) = length (hp_states st)
     \<and> (\<forall>(r, ref)\<in>set (hp_rooms st). ref < length (hp_states st) \<and> fst (hp_loops st ! ref) = r
          \<and> \<not> pr_aborted (hp_states st ! ref) \<and> pr_handlers (hp_states st ! ref) \<noteq> [])
     \<and> (\<forall>ref<length (hp_states st). distinct (pr_handlers (hp_states st ! ref)))
     \<and> (\<forall>ref<length (hp_states st). ref \<notin> snd ` set (hp_rooms st) \<longrightarrow> pr_aborted (hp_states st ! ref)
          \<and> (\<not> hp_closed st \<longrightarrow> pr_handlers (hp_states st ! ref) = []))
     \<and> (hp_closed st \<longrightarrow> hp_rooms st = [])"

lemma set_phase_simps [simp]:
  "hp_rooms (set_phase ref ph st) = hp_rooms st" "hp_states (set_phase ref ph st) = hp_states st"
  "hp_closed (set_phase ref ph st) = hp_closed st" "length (hp_loops (set_phase ref ph st)) = length (hp_loops st)"
  "hp_endpoint (set_phase ref ph st) = hp_endpoint st" "hp_interval (set_phase ref ph st) = hp_interval st"
  by (simp_all add: set_phase_def)

lemma set_phase_room [simp]:
  "fst (hp_loops (set_phase ref ph st) ! i) = fst (hp_loops st ! i)"
  by (cases "ref < length (hp_loops st)"; cases "i = ref") (auto simp: set_phase_def list_update_beyond)

lemma set_room_simps [simp]:
  "hp_rooms (set_room ref f st) = hp_rooms st" "hp_loops (set_room ref f st) = hp_loops st"
  "hp_closed (set_room ref f st) = hp_closed st" "length (hp_states (set_room ref f st)) = length (hp_states st)"
  "hp_endpoint (set_room ref f st) = hp_endpoint st" "hp_interval (set_room ref f st) = hp_interval st"
  by (simp_all add: set_room_def)

lemma set_room_nth:
  "i < length (hp_states st) \<Longrightarrow> hp_states (set_room ref f st) ! i = (if i = ref then f (hp_states st ! i) else hp_states st ! i)"
  by (simp add: set_room_def nth_list_update)

lemma hp_wf_cong:
  assumes "hp_rooms st' = hp_rooms st" "hp_closed st' = hp_closed st"
    and "length (hp_states st') = length (hp_states st)" "length (hp_loops st') = length (hp_loops st)"
    and "\<And>i. fst (hp_loops st' ! i) = fst (hp_loops st ! i)"
    and "\<And>i. i < length (hp_states st) \<Longrightarrow> pr_handlers (hp_states st' ! i) = pr_handlers (hp_states st ! i)
      \<and> pr_aborted (hp_states st' ! i) = pr_aborted (hp_states st ! i)"
    and "hp_wf st"
  shows "hp_wf st' \<and> hp_listeners st' = hp_listeners st"
proof -
  have "pr_handlers (hp_states st' ! ref) = pr_handlers (hp_states st ! ref)"
    if "map_of (hp_rooms st) r = Some ref" for r ref
    using assms(6,7) map_of_SomeD [OF that] by (auto simp: hp_wf_def)
  then have "hp_listeners st' = hp_listeners st"
    by (auto simp: hp_listeners_def assms(1) fun_eq_iff split: option.splits)
  moreover have "hp_wf st'"
    using assms(6,7) unfolding hp_wf_def assms(1-5) by (auto 0 3)
  ultimately show ?thesis by simp
qed

text \<open>What the loops do to the table: nothing.\<close>

definition same_table :: "http_poll \<Rightarrow> http_poll \<Rightarrow> bool" where
  "same_table st st' \<longleftrightarrow> (hp_wf st \<longrightarrow> hp_wf st' \<and> hp_listeners st' = hp_listeners st) \<and> hp_closed st' = hp_closed st"

lemma same_table_refl [simp]: "same_table st st"
  by (simp add: same_table_def)

lemma same_table_trans: "same_table a b \<Longrightarrow> same_table b c \<Longrightarrow> same_table a c"
  by (simp add: same_table_def)

lemma same_table_phase [simp]: "same_table st (set_phase ref ph st)"
  using hp_wf_cong [of "set_phase ref ph st" st] by (simp add: same_table_def)

lemma same_table_after [simp]: "same_table st (fst (after_poll ref st))"
  by (simp add: after_poll_def)

lemma same_table_start [simp]: "same_table st (fst (poll_start r ref st))"
  by (simp add: poll_start_def split: option.splits)

lemma same_table_head [simp]: "same_table st (fst (loop_head r ref st))"
  by (simp add: loop_head_def)

lemma same_table_fetched [simp]: "same_table st (fst (poll_fetched ref res st))"
  by (simp add: poll_fetched_def split: fetch_result.splits)

lemma same_table_body [simp]: "same_table st (fst (poll_body ref body st))"
proof -
  have "same_table st (set_room ref (\<lambda>r. r\<lparr>pr_delivered := d, pr_cursor := next_cursor body (pr_cursor r)\<rparr>) st)" for d
    using hp_wf_cong [of "set_room ref (\<lambda>r. r\<lparr>pr_delivered := d, pr_cursor := next_cursor body (pr_cursor r)\<rparr>) st" st]
    by (simp add: same_table_def set_room_nth)
  then show ?thesis by (simp add: poll_body_def Let_def split: jsval.splits prod.splits)
qed

lemma same_table_read [simp]: "same_table st (fst (poll_read ref res st))"
proof (cases res)
  case (Inr body)
  have "same_table st (fst (after_poll ref (fst (poll_body ref body st))))"
    by (rule same_table_trans [OF same_table_body same_table_after])
  then show ?thesis by (cases "poll_body ref body st") (simp add: Inr poll_read_def)
qed (simp add: poll_read_def)

subsection \<open>The table of subscriptions\<close>

lemma loop_head_fields:
  "hp_rooms (fst (loop_head r ref st)) = hp_rooms st" "hp_states (fst (loop_head r ref st)) = hp_states st"
  "hp_closed (fst (loop_head r ref st)) = hp_closed st"
  "length (hp_loops (fst (loop_head r ref st))) = length (hp_loops st)"
  "fst (hp_loops (fst (loop_head r ref st)) ! i) = fst (hp_loops st ! i)"
  by (simp_all add: loop_head_def poll_start_def after_poll_def split: option.splits)

lemma hp_live_ref:
  assumes "hp_wf st" "map_of (hp_rooms st) r = Some ref"
  shows "ref < length (hp_states st)" "\<not> pr_aborted (hp_states st ! ref)" "pr_handlers (hp_states st ! ref) \<noteq> []"
    "fst (hp_loops st ! ref) = r" "\<not> hp_closed st"
  using assms map_of_SomeD [OF assms(2)] by (auto simp: hp_wf_def)

lemma hp_other_ref:
  assumes "hp_wf st" "map_of (hp_rooms st) r = Some ref" "map_of (hp_rooms st) r' = Some ref'" "r' \<noteq> r"
  shows "ref' \<noteq> ref"
  using assms hp_live_ref(4) by blast

text \<open>Handlers of a live room change in place.\<close>

lemma live_room_update:
  assumes "hp_wf st" "map_of (hp_rooms st) r = Some ref" "f (pr_handlers (hp_states st ! ref)) \<noteq> []"
    and "distinct (f (pr_handlers (hp_states st ! ref)))"
  shows "hp_wf (set_room ref (\<lambda>p. p\<lparr>pr_handlers := f (pr_handlers p)\<rparr>) st)
    \<and> hp_listeners (set_room ref (\<lambda>p. p\<lparr>pr_handlers := f (pr_handlers p)\<rparr>) st)
      = (hp_listeners st)(r := f (hp_listeners st r))"
proof
  let ?st = "set_room ref (\<lambda>p. p\<lparr>pr_handlers := f (pr_handlers p)\<rparr>) st"
  note live = hp_live_ref [OF assms(1,2)]
  have ref: "ref \<in> snd ` set (hp_rooms st)" using map_of_SomeD [OF assms(2)] by force
  show "hp_wf ?st"
    using assms(1,3,4) live ref unfolding hp_wf_def by (auto simp: set_room_nth split: if_splits)
  show "hp_listeners ?st = (hp_listeners st)(r := f (hp_listeners st r))"
  proof
    fix r'
    show "hp_listeners ?st r' = ((hp_listeners st)(r := f (hp_listeners st r))) r'"
    proof (cases "map_of (hp_rooms st) r'")
      case (Some ref')
      then show ?thesis
        using assms(2) live(1) hp_live_ref(1) [OF assms(1) Some] hp_other_ref [OF assms(1,2) Some]
        by (auto simp: hp_listeners_def set_room_nth)
    qed (use assms(2) in \<open>auto simp: hp_listeners_def\<close>)
  qed
qed

lemma new_room_wf:
  fixes h :: handler
  assumes wf: "hp_wf st" and r: "map_of (hp_rooms st) r = None" and opened: "\<not> hp_closed st"
  defines "n \<equiv> length (hp_states st)"
  defines "st1 \<equiv> st\<lparr>hp_rooms := al_set r n (hp_rooms st), hp_states := hp_states st @ [new_poll_room],
      hp_loops := hp_loops st @ [(r, LoopDone)]\<rparr>"
  defines "st2 \<equiv> set_room n (\<lambda>p. p\<lparr>pr_handlers := set_add h (pr_handlers p)\<rparr>) st1"
  shows "hp_wf st2 \<and> hp_listeners st2 = (hp_listeners st)(r := [h])"
proof
  have new: "r \<notin> fst ` set (hp_rooms st)" using r by (simp add: map_of_eq_None_iff)
  have rooms: "hp_rooms st2 = hp_rooms st @ [(r, n)]"
    by (simp add: st2_def st1_def al_set_fresh [OF new])
  have states: "hp_states st2 = hp_states st @ [new_poll_room\<lparr>pr_handlers := [h]\<rparr>]"
    by (simp add: st2_def st1_def set_room_def n_def new_poll_room_def set_add_def nth_append)
  have loops: "hp_loops st2 = hp_loops st @ [(r, LoopDone)]" by (simp add: st2_def st1_def)
  have closed: "hp_closed st2 = hp_closed st" by (simp add: st2_def st1_def)
  have lt: "ref < n" if "(r', ref) \<in> set (hp_rooms st)" for r' ref
    using wf that by (auto simp: hp_wf_def n_def)
  have fresh: "n \<notin> snd ` set (hp_rooms st)" by (auto dest: lt)
  show "hp_wf st2"
    using wf new lt fresh opened unfolding hp_wf_def rooms states loops closed
    by (auto simp: nth_append n_def [symmetric] new_poll_room_def less_Suc_eq split: prod.splits)
  have "map_of (hp_rooms st2) = (map_of (hp_rooms st))(r \<mapsto> n)"
    using r by (auto simp: rooms fun_eq_iff map_add_def split: option.splits)
  moreover have "ref < n" if "map_of (hp_rooms st) r' = Some ref" for r' ref
    using lt map_of_SomeD [OF that] by blast
  ultimately show "hp_listeners st2 = (hp_listeners st)(r := [h])"
    by (auto simp: hp_listeners_def fun_eq_iff states nth_append n_def split: option.splits)
qed

lemma hp_subscribe_law:
  assumes "hp_wf st" "hp_subscribe r h st = Some (st', os)"
  shows "hp_wf st' \<and> \<not> hp_closed st' \<and> hp_listeners st' = (hp_listeners st)(r := set_add h (hp_listeners st r))"
proof (cases "map_of (hp_rooms st) r")
  case (Some ref)
  with assms(2) have "st' = set_room ref (\<lambda>p. p\<lparr>pr_handlers := set_add h (pr_handlers p)\<rparr>) st" "\<not> hp_closed st"
    by (auto simp: hp_subscribe_def split: if_splits)
  moreover have "distinct (pr_handlers (hp_states st ! ref))"
    using assms(1) hp_live_ref(1) [OF assms(1) Some] by (simp add: hp_wf_def)
  ultimately show ?thesis
    using live_room_update [OF assms(1) Some, of "set_add h"] by simp
next
  case None
  let ?n = "length (hp_states st)"
  let ?st1 = "st\<lparr>hp_rooms := al_set r ?n (hp_rooms st), hp_states := hp_states st @ [new_poll_room],
      hp_loops := hp_loops st @ [(r, LoopDone)]\<rparr>"
  let ?f = "\<lambda>p. p\<lparr>pr_handlers := set_add h (pr_handlers p)\<rparr>"
  let ?st2 = "set_room ?n ?f ?st1"
  from assms(2) None have opened: "\<not> hp_closed st" and st': "st' = set_room ?n ?f (fst (loop_head r ?n ?st1))"
    using loop_head_fields(1) [of r ?n ?st1]
    by (auto simp: hp_subscribe_def hp_start_room_def Let_def split: if_splits prod.splits)
  have "hp_wf ?st2 \<and> hp_listeners ?st2 = (hp_listeners st)(r := [h])"
    by (rule new_room_wf [OF assms(1) None opened])
  moreover have "hp_wf st' \<and> hp_listeners st' = hp_listeners ?st2" if "hp_wf ?st2"
    by (rule hp_wf_cong [OF _ _ _ _ _ _ that]) (simp_all add: st' loop_head_fields set_room_nth)
  moreover have "hp_listeners st r = []" using None by (simp add: hp_listeners_def)
  moreover have "hp_closed st' = hp_closed st" by (simp add: st' loop_head_fields)
  ultimately show ?thesis using opened by (simp add: set_add_def)
qed

lemma hp_subscribe_throws: "hp_subscribe r h st = None \<longleftrightarrow> hp_closed st"
  by (simp add: hp_subscribe_def split: prod.splits)

lemma hp_unsubscribe_law:
  assumes "hp_wf st"
  shows "hp_wf (fst (hp_unsubscribe r h st)) \<and> hp_closed (fst (hp_unsubscribe r h st)) = hp_closed st
    \<and> hp_listeners (fst (hp_unsubscribe r h st)) = (hp_listeners st)(r := set_delete h (hp_listeners st r))"
proof (cases "map_of (hp_rooms st) r")
  case None
  then show ?thesis using assms by (auto simp: hp_unsubscribe_def hp_listeners_def)
next
  case (Some ref)
  note live = hp_live_ref [OF assms Some]
  have dist: "distinct (set_delete h (pr_handlers (hp_states st ! ref)))"
    using assms live(1) by (simp add: hp_wf_def)
  let ?st1 = "set_room ref (\<lambda>p. p\<lparr>pr_handlers := set_delete h (pr_handlers p)\<rparr>) st"
  show ?thesis
  proof (cases "set_delete h (pr_handlers (hp_states st ! ref)) = []")
    case False
    then have "fst (hp_unsubscribe r h st) = ?st1"
      using Some live(1) by (simp add: hp_unsubscribe_def Let_def set_room_nth)
    then show ?thesis
      using live_room_update [OF assms Some, of "set_delete h"] False dist by simp
  next
    case True
    let ?st2 = "abort_room ref ?st1\<lparr>hp_rooms := al_del r (hp_rooms st)\<rparr>"
    have st2: "fst (hp_unsubscribe r h st) = ?st2"
      using Some live(1) True by (simp add: hp_unsubscribe_def Let_def set_room_nth)
    have rooms: "x \<in> set (al_del r (hp_rooms st)) \<longleftrightarrow> x \<in> set (hp_rooms st) \<and> snd x \<noteq> ref" for x
    proof -
      have "x \<in> set (hp_rooms st) \<Longrightarrow> fst x = r \<longleftrightarrow> snd x = ref"
        using assms live(4) map_of_SomeD [OF Some]
        by (cases x) (auto simp: hp_wf_def dest: eq_key_imp_eq_value)
      then show ?thesis by (auto simp: al_del_mem)
    qed
    have state: "hp_states ?st2 ! i = (if i = ref then (hp_states st ! ref)\<lparr>pr_handlers := [], pr_aborted := True\<rparr> else hp_states st ! i)"
      if "i < length (hp_states st)" for i
      using that True by (simp add: abort_room_def set_room_nth)
    have "hp_wf ?st2"
      using assms live(5) rooms state unfolding hp_wf_def
      by (auto simp: abort_room_def al_del_def distinct_map_filter split: if_splits)
    moreover have "hp_listeners ?st2 = (hp_listeners st)(r := [])"
      using assms state hp_other_ref [OF assms Some] hp_live_ref(1) [OF assms]
      by (auto simp: hp_listeners_def fun_eq_iff split: option.splits)
    moreover have "set_delete h (hp_listeners st r) = []" using True Some by (simp add: hp_listeners_def)
    ultimately show ?thesis by (simp add: st2 abort_room_def)
  qed
qed

lemma fold_abort:
  "hp_rooms (fold abort_room refs st) = hp_rooms st \<and> hp_closed (fold abort_room refs st) = hp_closed st
   \<and> length (hp_states (fold abort_room refs st)) = length (hp_states st)
   \<and> hp_loops (fold abort_room refs st) = hp_loops st
   \<and> (\<forall>i<length (hp_states st). hp_states (fold abort_room refs st) ! i
        = (if i \<in> set refs then (hp_states st ! i)\<lparr>pr_aborted := True\<rparr> else hp_states st ! i))"
  by (induction refs arbitrary: st) (auto simp: abort_room_def set_room_nth)

lemma hp_close_law:
  assumes "hp_wf st"
  shows "hp_wf (fst (hp_close st)) \<and> hp_closed (fst (hp_close st)) \<and> hp_listeners (fst (hp_close st)) = (\<lambda>_. [])"
proof (cases "hp_closed st")
  case True
  then show ?thesis using assms by (auto simp: hp_close_def hp_wf_def hp_listeners_def)
next
  case False
  define st1 where "st1 = fold abort_room (map snd (hp_rooms st)) (st\<lparr>hp_closed := True\<rparr>)"
  have st': "fst (hp_close st) = st1\<lparr>hp_rooms := []\<rparr>" using False by (simp add: hp_close_def st1_def)
  note f = fold_abort [of "map snd (hp_rooms st)" "st\<lparr>hp_closed := True\<rparr>", folded st1_def, simplified]
  have "distinct (pr_handlers (hp_states st1 ! i)) \<and> pr_aborted (hp_states st1 ! i)" if "i < length (hp_states st)" for i
    using assms that f by (auto simp: hp_wf_def)
  then have "hp_wf (st1\<lparr>hp_rooms := []\<rparr>)"
    using assms f by (simp add: hp_wf_def)
  then show ?thesis using f by (simp add: st' hp_listeners_def fun_eq_iff)
qed

interpretation http_poll: subscription_table hp_wf "\<lambda>st. \<not> hp_closed st" hp_listeners
  "\<lambda>r h st. map_option fst (hp_subscribe r h st)" "\<lambda>r h st. fst (hp_unsubscribe r h st)" "\<lambda>st. fst (hp_close st)"
proof unfold_locales
  show "map_option fst (hp_subscribe r h s) = None \<longleftrightarrow> \<not> \<not> hp_closed s" for r h s
    by (simp add: hp_subscribe_throws)
  show "hp_wf s' \<and> \<not> hp_closed s' \<and> hp_listeners s' = (hp_listeners s)(r := set_add h (hp_listeners s r))"
    if "hp_wf s" "map_option fst (hp_subscribe r h s) = Some s'" for r h s s'
    using that hp_subscribe_law [OF that(1)] by auto
qed (use hp_unsubscribe_law hp_close_law in auto)

text \<open>The calls on the adapter among the events, and what a run does to the table.\<close>

fun hp_sub_op :: "hp_event \<Rightarrow> sub_op list" where
  "hp_sub_op (Subscribe r h) = [Sub r h]"
| "hp_sub_op (Unsubscribe r h) = [Unsub r h]"
| "hp_sub_op CloseAdapter = [Shut]"
| "hp_sub_op _ = []"

lemma new_http_poll_wf:
  "new_http_poll e i = Inr st \<Longrightarrow> hp_wf st \<and> \<not> hp_closed st \<and> hp_listeners st = (\<lambda>_. [])"
  by (auto simp: new_http_poll_def Let_def hp_wf_def hp_listeners_def split: if_splits)

lemma hp_step_table:
  assumes "hp_wf st" "hp_step ev st = Some (st', os)"
  shows "hp_wf st' \<and> (\<not> hp_closed st', hp_listeners st') = spec_ops (hp_sub_op ev) (\<not> hp_closed st, hp_listeners st)"
proof -
  have quiet: "hp_wf st' \<and> (\<not> hp_closed st', hp_listeners st') = spec_ops [] (\<not> hp_closed st, hp_listeners st)"
    if "same_table st st'"
    using that assms(1) by (simp add: same_table_def spec_ops_def)
  have published: "same_table st (fst (hp_publish r m st))" for r m
    using hp_wf_cong [of "fst (hp_publish r m st)" st]
    by (simp add: same_table_def hp_publish_def Let_def split: option.splits)
  have posted: "hp_posted n res st = Some (st', os) \<Longrightarrow> same_table st st'" for n res
    using hp_wf_cong [of st' st] by (auto simp: same_table_def hp_posted_def split: if_splits)
  have outs: "same_table st (fst p) \<Longrightarrow> p = (st', os) \<Longrightarrow> same_table st st'" for p by simp
  show ?thesis
  proof (cases ev)
    case (Publish r m)
    then show ?thesis using assms(2) quiet outs [OF published] by simp
  next
    case (PostSettled n res)
    then show ?thesis using assms(2) quiet posted by simp
  next
    case (Subscribe r h)
    then show ?thesis
      using assms(2) hp_subscribe_law [OF assms(1), of r h st' os] hp_subscribe_throws [of r h st]
      by (auto simp: spec_ops_def)
  next
    case (Unsubscribe r h)
    then show ?thesis using assms hp_unsubscribe_law [OF assms(1), of r h] by (auto simp: spec_ops_def)
  next
    case CloseAdapter
    then show ?thesis using assms hp_close_law [OF assms(1)] by (auto simp: spec_ops_def)
  next
    case (FetchSettled ref res)
    then show ?thesis using assms(2) quiet outs [OF same_table_fetched] by (auto split: if_splits)
  next
    case (BodySettled ref res)
    then show ?thesis using assms(2) quiet outs [OF same_table_read] by (auto split: if_splits)
  next
    case (DelayOver ref)
    then show ?thesis using assms(2) quiet outs [OF same_table_head] by (auto split: if_splits)
  qed
qed

lemma hp_run_table:
  "hp_wf st \<Longrightarrow> run_events hp_step evs st = Some (st', os) \<Longrightarrow>
   hp_wf st' \<and> (\<not> hp_closed st', hp_listeners st') = spec_ops (concat (map hp_sub_op evs)) (\<not> hp_closed st, hp_listeners st)"
proof (induction evs arbitrary: st os)
  case (Cons ev evs)
  from Cons.prems(2) obtain st1 os1 os2 where s: "hp_step ev st = Some (st1, os1)" "run_events hp_step evs st1 = Some (st', os2)"
    by (auto split: option.splits)
  from hp_step_table [OF Cons.prems(1) s(1)] have "hp_wf st1"
    and e: "spec_ops (hp_sub_op ev) (\<not> hp_closed st, hp_listeners st) = (\<not> hp_closed st1, hp_listeners st1)" by auto
  from Cons.IH [OF this(1) s(2)] show ?case
    by (simp add: spec_ops_def) (simp add: e [unfolded spec_ops_def])
qed (simp add: spec_ops_def)

subsection \<open>Every item once, to handlers that listen\<close>

text \<open>The calls among the outputs: the room object, the handler, the item's id.\<close>

definition hp_calls :: "hp_out list \<Rightarrow> (nat \<times> handler \<times> jsstring) list" where
  "hp_calls os = concat (map (\<lambda>x. case x of CallHandler ref h i _ \<Rightarrow> [(ref, h, i)] | _ \<Rightarrow> []) os)"

lemma hp_calls_simps [simp]:
  "hp_calls [] = []" "hp_calls (a @ b) = hp_calls a @ hp_calls b"
  "hp_calls (CallHandler ref h i m # os) = (ref, h, i) # hp_calls os"
  by (simp_all add: hp_calls_def)

lemma hp_calls_handlers [simp]: "hp_calls (map (\<lambda>h. CallHandler ref h i m) hs) = map (\<lambda>h. (ref, h, i)) hs"
  by (induction hs) simp_all

lemma hp_calls_mem: "CallHandler ref h i m \<in> set os \<Longrightarrow> (ref, h, i) \<in> set (hp_calls os)"
  by (force simp: hp_calls_def)

lemma poll_items_calls:
  "poll_items ref hs items d = (d', cs) \<Longrightarrow> distinct hs \<Longrightarrow>
   set d \<subseteq> set d' \<and> distinct (hp_calls cs)
   \<and> (\<forall>x\<in>set (hp_calls cs). \<exists>h i. x = (ref, h, i) \<and> h \<in> set hs \<and> i \<in> set d' \<and> i \<notin> set d)"
proof (induction items arbitrary: d d' cs)
  case (Cons item items)
  show ?case
  proof (cases "\<exists>i. fld (own_fields item) ''id'' = Str i \<and> i \<notin> set d")
    case False
    then have "poll_items ref hs items d = (d', cs)"
      using Cons.prems(1) by (auto split: jsval.splits if_splits)
    then show ?thesis using Cons.IH Cons.prems(2) by blast
  next
    case True
    then obtain i where i: "fld (own_fields item) ''id'' = Str i" "i \<notin> set d" by blast
    obtain d1 cs1 where r: "poll_items ref hs items (set_add i d) = (d1, cs1)"
      by (cases "poll_items ref hs items (set_add i d)")
    with Cons.prems(1) i have cs: "d' = d1" "cs = map (\<lambda>h. CallHandler ref h i (fld (own_fields item) ''message'')) hs @ cs1"
      by auto
    have ih: "set (set_add i d) \<subseteq> set d1 \<and> distinct (hp_calls cs1)
       \<and> (\<forall>x\<in>set (hp_calls cs1). \<exists>h j. x = (ref, h, j) \<and> h \<in> set hs \<and> j \<in> set d1 \<and> j \<notin> set (set_add i d))"
      by (rule Cons.IH [OF r Cons.prems(2)])
    have dist: "distinct (map (\<lambda>h. (ref, h, i)) hs)"
      using Cons.prems(2) by (simp add: distinct_map inj_on_def)
    have "set (map (\<lambda>h. (ref, h, i)) hs) \<inter> set (hp_calls cs1) = {}" using ih by fastforce
    with ih dist i(2) show ?thesis by (fastforce simp: cs)
  qed
qed simp_all

text \<open>What one event may add to the calls.\<close>

definition hp_adds :: "http_poll \<Rightarrow> http_poll \<Rightarrow> hp_out list \<Rightarrow> bool" where
  "hp_adds st st' os \<longleftrightarrow>
     length (hp_states st) \<le> length (hp_states st')
     \<and> (\<forall>ref<length (hp_states st). set (pr_delivered (hp_states st ! ref)) \<subseteq> set (pr_delivered (hp_states st' ! ref)))
     \<and> distinct (hp_calls os)
     \<and> (\<forall>(ref, h, i)\<in>set (hp_calls os). ref < length (hp_states st) \<and> h \<in> set (pr_handlers (hp_states st ! ref))
          \<and> i \<in> set (pr_delivered (hp_states st' ! ref)) \<and> i \<notin> set (pr_delivered (hp_states st ! ref)))"

definition hp_quiet :: "http_poll \<Rightarrow> http_poll \<times> hp_out list \<Rightarrow> bool" where
  "hp_quiet st p \<longleftrightarrow> hp_calls (snd p) = [] \<and> length (hp_states st) \<le> length (hp_states (fst p))
     \<and> (\<forall>ref<length (hp_states st). pr_delivered (hp_states (fst p) ! ref) = pr_delivered (hp_states st ! ref))"

lemma hp_quiet_adds: "hp_quiet st (st', os) \<Longrightarrow> hp_adds st st' os"
  by (simp add: hp_quiet_def hp_adds_def)

lemma hp_calls_single [simp]:
  "hp_calls [Post n u b] = []" "hp_calls [Get ref u] = []" "hp_calls [Abort ref] = []" "hp_calls [Sleep ref i] = []"
  "hp_calls [Published n e] = []"
  by (simp_all add: hp_calls_def)

lemma quiet_after [simp]: "hp_quiet st (after_poll ref st)"
  by (simp add: hp_quiet_def after_poll_def)

lemma quiet_head [simp]: "hp_quiet st (loop_head r ref st)"
  by (simp add: hp_quiet_def loop_head_def poll_start_def after_poll_def split: option.splits)

lemma quiet_fetched [simp]: "hp_quiet st (poll_fetched ref res st)"
  by (simp add: hp_quiet_def poll_fetched_def after_poll_def split: fetch_result.splits)

lemma quiet_publish [simp]: "hp_quiet st (hp_publish r m st)"
  by (simp add: hp_quiet_def hp_publish_def Let_def split: option.splits)

lemma quiet_posted: "hp_posted n res st = Some p \<Longrightarrow> hp_quiet st p"
  by (auto simp: hp_quiet_def hp_posted_def split: if_splits)

lemma quiet_unsubscribe [simp]: "hp_quiet st (hp_unsubscribe r h st)"
  by (auto simp: hp_quiet_def hp_unsubscribe_def Let_def abort_room_def set_room_nth split: option.splits)

lemma hp_quiet_close [simp]: "hp_quiet st (hp_close st)"
proof (cases "hp_closed st")
  case False
  have "hp_calls (map (Abort \<circ> snd) rs) = []" for rs :: "(jsstring \<times> nat) list"
    by (induction rs) (simp_all add: hp_calls_def)
  then show ?thesis
    using False fold_abort [of "map snd (hp_rooms st)" "st\<lparr>hp_closed := True\<rparr>"]
    by (auto simp: hp_quiet_def hp_close_def)
qed (simp add: hp_quiet_def hp_close_def)

lemma quiet_subscribe: "hp_subscribe r h st = Some p \<Longrightarrow> hp_quiet st p"
proof -
  assume p: "hp_subscribe r h st = Some p"
  show ?thesis
  proof (cases "map_of (hp_rooms st) r")
    case (Some ref)
    with p show ?thesis
      by (auto simp: hp_subscribe_def hp_quiet_def set_room_nth split: if_splits)
  next
    case None
    let ?st1 = "st\<lparr>hp_rooms := al_set r (length (hp_states st)) (hp_rooms st), hp_states := hp_states st @ [new_poll_room],
      hp_loops := hp_loops st @ [(r, LoopDone)]\<rparr>"
    obtain st2 os where l: "loop_head r (length (hp_states st)) ?st1 = (st2, os)" by force
    have "hp_quiet ?st1 (st2, os)" using quiet_head [of ?st1] l by metis
    with None l p loop_head_fields(2) [of r "length (hp_states st)" ?st1] show ?thesis
      by (auto simp: hp_subscribe_def hp_start_room_def hp_quiet_def set_room_nth nth_append split: if_splits)
  qed
qed

lemma body_adds:
  assumes "hp_wf st" "ref < length (hp_states st)" "poll_body ref body st = (st', os)"
  shows "hp_adds st st' os \<and> length (hp_states st') = length (hp_states st)"
proof (cases "fld (own_fields body) ''messages''")
  case (Arr items)
  obtain d cs where p: "poll_items ref (pr_handlers (hp_states st ! ref)) items (pr_delivered (hp_states st ! ref)) = (d, cs)"
    by force
  have "distinct (pr_handlers (hp_states st ! ref))" using assms(1,2) by (simp add: hp_wf_def)
  from poll_items_calls [OF p this] show ?thesis
    using assms(2,3) Arr p by (fastforce simp: poll_body_def hp_adds_def set_room_nth)
qed (use assms(3) in \<open>auto simp: poll_body_def hp_adds_def\<close>)

lemma hp_adds_quiet: "hp_adds st st1 os \<Longrightarrow> length (hp_states st1) = length (hp_states st) \<Longrightarrow> hp_quiet st1 (st', os') \<Longrightarrow> hp_adds st st' (os @ os')"
  by (fastforce simp: hp_adds_def hp_quiet_def)

lemma hp_step_adds:
  assumes "hp_wf st" "hp_step ev st = Some (st', os)"
  shows "hp_adds st st' os"
proof (cases ev)
  case (BodySettled ref res)
  with assms(2) have w: "ref < length (hp_loops st)" "poll_read ref res st = (st', os)"
    by (auto simp: loop_waits_def split: if_splits)
  show ?thesis
  proof (cases res)
    case (Inl name)
    have "hp_quiet st (poll_read ref res st)"
      using quiet_after [of st ref] by (simp add: Inl poll_read_def hp_quiet_def)
    then show ?thesis using w(2) hp_quiet_adds by simp
  next
    case (Inr body)
    obtain st1 os1 where b: "poll_body ref body st = (st1, os1)" by force
    obtain st2 os2 where a: "after_poll ref st1 = (st2, os2)" by force
    from w(2) Inr b a have r: "st' = st2" "os = os1 @ os2" by (auto simp: poll_read_def)
    have "hp_quiet st1 (st2, os2)" using quiet_after [of st1 ref] a by simp
    moreover have "ref < length (hp_states st)" using w(1) assms(1) by (simp add: hp_wf_def)
    ultimately show ?thesis
      unfolding r using body_adds [OF assms(1) _ b] hp_adds_quiet by blast
  qed
next
  case (Publish r m)
  then show ?thesis using assms(2) quiet_publish [of st r m] by (simp add: hp_quiet_adds)
next
  case (PostSettled n res)
  then show ?thesis using assms(2) quiet_posted [of n res st] by (simp add: hp_quiet_adds)
next
  case (Subscribe r h)
  then show ?thesis using assms(2) quiet_subscribe [of r h st] by (simp add: hp_quiet_adds)
next
  case (Unsubscribe r h)
  then show ?thesis using assms(2) quiet_unsubscribe [of st r h] by (simp add: hp_quiet_adds)
next
  case CloseAdapter
  then show ?thesis using assms(2) hp_quiet_close [of st] by (simp add: hp_quiet_adds)
next
  case (FetchSettled ref res)
  with assms(2) have "poll_fetched ref res st = (st', os)" by (simp split: if_splits)
  then show ?thesis by (metis quiet_fetched hp_quiet_adds)
next
  case (DelayOver ref)
  with assms(2) have "loop_head (fst (hp_loops st ! ref)) ref st = (st', os)" by (simp split: if_splits)
  then show ?thesis by (metis quiet_head hp_quiet_adds)
qed

interpretation once: monitored hp_step
  "\<lambda>os st. hp_wf st \<and> distinct (hp_calls os)
     \<and> (\<forall>(ref, h, i)\<in>set (hp_calls os). ref < length (hp_states st) \<and> i \<in> set (pr_delivered (hp_states st ! ref)))"
proof unfold_locales
  fix os st ev st' os'
  assume M: "hp_wf st \<and> distinct (hp_calls os)
     \<and> (\<forall>(ref, h, i)\<in>set (hp_calls os). ref < length (hp_states st) \<and> i \<in> set (pr_delivered (hp_states st ! ref)))"
    and s: "hp_step ev st = Some (st', os')"
  from M have "hp_adds st st' os'" using hp_step_adds [OF _ s] by simp
  moreover from M have "hp_wf st'" using hp_step_table [OF _ s] by simp
  ultimately show "hp_wf st' \<and> distinct (hp_calls (os @ os'))
     \<and> (\<forall>(ref, h, i)\<in>set (hp_calls (os @ os')). ref < length (hp_states st') \<and> i \<in> set (pr_delivered (hp_states st' ! ref)))"
    using M unfolding hp_adds_def by fastforce
qed

lemma http_poll_once:
  "new_http_poll e i = Inr st0 \<Longrightarrow> reach hp_step st0 os st \<Longrightarrow> distinct (hp_calls os)"
  using once.reach_monitored [of st0 os st] new_http_poll_wf [of e i st0] by simp

text \<open>
  While the adapter is open, a handler that is called is subscribed: the last call about it and the
  loop's room was \<open>subscribe\<close>.
\<close>

lemma http_poll_calls_listeners:
  assumes "new_http_poll e i = Inr st0" "run_events hp_step evs st0 = Some (st, os)"
    and "hp_step ev st = Some (st', os')" "\<not> hp_closed st" "CallHandler ref h k m \<in> set os'"
  shows "last_is_sub (fst (hp_loops st ! ref)) h (concat (map hp_sub_op evs)) False"
proof -
  note new = new_http_poll_wf [OF assms(1)]
  from hp_run_table [OF _ assms(2)] new have wf: "hp_wf st"
    and t: "(\<not> hp_closed st, hp_listeners st) = spec_ops (concat (map hp_sub_op evs)) (True, \<lambda>_. [])" by auto
  have "ref < length (hp_states st)" "h \<in> set (pr_handlers (hp_states st ! ref))"
    using hp_step_adds [OF wf assms(3)] hp_calls_mem [OF assms(5)] by (auto simp: hp_adds_def)
  moreover from this have "ref \<in> snd ` set (hp_rooms st)"
    using wf assms(4) by (auto simp: hp_wf_def)
  then obtain r where "(r, ref) \<in> set (hp_rooms st)" by auto
  then have "map_of (hp_rooms st) r = Some ref" "fst (hp_loops st ! ref) = r"
    using wf by (auto simp: hp_wf_def)
  ultimately have "h \<in> set (hp_listeners st (fst (hp_loops st ! ref)))" by (simp add: hp_listeners_def)
  then show ?thesis
    using spec_ops_listeners [of h "concat (map hp_sub_op evs)" "\<lambda>_. []"] by (simp add: t [symmetric])
qed

subsection \<open>A round of polling\<close>

text \<open>The items of a response, each with its id and its message.\<close>

definition poll_item :: "jsstring \<times> jsval \<Rightarrow> jsval" where
  "poll_item x = Obj [(js ''id'', Str (fst x)), (js ''message'', snd x)]"

definition poll_answer :: "(jsstring \<times> jsval) list \<Rightarrow> jsstring \<Rightarrow> jsval" where
  "poll_answer xs cursor = Obj [(js ''messages'', Arr (map poll_item xs)), (js ''cursor'', Str cursor)]"

lemma poll_items_fresh:
  "distinct (map fst xs) \<Longrightarrow> set (map fst xs) \<inter> set d = {} \<Longrightarrow>
   poll_items ref hs (map poll_item xs) d
     = (d @ map fst xs, concat (map (\<lambda>x. map (\<lambda>h. CallHandler ref h (fst x) (snd x)) hs) xs))"
  by (induction xs arbitrary: d) (auto simp: poll_item_def set_add_def)

lemma http_poll_round:
  assumes "hp_wf st" "map_of (hp_rooms st) r = Some ref" "loop_waits ref AwaitFetch st"
    and "distinct (map fst xs)" "set (map fst xs) \<inter> set (pr_delivered (hp_states st ! ref)) = {}"
    and "encodeURIComponent r = Some enc" "c \<noteq> []"
  shows "run_events hp_step [FetchSettled ref (Response 200), BodySettled ref (Inr (poll_answer xs c)), DelayOver ref] st
    = Some (set_phase ref AwaitFetch (set_room ref (\<lambda>p. p\<lparr>pr_delivered := pr_delivered p @ map fst xs, pr_cursor := c\<rparr>) st),
        concat (map (\<lambda>x. map (\<lambda>h. CallHandler ref h (fst x) (snd x)) (pr_handlers (hp_states st ! ref))) xs)
        @ [Sleep ref (hp_interval st), Get ref (hp_endpoint st @ js ''/'' @ enc @ js ''?since='' @ form_serialize c)])"
proof -
  note live = hp_live_ref [OF assms(1,2)]
  have len: "ref < length (hp_loops st)" "length (hp_loops st) = length (hp_states st)"
    using assms(1,3) by (auto simp: hp_wf_def loop_waits_def)
  show ?thesis
    using len live assms(3) assms(6,7)
    by (simp add: loop_waits_def poll_fetched_def response_ok_def poll_read_def poll_body_def poll_answer_def
      poll_items_fresh [OF assms(4,5)] next_cursor_def after_poll_def loop_stopped_def loop_head_def poll_start_def
      poll_query_def set_phase_def set_room_def Let_def)
qed

text \<open>The endpoint reads back the cursor that the adapter sends, whatever characters it has.\<close>

lemma below_16: "n < 16 \<Longrightarrow> n \<in> {0, 1, 2, 3, 4, 5, 6, 7, 8, 9, 10, 11, 12, 13, 14, 15 :: nat}"
  by (simp add: less_Suc_eq numeral_eq_Suc)

lemma hex_upper_digit:
  "n < 16 \<Longrightarrow> hex_digit (ucast (hex_upper n)) = Some n \<and> unat (hex_upper n) < 128
     \<and> unat (ucast (hex_upper n) :: byte) \<notin> {0x25, 0x26, 0x2B, 0x3D}"
  by (drule below_16, elim insertE emptyE) (simp_all add: hex_upper_def js_def ch_def hex_digit_def)

definition form_byte8 :: "byte \<Rightarrow> bytes" where
  "form_byte8 b = map ucast (form_byte b)"

definition form_bytes :: "bytes \<Rightarrow> bytes" where
  "form_bytes bs = concat (map form_byte8 bs)"

lemma form_bytes_ucast: "map ucast (concat (map form_byte bs)) = form_bytes bs"
  by (induction bs) (simp_all add: form_bytes_def form_byte8_def)

definition plus_space :: "byte \<Rightarrow> byte" where
  "plus_space b = (if unat b = 0x2B then 0x20 else b)"

lemma plus_space_percent: "plus_space 0x25 = 0x25"
  by (simp add: plus_space_def)

lemma percent_decode_other: "unat p \<noteq> 0x25 \<Longrightarrow> percent_decode (p # bs) = p # percent_decode bs"
  by (cases bs; cases "tl bs") (auto simp: neq_Nil_conv)

lemma unat_ucast_byte: "unat (ucast (b :: byte) :: jschar) = unat b"
  using unsigned_less [of b, where ?'a = nat] by (simp add: unsigned_ucast_eq take_bit_nat_eq_self)

lemma form_plain_byte:
  assumes "in_cls FORM_PLAIN (ucast (b :: byte))"
  shows "unat b < 128 \<and> unat b \<notin> {0x25, 0x26, 0x2B, 0x3D, 0x3F}"
  using assms by (auto simp: in_cls_def FORM_PLAIN_def unat_ucast_byte)

lemma len8: "LENGTH(8) = 8"
  by simp

lemma ucast_ucast_byte: "ucast (ucast (b :: byte) :: jschar) = b"
proof -
  have "unat (ucast (ucast b :: jschar) :: byte) = take_bit 8 (unat (ucast b :: jschar))"
    by (subst unsigned_ucast_eq) (simp only: unsigned_take_bit_eq len8)
  also have "\<dots> = unat b"
    using unsigned_less [of b, where ?'a = nat] by (simp add: unat_ucast_byte take_bit_nat_eq_self)
  finally show ?thesis by (simp only: word_unat_eq_iff)
qed

lemma form_byte_cases:
  shows "form_byte8 b = [0x2B] \<and> unat b = 0x20
    \<or> form_byte8 b = [b] \<and> in_cls FORM_PLAIN (ucast b)
    \<or> form_byte8 b = [0x25, ucast (hex_upper (unat b div 16)), ucast (hex_upper (unat b mod 16))]"
  by (auto simp: form_byte8_def form_byte_def percent_byte_def ucast_ucast_byte ch_def)

lemma byte_div_16: "unat (b :: byte) div 16 < 16" "unat b mod 16 < 16"
  using unsigned_less [of b, where ?'a = nat] by auto

lemma form_bytes_avoid: "(0x26 :: byte) \<notin> set (form_bytes bs)" "(0x3D :: byte) \<notin> set (form_bytes bs)"
proof -
  have "\<forall>x\<in>set (form_byte8 b). unat x \<notin> {0x26, 0x3D}" for b
    using form_byte_cases [of b] form_plain_byte [of b] hex_upper_digit [OF byte_div_16(1), of b]
      hex_upper_digit [OF byte_div_16(2), of b] by auto
  then have "\<forall>x\<in>set (form_bytes bs). unat x \<notin> {0x26, 0x3D}"
    by (auto simp: form_bytes_def)
  then show "(0x26 :: byte) \<notin> set (form_bytes bs)" "(0x3D :: byte) \<notin> set (form_bytes bs)" by auto
qed

lemma percent_decode_form: "percent_decode (map plus_space (form_bytes bs)) = bs"
proof (induction bs)
  case (Cons b bs)
  have "percent_decode (map plus_space (form_byte8 b) @ xs) = b # percent_decode xs" for xs
  proof -
    consider "form_byte8 b = [0x2B]" "unat b = 0x20"
      | "form_byte8 b = [b]" "in_cls FORM_PLAIN (ucast b)"
      | "form_byte8 b = [0x25, ucast (hex_upper (unat b div 16)), ucast (hex_upper (unat b mod 16))]"
      using form_byte_cases [of b] by blast
    then show ?thesis
    proof cases
      case 1
      then have "b = 0x20" by (simp add: word_unat_eq_iff)
      with 1 show ?thesis by (simp add: plus_space_def percent_decode_other)
    next
      case 2
      then show ?thesis using form_plain_byte [OF 2(2)] by (simp add: plus_space_def percent_decode_other)
    next
      case 3
      have "plus_space (ucast (hex_upper n)) = ucast (hex_upper n)" if "n < 16" for n
        using hex_upper_digit [OF that] by (simp add: plus_space_def)
      with 3 show ?thesis
        using hex_upper_digit [OF byte_div_16(1), of b] hex_upper_digit [OF byte_div_16(2), of b] byte_div_16 [of b]
        by (simp add: plus_space_percent)
    qed
  qed
  with Cons show ?case by (simp add: form_bytes_def)
qed (simp add: form_bytes_def)

lemma form_serialize_ascii: "\<forall>u\<in>set (form_serialize s). unat u < 128"
proof -
  have "\<forall>u\<in>set (form_byte b). unat u < 128" for b
    using form_plain_byte [of b] hex_upper_digit [OF byte_div_16(1), of b] hex_upper_digit [OF byte_div_16(2), of b]
    by (auto simp: form_byte_def percent_byte_def unat_ucast_byte ch_def)
  then show ?thesis by (auto simp: form_serialize_def)
qed

lemma form_text_serialize: "well_formed s \<Longrightarrow> form_text (map ucast (form_serialize s)) = s"
  using percent_decode_form [of "utf8_encode s"]
  by (simp add: form_text_def form_serialize_def form_bytes_ucast plus_space_def [abs_def] utf8_decode_nobom_encode)

lemma cursor_roundtrip:
  assumes "well_formed c" "c \<noteq> []"
  shows "search_params (poll_query c) = [(js ''since'', c)]"
proof -
  have q: "drop_question (poll_query c) = js ''since='' @ form_serialize c"
    using assms(2) by (simp add: poll_query_def drop_question_def js_Cons)
  have "\<forall>u\<in>set (js ''since='' @ form_serialize c). unat u < 128"
    using form_serialize_ascii [of c] by (auto simp: js_def)
  then have e: "utf8_encode (drop_question (poll_query c)) = map ucast (js ''since='') @ form_bytes (utf8_encode c)"
    unfolding q by (simp only: utf8_encode_ascii map_append form_serialize_def form_bytes_ucast)
  have key: "map ucast (js ''since='') = map ucast (js ''since'') @ [0x3D :: byte]"
    by (simp add: js_def ch_def)
  have avoid: "(0x26 :: byte) \<notin> set (map ucast (js ''since''))" "(0x3D :: byte) \<notin> set (map ucast (js ''since''))"
    by (simp_all add: js_def ch_def)
  have "split_at 0x26 (utf8_encode (drop_question (poll_query c)))
      = [map ucast (js ''since'') @ 0x3D # form_bytes (utf8_encode c)]"
    unfolding e key using avoid(1) form_bytes_avoid(1) [of "utf8_encode c"]
    by (subst split_at_none) auto
  moreover have "form_pair (map ucast (js ''since'') @ 0x3D # form_bytes (utf8_encode c)) = (js ''since'', c)"
  proof -
    have "takeWhile (\<lambda>b. b \<noteq> 0x3D) (map ucast (js ''since'') @ 0x3D # form_bytes (utf8_encode c)) = map ucast (js ''since'')
      \<and> dropWhile (\<lambda>b. b \<noteq> 0x3D) (map ucast (js ''since'') @ 0x3D # form_bytes (utf8_encode c)) = 0x3D # form_bytes (utf8_encode c)"
      using avoid(2) by (intro takeWhile_neq_stop)
    moreover have "form_text (map ucast (js ''since'')) = js ''since''"
      by (rule form_text_plain) (simp add: js_def form_plain_def ch_def)
    ultimately show ?thesis
      using form_text_serialize [OF assms(1)] by (simp add: form_pair_def form_serialize_def form_bytes_ucast)
  qed
  ultimately show ?thesis by (simp add: search_params_def)
qed

end
