(* ===== verification/Url_Fragment.thy ===== *)
theory Url_Fragment
  imports Signaling_Transport Bundle
begin

text \<open>
  The URL-fragment signaling adapter (\<open>packages/signaling-url-fragment/src/index.ts\<close>): published messages
  wait in an outbox per room until they are exported as one bundle; importing a bundle hands its
  messages to the room's handlers. Decoding is awaited, so the adapter may change between the call of
  \<open>importBundle\<close> and the delivery: a pending import is part of the state. The compression streams and
  the \<open>URL\<close> class are parameters, as in the bundle codec.
\<close>

subsection \<open>The adapter\<close>

record url_fragment_adapter =
  uf_outbox :: "(jsstring \<times> sig_message list) list"
  uf_handlers :: "(jsstring \<times> handler list) list"
  uf_closed :: bool
  uf_imports :: "(nat \<times> jsstring) list"
  uf_next_import :: nat

definition new_url_fragment :: url_fragment_adapter where
  "new_url_fragment = \<lparr>uf_outbox = [], uf_handlers = [], uf_closed = False, uf_imports = [], uf_next_import = 0\<rparr>"

datatype uf_out =
    UfPublished "err option"
  | UfExported "err + jsstring"
  | UfImported nat "err + jsstring \<times> nat"
  | UfCall handler sig_message

definition adapter_closed :: err where
  "adapter_closed = Thrown ''AdapterClosedError'' ''senn: adapter closed''"

definition uf_publish :: "jsstring \<Rightarrow> sig_message \<Rightarrow> url_fragment_adapter \<Rightarrow> url_fragment_adapter \<times> uf_out list" where
  "uf_publish roomId message st =
     (if uf_closed st then (st, [UfPublished (Some adapter_closed)])
      else (st\<lparr>uf_outbox := al_set roomId
              ((case map_of (uf_outbox st) roomId of None \<Rightarrow> [] | Some list \<Rightarrow> list) @ [message]) (uf_outbox st)\<rparr>,
            [UfPublished None]))"

definition uf_subscribe :: "jsstring \<Rightarrow> handler \<Rightarrow> url_fragment_adapter \<Rightarrow> url_fragment_adapter option" where
  "uf_subscribe roomId handler st =
     (if uf_closed st then None
      else Some (st\<lparr>uf_handlers := al_set roomId
             (set_add handler (case map_of (uf_handlers st) roomId of None \<Rightarrow> [] | Some hs \<Rightarrow> hs)) (uf_handlers st)\<rparr>))"

definition uf_unsubscribe :: "jsstring \<Rightarrow> handler \<Rightarrow> url_fragment_adapter \<Rightarrow> url_fragment_adapter" where
  "uf_unsubscribe roomId handler st =
     (case map_of (uf_handlers st) roomId of
        None \<Rightarrow> st
      | Some live \<Rightarrow>
          if set_delete handler live = [] then st\<lparr>uf_handlers := al_del roomId (uf_handlers st)\<rparr>
          else st\<lparr>uf_handlers := al_set roomId (set_delete handler live) (uf_handlers st)\<rparr>)"

definition uf_close :: "url_fragment_adapter \<Rightarrow> url_fragment_adapter" where
  "uf_close st = st\<lparr>uf_closed := True, uf_outbox := [], uf_handlers := []\<rparr>"

text \<open>\<open>exportBundle\<close>: the outbox is emptied before the bundle is encoded, whether or not that works.\<close>

definition uf_exportBundle ::
  "transform \<Rightarrow> jsstring \<Rightarrow> url_fragment_adapter \<Rightarrow> url_fragment_adapter \<times> (err + jsstring)" where
  "uf_exportBundle deflate roomId st =
     (if uf_closed st then (st, Inl adapter_closed)
      else (case map_of (uf_outbox st) roomId of
          None \<Rightarrow> (st, Inr [])
        | Some messages \<Rightarrow>
            if messages = [] then (st, Inr [])
            else (st\<lparr>uf_outbox := al_del roomId (uf_outbox st)\<rparr>,
                  encodeSignalingBundle deflate (bundle_val \<lparr>bundle_roomId = roomId, bundle_messages = messages\<rparr>))))"

text \<open>\<open>importBundle\<close> up to its \<open>await\<close>, and from there on.\<close>

definition uf_importBundle :: "jsstring \<Rightarrow> url_fragment_adapter \<Rightarrow> url_fragment_adapter \<times> uf_out list" where
  "uf_importBundle encoded st =
     (let n = uf_next_import st; st1 = st\<lparr>uf_next_import := Suc n\<rparr> in
      if uf_closed st then (st1, [UfImported n (Inl adapter_closed)])
      else (st1\<lparr>uf_imports := uf_imports st @ [(n, encoded)]\<rparr>, []))"

definition uf_deliver :: "handler list \<Rightarrow> sig_message list \<Rightarrow> uf_out list" where
  "uf_deliver hs messages = concat (map (\<lambda>m. map (\<lambda>h. UfCall h m) hs) messages)"

definition uf_decoded :: "transform \<Rightarrow> nat \<Rightarrow> url_fragment_adapter \<Rightarrow> (url_fragment_adapter \<times> uf_out list) option" where
  "uf_decoded inflate n st =
     (case map_of (uf_imports st) n of
        None \<Rightarrow> None
      | Some encoded \<Rightarrow>
          (let st1 = st\<lparr>uf_imports := al_del n (uf_imports st)\<rparr> in
           case decodeSignalingBundle inflate encoded of
             Inl e \<Rightarrow> Some (st1, [UfImported n (Inl e)])
           | Inr bundle \<Rightarrow>
               (case map_of (uf_handlers st) (bundle_roomId bundle) of
                  None \<Rightarrow> Some (st1, [UfImported n (Inr (bundle_roomId bundle, 0))])
                | Some handlers \<Rightarrow>
                    if handlers = [] then Some (st1, [UfImported n (Inr (bundle_roomId bundle, 0))])
                    else Some (st1, uf_deliver handlers (bundle_messages bundle)
                      @ [UfImported n (Inr (bundle_roomId bundle, length (bundle_messages bundle)))]))))"

definition uf_toFragment :: "jsstring \<Rightarrow> jsstring" where
  "uf_toFragment encoded = js ''s='' @ encoded"

definition uf_fromUrl :: "'u url_api \<Rightarrow> jsstring \<Rightarrow> err + jsstring option" where
  "uf_fromUrl api href = extractBundleFromUrl api href"

datatype uf_event =
    UfPublish jsstring sig_message
  | UfSubscribe jsstring handler
  | UfUnsubscribe jsstring handler
  | UfClose
  | UfExport jsstring
  | UfImport jsstring
  | UfDecoded nat

fun uf_step :: "transform \<Rightarrow> transform \<Rightarrow> uf_event \<Rightarrow> url_fragment_adapter \<Rightarrow> (url_fragment_adapter \<times> uf_out list) option" where
  "uf_step deflate inflate (UfPublish r m) st = Some (uf_publish r m st)"
| "uf_step deflate inflate (UfSubscribe r h) st = map_option (\<lambda>st'. (st', [])) (uf_subscribe r h st)"
| "uf_step deflate inflate (UfUnsubscribe r h) st = Some (uf_unsubscribe r h st, [])"
| "uf_step deflate inflate UfClose st = Some (uf_close st, [])"
| "uf_step deflate inflate (UfExport r) st = (case uf_exportBundle deflate r st of (st', res) \<Rightarrow> Some (st', [UfExported res]))"
| "uf_step deflate inflate (UfImport enc) st = Some (uf_importBundle enc st)"
| "uf_step deflate inflate (UfDecoded n) st = uf_decoded inflate n st"

subsection \<open>The table of subscriptions\<close>

definition uf_listeners :: "url_fragment_adapter \<Rightarrow> jsstring \<Rightarrow> handler list" where
  "uf_listeners st r = (case map_of (uf_handlers st) r of None \<Rightarrow> [] | Some hs \<Rightarrow> hs)"

interpretation url_fragment: subscription_table "\<lambda>st. True" "\<lambda>st. \<not> uf_closed st" uf_listeners
  uf_subscribe uf_unsubscribe uf_close
  by unfold_locales
    (auto simp: uf_subscribe_def uf_unsubscribe_def uf_close_def uf_listeners_def fun_eq_iff split: option.splits if_splits)

subsection \<open>From one peer's outbox to the other's handlers\<close>

lemma publish_all:
  "\<not> uf_closed st \<Longrightarrow>
   run_events (uf_step deflate inflate) (map (UfPublish r) ms) st
     = Some (if ms = [] then st
         else st\<lparr>uf_outbox := al_set r ((case map_of (uf_outbox st) r of None \<Rightarrow> [] | Some list \<Rightarrow> list) @ ms) (uf_outbox st)\<rparr>,
       map (\<lambda>_. UfPublished None) ms)"
proof (induction ms arbitrary: st)
  case (Cons m ms)
  have twice: "al_set r b (al_set r a o1) = al_set r b o1" for a b :: "sig_message list" and o1
    by (induction r a o1 rule: al_set.induct) auto
  show ?case
    using Cons.prems by (simp add: Cons.IH uf_publish_def twice)
qed simp

lemma export_published:
  assumes "streams_inverse deflate inflate" "\<not> uf_closed st" "map_of (uf_outbox st) r = Some ms"
    and "bundle_ok \<lparr>bundle_roomId = r, bundle_messages = ms\<rparr>" "bundle_clean \<lparr>bundle_roomId = r, bundle_messages = ms\<rparr>"
  shows "\<exists>enc. uf_exportBundle deflate r st = (st\<lparr>uf_outbox := al_del r (uf_outbox st)\<rparr>, Inr enc)
    \<and> set enc \<subseteq> set B64_ALPHABET \<and> enc \<noteq> []
    \<and> decodeSignalingBundle inflate enc = Inr \<lparr>bundle_roomId = r, bundle_messages = ms\<rparr>"
  using decode_encode_clean [OF assms(1) json_clean_bundle [OF assms(5)] validate_bundle_val [OF assms(4)]] assms(2-4)
  by (auto simp: uf_exportBundle_def bundle_ok_def)

lemma import_decoded:
  assumes "\<not> uf_closed st" "decodeSignalingBundle inflate enc = Inr b"
    and "map_of (uf_imports st) (uf_next_import st) = None"
  shows "run_events (uf_step deflate inflate) [UfImport enc, UfDecoded (uf_next_import st)] st
    = Some (st\<lparr>uf_next_import := Suc (uf_next_import st)\<rparr>,
        uf_deliver (uf_listeners st (bundle_roomId b)) (bundle_messages b)
        @ [UfImported (uf_next_import st) (Inr (bundle_roomId b,
            if uf_listeners st (bundle_roomId b) = [] then 0 else length (bundle_messages b)))])"
proof -
  have "al_del n (xs @ [(n, enc)]) = xs" if "map_of xs n = None" for n and xs :: "(nat \<times> jsstring) list"
    using al_del_absent [OF that] by (simp add: al_del_def)
  moreover have "uf_deliver [] ms = []" for ms by (induction ms) (simp_all add: uf_deliver_def)
  moreover have "map_of (uf_imports st @ [(uf_next_import st, enc)]) (uf_next_import st) = Some enc"
    using assms(3) by (simp add: map_add_def)
  ultimately show ?thesis
    using assms by (auto simp: uf_importBundle_def uf_decoded_def uf_listeners_def Let_def split: option.splits)
qed

lemma fragment_of_url:
  assumes "url_api_ok api" "set enc \<subseteq> set B64_ALPHABET" "enc \<noteq> []"
  shows "uf_fromUrl api (url_toString api (url_set_hash api (uf_toFragment enc) u)) = Inr (Some enc)"
proof -
  have f: "uf_toFragment enc = param_text (js ''s'') enc" by (simp add: uf_toFragment_def param_text_def js_Cons)
  have "in_cls FRAGMENT_RANGES (ch CHR ''s'')" "in_cls FRAGMENT_RANGES (ch CHR ''='')"
    by (simp_all add: in_cls_def FRAGMENT_RANGES_def B64_RANGES_def)
  then have "fragment_safe (uf_toFragment enc)"
    using assms(2) b64_fragment by (auto simp: fragment_safe_def f param_text_def js_def list_all_iff)
  then obtain u' where u': "url_parse api (url_toString api (url_set_hash api (uf_toFragment enc) u)) = Some u'"
      "url_hash api u' = ch CHR ''#'' # uf_toFragment enc"
    using assms(1) unfolding url_api_ok_def by blast
  have "search_params (uf_toFragment enc) = [(js ''s'', enc)]"
    unfolding f by (rule search_params_one) (use assms(2) b64_plain in \<open>auto simp: form_plain_def js_def\<close>)
  then show ?thesis
    by (simp add: uf_fromUrl_def extractBundleFromUrl_def u'(1) url_fragment_def u'(2)) (simp add: f param_text_def)
qed

lemma url_fragment_transfer:
  assumes "streams_inverse deflate inflate" "url_api_ok api"
    and "\<not> uf_closed a" "map_of (uf_outbox a) r = None"
    and "\<not> uf_closed b" "map_of (uf_imports b) (uf_next_import b) = None"
    and "bundle_ok \<lparr>bundle_roomId = r, bundle_messages = ms\<rparr>" "bundle_clean \<lparr>bundle_roomId = r, bundle_messages = ms\<rparr>"
  shows "\<exists>enc. run_events (uf_step deflate inflate) (map (UfPublish r) ms @ [UfExport r]) a
        = Some (a, map (\<lambda>_. UfPublished None) ms @ [UfExported (Inr enc)])
    \<and> uf_fromUrl api (url_toString api (url_set_hash api (uf_toFragment enc) u)) = Inr (Some enc)
    \<and> run_events (uf_step deflate inflate) [UfImport enc, UfDecoded (uf_next_import b)] b
        = Some (b\<lparr>uf_next_import := Suc (uf_next_import b)\<rparr>, uf_deliver (uf_listeners b r) ms
            @ [UfImported (uf_next_import b) (Inr (r, if uf_listeners b r = [] then 0 else length ms))])"
proof -
  let ?a = "a\<lparr>uf_outbox := al_set r ms (uf_outbox a)\<rparr>"
  have ms: "ms \<noteq> []" using assms(7) by (simp add: bundle_ok_def)
  obtain enc where enc: "uf_exportBundle deflate r ?a = (?a\<lparr>uf_outbox := al_del r (uf_outbox ?a)\<rparr>, Inr enc)"
      "set enc \<subseteq> set B64_ALPHABET" "enc \<noteq> []"
      "decodeSignalingBundle inflate enc = Inr \<lparr>bundle_roomId = r, bundle_messages = ms\<rparr>"
    using export_published [OF assms(1) _ _ assms(7,8), of ?a] assms(3) by auto
  have "al_del r (al_set r ms (uf_outbox a)) = uf_outbox a"
    using assms(4) al_del_absent [OF assms(4)]
    by (subst al_set_fresh) (simp_all add: map_of_eq_None_iff al_del_def)
  then have "run_events (uf_step deflate inflate) (map (UfPublish r) ms @ [UfExport r]) a
        = Some (a, map (\<lambda>_. UfPublished None) ms @ [UfExported (Inr enc)])"
    using publish_all [OF assms(3), of deflate inflate r ms] ms assms(4) enc(1) by (simp add: run_events_append)
  then show ?thesis
    using fragment_of_url [OF assms(2) enc(2,3), of u] import_decoded [OF assms(5) enc(4) assms(6)] by auto
qed

text \<open>An export that cannot be encoded has emptied the outbox all the same.\<close>

lemma failed_export_loses:
  assumes "\<not> uf_closed st" "map_of (uf_outbox st) r = Some ms" "ms \<noteq> []" "\<not> isRoomId (Str r)"
  shows "\<not> is_ok (snd (uf_exportBundle deflate r st)) \<and> map_of (uf_outbox (fst (uf_exportBundle deflate r st))) r = None"
proof -
  have "validateSignalingBundle (bundle_val \<lparr>bundle_roomId = r, bundle_messages = ms\<rparr>) \<noteq> Inr b" for b
    using assms(4) by (auto simp: validateSignalingBundle_def bundle_val_def bundle_asObject_def as_object_def
        split: option.splits)
  then show ?thesis
    using assms by (auto simp: uf_exportBundle_def encodeSignalingBundle_def is_ok_def split: sum.splits)
qed

end
