(* ===== verification/Nostr_V2.thy ===== *)
theory Nostr_V2
  imports Bundle Web_Platform
begin

text \<open>
  The optional encrypted content of the Nostr adapter (\<open>packages/signaling-nostr/src/v2.ts\<close>): the key of a
  room, the sentinel in front of the JSON text, the three outcomes of reading a content field, and the
  known-answer test. The cipher (\<open>nostr-tools/nip44\<close>) and HKDF (WebCrypto) are not code of the
  repository: they are the fields of \<open>nip44\<close>, and what the code relies on is \<open>nip44_ok\<close>.
\<close>

record nip44 =
  nip_encrypt :: "jsstring \<Rightarrow> bytes \<Rightarrow> bytes \<Rightarrow> err + jsstring"
  nip_decrypt :: "jsval \<Rightarrow> bytes \<Rightarrow> err + jsstring"
  nip_hkdf :: "bytes \<Rightarrow> bytes \<Rightarrow> bytes \<Rightarrow> nat \<Rightarrow> err + bytes"

text \<open>
  Text of the lengths NIP-44 pads (1 to 65535 bytes of UTF-8, no lone surrogate) is encrypted under any
  32-byte key and 32-byte nonce and comes back; HKDF gives the bits it is asked for.
\<close>

definition nip44_text :: "jsstring \<Rightarrow> bool" where
  "nip44_text s = (s \<noteq> [] \<and> well_formed s \<and> length (utf8_encode s) \<le> 65535)"

definition nip44_ok :: "nip44 \<Rightarrow> bool" where
  "nip44_ok C =
     ((\<forall>s key nonce. nip44_text s \<and> length key = 32 \<and> length nonce = 32 \<longrightarrow>
        (\<exists>c. nip_encrypt C s key nonce = Inr c \<and> nip_decrypt C (Str c) key = Inr s))
      \<and> (\<forall>salt info ikm bits out. nip_hkdf C salt info ikm bits = Inr out \<longrightarrow> 8 * length out = bits))"

definition V2_SENTINEL :: jsstring where "V2_SENTINEL = js ''nv44''"
definition HKDF_SALT :: bytes where "HKDF_SALT = utf8_encode (js ''senn-nip44-v1'')"
definition HKDF_INFO :: bytes where "HKDF_INFO = utf8_encode (js ''senn:nostr-signaling:v2'')"
definition HKDF_LENGTH_BITS :: nat where "HKDF_LENGTH_BITS = 32 * 8"

definition deriveRoomKey :: "nip44 \<Rightarrow> jsstring \<Rightarrow> err + bytes" where
  "deriveRoomKey C roomId = nip_hkdf C HKDF_SALT HKDF_INFO (utf8_encode roomId) HKDF_LENGTH_BITS"

definition pinKeyLength :: "bytes \<Rightarrow> err + unit" where
  "pinKeyLength key =
     (if length key \<noteq> 32 then Inl (Thrown ''Error'' ''senn: NIP-44 v2 conversationKey MUST be 32 bytes, got '')
      else Inr ())"

definition encryptV2 :: "nip44 \<Rightarrow> sig_message \<Rightarrow> bytes \<Rightarrow> bytes \<Rightarrow> err + jsstring" where
  "encryptV2 C message roomKey nonce =
     then_ok (pinKeyLength roomKey) (\<lambda>_.
     then_ok (of_option (Thrown ''TypeError'' []) (json_str (msg_val message))) (\<lambda>json.
     nip_encrypt C (V2_SENTINEL @ json) roomKey nonce))"

datatype v2_result = V2Message jsval | V2NoSentinel | V2DecryptFail

definition tryDecryptV2 :: "nip44 \<Rightarrow> jsval \<Rightarrow> bytes \<Rightarrow> err + v2_result" where
  "tryDecryptV2 C content roomKey =
     then_ok (pinKeyLength roomKey) (\<lambda>_.
     (case nip_decrypt C content roomKey of
        Inl _ \<Rightarrow> Inr V2DecryptFail
      | Inr plaintext \<Rightarrow>
          if \<not> startsWith plaintext V2_SENTINEL then Inr V2NoSentinel
          else (case json_parse (drop (length (utf8_encode V2_SENTINEL)) plaintext) of
              None \<Rightarrow> Inr V2NoSentinel
            | Some message \<Rightarrow> Inr (V2Message message))))"

subsection \<open>The known-answer test\<close>

text \<open>\<open>Number.parseInt(s, 16)\<close>: white space, a sign, \<open>0x\<close>, then the longest run of digits; \<open>None\<close> is \<open>NaN\<close>.\<close>

definition js_white :: "jschar \<Rightarrow> bool" where
  "js_white u = (unat u \<in> {9, 10, 11, 12, 13, 32, 0xA0, 0x1680, 0x2028, 0x2029, 0x202F, 0x205F, 0x3000, 0xFEFF}
     \<or> (0x2000 \<le> unat u \<and> unat u \<le> 0x200A))"

definition parse_sign :: "jsstring \<Rightarrow> int \<times> jsstring" where
  "parse_sign s =
     (case s of
        [] \<Rightarrow> (1, [])
      | u # t \<Rightarrow> if u = ch CHR ''-'' then (- 1, t) else if u = ch CHR ''+'' then (1, t) else (1, s))"

definition parseInt16 :: "jsstring \<Rightarrow> int option" where
  "parseInt16 s =
     (let (sgn, t) = parse_sign (dropWhile js_white s);
          t' = (if take 2 t \<in> {js ''0x'', js ''0X''} then drop 2 t else t);
          ds = map (the \<circ> unhex) (takeWhile (\<lambda>u. unhex u \<noteq> None) t') in
      if ds = [] then None else Some (sgn * int (fold (\<lambda>d n. 16 * n + d) ds 0)))"

fun hex_bytes :: "jsstring \<Rightarrow> bytes option" where
  "hex_bytes (a # b # s) =
     (case parseInt16 [a, b] of
        None \<Rightarrow> None
      | Some byte \<Rightarrow> map_option ((#) (word_of_int byte)) (hex_bytes s))"
| "hex_bytes _ = Some []"

definition hexToBytes :: "jsstring \<Rightarrow> err + bytes" where
  "hexToBytes hex =
     (if length hex mod 2 \<noteq> 0 then Inl (Thrown ''Error'' ''senn: invalid hex string (odd length): '')
      else of_option (Thrown ''Error'' ''senn: invalid hex byte at offset '') (hex_bytes hex))"

record kat_fixture =
  kat_plaintext :: jsstring
  kat_conversationKey :: jsstring
  kat_nonce :: jsstring
  kat_ciphertext :: jsstring

definition KAT_FIXTURE :: kat_fixture where
  "KAT_FIXTURE = \<lparr>
     kat_plaintext = js ''nv44{\"type\":\"hello\",\"v\":1}'',
     kat_conversationKey = js ''0102030405060708090a0b0c0d0e0f101112131415161718191a1b1c1d1e1f20'',
     kat_nonce = js ''a1a2a3a4a5a6a7a8a9aaabacadaeafb0b1b2b3b4b5b6b7b8b9babbbcbdbebfc0'',
     kat_ciphertext = js ''AqGio6SlpqeoqaqrrK2ur7CxsrO0tba3uLm6u7y9vr/Am8/2vbzK7d4WM+waqrzDTerdBF3QWa7QdM+Wjjb96+kFmpC96RH+1hUWR12jV/MM3/t9VPGWuctsF6hvX4lS6P9b'' \<rparr>"

definition KAT_FAILED :: err where
  "KAT_FAILED = Thrown ''Error'' ''senn: NIP-44 v2 KAT failed''"

definition loadKATFixture :: kat_fixture where
  "loadKATFixture = KAT_FIXTURE"

definition runConstructionTimeKAT :: "nip44 \<Rightarrow> err + unit" where
  "runConstructionTimeKAT C =
     (let fixture = loadKATFixture in
      then_ok (hexToBytes (kat_conversationKey fixture)) (\<lambda>conversationKey.
      then_ok (hexToBytes (kat_nonce fixture)) (\<lambda>nonce.
      then_ok (pinKeyLength conversationKey) (\<lambda>_.
      then_ok (nip_encrypt C (kat_plaintext fixture) conversationKey nonce) (\<lambda>observedCiphertext.
        if observedCiphertext \<noteq> kat_ciphertext fixture then Inl KAT_FAILED
        else then_ok (nip_decrypt C (Str (kat_ciphertext fixture)) conversationKey) (\<lambda>observedPlaintext.
          if observedPlaintext \<noteq> kat_plaintext fixture then Inl KAT_FAILED else Inr ()))))))"

subsection \<open>Correctness\<close>

lemma V2_SENTINEL_bytes: "length (utf8_encode V2_SENTINEL) = 4" "length V2_SENTINEL = 4"
proof -
  have "\<forall>u\<in>set V2_SENTINEL. unat u < 128" by (simp add: V2_SENTINEL_def js_def)
  then show "length (utf8_encode V2_SENTINEL) = 4"
    using utf8_encode_ascii [of V2_SENTINEL] by (simp add: V2_SENTINEL_def)
qed (simp add: V2_SENTINEL_def)

lemma startsWith_append [simp]: "startsWith (p @ s) p"
  by (simp add: startsWith_def)

text \<open>What is encrypted is read back; the message may be any that JSON keeps.\<close>

lemma tryDecryptV2_encryptV2:
  assumes "nip44_ok C" "length key = 32" "length nonce = 32"
    and "json_clean (msg_val m)" "json_str (msg_val m) = Some json" "nip44_text (V2_SENTINEL @ json)"
  shows "\<exists>c. encryptV2 C m key nonce = Inr c \<and> tryDecryptV2 C (Str c) key = Inr (V2Message (msg_val m))"
proof -
  obtain c where c: "nip_encrypt C (V2_SENTINEL @ json) key nonce = Inr c"
      "nip_decrypt C (Str c) key = Inr (V2_SENTINEL @ json)"
    using assms(1-3,6) unfolding nip44_ok_def by blast
  have "json_parse json = Some (msg_val m)" by (rule json_parse_str [OF assms(4,5)])
  then show ?thesis
    using c assms(2,5) by (simp add: encryptV2_def tryDecryptV2_def pinKeyLength_def V2_SENTINEL_bytes)
qed

text \<open>When a content field counts as a message: it decrypts, to the sentinel and JSON.\<close>

lemma tryDecryptV2_message:
  "tryDecryptV2 C content key = Inr (V2Message v) \<longleftrightarrow>
     length key = 32 \<and> (\<exists>json. nip_decrypt C content key = Inr (V2_SENTINEL @ json) \<and> json_parse json = Some v)"
proof -
  have s: "startsWith s V2_SENTINEL \<longleftrightarrow> (\<exists>json. s = V2_SENTINEL @ json)" for s
    unfolding startsWith_def by (metis append_eq_conv_conj append_take_drop_id)
  show ?thesis
    by (auto simp: tryDecryptV2_def pinKeyLength_def then_ok_Inr s V2_SENTINEL_bytes split: sum.splits option.splits)
qed

lemma tryDecryptV2_fail:
  "tryDecryptV2 C content key = Inr V2DecryptFail \<longleftrightarrow> length key = 32 \<and> \<not> is_ok (nip_decrypt C content key)"
  by (auto simp: tryDecryptV2_def pinKeyLength_def then_ok_Inr is_ok_def split: sum.splits option.splits)

lemma tryDecryptV2_total: "length key = 32 \<Longrightarrow> is_ok (tryDecryptV2 C content key)"
  by (simp add: tryDecryptV2_def pinKeyLength_def is_ok_def split: sum.splits option.splits)

lemma hex_bytes_length: "hex_bytes s = Some bs \<Longrightarrow> length bs = length s div 2"
  by (induction s arbitrary: bs rule: hex_bytes.induct) (auto split: option.splits)

lemma hexToBytes_length: "hexToBytes s = Inr bs \<Longrightarrow> length s = 2 * length bs"
  using hex_bytes_length [of s bs] by (auto simp: hexToBytes_def split: if_splits)

definition KAT_KEY :: bytes where
  "KAT_KEY = map word_of_nat [1..<33]"

definition KAT_NONCE :: bytes where
  "KAT_NONCE = map word_of_nat [0xA1..<0xC1]"

definition hex2 :: "byte \<Rightarrow> jsstring" where
  "hex2 b = [dig (unat b div 16), dig (unat b mod 16)]"

lemma unhex_digit: "n < 16 \<Longrightarrow> unhex (dig n) = Some n \<and> \<not> js_white (dig n)
    \<and> dig n \<noteq> ch CHR ''-'' \<and> dig n \<noteq> ch CHR ''+'' \<and> dig n \<noteq> ch CHR ''x'' \<and> dig n \<noteq> ch CHR ''X''"
  using unat_dig [of n] by (auto simp: unhex_def js_white_def word_unat_eq_iff)

lemma parseInt16_hex2: "parseInt16 (hex2 b) = Some (int (unat b))"
proof -
  have n: "unat b div 16 < 16" "unat b mod 16 < 16" using unsigned_less [of b, where ?'a = nat] by auto
  have "16 * (unat b div 16) + unat b mod 16 = unat b" by simp
  then show ?thesis
    using unhex_digit [OF n(1)] unhex_digit [OF n(2)]
    by (simp add: parseInt16_def hex2_def parse_sign_def js_Cons Let_def flip: of_nat_mult of_nat_add)
qed

lemma hexToBytes_hex: "hexToBytes (concat (map hex2 bs)) = Inr bs"
proof -
  have len: "length (concat (map hex2 bs)) = 2 * length bs" by (induction bs) (simp_all add: hex2_def)
  have "hex_bytes (hex2 b @ s) = map_option ((#) b) (hex_bytes s)" for b s
    using parseInt16_hex2 [of b] by (simp add: hex2_def)
  then have "hex_bytes (concat (map hex2 bs)) = Some bs" by (induction bs) simp_all
  with len show ?thesis by (simp add: hexToBytes_def)
qed

lemma KAT_hex:
  "hexToBytes (kat_conversationKey KAT_FIXTURE) = Inr KAT_KEY"
  "hexToBytes (kat_nonce KAT_FIXTURE) = Inr KAT_NONCE"
proof -
  have "kat_conversationKey KAT_FIXTURE = concat (map hex2 KAT_KEY)"
    by (simp add: KAT_FIXTURE_def KAT_KEY_def upt_rec hex2_def dig_def unat_of_nat js_def ch_def)
  then show "hexToBytes (kat_conversationKey KAT_FIXTURE) = Inr KAT_KEY" by (simp only: hexToBytes_hex)
  have "kat_nonce KAT_FIXTURE = concat (map hex2 KAT_NONCE)"
    by (simp add: KAT_FIXTURE_def KAT_NONCE_def upt_rec hex2_def dig_def unat_of_nat js_def ch_def)
  then show "hexToBytes (kat_nonce KAT_FIXTURE) = Inr KAT_NONCE" by (simp only: hexToBytes_hex)
qed

text \<open>The test passes exactly when the cipher maps the two fixed texts to each other.\<close>

lemma runConstructionTimeKAT_iff:
  "runConstructionTimeKAT C = Inr () \<longleftrightarrow>
     nip_encrypt C (kat_plaintext KAT_FIXTURE) KAT_KEY KAT_NONCE = Inr (kat_ciphertext KAT_FIXTURE)
     \<and> nip_decrypt C (Str (kat_ciphertext KAT_FIXTURE)) KAT_KEY = Inr (kat_plaintext KAT_FIXTURE)"
proof -
  have "length KAT_KEY = 32" by (simp add: KAT_KEY_def)
  then show ?thesis
    by (auto simp: runConstructionTimeKAT_def loadKATFixture_def KAT_hex pinKeyLength_def then_ok_Inr KAT_FAILED_def
        split: if_splits)
qed

end
