(* ===== verification/Nostr.thy ===== *)
theory Nostr
  imports Nostr_V2 Signaling_Transport
begin

text \<open>
  The Nostr signaling adapter (\<open>packages/signaling-nostr/src/index.ts\<close>). Every asynchronous function is a
  task that keeps its local variables and the place where it waits; the sockets, the key derivation,
  the known-answer test and the timers are the environment, whose moves are events. Objects that code
  holds by reference (sockets, room states) live in heaps indexed by the order of their creation.
  \<open>WebSocket\<close> is modelled after its standard: \<open>send\<close> throws while connecting and does nothing once
  closing; \<open>finalizeEvent\<close>, the URLs the constructor accepts and the cipher are parameters.
\<close>

subsection \<open>The environment\<close>

record nostr_env =
  ne_cipher :: nip44
  ne_finalize :: "jsfields \<Rightarrow> bytes \<Rightarrow> jsfields"
  ne_url_ok :: "jsstring \<Rightarrow> bool"

datatype ready_state = Connecting | Open | Closing | Closed

record ws =
  ws_url :: jsstring
  ws_ready :: ready_state
  ws_fired :: bool
  ws_gone :: bool

text \<open>The result of \<open>ensureSocket\<close>, or the event it waits for on a socket it found or made.\<close>

datatype ensure = EnsureDone "nat option" | EnsureExisting nat | EnsureCreated jsstring nat

subsection \<open>The adapter's state\<close>

record nostr_room =
  nr_handlers :: "handler list"
  nr_subId :: jsstring
  nr_delivered :: "jsval list"

datatype pub_phase =
    PubInit
  | PubKey
  | PubContent jsstring
  | PubSocket jsstring "jsstring list" ensure
  | PubAck
  | PubOver

record publication =
  pb_room :: jsstring
  pb_message :: sig_message
  pb_phase :: pub_phase
  pb_id :: jsstring
  pb_frame :: jsstring
  pb_relayCount :: nat
  pb_finalized :: bool
  pb_lastNack :: "jsstring option"
  pb_settled :: bool
  pb_nacked :: nat
  pb_timer :: bool
  pb_outcome :: "err option option"

record open_req =
  rq_room :: jsstring
  rq_ref :: nat
  rq_wait :: "(jsstring list \<times> ensure) option"

datatype decode_phase = DecInit | DecKey | DecResult "jsval option" | DecOver

text \<open>\<open>dc_id\<close> is the id of the event, which the code does not keep: specifications speak of it.\<close>

record decoding =
  dc_room :: jsstring
  dc_ref :: nat
  dc_id :: jsval
  dc_content :: jsval
  dc_phase :: decode_phase

record nostr =
  ns_relays :: "jsstring list"
  ns_sockets :: "(jsstring \<times> nat) list"
  ns_rooms :: "(jsstring \<times> nat) list"
  ns_closed :: bool
  ns_subCounter :: nat
  ns_pendingAcks :: "(jsstring \<times> nat) list"
  ns_v2 :: bool
  ns_init :: "(err + unit) option"
  ns_katError :: "err option"
  ns_roomKeys :: "(jsstring \<times> (err + bytes) option) list"
  ns_ws :: "ws list"
  ns_states :: "nostr_room list"
  ns_pubs :: "publication list"
  ns_reqs :: "open_req list"
  ns_decodes :: "decoding list"

definition new_nostr :: "jsstring list \<Rightarrow> bool \<Rightarrow> bool \<Rightarrow> err + nostr" where
  "new_nostr relays hasWebSocket enableV2 =
     (if relays = [] then Inl (Thrown ''Error'' ''NostrSignaling: at least one relay URL is required'')
      else if \<not> hasWebSocket then Inl (Thrown ''Error'' ''NostrSignaling: no WebSocket constructor available'')
      else Inr \<lparr>ns_relays = relays, ns_sockets = [], ns_rooms = [], ns_closed = False, ns_subCounter = 0,
        ns_pendingAcks = [], ns_v2 = enableV2, ns_init = None, ns_katError = None, ns_roomKeys = [],
        ns_ws = [], ns_states = [], ns_pubs = [], ns_reqs = [], ns_decodes = []\<rparr>)"

datatype ns_out =
    NConstruct nat jsstring
  | NSend nat jsstring
  | NWsClose nat
  | NPublished nat "err option"
  | NUnhandled err
  | NCall nat handler jsval jsval

type_synonym ns_result = "nostr \<times> ns_out list"

definition nostr_closed :: err where
  "nostr_closed = Thrown ''NostrClosedError'' ''senn: nostr adapter closed''"

definition publish_error :: "string \<Rightarrow> err" where
  "publish_error why = Thrown ''NostrPublishError'' (''senn: nostr publish failed - '' @ why)"

definition SENN_NOSTR_KIND :: int where "SENN_NOSTR_KIND = 25556"

definition room_tag :: "jsstring \<Rightarrow> jsstring" where
  "room_tag roomId = js ''senn:'' @ roomId"

definition upd_ws :: "nat \<Rightarrow> (ws \<Rightarrow> ws) \<Rightarrow> nostr \<Rightarrow> nostr" where
  "upd_ws ref f st = st\<lparr>ns_ws := (ns_ws st)[ref := f (ns_ws st ! ref)]\<rparr>"

definition upd_room :: "nat \<Rightarrow> (nostr_room \<Rightarrow> nostr_room) \<Rightarrow> nostr \<Rightarrow> nostr" where
  "upd_room ref f st = st\<lparr>ns_states := (ns_states st)[ref := f (ns_states st ! ref)]\<rparr>"

definition upd_pub :: "nat \<Rightarrow> (publication \<Rightarrow> publication) \<Rightarrow> nostr \<Rightarrow> nostr" where
  "upd_pub n f st = st\<lparr>ns_pubs := (ns_pubs st)[n := f (ns_pubs st ! n)]\<rparr>"

definition upd_req :: "nat \<Rightarrow> (jsstring list \<times> ensure) option \<Rightarrow> nostr \<Rightarrow> nostr" where
  "upd_req q w st = st\<lparr>ns_reqs := (ns_reqs st)[q := (ns_reqs st ! q)\<lparr>rq_wait := w\<rparr>]\<rparr>"

definition upd_decode :: "nat \<Rightarrow> decode_phase \<Rightarrow> nostr \<Rightarrow> nostr" where
  "upd_decode d ph st = st\<lparr>ns_decodes := (ns_decodes st)[d := (ns_decodes st ! d)\<lparr>dc_phase := ph\<rparr>]\<rparr>"

subsection \<open>Sockets\<close>

text \<open>\<open>ws.send\<close>: whether it throws, and what goes out.\<close>

definition send_throws :: "nat \<Rightarrow> nostr \<Rightarrow> bool" where
  "send_throws ref st = (ws_ready (ns_ws st ! ref) = Connecting)"

definition ws_send :: "nat \<Rightarrow> jsstring \<Rightarrow> nostr \<Rightarrow> ns_out list" where
  "ws_send ref frame st = (if ws_ready (ns_ws st ! ref) = Open then [NSend ref frame] else [])"

definition ws_close :: "nat \<Rightarrow> nostr \<Rightarrow> nostr" where
  "ws_close ref st =
     upd_ws ref (\<lambda>w. if ws_ready w \<in> {Connecting, Open} then w\<lparr>ws_ready := Closing\<rparr> else w) st"

definition json_text :: "jsval \<Rightarrow> jsstring" where
  "json_text v = (case json_str v of None \<Rightarrow> [] | Some t \<Rightarrow> t)"

definition reqFrame :: "jsstring \<Rightarrow> jsstring \<Rightarrow> jsstring" where
  "reqFrame subId roomId = json_text (Arr [Str (js ''REQ''), Str subId,
     Obj [(js ''kinds'', Arr [jint SENN_NOSTR_KIND]), (js ''#t'', Arr [Str (room_tag roomId)])]])"

text \<open>\<open>ensureSocket\<close> up to its first \<open>await\<close> (an invalid URL makes the constructor throw, which every caller catches).\<close>

definition make_socket :: "nostr_env \<Rightarrow> jsstring \<Rightarrow> nostr \<Rightarrow> nostr \<times> ensure \<times> ns_out list" where
  "make_socket E url st =
     (if ne_url_ok E url
      then let ref = length (ns_ws st) in
        (st\<lparr>ns_ws := ns_ws st @ [\<lparr>ws_url = url, ws_ready = Connecting, ws_fired = False, ws_gone = False\<rparr>],
            ns_sockets := al_set url ref (ns_sockets st)\<rparr>, EnsureCreated url ref, [NConstruct ref url])
      else (st, EnsureDone None, []))"

definition ensureSocket :: "nostr_env \<Rightarrow> jsstring \<Rightarrow> nostr \<Rightarrow> nostr \<times> ensure \<times> ns_out list" where
  "ensureSocket E url st =
     (case map_of (ns_sockets st) url of
        None \<Rightarrow> make_socket E url st
      | Some ref \<Rightarrow>
          (case ws_ready (ns_ws st ! ref) of
             Open \<Rightarrow> (st, EnsureDone (Some ref), [])
           | Connecting \<Rightarrow> (st, EnsureExisting ref, [])
           | _ \<Rightarrow> make_socket E url st))"

text \<open>Whether the promise it waits for is settled, and the rest of the function.\<close>

fun ensure_ready :: "ensure \<Rightarrow> nostr \<Rightarrow> bool" where
  "ensure_ready (EnsureDone _) st = True"
| "ensure_ready (EnsureExisting ref) st = ws_fired (ns_ws st ! ref)"
| "ensure_ready (EnsureCreated _ ref) st = ws_fired (ns_ws st ! ref)"

definition resend_reqs :: "nat \<Rightarrow> nostr \<Rightarrow> ns_out list" where
  "resend_reqs ref st =
     concat (map (\<lambda>(roomId, r). ws_send ref (reqFrame (nr_subId (ns_states st ! r)) roomId) st) (ns_rooms st))"

fun ensure_finish :: "ensure \<Rightarrow> nostr \<Rightarrow> nostr \<times> nat option \<times> ns_out list" where
  "ensure_finish (EnsureDone r) st = (st, r, [])"
| "ensure_finish (EnsureExisting ref) st = (st, if ws_ready (ns_ws st ! ref) = Open then Some ref else None, [])"
| "ensure_finish (EnsureCreated url ref) st =
     (if ws_ready (ns_ws st ! ref) \<noteq> Open then (st\<lparr>ns_sockets := al_del url (ns_sockets st)\<rparr>, None, [])
      else (st, Some ref, resend_reqs ref st))"

subsection \<open>Publishing: the acknowledgement\<close>

text \<open>The closures over \<open>ackPromise\<close>: settling it, \<open>tryReject\<close>, \<open>finish\<close>, the timer.\<close>

definition pub_settle :: "nat \<Rightarrow> err option \<Rightarrow> nostr \<Rightarrow> nostr" where
  "pub_settle n outcome st =
     upd_pub n (\<lambda>p. p\<lparr>pb_settled := True, pb_timer := False, pb_outcome := Some outcome\<rparr>)
       (st\<lparr>ns_pendingAcks := al_del (pb_id (ns_pubs st ! n)) (ns_pendingAcks st)\<rparr>)"

definition tryReject :: "nat \<Rightarrow> nostr \<Rightarrow> nostr" where
  "tryReject n st =
     (let p = ns_pubs st ! n in
      if pb_settled p then st
      else if \<not> pb_finalized p \<or> pb_nacked p < pb_relayCount p then st
      else pub_settle n (Some (publish_error
        (case pb_lastNack p of None \<Rightarrow> ''all relays nacked'' | Some _ \<Rightarrow> ''''))) st)"

definition pub_finish :: "nat \<Rightarrow> bool \<Rightarrow> jsstring option \<Rightarrow> nostr \<Rightarrow> nostr" where
  "pub_finish n ok msg st =
     (if pb_settled (ns_pubs st ! n) then st
      else if ok then pub_settle n None st
      else tryReject n (upd_pub n (\<lambda>p. p\<lparr>pb_nacked := Suc (pb_nacked p),
        pb_lastNack := (case msg of None \<Rightarrow> pb_lastNack p | Some m \<Rightarrow> Some m)\<rparr>) st))"

text \<open>\<open>await ackPromise\<close>, once \<open>publish\<close> has come to it.\<close>

definition pub_report :: "nat \<Rightarrow> nostr \<Rightarrow> ns_result" where
  "pub_report n st =
     (case (pb_phase (ns_pubs st ! n), pb_outcome (ns_pubs st ! n)) of
        (PubAck, Some outcome) \<Rightarrow> (upd_pub n (\<lambda>p. p\<lparr>pb_phase := PubOver\<rparr>) st, [NPublished n outcome])
      | _ \<Rightarrow> (st, []))"

text \<open>
  The timer's callback. Before \<open>publish\<close> has come to its last \<open>await\<close> nothing handles the rejection.
\<close>

definition ack_timeout :: "nat \<Rightarrow> nostr \<Rightarrow> ns_result" where
  "ack_timeout n st =
     (let st1 = upd_pub n (\<lambda>p. p\<lparr>pb_timer := False\<rparr>) st in
      if pb_settled (ns_pubs st ! n) then (st1, [])
      else let st2 = pub_settle n (Some (publish_error ''ack timeout'')) st1 in
        (case pb_phase (ns_pubs st ! n) of
           PubAck \<Rightarrow> pub_report n st2
         | _ \<Rightarrow> (st2, [NUnhandled (publish_error ''ack timeout'')])))"

subsection \<open>Publishing: the relays\<close>

definition cancelAckTimeout :: "nat \<Rightarrow> nostr \<Rightarrow> nostr" where
  "cancelAckTimeout n st =
     (if pb_settled (ns_pubs st ! n) then st
      else upd_pub n (\<lambda>p. p\<lparr>pb_settled := True, pb_timer := False\<rparr>) st)"

definition pub_over :: "nat \<Rightarrow> err option \<Rightarrow> nostr \<Rightarrow> ns_result" where
  "pub_over n outcome st = (upd_pub n (\<lambda>p. p\<lparr>pb_phase := PubOver\<rparr>) st, [NPublished n outcome])"

text \<open>After the loop over the relays.\<close>

definition pub_loop_end :: "nat \<Rightarrow> nostr \<Rightarrow> ns_result" where
  "pub_loop_end n st =
     (if pb_relayCount (ns_pubs st ! n) = 0
      then let st1 = cancelAckTimeout n st in
        pub_over n (Some (publish_error ''no reachable relay''))
          (st1\<lparr>ns_pendingAcks := al_del (pb_id (ns_pubs st ! n)) (ns_pendingAcks st1)\<rparr>)
      else pub_report n (tryReject n (upd_pub n (\<lambda>p. p\<lparr>pb_finalized := True, pb_phase := PubAck\<rparr>) st)))"

definition pub_next :: "nostr_env \<Rightarrow> nat \<Rightarrow> jsstring list \<Rightarrow> nostr \<Rightarrow> ns_result" where
  "pub_next E n urls st =
     (case urls of
        [] \<Rightarrow> pub_loop_end n st
      | url # rest \<Rightarrow>
          (case ensureSocket E url st of
             (st1, en, os) \<Rightarrow> (upd_pub n (\<lambda>p. p\<lparr>pb_phase := PubSocket url rest en\<rparr>) st1, os)))"

text \<open>With the socket (or \<open>null\<close>): count it and send; a throwing \<open>send\<close> is a nack.\<close>

definition pub_send :: "nat \<Rightarrow> nat \<Rightarrow> nostr \<Rightarrow> ns_result" where
  "pub_send n ref st =
     (let st1 = upd_pub n (\<lambda>p. p\<lparr>pb_relayCount := Suc (pb_relayCount p)\<rparr>) st in
      if send_throws ref st1
      then (case map_of (ns_pendingAcks st1) (pb_id (ns_pubs st1 ! n)) of
          None \<Rightarrow> (st1, [])
        | Some n' \<Rightarrow> pub_report n' (pub_finish n' False (Some (js ''send failed'')) st1))
      else (st1, ws_send ref (pb_frame (ns_pubs st1 ! n)) st1))"

definition pub_socket :: "nostr_env \<Rightarrow> nat \<Rightarrow> jsstring list \<Rightarrow> nat option \<Rightarrow> nostr \<Rightarrow> ns_result" where
  "pub_socket E n rest got st =
     (case got of
        None \<Rightarrow> pub_next E n rest st
      | Some ref \<Rightarrow> (case pub_send n ref st of (st1, os) \<Rightarrow> apsnd (append os) (pub_next E n rest st1)))"

text \<open>From the content on: the event, the pending acknowledgement with its timer, the first relay.\<close>

definition event_template :: "jsstring \<Rightarrow> nat \<Rightarrow> jsstring \<Rightarrow> jsfields" where
  "event_template roomId now content =
     [(js ''kind'', jint SENN_NOSTR_KIND), (js ''created_at'', jint (int (now div 1000))),
      (js ''tags'', Arr [Arr [Str (js ''t''), Str (room_tag roomId)]]), (js ''content'', Str content)]"

definition pub_event :: "nostr_env \<Rightarrow> nat \<Rightarrow> nat \<Rightarrow> bytes \<Rightarrow> jsstring \<Rightarrow> nostr \<Rightarrow> ns_result" where
  "pub_event E n now rnd content st =
     (let event = ne_finalize E (event_template (pb_room (ns_pubs st ! n)) now content) rnd;
          eventId = str_of (fld event ''id'') in
      pub_next E n (ns_relays st)
        (upd_pub n (\<lambda>p. p\<lparr>pb_id := eventId, pb_frame := json_text (Arr [Str (js ''EVENT''), Obj event]), pb_timer := True\<rparr>)
          (st\<lparr>ns_pendingAcks := al_set eventId n (ns_pendingAcks st)\<rparr>)))"

subsection \<open>Content\<close>

definition getV2RoomKey :: "jsstring \<Rightarrow> nostr \<Rightarrow> nostr" where
  "getV2RoomKey roomId st =
     (if map_of (ns_roomKeys st) roomId = None then st\<lparr>ns_roomKeys := al_set roomId None (ns_roomKeys st)\<rparr> else st)"

text \<open>\<open>publish\<close> and \<open>encodeContent\<close> up to the first \<open>await\<close>.\<close>

definition ns_publish :: "jsstring \<Rightarrow> sig_message \<Rightarrow> nostr \<Rightarrow> ns_result" where
  "ns_publish roomId message st =
     (let n = length (ns_pubs st);
          pub = \<lparr>pb_room = roomId, pb_message = message, pb_phase = PubOver, pb_id = [], pb_frame = [], pb_relayCount = 0,
            pb_finalized = False, pb_lastNack = None, pb_settled = False, pb_nacked = 0, pb_timer = False, pb_outcome = None\<rparr>;
          enter = (\<lambda>ph. (st\<lparr>ns_pubs := ns_pubs st @ [pub\<lparr>pb_phase := ph\<rparr>]\<rparr>, []));
          reject = (\<lambda>e. (st\<lparr>ns_pubs := ns_pubs st @ [pub]\<rparr>, [NPublished n (Some e)])) in
      if ns_closed st then reject nostr_closed
      else if \<not> ns_v2 st then enter (PubContent (json_text (msg_val message)))
      else (case ns_katError st of Some e \<Rightarrow> reject e | None \<Rightarrow> enter PubInit))"

text \<open>A publication goes on; \<open>nonce\<close>, \<open>now\<close> and \<open>rnd\<close> are what the cipher, the clock and the signature draw.\<close>

definition resume_pub :: "nostr_env \<Rightarrow> nat \<Rightarrow> nat \<Rightarrow> bytes \<Rightarrow> bytes \<Rightarrow> nostr \<Rightarrow> ns_result option" where
  "resume_pub E n now rnd nonce st =
     (if length (ns_pubs st) \<le> n then None
      else let p = ns_pubs st ! n; goto = (\<lambda>ph st. upd_pub n (\<lambda>p. p\<lparr>pb_phase := ph\<rparr>) st) in
        (case pb_phase p of
           PubInit \<Rightarrow>
             (case ns_init st of
                None \<Rightarrow> None
              | Some (Inl e) \<Rightarrow> Some (pub_over n (Some e) st)
              | Some (Inr _) \<Rightarrow> Some (goto PubKey (getV2RoomKey (pb_room p) st), []))
         | PubKey \<Rightarrow>
             (case map_of (ns_roomKeys st) (pb_room p) of
                Some (Some (Inr key)) \<Rightarrow>
                  (case encryptV2 (ne_cipher E) (pb_message p) key nonce of
                     Inl e \<Rightarrow> Some (pub_over n (Some e) st)
                   | Inr content \<Rightarrow> Some (goto (PubContent content) st, []))
              | Some (Some (Inl e)) \<Rightarrow> Some (pub_over n (Some e) st)
              | _ \<Rightarrow> None)
         | PubContent content \<Rightarrow> Some (pub_event E n now rnd content st)
         | PubSocket url rest en \<Rightarrow>
             if \<not> ensure_ready en st then None
             else (case en of
                 EnsureDone got \<Rightarrow> Some (pub_socket E n rest got st)
               | _ \<Rightarrow> (case ensure_finish en st of
                     (st1, got, os) \<Rightarrow> Some (goto (PubSocket url rest (EnsureDone got)) st1, os)))
         | _ \<Rightarrow> None))"

subsection \<open>Subscribing and closing\<close>

definition newSubId :: "jsstring \<Rightarrow> nostr \<Rightarrow> nostr \<times> jsstring" where
  "newSubId roomId st =
     (let c = (ns_subCounter st + 1) mod 0xFFFFFF in
      (st\<lparr>ns_subCounter := c\<rparr>, js ''s_'' @ take 8 roomId @ js ''_'' @ radix_str 36 c))"

definition closeReqOnAll :: "jsstring \<Rightarrow> nostr \<Rightarrow> ns_out list" where
  "closeReqOnAll subId st =
     concat (map (\<lambda>(url, ref). ws_send ref (json_text (Arr [Str (js ''CLOSE''), Str subId])) st) (ns_sockets st))"

text \<open>\<open>openReqOnAll\<close>: the next relay, and what it does with the socket.\<close>

definition req_next :: "nostr_env \<Rightarrow> nat \<Rightarrow> jsstring list \<Rightarrow> nostr \<Rightarrow> ns_result" where
  "req_next E q urls st =
     (case urls of
        [] \<Rightarrow> (upd_req q None st, [])
      | url # rest \<Rightarrow> (case ensureSocket E url st of (st1, en, os) \<Rightarrow> (upd_req q (Some (rest, en)) st1, os)))"

definition req_send :: "nat \<Rightarrow> nat \<Rightarrow> nostr \<Rightarrow> ns_out list" where
  "req_send q ref st =
     (let rq = ns_reqs st ! q in
      ws_send ref (reqFrame (nr_subId (ns_states st ! rq_ref rq)) (rq_room rq)) st)"

definition resume_req :: "nostr_env \<Rightarrow> nat \<Rightarrow> nostr \<Rightarrow> ns_result option" where
  "resume_req E q st =
     (if length (ns_reqs st) \<le> q then None
      else (case rq_wait (ns_reqs st ! q) of
          None \<Rightarrow> None
        | Some (rest, en) \<Rightarrow>
            if \<not> ensure_ready en st then None
            else (case en of
                EnsureDone None \<Rightarrow> Some (req_next E q rest st)
              | EnsureDone (Some ref) \<Rightarrow> Some (apsnd (append (req_send q ref st)) (req_next E q rest st))
              | _ \<Rightarrow> (case ensure_finish en st of
                    (st1, got, os) \<Rightarrow> Some (upd_req q (Some (rest, EnsureDone got)) st1, os)))))"

definition ns_start_room :: "nostr_env \<Rightarrow> jsstring \<Rightarrow> nostr \<Rightarrow> ns_result" where
  "ns_start_room E roomId st =
     (let ref = length (ns_states st); q = length (ns_reqs st); (st1, subId) = newSubId roomId st in
      req_next E q (ns_relays st)
        (st1\<lparr>ns_states := ns_states st1 @ [\<lparr>nr_handlers = [], nr_subId = subId, nr_delivered = []\<rparr>],
             ns_rooms := al_set roomId ref (ns_rooms st1),
             ns_reqs := ns_reqs st1 @ [\<lparr>rq_room = roomId, rq_ref = ref, rq_wait = None\<rparr>]\<rparr>))"

text \<open>\<open>None\<close> is a throw: the adapter is closed, or the known-answer test has failed.\<close>

definition ns_subscribe :: "nostr_env \<Rightarrow> jsstring \<Rightarrow> handler \<Rightarrow> nostr \<Rightarrow> ns_result option" where
  "ns_subscribe E roomId handler st =
     (if ns_closed st \<or> ns_katError st \<noteq> None then None
      else let st0 = (if ns_v2 st then getV2RoomKey roomId st else st);
          (st1, os) = (case map_of (ns_rooms st0) roomId of
              Some _ \<Rightarrow> (st0, [])
            | None \<Rightarrow> ns_start_room E roomId st0) in
        Some (upd_room (the (map_of (ns_rooms st1) roomId)) (\<lambda>r. r\<lparr>nr_handlers := set_add handler (nr_handlers r)\<rparr>) st1, os))"

definition ns_unsubscribe :: "jsstring \<Rightarrow> handler \<Rightarrow> nostr \<Rightarrow> ns_result" where
  "ns_unsubscribe roomId handler st =
     (case map_of (ns_rooms st) roomId of
        None \<Rightarrow> (st, [])
      | Some ref \<Rightarrow>
          let st1 = upd_room ref (\<lambda>r. r\<lparr>nr_handlers := set_delete handler (nr_handlers r)\<rparr>) st in
          if nr_handlers (ns_states st1 ! ref) = []
          then (st1\<lparr>ns_rooms := al_del roomId (ns_rooms st1)\<rparr>, closeReqOnAll (nr_subId (ns_states st1 ! ref)) st1)
          else (st1, []))"

definition ns_close :: "nostr \<Rightarrow> ns_result" where
  "ns_close st =
     (if ns_closed st then (st, [])
      else ((fold ws_close (map snd (ns_sockets st)) (st\<lparr>ns_closed := True, ns_rooms := []\<rparr>))\<lparr>ns_sockets := []\<rparr>,
        concat (map (\<lambda>(roomId, ref). closeReqOnAll (nr_subId (ns_states st ! ref)) st) (ns_rooms st))
        @ map (\<lambda>(url, ref). NWsClose ref) (ns_sockets st)))"

subsection \<open>Receiving\<close>

text \<open>\<open>decodeAndDispatch\<close> and \<open>decodeContent\<close> up to the first \<open>await\<close>.\<close>

definition plain_content :: "jsval \<Rightarrow> jsval option" where
  "plain_content content = json_parse (js_String content)"

definition decode_start :: "jsval \<Rightarrow> nostr \<Rightarrow> decode_phase" where
  "decode_start content st =
     (if \<not> ns_v2 st then DecResult (plain_content content)
      else (case ns_katError st of Some _ \<Rightarrow> DecResult None | None \<Rightarrow> DecInit))"

definition handleEvent :: "jsstring \<Rightarrow> jsfields \<Rightarrow> nostr \<Rightarrow> nostr" where
  "handleEvent subId event st =
     (if fld event ''kind'' \<noteq> jint SENN_NOSTR_KIND then st
      else (case find (\<lambda>(roomId, ref). nr_subId (ns_states st ! ref) = subId) (ns_rooms st) of
          None \<Rightarrow> st
        | Some (roomId, ref) \<Rightarrow>
            if list_ex (same_value (fld event ''id'')) (nr_delivered (ns_states st ! ref)) then st
            else upd_room ref (\<lambda>r. r\<lparr>nr_delivered := nr_delivered r @ [fld event ''id'']\<rparr>) st
              \<lparr>ns_decodes := ns_decodes st @ [\<lparr>dc_room = roomId, dc_ref = ref, dc_id = fld event ''id'',
                dc_content = fld event ''content'', dc_phase = decode_start (fld event ''content'') st\<rparr>]\<rparr>))"

definition item_at :: "jsval list \<Rightarrow> nat \<Rightarrow> jsval" where
  "item_at vs i = (if i < length vs then vs ! i else Undef)"

definition onRelayMessage :: "jsstring \<Rightarrow> nostr \<Rightarrow> ns_result" where
  "onRelayMessage text st =
     (case json_parse text of
        Some (Arr frame) \<Rightarrow>
          if item_at frame 0 = Str (js ''EVENT'') then
            (case item_at frame 1 of
               Str subId \<Rightarrow>
                 if is_objecty (item_at frame 2) then (handleEvent subId (own_fields (item_at frame 2)) st, []) else (st, [])
             | _ \<Rightarrow> (st, []))
          else if item_at frame 0 = Str (js ''OK'') then
            (case item_at frame 1 of
               Str eventId \<Rightarrow>
                 (case map_of (ns_pendingAcks st) eventId of
                    None \<Rightarrow> (st, [])
                  | Some n \<Rightarrow> pub_report n (pub_finish n (truthy (item_at frame 2))
                      (if is_str (item_at frame 3) then Some (str_of (item_at frame 3)) else None) st))
             | _ \<Rightarrow> (st, []))
          else (st, [])
      | _ \<Rightarrow> (st, []))"

text \<open>The rest of \<open>decodeAndDispatch\<close>: \<open>null\<close> is discarded, and so is every other value that counts as false.\<close>

definition dispatch :: "decoding \<Rightarrow> jsval option \<Rightarrow> nostr \<Rightarrow> ns_out list" where
  "dispatch t res st =
     (case res of
        None \<Rightarrow> []
      | Some v \<Rightarrow>
          if truthy v then map (\<lambda>h. NCall (dc_ref t) h (dc_id t) v) (nr_handlers (ns_states st ! dc_ref t)) else [])"

text \<open>A decoding goes on; an exception in it is an unhandled rejection.\<close>

definition resume_decode :: "nostr_env \<Rightarrow> nat \<Rightarrow> nostr \<Rightarrow> ns_result option" where
  "resume_decode E d st =
     (if length (ns_decodes st) \<le> d then None
      else let t = ns_decodes st ! d in
        (case dc_phase t of
           DecInit \<Rightarrow>
             (case ns_init st of
                None \<Rightarrow> None
              | Some (Inl _) \<Rightarrow> Some (upd_decode d (DecResult None) st, [])
              | Some (Inr _) \<Rightarrow> Some (upd_decode d DecKey (getV2RoomKey (dc_room t) st), []))
         | DecKey \<Rightarrow>
             (case map_of (ns_roomKeys st) (dc_room t) of
                Some (Some (Inr key)) \<Rightarrow>
                  (case tryDecryptV2 (ne_cipher E) (dc_content t) key of
                     Inl e \<Rightarrow> Some (upd_decode d DecOver st, [NUnhandled e])
                   | Inr (V2Message v) \<Rightarrow> Some (upd_decode d (DecResult (Some v)) st, [])
                   | Inr V2NoSentinel \<Rightarrow> Some (upd_decode d (DecResult None) st, [])
                   | Inr V2DecryptFail \<Rightarrow> Some (upd_decode d (DecResult (plain_content (dc_content t))) st, []))
              | Some (Some (Inl e)) \<Rightarrow> Some (upd_decode d DecOver st, [NUnhandled e])
              | _ \<Rightarrow> None)
         | DecResult res \<Rightarrow> Some (upd_decode d DecOver st, dispatch t res st)
         | DecOver \<Rightarrow> None))"

subsection \<open>One event\<close>

datatype ns_event =
    NsPublish jsstring sig_message
  | NsSubscribe jsstring handler
  | NsUnsubscribe jsstring handler
  | NsClose
  | NsResumePub nat nat bytes bytes
  | NsResumeReq nat
  | NsResumeDecode nat
  | NsAckTimeout nat
  | NsKatDone
  | NsKeyDerived jsstring
  | NsOpened nat
  | NsErrored nat
  | NsClosed nat
  | NsMessage nat jsstring

text \<open>The known-answer test ends; its failure is latched before anything that awaits it goes on.\<close>

definition kat_done :: "nostr_env \<Rightarrow> nostr \<Rightarrow> nostr option" where
  "kat_done E st =
     (if ns_v2 st \<and> ns_init st = None
      then let res = runConstructionTimeKAT (ne_cipher E) in
        Some (st\<lparr>ns_init := Some res, ns_katError := (case res of Inl e \<Rightarrow> Some e | Inr _ \<Rightarrow> ns_katError st)\<rparr>)
      else None)"

definition key_derived :: "nostr_env \<Rightarrow> jsstring \<Rightarrow> nostr \<Rightarrow> nostr option" where
  "key_derived E roomId st =
     (if map_of (ns_roomKeys st) roomId = Some None
      then Some (st\<lparr>ns_roomKeys := al_set roomId (Some (deriveRoomKey (ne_cipher E) roomId)) (ns_roomKeys st)\<rparr>)
      else None)"

text \<open>The listeners of a socket's \<open>open\<close>, \<open>error\<close> and \<open>close\<close> events.\<close>

definition ws_opened :: "nat \<Rightarrow> nostr \<Rightarrow> nostr option" where
  "ws_opened ref st =
     (if ref < length (ns_ws st) \<and> ws_ready (ns_ws st ! ref) = Connecting
      then Some (upd_ws ref (\<lambda>w. w\<lparr>ws_ready := Open, ws_fired := True\<rparr>) st) else None)"

definition ws_errored :: "nat \<Rightarrow> nostr \<Rightarrow> nostr option" where
  "ws_errored ref st =
     (if ref < length (ns_ws st) \<and> \<not> ws_gone (ns_ws st ! ref)
      then Some (upd_ws ref (\<lambda>w. w\<lparr>ws_ready := Closed, ws_fired := True\<rparr>) st) else None)"

definition ws_closed :: "nat \<Rightarrow> nostr \<Rightarrow> nostr option" where
  "ws_closed ref st =
     (if ref < length (ns_ws st) \<and> \<not> ws_gone (ns_ws st ! ref)
      then let url = ws_url (ns_ws st ! ref);
          st1 = upd_ws ref (\<lambda>w. w\<lparr>ws_ready := Closed, ws_fired := True, ws_gone := True\<rparr>) st in
        Some (if map_of (ns_sockets st) url = Some ref then st1\<lparr>ns_sockets := al_del url (ns_sockets st)\<rparr> else st1)
      else None)"

fun ns_step :: "nostr_env \<Rightarrow> ns_event \<Rightarrow> nostr \<Rightarrow> ns_result option" where
  "ns_step E (NsPublish r m) st = Some (ns_publish r m st)"
| "ns_step E (NsSubscribe r h) st = ns_subscribe E r h st"
| "ns_step E (NsUnsubscribe r h) st = Some (ns_unsubscribe r h st)"
| "ns_step E NsClose st = Some (ns_close st)"
| "ns_step E (NsResumePub n now rnd nonce) st = resume_pub E n now rnd nonce st"
| "ns_step E (NsResumeReq q) st = resume_req E q st"
| "ns_step E (NsResumeDecode d) st = resume_decode E d st"
| "ns_step E (NsAckTimeout n) st =
     (if n < length (ns_pubs st) \<and> pb_timer (ns_pubs st ! n) then Some (ack_timeout n st) else None)"
| "ns_step E NsKatDone st = map_option (\<lambda>st'. (st', [])) (kat_done E st)"
| "ns_step E (NsKeyDerived r) st = map_option (\<lambda>st'. (st', [])) (key_derived E r st)"
| "ns_step E (NsOpened ref) st = map_option (\<lambda>st'. (st', [])) (ws_opened ref st)"
| "ns_step E (NsErrored ref) st = map_option (\<lambda>st'. (st', [])) (ws_errored ref st)"
| "ns_step E (NsClosed ref) st = map_option (\<lambda>st'. (st', [])) (ws_closed ref st)"
| "ns_step E (NsMessage ref text) st =
     (if ref < length (ns_ws st) \<and> ws_ready (ns_ws st ! ref) = Open then Some (onRelayMessage text st) else None)"

end
