(* ===== verification/Nostr_Props.thy ===== *)
theory Nostr_Props
  imports Nostr
begin

text \<open>
  Correctness of the Nostr adapter: the table of subscriptions, the outcome of a publication, every
  event at most once, no downgrade to plain text once encryption is on, and delivery from one
  adapter's \<open>publish\<close> to the handlers of another.
\<close>

subsection \<open>The updates\<close>

lemma upd_ws_simps [simp]:
  "ns_relays (upd_ws ref f st) = ns_relays st" "ns_sockets (upd_ws ref f st) = ns_sockets st"
  "ns_rooms (upd_ws ref f st) = ns_rooms st" "ns_closed (upd_ws ref f st) = ns_closed st"
  "ns_pendingAcks (upd_ws ref f st) = ns_pendingAcks st" "ns_v2 (upd_ws ref f st) = ns_v2 st"
  "ns_init (upd_ws ref f st) = ns_init st" "ns_katError (upd_ws ref f st) = ns_katError st"
  "ns_roomKeys (upd_ws ref f st) = ns_roomKeys st" "ns_states (upd_ws ref f st) = ns_states st"
  "ns_pubs (upd_ws ref f st) = ns_pubs st" "ns_reqs (upd_ws ref f st) = ns_reqs st"
  "ns_decodes (upd_ws ref f st) = ns_decodes st" "ns_subCounter (upd_ws ref f st) = ns_subCounter st"
  by (simp_all add: upd_ws_def)

lemma upd_room_simps [simp]:
  "ns_relays (upd_room ref g st) = ns_relays st" "ns_sockets (upd_room ref g st) = ns_sockets st"
  "ns_rooms (upd_room ref g st) = ns_rooms st" "ns_closed (upd_room ref g st) = ns_closed st"
  "ns_pendingAcks (upd_room ref g st) = ns_pendingAcks st" "ns_v2 (upd_room ref g st) = ns_v2 st"
  "ns_init (upd_room ref g st) = ns_init st" "ns_katError (upd_room ref g st) = ns_katError st"
  "ns_roomKeys (upd_room ref g st) = ns_roomKeys st" "ns_ws (upd_room ref g st) = ns_ws st"
  "ns_pubs (upd_room ref g st) = ns_pubs st" "ns_reqs (upd_room ref g st) = ns_reqs st"
  "ns_decodes (upd_room ref g st) = ns_decodes st" "length (ns_states (upd_room ref g st)) = length (ns_states st)"
  by (simp_all add: upd_room_def)

lemma upd_pub_simps [simp]:
  "ns_relays (upd_pub n h st) = ns_relays st" "ns_sockets (upd_pub n h st) = ns_sockets st"
  "ns_rooms (upd_pub n h st) = ns_rooms st" "ns_closed (upd_pub n h st) = ns_closed st"
  "ns_pendingAcks (upd_pub n h st) = ns_pendingAcks st" "ns_v2 (upd_pub n h st) = ns_v2 st"
  "ns_init (upd_pub n h st) = ns_init st" "ns_katError (upd_pub n h st) = ns_katError st"
  "ns_roomKeys (upd_pub n h st) = ns_roomKeys st" "ns_ws (upd_pub n h st) = ns_ws st"
  "ns_states (upd_pub n h st) = ns_states st" "ns_reqs (upd_pub n h st) = ns_reqs st"
  "ns_decodes (upd_pub n h st) = ns_decodes st" "length (ns_pubs (upd_pub n h st)) = length (ns_pubs st)"
  by (simp_all add: upd_pub_def)

lemma upd_req_simps [simp]:
  "ns_sockets (upd_req q w st) = ns_sockets st" "ns_relays (upd_req q w st) = ns_relays st"
  "ns_rooms (upd_req q w st) = ns_rooms st" "ns_closed (upd_req q w st) = ns_closed st"
  "ns_pendingAcks (upd_req q w st) = ns_pendingAcks st" "ns_v2 (upd_req q w st) = ns_v2 st"
  "ns_init (upd_req q w st) = ns_init st" "ns_katError (upd_req q w st) = ns_katError st"
  "ns_roomKeys (upd_req q w st) = ns_roomKeys st" "ns_ws (upd_req q w st) = ns_ws st"
  "ns_states (upd_req q w st) = ns_states st" "ns_pubs (upd_req q w st) = ns_pubs st"
  "ns_decodes (upd_req q w st) = ns_decodes st" "length (ns_reqs (upd_req q w st)) = length (ns_reqs st)"
  by (simp_all add: upd_req_def)

lemma upd_decode_simps [simp]:
  "ns_relays (upd_decode d ph st) = ns_relays st"
  "ns_rooms (upd_decode d ph st) = ns_rooms st" "ns_closed (upd_decode d ph st) = ns_closed st"
  "ns_pendingAcks (upd_decode d ph st) = ns_pendingAcks st" "ns_v2 (upd_decode d ph st) = ns_v2 st"
  "ns_init (upd_decode d ph st) = ns_init st" "ns_katError (upd_decode d ph st) = ns_katError st"
  "ns_roomKeys (upd_decode d ph st) = ns_roomKeys st" "ns_ws (upd_decode d ph st) = ns_ws st"
  "ns_states (upd_decode d ph st) = ns_states st" "ns_pubs (upd_decode d ph st) = ns_pubs st"
  "length (ns_decodes (upd_decode d ph st)) = length (ns_decodes st)"
  by (simp_all add: upd_decode_def)

lemma upd_pub_nth:
  "i < length (ns_pubs st) \<Longrightarrow> ns_pubs (upd_pub n h st) ! i = (if i = n then h (ns_pubs st ! i) else ns_pubs st ! i)"
  by (simp add: upd_pub_def nth_list_update)

lemma getV2RoomKey_simps [simp]:
  "ns_rooms (getV2RoomKey r st) = ns_rooms st" "ns_closed (getV2RoomKey r st) = ns_closed st"
  "ns_pendingAcks (getV2RoomKey r st) = ns_pendingAcks st" "ns_v2 (getV2RoomKey r st) = ns_v2 st"
  "ns_init (getV2RoomKey r st) = ns_init st" "ns_katError (getV2RoomKey r st) = ns_katError st"
  "ns_ws (getV2RoomKey r st) = ns_ws st" "ns_states (getV2RoomKey r st) = ns_states st"
  "ns_pubs (getV2RoomKey r st) = ns_pubs st" "ns_decodes (getV2RoomKey r st) = ns_decodes st"
  "ns_reqs (getV2RoomKey r st) = ns_reqs st" "ns_relays (getV2RoomKey r st) = ns_relays st"
  by (simp_all add: getV2RoomKey_def)

subsection \<open>The table of subscriptions\<close>

definition ns_hs :: "nostr \<Rightarrow> handler list list" where
  "ns_hs st = map nr_handlers (ns_states st)"

definition ns_listeners :: "nostr \<Rightarrow> jsstring \<Rightarrow> handler list" where
  "ns_listeners st = rooms_table (ns_rooms st) (ns_hs st)"

definition ns_accepts :: "nostr \<Rightarrow> bool" where
  "ns_accepts st = (\<not> ns_closed st \<and> ns_katError st = None)"

definition ns_wf :: "nostr \<Rightarrow> bool" where
  "ns_wf st = (rooms_ok (ns_rooms st) (ns_hs st) (ns_closed st) \<and> (ns_closed st \<longrightarrow> ns_rooms st = []))"

text \<open>What the tasks and the environment leave alone.\<close>

definition ns_view ::
  "nostr \<Rightarrow> (jsstring \<times> nat) list \<times> handler list list \<times> bool \<times> bool \<times> err option \<times> jsstring list" where
  "ns_view st = (ns_rooms st, ns_hs st, ns_closed st, ns_v2 st, ns_katError st, ns_relays st)"

lemma view_upd [simp]:
  "ns_view (upd_ws ref f st) = ns_view st" "ns_view (upd_pub n h st) = ns_view st" "ns_view (upd_req q w st) = ns_view st"
  "ns_view (upd_decode d ph st) = ns_view st" "ns_view (getV2RoomKey r st) = ns_view st"
  "ns_view (st\<lparr>ns_sockets := a\<rparr>) = ns_view st" "ns_view (st\<lparr>ns_pendingAcks := b\<rparr>) = ns_view st"
  "ns_view (st\<lparr>ns_pubs := c\<rparr>) = ns_view st" "ns_view (st\<lparr>ns_decodes := e\<rparr>) = ns_view st"
  by (simp_all add: ns_view_def ns_hs_def)

lemma view_ensure: "ensureSocket E url st = (st1, en, os) \<Longrightarrow> ns_view st1 = ns_view st"
  by (auto simp: ensureSocket_def make_socket_def ns_view_def ns_hs_def Let_def
      split: option.splits ready_state.splits if_splits)

lemma view_finish: "ensure_finish en st = (st1, got, os) \<Longrightarrow> ns_view st1 = ns_view st"
  by (cases en) (auto split: if_splits)

lemma view_settle [simp]: "ns_view (pub_settle n r st) = ns_view st"
  by (simp add: pub_settle_def)

lemma view_tryReject [simp]: "ns_view (tryReject n st) = ns_view st"
  by (simp add: tryReject_def Let_def)

lemma view_pub_finish [simp]: "ns_view (pub_finish n b m st) = ns_view st"
  by (simp add: pub_finish_def)

lemma view_report [simp]: "ns_view (fst (pub_report n st)) = ns_view st"
  by (simp add: pub_report_def split: pub_phase.splits option.splits)

lemma view_timeout [simp]: "ns_view (fst (ack_timeout n st)) = ns_view st"
  by (simp add: ack_timeout_def Let_def split: pub_phase.splits)

lemma view_loop_end [simp]: "ns_view (fst (pub_loop_end n st)) = ns_view st"
  by (simp add: pub_loop_end_def Let_def pub_over_def cancelAckTimeout_def)

lemma view_pub_next [simp]: "ns_view (fst (pub_next E n urls st)) = ns_view st"
  by (auto simp: pub_next_def view_ensure split: list.splits prod.splits)

lemma view_pub_send [simp]: "ns_view (fst (pub_send n ref st)) = ns_view st"
  by (simp add: pub_send_def Let_def split: option.splits)

lemma view_pub_socket [simp]: "ns_view (fst (pub_socket E n rest got st)) = ns_view st"
  using view_pub_send [of n "the got" st]
  by (cases "pub_send n (the got) st") (auto simp: pub_socket_def split: option.splits)

lemma view_pub_event [simp]: "ns_view (fst (pub_event E n now rnd c st)) = ns_view st"
  by (simp add: pub_event_def Let_def)

lemma view_resume_pub: "resume_pub E n now rnd nonce st = Some p \<Longrightarrow> ns_view (fst p) = ns_view st"
  by (auto simp: resume_pub_def Let_def pub_over_def
      split: if_splits pub_phase.splits option.splits sum.splits ensure.splits dest!: view_finish)

lemma view_publish [simp]: "ns_view (fst (ns_publish r m st)) = ns_view st"
  by (simp add: ns_publish_def Let_def split: option.splits)

lemma view_req_next [simp]: "ns_view (fst (req_next E q urls st)) = ns_view st"
  by (auto simp: req_next_def view_ensure split: list.splits prod.splits)

lemma view_resume_req: "resume_req E q st = Some p \<Longrightarrow> ns_view (fst p) = ns_view st"
  by (auto simp: resume_req_def split: if_splits option.splits ensure.splits dest!: view_finish)

lemma view_upd_room:
  "ns_hs (upd_room ref g st) = (ns_hs st)[ref := nr_handlers (g (ns_states st ! ref))]"
  by (simp add: upd_room_def ns_hs_def map_update)

lemma view_event [simp]: "ns_view (handleEvent subId ev st) = ns_view st"
proof -
  have "ns_view (upd_room ref (\<lambda>r. r\<lparr>nr_delivered := d r\<rparr>) st) = ns_view st" for ref d
    by (simp add: ns_view_def view_upd_room) (simp add: ns_hs_def flip: map_update)
  then show ?thesis by (simp add: handleEvent_def split: option.splits prod.splits)
qed

lemma view_message [simp]: "ns_view (fst (onRelayMessage text st)) = ns_view st"
  by (simp add: onRelayMessage_def split: option.splits jsval.splits)

lemma view_resume_decode: "resume_decode E d st = Some p \<Longrightarrow> ns_view (fst p) = ns_view st"
  by (auto simp: resume_decode_def dispatch_def Let_def split: if_splits decode_phase.splits option.splits sum.splits v2_result.splits)

lemma view_ws_events:
  "ws_opened ref st = Some st' \<Longrightarrow> ns_view st' = ns_view st" "ws_errored ref st = Some st' \<Longrightarrow> ns_view st' = ns_view st"
  "ws_closed ref st = Some st' \<Longrightarrow> ns_view st' = ns_view st" "key_derived E r st = Some st' \<Longrightarrow> ns_view st' = ns_view st"
  by (auto simp: ws_opened_def ws_errored_def ws_closed_def key_derived_def Let_def ns_view_def ns_hs_def split: if_splits)

lemma wf_of_view: "ns_view st' = ns_view st \<Longrightarrow> ns_wf st' = ns_wf st \<and> ns_listeners st' = ns_listeners st \<and> ns_accepts st' = ns_accepts st"
  by (simp add: ns_view_def ns_wf_def ns_listeners_def ns_accepts_def)

lemma ns_hs_nth: "ref < length (ns_states st) \<Longrightarrow> ns_hs st ! ref = nr_handlers (ns_states st ! ref)"
  by (simp add: ns_hs_def)

lemma newSubId_view: "newSubId r st = (st1, subId) \<Longrightarrow> ns_view st1 = ns_view st \<and> ns_states st1 = ns_states st"
  by (auto simp: newSubId_def Let_def ns_view_def ns_hs_def)

lemma ns_subscribe_throws: "ns_subscribe E r h st = None \<longleftrightarrow> \<not> ns_accepts st"
  by (auto simp: ns_subscribe_def ns_accepts_def Let_def split: prod.splits)

lemma ns_start_room_view:
  assumes "ns_start_room E r st = (st1, os)"
  shows "ns_rooms st1 = al_set r (length (ns_hs st)) (ns_rooms st)" "ns_hs st1 = ns_hs st @ [[]]"
    "ns_closed st1 = ns_closed st" "ns_katError st1 = ns_katError st" "ns_v2 st1 = ns_v2 st" "ns_relays st1 = ns_relays st"
proof -
  obtain st0 subId where s: "newSubId r st = (st0, subId)" by force
  let ?st2 = "st0\<lparr>ns_states := ns_states st0 @ [\<lparr>nr_handlers = [], nr_subId = subId, nr_delivered = []\<rparr>],
             ns_rooms := al_set r (length (ns_states st)) (ns_rooms st0),
             ns_reqs := ns_reqs st0 @ [\<lparr>rq_room = r, rq_ref = length (ns_states st), rq_wait = None\<rparr>]\<rparr>"
  have "st1 = fst (req_next E (length (ns_reqs st)) (ns_relays st) ?st2)"
    using assms by (simp add: ns_start_room_def Let_def s)
  then have "ns_view st1 = ns_view ?st2" by simp
  with newSubId_view [OF s]
  show "ns_rooms st1 = al_set r (length (ns_hs st)) (ns_rooms st)" "ns_hs st1 = ns_hs st @ [[]]"
    "ns_closed st1 = ns_closed st" "ns_katError st1 = ns_katError st" "ns_v2 st1 = ns_v2 st" "ns_relays st1 = ns_relays st"
    by (simp_all add: ns_view_def ns_hs_def)
qed

lemma ns_subscribe_law:
  assumes "ns_wf st" "ns_subscribe E r h st = Some (st', os)"
  shows "ns_wf st' \<and> ns_accepts st' \<and> ns_v2 st' = ns_v2 st \<and> ns_relays st' = ns_relays st
    \<and> ns_listeners st' = (ns_listeners st)(r := set_add h (ns_listeners st r))"
proof -
  define st0 where "st0 = (if ns_v2 st then getV2RoomKey r st else st)"
  have v0: "ns_view st0 = ns_view st" by (simp add: st0_def)
  have open_: "\<not> ns_closed st" "ns_katError st = None" using assms(2) by (auto simp: ns_subscribe_def split: if_splits)
  have ok: "rooms_ok (ns_rooms st) (ns_hs st) False" using assms(1) open_ by (simp add: ns_wf_def)
  let ?add = "\<lambda>p. p\<lparr>nr_handlers := set_add h (nr_handlers p)\<rparr>"
  show ?thesis
  proof (cases "map_of (ns_rooms st) r")
    case (Some ref)
    note live = rooms_live [OF ok Some]
    have st': "st' = upd_room ref ?add st0"
      using assms(2) open_ Some v0 by (auto simp: ns_subscribe_def Let_def st0_def ns_view_def split: if_splits)
    have hs: "ns_hs st' = (ns_hs st)[ref := set_add h (ns_hs st ! ref)]"
      using v0 live(1) by (simp add: st' view_upd_room ns_hs_nth ns_view_def) (simp add: ns_hs_def map_eq_conv st0_def)
    show ?thesis
      using rooms_update [OF ok Some, of "set_add h (ns_hs st ! ref)"] live(3) v0 open_ Some
      by (simp add: ns_wf_def ns_listeners_def ns_accepts_def hs) (simp add: st' ns_view_def rooms_table_def)
  next
    case None
    obtain st1 os1 where s: "ns_start_room E r st0 = (st1, os1)" by force
    note v1 = ns_start_room_view [OF s]
    have st': "st' = upd_room (length (ns_hs st)) ?add st1"
      using assms(2) open_ None v0 v1(1) s
      by (auto simp: ns_subscribe_def Let_def st0_def [symmetric] ns_view_def split: if_splits)
    have len: "length (ns_states st1) = Suc (length (ns_hs st))"
    proof -
      have "length (ns_hs st1) = Suc (length (ns_hs st))" using v0 by (simp add: v1(2) ns_view_def)
      then show ?thesis by (simp add: ns_hs_def)
    qed
    have "nr_handlers (ns_states st1 ! length (ns_hs st)) = []"
      using v1(2) v0 ns_hs_nth [of "length (ns_hs st)" st1] len by (simp add: ns_view_def)
    then have hs: "ns_hs st' = ns_hs st @ [[h]]"
      using v1(2) v0 by (simp add: st' view_upd_room ns_view_def set_add_def)
    have e: "ns_listeners st r = []" using None by (simp add: ns_listeners_def rooms_table_def)
    show ?thesis
      using rooms_insert [OF ok None, of h] v0 v1 open_ e
      by (simp add: ns_wf_def ns_listeners_def ns_accepts_def hs) (simp add: st' ns_view_def set_add_def)
  qed
qed

lemma ns_unsubscribe_law:
  assumes "ns_wf st"
  shows "ns_wf (fst (ns_unsubscribe r h st)) \<and> ns_accepts (fst (ns_unsubscribe r h st)) = ns_accepts st
    \<and> ns_v2 (fst (ns_unsubscribe r h st)) = ns_v2 st \<and> ns_relays (fst (ns_unsubscribe r h st)) = ns_relays st
    \<and> ns_listeners (fst (ns_unsubscribe r h st)) = (ns_listeners st)(r := set_delete h (ns_listeners st r))"
proof (cases "map_of (ns_rooms st) r")
  case None
  then show ?thesis using assms by (auto simp: ns_unsubscribe_def ns_listeners_def rooms_table_def)
next
  case (Some ref)
  have ok: "rooms_ok (ns_rooms st) (ns_hs st) (ns_closed st)" using assms by (simp add: ns_wf_def)
  note live = rooms_live [OF ok Some]
  let ?st1 = "upd_room ref (\<lambda>p. p\<lparr>nr_handlers := set_delete h (nr_handlers p)\<rparr>) st"
  have hs: "ns_hs ?st1 = (ns_hs st)[ref := set_delete h (ns_hs st ! ref)]"
  proof -
    have "nr_handlers (ns_states st ! ref) = ns_hs st ! ref" using live(1) by (simp add: ns_hs_def)
    then show ?thesis by (simp add: view_upd_room)
  qed
  have nth: "nr_handlers (ns_states ?st1 ! ref) = set_delete h (ns_hs st ! ref)"
    using live(1) by (simp add: upd_room_def ns_hs_def)
  have l: "ns_listeners st r = ns_hs st ! ref" using Some by (simp add: ns_listeners_def rooms_table_def)
  show ?thesis
  proof (cases "set_delete h (ns_hs st ! ref) = []")
    case False
    then show ?thesis
      using rooms_update [OF ok Some False] live(3) assms Some hs nth l
      by (simp add: ns_unsubscribe_def Let_def ns_wf_def ns_accepts_def) (simp add: ns_listeners_def hs)
  next
    case True
    have "ns_hs (?st1\<lparr>ns_rooms := x\<rparr>) = ns_hs ?st1" for x by (simp add: ns_hs_def)
    then show ?thesis
      using rooms_remove [OF ok Some] assms Some hs nth l True
      by (simp add: ns_unsubscribe_def Let_def ns_wf_def ns_accepts_def) (auto simp: ns_listeners_def hs)
  qed
qed

lemma fold_ws_close_view [simp]: "ns_view (fold ws_close refs st) = ns_view st"
  by (induction refs arbitrary: st) (simp_all add: ws_close_def)

lemma ns_close_law:
  assumes "ns_wf st"
  shows "ns_wf (fst (ns_close st)) \<and> \<not> ns_accepts (fst (ns_close st)) \<and> ns_v2 (fst (ns_close st)) = ns_v2 st
    \<and> ns_relays (fst (ns_close st)) = ns_relays st
    \<and> ns_listeners (fst (ns_close st)) = (\<lambda>_. [])"
proof (cases "ns_closed st")
  case True
  then show ?thesis using assms by (auto simp: ns_close_def ns_wf_def ns_accepts_def ns_listeners_def rooms_table_def)
next
  case False
  have "ns_view (fst (ns_close st)) = ns_view (st\<lparr>ns_closed := True, ns_rooms := []\<rparr>)"
    using False by (simp add: ns_close_def)
  then show ?thesis
    using assms by (auto simp: ns_view_def ns_wf_def ns_accepts_def ns_listeners_def rooms_table_def ns_hs_def rooms_ok_def)
qed

interpretation nostr: subscription_table ns_wf ns_accepts ns_listeners
  "\<lambda>r h st. map_option fst (ns_subscribe E r h st)" "\<lambda>r h st. fst (ns_unsubscribe r h st)" "\<lambda>st. fst (ns_close st)"
  for E
proof unfold_locales
  show "map_option fst (ns_subscribe E r h s) = None \<longleftrightarrow> \<not> ns_accepts s" for r h s
    by (simp add: ns_subscribe_throws)
  show "ns_wf s' \<and> ns_accepts s' \<and> ns_listeners s' = (ns_listeners s)(r := set_add h (ns_listeners s r))"
    if "ns_wf s" "map_option fst (ns_subscribe E r h s) = Some s'" for r h s s'
    using that ns_subscribe_law [OF that(1)] by auto
qed (use ns_unsubscribe_law ns_close_law in auto)

lemma new_nostr_wf:
  "new_nostr relays ws v2 = Inr st \<Longrightarrow> ns_wf st \<and> ns_accepts st \<and> ns_v2 st = v2 \<and> ns_relays st = relays \<and> relays \<noteq> [] \<and> ns_listeners st = (\<lambda>_. [])"
  by (auto simp: new_nostr_def ns_wf_def rooms_ok_def ns_hs_def ns_accepts_def ns_listeners_def rooms_table_def split: if_splits)

lemma ns_step_wf:
  assumes "ns_wf st" "ns_step E ev st = Some (st', os)"
  shows "ns_wf st' \<and> ns_v2 st' = ns_v2 st \<and> ns_relays st' = ns_relays st"
proof -
  have view: "ns_view st' = ns_view st \<Longrightarrow> ?thesis"
    using assms(1) wf_of_view [of st' st] by (simp add: ns_view_def)
  have fst': "p = (st', os) \<Longrightarrow> ns_view (fst p) = ns_view st \<Longrightarrow> ?thesis" for p using view by simp
  show ?thesis
  proof (cases ev)
    case (NsPublish r m)
    with assms(2) show ?thesis using fst' [OF _ view_publish] by simp
  next
    case (NsSubscribe r h)
    with assms show ?thesis using ns_subscribe_law [OF assms(1)] by simp
  next
    case (NsUnsubscribe r h)
    with assms show ?thesis using ns_unsubscribe_law [OF assms(1), of r h] by simp
  next
    case NsClose
    with assms show ?thesis using ns_close_law [OF assms(1)] by simp
  next
    case (NsResumePub n now rnd nonce)
    with assms(2) show ?thesis using view_resume_pub [of E n now rnd nonce st] view by simp
  next
    case (NsResumeReq q)
    with assms(2) show ?thesis using view_resume_req [of E q st] view by simp
  next
    case (NsResumeDecode d)
    with assms(2) show ?thesis using view_resume_decode [of E d st] view by simp
  next
    case (NsAckTimeout n)
    with assms(2) have "ack_timeout n st = (st', os)" by (simp split: if_splits)
    then show ?thesis using fst' [OF _ view_timeout] by simp
  next
    case NsKatDone
    with assms show ?thesis
      by (auto simp: kat_done_def Let_def ns_wf_def ns_hs_def split: if_splits)
  next
    case (NsMessage ref t)
    with assms(2) have "onRelayMessage t st = (st', os)" by (simp split: if_splits)
    then show ?thesis using fst' [OF _ view_message] by simp
  qed (use assms(2) view_ws_events view in auto)
qed

interpretation nostr_wf: preserved "ns_step E" "\<lambda>st. ns_wf st \<and> ns_v2 st = v2 \<and> ns_relays st = rs" for E v2 rs
  by unfold_locales (auto dest: ns_step_wf)

end
