(* ===== verification/Nostr_Publish.thy ===== *)
theory Nostr_Publish
  imports Nostr_Props
begin

text \<open>
  The outcome of a publication: every \<open>publish\<close> settles at most once, it succeeds only when a relay has
  acknowledged its event, and when it waits for acknowledgements its timer is armed, so that it
  always ends. The invariant follows the local variables of the closures around \<open>ackPromise\<close>.
\<close>

text \<open>A relay's message \<open>["OK", id, true, ...]\<close>.\<close>

definition ack_of :: "jsstring \<Rightarrow> jsstring option" where
  "ack_of t =
     (case json_parse t of
        Some (Arr frame) \<Rightarrow>
          (case item_at frame 1 of
             Str i \<Rightarrow> if item_at frame 0 = Str (js ''OK'') \<and> truthy (item_at frame 2) then Some i else None
           | _ \<Rightarrow> None)
      | _ \<Rightarrow> None)"

definition pub_ok :: "(jsstring \<Rightarrow> bool) \<Rightarrow> publication \<Rightarrow> bool" where
  "pub_ok A p \<longleftrightarrow> (pb_outcome p = Some None \<longrightarrow> A (pb_id p)) \<and>
     (case pb_phase p of
        PubSocket _ _ _ \<Rightarrow>
          (if pb_settled p then \<not> pb_timer p \<and> pb_outcome p \<noteq> None else pb_timer p \<and> pb_outcome p = None)
      | PubAck \<Rightarrow> \<not> pb_settled p \<and> pb_timer p \<and> pb_outcome p = None \<and> pb_finalized p \<and> pb_nacked p < pb_relayCount p
      | PubOver \<Rightarrow> \<not> pb_timer p
      | _ \<Rightarrow> \<not> pb_settled p \<and> \<not> pb_timer p \<and> pb_outcome p = None)"

fun in_flight :: "pub_phase \<Rightarrow> bool" where
  "in_flight (PubSocket _ _ _) = True"
| "in_flight PubAck = True"
| "in_flight _ = False"

definition pend_ok :: "(jsstring \<times> nat) list \<Rightarrow> publication list \<Rightarrow> bool" where
  "pend_ok pending pubs \<longleftrightarrow> (\<forall>i n. map_of pending i = Some n \<longrightarrow>
     n < length pubs \<and> pb_id (pubs ! n) = i \<and> \<not> pb_settled (pubs ! n) \<and> in_flight (pb_phase (pubs ! n)))"

definition pubs_inv :: "(jsstring \<Rightarrow> bool) \<Rightarrow> nostr \<Rightarrow> bool" where
  "pubs_inv A st \<longleftrightarrow> (\<forall>n<length (ns_pubs st). pub_ok A (ns_pubs st ! n)) \<and> pend_ok (ns_pendingAcks st) (ns_pubs st)"

definition pub_done :: "nostr \<Rightarrow> nat \<Rightarrow> bool" where
  "pub_done st n = (n < length (ns_pubs st) \<and> pb_phase (ns_pubs st ! n) = PubOver)"

text \<open>The publications that settle among the outputs.\<close>

definition settled_pubs :: "ns_out list \<Rightarrow> (nat \<times> err option) list" where
  "settled_pubs os = concat (map (\<lambda>x. case x of NPublished n r \<Rightarrow> [(n, r)] | _ \<Rightarrow> []) os)"

lemma settled_pubs_simps [simp]:
  "settled_pubs [] = []" "settled_pubs (a @ b) = settled_pubs a @ settled_pubs b"
  "settled_pubs (NPublished n r # os) = (n, r) # settled_pubs os"
  "settled_pubs (NSend ref f # os) = settled_pubs os" "settled_pubs (NConstruct ref u # os) = settled_pubs os"
  "settled_pubs (NUnhandled e # os) = settled_pubs os"
  by (simp_all add: settled_pubs_def)

lemma settled_pubs_mem: "NPublished n r \<in> set os \<Longrightarrow> (n, r) \<in> set (settled_pubs os)"
  by (force simp: settled_pubs_def)

text \<open>What one part of a step does to the publications.\<close>

definition pub_step :: "(jsstring \<Rightarrow> bool) \<Rightarrow> nostr \<Rightarrow> nostr \<Rightarrow> ns_out list \<Rightarrow> bool" where
  "pub_step A st st' os \<longleftrightarrow>
     length (ns_pubs st) \<le> length (ns_pubs st') \<and> pubs_inv A st'
     \<and> distinct (map fst (settled_pubs os))
     \<and> (\<forall>n. n \<in> fst ` set (settled_pubs os) \<longleftrightarrow> pub_done st' n \<and> \<not> pub_done st n)
     \<and> (\<forall>n. pub_done st n \<longrightarrow> pub_done st' n \<and> ns_pubs st' ! n = ns_pubs st ! n)
     \<and> (\<forall>n. (n, None) \<in> set (settled_pubs os) \<longrightarrow> A (pb_id (ns_pubs st' ! n)))"

lemma pub_step_trans:
  assumes a: "pub_step A st st1 os1" and b: "pub_step A st1 st2 os2"
  shows "pub_step A st st2 (os1 @ os2)"
proof -
  have "fst ` set (settled_pubs os1) \<inter> fst ` set (settled_pubs os2) = {}"
    using a b unfolding pub_step_def by blast
  moreover have "A (pb_id (ns_pubs st2 ! n))" if "(n, None) \<in> set (settled_pubs os1)" for n
  proof -
    have "n \<in> fst ` set (settled_pubs os1)" using that by force
    then have "pub_done st1 n" using a unfolding pub_step_def by blast
    then have "ns_pubs st2 ! n = ns_pubs st1 ! n" using b unfolding pub_step_def by blast
    with that a show ?thesis unfolding pub_step_def by simp
  qed
  ultimately show ?thesis
    using a b unfolding pub_step_def by (auto simp: image_Un)
qed

lemma pub_step_quiet:
  "pubs_inv A st \<Longrightarrow> ns_pubs st' = ns_pubs st \<Longrightarrow> ns_pendingAcks st' = ns_pendingAcks st \<Longrightarrow>
   settled_pubs os = [] \<Longrightarrow> pub_step A st st' os"
  by (simp add: pub_step_def pubs_inv_def pub_done_def)

text \<open>One publication changes.\<close>

lemma pub_step_one:
  assumes "pubs_inv A st" "n < length (ns_pubs st)" "pb_phase (ns_pubs st ! n) \<noteq> PubOver"
    and "ns_pubs st' = (ns_pubs st)[n := p]" "pub_ok A p" "pend_ok (ns_pendingAcks st') (ns_pubs st')"
    and "pb_phase p = PubOver \<Longrightarrow> \<exists>r. settled_pubs os = [(n, r)] \<and> (r = None \<longrightarrow> A (pb_id p))"
    and "pb_phase p \<noteq> PubOver \<Longrightarrow> settled_pubs os = []"
  shows "pub_step A st st' os"
proof (cases "pb_phase p = PubOver")
  case True
  with assms(7) obtain r where "settled_pubs os = [(n, r)]" "r = None \<longrightarrow> A (pb_id p)" by blast
  then show ?thesis
    using assms(1-6) True
    by (auto simp: pub_step_def pubs_inv_def pub_done_def nth_upd split: if_splits)
next
  case False
  then show ?thesis
    using assms by (auto simp: pub_step_def pubs_inv_def pub_done_def nth_upd split: if_splits)
qed

lemma pend_ok_del:
  "pend_ok pending pubs \<Longrightarrow> pb_id (pubs ! n) = i \<Longrightarrow> pend_ok (al_del i pending) (pubs[n := p])"
  by (auto simp: pend_ok_def nth_upd)

lemma pend_ok_keep:
  "pend_ok pending pubs \<Longrightarrow> pb_id p = pb_id (pubs ! n) \<Longrightarrow> (in_flight (pb_phase (pubs ! n)) \<Longrightarrow> in_flight (pb_phase p)) \<Longrightarrow>
   (\<not> pb_settled (pubs ! n) \<Longrightarrow> \<not> pb_settled p) \<Longrightarrow> pend_ok pending (pubs[n := p])"
  by (auto simp: pend_ok_def nth_upd)

lemma pend_ok_other:
  "pend_ok pending pubs \<Longrightarrow> \<not> in_flight (pb_phase (pubs ! n)) \<Longrightarrow> pend_ok pending (pubs[n := p])"
  by (auto simp: pend_ok_def nth_upd)

lemma pend_ok_settled:
  "pend_ok pending pubs \<Longrightarrow> pb_settled (pubs ! n) \<Longrightarrow> pend_ok pending (pubs[n := p])"
  by (auto simp: pend_ok_def nth_upd)

lemma pend_ok_set:
  "pend_ok pending pubs \<Longrightarrow> n < length pubs \<Longrightarrow> \<not> in_flight (pb_phase (pubs ! n)) \<Longrightarrow> in_flight (pb_phase p) \<Longrightarrow> \<not> pb_settled p \<Longrightarrow>
   pend_ok (al_set (pb_id p) n pending) (pubs[n := p])"
  by (auto simp: pend_ok_def nth_upd)

subsection \<open>Acknowledgements\<close>

text \<open>A nack or an ack for a publication under way, and what \<open>publish\<close> then reports.\<close>

lemma finish_step:
  assumes "pubs_inv A st" "map_of (ns_pendingAcks st) i = Some n" "ok \<longrightarrow> A i"
    and "pub_report n (pub_finish n ok msg st) = (st', os)"
  shows "pub_step A st st' os"
proof -
  let ?p = "ns_pubs st ! n"
  have n: "n < length (ns_pubs st)" "pb_id ?p = i" "\<not> pb_settled ?p" "in_flight (pb_phase ?p)"
    and pok: "pub_ok A ?p" and pend: "pend_ok (ns_pendingAcks st) (ns_pubs st)"
    using assms(1,2) by (auto simp: pubs_inv_def pend_ok_def)
  have settle: "pub_step A st st' os"
    if f: "pub_report n (upd_pub n (\<lambda>_. q\<lparr>pb_settled := True, pb_timer := False, pb_outcome := Some r\<rparr>)
        (base\<lparr>ns_pendingAcks := al_del i (ns_pendingAcks st)\<rparr>)) = (st', os)"
      and q: "ns_pubs base = (ns_pubs st)[n := q]" "pb_id q = i" "pb_phase q = pb_phase ?p" "r = None \<longrightarrow> A i" for q base r
  proof (cases "pb_phase ?p")
    case PubAck
    show ?thesis
      by (rule pub_step_one [OF assms(1) n(1), of _ "q\<lparr>pb_settled := True, pb_timer := False, pb_outcome := Some r, pb_phase := PubOver\<rparr>"])
        (use f q n PubAck pend in \<open>auto simp: pub_report_def upd_pub_def pub_ok_def intro!: pend_ok_del\<close>)
  next
    case (PubSocket url rest en)
    show ?thesis
      by (rule pub_step_one [OF assms(1) n(1), of _ "q\<lparr>pb_settled := True, pb_timer := False, pb_outcome := Some r\<rparr>"])
        (use f q n PubSocket pend in \<open>auto simp: pub_report_def upd_pub_def pub_ok_def intro!: pend_ok_del\<close>)
  qed (use n(4) in auto)
  show ?thesis
  proof (cases ok)
    case True
    show ?thesis
      by (rule settle [where q = ?p and r = None])
        (use True assms(3,4) n in \<open>auto simp: pub_finish_def pub_settle_def upd_pub_def\<close>)
  next
    case False
    let ?q = "?p\<lparr>pb_nacked := Suc (pb_nacked ?p), pb_lastNack := (case msg of None \<Rightarrow> pb_lastNack ?p | Some m \<Rightarrow> Some m)\<rparr>"
    let ?st1 = "upd_pub n (\<lambda>p. p\<lparr>pb_nacked := Suc (pb_nacked p), pb_lastNack := (case msg of None \<Rightarrow> pb_lastNack p | Some m \<Rightarrow> Some m)\<rparr>) st"
    show ?thesis
    proof (cases "\<not> pb_finalized ?p \<or> Suc (pb_nacked ?p) < pb_relayCount ?p")
      case True
      then have s: "st' = ?st1" "os = []"
        using assms(4) False n pok
        by (auto simp: pub_finish_def tryReject_def Let_def upd_pub_def pub_report_def pub_ok_def split: pub_phase.splits option.splits)
      show ?thesis
        by (rule pub_step_one [OF assms(1) n(1), of _ ?q])
          (use True n pok pend in \<open>auto simp: s upd_pub_def pub_ok_def intro!: pend_ok_keep split: pub_phase.splits\<close>)
    next
      case reject: False
      show ?thesis
        by (rule settle [where q = ?q and base = ?st1])
          (use reject False assms(4) n in \<open>auto simp: pub_finish_def tryReject_def Let_def pub_settle_def upd_pub_def\<close>)
    qed
  qed
qed

lemma timeout_step:
  assumes "pubs_inv A st" "n < length (ns_pubs st)" "pb_timer (ns_pubs st ! n)" "ack_timeout n st = (st', os)"
  shows "pub_step A st st' os"
proof -
  let ?p = "ns_pubs st ! n"
  let ?r = "Some (publish_error ''ack timeout'')"
  have pok: "pub_ok A ?p" and pend: "pend_ok (ns_pendingAcks st) (ns_pubs st)"
    using assms(1,2) by (auto simp: pubs_inv_def)
  show ?thesis
  proof (cases "pb_phase ?p")
    case PubAck
    show ?thesis
      by (rule pub_step_one [OF assms(1,2), of _ "?p\<lparr>pb_settled := True, pb_timer := False, pb_outcome := Some ?r, pb_phase := PubOver\<rparr>"])
        (use assms(2,4) pok PubAck pend in \<open>auto simp: ack_timeout_def Let_def pub_settle_def pub_report_def upd_pub_def pub_ok_def
          intro!: pend_ok_del\<close>)
  next
    case (PubSocket url rest en)
    show ?thesis
      by (rule pub_step_one [OF assms(1,2), of _ "?p\<lparr>pb_settled := True, pb_timer := False, pb_outcome := Some ?r\<rparr>"])
        (use assms(2-4) pok PubSocket pend in \<open>auto simp: ack_timeout_def Let_def pub_settle_def pub_report_def upd_pub_def pub_ok_def
          intro!: pend_ok_del split: if_splits\<close>)
  qed (use pok assms(3) in \<open>auto simp: pub_ok_def\<close>)
qed

subsection \<open>The loop over the relays\<close>

lemma ensure_pubs:
  "ensureSocket E url st = (st1, en, os) \<Longrightarrow> ns_pubs st1 = ns_pubs st \<and> ns_pendingAcks st1 = ns_pendingAcks st \<and> settled_pubs os = []"
  by (auto simp: ensureSocket_def make_socket_def Let_def split: option.splits ready_state.splits if_splits)

lemma settled_concat: "(\<And>x. x \<in> set xs \<Longrightarrow> settled_pubs (f x) = []) \<Longrightarrow> settled_pubs (concat (map f xs)) = []"
  by (induction xs) simp_all

lemma settled_sends [simp]:
  "settled_pubs (ws_send ref f st) = []" "settled_pubs (resend_reqs ref st) = []" "settled_pubs (closeReqOnAll subId st) = []"
  "settled_pubs (req_send q ref st) = []"
proof -
  show "settled_pubs (ws_send ref f st) = []" for f ref by (simp add: ws_send_def)
  then show "settled_pubs (resend_reqs ref st) = []" "settled_pubs (closeReqOnAll subId st) = []" "settled_pubs (req_send q ref st) = []"
    by (auto simp: resend_reqs_def closeReqOnAll_def req_send_def Let_def intro!: settled_concat)
qed

lemma finish_pubs:
  "ensure_finish en st = (st1, got, os) \<Longrightarrow> ns_pubs st1 = ns_pubs st \<and> ns_pendingAcks st1 = ns_pendingAcks st \<and> settled_pubs os = []"
  by (cases en) (auto split: if_splits)

definition looping :: "publication \<Rightarrow> bool" where
  "looping p = (case pb_phase p of PubSocket _ _ _ \<Rightarrow> True | _ \<Rightarrow> False)"

lemma loop_end_step:
  assumes "pubs_inv A st" "n < length (ns_pubs st)" "looping (ns_pubs st ! n)" "pub_loop_end n st = (st', os)"
  shows "pub_step A st st' os"
proof -
  let ?p = "ns_pubs st ! n"
  have pok: "pub_ok A ?p" and pend: "pend_ok (ns_pendingAcks st) (ns_pubs st)"
    using assms(1,2) by (auto simp: pubs_inv_def)
  obtain url rest en where ph: "pb_phase ?p = PubSocket url rest en"
    using assms(3) by (auto simp: looping_def split: pub_phase.splits)
  show ?thesis
  proof (cases "pb_relayCount ?p = 0")
    case True
    show ?thesis
      by (rule pub_step_one [OF assms(1,2), of _ "ns_pubs st' ! n"])
        (use assms(2,4) True pok ph pend in \<open>auto simp: pub_loop_end_def Let_def pub_over_def cancelAckTimeout_def upd_pub_def pub_ok_def
          intro!: pend_ok_del split: if_splits\<close>)
  next
    case False
    let ?f = "\<lambda>p. p\<lparr>pb_finalized := True, pb_phase := PubAck\<rparr>"
    have r: "pub_report n (tryReject n (upd_pub n ?f st)) = (st', os)" using assms(4) False by (simp add: pub_loop_end_def)
    show ?thesis
    proof (cases "pb_settled ?p")
      case True
      then obtain o1 where "pb_outcome ?p = Some o1" using pok ph by (auto simp: pub_ok_def)
      then show ?thesis
        by (intro pub_step_one [OF assms(1,2), of _ "(?f ?p)\<lparr>pb_phase := PubOver\<rparr>"])
          (use True r assms(2) pok ph pend in \<open>auto simp: tryReject_def Let_def pub_report_def upd_pub_def pub_ok_def
            intro!: pend_ok_settled\<close>)
    next
      case unsettled: False
      show ?thesis
      proof (cases "pb_nacked ?p < pb_relayCount ?p")
        case True
        then show ?thesis
          by (intro pub_step_one [OF assms(1,2), of _ "?f ?p"])
            (use unsettled r assms(2) pok ph pend in \<open>auto simp: tryReject_def Let_def pub_report_def upd_pub_def pub_ok_def
              intro!: pend_ok_keep\<close>)
      next
        case False
        show ?thesis
          by (rule pub_step_one [OF assms(1,2), of _ "ns_pubs st' ! n"])
            (use False unsettled r assms(2) pok ph pend in \<open>auto simp: tryReject_def Let_def pub_settle_def pub_report_def upd_pub_def pub_ok_def
              intro!: pend_ok_del\<close>)
      qed
    qed
  qed
qed

lemma pub_next_step:
  assumes "pubs_inv A st" "n < length (ns_pubs st)" "looping (ns_pubs st ! n)" "pub_next E n urls st = (st', os)"
  shows "pub_step A st st' os"
proof (cases urls)
  case Nil
  then show ?thesis using loop_end_step [OF assms(1-3)] assms(4) by (simp add: pub_next_def)
next
  case (Cons url rest)
  obtain st1 en os1 where e: "ensureSocket E url st = (st1, en, os1)" by (metis prod_cases3)
  note p = ensure_pubs [OF e]
  have st': "st' = upd_pub n (\<lambda>p. p\<lparr>pb_phase := PubSocket url rest en\<rparr>) st1" "os = os1"
    using assms(4) Cons e by (auto simp: pub_next_def)
  have ph: "pb_phase (ns_pubs st ! n) \<noteq> PubOver" "in_flight (pb_phase (ns_pubs st ! n))"
    using assms(3) by (auto simp: looping_def split: pub_phase.splits)
  show ?thesis
    by (rule pub_step_one [OF assms(1,2) ph(1), of _ "(ns_pubs st ! n)\<lparr>pb_phase := PubSocket url rest en\<rparr>"])
      (use assms(1-3) p in \<open>auto simp: st' upd_pub_def pubs_inv_def pub_ok_def looping_def intro!: pend_ok_keep split: pub_phase.splits if_splits\<close>)
qed

lemma pub_send_step:
  assumes "pubs_inv A st" "n < length (ns_pubs st)" "looping (ns_pubs st ! n)" "pub_send n ref st = (st', os)"
  shows "pub_step A st st' os \<and> n < length (ns_pubs st') \<and> looping (ns_pubs st' ! n)"
proof -
  let ?st1 = "upd_pub n (\<lambda>p. p\<lparr>pb_relayCount := Suc (pb_relayCount p)\<rparr>) st"
  have ph: "pb_phase (ns_pubs st ! n) \<noteq> PubOver" using assms(3) by (auto simp: looping_def)
  have one: "pub_step A st ?st1 []"
    by (rule pub_step_one [OF assms(1,2) ph, of _ "(ns_pubs st ! n)\<lparr>pb_relayCount := Suc (pb_relayCount (ns_pubs st ! n))\<rparr>"])
      (use assms(1-3) in \<open>auto simp: upd_pub_def pubs_inv_def pub_ok_def looping_def intro!: pend_ok_keep split: pub_phase.splits\<close>)
  then have inv1: "pubs_inv A ?st1" by (simp add: pub_step_def)
  have n1: "n < length (ns_pubs ?st1)" "looping (ns_pubs ?st1 ! n)"
    using assms(2,3) by (simp_all add: upd_pub_nth looping_def)
  show ?thesis
  proof (cases "send_throws ref ?st1 \<and> map_of (ns_pendingAcks ?st1) (pb_id (ns_pubs ?st1 ! n)) \<noteq> None")
    case True
    then obtain m where m: "map_of (ns_pendingAcks ?st1) (pb_id (ns_pubs ?st1 ! n)) = Some m" by auto
    have f: "pub_report m (pub_finish m False (Some (js ''send failed'')) ?st1) = (st', os)"
      using assms(4) True m by (simp add: pub_send_def Let_def)
    have two: "pub_step A ?st1 st' os" by (rule finish_step [OF inv1 m _ f]) simp
    have len: "length (ns_pubs st') = length (ns_pubs ?st1)"
      using f by (auto simp: pub_report_def pub_finish_def tryReject_def pub_settle_def Let_def split: pub_phase.splits option.splits if_splits)
    have other: "ns_pubs st' ! n = ns_pubs ?st1 ! n" if "m \<noteq> n"
      using f n1 that
      by (auto simp: pub_report_def pub_finish_def tryReject_def pub_settle_def Let_def upd_pub_def split: pub_phase.splits option.splits if_splits)
    have self: "pb_phase (ns_pubs st' ! n) = pb_phase (ns_pubs ?st1 ! n)" if "m = n"
      using f n1 that
      by (auto simp: pub_report_def pub_finish_def tryReject_def pub_settle_def Let_def upd_pub_def looping_def
          split: pub_phase.splits option.splits if_splits)
    have "looping (ns_pubs st' ! n)"
      using other self n1(2) by (cases "m = n") (simp_all add: looping_def)
    then show ?thesis using pub_step_trans [OF one two] len n1 by simp
  next
    case False
    then have s: "st' = ?st1" "settled_pubs os = []"
      using assms(4) by (auto simp: pub_send_def Let_def split: if_splits option.splits)
    have "pub_step A ?st1 st' os" by (rule pub_step_quiet [OF inv1]) (simp_all add: s)
    then show ?thesis using pub_step_trans [OF one] n1 s by fastforce
  qed
qed

lemma pub_socket_step:
  assumes "pubs_inv A st" "n < length (ns_pubs st)" "looping (ns_pubs st ! n)" "pub_socket E n rest got st = (st', os)"
  shows "pub_step A st st' os"
proof (cases got)
  case None
  then show ?thesis using pub_next_step [OF assms(1-3)] assms(4) by (simp add: pub_socket_def)
next
  case (Some ref)
  obtain st1 os1 where s: "pub_send n ref st = (st1, os1)" by force
  obtain st2 os2 where x: "pub_next E n rest st1 = (st2, os2)" by force
  note one = pub_send_step [OF assms(1-3) s]
  then have "pubs_inv A st1" by (simp add: pub_step_def)
  from pub_next_step [OF this _ _ x] one pub_step_trans show ?thesis
    using assms(4) Some s x by (auto simp: pub_socket_def)
qed

lemma pub_event_step:
  assumes "pubs_inv A st" "n < length (ns_pubs st)" "pb_phase (ns_pubs st ! n) = PubContent c" "ns_relays st \<noteq> []"
    and "pub_event E n now rnd c st = (st', os)"
  shows "pub_step A st st' os"
proof -
  let ?p = "ns_pubs st ! n"
  obtain url rest where urls: "ns_relays st = url # rest" using assms(4) by (cases "ns_relays st") auto
  define ev where "ev = ne_finalize E (event_template (pb_room ?p) now c) rnd"
  define i where "i = str_of (fld ev ''id'')"
  define st0 where "st0 = upd_pub n (\<lambda>p. p\<lparr>pb_id := i, pb_frame := json_text (Arr [Str (js ''EVENT''), Obj ev]), pb_timer := True\<rparr>)
      (st\<lparr>ns_pendingAcks := al_set i n (ns_pendingAcks st)\<rparr>)"
  obtain st1 en os1 where e: "ensureSocket E url st0 = (st1, en, os1)" by (metis prod_cases3)
  note p = ensure_pubs [OF e]
  have st': "st' = upd_pub n (\<lambda>p. p\<lparr>pb_phase := PubSocket url rest en\<rparr>) st1" "os = os1"
    using assms(5) urls e unfolding pub_event_def Let_def pub_next_def st0_def i_def ev_def by auto
  let ?q = "?p\<lparr>pb_id := i, pb_frame := json_text (Arr [Str (js ''EVENT''), Obj ev]), pb_timer := True, pb_phase := PubSocket url rest en\<rparr>"
  have pubs: "ns_pubs st' = (ns_pubs st)[n := ?q]" "ns_pendingAcks st' = al_set i n (ns_pendingAcks st)"
    using p assms(2) by (simp_all add: st' upd_pub_def st0_def)
  have pok: "pub_ok A ?p" and pend: "pend_ok (ns_pendingAcks st) (ns_pubs st)"
    using assms(1,2) by (auto simp: pubs_inv_def)
  have "pend_ok (al_set i n (ns_pendingAcks st)) ((ns_pubs st)[n := ?q])"
    using pend_ok_set [OF pend assms(2), of ?q] pok assms(3) by (simp add: pub_ok_def)
  moreover have "settled_pubs os = []" using p by (simp add: st'(2))
  ultimately show ?thesis
    using pok assms(3) by (intro pub_step_one [OF assms(1,2) _ pubs(1)]) (auto simp: pubs pub_ok_def)
qed

subsection \<open>Every step\<close>

lemma resume_pub_step:
  assumes "pubs_inv A st" "ns_relays st \<noteq> []" "resume_pub E n now rnd nonce st = Some (st', os)"
  shows "pub_step A st st' os"
proof -
  let ?p = "ns_pubs st ! n"
  have n: "n < length (ns_pubs st)" using assms(3) by (auto simp: resume_pub_def split: if_splits)
  have pok: "pub_ok A ?p" and pend: "pend_ok (ns_pendingAcks st) (ns_pubs st)"
    using assms(1) n by (auto simp: pubs_inv_def)
  have over: "pub_step A st st' os"
    if "pub_over n (Some e) base = (st', os)" "ns_pubs base = ns_pubs st" "ns_pendingAcks base = ns_pendingAcks st"
      "pb_phase ?p \<in> {PubInit, PubKey}" for e base
    by (rule pub_step_one [OF assms(1) n, of _ "?p\<lparr>pb_phase := PubOver\<rparr>"])
      (use that pok pend n in \<open>auto simp: pub_over_def upd_pub_def pub_ok_def intro!: pend_ok_other\<close>)
  have goto: "pub_step A st (upd_pub n (\<lambda>p. p\<lparr>pb_phase := ph\<rparr>) base) os"
    if "ns_pubs base = ns_pubs st" "ns_pendingAcks base = ns_pendingAcks st" "settled_pubs os = []"
      "pb_phase ?p \<in> {PubInit, PubKey} \<and> (ph = PubKey \<or> (\<exists>c. ph = PubContent c))" for ph base
    by (rule pub_step_one [OF assms(1) n, of _ "?p\<lparr>pb_phase := ph\<rparr>"])
      (use that pok pend n in \<open>auto simp: upd_pub_def pub_ok_def intro!: pend_ok_other\<close>)
  show ?thesis
  proof (cases "pb_phase ?p")
    case PubInit
    then show ?thesis
      using assms(3) n over goto by (auto simp: resume_pub_def Let_def split: option.splits sum.splits)
  next
    case PubKey
    then show ?thesis
      using assms(3) n over [where base = st] goto [where base = st]
      by (auto simp: resume_pub_def Let_def split: option.splits sum.splits)
  next
    case (PubContent c)
    then show ?thesis
      using assms(3) n pub_event_step [OF assms(1) n PubContent assms(2)] by (auto simp: resume_pub_def)
  next
    case (PubSocket url rest en)
    have loop: "looping ?p" using PubSocket by (simp add: looping_def)
    show ?thesis
    proof (cases "\<exists>got. en = EnsureDone got")
      case True
      then show ?thesis
        using assms(3) n PubSocket pub_socket_step [OF assms(1) n loop] by (auto simp: resume_pub_def)
    next
      case False
      obtain st1 got os1 where f: "ensure_finish en st = (st1, got, os1)" by (metis prod_cases3)
      with assms(3) n PubSocket False
      have s: "st' = upd_pub n (\<lambda>p. p\<lparr>pb_phase := PubSocket url rest (EnsureDone got)\<rparr>) st1" "os = os1"
        by (auto simp: resume_pub_def Let_def split: if_splits ensure.splits)
      show ?thesis
        by (rule pub_step_one [OF assms(1) n, of _ "?p\<lparr>pb_phase := PubSocket url rest (EnsureDone got)\<rparr>"])
          (use finish_pubs [OF f] n PubSocket pok pend in \<open>auto simp: s upd_pub_def pub_ok_def intro!: pend_ok_keep\<close>)
    qed
  qed (use assms(3) n in \<open>auto simp: resume_pub_def\<close>)
qed

lemma publish_step:
  assumes "pubs_inv A st" "ns_publish r m st = (st', os)"
  shows "pub_step A st st' os"
proof -
  have new: "pub_step A st sx ox"
    if "ns_pubs sx = ns_pubs st @ [p]" "ns_pendingAcks sx = ns_pendingAcks st" "pub_ok A p"
      "settled_pubs ox = (if pb_phase p = PubOver then [(length (ns_pubs st), Some e)] else [])" for p e sx ox
    using assms(1) that
    by (auto simp: pub_step_def pubs_inv_def pend_ok_def pub_done_def nth_append less_Suc_eq split: if_splits)
  show ?thesis
    using assms(2) by (auto simp: ns_publish_def Let_def pub_ok_def intro!: new split: if_splits option.splits)
qed

lemma message_step:
  assumes "pubs_inv A st" "onRelayMessage t st = (st', os)" "\<forall>i. ack_of t = Some i \<longrightarrow> A i"
  shows "pub_step A st st' os"
proof -
  have quiet: "pub_step A st st' os" if "os = []" "st' = st \<or> (\<exists>subId ev. st' = handleEvent subId ev st)"
  proof -
    have "ns_pubs (handleEvent subId ev st) = ns_pubs st \<and> ns_pendingAcks (handleEvent subId ev st) = ns_pendingAcks st" for subId ev
      by (simp add: handleEvent_def split: option.splits prod.splits)
    with that assms(1) show ?thesis by (auto intro!: pub_step_quiet)
  qed
  have ack: "pub_step A st st' os"
    if "json_parse t = Some (Arr frame)" "item_at frame 0 = Str (js ''OK'')" "item_at frame 1 = Str i"
      "map_of (ns_pendingAcks st) i = Some n" "pub_report n (pub_finish n (truthy (item_at frame 2)) msg st) = (st', os)"
    for frame i n msg
    by (rule finish_step [OF assms(1) that(4) _ that(5)]) (use that(1-3) assms(3) in \<open>auto simp: ack_of_def\<close>)
  show ?thesis
    using assms(2) quiet ack
    by (auto simp: onRelayMessage_def split: option.splits jsval.splits if_splits)
qed

lemma settled_calls [simp]: "settled_pubs (map (\<lambda>h. NCall ref h i v) hs) = []"
  by (induction hs) (simp_all add: settled_pubs_def)

definition event_ack :: "ns_event \<Rightarrow> jsstring option" where
  "event_ack ev = (case ev of NsMessage ref t \<Rightarrow> ack_of t | _ \<Rightarrow> None)"

lemma req_next_quiet [simp]:
  "ns_pubs (fst (req_next E q urls s)) = ns_pubs s" "ns_pendingAcks (fst (req_next E q urls s)) = ns_pendingAcks s"
  "settled_pubs (snd (req_next E q urls s)) = []"
  by (auto simp: req_next_def split: list.splits prod.splits dest: ensure_pubs)

lemma resume_req_quiet:
  "resume_req E q st = Some p \<Longrightarrow>
   ns_pubs (fst p) = ns_pubs st \<and> ns_pendingAcks (fst p) = ns_pendingAcks st \<and> settled_pubs (snd p) = []"
  by (auto simp: resume_req_def split: if_splits option.splits ensure.splits dest!: finish_pubs)

lemma ns_step_pubs:
  assumes "pubs_inv A st" "ns_relays st \<noteq> []" "ns_step E ev st = Some (st', os)" "\<forall>i. event_ack ev = Some i \<longrightarrow> A i"
  shows "pub_step A st st' os"
proof -
  note quiet = pub_step_quiet [OF assms(1), of st' os]
  show ?thesis
  proof (cases ev)
    case (NsPublish r m)
    then show ?thesis using assms(3) publish_step [OF assms(1)] by simp
  next
    case (NsSubscribe r h)
    define s0 where "s0 = (if ns_v2 st then getV2RoomKey r st else st)"
    have same: "ns_pubs s0 = ns_pubs st" "ns_pendingAcks s0 = ns_pendingAcks st" by (simp_all add: s0_def)
    obtain s1 o1 where s1: "ns_start_room E r s0 = (s1, o1)" by force
    have "ns_pubs (fst (ns_start_room E r s)) = ns_pubs s \<and> ns_pendingAcks (fst (ns_start_room E r s)) = ns_pendingAcks s
        \<and> settled_pubs (snd (ns_start_room E r s)) = []" for s
      by (auto simp: ns_start_room_def newSubId_def Let_def)
    from this [of s0] have start: "ns_pubs s1 = ns_pubs st" "ns_pendingAcks s1 = ns_pendingAcks st" "settled_pubs o1 = []"
      by (simp_all add: s1 same)
    show ?thesis
      using NsSubscribe assms(3) same start
      by (intro quiet) (auto simp: ns_subscribe_def Let_def s0_def [symmetric] s1 split: if_splits option.splits)
  next
    case (NsUnsubscribe r h)
    then show ?thesis
      using assms(3) by (intro quiet) (auto simp: ns_unsubscribe_def Let_def split: if_splits option.splits)
  next
    case NsClose
    have f: "ns_pubs (fold ws_close refs s) = ns_pubs s \<and> ns_pendingAcks (fold ws_close refs s) = ns_pendingAcks s" for refs s
      by (induction refs arbitrary: s) (simp_all add: ws_close_def)
    have "settled_pubs (map (\<lambda>(url, ref). NWsClose ref) xs) = []" for xs :: "(jsstring \<times> nat) list"
      by (induction xs) (auto simp: settled_pubs_def)
    with NsClose f show ?thesis
      using assms(3) by (intro quiet) (auto simp: ns_close_def intro!: settled_concat split: if_splits)
  next
    case (NsResumePub n now rnd nonce)
    then show ?thesis using assms(3) resume_pub_step [OF assms(1,2)] by simp
  next
    case (NsResumeReq q)
    then show ?thesis
      using assms(3) resume_req_quiet [of E q st "(st', os)"] by (intro quiet) auto
  next
    case (NsResumeDecode d)
    then show ?thesis
      using assms(3)
      by (intro quiet) (auto simp: resume_decode_def dispatch_def Let_def split: if_splits option.splits decode_phase.splits sum.splits v2_result.splits)
  next
    case (NsAckTimeout n)
    then show ?thesis using assms(3) timeout_step [OF assms(1)] by (simp split: if_splits)
  next
    case (NsMessage ref t)
    then show ?thesis using assms(3,4) message_step [OF assms(1), of t st' os] by (simp add: event_ack_def split: if_splits)
  qed (use assms(3) in \<open>auto intro!: pub_step_quiet [OF assms(1)] simp: kat_done_def key_derived_def ws_opened_def ws_errored_def ws_closed_def Let_def
      split: if_splits\<close>)
qed

subsection \<open>What a caller of \<open>publish\<close> can rely on\<close>

definition acked :: "ns_event list \<Rightarrow> jsstring \<Rightarrow> bool" where
  "acked evs i = (\<exists>ev\<in>set evs. event_ack ev = Some i)"

lemma run_pubs:
  "pubs_inv A st \<Longrightarrow> ns_wf st \<Longrightarrow> ns_relays st \<noteq> [] \<Longrightarrow> run_events (ns_step E) evs st = Some (st', os) \<Longrightarrow>
   (\<forall>i. acked evs i \<longrightarrow> A i) \<Longrightarrow> pub_step A st st' os"
proof (induction evs arbitrary: st os)
  case Nil
  then show ?case by (simp add: pub_step_quiet)
next
  case (Cons ev evs)
  from Cons.prems(4) obtain st1 os1 os2 where s: "ns_step E ev st = Some (st1, os1)"
      "run_events (ns_step E) evs st1 = Some (st', os2)" "os = os1 @ os2"
    by (auto split: option.splits)
  have one: "pub_step A st st1 os1"
    by (rule ns_step_pubs [OF Cons.prems(1,3) s(1)]) (use Cons.prems(5) in \<open>auto simp: acked_def\<close>)
  moreover have "pub_step A st1 st' os2"
    using one ns_step_wf [OF Cons.prems(2) s(1)] Cons.prems(3,5) s(2)
    by (intro Cons.IH) (auto simp: pub_step_def acked_def)
  ultimately show ?case unfolding s(3) by (rule pub_step_trans)
qed

lemma new_nostr_pubs: "new_nostr relays ws v2 = Inr st \<Longrightarrow> pubs_inv A st \<and> ns_pubs st = []"
  by (auto simp: new_nostr_def pubs_inv_def pend_ok_def split: if_splits)

lemma run_new_pubs:
  assumes "new_nostr relays ws v2 = Inr st0" "run_events (ns_step E) evs st0 = Some (st, os)"
  shows "pub_step (acked evs) st0 st os"
  using run_pubs [OF _ _ _ assms(2), of "acked evs"] new_nostr_pubs [OF assms(1)] new_nostr_wf [OF assms(1)] by simp

lemma nostr_publish_settles_once:
  assumes "new_nostr relays ws v2 = Inr st0" "run_events (ns_step E) evs st0 = Some (st, os)"
  shows "distinct (map fst (settled_pubs os))"
    and "(n, None) \<in> set (settled_pubs os) \<Longrightarrow> acked evs (pb_id (ns_pubs st ! n))"
  using run_new_pubs [OF assms] unfolding pub_step_def by blast+

lemma nostr_publish_ends:
  assumes "new_nostr relays ws v2 = Inr st0" "run_events (ns_step E) evs st0 = Some (st, os)"
    and "n < length (ns_pubs st)" "pb_phase (ns_pubs st ! n) = PubAck"
  shows "\<exists>st'. ns_step E (NsAckTimeout n) st = Some (st', [NPublished n (Some (publish_error ''ack timeout''))])
    \<and> pb_phase (ns_pubs st' ! n) = PubOver"
proof -
  have "pub_ok (acked evs) (ns_pubs st ! n)"
    using run_new_pubs [OF assms(1,2)] assms(3) by (simp add: pub_step_def pubs_inv_def)
  then show ?thesis
    using assms(3,4) by (simp add: pub_ok_def ack_timeout_def Let_def pub_settle_def pub_report_def upd_pub_def)
qed

text \<open>Nobody handles the rejection when the timer fires before the loop over the relays is through.\<close>

lemma early_timeout_unhandled:
  assumes "n < length (ns_pubs st)" "pb_phase (ns_pubs st ! n) = PubSocket url rest en"
    and "\<not> pb_settled (ns_pubs st ! n)" "pb_timer (ns_pubs st ! n)"
  shows "\<exists>st'. ns_step E (NsAckTimeout n) st = Some (st', [NUnhandled (publish_error ''ack timeout'')])"
  using assms by (simp add: ack_timeout_def Let_def)

end
