(* ===== verification/Nostr_Deliver.thy ===== *)
theory Nostr_Deliver
  imports Nostr_Publish
begin

text \<open>
  The receiving side of the Nostr adapter: no handler sees an event twice, encryption is never given
  up, and what one adapter publishes reaches the handlers of another.
\<close>

subsection \<open>Every event at most once\<close>

text \<open>The events a room object has taken, each with its decoding, and the calls made.\<close>

definition ns_calls :: "ns_out list \<Rightarrow> (nat \<times> handler \<times> jsval) list" where
  "ns_calls os = concat (map (\<lambda>x. case x of NCall ref h i v \<Rightarrow> [(ref, h, i)] | _ \<Rightarrow> []) os)"

definition same_call :: "nat \<times> handler \<times> jsval \<Rightarrow> nat \<times> handler \<times> jsval \<Rightarrow> bool" where
  "same_call a b = (fst a = fst b \<and> fst (snd a) = fst (snd b) \<and> same_value (snd (snd a)) (snd (snd b)))"

definition taken_once :: "decoding list \<Rightarrow> bool" where
  "taken_once ds = (\<forall>i<length ds. \<forall>j<length ds. i \<noteq> j \<longrightarrow> dc_ref (ds ! i) = dc_ref (ds ! j) \<longrightarrow>
     \<not> same_value (dc_id (ds ! i)) (dc_id (ds ! j)))"

definition decodes_ok :: "nostr \<Rightarrow> bool" where
  "decodes_ok st \<longleftrightarrow> taken_once (ns_decodes st) \<and>
     (\<forall>k<length (ns_decodes st). dc_ref (ns_decodes st ! k) < length (ns_states st)
        \<and> dc_id (ns_decodes st ! k) \<in> set (nr_delivered (ns_states st ! dc_ref (ns_decodes st ! k))))"

definition calls_ok :: "ns_out list \<Rightarrow> nostr \<Rightarrow> bool" where
  "calls_ok os st \<longleftrightarrow> sorted_wrt (\<lambda>a b. \<not> same_call a b) (ns_calls os) \<and>
     (\<forall>x\<in>set (ns_calls os). \<exists>k<length (ns_decodes st).
        dc_phase (ns_decodes st ! k) = DecOver \<and> dc_ref (ns_decodes st ! k) = fst x \<and> dc_id (ns_decodes st ! k) = snd (snd x))"

lemma ns_calls_simps [simp]:
  "ns_calls [] = []" "ns_calls (a @ b) = ns_calls a @ ns_calls b" "ns_calls (NSend ref f # os) = ns_calls os"
  "ns_calls (NConstruct ref u # os) = ns_calls os" "ns_calls (NUnhandled e # os) = ns_calls os"
  "ns_calls (NPublished n r # os) = ns_calls os" "ns_calls (NWsClose ref # os) = ns_calls os"
  by (simp_all add: ns_calls_def)

lemma ns_calls_handlers [simp]: "ns_calls (map (\<lambda>h. NCall ref h i v) hs) = map (\<lambda>h. (ref, h, i)) hs"
  by (induction hs) (simp_all add: ns_calls_def)

lemma ns_calls_concat: "(\<And>x. x \<in> set xs \<Longrightarrow> ns_calls (f x) = []) \<Longrightarrow> ns_calls (concat (map f xs)) = []"
  by (induction xs) simp_all

lemma ns_calls_sends [simp]:
  "ns_calls (ws_send ref f st) = []" "ns_calls (resend_reqs ref st) = []" "ns_calls (closeReqOnAll subId st) = []"
  "ns_calls (req_send q ref st) = []"
proof -
  show "ns_calls (ws_send ref f st) = []" for f ref by (simp add: ws_send_def)
  then show "ns_calls (resend_reqs ref st) = []" "ns_calls (closeReqOnAll subId st) = []" "ns_calls (req_send q ref st) = []"
    by (auto simp: resend_reqs_def closeReqOnAll_def req_send_def Let_def intro!: ns_calls_concat)
qed

lemma same_value_sym: "same_value a b = same_value b a"
  by (cases a; cases b) auto

text \<open>Steps that take no event and call no handler.\<close>

definition no_event :: "nostr \<Rightarrow> ns_result \<Rightarrow> bool" where
  "no_event st p \<longleftrightarrow> ns_calls (snd p) = [] \<and> ns_decodes (fst p) = ns_decodes st
     \<and> length (ns_states st) \<le> length (ns_states (fst p))
     \<and> (\<forall>ref<length (ns_states st). nr_delivered (ns_states (fst p) ! ref) = nr_delivered (ns_states st ! ref))"

lemma no_eventI:
  "ns_calls os = [] \<Longrightarrow> ns_decodes st' = ns_decodes st \<Longrightarrow> ns_states st' = ns_states st \<Longrightarrow> no_event st (st', os)"
  by (simp add: no_event_def)

definition quiet_out :: "nostr \<Rightarrow> ns_result \<Rightarrow> bool" where
  "quiet_out st p \<longleftrightarrow> ns_calls (snd p) = [] \<and> ns_decodes (fst p) = ns_decodes st \<and> ns_states (fst p) = ns_states st"

lemma quiet_no_event: "quiet_out st p \<Longrightarrow> no_event st p"
  by (simp add: quiet_out_def no_event_def)

lemma quiet_ensure: "ensureSocket E url st = (st1, en, os) \<Longrightarrow> quiet_out st (st1, os)"
  by (auto simp: quiet_out_def ensureSocket_def make_socket_def Let_def split: option.splits ready_state.splits if_splits)

lemma quiet_finish: "ensure_finish en st = (st1, got, os) \<Longrightarrow> quiet_out st (st1, os)"
  by (cases en) (auto simp: quiet_out_def split: if_splits)

lemma settle_fields [simp]:
  "ns_decodes (pub_settle n r st) = ns_decodes st" "ns_states (pub_settle n r st) = ns_states st"
  "ns_decodes (tryReject n st) = ns_decodes st" "ns_states (tryReject n st) = ns_states st"
  "ns_decodes (pub_finish n b m st) = ns_decodes st" "ns_states (pub_finish n b m st) = ns_states st"
  "ns_decodes (cancelAckTimeout n st) = ns_decodes st" "ns_states (cancelAckTimeout n st) = ns_states st"
  by (simp_all add: pub_settle_def tryReject_def pub_finish_def cancelAckTimeout_def Let_def)

lemma quiet_report [simp]:
  "ns_calls (snd (pub_report n st)) = []" "ns_decodes (fst (pub_report n st)) = ns_decodes st"
  "ns_states (fst (pub_report n st)) = ns_states st"
  by (simp_all add: pub_report_def split: pub_phase.splits option.splits)

lemma quiet_pubs [simp]:
  "quiet_out st (ack_timeout n st)" "quiet_out st (pub_loop_end n st)" "quiet_out st (ns_publish r m st)"
  "quiet_out st (pub_over n e st)"
  by (simp_all add: quiet_out_def ack_timeout_def pub_loop_end_def pub_over_def ns_publish_def Let_def
      split: pub_phase.splits option.splits)

lemma quiet_pub_next [simp]: "quiet_out st (pub_next E n urls st)"
  using quiet_ensure [of E "hd urls" st] quiet_pubs(2) [of st n]
  by (auto simp: pub_next_def quiet_out_def split: list.splits prod.splits)

lemma quiet_pub_send [simp]: "quiet_out st (pub_send n ref st)"
  by (simp add: pub_send_def quiet_out_def Let_def split: option.splits)

lemma quiet_pub_socket [simp]: "quiet_out st (pub_socket E n rest got st)"
proof (cases got)
  case (Some ref)
  obtain st1 os1 where s: "pub_send n ref st = (st1, os1)" by force
  then show ?thesis
    using quiet_pub_send [of st n ref] quiet_pub_next [of st1 E n rest] by (simp add: Some pub_socket_def quiet_out_def)
qed (simp add: pub_socket_def)

lemma quiet_pub_event [simp]: "quiet_out st (pub_event E n now rnd c st)"
  using quiet_pub_next [of "upd_pub n f (st\<lparr>ns_pendingAcks := a\<rparr>)" E n urls for f a urls]
  by (simp add: pub_event_def Let_def quiet_out_def)

lemma quiet_resume_pub: "resume_pub E n now rnd nonce st = Some p \<Longrightarrow> quiet_out st p"
  by (auto simp: resume_pub_def Let_def quiet_out_def pub_over_def dest!: quiet_finish
      split: if_splits pub_phase.splits option.splits sum.splits ensure.splits
      simp: quiet_pub_event [unfolded quiet_out_def] quiet_pub_socket [unfolded quiet_out_def])

lemma quiet_req_next [simp]: "quiet_out st (req_next E q urls st)"
  using quiet_ensure [of E "hd urls" st]
  by (auto simp: req_next_def quiet_out_def split: list.splits prod.splits)

lemma quiet_resume_req: "resume_req E q st = Some p \<Longrightarrow> quiet_out st p"
  by (auto simp: resume_req_def quiet_out_def dest!: quiet_finish split: if_splits option.splits ensure.splits
      simp: quiet_req_next [unfolded quiet_out_def])

lemma no_event_subscribe: "ns_subscribe E r h st = Some p \<Longrightarrow> no_event st p"
proof -
  assume p: "ns_subscribe E r h st = Some p"
  define s0 where "s0 = (if ns_v2 st then getV2RoomKey r st else st)"
  have same: "ns_states s0 = ns_states st" "ns_decodes s0 = ns_decodes st" by (simp_all add: s0_def)
  obtain s1 o1 where s1: "ns_start_room E r s0 = (s1, o1)" by force
  obtain s00 subId where s00: "newSubId r s0 = (s00, subId)" by force
  then have same': "ns_states s00 = ns_states s0" "ns_decodes s00 = ns_decodes s0" by (auto simp: newSubId_def Let_def)
  let ?s2 = "s00\<lparr>ns_states := ns_states s0 @ [\<lparr>nr_handlers = [], nr_subId = subId, nr_delivered = []\<rparr>],
             ns_rooms := al_set r (length (ns_states s0)) (ns_rooms s00),
             ns_reqs := ns_reqs s00 @ [\<lparr>rq_room = r, rq_ref = length (ns_states s0), rq_wait = None\<rparr>]\<rparr>"
  have "req_next E (length (ns_reqs s0)) (ns_relays s0) ?s2 = (s1, o1)"
    using s1 by (simp add: ns_start_room_def Let_def s00 same')
  then have start: "ns_calls o1 = []" "ns_decodes s1 = ns_decodes st"
      "ns_states s1 = ns_states st @ [\<lparr>nr_handlers = [], nr_subId = subId, nr_delivered = []\<rparr>]"
    using quiet_req_next [of ?s2 E "length (ns_reqs s0)" "ns_relays s0"] by (simp_all add: quiet_out_def same same')
  show ?thesis
    using p start same
    by (auto simp: ns_subscribe_def Let_def s0_def [symmetric] s1 no_event_def upd_room_def nth_upd nth_append
        split: if_splits option.splits)
qed

lemma no_event_unsubscribe: "no_event st (ns_unsubscribe r h st)"
  by (auto simp: no_event_def ns_unsubscribe_def Let_def upd_room_def nth_upd split: option.splits)

lemma no_event_close: "no_event st (ns_close st)"
proof -
  have f: "ns_decodes (fold ws_close refs s) = ns_decodes s \<and> ns_states (fold ws_close refs s) = ns_states s" for refs s
    by (induction refs arbitrary: s) (simp_all add: ws_close_def)
  have "ns_calls (map (\<lambda>(url, ref). NWsClose ref) xs) = []" for xs :: "(jsstring \<times> nat) list"
    by (induction xs) (auto simp: ns_calls_def)
  with f show ?thesis by (auto simp: no_event_def ns_close_def intro!: ns_calls_concat)
qed

lemma no_event_keeps:
  assumes "no_event st (st', os')" "decodes_ok st" "calls_ok os st"
  shows "decodes_ok st' \<and> calls_ok (os @ os') st'"
proof -
  have e: "ns_decodes st' = ns_decodes st" "ns_calls os' = []" "length (ns_states st) \<le> length (ns_states st')"
    using assms(1) by (auto simp: no_event_def)
  have same: "nr_delivered (ns_states st' ! ref) = nr_delivered (ns_states st ! ref)" if "ref < length (ns_states st)" for ref
    using assms(1) that by (auto simp: no_event_def)
  have "decodes_ok st'"
    unfolding decodes_ok_def e
  proof (intro conjI allI impI)
    show "taken_once (ns_decodes st)" using assms(2) by (simp add: decodes_ok_def)
    fix k assume "k < length (ns_decodes st)"
    then have k: "dc_ref (ns_decodes st ! k) < length (ns_states st)"
        "dc_id (ns_decodes st ! k) \<in> set (nr_delivered (ns_states st ! dc_ref (ns_decodes st ! k)))"
      using assms(2) by (auto simp: decodes_ok_def)
    then show "dc_ref (ns_decodes st ! k) < length (ns_states st')"
      "dc_id (ns_decodes st ! k) \<in> set (nr_delivered (ns_states st' ! dc_ref (ns_decodes st ! k)))"
      using e(3) same by auto
  qed
  then show ?thesis using assms(3) by (simp add: calls_ok_def e)
qed

lemma taken_once_snoc:
  "taken_once ds \<Longrightarrow> (\<And>k. k < length ds \<Longrightarrow> dc_ref (ds ! k) = dc_ref d \<Longrightarrow> \<not> same_value (dc_id (ds ! k)) (dc_id d)) \<Longrightarrow>
   taken_once (ds @ [d])"
  unfolding taken_once_def
  by (auto simp: nth_append less_Suc_eq) (metis same_value_sym)

lemma handleEvent_cases:
  obtains "handleEvent subId ev st = st"
  | r ref where "find (\<lambda>(roomId, ref). nr_subId (ns_states st ! ref) = subId) (ns_rooms st) = Some (r, ref)"
      "\<not> list_ex (same_value (fld ev ''id'')) (nr_delivered (ns_states st ! ref))"
      "handleEvent subId ev st = upd_room ref (\<lambda>r. r\<lparr>nr_delivered := nr_delivered r @ [fld ev ''id'']\<rparr>) st
              \<lparr>ns_decodes := ns_decodes st @ [\<lparr>dc_room = r, dc_ref = ref, dc_id = fld ev ''id'',
                dc_content = fld ev ''content'', dc_phase = decode_start (fld ev ''content'') st\<rparr>]\<rparr>"
proof (cases "find (\<lambda>(roomId, ref). nr_subId (ns_states st ! ref) = subId) (ns_rooms st)")
  case None
  then show ?thesis by (intro that(1)) (simp add: handleEvent_def)
next
  case (Some p)
  obtain r ref where p: "p = (r, ref)" by force
  show ?thesis
  proof (cases "fld ev ''kind'' = jint SENN_NOSTR_KIND \<and> \<not> list_ex (same_value (fld ev ''id'')) (nr_delivered (ns_states st ! ref))")
    case True
    then show ?thesis using Some p by (intro that(2) [of r ref]) (simp_all add: handleEvent_def)
  next
    case False
    then show ?thesis using Some p by (intro that(1)) (auto simp: handleEvent_def)
  qed
qed

lemma handleEvent_once:
  assumes "ns_wf st" "decodes_ok st" "calls_ok os st"
  shows "decodes_ok (handleEvent subId ev st) \<and> calls_ok os (handleEvent subId ev st)"
proof (cases rule: handleEvent_cases [of subId ev st])
  case 1
  then show ?thesis using assms by simp
next
  case (2 r ref)
  note f = 2(1) and new = 2(2) and st' = 2(3)
  have "(r, ref) \<in> set (ns_rooms st)" using f by (auto simp: find_Some_iff in_set_conv_nth)
  then have ref: "ref < length (ns_states st)" using assms(1) by (auto simp: ns_wf_def rooms_ok_def ns_hs_def)
  have "\<not> same_value (dc_id (ns_decodes st ! k)) (fld ev ''id'')"
    if "k < length (ns_decodes st)" "dc_ref (ns_decodes st ! k) = ref" for k
    using assms(2) that new unfolding decodes_ok_def by (metis list_ex_iff same_value_sym)
  then have "taken_once (ns_decodes (handleEvent subId ev st))"
    using assms(2) by (auto simp: st' decodes_ok_def intro!: taken_once_snoc)
  moreover have "dc_ref (ns_decodes (handleEvent subId ev st) ! k) < length (ns_states st)
      \<and> dc_id (ns_decodes (handleEvent subId ev st) ! k)
        \<in> set (nr_delivered (ns_states (handleEvent subId ev st) ! dc_ref (ns_decodes (handleEvent subId ev st) ! k)))"
    if k: "k < Suc (length (ns_decodes st))" for k
  proof (cases "k = length (ns_decodes st)")
    case False
    with k assms(2) have "dc_ref (ns_decodes st ! k) < length (ns_states st)
        \<and> dc_id (ns_decodes st ! k) \<in> set (nr_delivered (ns_states st ! dc_ref (ns_decodes st ! k)))"
      by (auto simp: decodes_ok_def)
    with False k ref show ?thesis by (auto simp: st' upd_room_def nth_upd nth_append)
  qed (use ref in \<open>simp add: st' upd_room_def nth_upd\<close>)
  moreover have "calls_ok os (handleEvent subId ev st)"
    unfolding calls_ok_def
  proof (intro conjI ballI)
    show "sorted_wrt (\<lambda>a b. \<not> same_call a b) (ns_calls os)" using assms(3) by (simp add: calls_ok_def)
    fix x assume "x \<in> set (ns_calls os)"
    then obtain k where "k < length (ns_decodes st)" "dc_phase (ns_decodes st ! k) = DecOver"
        "dc_ref (ns_decodes st ! k) = fst x" "dc_id (ns_decodes st ! k) = snd (snd x)"
      using assms(3) by (auto simp: calls_ok_def)
    then show "\<exists>k<length (ns_decodes (handleEvent subId ev st)). dc_phase (ns_decodes (handleEvent subId ev st) ! k) = DecOver
        \<and> dc_ref (ns_decodes (handleEvent subId ev st) ! k) = fst x \<and> dc_id (ns_decodes (handleEvent subId ev st) ! k) = snd (snd x)"
      by (intro exI [of _ k]) (simp add: st' nth_append)
  qed
  ultimately show ?thesis by (simp add: decodes_ok_def st')
qed

lemma resume_decode_once:
  assumes "ns_wf st" "decodes_ok st" "calls_ok os st" "resume_decode E d st = Some (st', os')"
  shows "decodes_ok st' \<and> calls_ok (os @ os') st'"
proof -
  let ?t = "ns_decodes st ! d"
  have d: "d < length (ns_decodes st)" "dc_phase ?t \<noteq> DecOver"
    using assms(4) by (auto simp: resume_decode_def dispatch_def Let_def split: if_splits)
  obtain ph where st': "ns_decodes st' = (ns_decodes st)[d := ?t\<lparr>dc_phase := ph\<rparr>]" "ns_states st' = ns_states st"
    and calls: "ns_calls os' = [] \<or> ph = DecOver \<and> ns_calls os' = map (\<lambda>h. (dc_ref ?t, h, dc_id ?t)) (nr_handlers (ns_states st ! dc_ref ?t))"
    using assms(4) d
    by (auto simp: resume_decode_def dispatch_def Let_def upd_decode_def getV2RoomKey_def
        split: decode_phase.splits option.splits sum.splits v2_result.splits if_splits)
  have dec: "dc_ref (ns_decodes st' ! k) = dc_ref (ns_decodes st ! k)" "dc_id (ns_decodes st' ! k) = dc_id (ns_decodes st ! k)"
      "dc_phase (ns_decodes st ! k) = DecOver \<Longrightarrow> dc_phase (ns_decodes st' ! k) = DecOver"
    if "k < length (ns_decodes st)" for k
    using that d by (auto simp: st' nth_upd)
  have len: "length (ns_decodes st') = length (ns_decodes st)" by (simp add: st')
  have ok: "decodes_ok st'"
    using assms(2) dec unfolding decodes_ok_def taken_once_def len st'(2) by simp
  have old: "\<exists>k<length (ns_decodes st'). k \<noteq> d
        \<and> dc_phase (ns_decodes st' ! k) = DecOver \<and> dc_ref (ns_decodes st' ! k) = fst x \<and> dc_id (ns_decodes st' ! k) = snd (snd x)"
    if "x \<in> set (ns_calls os)" for x
    using assms(3) dec d(2) that unfolding calls_ok_def len by metis
  have "calls_ok (os @ os') st'"
  proof (cases "ns_calls os' = []")
    case True
    then show ?thesis using assms(3) old unfolding calls_ok_def by (simp only: True append_Nil2 ns_calls_simps) blast
  next
    case False
    with calls have ph: "ph = DecOver" and c: "ns_calls os' = map (\<lambda>h. (dc_ref ?t, h, dc_id ?t)) (nr_handlers (ns_states st ! dc_ref ?t))"
      by auto
    have "dc_ref ?t < length (ns_states st)" using assms(2) d(1) by (auto simp: decodes_ok_def)
    then have dist: "distinct (nr_handlers (ns_states st ! dc_ref ?t))"
      using assms(1) by (auto simp: ns_wf_def rooms_ok_def ns_hs_def list_all_length)
    have new: "dc_phase (ns_decodes st' ! d) = DecOver" "dc_ref (ns_decodes st' ! d) = dc_ref ?t" "dc_id (ns_decodes st' ! d) = dc_id ?t"
      using d ph by (simp_all add: st')
    have "sorted_wrt (\<lambda>a b. \<not> same_call a b) (ns_calls os')"
      using dist unfolding c by (induction "nr_handlers (ns_states st ! dc_ref ?t)") (auto simp: same_call_def sorted_wrt_map distinct_conv_nth sorted_wrt_iff_nth_less)
    moreover have "\<not> same_call a b" if a: "a \<in> set (ns_calls os)" and b: "b \<in> set (ns_calls os')" for a b
    proof -
      obtain k where k: "k < length (ns_decodes st')" "k \<noteq> d" "dc_ref (ns_decodes st' ! k) = fst a" "dc_id (ns_decodes st' ! k) = snd (snd a)"
        using old [OF a] by blast
      have "\<not> same_value (snd (snd a)) (dc_id ?t)" if "fst a = dc_ref ?t"
        using ok k that new d(1) len unfolding decodes_ok_def taken_once_def by metis
      then show ?thesis using b by (auto simp: c same_call_def)
    qed
    moreover have "\<exists>k<length (ns_decodes st'). dc_phase (ns_decodes st' ! k) = DecOver \<and> dc_ref (ns_decodes st' ! k) = fst x
        \<and> dc_id (ns_decodes st' ! k) = snd (snd x)" if "x \<in> set (ns_calls os')" for x
      using that new d(1) len by (auto simp: c)
    ultimately show ?thesis
      using assms(3) old unfolding calls_ok_def ns_calls_simps sorted_wrt_append set_append by blast
  qed
  with ok show ?thesis by simp
qed

lemma ns_step_once:
  assumes "ns_wf st" "decodes_ok st" "calls_ok os st" "ns_step E ev st = Some (st', os')"
  shows "decodes_ok st' \<and> calls_ok (os @ os') st'"
proof -
  have quiet: "quiet_out st (st', os') \<Longrightarrow> ?thesis"
    by (rule no_event_keeps [OF quiet_no_event assms(2,3)])
  show ?thesis
  proof (cases ev)
    case (NsPublish r m)
    with assms(4) have "ns_publish r m st = (st', os')" by simp
    then show ?thesis using quiet quiet_pubs(3) by metis
  next
    case (NsSubscribe r h)
    with assms(4) show ?thesis using no_event_keeps [OF no_event_subscribe assms(2,3)] by simp
  next
    case (NsUnsubscribe r h)
    with assms(4) have "ns_unsubscribe r h st = (st', os')" by simp
    then show ?thesis using no_event_keeps [OF _ assms(2,3)] no_event_unsubscribe by metis
  next
    case NsClose
    with assms(4) have "ns_close st = (st', os')" by simp
    then show ?thesis using no_event_keeps [OF _ assms(2,3)] no_event_close by metis
  next
    case (NsResumePub n now rnd nonce)
    with assms(4) show ?thesis using quiet [OF quiet_resume_pub] by simp
  next
    case (NsResumeReq q)
    with assms(4) show ?thesis using quiet [OF quiet_resume_req] by simp
  next
    case (NsResumeDecode d)
    with assms(4) show ?thesis using resume_decode_once [OF assms(1-3)] by simp
  next
    case (NsAckTimeout n)
    with assms(4) have "ack_timeout n st = (st', os')" by (simp split: if_splits)
    then show ?thesis using quiet quiet_pubs(1) by metis
  next
    case (NsMessage ref t)
    with assms(4) have m: "onRelayMessage t st = (st', os')" by (simp split: if_splits)
    have "quiet_out st (st', os') \<or> (os' = [] \<and> (\<exists>subId event. st' = handleEvent subId event st))"
      using m by (auto simp: onRelayMessage_def quiet_out_def split: option.splits jsval.splits if_splits)
        (metis quiet_report settle_fields(5,6) fst_conv snd_conv)+
    then show ?thesis using quiet handleEvent_once [OF assms(1-3)] by auto
  qed (rule quiet, use assms(4) in \<open>(auto simp: quiet_out_def kat_done_def key_derived_def ws_opened_def ws_errored_def ws_closed_def Let_def
      split: if_splits)[1]\<close>)+
qed

interpretation nostr_once: monitored "ns_step E" "\<lambda>os st. ns_wf st \<and> decodes_ok st \<and> calls_ok os st" for E
proof unfold_locales
  fix os st ev st' os'
  assume "ns_wf st \<and> decodes_ok st \<and> calls_ok os st" "ns_step E ev st = Some (st', os')"
  then show "ns_wf st' \<and> decodes_ok st' \<and> calls_ok (os @ os') st'"
    using ns_step_once [of st os E ev st' os'] ns_step_wf [of st E ev st' os'] by blast
qed

lemma new_nostr_empty: "new_nostr relays ws v2 = Inr st \<Longrightarrow> ns_decodes st = [] \<and> ns_pubs st = [] \<and> ns_roomKeys st = [] \<and> ns_init st = None"
  by (auto simp: new_nostr_def split: if_splits)

lemma nostr_delivers_once:
  assumes "new_nostr relays ws v2 = Inr st0" "reach (ns_step E) st0 os st"
  shows "sorted_wrt (\<lambda>a b. \<not> same_call a b) (ns_calls os)"
proof -
  have "ns_wf st0 \<and> decodes_ok st0 \<and> calls_ok [] st0"
    using new_nostr_wf [OF assms(1)] new_nostr_empty [OF assms(1)]
    by (simp add: decodes_ok_def taken_once_def calls_ok_def)
  then show ?thesis using nostr_once.reach_monitored [OF assms(2)] by (simp add: calls_ok_def)
qed

subsection \<open>From one adapter to another\<close>

text \<open>What the code relies on in \<open>finalizeEvent\<close>: it signs the event it is given and names it.\<close>

definition finalize_ok :: "nostr_env \<Rightarrow> bool" where
  "finalize_ok E = (\<forall>t rnd. let ev = ne_finalize E t rnd in
     fld ev ''kind'' = fld t ''kind'' \<and> fld ev ''content'' = fld t ''content'' \<and> is_str (fld ev ''id''))"

definition event_of :: "nostr_env \<Rightarrow> jsstring \<Rightarrow> nat \<Rightarrow> bytes \<Rightarrow> jsstring \<Rightarrow> jsfields" where
  "event_of E r now rnd c = ne_finalize E (event_template r now c) rnd"

definition event_frame :: "jsfields \<Rightarrow> jsstring" where
  "event_frame ev = json_text (Arr [Str (js ''EVENT''), Obj ev])"

text \<open>A relay hands the event to a subscription.\<close>

definition relayed :: "jsstring \<Rightarrow> jsfields \<Rightarrow> jsstring" where
  "relayed subId ev = json_text (Arr [Str (js ''EVENT''), Str subId, Obj ev])"

lemma json_parse_text: "json_clean v \<Longrightarrow> json_parse (json_text v) = Some v"
  using json_str_Undef [of v] json_parse_str [of v] by (cases v; cases "json_str v") (auto simp: json_text_def)

text \<open>Sending: with a socket that is open, the frame goes out and the publication waits.\<close>

lemma send_content:
  assumes "n < length (ns_pubs st)" "pb_phase (ns_pubs st ! n) = PubContent c" "pb_relayCount (ns_pubs st ! n) = 0"
    and "pb_nacked (ns_pubs st ! n) = 0" "\<not> pb_settled (ns_pubs st ! n)" "pb_outcome (ns_pubs st ! n) = None"
    and "ns_relays st = [url]" "map_of (ns_sockets st) url = Some w" "ws_ready (ns_ws st ! w) = Open"
  shows "\<exists>st'. run_events (ns_step E) [NsResumePub n now rnd nc, NsResumePub n 0 [] []] st
      = Some (st', [NSend w (event_frame (event_of E (pb_room (ns_pubs st ! n)) now rnd c))])
    \<and> pb_phase (ns_pubs st' ! n) = PubAck"
  using assms
  by (simp add: resume_pub_def Let_def pub_event_def pub_next_def ensureSocket_def pub_socket_def pub_send_def send_throws_def
      ws_send_def pub_loop_end_def tryReject_def pub_report_def upd_pub_def event_frame_def event_of_def)

lemma publish_sends:
  assumes "\<not> ns_closed st" "\<not> ns_v2 st" "ns_relays st = [url]" "map_of (ns_sockets st) url = Some w" "ws_ready (ns_ws st ! w) = Open"
  shows "\<exists>st'. run_events (ns_step E) [NsPublish r m, NsResumePub (length (ns_pubs st)) now rnd [], NsResumePub (length (ns_pubs st)) 0 [] []] st
      = Some (st', [NSend w (event_frame (event_of E r now rnd (json_text (msg_val m))))])"
  using assms
  by (simp add: ns_publish_def resume_pub_def Let_def pub_event_def pub_next_def ensureSocket_def pub_socket_def pub_send_def send_throws_def
      ws_send_def pub_loop_end_def tryReject_def pub_report_def upd_pub_def event_frame_def event_of_def)

text \<open>The one room a subscription id belongs to.\<close>

definition sub_of :: "nostr \<Rightarrow> jsstring \<Rightarrow> nat \<Rightarrow> jsstring \<Rightarrow> bool" where
  "sub_of st r ref subId = (map_of (ns_rooms st) r = Some ref \<and> nr_subId (ns_states st ! ref) = subId
     \<and> list_all (\<lambda>(r', ref'). nr_subId (ns_states st ! ref') = subId \<longrightarrow> r' = r) (ns_rooms st))"

lemma sub_of_find:
  assumes "ns_wf st" "sub_of st r ref subId"
  shows "find (\<lambda>(roomId, ref). nr_subId (ns_states st ! ref) = subId) (ns_rooms st) = Some (r, ref)"
proof -
  have d: "distinct (map fst (ns_rooms st))" using assms(1) by (simp add: ns_wf_def rooms_ok_def)
  have m: "(r, ref) \<in> set (ns_rooms st)" using assms(2) by (auto simp: sub_of_def dest: map_of_SomeD)
  have u: "x = (r, ref)" if "x \<in> set (ns_rooms st)" "nr_subId (ns_states st ! snd x) = subId" for x
  proof -
    have "fst x = r" using assms(2) that by (auto simp: sub_of_def list_all_iff)
    with that m d show ?thesis by (metis eq_key_imp_eq_value prod.collapse)
  qed
  obtain y where y: "find (\<lambda>(roomId, ref). nr_subId (ns_states st ! ref) = subId) (ns_rooms st) = Some y"
    using m assms(2) find_None_iff [of "\<lambda>(roomId, ref). nr_subId (ns_states st ! ref) = subId" "ns_rooms st"]
    by (cases "find (\<lambda>(roomId, ref). nr_subId (ns_states st ! ref) = subId) (ns_rooms st)") (auto simp: sub_of_def)
  then have "y \<in> set (ns_rooms st)" "nr_subId (ns_states st ! snd y) = subId"
    by (auto simp: find_Some_iff in_set_conv_nth)
  with u y show ?thesis by simp
qed

lemma event_taken:
  assumes "ns_wf st" "sub_of st r ref subId" "finalize_ok E" "ev = event_of E r' now rnd c"
    and "json_clean (Arr [Str (js ''EVENT''), Str subId, Obj ev])" "fld ev ''id'' \<notin> set (nr_delivered (ns_states st ! ref))"
    and "w < length (ns_ws st)" "ws_ready (ns_ws st ! w) = Open"
  shows "ns_step E (NsMessage w (relayed subId ev)) st
    = Some (upd_room ref (\<lambda>p. p\<lparr>nr_delivered := nr_delivered p @ [fld ev ''id'']\<rparr>) st
        \<lparr>ns_decodes := ns_decodes st @ [\<lparr>dc_room = r, dc_ref = ref, dc_id = fld ev ''id'', dc_content = Str c,
          dc_phase = decode_start (Str c) st\<rparr>]\<rparr>, [])"
proof -
  have ev: "fld ev ''kind'' = jint SENN_NOSTR_KIND" "fld ev ''content'' = Str c" "is_str (fld ev ''id'')"
    using assms(3) unfolding finalize_ok_def assms(4) event_of_def Let_def by (simp_all add: event_template_def)
  have "\<not> list_ex (same_value (fld ev ''id'')) (nr_delivered (ns_states st ! ref))"
    using assms(6) ev(3) by (cases "fld ev ''id''") (auto simp: list_ex_iff)
  then show ?thesis
    using assms(7,8) sub_of_find [OF assms(1,2)] ev(1,2) json_parse_text [OF assms(5)]
    by (simp add: onRelayMessage_def relayed_def item_at_def handleEvent_def)
qed

lemma ns_plain_delivery:
  assumes "ns_wf st" "sub_of st r ref subId" "finalize_ok E" "ev = event_of E r' now rnd (json_text (msg_val m))"
    and "json_clean (Arr [Str (js ''EVENT''), Str subId, Obj ev])" "fld ev ''id'' \<notin> set (nr_delivered (ns_states st ! ref))"
    and "w < length (ns_ws st)" "ws_ready (ns_ws st ! w) = Open"
    and "\<not> ns_v2 st" "json_clean (msg_val m)"
  shows "\<exists>st'. run_events (ns_step E) [NsMessage w (relayed subId ev), NsResumeDecode (length (ns_decodes st))] st
    = Some (st', map (\<lambda>h. NCall ref h (fld ev ''id'') (msg_val m)) (ns_listeners st r))"
proof -
  have ref: "map_of (ns_rooms st) r = Some ref" using assms(2) by (simp add: sub_of_def)
  have len: "ref < length (ns_states st)"
    using rooms_live(1) [of "ns_rooms st" "ns_hs st" "ns_closed st" r ref] assms(1) ref by (simp add: ns_wf_def ns_hs_def)
  have l: "ns_listeners st r = nr_handlers (ns_states st ! ref)"
    using ref len by (simp add: ns_listeners_def rooms_table_def ns_hs_def)
  have p: "plain_content (Str (json_text (msg_val m))) = Some (msg_val m)"
    using json_parse_text [OF assms(10)] by (simp add: plain_content_def)
  have "truthy (msg_val m)" by (simp add: msg_val_def)
  then show ?thesis
    using event_taken [OF assms(1-8)] assms(9) p l len
    by (simp add: resume_decode_def dispatch_def decode_start_def Let_def upd_room_def)
qed

lemma ns_encrypted_delivery:
  assumes "ns_wf st" "sub_of st r ref subId" "finalize_ok E" "ev = event_of E r' now rnd c"
    and "json_clean (Arr [Str (js ''EVENT''), Str subId, Obj ev])" "fld ev ''id'' \<notin> set (nr_delivered (ns_states st ! ref))"
    and "w < length (ns_ws st)" "ws_ready (ns_ws st ! w) = Open"
    and "ns_v2 st" "ns_katError st = None" "ns_init st = Some (Inr ())" "map_of (ns_roomKeys st) r = Some (Some (Inr key))"
    and "tryDecryptV2 (ne_cipher E) (Str c) key = Inr (V2Message (msg_val m))"
  shows "\<exists>st'. run_events (ns_step E) (NsMessage w (relayed subId ev) # replicate 3 (NsResumeDecode (length (ns_decodes st)))) st
    = Some (st', map (\<lambda>h. NCall ref h (fld ev ''id'') (msg_val m)) (ns_listeners st r))"
proof -
  have ref: "map_of (ns_rooms st) r = Some ref" using assms(2) by (simp add: sub_of_def)
  have len: "ref < length (ns_states st)"
    using rooms_live(1) [of "ns_rooms st" "ns_hs st" "ns_closed st" r ref] assms(1) ref by (simp add: ns_wf_def ns_hs_def)
  have l: "ns_listeners st r = nr_handlers (ns_states st ! ref)"
    using ref len by (simp add: ns_listeners_def rooms_table_def ns_hs_def)
  have "truthy (msg_val m)" by (simp add: msg_val_def)
  then show ?thesis
    using event_taken [OF assms(1-8)] assms(9-) l len
    by (simp add: resume_decode_def dispatch_def decode_start_def Let_def upd_room_def upd_decode_def getV2RoomKey_def eval_nat_numeral)
qed

subsection \<open>After \<open>close\<close>\<close>

text \<open>
  A subscription that is still opening its relays goes on after \<open>close\<close>: it makes a socket to the next
  relay, which nothing closes any more, since a second \<open>close\<close> does nothing.
\<close>

lemma socket_after_close:
  assumes "new_nostr [u, v] True False = Inr st0" "ne_url_ok E u" "ne_url_ok E v" "u \<noteq> v"
  shows "\<exists>st. run_events (ns_step E) [NsSubscribe r h, NsClose, NsErrored 0, NsResumeReq 0, NsResumeReq 0, NsOpened 1] st0
      = Some (st, [NConstruct 0 u, NWsClose 0, NConstruct 1 v])
    \<and> ns_closed st \<and> ws_ready (ns_ws st ! 1) = Open \<and> ns_step E NsClose st = Some (st, [])"
proof -
  have st0: "st0 = \<lparr>ns_relays = [u, v], ns_sockets = [], ns_rooms = [], ns_closed = False, ns_subCounter = 0,
        ns_pendingAcks = [], ns_v2 = False, ns_init = None, ns_katError = None, ns_roomKeys = [],
        ns_ws = [], ns_states = [], ns_pubs = [], ns_reqs = [], ns_decodes = []\<rparr>"
    using assms(1) by (simp add: new_nostr_def)
  show ?thesis
    using assms(2-4)
    by (simp add: st0 ns_subscribe_def ns_start_room_def newSubId_def Let_def req_next_def ensureSocket_def make_socket_def
        upd_req_def upd_room_def ns_close_def closeReqOnAll_def ws_send_def ws_close_def upd_ws_def ws_errored_def
        resume_req_def ws_opened_def)
qed

text \<open>An event whose decoding is under way reaches the handlers although the adapter is closed by then.\<close>

lemma call_after_close:
  assumes "d < length (ns_decodes st)" "dc_phase (ns_decodes st ! d) = DecResult (Some v)" "truthy v"
  shows "\<exists>st'. run_events (ns_step E) [NsClose, NsResumeDecode d] st
    = Some (st', snd (ns_close st) @ map (\<lambda>h. NCall (dc_ref (ns_decodes st ! d)) h (dc_id (ns_decodes st ! d)) v)
        (nr_handlers (ns_states st ! dc_ref (ns_decodes st ! d))))"
proof -
  obtain st1 os1 where c: "ns_close st = (st1, os1)" by force
  have f: "ns_decodes (fold ws_close refs s) = ns_decodes s \<and> ns_states (fold ws_close refs s) = ns_states s" for refs s
    by (induction refs arbitrary: s) (simp_all add: ws_close_def)
  have "ns_decodes st1 = ns_decodes st" "ns_states st1 = ns_states st"
    using c f by (auto simp: ns_close_def split: if_splits)
  then show ?thesis using assms by (simp add: c resume_decode_def dispatch_def Let_def)
qed

end
