(* ===== verification/Nostr_Secrecy.thy ===== *)
theory Nostr_Secrecy
  imports Nostr_Deliver
begin

text \<open>
  No downgrade: an adapter that was built with encryption puts an event on the wire only after the
  known-answer test has passed and with content encrypted under the room's key, and it calls no handler
  when the test has failed.
\<close>

subsection \<open>What may leave a v2 adapter\<close>

definition kat_ok :: "nostr_env \<Rightarrow> bool" where
  "kat_ok E = is_ok (runConstructionTimeKAT (ne_cipher E))"

definition enc_content :: "nostr_env \<Rightarrow> jsstring \<Rightarrow> jsstring \<Rightarrow> bool" where
  "enc_content E room c = (\<exists>key m nonce. deriveRoomKey (ne_cipher E) room = Inr key \<and> encryptV2 (ne_cipher E) m key nonce = Inr c)"

definition v2_frame :: "nostr_env \<Rightarrow> jsstring \<Rightarrow> bool" where
  "v2_frame E f = (\<exists>room now c rnd. enc_content E room c
     \<and> f = json_text (Arr [Str (js ''EVENT''), Obj (ne_finalize E (event_template room now c) rnd)]))"

definition control_frame :: "jsstring \<Rightarrow> bool" where
  "control_frame f = ((\<exists>subId room. f = reqFrame subId room) \<or> (\<exists>subId. f = json_text (Arr [Str (js ''CLOSE''), Str subId])))"

definition v2_safe :: "nostr_env \<Rightarrow> ns_out \<Rightarrow> bool" where
  "v2_safe E x =
     (case x of
        NSend ref f \<Rightarrow> control_frame f \<or> kat_ok E \<and> v2_frame E f
      | NCall ref h i v \<Rightarrow> kat_ok E
      | _ \<Rightarrow> True)"

fun phase_v2 :: "nostr_env \<Rightarrow> pub_phase \<Rightarrow> jsstring \<Rightarrow> jsstring \<Rightarrow> bool" where
  "phase_v2 E PubKey room frame = kat_ok E"
| "phase_v2 E (PubContent c) room frame = (kat_ok E \<and> enc_content E room c)"
| "phase_v2 E (PubSocket _ _ _) room frame = (kat_ok E \<and> v2_frame E frame)"
| "phase_v2 E _ room frame = True"

definition pub_v2 :: "nostr_env \<Rightarrow> publication \<Rightarrow> bool" where
  "pub_v2 E p = phase_v2 E (pb_phase p) (pb_room p) (pb_frame p)"

definition dec_v2 :: "nostr_env \<Rightarrow> decoding \<Rightarrow> bool" where
  "dec_v2 E d = (case dc_phase d of DecKey \<Rightarrow> kat_ok E | DecResult (Some v) \<Rightarrow> kat_ok E | _ \<Rightarrow> True)"

definition v2_inv :: "nostr_env \<Rightarrow> nostr \<Rightarrow> bool" where
  "v2_inv E st \<longleftrightarrow> ns_v2 st \<and> (\<forall>res. ns_init st = Some res \<longrightarrow> res = runConstructionTimeKAT (ne_cipher E))
     \<and> (\<forall>r k. map_of (ns_roomKeys st) r = Some (Some k) \<longrightarrow> k = deriveRoomKey (ne_cipher E) r)
     \<and> list_all (pub_v2 E) (ns_pubs st) \<and> list_all (dec_v2 E) (ns_decodes st)"

subsection \<open>Outputs\<close>

lemma v2_safe_simps [simp]:
  "v2_safe E (NConstruct ref u)" "v2_safe E (NPublished n r)" "v2_safe E (NUnhandled e)" "v2_safe E (NWsClose ref)"
  by (simp_all add: v2_safe_def)

lemma control_frames: "control_frame (reqFrame subId room)" "control_frame (json_text (Arr [Str (js ''CLOSE''), Str subId]))"
  by (auto simp: control_frame_def)

lemma v2_safe_control: "control_frame f \<Longrightarrow> list_all (v2_safe E) (ws_send ref f st)"
  by (simp add: ws_send_def v2_safe_def)

lemma list_all_concat: "(\<And>x. x \<in> set xs \<Longrightarrow> list_all P (f x)) \<Longrightarrow> list_all P (concat (map f xs))"
  by (induction xs) auto

lemma v2_safe_reqs [simp]:
  "list_all (v2_safe E) (resend_reqs ref st)" "list_all (v2_safe E) (closeReqOnAll subId st)"
  "list_all (v2_safe E) (req_send q ref st)"
  by (auto simp: resend_reqs_def closeReqOnAll_def req_send_def Let_def
      intro!: list_all_concat v2_safe_control control_frames)

lemma v2_safe_event: "kat_ok E \<Longrightarrow> v2_frame E f \<Longrightarrow> list_all (v2_safe E) (ws_send ref f st)"
  by (simp add: ws_send_def v2_safe_def)

lemma v2_safe_ensure: "ensureSocket E url st = (st1, en, os) \<Longrightarrow> list_all (v2_safe E') os"
  by (auto simp: ensureSocket_def make_socket_def Let_def split: option.splits ready_state.splits if_splits)

lemma v2_safe_finish: "ensure_finish en st = (st1, got, os) \<Longrightarrow> list_all (v2_safe E) os"
  by (cases en) (auto split: if_splits)

subsection \<open>Publications\<close>

abbreviation pubs_v2 :: "nostr_env \<Rightarrow> nostr \<Rightarrow> bool" where
  "pubs_v2 E st \<equiv> list_all (pub_v2 E) (ns_pubs st)"

lemma pubs_v2_upd:
  "pubs_v2 E st \<Longrightarrow> (n < length (ns_pubs st) \<Longrightarrow> pub_v2 E (ns_pubs st ! n) \<Longrightarrow> pub_v2 E (f (ns_pubs st ! n))) \<Longrightarrow>
   pubs_v2 E (upd_pub n f st)"
  by (auto simp: upd_pub_def list_all_length nth_upd)

lemma pubs_v2_settle: "pubs_v2 E st \<Longrightarrow> pubs_v2 E (pub_settle n r st)"
  unfolding pub_settle_def by (rule pubs_v2_upd) (simp_all add: pub_v2_def)

lemma pubs_v2_tryReject: "pubs_v2 E st \<Longrightarrow> pubs_v2 E (tryReject n st)"
  by (simp add: tryReject_def Let_def pubs_v2_settle)

lemma pubs_v2_pub_finish: "pubs_v2 E st \<Longrightarrow> pubs_v2 E (pub_finish n b m st)"
  by (auto simp: pub_finish_def pub_v2_def intro!: pubs_v2_settle pubs_v2_tryReject pubs_v2_upd)

lemma pubs_v2_report: "pubs_v2 E st \<Longrightarrow> pubs_v2 E (fst (pub_report n st)) \<and> list_all (v2_safe E) (snd (pub_report n st))"
  by (auto simp: pub_report_def pub_v2_def intro!: pubs_v2_upd split: pub_phase.splits option.splits)

lemma pubs_v2_over: "pubs_v2 E st \<Longrightarrow> pubs_v2 E (fst (pub_over n r st)) \<and> list_all (v2_safe E) (snd (pub_over n r st))"
  by (auto simp: pub_over_def pub_v2_def intro!: pubs_v2_upd)

lemma pubs_v2_timeout: "pubs_v2 E st \<Longrightarrow> pubs_v2 E (fst (ack_timeout n st)) \<and> list_all (v2_safe E) (snd (ack_timeout n st))"
proof -
  assume st: "pubs_v2 E st"
  have "pubs_v2 E (upd_pub n (\<lambda>p. p\<lparr>pb_timer := False\<rparr>) st)"
    by (rule pubs_v2_upd [OF st]) (simp add: pub_v2_def)
  then show ?thesis
    using pubs_v2_report [OF pubs_v2_settle]
    by (auto simp: ack_timeout_def Let_def pubs_v2_settle split: pub_phase.splits)
qed

lemma pubs_v2_loop_end: "pubs_v2 E st \<Longrightarrow> pubs_v2 E (fst (pub_loop_end n st)) \<and> list_all (v2_safe E) (snd (pub_loop_end n st))"
proof -
  assume st: "pubs_v2 E st"
  have "pubs_v2 E (cancelAckTimeout n st)"
    using st by (auto simp: cancelAckTimeout_def pub_v2_def intro!: pubs_v2_upd)
  moreover have "pubs_v2 E (upd_pub n (\<lambda>p. p\<lparr>pb_finalized := True, pb_phase := PubAck\<rparr>) st)"
    by (rule pubs_v2_upd [OF st]) (simp add: pub_v2_def)
  ultimately show ?thesis
    using pubs_v2_report [OF pubs_v2_tryReject] pubs_v2_over [of E "cancelAckTimeout n st\<lparr>ns_pendingAcks := a\<rparr>" for a]
    by (simp add: pub_loop_end_def Let_def)
qed

lemma pubs_v2_next:
  assumes "pubs_v2 E st" "n < length (ns_pubs st)" "kat_ok E" "v2_frame E (pb_frame (ns_pubs st ! n))"
  shows "pubs_v2 E (fst (pub_next E' n urls st)) \<and> list_all (v2_safe E) (snd (pub_next E' n urls st))"
proof (cases urls)
  case (Cons url rest)
  obtain st1 en os where e: "ensureSocket E' url st = (st1, en, os)" by (metis prod_cases3)
  have "ns_pubs st1 = ns_pubs st" using ensure_pubs [OF e] by simp
  with assms have "pubs_v2 E (upd_pub n (\<lambda>p. p\<lparr>pb_phase := PubSocket url rest en\<rparr>) st1)"
    by (intro pubs_v2_upd) (simp_all add: pub_v2_def)
  then show ?thesis using v2_safe_ensure [OF e] by (simp add: pub_next_def Cons e)
qed (simp add: pub_next_def pubs_v2_loop_end assms(1))

lemma frames_upd: "(\<And>p. pb_frame (f p) = pb_frame p) \<Longrightarrow> map pb_frame (ns_pubs (upd_pub n f st)) = map pb_frame (ns_pubs st)"
  by (simp add: upd_pub_def map_update) (simp flip: map_update)

lemma frames_settle: "map pb_frame (ns_pubs (pub_settle n r st)) = map pb_frame (ns_pubs st)"
  unfolding pub_settle_def by (subst frames_upd) simp_all

lemma frames_kept:
  "length (ns_pubs (fst (pub_report k (pub_finish m b msg st)))) = length (ns_pubs st)
   \<and> (n < length (ns_pubs st) \<longrightarrow> pb_frame (ns_pubs (fst (pub_report k (pub_finish m b msg st))) ! n) = pb_frame (ns_pubs st ! n))"
proof -
  have r: "map pb_frame (ns_pubs (fst (pub_report k s))) = map pb_frame (ns_pubs s)" for s
    by (simp add: pub_report_def frames_upd split: pub_phase.splits option.splits)
  have "map pb_frame (ns_pubs (pub_finish m b msg st)) = map pb_frame (ns_pubs st)"
    by (simp add: pub_finish_def tryReject_def Let_def frames_settle frames_upd)
  with r [of "pub_finish m b msg st"]
  have e: "map pb_frame (ns_pubs (fst (pub_report k (pub_finish m b msg st)))) = map pb_frame (ns_pubs st)" by simp
  from arg_cong [OF e, of length] show ?thesis
    using arg_cong [OF e, of "\<lambda>xs. xs ! n"] by auto
qed

lemma pubs_v2_send:
  assumes "pubs_v2 E st" "n < length (ns_pubs st)" "kat_ok E" "v2_frame E (pb_frame (ns_pubs st ! n))"
    and "pub_send n ref st = (st', os)"
  shows "pubs_v2 E st' \<and> list_all (v2_safe E) os \<and> n < length (ns_pubs st') \<and> v2_frame E (pb_frame (ns_pubs st' ! n))"
proof -
  let ?st1 = "upd_pub n (\<lambda>p. p\<lparr>pb_relayCount := Suc (pb_relayCount p)\<rparr>) st"
  have one: "pubs_v2 E ?st1" by (rule pubs_v2_upd [OF assms(1)]) (simp add: pub_v2_def)
  have frame: "pb_frame (ns_pubs ?st1 ! n) = pb_frame (ns_pubs st ! n)" using assms(2) by (simp add: upd_pub_nth)
  show ?thesis
  proof (cases "send_throws ref ?st1 \<and> map_of (ns_pendingAcks ?st1) (pb_id (ns_pubs ?st1 ! n)) \<noteq> None")
    case True
    then obtain m where f: "pub_report m (pub_finish m False (Some (js ''send failed'')) ?st1) = (st', os)"
      using assms(5) by (auto simp: pub_send_def Let_def)
    show ?thesis
      using pubs_v2_report [OF pubs_v2_pub_finish [OF one], of m m False "Some (js ''send failed'')"]
        frames_kept [of m m False "Some (js ''send failed'')" ?st1 n] frame assms(2,4)
      by (simp add: f)
  next
    case False
    then have "st' = ?st1" "os = [] \<or> os = ws_send ref (pb_frame (ns_pubs ?st1 ! n)) ?st1"
      using assms(5) by (auto simp: pub_send_def Let_def split: if_splits option.splits)
    then show ?thesis using one frame assms(2-4) v2_safe_event [OF assms(3)] by auto
  qed
qed

lemma pubs_v2_socket:
  assumes "pubs_v2 E st" "n < length (ns_pubs st)" "kat_ok E" "v2_frame E (pb_frame (ns_pubs st ! n))"
  shows "pubs_v2 E (fst (pub_socket E' n rest got st)) \<and> list_all (v2_safe E) (snd (pub_socket E' n rest got st))"
proof (cases got)
  case (Some ref)
  obtain st1 os1 where s: "pub_send n ref st = (st1, os1)" by force
  from pubs_v2_send [OF assms s] pubs_v2_next [of E st1 n E' rest] assms(3)
  show ?thesis by (simp add: pub_socket_def Some s)
qed (simp add: pub_socket_def pubs_v2_next assms)

lemma pubs_v2_event:
  assumes "pubs_v2 E st" "n < length (ns_pubs st)" "kat_ok E" "enc_content E (pb_room (ns_pubs st ! n)) c"
  shows "pubs_v2 E (fst (pub_event E n now rnd c st)) \<and> list_all (v2_safe E) (snd (pub_event E n now rnd c st))"
proof -
  define ev where "ev = ne_finalize E (event_template (pb_room (ns_pubs st ! n)) now c) rnd"
  define i where "i = str_of (fld ev ''id'')"
  define st0 where "st0 = upd_pub n (\<lambda>p. p\<lparr>pb_id := i, pb_frame := json_text (Arr [Str (js ''EVENT''), Obj ev]), pb_timer := True\<rparr>)
      (st\<lparr>ns_pendingAcks := al_set i n (ns_pendingAcks st)\<rparr>)"
  have frame: "v2_frame E (json_text (Arr [Str (js ''EVENT''), Obj ev]))"
    using assms(4) by (auto simp: v2_frame_def ev_def)
  have good: "pubs_v2 E st0"
    unfolding st0_def by (rule pubs_v2_upd) (use assms(1,3) frame in \<open>auto simp: pub_v2_def elim: phase_v2.elims\<close>)
  moreover have "v2_frame E (pb_frame (ns_pubs st0 ! n))" "n < length (ns_pubs st0)"
    using assms(2) frame by (simp_all add: st0_def upd_pub_nth)
  ultimately show ?thesis
    using pubs_v2_next [OF good, of n E "ns_relays st"] assms(3)
    by (simp add: pub_event_def Let_def st0_def i_def ev_def)
qed

subsection \<open>Every step\<close>

lemma resume_pub_v2:
  assumes "v2_inv E st" "resume_pub E n now rnd nonce st = Some (st', os)"
  shows "pubs_v2 E st' \<and> list_all (v2_safe E) os"
proof -
  have n: "n < length (ns_pubs st)" using assms(2) by (auto simp: resume_pub_def split: if_splits)
  have good: "pubs_v2 E st" and p: "pub_v2 E (ns_pubs st ! n)"
    using assms(1) n by (auto simp: v2_inv_def list_all_length)
  let ?p = "ns_pubs st ! n"
  show ?thesis
  proof (cases "pb_phase ?p")
    case PubInit
    have "ns_init st = Some (Inr u) \<Longrightarrow> kat_ok E" for u
      using assms(1) by (auto simp: v2_inv_def kat_ok_def is_ok_def split: sum.splits)
    then show ?thesis
      using assms(2) n PubInit pubs_v2_over [OF good] good
      by (auto simp: resume_pub_def Let_def split: option.splits sum.splits intro!: pubs_v2_upd)
         (auto simp: pub_v2_def pub_over_def)
  next
    case PubKey
    then have "kat_ok E" using p by (simp add: pub_v2_def)
    moreover have "enc_content E (pb_room ?p) c"
      if "map_of (ns_roomKeys st) (pb_room ?p) = Some (Some (Inr key))" "encryptV2 (ne_cipher E) (pb_message ?p) key nonce = Inr c" for key c
      using assms(1) that by (fastforce simp: v2_inv_def enc_content_def)
    ultimately show ?thesis
      using assms(2) n PubKey pubs_v2_over [OF good] good
      by (auto simp: resume_pub_def Let_def split: option.splits sum.splits intro!: pubs_v2_upd)
         (auto simp: pub_v2_def pub_over_def)
  next
    case (PubContent c)
    then show ?thesis
      using assms(2) n p pubs_v2_event [OF good n, of c now rnd] by (simp add: resume_pub_def pub_v2_def)
  next
    case (PubSocket url rest en)
    then have k: "kat_ok E" "v2_frame E (pb_frame ?p)" using p by (simp_all add: pub_v2_def)
    show ?thesis
    proof (cases "\<exists>got. en = EnsureDone got")
      case True
      then show ?thesis
        using assms(2) n PubSocket pubs_v2_socket [OF good n k] by (auto simp: resume_pub_def) (metis fst_conv snd_conv)+
    next
      case False
      obtain st1 got os1 where f: "ensure_finish en st = (st1, got, os1)" by (metis prod_cases3)
      with assms(2) n PubSocket False
      have s: "st' = upd_pub n (\<lambda>p. p\<lparr>pb_phase := PubSocket url rest (EnsureDone got)\<rparr>) st1" "os = os1"
        by (auto simp: resume_pub_def Let_def split: if_splits ensure.splits)
      have "ns_pubs st1 = ns_pubs st" using finish_pubs [OF f] by simp
      with good k have "pubs_v2 E st'"
        unfolding s(1) by (intro pubs_v2_upd) (simp_all add: pub_v2_def)
      then show ?thesis using v2_safe_finish [OF f] by (simp add: s(2))
    qed
  qed (use assms(2) n in \<open>auto simp: resume_pub_def\<close>)
qed

text \<open>The keys and the outcome of the test are what they are; \<open>v2_rest\<close> is what most steps keep.\<close>

definition v2_rest :: "nostr \<Rightarrow> bool \<times> (err + unit) option \<times> (jsstring \<times> (err + bytes) option) list \<times> decoding list" where
  "v2_rest st = (ns_v2 st, ns_init st, ns_roomKeys st, ns_decodes st)"

lemma v2_rest_upd [simp]:
  "v2_rest (upd_ws ref f st) = v2_rest st" "v2_rest (upd_pub n h st) = v2_rest st" "v2_rest (upd_req q w st) = v2_rest st"
  "v2_rest (upd_room ref g st) = v2_rest st" "v2_rest (st\<lparr>ns_sockets := a\<rparr>) = v2_rest st"
  "v2_rest (st\<lparr>ns_pendingAcks := b\<rparr>) = v2_rest st" "v2_rest (st\<lparr>ns_pubs := c\<rparr>) = v2_rest st" "v2_rest (st\<lparr>ns_rooms := d\<rparr>) = v2_rest st"
  "v2_rest (pub_settle n r st) = v2_rest st" "v2_rest (tryReject n st) = v2_rest st" "v2_rest (pub_finish n k msg st) = v2_rest st"
  "v2_rest (fst (pub_report n st)) = v2_rest st" "v2_rest (fst (ack_timeout n st)) = v2_rest st"
  "v2_rest (fst (ns_publish rm m st)) = v2_rest st" "v2_rest (fst (pub_loop_end n st)) = v2_rest st"
  by (simp_all add: v2_rest_def upd_req_def pub_settle_def tryReject_def pub_finish_def pub_report_def ack_timeout_def ns_publish_def
      pub_loop_end_def cancelAckTimeout_def pub_over_def Let_def split: pub_phase.splits option.splits)

lemma v2_rest_ensure: "ensureSocket E url st = (st1, en, os) \<Longrightarrow> v2_rest st1 = v2_rest st"
  by (auto simp: ensureSocket_def make_socket_def Let_def v2_rest_def split: option.splits ready_state.splits if_splits)

lemma v2_rest_finish: "ensure_finish en st = (st1, got, os) \<Longrightarrow> v2_rest st1 = v2_rest st"
  by (cases en) (auto split: if_splits)

lemma v2_rest_next [simp]: "v2_rest (fst (pub_next E n urls st)) = v2_rest st" "v2_rest (fst (req_next E q urls st)) = v2_rest st"
  by (auto simp: pub_next_def req_next_def v2_rest_ensure split: list.splits prod.splits)

lemma v2_rest_send [simp]: "v2_rest (fst (pub_send n ref st)) = v2_rest st"
  by (simp add: pub_send_def Let_def split: option.splits)

lemma v2_rest_socket [simp]: "v2_rest (fst (pub_socket E n rest got st)) = v2_rest st"
proof (cases got)
  case (Some ref)
  obtain st1 os where "pub_send n ref st = (st1, os)" by force
  with v2_rest_send [of n ref st] show ?thesis by (simp add: Some pub_socket_def)
qed (simp add: pub_socket_def)

lemma v2_inv_rest: "v2_inv E st \<Longrightarrow> v2_rest st' = v2_rest st \<Longrightarrow> pubs_v2 E st' \<Longrightarrow> v2_inv E st'"
  by (simp add: v2_inv_def v2_rest_def)

text \<open>A new pending key changes nothing that is known.\<close>

lemma v2_inv_getKey: "v2_inv E st \<Longrightarrow> v2_inv E (getV2RoomKey r st)"
  by (auto simp: v2_inv_def getV2RoomKey_def split: if_splits)

lemma resume_pub_rest:
  "resume_pub E n now rnd nonce st = Some (st', os) \<Longrightarrow> v2_rest st' = v2_rest st \<or> v2_rest st' = v2_rest (getV2RoomKey (pb_room (ns_pubs st ! n)) st)"
  by (auto simp: resume_pub_def Let_def pub_over_def pub_event_def dest!: v2_rest_finish
      split: if_splits pub_phase.splits option.splits sum.splits ensure.splits)
    (metis v2_rest_next(1) v2_rest_socket v2_rest_upd fst_conv)+

lemma list_all_upd: "list_all P xs \<Longrightarrow> P x \<Longrightarrow> list_all P (xs[i := x])"
  by (metis (no_types, lifting) insertE list_all_iff set_update_subset_insert subsetD)

lemma resume_decode_v2:
  assumes "v2_inv E st" "resume_decode E d st = Some (st', os)"
  shows "v2_inv E st' \<and> list_all (v2_safe E) os"
proof -
  have d: "d < length (ns_decodes st)" using assms(2) by (auto simp: resume_decode_def dispatch_def split: if_splits)
  then have t: "dec_v2 E (ns_decodes st ! d)" using assms(1) by (auto simp: v2_inv_def list_all_length)
  have kat: "ns_init st = Some (Inr u) \<Longrightarrow> kat_ok E" for u
    using assms(1) by (auto simp: v2_inv_def kat_ok_def is_ok_def split: sum.splits)
  have upd: "v2_inv E (upd_decode d ph s)" if "v2_inv E s" "dec_v2 E ((ns_decodes s ! d)\<lparr>dc_phase := ph\<rparr>)" for ph s
    using that by (auto simp: v2_inv_def upd_decode_def intro!: list_all_upd)
  show ?thesis
  proof (cases "dc_phase (ns_decodes st ! d)")
    case DecInit
    then show ?thesis
      using assms d kat
      by (auto simp: resume_decode_def dispatch_def Let_def dec_v2_def intro!: upd v2_inv_getKey split: option.splits sum.splits)
  next
    case DecKey
    with t have "kat_ok E" by (simp add: dec_v2_def)
    with DecKey show ?thesis
      using assms d
      by (auto simp: resume_decode_def dispatch_def Let_def dec_v2_def intro!: upd split: option.splits sum.splits v2_result.splits)
  next
    case (DecResult res)
    have calls: "kat_ok E \<Longrightarrow> list_all (v2_safe E) (map (\<lambda>h. NCall ref h i v) hs)" for ref i v hs
      by (simp add: list_all_iff v2_safe_def)
    have "\<exists>v. res = Some v \<Longrightarrow> kat_ok E" using t DecResult by (auto simp: dec_v2_def)
    with DecResult show ?thesis
      using assms d calls
      by (auto simp: resume_decode_def dispatch_def Let_def dec_v2_def intro!: upd split: option.splits)
  qed (use assms d in \<open>auto simp: resume_decode_def dispatch_def\<close>)
qed

lemma handleEvent_v2: "v2_inv E st \<Longrightarrow> v2_inv E (handleEvent subId ev st)"
  by (cases rule: handleEvent_cases [of subId ev st])
    (auto simp: v2_inv_def dec_v2_def decode_start_def split: option.splits)

lemma req_next_safe [simp]: "list_all (v2_safe E') (snd (req_next E q urls s))"
  by (auto simp: req_next_def split: list.splits prod.splits dest: v2_safe_ensure)

lemma resume_req_v2: "resume_req E q st = Some p \<Longrightarrow> v2_rest (fst p) = v2_rest st \<and> list_all (v2_safe E') (snd p)"
  by (auto simp: resume_req_def split: if_splits option.splits ensure.splits dest: v2_rest_finish v2_safe_finish)

lemma subscribe_v2:
  assumes "v2_inv E st" "ns_subscribe E r h st = Some (st', os)"
  shows "v2_inv E st' \<and> list_all (v2_safe E) os"
proof -
  define s0 where "s0 = (if ns_v2 st then getV2RoomKey r st else st)"
  have inv0: "v2_inv E s0" using assms(1) v2_inv_getKey [OF assms(1)] by (simp add: s0_def)
  obtain s1 o1 where s1: "ns_start_room E r s0 = (s1, o1)" by force
  obtain s00 subId where s00: "newSubId r s0 = (s00, subId)" by force
  then have same: "v2_rest s00 = v2_rest s0" "ns_pubs s00 = ns_pubs s0" by (auto simp: newSubId_def Let_def v2_rest_def)
  let ?s2 = "s00\<lparr>ns_states := ns_states s00 @ [\<lparr>nr_handlers = [], nr_subId = subId, nr_delivered = []\<rparr>],
             ns_rooms := al_set r (length (ns_states s0)) (ns_rooms s00),
             ns_reqs := ns_reqs s00 @ [\<lparr>rq_room = r, rq_ref = length (ns_states s0), rq_wait = None\<rparr>]\<rparr>"
  have n: "req_next E (length (ns_reqs s0)) (ns_relays s0) ?s2 = (s1, o1)"
    using s1 by (simp add: ns_start_room_def Let_def s00)
  have "v2_rest s1 = v2_rest ?s2 \<and> ns_pubs s1 = ns_pubs ?s2"
    using v2_rest_next(2) [of E "length (ns_reqs s0)" "ns_relays s0" ?s2] req_next_quiet(1) [of E "length (ns_reqs s0)" "ns_relays s0" ?s2] n
    by (simp del: v2_rest_next req_next_quiet)
  moreover have "list_all (v2_safe E) o1"
    using n by (auto simp: req_next_def split: list.splits prod.splits dest: v2_safe_ensure)
  ultimately have start: "v2_rest s1 = v2_rest s0" "ns_pubs s1 = ns_pubs s0" "list_all (v2_safe E) o1"
    using same by (simp_all add: v2_rest_def)
  have "st' = upd_room (the (map_of (ns_rooms s0) r)) (\<lambda>r. r\<lparr>nr_handlers := set_add h (nr_handlers r)\<rparr>) s0 \<and> os = []
      \<or> st' = upd_room (the (map_of (ns_rooms s1) r)) (\<lambda>r. r\<lparr>nr_handlers := set_add h (nr_handlers r)\<rparr>) s1 \<and> os = o1"
    using assms(2) by (auto simp: ns_subscribe_def Let_def s0_def [symmetric] s1 split: if_splits option.splits)
  with start have "v2_rest st' = v2_rest s0 \<and> ns_pubs st' = ns_pubs s0 \<and> list_all (v2_safe E) os" by auto
  moreover have "pubs_v2 E s0" using inv0 by (simp add: v2_inv_def)
  ultimately show ?thesis using v2_inv_rest [OF inv0] by simp
qed

lemma ns_step_v2:
  assumes "v2_inv E st" "ns_step E ev st = Some (st', os)"
  shows "v2_inv E st' \<and> list_all (v2_safe E) os"
proof -
  have good: "pubs_v2 E st" using assms(1) by (simp add: v2_inv_def)
  have rest: "v2_rest st' = v2_rest st \<Longrightarrow> pubs_v2 E st' \<Longrightarrow> list_all (v2_safe E) os \<Longrightarrow> ?thesis"
    using v2_inv_rest [OF assms(1)] by simp
  show ?thesis
  proof (cases ev)
    case (NsPublish r m)
    with assms(2) have p: "ns_publish r m st = (st', os)" by simp
    then have "pubs_v2 E st' \<and> list_all (v2_safe E) os"
      using good assms(1) by (auto simp: ns_publish_def Let_def pub_v2_def v2_inv_def split: if_splits option.splits)
    moreover have "v2_rest st' = v2_rest st" using p v2_rest_upd(14) by (metis fst_conv)
    ultimately show ?thesis using rest by blast
  next
    case (NsSubscribe r h)
    with assms show ?thesis using subscribe_v2 by simp
  next
    case (NsUnsubscribe r h)
    with assms(2) show ?thesis
      using good by (intro rest) (auto simp: ns_unsubscribe_def Let_def split: option.splits if_splits)
  next
    case NsClose
    have f: "v2_rest (fold ws_close refs s) = v2_rest s \<and> ns_pubs (fold ws_close refs s) = ns_pubs s" for refs s
      by (induction refs arbitrary: s) (simp_all add: ws_close_def)
    have "list_all (v2_safe E) (map (\<lambda>(url, ref). NWsClose ref) xs)" for xs :: "(jsstring \<times> nat) list"
      by (induction xs) auto
    with NsClose assms(2) f good show ?thesis
      by (intro rest) (auto simp: ns_close_def v2_rest_def intro!: list_all_concat split: if_splits)
  next
    case (NsResumePub n now rnd nonce)
    with assms(2) have p: "resume_pub E n now rnd nonce st = Some (st', os)" by simp
    have "v2_inv E st'"
      using resume_pub_rest [OF p] resume_pub_v2 [OF assms(1) p] v2_inv_rest [OF assms(1)]
        v2_inv_rest [OF v2_inv_getKey [OF assms(1)]] by blast
    then show ?thesis using resume_pub_v2 [OF assms(1) p] by simp
  next
    case (NsResumeReq q)
    with assms(2) show ?thesis
      using good resume_req_v2 [of E q st "(st', os)"] resume_req_quiet [of E q st "(st', os)"] by (intro rest) auto
  next
    case (NsResumeDecode d)
    with assms show ?thesis using resume_decode_v2 by simp
  next
    case (NsAckTimeout n)
    with assms(2) have a: "ack_timeout n st = (st', os)" by (simp split: if_splits)
    then show ?thesis
      using pubs_v2_timeout [OF good, of n] v2_rest_upd(13) [of n st] by (intro rest) simp_all
  next
    case NsKatDone
    with assms show ?thesis by (auto simp: kat_done_def Let_def v2_inv_def split: if_splits)
  next
    case (NsKeyDerived r)
    with assms show ?thesis by (auto simp: key_derived_def v2_inv_def split: if_splits)
  next
    case (NsMessage ref t)
    with assms(2) have m: "onRelayMessage t st = (st', os)" by (simp split: if_splits)
    have ack: "?thesis" if "pub_report n (pub_finish n b msg st) = (st', os)" for n b msg
      using pubs_v2_report [OF pubs_v2_pub_finish [OF good], of n n b msg] v2_rest_upd(12) [of n "pub_finish n b msg st"] that
      by (intro rest) simp_all
    have "?thesis" if "st' = handleEvent subId event st" "os = []" for subId event
      using handleEvent_v2 [OF assms(1)] that by simp
    with m ack show ?thesis
      using assms(1) by (auto simp: onRelayMessage_def split: option.splits jsval.splits if_splits)
  qed (use assms(2) good in \<open>auto intro!: v2_inv_rest [OF assms(1)] simp: ws_opened_def ws_errored_def ws_closed_def Let_def split: if_splits\<close>)
qed

interpretation nostr_v2: output_safe "ns_step E" "v2_inv E" "v2_safe E" for E
  by unfold_locales (use ns_step_v2 in blast)+

lemma nostr_never_downgrades:
  assumes "new_nostr relays ws True = Inr st0" "reach (ns_step E) st0 os st"
  shows "list_all (v2_safe E) os"
proof -
  have "v2_inv E st0"
    using new_nostr_wf [OF assms(1)] new_nostr_empty [OF assms(1)] by (simp add: v2_inv_def)
  then show ?thesis using nostr_v2.reach_outputs [OF assms(2)] by simp
qed

end
