(* ===== verification/Registry.thy ===== *)
theory Registry
  imports Addon_Manifest Web_Platform
begin

text \<open>
  \<open>scripts/lib/registry-schema.ts\<close> and \<open>scripts/lib/manifest.ts\<close>: the validators of the documents a
  publisher ships (the registry in its three versions, the meta index, the submissions list) and of
  a manifest file. \<open>Date.parse\<close> and the \<open>URL\<close> class are arguments. An error message is kept without
  the place (\<open>addon[3]\<close>) and the values it quotes.
\<close>

abbreviation schema_error :: "string \<Rightarrow> err" where
  "schema_error m \<equiv> Thrown ''Error'' m"

subsection \<open>Patterns and closed sets\<close>

definition KNOWN_CATEGORIES :: "string list" where
  "KNOWN_CATEGORIES = [''communication'', ''creative'', ''productivity'', ''presence'', ''files'', ''games'',
     ''education'', ''accessibility'', ''developer-tools'', ''other'']"

definition TAG_PATTERN :: rx where
  "TAG_PATTERN = Seq (Cls [LOWER, DIGITS]) (Upto 31 (Cls [LOWER, DIGITS, (CHR ''-'', CHR ''-'')]))"

definition REGISTRY_SEMVER_PATTERN :: rx where "REGISTRY_SEMVER_PATTERN = SEMVER"
definition REGISTRY_ID_PATTERN :: rx where "REGISTRY_ID_PATTERN = ADDON_ID"

definition ED25519_PUBKEY_PATTERN :: rx where
  "ED25519_PUBKEY_PATTERN = Rep 43 (Cls [(CHR ''A'', CHR ''Z''), LOWER, DIGITS, (CHR ''_'', CHR ''_''), (CHR ''-'', CHR ''-'')])"

definition SUBMISSION_STATUSES :: "string list" where
  "SUBMISSION_STATUSES = [''pending'', ''needs-changes'', ''accepted'', ''rejected'', ''withdrawn'']"

definition SEVERITY_KEYS :: "string list" where
  "SEVERITY_KEYS = [''critical'', ''high'', ''medium'', ''low'', ''nit'']"

subsection \<open>The documents\<close>

record addon_deprecation =
  dp_since :: jsstring
  dp_reason :: jsstring
  dp_supersededBy :: "jsstring option"

record addon_yank =
  yk_at :: jsstring
  yk_reason :: jsstring

record version_entry =
  ve_version :: jsstring
  ve_path :: jsstring
  ve_signedAt :: jsstring
  ve_publicKey :: jsstring
  ve_changelog :: "jsstring option"
  ve_yanked :: "addon_yank option"

record audit_findings =
  fi_summary :: jsstring
  fi_severityCounts :: "(jsstring \<times> jsnum) list option"

record addon_audit =
  au_auditor :: jsstring
  au_auditedAt :: jsstring
  au_auditedVersion :: jsstring
  au_findings :: audit_findings
  au_url :: "jsstring option"

record registry_addon =
  ra_id :: jsstring
  ra_name :: jsstring
  ra_version :: jsstring
  ra_description :: jsstring
  ra_path :: jsstring
  ra_capabilities :: "jsstring list"
  ra_categories :: "jsstring list option"
  ra_tags :: "jsstring list option"
  ra_deprecated :: "addon_deprecation option"
  ra_history :: "version_entry list option"
  ra_audit :: "addon_audit option"

record registry =
  rg_v :: nat
  rg_publisher_name :: jsstring
  rg_publisher_homepage :: "jsstring option"
  rg_trustedKeys :: "jsstring list"
  rg_addons :: "registry_addon list"

record publisher_entry =
  pe_url :: jsstring
  pe_name :: "jsstring option"
  pe_featured :: "bool option"
  pe_endorsedBy :: "jsstring list option"
  pe_endorsementUrl :: "jsstring option"

record submission =
  sb_id :: jsstring
  sb_addonId :: jsstring
  sb_version :: jsstring
  sb_manifestUrl :: jsstring
  sb_signatureUrl :: jsstring
  sb_publicKey :: jsstring
  sb_submittedAt :: jsstring
  sb_contact :: jsstring
  sb_status :: jsstring
  sb_statusUpdatedAt :: jsstring
  sb_statusReason :: "jsstring option"
  sb_notes :: "jsstring option"

subsection \<open>Tests the validators share\<close>

definition isStringArray :: "jsval \<Rightarrow> bool" where
  "isStringArray v = (is_arr v \<and> list_all is_str (arr_of v))"

definition isIsoInstant :: "date_api \<Rightarrow> jsval \<Rightarrow> bool" where
  "isIsoInstant dates v = (is_str v \<and> date_parse dates (str_of v) \<noteq> NaN)"

text \<open>\<open>!value || typeof value !== "object"\<close> (an array passes), with the properties the code then reads;
  and the same with \<open>|| Array.isArray(value)\<close>.\<close>

definition any_object :: "string \<Rightarrow> jsval \<Rightarrow> err + jsfields" where
  "any_object m v = (if is_objecty v then Inr (own_fields v) else Inl (schema_error m))"

definition plain_object :: "string \<Rightarrow> jsval \<Rightarrow> err + jsfields" where
  "plain_object m v = (case v of Obj fs \<Rightarrow> Inr fs | U8 bs \<Rightarrow> Inr (u8_fields bs) | _ \<Rightarrow> Inl (schema_error m))"

text \<open>\<open>typeof v !== "string" || v.length < lo || v.length > hi\<close>, and \<open>Buffer.byteLength(s, "utf8") > n\<close>.\<close>

definition not_sized :: "nat \<Rightarrow> nat \<Rightarrow> jsval \<Rightarrow> bool" where
  "not_sized lo hi v = (\<not> is_str v \<or> length (str_of v) < lo \<or> hi < length (str_of v))"

definition utf8_longer :: "nat \<Rightarrow> jsval \<Rightarrow> bool" where
  "utf8_longer n v = (n < length (utf8_encode (str_of v)))"

text \<open>\<open>new URL(v)\<close> throws.\<close>

definition no_url :: "'u url_api \<Rightarrow> jsval \<Rightarrow> bool" where
  "no_url api v = (url_parse api (str_of v) = None)"

text \<open>\<open>...(typeof v === "string" ? { k: v } : {})\<close>.\<close>

definition opt_str :: "jsval \<Rightarrow> jsstring option" where
  "opt_str v = (if is_str v then Some (str_of v) else None)"

text \<open>An optional property: nothing when it is \<open>undefined\<close>, else what its validator makes of it.\<close>

definition when_defined :: "jsval \<Rightarrow> (jsval \<Rightarrow> 'e + 'a) \<Rightarrow> 'e + 'a option" where
  "when_defined v k = (if v = Undef then Inr None else then_ok (k v) (\<lambda>x. Inr (Some x)))"

text \<open>\<open>const seen = new Set(); for (...) { const y = f(x); if (seen.has(key(y))) throw ...; seen.add(key(y)); }\<close>.\<close>

fun throwing_distinct :: "('a \<Rightarrow> 'e + 'b) \<Rightarrow> ('b \<Rightarrow> 'k) \<Rightarrow> 'e \<Rightarrow> 'k list \<Rightarrow> 'a list \<Rightarrow> 'e + 'b list" where
  "throwing_distinct f key e seen [] = Inr []"
| "throwing_distinct f key e seen (x # xs) =
     then_ok (f x) (\<lambda>y.
       if key y \<in> set seen then Inl e
       else then_ok (throwing_distinct f key e (key y # seen) xs) (\<lambda>ys. Inr (y # ys)))"

subsection \<open>The registry\<close>

definition validateAddonDeprecation :: "date_api \<Rightarrow> jsval \<Rightarrow> err + addon_deprecation" where
  "validateAddonDeprecation dates value =
     then_ok (plain_object ''.deprecated: must be an object'' value) (\<lambda>d.
     then_ok (guards
       [(\<not> isIsoInstant dates (fld d ''since''), schema_error ''.deprecated.since: must be ISO-8601''),
        (not_sized 1 280 (fld d ''reason''), schema_error ''.deprecated.reason: must be 1..280 char string''),
        (fld d ''supersededBy'' \<noteq> Undef \<and> \<not> is_str (fld d ''supersededBy''),
         schema_error ''.deprecated.supersededBy: must be a string when present'')]) (\<lambda>_.
       Inr \<lparr>dp_since = str_of (fld d ''since''), dp_reason = str_of (fld d ''reason''),
            dp_supersededBy = opt_str (fld d ''supersededBy'')\<rparr>))"

definition validateYank :: "date_api \<Rightarrow> jsval \<Rightarrow> err + addon_yank" where
  "validateYank dates value =
     then_ok (plain_object ''.yanked: must be an object'' value) (\<lambda>y.
     then_ok (guards
       [(\<not> isIsoInstant dates (fld y ''at''), schema_error ''.yanked.at: must be ISO-8601''),
        (not_sized 1 280 (fld y ''reason''), schema_error ''.yanked.reason: must be 1..280 char string'')]) (\<lambda>_.
       Inr \<lparr>yk_at = str_of (fld y ''at''), yk_reason = str_of (fld y ''reason'')\<rparr>))"

definition validateHistoryEntry :: "date_api \<Rightarrow> jsval \<Rightarrow> err + version_entry" where
  "validateHistoryEntry dates value =
     then_ok (plain_object '': must be an object'' value) (\<lambda>e.
     then_ok (guards
       [(not_matching REGISTRY_SEMVER_PATTERN (fld e ''version''), schema_error ''.version: must be SemVer 2.0.0''),
        (no_text (fld e ''path''), schema_error ''.path: must be non-empty string''),
        (\<not> isIsoInstant dates (fld e ''signedAt''), schema_error ''.signedAt: must be ISO-8601''),
        (not_matching ED25519_PUBKEY_PATTERN (fld e ''publicKey''),
         schema_error ''.publicKey: must be 43-char base64url Ed25519 key''),
        (fld e ''changelog'' \<noteq> Undef \<and> \<not> is_str (fld e ''changelog''),
         schema_error ''.changelog: must be string when present''),
        (fld e ''changelog'' \<noteq> Undef \<and> utf8_longer 2048 (fld e ''changelog''),
         schema_error ''.changelog: must be at most 2 KiB UTF-8'')]) (\<lambda>_.
     then_ok (when_defined (fld e ''yanked'') (validateYank dates)) (\<lambda>yanked.
       Inr \<lparr>ve_version = str_of (fld e ''version''), ve_path = str_of (fld e ''path''),
            ve_signedAt = str_of (fld e ''signedAt''), ve_publicKey = str_of (fld e ''publicKey''),
            ve_changelog = opt_str (fld e ''changelog''), ve_yanked = yanked\<rparr>)))"

text \<open>
  \<open>Object.keys\<close> lists the array indices among the keys first, in ascending order; all of them are unknown
  keys here, so one of them, wherever it stands, is what the loop meets first.
\<close>

definition array_index :: "jsstring \<Rightarrow> bool" where
  "array_index k = (rx_match (Alt (Chr CHR ''0'') (Seq (Cls [(CHR ''1'', CHR ''9'')]) (Star (Cls [DIGITS])))) k
     \<and> foldl (\<lambda>n c. 10 * n + (unat c - 48)) 0 k < 2 ^ 32 - 1)"

text \<open>One entry of \<open>severityCounts\<close>; \<open>Number.isInteger(v)\<close> and \<open>v < 0\<close>.\<close>

fun is_integer_num :: "jsval \<Rightarrow> bool" where
  "is_integer_num (Num (Fin r)) = is_int_rat r"
| "is_integer_num _ = False"

fun num_of :: "jsval \<Rightarrow> jsnum" where
  "num_of (Num n) = n"
| "num_of _ = NaN"

definition severity_count :: "jsstring \<times> jsval \<Rightarrow> err + jsstring \<times> jsnum" where
  "severity_count = (\<lambda>(k, v).
     then_ok (guards
       [(k \<notin> set (map js SEVERITY_KEYS), schema_error ''.findings.severityCounts: unknown key ''),
        (\<not> is_integer_num v \<or> num_less (num_of v) (Fin 0),
         schema_error ''.findings.severityCounts: must be non-negative integer'')]) (\<lambda>_. Inr (k, num_of v)))"

definition validateAuditFindings :: "jsval \<Rightarrow> err + audit_findings" where
  "validateAuditFindings value =
     then_ok (plain_object ''.findings: must be an object'' value) (\<lambda>f.
     then_ok (guards
       [(not_sized 1 280 (fld f ''summary''), schema_error ''.findings.summary: must be 1..280 char string'')]) (\<lambda>_.
     then_ok (when_defined (fld f ''severityCounts'') (\<lambda>c.
         then_ok (plain_object ''.findings.severityCounts: must be an object when present'' c)
           (\<lambda>sc. if list_ex (\<lambda>p. array_index (fst p)) sc then Inl (schema_error ''.findings.severityCounts: unknown key '')
                 else throwing_map severity_count sc))) (\<lambda>severityCounts.
       Inr \<lparr>fi_summary = str_of (fld f ''summary''), fi_severityCounts = severityCounts\<rparr>)))"

definition validateAudit :: "'u url_api \<Rightarrow> date_api \<Rightarrow> jsval \<Rightarrow> err + addon_audit" where
  "validateAudit api dates value =
     then_ok (plain_object ''.audit: must be an object'' value) (\<lambda>a.
     then_ok (guards
       [(not_sized 1 80 (fld a ''auditor''), schema_error ''.audit.auditor: must be 1..80 char string''),
        (\<not> isIsoInstant dates (fld a ''auditedAt''), schema_error ''.audit.auditedAt: must be ISO-8601''),
        (not_matching REGISTRY_SEMVER_PATTERN (fld a ''auditedVersion''),
         schema_error ''.audit.auditedVersion: must be SemVer 2.0.0''),
        (fld a ''url'' \<noteq> Undef \<and> \<not> is_str (fld a ''url''), schema_error ''.audit.url: must be string when present''),
        (fld a ''url'' \<noteq> Undef \<and> no_url api (fld a ''url''), schema_error ''.audit.url: must be a valid URL'')]) (\<lambda>_.
     then_ok (validateAuditFindings (fld a ''findings'')) (\<lambda>findings.
       Inr \<lparr>au_auditor = str_of (fld a ''auditor''), au_auditedAt = str_of (fld a ''auditedAt''),
            au_auditedVersion = str_of (fld a ''auditedVersion''), au_findings = findings,
            au_url = opt_str (fld a ''url'')\<rparr>)))"

text \<open>The optional parts of an add-on's entry, each with the version of the schema it needs.\<close>

definition addon_categories :: "nat \<Rightarrow> jsval \<Rightarrow> err + jsstring list" where
  "addon_categories v c =
     then_ok (guards
       [(v < 2, schema_error ''.categories: requires v >= 2''),
        (\<not> isStringArray c, schema_error ''.categories: must be string array''),
        (\<not> list_all (\<lambda>x. str_of x \<in> set (map js KNOWN_CATEGORIES)) (arr_of c), schema_error ''.categories: unknown '')])
     (\<lambda>_. Inr (map str_of (arr_of c)))"

definition addon_tags :: "nat \<Rightarrow> jsval \<Rightarrow> err + jsstring list" where
  "addon_tags v t =
     then_ok (guards
       [(v < 2, schema_error ''.tags: requires v >= 2''),
        (\<not> isStringArray t, schema_error ''.tags: must be string array''),
        (8 < length (arr_of t), schema_error ''.tags: at most 8 entries''),
        (\<not> list_all (\<lambda>x. rx_match TAG_PATTERN (str_of x)) (arr_of t), schema_error ''.tags: invalid '')])
     (\<lambda>_. Inr (map str_of (arr_of t)))"

definition addon_deprecated :: "nat \<Rightarrow> date_api \<Rightarrow> jsval \<Rightarrow> err + addon_deprecation" where
  "addon_deprecated v dates d =
     (if v < 2 then Inl (schema_error ''.deprecated: requires v >= 2'') else validateAddonDeprecation dates d)"

definition addon_history :: "nat \<Rightarrow> date_api \<Rightarrow> jsstring \<Rightarrow> jsval \<Rightarrow> err + version_entry list" where
  "addon_history v dates head h =
     then_ok (guards
       [(v < 3, schema_error ''.history: requires v >= 3''),
        (\<not> is_arr h, schema_error ''.history: must be an array'')]) (\<lambda>_.
     then_ok (throwing_distinct (validateHistoryEntry dates) ve_version (schema_error ''.history: duplicate version '')
        [] (arr_of h)) (\<lambda>xs.
       if head \<in> ve_version ` set xs then Inl (schema_error ''.history: must not include the head version '') else Inr xs))"

definition addon_audit_checked ::
  "nat \<Rightarrow> 'u url_api \<Rightarrow> date_api \<Rightarrow> jsstring \<Rightarrow> version_entry list option \<Rightarrow> jsval \<Rightarrow> err + addon_audit" where
  "addon_audit_checked v api dates head history a =
     (if v < 3 then Inl (schema_error ''.audit: requires v >= 3'')
      else then_ok (validateAudit api dates a) (\<lambda>audit.
        if au_auditedVersion audit \<in> insert head (ve_version ` set (case history of None \<Rightarrow> [] | Some h \<Rightarrow> h)) then Inr audit
        else Inl (schema_error ''.audit.auditedVersion is neither the head version nor present in history[]'')))"

definition validate_addon :: "nat \<Rightarrow> 'u url_api \<Rightarrow> date_api \<Rightarrow> jsval \<Rightarrow> err + registry_addon" where
  "validate_addon v api dates raw =
     then_ok (any_object '': not an object'' raw) (\<lambda>a.
     then_ok (guards
       [(\<not> is_str (fld a ''id''), schema_error ''.id: must be string''),
        (\<not> is_str (fld a ''name''), schema_error ''.name: must be string''),
        (\<not> is_str (fld a ''version''), schema_error ''.version: must be string''),
        (\<not> is_str (fld a ''description''), schema_error ''.description: must be string''),
        (\<not> is_str (fld a ''path''), schema_error ''.path: must be string''),
        (\<not> rx_match REGISTRY_ID_PATTERN (str_of (fld a ''id'')), schema_error ''.id: must be reverse-DNS''),
        (\<not> rx_match REGISTRY_SEMVER_PATTERN (str_of (fld a ''version'')), schema_error ''.version: must be SemVer 2.0.0''),
        (\<not> isStringArray (fld a ''capabilities''), schema_error ''.capabilities: must be string array'')]) (\<lambda>_.
     then_ok (when_defined (fld a ''categories'') (addon_categories v)) (\<lambda>categories.
     then_ok (when_defined (fld a ''tags'') (addon_tags v)) (\<lambda>tags.
     then_ok (when_defined (fld a ''deprecated'') (addon_deprecated v dates)) (\<lambda>deprecated.
     then_ok (when_defined (fld a ''history'') (addon_history v dates (str_of (fld a ''version'')))) (\<lambda>history.
     then_ok (when_defined (fld a ''audit'') (addon_audit_checked v api dates (str_of (fld a ''version'')) history)) (\<lambda>audit.
       Inr \<lparr>ra_id = str_of (fld a ''id''), ra_name = str_of (fld a ''name''), ra_version = str_of (fld a ''version''),
            ra_description = str_of (fld a ''description''), ra_path = str_of (fld a ''path''),
            ra_capabilities = map str_of (arr_of (fld a ''capabilities'')), ra_categories = categories,
            ra_tags = tags, ra_deprecated = deprecated, ra_history = history, ra_audit = audit\<rparr>)))))))"

definition registry_version :: "jsval \<Rightarrow> nat option" where
  "registry_version v = (if v = jint 1 then Some 1 else if v = jint 2 then Some 2 else if v = jint 3 then Some 3 else None)"

text \<open>\<open>a.deprecated?.supersededBy && !ids.has(...)\<close>: the empty string names nothing.\<close>

definition dangling :: "registry_addon list \<Rightarrow> registry_addon \<Rightarrow> bool" where
  "dangling addons a =
     (case ra_deprecated a of
        None \<Rightarrow> False
      | Some d \<Rightarrow> (case dp_supersededBy d of None \<Rightarrow> False | Some s \<Rightarrow> s \<noteq> [] \<and> s \<notin> ra_id ` set addons))"

definition validateRegistry :: "'u url_api \<Rightarrow> date_api \<Rightarrow> jsval \<Rightarrow> err + registry" where
  "validateRegistry api dates input =
     then_ok (any_object ''registry: not an object'' input) (\<lambda>obj.
     then_ok (of_option (schema_error ''registry: v must be 1, 2, or 3'') (registry_version (fld obj ''v''))) (\<lambda>v.
     then_ok (any_object ''registry: publisher must be an object'' (fld obj ''publisher'')) (\<lambda>publisher.
     then_ok (guards
       [(\<not> is_str (fld publisher ''name''), schema_error ''registry: publisher.name must be string''),
        (\<not> isStringArray (fld obj ''trustedKeys'') \<or> length (arr_of (fld obj ''trustedKeys'')) = 0,
         schema_error ''registry: trustedKeys must be a non-empty string array''),
        (\<not> is_arr (fld obj ''addons''), schema_error ''registry: addons must be an array'')]) (\<lambda>_.
     then_ok (throwing_map (validate_addon v api dates) (arr_of (fld obj ''addons''))) (\<lambda>addons.
     if list_ex (dangling addons) addons
     then Inl (schema_error ''deprecated.supersededBy is not present in this registry'')
     else Inr \<lparr>rg_v = v, rg_publisher_name = str_of (fld publisher ''name''),
               rg_publisher_homepage = opt_str (fld publisher ''homepage''),
               rg_trustedKeys = map str_of (arr_of (fld obj ''trustedKeys'')), rg_addons = addons\<rparr>)))))"

subsection \<open>The meta index\<close>

definition publisher_url :: "'u url_api \<Rightarrow> jsval \<Rightarrow> err + unit" where
  "publisher_url api u =
     (if \<not> is_str u then Inl (schema_error ''.url: must be a string'')
      else (case url_parse api (str_of u) of
          None \<Rightarrow> Inl (schema_error ''.url: is not an absolute URL'')
        | Some parsed \<Rightarrow>
            if url_protocol api parsed \<noteq> js ''https:'' \<and> url_protocol api parsed \<noteq> js ''http:''
            then Inl (schema_error ''.url: must use http(s), got '') else Inr ()))"

text \<open>One publisher; \<open>dup\<close> tells whether its URL has been seen.\<close>

definition validate_publisher :: "'u url_api \<Rightarrow> jsstring list \<Rightarrow> jsval \<Rightarrow> err + publisher_entry" where
  "validate_publisher api seen raw =
     then_ok (any_object '': not an object'' raw) (\<lambda>p.
     then_ok (publisher_url api (fld p ''url'')) (\<lambda>_.
     then_ok (guards
       [(str_of (fld p ''url'') \<in> set seen, schema_error ''.url: duplicate ''),
        (fld p ''name'' \<noteq> Undef \<and> not_sized 1 80 (fld p ''name''),
         schema_error ''.name: must be 1..80 char string when present''),
        (fld p ''featured'' \<notin> {Undef, Bool True, Bool False}, schema_error ''.featured: must be boolean when present''),
        (fld p ''endorsedBy'' \<noteq> Undef \<and> \<not> isStringArray (fld p ''endorsedBy''),
         schema_error ''.endorsedBy: must be a string array when present''),
        (fld p ''endorsedBy'' \<noteq> Undef \<and> length (arr_of (fld p ''endorsedBy'')) \<notin> {1..8},
         schema_error ''.endorsedBy: must have 1..8 entries when present''),
        (fld p ''endorsedBy'' \<noteq> Undef \<and> list_ex (not_sized 1 80) (arr_of (fld p ''endorsedBy'')),
         schema_error ''.endorsedBy: each label must be 1..80 chars''),
        (fld p ''endorsementUrl'' \<noteq> Undef \<and> \<not> is_str (fld p ''endorsementUrl''),
         schema_error ''.endorsementUrl: must be a string when present''),
        (fld p ''endorsementUrl'' \<noteq> Undef \<and> no_url api (fld p ''endorsementUrl''),
         schema_error ''.endorsementUrl: must be a valid URL'')]) (\<lambda>_.
       Inr \<lparr>pe_url = str_of (fld p ''url''), pe_name = opt_str (fld p ''name''),
            pe_featured = (case fld p ''featured'' of Bool b \<Rightarrow> Some b | _ \<Rightarrow> None),
            pe_endorsedBy = (if fld p ''endorsedBy'' = Undef then None
                             else Some (map str_of (arr_of (fld p ''endorsedBy'')))),
            pe_endorsementUrl = opt_str (fld p ''endorsementUrl'')\<rparr>)))"

text \<open>\<open>map\<close> with a \<open>seen\<close> set that its function reads and extends.\<close>

fun map_seen :: "('k list \<Rightarrow> 'a \<Rightarrow> 'e + 'b) \<Rightarrow> ('b \<Rightarrow> 'k) \<Rightarrow> 'k list \<Rightarrow> 'a list \<Rightarrow> 'e + 'b list" where
  "map_seen f key seen [] = Inr []"
| "map_seen f key seen (x # xs) =
     then_ok (f seen x) (\<lambda>y. then_ok (map_seen f key (key y # seen) xs) (\<lambda>ys. Inr (y # ys)))"

definition validateMetaIndex :: "'u url_api \<Rightarrow> jsval \<Rightarrow> err + publisher_entry list" where
  "validateMetaIndex api input =
     then_ok (any_object ''meta: not an object'' input) (\<lambda>obj.
     then_ok (guards
       [(fld obj ''v'' \<noteq> jint 1, schema_error ''meta: v must be 1''),
        (fld obj ''kind'' \<noteq> Str (js ''senn-publisher-meta''), schema_error ''meta: kind must be senn-publisher-meta''),
        (\<not> is_arr (fld obj ''publishers''), schema_error ''meta: publishers must be an array''),
        (length (arr_of (fld obj ''publishers'')) = 0, schema_error ''meta: publishers must be non-empty'')]) (\<lambda>_.
       map_seen (validate_publisher api) pe_url [] (arr_of (fld obj ''publishers''))))"

subsection \<open>The submissions list\<close>

definition validate_submission :: "'u url_api \<Rightarrow> date_api \<Rightarrow> jsstring list \<Rightarrow> jsval \<Rightarrow> err + submission" where
  "validate_submission api dates seen raw =
     then_ok (any_object '': not an object'' raw) (\<lambda>s.
     then_ok (guards
       [(no_text (fld s ''id''), schema_error ''.id: must be non-empty string''),
        (str_of (fld s ''id'') \<in> set seen, schema_error ''.id: duplicate ''),
        (not_matching REGISTRY_ID_PATTERN (fld s ''addonId''), schema_error ''.addonId: must be reverse-DNS''),
        (not_matching REGISTRY_SEMVER_PATTERN (fld s ''version''), schema_error ''.version: must be SemVer 2.0.0''),
        (\<not> is_str (fld s ''manifestUrl''), schema_error ''.manifestUrl: must be string''),
        (no_url api (fld s ''manifestUrl''), schema_error ''.manifestUrl: must be a valid URL''),
        (\<not> is_str (fld s ''signatureUrl''), schema_error ''.signatureUrl: must be string''),
        (no_url api (fld s ''signatureUrl''), schema_error ''.signatureUrl: must be a valid URL''),
        (not_matching ED25519_PUBKEY_PATTERN (fld s ''publicKey''),
         schema_error ''.publicKey: must be 43-char base64url Ed25519 key''),
        (\<not> isIsoInstant dates (fld s ''submittedAt''), schema_error ''.submittedAt: must be ISO-8601''),
        (not_sized 1 200 (fld s ''contact''), schema_error ''.contact: must be 1..200 char string''),
        (\<not> is_str (fld s ''status'') \<or> str_of (fld s ''status'') \<notin> set (map js SUBMISSION_STATUSES),
         schema_error ''.status: must be one of ''),
        (\<not> isIsoInstant dates (fld s ''statusUpdatedAt''), schema_error ''.statusUpdatedAt: must be ISO-8601''),
        (fld s ''status'' \<noteq> Str (js ''pending'') \<and> no_text (fld s ''statusReason''),
         schema_error ''.statusReason: required when status is not pending''),
        (fld s ''statusReason'' \<noteq> Undef \<and> not_sized 0 280 (fld s ''statusReason''),
         schema_error ''.statusReason: must be at most 280 char string when present''),
        (fld s ''notes'' \<noteq> Undef \<and> \<not> is_str (fld s ''notes''), schema_error ''.notes: must be string when present''),
        (fld s ''notes'' \<noteq> Undef \<and> utf8_longer 2048 (fld s ''notes''),
         schema_error ''.notes: must be at most 2 KiB UTF-8'')]) (\<lambda>_.
       Inr \<lparr>sb_id = str_of (fld s ''id''), sb_addonId = str_of (fld s ''addonId''), sb_version = str_of (fld s ''version''),
            sb_manifestUrl = str_of (fld s ''manifestUrl''), sb_signatureUrl = str_of (fld s ''signatureUrl''),
            sb_publicKey = str_of (fld s ''publicKey''), sb_submittedAt = str_of (fld s ''submittedAt''),
            sb_contact = str_of (fld s ''contact''), sb_status = str_of (fld s ''status''),
            sb_statusUpdatedAt = str_of (fld s ''statusUpdatedAt''), sb_statusReason = opt_str (fld s ''statusReason''),
            sb_notes = opt_str (fld s ''notes'')\<rparr>))"

definition validateSubmissions :: "'u url_api \<Rightarrow> date_api \<Rightarrow> jsval \<Rightarrow> err + submission list" where
  "validateSubmissions api dates input =
     then_ok (any_object ''submissions: not an object'' input) (\<lambda>obj.
     then_ok (guards
       [(fld obj ''v'' \<noteq> jint 1, schema_error ''submissions: v must be 1''),
        (fld obj ''kind'' \<noteq> Str (js ''senn-publisher-submissions''),
         schema_error ''submissions: kind must be senn-publisher-submissions''),
        (\<not> is_arr (fld obj ''submissions''), schema_error ''submissions: submissions must be an array'')]) (\<lambda>_.
       map_seen (validate_submission api dates) sb_id [] (arr_of (fld obj ''submissions''))))"

subsection \<open>A manifest file\<close>

definition REQUIRED_FIELDS :: "string list" where
  "REQUIRED_FIELDS = [''id'', ''name'', ''version'', ''entry'', ''license'', ''permissions'', ''network'', ''capabilities'']"

definition FILE_PERMISSIONS :: "string list" where
  "FILE_PERMISSIONS = [''peer.send'', ''peer.receive'', ''peer.send.bin'', ''peer.receive.bin'',
     ''storage.local.read'', ''storage.local.write'', ''file.read.user_selected'', ''file.write.user_approved'',
     ''ui.panel'', ''ui.overlay'', ''presence.read'', ''audio.level'',
     ''media.send.audio'', ''media.send.video'', ''media.receive.audio'', ''media.receive.video'']"

abbreviation file_error :: "string \<Rightarrow> err" where
  "file_error m \<equiv> Thrown ''ManifestValidationError'' m"

definition file_permission :: "jsval \<Rightarrow> err option" where
  "file_permission perm =
     (if \<not> is_str perm \<or> str_of perm \<notin> set (map js FILE_PERMISSIONS)
      then Some (if unprintable perm then Thrown ''TypeError'' '''' else file_error ''unknown permission: '') else None)"

text \<open>\<open>field in manifest\<close> throws when the document is no object.\<close>

definition check_manifest :: "jsval \<Rightarrow> err + unit" where
  "check_manifest manifest =
     (if \<not> is_objecty manifest then Inl (Thrown ''TypeError'' '''')
      else let m = own_fields manifest in
     then_ok (guards
       [(list_ex (\<lambda>field. \<not> has_prop m field) REQUIRED_FIELDS, file_error ''missing required field: ''),
        (not_matching REGISTRY_ID_PATTERN (fld m ''id''), file_error ''id must match reverse-DNS pattern''),
        (not_matching REGISTRY_SEMVER_PATTERN (fld m ''version''), file_error ''version must be SemVer 2.0.0''),
        (fld m ''network'' \<noteq> Bool False, file_error ''network must be false''),
        (\<not> is_arr (fld m ''permissions''), file_error ''permissions must be an array'')]) (\<lambda>_.
     case throwing_all file_permission (arr_of (fld m ''permissions'')) of
       Some e \<Rightarrow> Inl e
     | None \<Rightarrow> guards [(\<not> is_arr (fld m ''capabilities'') \<or> length (arr_of (fld m ''capabilities'')) = 0,
                        file_error ''capabilities must be a non-empty array'')]))"

text \<open>\<open>raw\<close> is what reading the file gives.\<close>

definition validateManifestFile :: "err + bytes \<Rightarrow> err + unit" where
  "validateManifestFile raw =
     then_ok raw (\<lambda>b.
       case json_parse (utf8_decode_nobom b) of
         None \<Rightarrow> Inl (file_error ''not valid JSON: '')
       | Some manifest \<Rightarrow> check_manifest manifest)"

end
