(* ===== verification/Registry_Props.thy ===== *)
theory Registry_Props
  imports Registry
begin

text \<open>
  What the validators of a publisher's documents promise. \<open>registry_ok\<close> is the schema of the three
  versions as one predicate on the parsed registry; a document is accepted only as a registry that
  satisfies it, and every registry that satisfies it, written out again (\<open>registry_val\<close>), is accepted
  as itself. A document of one version is accepted under every later one; the manifest checker of
  the command line and the one of the host agree on everything but the three texts that only the
  host requires to be non-empty.
\<close>

subsection \<open>Optional properties\<close>

definition optf :: "string \<Rightarrow> jsval option \<Rightarrow> jsfields" where
  "optf k x = (case x of None \<Rightarrow> [] | Some v \<Rightarrow> [(js k, v)])"

lemma has_prop_optf [simp]: "has_prop (optf k x) k' \<longleftrightarrow> k = k' \<and> x \<noteq> None"
  by (cases x) (auto simp: optf_def)

lemma has_prop_append [simp]: "has_prop (fs @ gs) k \<longleftrightarrow> has_prop fs k \<or> has_prop gs k"
  by (auto simp: has_prop_def map_add_def split: option.splits)

lemma fld_optf [simp]: "fld (optf k x) k' = (if k = k' then (case x of None \<Rightarrow> Undef | Some v \<Rightarrow> v) else Undef)"
  by (cases x) (auto simp: optf_def)

lemma opt_str_simps [simp]: "opt_str Undef = None" "opt_str (Str s) = Some s"
    "opt_str (case map_option Str x of None \<Rightarrow> Undef | Some v \<Rightarrow> v) = x"
  by (cases x; simp add: opt_str_def)+

lemma opt_str_Some [simp]: "opt_str v = Some s \<longleftrightarrow> v = Str s"
  by (cases v) (auto simp: opt_str_def)

lemma when_defined_Undef [simp]: "when_defined Undef k = Inr None"
  by (simp add: when_defined_def)

lemma when_defined_None: "when_defined v k = Inr None \<longleftrightarrow> v = Undef"
  by (auto simp: when_defined_def then_ok_Inr)

lemma when_defined_Some: "when_defined v k = Inr (Some x) \<longleftrightarrow> v \<noteq> Undef \<and> k v = Inr x"
  by (auto simp: when_defined_def then_ok_Inr)

lemma when_defined_Inr: "when_defined v k = Inr r \<longleftrightarrow> (case r of None \<Rightarrow> v = Undef | Some x \<Rightarrow> v \<noteq> Undef \<and> k v = Inr x)"
  by (cases r) (auto simp: when_defined_None when_defined_Some)

lemma when_defined_val: "when_defined (case map_option f x of None \<Rightarrow> Undef | Some v \<Rightarrow> v) k = Inr x"
  if "\<And>a. x = Some a \<Longrightarrow> f a \<noteq> Undef \<and> k (f a) = Inr a"
  using that by (cases x) (auto simp: when_defined_def)

text \<open>A value of the schema survives being written out: the two halves every validator needs.\<close>

lemma isStringArray_iff: "isStringArray v \<longleftrightarrow> v = Arr (map Str (map str_of (arr_of v)))"
proof -
  have "list_all is_str xs \<longleftrightarrow> xs = map (\<lambda>x. Str (str_of x)) xs" for xs
  proof (induction xs)
    case (Cons x xs)
    then show ?case by (cases x) auto
  qed simp
  from this [of "arr_of v"] show ?thesis by (cases v) (simp_all add: isStringArray_def o_def)
qed

lemma isStringArray_val [simp]: "isStringArray (Arr (map Str xs))"
  by (simp add: isStringArray_def list_all_iff)

lemma str_of_comp_Str [simp]: "str_of \<circ> Str = id"
  by (simp add: fun_eq_iff)

lemma isIsoInstant_Str [simp]: "isIsoInstant dates (Str s) \<longleftrightarrow> date_parse dates s \<noteq> NaN"
  by (simp add: isIsoInstant_def)

lemma not_sized_Str [simp]: "not_sized lo hi (Str s) \<longleftrightarrow> length s < lo \<or> hi < length s"
  by (simp add: not_sized_def)

lemma no_text_Str [simp]: "no_text (Str s) \<longleftrightarrow> s = []"
  by (simp add: no_text_def)

lemma not_matching_Str [simp]: "not_matching p (Str s) \<longleftrightarrow> \<not> rx_match p s"
  by (simp add: not_matching_def)

lemma plain_object_Obj [simp]: "plain_object m (Obj fs) = Inr fs" "any_object m (Obj fs) = Inr fs"
  by (simp_all add: plain_object_def any_object_def)

lemma field_tests:
  "isIsoInstant dates v \<longleftrightarrow> (\<exists>s. v = Str s \<and> date_parse dates s \<noteq> NaN)"
  "\<not> not_sized lo hi v \<longleftrightarrow> (\<exists>s. v = Str s \<and> lo \<le> length s \<and> length s \<le> hi)"
  "\<not> no_text v \<longleftrightarrow> (\<exists>s. v = Str s \<and> s \<noteq> [])"
  "\<not> not_matching p v \<longleftrightarrow> (\<exists>s. v = Str s \<and> rx_match p s)"
  by (cases v; auto simp: isIsoInstant_def not_sized_def no_text_def not_matching_def)+

lemma str_or_undef: "v \<noteq> Undef \<longrightarrow> is_str v \<Longrightarrow> v = (case map_option Str (opt_str v) of None \<Rightarrow> Undef | Some u \<Rightarrow> u)"
  by (cases v) (auto simp: opt_str_def)

subsection \<open>The schema\<close>

definition text_in :: "nat \<Rightarrow> nat \<Rightarrow> jsstring \<Rightarrow> bool" where
  "text_in lo hi s = (lo \<le> length s \<and> length s \<le> hi)"

definition iso :: "date_api \<Rightarrow> jsstring \<Rightarrow> bool" where
  "iso dates s = (date_parse dates s \<noteq> NaN)"

definition deprecation_ok :: "date_api \<Rightarrow> addon_deprecation \<Rightarrow> bool" where
  "deprecation_ok dates d = (iso dates (dp_since d) \<and> text_in 1 280 (dp_reason d))"

definition yank_ok :: "date_api \<Rightarrow> addon_yank \<Rightarrow> bool" where
  "yank_ok dates y = (iso dates (yk_at y) \<and> text_in 1 280 (yk_reason y))"

definition version_ok :: "date_api \<Rightarrow> version_entry \<Rightarrow> bool" where
  "version_ok dates e =
     (rx_match SEMVER (ve_version e) \<and> ve_path e \<noteq> [] \<and> iso dates (ve_signedAt e)
      \<and> rx_match ED25519_PUBKEY_PATTERN (ve_publicKey e)
      \<and> pred_option (\<lambda>c. length (utf8_encode c) \<le> 2048) (ve_changelog e) \<and> pred_option (yank_ok dates) (ve_yanked e))"

definition count_ok :: "jsstring \<times> jsnum \<Rightarrow> bool" where
  "count_ok = (\<lambda>(k, n). k \<in> set (map js SEVERITY_KEYS) \<and> (\<exists>i\<ge>0. n = Fin (of_int i)))"

definition findings_ok :: "audit_findings \<Rightarrow> bool" where
  "findings_ok f = (text_in 1 280 (fi_summary f) \<and> pred_option (list_all count_ok) (fi_severityCounts f))"

definition audit_ok :: "'u url_api \<Rightarrow> date_api \<Rightarrow> addon_audit \<Rightarrow> bool" where
  "audit_ok api dates a =
     (text_in 1 80 (au_auditor a) \<and> iso dates (au_auditedAt a) \<and> rx_match SEMVER (au_auditedVersion a)
      \<and> findings_ok (au_findings a) \<and> pred_option (\<lambda>u. url_parse api u \<noteq> None) (au_url a))"

text \<open>Version 2 adds the first three optional parts, version 3 the last two; the history has one entry
  per version and none for the head; an audit is of a version the entry lists.\<close>

definition addon_ok :: "nat \<Rightarrow> 'u url_api \<Rightarrow> date_api \<Rightarrow> registry_addon \<Rightarrow> bool" where
  "addon_ok v api dates a =
     (rx_match ADDON_ID (ra_id a) \<and> rx_match SEMVER (ra_version a)
      \<and> (v < 2 \<longrightarrow> ra_categories a = None \<and> ra_tags a = None \<and> ra_deprecated a = None)
      \<and> (v < 3 \<longrightarrow> ra_history a = None \<and> ra_audit a = None)
      \<and> pred_option (\<lambda>cs. set cs \<subseteq> set (map js KNOWN_CATEGORIES)) (ra_categories a)
      \<and> pred_option (\<lambda>ts. length ts \<le> 8 \<and> list_all (rx_match TAG_PATTERN) ts) (ra_tags a)
      \<and> pred_option (deprecation_ok dates) (ra_deprecated a)
      \<and> pred_option (\<lambda>h. list_all (version_ok dates) h \<and> distinct (ra_version a # map ve_version h)) (ra_history a)
      \<and> pred_option (\<lambda>u. audit_ok api dates u
          \<and> au_auditedVersion u \<in> insert (ra_version a) (ve_version ` set (case ra_history a of None \<Rightarrow> [] | Some h \<Rightarrow> h)))
        (ra_audit a))"

definition registry_ok :: "'u url_api \<Rightarrow> date_api \<Rightarrow> registry \<Rightarrow> bool" where
  "registry_ok api dates r =
     (rg_v r \<in> {1, 2, 3} \<and> rg_trustedKeys r \<noteq> [] \<and> list_all (addon_ok (rg_v r) api dates) (rg_addons r)
      \<and> \<not> list_ex (dangling (rg_addons r)) (rg_addons r))"

subsection \<open>Documents\<close>

definition deprecation_val :: "addon_deprecation \<Rightarrow> jsval" where
  "deprecation_val d = Obj ([(js ''since'', Str (dp_since d)), (js ''reason'', Str (dp_reason d))]
     @ optf ''supersededBy'' (map_option Str (dp_supersededBy d)))"

definition yank_val :: "addon_yank \<Rightarrow> jsval" where
  "yank_val y = Obj [(js ''at'', Str (yk_at y)), (js ''reason'', Str (yk_reason y))]"

definition version_val :: "version_entry \<Rightarrow> jsval" where
  "version_val e = Obj ([(js ''version'', Str (ve_version e)), (js ''path'', Str (ve_path e)),
     (js ''signedAt'', Str (ve_signedAt e)), (js ''publicKey'', Str (ve_publicKey e))]
     @ optf ''changelog'' (map_option Str (ve_changelog e)) @ optf ''yanked'' (map_option yank_val (ve_yanked e)))"

definition counts_val :: "(jsstring \<times> jsnum) list \<Rightarrow> jsval" where
  "counts_val c = Obj (map (\<lambda>(k, n). (k, Num n)) c)"

definition findings_val :: "audit_findings \<Rightarrow> jsval" where
  "findings_val f = Obj ([(js ''summary'', Str (fi_summary f))]
     @ optf ''severityCounts'' (map_option counts_val (fi_severityCounts f)))"

definition audit_val :: "addon_audit \<Rightarrow> jsval" where
  "audit_val a = Obj ([(js ''auditor'', Str (au_auditor a)), (js ''auditedAt'', Str (au_auditedAt a)),
     (js ''auditedVersion'', Str (au_auditedVersion a)), (js ''findings'', findings_val (au_findings a))]
     @ optf ''url'' (map_option Str (au_url a)))"

definition strings_val :: "jsstring list \<Rightarrow> jsval" where
  "strings_val xs = Arr (map Str xs)"

definition addon_val :: "registry_addon \<Rightarrow> jsval" where
  "addon_val a = Obj ([(js ''id'', Str (ra_id a)), (js ''name'', Str (ra_name a)), (js ''version'', Str (ra_version a)),
     (js ''description'', Str (ra_description a)), (js ''path'', Str (ra_path a)),
     (js ''capabilities'', strings_val (ra_capabilities a))]
     @ optf ''categories'' (map_option strings_val (ra_categories a)) @ optf ''tags'' (map_option strings_val (ra_tags a))
     @ optf ''deprecated'' (map_option deprecation_val (ra_deprecated a))
     @ optf ''history'' (map_option (\<lambda>h. Arr (map version_val h)) (ra_history a))
     @ optf ''audit'' (map_option audit_val (ra_audit a)))"

definition registry_val :: "registry \<Rightarrow> jsval" where
  "registry_val r = Obj [(js ''v'', jint (int (rg_v r))),
     (js ''publisher'', Obj ([(js ''name'', Str (rg_publisher_name r))]
        @ optf ''homepage'' (map_option Str (rg_publisher_homepage r)))),
     (js ''trustedKeys'', strings_val (rg_trustedKeys r)), (js ''addons'', Arr (map addon_val (rg_addons r)))]"

lemmas schema_defs = text_in_def iso_def REGISTRY_SEMVER_PATTERN_def REGISTRY_ID_PATTERN_def
lemmas doc_simps = fld_append field_tests

lemma guards_pass: "then_ok (guards gs) k = k ()" if "list_all (\<lambda>g. \<not> fst g) gs"
proof -
  from that have "guards gs = Inr ()" by simp
  then show ?thesis by (simp only: then_ok_simps)
qed

lemma pred_option_opt_str [simp]: "pred_option P (opt_str v) \<longleftrightarrow> (\<forall>s. v = Str s \<longrightarrow> P s)"
  by (cases v) (auto simp: opt_str_def)

declare guards.simps [simp del]

subsection \<open>Each validator accepts exactly its part of the schema\<close>

lemma deprecation_sound: "validateAddonDeprecation dates v = Inr d \<Longrightarrow> deprecation_ok dates d"
  by (auto simp: validateAddonDeprecation_def then_ok_Inr deprecation_ok_def schema_defs field_tests split: if_splits)

lemma deprecation_complete: "deprecation_ok dates d \<Longrightarrow> validateAddonDeprecation dates (deprecation_val d) = Inr d"
  by (cases "dp_supersededBy d")
    (auto simp: validateAddonDeprecation_def deprecation_val_def guards_pass Suc_le_eq deprecation_ok_def schema_defs fld_append)

lemma yank_sound: "validateYank dates v = Inr y \<Longrightarrow> yank_ok dates y"
  by (auto simp: validateYank_def then_ok_Inr yank_ok_def schema_defs field_tests split: if_splits)

lemma yank_complete: "yank_ok dates y \<Longrightarrow> validateYank dates (yank_val y) = Inr y"
  by (auto simp: validateYank_def yank_val_def guards_pass Suc_le_eq yank_ok_def schema_defs)

lemma yank_val_not_Undef [simp]: "yank_val y \<noteq> Undef"
  by (simp add: yank_val_def)

lemma version_sound:
  assumes "validateHistoryEntry dates v = Inr e"
  shows "version_ok dates e"
proof -
  from assms obtain fs yanked
    where g: "\<not> not_matching SEMVER (fld fs ''version'')" "\<not> no_text (fld fs ''path'')" "isIsoInstant dates (fld fs ''signedAt'')"
        "\<not> not_matching ED25519_PUBKEY_PATTERN (fld fs ''publicKey'')"
        "fld fs ''changelog'' \<noteq> Undef \<longrightarrow> \<not> 2048 < length (utf8_encode (str_of (fld fs ''changelog'')))"
        "when_defined (fld fs ''yanked'') (validateYank dates) = Inr yanked"
      and e: "e = \<lparr>ve_version = str_of (fld fs ''version''), ve_path = str_of (fld fs ''path''),
            ve_signedAt = str_of (fld fs ''signedAt''), ve_publicKey = str_of (fld fs ''publicKey''),
            ve_changelog = opt_str (fld fs ''changelog''), ve_yanked = yanked\<rparr>"
    by (auto simp: validateHistoryEntry_def then_ok_Inr utf8_longer_def REGISTRY_SEMVER_PATTERN_def)
  from g(6) have "pred_option (yank_ok dates) yanked"
    by (auto simp: when_defined_Inr dest: yank_sound split: option.splits)
  with g(1-5) show ?thesis
    unfolding e by (auto simp: version_ok_def field_tests iso_def)
qed

lemma version_complete: "version_ok dates e \<Longrightarrow> validateHistoryEntry dates (version_val e) = Inr e"
  by (cases "ve_changelog e"; cases "ve_yanked e")
    (auto simp: validateHistoryEntry_def version_val_def guards_pass Suc_le_eq version_ok_def schema_defs fld_append
      when_defined_def utf8_longer_def yank_complete yank_val_not_Undef)

lemma count_sound: "severity_count p = Inr c \<Longrightarrow> count_ok c"
proof (cases p)
  case (Pair k v)
  assume *: "severity_count p = Inr c"
  then obtain r where "v = Num (Fin r)" "is_int_rat r"
    using Pair by (cases v rule: is_integer_num.cases) (auto simp: severity_count_def then_ok_Inr split: if_splits)
  with * Pair show ?thesis
    by (auto simp: severity_count_def then_ok_Inr count_ok_def is_int_rat_iff split: if_splits)
qed

lemma count_complete: "count_ok c \<Longrightarrow> severity_count (fst c, Num (snd c)) = Inr c"
  by (auto simp: severity_count_def guards_pass Suc_le_eq count_ok_def)

lemma severity_key_no_index: "k \<in> set SEVERITY_KEYS \<Longrightarrow> \<not> array_index (js k)"
  by (auto simp: SEVERITY_KEYS_def array_index_def Chr_def DIGITS_def in_cls_def js_Cons)

lemma counts_complete:
  assumes "list_all count_ok c"
  shows "throwing_map severity_count (map (\<lambda>(k, n). (k, Num n)) c) = Inr c"
    "\<not> list_ex (\<lambda>p. array_index (fst p)) (map (\<lambda>(k, n). (k, Num n)) c)"
proof -
  show "throwing_map severity_count (map (\<lambda>(k, n). (k, Num n)) c) = Inr c"
    using assms by (auto simp: throwing_map_Inr list_all2_conv_all_nth list_all_length split_beta count_complete)
  show "\<not> list_ex (\<lambda>p. array_index (fst p)) (map (\<lambda>(k, n). (k, Num n)) c)"
    using assms by (auto simp: list_ex_iff list_all_iff count_ok_def dest: severity_key_no_index dest!: bspec)
qed

lemma counts_sound: "throwing_map severity_count sc = Inr c \<Longrightarrow> list_all count_ok c"
  by (auto simp: list_all_iff dest: throwing_map_set count_sound)

lemma findings_sound:
  assumes "validateAuditFindings v = Inr f"
  shows "findings_ok f"
proof -
  from assms obtain fs counts
    where g: "\<not> not_sized 1 280 (fld fs ''summary'')" "pred_option (list_all count_ok) counts"
      and f: "f = \<lparr>fi_summary = str_of (fld fs ''summary''), fi_severityCounts = counts\<rparr>"
    by (auto simp: validateAuditFindings_def then_ok_Inr when_defined_Inr pred_option_def
        split: option.splits if_splits dest!: counts_sound)
  then show ?thesis
    unfolding f by (auto simp: findings_ok_def field_tests text_in_def)
qed

lemma findings_complete: "findings_ok f \<Longrightarrow> validateAuditFindings (findings_val f) = Inr f"
  by (cases "fi_severityCounts f")
    (auto simp: validateAuditFindings_def findings_val_def guards_pass Suc_le_eq findings_ok_def schema_defs fld_append
      when_defined_def counts_val_def counts_complete)

lemma audit_sound: "validateAudit api dates v = Inr a \<Longrightarrow> audit_ok api dates a"
  by (auto simp: validateAudit_def then_ok_Inr audit_ok_def schema_defs field_tests no_url_def dest: findings_sound)

lemma audit_complete: "audit_ok api dates a \<Longrightarrow> validateAudit api dates (audit_val a) = Inr a"
  by (cases "au_url a")
    (auto simp: validateAudit_def audit_val_def guards_pass Suc_le_eq audit_ok_def schema_defs fld_append no_url_def findings_complete
     )

lemma throwing_distinct_Inr:
  "throwing_distinct f key e seen xs = Inr ys \<longleftrightarrow>
     list_all2 (\<lambda>x y. f x = Inr y) xs ys \<and> distinct (map key ys) \<and> key ` set ys \<inter> set seen = {}"
proof (induction xs arbitrary: seen ys)
  case (Cons x xs)
  then show ?case
    by (cases "f x"; cases ys) (auto simp: then_ok_Inr)
qed auto

lemma map_seen_Inr:
  assumes "\<And>seen x y. f seen x = Inr y \<Longrightarrow> P y \<and> key y \<notin> set seen" "map_seen f key seen xs = Inr ys"
  shows "list_all P ys \<and> distinct (map key ys) \<and> key ` set ys \<inter> set seen = {}"
  using assms(2)
proof (induction xs arbitrary: seen ys)
  case (Cons x xs)
  then obtain y zs where "f seen x = Inr y" "map_seen f key (key y # seen) xs = Inr zs" "ys = y # zs"
    by (auto simp: then_ok_Inr)
  with Cons.IH [of "key y # seen" zs] assms(1) [of seen x y] show ?case by auto
qed simp

lemma categories_sound:
  "addon_categories v c = Inr cs \<Longrightarrow> 2 \<le> v \<and> set cs \<subseteq> set (map js KNOWN_CATEGORIES)"
  by (auto simp: addon_categories_def then_ok_Inr list_all_iff)

lemma categories_complete:
  "2 \<le> v \<Longrightarrow> set cs \<subseteq> set (map js KNOWN_CATEGORIES) \<Longrightarrow> addon_categories v (strings_val cs) = Inr cs"
  by (auto simp: addon_categories_def strings_val_def guards_pass list_all_iff subset_iff)

lemma tags_sound: "addon_tags v t = Inr ts \<Longrightarrow> 2 \<le> v \<and> length ts \<le> 8 \<and> list_all (rx_match TAG_PATTERN) ts"
  by (auto simp: addon_tags_def then_ok_Inr list_all_iff)

lemma tags_complete:
  "2 \<le> v \<Longrightarrow> length ts \<le> 8 \<Longrightarrow> list_all (rx_match TAG_PATTERN) ts \<Longrightarrow> addon_tags v (strings_val ts) = Inr ts"
  by (auto simp: addon_tags_def strings_val_def guards_pass list_all_iff)

lemma deprecated_iff: "addon_deprecated v dates d = Inr x \<longleftrightarrow> 2 \<le> v \<and> validateAddonDeprecation dates d = Inr x"
  by (auto simp: addon_deprecated_def)

lemma history_sound:
  "addon_history v dates head h = Inr xs \<Longrightarrow>
     3 \<le> v \<and> list_all (version_ok dates) xs \<and> distinct (head # map ve_version xs)"
  by (auto simp: addon_history_def then_ok_Inr throwing_distinct_Inr list_all2_conv_all_nth list_all_length
      dest!: version_sound split: if_splits)

lemma history_complete:
  assumes "3 \<le> v" "list_all (version_ok dates) xs" "distinct (head # map ve_version xs)"
  shows "addon_history v dates head (Arr (map version_val xs)) = Inr xs"
proof -
  have "throwing_distinct (validateHistoryEntry dates) ve_version e [] (map version_val xs) = Inr xs" for e
    using assms by (auto simp: throwing_distinct_Inr list_all2_conv_all_nth list_all_length version_complete)
  with assms show ?thesis by (auto simp: addon_history_def guards_pass)
qed

lemma audit_checked_iff:
  "addon_audit_checked v api dates head h a = Inr u \<longleftrightarrow>
     3 \<le> v \<and> validateAudit api dates a = Inr u
     \<and> au_auditedVersion u \<in> insert head (ve_version ` set (case h of None \<Rightarrow> [] | Some xs \<Rightarrow> xs))"
  by (auto simp: addon_audit_checked_def then_ok_Inr)

text \<open>An optional part that validates satisfies what its validator promises.\<close>

lemma when_defined_sound: "when_defined v k = Inr r \<Longrightarrow> (\<And>x. k v = Inr x \<Longrightarrow> P x) \<Longrightarrow> pred_option P r"
  by (auto simp: when_defined_Inr pred_option_def split: option.splits)

lemma when_defined_mono:
  "when_defined v k = Inr r \<Longrightarrow> (\<And>x. k v = Inr x \<Longrightarrow> k' v = Inr x) \<Longrightarrow> when_defined v k' = Inr r"
  by (auto simp: when_defined_Inr split: option.splits)

lemma pred_option_conj: "pred_option P r \<Longrightarrow> pred_option Q r \<Longrightarrow> pred_option (\<lambda>x. P x \<and> Q x) r"
  by (cases r) auto

lemma string_array: "isStringArray v \<Longrightarrow> v = strings_val (map str_of (arr_of v))"
  by (metis isStringArray_iff strings_val_def)

text \<open>What \<open>validate_addon\<close> has tested when it returns.\<close>

lemma validate_addon_Inr:
  "validate_addon v api dates raw = Inr a \<longleftrightarrow>
     (\<exists>fs. any_object '': not an object'' raw = Inr fs
       \<and> fld fs ''id'' = Str (ra_id a) \<and> fld fs ''name'' = Str (ra_name a) \<and> fld fs ''version'' = Str (ra_version a)
       \<and> fld fs ''description'' = Str (ra_description a) \<and> fld fs ''path'' = Str (ra_path a)
       \<and> fld fs ''capabilities'' = strings_val (ra_capabilities a)
       \<and> rx_match ADDON_ID (ra_id a) \<and> rx_match SEMVER (ra_version a)
       \<and> when_defined (fld fs ''categories'') (addon_categories v) = Inr (ra_categories a)
       \<and> when_defined (fld fs ''tags'') (addon_tags v) = Inr (ra_tags a)
       \<and> when_defined (fld fs ''deprecated'') (addon_deprecated v dates) = Inr (ra_deprecated a)
       \<and> when_defined (fld fs ''history'') (addon_history v dates (ra_version a)) = Inr (ra_history a)
       \<and> when_defined (fld fs ''audit'') (addon_audit_checked v api dates (ra_version a) (ra_history a)) = Inr (ra_audit a))"
  (is "?l \<longleftrightarrow> ?r")
proof
  assume ?l
  then show ?r
    by (auto simp: validate_addon_def then_ok_Inr REGISTRY_ID_PATTERN_def REGISTRY_SEMVER_PATTERN_def
        intro: is_str_iff [THEN iffD1] string_array)
next
  assume ?r
  then show ?l
    by (auto simp: validate_addon_def guards_pass strings_val_def REGISTRY_ID_PATTERN_def REGISTRY_SEMVER_PATTERN_def)
qed

lemma addon_sound:
  assumes "validate_addon v api dates raw = Inr a"
  shows "addon_ok v api dates a"
proof -
  let ?known = "insert (ra_version a) (ve_version ` set (case ra_history a of None \<Rightarrow> [] | Some h \<Rightarrow> h))"
  from assms obtain fs where ids: "rx_match ADDON_ID (ra_id a)" "rx_match SEMVER (ra_version a)"
    and p: "when_defined (fld fs ''categories'') (addon_categories v) = Inr (ra_categories a)"
      "when_defined (fld fs ''tags'') (addon_tags v) = Inr (ra_tags a)"
      "when_defined (fld fs ''deprecated'') (addon_deprecated v dates) = Inr (ra_deprecated a)"
      "when_defined (fld fs ''history'') (addon_history v dates (ra_version a)) = Inr (ra_history a)"
      "when_defined (fld fs ''audit'') (addon_audit_checked v api dates (ra_version a) (ra_history a)) = Inr (ra_audit a)"
    unfolding validate_addon_Inr by blast
  have "pred_option (\<lambda>cs. 2 \<le> v \<and> set cs \<subseteq> set (map js KNOWN_CATEGORIES)) (ra_categories a)"
    by (rule when_defined_sound [OF p(1)]) (rule categories_sound)
  moreover have "pred_option (\<lambda>ts. 2 \<le> v \<and> length ts \<le> 8 \<and> list_all (rx_match TAG_PATTERN) ts) (ra_tags a)"
    by (rule when_defined_sound [OF p(2)]) (rule tags_sound)
  moreover have "pred_option (\<lambda>d. 2 \<le> v \<and> deprecation_ok dates d) (ra_deprecated a)"
    by (rule when_defined_sound [OF p(3)]) (auto simp: deprecated_iff deprecation_sound)
  moreover have "pred_option (\<lambda>h. 3 \<le> v \<and> list_all (version_ok dates) h \<and> distinct (ra_version a # map ve_version h)) (ra_history a)"
    by (rule when_defined_sound [OF p(4)]) (rule history_sound)
  moreover have "pred_option (\<lambda>u. 3 \<le> v \<and> audit_ok api dates u \<and> au_auditedVersion u \<in> ?known) (ra_audit a)"
    by (rule when_defined_sound [OF p(5)]) (auto simp: audit_checked_iff audit_sound)
  ultimately show ?thesis
    using ids by (auto simp: addon_ok_def pred_option_def)
qed

lemma not_Undef [simp]: "strings_val xs \<noteq> Undef" "deprecation_val d \<noteq> Undef" "audit_val u \<noteq> Undef"
  by (simp_all add: strings_val_def deprecation_val_def audit_val_def)

lemma addon_complete:
  assumes "addon_ok v api dates a"
  shows "validate_addon v api dates (addon_val a) = Inr a"
proof -
  have "when_defined (case map_option strings_val (ra_categories a) of None \<Rightarrow> Undef | Some x \<Rightarrow> x) (addon_categories v)
      = Inr (ra_categories a)"
    using assms by (intro when_defined_val) (auto simp: addon_ok_def not_less categories_complete)
  moreover have "when_defined (case map_option strings_val (ra_tags a) of None \<Rightarrow> Undef | Some x \<Rightarrow> x) (addon_tags v)
      = Inr (ra_tags a)"
    using assms by (intro when_defined_val) (auto simp: addon_ok_def not_less tags_complete)
  moreover have "when_defined (case map_option deprecation_val (ra_deprecated a) of None \<Rightarrow> Undef | Some x \<Rightarrow> x)
      (addon_deprecated v dates) = Inr (ra_deprecated a)"
    using assms by (intro when_defined_val) (auto simp: addon_ok_def not_less deprecated_iff deprecation_complete)
  moreover have "when_defined (case map_option (\<lambda>h. Arr (map version_val h)) (ra_history a) of None \<Rightarrow> Undef | Some x \<Rightarrow> x)
      (addon_history v dates (ra_version a)) = Inr (ra_history a)"
    using assms by (intro when_defined_val) (auto simp: addon_ok_def not_less history_complete)
  moreover have "when_defined (case map_option audit_val (ra_audit a) of None \<Rightarrow> Undef | Some x \<Rightarrow> x)
      (addon_audit_checked v api dates (ra_version a) (ra_history a)) = Inr (ra_audit a)"
    using assms by (intro when_defined_val) (auto simp: addon_ok_def not_less audit_checked_iff audit_complete)
  ultimately show ?thesis
    using assms unfolding validate_addon_Inr addon_val_def by (simp add: fld_append addon_ok_def)
qed

lemma registry_version_Some: "registry_version v = Some n \<longleftrightarrow> n \<in> {1, 2, 3} \<and> v = jint (int n)"
  by (auto simp: registry_version_def)

text \<open>What is accepted satisfies the schema, and everything that satisfies it is accepted as itself.\<close>

lemma registry_sound:
  assumes "validateRegistry api dates input = Inr r"
  shows "registry_ok api dates r"
proof -
  from assms obtain fs v pub addons
    where v: "registry_version (fld fs ''v'') = Some v"
      and keys: "arr_of (fld fs ''trustedKeys'') \<noteq> []"
      and addons: "throwing_map (validate_addon v api dates) (arr_of (fld fs ''addons'')) = Inr addons"
      and sup: "\<not> list_ex (dangling addons) addons"
      and r: "r = \<lparr>rg_v = v, rg_publisher_name = str_of (fld pub ''name''),
               rg_publisher_homepage = opt_str (fld pub ''homepage''),
               rg_trustedKeys = map str_of (arr_of (fld fs ''trustedKeys'')), rg_addons = addons\<rparr>"
    by (auto simp: validateRegistry_def then_ok_Inr split: if_splits)
  from addons have "list_all (addon_ok v api dates) addons"
    by (auto simp: list_all_iff dest: throwing_map_set addon_sound)
  with v keys sup show ?thesis
    unfolding r by (auto simp: registry_ok_def registry_version_Some)
qed

lemma registry_complete:
  assumes "registry_ok api dates r"
  shows "validateRegistry api dates (registry_val r) = Inr r"
proof -
  have "throwing_map (validate_addon (rg_v r) api dates) (map addon_val (rg_addons r)) = Inr (rg_addons r)"
    using assms by (auto simp: throwing_map_Inr list_all2_conv_all_nth registry_ok_def list_all_length addon_complete)
  moreover have "registry_version (jint (int (rg_v r))) = Some (rg_v r)"
    using assms by (simp only: registry_version_Some registry_ok_def)
  ultimately show ?thesis
    using assms
    by (cases "rg_publisher_homepage r")
      (simp_all add: validateRegistry_def registry_val_def guards_pass fld_append strings_val_def registry_ok_def)
qed

theorem registry_iff: "validateRegistry api dates (registry_val r) = Inr r \<longleftrightarrow> registry_ok api dates r"
  using registry_sound registry_complete by blast

subsection \<open>Schema evolution\<close>

lemma validate_addon_mono:
  assumes "validate_addon n api dates raw = Inr a" "n \<le> m"
  shows "validate_addon m api dates raw = Inr a"
proof -
  have "addon_categories n c = Inr x \<Longrightarrow> addon_categories m c = Inr x" for c x
    using assms(2) by (auto simp: addon_categories_def then_ok_Inr)
  moreover have "addon_tags n c = Inr x \<Longrightarrow> addon_tags m c = Inr x" for c x
    using assms(2) by (auto simp: addon_tags_def then_ok_Inr)
  moreover have "addon_deprecated n dates c = Inr x \<Longrightarrow> addon_deprecated m dates c = Inr x" for c x
    using assms(2) by (auto simp: deprecated_iff)
  moreover have "addon_history n dates w c = Inr x \<Longrightarrow> addon_history m dates w c = Inr x" for w c x
    using assms(2) by (auto simp: addon_history_def then_ok_Inr)
  moreover have "addon_audit_checked n api dates w h c = Inr x \<Longrightarrow> addon_audit_checked m api dates w h c = Inr x" for w h c x
    using assms(2) by (auto simp: audit_checked_iff)
  ultimately show ?thesis
    using assms(1) unfolding validate_addon_Inr by (elim ex_forward conj_forward when_defined_mono) assumption+
qed

lemma registry_evolves:
  assumes "validateRegistry api dates (Obj ((js ''v'', jint (int n)) # fs)) = Inr r" "n \<le> m" "m \<in> {1, 2, 3}"
  shows "validateRegistry api dates (Obj ((js ''v'', jint (int m)) # fs)) = Inr (r\<lparr>rg_v := m\<rparr>)"
proof -
  have m: "registry_version (jint (int m)) = Some m"
    using assms(3) by (simp only: registry_version_Some)
  from assms(1) have n: "registry_version (jint (int n)) = Some n"
    by (auto simp: validateRegistry_def then_ok_Inr registry_version_Some)
  have mono: "throwing_map (validate_addon n api dates) xs = Inr ys \<Longrightarrow> throwing_map (validate_addon m api dates) xs = Inr ys" for xs ys
    unfolding throwing_map_Inr by (erule list_all2_mono) (rule validate_addon_mono [OF _ assms(2)])
  show ?thesis
    using assms(1) by (auto simp: validateRegistry_def then_ok_Inr m n simp del: of_int_of_nat_eq dest!: mono split: if_splits)
qed

subsection \<open>The meta index\<close>

definition publisher_ok :: "'u url_api \<Rightarrow> publisher_entry \<Rightarrow> bool" where
  "publisher_ok api p =
     ((\<exists>u. url_parse api (pe_url p) = Some u \<and> url_protocol api u \<in> {js ''https:'', js ''http:''})
      \<and> pred_option (text_in 1 80) (pe_name p)
      \<and> pred_option (\<lambda>e. length e \<in> {1..8} \<and> list_all (text_in 1 80) e) (pe_endorsedBy p)
      \<and> pred_option (\<lambda>u. url_parse api u \<noteq> None) (pe_endorsementUrl p))"

lemma publisher_url_Inr:
  "publisher_url api v = Inr x \<longleftrightarrow>
     (\<exists>s u. v = Str s \<and> url_parse api s = Some u \<and> url_protocol api u \<in> {js ''https:'', js ''http:''})"
  by (cases v) (auto simp: publisher_url_def split: option.splits if_splits)

lemma publisher_sound:
  assumes "validate_publisher api seen raw = Inr p"
  shows "publisher_ok api p \<and> pe_url p \<notin> set seen"
proof -
  from assms obtain fs
    where u: "publisher_url api (fld fs ''url'') = Inr ()" "str_of (fld fs ''url'') \<notin> set seen"
      and g: "fld fs ''name'' \<noteq> Undef \<longrightarrow> \<not> not_sized 1 80 (fld fs ''name'')"
        "fld fs ''endorsedBy'' \<noteq> Undef \<longrightarrow> isStringArray (fld fs ''endorsedBy'')"
        "fld fs ''endorsedBy'' \<noteq> Undef \<longrightarrow> length (arr_of (fld fs ''endorsedBy'')) \<in> {1..8}"
        "fld fs ''endorsedBy'' \<noteq> Undef \<longrightarrow> \<not> list_ex (not_sized 1 80) (arr_of (fld fs ''endorsedBy''))"
        "fld fs ''endorsementUrl'' \<noteq> Undef \<longrightarrow> \<not> no_url api (fld fs ''endorsementUrl'')"
      and p: "p = \<lparr>pe_url = str_of (fld fs ''url''), pe_name = opt_str (fld fs ''name''),
            pe_featured = (case fld fs ''featured'' of Bool b \<Rightarrow> Some b | _ \<Rightarrow> None),
            pe_endorsedBy = (if fld fs ''endorsedBy'' = Undef then None
                             else Some (map str_of (arr_of (fld fs ''endorsedBy'')))),
            pe_endorsementUrl = opt_str (fld fs ''endorsementUrl'')\<rparr>"
    unfolding validate_publisher_def then_ok_Inr guards_Inr
    by (simp add: conj_ac) blast
  have "list_all (text_in 1 80) (map str_of xs)" if "\<not> list_ex (not_sized 1 80) xs" for xs
    using that by (induction xs) (auto simp: not_sized_def text_in_def Suc_le_eq)
  with g(2-4) have "pred_option (\<lambda>e. length e \<in> {1..8} \<and> list_all (text_in 1 80) e) (pe_endorsedBy p)"
    by (simp add: p)
  moreover have "pred_option (text_in 1 80) (pe_name p)"
    using g(1) by (auto simp: p field_tests text_in_def)
  moreover have "pred_option (\<lambda>u. url_parse api u \<noteq> None) (pe_endorsementUrl p)"
    using g(5) by (auto simp: p no_url_def)
  ultimately show ?thesis
    using u by (auto simp: publisher_ok_def p publisher_url_Inr)
qed

lemma meta_index_sound:
  assumes "validateMetaIndex api input = Inr ps"
  shows "ps \<noteq> [] \<and> list_all (publisher_ok api) ps \<and> distinct (map pe_url ps)"
proof -
  from assms obtain xs where m: "map_seen (validate_publisher api) pe_url [] xs = Inr ps" "xs \<noteq> []"
    by (auto simp: validateMetaIndex_def then_ok_Inr)
  moreover have "ps \<noteq> []"
    using m by (cases xs) (auto simp: then_ok_Inr)
  moreover have "list_all (publisher_ok api) ps \<and> distinct (map pe_url ps) \<and> pe_url ` set ps \<inter> set [] = {}"
    by (rule map_seen_Inr [OF _ m(1)]) (rule publisher_sound)
  ultimately show ?thesis by simp
qed

subsection \<open>The submissions list\<close>

text \<open>A submission that is no longer pending says why, in at most 280 code units.\<close>

definition submission_ok :: "'u url_api \<Rightarrow> date_api \<Rightarrow> submission \<Rightarrow> bool" where
  "submission_ok api dates s =
     (sb_id s \<noteq> [] \<and> rx_match ADDON_ID (sb_addonId s) \<and> rx_match SEMVER (sb_version s)
      \<and> url_parse api (sb_manifestUrl s) \<noteq> None \<and> url_parse api (sb_signatureUrl s) \<noteq> None
      \<and> rx_match ED25519_PUBKEY_PATTERN (sb_publicKey s)
      \<and> iso dates (sb_submittedAt s) \<and> iso dates (sb_statusUpdatedAt s) \<and> text_in 1 200 (sb_contact s)
      \<and> sb_status s \<in> set (map js SUBMISSION_STATUSES)
      \<and> (sb_status s \<noteq> js ''pending'' \<longrightarrow> sb_statusReason s \<noteq> None \<and> sb_statusReason s \<noteq> Some [])
      \<and> pred_option (text_in 0 280) (sb_statusReason s)
      \<and> pred_option (\<lambda>n. length (utf8_encode n) \<le> 2048) (sb_notes s))"

lemma submission_sound:
  assumes "validate_submission api dates seen raw = Inr s"
  shows "submission_ok api dates s \<and> sb_id s \<notin> set seen"
proof -
  from assms obtain fs
    where g: "\<not> no_text (fld fs ''id'')" "str_of (fld fs ''id'') \<notin> set seen"
        "\<not> not_matching ADDON_ID (fld fs ''addonId'')" "\<not> not_matching SEMVER (fld fs ''version'')"
        "\<not> no_url api (fld fs ''manifestUrl'')" "\<not> no_url api (fld fs ''signatureUrl'')"
        "\<not> not_matching ED25519_PUBKEY_PATTERN (fld fs ''publicKey'')"
        "isIsoInstant dates (fld fs ''submittedAt'')" "\<not> not_sized 1 200 (fld fs ''contact'')"
        "is_str (fld fs ''status'')" "str_of (fld fs ''status'') \<in> set (map js SUBMISSION_STATUSES)"
        "isIsoInstant dates (fld fs ''statusUpdatedAt'')"
        "fld fs ''status'' \<noteq> Str (js ''pending'') \<longrightarrow> \<not> no_text (fld fs ''statusReason'')"
        "fld fs ''statusReason'' \<noteq> Undef \<longrightarrow> \<not> not_sized 0 280 (fld fs ''statusReason'')"
        "fld fs ''notes'' \<noteq> Undef \<longrightarrow> \<not> utf8_longer 2048 (fld fs ''notes'')"
      and s: "s = \<lparr>sb_id = str_of (fld fs ''id''), sb_addonId = str_of (fld fs ''addonId''),
            sb_version = str_of (fld fs ''version''), sb_manifestUrl = str_of (fld fs ''manifestUrl''),
            sb_signatureUrl = str_of (fld fs ''signatureUrl''), sb_publicKey = str_of (fld fs ''publicKey''),
            sb_submittedAt = str_of (fld fs ''submittedAt''), sb_contact = str_of (fld fs ''contact''),
            sb_status = str_of (fld fs ''status''), sb_statusUpdatedAt = str_of (fld fs ''statusUpdatedAt''),
            sb_statusReason = opt_str (fld fs ''statusReason''), sb_notes = opt_str (fld fs ''notes'')\<rparr>"
    unfolding validate_submission_def then_ok_Inr guards_Inr REGISTRY_ID_PATTERN_def REGISTRY_SEMVER_PATTERN_def
    by (simp add: conj_ac) blast
  show ?thesis
    using g(1-9,11,12) g(10,13-15)
    by (auto simp: s submission_ok_def field_tests iso_def text_in_def no_url_def utf8_longer_def is_str_iff)
qed

lemma submissions_sound:
  assumes "validateSubmissions api dates input = Inr ss"
  shows "list_all (submission_ok api dates) ss \<and> distinct (map sb_id ss)"
proof -
  from assms obtain xs where m: "map_seen (validate_submission api dates) sb_id [] xs = Inr ss"
    by (auto simp: validateSubmissions_def then_ok_Inr)
  have "list_all (submission_ok api dates) ss \<and> distinct (map sb_id ss) \<and> sb_id ` set ss \<inter> set [] = {}"
    by (rule map_seen_Inr [OF _ m]) (rule submission_sound)
  then show ?thesis by simp
qed

subsection \<open>The two checkers of a manifest\<close>

lemma check_manifest_iff:
  "check_manifest v = Inr () \<longleftrightarrow>
     (\<exists>fs. v = Obj fs \<and> list_all (has_prop fs) REQUIRED_FIELDS
       \<and> \<not> not_matching ADDON_ID (fld fs ''id'') \<and> \<not> not_matching SEMVER (fld fs ''version'')
       \<and> fld fs ''network'' = Bool False
       \<and> is_arr (fld fs ''permissions'') \<and> throwing_all file_permission (arr_of (fld fs ''permissions'')) = None
       \<and> is_arr (fld fs ''capabilities'') \<and> arr_of (fld fs ''capabilities'') \<noteq> [])"
  by (cases v)
    (auto simp: check_manifest_def then_ok_Inr Let_def REGISTRY_ID_PATTERN_def REGISTRY_SEMVER_PATTERN_def
      list_ex_iff list_all_iff not_matching_def split: option.splits)

lemma permissions_agree:
  "throwing_all file_permission ps = None \<longleftrightarrow> throwing_all bad_permission ps = None"
  by (simp add: throwing_all_None file_permission_def bad_permission_def FILE_PERMISSIONS_def KNOWN_PERMISSIONS_def)

theorem checkers_agree:
  "(\<exists>m. validateManifest v = Inr m) \<longleftrightarrow>
     check_manifest v = Inr () \<and> (\<forall>k\<in>{''name'', ''entry'', ''license''}. \<not> no_text (fld (own_fields v) k))"
proof (cases v)
  case (Obj fs)
  have "has_prop fs k" if "fld fs k \<noteq> Undef" for k
    using that fld_not_has by blast
  moreover have "fld fs k \<noteq> Undef" if "\<not> no_text (fld fs k) \<or> \<not> not_matching p (fld fs k) \<or> is_arr (fld fs k)" for k p
    using that by (auto simp: no_text_def not_matching_def)
  ultimately show ?thesis
    unfolding check_manifest_iff permissions_agree
    by (auto simp: Obj validateManifest_def addon_asObject_def as_object_def then_ok_Inr ADDON_ID_PATTERN_def
        SEMVER_PATTERN_def REQUIRED_FIELDS_def split: option.splits)
qed (auto simp: check_manifest_iff validateManifest_iff)

declare guards.simps [simp]

end
