(* ===== verification/Nostr_Transfer.thy ===== *)
theory Nostr_Transfer
  imports Nostr_Secrecy
begin

text \<open>
  The Nostr adapter of one peer and the one of another, with a relay between them that hands the event
  on: what one publishes under the room's key is what the other one's handlers get.
\<close>

text \<open>An adapter ready to work encrypted in a room: the known-answer test has passed, the key is there.\<close>

definition v2_ready :: "nostr \<Rightarrow> jsstring \<Rightarrow> bytes \<Rightarrow> bool" where
  "v2_ready st r key = (\<not> ns_closed st \<and> ns_v2 st \<and> ns_katError st = None \<and> ns_init st = Some (Inr ())
     \<and> map_of (ns_roomKeys st) r = Some (Some (Inr key)))"

lemma publish_encrypts:
  assumes "v2_ready st r key" "encryptV2 (ne_cipher E) m key nonce = Inr c" "n = length (ns_pubs st)"
  shows "\<exists>st'. run_events (ns_step E) [NsPublish r m, NsResumePub n now rnd nonce, NsResumePub n now rnd nonce] st = Some (st', [])
    \<and> pb_phase (ns_pubs st' ! n) = PubContent c \<and> n < length (ns_pubs st') \<and> pb_room (ns_pubs st' ! n) = r
    \<and> pb_relayCount (ns_pubs st' ! n) = 0 \<and> pb_nacked (ns_pubs st' ! n) = 0 \<and> \<not> pb_settled (ns_pubs st' ! n)
    \<and> pb_outcome (ns_pubs st' ! n) = None
    \<and> ns_relays st' = ns_relays st \<and> ns_sockets st' = ns_sockets st \<and> ns_ws st' = ns_ws st"
  using assms
  by (simp add: v2_ready_def ns_publish_def resume_pub_def Let_def getV2RoomKey_def upd_pub_def nth_append)

theorem nostr_v2_transfer:
  assumes "v2_ready a r key" "ns_relays a = [url]" "map_of (ns_sockets a) url = Some wa" "ws_ready (ns_ws a ! wa) = Open"
    and "v2_ready b r key" "ns_wf b" "sub_of b r ref subId" "wb < length (ns_ws b)" "ws_ready (ns_ws b ! wb) = Open"
    and "finalize_ok E" "nip44_ok (ne_cipher E)" "length key = 32" "length nonce = 32"
    and "json_clean (msg_val m)" "json_str (msg_val m) = Some json" "nip44_text (V2_SENTINEL @ json)"
  shows "\<exists>c a'. encryptV2 (ne_cipher E) m key nonce = Inr c
    \<and> run_events (ns_step E) (NsPublish r m # replicate 3 (NsResumePub (length (ns_pubs a)) now rnd nonce)
          @ [NsResumePub (length (ns_pubs a)) 0 [] []]) a
        = Some (a', [NSend wa (event_frame (event_of E r now rnd c))])
    \<and> (json_clean (Arr [Str (js ''EVENT''), Str subId, Obj (event_of E r now rnd c)])
       \<and> fld (event_of E r now rnd c) ''id'' \<notin> set (nr_delivered (ns_states b ! ref)) \<longrightarrow>
       (\<exists>b'. run_events (ns_step E) (NsMessage wb (relayed subId (event_of E r now rnd c))
            # replicate 3 (NsResumeDecode (length (ns_decodes b)))) b
          = Some (b', map (\<lambda>h. NCall ref h (fld (event_of E r now rnd c) ''id'') (msg_val m)) (ns_listeners b r))))"
proof -
  obtain c where c: "encryptV2 (ne_cipher E) m key nonce = Inr c"
      "tryDecryptV2 (ne_cipher E) (Str c) key = Inr (V2Message (msg_val m))"
    using tryDecryptV2_encryptV2 [OF assms(11-16)] by blast
  obtain s where s: "run_events (ns_step E) [NsPublish r m, NsResumePub (length (ns_pubs a)) now rnd nonce,
        NsResumePub (length (ns_pubs a)) now rnd nonce] a = Some (s, [])"
      and f: "pb_phase (ns_pubs s ! length (ns_pubs a)) = PubContent c" "length (ns_pubs a) < length (ns_pubs s)"
        "pb_room (ns_pubs s ! length (ns_pubs a)) = r" "pb_relayCount (ns_pubs s ! length (ns_pubs a)) = 0"
        "pb_nacked (ns_pubs s ! length (ns_pubs a)) = 0" "\<not> pb_settled (ns_pubs s ! length (ns_pubs a))"
        "pb_outcome (ns_pubs s ! length (ns_pubs a)) = None"
        "ns_relays s = ns_relays a" "ns_sockets s = ns_sockets a" "ns_ws s = ns_ws a"
    using publish_encrypts [OF assms(1) c(1) refl] by blast
  obtain a' where "run_events (ns_step E) [NsResumePub (length (ns_pubs a)) now rnd nonce, NsResumePub (length (ns_pubs a)) 0 [] []] s
      = Some (a', [NSend wa (event_frame (event_of E r now rnd c))])"
    using send_content [OF f(2,1,4-7), of url wa E now rnd nonce] f(3,8-10) assms(2-4) by auto
  with s have "run_events (ns_step E) ([NsPublish r m, NsResumePub (length (ns_pubs a)) now rnd nonce,
        NsResumePub (length (ns_pubs a)) now rnd nonce]
        @ [NsResumePub (length (ns_pubs a)) now rnd nonce, NsResumePub (length (ns_pubs a)) 0 [] []]) a
      = Some (a', [NSend wa (event_frame (event_of E r now rnd c))])"
    unfolding run_events_append by simp
  moreover have "\<exists>b'. run_events (ns_step E) (NsMessage wb (relayed subId (event_of E r now rnd c))
            # replicate 3 (NsResumeDecode (length (ns_decodes b)))) b
          = Some (b', map (\<lambda>h. NCall ref h (fld (event_of E r now rnd c) ''id'') (msg_val m)) (ns_listeners b r))"
    if "json_clean (Arr [Str (js ''EVENT''), Str subId, Obj (event_of E r now rnd c)])"
      "fld (event_of E r now rnd c) ''id'' \<notin> set (nr_delivered (ns_states b ! ref))"
    using ns_encrypted_delivery [OF assms(6,7,10) refl that assms(8,9)] assms(5) c(2) by (auto simp: v2_ready_def)
  ultimately show ?thesis
    using c(1) by (intro exI [of _ c] exI [of _ a']) (auto simp: numeral_3_eq_3)
qed

end
