(* ===== verification/Gallery.thy ===== *)
theory Gallery
  imports Registry "HOL-Library.List_Lexorder"
begin

text \<open>
  The add-on gallery (\<open>apps/addon-gallery/src/main.ts\<close>) without its DOM: which document a URL holds, the
  repair of a meta index, the loading of a publisher's add-ons with their signatures, and the state that
  the buttons and \<open>refreshAll\<close> change. \<open>fetch\<close>, the \<open>URL\<close> class, Web Crypto, \<open>Date.parse\<close> and \<open>localStorage\<close> are
  arguments. A load is one event of the state machine, the pages' answers its environment.
\<close>

record 'u page_url_api = "'u url_api" +
  url_base :: "jsstring \<Rightarrow> jsstring \<Rightarrow> 'u option"
  url_pathname :: "'u \<Rightarrow> jsstring"
  url_origin :: "'u \<Rightarrow> jsstring"
  url_set_param :: "jsstring \<Rightarrow> jsstring \<Rightarrow> 'u \<Rightarrow> 'u"

text \<open>\<open>ge_manifest_first\<close>: of two requests that both fail, whether the manifest's fails first.\<close>

record gallery_env =
  ge_fetch :: "jsstring \<Rightarrow> err + response"
  ge_manifest_first :: "jsstring \<Rightarrow> bool"

subsection \<open>Settings\<close>

definition basePath :: "jsstring option \<Rightarrow> jsstring" where
  "basePath base =
     (let b = js_trim (case base of None \<Rightarrow> js ''/'' | Some x \<Rightarrow> x) in
      if b = [] then js ''/'' else if last b = ch CHR ''/'' then b else b @ js ''/'')"

definition defaultRegistryUrl :: "jsstring option \<Rightarrow> jsstring option \<Rightarrow> jsstring" where
  "defaultRegistryUrl origin base =
     (case origin of
        Some (c # cs) \<Rightarrow> strip_slashes (c # cs) @ basePath base @ js ''registry/official/index.json''
      | _ \<Rightarrow> js ''http://127.0.0.1:5173/registry/official/index.json'')"

fun registry_urls :: "jsval list \<Rightarrow> jsstring list \<Rightarrow> jsstring list" where
  "registry_urls [] out = out"
| "registry_urls (item # items) out =
     (case fld (own_fields item) ''url'' of
        Str u \<Rightarrow> registry_urls items (if u \<in> set out then out else out @ [u])
      | _ \<Rightarrow> registry_urls items out)"

text \<open>\<open>raw_item\<close> is what \<open>localStorage.getItem\<close> gives; every failure falls back to the default.\<close>

definition readRegistries :: "jsstring \<Rightarrow> err + jsstring option \<Rightarrow> jsstring list" where
  "readRegistries default_url raw_item =
     (case raw_item of
        Inr (Some (c # cs)) \<Rightarrow>
          (case json_parse (c # cs) of
             Some (Arr items) \<Rightarrow> (let out = registry_urls items [] in if out = [] then [default_url] else out)
           | _ \<Rightarrow> [default_url])
      | _ \<Rightarrow> [default_url])"

text \<open>The text \<open>JSON.stringify(entries)\<close> that goes into \<open>localStorage\<close>.\<close>

definition writeRegistries :: "jsstring list \<Rightarrow> jsstring option" where
  "writeRegistries entries = json_str (Arr (map (\<lambda>u. Obj [(js ''url'', Str u)]) entries))"

definition readHostOrigin :: "jsstring option \<Rightarrow> jsstring" where
  "readHostOrigin raw_host = (case raw_host of None \<Rightarrow> [] | Some h \<Rightarrow> h)"

text \<open>What is stored: an empty origin removes the item.\<close>

definition writeHostOrigin :: "jsstring \<Rightarrow> jsstring option" where
  "writeHostOrigin origin = (if origin = [] then None else Some origin)"

definition fingerprintKey :: "jsstring \<Rightarrow> jsstring" where
  "fingerprintKey k = (if length k \<le> 14 then k else take 8 k @ 0x2026 # drop (length k - 4) k)"

subsection \<open>Addresses\<close>

definition basenameOfPath :: "jsstring \<Rightarrow> jsstring" where
  "basenameOfPath path = rev (takeWhile (\<lambda>c. c \<noteq> ch CHR ''/'') (rev (strip_slashes path)))"

text \<open>The group of \<open>/^(.*)\/registry\/[^/]+\/[^/]+$/\<close>: the path without its last two segments must end so.\<close>

definition line_end :: "jschar \<Rightarrow> bool" where
  "line_end c = (unat c \<in> {10, 13, 0x2028, 0x2029})"

definition registry_prefix :: "jsstring \<Rightarrow> jsstring option" where
  "registry_prefix path =
     (let seg = takeWhile (\<lambda>c. c \<noteq> ch CHR ''/''); rest = dropWhile (\<lambda>c. c \<noteq> ch CHR ''/'');
          r0 = rev path; r1 = rest r0; r2 = rest (tl r1); tail = rev (js ''/registry/'') in
      if r1 \<noteq> [] \<and> seg r0 \<noteq> [] \<and> seg (tl r1) \<noteq> [] \<and> take 10 r2 = tail \<and> \<not> list_ex line_end (drop 10 r2)
      then Some (rev (drop 10 r2)) else None)"

definition manifestUrlFor :: "'u page_url_api \<Rightarrow> jsstring \<Rightarrow> jsstring \<Rightarrow> err + jsstring" where
  "manifestUrlFor api registryUrl addonPath =
     then_ok (new_URL (url_parse api registryUrl)) (\<lambda>u.
       let prefix = (case registry_prefix (url_pathname api u) of None \<Rightarrow> [] | Some m \<Rightarrow> m) in
       then_ok (new_URL (url_base api (prefix @ js ''/addons/'' @ basenameOfPath addonPath @ js ''/manifest.json'') (url_origin api u)))
         (\<lambda>v. Inr (url_toString api v)))"

definition sigUrlFor :: "'u page_url_api \<Rightarrow> jsstring \<Rightarrow> err + jsstring" where
  "sigUrlFor api manifestUrl =
     then_ok (new_URL (url_base api (js ''manifest.sig.json'') manifestUrl)) (\<lambda>v. Inr (url_toString api v))"

definition handoffUrl :: "'u page_url_api \<Rightarrow> jsstring \<Rightarrow> jsstring \<Rightarrow> jsstring \<Rightarrow> jsstring option" where
  "handoffUrl api hostOrigin manifestUrl registryUrl =
     (if hostOrigin = [] then None
      else map_option (\<lambda>u. url_toString api (url_set_param api (js ''publisher'') registryUrl
             (url_set_param api (js ''addon'') manifestUrl u)))
        (url_base api (js ''/'') hostOrigin))"

definition fetchBytes :: "gallery_env \<Rightarrow> jsstring \<Rightarrow> err + bytes" where
  "fetchBytes env url =
     then_ok (ge_fetch env url) (\<lambda>res. if \<not> rs_ok res then Inl (Thrown ''Error'' ''HTTP '') else rs_body res)"

definition fetchJson :: "gallery_env \<Rightarrow> jsstring \<Rightarrow> err + jsval" where
  "fetchJson env url =
     then_ok (ge_fetch env url) (\<lambda>res. if \<not> rs_ok res then Inl (Thrown ''Error'' ''HTTP '') else rs_json res)"

subsection \<open>What a document is\<close>

definition isSubmissionsIndex :: "jsval \<Rightarrow> bool" where
  "isSubmissionsIndex value =
     (let f = own_fields value in
      is_objecty value \<and> fld f ''v'' = jint 1 \<and> fld f ''kind'' = Str (js ''senn-publisher-submissions'')
      \<and> is_arr (fld f ''submissions'')
      \<and> list_all (\<lambda>s. is_objecty s \<and> list_all (\<lambda>k. is_str (fld (own_fields s) k))
            [''id'', ''addonId'', ''version'', ''manifestUrl'', ''signatureUrl'', ''publicKey'', ''submittedAt'', ''contact'',
             ''status'', ''statusUpdatedAt'']) (arr_of (fld f ''submissions'')))"

definition isMetaIndex :: "jsval \<Rightarrow> bool" where
  "isMetaIndex value =
     (let f = own_fields value in
      is_objecty value \<and> fld f ''v'' = jint 1 \<and> fld f ''kind'' = Str (js ''senn-publisher-meta'')
      \<and> is_arr (fld f ''publishers'') \<and> arr_of (fld f ''publishers'') \<noteq> []
      \<and> list_all (\<lambda>p. is_objecty p \<and> is_str (fld (own_fields p) ''url'')) (arr_of (fld f ''publishers'')))"

definition isRegistry :: "jsval \<Rightarrow> bool" where
  "isRegistry value =
     (let f = own_fields value in
      is_objecty value \<and> fld f ''v'' \<in> {jint 1, jint 2, jint 3} \<and> is_objecty (fld f ''publisher'')
      \<and> is_str (fld (own_fields (fld f ''publisher'')) ''name'') \<and> isStringArray (fld f ''trustedKeys'')
      \<and> is_arr (fld f ''addons'')
      \<and> list_all (\<lambda>a. is_objecty a \<and> list_all (\<lambda>k. is_str (fld (own_fields a) k)) [''id'', ''name'', ''version'', ''description'', ''path'']
            \<and> isStringArray (fld (own_fields a) ''capabilities'')) (arr_of (fld f ''addons'')))"

subsection \<open>Repairing a meta index\<close>

text \<open>The loop with its \<open>break\<close> once eight labels are kept.\<close>

fun endorsed_labels :: "jsval list \<Rightarrow> jsstring list \<Rightarrow> jsstring list" where
  "endorsed_labels [] out = out"
| "endorsed_labels (Str s # vs) out =
     (let t = js_trim s in
      if length t = 0 \<or> 80 < length t then endorsed_labels vs out
      else if 8 \<le> length (out @ [t]) then out @ [t] else endorsed_labels vs (out @ [t]))"
| "endorsed_labels (_ # vs) out = endorsed_labels vs out"

definition normalizeEndorsedBy :: "jsval \<Rightarrow> jsstring list option" where
  "normalizeEndorsedBy value =
     (if \<not> is_arr value then None
      else let out = endorsed_labels (arr_of value) [] in if out = [] then None else Some out)"

definition http_url :: "'u page_url_api \<Rightarrow> jsstring \<Rightarrow> 'u option" where
  "http_url api s =
     (case url_parse api s of
        None \<Rightarrow> None
      | Some u \<Rightarrow> if url_protocol api u \<noteq> js ''https:'' \<and> url_protocol api u \<noteq> js ''http:'' then None else Some u)"

definition normalizeEndorsementUrl :: "'u page_url_api \<Rightarrow> jsval \<Rightarrow> jsstring option" where
  "normalizeEndorsementUrl api value =
     (if \<not> is_str value then None else map_option (url_toString api) (http_url api (str_of value)))"

definition normal_publisher :: "'u page_url_api \<Rightarrow> jsfields \<Rightarrow> publisher_entry" where
  "normal_publisher api p =
     \<lparr>pe_url = str_of (fld p ''url''),
      pe_name = (case fld p ''name'' of Str n \<Rightarrow> if 0 < length n \<and> length n \<le> 80 then Some n else None | _ \<Rightarrow> None),
      pe_featured = (case fld p ''featured'' of Bool b \<Rightarrow> Some b | _ \<Rightarrow> None),
      pe_endorsedBy = normalizeEndorsedBy (fld p ''endorsedBy''),
      pe_endorsementUrl = (case normalizeEndorsementUrl api (fld p ''endorsementUrl'') of
          Some (c # cs) \<Rightarrow> Some (c # cs) | _ \<Rightarrow> None)\<rparr>"

fun normal_publishers :: "'u page_url_api \<Rightarrow> jsstring list \<Rightarrow> jsval list \<Rightarrow> publisher_entry list" where
  "normal_publishers api seen [] = []"
| "normal_publishers api seen (p # ps) =
     (let u = str_of (fld (own_fields p) ''url'') in
      if u \<in> set seen \<or> http_url api u = None then normal_publishers api seen ps
      else normal_publisher api (own_fields p) # normal_publishers api (u # seen) ps)"

definition normalizeMetaIndex :: "'u page_url_api \<Rightarrow> jsfields \<Rightarrow> publisher_entry list" where
  "normalizeMetaIndex api value =
     sort_key (\<lambda>p. if pe_featured p = Some True then 0 else 1 :: nat) (normal_publishers api [] (arr_of (fld value ''publishers'')))"

subsection \<open>Loading\<close>

record load_options =
  lo_metaSourceUrl :: "jsstring option"
  lo_metaSourceName :: "jsstring option"
  lo_metaFeatured :: bool

definition no_options :: load_options where
  "no_options = \<lparr>lo_metaSourceUrl = None, lo_metaSourceName = None, lo_metaFeatured = False\<rparr>"

record addon_row =
  rw_registryUrl :: jsstring
  rw_registry :: jsfields
  rw_addon :: jsfields
  rw_manifestUrl :: jsstring
  rw_sigUrl :: jsstring
  rw_manifest :: "jsval option"
  rw_signature :: "manifest_signature option"
  rw_verify :: verify_result
  rw_fetchError :: "err option"
  rw_options :: load_options

definition trusted_keys :: "jsfields \<Rightarrow> jsstring list" where
  "trusted_keys registry = map str_of (arr_of (fld registry ''trustedKeys''))"

text \<open>\<open>await Promise.all([fetchBytes(manifestUrl), fetchJson(sigUrl)])\<close>.\<close>

definition fetch_both :: "gallery_env \<Rightarrow> jsstring \<Rightarrow> jsstring \<Rightarrow> err + bytes \<times> jsval" where
  "fetch_both env manifestUrl sigUrl =
     (case (fetchBytes env manifestUrl, fetchJson env sigUrl) of
        (Inr b, Inr j) \<Rightarrow> Inr (b, j)
      | (Inl e, Inl e') \<Rightarrow> Inl (if ge_manifest_first env manifestUrl then e else e')
      | (Inl e, Inr _) \<Rightarrow> Inl e
      | (Inr _, Inl e') \<Rightarrow> Inl e')"

definition load_row :: "'u page_url_api \<Rightarrow> ('pk, 'sk) web_crypto option \<Rightarrow> date_api \<Rightarrow> gallery_env \<Rightarrow> load_options
    \<Rightarrow> jsstring \<Rightarrow> jsfields \<Rightarrow> jsval \<Rightarrow> err + addon_row" where
  "load_row api c dates env opts url registry raw =
     (let addon = own_fields raw in
      then_ok (manifestUrlFor api url (str_of (fld addon ''path''))) (\<lambda>manifestUrl.
      then_ok (sigUrlFor api manifestUrl) (\<lambda>sigUrl.
        let row = \<lparr>rw_registryUrl = url, rw_registry = registry, rw_addon = addon, rw_manifestUrl = manifestUrl,
              rw_sigUrl = sigUrl, rw_manifest = None, rw_signature = None,
              rw_verify = \<lparr>vr_ok = False, vr_reason = Some ''fetch-error''\<rparr>, rw_fetchError = None, rw_options = opts\<rparr> in
        Inr (case then_ok (fetch_both env manifestUrl sigUrl) (\<lambda>(manifestBytes, sigJson).
               then_ok (validateSignaturePayload dates sigJson) (\<lambda>sig.
               then_ok (verifyManifest c manifestBytes sig (Some (trusted_keys registry))) (\<lambda>result.
                 Inr (manifestBytes, sig, result)))) of
             Inl e \<Rightarrow> row\<lparr>rw_fetchError := Some e\<rparr>
           | Inr (manifestBytes, sig, result) \<Rightarrow>
               row\<lparr>rw_manifest := json_parse (utf8_decode manifestBytes), rw_signature := Some sig, rw_verify := result\<rparr>))))"

definition load_registry :: "'u page_url_api \<Rightarrow> ('pk, 'sk) web_crypto option \<Rightarrow> date_api \<Rightarrow> gallery_env \<Rightarrow> load_options
    \<Rightarrow> jsstring \<Rightarrow> jsval \<Rightarrow> err + jsfields \<times> addon_row list" where
  "load_registry api c dates env opts url value =
     (if \<not> isRegistry value then Inl (Thrown ''Error'' ''registry schema invalid: '')
      else let registry = own_fields value in
        then_ok (throwing_map (load_row api c dates env opts url registry) (arr_of (fld registry ''addons''))) (\<lambda>rows.
          Inr (registry, rows)))"

definition loadPublisherIndex :: "'u page_url_api \<Rightarrow> ('pk, 'sk) web_crypto option \<Rightarrow> date_api \<Rightarrow> gallery_env \<Rightarrow> load_options
    \<Rightarrow> jsstring \<Rightarrow> err + jsfields \<times> addon_row list" where
  "loadPublisherIndex api c dates env opts url =
     then_ok (fetchJson env url) (\<lambda>value.
       if isMetaIndex value then Inl (Thrown ''Error'' ''expected a publisher index but received a meta-index'')
       else load_registry api c dates env opts url value)"

record meta_summary =
  ms_url :: jsstring
  ms_publisherCount :: nat
  ms_featuredCount :: nat
  ms_endorsedCount :: nat
  ms_errors :: "(jsstring \<times> jsstring option \<times> err) list"

record load_result =
  lr_registries :: "(jsstring \<times> jsfields) list"
  lr_addons :: "addon_row list"
  lr_meta :: "meta_summary option"
  lr_metaPublishers :: "publisher_entry list option"
  lr_submissions :: "jsval list option"

definition entry_options :: "jsstring \<Rightarrow> publisher_entry \<Rightarrow> load_options" where
  "entry_options url entry =
     \<lparr>lo_metaSourceUrl = (if url = [] then None else Some url), lo_metaSourceName = pe_name entry,
      lo_metaFeatured = (pe_featured entry = Some True)\<rparr>"

text \<open>The publishers of a meta index are loaded side by side; one that fails is noted and left out.\<close>

definition load_meta :: "'u page_url_api \<Rightarrow> ('pk, 'sk) web_crypto option \<Rightarrow> date_api \<Rightarrow> gallery_env \<Rightarrow> jsstring \<Rightarrow> jsfields
    \<Rightarrow> err + load_result" where
  "load_meta api c dates env url value =
     (let publishers = normalizeMetaIndex api value;
          results = map (\<lambda>entry. (entry, loadPublisherIndex api c dates env (entry_options url entry) (pe_url entry))) publishers;
          registries = concat (map (\<lambda>(entry, r). case r of Inl _ \<Rightarrow> [] | Inr (reg, _) \<Rightarrow> [(pe_url entry, reg)]) results);
          addons = concat (map (\<lambda>(entry, r). case r of Inl _ \<Rightarrow> [] | Inr (_, rows) \<Rightarrow> rows) results);
          errors = concat (map (\<lambda>(entry, r). case r of Inl e \<Rightarrow> [(pe_url entry, pe_name entry, e)] | Inr _ \<Rightarrow> []) results) in
      if registries = [] then Inl (Thrown ''Error'' ''meta-index resolved no publishers'')
      else Inr \<lparr>lr_registries = registries, lr_addons = addons,
        lr_meta = Some \<lparr>ms_url = url, ms_publisherCount = length publishers,
          ms_featuredCount = length (filter (\<lambda>p. pe_featured p = Some True) publishers),
          ms_endorsedCount = length (filter (\<lambda>p. pe_endorsedBy p \<noteq> None \<and> pe_endorsedBy p \<noteq> Some []) publishers),
          ms_errors = errors\<rparr>,
        lr_metaPublishers = Some publishers, lr_submissions = None\<rparr>)"

definition loadFromUrl :: "'u page_url_api \<Rightarrow> ('pk, 'sk) web_crypto option \<Rightarrow> date_api \<Rightarrow> gallery_env \<Rightarrow> jsstring
    \<Rightarrow> err + load_result" where
  "loadFromUrl api c dates env url =
     then_ok (fetchJson env url) (\<lambda>value.
       if isSubmissionsIndex value
       then Inr \<lparr>lr_registries = [], lr_addons = [], lr_meta = None, lr_metaPublishers = None,
              lr_submissions = Some (arr_of (fld (own_fields value) ''submissions''))\<rparr>
       else if isMetaIndex value then load_meta api c dates env url (own_fields value)
       else then_ok (load_registry api c dates env no_options url value) (\<lambda>(registry, rows).
         Inr \<lparr>lr_registries = [(url, registry)], lr_addons = rows, lr_meta = None, lr_metaPublishers = None,
              lr_submissions = None\<rparr>))"

subsection \<open>What the cards and filters show\<close>

definition or_empty :: "jsval \<Rightarrow> jsval" where
  "or_empty v = (if v = Undef \<or> v = Null then Arr [] else v)"

text \<open>\<open>for (const c of v)\<close>: an array's elements, a string's code points, else a \<open>TypeError\<close>.\<close>

fun code_point_strings :: "jsstring \<Rightarrow> jsstring list" where
  "code_point_strings [] = []"
| "code_point_strings [u] = [[u]]"
| "code_point_strings (u # v # s) =
     (if is_high u \<and> is_low v then [u, v] # code_point_strings s else [u] # code_point_strings (v # s))"

definition iterated :: "jsval \<Rightarrow> err + jsval list" where
  "iterated v =
     (case v of Arr xs \<Rightarrow> Inr xs | Str s \<Rightarrow> Inr (map Str (code_point_strings s)) | _ \<Rightarrow> Inl (Thrown ''TypeError'' ''''))"

definition js_set_add :: "jsval list \<Rightarrow> jsval \<Rightarrow> jsval list" where
  "js_set_add xs v = (if list_ex (same_value v) xs then xs else xs @ [v])"

definition addon_capabilities :: "addon_row \<Rightarrow> jsstring list" where
  "addon_capabilities row = map str_of (arr_of (fld (rw_addon row) ''capabilities''))"

definition unionCapabilities :: "addon_row list \<Rightarrow> jsstring list" where
  "unionCapabilities rows = sort (remdups (concat (map addon_capabilities rows)))"

fun category_set :: "addon_row list \<Rightarrow> jsval list \<Rightarrow> err + jsval list" where
  "category_set [] acc = Inr acc"
| "category_set (row # rows) acc =
     then_ok (iterated (or_empty (fld (rw_addon row) ''categories''))) (\<lambda>cs. category_set rows (foldl js_set_add acc cs))"

text \<open>\<open>sort()\<close> turns two elements or more into strings.\<close>

definition unionCategories :: "addon_row list \<Rightarrow> err + jsval list" where
  "unionCategories rows =
     then_ok (category_set rows []) (\<lambda>vs.
       if 2 \<le> length vs \<and> list_ex unprintable vs then Inl (Thrown ''TypeError'' '''') else Inr (sort_key js_String vs))"

fun str_includes :: "jsstring \<Rightarrow> jsstring \<Rightarrow> bool" where
  "str_includes q [] = (q = [])"
| "str_includes q (u # s) = (startsWith (u # s) q \<or> str_includes q s)"

definition value_includes :: "jsstring \<Rightarrow> jsval \<Rightarrow> err + bool" where
  "value_includes q v =
     (case v of Arr xs \<Rightarrow> Inr (Str q \<in> set xs) | Str s \<Rightarrow> Inr (str_includes q s) | _ \<Rightarrow> Inl (Thrown ''TypeError'' ''''))"

fun join_spaces :: "jsstring list \<Rightarrow> jsstring" where
  "join_spaces [] = []"
| "join_spaces [t] = t"
| "join_spaces (t # ts) = t @ ch CHR '' '' # join_spaces ts"

definition value_join :: "jsval \<Rightarrow> err + jsstring" where
  "value_join v =
     (case v of
        Arr xs \<Rightarrow> if list_ex unprintable xs then Inl (Thrown ''TypeError'' '''')
          else Inr (join_spaces (map (\<lambda>x. if x = Undef \<or> x = Null then [] else js_String x) xs))
      | _ \<Rightarrow> Inl (Thrown ''TypeError'' ''''))"

record gallery_filters =
  gf_q :: jsstring
  gf_cap :: jsstring
  gf_cat :: jsstring
  gf_reg :: jsstring

text \<open>The test of \<open>renderCards\<close>; \<open>lower\<close> is \<open>toLowerCase\<close>.\<close>

definition visible_row :: "(jsstring \<Rightarrow> jsstring) \<Rightarrow> gallery_filters \<Rightarrow> addon_row \<Rightarrow> err + bool" where
  "visible_row lower f row =
     (let a = rw_addon row; q = lower (js_trim (gf_q f)); capSel = js_trim (gf_cap f);
          catSel = js_trim (gf_cat f); regSel = js_trim (gf_reg f) in
      if regSel \<noteq> [] \<and> rw_registryUrl row \<noteq> regSel then Inr False
      else if capSel \<noteq> [] \<and> capSel \<notin> set (addon_capabilities row) then Inr False
      else then_ok (if catSel = [] then Inr True else value_includes catSel (or_empty (fld a ''categories''))) (\<lambda>in_cat.
        if \<not> in_cat then Inr False
        else if q = [] then Inr True
        else then_ok (value_join (or_empty (fld a ''tags''))) (\<lambda>tags.
          Inr (str_includes q (lower (str_of (fld a ''name'') @ 10 # str_of (fld a ''description'') @ 10 # tags))))))"

fun visible_rows :: "(jsstring \<Rightarrow> jsstring) \<Rightarrow> gallery_filters \<Rightarrow> addon_row list \<Rightarrow> err + addon_row list" where
  "visible_rows lower f [] = Inr []"
| "visible_rows lower f (row # rows) =
     then_ok (visible_row lower f row) (\<lambda>b. then_ok (visible_rows lower f rows) (\<lambda>vs. Inr (if b then row # vs else vs)))"

text \<open>Class and text of a badge.\<close>

definition badgeFor :: "verify_result \<Rightarrow> string \<times> string" where
  "badgeFor r =
     (if vr_ok r then (''badge badge-ok'', ''verified'')
      else if vr_reason r = Some ''untrusted-key'' then (''badge badge-warn'', ''untrusted key'')
      else (''badge badge-fail'', ''verify: '' @ (case vr_reason r of None \<Rightarrow> ''failed'' | Some m \<Rightarrow> m)))"

definition statusBadgeClass :: "jsstring \<Rightarrow> string option" where
  "statusBadgeClass status =
     (if status = js ''accepted'' then Some ''badge badge-ok''
      else if status = js ''pending'' then Some ''badge badge-featured''
      else if status = js ''needs-changes'' then Some ''badge badge-warn''
      else if status \<in> {js ''rejected'', js ''withdrawn''} then Some ''badge badge-fail'' else None)"

end
