(* ===== verification/Gallery_State.thy ===== *)
theory Gallery_State
  imports Gallery Event_System
begin

text \<open>
  The gallery's page state and what changes it: the buttons (add, remove, refresh), the host field and
  the refresh that loads the configured URLs one after another, with the cache mode its fetches use.
  Every \<open>await loadFromUrl\<close> is a point where other events run: a refresh waits as a \<open>refresh_run\<close> that
  remembers the cache mode it found, the array it walks and how far it came. Arrays are a heap
  (\<open>gl_arrays\<close>): \<open>push\<close> changes the one being walked, \<open>filter\<close> makes another. The second half is what
  the cards and filters compute from the rows.
\<close>

record refresh_run =
  rr_previousCache :: bool
  rr_array :: nat
  rr_next :: nat

text \<open>\<open>gl_reload\<close>: \<open>currentCacheMode\<close> is \<open>"reload"\<close>, else \<open>"default"\<close>.\<close>

record gallery =
  gl_arrays :: "jsstring list list"
  gl_registries :: nat
  gl_hostOrigin :: jsstring
  gl_rows :: "addon_row list"
  gl_registriesByUrl :: "(jsstring \<times> jsfields) list"
  gl_loadErrors :: "(jsstring \<times> err) list"
  gl_metaByUrl :: "(jsstring \<times> meta_summary) list"
  gl_metaPublishersByUrl :: "(jsstring \<times> publisher_entry list) list"
  gl_submissionsByUrl :: "(jsstring \<times> jsval list) list"
  gl_reload :: bool
  gl_status :: jsstring
  gl_runs :: "(nat \<times> refresh_run) list"
  gl_nextRun :: nat
  gl_storedRegistries :: "jsstring option"
  gl_storedHost :: "jsstring option"

text \<open>The last argument of the first three is whether \<open>localStorage\<close> takes the change.\<close>

datatype gallery_event =
    GHost jsstring bool
  | GAdd jsstring bool
  | GRemove jsstring bool
  | GRefresh
  | GLoaded nat gallery_env

text \<open>The first fetch of a load, with \<open>cache: "reload"\<close> or not, and the end of a refresh.\<close>

datatype gallery_out = GFetch bool jsstring | GDone nat | GThrow err

definition registries :: "gallery \<Rightarrow> jsstring list" where
  "registries s = gl_arrays s ! gl_registries s"

text \<open>\<open>encodeURIComponent(entry.url)\<close> in \<open>renderRegistryList\<close> throws on a lone surrogate.\<close>

definition listable :: "gallery \<Rightarrow> bool" where
  "listable s = list_all well_formed (registries s)"

definition counted :: "nat \<Rightarrow> jsstring" where
  "counted n = radix_str 10 n"

definition loading_status :: "gallery \<Rightarrow> jsstring" where
  "loading_status s =
     (let n = length (registries s) in
      js ''loading '' @ counted n @ js '' registr'' @ js (if n = 1 then ''y'' else ''ies'') @ [0x2026])"

definition loaded_status :: "gallery \<Rightarrow> jsstring" where
  "loaded_status s =
     (let n = length (registries s); errCount = length (gl_loadErrors s);
          partialMetaErrors = sum_list (map (\<lambda>m. length (ms_errors (snd m))) (gl_metaByUrl s));
          tail = (if 0 < partialMetaErrors then js '' ('' @ counted partialMetaErrors @ js '' meta publishers failed)'' else []) in
      if 0 < errCount
      then num_str (Fin (of_int (int n - int errCount))) @ js '' of '' @ counted n @ js '' registries loaded; '' @ counted errCount
        @ js '' failed'' @ tail
      else counted n @ js '' registries loaded '' @ 0xB7 # js '' '' @ counted (length (gl_rows s)) @ js '' add-ons'' @ tail)"

text \<open>What the renders at the end of a refresh throw, as far as the list of registries and the filters do.\<close>

definition rendered :: "gallery \<Rightarrow> gallery_out list" where
  "rendered s =
     (if \<not> listable s then [GThrow (Thrown ''URIError'' '''')]
      else case unionCategories (gl_rows s) of Inl e \<Rightarrow> [GThrow e] | Inr _ \<Rightarrow> [])"

definition cleared :: "gallery \<Rightarrow> gallery" where
  "cleared s = s\<lparr>gl_status := loading_status s, gl_rows := [], gl_registriesByUrl := [], gl_loadErrors := [], gl_metaByUrl := [],
     gl_metaPublishersByUrl := [], gl_submissionsByUrl := []\<rparr>"

text \<open>\<open>refreshAll\<close> up to its first \<open>await\<close>; without an entry there is none and the \<open>finally\<close> follows at once.\<close>

definition refreshAll :: "bool \<Rightarrow> gallery \<Rightarrow> gallery \<times> gallery_out list" where
  "refreshAll bypassCache s =
     (if \<not> listable s then (cleared s, [GThrow (Thrown ''URIError'' '''')])
      else case registries s of
        [] \<Rightarrow> ((cleared s)\<lparr>gl_status := loaded_status (cleared s), gl_nextRun := Suc (gl_nextRun s)\<rparr>, [GDone (gl_nextRun s)])
      | url # _ \<Rightarrow>
          ((cleared s)\<lparr>gl_reload := bypassCache, gl_nextRun := Suc (gl_nextRun s),
             gl_runs := gl_runs s @ [(gl_nextRun s, \<lparr>rr_previousCache = gl_reload s, rr_array = gl_registries s, rr_next = 0\<rparr>)]\<rparr>,
           [GFetch bypassCache url]))"

fun set_registries :: "(jsstring \<times> jsfields) list \<Rightarrow> (jsstring \<times> jsfields) list \<Rightarrow> (jsstring \<times> jsfields) list" where
  "set_registries [] m = m"
| "set_registries ((u, r) # rs) m = set_registries rs (al_set u r m)"

definition merge_load :: "jsstring \<Rightarrow> err + load_result \<Rightarrow> gallery \<Rightarrow> gallery" where
  "merge_load url r s =
     (case r of
        Inl e \<Rightarrow> s\<lparr>gl_loadErrors := al_set url e (gl_loadErrors s)\<rparr>
      | Inr l \<Rightarrow> s\<lparr>gl_registriesByUrl := set_registries (lr_registries l) (gl_registriesByUrl s),
          gl_rows := gl_rows s @ lr_addons l,
          gl_metaByUrl := (case lr_meta l of None \<Rightarrow> gl_metaByUrl s | Some m \<Rightarrow> al_set url m (gl_metaByUrl s)),
          gl_metaPublishersByUrl := (case lr_metaPublishers l of None \<Rightarrow> gl_metaPublishersByUrl s
            | Some p \<Rightarrow> al_set url p (gl_metaPublishersByUrl s)),
          gl_submissionsByUrl := (case lr_submissions l of None \<Rightarrow> gl_submissionsByUrl s
            | Some p \<Rightarrow> al_set url p (gl_submissionsByUrl s))\<rparr>)"

text \<open>The rest of a pass of the loop: the next entry of the array as it is now, or the end.\<close>

definition next_load :: "nat \<Rightarrow> refresh_run \<Rightarrow> gallery \<Rightarrow> gallery \<times> gallery_out list" where
  "next_load k run s =
     (let arr = gl_arrays s ! rr_array run; i = Suc (rr_next run) in
      if i < length arr then (s\<lparr>gl_runs := al_set k (run\<lparr>rr_next := i\<rparr>) (gl_runs s)\<rparr>, [GFetch (gl_reload s) (arr ! i)])
      else (s\<lparr>gl_status := loaded_status s, gl_reload := rr_previousCache run, gl_runs := al_del k (gl_runs s)\<rparr>,
            rendered s @ [GDone k]))"

definition hostChanged :: "jsstring \<Rightarrow> bool \<Rightarrow> gallery \<Rightarrow> gallery \<times> gallery_out list" where
  "hostChanged text_value writable s =
     (let origin = js_trim text_value; s1 = s\<lparr>gl_hostOrigin := origin\<rparr> in
      if writable then (s1\<lparr>gl_storedHost := writeHostOrigin origin\<rparr>, [])
      else (s1, [GThrow (Thrown ''QuotaExceededError'' '''')]))"

definition addRegistry :: "jsstring \<Rightarrow> bool \<Rightarrow> gallery \<Rightarrow> gallery \<times> gallery_out list" where
  "addRegistry text_value writable s =
     (let url = js_trim text_value in
      if url = [] \<or> url \<in> set (registries s) then (s, [])
      else let entries = registries s @ [url]; s1 = s\<lparr>gl_arrays := (gl_arrays s)[gl_registries s := entries]\<rparr> in
        if writable then refreshAll False (s1\<lparr>gl_storedRegistries := writeRegistries entries\<rparr>)
        else (s1, [GThrow (Thrown ''QuotaExceededError'' '''')]))"

definition removeRegistry :: "jsstring \<Rightarrow> bool \<Rightarrow> gallery \<Rightarrow> gallery \<times> gallery_out list" where
  "removeRegistry url writable s =
     (let entries = filter (\<lambda>u. u \<noteq> url) (registries s);
          s1 = s\<lparr>gl_arrays := gl_arrays s @ [entries], gl_registries := length (gl_arrays s)\<rparr> in
      if writable then refreshAll False (s1\<lparr>gl_storedRegistries := writeRegistries entries\<rparr>)
      else (s1, [GThrow (Thrown ''QuotaExceededError'' '''')]))"

fun gallery_step :: "'u page_url_api \<Rightarrow> ('pk, 'sk) web_crypto option \<Rightarrow> date_api \<Rightarrow> gallery_event \<Rightarrow> gallery
    \<Rightarrow> (gallery \<times> gallery_out list) option" where
  "gallery_step api c dates (GHost t w) s = Some (hostChanged t w s)"
| "gallery_step api c dates (GAdd t w) s = Some (addRegistry t w s)"
| "gallery_step api c dates (GRemove u w) s = Some (removeRegistry u w s)"
| "gallery_step api c dates GRefresh s = Some (refreshAll True s)"
| "gallery_step api c dates (GLoaded k env) s =
     (case map_of (gl_runs s) k of
        None \<Rightarrow> None
      | Some run \<Rightarrow>
          (let url = gl_arrays s ! rr_array run ! rr_next run in
           Some (next_load k run (merge_load url (loadFromUrl api c dates env url) s))))"

text \<open>The module's own start: what \<open>localStorage\<close> holds, then \<open>bindUi()\<close> and \<open>refreshAll()\<close>.\<close>

definition gallery_init :: "jsstring \<Rightarrow> err + jsstring option \<Rightarrow> jsstring option \<Rightarrow> gallery" where
  "gallery_init default_url raw_item raw_host =
     \<lparr>gl_arrays = [readRegistries default_url raw_item], gl_registries = 0,
      gl_hostOrigin = readHostOrigin raw_host, gl_rows = [], gl_registriesByUrl = [],
      gl_loadErrors = [], gl_metaByUrl = [], gl_metaPublishersByUrl = [], gl_submissionsByUrl = [], gl_reload = False, gl_status = [],
      gl_runs = [], gl_nextRun = 0, gl_storedRegistries = (case raw_item of Inl _ \<Rightarrow> None | Inr r \<Rightarrow> r),
      gl_storedHost = raw_host\<rparr>"

definition gallery_start :: "jsstring \<Rightarrow> err + jsstring option \<Rightarrow> jsstring option \<Rightarrow> gallery \<times> gallery_out list" where
  "gallery_start default_url raw_item raw_host = refreshAll False (gallery_init default_url raw_item raw_host)"

end
