(* ===== verification/Gallery_Props.thy ===== *)
theory Gallery_Props
  imports Gallery_State Registry_Props JS_JSON_Props
begin

text \<open>
  What the gallery guarantees: the list of registries survives a reload of the page; a row marked
  verified was verified by Web Crypto under a key its registry trusts, over the bytes its manifest was
  read from, whatever refreshes ran side by side; a refresh that runs alone shows every registry that
  loads and notes every other; a document the publishing side's validators accept is one the
  gallery recognises. And where it does not: two refreshes that overlap.
\<close>

subsection \<open>The list of registries\<close>

lemma registry_urls_distinct: "distinct out \<Longrightarrow> distinct (registry_urls items out)"
  by (induction items out rule: registry_urls.induct) (auto split: jsval.splits)

lemma readRegistries_distinct: "distinct (readRegistries d raw)"
  by (auto simp: readRegistries_def Let_def registry_urls_distinct split: sum.splits option.splits list.splits jsval.splits)

lemma readRegistries_nonempty: "readRegistries d raw \<noteq> []"
  by (auto simp: readRegistries_def Let_def split: sum.splits option.splits list.splits jsval.splits)

lemma registry_urls_strs:
  "distinct (out @ us) \<Longrightarrow> registry_urls (map (\<lambda>u. Obj [(js ''url'', Str u)]) us) out = out @ us"
  by (induction us arbitrary: out) auto

theorem registries_survive_reload:
  assumes "distinct urls"
  shows "readRegistries d (Inr (writeRegistries urls)) = (if urls = [] then [d] else urls)"
proof -
  let ?v = "Arr (map (\<lambda>u. Obj [(js ''url'', Str u)]) urls)"
  have clean: "json_clean ?v" by (simp add: list_all_iff)
  then obtain t where t: "json_str ?v = Some t" using json_clean_str by blast
  have "json_parse t = Some ?v" by (rule json_parse_str [OF clean t])
  moreover from t have "t \<noteq> []" by auto
  ultimately show ?thesis
    using assms registry_urls_strs [of "[]" urls]
    by (auto simp: readRegistries_def writeRegistries_def t neq_Nil_conv Let_def simp del: json_str.simps)
qed

subsection \<open>Rows\<close>

definition row_checked :: "('pk, 'sk) web_crypto option \<Rightarrow> addon_row \<Rightarrow> bool" where
  "row_checked c row \<longleftrightarrow>
     (vr_ok (rw_verify row) \<longrightarrow>
        (\<exists>crypto g pk raw sig b. c = Some crypto \<and> rw_signature row = Some g
           \<and> sg_publicKey g \<in> set (trusted_keys (rw_registry row))
           \<and> manifest_base64urlDecode (sg_publicKey g) = Inr raw \<and> length raw = 32 \<and> wc_importRaw crypto raw = Inr pk
           \<and> manifest_base64urlDecode (sg_signature g) = Inr sig \<and> wc_verify crypto pk sig b = Inr True
           \<and> rw_manifest row = json_parse (utf8_decode b)))"

lemma load_row_cases:
  assumes "load_row api c dates env opts url registry raw = Inr row"
  shows "rw_registryUrl row = url \<and> rw_registry row = registry \<and> rw_addon row = own_fields raw
    \<and> ((\<exists>b g. rw_signature row = Some g \<and> rw_manifest row = json_parse (utf8_decode b) \<and> rw_fetchError row = None
          \<and> verifyManifest c b g (Some (trusted_keys registry)) = Inr (rw_verify row))
       \<or> (rw_signature row = None \<and> rw_manifest row = None \<and> rw_fetchError row \<noteq> None \<and> \<not> vr_ok (rw_verify row)))"
proof -
  from assms obtain m s where m: "manifestUrlFor api url (str_of (fld (own_fields raw) ''path'')) = Inr m"
    and s: "sigUrlFor api m = Inr s" by (auto simp: load_row_def Let_def then_ok_Inr)
  define r where "r = then_ok (fetch_both env m s) (\<lambda>(manifestBytes, sigJson).
               then_ok (validateSignaturePayload dates sigJson) (\<lambda>sig.
               then_ok (verifyManifest c manifestBytes sig (Some (trusted_keys registry))) (\<lambda>result.
                 Inr (manifestBytes, sig, result))))"
  show ?thesis
  proof (cases r)
    case (Inl e)
    with assms m s show ?thesis by (auto simp: load_row_def Let_def r_def)
  next
    case (Inr x)
    then obtain b g v where x: "x = (b, g, v)" and "verifyManifest c b g (Some (trusted_keys registry)) = Inr v"
      by (auto simp: r_def then_ok_Inr)
    with Inr assms m s show ?thesis by (auto simp: load_row_def Let_def r_def)
  qed
qed

lemma load_row_checked:
  assumes "load_row api c dates env opts url registry raw = Inr row"
  shows "row_checked c row"
  unfolding row_checked_def
proof
  assume ok: "vr_ok (rw_verify row)"
  with load_row_cases [OF assms] obtain b g where row: "rw_registry row = registry" "rw_signature row = Some g"
      "rw_manifest row = json_parse (utf8_decode b)"
    and v: "verifyManifest c b g (Some (trusted_keys registry)) = Inr (rw_verify row)" by blast
  from verify_sound [OF v ok] row show
    "\<exists>crypto g pk raw sig b. c = Some crypto \<and> rw_signature row = Some g
       \<and> sg_publicKey g \<in> set (trusted_keys (rw_registry row))
       \<and> manifest_base64urlDecode (sg_publicKey g) = Inr raw \<and> length raw = 32 \<and> wc_importRaw crypto raw = Inr pk
       \<and> manifest_base64urlDecode (sg_signature g) = Inr sig \<and> wc_verify crypto pk sig b = Inr True
       \<and> rw_manifest row = json_parse (utf8_decode b)" by auto
qed

lemma load_registry_rows:
  assumes "load_registry api c dates env opts url value = Inr (registry, rows)"
  shows "list_all (row_checked c) rows \<and> list_all (\<lambda>r. rw_registryUrl r = url \<and> rw_registry r = registry) rows"
proof -
  have "row_checked c r \<and> rw_registryUrl r = url \<and> rw_registry r = registry"
    if "load_row api c dates env opts url registry raw = Inr r" for raw r
    using load_row_cases [OF that] load_row_checked [OF that] by blast
  with assms show ?thesis
    by (fastforce simp: load_registry_def Let_def then_ok_Inr list_all_iff dest: throwing_map_set split: if_splits)
qed

lemma loadPublisherIndex_rows:
  "loadPublisherIndex api c dates env opts url = Inr (registry, rows) \<Longrightarrow> list_all (row_checked c) rows"
  by (auto simp: loadPublisherIndex_def then_ok_Inr dest: load_registry_rows split: if_splits)

text \<open>What a meta index shows: its publishers that load, in its order.\<close>

lemma load_meta_addons:
  "load_meta api c dates env url value = Inr l \<Longrightarrow>
     lr_addons l = concat (map (\<lambda>p. case loadPublisherIndex api c dates env (entry_options url p) (pe_url p) of
            Inl _ \<Rightarrow> [] | Inr (_, rows) \<Rightarrow> rows) (normalizeMetaIndex api value))"
  by (auto simp: load_meta_def Let_def comp_def split: if_splits)

lemma loadFromUrl_rows:
  assumes "loadFromUrl api c dates env url = Inr l"
  shows "list_all (row_checked c) (lr_addons l)"
proof -
  from assms obtain v where "fetchJson env url = Inr v" by (auto simp: loadFromUrl_def then_ok_Inr)
  consider "isSubmissionsIndex v" | "\<not> isSubmissionsIndex v" "isMetaIndex v" | "\<not> isSubmissionsIndex v" "\<not> isMetaIndex v"
    by blast
  then show ?thesis
  proof cases
    case 2
    with assms \<open>fetchJson env url = Inr v\<close> have "load_meta api c dates env url (own_fields v) = Inr l"
      by (simp add: loadFromUrl_def)
    then show ?thesis
      by (fastforce simp: load_meta_addons list_all_iff dest: loadPublisherIndex_rows [OF sym] split: sum.splits)
  qed (use assms \<open>fetchJson env url = Inr v\<close> in \<open>auto simp: loadFromUrl_def then_ok_Inr dest: load_registry_rows\<close>)
qed

subsection \<open>What every event keeps\<close>

definition run_ok :: "jsstring list list \<Rightarrow> refresh_run \<Rightarrow> bool" where
  "run_ok arrs run = (rr_array run < length arrs \<and> rr_next run < length (arrs ! rr_array run))"

definition gallery_inv :: "('pk, 'sk) web_crypto option \<Rightarrow> gallery \<Rightarrow> bool" where
  "gallery_inv c s \<longleftrightarrow>
     gl_registries s < length (gl_arrays s) \<and> list_all distinct (gl_arrays s)
     \<and> list_all (run_ok (gl_arrays s) \<circ> snd) (gl_runs s)
     \<and> distinct (map fst (gl_runs s)) \<and> list_all (\<lambda>r. fst r < gl_nextRun s) (gl_runs s)
     \<and> list_all (row_checked c) (gl_rows s)"

lemmas gallery_defs = gallery_inv_def registries_def listable_def cleared_def

lemma refreshAll_keeps: "gallery_inv c s \<Longrightarrow> gallery_inv c (fst (refreshAll b s))"
  by (auto simp: gallery_defs refreshAll_def run_ok_def list_all_iff split: list.splits)

lemma run_ok_longer:
  "run_ok arrs run \<Longrightarrow> length (arrs ! i) \<le> length xs \<Longrightarrow> run_ok (arrs[i := xs]) run"
  by (cases "i = rr_array run") (auto simp: run_ok_def nth_list_update)

lemma run_ok_append: "run_ok arrs run \<Longrightarrow> run_ok (arrs @ xs) run"
  by (auto simp: run_ok_def nth_append)

lemma addRegistry_keeps: "gallery_inv c s \<Longrightarrow> gallery_inv c (fst (addRegistry t w s))"
proof -
  assume i: "gallery_inv c s"
  define entries where "entries = registries s @ [js_trim t]"
  have "gallery_inv c (s\<lparr>gl_arrays := (gl_arrays s)[gl_registries s := entries], gl_storedRegistries := x\<rparr>)"
    if "js_trim t \<notin> set (registries s)" for x
    using i that by (auto simp: gallery_defs entries_def list_all_length nth_list_update intro: run_ok_longer)
  note this [of "writeRegistries entries"] this [of "gl_storedRegistries s"]
  then show ?thesis using i refreshAll_keeps by (auto simp: addRegistry_def Let_def entries_def)
qed

lemma removeRegistry_keeps: "gallery_inv c s \<Longrightarrow> gallery_inv c (fst (removeRegistry u w s))"
proof -
  assume i: "gallery_inv c s"
  define entries where "entries = filter (\<lambda>x. x \<noteq> u) (registries s)"
  have "distinct entries" using i by (simp add: gallery_defs entries_def list_all_length)
  then have "gallery_inv c (s\<lparr>gl_arrays := gl_arrays s @ [entries], gl_registries := length (gl_arrays s), gl_storedRegistries := x\<rparr>)"
    for x using i by (auto simp: gallery_inv_def list_all_iff intro: run_ok_append)
  note this [of "writeRegistries entries"] this [of "gl_storedRegistries s"]
  then show ?thesis using refreshAll_keeps by (auto simp: removeRegistry_def Let_def entries_def)
qed

lemma merge_load_same [simp]:
  "gl_runs (merge_load url r s) = gl_runs s" "gl_arrays (merge_load url r s) = gl_arrays s"
  "gl_reload (merge_load url r s) = gl_reload s" "gl_nextRun (merge_load url r s) = gl_nextRun s"
  "gl_registries (merge_load url r s) = gl_registries s"
  by (auto simp: merge_load_def split: sum.splits)

lemma merge_load_keeps:
  assumes "gallery_inv c s" "\<And>l. r = Inr l \<Longrightarrow> list_all (row_checked c) (lr_addons l)"
  shows "gallery_inv c (merge_load url r s)"
  using assms by (auto simp: merge_load_def gallery_inv_def split: sum.splits)

lemma next_load_keeps:
  assumes "gallery_inv c s" "map_of (gl_runs s) k = Some run"
  shows "gallery_inv c (fst (next_load k run s))"
proof -
  from assms(2) have "(k, run) \<in> set (gl_runs s)" by (rule map_of_SomeD)
  then have "k < gl_nextRun s" "run_ok (gl_arrays s) run" using assms(1) by (auto simp: gallery_inv_def list_all_iff)
  with assms(1) show ?thesis
    by (auto simp: next_load_def Let_def gallery_inv_def list_all_iff al_del_mem al_set_mem run_ok_def)
qed

interpretation gal: preserved "gallery_step api c dates" "gallery_inv c"
proof
  fix s ev s' os
  assume i: "gallery_inv c s" and st: "gallery_step api c dates ev s = Some (s', os)"
  show "gallery_inv c s'"
  proof (cases ev)
    case (GHost t w)
    with i st show ?thesis by (auto simp: hostChanged_def Let_def gallery_inv_def split: if_splits)
  next
    case (GAdd t w)
    with st have "s' = fst (addRegistry t w s)" by simp
    with i show ?thesis by (simp add: addRegistry_keeps)
  next
    case (GRemove u w)
    with st have "s' = fst (removeRegistry u w s)" by simp
    with i show ?thesis by (simp add: removeRegistry_keeps)
  next
    case GRefresh
    with st have "s' = fst (refreshAll True s)" by simp
    with i show ?thesis by (simp add: refreshAll_keeps)
  next
    case (GLoaded k env)
    show ?thesis
    proof (cases "map_of (gl_runs s) k")
      case (Some run)
      define url where "url = gl_arrays s ! rr_array run ! rr_next run"
      have s': "s' = fst (next_load k run (merge_load url (loadFromUrl api c dates env url) s))"
        using st GLoaded Some by (simp add: Let_def url_def)
      have "gallery_inv c (merge_load url (loadFromUrl api c dates env url) s)"
        using merge_load_keeps [OF i] loadFromUrl_rows by blast
      then show ?thesis unfolding s' by (rule next_load_keeps) (use Some in simp)
    qed (use st GLoaded in simp)
  qed
qed

lemma gallery_start_inv: "gallery_inv c (fst (gallery_start d raw h))"
  unfolding gallery_start_def
  by (rule refreshAll_keeps) (simp add: gallery_inv_def gallery_init_def readRegistries_distinct)

lemma reachable_gallery: "reach (gallery_step api c dates) (fst (gallery_start d raw h)) os s \<Longrightarrow> gallery_inv c s"
  using gal.reach_preserves gallery_start_inv by blast

subsection \<open>A refresh that runs alone\<close>

fun merge_loads :: "'u page_url_api \<Rightarrow> ('pk, 'sk) web_crypto option \<Rightarrow> date_api \<Rightarrow> (jsstring \<times> gallery_env) list \<Rightarrow> gallery \<Rightarrow> gallery" where
  "merge_loads api c dates [] s = s"
| "merge_loads api c dates ((url, env) # es) s =
     merge_loads api c dates es (merge_load url (loadFromUrl api c dates env url) s)"

lemma merge_load_runs: "merge_load url r (s\<lparr>gl_runs := x\<rparr>) = (merge_load url r s)\<lparr>gl_runs := x\<rparr>"
  by (cases r) (simp_all add: merge_load_def cong: option.case_cong)

lemma merge_loads_runs: "merge_loads api c dates es (s\<lparr>gl_runs := x\<rparr>) = (merge_loads api c dates es s)\<lparr>gl_runs := x\<rparr>"
  by (induction es arbitrary: s) (auto simp: merge_load_runs)

lemma merge_loads_same [simp]:
  "gl_arrays (merge_loads api c dates es s) = gl_arrays s" "gl_registries (merge_loads api c dates es s) = gl_registries s"
  "gl_nextRun (merge_loads api c dates es s) = gl_nextRun s"
  by (induction es arbitrary: s) auto

lemma merge_loads_rows:
  "gl_rows (merge_loads api c dates es s) = gl_rows s @ concat (map (\<lambda>(url, env).
     case loadFromUrl api c dates env url of Inl _ \<Rightarrow> [] | Inr l \<Rightarrow> lr_addons l) es)"
  by (induction es arbitrary: s) (auto simp: merge_load_def split: sum.splits)

lemma merge_loads_errors:
  "distinct (map fst es) \<Longrightarrow> fst ` set es \<inter> fst ` set (gl_loadErrors s) = {} \<Longrightarrow>
   gl_loadErrors (merge_loads api c dates es s) = gl_loadErrors s @ concat (map (\<lambda>(url, env).
     case loadFromUrl api c dates env url of Inl e \<Rightarrow> [(url, e)] | Inr _ \<Rightarrow> []) es)"
proof (induction es arbitrary: s)
  case (Cons p es)
  obtain url env where p: "p = (url, env)" by force
  from Cons.prems have new: "url \<notin> fst ` set (gl_loadErrors s)" "url \<notin> fst ` set es" by (auto simp: p)
  show ?case
  proof (cases "loadFromUrl api c dates env url")
    case (Inl e)
    have "gl_loadErrors (merge_load url (Inl e) s) = gl_loadErrors s @ [(url, e)]"
      using new by (simp add: merge_load_def al_set_fresh)
    with Cons new Inl show ?thesis by (auto simp: p)
  next
    case (Inr l)
    have "gl_loadErrors (merge_load url (Inr l) s) = gl_loadErrors s" by (simp add: merge_load_def)
    with Cons Inr show ?thesis by (auto simp: p)
  qed
qed simp

lemma loaded_status_cong:
  "registries s = registries t \<Longrightarrow> gl_rows s = gl_rows t \<Longrightarrow> gl_loadErrors s = gl_loadErrors t \<Longrightarrow>
   gl_metaByUrl s = gl_metaByUrl t \<Longrightarrow> loaded_status s = loaded_status t"
  by (simp add: loaded_status_def Let_def cong: if_cong)

lemma loaded_status_runs: "loaded_status (s\<lparr>gl_runs := x\<rparr>) = loaded_status s"
  by (rule loaded_status_cong) (simp_all add: registries_def)

lemma rendered_runs: "rendered (s\<lparr>gl_runs := x\<rparr>) = rendered s"
  by (simp add: rendered_def listable_def registries_def)

lemma lone_loop:
  assumes "gl_runs s = [(k, \<lparr>rr_previousCache = b, rr_array = a, rr_next = i\<rparr>)]"
    and "i < length (gl_arrays s ! a)" "length envs = length (gl_arrays s ! a) - i"
  shows "run_events (gallery_step api c dates) (map (GLoaded k) envs) s =
     (let s' = merge_loads api c dates (zip (drop i (gl_arrays s ! a)) envs) s in
      Some (s'\<lparr>gl_status := loaded_status s', gl_reload := b, gl_runs := []\<rparr>,
       map (GFetch (gl_reload s)) (drop (Suc i) (gl_arrays s ! a)) @ rendered s' @ [GDone k]))"
  using assms
proof (induction envs arbitrary: s i)
  case (Cons env envs)
  let ?urls = "gl_arrays s ! a"
  define url where "url = ?urls ! i"
  define s1 where "s1 = merge_load url (loadFromUrl api c dates env url) s"
  from Cons.prems have d: "drop i ?urls = url # drop (Suc i) ?urls" by (simp add: url_def Cons_nth_drop_Suc)
  show ?case
  proof (cases "Suc i < length ?urls")
    case True
    let ?s2 = "s1\<lparr>gl_runs := [(k, \<lparr>rr_previousCache = b, rr_array = a, rr_next = Suc i\<rparr>)]\<rparr>"
    have st: "gallery_step api c dates (GLoaded k env) s = Some (?s2, [GFetch (gl_reload s) (?urls ! Suc i)])"
      using Cons.prems True by (simp add: Let_def next_load_def s1_def url_def)
    have "run_events (gallery_step api c dates) (map (GLoaded k) envs) ?s2 =
        (let s' = merge_loads api c dates (zip (drop (Suc i) ?urls) envs) s1 in
         Some (s'\<lparr>gl_status := loaded_status s', gl_reload := b, gl_runs := []\<rparr>,
          map (GFetch (gl_reload s)) (drop (Suc (Suc i)) ?urls) @ rendered s' @ [GDone k]))"
      using Cons.IH [of ?s2 "Suc i"] Cons.prems True
      by (simp add: s1_def merge_loads_runs Let_def loaded_status_runs rendered_runs)
    with st True show ?thesis by (simp add: d s1_def Let_def Cons_nth_drop_Suc [symmetric])
  next
    case False
    have "length envs = 0" using Cons.prems(2,3) False unfolding list.size by linarith
    then have "envs = []" by simp
    with Cons.prems False d show ?thesis
      by (simp add: Let_def next_load_def url_def al_del_def)
  qed
qed simp

lemma lone_refresh:
  fixes api c dates s b envs
  defines "s' \<equiv> merge_loads api c dates (zip (registries s) envs) (fst (refreshAll b s))"
  assumes "gl_runs s = []" "listable s" "length envs = length (registries s)"
  shows "\<exists>os. run_events (gallery_step api c dates) (map (GLoaded (gl_nextRun s)) envs) (fst (refreshAll b s)) =
      Some (s'\<lparr>gl_status := loaded_status s', gl_reload := gl_reload s, gl_runs := []\<rparr>, os)
    \<and> snd (refreshAll b s) @ os = map (GFetch b) (registries s) @ rendered s' @ [GDone (gl_nextRun s)]"
proof (cases "registries s")
  case Nil
  let ?c = "cleared s"
  from Nil assms(3) have c: "registries ?c = []" "gl_rows ?c = []" "gl_runs ?c = []" "gl_reload ?c = gl_reload s"
    using assms(2) by (simp_all add: cleared_def registries_def)
  have st: "refreshAll b s = (?c\<lparr>gl_status := loaded_status ?c, gl_nextRun := Suc (gl_nextRun s)\<rparr>, [GDone (gl_nextRun s)])"
    using Nil assms(3) by (simp add: refreshAll_def)
  have s': "s' = fst (refreshAll b s)" using Nil by (simp add: s'_def)
  have same: "loaded_status s' = loaded_status ?c"
    by (rule loaded_status_cong) (simp_all add: s' st registries_def)
  have r: "rendered s' = []" "gl_runs s' = []" "gl_reload s' = gl_reload s" "gl_status s' = loaded_status ?c"
    using c by (simp_all add: s' st rendered_def listable_def registries_def unionCategories_def)
  from same r have "s'\<lparr>gl_status := loaded_status s', gl_reload := gl_reload s, gl_runs := []\<rparr> = s'"
    by (cases s') simp
  with r(1) show ?thesis using Nil assms(4) st s' by simp
next
  case (Cons url urls)
  let ?s0 = "fst (refreshAll b s)"
  let ?run = "\<lparr>rr_previousCache = gl_reload s, rr_array = gl_registries s, rr_next = 0\<rparr>"
  have s0: "gl_runs ?s0 = [(gl_nextRun s, ?run)]" "gl_arrays ?s0 = gl_arrays s" "gl_reload ?s0 = b"
    and st: "snd (refreshAll b s) = [GFetch b url]"
    using assms(2,3) Cons by (auto simp: refreshAll_def cleared_def)
  with lone_loop [OF s0(1), of envs api c dates] assms(4) Cons show ?thesis
    by (simp add: registries_def Let_def s'_def)
qed

lemma refreshAll_cleared:
  "gl_rows (fst (refreshAll b s)) = []" "gl_loadErrors (fst (refreshAll b s)) = []"
  by (auto simp: refreshAll_def cleared_def split: list.splits)

subsection \<open>Two refreshes at once\<close>

text \<open>One registry, two clicks on Refresh before the first load ends.\<close>

lemma refresh_one:
  assumes "listable s" "registries s = [url]"
  shows "fst (refreshAll True s) = (cleared s)\<lparr>gl_reload := True, gl_nextRun := Suc (gl_nextRun s),
      gl_runs := gl_runs s @ [(gl_nextRun s, \<lparr>rr_previousCache = gl_reload s, rr_array = gl_registries s, rr_next = 0\<rparr>)]\<rparr>"
  using assms by (simp add: refreshAll_def)

text \<open>The step that ends the load of a lone registry.\<close>

lemma load_ends:
  assumes "map_of (gl_runs s) k = Some run" "rr_array run = gl_registries s" "rr_next run = 0" "registries s = [url]"
    and "loadFromUrl api c dates env url = Inr l"
  shows "\<exists>s' os. gallery_step api c dates (GLoaded k env) s = Some (s', os) \<and> gl_reload s' = rr_previousCache run
    \<and> gl_runs s' = al_del k (gl_runs s) \<and> gl_rows s' = gl_rows s @ lr_addons l
    \<and> gl_registries s' = gl_registries s \<and> registries s' = [url]"
  using assms by (simp add: registries_def next_load_def Let_def merge_load_def)

lemma overlapping_refreshes:
  assumes "gl_runs s = []" "listable s" "registries s = [url]"
    and l: "loadFromUrl api c dates env url = Inr l" "loadFromUrl api c dates env' url = Inr l'"
  shows "\<exists>s' os. run_events (gallery_step api c dates)
        [GRefresh, GRefresh, GLoaded (gl_nextRun s) env, GLoaded (Suc (gl_nextRun s)) env'] s = Some (s', os)
    \<and> gl_runs s' = [] \<and> gl_reload s' \<and> gl_rows s' = lr_addons l @ lr_addons l'"
proof -
  let ?k = "gl_nextRun s"
  define s1 where "s1 = fst (refreshAll True s)"
  define s2 where "s2 = fst (refreshAll True s1)"
  have s1: "registries s1 = [url]" "listable s1" "gl_reload s1" "gl_nextRun s1 = Suc ?k" "gl_registries s1 = gl_registries s"
    "gl_runs s1 = [(?k, \<lparr>rr_previousCache = gl_reload s, rr_array = gl_registries s, rr_next = 0\<rparr>)]"
    using assms(1-3) by (simp_all add: s1_def refresh_one) (simp_all add: cleared_def registries_def listable_def)
  then have s2: "registries s2 = [url]" "gl_registries s2 = gl_registries s" "gl_rows s2 = []"
    "gl_runs s2 = gl_runs s1 @ [(Suc ?k, \<lparr>rr_previousCache = True, rr_array = gl_registries s, rr_next = 0\<rparr>)]"
    by (simp_all add: s2_def refresh_one) (simp_all add: cleared_def registries_def)
  obtain s3 os3 where s3: "gallery_step api c dates (GLoaded ?k env) s2 = Some (s3, os3)"
    "gl_runs s3 = al_del ?k (gl_runs s2)" "gl_rows s3 = lr_addons l" "gl_registries s3 = gl_registries s" "registries s3 = [url]"
    using load_ends [of s2 ?k _ url api c dates env l] s1(6) s2 l(1) by auto
  then have r3: "gl_runs s3 = [(Suc ?k, \<lparr>rr_previousCache = True, rr_array = gl_registries s, rr_next = 0\<rparr>)]"
    by (simp add: s2 s1 al_del_def)
  obtain s4 os4 where s4: "gallery_step api c dates (GLoaded (Suc ?k) env') s3 = Some (s4, os4)"
    "gl_reload s4" "gl_runs s4 = []" "gl_rows s4 = lr_addons l @ lr_addons l'"
    using load_ends [of s3 "Suc ?k" _ url api c dates env' l'] r3 s3(3-5) l(2) by (auto simp: al_del_def)
  have "gallery_step api c dates GRefresh s = Some (s1, snd (refreshAll True s))"
    "gallery_step api c dates GRefresh s1 = Some (s2, snd (refreshAll True s1))"
    by (simp_all add: s1_def s2_def)
  with s3(1) s4 show ?thesis by (auto simp del: gallery_step.simps)
qed

subsection \<open>The meta index\<close>

abbreviation featured :: "publisher_entry \<Rightarrow> bool" where
  "featured p \<equiv> pe_featured p = Some True"

lemma sort_two_groups:
  "sort_key (\<lambda>p. if F p then 0 else 1 :: nat) ps = filter F ps @ filter (\<lambda>p. \<not> F p) ps"
proof (induction ps)
  case (Cons p ps)
  let ?k = "\<lambda>p. if F p then 0 else 1 :: nat"
  have front: "insort_key ?k p xs = p # xs" if "F p" for xs using that by (cases xs) auto
  have behind: "insort_key ?k p (filter F ps @ xs) = filter F ps @ insort_key ?k p xs" if "\<not> F p" for xs
    using that by (induction ps) auto
  have "insort_key ?k p (filter (\<lambda>p. \<not> F p) ps) = p # filter (\<lambda>p. \<not> F p) ps"
    by (cases "filter (\<lambda>p. \<not> F p) ps") (auto simp: filter_eq_Cons_iff)
  with Cons front behind show ?case by auto
qed simp

lemma normalizeMetaIndex_groups:
  "normalizeMetaIndex api v = filter featured (normal_publishers api [] (arr_of (fld v ''publishers'')))
     @ filter (\<lambda>p. \<not> featured p) (normal_publishers api [] (arr_of (fld v ''publishers'')))"
  by (simp add: normalizeMetaIndex_def sort_two_groups)

lemma endorsed_labels_bounds:
  "length out < 8 \<Longrightarrow> list_all (text_in 1 80) out \<Longrightarrow>
     length (endorsed_labels vs out) \<le> 8 \<and> list_all (text_in 1 80) (endorsed_labels vs out)"
  by (induction vs out rule: endorsed_labels.induct) (auto simp: Let_def text_in_def Suc_le_eq)

definition shown_publisher :: "'u page_url_api \<Rightarrow> publisher_entry \<Rightarrow> bool" where
  "shown_publisher api p =
     (http_url api (pe_url p) \<noteq> None \<and> pred_option (text_in 1 80) (pe_name p)
      \<and> pred_option (\<lambda>e. length e \<in> {1..8} \<and> list_all (text_in 1 80) e) (pe_endorsedBy p)
      \<and> pred_option (\<lambda>t. \<exists>v u. http_url api v = Some u \<and> t = url_toString api u) (pe_endorsementUrl p))"

lemma normal_publisher_shown:
  assumes "http_url api (str_of (fld p ''url'')) \<noteq> None"
  shows "shown_publisher api (normal_publisher api p)"
proof -
  have "pred_option (\<lambda>e. length e \<in> {1..8} \<and> list_all (text_in 1 80) e) (normalizeEndorsedBy v)" for v
    using endorsed_labels_bounds [of "[]" "arr_of v"]
    by (cases "endorsed_labels (arr_of v) []") (auto simp: normalizeEndorsedBy_def Let_def)
  moreover have "pred_option (\<lambda>t. \<exists>v u. http_url api v = Some u \<and> t = url_toString api u) (normalizeEndorsementUrl api v)" for v
    by (cases "http_url api (str_of v)") (auto simp: normalizeEndorsementUrl_def)
  moreover have "pred_option (text_in 1 80) (case v of Str n \<Rightarrow> if 0 < length n \<and> length n \<le> 80 then Some n else None | _ \<Rightarrow> None)" for v
    by (cases v) (auto simp: text_in_def Suc_le_eq)
  moreover have "pred_option P (case x of Some (c # cs) \<Rightarrow> Some (c # cs) | _ \<Rightarrow> None)" if "pred_option P x"
    for P and x :: "jsstring option" using that by (cases x) (auto split: list.split)
  ultimately show ?thesis
    using assms unfolding shown_publisher_def normal_publisher_def by simp
qed

lemma normal_publishers_shown:
  "list_all (shown_publisher api) (normal_publishers api seen ps) \<and> distinct (map pe_url (normal_publishers api seen ps))
     \<and> pe_url ` set (normal_publishers api seen ps) \<inter> set seen = {}"
  by (induction api seen ps rule: normal_publishers.induct)
    (auto simp: Let_def normal_publisher_shown, auto simp: normal_publisher_def)

subsection \<open>Documents the validators accept\<close>

declare guards.simps [simp del]

definition publisher_head :: "publisher_entry \<Rightarrow> jsstring \<times> jsstring option \<times> bool option" where
  "publisher_head p = (pe_url p, pe_name p, pe_featured p)"

lemma any_object_Inr: "any_object m v = Inr fs \<longleftrightarrow> is_objecty v \<and> fs = own_fields v"
  by (auto simp: any_object_def)

lemma validated_publisher:
  assumes "validate_publisher (url_api.truncate api) seen raw = Inr p"
  shows "is_objecty raw \<and> is_str (fld (own_fields raw) ''url'') \<and> str_of (fld (own_fields raw) ''url'') = pe_url p
    \<and> pe_url p \<notin> set seen \<and> http_url api (pe_url p) \<noteq> None
    \<and> publisher_head (normal_publisher api (own_fields raw)) = publisher_head p"
proof -
  let ?fs = "own_fields raw"
  from assms have o: "is_objecty raw" and u: "publisher_url (url_api.truncate api) (fld ?fs ''url'') = Inr ()"
    and seen: "str_of (fld ?fs ''url'') \<notin> set seen"
    and n: "fld ?fs ''name'' \<noteq> Undef \<longrightarrow> \<not> not_sized 1 80 (fld ?fs ''name'')"
    and p: "pe_url p = str_of (fld ?fs ''url'')" "pe_name p = opt_str (fld ?fs ''name'')"
      "pe_featured p = (case fld ?fs ''featured'' of Bool b \<Rightarrow> Some b | _ \<Rightarrow> None)"
    unfolding validate_publisher_def then_ok_Inr guards_Inr any_object_Inr by (fastforce simp: conj_ac)+
  from n have "(case fld ?fs ''name'' of Str n \<Rightarrow> if 0 < length n \<and> length n \<le> 80 then Some n else None | _ \<Rightarrow> None)
      = opt_str (fld ?fs ''name'')"
    by (cases "fld ?fs ''name''") (auto simp: not_sized_def opt_str_def Suc_le_eq)
  moreover from u have "is_str (fld ?fs ''url'')" "http_url api (pe_url p) \<noteq> None"
    by (auto simp: publisher_url_Inr http_url_def url_api.defs p(1))
  ultimately show ?thesis
    using o seen p by (simp add: publisher_head_def normal_publisher_def)
qed

lemma validated_publishers:
  "map_seen (validate_publisher (url_api.truncate api)) pe_url seen xs = Inr ps \<Longrightarrow>
     list_all (\<lambda>p. is_objecty p \<and> is_str (fld (own_fields p) ''url'')) xs
     \<and> map publisher_head (normal_publishers api seen xs) = map publisher_head ps"
proof (induction xs arbitrary: seen ps)
  case (Cons x xs)
  then obtain p qs where p: "validate_publisher (url_api.truncate api) seen x = Inr p"
    and q: "map_seen (validate_publisher (url_api.truncate api)) pe_url (pe_url p # seen) xs = Inr qs" "ps = p # qs"
    by (auto simp: then_ok_Inr)
  from Cons.IH [OF q(1)] validated_publisher [OF p] q(2) show ?case by (auto simp: Let_def)
qed simp

lemma validated_meta:
  assumes "validateMetaIndex (url_api.truncate api) v = Inr ps"
  shows "isMetaIndex v \<and> map publisher_head (normalizeMetaIndex api (own_fields v))
      = map publisher_head (filter featured ps @ filter (\<lambda>p. \<not> featured p) ps)"
proof -
  let ?xs = "arr_of (fld (own_fields v) ''publishers'')"
  from assms have top: "is_objecty v" "fld (own_fields v) ''v'' = jint 1" "fld (own_fields v) ''kind'' = Str (js ''senn-publisher-meta'')"
      "is_arr (fld (own_fields v) ''publishers'')" "?xs \<noteq> []"
    and ps: "map_seen (validate_publisher (url_api.truncate api)) pe_url [] ?xs = Inr ps"
    by (auto simp: validateMetaIndex_def then_ok_Inr any_object_Inr)
  note ind = validated_publishers [OF ps]
  have part: "map publisher_head (filter (\<lambda>p. Q (pe_featured p)) xs) = map publisher_head (filter (\<lambda>p. Q (pe_featured p)) ys)"
    if "map publisher_head xs = map publisher_head ys" for Q xs ys
    using that
  proof (induction xs arbitrary: ys)
    case (Cons x xs)
    then show ?case by (cases ys) (auto simp: publisher_head_def)
  qed simp
  note p = part [OF conjunct2 [OF ind], of "\<lambda>f. f = Some True"] part [OF conjunct2 [OF ind], of "\<lambda>f. f \<noteq> Some True"]
  have "isMetaIndex v" using top conjunct1 [OF ind] by (simp add: isMetaIndex_def Let_def)
  with p show ?thesis by (simp add: normalizeMetaIndex_groups)
qed

lemma validated_registry:
  assumes "validateRegistry api dates v = Inr r"
  shows "isRegistry v" "trusted_keys (own_fields v) = rg_trustedKeys r"
    "throwing_map (validate_addon (rg_v r) api dates) (arr_of (fld (own_fields v) ''addons'')) = Inr (rg_addons r)"
proof -
  let ?f = "own_fields v"
  from assms obtain n pub addons where top: "is_objecty v" "registry_version (fld ?f ''v'') = Some n"
      "any_object ''registry: publisher must be an object'' (fld ?f ''publisher'') = Inr pub" "is_str (fld pub ''name'')"
      "isStringArray (fld ?f ''trustedKeys'')" "is_arr (fld ?f ''addons'')"
    and a: "throwing_map (validate_addon n api dates) (arr_of (fld ?f ''addons'')) = Inr addons"
    and r: "rg_v r = n" "rg_trustedKeys r = map str_of (arr_of (fld ?f ''trustedKeys''))" "rg_addons r = addons"
    by (auto simp: validateRegistry_def then_ok_Inr any_object_Inr split: if_splits)
  have "is_objecty x \<and> list_all (\<lambda>k. is_str (fld (own_fields x) k)) [''id'', ''name'', ''version'', ''description'', ''path'']
      \<and> isStringArray (fld (own_fields x) ''capabilities'')" if "x \<in> set (arr_of (fld ?f ''addons''))" for x
  proof -
    from a that obtain y where "validate_addon n api dates x = Inr y" by (auto simp: throwing_map_Inr list_all2_conv_all_nth in_set_conv_nth)
    then show ?thesis by (auto simp: validate_addon_Inr any_object_Inr strings_val_def)
  qed
  with top show "isRegistry v"
    by (auto simp: isRegistry_def Let_def list_all_iff registry_version_Some any_object_Inr)
  show "trusted_keys ?f = rg_trustedKeys r" "throwing_map (validate_addon (rg_v r) api dates) (arr_of (fld ?f ''addons'')) = Inr (rg_addons r)"
    using a r by (auto simp: trusted_keys_def)
qed

declare guards.simps [simp]

subsection \<open>What the filters make of the rows\<close>

definition plain_row :: "addon_row \<Rightarrow> bool" where
  "plain_row row = (\<forall>k\<in>{''categories'', ''tags''}. fld (rw_addon row) k = Undef \<or> isStringArray (fld (rw_addon row) k))"

lemma addon_list_arrays:
  "addon_categories n v = Inr cs \<Longrightarrow> isStringArray v" "addon_tags n v = Inr ts \<Longrightarrow> isStringArray v"
  by (auto simp: addon_categories_def addon_tags_def then_ok_Inr simp del: guards.simps)

lemma when_defined_plain: "when_defined v k = Inr x \<Longrightarrow> (\<And>y. k v = Inr y \<Longrightarrow> isStringArray v) \<Longrightarrow> v = Undef \<or> isStringArray v"
  by (cases x) (auto simp: when_defined_None when_defined_Some)

lemma validated_addon_plain:
  assumes "validate_addon n api dates raw = Inr a" "rw_addon row = own_fields raw"
  shows "plain_row row"
proof -
  from assms(1) have "when_defined (fld (own_fields raw) ''categories'') (addon_categories n) = Inr (ra_categories a)"
    "when_defined (fld (own_fields raw) ''tags'') (addon_tags n) = Inr (ra_tags a)"
    by (auto simp: validate_addon_Inr any_object_Inr)
  then have "fld (own_fields raw) ''categories'' = Undef \<or> isStringArray (fld (own_fields raw) ''categories'')"
    "fld (own_fields raw) ''tags'' = Undef \<or> isStringArray (fld (own_fields raw) ''tags'')"
    using when_defined_plain addon_list_arrays by blast+
  then show ?thesis by (simp add: plain_row_def assms(2))
qed

lemma plain_values:
  assumes "plain_row row" "k \<in> {''categories'', ''tags''}"
  obtains xs where "or_empty (fld (rw_addon row) k) = Arr (map Str xs)"
proof -
  from assms have "fld (rw_addon row) k = Undef \<or> isStringArray (fld (rw_addon row) k)" unfolding plain_row_def by blast
  then show thesis
  proof
    assume "isStringArray (fld (rw_addon row) k)"
    with that [of "map str_of (arr_of (fld (rw_addon row) k))"] show thesis
      using isStringArray_iff [of "fld (rw_addon row) k"] by (metis jsval.distinct or_empty_def)
  qed (use that [of "[]"] in \<open>simp add: or_empty_def\<close>)
qed

lemma js_set_adds_strs: "\<exists>vs. foldl js_set_add (map Str acc) (map Str xs) = map Str vs"
proof (induction xs arbitrary: acc)
  case (Cons x xs)
  have "\<exists>vs. js_set_add (map Str acc) (Str x) = map Str vs"
  proof (cases "list_ex (same_value (Str x)) (map Str acc)")
    case False
    then have "js_set_add (map Str acc) (Str x) = map Str (acc @ [x])" by (simp add: js_set_add_def)
    then show ?thesis by blast
  qed (auto simp: js_set_add_def)
  with Cons.IH show ?case by fastforce
qed auto

lemma category_set_plain: "list_all plain_row rows \<Longrightarrow> \<exists>vs. category_set rows (map Str acc) = Inr (map Str vs)"
proof (induction rows arbitrary: acc)
  case (Cons row rows)
  then obtain xs where "or_empty (fld (rw_addon row) ''categories'') = Arr (map Str xs)"
    using plain_values [of row "''categories''"] by auto
  moreover obtain vs where "foldl js_set_add (map Str acc) (map Str xs) = map Str vs" using js_set_adds_strs by blast
  ultimately show ?case using Cons by (simp add: iterated_def)
qed auto

lemma plain_rows_filters:
  assumes "list_all plain_row rows"
  shows "is_ok (unionCategories rows)"
proof -
  from category_set_plain [OF assms, of "[]"] obtain vs where "category_set rows [] = Inr (map Str vs)" by auto
  moreover have "\<not> list_ex unprintable (map Str vs)" by (simp add: list_ex_iff)
  ultimately show ?thesis by (simp add: unionCategories_def)
qed

lemma plain_row_visible:
  assumes "plain_row row"
  shows "is_ok (visible_row lower f row)"
proof -
  obtain cs where "or_empty (fld (rw_addon row) ''categories'') = Arr (map Str cs)" using plain_values assms by blast
  moreover obtain ts where "or_empty (fld (rw_addon row) ''tags'') = Arr (map Str ts)" using plain_values assms by blast
  moreover have "\<not> list_ex unprintable (map Str ts)" by (simp add: list_ex_iff)
  ultimately show ?thesis by (simp add: visible_row_def Let_def value_includes_def value_join_def)
qed

lemma visible_rows_ok:
  "list_all (\<lambda>row. is_ok (visible_row lower f row)) rows \<Longrightarrow> is_ok (visible_rows lower f rows)"
  by (induction rows) (auto simp: is_ok_ex)

text \<open>Rows of a registry, and a listing that is no list of categories.\<close>

lemma validated_rows_plain:
  assumes v: "validateRegistry api' dates v = Inr r" and l: "load_registry api c dates' env opts url v = Inr (reg, rows)"
  shows "list_all plain_row rows \<and> map (\<lambda>row. fld (rw_addon row) ''id'') rows = map (Str \<circ> ra_id) (rg_addons r)"
proof -
  let ?xs = "arr_of (fld (own_fields v) ''addons'')"
  from l have reg: "reg = own_fields v" and rows: "list_all2 (\<lambda>x row. load_row api c dates' env opts url reg x = Inr row) ?xs rows"
    by (auto simp: load_registry_def Let_def then_ok_Inr throwing_map_Inr split: if_splits)
  have addons: "list_all2 (\<lambda>x a. validate_addon (rg_v r) api' dates x = Inr a) ?xs (rg_addons r)"
    using validated_registry(3) [OF v] by (simp add: throwing_map_Inr)
  have "plain_row row \<and> fld (rw_addon row) ''id'' = Str (ra_id a)"
    if "load_row api c dates' env opts url reg x = Inr row" "validate_addon (rg_v r) api' dates x = Inr a" for x row a
    using that load_row_cases [OF that(1)] validated_addon_plain [OF that(2)] by (auto simp: validate_addon_Inr any_object_Inr)
  with rows addons show ?thesis
    by (auto simp: list_all2_conv_all_nth list_all_length intro!: nth_equalityI)
qed

text \<open>A row comes of every listing whose files have addresses, whatever the requests and the signature come to.\<close>

lemma load_row_made:
  "(\<exists>row. load_row api c dates env opts url reg raw = Inr row) \<longleftrightarrow>
    is_ok (then_ok (manifestUrlFor api url (str_of (fld (own_fields raw) ''path''))) (sigUrlFor api))"
  by (auto simp: load_row_def is_ok_ex then_ok_Inr Let_def)

lemma validated_registry_loads:
  assumes v: "validateRegistry api' dates v = Inr r"
    and urls: "\<forall>a\<in>set (rg_addons r). is_ok (then_ok (manifestUrlFor api url (ra_path a)) (sigUrlFor api))"
  obtains rows where "load_registry api c dates' env opts url v = Inr (own_fields v, rows)"
proof -
  let ?xs = "arr_of (fld (own_fields v) ''addons'')"
  have addons: "list_all2 (\<lambda>x a. validate_addon (rg_v r) api' dates x = Inr a) ?xs (rg_addons r)"
    using validated_registry(3) [OF v] by (simp add: throwing_map_Inr)
  have "\<exists>row. load_row api c dates' env opts url (own_fields v) x = Inr row" if "x \<in> set ?xs" for x
  proof -
    from that obtain i where i: "i < length ?xs" "x = ?xs ! i" by (auto simp: in_set_conv_nth)
    let ?a = "rg_addons r ! i"
    have a: "?a \<in> set (rg_addons r)" "validate_addon (rg_v r) api' dates x = Inr ?a"
      using i addons by (simp_all add: list_all2_conv_all_nth)
    from a(2) have "ra_path ?a = str_of (fld (own_fields x) ''path'')" by (auto simp: validate_addon_Inr any_object_Inr)
    with bspec [OF urls a(1)] show ?thesis by (simp add: load_row_made)
  qed
  then obtain rows where "throwing_map (load_row api c dates' env opts url (own_fields v)) ?xs = Inr rows"
    using throwing_map_total by metis
  with validated_registry(1) [OF v] that show thesis by (simp add: load_registry_def)
qed

lemma category_error: "category_set rows acc = Inl e \<Longrightarrow> e = Thrown ''TypeError'' ''''"
  by (induction rows arbitrary: acc) (auto simp: then_ok_Inl iterated_def split: jsval.splits)

lemma bad_categories:
  assumes "row \<in> set rows" "fld (rw_addon row) ''categories'' = Num n"
  shows "unionCategories rows = Inl (Thrown ''TypeError'' '''')"
proof -
  have "\<exists>e. category_set rows acc = Inl e" for acc
    using assms(1)
  proof (induction rows arbitrary: acc)
    case (Cons x rows)
    show ?case
    proof (cases "iterated (or_empty (fld (rw_addon x) ''categories''))")
      case (Inr cs)
      with assms(2) Cons.prems have "row \<in> set rows" by (auto simp: iterated_def or_empty_def)
      with Cons.IH Inr show ?thesis by simp
    qed simp
  qed simp
  then obtain e where e: "category_set rows [] = Inl e" by blast
  with category_error [OF e] show ?thesis by (simp add: unionCategories_def)
qed

end
