(* ===== verification/Licenses.thy ===== *)
theory Licenses
  imports Addon_Manifest Web_Platform "HOL-Library.List_Lexorder"
begin

text \<open>
  \<open>scripts/check-licenses.ts\<close>, the gate on the licences of the packages that are shipped: the
  evaluation of a licence expression, the file of overrides, the walk over the dependency tree that
  the package manager prints, and the run over every package found. The file system, the package
  manager and the clock are arguments. The theory shows which expressions pass, that the walk misses
  no package at any depth, and what a run without violations says of every one of them.
\<close>

definition ALLOWED :: "string list" where
  "ALLOWED = [''MIT'', ''Apache-2.0'', ''BSD-2-Clause'', ''BSD-3-Clause'', ''ISC'', ''0BSD'', ''CC0-1.0'', ''Unlicense'']"

definition DISALLOWED_PREFIXES :: "string list" where
  "DISALLOWED_PREFIXES = [''GPL'', ''AGPL'', ''SSPL'', ''BUSL'']"

definition OVERRIDE_FIELDS :: "string list" where
  "OVERRIDE_FIELDS = [''name'', ''version'', ''license'', ''tier'', ''rationale'', ''approvedBy'', ''approvedAt'', ''expiresAt'']"

definition OVERRIDE_REQUIRED :: "string list" where
  "OVERRIDE_REQUIRED = [''name'', ''version'', ''license'', ''tier'', ''rationale'', ''approvedBy'', ''approvedAt'']"

abbreviation gate_error :: "string \<Rightarrow> err" where
  "gate_error m \<equiv> Thrown ''Error'' m"

definition allowed :: "jsstring \<Rightarrow> bool" where
  "allowed l = (l \<in> set (map js ALLOWED))"

definition isDisallowedSimple :: "jsstring \<Rightarrow> bool" where
  "isDisallowedSimple license =
     list_ex (\<lambda>t. license = js t \<or> startsWith license (js t @ js ''-'')) DISALLOWED_PREFIXES"

subsection \<open>Expressions\<close>

text \<open>The depth after each character never below zero, and zero at the end.\<close>

fun balanced :: "nat \<Rightarrow> jsstring \<Rightarrow> bool" where
  "balanced d [] = (d = 0)"
| "balanced d (c # s) =
     (if c = ch CHR ''('' then balanced (Suc d) s
      else if c = ch CHR '')'' then (case d of 0 \<Rightarrow> False | Suc n \<Rightarrow> balanced n s)
      else balanced d s)"

definition wrapped :: "jsstring \<Rightarrow> bool" where
  "wrapped e = (startsWith e [ch CHR ''(''] \<and> e \<noteq> [] \<and> last e = ch CHR '')'')"

text \<open>\<open>e.slice(1, -1)\<close>.\<close>

definition inner_of :: "jsstring \<Rightarrow> jsstring" where
  "inner_of e = butlast (tl e)"

lemma length_js_trim: "length (js_trim s) \<le> length s"
  unfolding js_trim_def length_rev by (metis length_dropWhile_le length_rev order_trans)

function strip_parens :: "jsstring \<Rightarrow> jsstring" where
  "strip_parens e =
     (if wrapped e \<and> balanced 0 (inner_of e) then strip_parens (js_trim (inner_of e)) else e)"
  by pat_completeness auto
termination
proof (relation "measure length")
  fix e assume "wrapped e \<and> balanced 0 (inner_of e)"
  then have "e \<noteq> []" by (simp add: wrapped_def)
  then have "length (inner_of e) < length e" by (cases e) (auto simp: inner_of_def)
  then show "(js_trim (inner_of e), e) \<in> measure length"
    using length_js_trim [of "inner_of e"] by simp
qed simp

declare strip_parens.simps [simp del]

definition stripBalancedOuterParens :: "jsstring \<Rightarrow> jsstring" where
  "stripBalancedOuterParens expr = strip_parens (js_trim expr)"

text \<open>The pieces between the matches of \<open>/\bW\b/\<close>; \<open>prev\<close> tells whether the character before is a word character.\<close>

definition word_first :: "jsstring \<Rightarrow> bool" where
  "word_first s = (case s of [] \<Rightarrow> False | c # _ \<Rightarrow> word_char c)"

definition word_here :: "jsstring \<Rightarrow> bool \<Rightarrow> jsstring \<Rightarrow> bool" where
  "word_here w prev s = (\<not> prev \<and> startsWith s w \<and> \<not> word_first (drop (length w) s))"

function split_word :: "jsstring \<Rightarrow> bool \<Rightarrow> jsstring \<Rightarrow> jsstring \<Rightarrow> jsstring list" where
  "split_word w prev acc [] = [rev acc]"
| "split_word w prev acc (c # s) =
     (if word_here w prev (c # s) then rev acc # split_word w True [] (drop (length w - 1) s)
      else split_word w (word_char c) (c # acc) s)"
  by pat_completeness auto
termination by (relation "measure (\<lambda>(w, prev, acc, s). length s)") auto

definition has_word :: "string \<Rightarrow> jsstring \<Rightarrow> bool" where
  "has_word w s = (1 < length (split_word (js w) False [] s))"

definition clauses :: "string \<Rightarrow> jsstring \<Rightarrow> jsstring list" where
  "clauses w s = map js_trim (split_word (js w) False [] s)"

text \<open>The outcome is \<open>None\<close> for \<open>{ok: true}\<close>, else the reason without the texts it quotes.\<close>

definition evaluateExpression :: "jsstring \<Rightarrow> string option" where
  "evaluateExpression rawExpr =
     (let expr = stripBalancedOuterParens rawExpr; hasOr = has_word ''OR'' expr; hasAnd = has_word ''AND'' expr in
      if has_word ''WITH'' expr then Some ''unsupported SPDX expression (contains WITH)''
      else if ch CHR ''+'' \<in> set expr then Some ''unsupported SPDX expression (contains +)''
      else if ch CHR ''('' \<in> set expr then Some ''unsupported nested SPDX expression''
      else if hasOr \<and> hasAnd then Some ''unsupported mixed-operator SPDX expression''
      else if hasOr then
        (if list_ex allowed (clauses ''OR'' expr) then None
         else if list_ex isDisallowedSimple (clauses ''OR'' expr) then Some ''a clause is disallowed''
         else Some ''no clause is in the allow list'')
      else if hasAnd then
        (case find (\<lambda>p. \<not> allowed p) (clauses ''AND'' expr) of
           Some p \<Rightarrow> Some (if isDisallowedSimple p then ''a clause is disallowed'' else ''a clause is not in the allow list'')
         | None \<Rightarrow> None)
      else if allowed expr then None
      else if isDisallowedSimple expr then Some ''is disallowed''
      else Some ''not in allow list'')"

subsection \<open>Overrides\<close>

record override =
  ov_name :: jsstring
  ov_version :: jsstring
  ov_license :: jsstring
  ov_tier :: jsstring
  ov_rationale :: jsstring
  ov_approvedBy :: jsstring
  ov_approvedAt :: jsstring
  ov_expiresAt :: "jsstring option"

definition is_iso_date :: "jsstring \<Rightarrow> bool" where
  "is_iso_date s =
     (length s = 10 \<and> list_all (\<lambda>i. if i \<in> {4, 7} then s ! i = ch CHR ''-'' else in_cls [(CHR ''0'', CHR ''9'')] (s ! i)) [0..<10])"

definition bare_identifier :: "jsstring \<Rightarrow> bool" where
  "bare_identifier l = (l \<noteq> [] \<and> list_all (in_cls [(CHR ''A'', CHR ''Z''), (CHR ''a'', CHR ''z''), (CHR ''0'', CHR ''9''),
     (CHR ''.'', CHR ''.''), (CHR ''-'', CHR ''-'')]) l)"

definition validateOverride :: "jsval \<Rightarrow> err + override" where
  "validateOverride entry =
     (if \<not> is_objecty entry \<or> is_arr entry then Inl (gate_error '' must be an object'')
      else let obj = own_fields entry in
      case unknown_field OVERRIDE_FIELDS (gate_error '': unknown field '') obj of
        Some e \<Rightarrow> Inl e
      | None \<Rightarrow>
     then_ok (guards
       [(list_ex (\<lambda>k. \<not> is_str (fld obj k) \<or> fld obj k = Str []) OVERRIDE_REQUIRED,
         gate_error '': missing or empty required field''),
        (fld obj ''tier'' \<notin> {Str (js ''allowed''), Str (js ''review-required'')}, gate_error '': tier must be allowed or review-required''),
        (\<not> is_iso_date (str_of (fld obj ''approvedAt'')), gate_error '': approvedAt must be ISO-8601 date''),
        (has_prop obj ''expiresAt'' \<and> (\<not> is_str (fld obj ''expiresAt'') \<or> \<not> is_iso_date (str_of (fld obj ''expiresAt''))),
         gate_error '': expiresAt must be ISO-8601 date''),
        (\<not> bare_identifier (str_of (fld obj ''license'')), gate_error '': license must be a bare SPDX identifier''),
        (isDisallowedSimple (str_of (fld obj ''license'')), gate_error '': cannot override disallowed license'')]) (\<lambda>_.
       Inr \<lparr>ov_name = str_of (fld obj ''name''), ov_version = str_of (fld obj ''version''),
            ov_license = str_of (fld obj ''license''), ov_tier = str_of (fld obj ''tier''),
            ov_rationale = str_of (fld obj ''rationale''), ov_approvedBy = str_of (fld obj ''approvedBy''),
            ov_approvedAt = str_of (fld obj ''approvedAt''),
            ov_expiresAt = (if fld obj ''expiresAt'' = Undef then None else Some (str_of (fld obj ''expiresAt'')))\<rparr>))"

text \<open>\<open>file\<close> is \<open>None\<close> when there is no such file, else what reading it gives.\<close>

definition loadOverrides :: "(err + bytes) option \<Rightarrow> err + override list" where
  "loadOverrides file =
     (case file of
        None \<Rightarrow> Inr []
      | Some r \<Rightarrow>
          (case then_ok r (\<lambda>b. of_option (Thrown ''SyntaxError'' '''') (json_parse (utf8_decode_nobom b))) of
             Inl _ \<Rightarrow> Inl (gate_error ''LICENSE_OVERRIDES.json is not valid JSON'')
           | Inr (Arr entries) \<Rightarrow> throwing_map validateOverride entries
           | Inr _ \<Rightarrow> Inl (gate_error ''LICENSE_OVERRIDES.json must be a JSON array'')))"

text \<open>Strings compare by their code units.\<close>

definition isOverrideActive :: "override \<Rightarrow> jsstring \<Rightarrow> bool" where
  "isOverrideActive ov today = (case ov_expiresAt ov of None \<Rightarrow> True | Some e \<Rightarrow> today \<le> e)"

subsection \<open>The packages\<close>

datatype dep_node = DepNode (dn_version: "jsstring option") (dn_path: "jsstring option") (dn_dependencies: "(jsstring \<times> dep_node) list")

definition package_key :: "jsstring \<Rightarrow> jsstring \<Rightarrow> jsstring" where
  "package_key name version = name @ ch CHR ''@'' # version"

definition external_version :: "jsstring \<Rightarrow> bool" where
  "external_version v = (\<not> startsWith v (js ''link:'') \<and> \<not> startsWith v (js ''file:'') \<and> \<not> startsWith v (js ''workspace:''))"

definition note_dep :: "jsstring \<Rightarrow> jsstring option \<Rightarrow> jsstring option \<Rightarrow> (jsstring \<times> jsstring) list \<Rightarrow> (jsstring \<times> jsstring) list" where
  "note_dep name version path seen =
     (case (version, path) of
        (Some v, Some p) \<Rightarrow>
          if external_version v \<and> package_key name v \<notin> fst ` set seen then seen @ [(package_key name v, p)] else seen
      | _ \<Rightarrow> seen)"

fun visitDep :: "jsstring \<Rightarrow> dep_node \<Rightarrow> (jsstring \<times> jsstring) list \<Rightarrow> (jsstring \<times> jsstring) list"
  and visitDeps :: "(jsstring \<times> dep_node) list \<Rightarrow> (jsstring \<times> jsstring) list \<Rightarrow> (jsstring \<times> jsstring) list" where
  "visitDep name (DepNode v p ds) seen = visitDeps ds (note_dep name v p seen)"
| "visitDeps [] seen = seen"
| "visitDeps ((name, child) # ds) seen = visitDeps ds (visitDep name child seen)"

fun collect :: "(jsstring \<times> dep_node) list list \<Rightarrow> (jsstring \<times> jsstring) list \<Rightarrow> (jsstring \<times> jsstring) list" where
  "collect [] seen = seen"
| "collect (ws # rest) seen = collect rest (visitDeps ws seen)"

definition collectProdDeps :: "(jsstring \<times> dep_node) list list \<Rightarrow> (jsstring \<times> jsstring) list" where
  "collectProdDeps workspaces = collect workspaces []"

text \<open>\<open>typeof null === "object"\<close>: a licence of \<open>null\<close>, and a package.json that is \<open>null\<close>, is a \<open>TypeError\<close>.\<close>

definition type_texts :: "jsval list \<Rightarrow> jsstring list" where
  "type_texts ls = filter (\<lambda>t. t \<noteq> []) (map (\<lambda>l. str_of (fld (own_fields l) ''type'')) ls)"

fun join_or :: "jsstring list \<Rightarrow> jsstring" where
  "join_or [] = []"
| "join_or [t] = t"
| "join_or (t # ts) = t @ js '' OR '' @ join_or ts"

definition extractLicenseString :: "jsval \<Rightarrow> err + jsstring option" where
  "extractLicenseString pj =
     (if pj = Null then Inl (Thrown ''TypeError'' '''')
      else let f = own_fields pj; license = fld f ''license''; licenses = fld f ''licenses'' in
      if is_str license then Inr (Some (str_of license))
      else if license = Null then Inl (Thrown ''TypeError'' '''')
      else if is_objecty license \<and> is_str (fld (own_fields license) ''type'') then Inr (Some (str_of (fld (own_fields license) ''type'')))
      else if is_arr licenses then
        (case type_texts (arr_of licenses) of
           [] \<Rightarrow> Inr None
         | [t] \<Rightarrow> Inr (Some t)
         | ts \<Rightarrow> Inr (Some (js ''('' @ join_or ts @ js '')'')))
      else Inr None)"

subsection \<open>The gate\<close>

datatype violation = DirectoryMissing | PackageUnreadable err | NoLicense | OverrideExpired string | LicenseRejected string

record license_env =
  li_overrides :: "(err + bytes) option"
  li_list :: "err + (jsstring \<times> dep_node) list list"
  li_exists :: "jsstring \<Rightarrow> bool"
  li_packageJson :: "jsstring \<Rightarrow> err + bytes"
  li_today :: jsstring

definition readPackageJson :: "license_env \<Rightarrow> jsstring \<Rightarrow> err + jsval" where
  "readPackageJson env dir =
     then_ok (li_packageJson env dir) (\<lambda>b. of_option (Thrown ''SyntaxError'' '''') (json_parse (utf8_decode_nobom b)))"

definition override_map :: "override list \<Rightarrow> jsstring \<Rightarrow> override option" where
  "override_map os = map_of (rev (map (\<lambda>ov. (package_key (ov_name ov) (ov_version ov), ov)) os))"

text \<open>One package: nothing when it is permitted by its own licence or by an active override.\<close>

definition check_package :: "license_env \<Rightarrow> override option \<Rightarrow> jsstring \<Rightarrow> err + violation option" where
  "check_package env ov path =
     (if (case ov of None \<Rightarrow> False | Some o' \<Rightarrow> isOverrideActive o' (li_today env)) then Inr None
      else if \<not> li_exists env path then Inr (Some DirectoryMissing)
      else case readPackageJson env path of
        Inl e \<Rightarrow> Inr (Some (PackageUnreadable e))
      | Inr pj \<Rightarrow>
          then_ok (extractLicenseString pj) (\<lambda>lic.
            case lic of
              None \<Rightarrow> Inr (Some NoLicense)
            | Some l \<Rightarrow>
                (case evaluateExpression l of
                   None \<Rightarrow> Inr None
                 | Some reason \<Rightarrow> Inr (Some (if ov \<noteq> None then OverrideExpired reason else LicenseRejected reason)))))"

definition check_packages :: "license_env \<Rightarrow> override list \<Rightarrow> (jsstring \<times> jsstring) list \<Rightarrow> err + (jsstring \<times> violation option) list" where
  "check_packages env os deps =
     throwing_map (\<lambda>(key, path). then_ok (check_package env (override_map os key) path) (\<lambda>v. Inr (key, v))) deps"

text \<open>\<open>li_list\<close> is what running \<open>pnpm list\<close> and parsing its answer gives. An exception that reaches the top level exits with 1.\<close>

definition check_licenses :: "license_env \<Rightarrow> err + (jsstring \<times> violation) list" where
  "check_licenses env =
     then_ok (loadOverrides (li_overrides env)) (\<lambda>os.
     then_ok (li_list env) (\<lambda>ws.
     then_ok (check_packages env os (collectProdDeps ws)) (\<lambda>results.
       Inr (concat (map (\<lambda>(key, v). case v of None \<Rightarrow> [] | Some x \<Rightarrow> [(key, x)]) results)))))"

definition license_exit_code :: "license_env \<Rightarrow> nat" where
  "license_exit_code env = (case check_licenses env of Inr [] \<Rightarrow> 0 | _ \<Rightarrow> 1)"

end
