(* ===== verification/Licenses_Props.thy ===== *)
theory Licenses_Props
  imports Licenses
begin

text \<open>
  Correctness of the licence gate: the walk finds every external package at any depth of the tree;
  the evaluator agrees with the meaning of the expressions it supports; a run that exits with 0 has
  permitted every package; and an override counts whatever the package itself declares.
\<close>

subsection \<open>The walk\<close>

inductive in_tree :: "(jsstring \<times> dep_node) list \<Rightarrow> jsstring \<Rightarrow> dep_node \<Rightarrow> bool" for ds where
  in_here: "(n, d) \<in> set ds \<Longrightarrow> in_tree ds n d"
| in_deeper: "in_tree ds n (DepNode v p cs) \<Longrightarrow> (m, c) \<in> set cs \<Longrightarrow> in_tree ds m c"

lemma in_tree_mono: "in_tree ds n d \<Longrightarrow> set ds \<subseteq> set es \<Longrightarrow> in_tree es n d"
  by (induction rule: in_tree.induct) (auto intro: in_tree.intros)

lemma in_tree_Nil [simp]: "\<not> in_tree [] n d"
proof
  assume "in_tree [] n d"
  then show False by induction auto
qed

lemma in_tree_child: "in_tree cs n d \<Longrightarrow> in_tree [(m, DepNode v p cs)] n d"
  by (induction rule: in_tree.induct) (auto intro: in_tree.intros in_deeper [OF in_here, of m v p cs])

lemma in_tree_Cons: "in_tree ((m, c) # ds) n d \<longleftrightarrow> in_tree [(m, c)] n d \<or> in_tree ds n d"
proof
  show "in_tree ((m, c) # ds) n d \<Longrightarrow> in_tree [(m, c)] n d \<or> in_tree ds n d"
    by (induction rule: in_tree.induct) (auto intro: in_tree.intros)
qed (auto intro: in_tree_mono)

lemma in_tree_single: "in_tree [(m, DepNode v p cs)] n d \<longleftrightarrow> n = m \<and> d = DepNode v p cs \<or> in_tree cs n d"
proof
  show "in_tree [(m, DepNode v p cs)] n d \<Longrightarrow> n = m \<and> d = DepNode v p cs \<or> in_tree cs n d"
    by (induction rule: in_tree.induct) (auto intro: in_tree.intros)
qed (auto intro: in_tree_child in_here)

definition tree_keys :: "(jsstring \<times> dep_node) list \<Rightarrow> jsstring set" where
  "tree_keys ds = {package_key n v |n v p cs. in_tree ds n (DepNode (Some v) (Some p) cs) \<and> external_version v}"

lemma tree_keys_Cons: "tree_keys ((m, c) # ds) = tree_keys [(m, c)] \<union> tree_keys ds"
  unfolding tree_keys_def in_tree_Cons [of m c ds] by blast

lemma note_dep_keys:
  "fst ` set (note_dep n v p seen) = fst ` set seen \<union>
     (case (v, p) of (Some x, Some _) \<Rightarrow> if external_version x then {package_key n x} else {} | _ \<Rightarrow> {})"
  by (auto simp: note_dep_def split: option.splits)

lemma tree_keys_single:
  "tree_keys [(m, DepNode v p cs)] = (case (v, p) of (Some x, Some _) \<Rightarrow> if external_version x then {package_key m x} else {} | _ \<Rightarrow> {})
     \<union> tree_keys cs"
  unfolding tree_keys_def in_tree_single by (auto split: option.splits)

lemma visit_keys:
  "fst ` set (visitDep name d seen) = fst ` set seen \<union> tree_keys [(name, d)]"
  "fst ` set (visitDeps ds seen) = fst ` set seen \<union> tree_keys ds"
proof (induction name d seen and ds seen rule: visitDep_visitDeps.induct)
  case (1 name v p ds seen)
  then show ?case by (auto simp: note_dep_keys tree_keys_single)
next
  case (2 seen)
  then show ?case by (simp add: tree_keys_def)
next
  case (3 name child ds seen)
  then show ?case by (auto simp: tree_keys_Cons [of name child ds])
qed

lemma note_dep_distinct: "distinct (map fst seen) \<Longrightarrow> distinct (map fst (note_dep n v p seen))"
  by (auto simp: note_dep_def split: option.splits)

lemma visit_distinct:
  "distinct (map fst seen) \<Longrightarrow> distinct (map fst (visitDep name d seen))"
  "distinct (map fst seen) \<Longrightarrow> distinct (map fst (visitDeps ds seen))"
  by (induction name d seen and ds seen rule: visitDep_visitDeps.induct) (auto simp: note_dep_distinct)

lemma collect_keys: "fst ` set (collect wss seen) = fst ` set seen \<union> (\<Union>ws\<in>set wss. tree_keys ws)"
  by (induction wss seen rule: collect.induct) (auto simp: visit_keys)

lemma collect_distinct: "distinct (map fst seen) \<Longrightarrow> distinct (map fst (collect wss seen))"
  by (induction wss seen rule: collect.induct) (auto simp: visit_distinct)

lemma collectProdDeps_keys:
  "fst ` set (collectProdDeps wss) = (\<Union>ws\<in>set wss. tree_keys ws)" "distinct (map fst (collectProdDeps wss))"
  using collect_keys [of wss "[]"] collect_distinct [of "[]" wss] by (simp_all add: collectProdDeps_def)

subsection \<open>The gate\<close>

declare guards.simps [simp del]

definition override_ok :: "override \<Rightarrow> bool" where
  "override_ok ov \<longleftrightarrow>
     bare_identifier (ov_license ov) \<and> \<not> isDisallowedSimple (ov_license ov) \<and> ov_name ov \<noteq> [] \<and> ov_version ov \<noteq> []
     \<and> ov_rationale ov \<noteq> [] \<and> ov_approvedBy ov \<noteq> [] \<and> ov_tier ov \<in> {js ''allowed'', js ''review-required''}
     \<and> is_iso_date (ov_approvedAt ov) \<and> pred_option is_iso_date (ov_expiresAt ov)"

lemma override_accepted:
  assumes "validateOverride entry = Inr ov"
  shows "override_ok ov"
proof -
  let ?f = "own_fields entry"
  from assms have req: "list_all (\<lambda>k. is_str (fld ?f k) \<and> fld ?f k \<noteq> Str []) OVERRIDE_REQUIRED"
    and t: "fld ?f ''tier'' \<in> {Str (js ''allowed''), Str (js ''review-required'')}" "is_iso_date (str_of (fld ?f ''approvedAt''))"
    and x: "has_prop ?f ''expiresAt'' \<longrightarrow> is_str (fld ?f ''expiresAt'') \<and> is_iso_date (str_of (fld ?f ''expiresAt''))"
    and l: "bare_identifier (str_of (fld ?f ''license''))" "\<not> isDisallowedSimple (str_of (fld ?f ''license''))"
    and ov: "ov = \<lparr>ov_name = str_of (fld ?f ''name''), ov_version = str_of (fld ?f ''version''),
            ov_license = str_of (fld ?f ''license''), ov_tier = str_of (fld ?f ''tier''),
            ov_rationale = str_of (fld ?f ''rationale''), ov_approvedBy = str_of (fld ?f ''approvedBy''),
            ov_approvedAt = str_of (fld ?f ''approvedAt''),
            ov_expiresAt = (if fld ?f ''expiresAt'' = Undef then None else Some (str_of (fld ?f ''expiresAt'')))\<rparr>"
    by (auto simp: validateOverride_def then_ok_Inr Let_def list_ex_iff list_all_iff split: if_splits option.splits)
  have ne: "str_of v \<noteq> []" if "is_str v \<and> v \<noteq> Str []" for v using that by (cases v) auto
  have "fld ?f ''expiresAt'' \<noteq> Undef \<longrightarrow> is_iso_date (str_of (fld ?f ''expiresAt''))"
    using x fld_not_has by blast
  then show ?thesis using req t l ne by (auto simp: override_ok_def ov OVERRIDE_REQUIRED_def)
qed

declare guards.simps [simp]

lemma loaded_overrides_ok: "loadOverrides file = Inr os \<Longrightarrow> list_all override_ok os"
  by (auto simp: loadOverrides_def list_all_iff dest: throwing_map_set override_accepted split: option.splits sum.splits jsval.splits)

lemma override_map_Some:
  "override_map os key = Some ov \<Longrightarrow> ov \<in> set os \<and> package_key (ov_name ov) (ov_version ov) = key"
  by (auto simp: override_map_def dest!: map_of_SomeD)

lemma check_package_ok:
  assumes "check_package env ov path = Inr None"
  shows "(\<exists>o'. ov = Some o' \<and> isOverrideActive o' (li_today env))
    \<or> (li_exists env path \<and> (\<exists>pj l. readPackageJson env path = Inr pj \<and> extractLicenseString pj = Inr (Some l)
        \<and> evaluateExpression l = None))"
  using assms by (auto simp: check_package_def then_ok_Inr split: option.splits if_splits sum.splits)

lemma check_licenses_clean:
  assumes "check_licenses env = Inr []"
  shows "\<exists>os wss. loadOverrides (li_overrides env) = Inr os \<and> li_list env = Inr wss
    \<and> (\<forall>key path. (key, path) \<in> set (collectProdDeps wss) \<longrightarrow> check_package env (override_map os key) path = Inr None)"
proof -
  from assms obtain os wss rs where l: "loadOverrides (li_overrides env) = Inr os" "li_list env = Inr wss"
    and rs: "check_packages env os (collectProdDeps wss) = Inr rs"
    and clean: "concat (map (\<lambda>(key, v). case v of None \<Rightarrow> [] | Some x \<Rightarrow> [(key, x)]) rs) = []"
    by (auto simp: check_licenses_def then_ok_Inr)
  have "check_package env (override_map os key) path = Inr None" if m: "(key, path) \<in> set (collectProdDeps wss)" for key path
  proof -
    from throwing_map_in [OF rs [unfolded check_packages_def] m]
    obtain y where y: "y \<in> set rs" "then_ok (check_package env (override_map os key) path) (\<lambda>v. Inr (key, v)) = Inr y"
      by auto
    then obtain v where v: "check_package env (override_map os key) path = Inr v" "y = (key, v)" by (auto simp: then_ok_Inr)
    with clean y(1) have "v = None" by (cases v) auto
    with v show ?thesis by simp
  qed
  with l show ?thesis by blast
qed

subsection \<open>What the evaluator means\<close>

abbreviation sp :: jschar where "sp \<equiv> ch CHR '' ''"

text \<open>The expressions the gate supports, and their meaning.\<close>

datatype spdx = Ident jsstring | AnyOf "jsstring list" | AllOf "jsstring list" | Parens spdx

fun spdx_join :: "jsstring \<Rightarrow> jsstring list \<Rightarrow> jsstring" where
  "spdx_join w [] = []"
| "spdx_join w [l] = l"
| "spdx_join w (l # ls) = l @ sp # w @ sp # spdx_join w ls"

fun spdx_text :: "spdx \<Rightarrow> jsstring" where
  "spdx_text (Ident l) = l"
| "spdx_text (AnyOf ls) = spdx_join (js ''OR'') ls"
| "spdx_text (AllOf ls) = spdx_join (js ''AND'') ls"
| "spdx_text (Parens e) = ch CHR ''('' # spdx_text e @ [ch CHR '')'']"

fun permitted :: "spdx \<Rightarrow> bool" where
  "permitted (Ident l) = allowed l"
| "permitted (AnyOf ls) = list_ex allowed ls"
| "permitted (AllOf ls) = list_all allowed ls"
| "permitted (Parens e) = permitted e"

definition plain_license :: "jsstring \<Rightarrow> bool" where
  "plain_license l = (bare_identifier l \<and> \<not> has_word ''OR'' l \<and> \<not> has_word ''AND'' l \<and> \<not> has_word ''WITH'' l)"

fun spdx_ok :: "spdx \<Rightarrow> bool" where
  "spdx_ok (Ident l) = plain_license l"
| "spdx_ok (AnyOf ls) = (2 \<le> length ls \<and> list_all plain_license ls)"
| "spdx_ok (AllOf ls) = (2 \<le> length ls \<and> list_all plain_license ls)"
| "spdx_ok (Parens e) = spdx_ok e"

lemma split_word_ne [simp]: "split_word w prev acc s \<noteq> []"
  by (induction w prev acc s rule: split_word.induct) auto

lemma split_word_acc:
  "split_word w prev acc s = (rev acc @ hd (split_word w prev [] s)) # tl (split_word w prev [] s)"
proof (induction s arbitrary: prev acc)
  case (Cons c s)
  show ?case
  proof (cases "word_here w prev (c # s)")
    case False
    then show ?thesis using Cons [of "word_char c" "c # acc"] Cons [of "word_char c" "[c]"] by simp
  qed simp
qed simp

lemma word_char_sp [simp]: "\<not> word_char sp"
  by (simp add: word_char_def in_cls_def)

lemma word_here_sp:
  assumes "sp \<notin> set w"
  shows "word_here w prev (s @ sp # y) \<longleftrightarrow> word_here w prev s"
proof (cases "length w \<le> length s")
  case True
  then have "word_first (drop (length w) s @ sp # y) \<longleftrightarrow> word_first (drop (length w) s)"
    by (cases "drop (length w) s") (auto simp: word_first_def)
  with True show ?thesis by (simp add: word_here_def startsWith_def)
next
  case False
  then have "sp \<in> set (take (length w) (s @ sp # y))" by (simp add: take_Cons')
  then have "take (length w) (s @ sp # y) \<noteq> w" using assms by metis
  with False show ?thesis by (auto simp: word_here_def startsWith_def)
qed

lemma split_word_sp:
  assumes "sp \<notin> set w" "w \<noteq> []"
  shows "split_word w prev acc (x @ sp # y) =
    butlast (split_word w prev acc x) @ split_word w False (sp # rev (last (split_word w prev acc x))) y"
  using assms
proof (induction w prev acc x rule: split_word.induct)
  case (1 w prev acc)
  then have "\<not> word_here w prev (sp # y)" using word_here_sp [of w prev "[]" y] by (simp add: word_here_def startsWith_def)
  then show ?case by simp
next
  case (2 w prev acc c s)
  have same: "word_here w prev (c # s @ sp # y) \<longleftrightarrow> word_here w prev (c # s)"
    using word_here_sp [OF 2(3), of prev "c # s" y] by simp
  show ?case
  proof (cases "word_here w prev (c # s)")
    case True
    then have "length (take (length w) (c # s)) = length w" unfolding word_here_def startsWith_def by (simp only:)
    then have "length w \<le> length (c # s)" by (simp only: length_take min_def split: if_splits)
    then have "drop (length w - 1) (s @ sp # y) = drop (length w - 1) s @ sp # y" by simp
    with 2 True same show ?thesis by simp
  next
    case False
    with 2 same show ?thesis by simp
  qed
qed

definition one_piece :: "jsstring \<Rightarrow> bool \<Rightarrow> jsstring \<Rightarrow> bool" where
  "one_piece w prev s = (tl (split_word w prev [] s) = [])"

lemma one_piece_acc: "tl (split_word w prev acc s) = [] \<longleftrightarrow> one_piece w prev s"
  by (subst split_word_acc) (simp add: one_piece_def)

lemma one_piece_sp:
  assumes "sp \<notin> set w" "w \<noteq> []"
  shows "one_piece w prev (x @ sp # y) \<longleftrightarrow> one_piece w prev x \<and> one_piece w False y"
proof -
  obtain ps p where ps: "split_word w prev [] x = ps @ [p]" by (metis append_butlast_last_id split_word_ne)
  obtain q qs where qs: "split_word w False (sp # rev p) y = q # qs" by (metis list.exhaust split_word_ne)
  have "one_piece w False y \<longleftrightarrow> qs = []" using one_piece_acc [of w False "sp # rev p" y] qs by simp
  moreover have "one_piece w prev x \<longleftrightarrow> ps = []" by (cases ps) (auto simp: one_piece_def ps)
  moreover have "one_piece w prev (x @ sp # y) \<longleftrightarrow> ps = [] \<and> qs = []"
    using qs by (cases ps) (auto simp: one_piece_def split_word_sp [OF assms] ps)
  ultimately show ?thesis by blast
qed

lemma one_piece_whole: "one_piece w prev s \<Longrightarrow> split_word w prev acc s = [rev acc @ s]"
proof (induction s arbitrary: prev acc)
  case (Cons c s)
  show ?case
  proof (cases "word_here w prev (c # s)")
    case False
    then have "tl (split_word w (word_char c) [c] s) = []" using Cons.prems by (simp add: one_piece_def)
    then have "one_piece w (word_char c) s" by (simp only: one_piece_acc)
    with Cons.IH [of "word_char c" "c # acc"] False show ?thesis by simp
  qed (use Cons.prems in \<open>simp add: one_piece_def\<close>)
qed simp

lemma has_word_iff: "has_word w s \<longleftrightarrow> \<not> one_piece (js w) False s"
  using split_word_ne [of "js w" False "[]" s] by (cases "split_word (js w) False [] s") (auto simp: has_word_def one_piece_def)


lemma split_word_op:
  assumes "sp \<notin> set w" "w \<noteq> []" "one_piece w False l"
  shows "split_word w False acc (l @ sp # w @ sp # rest) = (rev acc @ l @ [sp]) # split_word w False [sp] rest"
proof -
  obtain c w' where w: "w = c # w'" using assms(2) by (cases w) auto
  have "word_here w False (w @ sp # rest)" by (simp add: word_here_def startsWith_def word_first_def)
  then have here: "split_word w False a (w @ sp # rest) = rev a # split_word w True [] (sp # rest)" for a
    by (simp add: w)
  have "\<not> word_here w True (sp # rest)" by (simp add: word_here_def)
  then have "split_word w True [] (sp # rest) = split_word w False [sp] rest" by simp
  with here [of "sp # rev (rev acc @ l)"] show ?thesis
    using split_word_sp [OF assms(1,2), of False acc l "w @ sp # rest"] one_piece_whole [OF assms(3), of acc] by simp
qed

text \<open>Licences have no space, no bracket and no plus.\<close>

lemma bare_chars:
  assumes "bare_identifier l" "c \<in> set l"
  shows "\<not> js_space c \<and> c \<notin> {sp, ch CHR ''('', ch CHR '')'', ch CHR ''+''}"
proof -
  have "in_cls [(CHR ''A'', CHR ''Z''), (CHR ''a'', CHR ''z''), (CHR ''0'', CHR ''9''), (CHR ''.'', CHR ''.''), (CHR ''-'', CHR ''-'')] c"
    using assms by (simp add: bare_identifier_def list_all_iff)
  then show ?thesis by (auto simp: in_cls_def js_space_def)
qed

lemma trim_bare:
  assumes "bare_identifier l" "acc \<in> {[], [sp]}"
  shows "js_trim (acc @ l) = l" "js_trim (acc @ l @ [sp]) = l"
proof -
  have l: "dropWhile js_space l = l" "dropWhile js_space (rev l) = rev l"
    unfolding dropWhile_eq_self_iff using bare_chars [OF assms(1)] by (auto simp: hd_rev)
  have ne: "l \<noteq> []" using assms(1) by (simp add: bare_identifier_def)
  have s: "js_space sp" by (simp add: js_space_def)
  have a: "dropWhile js_space (l @ x) = l @ x" for x using l(1) ne by (metis append_is_Nil_conv dropWhile_append dropWhile_eq_self_iff hd_append2)
  show "js_trim (acc @ l) = l" "js_trim (acc @ l @ [sp]) = l"
    using assms(2) a [of "[]"] a [of "[sp]"] l(2) s by (auto simp: js_trim_def)
qed

lemma plain_pieces:
  assumes "plain_license l" "w \<in> {''OR'', ''AND'', ''WITH''}"
  shows "one_piece (js w) False l"
  using assms by (auto simp: plain_license_def has_word_iff)

lemma op_words: "sp \<notin> set (js w)" "js w \<noteq> []" if "w \<in> {''OR'', ''AND'', ''WITH''}"
  using that by (auto simp: js_Cons)

lemma clauses_join:
  assumes "w \<in> {''OR'', ''AND''}" "list_all plain_license ls" "ls \<noteq> []" "acc \<in> {[], [sp]}"
  shows "map js_trim (split_word (js w) False acc (spdx_join (js w) ls)) = ls"
  using assms(2-4)
proof (induction "js w" ls arbitrary: acc rule: spdx_join.induct)
  case (2 l)
  then have "split_word (js w) False acc l = [rev acc @ l]"
    using one_piece_whole plain_pieces assms(1) by auto
  moreover have "js_trim (rev acc @ l) = l" using 2 trim_bare(1) [of l "rev acc"] by (auto simp: plain_license_def)
  ultimately show ?case by simp
next
  case (3 l l' ls)
  have "split_word (js w) False acc (spdx_join (js w) (l # l' # ls)) =
      (rev acc @ l @ [sp]) # split_word (js w) False [sp] (spdx_join (js w) (l' # ls))"
    using split_word_op [of "js w" l acc "spdx_join (js w) (l' # ls)"] op_words [of w] plain_pieces [of l w] "3.prems" assms(1)
    by auto
  moreover have "js_trim (rev acc @ l @ [sp]) = l" using 3 trim_bare(2) [of l "rev acc"] by (auto simp: plain_license_def)
  ultimately show ?case using 3 by simp
qed simp

lemma other_word:
  assumes "one_piece (js v) False (js w)" "v \<in> {''OR'', ''AND'', ''WITH''}" "list_all (\<lambda>l. one_piece (js v) False l) ls" "ls \<noteq> []"
  shows "one_piece (js v) False (spdx_join (js w) ls)"
  using assms(3,4)
proof (induction "js w" ls rule: spdx_join.induct)
  case (3 l l' ls)
  then show ?case using assms(1) op_words [OF assms(2)] by (simp add: one_piece_sp)
qed auto

lemma set_spdx_join: "set (spdx_join w ls) \<subseteq> {sp} \<union> set w \<union> (\<Union>l\<in>set ls. set l)"
  by (induction w ls rule: spdx_join.induct) auto

lemma join_ends:
  assumes "list_all bare_identifier ls" "ls \<noteq> []"
  shows "spdx_join w ls \<noteq> [] \<and> hd (spdx_join w ls) \<in> set (hd ls) \<and> last (spdx_join w ls) \<in> set (last ls)"
  using assms by (induction w ls rule: spdx_join.induct) (auto simp: bare_identifier_def hd_append)

lemma trim_id: "s \<noteq> [] \<Longrightarrow> \<not> js_space (hd s) \<Longrightarrow> \<not> js_space (last s) \<Longrightarrow> js_trim s = s"
proof -
  assume "s \<noteq> []" "\<not> js_space (hd s)" "\<not> js_space (last s)"
  then have "dropWhile js_space s = s" "dropWhile js_space (rev s) = rev s"
    unfolding dropWhile_eq_self_iff by (auto simp: hd_rev)
  then show ?thesis by (simp add: js_trim_def)
qed

lemma strip_join:
  assumes "list_all bare_identifier ls" "ls \<noteq> []"
  shows "stripBalancedOuterParens (spdx_join w ls) = spdx_join w ls"
proof -
  let ?e = "spdx_join w ls"
  from assms have b: "bare_identifier (hd ls)" "bare_identifier (last ls)" by (auto simp: list_all_iff)
  note ends = join_ends [OF assms, of w] bare_chars [OF b(1), of "hd ?e"] bare_chars [OF b(2), of "last ?e"]
  then have "js_trim ?e = ?e"
    using trim_id by auto
  moreover have "\<not> wrapped ?e" using ends by (cases ?e) (auto simp: wrapped_def startsWith_def)
  ultimately show ?thesis by (simp add: stripBalancedOuterParens_def strip_parens.simps)
qed

definition flat_text :: "jsstring \<Rightarrow> bool" where
  "flat_text e = (ch CHR ''('' \<notin> set e \<and> ch CHR '')'' \<notin> set e \<and> ch CHR ''+'' \<notin> set e)"

lemma join_flat: "list_all bare_identifier ls \<Longrightarrow> flat_text w \<Longrightarrow> flat_text (spdx_join w ls)"
  using set_spdx_join [of w ls] bare_chars unfolding flat_text_def list_all_iff by fastforce

lemma op_flat: "flat_text (js ''OR'')" "flat_text (js ''AND'')"
  by (simp_all add: flat_text_def js_Cons)

lemma plain_bare: "list_all plain_license ls \<Longrightarrow> list_all bare_identifier ls"
  by (auto simp: list_all_iff plain_license_def)

lemma balanced_flat: "flat_text x \<Longrightarrow> balanced d (x @ t) = balanced d t"
  by (induction x) (auto simp: flat_text_def)

lemma balanced_text: "spdx_ok e \<Longrightarrow> balanced d (spdx_text e @ t) = balanced d t"
proof (induction e arbitrary: d t)
  case (Ident l)
  then have "flat_text l" using bare_chars by (force simp: flat_text_def plain_license_def)
  then show ?case by (simp add: balanced_flat)
next
  case (AnyOf ls)
  then show ?case using join_flat [OF plain_bare op_flat(1)] balanced_flat by auto
next
  case (AllOf ls)
  then show ?case using join_flat [OF plain_bare op_flat(2)] balanced_flat by auto
qed auto

lemma strip_Parens: "spdx_ok e \<Longrightarrow> stripBalancedOuterParens (spdx_text (Parens e)) = stripBalancedOuterParens (spdx_text e)"
proof -
  assume ok: "spdx_ok e"
  let ?p = "ch CHR ''('' # spdx_text e @ [ch CHR '')'']"
  have trim: "js_trim ?p = ?p" by (simp add: js_trim_def js_space_def)
  have "wrapped ?p \<and> balanced 0 (inner_of ?p)"
    using balanced_text [OF ok, of 0 "[]"] by (simp add: wrapped_def startsWith_def inner_of_def butlast_append)
  then have "strip_parens ?p = strip_parens (js_trim (inner_of ?p))" by (subst strip_parens.simps) simp
  then show ?thesis using trim by (simp add: stripBalancedOuterParens_def inner_of_def butlast_append)
qed

lemma evaluate_same_strip:
  "stripBalancedOuterParens x = stripBalancedOuterParens y \<Longrightarrow> evaluateExpression x = evaluateExpression y"
  by (simp add: evaluateExpression_def)

lemma find_case: "(case find P xs of None \<Rightarrow> None | Some p \<Rightarrow> Some (f p)) = None \<longleftrightarrow> list_all (\<lambda>x. \<not> P x) xs"
  by (induction xs) auto

lemma evaluate_flat:
  assumes "stripBalancedOuterParens e = e" "flat_text e" "one_piece (js ''WITH'') False e"
  shows "evaluateExpression e = None \<longleftrightarrow>
     (if one_piece (js ''OR'') False e \<and> one_piece (js ''AND'') False e then allowed e
      else if one_piece (js ''AND'') False e then list_ex allowed (clauses ''OR'' e)
      else if one_piece (js ''OR'') False e then list_all allowed (clauses ''AND'' e) else False)"
  using assms
  by (auto simp: evaluateExpression_def Let_def has_word_iff flat_text_def find_case)

lemma op_pieces: "one_piece (js v) False (js w)" if "v \<in> {''OR'', ''AND'', ''WITH''}" "w \<in> {''OR'', ''AND''}" "v \<noteq> w"
  using that by (auto simp: one_piece_def js_Cons word_here_def startsWith_def)

lemma evaluate_join:
  assumes w: "w \<in> {''OR'', ''AND''}" and ls: "2 \<le> length ls" "list_all plain_license ls"
  shows "evaluateExpression (spdx_join (js w) ls) = None \<longleftrightarrow> (if w = ''OR'' then list_ex allowed ls else list_all allowed ls)"
proof -
  let ?e = "spdx_join (js w) ls"
  have ne: "ls \<noteq> []" using ls(1) by auto
  have cl: "clauses w ?e = ls" using clauses_join [OF w ls(2) ne, of "[]"] by (simp add: clauses_def)
  have "length (split_word (js w) False [] ?e) = length ls" using arg_cong [OF cl, of length] by (simp add: clauses_def)
  then have own: "\<not> one_piece (js w) False ?e"
    using ls(1) by (cases "split_word (js w) False [] ?e") (auto simp: one_piece_def)
  have other: "one_piece (js v) False ?e" if v: "v \<in> {''OR'', ''AND'', ''WITH''}" "v \<noteq> w" for v
    by (rule other_word [OF op_pieces v(1) _ ne]) (use v w ls(2) plain_pieces in \<open>auto simp: list_all_iff\<close>)
  have "flat_text ?e" using join_flat [OF plain_bare [OF ls(2)]] op_flat w by auto
  note ev = evaluate_flat [OF strip_join [OF plain_bare [OF ls(2)] ne] this other]
  show ?thesis
  proof (cases "w = ''OR''")
    case True
    with own other [of "''AND''"] cl ev show ?thesis by simp
  next
    case False
    with w have "w = ''AND''" by simp
    with own other [of "''OR''"] cl ev show ?thesis by simp
  qed
qed

theorem evaluates_as_meant: "spdx_ok e \<Longrightarrow> evaluateExpression (spdx_text e) = None \<longleftrightarrow> permitted e"
proof (induction e)
  case (Ident l)
  have b: "list_all bare_identifier [l]" using Ident by (simp add: plain_license_def)
  have "flat_text (spdx_join [] [l])" by (rule join_flat [OF b]) (simp add: flat_text_def)
  then show ?case
    using evaluate_flat [of l] strip_join [OF b, of "[]"] Ident plain_pieces [of l] by simp
next
  case (Parens e)
  then show ?case using evaluate_same_strip [OF strip_Parens [of e]] by simp
qed (use evaluate_join [of "''OR''"] evaluate_join [of "''AND''"] in auto)

end
