(* ===== verification/Official_Check.thy ===== *)
theory Official_Check
  imports Gallery_Props
begin

text \<open>
  \<open>scripts/verify-official-addons.ts\<close>, the check that a registry may be published: the registry
  validates, every add-on's signature verifies under the registry's keys, and what the signed manifest
  says of itself is what the registry says. The file system is an argument. The theory shows what an
  exit with 0 guarantees, and that the gallery then shows every add-on of that registry as verified.
\<close>

record official_env =
  oe_exists :: "jsstring \<Rightarrow> bool"
  oe_read :: "jsstring \<Rightarrow> err + bytes"
  oe_resolve :: "jsstring \<Rightarrow> jsstring \<Rightarrow> jsstring"
  oe_cwd :: jsstring
  oe_root :: jsstring

record official_args =
  oa_registry :: jsstring
  oa_meta :: jsstring

definition default_args :: "official_env \<Rightarrow> official_args" where
  "default_args env = \<lparr>oa_registry = oe_resolve env (oe_root env) (js ''addons/official/index.json''),
     oa_meta = oe_resolve env (oe_root env) (js ''addons/official/meta.json'')\<rparr>"

fun parse_args :: "official_env \<Rightarrow> jsstring list \<Rightarrow> official_args \<Rightarrow> err + official_args" where
  "parse_args env [] a = Inr a"
| "parse_args env [x] a =
     Inl (Thrown ''Error'' (if x = js ''--registry'' then ''--registry needs a path''
       else if x = js ''--meta'' then ''--meta needs a path'' else ''unknown argument: ''))"
| "parse_args env (x # v # rest) a =
     (if x = js ''--registry'' then parse_args env rest (a\<lparr>oa_registry := oe_resolve env (oe_cwd env) v\<rparr>)
      else if x = js ''--meta'' then parse_args env rest (a\<lparr>oa_meta := oe_resolve env (oe_cwd env) v\<rparr>)
      else Inl (Thrown ''Error'' ''unknown argument: ''))"

definition parseArgs :: "official_env \<Rightarrow> jsstring list \<Rightarrow> err + official_args" where
  "parseArgs env argv = parse_args env argv (default_args env)"

text \<open>\<open>JSON.parse(await readFile(path, "utf8"))\<close>.\<close>

definition read_json :: "official_env \<Rightarrow> jsstring \<Rightarrow> err + jsval" where
  "read_json env path =
     then_ok (oe_read env path) (\<lambda>b. of_option (Thrown ''SyntaxError'' '''') (json_parse (utf8_decode_nobom b)))"

record addon_result =
  ar_id :: jsstring
  ar_path :: jsstring
  ar_ok :: bool
  ar_reason :: "string option"
  ar_signature :: "manifest_signature option"

definition failed_addon :: "registry_addon \<Rightarrow> string \<Rightarrow> manifest_signature option \<Rightarrow> addon_result" where
  "failed_addon addon reason sig =
     \<lparr>ar_id = ra_id addon, ar_path = ra_path addon, ar_ok = False, ar_reason = Some reason, ar_signature = sig\<rparr>"

text \<open>The signed manifest against the registry's entry; \<open>String(v)\<close> of an unprintable value throws.\<close>

definition cross_check :: "registry_addon \<Rightarrow> manifest_signature \<Rightarrow> jsval \<Rightarrow> err + addon_result" where
  "cross_check addon sig manifest =
     (if manifest = Null then Inl (Thrown ''TypeError'' '''')
      else let m = own_fields manifest; printed = (\<lambda>v r. if unprintable v then Inl (Thrown ''TypeError'' '''') else Inr r) in
      if fld m ''id'' \<noteq> Str (ra_id addon) then printed (fld m ''id'') (failed_addon addon ''manifest.id != registry id'' (Some sig))
      else if fld m ''version'' \<noteq> Str (ra_version addon)
      then printed (fld m ''version'') (failed_addon addon ''manifest.version != registry version'' (Some sig))
      else if is_str (fld m ''description'') \<and> fld m ''description'' \<noteq> Str (ra_description addon)
      then Inr (failed_addon addon ''manifest.description != registry description'' (Some sig))
      else Inr \<lparr>ar_id = ra_id addon, ar_path = ra_path addon, ar_ok = True, ar_reason = None, ar_signature = Some sig\<rparr>)"

definition manifest_path :: "official_env \<Rightarrow> jsstring \<Rightarrow> jsstring" where
  "manifest_path env path = oe_resolve env (oe_resolve env (oe_root env) path) (js ''manifest.json'')"

definition signature_path :: "official_env \<Rightarrow> jsstring \<Rightarrow> jsstring" where
  "signature_path env path = oe_resolve env (oe_resolve env (oe_root env) path) (js ''manifest.sig.json'')"

definition verifyAddon :: "official_env \<Rightarrow> ('pk, 'sk) web_crypto option \<Rightarrow> date_api \<Rightarrow> jsstring list \<Rightarrow> registry_addon \<Rightarrow> err + addon_result" where
  "verifyAddon env c dates trustedKeys addon =
     (let manifestPath = manifest_path env (ra_path addon); sigPath = signature_path env (ra_path addon) in
      if \<not> oe_exists env manifestPath then Inr (failed_addon addon ''manifest.json missing'' None)
      else if \<not> oe_exists env sigPath then Inr (failed_addon addon ''manifest.sig.json missing'' None)
      else case then_ok (read_json env sigPath) (validateSignaturePayload dates) of
        Inl _ \<Rightarrow> Inr (failed_addon addon ''signature schema: '' None)
      | Inr sig \<Rightarrow>
          then_ok (oe_read env manifestPath) (\<lambda>manifestBytes.
          then_ok (verifyManifest c manifestBytes sig (Some trustedKeys)) (\<lambda>result.
            if \<not> vr_ok result
            then Inr (failed_addon addon (case vr_reason result of None \<Rightarrow> ''verify failed'' | Some r \<Rightarrow> r) (Some sig))
            else then_ok (of_option (Thrown ''SyntaxError'' '''') (json_parse (utf8_decode manifestBytes)))
              (cross_check addon sig))))"

text \<open>
  \<open>main\<close>: the results of the add-ons, and of the meta index when it is reached. \<open>Promise.all\<close> rejects with
  the rejection that comes first; the model gives the first in the list, and both exit with 1.
\<close>

definition official_results :: "official_env \<Rightarrow> 'u url_api \<Rightarrow> ('pk, 'sk) web_crypto option \<Rightarrow> date_api \<Rightarrow> jsstring
    \<Rightarrow> err + registry \<times> addon_result list" where
  "official_results env api c dates path =
     (if \<not> oe_exists env path then Inl (Thrown ''Error'' ''registry not found: '')
      else then_ok (read_json env path) (\<lambda>v.
        then_ok (validateRegistry api dates v) (\<lambda>registry.
        then_ok (throwing_map (verifyAddon env c dates (rg_trustedKeys registry)) (rg_addons registry)) (\<lambda>results.
          Inr (registry, results)))))"

definition official_meta :: "official_env \<Rightarrow> 'u url_api \<Rightarrow> jsstring \<Rightarrow> err + publisher_entry list option" where
  "official_meta env api path =
     (if \<not> oe_exists env path then Inr None
      else then_ok (read_json env path) (\<lambda>v. then_ok (validateMetaIndex api v) (\<lambda>m. Inr (Some m))))"

definition official_exit_code :: "official_env \<Rightarrow> 'u url_api \<Rightarrow> ('pk, 'sk) web_crypto option \<Rightarrow> date_api \<Rightarrow> jsstring list \<Rightarrow> nat" where
  "official_exit_code env api c dates argv =
     (case then_ok (parseArgs env argv) (\<lambda>args. then_ok (official_results env api c dates (oa_registry args)) (\<lambda>(r, results). Inr (args, results))) of
        Inl _ \<Rightarrow> 1
      | Inr (args, results) \<Rightarrow>
          if list_ex (\<lambda>r. \<not> ar_ok r) results then 1
          else (case official_meta env api (oa_meta args) of Inl _ \<Rightarrow> 1 | Inr _ \<Rightarrow> 0))"

subsection \<open>What an exit with 0 means\<close>

lemma verifyAddon_ok:
  assumes "verifyAddon env c dates keys addon = Inr r" "ar_ok r"
  shows "\<exists>j sig b m. read_json env (signature_path env (ra_path addon)) = Inr j \<and> validateSignaturePayload dates j = Inr sig
    \<and> oe_read env (manifest_path env (ra_path addon)) = Inr b \<and> json_parse (utf8_decode b) = Some m
    \<and> verifyManifest c b sig (Some keys) = Inr \<lparr>vr_ok = True, vr_reason = None\<rparr>
    \<and> fld (own_fields m) ''id'' = Str (ra_id addon) \<and> fld (own_fields m) ''version'' = Str (ra_version addon)
    \<and> (is_str (fld (own_fields m) ''description'') \<longrightarrow> fld (own_fields m) ''description'' = Str (ra_description addon))"
proof -
  let ?sig = "then_ok (read_json env (signature_path env (ra_path addon))) (validateSignaturePayload dates)"
  obtain sig where sig: "?sig = Inr sig"
    using assms by (cases ?sig) (auto simp: verifyAddon_def Let_def failed_addon_def split: if_splits)
  with assms obtain b v where b: "oe_read env (manifest_path env (ra_path addon)) = Inr b"
    and v: "verifyManifest c b sig (Some keys) = Inr v" "vr_ok v"
    and x: "then_ok (of_option (Thrown ''SyntaxError'' '''') (json_parse (utf8_decode b))) (cross_check addon sig) = Inr r"
    by (auto simp: verifyAddon_def Let_def failed_addon_def then_ok_Inr split: if_splits)
  from x obtain m where m: "json_parse (utf8_decode b) = Some m" "cross_check addon sig m = Inr r"
    by (auto simp: then_ok_Inr)
  from v have "v = \<lparr>vr_ok = True, vr_reason = None\<rparr>"
    by (auto simp: verifyManifest_def then_ok_Inr split: option.splits if_splits)
  with m assms(2) sig b v show ?thesis
    by (auto simp: cross_check_def Let_def failed_addon_def then_ok_Inr split: if_splits)
qed

lemma official_ok:
  assumes "official_exit_code env api c dates argv = 0"
  shows "\<exists>args v r. parseArgs env argv = Inr args \<and> read_json env (oa_registry args) = Inr v \<and> validateRegistry api dates v = Inr r
    \<and> (\<forall>a\<in>set (rg_addons r). \<exists>res. verifyAddon env c dates (rg_trustedKeys r) a = Inr res \<and> ar_ok res)"
proof -
  from assms obtain args r results where a: "parseArgs env argv = Inr args"
    and res: "official_results env api c dates (oa_registry args) = Inr (r, results)" and ok: "\<not> list_ex (\<lambda>r. \<not> ar_ok r) results"
    by (auto simp: official_exit_code_def then_ok_Inr split: sum.splits if_splits)
  from res obtain v where v: "read_json env (oa_registry args) = Inr v" "validateRegistry api dates v = Inr r"
    and tm: "throwing_map (verifyAddon env c dates (rg_trustedKeys r)) (rg_addons r) = Inr results"
    by (auto simp: official_results_def then_ok_Inr split: if_splits)
  have "\<exists>res. verifyAddon env c dates (rg_trustedKeys r) x = Inr res \<and> ar_ok res" if "x \<in> set (rg_addons r)" for x
    using tm that ok by (fastforce simp: throwing_map_Inr list_all2_conv_all_nth in_set_conv_nth list_ex_length)
  with a v show ?thesis by blast
qed

text \<open>The file on disk is signed by a key of the registry and says what the registry says.\<close>

definition released_addon :: "official_env \<Rightarrow> ('pk, 'sk) web_crypto option \<Rightarrow> jsstring list \<Rightarrow> registry_addon \<Rightarrow> bool" where
  "released_addon env c keys a \<longleftrightarrow>
     (\<exists>b m. \<exists>g :: manifest_signature. \<exists>crypto :: ('pk, 'sk) web_crypto. \<exists>pk raw sig. oe_read env (manifest_path env (ra_path a)) = Inr b
         \<and> json_parse (utf8_decode b) = Some m \<and> fld (own_fields m) ''id'' = Str (ra_id a)
         \<and> fld (own_fields m) ''version'' = Str (ra_version a)
         \<and> fld (own_fields m) ''description'' \<in> {d. is_str d \<longrightarrow> d = Str (ra_description a)}
         \<and> c = Some crypto \<and> sg_publicKey g \<in> set keys \<and> manifest_base64urlDecode (sg_publicKey g) = Inr raw
         \<and> wc_importRaw crypto raw = Inr pk \<and> manifest_base64urlDecode (sg_signature g) = Inr sig
         \<and> wc_verify crypto pk sig b = Inr True)"

lemma verified_addon:
  assumes "verifyAddon env c dates keys a = Inr res" "ar_ok res"
  shows "released_addon env c keys a"
proof -
  from verifyAddon_ok [OF assms] obtain g b m where f: "oe_read env (manifest_path env (ra_path a)) = Inr b"
    "json_parse (utf8_decode b) = Some m" "fld (own_fields m) ''id'' = Str (ra_id a)" "fld (own_fields m) ''version'' = Str (ra_version a)"
    "is_str (fld (own_fields m) ''description'') \<longrightarrow> fld (own_fields m) ''description'' = Str (ra_description a)"
    and ver: "verifyManifest c b g (Some keys) = Inr \<lparr>vr_ok = True, vr_reason = None\<rparr>" by blast
  from verify_sound [OF ver] obtain crypto pk raw sig where "c = Some crypto" "manifest_base64urlDecode (sg_publicKey g) = Inr raw"
    "wc_importRaw crypto raw = Inr pk" "manifest_base64urlDecode (sg_signature g) = Inr sig" "wc_verify crypto pk sig b = Inr True"
    "sg_publicKey g \<in> set keys" by auto
  with f show ?thesis unfolding released_addon_def mem_Collect_eq by blast
qed

lemma official_sound:
  assumes "official_exit_code env api c dates argv = 0"
  shows "\<exists>args v r. parseArgs env argv = Inr args \<and> read_json env (oa_registry args) = Inr v \<and> validateRegistry api dates v = Inr r
    \<and> registry_ok api dates r \<and> (\<forall>a\<in>set (rg_addons r). released_addon env c (rg_trustedKeys r) a)"
  using official_ok [OF assms] registry_sound verified_addon by metis

subsection \<open>From the check to the gallery\<close>

text \<open>The page's origin serves the files the check read.\<close>

definition serves_files :: "'u page_url_api \<Rightarrow> gallery_env \<Rightarrow> official_env \<Rightarrow> jsstring \<Rightarrow> jsval \<Rightarrow> bool" where
  "serves_files page genv env url v \<longleftrightarrow>
     (\<forall>raw\<in>set (arr_of (fld (own_fields v) ''addons'')).
        let path = str_of (fld (own_fields raw) ''path'') in
        \<exists>m s. manifestUrlFor page url path = Inr m \<and> sigUrlFor page m = Inr s
          \<and> fetchBytes genv m = oe_read env (manifest_path env path)
          \<and> fetchJson genv s = read_json env (signature_path env path))"

lemma checked_row:
  assumes ok: "verifyAddon env c dates keys a = Inr res" "ar_ok res"
    and raw: "validate_addon n api dates raw = Inr a" and keys: "trusted_keys reg = keys"
    and m: "manifestUrlFor page url (ra_path a) = Inr m" and s: "sigUrlFor page m = Inr s"
    and served: "fetchBytes genv m = oe_read env (manifest_path env (ra_path a))"
      "fetchJson genv s = read_json env (signature_path env (ra_path a))"
  shows "\<exists>row. load_row page c dates genv opts url reg raw = Inr row \<and> rw_verify row = \<lparr>vr_ok = True, vr_reason = None\<rparr>
    \<and> (\<exists>man. rw_manifest row = Some man \<and> fld (own_fields man) ''id'' = Str (ra_id a))"
proof -
  from verifyAddon_ok [OF ok] obtain j sig b man where f: "read_json env (signature_path env (ra_path a)) = Inr j"
    "validateSignaturePayload dates j = Inr sig" "oe_read env (manifest_path env (ra_path a)) = Inr b"
    "json_parse (utf8_decode b) = Some man" "verifyManifest c b sig (Some keys) = Inr \<lparr>vr_ok = True, vr_reason = None\<rparr>"
    "fld (own_fields man) ''id'' = Str (ra_id a)" by blast
  have "str_of (fld (own_fields raw) ''path'') = ra_path a" using raw by (auto simp: validate_addon_Inr any_object_Inr)
  moreover have "fetch_both genv m s = Inr (b, j)" using served f by (simp add: fetch_both_def)
  ultimately show ?thesis using m s f keys by (simp add: load_row_def Let_def)
qed

lemma checked_registry_rows:
  assumes exit: "official_exit_code env api c dates argv = 0" and args: "parseArgs env argv = Inr args"
    and v: "read_json env (oa_registry args) = Inr v" and serves: "serves_files page genv env url v"
  shows "\<exists>reg rows. load_registry page c dates genv opts url v = Inr (reg, rows)
    \<and> length rows = length (arr_of (fld (own_fields v) ''addons''))
    \<and> list_all (\<lambda>row. rw_verify row = \<lparr>vr_ok = True, vr_reason = None\<rparr>
        \<and> (\<exists>man. rw_manifest row = Some man \<and> fld (own_fields man) ''id'' = fld (rw_addon row) ''id'')) rows"
proof -
  let ?f = "own_fields v"
  from official_ok [OF exit] args v obtain r where r: "validateRegistry api dates v = Inr r"
    and ok: "\<forall>a\<in>set (rg_addons r). \<exists>res. verifyAddon env c dates (rg_trustedKeys r) a = Inr res \<and> ar_ok res" by auto
  note reg = validated_registry [OF r]
  have row: "\<exists>row. load_row page c dates genv opts url ?f raw = Inr row \<and> rw_verify row = \<lparr>vr_ok = True, vr_reason = None\<rparr>
      \<and> (\<exists>man. rw_manifest row = Some man \<and> fld (own_fields man) ''id'' = fld (rw_addon row) ''id'')"
    if raw: "raw \<in> set (arr_of (fld ?f ''addons''))" for raw
  proof -
    from throwing_map_in [OF reg(3) raw] obtain a where a: "a \<in> set (rg_addons r)" "validate_addon (rg_v r) api dates raw = Inr a"
      by blast
    then have eqs: "str_of (fld (own_fields raw) ''path'') = ra_path a" "fld (own_fields raw) ''id'' = Str (ra_id a)"
      by (auto simp: validate_addon_Inr any_object_Inr)
    from ok a(1) obtain res where res: "verifyAddon env c dates (rg_trustedKeys r) a = Inr res" "ar_ok res" by blast
    from serves raw eqs(1) obtain m s where "manifestUrlFor page url (ra_path a) = Inr m" "sigUrlFor page m = Inr s"
      "fetchBytes genv m = oe_read env (manifest_path env (ra_path a))"
      "fetchJson genv s = read_json env (signature_path env (ra_path a))" by (fastforce simp: serves_files_def Let_def)
    from checked_row [OF res a(2) reg(2) this] obtain row man where
      l: "load_row page c dates genv opts url ?f raw = Inr row" "rw_verify row = \<lparr>vr_ok = True, vr_reason = None\<rparr>"
        "rw_manifest row = Some man" "fld (own_fields man) ''id'' = Str (ra_id a)" by blast
    have "rw_addon row = own_fields raw" using load_row_cases [OF l(1)] by blast
    then have "fld (own_fields man) ''id'' = fld (rw_addon row) ''id''" by (simp only: eqs(2) l(4))
    with l(1-3) show ?thesis by blast
  qed
  have "\<exists>rows. throwing_map (load_row page c dates genv opts url ?f) (arr_of (fld ?f ''addons'')) = Inr rows"
  proof (rule throwing_map_total)
    fix raw assume "raw \<in> set (arr_of (fld ?f ''addons''))"
    from row [OF this] show "\<exists>y. load_row page c dates genv opts url ?f raw = Inr y" by (elim exE conjE) (rule exI)
  qed
  then obtain rows where rows: "throwing_map (load_row page c dates genv opts url ?f) (arr_of (fld ?f ''addons'')) = Inr rows" ..
  have "load_registry page c dates genv opts url v = Inr (?f, rows)"
    using reg(1) rows by (simp add: load_registry_def)
  moreover have "list_all (\<lambda>row. rw_verify row = \<lparr>vr_ok = True, vr_reason = None\<rparr>
      \<and> (\<exists>man. rw_manifest row = Some man \<and> fld (own_fields man) ''id'' = fld (rw_addon row) ''id'')) rows"
    unfolding list_all_iff using throwing_map_set [OF rows] row by fastforce
  ultimately show ?thesis using throwing_map_length [OF rows] by blast
qed

end
