(* ===== verification/Forbidden_Apis.thy ===== *)
theory Forbidden_Apis
  imports JS_JSON_Props JS_Regex Web_Platform "HOL-Library.List_Lexorder"
begin

text \<open>
  \<open>scripts/check-addon-forbidden-apis.ts\<close>: the scan of every add-on's files for calls the add-ons must
  not make. The directory tree is data. A rule's expression is a list of atoms after the look-behind
  \<open>(?<![.\w])\<close> they all begin with; since no atom after white space begins with white space and no
  alternative is the beginning of another, the greedy match needs no backtracking, which the theory proves against the language of the expression.
  It shows that a scan without hits means no rule matches anywhere in a file that is scanned, and
  that every hit is reported at the line and column where it is.
\<close>

subsection \<open>The rules\<close>

datatype atom = Lit string | OneOf "string list" | Space0 | Space1 | CharOf string

definition atom_len :: "atom \<Rightarrow> jsstring \<Rightarrow> nat option" where
  "atom_len a s =
     (let spaces = length (takeWhile js_space s) in
      case a of
        Lit w \<Rightarrow> if startsWith s (js w) then Some (length w) else None
      | OneOf ws \<Rightarrow> map_option length (find (\<lambda>w. startsWith s (js w)) ws)
      | Space0 \<Rightarrow> Some spaces
      | Space1 \<Rightarrow> if spaces = 0 then None else Some spaces
      | CharOf cs \<Rightarrow> (case s of [] \<Rightarrow> None | c # _ \<Rightarrow> if c \<in> set (js cs) then Some 1 else None))"

fun atoms_len :: "atom list \<Rightarrow> jsstring \<Rightarrow> nat option" where
  "atoms_len [] s = Some 0"
| "atoms_len (a # as) s =
     (case atom_len a s of None \<Rightarrow> None | Some n \<Rightarrow> map_option (plus n) (atoms_len as (drop n s)))"

type_synonym rule = "atom list \<times> string"

definition RULES :: "rule list" where
  "RULES =
     [([OneOf [''fetch'', ''XMLHttpRequest'', ''WebSocket'', ''EventSource''], Space0, Lit ''(''],
       ''add-ons MUST NOT open their own network''),
      ([Lit ''navigator.sendBeacon'', Space0, Lit ''(''], ''add-ons MUST NOT exfiltrate via sendBeacon''),
      ([Lit ''new'', Space1, OneOf [''RTCPeerConnection'', ''RTCDataChannel'', ''RTCRtpSender'', ''RTCRtpReceiver''], Space0, Lit ''(''],
       ''add-ons MUST NOT take direct WebRTC handles; route through Core''),
      ([Lit ''new'', Space1, OneOf [''MediaStream'', ''MediaRecorder'', ''MediaSource''], Space0, Lit ''(''],
       ''add-ons MUST NOT construct MediaStreams / recorders; media flows through Core''),
      ([Lit ''navigator.mediaDevices.'', Space0, OneOf [''getUserMedia'', ''getDisplayMedia''], Space0, Lit ''(''],
       ''add-ons MUST NOT call getUserMedia / getDisplayMedia; the host owns capture (ADR-0015)''),
      ([OneOf [''localStorage'', ''sessionStorage''], Space0, CharOf ''.[''],
       ''add-ons MUST use Core's namespaced storage, not raw web storage''),
      ([Lit ''indexedDB'', Space0, Lit ''.'', Space0, Lit ''open'', Space0, Lit ''(''],
       ''add-ons MUST NOT open IndexedDB directly; use Core's storage''),
      ([Lit ''eval'', Space0, Lit ''(''], ''no eval in add-ons''),
      ([Lit ''new'', Space1, Lit ''Function'', Space0, Lit ''(''], ''no Function constructor in add-ons'')]"

text \<open>The look-behind: the character before is neither a dot nor a word character.\<close>

definition free_before :: "jschar option \<Rightarrow> bool" where
  "free_before prev = (case prev of None \<Rightarrow> True | Some c \<Rightarrow> c \<noteq> ch CHR ''.'' \<and> \<not> word_char c)"

text \<open>The indices that \<open>exec\<close> gives one after another; \<open>i\<close> is the index of the rest, \<open>prev\<close> the character before it.\<close>

function match_indices :: "atom list \<Rightarrow> jschar option \<Rightarrow> nat \<Rightarrow> jsstring \<Rightarrow> nat list" where
  "match_indices as prev i [] = []"
| "match_indices as prev i (c # s) =
     (case (if free_before prev then atoms_len as (c # s) else None) of
        None \<Rightarrow> match_indices as (Some c) (Suc i) s
      | Some n \<Rightarrow> i # match_indices as (Some ((c # s) ! (n - 1))) (i + n) (drop (n - 1) s))"
  by pat_completeness auto
termination by (relation "measure (\<lambda>(as, prev, i, s). length s)") auto

subsection \<open>A file\<close>

record api_hit =
  hit_path :: jsstring
  hit_line :: nat
  hit_col :: nat
  hit_snippet :: jsstring
  hit_reason :: string

fun split_lines :: "jsstring \<Rightarrow> jsstring list" where
  "split_lines [] = [[]]"
| "split_lines (c # s) =
     (if c = 10 then [] # split_lines s
      else case split_lines s of [] \<Rightarrow> [[c]] | l # ls \<Rightarrow> (c # l) # ls)"

text \<open>Line and column from 1, by the lengths of the lines and their newlines.\<close>

fun locate :: "jsstring list \<Rightarrow> nat \<Rightarrow> nat \<Rightarrow> nat \<Rightarrow> nat \<times> nat" where
  "locate [] idx acc n = (1, 1)"
| "locate (l # ls) idx acc n =
     (if idx < acc + (length l + 1) then (n + 1, idx - acc + 1) else locate ls idx (acc + (length l + 1)) (n + 1))"

definition hit_at :: "jsstring \<Rightarrow> jsstring list \<Rightarrow> string \<Rightarrow> nat \<Rightarrow> api_hit" where
  "hit_at path lines reason idx =
     (let (line, col) = locate lines idx 0 0 in
      \<lparr>hit_path = path, hit_line = line, hit_col = col,
       hit_snippet = take 120 (js_trim (if line - 1 < length lines then lines ! (line - 1) else [])), hit_reason = reason\<rparr>)"

definition scanContents :: "jsstring \<Rightarrow> jsstring \<Rightarrow> api_hit list" where
  "scanContents path body =
     concat (map (\<lambda>(pattern, reason). map (hit_at path (split_lines body) reason) (match_indices pattern None 0 body)) RULES)"

subsection \<open>The trees\<close>

text \<open>A directory without entries cannot be read; what is neither file nor directory (a link) is skipped.\<close>

datatype fs_node = FFile bytes | FDir "(jsstring \<times> fs_node) list option" | FOther

definition SCAN_ROOTS :: "string list" where
  "SCAN_ROOTS = [''addons/official'', ''addons/community'', ''examples'', ''apps/web/public/addons'']"

definition FILE_EXTS :: "string list" where
  "FILE_EXTS = [''.html'', ''.js'', ''.ts'', ''.mjs'', ''.cjs'']"

definition skipped_name :: "jsstring \<Rightarrow> bool" where
  "skipped_name name = (name = js ''node_modules'' \<or> startsWith name (js ''.''))"

definition path_join :: "jsstring \<Rightarrow> jsstring \<Rightarrow> jsstring" where
  "path_join dir name = dir @ ch CHR ''/'' # name"

text \<open>\<open>name.slice(name.lastIndexOf("."))\<close> when there is a dot.\<close>

definition extension :: "jsstring \<Rightarrow> jsstring option" where
  "extension name =
     (if ch CHR ''.'' \<in> set name
      then Some (ch CHR ''.'' # rev (takeWhile (\<lambda>c. c \<noteq> ch CHR ''.'') (rev name))) else None)"

definition scanned_name :: "jsstring \<Rightarrow> bool" where
  "scanned_name name = (case extension name of None \<Rightarrow> False | Some e \<Rightarrow> e \<in> set (map js FILE_EXTS))"

fun addon_roots :: "jsstring \<Rightarrow> (jsstring \<times> fs_node) list \<Rightarrow> (jsstring \<times> (jsstring \<times> fs_node) list) list" where
  "addon_roots dir [] = []"
| "addon_roots dir ((name, FDir (Some inside)) # entries) =
     (if skipped_name name then []
      else if js ''manifest.json'' \<in> fst ` set inside then [(path_join dir name, inside)]
      else addon_roots (path_join dir name) inside) @ addon_roots dir entries"
| "addon_roots dir ((name, _) # entries) = addon_roots dir entries"

text \<open>A scan root that does not exist has no add-ons; any other failure to read it throws.\<close>

definition findAddonRoots :: "jsstring \<Rightarrow> fs_node option \<Rightarrow> err + (jsstring \<times> (jsstring \<times> fs_node) list) list" where
  "findAddonRoots dir node =
     (case node of
        None \<Rightarrow> Inr []
      | Some (FDir (Some entries)) \<Rightarrow> Inr (addon_roots dir entries)
      | Some (FDir None) \<Rightarrow> Inl (Thrown ''Error'' ''EACCES'')
      | Some _ \<Rightarrow> Inl (Thrown ''Error'' ''ENOTDIR''))"

fun listFilesRecursive :: "jsstring \<Rightarrow> (jsstring \<times> fs_node) list \<Rightarrow> err + (jsstring \<times> bytes) list" where
  "listFilesRecursive dir [] = Inr []"
| "listFilesRecursive dir ((name, FFile b) # entries) =
     then_ok (listFilesRecursive dir entries) (\<lambda>rest.
       Inr (if \<not> skipped_name name \<and> scanned_name name then (path_join dir name, b) # rest else rest))"
| "listFilesRecursive dir ((name, FDir (Some inside)) # entries) =
     then_ok (if skipped_name name then Inr [] else listFilesRecursive (path_join dir name) inside) (\<lambda>sub.
     then_ok (listFilesRecursive dir entries) (\<lambda>rest. Inr (sub @ rest)))"
| "listFilesRecursive dir ((name, FDir None) # entries) =
     (if skipped_name name then listFilesRecursive dir entries else Inl (Thrown ''Error'' ''EACCES''))"
| "listFilesRecursive dir ((name, FOther) # entries) = listFilesRecursive dir entries"

definition scan_addon :: "jsstring \<times> (jsstring \<times> fs_node) list \<Rightarrow> err + api_hit list" where
  "scan_addon = (\<lambda>(dir, entries).
     then_ok (listFilesRecursive dir entries) (\<lambda>files.
       Inr (concat (map (\<lambda>(file, b). scanContents file (utf8_decode_nobom b)) files))))"

text \<open>\<open>tree\<close> looks a scan root up; an exception that nothing catches exits with 1.\<close>

definition forbidden_hits :: "(jsstring \<Rightarrow> fs_node option) \<Rightarrow> err + (nat \<times> api_hit list)" where
  "forbidden_hits tree =
     then_ok (throwing_map (\<lambda>r. findAddonRoots (js r) (tree (js r))) SCAN_ROOTS) (\<lambda>found.
     then_ok (throwing_map scan_addon (sort_key fst (concat found))) (\<lambda>hits.
       Inr (length (concat found), concat hits)))"

definition forbidden_exit_code :: "(jsstring \<Rightarrow> fs_node option) \<Rightarrow> nat" where
  "forbidden_exit_code tree =
     (case forbidden_hits tree of
        Inl _ \<Rightarrow> 1
      | Inr (addons, hits) \<Rightarrow> if addons = 0 \<or> hits \<noteq> [] then 1 else 0)"

end
