(* ===== verification/Forbidden_Props.thy ===== *)
theory Forbidden_Props
  imports Forbidden_Apis
begin

text \<open>
  What the scan guarantees: the matcher decides the language of each rule; an exit with 0 means that no
  file of any add-on contains, anywhere, what a rule describes; a hit is reported where it is. What it
  does not: a call through \<open>window\<close> is not what any rule describes.
\<close>

subsection \<open>The language of a rule\<close>

fun atom_in :: "atom \<Rightarrow> jsstring \<Rightarrow> bool" where
  "atom_in (Lit w) u = (u = js w)"
| "atom_in (OneOf ws) u = (u \<in> set (map js ws))"
| "atom_in Space0 u = list_all js_space u"
| "atom_in Space1 u = (u \<noteq> [] \<and> list_all js_space u)"
| "atom_in (CharOf cs) u = (\<exists>c\<in>set cs. u = [ch c])"

fun atoms_in :: "atom list \<Rightarrow> jsstring \<Rightarrow> bool" where
  "atoms_in [] u = (u = [])"
| "atoms_in (a # as) u = (\<exists>x y. u = x @ y \<and> atom_in a x \<and> atoms_in as y)"

text \<open>What makes backtracking unnecessary.\<close>

definition dark :: "string \<Rightarrow> bool" where
  "dark w = (w \<noteq> [] \<and> \<not> js_space (ch (hd w)))"

fun dark_atom :: "atom \<Rightarrow> bool" where
  "dark_atom (Lit w) = dark w"
| "dark_atom (OneOf ws) = list_all dark ws"
| "dark_atom (CharOf cs) = list_all (\<lambda>c. \<not> js_space (ch c)) cs"
| "dark_atom _ = False"

fun prefix_free :: "string list \<Rightarrow> bool" where
  "prefix_free [] = True"
| "prefix_free (w # ws) = (list_all (\<lambda>v. take (length w) v \<noteq> w \<and> take (length v) w \<noteq> v) ws \<and> prefix_free ws)"

fun plain_atoms :: "atom list \<Rightarrow> bool" where
  "plain_atoms [] = True"
| "plain_atoms (a # as) =
     ((case a of OneOf ws \<Rightarrow> prefix_free ws | Lit _ \<Rightarrow> True | CharOf _ \<Rightarrow> True
        | _ \<Rightarrow> as \<noteq> [] \<and> dark_atom (hd as)) \<and> plain_atoms as)"

lemma rules_plain: "list_all (\<lambda>(pattern, reason). plain_atoms pattern) RULES"
  by (simp add: RULES_def dark_def js_space_def)

lemma startsWith_iff: "startsWith s p \<longleftrightarrow> (\<exists>t. s = p @ t)"
  by (auto simp: startsWith_def) (metis append_take_drop_id)

lemma atom_len_sound:
  assumes "atom_len a s = Some n"
  shows "n \<le> length s \<and> atom_in a (take n s)"
proof (cases a)
  case (OneOf ws)
  with assms obtain w where w: "find (\<lambda>w. startsWith s (js w)) ws = Some w" "n = length w" by (auto simp: atom_len_def)
  then have "w \<in> set ws" "startsWith s (js w)" by (auto simp: find_Some_iff)
  with w(2) OneOf show ?thesis by (auto simp: startsWith_iff)
next
  case (Lit w)
  with assms show ?thesis by (auto simp: atom_len_def startsWith_iff split: if_splits)
next
  case (CharOf cs)
  with assms show ?thesis by (auto simp: atom_len_def js_def split: list.splits if_splits)
next
  case Space0
  with assms show ?thesis
    by (auto simp: atom_len_def length_takeWhile_le takeWhile_eq_take [symmetric] list_all_iff dest: set_takeWhileD)
next
  case Space1
  with assms show ?thesis
    by (auto simp: atom_len_def length_takeWhile_le takeWhile_eq_take [symmetric] list_all_iff Let_def dest: set_takeWhileD split: if_splits)
qed

lemma atoms_len_sound: "atoms_len as s = Some n \<Longrightarrow> n \<le> length s \<and> atoms_in as (take n s)"
proof (induction as arbitrary: s n)
  case (Cons a as)
  then obtain k m where k: "atom_len a s = Some k" and m: "atoms_len as (drop k s) = Some m" and n: "n = k + m"
    by (auto split: option.splits)
  from atom_len_sound [OF k] Cons.IH [OF m] have "n \<le> length s" "atom_in a (take k s)" "atoms_in as (take m (drop k s))"
    by (auto simp: n)
  then show ?case unfolding n take_add atoms_in.simps by blast
qed simp

lemma dark_start: "dark_atom a \<Longrightarrow> atom_in a u \<Longrightarrow> u \<noteq> [] \<and> \<not> js_space (hd u)"
  by (cases a) (auto simp: dark_def list_all_iff js_def hd_map)

lemma dark_starts:
  assumes "as \<noteq> []" "dark_atom (hd as)" "atoms_in as u"
  shows "u \<noteq> [] \<and> \<not> js_space (hd u)"
proof -
  obtain b bs where as: "as = b # bs" using assms(1) by (cases as) auto
  with assms(3) obtain x y where u: "u = x @ y" "atom_in b x" by auto
  with dark_start [of b x] assms(2) as show ?thesis by (simp add: hd_append)
qed

lemma prefix_free_pair: "prefix_free ws \<Longrightarrow> v \<in> set ws \<Longrightarrow> w \<in> set ws \<Longrightarrow> take (length v) w = v \<Longrightarrow> v = w"
  by (induction ws) (auto simp: list_all_iff)

lemma take_js: "take n (js w) = js (take n w)"
  by (simp add: js_def take_map)

lemma js_prefix: "startsWith (js w @ t) (js v) \<Longrightarrow> take (length v) w = v \<or> take (length w) v = w"
proof -
  assume "startsWith (js w @ t) (js v)"
  then obtain t' where t': "js w @ t = js v @ t'" by (auto simp: startsWith_iff)
  show ?thesis
  proof (cases "length v \<le> length w")
    case True
    then have "take (length v) (js w) = js v" using arg_cong [OF t', of "take (length v)"] by simp
    then show ?thesis by (simp add: take_js)
  next
    case False
    then have "take (length w) (js v) = js w" using arg_cong [OF t', of "take (length w)"] by simp
    then show ?thesis by (simp add: take_js)
  qed
qed

lemma find_only:
  assumes "w \<in> set ws" "P w" and only: "\<And>v. v \<in> set ws \<Longrightarrow> P v \<Longrightarrow> v = w"
  shows "find P ws = Some w"
proof -
  obtain v where v: "find P ws = Some v" using assms(1,2) by (cases "find P ws") (auto simp: find_None_iff)
  then have "v \<in> set ws" "P v" by (auto simp: find_Some_iff)
  from only [OF this] v show ?thesis by simp
qed

lemma prefix_free_find:
  assumes "prefix_free ws" "w \<in> set ws"
  shows "find (\<lambda>v. startsWith (js w @ t) (js v)) ws = Some w"
proof (rule find_only [OF assms(2)])
  show "startsWith (js w @ t) (js w)" by (auto simp: startsWith_iff)
  show "v = w" if v: "v \<in> set ws" "startsWith (js w @ t) (js v)" for v
    using js_prefix [OF v(2)]
  proof
    assume "take (length v) w = v"
    then show "v = w" by (rule prefix_free_pair [OF assms(1) v(1) assms(2)])
  next
    assume "take (length w) v = w"
    from prefix_free_pair [OF assms(1,2) v(1) this] show "v = w" by (rule sym)
  qed
qed

lemma spaces_end: "list_all js_space x \<Longrightarrow> u \<noteq> [] \<Longrightarrow> \<not> js_space (hd u) \<Longrightarrow> takeWhile js_space (x @ u @ t) = x"
  by (induction x) (auto simp: neq_Nil_conv)

lemma atom_len_complete:
  assumes "plain_atoms (a # as)" "atom_in a x" "atoms_in as y"
  shows "atom_len a (x @ y @ t) = Some (length x)"
proof (cases a)
  case (OneOf ws)
  with assms obtain w where "x = js w" "w \<in> set ws" "prefix_free ws" by auto
  with OneOf show ?thesis by (simp add: atom_len_def prefix_free_find)
next
  case (Lit w)
  with assms show ?thesis by (auto simp: atom_len_def startsWith_iff)
next
  case (CharOf cs)
  with assms show ?thesis by (auto simp: atom_len_def js_def)
next
  case Space0
  with assms dark_starts [of as y] show ?thesis by (simp add: atom_len_def spaces_end)
next
  case Space1
  with assms dark_starts [of as y] show ?thesis by (simp add: atom_len_def spaces_end)
qed

lemma atoms_len_complete: "plain_atoms as \<Longrightarrow> atoms_in as u \<Longrightarrow> atoms_len as (u @ t) = Some (length u)"
proof (induction as arbitrary: u)
  case (Cons a as)
  from Cons.prems(2) obtain x y where u: "u = x @ y" "atom_in a x" "atoms_in as y" by auto
  from atom_len_complete [OF Cons.prems(1) u(2,3), of t] Cons.IH [of y] Cons.prems(1) u show ?case by simp
qed simp

theorem matcher_exact:
  assumes "plain_atoms as"
  shows "atoms_len as s \<noteq> None \<longleftrightarrow> (\<exists>u v. s = u @ v \<and> atoms_in as u)"
proof
  assume "atoms_len as s \<noteq> None"
  then obtain n where "atoms_len as s = Some n" by auto
  from atoms_len_sound [OF this] show "\<exists>u v. s = u @ v \<and> atoms_in as u" by (metis append_take_drop_id)
qed (use atoms_len_complete [OF assms] in auto)

subsection \<open>A file\<close>

definition rule_at :: "atom list \<Rightarrow> jsstring \<Rightarrow> nat \<Rightarrow> bool" where
  "rule_at pattern body i \<longleftrightarrow>
     free_before (if i = 0 then None else Some (body ! (i - 1))) \<and> (\<exists>u v. drop i body = u @ v \<and> atoms_in pattern u)"

lemma match_indices_empty:
  "match_indices as prev i s = [] \<longleftrightarrow>
     (\<forall>j<length s. \<not> (free_before (if j = 0 then prev else Some (s ! (j - 1))) \<and> atoms_len as (drop j s) \<noteq> None))"
proof (induction as prev i s rule: match_indices.induct)
  case (2 as prev i c s)
  show ?case
  proof (cases "free_before prev \<and> atoms_len as (c # s) \<noteq> None")
    case True
    then show ?thesis by (auto intro!: exI [of _ 0])
  next
    case False
    then have e: "(if free_before prev then atoms_len as (c # s) else None) = None" by auto
    have "match_indices as prev i (c # s) = match_indices as (Some c) (Suc i) s" using e by simp
    also have "\<dots> = [] \<longleftrightarrow> (\<forall>j<length s. \<not> (free_before (if j = 0 then Some c else Some (s ! (j - 1))) \<and> atoms_len as (drop j s) \<noteq> None))"
      by (rule "2.IH"(1) [OF e])
    also have "\<dots> \<longleftrightarrow> (\<forall>j<length s. \<not> (free_before (Some ((c # s) ! j)) \<and> atoms_len as (drop j s) \<noteq> None))"
      by (intro all_cong) (auto simp: nth_Cons')
    finally show ?thesis using False by (auto simp: less_Suc_eq_0_disj)
  qed
qed simp

lemma match_indices_sound:
  assumes "\<forall>s n. atoms_len as s = Some n \<longrightarrow> 0 < n"
  shows "i \<in> set (match_indices as prev k s) \<Longrightarrow>
     \<exists>j<length s. i = k + j \<and> free_before (if j = 0 then prev else Some (s ! (j - 1))) \<and> atoms_len as (drop j s) \<noteq> None"
  using assms
proof (induction as prev k s rule: match_indices.induct)
  case (2 as prev k c s)
  show ?case
  proof (cases "if free_before prev then atoms_len as (c # s) else None")
    case None
    with "2.prems"(1) have "i \<in> set (match_indices as (Some c) (Suc k) s)" by simp
    from "2.IH"(1) [OF None this "2.prems"(2)] obtain j where j: "j < length s" "i = Suc k + j"
      "free_before (if j = 0 then Some c else Some (s ! (j - 1)))" "atoms_len as (drop j s) \<noteq> None" by blast
    then show ?thesis by (intro exI [of _ "Suc j"]) (auto simp: nth_Cons')
  next
    case (Some n)
    then have n: "free_before prev" "atoms_len as (c # s) = Some n" by (auto split: if_splits)
    have pos: "0 < n" "n \<le> Suc (length s)" using "2.prems"(2) n(2) atoms_len_sound [OF n(2)] by auto
    show ?thesis
    proof (cases "i = k")
      case True
      with n show ?thesis by (intro exI [of _ 0]) auto
    next
      case False
      with "2.prems"(1) Some have "i \<in> set (match_indices as (Some ((c # s) ! (n - 1))) (k + n) (drop (n - 1) s))" by simp
      from "2.IH"(2) [OF Some this "2.prems"(2)] obtain j where j: "j < length (drop (n - 1) s)" "i = k + n + j"
        "free_before (if j = 0 then Some ((c # s) ! (n - 1)) else Some (drop (n - 1) s ! (j - 1)))"
        "atoms_len as (drop j (drop (n - 1) s)) \<noteq> None" by blast
      have "drop (n + j) (c # s) = drop j (drop (n - 1) s)" using pos by (cases n) (auto simp: add.commute)
      moreover have "(if j = 0 then (c # s) ! (n - 1) else drop (n - 1) s ! (j - 1)) = (c # s) ! (n + j - 1)"
        using pos j(1) by (cases n; cases j) (auto simp: nth_Cons')
      ultimately show ?thesis using j pos by (intro exI [of _ "n + j"]) (auto split: if_splits)
    qed
  qed
qed simp

lemma rules_progress: "(pattern, reason) \<in> set RULES \<Longrightarrow> atoms_len pattern s = Some n \<Longrightarrow> 0 < n"
proof -
  assume r: "(pattern, reason) \<in> set RULES" and n: "atoms_len pattern s = Some n"
  have "list_all (\<lambda>(p, r). p \<noteq> [] \<and> dark_atom (hd p)) RULES" by (simp add: RULES_def dark_def js_space_def)
  with r have "pattern \<noteq> []" "dark_atom (hd pattern)" by (auto simp: list_all_iff)
  from dark_starts [OF this] atoms_len_sound [OF n] have "take n s \<noteq> []" by blast
  then show ?thesis by auto
qed

lemma rule_plain: "(pattern, reason) \<in> set RULES \<Longrightarrow> plain_atoms pattern"
  using rules_plain by (auto simp: list_all_iff)

lemma match_indices_rule_at:
  assumes "(pattern, reason) \<in> set RULES" "i \<in> set (match_indices pattern None 0 body)"
  shows "i < length body \<and> rule_at pattern body i"
proof -
  have "\<forall>s n. atoms_len pattern s = Some n \<longrightarrow> 0 < n" using rules_progress [OF assms(1)] by blast
  from match_indices_sound [OF this assms(2)]
  have "i < length body" "free_before (if i = 0 then None else Some (body ! (i - 1)))" "atoms_len pattern (drop i body) \<noteq> None"
    by auto
  with matcher_exact [OF rule_plain [OF assms(1)]] show ?thesis by (simp add: rule_at_def)
qed

text \<open>A scan without hits: no rule matches anywhere.\<close>

lemma scan_clean:
  "scanContents path body = [] \<longleftrightarrow> (\<forall>(pattern, reason)\<in>set RULES. \<forall>i<length body. \<not> rule_at pattern body i)"
proof -
  have "match_indices pattern None 0 body = [] \<longleftrightarrow> (\<forall>i<length body. \<not> rule_at pattern body i)"
    if "(pattern, reason) \<in> set RULES" for pattern reason
    unfolding match_indices_empty rule_at_def matcher_exact [OF rule_plain [OF that]] by blast
  then show ?thesis by (auto simp: scanContents_def)
qed

subsection \<open>Lines and columns\<close>

abbreviation with_newlines :: "jsstring list \<Rightarrow> jsstring" where
  "with_newlines ls \<equiv> concat (map (\<lambda>l. l @ [10]) ls)"

lemma split_lines_join: "with_newlines (split_lines body) = body @ [10]"
proof (induction body)
  case (Cons c s)
  then show ?case by (cases "split_lines s") auto
qed simp

lemma locate_spec:
  "acc \<le> idx \<Longrightarrow> idx < acc + length (with_newlines ls) \<Longrightarrow>
   \<exists>k<length ls. \<exists>col. locate ls idx acc n = (n + k + 1, col) \<and> 1 \<le> col \<and> col \<le> length (ls ! k) + 1
     \<and> idx = acc + length (with_newlines (take k ls)) + (col - 1)"
proof (induction ls arbitrary: acc n)
  case (Cons l ls)
  show ?case
  proof (cases "idx < acc + (length l + 1)")
    case True
    with Cons.prems show ?thesis by (intro exI [of _ 0]) auto
  next
    case False
    with Cons.prems have "acc + (length l + 1) \<le> idx" "idx < acc + (length l + 1) + length (with_newlines ls)" by auto
    from Cons.IH [OF this, of "n + 1"] obtain k col where "k < length ls" "locate ls idx (acc + (length l + 1)) (n + 1) = (n + 1 + k + 1, col)"
      "1 \<le> col" "col \<le> length (ls ! k) + 1" "idx = acc + (length l + 1) + length (with_newlines (take k ls)) + (col - 1)" by blast
    with False show ?thesis by (intro exI [of _ "Suc k"]) auto
  qed
qed simp

lemma hit_place:
  assumes "i < length body"
  shows "let h = hit_at path (split_lines body) reason i in
     1 \<le> hit_line h \<and> hit_line h \<le> length (split_lines body) \<and> 1 \<le> hit_col h
     \<and> hit_col h \<le> length (split_lines body ! (hit_line h - 1)) + 1
     \<and> i = length (with_newlines (take (hit_line h - 1) (split_lines body))) + (hit_col h - 1)"
proof -
  have "i < 0 + length (with_newlines (split_lines body))" using assms by (simp add: split_lines_join)
  from locate_spec [OF _ this, of 0] show ?thesis by (auto simp: hit_at_def Let_def)
qed

subsection \<open>The trees\<close>

inductive addon_dir :: "(jsstring \<times> fs_node) list \<Rightarrow> (jsstring \<times> fs_node) list \<Rightarrow> bool" where
  addon_here: "(name, FDir (Some inside)) \<in> set es \<Longrightarrow> \<not> skipped_name name \<Longrightarrow> js ''manifest.json'' \<in> fst ` set inside
    \<Longrightarrow> addon_dir es inside"
| addon_deeper: "(name, FDir (Some inside)) \<in> set es \<Longrightarrow> \<not> skipped_name name \<Longrightarrow> js ''manifest.json'' \<notin> fst ` set inside
    \<Longrightarrow> addon_dir inside x \<Longrightarrow> addon_dir es x"

inductive shipped_file :: "(jsstring \<times> fs_node) list \<Rightarrow> bytes \<Rightarrow> bool" where
  file_here: "(name, FFile b) \<in> set es \<Longrightarrow> \<not> skipped_name name \<Longrightarrow> scanned_name name \<Longrightarrow> shipped_file es b"
| file_deeper: "(name, FDir (Some inside)) \<in> set es \<Longrightarrow> \<not> skipped_name name \<Longrightarrow> shipped_file inside b \<Longrightarrow> shipped_file es b"

lemma addon_roots_append: "addon_roots dir (es @ fs) = addon_roots dir es @ addon_roots dir fs"
  by (induction dir es rule: addon_roots.induct) auto

lemma addon_roots_complete: "addon_dir es x \<Longrightarrow> \<exists>p. (p, x) \<in> set (addon_roots dir es)"
proof (induction es x arbitrary: dir rule: addon_dir.induct)
  case (addon_here name inside es)
  then obtain xs ys where "es = xs @ (name, FDir (Some inside)) # ys" by (meson split_list)
  with addon_here show ?case by (auto simp: addon_roots_append)
next
  case (addon_deeper name inside es x)
  then obtain xs ys where "es = xs @ (name, FDir (Some inside)) # ys" by (meson split_list)
  with addon_deeper show ?case by (auto simp: addon_roots_append)
qed

lemma files_complete:
  "shipped_file es b \<Longrightarrow> listFilesRecursive dir es = Inr files \<Longrightarrow> b \<in> snd ` set files"
proof (induction es b arbitrary: dir files rule: shipped_file.induct)
  case (file_here name b es)
  from file_here.hyps(1) file_here.prems show ?case
    using file_here.hyps(2,3)
    by (induction dir es arbitrary: files rule: listFilesRecursive.induct) (auto simp: then_ok_Inr split: if_splits)
next
  case (file_deeper name inside es b)
  from file_deeper.hyps(1) file_deeper.prems show ?case
    using file_deeper.hyps(2) file_deeper.IH
    by (induction dir es arbitrary: files rule: listFilesRecursive.induct) (auto simp: then_ok_Inr image_Un split: if_splits)
qed

lemma exit_clean:
  assumes exit: "forbidden_exit_code tree = 0" and r: "r \<in> set SCAN_ROOTS" "tree (js r) = Some (FDir (Some es))"
    and d: "addon_dir es inside" and f: "shipped_file inside b"
  shows "\<forall>(pattern, reason)\<in>set RULES. \<forall>i<length (utf8_decode_nobom b). \<not> rule_at pattern (utf8_decode_nobom b) i"
proof -
  from exit obtain n where h: "forbidden_hits tree = Inr (n, [])"
    by (auto simp: forbidden_exit_code_def split: sum.splits prod.splits if_splits)
  then obtain found hits where found: "throwing_map (\<lambda>r. findAddonRoots (js r) (tree (js r))) SCAN_ROOTS = Inr found"
    and hits: "throwing_map scan_addon (sort_key fst (concat found)) = Inr hits" "concat hits = []"
    by (auto simp: forbidden_hits_def then_ok_Inr)
  from addon_roots_complete [OF d] obtain p where p: "(p, inside) \<in> set (addon_roots (js r) es)" by blast
  from throwing_map_in [OF found r(1)] r(2) p have "(p, inside) \<in> set (concat found)"
    by (auto simp: findAddonRoots_def)
  then have "(p, inside) \<in> set (sort_key fst (concat found))" by simp
  from throwing_map_in [OF hits(1) this] hits(2) have "scan_addon (p, inside) = Inr []" by auto
  then obtain files where files: "listFilesRecursive p inside = Inr files"
    and clean: "concat (map (\<lambda>(file, b). scanContents file (utf8_decode_nobom b)) files) = []"
    by (auto simp: scan_addon_def then_ok_Inr)
  from files_complete [OF f files] clean obtain fl where "scanContents fl (utf8_decode_nobom b) = []" by fastforce
  then show ?thesis by (simp add: scan_clean)
qed

text \<open>Without a hit although it is a call of \<open>fetch\<close>: the look-behind excludes every member access.\<close>

lemma member_call_unseen: "scanContents path (js ''window.fetch(u)'') = []"
  by (simp add: scanContents_def RULES_def js_Cons free_before_def word_char_def in_cls_def atom_len_def startsWith_def js_space_def)

end
