(* ===== verification/Web_Page.thy ===== *)
theory Web_Page
  imports Gallery Url_Fragment Invite Peer_Session Addon_Manifest Event_System
begin

text \<open>
  The messenger's page (\<open>apps/web/src/main.ts\<close>): what it keeps, what it shows and what it asks of the
  session, the add-on host and the browser. The elements its \<open>querySelector\<close>s look for are those of
  \<open>apps/web/index.html\<close>, so none is missing. The signaling adapter is the page's own and part of its state; a
  session, a host or a stream is a number, and what the page sees of it arrives as an event. What waits for a
  promise is a \<open>web_task\<close>; continuations of promises that are settled already run at once. Texts leave out the time
  of day and, like errors, the values quoted in them; their dashes are colons.
\<close>

subsection \<open>The platform\<close>

text \<open>
  \<open>we_param k u\<close> is \<open>u.searchParams.get(k)\<close>, \<open>we_base\<close> is \<open>location.origin\<close> with \<open>location.pathname\<close>, \<open>we_random k\<close> the bytes behind the page's \<open>k\<close>th room id,
  \<open>we_qr\<close> the library's drawing at an error correction level, or nothing when the text is too long for it.
\<close>

record ('u, 'pk, 'sk) web_env =
  we_api :: "'u url_api"
  we_param :: "string \<Rightarrow> 'u \<Rightarrow> jsstring option"
  we_deflate :: transform
  we_inflate :: transform
  we_crypto :: "('pk, 'sk) web_crypto option"
  we_dates :: date_api
  we_me :: jsstring
  we_base :: jsstring
  we_random :: "nat \<Rightarrow> bytes option"
  we_qr :: "string \<Rightarrow> jsstring \<Rightarrow> jsstring option"

definition SENN_PROTOCOL_VERSION :: jsstring where
  "SENN_PROTOCOL_VERSION = js ''0.1.0''"

subsection \<open>Texts\<close>

definition short :: "jsstring \<Rightarrow> jsstring" where
  "short i = take 6 i @ 0x2026 # drop (length i - 4) i"

definition fmtUptime :: "int \<Rightarrow> jsstring" where
  "fmtUptime ms =
     (let s = ms div 1000 in
      if s < 60 then js_String (jint s) @ js ''s''
      else let rest = js_String (jint (s mod 60)) in
        js_String (jint (s div 60)) @ js ''m'' @ replicate (2 - length rest) (ch CHR ''0'') @ rest @ js ''s'')"

definition ice_label :: "jsstring \<Rightarrow> jsstring" where
  "ice_label u =
     (if u = [] then js ''?''
      else if startsWith u (js ''turn:'') \<or> startsWith u (js ''turns:'') then js ''TURN('' @ u @ js '')''
      else if startsWith u (js ''stun:'') then js ''STUN('' @ u @ js '')''
      else u)"

fun join_dots :: "jsstring list \<Rightarrow> jsstring" where
  "join_dots [] = []"
| "join_dots [t] = t"
| "join_dots (t # ts) = t @ [32, 0xB7, 32] @ join_dots ts"

text \<open>The servers of \<open>RTC_CONFIG\<close>, each with its list of URLs.\<close>

definition renderIceInfo :: "jsstring list list \<Rightarrow> jsstring" where
  "renderIceInfo servers =
     (if servers = [] then js ''ICE: none configured (direct only)''
      else js ''ICE: '' @ join_dots (concat (map (map ice_label) servers)))"

text \<open>The first error correction level that holds the text.\<close>

definition renderQr :: "(string \<Rightarrow> jsstring \<Rightarrow> jsstring option) \<Rightarrow> jsstring \<Rightarrow> jsstring" where
  "renderQr qr t =
     (case qr ''M'' t of
        Some svg \<Rightarrow> svg
      | None \<Rightarrow> (case qr ''L'' t of Some svg \<Rightarrow> svg | None \<Rightarrow> js ''(URL too long for QR: use copy)''))"

subsection \<open>Captured tracks\<close>

text \<open>
  \<open>requestAudio\<close> and \<open>requestVideo\<close> hand out the first track of the kind asked for and stop the others; \<open>r\<close> is what
  \<open>getUserMedia\<close> (or \<open>getDisplayMedia\<close>) gave, as the tracks of the kind and all tracks.
\<close>

definition request_track :: "err + nat list \<times> nat list \<Rightarrow> nat option \<times> nat list \<times> err option" where
  "request_track r =
     (case r of
        Inl e \<Rightarrow> (None, [], Some e)
      | Inr (of_kind, tracks) \<Rightarrow>
          (let track = (case of_kind of [] \<Rightarrow> None | t # _ \<Rightarrow> Some t) in
           (track, filter (\<lambda>t. Some t \<noteq> track) tracks, None)))"

subsection \<open>State\<close>

record page_session =
  sn_role :: ps_role
  sn_room :: jsstring
  sn_state :: ps_status

datatype handoff =
    HoNone
  | HoRefused
  | HoFetching jsstring jsstring
  | HoFailed
  | HoReady (ho_addon: jsstring) (ho_publisher: jsstring) (ho_name: jsval) (ho_keys: "jsval list")
      (ho_confirmed: bool) (ho_cancelled: bool)

text \<open>Who asked for a link, an import, a start or a load; \<open>ForLink\<close> goes on with the rest of \<open>consumeUrl\<close>.\<close>

datatype link_for = LinkExport | LinkShare
datatype import_for = ImportButton | ImportLoad
datatype start_for = ForCreate | ForRetry | ForLink import_for jsstring "sig_bundle option"
datatype load_for = LoadButton | LoadRegistry | LoadHandoff jsval

datatype web_task =
    TStart nat start_for
  | TRetrySession
  | TRetryHost
  | TExported link_for jsstring "err + jsstring"
  | TLink link_for "err + jsstring"
  | TParse import_for jsstring
  | TImport import_for bool nat
  | TSend jsstring
  | TCopy
  | TLoadClosed jsstring "verify_options option" load_for
  | TLoad jsstring "verify_options option" load_for
  | TMicStop
  | TMicStart
  | TCallMedia
  | TCallTrack nat "nat list" "nat list"
  | TCallStop "nat list"
  | TOfficial
  | THandoff
  | TBoot jsstring

text \<open>What the audio element plays: a stream of the peer's, or the \<open>k\<close>th that the page made of a track.\<close>

datatype audio_source = PeerStream nat | MadeStream nat

datatype 'u web_answer =
    AOk
  | AFailed err
  | AHost "'u load_env"
  | AResponse response
  | AMedia nat "nat list"
  | ASender nat

record launcher_row =
  la_id :: jsval
  la_url :: "jsstring option"

text \<open>What the page asks for.\<close>

datatype web_out =
    WLog jsstring
  | WNewSession nat session
  | WStart nat
  | WCloseSession nat
  | WSessionText nat jsstring
  | WAddTrack nat nat
  | WRemoveSender nat
  | WStopStream nat
  | WStopMic nat
  | WCloseHost nat
  | WLoad jsstring "verify_options option" "nat option"
  | WLevel nat jsnum
  | WClipboard jsstring
  | WFetch jsstring
  | WHandler handler sig_message
  | WStripUrl
  | WThrow err

record web_page =
  wp_transport :: url_fragment_adapter
  wp_room :: "jsstring option"
  wp_remotePeer :: "jsstring option"
  wp_session :: "nat option"
  wp_sessions :: "page_session list"
  wp_rooms :: nat
  wp_addonHost :: "nat option"
  wp_hosts :: "addon_manifest list"
  wp_mic :: "nat option"
  wp_mics :: "bool list"
  wp_audio :: "audio_source option"
  wp_madeStreams :: nat
  wp_call :: "(nat \<times> nat list) option"
  wp_stateLabel :: ps_status
  wp_connectedAt :: "int option"
  wp_uptimeTimer :: bool
  wp_uptime :: jsstring
  wp_retryShown :: bool
  wp_roomLabel :: jsstring
  wp_exportOut :: jsstring
  wp_importIn :: jsstring
  wp_textIn :: jsstring
  wp_shareUrl :: jsstring
  wp_shareQr :: jsstring
  wp_shareOpen :: bool
  wp_shareStatus :: string
  wp_addonState :: string
  wp_micStatus :: string
  wp_callStatus :: string
  wp_callDisabled :: bool
  wp_callShown :: bool
  wp_official :: "jsval list option \<times> launcher_row list"
  wp_officialStatus :: string
  wp_handoff :: handoff
  wp_handoffStatus :: string
  wp_tasks :: "web_task list"

type_synonym page_result = "web_page \<times> web_out list"

definition page_log :: "string \<Rightarrow> web_out list" where
  "page_log t = [WLog (js t)]"

fun err_message :: "err \<Rightarrow> string" where
  "err_message (Thrown c m) = m"

definition log_error :: "string \<Rightarrow> err \<Rightarrow> web_out list" where
  "log_error t e = page_log (t @ err_message e)"

definition wait :: "web_task \<Rightarrow> web_page \<Rightarrow> web_page" where
  "wait t p = p\<lparr>wp_tasks := wp_tasks p @ [t]\<rparr>"

subsection \<open>The status line\<close>

definition refreshUptime :: "int \<Rightarrow> web_page \<Rightarrow> web_page" where
  "refreshUptime now p =
     p\<lparr>wp_uptime := (case wp_connectedAt p of None \<Rightarrow> [] | Some t \<Rightarrow> js ''up '' @ fmtUptime (now - t))\<rparr>"

definition setSessionState :: "int \<Rightarrow> ps_status \<Rightarrow> web_page \<Rightarrow> web_page" where
  "setSessionState now s p =
     (let p1 = p\<lparr>wp_stateLabel := s\<rparr>;
          p2 = (if s = SConnected then (refreshUptime now (p1\<lparr>wp_connectedAt := Some now\<rparr>))\<lparr>wp_uptimeTimer := True\<rparr>
                else refreshUptime now (p1\<lparr>wp_connectedAt := None, wp_uptimeTimer := False\<rparr>))
      in p2\<lparr>wp_retryShown := (s = SFailed \<or> s = SClosed)\<rparr>)"

lemma refreshUptime_fields [simp]:
  "wp_transport (refreshUptime n p) = wp_transport p" "wp_room (refreshUptime n p) = wp_room p"
  "wp_remotePeer (refreshUptime n p) = wp_remotePeer p" "wp_session (refreshUptime n p) = wp_session p"
  "wp_sessions (refreshUptime n p) = wp_sessions p" "wp_rooms (refreshUptime n p) = wp_rooms p"
  "wp_addonHost (refreshUptime n p) = wp_addonHost p" "wp_hosts (refreshUptime n p) = wp_hosts p"
  "wp_handoff (refreshUptime n p) = wp_handoff p" "wp_tasks (refreshUptime n p) = wp_tasks p"
  "wp_official (refreshUptime n p) = wp_official p"
  by (simp_all add: refreshUptime_def)

lemma setSessionState_fields [simp]:
  "wp_transport (setSessionState n s p) = wp_transport p" "wp_room (setSessionState n s p) = wp_room p"
  "wp_remotePeer (setSessionState n s p) = wp_remotePeer p" "wp_session (setSessionState n s p) = wp_session p"
  "wp_sessions (setSessionState n s p) = wp_sessions p" "wp_rooms (setSessionState n s p) = wp_rooms p"
  "wp_addonHost (setSessionState n s p) = wp_addonHost p" "wp_hosts (setSessionState n s p) = wp_hosts p"
  "wp_handoff (setSessionState n s p) = wp_handoff p" "wp_tasks (setSessionState n s p) = wp_tasks p"
  "wp_official (setSessionState n s p) = wp_official p"
  by (simp_all add: setSessionState_def Let_def)

end
