(* ===== verification/Web_Room.thy ===== *)
theory Web_Room
  imports Web_Page
begin

text \<open>
  Rooms and links of the messenger's page: creating and joining a room, the links it exports and those it opens,
  text messages, and the reset behind the retry button. Each definition is a function or a listener of
  \<open>apps/web/src/main.ts\<close> up to its next \<open>await\<close>, or what follows one.
\<close>

subsection \<open>Sessions\<close>

definition attachSession :: "nat \<Rightarrow> web_page \<Rightarrow> web_page" where
  "attachSession n p = setSessionState 0 (sn_state (wp_sessions p ! n)) (p\<lparr>wp_session := Some n\<rparr>)"

text \<open>\<open>new PeerSession\<close>, \<open>attachSession\<close> and the call of \<open>start\<close>.\<close>

definition open_session ::
  "('u, 'pk, 'sk) web_env \<Rightarrow> ps_role \<Rightarrow> jsstring \<Rightarrow> jsstring option \<Rightarrow> start_for \<Rightarrow> web_page \<Rightarrow> page_result" where
  "open_session env role r remote after p =
     (let n = length (wp_sessions p);
          p1 = attachSession n (p\<lparr>wp_sessions := wp_sessions p @ [\<lparr>sn_role = role, sn_room = r, sn_state = SIdle\<rparr>]\<rparr>)
      in (wait (TStart n after) p1, [WNewSession n (new_session role r (we_me env) remote), WStart n]))"

fun status_text :: "ps_status \<Rightarrow> string" where
  "status_text SIdle = ''idle''"
| "status_text SConnecting = ''connecting''"
| "status_text SConnected = ''connected''"
| "status_text SClosed = ''closed''"
| "status_text SFailed = ''failed''"

text \<open>The \<open>"state"\<close> listener; it stays attached to a session that the page has dropped.\<close>

definition on_session_state :: "nat \<Rightarrow> ps_status \<Rightarrow> int \<Rightarrow> web_page \<Rightarrow> page_result option" where
  "on_session_state n st now p =
     (if n \<ge> length (wp_sessions p) then None
      else Some ((setSessionState now st (p\<lparr>wp_sessions := (wp_sessions p)[n := (wp_sessions p ! n)\<lparr>sn_state := st\<rparr>]\<rparr>))
             \<lparr>wp_callDisabled := (st \<noteq> SConnected)\<rparr>, page_log (''session: '' @ status_text st)))"

subsection \<open>Imports\<close>

fun import_done :: "import_for \<Rightarrow> web_page \<Rightarrow> web_page" where
  "import_done ImportButton p = p\<lparr>wp_importIn := []\<rparr>"
| "import_done ImportLoad p = p"

fun import_failed :: "import_for \<Rightarrow> err \<Rightarrow> web_page \<Rightarrow> page_result" where
  "import_failed ImportButton e p = (import_done ImportButton p, log_error ''import error: '' e)"
| "import_failed ImportLoad e p = (p, log_error ''auto-import error: '' e)"

text \<open>What follows \<open>await transport.importBundle(encoded)\<close>; \<open>via\<close> says that an invite link was opened.\<close>

definition import_settled :: "import_for \<Rightarrow> bool \<Rightarrow> err + jsstring \<times> nat \<Rightarrow> web_page \<Rightarrow> page_result" where
  "import_settled who via res p =
     (case res of
        Inl e \<Rightarrow> import_failed who e p
      | Inr (r, delivered) \<Rightarrow>
          (import_done who p,
           [WLog (js ''imported '' @ js_String (jint (int delivered)) @ js '' signaling message(s) ''
                  @ (if via then js ''via invite URL'' else js ''for '' @ short r))]))"

definition import_bundle :: "import_for \<Rightarrow> bool \<Rightarrow> jsstring \<Rightarrow> web_page \<Rightarrow> page_result" where
  "import_bundle who via encoded p =
     (let n = uf_next_import (wp_transport p); (t, outs) = uf_importBundle encoded (wp_transport p);
          p1 = p\<lparr>wp_transport := t\<rparr> in
      case outs of
        [UfImported m res] \<Rightarrow> import_settled who via res p1
      | _ \<Rightarrow> (wait (TImport who via n) p1, []))"

text \<open>The rest of \<open>consumeUrl\<close> once the page has joined (or has been in a room already).\<close>

definition after_join ::
  "('u, 'pk, 'sk) web_env \<Rightarrow> import_for \<Rightarrow> jsstring \<Rightarrow> sig_bundle option \<Rightarrow> web_page \<Rightarrow> page_result" where
  "after_join env who href bundle p =
     (case bundle of
        None \<Rightarrow> (import_done who p, [])
      | Some _ \<Rightarrow>
          (case uf_fromUrl (we_api env) href of
             Inl e \<Rightarrow> import_failed who e p
           | Inr None \<Rightarrow> (import_done who p, [])
           | Inr (Some encoded) \<Rightarrow>
               if encoded = [] then (import_done who p, []) else import_bundle who True encoded p))"

subsection \<open>Creating and joining\<close>

fun start_done :: "('u, 'pk, 'sk) web_env \<Rightarrow> start_for \<Rightarrow> web_page \<Rightarrow> page_result" where
  "start_done env ForCreate p = (p, [])"
| "start_done env ForRetry p = (p, [])"
| "start_done env (ForLink who href bundle) p = after_join env who href bundle p"

fun start_failed :: "start_for \<Rightarrow> err \<Rightarrow> web_page \<Rightarrow> page_result" where
  "start_failed ForCreate e p = (p, log_error ''start error: '' e)"
| "start_failed ForRetry e p = (p, log_error ''retry error: '' e)"
| "start_failed (ForLink who href bundle) e p = import_failed who e p"

definition prepend :: "web_out list \<Rightarrow> page_result \<Rightarrow> page_result" where
  "prepend os r = (fst r, os @ snd r)"

definition startInviter :: "('u, 'pk, 'sk) web_env \<Rightarrow> start_for \<Rightarrow> web_page \<Rightarrow> page_result" where
  "startInviter env after p =
     (case wp_room p of
        Some r \<Rightarrow> start_done env after p
      | None \<Rightarrow>
          (let p1 = p\<lparr>wp_rooms := Suc (wp_rooms p)\<rparr> in
           case newRoomId (we_random env (wp_rooms p)) of
             Inl e \<Rightarrow> start_failed after e p1
           | Inr r \<Rightarrow>
               prepend [WLog (js ''room = '' @ short r @ js '' (inviter)'')]
                 (open_session env Inviter r None after (p1\<lparr>wp_room := Some r, wp_roomLabel := r\<rparr>))))"

definition startJoiner :: "('u, 'pk, 'sk) web_env \<Rightarrow> invite_payload \<Rightarrow> start_for \<Rightarrow> web_page \<Rightarrow> page_result" where
  "startJoiner env invite after p =
     (case wp_room p of
        Some r \<Rightarrow>
          if r \<noteq> inv_roomId invite
          then prepend [WLog (js ''ignoring invite for a different room '' @ short (inv_roomId invite))] (start_done env after p)
          else start_done env after p
      | None \<Rightarrow>
          (let r = inv_roomId invite in
           prepend [WLog (js ''room = '' @ short r @ js '' (joiner; inviter = '' @ short (inv_from invite) @ js '')'')]
             (open_session env Joiner r (Some (inv_from invite)) after
               (p\<lparr>wp_room := Some r, wp_remotePeer := Some (inv_from invite), wp_roomLabel := r\<rparr>))))"

definition consumeUrl :: "('u, 'pk, 'sk) web_env \<Rightarrow> import_for \<Rightarrow> jsstring \<Rightarrow> web_page \<Rightarrow> page_result" where
  "consumeUrl env who href p =
     (if str_includes (js ''#'') href \<and> str_includes (js ''i='') href then (wait (TParse who href) p, [])
      else (case uf_fromUrl (we_api env) href of
          Inl e \<Rightarrow> import_failed who e p
        | Inr found \<Rightarrow>
            (let encoded = (case found of None \<Rightarrow> href | Some enc \<Rightarrow> enc) in
             if wp_room p = None
             then (import_done who p, page_log ''cannot import bundle: no active room (join via an invite URL first)'')
             else import_bundle who False encoded p)))"

text \<open>What follows \<open>await parseInviteBundleUrl(href)\<close>.\<close>

definition link_parsed :: "('u, 'pk, 'sk) web_env \<Rightarrow> import_for \<Rightarrow> jsstring \<Rightarrow> web_page \<Rightarrow> page_result" where
  "link_parsed env who href p =
     (case parseInviteBundleUrl (we_api env) (we_inflate env) href of
        Inl e \<Rightarrow> import_failed who e p
      | Inr parsed \<Rightarrow> startJoiner env (parsed_invite parsed) (ForLink who href (parsed_bundle parsed)) p)"

definition on_import :: "('u, 'pk, 'sk) web_env \<Rightarrow> web_page \<Rightarrow> page_result" where
  "on_import env p =
     (let value = js_trim (wp_importIn p) in if value = [] then (p, []) else consumeUrl env ImportButton value p)"

text \<open>The end of the module: the page's own address may carry an invite or a bundle.\<close>

definition auto_import :: "('u, 'pk, 'sk) web_env \<Rightarrow> jsstring \<Rightarrow> web_page \<Rightarrow> page_result" where
  "auto_import env href p =
     (case url_parse (we_api env) href of
        None \<Rightarrow> (p, [])
      | Some u \<Rightarrow>
          if str_includes (js ''i='') (url_hash (we_api env) u) \<or> str_includes (js ''s='') (url_hash (we_api env) u)
          then consumeUrl env ImportLoad href p else (p, []))"

subsection \<open>Links\<close>

definition LinkCapabilities :: "jsstring list" where
  "LinkCapabilities = [js ''text-v1'']"

definition page_invite :: "('u, 'pk, 'sk) web_env \<Rightarrow> jsstring \<Rightarrow> invite_payload" where
  "page_invite env r = \<lparr>inv_roomId = r, inv_from = we_me env, inv_protocolVersion = SENN_PROTOCOL_VERSION,
     inv_capabilities = LinkCapabilities, inv_note = None\<rparr>"

definition invite_link :: "('u, 'pk, 'sk) web_env \<Rightarrow> jsstring \<Rightarrow> jsstring \<Rightarrow> err + jsstring" where
  "invite_link env r encoded =
     then_ok (decodeSignalingBundle (we_inflate env) encoded) (\<lambda>decoded.
       buildInviteBundleUrl (we_api env) (we_deflate env) (we_base env) (invite_val (page_invite env r))
         (bundle_val \<lparr>bundle_roomId = r, bundle_messages = bundle_messages decoded\<rparr>))"

definition bundle_link :: "('u, 'pk, 'sk) web_env \<Rightarrow> jsstring \<Rightarrow> jsstring" where
  "bundle_link env encoded = we_base env @ ch CHR ''#'' # uf_toFragment encoded"

definition isFirstHop :: "web_page \<Rightarrow> bool" where
  "isFirstHop p \<longleftrightarrow> wp_remotePeer p = None
     \<and> (case wp_session p of None \<Rightarrow> False | Some n \<Rightarrow> sn_role (wp_sessions p ! n) = Inviter)"

text \<open>What the export and share buttons do with the link; \<open>None\<close> is \<open>null\<close>, no room.\<close>

fun export_shown :: "err + jsstring option \<Rightarrow> web_page \<Rightarrow> page_result" where
  "export_shown (Inl e) p = (p\<lparr>wp_exportOut := js (''(error: '' @ err_message e @ '')'')\<rparr>, [])"
| "export_shown (Inr None) p = (p\<lparr>wp_exportOut := js ''(create a room first)''\<rparr>, [])"
| "export_shown (Inr (Some url)) p = (p\<lparr>wp_exportOut := (if url = [] then js ''(outbox empty)'' else url)\<rparr>, [])"

fun share_shown :: "('u, 'pk, 'sk) web_env \<Rightarrow> err + jsstring option \<Rightarrow> web_page \<Rightarrow> page_result" where
  "share_shown env (Inl e) p = (p, log_error ''share error: '' e)"
| "share_shown env (Inr None) p = (p, page_log ''share: create a room first'')"
| "share_shown env (Inr (Some url)) p =
     (if url = [] then (p, page_log ''share: create a room first'')
      else (p\<lparr>wp_exportOut := url, wp_shareUrl := url, wp_shareQr := renderQr (we_qr env) url, wp_shareStatus := '''',
              wp_shareOpen := True\<rparr>, []))"

fun link_settled :: "('u, 'pk, 'sk) web_env \<Rightarrow> link_for \<Rightarrow> err + jsstring option \<Rightarrow> web_page \<Rightarrow> page_result" where
  "link_settled env LinkExport res p = export_shown res p"
| "link_settled env LinkShare res p = share_shown env res p"

definition composeExportUrl :: "('u, 'pk, 'sk) web_env \<Rightarrow> link_for \<Rightarrow> web_page \<Rightarrow> page_result" where
  "composeExportUrl env who p =
     (case wp_room p of
        None \<Rightarrow> link_settled env who (Inr None) p
      | Some r \<Rightarrow>
          (let (t, res) = uf_exportBundle (we_deflate env) r (wp_transport p) in
           (wait (TExported who r res) (p\<lparr>wp_transport := t\<rparr>), [])))"

text \<open>What follows \<open>await transport.exportBundle(r)\<close>; an invite link is awaited once more.\<close>

definition bundle_exported ::
  "('u, 'pk, 'sk) web_env \<Rightarrow> link_for \<Rightarrow> jsstring \<Rightarrow> err + jsstring \<Rightarrow> web_page \<Rightarrow> page_result" where
  "bundle_exported env who r res p =
     (case res of
        Inl e \<Rightarrow> link_settled env who (Inl e) p
      | Inr encoded \<Rightarrow>
          if encoded = [] then link_settled env who (Inr (Some [])) p
          else if isFirstHop p then (wait (TLink who (invite_link env r encoded)) p, [])
          else link_settled env who (Inr (Some (bundle_link env encoded))) p)"

definition on_share_copy :: "web_page \<Rightarrow> page_result" where
  "on_share_copy p = (wait TCopy p, [WClipboard (wp_shareUrl p)])"

definition share_copied :: "bool \<Rightarrow> web_page \<Rightarrow> page_result" where
  "share_copied ok p = (p\<lparr>wp_shareStatus := if ok then ''copied'' else ''select + copy manually''\<rparr>, [])"

subsection \<open>Text\<close>

definition on_send_text :: "web_page \<Rightarrow> page_result" where
  "on_send_text p =
     (case wp_session p of
        None \<Rightarrow> (p, [])
      | Some n \<Rightarrow> if wp_textIn p = [] then (p, []) else (wait (TSend (wp_textIn p)) p, [WSessionText n (wp_textIn p)]))"

definition text_sent :: "jsstring \<Rightarrow> err option \<Rightarrow> web_page \<Rightarrow> page_result" where
  "text_sent value failed p =
     (case failed of
        None \<Rightarrow> (p\<lparr>wp_textIn := []\<rparr>, [WLog (js ''me text: '' @ value)])
      | Some e \<Rightarrow> (p, log_error ''send error: '' e))"

subsection \<open>Retry\<close>

definition retry_reset :: "('u, 'pk, 'sk) web_env \<Rightarrow> web_page \<Rightarrow> page_result" where
  "retry_reset env p =
     prepend (page_log ''retry: reset; ready to create a new room'')
       (startInviter env ForRetry (setSessionState 0 SIdle
          (p\<lparr>wp_room := None, wp_remotePeer := None, wp_roomLabel := [], wp_exportOut := []\<rparr>)))"

definition retry_host :: "('u, 'pk, 'sk) web_env \<Rightarrow> web_page \<Rightarrow> page_result" where
  "retry_host env p =
     (case wp_addonHost p of
        Some h \<Rightarrow> (wait TRetryHost p, [WCloseHost h])
      | None \<Rightarrow> retry_reset env p)"

definition resetForRetry :: "('u, 'pk, 'sk) web_env \<Rightarrow> web_page \<Rightarrow> page_result" where
  "resetForRetry env p =
     (case wp_session p of
        Some n \<Rightarrow> (wait TRetrySession p, [WCloseSession n])
      | None \<Rightarrow> retry_host env p)"

text \<open>What follows the two \<open>close\<close>s, whether or not they failed.\<close>

definition retry_session_closed :: "('u, 'pk, 'sk) web_env \<Rightarrow> web_page \<Rightarrow> page_result" where
  "retry_session_closed env p = retry_host env (p\<lparr>wp_session := None\<rparr>)"

definition retry_host_closed :: "('u, 'pk, 'sk) web_env \<Rightarrow> web_page \<Rightarrow> page_result" where
  "retry_host_closed env p = retry_reset env (p\<lparr>wp_addonHost := None\<rparr>)"

subsection \<open>The adapter\<close>

text \<open>
  Calls of the sessions into the adapter, and the ends of its decodings: handlers run, and the import that
  waited goes on.
\<close>

fun import_waiting :: "nat \<Rightarrow> web_task list \<Rightarrow> (import_for \<times> bool) option" where
  "import_waiting n [] = None"
| "import_waiting n (TImport who via m # ts) = (if m = n then Some (who, via) else import_waiting n ts)"
| "import_waiting n (_ # ts) = import_waiting n ts"

fun imports_other :: "nat \<Rightarrow> web_task \<Rightarrow> bool" where
  "imports_other n (TImport who via m) = (m \<noteq> n)"
| "imports_other n _ = True"

fun adapter_outs :: "uf_out list \<Rightarrow> web_page \<Rightarrow> page_result" where
  "adapter_outs [] p = (p, [])"
| "adapter_outs (UfCall h m # os) p = prepend [WHandler h m] (adapter_outs os p)"
| "adapter_outs (UfImported n res # os) p =
     (case import_waiting n (wp_tasks p) of
        None \<Rightarrow> adapter_outs os p
      | Some (who, via) \<Rightarrow>
          (let (p1, outs) = import_settled who via res (p\<lparr>wp_tasks := filter (imports_other n) (wp_tasks p)\<rparr>)
           in prepend outs (adapter_outs os p1)))"
| "adapter_outs (_ # os) p = adapter_outs os p"

fun adapter_event :: "uf_event \<Rightarrow> bool" where
  "adapter_event (UfPublish r m) = True"
| "adapter_event (UfSubscribe r h) = True"
| "adapter_event (UfUnsubscribe r h) = True"
| "adapter_event (UfDecoded n) = True"
| "adapter_event _ = False"

definition on_adapter :: "('u, 'pk, 'sk) web_env \<Rightarrow> uf_event \<Rightarrow> web_page \<Rightarrow> page_result option" where
  "on_adapter env ev p =
     (if \<not> adapter_event ev then None
      else case uf_step (we_deflate env) (we_inflate env) ev (wp_transport p) of
          None \<Rightarrow> None
        | Some (t, outs) \<Rightarrow> Some (adapter_outs outs (p\<lparr>wp_transport := t\<rparr>)))"

end
