(* ===== verification/Web_Addons.thy ===== *)
theory Web_Addons
  imports Web_Page
begin

text \<open>
  Add-ons and media of the messenger's page: loading an add-on, the official registry's list, the hand-off from
  a gallery, the microphone and the call. Each definition is a function or a listener of \<open>apps/web/src/main.ts\<close> up to its
  next \<open>await\<close>, or what follows one.
\<close>

subsection \<open>Loading an add-on\<close>

definition BUTTON_ADDONS :: "string list" where
  "BUTTON_ADDONS = [''/addons/echo/manifest.json'', ''/addons/whiteboard/manifest.json'',
     ''/addons/avatar-presence/manifest.json'', ''/addons/local-vault/manifest.json'', ''/addons/voice-meter/manifest.json'']"

text \<open>\<open>AddonHost.load\<close> is called with the session of that moment.\<close>

definition load_begun :: "jsstring \<Rightarrow> verify_options option \<Rightarrow> load_for \<Rightarrow> web_page \<Rightarrow> page_result" where
  "load_begun url verify who p = (wait (TLoad url verify who) p, [WLoad url verify (wp_session p)])"

definition loadAddonByManifest :: "jsstring \<Rightarrow> verify_options option \<Rightarrow> load_for \<Rightarrow> web_page \<Rightarrow> page_result" where
  "loadAddonByManifest url verify who p =
     (case wp_addonHost p of
        Some h \<Rightarrow> (wait (TLoadClosed url verify who) p, [WCloseHost h])
      | None \<Rightarrow> load_begun url verify who p)"

text \<open>The promise of \<open>loadAddonByManifest\<close> settles; only the hand-off looks.\<close>

definition load_resolved :: "load_for \<Rightarrow> web_page \<Rightarrow> web_page" where
  "load_resolved who p = (case who of LoadHandoff name \<Rightarrow> p\<lparr>wp_handoffStatus := ''loaded''\<rparr> | _ \<Rightarrow> p)"

definition load_rejected :: "load_for \<Rightarrow> err \<Rightarrow> web_page \<Rightarrow> page_result" where
  "load_rejected who e p =
     (case who of
        LoadHandoff name \<Rightarrow> (p\<lparr>wp_handoffStatus := ''load failed: '' @ err_message e\<rparr>, [])
      | _ \<Rightarrow> (p, [WThrow e]))"

definition old_host_closed :: "jsstring \<Rightarrow> verify_options option \<Rightarrow> load_for \<Rightarrow> err option \<Rightarrow> web_page \<Rightarrow> page_result" where
  "old_host_closed url verify who failed p =
     (case failed of
        None \<Rightarrow> load_begun url verify who (p\<lparr>wp_addonHost := None\<rparr>)
      | Some e \<Rightarrow> load_rejected who e p)"

text \<open>What follows \<open>await AddonHost.load(opts)\<close>: a failure is logged and goes no further.\<close>

definition host_loaded :: "jsstring \<Rightarrow> load_for \<Rightarrow> err + addon_manifest \<Rightarrow> web_page \<Rightarrow> page_result" where
  "host_loaded url who res p =
     (case res of
        Inl e \<Rightarrow> (load_resolved who p, log_error ''addon load error: '' e)
      | Inr m \<Rightarrow>
          (load_resolved who (p\<lparr>wp_addonHost := Some (length (wp_hosts p)), wp_hosts := wp_hosts p @ [m],
              wp_addonState := ''mounted''\<rparr>),
           [WLog (js ''addon loaded: '' @ am_id m @ js '' v'' @ am_version m)]))"

text \<open>The listeners on a loaded host; they stay attached to one that the page has dropped.\<close>

definition on_host_state :: "nat \<Rightarrow> string \<Rightarrow> web_page \<Rightarrow> page_result option" where
  "on_host_state h st p =
     (if h < length (wp_hosts p) then Some (p\<lparr>wp_addonState := st\<rparr>, page_log (''addon: '' @ st)) else None)"

definition on_host_send :: "nat \<Rightarrow> jsstring \<Rightarrow> web_page \<Rightarrow> page_result option" where
  "on_host_send h json p =
     (if h < length (wp_hosts p) then Some (p, [WLog (js ''addon -> peers: '' @ take 80 json)]) else None)"

definition on_host_error :: "nat \<Rightarrow> string \<Rightarrow> web_page \<Rightarrow> page_result option" where
  "on_host_error h m p =
     (if h < length (wp_hosts p) then Some (p, page_log (''addon error: '' @ m)) else None)"

definition required :: "jsval list \<Rightarrow> verify_options" where
  "required keys = \<lparr>vo_mode = VerifyRequired, vo_trustedKeys = Some (map str_of keys)\<rparr>"

subsection \<open>The official registry\<close>

definition registryPathToUrl :: "jsstring \<Rightarrow> jsstring option" where
  "registryPathToUrl path =
     (let prefix = js ''apps/web/public/'' in
      if \<not> startsWith path prefix then None
      else Some (ch CHR ''/'' # drop (length prefix) path @ js ''/manifest.json''))"

text \<open>\<open>new Set(v)\<close>.\<close>

definition new_set :: "jsval \<Rightarrow> err + jsval list" where
  "new_set v = (if v = Undef \<or> v = Null then Inr [] else then_ok (iterated v) (\<lambda>xs. Inr (foldl js_set_add [] xs)))"

definition page_fetched :: "response \<Rightarrow> err + jsval" where
  "page_fetched res = (if \<not> rs_ok res then Inl (Thrown ''Error'' ''HTTP '') else rs_json res)"

text \<open>
  One list item: its address is the button's, or it has none. Any property of \<open>null\<close> throws, and so do
  \<open>startsWith\<close> and \<open>join\<close> of what is not a string or an array.
\<close>

definition joinable :: "jsval \<Rightarrow> bool" where
  "joinable v = (is_arr v \<and> \<not> list_ex unprintable (arr_of v))"

definition nullish :: "jsval \<Rightarrow> bool" where
  "nullish v = (v = Undef \<or> v = Null)"

text \<open>\<open>v.length > 0\<close>; of an object, when its own \<open>length\<close> is a number.\<close>

definition has_length :: "jsval \<Rightarrow> bool" where
  "has_length v =
     (case v of
        Arr xs \<Rightarrow> xs \<noteq> []
      | Str s \<Rightarrow> s \<noteq> []
      | Obj fs \<Rightarrow> (case fld fs ''length'' of Num x \<Rightarrow> num_less (Fin 0) x | _ \<Rightarrow> False)
      | _ \<Rightarrow> False)"

definition launcher_addon :: "jsval \<Rightarrow> err + launcher_row" where
  "launcher_addon addon =
     (let f = own_fields addon; cats = fld f ''categories''; dep = own_fields (fld f ''deprecated'') in
      if \<not> is_str (fld f ''path'')
         \<or> list_ex (\<lambda>k. unprintable (fld f k)) [''id'', ''name'', ''version'', ''description'']
         \<or> \<not> joinable (fld f ''capabilities'')
         \<or> (has_length cats \<and> \<not> joinable cats)
         \<or> list_ex (\<lambda>k. unprintable (fld dep k)) [''supersededBy'', ''since'', ''reason'']
      then Inl (Thrown ''TypeError'' '''')
      else Inr \<lparr>la_id = fld f ''id'', la_url = registryPathToUrl (str_of (fld f ''path''))\<rparr>)"

text \<open>The loop over the add-ons: the items before the first that throws, and the error.\<close>

fun launcher_rows :: "jsval list \<Rightarrow> launcher_row list \<times> err option" where
  "launcher_rows [] = ([], None)"
| "launcher_rows (a # as) =
     (case launcher_addon a of
        Inl e \<Rightarrow> ([], Some e)
      | Inr row \<Rightarrow> (case launcher_rows as of (rows, e) \<Rightarrow> (row # rows, e)))"

definition renderOfficialRegistry :: "web_page \<Rightarrow> page_result" where
  "renderOfficialRegistry p =
     (wait TOfficial (p\<lparr>wp_officialStatus := ''loading'', wp_official := (None, [])\<rparr>),
      [WFetch (js ''/registry/official/index.json'')])"

text \<open>The publisher's name and the add-ons' number go into the status line before the items are made.\<close>

definition official_fetched :: "err + response \<Rightarrow> web_page \<Rightarrow> page_result" where
  "official_fetched answer p =
     (case then_ok answer page_fetched of
        Inl e \<Rightarrow> (p\<lparr>wp_officialStatus := ''registry unavailable: '' @ err_message e\<rparr>, [])
      | Inr registry \<Rightarrow>
          (let f = own_fields registry; publisher = fld f ''publisher''; addons = fld f ''addons'' in
           case new_set (fld f ''trustedKeys'') of
             Inl e \<Rightarrow> (p, [WThrow e])
           | Inr keys \<Rightarrow>
               if nullish publisher \<or> unprintable (fld (own_fields publisher) ''name'') \<or> nullish addons
               then (p, [WThrow (Thrown ''TypeError'' '''')])
               else (let p1 = p\<lparr>wp_officialStatus := ''publisher''\<rparr> in
                 case iterated addons of
                   Inl e \<Rightarrow> (p1, [WThrow e])
                 | Inr as \<Rightarrow>
                     (p1\<lparr>wp_official := (Some keys, fst (launcher_rows as))\<rparr>,
                      (case snd (launcher_rows as) of None \<Rightarrow> [] | Some e \<Rightarrow> [WThrow e])))))"

text \<open>The button of an item.\<close>

definition on_official :: "nat \<Rightarrow> web_page \<Rightarrow> page_result option" where
  "on_official i p =
     (case wp_official p of
        (Some keys, rows) \<Rightarrow>
          if i < length rows
          then (case la_url (rows ! i) of
              None \<Rightarrow> None
            | Some url \<Rightarrow> Some (loadAddonByManifest url (Some (required keys)) LoadRegistry p))
          else None
      | _ \<Rightarrow> None)"

subsection \<open>The hand-off from a gallery\<close>

text \<open>
  \<open>fingerprintKey\<close> of a trusted key, as far as whether it returns: what has a length of at most 14 is shown as it is,
  a longer string or array is abbreviated, anything else has no \<open>slice\<close>.
\<close>

definition fingerprint_shown :: "jsval \<Rightarrow> bool" where
  "fingerprint_shown v =
     (case v of
        Str s \<Rightarrow> True
      | Arr xs \<Rightarrow> \<not> list_ex unprintable xs
      | Obj fs \<Rightarrow> (case fld fs ''length'' of Num x \<Rightarrow> num_le x (Fin 14) \<and> \<not> unprintable v | _ \<Rightarrow> False)
      | _ \<Rightarrow> False)"

text \<open>The text \<open>fingerprintKey\<close> gives for a string, the gallery's copy of the function.\<close>

definition web_fingerprintKey :: "jsstring \<Rightarrow> jsstring" where
  "web_fingerprintKey k = (if length k \<le> 14 then k else take 8 k @ 0x2026 # drop (length k - 4) k)"

definition handleHandoff :: "('u, 'pk, 'sk) web_env \<Rightarrow> jsstring \<Rightarrow> web_page \<Rightarrow> page_result" where
  "handleHandoff env href p =
     (case url_parse (we_api env) href of
        None \<Rightarrow> (p, [WThrow (Thrown ''TypeError'' '''')])
      | Some u \<Rightarrow>
          (case we_param env ''addon'' u of
             None \<Rightarrow> (p, [])
           | Some addonUrl \<Rightarrow>
               if addonUrl = [] then (p, [])
               else (case we_param env ''publisher'' u of
                   Some publisherUrl \<Rightarrow>
                     if publisherUrl = []
                     then (p\<lparr>wp_handoff := HoRefused, wp_handoffStatus := ''refused: hand-off URL is missing the publisher parameter''\<rparr>, [])
                     else (wait THandoff (p\<lparr>wp_handoff := HoFetching addonUrl publisherUrl,
                             wp_handoffStatus := ''fetching publisher registry''\<rparr>), [WFetch publisherUrl])
                 | None \<Rightarrow> (p\<lparr>wp_handoff := HoRefused, wp_handoffStatus := ''refused: hand-off URL is missing the publisher parameter''\<rparr>, []))))"

text \<open>\<open>json.v\<close> of \<open>null\<close> throws, and the fetch's \<open>catch\<close> refuses the hand-off as it does for a wrong schema.\<close>

definition handoff_registry :: "response \<Rightarrow> err + jsval" where
  "handoff_registry res =
     then_ok (page_fetched res) (\<lambda>json.
       let f = own_fields json in
       if json = Null then Inl (Thrown ''TypeError'' '''')
       else if fld f ''v'' \<notin> {jint 1, jint 2} \<or> \<not> is_arr (fld f ''trustedKeys'') \<or> arr_of (fld f ''trustedKeys'') = []
       then Inl (Thrown ''Error'' ''publisher registry schema invalid'')
       else Inr json)"

definition handoff_fetched :: "err + response \<Rightarrow> web_page \<Rightarrow> page_result" where
  "handoff_fetched answer p =
     (case wp_handoff p of
        HoFetching addonUrl publisherUrl \<Rightarrow>
          (case then_ok answer handoff_registry of
             Inl e \<Rightarrow> (p\<lparr>wp_handoff := HoFailed,
                        wp_handoffStatus := ''refused: cannot load publisher registry: '' @ err_message e\<rparr>, [])
           | Inr registry \<Rightarrow>
               (let f = own_fields registry; publisher = fld f ''publisher'';
                    keys = foldl js_set_add [] (arr_of (fld f ''trustedKeys'')) in
                if nullish publisher \<or> \<not> list_all fingerprint_shown keys \<or> unprintable (fld (own_fields publisher) ''name'')
                then (p, [WThrow (Thrown ''TypeError'' '''')])
                else (p\<lparr>wp_handoff := HoReady addonUrl publisherUrl (fld (own_fields publisher) ''name'') keys False False,
                        wp_handoffStatus := ''ready to load: confirm to mount the add-on''\<rparr>, [])))
      | _ \<Rightarrow> (p, []))"

text \<open>The two buttons; each listener runs once.\<close>

definition on_confirm :: "web_page \<Rightarrow> page_result option" where
  "on_confirm p =
     (case wp_handoff p of
        HoReady a u name keys confirmed cancelled \<Rightarrow>
          if confirmed \<or> cancelled then None
          else Some (loadAddonByManifest a (Some (required keys)) (LoadHandoff name)
                 (p\<lparr>wp_handoff := HoReady a u name keys True cancelled, wp_handoffStatus := ''loading add-on under publisher trust root''\<rparr>))
      | _ \<Rightarrow> None)"

definition on_cancel :: "web_page \<Rightarrow> page_result option" where
  "on_cancel p =
     (case wp_handoff p of
        HoReady a u name keys confirmed cancelled \<Rightarrow>
          if cancelled then None else Some (p\<lparr>wp_handoff := HoReady a u name keys confirmed True\<rparr>, [WStripUrl])
      | HoRefused \<Rightarrow> Some (p\<lparr>wp_handoff := HoNone\<rparr>, [])
      | _ \<Rightarrow> None)"

subsection \<open>The microphone\<close>

text \<open>A pipeline is a number; \<open>wp_mics\<close> says of each whether its timer runs.\<close>

definition on_mic_toggle :: "web_page \<Rightarrow> page_result" where
  "on_mic_toggle p =
     (case wp_mic p of
        Some k \<Rightarrow> (wait TMicStop (p\<lparr>wp_mics := (wp_mics p)[k := False]\<rparr>), [WStopMic k])
      | None \<Rightarrow> (wait TMicStart p, []))"

definition mic_stopped :: "web_page \<Rightarrow> page_result" where
  "mic_stopped p = (p\<lparr>wp_mic := None, wp_micStatus := ''mic: off''\<rparr>, [])"

definition mic_started :: "err option \<Rightarrow> web_page \<Rightarrow> page_result" where
  "mic_started failed p =
     (case failed of
        None \<Rightarrow> (p\<lparr>wp_mic := Some (length (wp_mics p)), wp_mics := wp_mics p @ [True], wp_micStatus := ''mic: on (publishing levels to active addon)''\<rparr>, [])
      | Some e \<Rightarrow> (p\<lparr>wp_micStatus := ''mic: error: '' @ err_message e\<rparr>, []))"

text \<open>The timer of a pipeline; \<open>level\<close> is what it computes from the samples.\<close>

definition mic_tick :: "nat \<Rightarrow> jsnum \<Rightarrow> web_page \<Rightarrow> page_result option" where
  "mic_tick k level p =
     (if k < length (wp_mics p) \<and> wp_mics p ! k
      then Some (p, (case wp_addonHost p of None \<Rightarrow> [] | Some h \<Rightarrow> [WLevel h level])) else None)"

subsection \<open>The call\<close>

definition on_call_start :: "web_page \<Rightarrow> page_result" where
  "on_call_start p =
     (if wp_session p = None then (p\<lparr>wp_callStatus := ''call: no session''\<rparr>, [])
      else if wp_call p \<noteq> None then (p, [])
      else (wait TCallMedia p, []))"

definition call_failed :: "err \<Rightarrow> web_page \<Rightarrow> page_result" where
  "call_failed e p = (p\<lparr>wp_callStatus := ''call: error: '' @ err_message e\<rparr>, [])"

text \<open>The loop over the stream's audio tracks; \<open>session\<close> is read anew for each.\<close>

definition call_next :: "nat \<Rightarrow> nat list \<Rightarrow> nat list \<Rightarrow> web_page \<Rightarrow> page_result" where
  "call_next stream tracks senders p =
     (case tracks of
        [] \<Rightarrow> (p\<lparr>wp_call := Some (stream, senders), wp_callStatus := ''call: live'', wp_callShown := False\<rparr>, [])
      | t # ts \<Rightarrow>
          (case wp_session p of
             None \<Rightarrow> call_failed (Thrown ''TypeError'' '''') p
           | Some n \<Rightarrow> (wait (TCallTrack stream ts senders) p, [WAddTrack n t])))"

definition call_media :: "err + nat \<times> nat list \<Rightarrow> web_page \<Rightarrow> page_result" where
  "call_media res p =
     (case res of Inl e \<Rightarrow> call_failed e p | Inr (stream, tracks) \<Rightarrow> call_next stream tracks [] p)"

definition call_track :: "nat \<Rightarrow> nat list \<Rightarrow> nat list \<Rightarrow> err + nat \<Rightarrow> web_page \<Rightarrow> page_result" where
  "call_track stream tracks senders res p =
     (case res of Inl e \<Rightarrow> call_failed e p | Inr sender \<Rightarrow> call_next stream tracks (senders @ [sender]) p)"

text \<open>
  The stop button: the senders of the call that was active, one after another, then the stream of the one that is
  active by then; the \<open>finally\<close> runs in any case.
\<close>

definition call_stop :: "nat list \<Rightarrow> web_page \<Rightarrow> page_result" where
  "call_stop senders p =
     (case senders of
        s # ss \<Rightarrow> (wait (TCallStop ss) p, [WRemoveSender s])
      | [] \<Rightarrow>
          (p\<lparr>wp_call := None, wp_callStatus := ''call: idle'', wp_callShown := True\<rparr>,
           (case wp_call p of None \<Rightarrow> [WThrow (Thrown ''TypeError'' '''')] | Some (stream, _) \<Rightarrow> [WStopStream stream])))"

definition on_call_stop :: "web_page \<Rightarrow> page_result" where
  "on_call_stop p = (case wp_call p of None \<Rightarrow> (p, []) | Some (stream, senders) \<Rightarrow> call_stop senders p)"

subsection \<open>The peer's audio\<close>

text \<open>\<open>streams[0] ?? new MediaStream([track])\<close>, played by the audio element.\<close>

definition play_audio :: "nat list \<Rightarrow> web_page \<Rightarrow> audio_source \<times> web_page" where
  "play_audio streams p =
     (case streams of
        s # _ \<Rightarrow> (PeerStream s, p\<lparr>wp_audio := Some (PeerStream s)\<rparr>)
      | [] \<Rightarrow> (MadeStream (wp_madeStreams p),
               p\<lparr>wp_audio := Some (MadeStream (wp_madeStreams p)), wp_madeStreams := Suc (wp_madeStreams p)\<rparr>))"

definition on_remote_track :: "track_kind \<Rightarrow> nat list \<Rightarrow> web_page \<Rightarrow> page_result" where
  "on_remote_track kind streams p =
     (if kind = Audio then snd (play_audio streams p) else p,
      page_log (''remote-track: '' @ (if kind = Audio then ''audio'' else ''video'')))"

definition on_remote_track_ended :: "track_kind \<Rightarrow> web_page \<Rightarrow> page_result" where
  "on_remote_track_ended kind p =
     (if kind = Audio then p\<lparr>wp_audio := None\<rparr> else p,
      page_log (''remote-track-ended: '' @ (if kind = Audio then ''audio'' else ''video'')))"

text \<open>The sink given to add-on hosts: \<open>attachAudio\<close>, and the function it returns for what it attached.\<close>

definition attachAudio :: "nat list \<Rightarrow> web_page \<Rightarrow> page_result" where
  "attachAudio streams p = (snd (play_audio streams p), [])"

definition detachAudio :: "audio_source \<Rightarrow> web_page \<Rightarrow> page_result" where
  "detachAudio src p = (if wp_audio p = Some src then p\<lparr>wp_audio := None\<rparr> else p, [])"

end
