(* ===== verification/Web_App.thy ===== *)
theory Web_App
  imports Web_Room Web_Addons
begin

text \<open>
  The messenger's page as one event system: its start, the buttons, what its sessions, adapter and timers do, and the
  ends of what it waits for.
\<close>

datatype 'u web_event =
    WCreate
  | WRetry
  | WExport
  | WShare
  | WShareCopy
  | WShareClose
  | WTypeImport jsstring
  | WImport
  | WTypeText jsstring
  | WSendText
  | WLoadButton nat
  | WLoadOfficial nat
  | WConfirm
  | WCancel
  | WMicToggle
  | WMicTick nat jsnum
  | WCallStart
  | WCallStop
  | WUptime int
  | WSessionState nat ps_status int
  | WPeerText nat jsstring
  | WSessionError nat string
  | WHostState nat string
  | WHostSend nat jsstring
  | WHostError nat string
  | WRemoteTrack nat track_kind "nat list"
  | WTrackEnded nat track_kind
  | WAttach "nat list"
  | WDetach audio_source
  | WAdapter uf_event
  | WResume nat "'u web_answer"

text \<open>\<open>done_or_failed\<close> is the outcome of a promise without a value.\<close>

fun done_or_failed :: "'u web_answer \<Rightarrow> err option option" where
  "done_or_failed AOk = Some None"
| "done_or_failed (AFailed e) = Some (Some e)"
| "done_or_failed _ = None"

fun response_of :: "'u web_answer \<Rightarrow> (err + response) option" where
  "response_of (AResponse r) = Some (Inr r)"
| "response_of (AFailed e) = Some (Inl e)"
| "response_of _ = None"

definition manifest_of :: "('u, 'pk, 'sk) web_env \<Rightarrow> jsstring \<Rightarrow> verify_options option \<Rightarrow> 'u load_env \<Rightarrow> err + addon_manifest" where
  "manifest_of env url verify le =
     then_ok (load_manifest le (we_crypto env) (we_dates env) url verify) (\<lambda>(m, _, _). Inr m)"

text \<open>What runs when a promise settles; \<open>None\<close> is an answer the promise cannot have.\<close>

fun web_resume :: "('u, 'pk, 'sk) web_env \<Rightarrow> web_task \<Rightarrow> 'u web_answer \<Rightarrow> web_page \<Rightarrow> page_result option" where
  "web_resume env (TStart n after) a p =
     (case done_or_failed a of
        None \<Rightarrow> None
      | Some None \<Rightarrow> Some (start_done env after p)
      | Some (Some e) \<Rightarrow> Some (start_failed after e p))"
| "web_resume env TRetrySession a p = map_option (\<lambda>_. retry_session_closed env p) (done_or_failed a)"
| "web_resume env TRetryHost a p = map_option (\<lambda>_. retry_host_closed env p) (done_or_failed a)"
| "web_resume env (TExported who r res) a p = (if a = AOk then Some (bundle_exported env who r res p) else None)"
| "web_resume env (TLink who res) a p =
     (if a = AOk then Some (link_settled env who (map_sum id Some res) p) else None)"
| "web_resume env (TParse who href) a p = (if a = AOk then Some (link_parsed env who href p) else None)"
| "web_resume env (TImport who via n) a p = None"
| "web_resume env (TSend value) a p = map_option (\<lambda>failed. text_sent value failed p) (done_or_failed a)"
| "web_resume env TCopy a p = map_option (\<lambda>failed. share_copied (failed = None) p) (done_or_failed a)"
| "web_resume env (TLoadClosed url verify who) a p =
     map_option (\<lambda>failed. old_host_closed url verify who failed p) (done_or_failed a)"
| "web_resume env (TLoad url verify who) a p =
     (case a of
        AHost le \<Rightarrow> Some (host_loaded url who (manifest_of env url verify le) p)
      | AFailed e \<Rightarrow> Some (host_loaded url who (Inl e) p)
      | _ \<Rightarrow> None)"
| "web_resume env TMicStop a p = (if a = AOk then Some (mic_stopped p) else None)"
| "web_resume env TMicStart a p = map_option (\<lambda>failed. mic_started failed p) (done_or_failed a)"
| "web_resume env TCallMedia a p =
     (case a of
        AMedia stream tracks \<Rightarrow> Some (call_media (Inr (stream, tracks)) p)
      | AFailed e \<Rightarrow> Some (call_media (Inl e) p)
      | _ \<Rightarrow> None)"
| "web_resume env (TCallTrack stream tracks senders) a p =
     (case a of
        ASender s \<Rightarrow> Some (call_track stream tracks senders (Inr s) p)
      | AFailed e \<Rightarrow> Some (call_track stream tracks senders (Inl e) p)
      | _ \<Rightarrow> None)"
| "web_resume env (TCallStop senders) a p = map_option (\<lambda>_. call_stop senders p) (done_or_failed a)"
| "web_resume env TOfficial a p = map_option (\<lambda>r. official_fetched r p) (response_of a)"
| "web_resume env THandoff a p = map_option (\<lambda>r. handoff_fetched r p) (response_of a)"
| "web_resume env (TBoot href) a p = (if a = AOk then Some (auto_import env href p) else None)"

text \<open>The retry button is there when it is shown, the call's start button when it is shown and enabled.\<close>

fun web_step :: "('u, 'pk, 'sk) web_env \<Rightarrow> 'u web_event \<Rightarrow> web_page \<Rightarrow> (web_page \<times> web_out list) option" where
  "web_step env WCreate p = Some (startInviter env ForCreate p)"
| "web_step env WRetry p = (if wp_retryShown p then Some (resetForRetry env p) else None)"
| "web_step env WExport p = Some (composeExportUrl env LinkExport p)"
| "web_step env WShare p = Some (composeExportUrl env LinkShare p)"
| "web_step env WShareCopy p = (if wp_shareOpen p then Some (on_share_copy p) else None)"
| "web_step env WShareClose p = Some (p\<lparr>wp_shareOpen := False\<rparr>, [])"
| "web_step env (WTypeImport t) p = Some (p\<lparr>wp_importIn := t\<rparr>, [])"
| "web_step env WImport p = Some (on_import env p)"
| "web_step env (WTypeText t) p = Some (p\<lparr>wp_textIn := t\<rparr>, [])"
| "web_step env WSendText p = Some (on_send_text p)"
| "web_step env (WLoadButton i) p =
     (if i < length BUTTON_ADDONS then Some (loadAddonByManifest (js (BUTTON_ADDONS ! i)) None LoadButton p) else None)"
| "web_step env (WLoadOfficial i) p = on_official i p"
| "web_step env WConfirm p = on_confirm p"
| "web_step env WCancel p = on_cancel p"
| "web_step env WMicToggle p = Some (on_mic_toggle p)"
| "web_step env (WMicTick k level) p = mic_tick k level p"
| "web_step env WCallStart p = (if wp_callShown p \<and> \<not> wp_callDisabled p then Some (on_call_start p) else None)"
| "web_step env WCallStop p = (if wp_callShown p then None else Some (on_call_stop p))"
| "web_step env (WUptime now) p = (if wp_uptimeTimer p then Some (refreshUptime now p, []) else None)"
| "web_step env (WSessionState n st now) p = on_session_state n st now p"
| "web_step env (WPeerText n t) p =
     (if n < length (wp_sessions p) then Some (p, [WLog (js ''peer text: '' @ t)]) else None)"
| "web_step env (WSessionError n m) p =
     (if n < length (wp_sessions p) then Some (p, page_log (''session error: '' @ m)) else None)"
| "web_step env (WHostState h st) p = on_host_state h st p"
| "web_step env (WHostSend h json) p = on_host_send h json p"
| "web_step env (WHostError h m) p = on_host_error h m p"
| "web_step env (WRemoteTrack n kind streams) p =
     (if n < length (wp_sessions p) then Some (on_remote_track kind streams p) else None)"
| "web_step env (WTrackEnded n kind) p =
     (if n < length (wp_sessions p) then Some (on_remote_track_ended kind p) else None)"
| "web_step env (WAttach streams) p = Some (attachAudio streams p)"
| "web_step env (WDetach src) p = Some (detachAudio src p)"
| "web_step env (WAdapter ev) p = on_adapter env ev p"
| "web_step env (WResume i a) p =
     (if i < length (wp_tasks p)
      then web_resume env (wp_tasks p ! i) a (p\<lparr>wp_tasks := take i (wp_tasks p) @ drop (Suc i) (wp_tasks p)\<rparr>)
      else None)"

text \<open>
  The module's own start at \<open>href\<close>: the elements as \<open>index.html\<close> has them, the official registry's list, the hand-off,
  and the import of the page's address, which waits for a module.
\<close>

definition empty_page :: web_page where
  "empty_page = \<lparr>wp_transport = new_url_fragment, wp_room = None, wp_remotePeer = None, wp_session = None,
     wp_sessions = [], wp_rooms = 0, wp_addonHost = None, wp_hosts = [], wp_mic = None, wp_mics = [], wp_audio = None,
     wp_madeStreams = 0, wp_call = None,
     wp_stateLabel = SIdle, wp_connectedAt = None, wp_uptimeTimer = False, wp_uptime = [], wp_retryShown = False,
     wp_roomLabel = [], wp_exportOut = [], wp_importIn = [], wp_textIn = [], wp_shareUrl = [], wp_shareQr = [],
     wp_shareOpen = False, wp_shareStatus = '''', wp_addonState = ''none'', wp_micStatus = ''mic: off'',
     wp_callStatus = ''call: idle'', wp_callDisabled = True, wp_callShown = True, wp_official = (None, []),
     wp_officialStatus = ''loading'', wp_handoff = HoNone, wp_handoffStatus = '''', wp_tasks = []\<rparr>"

definition page_start :: "('u, 'pk, 'sk) web_env \<Rightarrow> jsstring \<Rightarrow> page_result" where
  "page_start env href =
     (let (p1, os1) = renderOfficialRegistry empty_page; (p2, os2) = handleHandoff env href p1
      in (wait (TBoot href) p2, os1 @ os2))"

end
