(* ===== verification/Web_App_Props.thy ===== *)
theory Web_App_Props
  imports Web_App
begin

text \<open>
  The messenger's page shows what it does: no add-on is loaded that the page does not carry, that its own registry does
  not list, or that was not confirmed under the keys on display; and retries that do not overlap leave no session open.
  Steps that do not concern an invariant are \<open>quiet\<close> for it.
\<close>

subsection \<open>Add-ons are loaded as shown\<close>

fun load_task :: "web_task \<Rightarrow> bool" where
  "load_task TOfficial = True"
| "load_task (TLoad url verify who) = True"
| "load_task (TLoadClosed url verify who) = True"
| "load_task _ = False"

fun load_out :: "web_out \<Rightarrow> bool" where
  "load_out (WLoad url verify s) = True"
| "load_out _ = False"

definition quiet :: "web_page \<Rightarrow> page_result \<Rightarrow> bool" where
  "quiet p r \<longleftrightarrow> wp_official (fst r) = wp_official p \<and> wp_handoff (fst r) = wp_handoff p
     \<and> filter load_task (wp_tasks (fst r)) = filter load_task (wp_tasks p) \<and> list_all (\<lambda>out. \<not> load_out out) (snd r)"

lemma quiet_prepend [simp]: "quiet p (prepend os r) \<longleftrightarrow> quiet p r \<and> list_all (\<lambda>out. \<not> load_out out) os"
  by (auto simp: quiet_def prepend_def)

lemma quiet_pair:
  "quiet p (p', os) \<longleftrightarrow> wp_official p' = wp_official p \<and> wp_handoff p' = wp_handoff p
     \<and> filter load_task (wp_tasks p') = filter load_task (wp_tasks p) \<and> list_all (\<lambda>out. \<not> load_out out) os"
  by (simp add: quiet_def)

lemma quiet_change: "quiet p r \<Longrightarrow> wp_official p = wp_official q \<Longrightarrow> wp_handoff p = wp_handoff q
   \<Longrightarrow> filter load_task (wp_tasks p) = filter load_task (wp_tasks q) \<Longrightarrow> quiet q r"
  by (simp add: quiet_def)

lemma quiet_texts [simp]: "list_all (\<lambda>out. \<not> load_out out) (page_log t)" "list_all (\<lambda>out. \<not> load_out out) (log_error t e)"
  by (simp_all add: page_log_def log_error_def)


lemma quiet_import_failed [simp]: "quiet p (import_failed who e p)"
  by (cases who) (simp_all add: quiet_pair)

lemma import_done_fields [simp]:
  "wp_official (import_done who p) = wp_official p" "wp_handoff (import_done who p) = wp_handoff p"
  "wp_tasks (import_done who p) = wp_tasks p" "wp_session (import_done who p) = wp_session p"
  "wp_sessions (import_done who p) = wp_sessions p" "wp_room (import_done who p) = wp_room p"
  "wp_transport (import_done who p) = wp_transport p" "wp_remotePeer (import_done who p) = wp_remotePeer p"
  by (cases who; simp)+

lemma quiet_import_settled [simp]: "quiet p (import_settled who via res p)"
  by (auto simp: import_settled_def quiet_pair split: sum.split)

lemma quiet_import_bundle [simp]: "quiet p (import_bundle who via enc p)"
proof -
  have "quiet p (import_settled who via res (p\<lparr>wp_transport := t\<rparr>))" for res t
    by (rule quiet_change [OF quiet_import_settled]) simp_all
  then show ?thesis
    by (auto simp: import_bundle_def Let_def quiet_pair wait_def split: prod.split list.split uf_out.split)
qed

lemma quiet_after_join [simp]: "quiet p (after_join env who href b p)"
  by (auto simp: after_join_def quiet_pair split: option.split sum.split)

lemma quiet_start_done [simp]: "quiet p (start_done env after p)"
  by (cases after) (simp_all add: quiet_pair)

lemma quiet_start_failed [simp]: "quiet p (start_failed after e p)"
  by (cases after) (simp_all add: quiet_pair)

lemma quiet_open_session [simp]: "quiet p (open_session env role r remote after p)"
  by (simp add: open_session_def attachSession_def wait_def quiet_pair Let_def)

lemma quiet_startInviter [simp]: "quiet p (startInviter env after p)"
  by (auto simp: startInviter_def Let_def split: option.split sum.split
      intro: quiet_change [OF quiet_start_failed] quiet_change [OF quiet_open_session])

lemma quiet_startJoiner [simp]: "quiet p (startJoiner env invite after p)"
  by (auto simp: startJoiner_def Let_def split: option.split intro: quiet_change [OF quiet_open_session])

lemma quiet_consumeUrl [simp]: "quiet p (consumeUrl env who href p)"
  by (auto simp: consumeUrl_def Let_def quiet_pair wait_def split: sum.split option.split)

lemma quiet_link_parsed [simp]: "quiet p (link_parsed env who href p)"
  by (auto simp: link_parsed_def split: sum.split)

lemma quiet_on_import [simp]: "quiet p (on_import env p)"
  by (simp add: on_import_def Let_def quiet_pair)

lemma quiet_auto_import [simp]: "quiet p (auto_import env href p)"
  by (auto simp: auto_import_def quiet_pair split: option.split)

lemma quiet_shown [simp]: "quiet p (export_shown res p)" "quiet p (share_shown env res p)"
  by (cases "(res, p)" rule: export_shown.cases; simp add: quiet_pair)+

lemma quiet_link_settled [simp]: "quiet p (link_settled env who res p)"
  by (cases who) simp_all

lemma quiet_composeExportUrl [simp]: "quiet p (composeExportUrl env who p)"
  by (auto simp: composeExportUrl_def quiet_pair wait_def split: option.split prod.split)

lemma quiet_bundle_exported [simp]: "quiet p (bundle_exported env who r res p)"
  by (auto simp: bundle_exported_def quiet_pair wait_def split: sum.split)

lemma quiet_retry_reset [simp]: "quiet p (retry_reset env p)"
  unfolding retry_reset_def quiet_prepend by (auto intro: quiet_change [OF quiet_startInviter])

lemma quiet_retry_host [simp]: "quiet p (retry_host env p)"
  by (auto simp: retry_host_def quiet_pair wait_def split: option.split)

lemma quiet_retry [simp]:
  "quiet p (resetForRetry env p)" "quiet p (retry_session_closed env p)" "quiet p (retry_host_closed env p)"
  by (auto simp: resetForRetry_def retry_session_closed_def retry_host_closed_def quiet_pair wait_def split: option.split
      intro: quiet_change [OF quiet_retry_host] quiet_change [OF quiet_retry_reset])

lemma imports_other_load [simp]: "load_task t \<Longrightarrow> imports_other n t"
  by (cases t) auto

lemma filter_imports [simp]: "filter (\<lambda>t. imports_other n t \<and> load_task t) ts = filter load_task ts"
  by (rule filter_cong) auto

lemma quiet_adapter_outs: "quiet p (adapter_outs outs p)"
proof (induction outs p rule: adapter_outs.induct)
  case (3 n res os p)
  show ?case
  proof (cases "import_waiting n (wp_tasks p)")
    case (Some w)
    obtain who via where w: "w = (who, via)" by (cases w)
    let ?q = "p\<lparr>wp_tasks := filter (imports_other n) (wp_tasks p)\<rparr>"
    obtain p1 o1 where p1: "import_settled who via res ?q = (p1, o1)" by (cases "import_settled who via res ?q")
    have "quiet ?q (p1, o1)" using quiet_import_settled [of ?q] p1 by metis
    moreover have "quiet p1 (adapter_outs os p1)" using "3.IH"(2) [OF Some w [symmetric] refl p1 [symmetric]] by simp
    ultimately show ?thesis by (simp add: Some w p1) (auto simp: quiet_def)
  qed (use "3.IH"(1) in simp)
qed (simp_all add: quiet_pair)

lemma quiet_on_adapter: "on_adapter env ev p = Some r \<Longrightarrow> quiet p r"
  by (auto simp: on_adapter_def split: if_splits option.splits intro: quiet_change [OF quiet_adapter_outs])

text \<open>The media steps.\<close>

lemma quiet_call_next [simp]: "quiet p (call_next stream tracks senders p)"
  by (auto simp: call_next_def call_failed_def quiet_pair wait_def split: list.split option.split)

lemma quiet_call [simp]:
  "quiet p (call_media r p)" "quiet p (call_track stream tracks senders s p)" "quiet p (call_stop senders p)"
  "quiet p (on_call_start p)" "quiet p (on_call_stop p)"
  by (auto simp: call_media_def call_track_def call_failed_def call_stop_def on_call_start_def on_call_stop_def quiet_pair
      wait_def split: sum.split option.split list.split)

lemma quiet_mic [simp]: "quiet p (on_mic_toggle p)" "quiet p (mic_stopped p)" "quiet p (mic_started e p)"
  by (auto simp: on_mic_toggle_def mic_stopped_def mic_started_def quiet_pair wait_def split: option.split)

lemma quiet_audio [simp]:
  "quiet p (on_remote_track k ss p)" "quiet p (on_remote_track_ended k p)" "quiet p (attachAudio ss p)"
  "quiet p (detachAudio src p)"
  by (auto simp: on_remote_track_def on_remote_track_ended_def attachAudio_def detachAudio_def play_audio_def quiet_pair
      split: list.split)

lemma quiet_text [simp]: "quiet p (on_send_text p)" "quiet p (text_sent v e p)" "quiet p (on_share_copy p)" "quiet p (share_copied b p)"
  by (auto simp: on_send_text_def text_sent_def on_share_copy_def share_copied_def quiet_pair wait_def split: option.split)

lemma quiet_session_state: "on_session_state n st now p = Some r \<Longrightarrow> quiet p r"
  by (auto simp: on_session_state_def quiet_pair split: if_splits)

lemma quiet_host:
  "on_host_state h st p = Some r \<Longrightarrow> quiet p r" "on_host_send h json p = Some r \<Longrightarrow> quiet p r"
  "on_host_error h m p = Some r \<Longrightarrow> quiet p r"
  by (auto simp: on_host_state_def on_host_send_def on_host_error_def quiet_pair split: if_splits)

lemma quiet_mic_tick: "mic_tick k level p = Some r \<Longrightarrow> quiet p r"
  by (auto simp: mic_tick_def quiet_pair split: if_splits option.split)

lemma quiet_fields [simp]:
  "quiet p (p\<lparr>wp_shareOpen := b\<rparr>, [])" "quiet p (p\<lparr>wp_importIn := t\<rparr>, [])" "quiet p (p\<lparr>wp_textIn := t\<rparr>, [])"
  "quiet p (refreshUptime now p, [])" "quiet p (p, [WLog t])" "quiet p (p, page_log l)"
  by (simp_all add: quiet_pair)

text \<open>What a load may name: a bundled add-on, an item of the official list, or the confirmed hand-off.\<close>

definition proposed :: "('u, 'pk, 'sk) web_env \<Rightarrow> jsstring \<Rightarrow> jsstring \<Rightarrow> jsstring \<Rightarrow> bool" where
  "proposed env href a u \<longleftrightarrow>
     (\<exists>loc. url_parse (we_api env) href = Some loc \<and> we_param env ''addon'' loc = Some a \<and> a \<noteq> []
        \<and> we_param env ''publisher'' loc = Some u \<and> u \<noteq> [])"

definition listed :: "web_page \<Rightarrow> jsstring \<Rightarrow> verify_options option \<Rightarrow> bool" where
  "listed p url v \<longleftrightarrow>
     (\<exists>keys rows row. wp_official p = (Some keys, rows) \<and> row \<in> set rows \<and> la_url row = Some url \<and> v = Some (required keys))"

definition confirmed :: "web_page \<Rightarrow> jsstring \<Rightarrow> verify_options option \<Rightarrow> bool" where
  "confirmed p url v \<longleftrightarrow>
     (\<exists>u name keys c. wp_handoff p = HoReady url u name keys True c \<and> keys \<noteq> [] \<and> v = Some (required keys))"

definition licensed :: "web_page \<Rightarrow> jsstring \<Rightarrow> verify_options option \<Rightarrow> bool" where
  "licensed p url v \<longleftrightarrow> (v = None \<and> url \<in> js ` set BUTTON_ADDONS) \<or> listed p url v \<or> confirmed p url v"

fun task_licensed :: "web_page \<Rightarrow> web_task \<Rightarrow> bool" where
  "task_licensed p (TLoad url v who) = licensed p url v"
| "task_licensed p (TLoadClosed url v who) = licensed p url v"
| "task_licensed p _ = True"

fun out_licensed :: "web_page \<Rightarrow> web_out \<Rightarrow> bool" where
  "out_licensed p (WLoad url v s) = licensed p url v"
| "out_licensed p _ = True"

definition handoff_fits :: "('u, 'pk, 'sk) web_env \<Rightarrow> jsstring \<Rightarrow> handoff \<Rightarrow> bool" where
  "handoff_fits env href h =
     (case h of
        HoFetching a u \<Rightarrow> proposed env href a u
      | HoReady a u name keys cf cc \<Rightarrow> proposed env href a u \<and> keys \<noteq> []
      | _ \<Rightarrow> True)"

definition official_pending :: "web_page \<Rightarrow> nat" where
  "official_pending p = length (filter ((=) TOfficial) (wp_tasks p)) + (if fst (wp_official p) = None then 0 else 1)"

definition loads_fit :: "('u, 'pk, 'sk) web_env \<Rightarrow> jsstring \<Rightarrow> web_out list \<Rightarrow> web_page \<Rightarrow> bool" where
  "loads_fit env href os p \<longleftrightarrow> official_pending p \<le> 1 \<and> handoff_fits env href (wp_handoff p)
     \<and> list_all (task_licensed p) (wp_tasks p) \<and> list_all (out_licensed p) os"

lemma not_load_licensed: "\<not> load_task t \<Longrightarrow> task_licensed p t" "\<not> load_out out \<Longrightarrow> out_licensed p out"
  by (cases t; simp) (cases out; simp)

lemma licensed_same:
  "wp_official q = wp_official p \<Longrightarrow> wp_handoff q = wp_handoff p \<Longrightarrow> licensed q = licensed p"
  by (simp add: licensed_def listed_def confirmed_def fun_eq_iff)

lemma licensed_tasks_same:
  assumes "wp_official q = wp_official p" "wp_handoff q = wp_handoff p"
  shows "task_licensed q = task_licensed p" "out_licensed q = out_licensed p"
proof -
  show "task_licensed q = task_licensed p"
  proof
    fix t show "task_licensed q t = task_licensed p t" by (cases t) (simp_all add: licensed_same [OF assms])
  qed
  show "out_licensed q = out_licensed p"
  proof
    fix out show "out_licensed q out = out_licensed p out" by (cases out) (simp_all add: licensed_same [OF assms])
  qed
qed

lemma tasks_licensed_filter:
  "list_all (task_licensed p) ts \<longleftrightarrow> list_all (task_licensed p) (filter load_task ts)"
  by (induction ts) (auto simp: not_load_licensed)

lemma official_filter: "filter ((=) TOfficial) ts = filter ((=) TOfficial) (filter load_task ts)"
  by (induction ts) auto

lemma quiet_loads_fit:
  assumes "quiet p (p', os')" "loads_fit env href os p"
  shows "loads_fit env href (os @ os') p'"
proof -
  have same: "wp_official p' = wp_official p" "wp_handoff p' = wp_handoff p"
    "filter load_task (wp_tasks p') = filter load_task (wp_tasks p)" "list_all (\<lambda>out. \<not> load_out out) os'"
    using assms(1) by (auto simp: quiet_pair)
  have "official_pending p' = official_pending p"
    unfolding official_pending_def by (subst (1 2) official_filter) (simp add: same)
  moreover have "list_all (task_licensed p') (wp_tasks p') \<longleftrightarrow> list_all (task_licensed p) (wp_tasks p)"
    by (subst (1 2) tasks_licensed_filter) (simp add: same licensed_tasks_same [OF same(1,2)])
  moreover have "list_all (out_licensed p') os'"
    using same(4) by (auto simp: list_all_iff intro: not_load_licensed)
  ultimately show ?thesis
    using assms(2) by (simp add: loads_fit_def same(2) licensed_tasks_same [OF same(1,2)])
qed

text \<open>The steps that load, list or hand over.\<close>

lemma task_licensed_mono:
  assumes "\<And>url v. licensed p url v \<Longrightarrow> licensed q url v"
  shows "task_licensed p t \<Longrightarrow> task_licensed q t" "out_licensed p out \<Longrightarrow> out_licensed q out"
  using assms by (cases t; simp) (use assms in \<open>cases out; simp\<close>)

lemma loads_fit_mono:
  assumes "loads_fit env href os p" "\<And>url v. licensed p url v \<Longrightarrow> licensed q url v"
    and "official_pending q \<le> 1" "handoff_fits env href (wp_handoff q)"
    and "list_all (\<lambda>t. t \<in> set (wp_tasks p) \<or> task_licensed q t) (wp_tasks q)" "list_all (out_licensed q) os'"
  shows "loads_fit env href (os @ os') q"
  using assms task_licensed_mono [OF assms(2)] unfolding loads_fit_def list_all_iff set_append by blast

lemma begun_fits:
  assumes "loads_fit env href os p" "licensed p url v"
  shows "case load_begun url v who p of (p', os') \<Rightarrow> loads_fit env href (os @ os') p'"
  using assms unfolding load_begun_def prod.case
  by (intro loads_fit_mono [of env href os p])
    (auto simp: loads_fit_def official_pending_def wait_def licensed_same [of "wait _ p" p, unfolded wait_def] list_all_iff)

lemma loading_fits:
  assumes "loads_fit env href os p" "licensed p url v"
  shows "case loadAddonByManifest url v who p of (p', os') \<Rightarrow> loads_fit env href (os @ os') p'"
proof (cases "wp_addonHost p")
  case (Some h)
  have "loads_fit env href (os @ [WCloseHost h]) (wait (TLoadClosed url v who) p)"
    using assms by (intro loads_fit_mono [of env href os p])
      (auto simp: loads_fit_def official_pending_def wait_def licensed_same [of "wait _ p" p, unfolded wait_def] list_all_iff)
  then show ?thesis by (simp add: loadAddonByManifest_def Some)
qed (use begun_fits [OF assms] in \<open>simp add: loadAddonByManifest_def\<close>)

text \<open>The state without the task that goes on.\<close>

lemma removed_fits:
  fixes p :: web_page
  assumes "loads_fit env href os p" "i < length (wp_tasks p)"
  defines "q \<equiv> p\<lparr>wp_tasks := take i (wp_tasks p) @ drop (Suc i) (wp_tasks p)\<rparr>"
  shows "loads_fit env href os q" "task_licensed q (wp_tasks p ! i)"
    and "wp_tasks p ! i = TOfficial \<Longrightarrow> official_pending q = 0"
proof -
  have split: "wp_tasks p = take i (wp_tasks p) @ wp_tasks p ! i # drop (Suc i) (wp_tasks p)"
    using assms(2) by (rule id_take_nth_drop)
  have pend: "length (filter ((=) TOfficial) (wp_tasks p)) =
      (if wp_tasks p ! i = TOfficial then 1 else 0) + length (filter ((=) TOfficial) (wp_tasks q))"
    by (subst split) (simp add: q_def)
  have lic: "list_all (task_licensed q) (wp_tasks q)" "task_licensed q (wp_tasks p ! i)"
    using assms(1) split licensed_tasks_same(1) [of q p] unfolding loads_fit_def
    by (simp_all add: q_def) (metis list_all_append list.pred_inject(2))+
  then show "task_licensed q (wp_tasks p ! i)" by simp
  show "loads_fit env href os q"
    using assms(1) lic pend licensed_tasks_same(2) [of q p]
    by (auto simp: loads_fit_def official_pending_def q_def split: if_splits)
  show "wp_tasks p ! i = TOfficial \<Longrightarrow> official_pending q = 0"
    using assms(1) pend by (auto simp: loads_fit_def official_pending_def q_def split: if_splits)
qed

lemma official_fits:
  assumes "loads_fit env href os p" "official_pending p = 0"
  shows "case official_fetched r p of (p', os') \<Rightarrow> loads_fit env href (os @ os') p'"
proof -
  have none: "fst (wp_official p) = None" "filter ((=) TOfficial) (wp_tasks p) = []"
    using assms(2) by (auto simp: official_pending_def split: if_splits)
  have set: "loads_fit env href (os @ os') (p\<lparr>wp_officialStatus := t, wp_official := (Some keys, rows)\<rparr>)"
    if "list_all (\<lambda>out. \<not> load_out out) os'" for keys rows t os'
  proof (rule loads_fit_mono [OF assms(1)])
    fix url v assume "licensed p url v"
    then show "licensed (p\<lparr>wp_officialStatus := t, wp_official := (Some keys, rows)\<rparr>) url v"
      using none(1) by (auto simp: licensed_def listed_def confirmed_def)
  qed (use that assms(1) none in \<open>auto simp: official_pending_def loads_fit_def list_all_iff intro: not_load_licensed\<close>)
  have throw: "loads_fit env href (os @ [WThrow e]) p" for e
    by (rule quiet_loads_fit [OF _ assms(1)]) (simp add: quiet_pair)
  have status: "loads_fit env href os (p\<lparr>wp_officialStatus := t\<rparr>)"
      "loads_fit env href (os @ [WThrow e]) (p\<lparr>wp_officialStatus := t\<rparr>)" for e t
    using quiet_loads_fit [OF _ assms(1), of "p\<lparr>wp_officialStatus := t\<rparr>" "[]"]
      quiet_loads_fit [OF _ assms(1), of "p\<lparr>wp_officialStatus := t\<rparr>" "[WThrow e]"] by (simp_all add: quiet_pair)
  show ?thesis
    using set [of "[]"] set [of "[WThrow _]"]
    by (auto simp: official_fetched_def Let_def throw status split: sum.split option.split)
qed

lemma foldl_js_set_add_Nil: "foldl js_set_add xs ys = [] \<longleftrightarrow> xs = [] \<and> ys = []"
proof (induction ys arbitrary: xs)
  case (Cons y ys)
  have "js_set_add xs y \<noteq> []" by (cases xs) (simp_all add: js_set_add_def)
  then show ?case by (simp add: Cons.IH)
qed simp

lemma confirmed_change:
  assumes "wp_official q = wp_official p" "\<And>url v. confirmed p url v \<Longrightarrow> confirmed q url v" "licensed p url v"
  shows "licensed q url v"
  using assms by (auto simp: licensed_def listed_def)

text \<open>A step that only moves the hand-off on.\<close>

lemma handoff_change:
  assumes "loads_fit env href os p" "wp_official q = wp_official p" "wp_tasks q = wp_tasks p"
    and "\<And>url v. confirmed p url v \<Longrightarrow> confirmed q url v" "handoff_fits env href (wp_handoff q)"
    and "list_all (\<lambda>out. \<not> load_out out) os'"
  shows "loads_fit env href (os @ os') q"
proof (rule loads_fit_mono [OF assms(1)])
  show "licensed q url v" if "licensed p url v" for url v by (rule confirmed_change [OF assms(2,4) that])
qed (use assms in \<open>auto simp: loads_fit_def official_pending_def list_all_iff intro: not_load_licensed\<close>)

lemma handoff_fetched_fits:
  assumes "loads_fit env href os p"
  shows "case handoff_fetched r p of (p', os') \<Rightarrow> loads_fit env href (os @ os') p'"
proof (cases "wp_handoff p")
  case (HoFetching a u)
  have offered: "proposed env href a u" using assms by (simp add: loads_fit_def HoFetching handoff_fits_def)
  have throw: "loads_fit env href (os @ [WThrow e]) p" for e
    by (rule quiet_loads_fit [OF _ assms]) (simp add: quiet_pair)
  have fail: "loads_fit env href os (p\<lparr>wp_handoff := HoFailed, wp_handoffStatus := t\<rparr>)" for t
    using handoff_change [OF assms, of "p\<lparr>wp_handoff := HoFailed, wp_handoffStatus := t\<rparr>" "[]"]
    by (simp add: confirmed_def HoFetching handoff_fits_def)
  have ready: "loads_fit env href os (p\<lparr>wp_handoff := HoReady a u n (foldl js_set_add [] xs) False False, wp_handoffStatus := t\<rparr>)"
    if "xs \<noteq> []" for n xs t
    using handoff_change [OF assms, of "p\<lparr>wp_handoff := HoReady a u n (foldl js_set_add [] xs) False False, wp_handoffStatus := t\<rparr>" "[]"]
      that offered by (simp add: confirmed_def HoFetching handoff_fits_def foldl_js_set_add_Nil)
  have ne: "arr_of (fld (own_fields registry) ''trustedKeys'') \<noteq> []" if "then_ok r handoff_registry = Inr registry" for registry
    using that by (auto simp: then_ok_Inr handoff_registry_def Let_def split: if_splits)
  show ?thesis
    by (auto simp: handoff_fetched_def HoFetching Let_def throw fail ready ne split: sum.split)
qed (use assms in \<open>simp_all add: handoff_fetched_def\<close>)

lemma confirm_fits:
  assumes "loads_fit env href os p" "on_confirm p = Some (p', os')"
  shows "loads_fit env href (os @ os') p'"
proof -
  obtain a u n ks where h: "wp_handoff p = HoReady a u n ks False False"
    and r: "loadAddonByManifest a (Some (required ks)) (LoadHandoff n)
       (p\<lparr>wp_handoff := HoReady a u n ks True False, wp_handoffStatus := ''loading add-on under publisher trust root''\<rparr>) = (p', os')"
    using assms(2) by (auto simp: on_confirm_def split: handoff.splits if_splits)
  let ?q = "p\<lparr>wp_handoff := HoReady a u n ks True False, wp_handoffStatus := ''loading add-on under publisher trust root''\<rparr>"
  have fit: "handoff_fits env href (HoReady a u n ks False False)" using assms(1) by (simp add: loads_fit_def h)
  have "loads_fit env href (os @ []) ?q"
    by (rule handoff_change [OF assms(1)]) (use fit in \<open>auto simp: confirmed_def h handoff_fits_def\<close>)
  moreover have "licensed ?q a (Some (required ks))"
    using fit by (auto simp: licensed_def confirmed_def handoff_fits_def)
  ultimately show ?thesis using loading_fits [of env href os ?q a "Some (required ks)" "LoadHandoff n"] r by simp
qed

lemma cancel_fits:
  assumes "loads_fit env href os p" "on_cancel p = Some (p', os')"
  shows "loads_fit env href (os @ os') p'"
proof (cases "wp_handoff p")
  case (HoReady a u n ks cf cc)
  with assms(2) have "p' = p\<lparr>wp_handoff := HoReady a u n ks cf True\<rparr>" "os' = [WStripUrl]"
    by (auto simp: on_cancel_def split: if_splits)
  then show ?thesis
    using assms(1) by (intro handoff_change [OF assms(1)]) (auto simp: confirmed_def HoReady loads_fit_def handoff_fits_def)
next
  case HoRefused
  then have "p' = p\<lparr>wp_handoff := HoNone\<rparr>" "os' = []" using assms(2) by (auto simp: on_cancel_def)
  then show ?thesis
    by (intro handoff_change [OF assms(1)]) (auto simp: confirmed_def HoRefused handoff_fits_def)
qed (use assms(2) in \<open>simp_all add: on_cancel_def\<close>)

lemma official_button_fits:
  assumes "loads_fit env href os p" "on_official i p = Some (p', os')"
  shows "loads_fit env href (os @ os') p'"
proof -
  obtain keys rows url where o: "wp_official p = (Some keys, rows)" "i < length rows" "la_url (rows ! i) = Some url"
    and r: "loadAddonByManifest url (Some (required keys)) LoadRegistry p = (p', os')"
    using assms(2) by (auto simp: on_official_def split: prod.splits option.splits if_splits)
  have "licensed p url (Some (required keys))"
    unfolding licensed_def listed_def using o nth_mem by blast
  from loading_fits [OF assms(1) this, of LoadRegistry] r show ?thesis by simp
qed

lemma quiet_load_ends [simp]:
  "quiet p (load_rejected who e p)" "quiet p (load_resolved who p, os) \<longleftrightarrow> list_all (\<lambda>out. \<not> load_out out) os"
  "quiet p (host_loaded url who res p)"
  by (cases who; cases res; simp add: load_rejected_def load_resolved_def host_loaded_def quiet_pair)+

lemma quiet_fits:
  "quiet p r \<Longrightarrow> r = (p', os') \<Longrightarrow> loads_fit env href os p \<Longrightarrow> loads_fit env href (os @ os') p'"
  using quiet_loads_fit by blast

lemma old_host_fits:
  assumes "loads_fit env href os p" "licensed p url v" "old_host_closed url v who failed p = (p', os')"
  shows "loads_fit env href (os @ os') p'"
proof (cases failed)
  case None
  let ?q = "p\<lparr>wp_addonHost := None\<rparr>"
  have "loads_fit env href (os @ []) ?q" by (rule quiet_loads_fit [OF _ assms(1)]) (simp add: quiet_pair)
  moreover have "licensed ?q url v" using assms(2) licensed_same [of ?q p] by simp
  ultimately show ?thesis
    using begun_fits [of env href os ?q url v who] assms(3) None by (simp add: old_host_closed_def)
qed (use assms quiet_fits [OF quiet_load_ends(1)] in \<open>simp add: old_host_closed_def\<close>)

lemma resume_quiet:
  "web_resume env t a p = Some r \<Longrightarrow> \<not> load_task t \<Longrightarrow> t \<noteq> THandoff \<Longrightarrow> quiet p r"
  by (cases t) (auto split: option.splits if_splits web_answer.splits)

lemma resume_fits:
  assumes "loads_fit env href os p" "task_licensed p t" "t = TOfficial \<Longrightarrow> official_pending p = 0"
    and "web_resume env t a p = Some (p', os')"
  shows "loads_fit env href (os @ os') p'"
proof (cases "load_task t \<or> t = THandoff")
  case True
  then consider "t = TOfficial" | "t = THandoff" | url v who where "t = TLoad url v who" | url v who where "t = TLoadClosed url v who"
    by (cases t) auto
  then show ?thesis
  proof cases
    case 1
    then obtain r where "official_fetched r p = (p', os')" using assms(4) by auto
    with official_fits [OF assms(1) assms(3) [OF 1], of r] show ?thesis by simp
  next
    case 2
    then obtain r where "handoff_fetched r p = (p', os')" using assms(4) by auto
    with handoff_fetched_fits [OF assms(1), of r] show ?thesis by simp
  next
    case 3
    then have "\<exists>res. host_loaded url who res p = (p', os')" using assms(4) by (cases a) auto
    then show ?thesis using quiet_fits [OF quiet_load_ends(3) _ assms(1)] by blast
  next
    case 4
    then obtain failed where "old_host_closed url v who failed p = (p', os')" using assms(4) by auto
    with old_host_fits [OF assms(1)] assms(2) 4 show ?thesis by simp
  qed
next
  case False
  with resume_quiet [OF assms(4)] have "quiet p (p', os')" by blast
  from quiet_loads_fit [OF this assms(1)] show ?thesis .
qed

fun plain_event :: "'u web_event \<Rightarrow> bool" where
  "plain_event (WLoadButton i) = False"
| "plain_event (WLoadOfficial i) = False"
| "plain_event WConfirm = False"
| "plain_event WCancel = False"
| "plain_event (WResume i a) = False"
| "plain_event _ = True"

lemma step_quiet: "web_step env ev p = Some r \<Longrightarrow> plain_event ev \<Longrightarrow> quiet p r"
  by (cases ev) (auto split: if_splits intro: quiet_on_adapter quiet_session_state quiet_mic_tick quiet_host)

lemma web_step_fits:
  assumes "loads_fit env href os p" "web_step env ev p = Some (p', os')"
  shows "loads_fit env href (os @ os') p'"
proof (cases ev)
  case (WLoadButton i)
  then have i: "i < length BUTTON_ADDONS"
    and r: "loadAddonByManifest (js (BUTTON_ADDONS ! i)) None LoadButton p = (p', os')"
    using assms(2) by (auto split: if_splits)
  have "licensed p (js (BUTTON_ADDONS ! i)) None" using nth_mem [OF i] by (auto simp: licensed_def)
  from loading_fits [OF assms(1) this, of LoadButton] r show ?thesis by simp
next
  case (WLoadOfficial i)
  with official_button_fits [OF assms(1)] assms(2) show ?thesis by simp
next
  case WConfirm
  with confirm_fits [OF assms(1)] assms(2) show ?thesis by simp
next
  case WCancel
  with cancel_fits [OF assms(1)] assms(2) show ?thesis by simp
next
  case (WResume i a)
  then have i: "i < length (wp_tasks p)"
    and r: "web_resume env (wp_tasks p ! i) a (p\<lparr>wp_tasks := take i (wp_tasks p) @ drop (Suc i) (wp_tasks p)\<rparr>) = Some (p', os')"
    using assms(2) by (auto split: if_splits)
  show ?thesis
    using resume_fits [OF removed_fits(1,2) [OF assms(1) i] _ r] removed_fits(3) [OF assms(1) i] by blast
qed (use step_quiet [OF assms(2)] quiet_loads_fit [OF _ assms(1)] in simp_all)

interpretation page_loads: monitored "web_step env" "loads_fit env href"
  by unfold_locales (rule web_step_fits)

lemma start_fits: "page_start env href = (p, os) \<Longrightarrow> loads_fit env href os p"
  by (auto simp: page_start_def renderOfficialRegistry_def handleHandoff_def empty_page_def wait_def loads_fit_def
      official_pending_def handoff_fits_def proposed_def Let_def split: option.splits if_splits)

end
