(* ===== verification/Web_Sessions_Props.thy ===== *)
theory Web_Sessions_Props
  imports Web_App_Props
begin

text \<open>
  The sessions of the messenger's page: as long as the retry button is not pressed while a retry is under way, every
  session the page has dropped was asked to close; two presses in a row lose one.
\<close>

subsection \<open>Steps that leave the sessions alone\<close>

fun retry_task :: "web_task \<Rightarrow> bool" where
  "retry_task TRetrySession = True"
| "retry_task TRetryHost = True"
| "retry_task _ = False"

definition still :: "web_page \<Rightarrow> page_result \<Rightarrow> bool" where
  "still p r \<longleftrightarrow> wp_room (fst r) = wp_room p \<and> wp_session (fst r) = wp_session p
     \<and> length (wp_sessions (fst r)) = length (wp_sessions p)
     \<and> filter retry_task (wp_tasks (fst r)) = filter retry_task (wp_tasks p)
     \<and> (wp_sessions p = [] \<longrightarrow> wp_retryShown (fst r) = wp_retryShown p)"

lemma still_prepend [simp]: "still p (prepend os r) \<longleftrightarrow> still p r"
  by (simp add: still_def prepend_def)

lemma still_pair:
  "still p (p', os) \<longleftrightarrow> wp_room p' = wp_room p \<and> wp_session p' = wp_session p
     \<and> length (wp_sessions p') = length (wp_sessions p)
     \<and> filter retry_task (wp_tasks p') = filter retry_task (wp_tasks p)
     \<and> (wp_sessions p = [] \<longrightarrow> wp_retryShown p' = wp_retryShown p)"
  by (simp add: still_def)

lemma still_trans: "still p (p1, os1) \<Longrightarrow> still p1 r \<Longrightarrow> still p r"
  by (auto simp: still_def)

lemma still_update:
  "still q r \<Longrightarrow> still p (q, []) \<Longrightarrow> still p r"
  by (rule still_trans)

lemma retryShown_done [simp]: "wp_retryShown (import_done who p) = wp_retryShown p"
  by (cases who) simp_all

lemma retryShown_uptime [simp]: "wp_retryShown (refreshUptime n p) = wp_retryShown p"
  by (simp add: refreshUptime_def)

lemma still_import_failed [simp]: "still p (import_failed who e p)"
  by (cases who) (simp_all add: still_pair)

lemma still_import_settled [simp]: "still p (import_settled who via res p)"
  by (auto simp: import_settled_def still_pair split: sum.split)

lemma still_import_bundle [simp]: "still p (import_bundle who via enc p)"
  by (auto simp: import_bundle_def Let_def still_pair wait_def split: prod.split list.split uf_out.split
      intro: still_update [OF still_import_settled])

lemma still_after_join [simp]: "still p (after_join env who href b p)"
  by (auto simp: after_join_def still_pair split: option.split sum.split)

lemma still_start [simp]: "still p (start_done env after p)" "still p (start_failed after e p)"
  by (cases after; simp add: still_pair)+

lemma still_consumeUrl [simp]: "still p (consumeUrl env who href p)"
  by (auto simp: consumeUrl_def Let_def still_pair wait_def split: sum.split option.split)

lemma still_imports [simp]: "still p (on_import env p)" "still p (auto_import env href p)"
  by (auto simp: on_import_def auto_import_def Let_def still_pair split: option.split)

lemma still_shown [simp]: "still p (export_shown res p)" "still p (share_shown env res p)"
  by (cases "(res, p)" rule: export_shown.cases; simp add: still_pair)+

lemma still_link_settled [simp]: "still p (link_settled env who res p)"
  by (cases who) simp_all

lemma still_links [simp]: "still p (composeExportUrl env who p)" "still p (bundle_exported env who r res p)"
  by (auto simp: composeExportUrl_def bundle_exported_def still_pair wait_def split: option.split prod.split sum.split)

lemma filter_imports_retry [simp]: "filter (\<lambda>t. imports_other n t \<and> retry_task t) ts = filter retry_task ts"
  by (rule filter_cong) (auto elim: retry_task.elims)

lemma still_adapter_outs: "still p (adapter_outs outs p)"
proof (induction outs p rule: adapter_outs.induct)
  case (3 n res os p)
  show ?case
  proof (cases "import_waiting n (wp_tasks p)")
    case (Some w)
    obtain who via where w: "w = (who, via)" by (cases w)
    let ?q = "p\<lparr>wp_tasks := filter (imports_other n) (wp_tasks p)\<rparr>"
    obtain p1 o1 where p1: "import_settled who via res ?q = (p1, o1)" by (cases "import_settled who via res ?q")
    have "still ?q (p1, o1)" using still_import_settled [of ?q] p1 by metis
    moreover have "still p1 (adapter_outs os p1)" using "3.IH"(2) [OF Some w [symmetric] refl p1 [symmetric]] by simp
    ultimately show ?thesis by (simp add: Some w p1) (auto simp: still_def)
  qed (use "3.IH"(1) in simp)
qed (simp_all add: still_pair)

lemma still_on_adapter: "on_adapter env ev p = Some r \<Longrightarrow> still p r"
  by (auto simp: on_adapter_def split: if_splits option.splits intro!: still_update [OF still_adapter_outs] simp: still_pair)

lemma still_media [simp]:
  "still p (call_next stream tracks senders p)" "still p (call_stop senders p)"
  "still p (on_call_start p)" "still p (on_mic_toggle p)" "still p (mic_stopped p)" "still p (mic_started e p)"
  "still p (on_remote_track k ss p)" "still p (on_remote_track_ended k p)" "still p (attachAudio ss p)"
  "still p (detachAudio src p)" "still p (call_failed e' p)"
  by (auto simp: call_next_def call_failed_def call_stop_def on_call_start_def on_mic_toggle_def mic_stopped_def mic_started_def
      on_remote_track_def on_remote_track_ended_def attachAudio_def detachAudio_def play_audio_def still_pair wait_def
      split: list.split option.split)

lemma still_call [simp]:
  "still p (call_media r p)" "still p (call_track stream tracks senders s p)" "still p (on_call_stop p)"
  by (auto simp: call_media_def call_track_def on_call_stop_def still_pair split: sum.split option.split)

lemma still_text [simp]:
  "still p (on_send_text p)" "still p (text_sent v e p)" "still p (on_share_copy p)" "still p (share_copied b p)"
  by (auto simp: on_send_text_def text_sent_def on_share_copy_def share_copied_def still_pair wait_def split: option.split)

lemma still_loads [simp]:
  "still p (load_begun url v who p)" "still p (loadAddonByManifest url v who p)" "still p (load_rejected who e p)"
  "still p (host_loaded url who res p)"
  by (auto simp: load_begun_def loadAddonByManifest_def load_rejected_def host_loaded_def load_resolved_def still_pair wait_def
      split: option.split load_for.split sum.split)

lemma still_old_host [simp]: "still p (old_host_closed url v who failed p)"
  by (auto simp: old_host_closed_def split: option.split intro!: still_update [OF still_loads(1)] simp: still_pair)

lemma still_fetched [simp]: "still p (official_fetched r p)" "still p (handoff_fetched r p)"
  by (auto simp: official_fetched_def handoff_fetched_def Let_def still_pair split: sum.split option.split handoff.split)

lemma still_buttons:
  "on_official i p = Some r \<Longrightarrow> still p r" "on_confirm p = Some r \<Longrightarrow> still p r" "on_cancel p = Some r \<Longrightarrow> still p r"
  "mic_tick k level p = Some r \<Longrightarrow> still p r" "on_session_state n st now p = Some r \<Longrightarrow> still p r"
  "on_host_state h hs p = Some r \<Longrightarrow> still p r" "on_host_send h json p = Some r \<Longrightarrow> still p r"
  "on_host_error h m p = Some r \<Longrightarrow> still p r"
  by (auto simp: on_host_state_def on_host_send_def on_host_error_def on_official_def on_confirm_def on_cancel_def mic_tick_def on_session_state_def still_pair
      split: prod.splits option.splits if_splits handoff.splits intro!: still_update [OF still_loads(2)])

subsection \<open>Retries that do not overlap\<close>

definition calm_step ::
  "('u, 'pk, 'sk) web_env \<Rightarrow> 'u web_event \<Rightarrow> web_page \<Rightarrow> (web_page \<times> web_out list) option" where
  "calm_step env ev p =
     (if ev = WRetry \<and> list_ex retry_task (wp_tasks p) then None else web_step env ev p)"

definition all_closing :: "web_out list \<Rightarrow> web_page \<Rightarrow> bool" where
  "all_closing os p \<longleftrightarrow> (\<forall>n < length (wp_sessions p). WCloseSession n \<in> set os)"

definition sessions_kept :: "web_out list \<Rightarrow> web_page \<Rightarrow> bool" where
  "sessions_kept os p \<longleftrightarrow> (\<forall>n < length (wp_sessions p). wp_session p = Some n \<or> WCloseSession n \<in> set os)"

text \<open>Outside a retry the page has a session exactly when it has a room.\<close>

definition settled :: "web_page \<Rightarrow> bool" where
  "settled p \<longleftrightarrow> (if wp_room p = None then wp_session p = None \<and> wp_sessions p = [] \<and> \<not> wp_retryShown p else wp_session p \<noteq> None)"

definition retry_fits :: "web_out list \<Rightarrow> web_page \<Rightarrow> bool" where
  "retry_fits os p \<longleftrightarrow> sessions_kept os p \<and>
     (let ts = filter retry_task (wp_tasks p) in
        ts = [] \<and> settled p
      \<or> ts = [TRetrySession] \<and> wp_room p \<noteq> None \<and> wp_session p \<noteq> None \<and> all_closing os p
      \<or> ts = [TRetryHost] \<and> wp_room p \<noteq> None \<and> wp_session p = None)"

lemma still_retry_fits:
  assumes "still p (p', os')" "retry_fits os p"
  shows "retry_fits (os @ os') p'"
proof -
  have s: "wp_room p' = wp_room p" "wp_session p' = wp_session p" "length (wp_sessions p') = length (wp_sessions p)"
    "filter retry_task (wp_tasks p') = filter retry_task (wp_tasks p)"
    "wp_sessions p = [] \<longrightarrow> wp_retryShown p' = wp_retryShown p"
    using assms(1) by (simp_all add: still_pair)
  have "settled p \<Longrightarrow> settled p'" using s by (auto simp: settled_def)
  moreover have "all_closing os p \<Longrightarrow> all_closing (os @ os') p'" "sessions_kept os p \<Longrightarrow> sessions_kept (os @ os') p'"
    using s by (auto simp: all_closing_def sessions_kept_def)
  ultimately show ?thesis
    using assms(2) s(1,2,4) unfolding retry_fits_def Let_def by metis
qed

text \<open>A session is opened when all the others were asked to close.\<close>

lemma open_session_fits:
  assumes "filter retry_task (wp_tasks p) = []" "wp_room p \<noteq> None" "all_closing os p" "\<not> retry_task (TStart 0 after)"
  shows "retry_fits (os @ os') (fst (open_session env role r remote after p))"
proof -
  let ?p = "fst (open_session env role r remote after p)"
  have "wp_session ?p = Some (length (wp_sessions p))" "length (wp_sessions ?p) = Suc (length (wp_sessions p))"
    "wp_room ?p = wp_room p" "filter retry_task (wp_tasks ?p) = []"
    using assms(1) by (simp_all add: open_session_def attachSession_def wait_def Let_def)
  then show ?thesis
    using assms(2,3) by (auto simp: retry_fits_def sessions_kept_def settled_def all_closing_def less_Suc_eq)
qed

lemma prepend_cases: "prepend o1 r = (p', os') \<Longrightarrow> p' = fst r" by (auto simp: prepend_def)

lemma none_closing: "wp_sessions p = [] \<Longrightarrow> all_closing os p"
  by (simp add: all_closing_def)

lemma no_room:
  assumes "retry_fits os p" "wp_room p = None"
  shows "filter retry_task (wp_tasks p) = []" "wp_sessions p = []"
  using assms by (auto simp: retry_fits_def settled_def Let_def)

lemma inviter_opens:
  assumes rooms: "\<forall>k. \<exists>r. newRoomId (we_random env k) = Inr r"
    and p: "wp_room p = None" "filter retry_task (wp_tasks p) = []" "all_closing os p" "startInviter env after p = (p', os')"
  shows "retry_fits (os @ os') p'"
proof -
  obtain r where r: "newRoomId (we_random env (wp_rooms p)) = Inr r" using rooms by blast
  let ?q = "p\<lparr>wp_rooms := Suc (wp_rooms p), wp_room := Some r, wp_roomLabel := r\<rparr>"
  have "p' = fst (open_session env Inviter r None after ?q)"
    using p(1,4) r by (auto simp: startInviter_def Let_def dest: prepend_cases)
  then show ?thesis using open_session_fits [of ?q os after os' env Inviter r None] p(2,3) by (simp add: all_closing_def)
qed

lemma startInviter_fits:
  assumes "\<forall>k. \<exists>r. newRoomId (we_random env k) = Inr r" "retry_fits os p" "startInviter env after p = (p', os')"
  shows "retry_fits (os @ os') p'"
proof (cases "wp_room p")
  case None
  from inviter_opens [OF assms(1) None no_room(1) [OF assms(2) None] none_closing [OF no_room(2) [OF assms(2) None]] assms(3)]
  show ?thesis .
next
  case (Some r)
  have "still p (startInviter env after p)" by (simp add: startInviter_def Some)
  with assms(3) have "still p (p', os')" by simp
  from still_retry_fits [OF this assms(2)] show ?thesis .
qed

lemma startJoiner_fits:
  assumes "retry_fits os p" "startJoiner env invite after p = (p', os')"
  shows "retry_fits (os @ os') p'"
proof (cases "wp_room p")
  case None
  let ?q = "p\<lparr>wp_room := Some (inv_roomId invite), wp_remotePeer := Some (inv_from invite), wp_roomLabel := inv_roomId invite\<rparr>"
  have "p' = fst (open_session env Joiner (inv_roomId invite) (Some (inv_from invite)) after ?q)"
    using assms(2) None by (auto simp: startJoiner_def Let_def dest: prepend_cases)
  then show ?thesis
    using open_session_fits [of ?q os after os' env Joiner] no_room [OF assms(1) None]
    by (simp add: all_closing_def)
next
  case (Some r)
  have "still p (startJoiner env invite after p)" by (simp add: startJoiner_def Some)
  with assms(2) have "still p (p', os')" by simp
  from still_retry_fits [OF this assms(1)] show ?thesis .
qed

lemma link_parsed_fits:
  assumes "retry_fits os p" "link_parsed env who href p = (p', os')"
  shows "retry_fits (os @ os') p'"
proof (cases "parseInviteBundleUrl (we_api env) (we_inflate env) href")
  case (Inl e)
  have "still p (link_parsed env who href p)" by (simp add: link_parsed_def Inl)
  with assms(2) have "still p (p', os')" by simp
  from still_retry_fits [OF this assms(1)] show ?thesis .
qed (use assms startJoiner_fits [OF assms(1)] in \<open>simp add: link_parsed_def\<close>)

lemma reset_fits:
  assumes rooms: "\<forall>k. \<exists>r. newRoomId (we_random env k) = Inr r"
    and p: "filter retry_task (wp_tasks p) = []" "all_closing os p" "retry_reset env p = (p', os')"
  shows "retry_fits (os @ os') p'"
proof -
  let ?q = "setSessionState 0 SIdle (p\<lparr>wp_room := None, wp_remotePeer := None, wp_roomLabel := [], wp_exportOut := []\<rparr>)"
  obtain o1 where "startInviter env ForRetry ?q = (p', o1)"
    using p(3) prepend_cases unfolding retry_reset_def by (metis prod.collapse)
  from inviter_opens [OF rooms _ _ _ this, of "os @ page_log ''retry: reset; ready to create a new room''"] p
  have "retry_fits ((os @ page_log ''retry: reset; ready to create a new room'') @ o1) p'"
    by (simp add: all_closing_def)
  moreover have "os' = page_log ''retry: reset; ready to create a new room'' @ o1"
    using p(3) \<open>startInviter env ForRetry ?q = (p', o1)\<close> by (simp add: retry_reset_def prepend_def)
  ultimately show ?thesis by simp
qed

lemma retry_pressed_fits:
  assumes "retry_fits os p" "filter retry_task (wp_tasks p) = []" "wp_retryShown p" "resetForRetry env p = (p', os')"
  shows "retry_fits (os @ os') p'"
proof -
  have s: "settled p" "sessions_kept os p" using assms(1,2) by (simp_all add: retry_fits_def)
  with assms(3) obtain n where n: "wp_session p = Some n" "wp_room p \<noteq> None"
    by (auto simp: settled_def split: if_splits)
  then have "p' = wait TRetrySession p" "os' = [WCloseSession n]" using assms(4) by (auto simp: resetForRetry_def)
  then show ?thesis
    using s(2) n assms(2) by (auto simp: retry_fits_def sessions_kept_def all_closing_def wait_def)
qed

lemma session_closed_fits:
  assumes rooms: "\<forall>k. \<exists>r. newRoomId (we_random env k) = Inr r"
    and p: "filter retry_task (wp_tasks p) = []" "all_closing os p" "wp_room p \<noteq> None" "retry_session_closed env p = (p', os')"
  shows "retry_fits (os @ os') p'"
proof (cases "wp_addonHost p")
  case None
  then have "retry_reset env (p\<lparr>wp_session := None\<rparr>) = (p', os')"
    using p(4) by (simp add: retry_session_closed_def retry_host_def)
  from reset_fits [OF rooms _ _ this] p(1,2) show ?thesis by (simp add: all_closing_def)
next
  case (Some h)
  then have "p' = wait TRetryHost (p\<lparr>wp_session := None\<rparr>)" "os' = [WCloseHost h]"
    using p(4) by (auto simp: retry_session_closed_def retry_host_def)
  then show ?thesis
    using p(1,2,3) by (auto simp: retry_fits_def sessions_kept_def all_closing_def wait_def)
qed

lemma host_closed_fits:
  assumes rooms: "\<forall>k. \<exists>r. newRoomId (we_random env k) = Inr r"
    and p: "filter retry_task (wp_tasks p) = []" "all_closing os p" "retry_host_closed env p = (p', os')"
  shows "retry_fits (os @ os') p'"
proof -
  have "retry_reset env (p\<lparr>wp_addonHost := None\<rparr>) = (p', os')" using p(3) by (simp add: retry_host_closed_def)
  from reset_fits [OF rooms _ _ this] p(1,2) show ?thesis by (simp add: all_closing_def)
qed

lemma resume_still:
  "web_resume env t a p = Some r \<Longrightarrow> \<not> retry_task t \<Longrightarrow> (\<And>who href. t \<noteq> TParse who href) \<Longrightarrow> still p r"
  by (cases t) (auto split: option.splits if_splits web_answer.splits)

text \<open>A task taken out of the list.\<close>

lemma removed_retry:
  fixes p :: web_page
  assumes "retry_fits os p" "i < length (wp_tasks p)"
  defines "q \<equiv> p\<lparr>wp_tasks := take i (wp_tasks p) @ drop (Suc i) (wp_tasks p)\<rparr>"
  shows "\<not> retry_task (wp_tasks p ! i) \<Longrightarrow> retry_fits os q"
    and "wp_tasks p ! i = TRetrySession \<Longrightarrow> filter retry_task (wp_tasks q) = [] \<and> all_closing os q \<and> wp_room q \<noteq> None"
    and "wp_tasks p ! i = TRetryHost \<Longrightarrow> filter retry_task (wp_tasks q) = [] \<and> all_closing os q"
proof -
  have split: "wp_tasks p = take i (wp_tasks p) @ wp_tasks p ! i # drop (Suc i) (wp_tasks p)"
    using assms(2) by (rule id_take_nth_drop)
  have filter: "filter retry_task (wp_tasks p) =
      filter retry_task (take i (wp_tasks p)) @ (if retry_task (wp_tasks p ! i) then [wp_tasks p ! i] else [])
        @ filter retry_task (drop (Suc i) (wp_tasks p))"
    by (subst split) simp
  have same: "settled q = settled p" "all_closing os q = all_closing os p" "sessions_kept os q = sessions_kept os p"
    by (simp_all add: q_def settled_def all_closing_def sessions_kept_def)
  show "\<not> retry_task (wp_tasks p ! i) \<Longrightarrow> retry_fits os q"
    using assms(1) filter unfolding retry_fits_def Let_def same by (simp add: q_def)
  show "wp_tasks p ! i = TRetrySession \<Longrightarrow> filter retry_task (wp_tasks q) = [] \<and> all_closing os q \<and> wp_room q \<noteq> None"
    using assms(1) filter unfolding retry_fits_def Let_def same by (auto simp: q_def append_eq_Cons_conv)
  show "wp_tasks p ! i = TRetryHost \<Longrightarrow> filter retry_task (wp_tasks q) = [] \<and> all_closing os q"
    using assms(1) filter unfolding retry_fits_def Let_def same
    by (auto simp: q_def append_eq_Cons_conv sessions_kept_def all_closing_def)
qed

fun opens :: "'u web_event \<Rightarrow> bool" where
  "opens WCreate = True"
| "opens WRetry = True"
| "opens (WResume i a) = True"
| "opens _ = False"

lemma still_fields [simp]:
  "still p (p\<lparr>wp_shareOpen := b\<rparr>, [])" "still p (p\<lparr>wp_importIn := t\<rparr>, [])" "still p (p\<lparr>wp_textIn := t\<rparr>, [])"
  "still p (refreshUptime now p, [])" "still p (p, os)"
  by (simp_all add: still_pair)

lemma step_still: "web_step env ev p = Some r \<Longrightarrow> \<not> opens ev \<Longrightarrow> still p r"
  by (cases ev) (auto split: if_splits intro: still_on_adapter still_buttons)

lemma calm_step_fits:
  assumes rooms: "\<forall>k. \<exists>r. newRoomId (we_random env k) = Inr r"
    and p: "retry_fits os p" "calm_step env ev p = Some (p', os')"
  shows "retry_fits (os @ os') p'"
proof -
  have step: "web_step env ev p = Some (p', os')" using p(2) by (auto simp: calm_step_def split: if_splits)
  consider "ev = WCreate" | "ev = WRetry" | i a where "ev = WResume i a" | "still p (p', os')"
    using step_still [OF step] by (cases ev) auto
  then show ?thesis
  proof cases
    case 1
    with step have "startInviter env ForCreate p = (p', os')" by simp
    from startInviter_fits [OF rooms p(1) this] show ?thesis .
  next
    case 2
    then have "filter retry_task (wp_tasks p) = []" "wp_retryShown p" "resetForRetry env p = (p', os')"
      using p(2) by (auto simp: calm_step_def list_ex_iff filter_empty_conv split: if_splits)
    from retry_pressed_fits [OF p(1) this] show ?thesis .
  next
    case (3 i a)
    let ?q = "p\<lparr>wp_tasks := take i (wp_tasks p) @ drop (Suc i) (wp_tasks p)\<rparr>"
    have i: "i < length (wp_tasks p)" and r: "web_resume env (wp_tasks p ! i) a ?q = Some (p', os')"
      using step 3 by (auto split: if_splits)
    note removed = removed_retry [OF p(1) i]
    consider "wp_tasks p ! i = TRetrySession" | "wp_tasks p ! i = TRetryHost" | who href where "wp_tasks p ! i = TParse who href"
      | "\<not> retry_task (wp_tasks p ! i)" "\<And>who href. wp_tasks p ! i \<noteq> TParse who href"
      by (cases "wp_tasks p ! i") auto
    then show ?thesis
    proof cases
      case 1
      then have "retry_session_closed env ?q = (p', os')" using r by auto
      with session_closed_fits [OF rooms] removed(2) [OF 1] show ?thesis by blast
    next
      case 2
      then have "retry_host_closed env ?q = (p', os')" using r by auto
      with host_closed_fits [OF rooms] removed(3) [OF 2] show ?thesis by blast
    next
      case (3 who href)
      then have "link_parsed env who href ?q = (p', os')" using r by (auto split: if_splits)
      with link_parsed_fits removed(1) 3 show ?thesis by fastforce
    next
      case 4
      from still_retry_fits [OF resume_still [OF r 4] removed(1) [OF 4(1)]] show ?thesis .
    qed
  next
    case 4
    from still_retry_fits [OF this p(1)] show ?thesis .
  qed
qed

lemma start_retry_fits: "page_start env href = (p, os) \<Longrightarrow> retry_fits [] p"
  by (auto simp: page_start_def renderOfficialRegistry_def handleHandoff_def empty_page_def wait_def retry_fits_def
      sessions_kept_def settled_def Let_def split: option.splits if_splits)

interpretation page_sessions: monitored "calm_step env"
  "\<lambda>os p. (\<forall>k. \<exists>r. newRoomId (we_random env k) = Inr r) \<longrightarrow> retry_fits os p"
  by unfold_locales (use calm_step_fits in blast)

lemma calm_run_keeps_sessions:
  assumes "\<forall>k. \<exists>r. newRoomId (we_random env k) = Inr r" "page_start env href = (p0, os0)" "reach (calm_step env) p0 os p"
  shows "sessions_kept os p"
  using page_sessions.reach_monitored [OF assms(3)] start_retry_fits [OF assms(2)] assms(1) by (simp add: retry_fits_def)

end
