(* ===== verification/Web_Links_Props.thy ===== *)
theory Web_Links_Props
  imports Web_App
begin

text \<open>
  The links of the messenger's page: the invite link one page exports opens the same room on a fresh page and hands
  it the inviter's messages; the bundle link the joiner exports brings the answer back; and what is lost when a link
  cannot be made.
\<close>

subsection \<open>What a link contains\<close>

text \<open>A printed URL ends in its fragment.\<close>

definition url_text_ok :: "'u url_api \<Rightarrow> bool" where
  "url_text_ok api \<longleftrightarrow>
     (\<forall>u s. fragment_safe s \<longrightarrow> (\<exists>b. url_toString api (url_set_hash api s u) = b @ ch CHR ''#'' # s))"

lemma split_url_text [simp]: "url_text_ok split_url"
  by (auto simp: url_text_ok_def split_url_def)

lemma str_includes_middle: "str_includes q (a @ q @ b)"
proof (induction a)
  case Nil
  have "startsWith (q @ b) q" by (simp add: startsWith_def)
  then show ?case by (cases "q @ b") auto
qed simp

lemma str_includes_param: "str_includes (js ''i='') (a @ param_text (js ''i'') s @ b)"
proof -
  have "param_text (js ''i'') s = js ''i='' @ s" by (simp add: param_text_def js_Cons)
  then show ?thesis using str_includes_middle [of "js ''i=''" a "s @ b"] by simp
qed

lemma str_includes_hash: "str_includes (js ''#'') (a @ ch CHR ''#'' # b)"
  using str_includes_middle [of "js ''#''" a b] by (simp add: js_Cons)

lemma page_invite_ok:
  assumes "isRoomId (Str r)" "isPeerId (Str (we_me env))"
  shows "invite_ok (page_invite env r)"
proof -
  have "rx_match SEMVER (js ''0.1.0'')"
    by (simp add: SEMVER_def rx_forms DIGITS_def SEMVER_TAIL_def LOWER_def in_cls_def js_def)
  moreover have "rx_match CAPABILITY_TAG (js ''text-v1'')"
    by (simp add: CAPABILITY_TAG_def LABEL_def rx_forms DIGITS_def LOWER_def in_cls_def js_def)
  ultimately show ?thesis
    using assms
    by (simp add: invite_ok_def page_invite_def SENN_PROTOCOL_VERSION_def LinkCapabilities_def del: isPeerId.simps isRoomId.simps)
qed

lemma built_link:
  assumes api: "url_api_ok api" "url_text_ok api" and streams: "streams_inverse deflate inflate"
    and valid: "validateInvitePayload v = Inr p" "validateSignalingBundle w = Inr b" "json_clean w"
    and built: "buildInviteBundleUrl api deflate base v w = Inr href"
  shows "\<exists>t u. extractBundleFromUrl api href = Inr (Some t) \<and> t \<noteq> [] \<and> decodeSignalingBundle inflate t = Inr b
    \<and> url_parse api href = Some u \<and> str_includes (js ''i='') (url_hash api u)
    \<and> str_includes (js ''#'') href \<and> str_includes (js ''i='') href \<and> href \<noteq> []
    \<and> parseInviteBundleUrl api inflate href = Inr \<lparr>parsed_invite = p, parsed_bundle = Some b\<rparr>"
proof -
  obtain s where s: "encodeInvite deflate v = Inr s" "set s \<subseteq> set B64_ALPHABET"
    using decode_encode_invite [OF streams valid(1)] by blast
  obtain t where t: "encodeSignalingBundle deflate w = Inr t" "set t \<subseteq> set B64_ALPHABET" "t \<noteq> []"
      "decodeSignalingBundle inflate t = Inr b"
    using decode_encode_clean [OF streams valid(3,2)] by blast
  let ?frag = "param_text (js ''i'') s @ ch CHR ''&'' # param_text (js ''s'') t"
  obtain u where href: "href = url_toString api (url_set_hash api ?frag u)"
    using built s(1) t(1) valid
    by (auto simp: buildInviteBundleUrl_def Let_def split: option.splits sum.splits if_splits)
  obtain u' where u': "url_parse api href = Some u'" "url_hash api u' = ch CHR ''#'' # ?frag"
    using api(1) fragment_safe_param(2) [OF s(2) t(2)] unfolding url_api_ok_def href by blast
  obtain pre where pre: "href = pre @ ch CHR ''#'' # ?frag"
    using api(2) fragment_safe_param(2) [OF s(2) t(2)] unfolding url_text_ok_def href by blast
  have "search_params ?frag = [(js ''i'', s), (js ''s'', t)]"
    by (rule search_params_two) (use ascii_key_plain b64_all_plain s(2) t(2) in auto)
  then have "extractBundleFromUrl api href = Inr (Some t)"
    by (simp add: extractBundleFromUrl_def u'(1) url_fragment_hash [OF u'(2)] param_text_def)
  moreover have "str_includes (js ''i='') (url_hash api u')" "str_includes (js ''i='') href"
    using str_includes_param [of "[ch CHR ''#'']" s] str_includes_param [of "pre @ [ch CHR ''#'']" s] by (simp_all add: u'(2) pre)
  moreover have "str_includes (js ''#'') href" using str_includes_hash by (simp add: pre)
  ultimately show ?thesis
    using t(3,4) u'(1) pre parse_build_invite_bundle_url [OF api(1) streams valid built] by simp
qed

subsection \<open>Exporting\<close>

definition inviter_page :: "jsstring \<Rightarrow> sig_message list \<Rightarrow> web_page \<Rightarrow> bool" where
  "inviter_page r ms p \<longleftrightarrow> wp_room p = Some r \<and> wp_remotePeer p = None
     \<and> (case wp_session p of None \<Rightarrow> False | Some n \<Rightarrow> sn_role (wp_sessions p ! n) = Inviter)
     \<and> \<not> uf_closed (wp_transport p) \<and> map_of (uf_outbox (wp_transport p)) r = Some ms"

definition exported_text :: "err + jsstring \<Rightarrow> jsstring" where
  "exported_text res = (case res of Inl e \<Rightarrow> js (''(error: '' @ err_message e @ '')'') | Inr url \<Rightarrow> if url = [] then js ''(outbox empty)'' else url)"

lemma link_text: "export_shown (map_sum id Some res) p = (p\<lparr>wp_exportOut := exported_text res\<rparr>, [])"
  by (cases res) (simp_all add: exported_text_def)

text \<open>An inviter's export: the outbox is empty afterwards, whether the link could be made or not.\<close>

lemma export_invite:
  assumes "streams_inverse (we_deflate env) (we_inflate env)" "inviter_page r ms p"
    and "bundle_ok \<lparr>bundle_roomId = r, bundle_messages = ms\<rparr>" "bundle_clean \<lparr>bundle_roomId = r, bundle_messages = ms\<rparr>"
  shows "run_events (web_step env) [WExport, WResume (length (wp_tasks p)) AOk, WResume (length (wp_tasks p)) AOk] p
    = Some (p\<lparr>wp_transport := (wp_transport p)\<lparr>uf_outbox := al_del r (uf_outbox (wp_transport p))\<rparr>,
        wp_exportOut := exported_text (buildInviteBundleUrl (we_api env) (we_deflate env) (we_base env)
          (invite_val (page_invite env r)) (bundle_val \<lparr>bundle_roomId = r, bundle_messages = ms\<rparr>))\<rparr>, [])"
proof -
  have p: "wp_room p = Some r" "isFirstHop p" "\<not> uf_closed (wp_transport p)" "map_of (uf_outbox (wp_transport p)) r = Some ms"
    using assms(2) by (simp_all add: inviter_page_def isFirstHop_def split: option.splits)
  obtain enc where enc: "uf_exportBundle (we_deflate env) r (wp_transport p)
        = ((wp_transport p)\<lparr>uf_outbox := al_del r (uf_outbox (wp_transport p))\<rparr>, Inr enc)"
      "enc \<noteq> []" "decodeSignalingBundle (we_inflate env) enc = Inr \<lparr>bundle_roomId = r, bundle_messages = ms\<rparr>"
    using export_published [OF assms(1) p(3,4) assms(3,4)] by blast
  have hop: "isFirstHop (p\<lparr>wp_transport := t\<rparr>)" for t
    using p(2) by (simp add: isFirstHop_def split: option.splits)
  show ?thesis
    by (simp add: composeExportUrl_def p(1) enc wait_def bundle_exported_def hop invite_link_def link_text)
qed

subsection \<open>Opening an invite link\<close>

lemma resume_last:
  "wp_tasks p = xs @ [t] \<Longrightarrow> web_step env (WResume (length xs) a) p = web_resume env t a (p\<lparr>wp_tasks := xs\<rparr>)"
  by simp

lemma start_page:
  "page_start env href = (q, os) \<Longrightarrow> \<exists>xs. wp_tasks q = xs @ [TBoot href] \<and> wp_room q = None \<and> wp_remotePeer q = None
     \<and> wp_session q = None \<and> wp_sessions q = [] \<and> wp_transport q = new_url_fragment \<and> (\<forall>t\<in>set xs. t = TOfficial \<or> t = THandoff)"
  by (auto simp: page_start_def renderOfficialRegistry_def handleHandoff_def empty_page_def wait_def Let_def
      split: option.splits if_splits)

fun handler_out :: "web_out \<Rightarrow> bool" where
  "handler_out (WHandler h m) = True"
| "handler_out _ = False"

lemma import_waiting_last:
  "import_waiting n xs = None \<Longrightarrow> import_waiting n (xs @ [TImport who via n]) = Some (who, via)"
  by (induction n xs rule: import_waiting.induct) (auto split: if_splits)

lemma import_waiting_none: "\<forall>t\<in>set xs. t = TOfficial \<or> t = THandoff \<Longrightarrow> import_waiting n xs = None"
  by (induction xs) auto

lemma import_waiting_other: "\<forall>t\<in>set ts. imports_other n t \<Longrightarrow> import_waiting n ts = None"
  by (induction n ts rule: import_waiting.induct) auto

lemma delivered_outs:
  "adapter_outs (uf_deliver [h] ms @ os) p = prepend (map (WHandler h) ms) (adapter_outs os p)"
  by (induction ms) (simp_all add: uf_deliver_def prepend_def)

lemma handler_filters [simp]:
  "filter handler_out (page_log t) = []" "filter handler_out (map (WHandler h) ms) = map (WHandler h) ms"
  by (simp_all add: page_log_def filter_map comp_def)

text \<open>From the link to the started session, and on to the delivery.\<close>

lemma open_link:
  assumes q: "wp_tasks q = xs @ [TBoot href]" "wp_room q = None" "wp_sessions q = []" "wp_transport q = new_url_fragment"
      "\<forall>t\<in>set xs. t = TOfficial \<or> t = THandoff"
    and link: "url_parse (we_api env) href = Some u" "str_includes (js ''i='') (url_hash (we_api env) u)"
      "str_includes (js ''#'') href" "str_includes (js ''i='') href"
      "parseInviteBundleUrl (we_api env) (we_inflate env) href = Inr \<lparr>parsed_invite = i, parsed_bundle = Some b\<rparr>"
      "extractBundleFromUrl (we_api env) href = Inr (Some t)" "t \<noteq> []" "decodeSignalingBundle (we_inflate env) t = Inr b"
    and room: "bundle_roomId b = inv_roomId i"
  shows "\<exists>q' os. run_events (web_step env)
      [WResume (length xs) AOk, WResume (length xs) AOk, WAdapter (UfSubscribe (inv_roomId i) h),
       WResume (length xs) AOk, WAdapter (UfDecoded 0)] q = Some (q', os)
    \<and> wp_room q' = Some (inv_roomId i) \<and> wp_remotePeer q' = Some (inv_from i) \<and> wp_session q' = Some 0
    \<and> wp_sessions q' = [\<lparr>sn_role = Joiner, sn_room = inv_roomId i, sn_state = SIdle\<rparr>] \<and> wp_tasks q' = xs
    \<and> \<not> uf_closed (wp_transport q') \<and> uf_outbox (wp_transport q') = []
    \<and> WNewSession 0 (new_session Joiner (inv_roomId i) (we_me env) (Some (inv_from i))) \<in> set os
    \<and> filter handler_out os = map (WHandler h) (bundle_messages b)"
proof -
  let ?r = "inv_roomId i"
  define q1 where "q1 = q\<lparr>wp_tasks := xs @ [TParse ImportLoad href]\<rparr>"
  have s1: "web_step env (WResume (length xs) AOk) q = Some (q1, [])"
    unfolding resume_last [OF q(1)] by (simp add: auto_import_def link consumeUrl_def wait_def q1_def)
  obtain q2 o2 where s2: "web_step env (WResume (length xs) AOk) q1 = Some (q2, o2)"
    and q2: "wp_room q2 = Some ?r" "wp_remotePeer q2 = Some (inv_from i)" "wp_session q2 = Some 0"
      "wp_sessions q2 = [\<lparr>sn_role = Joiner, sn_room = ?r, sn_state = SIdle\<rparr>]" "wp_transport q2 = new_url_fragment"
      "wp_tasks q2 = xs @ [TStart 0 (ForLink ImportLoad href (Some b))]"
    and o2: "WNewSession 0 (new_session Joiner ?r (we_me env) (Some (inv_from i))) \<in> set o2" "filter handler_out o2 = []"
    using q by (simp add: q1_def link_parsed_def link startJoiner_def open_session_def attachSession_def wait_def Let_def
        prepend_def)
  define t3 where "t3 = new_url_fragment\<lparr>uf_handlers := [(?r, [h])]\<rparr>"
  have s3: "web_step env (WAdapter (UfSubscribe ?r h)) q2 = Some (q2\<lparr>wp_transport := t3\<rparr>, [])"
    by (simp add: on_adapter_def q2 uf_subscribe_def new_url_fragment_def t3_def set_add_def)
  define t4 where "t4 = t3\<lparr>uf_next_import := 1, uf_imports := [(0, t)]\<rparr>"
  define q4 where "q4 = q2\<lparr>wp_transport := t4, wp_tasks := xs @ [TImport ImportLoad True 0]\<rparr>"
  have s4: "web_step env (WResume (length xs) AOk) (q2\<lparr>wp_transport := t3\<rparr>) = Some (q4, [])"
    using q2(6) link(7) by (simp add: after_join_def uf_fromUrl_def link import_bundle_def uf_importBundle_def t3_def t4_def q4_def
        new_url_fragment_def wait_def Let_def)
  have s5: "\<exists>o5. web_step env (WAdapter (UfDecoded 0)) q4
      = Some (q2\<lparr>wp_transport := t4\<lparr>uf_imports := []\<rparr>, wp_tasks := xs\<rparr>, map (WHandler h) (bundle_messages b) @ o5)
      \<and> filter handler_out o5 = []"
  proof -
    have "filter (imports_other 0) xs = xs" using q(5) by (induction xs) auto
    then show ?thesis
      by (simp add: on_adapter_def q4_def uf_decoded_def t4_def t3_def new_url_fragment_def link room al_del_def Let_def
          delivered_outs prepend_def import_waiting_last [OF import_waiting_none [OF q(5)]] import_settled_def)
  qed
  then obtain o5 where s5: "web_step env (WAdapter (UfDecoded 0)) q4
      = Some (q2\<lparr>wp_transport := t4\<lparr>uf_imports := []\<rparr>, wp_tasks := xs\<rparr>, map (WHandler h) (bundle_messages b) @ o5)"
    "filter handler_out o5 = []" by blast
  show ?thesis
    using q2 o2 s5(2) by (simp add: s1 s2 s3 s4 s5(1) del: web_step.simps) (simp add: t4_def t3_def new_url_fragment_def)
qed

subsection \<open>The joiner's answer\<close>

definition joiner_page :: "jsstring \<Rightarrow> sig_message list \<Rightarrow> web_page \<Rightarrow> bool" where
  "joiner_page r ms p \<longleftrightarrow> wp_room p = Some r \<and> wp_remotePeer p \<noteq> None
     \<and> \<not> uf_closed (wp_transport p) \<and> map_of (uf_outbox (wp_transport p)) r = Some ms"

text \<open>The page's own address with a bundle's fragment is a URL, and holds no invite.\<close>

definition base_ok :: "'u url_api \<Rightarrow> jsstring \<Rightarrow> bool" where
  "base_ok api base \<longleftrightarrow> base \<noteq> [] \<and> \<not> js_space (hd base) \<and>
     (\<forall>s. fragment_safe s \<longrightarrow> (\<exists>u. url_parse api (base @ ch CHR ''#'' # s) = Some u \<and> url_hash api u = ch CHR ''#'' # s))
     \<and> \<not> str_includes (js ''i='') (base @ ch CHR ''#'' # js ''s='')"

lemma export_bundle:
  assumes "streams_inverse (we_deflate env) (we_inflate env)" "joiner_page r ms p"
    and "bundle_ok \<lparr>bundle_roomId = r, bundle_messages = ms\<rparr>" "bundle_clean \<lparr>bundle_roomId = r, bundle_messages = ms\<rparr>"
  shows "\<exists>enc. run_events (web_step env) [WExport, WResume (length (wp_tasks p)) AOk] p
    = Some (p\<lparr>wp_transport := (wp_transport p)\<lparr>uf_outbox := al_del r (uf_outbox (wp_transport p))\<rparr>,
        wp_exportOut := bundle_link env enc\<rparr>, [])
    \<and> set enc \<subseteq> set B64_ALPHABET \<and> enc \<noteq> []
    \<and> decodeSignalingBundle (we_inflate env) enc = Inr \<lparr>bundle_roomId = r, bundle_messages = ms\<rparr>"
proof -
  have p: "wp_room p = Some r" "\<not> uf_closed (wp_transport p)" "map_of (uf_outbox (wp_transport p)) r = Some ms"
    using assms(2) by (simp_all add: joiner_page_def)
  obtain enc where enc: "uf_exportBundle (we_deflate env) r (wp_transport p)
        = ((wp_transport p)\<lparr>uf_outbox := al_del r (uf_outbox (wp_transport p))\<rparr>, Inr enc)"
      "enc \<noteq> []" "set enc \<subseteq> set B64_ALPHABET"
      "decodeSignalingBundle (we_inflate env) enc = Inr \<lparr>bundle_roomId = r, bundle_messages = ms\<rparr>"
    using export_published [OF assms(1) p(2,3) assms(3,4)] by blast
  have hop: "\<not> isFirstHop (p\<lparr>wp_transport := t\<rparr>)" for t
    using assms(2) by (simp add: isFirstHop_def joiner_page_def)
  show ?thesis
    using enc by (intro exI [of _ enc])
      (simp add: composeExportUrl_def p(1) wait_def bundle_exported_def hop, simp add: bundle_link_def)
qed

text \<open>No \<open>i=\<close> arises from base64url text.\<close>

lemma str_includes_append_plain:
  assumes "\<forall>c\<in>set s. c \<noteq> ch CHR ''=''" 
  shows "str_includes (js ''i='') (a @ s) \<Longrightarrow> str_includes (js ''i='') a"
proof (induction a)
  case Nil
  have "\<not> str_includes (js ''i='') s" using assms
  proof (induction s)
    case (Cons c s)
    have "\<not> startsWith (c # s) (js ''i='')"
      using Cons.prems by (cases s) (auto simp: startsWith_def js_Cons)
    then show ?case using Cons by simp
  qed simp
  then show ?case using Nil by simp
next
  case (Cons c a)
  show ?case
  proof (cases "startsWith ((c # a) @ s) (js ''i='')")
    case True
    show ?thesis
    proof (cases a)
      case Nil
      then show ?thesis using True assms by (cases s) (auto simp: startsWith_def js_Cons)
    next
      case (Cons d b)
      then show ?thesis using True by (auto simp: startsWith_def js_Cons)
    qed
  next
    case False
    then show ?thesis using Cons by simp
  qed
qed

lemma b64_not_eq: "set s \<subseteq> set B64_ALPHABET \<Longrightarrow> \<forall>c\<in>set s. c \<noteq> ch CHR ''=''"
  using b64_plain form_plain_def by fastforce

lemma no_trim: "s \<noteq> [] \<Longrightarrow> \<not> js_space (hd s) \<Longrightarrow> \<not> js_space (last s) \<Longrightarrow> js_trim s = s"
proof -
  assume "s \<noteq> []" "\<not> js_space (hd s)" "\<not> js_space (last s)"
  then have "dropWhile js_space s = s" "dropWhile js_space (rev s) = rev s"
    by (simp_all add: dropWhile_eq_self_iff hd_rev)
  then show ?thesis by (simp add: js_trim_def)
qed

lemma b64_no_space: "c \<in> set B64_ALPHABET \<Longrightarrow> \<not> js_space c"
proof -
  have "list_all (\<lambda>c. \<not> js_space c) B64_ALPHABET"
    by (simp add: B64_ALPHABET_def js_def js_space_def ch_def)
  then show "c \<in> set B64_ALPHABET \<Longrightarrow> \<not> js_space c" by (simp add: list_all_iff)
qed

lemma import_answer:
  assumes p: "wp_room p \<noteq> None" "\<not> uf_closed (wp_transport p)" "uf_listeners (wp_transport p) r = [h]"
      "uf_imports (wp_transport p) = []" "\<forall>t\<in>set (wp_tasks p). imports_other (uf_next_import (wp_transport p)) t"
    and link: "base_ok (we_api env) base" "set enc \<subseteq> set B64_ALPHABET" "enc \<noteq> []"
      "decodeSignalingBundle (we_inflate env) enc = Inr \<lparr>bundle_roomId = r, bundle_messages = ms\<rparr>"
  shows "\<exists>p' os. run_events (web_step env)
      [WTypeImport (base @ ch CHR ''#'' # uf_toFragment enc), WImport, WAdapter (UfDecoded (uf_next_import (wp_transport p)))] p
        = Some (p', os)
    \<and> filter handler_out os = map (WHandler h) ms \<and> wp_room p' = wp_room p \<and> wp_session p' = wp_session p
    \<and> wp_tasks p' = wp_tasks p \<and> wp_importIn p' = []"
proof -
  let ?t = "wp_transport p" and ?href = "base @ ch CHR ''#'' # uf_toFragment enc"
  let ?n = "uf_next_import ?t"
  have frag: "uf_toFragment enc = param_text (js ''s'') enc" by (simp add: uf_toFragment_def param_text_def js_Cons)
  have "in_cls FRAGMENT_RANGES (ch CHR ''s'')" "in_cls FRAGMENT_RANGES (ch CHR ''='')"
    by (simp_all add: in_cls_def FRAGMENT_RANGES_def B64_RANGES_def)
  then have "fragment_safe (uf_toFragment enc)"
    using link(2) b64_fragment by (auto simp: fragment_safe_def frag param_text_def js_def list_all_iff)
  then obtain u where u: "url_parse (we_api env) ?href = Some u" "url_hash (we_api env) u = ch CHR ''#'' # uf_toFragment enc"
    using link(1) unfolding base_ok_def by blast
  have params: "search_params (uf_toFragment enc) = [(js ''s'', enc)]"
    unfolding frag by (rule search_params_one) (use link(2) b64_plain in \<open>auto simp: form_plain_def js_def\<close>)
  have found: "extractBundleFromUrl (we_api env) ?href = Inr (Some enc)"
    using params by (simp add: extractBundleFromUrl_def u(1) url_fragment_hash [OF u(2)]) (simp add: frag param_text_def)
  have "\<not> str_includes (js ''i='') ((base @ ch CHR ''#'' # js ''s='') @ enc)"
    using str_includes_append_plain [OF b64_not_eq [OF link(2)]] link(1) unfolding base_ok_def by blast
  then have no_i: "\<not> str_includes (js ''i='') ?href" by (simp add: uf_toFragment_def)
  have "\<not> js_space (last enc)" using link(2,3) b64_no_space last_in_set by blast
  then have trim: "js_trim ?href = ?href"
    using link(1,3) by (intro no_trim) (auto simp: base_ok_def uf_toFragment_def hd_append)
  define q where "q = wait (TImport ImportButton False ?n)
    (p\<lparr>wp_importIn := ?href, wp_transport := ?t\<lparr>uf_next_import := Suc ?n, uf_imports := [(?n, enc)]\<rparr>\<rparr>)"
  obtain r0 where room: "wp_room p = Some r0" using p(1) by blast
  have s1: "run_events (web_step env) [WTypeImport ?href, WImport] p = Some (q, [])"
    using p(2,4) trim no_i room
    by (simp add: on_import_def consumeUrl_def uf_fromUrl_def found import_bundle_def uf_importBundle_def q_def Let_def)
  have rest: "filter (imports_other ?n) (wp_tasks p) = wp_tasks p" using p(5) by (simp add: filter_id_conv)
  have waiting: "import_waiting ?n (wp_tasks p) = None"
    using p(5) by (rule import_waiting_other)
  obtain hs where hs: "map_of (uf_handlers ?t) r = Some [h]"
    using p(3) by (auto simp: uf_listeners_def split: option.splits)
  have s2: "\<exists>q' o2. web_step env (WAdapter (UfDecoded ?n)) q = Some (q', map (WHandler h) ms @ o2)
      \<and> filter handler_out o2 = [] \<and> wp_room q' = wp_room p \<and> wp_session q' = wp_session p \<and> wp_tasks q' = wp_tasks p
      \<and> wp_importIn q' = []"
    by (simp add: on_adapter_def q_def wait_def uf_decoded_def link(4) hs Let_def delivered_outs prepend_def
        import_waiting_last [OF waiting] import_settled_def rest)
  then obtain q' o2 where s2: "web_step env (WAdapter (UfDecoded ?n)) q = Some (q', map (WHandler h) ms @ o2)"
      "filter handler_out o2 = []" "wp_room q' = wp_room p" "wp_session q' = wp_session p" "wp_tasks q' = wp_tasks p"
      "wp_importIn q' = []" by blast
  have "run_events (web_step env) ([WTypeImport ?href, WImport] @ [WAdapter (UfDecoded ?n)]) p
      = Some (q', map (WHandler h) ms @ o2)"
    unfolding run_events_append s1 by (simp add: s2(1) del: web_step.simps)
  then show ?thesis using s2 by (simp del: web_step.simps run_events.simps)
qed

end
