(* ===== verification/Addon_Sdk.thy ===== *)
theory Addon_Sdk
  imports Addon_Host Signaling_Transport
begin

text \<open>
  \<open>addon-sdk/runtime/senn-addon-sdk.js\<close>, the script that installs \<open>window.senn\<close> in an add-on's frame,
  and the bridge it forms with the add-on's host: two windows that post messages to each other in
  order. The closure's variables are the record \<open>sdk\<close>; a handler is a number that stands for the
  function object, and the promise of a storage call is named by the number of the call. A dispatch
  calls the handlers that are registered when it starts (a handler that registers or removes
  handlers of its own event during the dispatch is not modelled, nor are the errors handlers throw,
  which the dispatch catches).
\<close>

subsection \<open>The script's state\<close>

text \<open>The events of \<open>senn.on\<close>, and what their handlers get (those of \<open>audio\<close> and \<open>media\<close> too).\<close>

datatype sdk_topic = OnInit | OnDeliver | OnDeliverBin | OnError

record sdk_context =
  cx_addonId :: jsval
  cx_version :: jsval
  cx_sessionId :: jsval

datatype sdk_value =
    VContext sdk_context
  | VDeliver jsval jsval
  | VDeliverBin jsval jsval jsval
  | VError jsval jsstring
  | VLevel jsval
  | VTrack jsval jsval jsval

text \<open>A storage call with its arguments.\<close>

datatype sdk_request = RGet jsval | RPut jsval jsval | RDelete jsval | RList | RClear

text \<open>
  What the script does: messages to the parent window, calls of handlers, the promise a storage call
  returns, the settling of a promise, the resolution of \<open>ready()\<close>'s promise, an error thrown to the caller.
\<close>

datatype sdk_out =
    SPost jsval
  | SCall nat sdk_value
  | SPromise nat sdk_request
  | SResolve nat jsval
  | SReject nat jsstring
  | SReady sdk_context
  | SThrow err

record sdk =
  sd_pending :: "(jsstring \<times> nat) list"
  sd_nextRid :: nat
  sd_context :: "sdk_context option"
  sd_waiting :: bool
  sd_listeners :: "sdk_topic \<Rightarrow> nat list"
  sd_audio :: "nat list"
  sd_track :: "nat list"

definition new_sdk :: sdk where
  "new_sdk = \<lparr>sd_pending = [], sd_nextRid = 0, sd_context = None, sd_waiting = True, sd_listeners = (\<lambda>_. []),
     sd_audio = [], sd_track = []\<rparr>"

type_synonym sdk_result = "sdk \<times> sdk_out list"

subsection \<open>Posting\<close>

text \<open>An object of the bridge: its kind, its operation, its other fields.\<close>

definition bridge_obj :: "string \<Rightarrow> jsfields \<Rightarrow> jsval" where
  "bridge_obj op fs = Obj ((js ''kind'', Str (js ''senn.addon.v1'')) # (js ''op'', Str (js op)) # fs)"

definition sdk_post :: "string \<Rightarrow> jsfields \<Rightarrow> sdk_out" where
  "sdk_post op fs = SPost (bridge_obj op fs)"

text \<open>The object given to \<open>rpcStorage\<close>.\<close>

fun request_fields :: "sdk_request \<Rightarrow> jsfields" where
  "request_fields (RGet key) = [(js ''storage'', Str (js ''get'')), (js ''key'', key)]"
| "request_fields (RPut key v) = [(js ''storage'', Str (js ''put'')), (js ''key'', key), (js ''value'', v)]"
| "request_fields (RDelete key) = [(js ''storage'', Str (js ''delete'')), (js ''key'', key)]"
| "request_fields RList = [(js ''storage'', Str (js ''list''))]"
| "request_fields RClear = [(js ''storage'', Str (js ''clear''))]"

definition rid_of :: "nat \<Rightarrow> jsstring" where
  "rid_of n = js ''r_'' @ radix_str 10 n"

definition rpcStorage :: "sdk_request \<Rightarrow> sdk \<Rightarrow> sdk_result" where
  "rpcStorage req s =
     (let n = Suc (sd_nextRid s) in
      (s\<lparr>sd_nextRid := n, sd_pending := al_set (rid_of n) n (sd_pending s)\<rparr>,
       [SPromise n req, sdk_post ''storage'' ((js ''rid'', Str (rid_of n)) # request_fields req)]))"

subsection \<open>Messages of the host\<close>

definition sdk_emit :: "sdk_topic \<Rightarrow> sdk_value \<Rightarrow> sdk \<Rightarrow> sdk_out list" where
  "sdk_emit ev v s = map (\<lambda>f. SCall f v) (sd_listeners s ev)"

text \<open>The error's text; \<open>None\<close> when a part cannot be printed, which throws.\<close>

definition bridge_error_text :: "jsval \<Rightarrow> jsval \<Rightarrow> jsstring option" where
  "bridge_error_text code message =
     (let msg = (if truthy message then message else Str (js ''bridge error'')) in
      if truthy code \<and> unprintable code \<or> unprintable msg then None
      else Some ((if truthy code then js_String code @ js '': '' else []) @ js_String msg))"

text \<open>\<open>new Error(x).message\<close>: an error made with \<open>undefined\<close> has none.\<close>

definition error_message :: "jsval \<Rightarrow> jsstring" where
  "error_message v = (if v = Undef then [] else js_String v)"

definition sdk_init :: "jsfields \<Rightarrow> sdk \<Rightarrow> sdk_result" where
  "sdk_init msg s =
     (let c = \<lparr>cx_addonId = fld msg ''addonId'', cx_version = fld msg ''version'', cx_sessionId = fld msg ''sessionId''\<rparr>;
          s1 = s\<lparr>sd_context := Some c\<rparr>
      in (s1\<lparr>sd_waiting := False\<rparr>, sdk_emit OnInit (VContext c) s1 @ (if sd_waiting s1 then [SReady c] else [])))"

definition sdk_error :: "jsfields \<Rightarrow> sdk \<Rightarrow> sdk_result" where
  "sdk_error msg s =
     (s, case bridge_error_text (fld msg ''code'') (fld msg ''message'') of
           None \<Rightarrow> [SThrow (Thrown ''TypeError'' '''')]
         | Some t \<Rightarrow> sdk_emit OnError (VError (fld msg ''code'') t) s)"

text \<open>A result for a promise that is waiting; a rid that is no string names none. An error value that cannot be printed throws.\<close>

definition storage_result :: "jsfields \<Rightarrow> sdk \<Rightarrow> sdk_result" where
  "storage_result msg s =
     (case fld msg ''rid'' of
        Str rid \<Rightarrow>
          (case map_of (sd_pending s) rid of
             None \<Rightarrow> (s, [])
           | Some n \<Rightarrow>
               (s\<lparr>sd_pending := al_del rid (sd_pending s)\<rparr>,
                if truthy (fld msg ''ok'') then [SResolve n (fld msg ''value'')]
                else if unprintable (fld msg ''error'') then [SThrow (Thrown ''TypeError'' '''')]
                else [SReject n (error_message (fld msg ''error''))]))
      | _ \<Rightarrow> (s, []))"

definition sdk_message :: "bool \<Rightarrow> jsval \<Rightarrow> sdk \<Rightarrow> sdk_result" where
  "sdk_message fromParent data s =
     (let msg = own_fields data; op = fld msg ''op'' in
      if \<not> fromParent then (s, [])
      else if \<not> truthy data \<or> fld msg ''kind'' \<noteq> Str (js ''senn.addon.v1'') then (s, [])
      else if op = Str (js ''init'') then sdk_init msg s
      else if op = Str (js ''deliver'') then (s, sdk_emit OnDeliver (VDeliver (fld msg ''payload'') (fld msg ''from'')) s)
      else if op = Str (js ''deliver-bin'')
      then (s, sdk_emit OnDeliverBin (VDeliverBin (fld msg ''mime'') (fld msg ''bytes'') (fld msg ''from'')) s)
      else if op = Str (js ''audio.level'') then (s, map (\<lambda>f. SCall f (VLevel (fld msg ''level''))) (sd_audio s))
      else if op = Str (js ''media.track'')
      then (s, map (\<lambda>f. SCall f (VTrack (fld msg ''direction'') (fld msg ''track'') (fld msg ''state''))) (sd_track s))
      else if op = Str (js ''error'') then sdk_error msg s
      else if op = Str (js ''storage.result'') then storage_result msg s
      else (s, []))"

subsection \<open>The global's functions\<close>

definition sdk_ready :: "sdk \<Rightarrow> sdk_result" where
  "sdk_ready s = (s, [sdk_post ''ready'' []])"

fun topic_of :: "string \<Rightarrow> sdk_topic option" where
  "topic_of name =
     (if name = ''init'' then Some OnInit else if name = ''deliver'' then Some OnDeliver
      else if name = ''deliver-bin'' then Some OnDeliverBin else if name = ''error'' then Some OnError else None)"

text \<open>The names \<open>listeners[event]\<close> finds on \<open>Object.prototype\<close>, which hold no set.\<close>

definition PROTOTYPE_NAMES :: "string list" where
  "PROTOTYPE_NAMES = [''constructor'', ''hasOwnProperty'', ''isPrototypeOf'', ''propertyIsEnumerable'', ''toLocaleString'',
     ''toString'', ''valueOf'', ''__proto__'', ''__defineGetter__'', ''__defineSetter__'', ''__lookupGetter__'', ''__lookupSetter__'']"

definition sdk_on :: "string \<Rightarrow> nat \<Rightarrow> sdk \<Rightarrow> sdk_result" where
  "sdk_on event handler s =
     (case topic_of event of
        None \<Rightarrow> (s, [SThrow (if event \<in> set PROTOTYPE_NAMES then Thrown ''TypeError'' ''''
                         else Thrown ''Error'' ''senn-addon-sdk: unknown event: '')])
      | Some ev \<Rightarrow> (s\<lparr>sd_listeners := (sd_listeners s)(ev := set_add handler (sd_listeners s ev))\<rparr>, []))"

text \<open>The function \<open>on\<close> returned.\<close>

definition sdk_off :: "sdk_topic \<Rightarrow> nat \<Rightarrow> sdk \<Rightarrow> sdk_result" where
  "sdk_off ev handler s = (s\<lparr>sd_listeners := (sd_listeners s)(ev := set_delete handler (sd_listeners s ev))\<rparr>, [])"

definition sdk_send :: "jsval \<Rightarrow> sdk \<Rightarrow> sdk_result" where
  "sdk_send payload s = (s, [sdk_post ''send'' [(js ''payload'', payload)]])"

text \<open>\<open>v || "application/octet-stream"\<close>.\<close>

definition mime_or_default :: "jsval \<Rightarrow> jsval" where
  "mime_or_default v = (if truthy v then v else Str (js ''application/octet-stream''))"

definition sdk_sendBinary :: "jsval \<Rightarrow> sdk \<Rightarrow> sdk_result" where
  "sdk_sendBinary req s =
     (s, [case fld (own_fields req) ''bytes'' of
            U8 bs \<Rightarrow>
              (let mime = mime_or_default (fld (own_fields req) ''mime'') in
               if unprintable mime then SThrow (Thrown ''TypeError'' '''')
               else sdk_post ''send-bin'' [(js ''mime'', Str (js_String mime)), (js ''bytes'', U8 bs)])
          | _ \<Rightarrow> SThrow (Thrown ''TypeError'' ''senn.peer.sendBinary: bytes must be a Uint8Array'')])"

text \<open>\<open>subscribeLevel\<close>; \<open>None\<close> is a handler that is no function.\<close>

definition subscribeLevel :: "nat option \<Rightarrow> sdk \<Rightarrow> sdk_result" where
  "subscribeLevel handler s =
     (case handler of
        None \<Rightarrow> (s, [SThrow (Thrown ''TypeError'' ''senn.audio.subscribeLevel: handler must be a function'')])
      | Some f \<Rightarrow>
          (let s1 = s\<lparr>sd_audio := set_add f (sd_audio s)\<rparr> in
           (s1, if length (sd_audio s1) = 1 then [sdk_post ''audio.level.subscribe'' []] else [])))"

definition unsubscribeLevel :: "nat \<Rightarrow> sdk \<Rightarrow> sdk_result" where
  "unsubscribeLevel f s =
     (let s1 = s\<lparr>sd_audio := set_delete f (sd_audio s)\<rparr> in
      (s1, if length (sd_audio s1) = 0 then [sdk_post ''audio.level.unsubscribe'' []] else []))"

text \<open>The functions of \<open>senn.media\<close> that only post.\<close>

datatype media_call =
    StartLocalAudio
  | StopLocalAudio
  | StartLocalVideo jsval
  | StopLocalVideo
  | SubscribeRemoteAudio
  | UnsubscribeRemoteAudio
  | SubscribeRemoteVideo
  | UnsubscribeRemoteVideo

fun sdk_media :: "media_call \<Rightarrow> sdk \<Rightarrow> sdk_result" where
  "sdk_media StartLocalAudio s = (s, [sdk_post ''media.send.audio.start'' []])"
| "sdk_media StopLocalAudio s = (s, [sdk_post ''media.send.audio.stop'' []])"
| "sdk_media (StartLocalVideo opts) s =
     (let source = fld (own_fields opts) ''source'' in
      (s, [sdk_post ''media.send.video.start'' (if truthy source then [(js ''source'', source)] else [])]))"
| "sdk_media StopLocalVideo s = (s, [sdk_post ''media.send.video.stop'' []])"
| "sdk_media SubscribeRemoteAudio s = (s, [sdk_post ''media.receive.audio.subscribe'' []])"
| "sdk_media UnsubscribeRemoteAudio s = (s, [sdk_post ''media.receive.audio.unsubscribe'' []])"
| "sdk_media SubscribeRemoteVideo s = (s, [sdk_post ''media.receive.video.subscribe'' []])"
| "sdk_media UnsubscribeRemoteVideo s = (s, [sdk_post ''media.receive.video.unsubscribe'' []])"

definition onTrack :: "nat option \<Rightarrow> sdk \<Rightarrow> sdk_result" where
  "onTrack handler s =
     (case handler of
        None \<Rightarrow> (s, [SThrow (Thrown ''TypeError'' ''senn.media.onTrack: handler must be a function'')])
      | Some f \<Rightarrow> (s\<lparr>sd_track := set_add f (sd_track s)\<rparr>, []))"

definition offTrack :: "nat \<Rightarrow> sdk \<Rightarrow> sdk_result" where
  "offTrack f s = (s\<lparr>sd_track := set_delete f (sd_track s)\<rparr>, [])"

text \<open>What an add-on can do with the global.\<close>

datatype sdk_call =
    DoReady
  | DoOn string nat
  | DoOff sdk_topic nat
  | DoSend jsval
  | DoSendBinary jsval
  | DoStorage sdk_request
  | DoSubscribeLevel "nat option"
  | DoUnsubscribeLevel nat
  | DoMedia media_call
  | DoOnTrack "nat option"
  | DoOffTrack nat

fun sdk_run :: "sdk_call \<Rightarrow> sdk \<Rightarrow> sdk_result" where
  "sdk_run DoReady s = sdk_ready s"
| "sdk_run (DoOn event f) s = sdk_on event f s"
| "sdk_run (DoOff ev f) s = sdk_off ev f s"
| "sdk_run (DoSend payload) s = sdk_send payload s"
| "sdk_run (DoSendBinary req) s = sdk_sendBinary req s"
| "sdk_run (DoStorage req) s = rpcStorage req s"
| "sdk_run (DoSubscribeLevel f) s = subscribeLevel f s"
| "sdk_run (DoUnsubscribeLevel f) s = unsubscribeLevel f s"
| "sdk_run (DoMedia m) s = sdk_media m s"
| "sdk_run (DoOnTrack f) s = onTrack f s"
| "sdk_run (DoOffTrack f) s = offTrack f s"

end
