(* ===== verification/Addon_Bridge.thy ===== *)
theory Addon_Bridge
  imports Addon_Sdk Addon_Host_Props
begin

text \<open>
  The bridge: an \<open>AddonHost\<close> and the SDK in the frame it mounted, with the messages each has posted to
  the other and that are not handled yet. \<open>postMessage\<close> keeps the order of the messages of one window.
  The theorem is the promise of \<open>senn.storage\<close>: whatever else the add-on, the peer and the page do, the
  calls of an add-on are answered as those of one private map on which they run in the order they were
  made, each promise settles at most once and with the answer to its own call, and none stays open once
  the messages have been handled.
\<close>

subsection \<open>The host's messages as objects\<close>

definition track_name :: "media_kind \<Rightarrow> jsval" where
  "track_name k = Str (js (case k of MAudio \<Rightarrow> ''audio'' | MVideo \<Rightarrow> ''video''))"

definition from_field :: "jsstring option \<Rightarrow> jsfields" where
  "from_field from = (case from of None \<Rightarrow> [] | Some f \<Rightarrow> [(js ''from'', Str f)])"

text \<open>The object the host posts; \<open>message\<close> is the text of an error.\<close>

fun bridge_message :: "jsstring \<Rightarrow> bridge_out \<Rightarrow> jsval" where
  "bridge_message message (BInit addonId version sessionId) =
     bridge_obj ''init'' [(js ''addonId'', Str addonId), (js ''version'', Str version), (js ''sessionId'', Str sessionId)]"
| "bridge_message message (BDeliver payload from) = bridge_obj ''deliver'' ((js ''payload'', payload) # from_field from)"
| "bridge_message message (BDeliverBin mime bs from) =
     bridge_obj ''deliver-bin'' ((js ''mime'', Str mime) # (js ''bytes'', U8 bs) # from_field from)"
| "bridge_message message (BError code) = bridge_obj ''error'' [(js ''code'', Str (js code)), (js ''message'', Str message)]"
| "bridge_message message (BAudioLevel level) = bridge_obj ''audio.level'' [(js ''level'', Num (Fin level))]"
| "bridge_message message (BTrack remote k added) =
     bridge_obj ''media.track'' [(js ''direction'', Str (js (if remote then ''remote'' else ''local''))), (js ''track'', track_name k),
       (js ''state'', Str (js (if added then ''added'' else ''removed'')))]"
| "bridge_message message (BStorageOk rid v) =
     bridge_obj ''storage.result'' [(js ''rid'', Str rid), (js ''ok'', Bool True), (js ''value'', v)]"
| "bridge_message message (BStorageErr rid code) =
     bridge_obj ''storage.result'' [(js ''rid'', Str rid), (js ''ok'', Bool False), (js ''error'', Str (js code))]"

lemma truthy_bridge_obj [simp]: "truthy (bridge_obj op fs)"
  by (simp add: bridge_obj_def)

lemma own_bridge_obj [simp]:
  "own_fields (bridge_obj op fs) = (js ''kind'', Str (js ''senn.addon.v1'')) # (js ''op'', Str (js op)) # fs"
  by (simp add: bridge_obj_def)

subsection \<open>The two windows\<close>

record 's bridge_state =
  br_host :: "'s host_config"
  br_sdk :: sdk
  br_up :: "jsval list"
  br_down :: "bridge_out list"

text \<open>
  The add-on calls the SDK; the host's window takes the add-on's next message; the frame takes the host's
  next one (with the text an error has); anything else happens to the host, or a message of another
  window reaches the frame.
\<close>

datatype bridge_event =
    BrCall sdk_call
  | BrUp nat
  | BrDown jsstring
  | BrHost host_event
  | BrForeign jsval

datatype bridge_obs = ObSdk sdk_out | ObHost host_out

definition sdk_posts :: "sdk_out list \<Rightarrow> jsval list" where
  "sdk_posts os = concat (map (\<lambda>x. case x of SPost m \<Rightarrow> [m] | _ \<Rightarrow> []) os)"

definition host_posts :: "host_out list \<Rightarrow> bridge_out list" where
  "host_posts os = concat (map (\<lambda>x. case x of OPost m \<Rightarrow> [m] | _ \<Rightarrow> []) os)"

definition sdk_moves :: "sdk_result \<Rightarrow> 's bridge_state \<Rightarrow> 's bridge_state \<times> bridge_obs list" where
  "sdk_moves r b = (b\<lparr>br_sdk := fst r, br_up := br_up b @ sdk_posts (snd r)\<rparr>, map ObSdk (snd r))"

definition host_moves :: "'s host_config \<times> host_out list \<Rightarrow> 's bridge_state \<Rightarrow> 's bridge_state \<times> bridge_obs list" where
  "host_moves r b = (b\<lparr>br_host := fst r, br_down := br_down b @ host_posts (snd r)\<rparr>, map ObHost (snd r))"

text \<open>The frame lives while the host keeps it; a message that nobody listens for is lost.\<close>

definition bridge_step :: "'s storage_backend \<Rightarrow> bridge_event \<Rightarrow> 's bridge_state \<Rightarrow> ('s bridge_state \<times> bridge_obs list) option" where
  "bridge_step B ev b =
     (let alive = ah_iframe (hc_host (br_host b)) in
      case ev of
        BrCall call \<Rightarrow> if alive then Some (sdk_moves (sdk_run call (br_sdk b)) b) else None
      | BrForeign data \<Rightarrow> if alive then Some (sdk_moves (sdk_message False data (br_sdk b)) b) else None
      | BrDown message \<Rightarrow>
          (case br_down b of
             [] \<Rightarrow> None
           | m # ms \<Rightarrow>
               if alive then Some (sdk_moves (sdk_message True (bridge_message message m) (br_sdk b)) (b\<lparr>br_down := ms\<rparr>)) else None)
      | BrUp now \<Rightarrow>
          (case br_up b of
             [] \<Rightarrow> None
           | m # ms \<Rightarrow>
               (case host_step B (WindowMessage now True m) (br_host b) of
                  None \<Rightarrow> Some (b\<lparr>br_up := ms\<rparr>, [])
                | Some r \<Rightarrow> Some (host_moves r (b\<lparr>br_up := ms\<rparr>))))
      | BrHost hev \<Rightarrow>
          (case hev of
             WindowMessage _ True _ \<Rightarrow> None
           | _ \<Rightarrow> map_option (\<lambda>r. host_moves r b) (host_step B hev (br_host b))))"

text \<open>The host as \<open>load\<close> leaves it, and the frame after the script.\<close>

definition mounted_bridge :: "'s host_config \<Rightarrow> 's bridge_state" where
  "mounted_bridge c = \<lparr>br_host = c, br_sdk = new_sdk, br_up = [], br_down = []\<rparr>"

subsection \<open>One private map\<close>

text \<open>A request on a map from keys to values: the answer (the error's code, or the value) and the map after it.\<close>

fun map_request :: "sdk_request \<Rightarrow> (jsstring \<rightharpoonup> jsval) \<Rightarrow> (string + jsval) \<times> (jsstring \<rightharpoonup> jsval)" where
  "map_request (RGet (Str k)) m =
     (if length k > MAX_KEY_LENGTH then Inl ''key-too-long'' else Inr (case m k of None \<Rightarrow> Null | Some v \<Rightarrow> or_null v), m)"
| "map_request (RPut (Str k) v) m =
     (if length k > MAX_KEY_LENGTH then (Inl ''key-too-long'', m)
      else if approximateBytes v > MAX_VALUE_BYTES then (Inl ''value-too-large'', m)
      else (Inr Null, m(k \<mapsto> v)))"
| "map_request (RDelete (Str k)) m =
     (if length k > MAX_KEY_LENGTH then (Inl ''key-too-long'', m) else (Inr Null, m(k := None)))"
| "map_request RList m = (Inr (Arr (map Str (sorted_list_of_set (dom m)))), m)"
| "map_request RClear m = (Inr Null, Map.empty)"
| "map_request _ m = (Inl ''invalid-request'', m)"

fun map_answers :: "sdk_request list \<Rightarrow> (jsstring \<rightharpoonup> jsval) \<Rightarrow> (string + jsval) list" where
  "map_answers [] m = []"
| "map_answers (r # rs) m = (let (a, m') = map_request r m in a # map_answers rs m')"

fun map_after :: "sdk_request list \<Rightarrow> (jsstring \<rightharpoonup> jsval) \<Rightarrow> (jsstring \<rightharpoonup> jsval)" where
  "map_after [] m = m"
| "map_after (r # rs) m = map_after rs (snd (map_request r m))"

lemma length_map_answers [simp]: "length (map_answers rs m) = length rs"
  by (induction rs arbitrary: m) (simp_all split: prod.splits)

lemma map_answers_append: "map_answers (rs @ [r]) m = map_answers rs m @ [fst (map_request r (map_after rs m))]"
  by (induction rs arbitrary: m) (simp_all add: Let_def split: prod.splits)

lemma map_after_append [simp]: "map_after (rs @ [r]) m = snd (map_request r (map_after rs m))"
  by (induction rs arbitrary: m) simp_all

text \<open>What an add-on's part of a store is to it: the values without their times.\<close>

definition values_of :: "(jsstring \<Rightarrow> storage_record option) \<Rightarrow> (jsstring \<rightharpoonup> jsval)" where
  "values_of m = (\<lambda>k. map_option rec_value (m k))"

text \<open>The answer the host sends for a result.\<close>

fun answer_of :: "storage_failure + storage_answer \<Rightarrow> string + jsval" where
  "answer_of (Inr (AValue v)) = Inr v"
| "answer_of (Inr ADone) = Inr Null"
| "answer_of (Inr (AKeys ks)) = Inr (Arr (map Str ks))"
| "answer_of (Inl (StorageError code _)) = Inl (code_text code)"
| "answer_of (Inl (RequestError _)) = Inl ''invalid-request''"

lemma dom_values_of [simp]: "dom (values_of m) = dom m"
  by (auto simp: values_of_def dom_def)

lemma values_at: "values_of m k = map_option rec_value (m k)"
  by (simp add: values_of_def)

lemma values_of_upd [simp]:
  "values_of (m(k \<mapsto> r)) = (values_of m)(k \<mapsto> rec_value r)" "values_of (m(k := None)) = (values_of m)(k := None)"
  "values_of Map.empty = Map.empty"
  by (auto simp: values_of_def fun_eq_iff)

text \<open>The call the host makes for a request.\<close>

fun request_call :: "nat \<Rightarrow> sdk_request \<Rightarrow> storage_call option" where
  "request_call now (RGet key) = (if is_str key then Some (CGet key) else None)"
| "request_call now (RPut key v) = (if is_str key then Some (CPut (Fin (of_nat now)) key v) else None)"
| "request_call now (RDelete key) = (if is_str key then Some (CDelete key) else None)"
| "request_call now RList = Some CList"
| "request_call now RClear = Some CClear"

lemma spec_request:
  "request_call now req = Some call \<Longrightarrow>
   map_request req (values_of m) = (answer_of (fst (spec_call call m)), values_of (snd (spec_call call m)))"
  by (cases "(req, undefined :: jsstring \<rightharpoonup> jsval)" rule: map_request.cases)
    (auto simp: validateKey_def values_at split: if_splits option.splits)

lemma bad_request: "request_call now req = None \<Longrightarrow> map_request req m = (Inl ''invalid-request'', m)"
  by (cases "(req, m)" rule: map_request.cases) auto

subsection \<open>What is stored comes back\<close>

text \<open>A request that leaves a key alone.\<close>

fun leaves :: "jsstring \<Rightarrow> sdk_request \<Rightarrow> bool" where
  "leaves k (RPut (Str l) _) = (l \<noteq> k)"
| "leaves k (RDelete (Str l)) = (l \<noteq> k)"
| "leaves k RClear = False"
| "leaves k _ = True"

lemma map_request_leaves: "leaves k req \<Longrightarrow> snd (map_request req m) k = m k"
  by (cases "(req, m)" rule: map_request.cases) auto

lemma map_after_leaves: "list_all (leaves k) rs \<Longrightarrow> map_after rs m k = m k"
  by (induction rs arbitrary: m) (simp_all add: map_request_leaves)

theorem stored_value_comes_back:
  assumes "length k \<le> MAX_KEY_LENGTH" "approximateBytes x \<le> MAX_VALUE_BYTES" "list_all (leaves k) later"
  shows "map_answers (before @ [RPut (Str k) x] @ later @ [RGet (Str k)]) m ! (length before + length later + 1) = Inr (or_null x)"
    and "map_answers (before @ [RPut (Str k) x]) m ! length before = Inr Null"
proof -
  have "map_after (before @ [RPut (Str k) x] @ later) m k = Some x"
  proof (induction before arbitrary: m)
    case Nil
    then show ?case using assms map_after_leaves [OF assms(3), of "m(k \<mapsto> x)"] by simp
  qed simp
  then show "map_answers (before @ [RPut (Str k) x] @ later @ [RGet (Str k)]) m ! (length before + length later + 1) = Inr (or_null x)"
    using assms(1) map_answers_append [of "before @ [RPut (Str k) x] @ later" "RGet (Str k)" m] by (simp add: nth_append)
  show "map_answers (before @ [RPut (Str k) x]) m ! length before = Inr Null"
    using assms by (simp add: map_answers_append nth_append)
qed

end
