(* ===== verification/Addon_Bridge_Props.thy ===== *)
theory Addon_Bridge_Props
  imports Addon_Bridge "HOL-Library.Multiset"
begin

text \<open>
  The proof that \<open>senn.storage\<close> is a private map. The invariant \<open>ledger\<close> follows every request from the
  promise the SDK returned: it is among the posted messages, or its answer is one of the host's
  continuations, one of the host's messages, or the promise is settled; the first requests are those
  the host has run, in the order they were made.
\<close>

subsection \<open>Following the requests\<close>

definition promises :: "bridge_obs list \<Rightarrow> sdk_request list" where
  "promises es = concat (map (\<lambda>e. case e of ObSdk (SPromise n r) \<Rightarrow> [r] | _ \<Rightarrow> []) es)"

definition settlements :: "bridge_obs list \<Rightarrow> (nat \<times> (jsstring + jsval)) list" where
  "settlements es = concat (map (\<lambda>e. case e of ObSdk (SResolve n v) \<Rightarrow> [(n, Inr v)] | ObSdk (SReject n t) \<Rightarrow> [(n, Inl t)] | _ \<Rightarrow> []) es)"

definition as_text :: "string + jsval \<Rightarrow> jsstring + jsval" where
  "as_text = map_sum js id"

definition task_answers :: "host_task list \<Rightarrow> (jsstring \<times> (jsstring + jsval)) list" where
  "task_answers ts = concat (map (\<lambda>t. case t of TStorage rid r \<Rightarrow> [(rid, as_text (answer_of r))] | _ \<Rightarrow> []) ts)"

definition down_answers :: "bridge_out list \<Rightarrow> (jsstring \<times> (jsstring + jsval)) list" where
  "down_answers bs = concat (map (\<lambda>b. case b of BStorageOk rid v \<Rightarrow> [(rid, Inr v)] | BStorageErr rid e \<Rightarrow> [(rid, Inl (js e))] | _ \<Rightarrow> []) bs)"

definition is_request :: "jsval \<Rightarrow> bool" where
  "is_request m = (fld (own_fields m) ''op'' = Str (js ''storage''))"

definition request_post :: "nat \<Rightarrow> sdk_request \<Rightarrow> jsval" where
  "request_post n r = bridge_obj ''storage'' ((js ''rid'', Str (rid_of n)) # request_fields r)"

fun request_posts :: "nat \<Rightarrow> sdk_request list \<Rightarrow> jsval list" where
  "request_posts n [] = []"
| "request_posts n (r # rs) = request_post (Suc n) r # request_posts (Suc n) rs"

lemma request_posts_append: "request_posts n (rs @ [r]) = request_posts n rs @ [request_post (Suc (n + length rs)) r]"
  by (induction rs arbitrary: n) simp_all

lemma answers_append [simp]:
  "promises (es @ es') = promises es @ promises es'" "settlements (es @ es') = settlements es @ settlements es'"
  "task_answers (ts @ ts') = task_answers ts @ task_answers ts'"
  "down_answers (bs @ bs') = down_answers bs @ down_answers bs'"
  "sdk_posts (os @ os') = sdk_posts os @ sdk_posts os'" "host_posts (hs @ hs') = host_posts hs @ host_posts hs'"
  by (simp_all add: promises_def settlements_def task_answers_def down_answers_def sdk_posts_def host_posts_def)

lemma answers_Nil [simp]:
  "promises [] = []" "settlements [] = []" "task_answers [] = []" "down_answers [] = []" "sdk_posts [] = []" "host_posts [] = []"
  by (simp_all add: promises_def settlements_def task_answers_def down_answers_def sdk_posts_def host_posts_def)

lemma answers_Cons:
  "promises (e # es) = (case e of ObSdk (SPromise n r) \<Rightarrow> [r] | _ \<Rightarrow> []) @ promises es"
  "settlements (e # es) = (case e of ObSdk (SResolve n v) \<Rightarrow> [(n, Inr v)] | ObSdk (SReject n t) \<Rightarrow> [(n, Inl t)] | _ \<Rightarrow> []) @ settlements es"
  "task_answers (t # ts) = (case t of TStorage rid r \<Rightarrow> [(rid, as_text (answer_of r))] | _ \<Rightarrow> []) @ task_answers ts"
  "down_answers (b # bs) = (case b of BStorageOk rid v \<Rightarrow> [(rid, Inr v)] | BStorageErr rid e \<Rightarrow> [(rid, Inl (js e))] | _ \<Rightarrow> []) @ down_answers bs"
  "sdk_posts (x # os) = (case x of SPost m \<Rightarrow> [m] | _ \<Rightarrow> []) @ sdk_posts os"
  "host_posts (y # hs) = (case y of OPost m \<Rightarrow> [m] | _ \<Rightarrow> []) @ host_posts hs"
  by (simp_all add: promises_def settlements_def task_answers_def down_answers_def sdk_posts_def host_posts_def)

lemma host_outputs [simp]: "promises (map ObHost hs) = []" "settlements (map ObHost hs) = []"
  by (induction hs) (simp_all add: answers_Cons)

lemma host_posts_post [simp]: "host_posts (postToIframe m h) = (if ah_iframe h then [m] else [])"
  by (simp add: postToIframe_def answers_Cons)

lemma host_posts_detach [simp]: "host_posts (map (ODetach \<circ> snd) ds) = []"
  by (induction ds) (simp_all add: answers_Cons)

subsection \<open>Request ids\<close>

lemma rid_of_inj [simp]: "rid_of a = rid_of b \<longleftrightarrow> a = b"
  using radix_str_inj [of 10 a b] by (auto simp: rid_of_def)

lemma rid_of_not_Nil [simp]: "rid_of n \<noteq> []" "length (rid_of n) \<noteq> 0"
  by (simp_all add: rid_of_def js_def)

subsection \<open>What the host does beside the store\<close>

text \<open>A host that listens is not closed.\<close>

definition attentive :: "'s addon_host \<Rightarrow> bool" where
  "attentive h \<longleftrightarrow> (ah_listening h \<longrightarrow> ah_state h \<noteq> HClosed)"

text \<open>Nothing about the store, its answers, or the requests changes; the host does not come back.\<close>

definition steady :: "'s addon_host \<Rightarrow> 's host_result \<Rightarrow> bool" where
  "steady h r = (case r of (h', es, ts) \<Rightarrow>
     ah_store h' = ah_store h \<and> ah_manifest h' = ah_manifest h \<and> ah_hasStorage h' = ah_hasStorage h
     \<and> task_answers ts = [] \<and> down_answers (host_posts es) = []
     \<and> (ah_iframe h' \<longrightarrow> ah_iframe h) \<and> (ah_listening h' \<longrightarrow> ah_listening h) \<and> (attentive h \<longrightarrow> attentive h'))"

lemma steady_same [simp]: "steady h (h, es, ts) \<longleftrightarrow> task_answers ts = [] \<and> down_answers (host_posts es) = []"
  by (simp add: steady_def)

lemmas steady_simps = steady_def answers_Cons host_setState_simps attentive_def

lemma set_receive_keeps [simp]:
  "ah_store (set_receive k b h) = ah_store h" "ah_manifest (set_receive k b h) = ah_manifest h"
  "ah_hasStorage (set_receive k b h) = ah_hasStorage h" "ah_iframe (set_receive k b h) = ah_iframe h"
  "ah_listening (set_receive k b h) = ah_listening h" "ah_state (set_receive k b h) = ah_state h"
  by (cases k; simp)+

lemma steady_media:
  "steady h (handleMediaSendStart k src h)" "steady h (handleMediaSendStop k h)"
  "steady h (handleMediaReceiveSubscribe k h)" "steady h (handleMediaReceiveUnsubscribe k h)"
  "steady h (handleRemoteTrack k trk d h)" "steady h (on_track_ended k trk h)"
  by (simp_all add: steady_simps handleMediaSendStart_def handleMediaSendStop_def handleMediaReceiveSubscribe_def
      handleMediaReceiveUnsubscribe_def handleRemoteTrack_def on_track_ended_def Let_def split: option.splits)

lemma steady_peer:
  "steady h (on_peer_text t h)" "steady h (on_peer_binary a mime bs h)" "steady h (handleAudioLevelSubscribe h)"
  "steady h (publishAudioLevel l h)" "steady h (handleSendBin mi b h)"
  by (simp_all add: steady_simps on_peer_text_def on_peer_binary_def handleAudioLevelSubscribe_def publishAudioLevel_def
      handleSendBin_def caught_def deliver_def deliverBinary_def split: option.splits jsnum.splits jsval.splits)

lemma steady_send: "steady h (fst (handleSend now p h))"
  by (simp add: steady_simps handleSend_def Let_def split: sum.splits option.splits prod.splits)

lemma steady_lifecycle: "steady h (on_ready h)" "steady h (onIframeLoad h)"
  by (auto simp: steady_simps on_ready_def ensureInitPosted_def onIframeLoad_def Let_def init_message_def)

lemma steady_close_sender: "steady h (close_sender i h)"
  by (simp add: steady_simps close_sender_def host_close_finish_def)

lemma steady_close: "steady h (host_close h)"
proof (cases "ah_state h = HClosed")
  case False
  let ?h = "h\<lparr>ah_state := HClosed, ah_listening := False, ah_bound := False, ah_audioLevel := False\<rparr>"
  obtain h' es ts where c: "close_sender 0 ?h = (h', es, ts)" by (metis prod_cases3)
  with steady_close_sender [of ?h 0] False show ?thesis
    by (auto simp: steady_simps host_close_def)
qed (simp add: host_close_def)

text \<open>A continuation other than a storage result's.\<close>

definition is_storage_task :: "host_task \<Rightarrow> bool" where
  "is_storage_task t = (case t of TStorage _ _ \<Rightarrow> True | _ \<Rightarrow> False)"

lemma is_storage_task_iff: "is_storage_task t \<longleftrightarrow> (\<exists>rid r. t = TStorage rid r)"
  by (cases t) (simp_all add: is_storage_task_def)

lemma steady_resume: "\<not> is_storage_task t \<Longrightarrow> steady h (host_resume t res h)"
proof (cases t)
  case (TClose i trk)
  obtain h' es ts where c: "close_sender (Suc i) h = (h', es, ts)" by (metis prod_cases3)
  with steady_close_sender [of h "Suc i"] show ?thesis
    by (simp add: TClose steady_simps host_resume_def close_sender_removed_def)
qed (simp_all add: steady_simps host_resume_def send_captured_def send_added_def send_stopped_def is_storage_task_def
    split: host_answer.splits)

lemma storage_resumed:
  "host_resume (TStorage rid r) res h = (h, storage_settled rid r h, []) \<and>
   down_answers (host_posts (storage_settled rid r h)) = (if ah_iframe h then [(rid, as_text (answer_of r))] else [])"
  by (auto simp: host_resume_def storage_settled_def storageReply_def storageError_def answers_Cons as_text_def
      split: sum.splits storage_failure.splits storage_answer.splits)

lemma steady_window:
  assumes "\<not> fr \<or> \<not> is_request data"
  shows "steady h (handleWindowMessage B now fr data h)"
proof (cases "bridge_fields data")
  case (Some msg)
  then have msg: "msg = own_fields data" and op: "fld msg ''op'' = Str (str_of (fld msg ''op''))"
    by (auto simp: bridge_fields_def is_str_iff split: if_splits)
  then have "fr \<Longrightarrow> str_of (fld msg ''op'') \<noteq> js ''storage''" using assms by (auto simp: is_request_def)
  then show ?thesis
    by (auto simp: handleWindowMessage_def Let_def Some steady_media steady_peer steady_send steady_lifecycle)
      (auto simp: steady_simps)
qed (simp add: handleWindowMessage_def)

lemma steady_run:
  assumes "\<And>now fr data. ev = WindowMessage now fr data \<Longrightarrow> \<not> fr \<or> \<not> is_request data"
    and "\<And>n res. ev = HResume n res \<Longrightarrow> \<not> is_storage_task (hc_tasks c ! n)"
  shows "steady (hc_host c) (host_run B ev c)"
proof (cases ev)
  case (WindowMessage now fr data)
  then show ?thesis using steady_window [of fr data] assms(1) by (simp add: host_run_def)
next
  case (HResume n res)
  then show ?thesis using steady_resume assms(2) by (simp add: host_run_def)
qed (auto simp: host_run_def Let_def steady_media steady_peer steady_lifecycle steady_close deliver_def deliverBinary_def answers_Cons)

text \<open>A request that reaches a listening host with a store and both permissions.\<close>

definition serves :: "'s addon_host \<Rightarrow> bool" where
  "serves h \<longleftrightarrow> ah_hasStorage h \<and> has_permission ''storage.local.read'' h \<and> has_permission ''storage.local.write'' h"

definition run_request :: "'s storage_backend \<Rightarrow> jsstring \<Rightarrow> nat \<Rightarrow> sdk_request \<Rightarrow> 's \<Rightarrow> (storage_failure + storage_answer) option \<times> 's" where
  "run_request B a now req st =
     (case request_call now req of
        None \<Rightarrow> (None, st)
      | Some call \<Rightarrow> let (res, st') = addon_call B a call st in (Some res, st'))"

lemma request_of_post:
  "bridge_fields (request_post n r) = Some ((js ''kind'', Str (js ''senn.addon.v1'')) # (js ''op'', Str (js ''storage''))
     # (js ''rid'', Str (rid_of n)) # request_fields r)"
  by (simp add: request_post_def bridge_obj_def bridge_fields_def)

lemma storage_request_of:
  "storage_request now (fld (request_fields r) ''storage'') (fld (request_fields r) ''key'') (fld (request_fields r) ''value'') =
     (case request_call now r of None \<Rightarrow> Inl ''invalid-request'' | Some call \<Rightarrow> Inr call)"
  by (cases r) (simp_all add: storage_request_def)

lemma request_served:
  assumes "serves h" "ah_state h \<noteq> HClosed" "ah_iframe h"
  shows "handleWindowMessage B now True (request_post n r) h =
     (case run_request B (am_id (ah_manifest h)) now r (ah_store h) of
        (None, st) \<Rightarrow> (h, [OPost (BStorageErr (rid_of n) ''invalid-request'')], [])
      | (Some res, st) \<Rightarrow> (h\<lparr>ah_store := st\<rparr>, [], [TStorage (rid_of n) res]))"
proof -
  have "handleWindowMessage B now True (request_post n r) h
      = handleStorage B now ((js ''kind'', Str (js ''senn.addon.v1'')) # (js ''op'', Str (js ''storage''))
     # (js ''rid'', Str (rid_of n)) # request_fields r) h"
    using assms by (simp add: handleWindowMessage_def request_of_post)
  also have "\<dots> = (case storage_request now (fld (request_fields r) ''storage'') (fld (request_fields r) ''key'') (fld (request_fields r) ''value'') of
              Inl code \<Rightarrow> (h, storageError (rid_of n) code h, [])
            | Inr call \<Rightarrow>
                (let (res, store) = addon_call B (am_id (ah_manifest h)) call (ah_store h) in
                 (h\<lparr>ah_store := store\<rparr>, [], [TStorage (rid_of n) res])))"
    using assms by (simp add: handleStorage_def serves_def)
  also have "\<dots> = (case run_request B (am_id (ah_manifest h)) now r (ah_store h) of
        (None, st) \<Rightarrow> (h, [OPost (BStorageErr (rid_of n) ''invalid-request'')], [])
      | (Some res, st) \<Rightarrow> (h\<lparr>ah_store := st\<rparr>, [], [TStorage (rid_of n) res]))"
    using assms(3) unfolding storage_request_of
    by (auto simp: run_request_def storageError_def postToIframe_def Let_def split: option.splits prod.splits)
  finally show ?thesis .
qed

definition run_answer :: "(storage_failure + storage_answer) option \<Rightarrow> string + jsval" where
  "run_answer r = (case r of None \<Rightarrow> Inl ''invalid-request'' | Some res \<Rightarrow> answer_of res)"

context storage_backend_total begin

lemma request_runs:
  assumes "\<And>k. key_ok k" "inv st" "ready st" "plain_id a" "run_request B a now req st = (r, st')"
  shows "inv st' \<and> ready st' \<and> map_request req (values_of (ns st a)) = (run_answer r, values_of (ns st' a))"
proof (cases "request_call now req")
  case None
  with assms show ?thesis by (auto simp: run_request_def run_answer_def bad_request)
next
  case (Some call)
  obtain res s1 where c: "addon_call B a call st = (res, s1)" by (cases "addon_call B a call st")
  have ok: "call_ok key_ok call" using assms(1) by (cases "(key_ok, call)" rule: call_ok.cases) auto
  from call_total [OF assms(2,4) ok assms(3) c] assms(5) show ?thesis
    by (auto simp: run_request_def Some c run_answer_def spec_request [OF Some])
qed

end

subsection \<open>What the SDK does with its calls and messages\<close>

lemma sdk_outputs:
  "promises (map ObSdk (sdk_emit ev v s)) = []" "settlements (map ObSdk (sdk_emit ev v s)) = []" "sdk_posts (sdk_emit ev v s) = []"
  "promises (map (ObSdk \<circ> (\<lambda>f. SCall f w)) fs) = []" "settlements (map (ObSdk \<circ> (\<lambda>f. SCall f w)) fs) = []"
  "sdk_posts (map (\<lambda>f. SCall f w) fs) = []"
  unfolding sdk_emit_def by (simp_all add: promises_def settlements_def sdk_posts_def o_def)

definition idle :: "sdk \<Rightarrow> sdk_result \<Rightarrow> bool" where
  "idle s r \<longleftrightarrow> sd_pending (fst r) = sd_pending s \<and> sd_nextRid (fst r) = sd_nextRid s
     \<and> promises (map ObSdk (snd r)) = [] \<and> settlements (map ObSdk (snd r)) = [] \<and> filter is_request (sdk_posts (snd r)) = []"

lemma is_request_obj [simp]: "is_request (bridge_obj op fs) \<longleftrightarrow> op = ''storage''"
  by (simp add: is_request_def bridge_obj_def)

lemmas idle_simps = idle_def answers_Cons sdk_outputs sdk_post_def

lemma idle_call: "(\<And>req. call \<noteq> DoStorage req) \<Longrightarrow> idle s (sdk_run call s)"
proof (cases call)
  case (DoMedia m)
  then show ?thesis by (cases m) (simp_all add: idle_simps Let_def)
qed (auto simp: idle_simps sdk_ready_def sdk_on_def sdk_off_def sdk_send_def sdk_sendBinary_def subscribeLevel_def
    unsubscribeLevel_def onTrack_def offTrack_def Let_def split: option.splits jsval.splits)

definition storage_result_of :: "bridge_out \<Rightarrow> (jsstring \<times> (jsstring + jsval)) option" where
  "storage_result_of m = (case m of BStorageOk rid v \<Rightarrow> Some (rid, Inr v) | BStorageErr rid e \<Rightarrow> Some (rid, Inl (js e)) | _ \<Rightarrow> None)"

lemma down_answers_Cons: "down_answers (m # ms) = (case storage_result_of m of None \<Rightarrow> [] | Some x \<Rightarrow> [x]) @ down_answers ms"
  by (auto simp: answers_Cons storage_result_of_def split: bridge_out.splits)

lemma idle_message: "storage_result_of m = None \<Longrightarrow> idle s (sdk_message True (bridge_message tx m) s)"
  by (cases m) (auto simp: idle_simps sdk_message_def Let_def sdk_init_def sdk_error_def storage_result_of_def split: option.splits)

lemma result_message:
  assumes "storage_result_of m = Some (rid, ans)" "map_of (sd_pending s) rid = Some n"
  shows "fst (sdk_message True (bridge_message tx m) s) = s\<lparr>sd_pending := al_del rid (sd_pending s)\<rparr>
    \<and> snd (sdk_message True (bridge_message tx m) s) = [case ans of Inl t \<Rightarrow> SReject n t | Inr v \<Rightarrow> SResolve n v]"
  using assms by (cases m) (auto simp: sdk_message_def Let_def storage_result_def error_message_def storage_result_of_def)

lemma request_sent:
  "sdk_run (DoStorage req) s = (s\<lparr>sd_nextRid := Suc (sd_nextRid s),
      sd_pending := al_set (rid_of (Suc (sd_nextRid s))) (Suc (sd_nextRid s)) (sd_pending s)\<rparr>,
    [SPromise (Suc (sd_nextRid s)) req, SPost (request_post (Suc (sd_nextRid s)) req)])"
  by (simp add: rpcStorage_def Let_def sdk_post_def request_post_def)

subsection \<open>The ledger\<close>

text \<open>The answers of the requests run so far, under their ids, and where the answers are now.\<close>

definition run_answers :: "sdk_request list \<Rightarrow> (jsstring \<rightharpoonup> jsval) \<Rightarrow> (jsstring \<times> (jsstring + jsval)) list" where
  "run_answers rs m = map (\<lambda>i. (rid_of (Suc i), as_text (map_answers rs m ! i))) [0..<length rs]"

definition all_answers :: "bridge_obs list \<Rightarrow> 's bridge_state \<Rightarrow> (jsstring \<times> (jsstring + jsval)) list" where
  "all_answers es b = task_answers (hc_tasks (br_host b)) @ down_answers (br_down b) @ map (apfst rid_of) (settlements es)"

definition covered :: "bool \<Rightarrow> 'x list \<Rightarrow> 'x list \<Rightarrow> bool" where
  "covered alive xs ys \<longleftrightarrow> mset xs \<subseteq># mset ys \<and> (alive \<longrightarrow> mset xs = mset ys)"

definition host_side :: "('s \<Rightarrow> namespaces) \<Rightarrow> ('s \<Rightarrow> bool) \<Rightarrow> jsstring \<Rightarrow> (jsstring \<rightharpoonup> jsval) \<Rightarrow> sdk_request list \<Rightarrow> 's addon_host \<Rightarrow> bool" where
  "host_side ns good a m0 run h \<longleftrightarrow> serves h \<and> am_id (ah_manifest h) = a \<and> attentive h \<and> good (ah_store h)
     \<and> values_of (ns (ah_store h) a) = map_after run m0"

definition sdk_side :: "bridge_obs list \<Rightarrow> sdk \<Rightarrow> bool" where
  "sdk_side es s \<longleftrightarrow> sd_nextRid s = length (promises es)
     \<and> (\<forall>rid n. map_of (sd_pending s) rid = Some n \<longleftrightarrow>
          rid = rid_of n \<and> 1 \<le> n \<and> n \<le> length (promises es) \<and> n \<notin> fst ` set (settlements es))"

definition ledger_at :: "('s \<Rightarrow> namespaces) \<Rightarrow> ('s \<Rightarrow> bool) \<Rightarrow> jsstring \<Rightarrow> (jsstring \<rightharpoonup> jsval) \<Rightarrow> sdk_request list \<Rightarrow> sdk_request list \<Rightarrow>
    bridge_obs list \<Rightarrow> 's bridge_state \<Rightarrow> bool" where
  "ledger_at ns good a m0 run rest es b \<longleftrightarrow> (let h = hc_host (br_host b) in
     promises es = run @ rest \<and> host_side ns good a m0 run h \<and> sdk_side es (br_sdk b)
     \<and> (ah_listening h \<longrightarrow> ah_iframe h \<longrightarrow> filter is_request (br_up b) = request_posts (length run) rest)
     \<and> covered (ah_iframe h) (all_answers es b) (run_answers run m0))"

definition ledger :: "('s \<Rightarrow> namespaces) \<Rightarrow> ('s \<Rightarrow> bool) \<Rightarrow> jsstring \<Rightarrow> (jsstring \<rightharpoonup> jsval) \<Rightarrow> bridge_obs list \<Rightarrow> 's bridge_state \<Rightarrow> bool" where
  "ledger ns good a m0 es b \<longleftrightarrow> (\<exists>run rest. ledger_at ns good a m0 run rest es b)"

lemma run_answers_append:
  "run_answers (rs @ [r]) m = run_answers rs m @ [(rid_of (Suc (length rs)), as_text (fst (map_request r (map_after rs m))))]"
  by (simp add: run_answers_def map_answers_append nth_append)

lemma distinct_run_answers: "distinct (map fst (run_answers rs m))"
  by (simp add: run_answers_def distinct_map inj_on_def o_def)

lemma run_answers_member:
  "(rid_of n, x) \<in> set (run_answers rs m) \<longleftrightarrow> 1 \<le> n \<and> n \<le> length rs \<and> x = as_text (map_answers rs m ! (n - 1))"
  by (cases n) (auto simp: run_answers_def)

text \<open>Entries of a sublist of entries with distinct names have distinct names.\<close>

lemma sub_distinct: "mset xs \<subseteq># mset ys \<Longrightarrow> distinct (map fst ys) \<Longrightarrow> distinct (map fst xs)"
proof -
  assume sub: "mset xs \<subseteq># mset ys" and d: "distinct (map fst ys)"
  have "mset (map fst xs) \<subseteq># mset (map fst ys)" using image_mset_subseteq_mono [OF sub, of fst] by simp
  then obtain zs where "mset (map fst ys) = mset (map fst xs @ zs)"
    by (metis ex_mset mset_append subset_mset.le_iff_add)
  with d show ?thesis by (metis distinct_append mset_eq_imp_distinct_iff)
qed

lemma covered_distinct: "covered alive xs (run_answers rs m) \<Longrightarrow> distinct (map fst xs)"
  using sub_distinct distinct_run_answers unfolding covered_def by blast

lemma covered_set: "covered alive xs ys \<Longrightarrow> x \<in> set xs \<Longrightarrow> x \<in> set ys"
  unfolding covered_def by (metis mset_subset_eqD set_mset_mset)

lemma covered_member:
  assumes "covered alive xs (run_answers rs m)" "(rid_of n, x) \<in> set xs"
  shows "1 \<le> n \<and> n \<le> length rs \<and> x = as_text (map_answers rs m ! (n - 1))"
  using covered_set [OF assms] by (simp add: run_answers_member)

lemma covered_rid: "covered alive xs (run_answers rs m) \<Longrightarrow> (rid, x) \<in> set xs \<Longrightarrow> \<exists>n. rid = rid_of n"
  using covered_set [of alive xs "run_answers rs m" "(rid, x)"] by (auto simp: run_answers_def)

lemma covered_same: "covered alive xs zs \<Longrightarrow> mset ys = mset xs \<Longrightarrow> (alive' \<longrightarrow> alive) \<Longrightarrow> covered alive' ys zs"
  by (simp add: covered_def)

lemma covered_more: "covered alive xs zs \<Longrightarrow> mset ys = add_mset z (mset xs) \<Longrightarrow> covered alive ys (zs @ [z])"
  by (simp add: covered_def)

lemma sdk_side_idle: "sdk_side es s \<Longrightarrow> idle s r \<Longrightarrow> sdk_side (es @ map ObSdk (snd r)) (fst r)"
  by (simp add: sdk_side_def idle_def)

lemma ledger_idle:
  assumes "ledger_at ns good a m0 run rest es b" "idle (br_sdk b) r"
  shows "ledger_at ns good a m0 run rest (es @ map ObSdk (snd r)) (fst (sdk_moves r b))"
  using assms sdk_side_idle [of es "br_sdk b" r] by (auto simp: ledger_at_def Let_def sdk_moves_def idle_def all_answers_def)

lemma ledger_request:
  fixes req :: sdk_request
  assumes "ledger_at ns good a m0 run rest es b"
  defines "r \<equiv> sdk_run (DoStorage req) (br_sdk b)"
  shows "ledger_at ns good a m0 run (rest @ [req]) (es @ map ObSdk (snd r)) (fst (sdk_moves r b))"
proof -
  let ?n = "Suc (length (promises es))"
  have n: "sd_nextRid (br_sdk b) = length (promises es)" and
    p: "map_of (sd_pending (br_sdk b)) rid = Some n \<longleftrightarrow>
          rid = rid_of n \<and> 1 \<le> n \<and> n \<le> length (promises es) \<and> n \<notin> fst ` set (settlements es)" for rid n
    using assms(1) by (auto simp: ledger_at_def Let_def sdk_side_def)
  have fresh: "?n \<notin> fst ` set (settlements es)"
  proof
    assume "?n \<in> fst ` set (settlements es)"
    then obtain x where "(rid_of ?n, x) \<in> set (all_answers es b)" by (force simp: all_answers_def)
    with covered_member [of _ "all_answers es b" run m0 ?n x] assms(1) show False
      by (auto simp: ledger_at_def Let_def)
  qed
  have r: "r = ((br_sdk b)\<lparr>sd_nextRid := ?n, sd_pending := al_set (rid_of ?n) ?n (sd_pending (br_sdk b))\<rparr>,
    [SPromise ?n req, SPost (request_post ?n req)])"
    by (simp only: r_def request_sent n)
  have "sdk_side (es @ map ObSdk (snd r)) (fst r)"
    using fresh by (auto simp: sdk_side_def r answers_Cons p le_Suc_eq)
  moreover have "is_request (request_post ?n req)" by (simp add: request_post_def)
  ultimately show ?thesis
    using assms(1) by (auto simp: ledger_at_def Let_def sdk_moves_def r answers_Cons all_answers_def request_posts_append)
qed

lemma ledger_result:
  fixes tx :: jsstring
  assumes l: "ledger_at ns good a m0 run rest es b" and d: "br_down b = m # ms" and m: "storage_result_of m = Some (rid, ans)"
  defines "r \<equiv> sdk_message True (bridge_message tx m) (br_sdk b)"
  shows "ledger_at ns good a m0 run rest (es @ map ObSdk (snd r)) (fst (sdk_moves r (b\<lparr>br_down := ms\<rparr>)))"
proof -
  have c: "covered (ah_iframe (hc_host (br_host b))) (all_answers es b) (run_answers run m0)"
    and s: "sdk_side es (br_sdk b)" and ps: "promises es = run @ rest"
    using l by (auto simp: ledger_at_def Let_def)
  have mem: "(rid, ans) \<in> set (all_answers es b)" by (simp add: all_answers_def d down_answers_Cons m)
  obtain n where rid: "rid = rid_of n" using covered_rid [OF c mem] by blast
  have n: "1 \<le> n" "n \<le> length (promises es)" using covered_member [OF c mem [unfolded rid]] by (simp_all add: ps)
  have "distinct (map fst (all_answers es b))" by (rule covered_distinct [OF c])
  then have fresh: "n \<notin> fst ` set (settlements es)" by (auto simp: all_answers_def d down_answers_Cons m rid image_iff)
  with s n have "map_of (sd_pending (br_sdk b)) rid = Some n" by (simp add: sdk_side_def rid)
  from result_message [OF m this, of tx]
  have r: "fst r = (br_sdk b)\<lparr>sd_pending := al_del rid (sd_pending (br_sdk b))\<rparr>"
    "snd r = [case ans of Inl t \<Rightarrow> SReject n t | Inr v \<Rightarrow> SResolve n v]" by (simp_all add: r_def)
  have o: "promises (map ObSdk (snd r)) = []" "settlements (map ObSdk (snd r)) = [(n, ans)]" "sdk_posts (snd r) = []"
    by (simp_all add: r answers_Cons split: sum.splits)
  have "sdk_side (es @ map ObSdk (snd r)) (fst r)"
    using s by (auto simp: sdk_side_def o r(1) rid)
  moreover have "mset (all_answers (es @ map ObSdk (snd r)) (fst (sdk_moves r (b\<lparr>br_down := ms\<rparr>)))) = mset (all_answers es b)"
    by (simp add: all_answers_def sdk_moves_def o d down_answers_Cons m rid)
  ultimately show ?thesis
    using l covered_same [OF c] by (simp add: ledger_at_def Let_def sdk_moves_def o)
qed

lemma ledger_steady:
  assumes l: "ledger_at ns good a m0 run rest es b" and s: "steady (hc_host (br_host b)) (h, os, ts)"
    and u: "filter is_request up = filter is_request (br_up b)"
    and t: "mset (task_answers ts') = mset (task_answers (hc_tasks (br_host b)))"
  shows "ledger_at ns good a m0 run rest (es @ map ObHost os)
    (b\<lparr>br_up := up, br_host := \<lparr>hc_host = h, hc_tasks = ts' @ ts\<rparr>, br_down := br_down b @ host_posts os\<rparr>)"
proof -
  have "host_side ns good a m0 run h"
    using l s by (auto simp: ledger_at_def Let_def host_side_def steady_def serves_def has_permission_def)
  moreover have "mset (all_answers (es @ map ObHost os)
      (b\<lparr>br_up := up, br_host := \<lparr>hc_host = h, hc_tasks = ts' @ ts\<rparr>, br_down := br_down b @ host_posts os\<rparr>)) = mset (all_answers es b)"
    using s t by (simp add: all_answers_def steady_def)
  ultimately show ?thesis
    using l s u covered_same by (fastforce simp: ledger_at_def Let_def steady_def sdk_side_def)
qed

lemma task_answers_split:
  "n < length ts \<Longrightarrow> mset (task_answers ts) = mset (task_answers [ts ! n]) + mset (task_answers (take n ts @ drop (Suc n) ts))"
  by (subst id_take_nth_drop [of n ts]) (simp_all add: answers_Cons)

lemma ledger_resumed:
  assumes l: "ledger_at ns good a m0 run rest es b" and n: "n < length (hc_tasks (br_host b))"
    and t: "hc_tasks (br_host b) ! n = TStorage rid r" and os: "os = storage_settled rid r (hc_host (br_host b))"
  shows "ledger_at ns good a m0 run rest (es @ map ObHost os)
    (b\<lparr>br_host := (br_host b)\<lparr>hc_tasks := take n (hc_tasks (br_host b)) @ drop (Suc n) (hc_tasks (br_host b))\<rparr>,
       br_down := br_down b @ host_posts os\<rparr>)" (is "ledger_at _ _ _ _ _ _ ?es ?b")
proof -
  let ?h = "hc_host (br_host b)"
  have d: "down_answers (host_posts os) = (if ah_iframe ?h then [(rid, as_text (answer_of r))] else [])"
    using storage_resumed [of rid r HDone ?h] by (simp add: os)
  have c: "covered (ah_iframe ?h) (all_answers es b) (run_answers run m0)" using l by (simp add: ledger_at_def Let_def)
  have "task_answers [hc_tasks (br_host b) ! n] = [(rid, as_text (answer_of r))]" by (simp add: t answers_Cons)
  with task_answers_split [OF n] d
  have "mset (all_answers es b) = mset (all_answers ?es ?b) + (if ah_iframe ?h then {#} else {#(rid, as_text (answer_of r))#})"
    by (simp add: all_answers_def)
  with c have "covered (ah_iframe ?h) (all_answers ?es ?b) (run_answers run m0)"
    unfolding covered_def by (auto dest: mset_subset_eq_insertD subset_mset.less_imp_le split: if_splits)
  with l show ?thesis by (simp add: ledger_at_def Let_def sdk_side_def)
qed

lemma ledger_quiet_event:
  assumes l: "ledger_at ns good a m0 run rest es b" and s: "host_step B ev (br_host b) = Some (c', os)"
    and u: "filter is_request up = filter is_request (br_up b)"
    and ev: "\<And>now fr data. ev = WindowMessage now fr data \<Longrightarrow> \<not> fr \<or> \<not> is_request data"
  shows "ledger_at ns good a m0 run rest (es @ map ObHost os) (b\<lparr>br_up := up, br_host := c', br_down := br_down b @ host_posts os\<rparr>)"
proof -
  let ?c = "br_host b"
  from s obtain h ts where en: "host_enabled ev ?c" and r: "host_run B ev ?c = (h, os, ts)"
    and c': "c' = \<lparr>hc_host = h, hc_tasks = host_tasks_after ev (hc_tasks ?c) @ ts\<rparr>"
    by (auto simp: step_unfold)
  show ?thesis
  proof (cases "\<exists>n res. ev = HResume n res \<and> is_storage_task (hc_tasks ?c ! n)")
    case True
    then obtain n res rid x where e: "ev = HResume n res" "hc_tasks ?c ! n = TStorage rid x"
      by (auto simp: is_storage_task_iff)
    have n: "n < length (hc_tasks ?c)" using en by (simp add: e host_enabled_def)
    have "h = hc_host ?c" "os = storage_settled rid x (hc_host ?c)" "ts = []"
      using r by (auto simp: e host_run_def storage_resumed Let_def)
    then show ?thesis
      using ledger_resumed [OF l n e(2)] u by (simp add: ledger_at_def Let_def c' e(1) host_tasks_after_def all_answers_def)
  next
    case False
    have "steady (hc_host ?c) (h, os, ts)" unfolding r [symmetric] using False ev by (intro steady_run) auto
    moreover have "mset (task_answers (host_tasks_after ev (hc_tasks ?c))) = mset (task_answers (hc_tasks ?c))"
    proof (cases ev)
      case (HResume n res)
      then have n: "n < length (hc_tasks ?c)" using en by (simp add: host_enabled_def)
      have "task_answers [hc_tasks ?c ! n] = []"
        using False HResume by (cases "hc_tasks ?c ! n") (auto simp: answers_Cons is_storage_task_iff)
      with task_answers_split [OF n] show ?thesis by (simp add: HResume host_tasks_after_def)
    qed (simp_all add: host_tasks_after_def)
    ultimately show ?thesis using ledger_steady [OF l _ u] by (simp add: c')
  qed
qed

context storage_backend_total begin

abbreviation backend_ledger where
  "backend_ledger \<equiv> ledger ns (\<lambda>st. inv st \<and> ready st)"

lemma ledger_served:
  assumes keys: "\<And>k. key_ok k" and a: "plain_id a" and l: "ledger_at ns (\<lambda>st. inv st \<and> ready st) a m0 run rest es b"
    and up: "br_up b = m # ms" "is_request m" and s: "host_step B (WindowMessage now True m) (br_host b) = Some (c', os)"
  shows "backend_ledger a m0 (es @ map ObHost os) (b\<lparr>br_up := ms, br_host := c', br_down := br_down b @ host_posts os\<rparr>)"
proof -
  let ?h = "hc_host (br_host b)"
  from s obtain h ts where en: "ah_listening ?h" and r: "handleWindowMessage B now True m ?h = (h, os, ts)"
    and c': "c' = \<lparr>hc_host = h, hc_tasks = hc_tasks (br_host b) @ ts\<rparr>"
    by (auto simp: step_unfold host_run_def host_enabled_def host_tasks_after_def)
  show ?thesis
  proof (cases "ah_iframe ?h")
    case False
    then have "h = ?h" "os = []" "ts = []" using r by (simp_all add: handleWindowMessage_def)
    with l False show ?thesis by (auto simp: ledger_def ledger_at_def Let_def c' all_answers_def)
  next
    case True
    have hs: "host_side ns (\<lambda>st. inv st \<and> ready st) a m0 run ?h" and ps: "promises es = run @ rest"
      and cv: "covered True (all_answers es b) (run_answers run m0)"
      and w: "m # filter is_request ms = request_posts (length run) rest"
      using l True en up by (simp_all add: ledger_at_def Let_def)
    then obtain req rest' where rest: "rest = req # rest'" "m = request_post (Suc (length run)) req"
      "filter is_request ms = request_posts (Suc (length run)) rest'"
      by (cases rest) auto
    have h: "serves ?h" "ah_state ?h \<noteq> HClosed" "am_id (ah_manifest ?h) = a" "inv (ah_store ?h)" "ready (ah_store ?h)"
      "values_of (ns (ah_store ?h) a) = map_after run m0"
      using hs en by (auto simp: host_side_def attentive_def)
    obtain res st where q: "run_request B a now req (ah_store ?h) = (res, st)" by (cases "run_request B a now req (ah_store ?h)")
    from request_runs [OF keys h(4,5) a q] have st: "inv st" "ready st"
      "map_request req (map_after run m0) = (run_answer res, values_of (ns st a))" by (simp_all add: h(6))
    define x where "x = (rid_of (Suc (length run)), as_text (run_answer res))"
    have "h = ?h\<lparr>ah_store := st\<rparr> \<and> mset (task_answers ts) + mset (down_answers (host_posts os)) = {#x#}"
      using r request_served [OF h(1,2) True, of B now "Suc (length run)" req] q
      by (auto simp: rest(2) h(3) x_def run_answer_def answers_Cons as_text_def run_request_def Let_def
          split: option.splits prod.splits)
    then have hx: "h = ?h\<lparr>ah_store := st\<rparr>" and xs: "mset (task_answers ts) + mset (down_answers (host_posts os)) = {#x#}" by auto
    let ?b = "b\<lparr>br_up := ms, br_host := c', br_down := br_down b @ host_posts os\<rparr>"
    have "mset (all_answers (es @ map ObHost os) ?b) = add_mset x (mset (all_answers es b))"
      using xs by (simp add: all_answers_def c' ac_simps)
    from covered_more [OF cv this]
    have "covered True (all_answers (es @ map ObHost os) ?b) (run_answers (run @ [req]) m0)"
      by (simp add: run_answers_append st(3) x_def)
    moreover have "host_side ns (\<lambda>st. inv st \<and> ready st) a m0 (run @ [req]) h"
      using hs st by (simp add: host_side_def hx serves_def has_permission_def attentive_def)
    ultimately have "ledger_at ns (\<lambda>st. inv st \<and> ready st) a m0 (run @ [req]) rest' (es @ map ObHost os) ?b"
      using l True rest by (simp add: ledger_at_def Let_def c' hx sdk_side_def)
    then show ?thesis by (auto simp: ledger_def)
  qed
qed

lemma ledger_host:
  assumes "\<And>k. key_ok k" "plain_id a" "backend_ledger a m0 es b" "br_up b = m # ms"
    and "host_step B (WindowMessage now True m) (br_host b) = Some (c', os)"
  shows "backend_ledger a m0 (es @ map ObHost os) (b\<lparr>br_up := ms, br_host := c', br_down := br_down b @ host_posts os\<rparr>)"
proof -
  from assms(3) obtain run rest where l: "ledger_at ns (\<lambda>st. inv st \<and> ready st) a m0 run rest es b" by (auto simp: ledger_def)
  show ?thesis
  proof (cases "is_request m")
    case False
    then have "filter is_request ms = filter is_request (br_up b)" by (simp add: assms(4))
    from ledger_quiet_event [OF l assms(5) this] False show ?thesis by (auto simp: ledger_def)
  qed (use ledger_served [OF assms(1,2) l assms(4) _ assms(5)] in simp)
qed

lemma ledger_step:
  assumes "\<And>k. key_ok k" "plain_id a" "backend_ledger a m0 es b" "bridge_step B ev b = Some (b', os)"
  shows "backend_ledger a m0 (es @ os) b'"
proof -
  from assms(3) obtain run rest where l: "ledger_at ns (\<lambda>st. inv st \<and> ready st) a m0 run rest es b" by (auto simp: ledger_def)
  show ?thesis
  proof (cases ev)
    case (BrCall call)
    then have b: "(b', os) = sdk_moves (sdk_run call (br_sdk b)) b" using assms(4) by (auto simp: bridge_step_def split: if_splits)
    show ?thesis
    proof (cases "\<exists>req. call = DoStorage req")
      case True
      then show ?thesis using ledger_request [OF l] b by (auto simp: ledger_def sdk_moves_def simp del: sdk_run.simps)
    next
      case False
      then have "idle (br_sdk b) (sdk_run call (br_sdk b))" by (intro idle_call) auto
      from ledger_idle [OF l this] b show ?thesis by (auto simp: ledger_def sdk_moves_def simp del: sdk_run.simps)
    qed
  next
    case (BrForeign data)
    then have "(b', os) = sdk_moves (br_sdk b, []) b"
      using assms(4) by (auto simp: bridge_step_def sdk_message_def Let_def split: if_splits)
    with l show ?thesis by (auto simp: ledger_def sdk_moves_def)
  next
    case (BrDown tx)
    then obtain m ms where d: "br_down b = m # ms"
      and b: "(b', os) = sdk_moves (sdk_message True (bridge_message tx m) (br_sdk b)) (b\<lparr>br_down := ms\<rparr>)"
      using assms(4) by (auto simp: bridge_step_def split: if_splits list.splits)
    show ?thesis
    proof (cases "storage_result_of m")
      case None
      have "ledger_at ns (\<lambda>st. inv st \<and> ready st) a m0 run rest es (b\<lparr>br_down := ms\<rparr>)"
        using l None by (simp add: ledger_at_def Let_def all_answers_def d down_answers_Cons)
      from ledger_idle [OF this, of "sdk_message True (bridge_message tx m) (br_sdk b)"] idle_message [OF None] b
      show ?thesis by (auto simp: ledger_def sdk_moves_def)
    next
      case (Some x)
      then show ?thesis using ledger_result [OF l d, of "fst x" "snd x" tx] b by (auto simp: ledger_def sdk_moves_def)
    qed
  next
    case (BrUp now)
    then obtain m ms where up: "br_up b = m # ms" using assms(4) by (auto simp: bridge_step_def split: list.splits)
    show ?thesis
    proof (cases "host_step B (WindowMessage now True m) (br_host b)")
      case None
      then have "\<not> ah_listening (hc_host (br_host b))" by (auto simp: host_step_def host_enabled_def split: if_splits prod.splits)
      moreover have "b' = b\<lparr>br_up := ms\<rparr>" "os = []" using assms(4) None up by (auto simp: BrUp bridge_step_def)
      ultimately have "ledger_at ns (\<lambda>st. inv st \<and> ready st) a m0 run rest (es @ os) b'"
        using l by (simp add: ledger_at_def Let_def all_answers_def)
      then show ?thesis by (auto simp: ledger_def)
    next
      case (Some r)
      then show ?thesis
        using ledger_host [OF assms(1-3) up, of now "fst r" "snd r"] assms(4)
        by (auto simp: BrUp bridge_step_def up host_moves_def)
    qed
  next
    case (BrHost hev)
    then obtain c' hos where s: "host_step B hev (br_host b) = Some (c', hos)" and b: "(b', os) = host_moves (c', hos) b"
      and nw: "\<And>now data. hev \<noteq> WindowMessage now True data"
      using assms(4) by (auto simp: bridge_step_def split: host_event.splits bool.splits)
    have "ledger_at ns (\<lambda>st. inv st \<and> ready st) a m0 run rest (es @ map ObHost hos)
        (b\<lparr>br_up := br_up b, br_host := c', br_down := br_down b @ host_posts hos\<rparr>)"
      using nw by (intro ledger_quiet_event [OF l s]) auto
    with b show ?thesis by (auto simp: ledger_def host_moves_def)
  qed
qed

end

subsection \<open>The promise of \<open>senn.storage\<close>\<close>

text \<open>The answers an add-on's calls get, as its promises settle.\<close>

definition private_map_answers :: "sdk_request list \<Rightarrow> (jsstring \<rightharpoonup> jsval) \<Rightarrow> (jsstring + jsval) list" where
  "private_map_answers rs m = map as_text (map_answers rs m)"

text \<open>Nothing is under way: no message, no continuation of a storage call.\<close>

definition caught_up :: "'s bridge_state \<Rightarrow> bool" where
  "caught_up b \<longleftrightarrow> ah_listening (hc_host (br_host b)) \<and> ah_iframe (hc_host (br_host b)) \<and> br_up b = [] \<and> br_down b = []
     \<and> list_all (\<lambda>t. \<not> is_storage_task t) (hc_tasks (br_host b))"

lemma no_storage_tasks: "list_all (\<lambda>t. \<not> is_storage_task t) ts \<Longrightarrow> task_answers ts = []"
  by (induction ts) (auto simp: answers_Cons is_storage_task_def split: host_task.splits)

lemma request_posts_Nil [simp]: "request_posts n rs = [] \<longleftrightarrow> rs = []" "[] = request_posts n rs \<longleftrightarrow> rs = []"
  by (cases rs; simp)+

lemma ledger_settles:
  assumes "ledger ns good a m0 es b"
  shows "distinct (map fst (settlements es))
    \<and> (\<forall>(n, x)\<in>set (settlements es). 1 \<le> n \<and> n \<le> length (promises es) \<and> x = private_map_answers (promises es) m0 ! (n - 1))
    \<and> (caught_up b \<longrightarrow> length (settlements es) = length (promises es) \<and> sd_pending (br_sdk b) = [])"
proof -
  from assms obtain run rest where l: "ledger_at ns good a m0 run rest es b" by (auto simp: ledger_def)
  let ?live = "ah_iframe (hc_host (br_host b))"
  have c: "covered ?live (all_answers es b) (run_answers run m0)" and ps: "promises es = run @ rest"
    and s: "sdk_side es (br_sdk b)"
    using l by (auto simp: ledger_at_def Let_def)
  have "distinct (map fst (map (apfst rid_of) (settlements es)))"
    using covered_distinct [OF c] by (simp add: all_answers_def)
  then have d: "distinct (map fst (settlements es))" by (simp add: distinct_map comp_inj_on_iff [symmetric] o_def inj_on_def)
  have pre: "map_answers (run @ rest) m0 ! i = map_answers run m0 ! i" if "i < length run" for i
    using that
  proof (induction rest rule: rev_induct)
    case (snoc r rest)
    then show ?case unfolding append_assoc [symmetric] map_answers_append by (simp add: nth_append)
  qed simp
  have m: "1 \<le> n \<and> n \<le> length (promises es) \<and> x = private_map_answers (promises es) m0 ! (n - 1)"
    if "(n, x) \<in> set (settlements es)" for n x
  proof -
    have "(rid_of n, x) \<in> set (all_answers es b)" using that by (force simp: all_answers_def)
    from covered_member [OF c this] show ?thesis by (auto simp: ps private_map_answers_def pre)
  qed
  have "length (settlements es) = length (promises es) \<and> sd_pending (br_sdk b) = []" if q: "caught_up b"
  proof -
    have "rest = []" using l q by (simp add: ledger_at_def Let_def caught_up_def)
    moreover have "all_answers es b = map (apfst rid_of) (settlements es)"
      using q no_storage_tasks by (simp add: caught_up_def all_answers_def)
    ultimately have "mset (map (apfst rid_of) (settlements es)) = mset (run_answers (promises es) m0)"
      using c q ps by (simp add: covered_def caught_up_def)
    from mset_eq_length [OF this] mset_eq_setD [OF this]
    have len: "length (settlements es) = length (promises es)"
      and st: "set (map (apfst rid_of) (settlements es)) = set (run_answers (promises es) m0)"
      by (simp_all add: run_answers_def)
    have "map_of (sd_pending (br_sdk b)) rid \<noteq> Some n" for rid n
    proof
      assume "map_of (sd_pending (br_sdk b)) rid = Some n"
      with s have n: "1 \<le> n" "n \<le> length (promises es)" "n \<notin> fst ` set (settlements es)" by (auto simp: sdk_side_def)
      then have "(rid_of n, as_text (map_answers (promises es) m0 ! (n - 1))) \<in> set (map (apfst rid_of) (settlements es))"
        unfolding st by (simp add: run_answers_member)
      with n(3) show False by force
    qed
    then have "sd_pending (br_sdk b) = []" by (cases "sd_pending (br_sdk b)") (auto split: if_splits, metis not_Some_eq)
    with len show ?thesis by simp
  qed
  with d m show ?thesis by blast
qed

interpretation memory_bridge: monitored "bridge_step memory_backend"
    "\<lambda>es b. plain_id a \<and> memory.backend_ledger a m0 es b" for a m0
  using memory.ledger_step by unfold_locales blast

lemma mounted_ledger:
  assumes "js ''storage.local.read'' \<in> set (am_permissions m)" "js ''storage.local.write'' \<in> set (am_permissions m)"
    and "memory_inv st" "\<not> mem_closed st"
  shows "memory.backend_ledger (am_id m) (values_of (memory_ns st (am_id m))) [] (mounted_bridge (loaded m lnk True st cap snk now cnt))"
proof -
  obtain sid c where h: "hc_host (loaded m lnk True st cap snk now cnt) =
     \<lparr>ah_manifest = m, ah_sessionId = sid, ah_link = lnk, ah_hasStorage = True, ah_store = st, ah_iframe = True,
      ah_state = HMounted, ah_bound = (lnk \<noteq> None), ah_listening = True, ah_audioLevel = False, ah_capture = cap, ah_sink = snk,
      ah_senders = [], ah_recvAudio = False, ah_recvVideo = False, ah_detachers = [], ah_tracks = [], ah_counter = c\<rparr>"
    using loaded_host [of m lnk True st cap snk now cnt] by blast
  have "ledger_at memory_ns (\<lambda>st. memory_inv st \<and> \<not> mem_closed st) (am_id m) (values_of (memory_ns st (am_id m))) [] [] []
      (mounted_bridge (loaded m lnk True st cap snk now cnt))"
    using assms by (simp add: ledger_at_def Let_def mounted_bridge_def h host_side_def serves_def has_permission_def attentive_def
        sdk_side_def new_sdk_def all_answers_def covered_def run_answers_def) (simp add: loaded_def)
  then show ?thesis unfolding ledger_def by blast
qed

theorem storage_promises:
  assumes "manifest_ok m" "js ''storage.local.read'' \<in> set (am_permissions m)" "js ''storage.local.write'' \<in> set (am_permissions m)"
    and "memory_inv st" "\<not> mem_closed st"
    and "reach (bridge_step memory_backend) (mounted_bridge (loaded m lnk True st cap snk now cnt)) es b"
  shows "distinct (map fst (settlements es))"
    and "(n, x) \<in> set (settlements es) \<Longrightarrow> 1 \<le> n \<and> n \<le> length (promises es)
      \<and> x = private_map_answers (promises es) (values_of (memory_ns st (am_id m))) ! (n - 1)"
    and "caught_up b \<Longrightarrow> length (settlements es) = length (promises es) \<and> sd_pending (br_sdk b) = []"
proof -
  have "plain_id (am_id m)" using assms(1) addon_id_plain by (simp add: manifest_ok_def)
  with memory_bridge.reach_monitored [OF assms(6)] mounted_ledger [OF assms(2-5)]
  have l: "memory.backend_ledger (am_id m) (values_of (memory_ns st (am_id m))) es b" by blast
  note * = ledger_settles [OF l]
  show "distinct (map fst (settlements es))" using * by blast
  show "(n, x) \<in> set (settlements es) \<Longrightarrow> 1 \<le> n \<and> n \<le> length (promises es)
      \<and> x = private_map_answers (promises es) (values_of (memory_ns st (am_id m))) ! (n - 1)" using * by blast
  show "caught_up b \<Longrightarrow> length (settlements es) = length (promises es) \<and> sd_pending (br_sdk b) = []" using * by blast
qed

subsection \<open>The audio level\<close>

text \<open>What a message asks of the level, and what is asked for once the posted messages are handled.\<close>

definition level_wish :: "jsval \<Rightarrow> bool option" where
  "level_wish m =
     (case bridge_fields m of
        None \<Rightarrow> None
      | Some fs \<Rightarrow>
          if fld fs ''op'' = Str (js ''audio.level.subscribe'') then Some True
          else if fld fs ''op'' = Str (js ''audio.level.unsubscribe'') then Some False else None)"

definition level_after :: "jsval list \<Rightarrow> bool \<Rightarrow> bool" where
  "level_after ms flag = fold (\<lambda>m w. case level_wish m of None \<Rightarrow> w | Some x \<Rightarrow> x) ms flag"

definition level_kept :: "'s addon_host \<Rightarrow> 's host_result \<Rightarrow> bool" where
  "level_kept h r \<longleftrightarrow> (ah_listening (fst r) \<longrightarrow> ah_listening h \<and> ah_audioLevel (fst r) = ah_audioLevel h)
     \<and> ah_manifest (fst r) = ah_manifest h \<and> (ah_iframe (fst r) \<longrightarrow> ah_iframe h)"

lemma level_after_simps [simp]:
  "level_after [] flag = flag"
  "level_after (m # ms) flag = level_after ms (case level_wish m of None \<Rightarrow> flag | Some x \<Rightarrow> x)"
  "level_after (ms @ ns) flag = level_after ns (level_after ms flag)"
  by (simp_all add: level_after_def)

lemma level_wish_obj [simp]:
  "level_wish (bridge_obj op fs) = (if op = ''audio.level.subscribe'' then Some True
     else if op = ''audio.level.unsubscribe'' then Some False else None)"
  by (simp add: level_wish_def bridge_fields_def bridge_obj_def)

lemma level_kept_same [simp]: "level_kept h (h, es, ts)"
  by (simp add: level_kept_def)

lemma level_kept_media:
  "level_kept h (handleMediaSendStart k src h)" "level_kept h (handleMediaSendStop k h)"
  "level_kept h (handleMediaReceiveSubscribe k h)" "level_kept h (handleMediaReceiveUnsubscribe k h)"
  "level_kept h (handleRemoteTrack k trk d h)" "level_kept h (on_track_ended k trk h)"
  by (cases k; simp add: level_kept_def handleMediaSendStart_def handleMediaSendStop_def handleMediaReceiveSubscribe_def
      handleMediaReceiveUnsubscribe_def handleRemoteTrack_def on_track_ended_def Let_def split: option.splits)+

lemma level_kept_others:
  "level_kept h (on_peer_text t h)" "level_kept h (on_peer_binary a mime bs h)" "level_kept h (publishAudioLevel l h)"
  "level_kept h (handleSendBin mi b h)" "level_kept h (on_ready h)" "level_kept h (onIframeLoad h)"
  by (simp_all add: level_kept_def on_peer_text_def on_peer_binary_def publishAudioLevel_def handleSendBin_def on_ready_def
      ensureInitPosted_def onIframeLoad_def host_setState_simps Let_def split: option.splits jsnum.splits jsval.splits)

lemma level_kept_send: "level_kept h (fst (handleSend now p h))"
  by (simp add: level_kept_def handleSend_def Let_def split: sum.splits option.splits prod.splits)

lemma level_kept_storage: "level_kept h (handleStorage B now msg h)"
  by (simp add: level_kept_def handleStorage_def Let_def split: jsval.splits sum.splits prod.splits)

lemma level_kept_close_sender: "level_kept h (close_sender i h)"
  by (simp add: level_kept_def close_sender_def host_close_finish_def)

lemma level_kept_close: "level_kept h (host_close h)"
proof -
  let ?h = "h\<lparr>ah_state := HClosed, ah_listening := False, ah_bound := False, ah_audioLevel := False\<rparr>"
  obtain h' es ts where c: "close_sender 0 ?h = (h', es, ts)" by (metis prod_cases3)
  with level_kept_close_sender [of ?h 0] show ?thesis by (simp add: level_kept_def host_close_def host_setState_simps c)
qed

lemma level_kept_resume: "level_kept h (host_resume t res h)"
proof (cases t)
  case (TClose i trk)
  obtain h' es ts where c: "close_sender (Suc i) h = (h', es, ts)" by (metis prod_cases3)
  with level_kept_close_sender [of h "Suc i"] show ?thesis
    by (simp add: TClose level_kept_def host_resume_def close_sender_removed_def)
qed (simp_all add: level_kept_def host_resume_def send_captured_def send_added_def send_stopped_def
    split: host_answer.splits)

lemma level_kept_run: "(\<And>now data. ev \<noteq> WindowMessage now True data) \<Longrightarrow> level_kept (hc_host c) (host_run B ev c)"
proof (cases ev)
  case (WindowMessage now fr data)
  moreover assume "\<And>now data. ev \<noteq> WindowMessage now True data"
  ultimately have "\<not> fr" by blast
  then show ?thesis by (simp add: WindowMessage host_run_def handleWindowMessage_def)
qed (auto simp: host_run_def Let_def level_kept_media level_kept_others level_kept_close level_kept_resume)

lemma level_window:
  assumes "has_permission ''audio.level'' h" "ah_iframe h"
  shows "level_kept (h\<lparr>ah_audioLevel := (case level_wish m of None \<Rightarrow> ah_audioLevel h | Some x \<Rightarrow> x)\<rparr>) (handleWindowMessage B now True m h)"
proof (cases "bridge_fields m")
  case (Some msg)
  then have "fld msg ''op'' = Str (str_of (fld msg ''op''))"
    by (auto simp: bridge_fields_def is_str_iff split: if_splits)
  then obtain op where "fld msg ''op'' = Str op" by blast
  with assms Some show ?thesis
    by (simp add: handleWindowMessage_def level_wish_def Let_def level_kept_media level_kept_others level_kept_send
        level_kept_storage handleAudioLevelSubscribe_def)
qed (simp add: handleWindowMessage_def level_wish_def assms)

text \<open>While the host listens, the level it will send follows the handlers that are registered.\<close>

definition level_agrees :: "'s bridge_state \<Rightarrow> bool" where
  "level_agrees b \<longleftrightarrow> (let h = hc_host (br_host b) in
     has_permission ''audio.level'' h
     \<and> (ah_listening h \<longrightarrow> ah_iframe h \<longrightarrow> level_after (br_up b) (ah_audioLevel h) = (sd_audio (br_sdk b) \<noteq> [])))"

lemma level_call:
  "level_after (sdk_posts (snd (sdk_run call s))) (sd_audio s \<noteq> []) = (sd_audio (fst (sdk_run call s)) \<noteq> [])"
proof (cases call)
  case (DoMedia m)
  then show ?thesis by (cases m) (simp_all add: sdk_post_def answers_Cons Let_def)
qed (auto simp: sdk_ready_def sdk_on_def sdk_off_def sdk_send_def sdk_sendBinary_def subscribeLevel_def rpcStorage_def
    unsubscribeLevel_def onTrack_def offTrack_def sdk_post_def answers_Cons Let_def set_add_def set_delete_def split: option.splits jsval.splits)

lemma level_message:
  "sd_audio (fst (sdk_message fr data s)) = sd_audio s \<and> sdk_posts (snd (sdk_message fr data s)) = []"
  by (auto simp: sdk_message_def Let_def sdk_init_def sdk_error_def storage_result_def sdk_outputs answers_Cons
      split: option.splits jsval.splits)

lemma level_agrees_sdk:
  assumes "level_agrees b" "level_after (sdk_posts (snd r)) (sd_audio (br_sdk b) \<noteq> []) = (sd_audio (fst r) \<noteq> [])"
  shows "level_agrees (fst (sdk_moves r b))"
  using assms by (simp add: level_agrees_def Let_def sdk_moves_def)

lemma level_agrees_step:
  assumes l: "level_agrees b" and s: "bridge_step B ev b = Some (b', os)"
  shows "level_agrees b'"
proof (cases ev)
  case (BrCall call)
  then show ?thesis using s level_agrees_sdk [OF l level_call [of call]] by (auto simp: bridge_step_def sdk_moves_def simp del: sdk_run.simps split: if_splits)
next
  case (BrForeign data)
  then show ?thesis
    using s level_agrees_sdk [OF l, of "sdk_message False data (br_sdk b)"] level_message [of False data "br_sdk b"]
    by (auto simp: bridge_step_def sdk_moves_def split: if_splits)
next
  case (BrDown tx)
  then obtain m ms where b: "b' = fst (sdk_moves (sdk_message True (bridge_message tx m) (br_sdk b)) (b\<lparr>br_down := ms\<rparr>))"
    using s by (auto simp: bridge_step_def sdk_moves_def split: if_splits list.splits)
  have "level_agrees (b\<lparr>br_down := ms\<rparr>)" using l by (simp add: level_agrees_def)
  from level_agrees_sdk [OF this, of "sdk_message True (bridge_message tx m) (br_sdk b)"] level_message [of True _ "br_sdk b"]
  show ?thesis by (simp add: b)
next
  case (BrUp now)
  then obtain m ms where up: "br_up b = m # ms" using s by (auto simp: bridge_step_def split: list.splits)
  show ?thesis
  proof (cases "host_step B (WindowMessage now True m) (br_host b)")
    case None
    then have "\<not> ah_listening (hc_host (br_host b))" by (auto simp: host_step_def host_enabled_def split: if_splits prod.splits)
    then show ?thesis using l s None up by (auto simp: BrUp bridge_step_def level_agrees_def Let_def)
  next
    case (Some r)
    then obtain h hos ts where w: "handleWindowMessage B now True m (hc_host (br_host b)) = (h, hos, ts)"
      and r: "hc_host (fst r) = h" by (auto simp: host_step_def host_run_def Let_def split: if_splits prod.splits)
    have b: "hc_host (br_host b') = h" "br_up b' = ms" "br_sdk b' = br_sdk b"
      using s Some r up by (auto simp: BrUp bridge_step_def host_moves_def)
    show ?thesis
    proof (cases "ah_iframe (hc_host (br_host b))")
      case True
      with level_window [OF _ True, where B = B and now = now and m = m] l w show ?thesis
        by (auto simp: level_agrees_def Let_def level_kept_def b up has_permission_def)
    next
      case False
      then show ?thesis using l w by (auto simp: level_agrees_def Let_def b up handleWindowMessage_def)
    qed
  qed
next
  case (BrHost hev)
  then obtain c' hos where st: "host_step B hev (br_host b) = Some (c', hos)"
    and b: "b' = fst (host_moves (c', hos) b)" and nw: "\<And>now data. hev \<noteq> WindowMessage now True data"
    using s by (auto simp: bridge_step_def host_moves_def split: host_event.splits bool.splits)
  from st obtain ts where "host_run B hev (br_host b) = (hc_host c', hos, ts)" by (auto simp: step_unfold)
  with level_kept_run [OF nw, where c = "br_host b" and B = B] l show ?thesis
    by (auto simp: level_agrees_def Let_def level_kept_def b host_moves_def has_permission_def)
qed

interpretation level: preserved "bridge_step B" level_agrees for B
  using level_agrees_step by unfold_locales

theorem level_follows_handlers:
  assumes "js ''audio.level'' \<in> set (am_permissions m)"
    and "reach (bridge_step B) (mounted_bridge (loaded m lnk hs st cap snk now cnt)) es b"
    and "ah_listening (hc_host (br_host b))" "ah_iframe (hc_host (br_host b))" "br_up b = []"
  shows "ah_audioLevel (hc_host (br_host b)) \<longleftrightarrow> sd_audio (br_sdk b) \<noteq> []"
proof -
  have "level_agrees (mounted_bridge (loaded m lnk hs st cap snk now cnt) :: 'a bridge_state)"
    using loaded_host [of m lnk hs st cap snk now cnt] assms(1)
    by (auto simp: level_agrees_def Let_def mounted_bridge_def has_permission_def new_sdk_def)
  from level.reach_preserves [OF assms(2) this] assms(3-5) show ?thesis by (simp add: level_agrees_def Let_def)
qed

text \<open>
  The documentation of the SDK puts the handlers of \<open>init\<close> after the resolution of \<open>ready()\<close>'s promise; the script
  calls them first.
\<close>

theorem init_handlers_run_before_ready:
  assumes "sd_waiting s" "f \<in> set (sd_listeners s OnInit)"
  shows "\<exists>c xs. sdk_message True (bridge_message tx (BInit i v sid)) s = (s\<lparr>sd_context := Some c, sd_waiting := False\<rparr>, xs @ [SReady c])
    \<and> SCall f (VContext c) \<in> set xs"
  using assms by (auto simp: sdk_message_def Let_def sdk_init_def sdk_emit_def)

end
