(* ===== verification/Local_Vault.thy ===== *)
theory Local_Vault
  imports Addon_Sdk Base64url
begin

text \<open>
  \<open>addons/local-vault/addon.js\<close>, the file vault: files the user picks are kept in the add-on's store as
  base64, listed, downloaded, deleted, and sent to the peer in one binary message whose first bytes
  carry the name; what a peer sends lands in an inbox. The page's state is a record; a handler runs up
  to its next \<open>await\<close> and leaves a task, which the promise's answer resumes. The library's \<open>btoa\<close> and
  \<open>atob\<close> are modelled on the base64url codec of the repository, with the other two letters and padding.
\<close>

subsection \<open>\<open>btoa\<close> and \<open>atob\<close>\<close>

definition to_standard :: "jschar \<Rightarrow> jschar" where
  "to_standard c = (if c = ch CHR ''-'' then ch CHR ''+'' else if c = ch CHR ''_'' then ch CHR ''/'' else c)"

definition to_url :: "jschar \<Rightarrow> jschar" where
  "to_url c = (if c = ch CHR ''+'' then ch CHR ''-'' else if c = ch CHR ''/'' then ch CHR ''_'' else c)"

definition btoa :: "bytes \<Rightarrow> jsstring" where
  "btoa bs = map to_standard (b64_encode bs) @ replicate ((3 - length bs mod 3) mod 3) (ch CHR ''='')"

text \<open>ASCII white space, which \<open>atob\<close> skips, and the letters of the standard alphabet.\<close>

definition ascii_space :: "jschar \<Rightarrow> bool" where
  "ascii_space c = (unat c \<in> {9, 10, 12, 13, 32})"

definition standard_letter :: "jschar \<Rightarrow> bool" where
  "standard_letter c = (c \<in> to_standard ` set B64_ALPHABET)"

definition strip_padding :: "jsstring \<Rightarrow> jsstring" where
  "strip_padding s =
     (if length s mod 4 \<noteq> 0 then s
      else if drop (length s - 2) s = js ''=='' then take (length s - 2) s
      else if drop (length s - 1) s = js ''='' then take (length s - 1) s else s)"

text \<open>\<open>None\<close>: the \<open>InvalidCharacterError\<close>.\<close>

definition atob :: "jsstring \<Rightarrow> bytes option" where
  "atob s =
     (let t = strip_padding (filter (\<lambda>c. \<not> ascii_space c) s) in
      if length t mod 4 = 1 \<or> \<not> list_all standard_letter t then None else b64_groups (map to_url t))"

definition bytesToBase64 :: "bytes \<Rightarrow> jsstring" where
  "bytesToBase64 bs = btoa bs"

text \<open>\<open>atob\<close> takes any value as its text; a value that cannot be printed throws too.\<close>

definition base64ToBytes :: "jsval \<Rightarrow> bytes option" where
  "base64ToBytes b64 = (if unprintable b64 then None else atob (js_String b64))"

subsection \<open>The page\<close>

definition KEY_PREFIX :: jsstring where "KEY_PREFIX = js ''vault/''"
definition PEER_BIN_MAX_BYTES :: nat where "PEER_BIN_MAX_BYTES = 4 * 1024 * 1024"

text \<open>A row of the list: the file's key and record; an entry of the inbox.\<close>

datatype vault_row = VaultEmpty | VaultFile jsstring jsval

record inbox_item =
  bx_name :: jsstring
  bx_mime :: jsval
  bx_body :: bytes

text \<open>Who awaits \<open>refreshList\<close>: the \<open>try\<close> of \<open>btnAdd\<close>, the initial render, a click of a row's button.\<close>

datatype refresh_origin = FromAdd | FromReady | FromClick

datatype vault_task =
    VtKeys refresh_origin
  | VtRow refresh_origin jsstring "jsstring list"
  | VtBuffer jsstring jsstring
  | VtAdded jsstring nat
  | VtSaved jsstring
  | VtDeleted jsval

record vault =
  lv_state :: jsstring
  lv_status :: jsstring
  lv_initialized :: bool
  lv_list :: "vault_row list"
  lv_inbox :: "inbox_item list"
  lv_tasks :: "vault_task list"

text \<open>
  What the page does: calls of \<open>senn\<close>, the reading of the picked file, a download, the reset of the
  picker, an error that reaches the frame's window (thrown by a listener, or a rejection nobody handles).
\<close>

datatype vault_out =
    VoCall sdk_call
  | VoReadFile
  | VoDownload jsval jsval bytes
  | VoResetPicker
  | VoUncaught

type_synonym vault_result = "vault \<times> vault_out list"

definition new_vault :: vault where
  "new_vault = \<lparr>lv_state = js ''ready'', lv_status = [], lv_initialized = False, lv_list = [], lv_inbox = [], lv_tasks = []\<rparr>"

definition decimal :: "nat \<Rightarrow> jsstring" where
  "decimal n = radix_str 10 n"

definition vault_setStatus :: "jsstring \<Rightarrow> vault \<Rightarrow> vault" where
  "vault_setStatus t v = v\<lparr>lv_status := t\<rparr>"

definition await_task :: "vault_task \<Rightarrow> vault \<Rightarrow> vault" where
  "await_task t v = v\<lparr>lv_tasks := lv_tasks v @ [t]\<rparr>"

text \<open>A record as the page writes it, and the field of one it reads.\<close>

definition vault_record :: "jsstring \<Rightarrow> jsstring \<Rightarrow> bytes \<Rightarrow> jsval" where
  "vault_record name type bs =
     Obj [(js ''name'', Str name), (js ''type'', Str type), (js ''size'', jint (int (length bs))), (js ''b64'', Str (bytesToBase64 bs))]"

definition rec_field :: "jsval \<Rightarrow> string \<Rightarrow> jsval" where
  "rec_field rec k = fld (own_fields rec) k"

subsection \<open>The list\<close>

definition vault_failed :: "refresh_origin \<Rightarrow> jsstring \<Rightarrow> vault \<Rightarrow> vault_result" where
  "vault_failed origin message v =
     (case origin of
        FromAdd \<Rightarrow> (vault_setStatus (js ''error: '' @ message) v, [])
      | FromReady \<Rightarrow> (v, [])
      | FromClick \<Rightarrow> (v, [VoUncaught]))"

definition refreshList :: "refresh_origin \<Rightarrow> vault \<Rightarrow> vault_result" where
  "refreshList origin v = (await_task (VtKeys origin) v, [VoCall (DoStorage RList)])"

text \<open>The loop over the keys, up to the next \<open>await\<close>.\<close>

fun next_row :: "refresh_origin \<Rightarrow> jsstring list \<Rightarrow> vault \<Rightarrow> vault_result" where
  "next_row origin [] v = (v, [])"
| "next_row origin (k # ks) v = (await_task (VtRow origin k ks) v, [VoCall (DoStorage (RGet (Str k)))])"

text \<open>What \<open>keys.filter((k) => k.startsWith(...))\<close> gives; \<open>None\<close> throws.\<close>

definition file_keys :: "jsval \<Rightarrow> jsstring list option" where
  "file_keys keys =
     (case keys of
        Arr ks \<Rightarrow> if list_all is_str ks then Some (filter (\<lambda>k. startsWith k KEY_PREFIX) (map str_of ks)) else None
      | _ \<Rightarrow> None)"

definition keys_listed :: "refresh_origin \<Rightarrow> jsval \<Rightarrow> vault \<Rightarrow> vault_result" where
  "keys_listed origin keys v =
     (let v1 = v\<lparr>lv_list := []\<rparr> in
      case file_keys keys of
        None \<Rightarrow> vault_failed origin [] v1
      | Some [] \<Rightarrow> (v1\<lparr>lv_list := [VaultEmpty]\<rparr>, [])
      | Some ks \<Rightarrow> next_row origin ks v1)"

text \<open>Whether the row's texts can be made.\<close>

definition row_prints :: "jsval \<Rightarrow> bool" where
  "row_prints rec = (\<not> unprintable (rec_field rec ''name'') \<and> \<not> unprintable (rec_field rec ''size'')
     \<and> \<not> (truthy (rec_field rec ''type'') \<and> unprintable (rec_field rec ''type'')))"

definition row_loaded :: "refresh_origin \<Rightarrow> jsstring \<Rightarrow> jsstring list \<Rightarrow> jsval \<Rightarrow> vault \<Rightarrow> vault_result" where
  "row_loaded origin k ks rec v =
     (if \<not> truthy rec then next_row origin ks v
      else if \<not> row_prints rec then vault_failed origin [] v
      else next_row origin ks (v\<lparr>lv_list := lv_list v @ [VaultFile k rec]\<rparr>))"

subsection \<open>To and from the peer\<close>

text \<open>\<open>setUint16(0, n, true)\<close> and \<open>getUint16(0, true)\<close>.\<close>

definition uint16_le :: "nat \<Rightarrow> bytes" where
  "uint16_le n = [word_of_nat n, word_of_nat (n div 256)]"

definition get_uint16_le :: "bytes \<Rightarrow> nat" where
  "get_uint16_le bs = unat (bs ! 0) + 256 * unat (bs ! 1)"

text \<open>What \<open>TextEncoder.encode\<close> reads of its argument.\<close>

definition encoded_name :: "jsval \<Rightarrow> bytes" where
  "encoded_name name = utf8_encode (if name = Undef then [] else js_String name)"

definition file_frame :: "bytes \<Rightarrow> bytes \<Rightarrow> bytes" where
  "file_frame nameBytes bs = uint16_le (length nameBytes) @ nameBytes @ bs"

definition sendToPeer :: "jsval \<Rightarrow> vault \<Rightarrow> vault_result" where
  "sendToPeer rec v =
     (case base64ToBytes (rec_field rec ''b64'') of
        None \<Rightarrow> (v, [VoUncaught])
      | Some bs \<Rightarrow>
          if length bs > PEER_BIN_MAX_BYTES
          then (vault_setStatus (js ''too large to send ('' @ decimal (length bs) @ js '' B; cap '' @ decimal PEER_BIN_MAX_BYTES @ js '' B)'') v, [])
          else
            let nameBytes = encoded_name (rec_field rec ''name'') in
            if length nameBytes > 255 then (vault_setStatus (js ''filename too long to send (max 255 B UTF-8)'') v, [])
            else
              let frame = file_frame nameBytes bs in
              if length frame > PEER_BIN_MAX_BYTES
              then (vault_setStatus (js ''too large to send including filename ('' @ decimal (length frame) @ js '' B)'') v, [])
              else (vault_setStatus (js ''sent '' @ js_String (rec_field rec ''name'') @ js '' ('' @ decimal (length bs) @ js '' B) to peer'') v,
                    [VoCall (DoSendBinary (Obj [(js ''mime'', mime_or_default (rec_field rec ''type'')), (js ''bytes'', U8 frame)]))]))"

text \<open>A delivery; bytes that are no \<open>Uint8Array\<close> throw, which the SDK catches.\<close>

definition handleIncoming :: "jsval \<Rightarrow> jsval \<Rightarrow> vault \<Rightarrow> vault_result" where
  "handleIncoming mime framed v =
     (case framed of
        U8 fb \<Rightarrow>
          if length fb < 2 then (v, [])
          else
            let nameLen = get_uint16_le fb in
            if 2 + nameLen > length fb then (v, [])
            else if truthy mime \<and> unprintable mime then (v, [])
            else
              let name = utf8_decode (take nameLen (drop 2 fb)); body = drop (2 + nameLen) fb in
              (vault_setStatus (js ''received '' @ name @ js '' ('' @ decimal (length body) @ js '' B)'')
                 (v\<lparr>lv_inbox := lv_inbox v @ [\<lparr>bx_name = name, bx_mime = mime, bx_body = body\<rparr>]\<rparr>), [])
      | _ \<Rightarrow> (v, []))"

text \<open>\<open>mime || ""\<close>.\<close>

definition saved_record :: "inbox_item \<Rightarrow> jsval" where
  "saved_record x =
     Obj [(js ''name'', Str (bx_name x)), (js ''type'', if truthy (bx_mime x) then bx_mime x else Str []),
       (js ''size'', jint (int (length (bx_body x)))), (js ''b64'', Str (bytesToBase64 (bx_body x)))]"

definition save_clicked :: "inbox_item \<Rightarrow> vault \<Rightarrow> vault_result" where
  "save_clicked x v =
     (await_task (VtSaved (bx_name x)) v, [VoCall (DoStorage (RPut (Str (KEY_PREFIX @ bx_name x)) (saved_record x)))])"

definition downloadKey :: "jsval \<Rightarrow> vault \<Rightarrow> vault_result" where
  "downloadKey rec v =
     (case base64ToBytes (rec_field rec ''b64'') of
        None \<Rightarrow> (v, [VoUncaught])
      | Some bs \<Rightarrow>
          (vault_setStatus (js ''downloaded '' @ js_String (rec_field rec ''name'')) v,
           [VoDownload (rec_field rec ''name'') (mime_or_default (rec_field rec ''type'')) bs]))"

subsection \<open>Adding a file\<close>

text \<open>The click, with the picked file's name and type.\<close>

definition add_clicked :: "(jsstring \<times> jsstring) option \<Rightarrow> vault \<Rightarrow> vault_result" where
  "add_clicked picked v =
     (if \<not> lv_initialized v then (v, [])
      else (case picked of
          None \<Rightarrow> (vault_setStatus (js ''pick a file first'') v, [])
        | Some (name, type) \<Rightarrow> (await_task (VtBuffer name type) v, [VoReadFile])))"

definition STORAGE_DEMO_LIMIT :: nat where "STORAGE_DEMO_LIMIT = 700 * 1024"

definition buffer_read :: "jsstring \<Rightarrow> jsstring \<Rightarrow> bytes \<Rightarrow> vault \<Rightarrow> vault_result" where
  "buffer_read name type bs v =
     (if length bs > STORAGE_DEMO_LIMIT
      then (vault_setStatus (js ''file too large for storage ('' @ decimal (length bs) @ js '' B; demo limit ~700 KB)'') v, [])
      else (await_task (VtAdded name (length bs)) v,
            [VoCall (DoStorage (RPut (Str (KEY_PREFIX @ name)) (vault_record name type bs)))]))"

definition file_added :: "jsstring \<Rightarrow> nat \<Rightarrow> vault \<Rightarrow> vault_result" where
  "file_added name sz v =
     (let (v1, os) = refreshList FromAdd (vault_setStatus (js ''added '' @ name @ js '' ('' @ decimal sz @ js '' B)'') v) in
      (v1, VoResetPicker # os))"

subsection \<open>Events\<close>

text \<open>The promise's answer: the error's message, or the value (a \<open>Uint8Array\<close> over the buffer for \<open>arrayBuffer()\<close>).\<close>

fun vault_resume :: "vault_task \<Rightarrow> jsstring + jsval \<Rightarrow> vault \<Rightarrow> vault_result" where
  "vault_resume (VtKeys origin) (Inr keys) v = keys_listed origin keys v"
| "vault_resume (VtKeys origin) (Inl e) v = vault_failed origin e v"
| "vault_resume (VtRow origin k ks) (Inr rec) v = row_loaded origin k ks rec v"
| "vault_resume (VtRow origin k ks) (Inl e) v = vault_failed origin e v"
| "vault_resume (VtBuffer name type) (Inr buf) v = buffer_read name type (case buf of U8 bs \<Rightarrow> bs | _ \<Rightarrow> []) v"
| "vault_resume (VtBuffer name type) (Inl e) v = vault_failed FromAdd e v"
| "vault_resume (VtAdded name sz) (Inr _) v = file_added name sz v"
| "vault_resume (VtAdded name sz) (Inl e) v = vault_failed FromAdd e v"
| "vault_resume (VtSaved name) (Inr _) v =
     refreshList FromClick (vault_setStatus (js ''saved received file '' @ name @ js '' to vault'') v)"
| "vault_resume (VtSaved name) (Inl e) v = vault_failed FromClick e v"
| "vault_resume (VtDeleted rec) (Inr _) v =
     refreshList FromClick (vault_setStatus (js ''deleted '' @ js_String (rec_field rec ''name'')) v)"
| "vault_resume (VtDeleted rec) (Inl e) v = vault_failed FromClick e v"

datatype vault_event =
    VeReady sdk_context
  | VeBridgeError jsstring
  | VeIncoming jsval jsval
  | VeAdd "(jsstring \<times> jsstring) option"
  | VeDownload nat
  | VeSend nat
  | VeDelete nat
  | VeSave nat
  | VeAnswer nat "jsstring + jsval"

definition vault_ready :: "sdk_context \<Rightarrow> vault \<Rightarrow> vault_result" where
  "vault_ready ctx v =
     refreshList FromReady (v\<lparr>lv_state := js ''init ('' @ js_String (cx_addonId ctx) @ js '' v'' @ js_String (cx_version ctx) @ js '')'',
       lv_initialized := True\<rparr>)"

text \<open>A click of a button of the \<open>i\<close>-th row, if it is a file's.\<close>

definition on_row :: "nat \<Rightarrow> (jsstring \<Rightarrow> jsval \<Rightarrow> vault \<Rightarrow> vault_result) \<Rightarrow> vault \<Rightarrow> vault_result option" where
  "on_row i act v =
     (if i < length (lv_list v) then (case lv_list v ! i of VaultFile k rec \<Rightarrow> Some (act k rec v) | VaultEmpty \<Rightarrow> None) else None)"

definition delete_clicked :: "jsstring \<Rightarrow> jsval \<Rightarrow> vault \<Rightarrow> vault_result" where
  "delete_clicked k rec v = (await_task (VtDeleted rec) v, [VoCall (DoStorage (RDelete (Str k)))])"

definition vault_step :: "vault_event \<Rightarrow> vault \<Rightarrow> vault_result option" where
  "vault_step ev v =
     (case ev of
        VeReady ctx \<Rightarrow> Some (vault_ready ctx v)
      | VeBridgeError message \<Rightarrow> Some (vault_setStatus (js ''bridge error: '' @ message) v, [])
      | VeIncoming mime bs \<Rightarrow> Some (handleIncoming mime bs v)
      | VeAdd picked \<Rightarrow> Some (add_clicked picked v)
      | VeDownload i \<Rightarrow> on_row i (\<lambda>k. downloadKey) v
      | VeSend i \<Rightarrow> on_row i (\<lambda>k. sendToPeer) v
      | VeDelete i \<Rightarrow> on_row i delete_clicked v
      | VeSave i \<Rightarrow> if i < length (lv_inbox v) then Some (save_clicked (lv_inbox v ! i) v) else None
      | VeAnswer n ans \<Rightarrow>
          if n < length (lv_tasks v)
          then Some (vault_resume (lv_tasks v ! n) ans (v\<lparr>lv_tasks := take n (lv_tasks v) @ drop (Suc n) (lv_tasks v)\<rparr>)) else None)"

end
