(* ===== verification/Local_Vault_Props.thy ===== *)
theory Local_Vault_Props
  imports Local_Vault Addon_Bridge Peer_Session_Props
begin

text \<open>
  What the file vault guarantees: base64 and the frame with the name are undone by their readers; a file
  that is sent arrives in the peer's inbox through both frames, hosts and sessions; a stored file is
  downloaded as it was; what the picker accepts fits the store. Then what goes wrong: a received file
  that is too large is not saved and nobody says so, and two refreshes that overlap list a file twice.
\<close>

subsection \<open>Base64\<close>

lemma standard_letter_iff: "standard_letter c \<longleftrightarrow> (\<exists>d\<in>set B64_ALPHABET. c = to_standard d)"
  by (auto simp: standard_letter_def)

lemma b64_no_standard: "c \<in> set B64_ALPHABET \<Longrightarrow> c \<noteq> ch CHR ''+'' \<and> c \<noteq> ch CHR ''/'' \<and> c \<noteq> ch CHR ''=''"
  by (auto simp: B64_ALPHABET_def js_def)

lemma to_url_standard: "c \<in> set B64_ALPHABET \<Longrightarrow> to_url (to_standard c) = c"
  using b64_no_standard [of c] by (auto simp: to_url_def to_standard_def)

lemma standard_plain: "c \<in> set B64_ALPHABET \<Longrightarrow> \<not> ascii_space (to_standard c) \<and> to_standard c \<noteq> ch CHR ''=''"
proof -
  assume c: "c \<in> set B64_ALPHABET"
  then have "unat c \<in> set (map unat B64_ALPHABET)" by simp
  then have "unat c \<ge> 45" unfolding b64_units by auto
  with c b64_no_standard [of c] show ?thesis by (auto simp: to_standard_def ascii_space_def)
qed

lemma map_url_standard: "set s \<subseteq> set B64_ALPHABET \<Longrightarrow> map to_url (map to_standard s) = s"
  by (induction s) (auto simp: to_url_standard)

lemma strip_padding_none: "ch CHR ''='' \<notin> set s \<Longrightarrow> strip_padding s = s"
proof (cases "s = []")
  case False
  assume "ch CHR ''='' \<notin> set s"
  then have "ch CHR ''='' \<notin> set (drop n s)" for n by (meson in_set_dropD)
  then have "drop (length s - 2) s \<noteq> js ''==''" "drop (length s - 1) s \<noteq> js ''=''"
    by (metis js_Cons list.set_intros(1))+
  then show ?thesis by (simp add: strip_padding_def)
qed (simp add: strip_padding_def)

lemma strip_padding_add:
  assumes "ch CHR ''='' \<notin> set s" "(length s + k) mod 4 = 0" "k \<le> 2"
  shows "strip_padding (s @ replicate k (ch CHR ''='')) = s"
proof -
  consider "k = 0" | "k = 1" | "k = 2" using assms(3) by linarith
  then show ?thesis
  proof cases
    case 2
    then have l: "length s mod 4 = 3" using assms(2) by presburger
    then obtain t c where s: "s = t @ [c]" by (cases s rule: rev_cases) auto
    then have "c \<noteq> ch CHR ''=''" using assms(1) by auto
    then show ?thesis using assms(2) by (simp add: 2 s strip_padding_def js_def)
  next
    case 3
    then show ?thesis using assms(2) by (simp add: strip_padding_def js_def numeral_2_eq_2)
  qed (simp add: strip_padding_none assms)
qed

lemma padded_length: "((4 * n + 2) div 3 + (3 - n mod 3) mod 3) mod 4 = (0 :: nat)"
proof -
  define q r where "q = n div 3" and "r = n mod 3"
  then have n: "n = 3 * q + r" "r < 3" by simp_all
  then consider "r = 0" | "r = 1" | "r = 2" by linarith
  then show ?thesis
  proof cases
    case 1
    have "(4 * (3 * q) + 2) div 3 = 4 * q" by presburger
    then show ?thesis by (simp add: n(1) 1)
  next
    case 2
    have "(4 * (3 * q + 1) + 2) div 3 = 4 * q + 2" "(3 * q + 1) mod 3 = 1" by presburger+
    then show ?thesis by (simp add: n(1) 2)
  next
    case 3
    have "(4 * (3 * q + 2) + 2) div 3 = 4 * q + 3" "(3 * q + 2) mod 3 = 2" by presburger+
    then show ?thesis by (simp add: n(1) 3)
  qed
qed

theorem atob_btoa: "atob (btoa bs) = Some bs"
proof -
  let ?s = "map to_standard (b64_encode bs)" and ?k = "(3 - length bs mod 3) mod 3"
  have a: "set (b64_encode bs) \<subseteq> set B64_ALPHABET" by (rule b64_encode_alphabet)
  have len: "(length ?s + ?k) mod 4 = 0" unfolding length_map length_b64_encode by (rule padded_length)
  have plain: "\<forall>x\<in>set (b64_encode bs). \<not> ascii_space (to_standard x) \<and> to_standard x \<noteq> ch CHR ''=''"
    using standard_plain a by blast
  then have eq: "ch CHR ''='' \<notin> set ?s" by force
  have pad: "\<not> ascii_space (ch CHR ''='')" by (simp add: ascii_space_def)
  have "filter (\<lambda>c. \<not> ascii_space c) (btoa bs) = btoa bs"
    unfolding btoa_def using plain pad by (intro filter_True) auto
  then have strip: "strip_padding (filter (\<lambda>c. \<not> ascii_space c) (btoa bs)) = ?s"
    using strip_padding_add [OF eq len] by (simp add: btoa_def)
  have "length ?s mod 4 \<noteq> 1" using b64_encode_length_mod [of bs] by simp
  moreover have "list_all standard_letter ?s" using a by (auto simp: list_all_iff standard_letter_iff)
  moreover have "b64_groups (map to_url ?s) = Some bs"
    unfolding map_url_standard [OF a] by (simp add: b64_encode_def b64_groups_encode)
  ultimately show ?thesis by (simp add: atob_def strip Let_def)
qed

lemma base64_back [simp]: "base64ToBytes (Str (bytesToBase64 bs)) = Some bs"
  by (simp add: base64ToBytes_def bytesToBase64_def atob_btoa)

subsection \<open>The frame\<close>

lemma uint16_roundtrip: "n < 65536 \<Longrightarrow> get_uint16_le (uint16_le n @ xs) = n"
proof -
  assume n: "n < 65536"
  then have "n div 256 < 256" by simp
  then show ?thesis by (simp add: get_uint16_le_def uint16_le_def unat_of_nat)
qed

lemma file_frame_read:
  assumes "length nameBytes \<le> 255"
  shows "length (file_frame nameBytes bs) = 2 + length nameBytes + length bs"
    and "get_uint16_le (file_frame nameBytes bs) = length nameBytes"
    and "take (length nameBytes) (drop 2 (file_frame nameBytes bs)) = nameBytes"
    and "drop (2 + length nameBytes) (file_frame nameBytes bs) = bs"
  using assms uint16_roundtrip [of "length nameBytes" "nameBytes @ bs"] by (simp_all add: file_frame_def uint16_le_def)

text \<open>What the inbox gets of a frame.\<close>

lemma frame_received:
  assumes "well_formed name" "name = [] \<or> hd name \<noteq> 0xFEFF" "length (utf8_encode name) \<le> 255"
  shows "handleIncoming (Str mime) (U8 (file_frame (utf8_encode name) bs)) v =
    (vault_setStatus (js ''received '' @ name @ js '' ('' @ decimal (length bs) @ js '' B)'')
       (v\<lparr>lv_inbox := lv_inbox v @ [\<lparr>bx_name = name, bx_mime = Str mime, bx_body = bs\<rparr>]\<rparr>), [])"
  using file_frame_read [OF assms(3), of bs] utf8_decode_encode [OF assms(1,2)]
  by (simp add: handleIncoming_def Let_def del: drop_drop)

text \<open>A record of a file: what the page reads of it.\<close>

lemma vault_record_fields [simp]:
  "rec_field (vault_record name type bs) ''name'' = Str name" "rec_field (vault_record name type bs) ''type'' = Str type"
  "rec_field (vault_record name type bs) ''size'' = jint (int (length bs))"
  "rec_field (vault_record name type bs) ''b64'' = Str (bytesToBase64 bs)"
  by (simp_all add: rec_field_def vault_record_def)

lemma vault_record_prints [simp]: "row_prints (vault_record name type bs)" "truthy (vault_record name type bs)"
  by (simp_all add: row_prints_def) (simp add: vault_record_def)

definition file_mime :: "jsstring \<Rightarrow> jsstring" where
  "file_mime type = (if type = [] then js ''application/octet-stream'' else type)"

lemma mime_of_type [simp]: "mime_or_default (Str type) = Str (file_mime type)"
  by (simp add: mime_or_default_def file_mime_def)

lemma file_mime_idem [simp]: "file_mime (file_mime t) = file_mime t" "file_mime t \<noteq> []"
  by (simp_all add: file_mime_def)

lemma saved_is_record:
  "mime \<noteq> [] \<Longrightarrow> saved_record \<lparr>bx_name = name, bx_mime = Str mime, bx_body = bs\<rparr> = vault_record name mime bs"
  by (simp add: saved_record_def vault_record_def)

lemma file_sent:
  assumes "length (utf8_encode name) \<le> 255" "2 + length (utf8_encode name) + length bs \<le> PEER_BIN_MAX_BYTES"
  shows "snd (sendToPeer (vault_record name type bs) v) =
    [VoCall (DoSendBinary (Obj [(js ''mime'', Str (file_mime type)), (js ''bytes'', U8 (file_frame (utf8_encode name) bs))]))]"
  using assms file_frame_read(1) [OF assms(1), of bs] by (simp add: sendToPeer_def Let_def encoded_name_def)

lemma download_of_record:
  "downloadKey (vault_record name type bs) v = (vault_setStatus (js ''downloaded '' @ name) v, [VoDownload (Str name) (Str (file_mime type)) bs])"
  by (simp add: downloadKey_def)

subsection \<open>From vault to vault\<close>

text \<open>What the SDK and the host make of a binary message.\<close>

lemma binary_posted:
  "sdk_run (DoSendBinary (Obj [(js ''mime'', Str mime), (js ''bytes'', U8 bs)])) s =
     (s, [SPost (bridge_obj ''send-bin'' [(js ''mime'', Str (if mime = [] then js ''application/octet-stream'' else mime)), (js ''bytes'', U8 bs)])])"
  by (simp add: sdk_sendBinary_def mime_or_default_def sdk_post_def)

lemma binary_forwarded:
  assumes "ah_iframe h" "has_permission ''peer.send.bin'' h" "ah_link h \<noteq> None" "length bs \<le> ADDON_BIN_MAX_BYTES"
  shows "handleWindowMessage B now True (bridge_obj ''send-bin'' [(js ''mime'', Str mime), (js ''bytes'', U8 bs)]) h =
     (h, [OSendBinary (am_id (ah_manifest h)) mime bs], [TSendBin])"
  using assms by (simp add: handleWindowMessage_def bridge_fields_def bridge_obj_def handleSendBin_def)

lemma binary_delivered:
  assumes "ah_state h = HActive" "ah_iframe h" "has_permission ''peer.receive.bin'' h"
  shows "on_peer_binary (am_id (ah_manifest h)) mime bs h = (h, [OPost (BDeliverBin mime bs (Some (am_id (ah_manifest h))))], [])"
  using assms by (simp add: on_peer_binary_def caught_def deliverBinary_def postToIframe_def)

lemma binary_handed_over:
  "sdk_message True (bridge_message tx (BDeliverBin mime bs from)) s =
     (s, map (\<lambda>f. SCall f (VDeliverBin (Str mime) (U8 bs) (case from of None \<Rightarrow> Undef | Some a \<Rightarrow> Str a))) (sd_listeners s OnDeliverBin))"
  by (simp add: sdk_message_def Let_def sdk_emit_def from_field_def split: option.splits)

text \<open>
  A file's way: the sender's click, its SDK, its host, its session; the frames on the wire, the last of which
  comes before the receiver's timer gives the message up; the receiver's session, host, SDK and inbox.
\<close>

theorem file_crosses:
  fixes name type :: jsstring and bs :: bytes
  defines "frame \<equiv> file_frame (utf8_encode name) bs" and "mime \<equiv> file_mime type"
  assumes name: "well_formed name" "name = [] \<or> hd name \<noteq> 0xFEFF" "length (utf8_encode name) \<le> 255"
    and len: "2 + length (utf8_encode name) + length bs \<le> 4 * 1024 * 1024"
    and a: "ah_iframe a" "has_permission ''peer.send.bin'' a" "ah_link a \<noteq> None" "am_id (ah_manifest a) = aid" "aid \<noteq> []"
      "length aid + length mime \<le> 160"
    and s: "ps_state s = SConnected" "ps_binChannel s" "0 \<le> now" "now < 36 ^ 9"
    and r: "reasm_ok (ps_reasm r)"
      "\<forall>i\<in>{[], snd (newMessageId now (ps_nextSendId s))}. map_of (reassembly (ps_reasm r)) (slot_key aid i) = None"
    and as: "frames_of as = sent_frames now \<lparr>bm_addon = Str aid, bm_mime = Str mime, bm_bytes = U8 frame\<rparr> s" "in_time None as"
    and b: "ah_state b = HActive" "ah_iframe b" "has_permission ''peer.receive.bin'' b" "am_id (ah_manifest b) = aid"
  shows "\<exists>call msg s'. snd (sendToPeer (vault_record name type bs) v) = [VoCall call]
    \<and> sdk_run call sa = (sa, [SPost msg])
    \<and> handleWindowMessage B clock0 True msg a = (a, [OSendBinary aid mime frame], [TSendBin])
    \<and> sendBinary now \<lparr>bm_addon = Str aid, bm_mime = Str mime, bm_bytes = U8 frame\<rparr> True s = ((s', map FSendFrame (frames_of as), []), None)"
    and "\<exists>xs ys. snd (receive_all as r) = xs @ EBinary aid mime frame # ys \<and> set xs \<union> set ys \<subseteq> drop_notices"
    and "on_peer_binary aid mime frame b = (b, [OPost (BDeliverBin mime frame (Some aid))], [])"
    and "sdk_message True (bridge_message tx (BDeliverBin mime frame (Some aid))) sb =
      (sb, map (\<lambda>f. SCall f (VDeliverBin (Str mime) (U8 frame) (Str aid))) (sd_listeners sb OnDeliverBin))"
    and "lv_inbox (fst (handleIncoming (Str mime) (U8 frame) w)) = lv_inbox w @ [\<lparr>bx_name = name, bx_mime = Str mime, bx_body = bs\<rparr>]"
proof -
  have f: "length frame \<le> 4 * 1024 * 1024" using file_frame_read(1) [OF name(3), of bs] len by (simp add: frame_def)
  have call: "snd (sendToPeer (vault_record name type bs) v) = [VoCall (DoSendBinary (Obj [(js ''mime'', Str mime), (js ''bytes'', U8 frame)]))]"
    using file_sent [OF name(3), of bs] len by (simp add: PEER_BIN_MAX_BYTES_def frame_def mime_def)
  have len': "length frame \<le> BIN_MESSAGE_MAX_BYTES" using f by (simp add: BIN_MESSAGE_MAX_BYTES_def)
  note delivery = session_binary_delivery [OF s(1,2) a(5,6) len' s(3,4) r as(1)]
  show "\<exists>xs ys. snd (receive_all as r) = xs @ EBinary aid mime frame # ys \<and> set xs \<union> set ys \<subseteq> drop_notices"
    by (rule delivery(3) [OF as(2)])
  show "\<exists>call msg s'. snd (sendToPeer (vault_record name type bs) v) = [VoCall call]
    \<and> sdk_run call sa = (sa, [SPost msg])
    \<and> handleWindowMessage B clock0 True msg a = (a, [OSendBinary aid mime frame], [TSendBin])
    \<and> sendBinary now \<lparr>bm_addon = Str aid, bm_mime = Str mime, bm_bytes = U8 frame\<rparr> True s = ((s', map FSendFrame (frames_of as), []), None)"
    using call delivery(1) binary_posted [of mime frame sa] binary_forwarded [OF a(1-3), of frame B clock0 mime] f
    by (fastforce simp: ADDON_BIN_MAX_BYTES_def a(4) mime_def simp del: sdk_run.simps)
  show "on_peer_binary aid mime frame b = (b, [OPost (BDeliverBin mime frame (Some aid))], [])"
    using binary_delivered [OF b(1-3)] b(4) by simp
  show "sdk_message True (bridge_message tx (BDeliverBin mime frame (Some aid))) sb =
      (sb, map (\<lambda>f. SCall f (VDeliverBin (Str mime) (U8 frame) (Str aid))) (sd_listeners sb OnDeliverBin))"
    by (simp add: binary_handed_over del: bridge_message.simps)
  show "lv_inbox (fst (handleIncoming (Str mime) (U8 frame) w)) = lv_inbox w @ [\<lparr>bx_name = name, bx_mime = Str mime, bx_body = bs\<rparr>]"
    using frame_received [OF name, of mime bs w] by (simp add: frame_def vault_setStatus_def)
qed

subsection \<open>Sizes\<close>

text \<open>UTF-8 takes at least one byte for each code unit, at most three, and one if it is ASCII.\<close>

definition wide :: "jsstring \<Rightarrow> nat" where
  "wide s = length (filter (\<lambda>u. 128 \<le> unat u) s)"

lemma wide_simps [simp]: "wide [] = 0" "wide (u # s) = (if 128 \<le> unat u then Suc (wide s) else wide s)" "wide (s @ t) = wide s + wide t"
  by (simp_all add: wide_def)

lemma wide_le: "wide s \<le> length s"
  by (simp add: wide_def)

lemma utf8_bounds: "length s \<le> length (utf8_encode s) \<and> length (utf8_encode s) \<le> length s + 2 * wide s"
proof (induction s rule: scalars.induct)
  case (2 u)
  have "unat u < 0x10000" by simp
  then show ?case by (auto simp: utf8_encode_def scalar_of_def utf8_seq_def is_high_def is_low_def)
next
  case (3 u v s)
  show ?case
  proof (cases "is_high u \<and> is_low v")
    case True
    then have "128 \<le> unat u" "128 \<le> unat v" by (auto simp: is_high_def is_low_def)
    moreover have "length (utf8_seq (0x10000 + (unat u - 0xD800) * 0x400 + (unat v - 0xDC00))) = 4" by (simp add: utf8_seq_def)
    ultimately show ?thesis using 3(1) True by (auto simp: utf8_encode_def)
  next
    case False
    have "unat u < 0x10000" by simp
    then have "1 \<le> length (utf8_seq (scalar_of u)) \<and> length (utf8_seq (scalar_of u)) \<le> (if 128 \<le> unat u then 3 else 1)"
      by (auto simp: scalar_of_def utf8_seq_def is_high_def is_low_def)
    with 3(2) False show ?thesis by (auto simp: utf8_encode_def split: if_splits)
  qed
qed (simp add: utf8_encode_def)

lemma plain_not_wide: "list_all plain_unit s \<Longrightarrow> wide s = 0"
  by (induction s) (auto simp: plain_unit_def)

lemma btoa_plain: "list_all plain_unit (btoa bs)"
proof -
  have "plain_unit (to_standard c)" if "c \<in> set B64_ALPHABET" for c
  proof -
    from that have "unat c \<in> set (map unat B64_ALPHABET)" by simp
    then have "45 \<le> unat c \<and> unat c < 123 \<and> unat c \<noteq> 92" unfolding b64_units by auto
    then show ?thesis by (auto simp: to_standard_def plain_unit_def ch_def)
  qed
  moreover have "set (b64_encode bs) \<subseteq> set B64_ALPHABET" by (rule b64_encode_alphabet)
  moreover have "plain_unit (ch CHR ''='')" by (simp add: plain_unit_def)
  ultimately show ?thesis by (auto simp: btoa_def list_all_iff)
qed

lemma length_btoa: "length (btoa bs) = 4 * ((length bs + 2) div 3)"
proof -
  define n where "n = length bs"
  define q r where "q = n div 3" and "r = n mod 3"
  then have n: "n = 3 * q + r" "r < 3" by simp_all
  then consider "r = 0" | "r = 1" | "r = 2" by linarith
  then have "(4 * n + 2) div 3 + (3 - n mod 3) mod 3 = 4 * ((n + 2) div 3)"
  proof cases
    case 1
    have "(4 * (3 * q) + 2) div 3 = 4 * q" "(3 * q + 2) div 3 = q" by presburger+
    then show ?thesis by (simp add: n(1) 1)
  next
    case 2
    have "(4 * (3 * q + 1) + 2) div 3 = 4 * q + 2" "(3 * q + 1) mod 3 = 1" "(3 * q + 1 + 2) div 3 = q + 1" by presburger+
    then show ?thesis by (simp add: n(1) 2)
  next
    case 3
    have "(4 * (3 * q + 2) + 2) div 3 = 4 * q + 3" "(3 * q + 2) mod 3 = 2" "(3 * q + 2 + 2) div 3 = q + 1" by presburger+
    then show ?thesis by (simp add: n(1) 3)
  qed
  then show ?thesis by (simp add: btoa_def length_b64_encode n_def)
qed

text \<open>The text of a record.\<close>

definition record_text :: "jsstring \<Rightarrow> jsstring \<Rightarrow> bytes \<Rightarrow> jsstring" where
  "record_text name type bs =
     js ''{'' @ json_quote (js ''name'') @ js '':'' @ json_quote name @ js '','' @ json_quote (js ''type'') @ js '':'' @ json_quote type
       @ js '','' @ json_quote (js ''size'') @ js '':'' @ json_num (Fin (of_nat (length bs)))
       @ js '','' @ json_quote (js ''b64'') @ js '':'' @ json_quote (bytesToBase64 bs) @ js ''}''"

lemma record_json: "json_str (vault_record name type bs) = Some (record_text name type bs)"
  by (simp add: vault_record_def record_text_def js_Cons)

lemma record_bytes: "approximateBytes (vault_record name type bs) = length (utf8_encode (record_text name type bs))"
  by (simp add: approximateBytes_def record_json)

lemma quote_plain_size: "list_all plain_unit t \<Longrightarrow> length (json_quote t) = length t + 2 \<and> wide (json_quote t) = 0"
  using plain_not_wide [of t] by (simp add: json_quote_plain)

lemma key_sizes:
  "length (json_quote (js ''name'')) = 6" "length (json_quote (js ''type'')) = 6" "length (json_quote (js ''size'')) = 6"
  "length (json_quote (js ''b64'')) = 5" "wide (json_quote (js ''name'')) = 0" "wide (json_quote (js ''type'')) = 0"
  "wide (json_quote (js ''size'')) = 0" "wide (json_quote (js ''b64'')) = 0"
proof -
  have "list_all plain_unit (js k)" if "k \<in> {''name'', ''type'', ''size'', ''b64''}" for k
    using that by (auto simp: js_def plain_unit_def)
  then have "length (json_quote (js k)) = length k + 2 \<and> wide (json_quote (js k)) = 0"
    if "k \<in> {''name'', ''type'', ''size'', ''b64''}" for k
    using that quote_plain_size [of "js k"] by simp
  then show "length (json_quote (js ''name'')) = 6" "length (json_quote (js ''type'')) = 6" "length (json_quote (js ''size'')) = 6"
    "length (json_quote (js ''b64'')) = 5" "wide (json_quote (js ''name'')) = 0" "wide (json_quote (js ''type'')) = 0"
    "wide (json_quote (js ''size'')) = 0" "wide (json_quote (js ''b64'')) = 0" by simp_all
qed

lemma mark_sizes: "wide (js ''{'') = 0" "wide (js ''}'') = 0" "wide (js '':'') = 0" "wide (js '','') = 0"
  by (simp_all add: js_def)

theorem accepted_file_fits:
  assumes "length bs \<le> STORAGE_DEMO_LIMIT" "length name \<le> 250" "length type \<le> 1000"
  shows "approximateBytes (vault_record name type bs) \<le> MAX_VALUE_BYTES"
proof -
  have num: "length (json_num (Fin (of_nat (length bs)))) \<le> 10"
    using assms(1) length_radix_str [of 10 "length bs" 10] by (subst length_json_nat) (simp_all add: STORAGE_DEMO_LIMIT_def)
  have b64: "length (json_quote (bytesToBase64 bs)) = 4 * ((length bs + 2) div 3) + 2" "wide (json_quote (bytesToBase64 bs)) = 0"
    using quote_plain_size [OF btoa_plain] by (simp_all add: bytesToBase64_def length_btoa)
  have q: "length (json_quote name) \<le> 1502" "length (json_quote type) \<le> 6002"
    using length_json_quote [of name] length_json_quote [of type] assms by simp_all
  have "4 * ((length bs + 2) div 3) \<le> 955740" using assms(1) by (simp add: STORAGE_DEMO_LIMIT_def)
  then have "length (record_text name type bs) \<le> 963290"
    using num q b64(1) by (simp add: record_text_def key_sizes)
  moreover have "wide (record_text name type bs) \<le> 7514"
    using num q wide_le [of "json_quote name"] wide_le [of "json_quote type"] wide_le [of "json_num (Fin (of_nat (length bs)))"]
    by (simp add: record_text_def key_sizes b64(2) mark_sizes)
  ultimately show ?thesis
    using utf8_bounds [of "record_text name type bs"] by (simp add: record_bytes MAX_VALUE_BYTES_def)
qed

text \<open>Above 768 KiB the base64 alone is too much for the store.\<close>

theorem large_file_does_not_fit:
  assumes "768 * 1024 < length bs"
  shows "MAX_VALUE_BYTES < approximateBytes (vault_record name type bs)"
proof -
  have "4 * ((length bs + 2) div 3) > 1048576" using assms by simp
  then have "length (record_text name type bs) > 1048576"
    using quote_plain_size [OF btoa_plain, of bs] by (simp add: record_text_def bytesToBase64_def length_btoa)
  with utf8_bounds [of "record_text name type bs"] show ?thesis by (simp add: record_bytes MAX_VALUE_BYTES_def)
qed

subsection \<open>Keeping files\<close>

text \<open>
  A picked file within the limits is stored under its name, whatever the add-on's store holds; as long as nobody
  stores another file of that name, deletes it or clears the store, its record is what a later \<open>get\<close> answers and its
  download is the file.
\<close>

theorem kept_file:
  assumes "length bs \<le> STORAGE_DEMO_LIMIT" "length name \<le> 250" "length type \<le> 1000"
    and "list_all (leaves (KEY_PREFIX @ name)) later"
  shows "\<exists>req rec. snd (buffer_read name type bs v) = [VoCall (DoStorage req)]
    \<and> map_answers (before @ [req]) m ! length before = Inr Null
    \<and> map_answers (before @ [req] @ later @ [RGet (Str (KEY_PREFIX @ name))]) m ! (length before + length later + 1) = Inr rec
    \<and> row_prints rec \<and> snd (downloadKey rec w) = [VoDownload (Str name) (Str (file_mime type)) bs]"
proof -
  let ?rec = "vault_record name type bs" and ?k = "KEY_PREFIX @ name"
  have k: "length ?k \<le> MAX_KEY_LENGTH" using assms(2) by (simp add: KEY_PREFIX_def MAX_KEY_LENGTH_def)
  have "or_null ?rec = ?rec" by (simp add: or_null_def vault_record_def)
  then show ?thesis
    using stored_value_comes_back [OF k accepted_file_fits [OF assms(1-3)] assms(4), of before m] assms(1)
    by (intro exI [of _ "RPut (Str ?k) ?rec"] exI [of _ ?rec]) (simp add: buffer_read_def download_of_record)
qed

text \<open>
  A received file above 768 KiB is listed and offered for saving, but the store refuses it; the click's handler has no
  \<open>catch\<close>, so that the page keeps the message that the file was received.
\<close>

theorem unsaved_large_file:
  assumes large: "768 * 1024 < length bs" and mime: "mime \<noteq> []"
    and name: "well_formed name" "name = [] \<or> hd name \<noteq> 0xFEFF" "length name \<le> 250" "length (utf8_encode name) \<le> 255"
  shows "\<exists>v' req. run_events vault_step [VeIncoming (Str mime) (U8 (file_frame (utf8_encode name) bs)), VeSave (length (lv_inbox v)),
      VeAnswer (length (lv_tasks v)) (Inl (js ''value-too-large''))] v = Some (v', [VoCall (DoStorage req), VoUncaught])
    \<and> map_request req m = (Inl ''value-too-large'', m)
    \<and> lv_inbox v' = lv_inbox v @ [\<lparr>bx_name = name, bx_mime = Str mime, bx_body = bs\<rparr>]
    \<and> lv_status v' = js ''received '' @ name @ js '' ('' @ decimal (length bs) @ js '' B)''"
proof -
  let ?req = "RPut (Str (KEY_PREFIX @ name)) (vault_record name mime bs)"
  have "map_request ?req m = (Inl ''value-too-large'', m)"
    using large_file_does_not_fit [OF large, of name mime] name(3) by (simp add: KEY_PREFIX_def MAX_KEY_LENGTH_def)
  then show ?thesis
    by (intro exI [of _ "fst (handleIncoming (Str mime) (U8 (file_frame (utf8_encode name) bs)) v)"] exI [of _ ?req])
      (simp add: vault_step_def frame_received [OF name(1,2,4)] save_clicked_def saved_is_record [OF mime] await_task_def
        vault_setStatus_def vault_failed_def)
qed

subsection \<open>The list of files\<close>

lemma rows_loaded:
  assumes "list_all (\<lambda>r. truthy r \<and> row_prints r) recs" "length recs = length ks" "lv_tasks v = []"
  shows "\<exists>os. run_events vault_step (map (\<lambda>r. VeAnswer 0 (Inr r)) recs) (fst (next_row origin ks v)) =
    Some (v\<lparr>lv_list := lv_list v @ map2 VaultFile ks recs\<rparr>, os)
      \<and> snd (next_row origin ks v) @ os = map (\<lambda>k. VoCall (DoStorage (RGet (Str k)))) ks"
  using assms
proof (induction recs arbitrary: ks v)
  case Nil
  then show ?case by simp
next
  case (Cons r recs)
  then obtain k ks' where ks: "ks = k # ks'" by (cases ks) auto
  let ?v = "v\<lparr>lv_list := lv_list v @ [VaultFile k r]\<rparr>"
  obtain w os where n: "next_row origin ks' ?v = (w, os)" by (cases "next_row origin ks' ?v")
  have tasks: "v\<lparr>lv_tasks := []\<rparr> = v" using Cons.prems(3) by (metis vault.surjective vault.update_convs(6))
  have "vault_step (VeAnswer 0 (Inr r)) (fst (next_row origin ks v)) = Some (w, os)"
    using Cons.prems n by (simp add: ks vault_step_def await_task_def row_loaded_def tasks)
  moreover have "\<exists>os'. run_events vault_step (map (\<lambda>r. VeAnswer 0 (Inr r)) recs) w = Some (?v\<lparr>lv_list := lv_list ?v @ map2 VaultFile ks' recs\<rparr>, os')
      \<and> os @ os' = map (\<lambda>k. VoCall (DoStorage (RGet (Str k)))) ks'"
    using Cons.IH [of ks' ?v] Cons.prems n by (simp add: ks)
  ultimately show ?case by (auto simp: ks)
qed

text \<open>A refresh that is alone lists each file once, in the order of the keys.\<close>

theorem lone_refresh_lists_each_file:
  assumes "lv_tasks v = []" "list_all (\<lambda>r. truthy r \<and> row_prints r) recs"
    and "filter (\<lambda>k. startsWith k KEY_PREFIX) keys = ks" "length recs = length ks"
  shows "\<exists>v' os. run_events vault_step (VeAnswer 0 (Inr (Arr (map Str keys))) # map (\<lambda>r. VeAnswer 0 (Inr r)) recs) (fst (refreshList origin v)) = Some (v', os)
    \<and> lv_list v' = (if ks = [] then [VaultEmpty] else map2 VaultFile ks recs) \<and> lv_tasks v' = []"
proof -
  let ?v = "v\<lparr>lv_list := []\<rparr>"
  have fk: "file_keys (Arr (map Str keys)) = Some ks" using assms(3) by (simp add: file_keys_def list_all_iff o_def)
  have tasks: "v\<lparr>lv_tasks := []\<rparr> = v" using assms(1) by (metis vault.surjective vault.update_convs(6))
  have step: "vault_step (VeAnswer 0 (Inr (Arr (map Str keys)))) (fst (refreshList origin v)) =
      Some (case ks of [] \<Rightarrow> (?v\<lparr>lv_list := [VaultEmpty]\<rparr>, []) | _ \<Rightarrow> next_row origin ks ?v)"
    using assms(1) by (simp add: vault_step_def refreshList_def await_task_def keys_listed_def fk tasks split: list.splits)
  show ?thesis
  proof (cases ks)
    case Nil
    then show ?thesis using step assms(1,4) by simp
  next
    case (Cons k ks')
    obtain os where r: "run_events vault_step (map (\<lambda>r. VeAnswer 0 (Inr r)) recs) (fst (next_row origin ks ?v)) =
        Some (?v\<lparr>lv_list := lv_list ?v @ map2 VaultFile ks recs\<rparr>, os)"
      using rows_loaded [OF assms(2,4), of ?v origin] assms(1) by auto
    obtain w os0 where n: "next_row origin ks ?v = (w, os0)" by (cases "next_row origin ks ?v")
    have "run_events vault_step (VeAnswer 0 (Inr (Arr (map Str keys))) # map (\<lambda>r. VeAnswer 0 (Inr r)) recs) (fst (refreshList origin v))
      = Some (?v\<lparr>lv_list := lv_list ?v @ map2 VaultFile ks recs\<rparr>, os0 @ os)"
      using step r n by (simp add: Cons del: next_row.simps vault_resume.simps)
    then show ?thesis using assms(1) by (auto simp: Cons)
  qed
qed

text \<open>
  Three files are stored, the first render is under way and the user adds a fourth. The answers come in the order of the
  requests; the second refresh empties the list while the first still has a row to add.
\<close>

definition vault_key :: "string \<Rightarrow> jsstring" where
  "vault_key n = KEY_PREFIX @ js n"

definition vault_doc :: "string \<Rightarrow> jsval" where
  "vault_doc n = vault_record (js n) [] []"

definition refreshes_at_once :: "vault_event list" where
  "refreshes_at_once =
     [VeAnswer 0 (Inr (Arr (map (Str \<circ> vault_key) [''a'', ''b'', ''c'']))),
      VeAdd (Some (js ''d'', [])), VeAnswer 1 (Inr (U8 [])), VeAnswer 0 (Inr (vault_doc ''a'')), VeAnswer 0 (Inr Null),
      VeAnswer 0 (Inr (vault_doc ''b'')), VeAnswer 0 (Inr (Arr (map (Str \<circ> vault_key) [''a'', ''b'', ''c'', ''d'']))),
      VeAnswer 0 (Inr (vault_doc ''c'')), VeAnswer 0 (Inr (vault_doc ''a'')), VeAnswer 0 (Inr (vault_doc ''b'')),
      VeAnswer 0 (Inr (vault_doc ''c'')), VeAnswer 0 (Inr (vault_doc ''d''))]"

lemma vault_doc_row [simp]: "truthy (vault_doc n)" "row_prints (vault_doc n)"
  by (simp_all add: vault_doc_def)

lemma vault_key_prefix [simp]: "startsWith (vault_key n) KEY_PREFIX"
  by (simp add: vault_key_def startsWith_def)

lemmas vault_step_simps = vault_step_def refreshList_def await_task_def keys_listed_def file_keys_def row_loaded_def
  add_clicked_def buffer_read_def file_added_def vault_setStatus_def vault_failed_def STORAGE_DEMO_LIMIT_def Let_def

theorem overlapping_refreshes_repeat_a_file:
  assumes "lv_tasks v = []" "lv_initialized v"
  shows "\<exists>v' os. run_events vault_step refreshes_at_once (fst (refreshList FromReady v)) = Some (v', os)
    \<and> lv_list v' = map (\<lambda>n. VaultFile (vault_key n) (vault_doc n)) [''c'', ''a'', ''b'', ''c'', ''d''] \<and> lv_tasks v' = []"
  using assms unfolding refreshes_at_once_def by (simp add: vault_step_simps)

end
