(* ===== verification/Small_Addons.thy ===== *)
theory Small_Addons
  imports Addon_Bridge
begin

text \<open>
  Three of the bundled add-ons on the SDK: echo, which answers what the peer sends and tries the store
  (\<open>addons/echo/addon.js\<close>), the voice call, whose buttons follow the host's notices about tracks
  (\<open>addons/voice-call/addon.js\<close>), and the voice meter (\<open>addons/voice-meter/addon.js\<close>). Each is a record with
  what the page shows; a handler returns the calls of \<open>senn\<close> it makes.
\<close>

subsection \<open>Echo\<close>

text \<open>What the promise of a storage call resumes.\<close>

datatype echo_task = EtSaved jsstring | EtLoaded jsstring | EtListed

record echo_page =
  ec_state :: jsstring
  ec_log :: "jsstring list"
  ec_input :: jsstring
  ec_key :: jsstring
  ec_value :: jsstring
  ec_vault :: jsstring
  ec_tasks :: "echo_task list"

datatype echo_event =
    EcTyped jsstring
  | EcKeyTyped jsstring
  | EcValueTyped jsstring
  | EcEmit
  | EcKeydown jsstring
  | EcSave
  | EcLoad
  | EcList
  | EcDeliver jsval
  | EcReady sdk_context
  | EcAnswer nat "jsstring + jsval"

type_synonym echo_result = "echo_page \<times> sdk_call list"

definition new_echo :: echo_page where
  "new_echo = \<lparr>ec_state = js ''ready'', ec_log = [], ec_input = [], ec_key = [], ec_value = [], ec_vault = [], ec_tasks = []\<rparr>"

text \<open>\<open>JSON.stringify\<close> in a template.\<close>

definition json_shown :: "jsval \<Rightarrow> jsstring" where
  "json_shown v = (case json_str v of None \<Rightarrow> js ''undefined'' | Some t \<Rightarrow> t)"

definition echo_log :: "jsstring \<Rightarrow> echo_page \<Rightarrow> echo_page" where
  "echo_log t p = p\<lparr>ec_log := ec_log p @ [t]\<rparr>"

definition echo_emit :: "echo_page \<Rightarrow> echo_result" where
  "echo_emit p =
     (let v = js_trim (ec_input p) in
      if v = [] then (p, [])
      else ((echo_log (js ''sent: '' @ v) p)\<lparr>ec_input := []\<rparr>, [DoSend (Obj [(js ''text'', Str v)])]))"

definition echo_deliver :: "jsval \<Rightarrow> echo_page \<Rightarrow> echo_result" where
  "echo_deliver payload p =
     (echo_log (js ''recv: '' @ json_shown payload) p,
      if is_objecty payload \<and> fld (own_fields payload) ''echoed'' \<noteq> Bool True
      then [DoSend (Obj [(js ''original'', payload), (js ''echoed'', Bool True), (js ''by'', Str (js ''echo-addon''))])] else [])"

text \<open>A click that awaits a storage call; \<open>save\<close> and \<open>load\<close> need a key.\<close>

definition echo_storage :: "echo_task \<Rightarrow> sdk_request \<Rightarrow> echo_page \<Rightarrow> echo_result" where
  "echo_storage t req p = (p\<lparr>ec_tasks := ec_tasks p @ [t]\<rparr>, [DoStorage req])"

definition echo_save :: "echo_page \<Rightarrow> echo_result" where
  "echo_save p =
     (let k = js_trim (ec_key p) in if k = [] then (p, []) else echo_storage (EtSaved k) (RPut (Str k) (Str (ec_value p))) p)"

definition echo_load :: "echo_page \<Rightarrow> echo_result" where
  "echo_load p = (let k = js_trim (ec_key p) in if k = [] then (p, []) else echo_storage (EtLoaded k) (RGet (Str k)) p)"

definition echo_list :: "echo_page \<Rightarrow> echo_result" where
  "echo_list p = echo_storage EtListed RList p"

fun echo_resume :: "echo_task \<Rightarrow> jsstring + jsval \<Rightarrow> echo_page \<Rightarrow> echo_page" where
  "echo_resume t (Inl e) p = p\<lparr>ec_vault := js ''error: '' @ e\<rparr>"
| "echo_resume (EtSaved k) (Inr _) p = p\<lparr>ec_vault := js ''saved '' @ k\<rparr>"
| "echo_resume (EtLoaded k) (Inr got) p =
     (let p1 = p\<lparr>ec_vault := js ''loaded '' @ k @ js ''='' @ json_shown got\<rparr> in
      case got of Str s \<Rightarrow> p1\<lparr>ec_value := s\<rparr> | _ \<Rightarrow> p1)"
| "echo_resume EtListed (Inr keys) p = p\<lparr>ec_vault := js ''keys='' @ json_shown keys\<rparr>"

definition init_text :: "sdk_context \<Rightarrow> jsstring" where
  "init_text ctx = js ''init ('' @ js_String (cx_addonId ctx) @ js '' v'' @ js_String (cx_version ctx) @ js '')''"

definition echo_step :: "echo_event \<Rightarrow> echo_page \<Rightarrow> echo_result option" where
  "echo_step ev p =
     (case ev of
        EcTyped t \<Rightarrow> Some (p\<lparr>ec_input := t\<rparr>, [])
      | EcKeyTyped t \<Rightarrow> Some (p\<lparr>ec_key := t\<rparr>, [])
      | EcValueTyped t \<Rightarrow> Some (p\<lparr>ec_value := t\<rparr>, [])
      | EcEmit \<Rightarrow> Some (echo_emit p)
      | EcKeydown key \<Rightarrow> Some (if key = js ''Enter'' then echo_emit p else (p, []))
      | EcSave \<Rightarrow> Some (echo_save p)
      | EcLoad \<Rightarrow> Some (echo_load p)
      | EcList \<Rightarrow> Some (echo_list p)
      | EcDeliver payload \<Rightarrow> Some (echo_deliver payload p)
      | EcReady ctx \<Rightarrow> Some (p\<lparr>ec_state := init_text ctx\<rparr>, [])
      | EcAnswer n ans \<Rightarrow>
          if n < length (ec_tasks p)
          then Some (echo_resume (ec_tasks p ! n) ans (p\<lparr>ec_tasks := take n (ec_tasks p) @ drop (Suc n) (ec_tasks p)\<rparr>), []) else None)"

subsection \<open>Voice call\<close>

text \<open>A log entry begins with the time, an argument; a button is shown or hidden.\<close>

record voice_call =
  vc_state :: jsstring
  vc_log :: "jsstring list"
  vc_start :: bool
  vc_stop :: bool
  vc_listen :: bool
  vc_mute :: bool

datatype voice_event =
    VcTrack jsstring jsval jsval jsval
  | VcError jsstring jsstring
  | VcStart
  | VcStop
  | VcListen
  | VcMute
  | VcReady sdk_context

definition new_voice_call :: voice_call where
  "new_voice_call = \<lparr>vc_state = [], vc_log = [], vc_start = True, vc_stop = False, vc_listen = True, vc_mute = False\<rparr>"

definition logTrack :: "jsstring \<Rightarrow> jsstring \<Rightarrow> voice_call \<Rightarrow> voice_call" where
  "logTrack time t p = p\<lparr>vc_log := vc_log p @ [js ''['' @ time @ js ''] '' @ t]\<rparr>"

definition voice_track :: "jsstring \<Rightarrow> jsval \<Rightarrow> jsval \<Rightarrow> jsval \<Rightarrow> voice_call \<Rightarrow> voice_call" where
  "voice_track time direction track state p =
     (let p1 = logTrack time (js_String direction @ js '' '' @ js_String track @ js '' '' @ js_String state) p;
          added = (state = Str (js ''added''));
          p2 = (if direction = Str (js ''local'') \<and> track = Str (js ''audio'') then p1\<lparr>vc_start := \<not> added, vc_stop := added\<rparr> else p1)
      in if direction = Str (js ''remote'') \<and> track = Str (js ''audio'') then p2\<lparr>vc_listen := \<not> added, vc_mute := added\<rparr> else p2)"

text \<open>A hidden button cannot be clicked.\<close>

definition voice_step :: "voice_event \<Rightarrow> voice_call \<Rightarrow> (voice_call \<times> sdk_call list) option" where
  "voice_step ev p =
     (case ev of
        VcTrack time direction track state \<Rightarrow> Some (voice_track time direction track state p, [])
      | VcError time message \<Rightarrow> Some (logTrack time (js ''error: '' @ message) p, [])
      | VcStart \<Rightarrow> if vc_start p then Some (p, [DoMedia StartLocalAudio]) else None
      | VcStop \<Rightarrow> if vc_stop p then Some (p, [DoMedia StopLocalAudio]) else None
      | VcListen \<Rightarrow> if vc_listen p then Some (p, [DoMedia SubscribeRemoteAudio]) else None
      | VcMute \<Rightarrow> if vc_mute p then Some (p, [DoMedia UnsubscribeRemoteAudio]) else None
      | VcReady ctx \<Rightarrow> Some (p\<lparr>vc_state := init_text ctx\<rparr>, []))"

subsection \<open>Voice meter\<close>

text \<open>The bar's width in percent; the level's text is \<open>toFixed(3)\<close>, which rounds a tie up.\<close>

record voice_meter =
  vm_state :: jsstring
  vm_width :: rat
  vm_value :: jsstring
  vm_speaking :: bool

definition SPEAKING_THRESHOLD :: rat where "SPEAKING_THRESHOLD = 5 / 100"

definition digits3 :: "nat \<Rightarrow> jsstring" where
  "digits3 n = [dig (n div 100 mod 10), dig (n div 10 mod 10), dig (n mod 10)]"

definition to_fixed3 :: "rat \<Rightarrow> jsstring" where
  "to_fixed3 x =
     (let n = nat \<lfloor>\<bar>x\<bar> * 1000 + 1 / 2\<rfloor> in (if x < 0 then js ''-'' else []) @ radix_str 10 (n div 1000) @ js ''.'' @ digits3 (n mod 1000))"

text \<open>A level that is no number throws, which the SDK catches; the host posts finite ones only.\<close>

definition meter_render :: "jsval \<Rightarrow> voice_meter \<Rightarrow> voice_meter" where
  "meter_render level p =
     (case level of
        Num (Fin l) \<Rightarrow> p\<lparr>vm_width := min 100 (max 0 (l * 100)), vm_value := to_fixed3 l, vm_speaking := (SPEAKING_THRESHOLD \<le> l)\<rparr>
      | _ \<Rightarrow> p)"

text \<open>What \<open>ready()\<close> resumes: the handler \<open>render\<close> is the number \<open>f\<close>.\<close>

definition meter_ready :: "nat \<Rightarrow> sdk_context \<Rightarrow> voice_meter \<Rightarrow> voice_meter \<times> sdk_call list" where
  "meter_ready f ctx p = (p\<lparr>vm_state := init_text ctx\<rparr>, [DoSubscribeLevel (Some f)])"

definition meter_error :: "jsstring \<Rightarrow> voice_meter \<Rightarrow> voice_meter" where
  "meter_error message p = p\<lparr>vm_state := js ''error: '' @ message\<rparr>"

subsection \<open>What they do\<close>

text \<open>
  Two echo add-ons do not answer each other for ever: a reply, as JSON carries it, gets no reply. What the peer
  may send meanwhile does not matter.
\<close>

theorem echo_reply_gets_no_reply:
  assumes "snd (echo_deliver payload p) = [DoSend reply]"
  shows "snd (echo_deliver (json_norm reply) q) = []"
  using assms by (auto simp: echo_deliver_def split: if_splits)

text \<open>What a user types into one comes back from the other.\<close>

lemma echo_emit_calls: "js_trim (ec_input p) \<noteq> [] \<Longrightarrow> snd (echo_emit p) = [DoSend (Obj [(js ''text'', Str (js_trim (ec_input p)))])]"
  by (simp add: echo_emit_def Let_def)

text \<open>A message sent through the SDK and the host, as the peer's host delivers it.\<close>

lemma send_posted: "sdk_run (DoSend payload) s = (s, [SPost (bridge_obj ''send'' [(js ''payload'', payload)])])"
  by (simp add: sdk_send_def sdk_post_def)

lemma send_reaches_host:
  "ah_iframe h \<Longrightarrow> handleWindowMessage B now True (bridge_obj ''send'' [(js ''payload'', payload)]) h = fst (handleSend now payload h)"
  by (simp add: handleWindowMessage_def bridge_fields_def bridge_obj_def)

lemma deliver_handed_over:
  "sdk_message True (bridge_message tx (BDeliver payload from)) s =
     (s, map (\<lambda>f. SCall f (VDeliver payload (case from of None \<Rightarrow> Undef | Some a \<Rightarrow> Str a))) (sd_listeners s OnDeliver))"
  by (simp add: sdk_message_def Let_def sdk_emit_def from_field_def split: option.splits)

theorem payload_crosses:
  assumes "manifest_ok (ah_manifest a)" "has_permission ''peer.send'' a" "ah_link a \<noteq> None" "ah_iframe a"
    and "am_id (ah_manifest b) = am_id (ah_manifest a)" "ah_state b = HActive" "ah_iframe b" "has_permission ''peer.receive'' b"
    and "json_data payload" "payload \<noteq> Undef" "int now < 10 ^ 21"
  shows "\<exists>msg a' t out. sdk_run (DoSend payload) sa = (sa, [SPost msg])
    \<and> handleWindowMessage B now True msg a = (a', [OSend payload, OSendText t], [TSendText])
    \<and> on_peer_text t b = (b, [OPost out], [])
    \<and> sdk_message True (bridge_message tx out) sb =
        (sb, map (\<lambda>f. SCall f (VDeliver (json_norm payload) (Str (am_id (ah_manifest a))))) (sd_listeners sb OnDeliver))"
proof -
  from send_then_deliver [OF assms(1-3) assms(5-11)] obtain a' t where
    s: "handleSend now payload a = ((a', [OSend payload, OSendText t], [TSendText]), None)"
    and d: "on_peer_text t b = (b, [OPost (BDeliver (json_norm payload) (Some (am_id (ah_manifest a))))], [])" by blast
  show ?thesis
    using send_posted [of payload sa] send_reaches_host [OF assms(4), of B now payload] s d
      deliver_handed_over [of tx "json_norm payload" "Some (am_id (ah_manifest a))" sb]
    by (intro exI [of _ "bridge_obj ''send'' [(js ''payload'', payload)]"] exI [of _ a'] exI [of _ t]
        exI [of _ "BDeliver (json_norm payload) (Some (am_id (ah_manifest a)))"]) (simp del: bridge_message.simps sdk_run.simps)
qed

text \<open>A level the host posts is drawn as it is: the width is the level in percent.\<close>

theorem meter_shows_the_level:
  assumes "0 \<le> l" "l \<le> 1"
  shows "vm_width (meter_render (Num (Fin l)) p) = l * 100 \<and> (vm_speaking (meter_render (Num (Fin l)) p) \<longleftrightarrow> 1 / 20 \<le> l)"
  using assms by (simp add: meter_render_def SPEAKING_THRESHOLD_def)

text \<open>The buttons of the call show what the host's last notice said of each direction.\<close>

theorem call_buttons_follow_the_notices:
  "\<exists>p'. voice_step (VcTrack time (Str (js (if remote then ''remote'' else ''local''))) (track_name MAudio) (Str (js (if added then ''added'' else ''removed'')))) p = Some (p', [])
    \<and> (if remote then vc_mute p' = added \<and> vc_listen p' = (\<not> added) \<and> vc_stop p' = vc_stop p \<and> vc_start p' = vc_start p
       else vc_stop p' = added \<and> vc_start p' = (\<not> added) \<and> vc_mute p' = vc_mute p \<and> vc_listen p' = vc_listen p)"
  by (simp add: voice_step_def voice_track_def Let_def logTrack_def track_name_def)

text \<open>
  The host gives no notice when it stops listening at the add-on's request: after a click of the mute button the page keeps
  it and never offers to listen again.
\<close>

theorem muted_call_cannot_listen_again:
  assumes "vc_mute p" "\<not> vc_listen p" "ah_iframe h"
  shows "\<exists>msg h' os. voice_step VcMute p = Some (p, [DoMedia UnsubscribeRemoteAudio])
    \<and> sdk_run (DoMedia UnsubscribeRemoteAudio) s = (s, [SPost msg])
    \<and> handleWindowMessage B now True msg h = (h', os, []) \<and> \<not> receives MAudio h' \<and> host_posts os = []
    \<and> voice_step VcListen p = None"
proof -
  let ?msg = "bridge_obj ''media.receive.audio.unsubscribe'' []"
  obtain h' os ts where r: "handleMediaReceiveUnsubscribe MAudio h = (h', os, ts)" by (metis prod_cases3)
  then have "ts = []" "\<not> receives MAudio h'" "host_posts os = []"
    by (auto simp: handleMediaReceiveUnsubscribe_def Let_def host_posts_def split: option.splits)
  moreover have "handleWindowMessage B now True ?msg h = handleMediaReceiveUnsubscribe MAudio h"
    using assms(3) by (simp add: handleWindowMessage_def bridge_fields_def bridge_obj_def)
  ultimately show ?thesis
    using assms r by (intro exI [of _ ?msg] exI [of _ h'] exI [of _ os]) (simp add: voice_step_def sdk_post_def)
qed

text \<open>
  The start button stays until the host's notice: two quick clicks make two requests, the second of which costs the first
  its track (\<open>double_start_leaks\<close>).
\<close>

theorem call_can_be_started_twice:
  assumes "vc_start p" "ah_iframe h" "has_permission (send_permission MAudio) h" "ah_capture h = Some cap" "can_capture MAudio cap"
    and "ah_link h = Some True" "ah_senders h = []"
  shows "\<exists>msg. voice_step VcStart p = Some (p, [DoMedia StartLocalAudio]) \<and> sdk_run (DoMedia StartLocalAudio) s = (s, [SPost msg])
    \<and> handleWindowMessage B now True msg h = (h, [OCapture MAudio None], [TCapture MAudio])"
proof -
  have "handleWindowMessage B now True (bridge_obj ''media.send.audio.start'' []) h = handleMediaSendStart MAudio None h"
    using assms(2) by (simp add: handleWindowMessage_def bridge_fields_def bridge_obj_def)
  with assms show ?thesis by (simp add: voice_step_def sdk_post_def handleMediaSendStart_def)
qed

end
