(* ===== verification/Whiteboard.thy ===== *)
theory Whiteboard
  imports Small_Addons
begin

text \<open>
  \<open>addons/whiteboard/addon.js\<close>: strokes drawn with the pointer go to the peer and are kept for a snapshot in the
  add-on's store. The add-on talks to the host without the SDK: its own numbered storage calls, its own listener. Points
  are given relative to the board; the clock is an argument. What the canvas shows is an output.
\<close>

subsection \<open>The page\<close>

datatype board_task = BtSave | BtLoad

record board =
  wb_state :: jsstring
  wb_initialized :: bool
  wb_ownCount :: nat
  wb_peerCount :: nat
  wb_strokes :: "jsval list"
  wb_ownText :: jsstring
  wb_peerText :: jsstring
  wb_vault :: jsstring
  wb_pending :: "(jsstring \<times> board_task) list"
  wb_nextRid :: nat
  wb_drawing :: bool
  wb_lastPoint :: "(rat \<times> rat) option"
  wb_lastEmit :: rat

datatype board_out = WbPost jsval | WbClear | WbStroke jsval | WbUncaught

type_synonym board_result = "board \<times> board_out list"

definition STROKE_THROTTLE_MS :: rat where "STROKE_THROTTLE_MS = 16"
definition SNAPSHOT_KEY :: jsval where "SNAPSHOT_KEY = Str (js ''snapshot'')"

text \<open>The page after its script has run, with the \<open>ready\<close> it posts.\<close>

definition new_board :: board_result where
  "new_board = (\<lparr>wb_state = js ''ready'', wb_initialized = False, wb_ownCount = 0, wb_peerCount = 0, wb_strokes = [],
     wb_ownText = js ''0'', wb_peerText = js ''0'', wb_vault = [], wb_pending = [], wb_nextRid = 0, wb_drawing = False,
     wb_lastPoint = None, wb_lastEmit = 0\<rparr>, [WbPost (bridge_obj ''ready'' [])])"

subsection \<open>Strokes\<close>

definition segment :: "rat \<Rightarrow> rat \<Rightarrow> rat \<Rightarrow> rat \<Rightarrow> rat \<Rightarrow> jsval" where
  "segment x1 y1 x2 y2 w =
     Obj [(js ''x1'', Num (Fin x1)), (js ''y1'', Num (Fin y1)), (js ''x2'', Num (Fin x2)), (js ''y2'', Num (Fin y2)), (js ''w'', Num (Fin w))]"

text \<open>Drawing reads five fields as numbers; one that cannot be converted throws, as does a stroke that is nothing.\<close>

definition drawable :: "jsval \<Rightarrow> bool" where
  "drawable seg = (seg \<noteq> Null \<and> seg \<noteq> Undef \<and> list_all (\<lambda>k. \<not> unprintable (fld (own_fields seg) k)) [''w'', ''x1'', ''y1'', ''x2'', ''y2''])"

definition drawSegment :: "jsval \<Rightarrow> board_out" where
  "drawSegment seg = (if drawable seg then WbStroke seg else WbUncaught)"

definition emitOwn :: "jsval \<Rightarrow> board \<Rightarrow> board_result" where
  "emitOwn seg b =
     (b\<lparr>wb_strokes := wb_strokes b @ [seg], wb_ownCount := Suc (wb_ownCount b), wb_ownText := radix_str 10 (Suc (wb_ownCount b))\<rparr>,
      [drawSegment seg, WbPost (bridge_obj ''send'' [(js ''payload'', Obj [(js ''type'', Str (js ''stroke'')), (js ''segment'', seg)])])])"

definition board_applyPeer :: "jsval \<Rightarrow> board \<Rightarrow> board_result" where
  "board_applyPeer seg b =
     (b\<lparr>wb_strokes := wb_strokes b @ [seg], wb_peerCount := Suc (wb_peerCount b), wb_peerText := radix_str 10 (Suc (wb_peerCount b))\<rparr>,
      [drawSegment seg])"

definition demo_clicked :: "board \<Rightarrow> board_result" where
  "demo_clicked b = (if \<not> wb_initialized b then (b, []) else emitOwn (segment 20 20 280 140 3) b)"

definition clear_clicked :: "board \<Rightarrow> board_result" where
  "clear_clicked b =
     (b\<lparr>wb_strokes := [], wb_ownCount := 0, wb_peerCount := 0, wb_ownText := js ''0'', wb_peerText := js ''0''\<rparr>, [WbClear])"

subsection \<open>Snapshots\<close>

text \<open>\<open>rpc\<close>: the message, with the call's id in front of the request's own fields.\<close>

definition board_rpc :: "sdk_request \<Rightarrow> board_task \<Rightarrow> board \<Rightarrow> board_result" where
  "board_rpc req t b =
     (let n = Suc (wb_nextRid b) in
      (b\<lparr>wb_nextRid := n, wb_pending := al_set (rid_of n) t (wb_pending b)\<rparr>,
       [WbPost (bridge_obj ''storage'' ((js ''rid'', Str (rid_of n)) # request_fields req))]))"

definition board_snapshot :: "board \<Rightarrow> jsval" where
  "board_snapshot b = Obj [(js ''strokes'', Arr (wb_strokes b))]"

definition snapshot_save :: "board \<Rightarrow> board_result" where
  "snapshot_save b = board_rpc (RPut SNAPSHOT_KEY (board_snapshot b)) BtSave b"

definition snapshot_load :: "board \<Rightarrow> board_result" where
  "snapshot_load b = board_rpc (RGet SNAPSHOT_KEY) BtLoad b"

definition snapshot_saved :: "board \<Rightarrow> board" where
  "snapshot_saved b = b\<lparr>wb_vault := js ''saved '' @ radix_str 10 (length (wb_strokes b)) @ js '' strokes''\<rparr>"

text \<open>Drawing stops at a stroke that throws, whose error is then shown.\<close>

definition snapshot_loaded :: "jsval \<Rightarrow> board \<Rightarrow> board_result" where
  "snapshot_loaded snap b =
     (case fld (own_fields snap) ''strokes'' of
        Arr ss \<Rightarrow>
          (let b1 = b\<lparr>wb_strokes := ss, wb_ownCount := length ss, wb_peerCount := 0, wb_ownText := radix_str 10 (length ss), wb_peerText := js ''0''\<rparr>;
               out = WbClear # map WbStroke (takeWhile drawable ss)
           in if list_all drawable ss
              then (b1\<lparr>wb_vault := js ''loaded '' @ radix_str 10 (length ss) @ js '' strokes''\<rparr>, out)
              else (b1\<lparr>wb_vault := js ''error: ''\<rparr>, out))
      | _ \<Rightarrow> (b\<lparr>wb_vault := js ''no snapshot''\<rparr>, []))"

definition board_failed :: "jsstring \<Rightarrow> board \<Rightarrow> board" where
  "board_failed e b = b\<lparr>wb_vault := js ''error: '' @ e\<rparr>"

fun board_resume :: "board_task \<Rightarrow> jsstring + jsval \<Rightarrow> board \<Rightarrow> board_result" where
  "board_resume t (Inl e) b = (board_failed e b, [])"
| "board_resume BtSave (Inr _) b = (snapshot_saved b, [])"
| "board_resume BtLoad (Inr snap) b = snapshot_loaded snap b"

subsection \<open>The pointer\<close>

definition pointer_down :: "rat \<Rightarrow> rat \<Rightarrow> board \<Rightarrow> board" where
  "pointer_down x y b = b\<lparr>wb_drawing := True, wb_lastPoint := Some (x, y)\<rparr>"

definition pointer_move :: "rat \<Rightarrow> rat \<Rightarrow> rat \<Rightarrow> board \<Rightarrow> board_result" where
  "pointer_move now x y b =
     (case wb_lastPoint b of
        Some (x1, y1) \<Rightarrow>
          if \<not> wb_drawing b then (b, [])
          else if now - wb_lastEmit b < STROKE_THROTTLE_MS then (b, [])
          else (let (b1, os) = emitOwn (segment x1 y1 x y 2) (b\<lparr>wb_lastEmit := now\<rparr>) in (b1\<lparr>wb_lastPoint := Some (x, y)\<rparr>, os))
      | None \<Rightarrow> (b, []))"

definition endDrawing :: "board \<Rightarrow> board" where
  "endDrawing b = b\<lparr>wb_drawing := False, wb_lastPoint := None\<rparr>"

subsection \<open>Messages of the host\<close>

definition board_result_message :: "jsfields \<Rightarrow> board \<Rightarrow> board_result" where
  "board_result_message msg b =
     (case fld msg ''rid'' of
        Str rid \<Rightarrow>
          (case map_of (wb_pending b) rid of
             None \<Rightarrow> (b, [])
           | Some t \<Rightarrow>
               (let b1 = b\<lparr>wb_pending := al_del rid (wb_pending b)\<rparr> in
                if truthy (fld msg ''ok'') then board_resume t (Inr (fld msg ''value'')) b1
                else if unprintable (fld msg ''error'') then (b1, [WbUncaught])
                else board_resume t (Inl (error_message (fld msg ''error''))) b1))
      | _ \<Rightarrow> (b, []))"

definition board_message :: "bool \<Rightarrow> jsval \<Rightarrow> board \<Rightarrow> board_result" where
  "board_message fromParent data b =
     (let msg = own_fields data; op = fld msg ''op''; payload = fld msg ''payload'' in
      if \<not> fromParent then (b, [])
      else if \<not> truthy data \<or> fld msg ''kind'' \<noteq> Str (js ''senn.addon.v1'') then (b, [])
      else if op = Str (js ''init'')
      then (b\<lparr>wb_state := js ''init ('' @ js_String (fld msg ''addonId'') @ js '' v'' @ js_String (fld msg ''version'') @ js '')'',
              wb_initialized := True\<rparr>, [])
      else if op = Str (js ''deliver'')
      then (if is_objecty payload \<and> fld (own_fields payload) ''type'' = Str (js ''stroke'') \<and> truthy (fld (own_fields payload) ''segment'')
            then board_applyPeer (fld (own_fields payload) ''segment'') b else (b, []))
      else if op = Str (js ''storage.result'') then board_result_message msg b
      else (b, []))"

datatype board_event =
    WbDemo
  | WbClearClick
  | WbSave
  | WbLoad
  | WbDown rat rat
  | WbMove rat rat rat
  | WbUp
  | WbMessage bool jsval

definition board_run :: "board_event \<Rightarrow> board \<Rightarrow> board_result" where
  "board_run ev b =
     (case ev of
        WbDemo \<Rightarrow> demo_clicked b
      | WbClearClick \<Rightarrow> clear_clicked b
      | WbSave \<Rightarrow> snapshot_save b
      | WbLoad \<Rightarrow> snapshot_load b
      | WbDown x y \<Rightarrow> (pointer_down x y b, [])
      | WbMove now x y \<Rightarrow> pointer_move now x y b
      | WbUp \<Rightarrow> (endDrawing b, [])
      | WbMessage fromParent data \<Rightarrow> board_message fromParent data b)"

definition board_step :: "board_event \<Rightarrow> board \<Rightarrow> (board \<times> board_out list) option" where
  "board_step ev b = Some (board_run ev b)"

subsection \<open>What holds\<close>

text \<open>The counters add up to the strokes, and the page shows them.\<close>

definition board_counts :: "board \<Rightarrow> bool" where
  "board_counts b \<longleftrightarrow> wb_ownCount b + wb_peerCount b = length (wb_strokes b)
     \<and> wb_ownText b = radix_str 10 (wb_ownCount b) \<and> wb_peerText b = radix_str 10 (wb_peerCount b)"

lemma radix_zero [simp]: "radix_str 10 0 = js ''0''"
  by (subst radix_str.simps) (simp add: dig_def js_def word_eq_iff_unsigned [where 'a = nat])

lemma counts_emit: "board_counts b \<Longrightarrow> board_counts (fst (emitOwn seg b))"
  by (simp add: board_counts_def emitOwn_def)

lemma counts_resume: "board_counts b \<Longrightarrow> board_counts (fst (board_resume t ans b))"
  by (cases "(t, ans, b)" rule: board_resume.cases)
    (auto simp: board_counts_def board_failed_def snapshot_saved_def snapshot_loaded_def Let_def split: jsval.splits)

lemma counts_unchanged [simp]:
  "board_counts (b\<lparr>wb_lastEmit := e\<rparr>) = board_counts b" "board_counts (b\<lparr>wb_lastPoint := l\<rparr>) = board_counts b"
  "board_counts (b\<lparr>wb_drawing := d\<rparr>) = board_counts b" "board_counts (b\<lparr>wb_pending := p\<rparr>) = board_counts b"
  "board_counts (b\<lparr>wb_nextRid := n\<rparr>) = board_counts b" "board_counts (b\<lparr>wb_state := s\<rparr>) = board_counts b"
  "board_counts (b\<lparr>wb_initialized := i\<rparr>) = board_counts b"
  by (simp_all add: board_counts_def)

lemma counts_message: "board_counts b \<Longrightarrow> board_counts (fst (board_message fr data b))"
  by (auto simp: board_message_def Let_def board_result_message_def counts_resume simp del: board_resume.simps
      split: jsval.splits option.splits) (auto simp: board_counts_def board_applyPeer_def)

lemma counts_move: "board_counts b \<Longrightarrow> board_counts (fst (pointer_move now x y b))"
  by (simp add: pointer_move_def emitOwn_def board_counts_def split: option.splits)

lemma counts_clicks:
  "board_counts b \<Longrightarrow> board_counts (fst (snapshot_save b))" "board_counts b \<Longrightarrow> board_counts (fst (snapshot_load b))"
  "board_counts (fst (clear_clicked b))"
  by (simp_all add: snapshot_save_def snapshot_load_def board_rpc_def Let_def clear_clicked_def board_counts_def)

lemma counts_run: "board_counts b \<Longrightarrow> board_counts (fst (board_run ev b))"
  by (cases ev) (simp_all add: board_run_def demo_clicked_def counts_emit counts_message counts_move counts_clicks
      pointer_down_def endDrawing_def)

interpretation board: preserved board_step board_counts
proof
  fix b b' ev os
  assume "board_counts b" "board_step ev b = Some (b', os)"
  then show "board_counts b'" using counts_run [of b ev] by (simp add: board_step_def)
qed

theorem board_counters_are_right:
  assumes "reach board_step (fst new_board) os b"
  shows "board_counts b"
proof (rule board.reach_preserves [OF assms])
  show "board_counts (fst new_board)" by (simp add: new_board_def board_counts_def)
qed

text \<open>
  What is saved is what a later load shows, as long as nobody else writes the snapshot and it fits: the strokes are back, all
  of them counted as the user's own.
\<close>

theorem snapshot_brings_the_strokes_back:
  assumes "approximateBytes (board_snapshot b) \<le> MAX_VALUE_BYTES" "list_all (leaves (js ''snapshot'')) later"
    and "list_all drawable (wb_strokes b)"
  defines "put \<equiv> RPut SNAPSHOT_KEY (board_snapshot b)" and "get \<equiv> RGet SNAPSHOT_KEY"
  shows "snd (snapshot_save b) = [WbPost (bridge_obj ''storage'' ((js ''rid'', Str (rid_of (Suc (wb_nextRid b)))) # request_fields put))]"
    and "snd (snapshot_load c) = [WbPost (bridge_obj ''storage'' ((js ''rid'', Str (rid_of (Suc (wb_nextRid c)))) # request_fields get))]"
    and "map_answers (before @ [put] @ later @ [get]) m ! (length before + length later + 1) = Inr (board_snapshot b)"
    and "wb_strokes (fst (board_resume BtLoad (Inr (board_snapshot b)) d)) = wb_strokes b
      \<and> wb_ownCount (fst (board_resume BtLoad (Inr (board_snapshot b)) d)) = length (wb_strokes b)"
proof -
  have k: "length (js ''snapshot'') \<le> MAX_KEY_LENGTH" by (simp add: MAX_KEY_LENGTH_def)
  have n: "or_null (board_snapshot b) = board_snapshot b" by (simp add: or_null_def board_snapshot_def)
  show "map_answers (before @ [put] @ later @ [get]) m ! (length before + length later + 1) = Inr (board_snapshot b)"
    using stored_value_comes_back(1) [OF k assms(1,2), of before m] n by (simp add: put_def get_def SNAPSHOT_KEY_def)
  show "wb_strokes (fst (board_resume BtLoad (Inr (board_snapshot b)) d)) = wb_strokes b
      \<and> wb_ownCount (fst (board_resume BtLoad (Inr (board_snapshot b)) d)) = length (wb_strokes b)"
    using assms(3) by (simp add: snapshot_loaded_def board_snapshot_def)
qed (simp_all add: snapshot_save_def snapshot_load_def board_rpc_def Let_def put_def get_def)

text \<open>A stroke whose coordinates are whole numbers is drawn on the peer's board as it was drawn here.\<close>

lemma segment_clean:
  assumes "\<forall>n\<in>set [x1, y1, x2, y2, w]. \<bar>n\<bar> < 10 ^ 21"
  shows "json_clean (segment (of_int x1) (of_int y1) (of_int x2) (of_int y2) (of_int w))"
  using assms json_clean_int by (auto simp: segment_def)

theorem stroke_reaches_the_peer:
  fixes x1 y1 x2 y2 w :: int
  defines "seg \<equiv> segment (of_int x1) (of_int y1) (of_int x2) (of_int y2) (of_int w)"
  assumes "\<forall>n\<in>set [x1, y1, x2, y2, w]. \<bar>n\<bar> < 10 ^ 21"
    and "manifest_ok (ah_manifest a)" "has_permission ''peer.send'' a" "ah_link a \<noteq> None" "ah_iframe a"
    and "am_id (ah_manifest h) = am_id (ah_manifest a)" "ah_state h = HActive" "ah_iframe h" "has_permission ''peer.receive'' h"
    and "int now < 10 ^ 21"
  shows "\<exists>msg a' p t out. snd (emitOwn seg b) = [WbStroke seg, WbPost msg]
    \<and> handleWindowMessage B now True msg a = (a', [OSend p, OSendText t], [TSendText])
    \<and> on_peer_text t h = (h, [OPost out], [])
    \<and> board_message True (bridge_message tx out) c = board_applyPeer seg c
    \<and> wb_strokes (fst (board_applyPeer seg c)) = wb_strokes c @ [seg]"
proof -
  let ?p = "Obj [(js ''type'', Str (js ''stroke'')), (js ''segment'', seg)]"
  have "json_clean seg" unfolding seg_def by (rule segment_clean [OF assms(2)])
  then have clean: "json_clean ?p" by (simp add: seg_def segment_def)
  then have "json_data ?p" "json_norm ?p = ?p" using json_clean_data json_clean_norm_id by blast+
  with send_then_deliver [OF assms(3-5) assms(7-10), of ?p now] assms(11)
  obtain a' t where s: "fst (handleSend now ?p a) = (a', [OSend ?p, OSendText t], [TSendText])"
    and d: "on_peer_text t h = (h, [OPost (BDeliver ?p (Some (am_id (ah_manifest a))))], [])" by auto
  have draw: "drawable seg" by (simp add: drawable_def seg_def segment_def)
  have "board_message True (bridge_message tx (BDeliver ?p (Some (am_id (ah_manifest a))))) c = board_applyPeer seg c"
    by (simp add: board_message_def Let_def from_field_def) (simp add: seg_def segment_def)
  then show ?thesis
    using s d draw send_reaches_host [OF assms(6), of B now ?p]
    by (intro exI [of _ "bridge_obj ''send'' [(js ''payload'', ?p)]"] exI [of _ a'] exI [of _ ?p] exI [of _ t]
        exI [of _ "BDeliver ?p (Some (am_id (ah_manifest a)))"])
      (simp add: emitOwn_def drawSegment_def board_applyPeer_def del: bridge_message.simps)
qed

end
