(* ===== verification/Avatar_Presence.thy ===== *)
theory Avatar_Presence
  imports Small_Addons
begin

text \<open>
  \<open>addons/avatar-presence/addon.js\<close>: the user's state (speaking, emotion) goes to the peer at most every 200 ms by
  way of a pending state and timers, reactions go at once. The clock is an argument of the events; a timer is due at its
  time. Shown: once the timers have run, what was sent last is what the page shows; and the throttle can be passed, when
  a timer that found nothing to send is still there.
\<close>

subsection \<open>The page\<close>

datatype avatar_timer = AtFlush rat | AtMyReaction rat jsstring | AtPeerReaction rat jsstring

record avatar =
  av_state :: jsstring
  av_initialized :: bool
  av_lastSent :: rat
  av_pending :: "(bool \<times> jsstring) option"
  av_speaking :: bool
  av_emotion :: jsstring
  av_myReaction :: jsstring
  av_peerSpeaking :: bool
  av_peerEmotion :: jsstring
  av_peerReaction :: jsstring
  av_timers :: "avatar_timer list"

type_synonym avatar_result = "avatar \<times> jsval list"

definition STATE_THROTTLE_MS :: rat where "STATE_THROTTLE_MS = 200"

text \<open>The page after its script, which posts \<open>ready\<close>. The results of the handlers are the messages posted.\<close>

definition new_avatar :: avatar_result where
  "new_avatar = (\<lparr>av_state = js ''ready'', av_initialized = False, av_lastSent = 0, av_pending = None, av_speaking = False,
     av_emotion = js ''neutral'', av_myReaction = [], av_peerSpeaking = False, av_peerEmotion = js ''neutral'', av_peerReaction = [],
     av_timers = []\<rparr>, [bridge_obj ''ready'' []])"

definition avatar_send :: "jsval \<Rightarrow> jsval" where
  "avatar_send payload = bridge_obj ''send'' [(js ''payload'', payload)]"

definition state_payload :: "bool \<times> jsstring \<Rightarrow> jsval" where
  "state_payload s =
     Obj [(js ''type'', Str (js ''state'')), (js ''state'', Obj [(js ''speaking'', Bool (fst s)), (js ''emotion'', Str (snd s))])]"

definition flushState :: "rat \<Rightarrow> avatar \<Rightarrow> avatar_result" where
  "flushState now v =
     (case av_pending v of
        None \<Rightarrow> (v, [])
      | Some s \<Rightarrow> (v\<lparr>av_pending := None, av_lastSent := now\<rparr>, [avatar_send (state_payload s)]))"

definition start_timer :: "avatar_timer \<Rightarrow> avatar \<Rightarrow> avatar" where
  "start_timer t v = v\<lparr>av_timers := av_timers v @ [t]\<rparr>"

text \<open>\<open>applyMe\<close> shows the two fields, which are the page's own state.\<close>

definition emitStateChange :: "rat \<Rightarrow> avatar \<Rightarrow> avatar_result" where
  "emitStateChange now v =
     (let v1 = v\<lparr>av_pending := Some (av_speaking v, av_emotion v)\<rparr>;
          wait = max 0 (STATE_THROTTLE_MS - (now - av_lastSent v))
      in if wait = 0 then flushState now v1 else (start_timer (AtFlush (now + wait)) v1, []))"

definition toggle_clicked :: "rat \<Rightarrow> avatar \<Rightarrow> avatar_result" where
  "toggle_clicked now v = (if \<not> av_initialized v then (v, []) else emitStateChange now (v\<lparr>av_speaking := \<not> av_speaking v\<rparr>))"

text \<open>The \<open>select\<close>'s value, which the page copies when it is initialized.\<close>

definition emotion_chosen :: "rat \<Rightarrow> jsstring \<Rightarrow> avatar \<Rightarrow> avatar_result" where
  "emotion_chosen now value v = (if \<not> av_initialized v then (v, []) else emitStateChange now (v\<lparr>av_emotion := value\<rparr>))"

text \<open>A reaction's button with its \<open>data-emoji\<close>, if it has one.\<close>

definition reaction_clicked :: "rat \<Rightarrow> jsstring \<Rightarrow> avatar \<Rightarrow> avatar_result" where
  "reaction_clicked now emoji v =
     (if \<not> av_initialized v \<or> emoji = [] then (v, [])
      else (start_timer (AtMyReaction (now + 1500) emoji) (v\<lparr>av_myReaction := emoji\<rparr>),
            [avatar_send (Obj [(js ''type'', Str (js ''reaction'')), (js ''emoji'', Str emoji)])]))"

subsection \<open>Messages and timers\<close>

definition avatar_applyPeer :: "jsval \<Rightarrow> avatar \<Rightarrow> avatar" where
  "avatar_applyPeer state v =
     (let v1 = (case fld (own_fields state) ''speaking'' of Bool x \<Rightarrow> v\<lparr>av_peerSpeaking := x\<rparr> | _ \<Rightarrow> v) in
      case fld (own_fields state) ''emotion'' of Str e \<Rightarrow> v1\<lparr>av_peerEmotion := e\<rparr> | _ \<Rightarrow> v1)"

definition avatar_deliver :: "rat \<Rightarrow> jsval \<Rightarrow> avatar \<Rightarrow> avatar" where
  "avatar_deliver now payload v =
     (let p = own_fields payload in
      if \<not> is_objecty payload then v
      else if fld p ''type'' = Str (js ''state'') \<and> truthy (fld p ''state'') then avatar_applyPeer (fld p ''state'') v
      else if fld p ''type'' = Str (js ''reaction'')
      then (case fld p ''emoji'' of
              Str e \<Rightarrow> start_timer (AtPeerReaction (now + 1500) e) (v\<lparr>av_peerReaction := e\<rparr>)
            | _ \<Rightarrow> v)
      else v)"

definition avatar_message :: "rat \<Rightarrow> bool \<Rightarrow> jsval \<Rightarrow> avatar \<Rightarrow> avatar" where
  "avatar_message now fromParent data v =
     (let msg = own_fields data; op = fld msg ''op'' in
      if \<not> fromParent then v
      else if \<not> truthy data \<or> fld msg ''kind'' \<noteq> Str (js ''senn.addon.v1'') then v
      else if op = Str (js ''init'')
      then v\<lparr>av_state := js ''init ('' @ js_String (fld msg ''addonId'') @ js '' v'' @ js_String (fld msg ''version'') @ js '')'',
             av_initialized := True\<rparr>
      else if op = Str (js ''deliver'') then avatar_deliver now (fld msg ''payload'') v
      else v)"

fun due :: "avatar_timer \<Rightarrow> rat" where
  "due (AtFlush t) = t"
| "due (AtMyReaction t _) = t"
| "due (AtPeerReaction t _) = t"

fun timer_fired :: "rat \<Rightarrow> avatar_timer \<Rightarrow> avatar \<Rightarrow> avatar_result" where
  "timer_fired now (AtFlush _) v = flushState now v"
| "timer_fired now (AtMyReaction _ e) v = ((if av_myReaction v = e then v\<lparr>av_myReaction := []\<rparr> else v), [])"
| "timer_fired now (AtPeerReaction _ e) v = ((if av_peerReaction v = e then v\<lparr>av_peerReaction := []\<rparr> else v), [])"

datatype avatar_event =
    AvToggle rat
  | AvEmotion rat jsstring
  | AvReaction rat jsstring
  | AvMessage rat bool jsval
  | AvTimer nat rat

definition avatar_step :: "avatar_event \<Rightarrow> avatar \<Rightarrow> (avatar \<times> jsval list) option" where
  "avatar_step ev v =
     (case ev of
        AvToggle now \<Rightarrow> Some (toggle_clicked now v)
      | AvEmotion now value \<Rightarrow> Some (emotion_chosen now value v)
      | AvReaction now emoji \<Rightarrow> Some (reaction_clicked now emoji v)
      | AvMessage now fromParent data \<Rightarrow> Some (avatar_message now fromParent data v, [])
      | AvTimer n now \<Rightarrow>
          if n < length (av_timers v) \<and> due (av_timers v ! n) \<le> now
          then Some (timer_fired now (av_timers v ! n) (v\<lparr>av_timers := take n (av_timers v) @ drop (Suc n) (av_timers v)\<rparr>)) else None)"

subsection \<open>What is sent\<close>

text \<open>The states among the messages.\<close>

definition sent_states :: "jsval list \<Rightarrow> jsval list" where
  "sent_states os = filter (\<lambda>m. fld (own_fields (fld (own_fields m) ''payload'')) ''type'' = Str (js ''state'')) os"

lemma sent_states_simps [simp]:
  "sent_states [] = []" "sent_states (xs @ ys) = sent_states xs @ sent_states ys"
  "sent_states [avatar_send (state_payload s)] = [avatar_send (state_payload s)]"
  "sent_states [avatar_send (Obj [(js ''type'', Str (js ''reaction'')), (js ''emoji'', Str e)])] = []"
  by (simp_all add: sent_states_def avatar_send_def state_payload_def)

definition is_flush :: "avatar_timer \<Rightarrow> bool" where
  "is_flush t = (case t of AtFlush _ \<Rightarrow> True | _ \<Rightarrow> False)"

text \<open>
  A pending state is the one on display and a timer waits for it; with none pending, the last state sent is the one on
  display (at the start, the one every peer shows).
\<close>

definition state_follows :: "jsval list \<Rightarrow> avatar \<Rightarrow> bool" where
  "state_follows os v \<longleftrightarrow> (let me = (av_speaking v, av_emotion v) in
     case av_pending v of
       Some s \<Rightarrow> s = me \<and> (\<exists>t\<in>set (av_timers v). is_flush t)
     | None \<Rightarrow> if sent_states os = [] then me = (False, js ''neutral'') else last (sent_states os) = avatar_send (state_payload me))"

lemma follows_emit: "state_follows (os @ snd (emitStateChange now v)) (fst (emitStateChange now v))"
  by (auto simp: emitStateChange_def state_follows_def Let_def flushState_def start_timer_def is_flush_def)

lemma follows_kept:
  assumes "state_follows os v" "av_pending v' = av_pending v" "av_speaking v' = av_speaking v" "av_emotion v' = av_emotion v"
    and "filter is_flush (av_timers v') = filter is_flush (av_timers v)" "sent_states os' = []"
  shows "state_follows (os @ os') v'"
proof -
  have "(\<exists>t\<in>set (av_timers v'). is_flush t) \<longleftrightarrow> (\<exists>t\<in>set (av_timers v). is_flush t)"
    using assms(5) by (metis filter_empty_conv)
  with assms show ?thesis by (cases "av_pending v") (simp_all add: state_follows_def Let_def)
qed

lemma follows_flush: "state_follows os v \<Longrightarrow> state_follows (os @ snd (flushState now (v\<lparr>av_timers := ts\<rparr>))) (fst (flushState now (v\<lparr>av_timers := ts\<rparr>)))"
  by (cases "av_pending v") (simp_all add: flushState_def state_follows_def Let_def)

definition same_own_state :: "avatar \<Rightarrow> avatar \<Rightarrow> bool" where
  "same_own_state v v' \<longleftrightarrow> av_pending v' = av_pending v \<and> av_speaking v' = av_speaking v \<and> av_emotion v' = av_emotion v
     \<and> filter is_flush (av_timers v') = filter is_flush (av_timers v)"

lemma applyPeer_keeps: "same_own_state v (avatar_applyPeer st v)"
  by (simp add: same_own_state_def avatar_applyPeer_def Let_def split: jsval.splits)

lemma avatar_deliver_keeps: "same_own_state v (avatar_deliver now payload v)"
  by (auto simp: avatar_deliver_def Let_def applyPeer_keeps) (auto simp: same_own_state_def start_timer_def is_flush_def split: jsval.splits)

lemma avatar_message_keeps: "same_own_state v (avatar_message now fr data v)"
  by (simp add: avatar_message_def Let_def avatar_deliver_keeps) (simp add: same_own_state_def)

lemma same_follows: "state_follows os v \<Longrightarrow> same_own_state v v' \<Longrightarrow> sent_states os' = [] \<Longrightarrow> state_follows (os @ os') v'"
  by (rule follows_kept) (simp_all add: same_own_state_def)

lemma flushes_after:
  "n < length ts \<Longrightarrow> \<not> is_flush (ts ! n) \<Longrightarrow> filter is_flush (take n ts @ drop (Suc n) ts) = filter is_flush ts"
  using id_take_nth_drop [of n ts] by (metis (no_types, lifting) append_Nil append_Cons filter.simps(2) filter_append)

interpretation avatar: monitored avatar_step state_follows
proof
  fix os v ev v' os'
  assume f: "state_follows os v" and s: "avatar_step ev v = Some (v', os')"
  show "state_follows (os @ os') v'"
  proof (cases ev)
    case (AvToggle now)
    then show ?thesis
      using s f follows_emit [of os now "v\<lparr>av_speaking := \<not> av_speaking v\<rparr>"] by (auto simp: avatar_step_def toggle_clicked_def split: if_splits)
  next
    case (AvEmotion now emo)
    then show ?thesis
      using s f follows_emit [of os now "v\<lparr>av_emotion := emo\<rparr>"] by (auto simp: avatar_step_def emotion_chosen_def split: if_splits)
  next
    case (AvReaction now emoji)
    have "same_own_state v v'" "sent_states os' = []"
      using s by (auto simp: AvReaction avatar_step_def reaction_clicked_def start_timer_def is_flush_def same_own_state_def split: if_splits)
    with f show ?thesis by (rule same_follows)
  next
    case (AvMessage now fr data)
    then have "same_own_state v v'" "sent_states os' = []" using s avatar_message_keeps by (auto simp: avatar_step_def)
    with f show ?thesis by (rule same_follows)
  next
    case (AvTimer n now)
    let ?t = "av_timers v ! n"
    have n: "n < length (av_timers v)"
      and r: "(v', os') = timer_fired now ?t (v\<lparr>av_timers := take n (av_timers v) @ drop (Suc n) (av_timers v)\<rparr>)"
      using s by (auto simp: AvTimer avatar_step_def split: if_splits)
    show ?thesis
    proof (cases "is_flush ?t")
      case True
      then obtain d where "?t = AtFlush d" by (cases ?t) (simp_all add: is_flush_def)
      then show ?thesis using r follows_flush [OF f] by (metis fst_conv snd_conv timer_fired.simps(1))
    next
      case False
      have "same_own_state v v'" "sent_states os' = []"
        using r flushes_after [OF n False] False by (cases ?t; auto simp: same_own_state_def is_flush_def split: if_splits)+
      with f show ?thesis by (rule same_follows)
    qed
  qed
qed

theorem last_state_is_sent:
  assumes "reach avatar_step (fst new_avatar) os v" "list_all (\<lambda>t. \<not> is_flush t) (av_timers v)" "sent_states os \<noteq> []"
  shows "last (sent_states os) = avatar_send (state_payload (av_speaking v, av_emotion v))"
proof -
  have "state_follows [] (fst new_avatar)" by (simp add: state_follows_def new_avatar_def)
  from avatar.reach_monitored [OF assms(1) this] assms(2,3) show ?thesis
    by (auto simp: state_follows_def Let_def list_all_iff split: option.splits)
qed

text \<open>
  Each change before the 200 ms are over starts a timer of its own; one that finds nothing to send stays as harmless as
  it seems until a change comes just before it: that change is sent one millisecond after the last message.
\<close>

theorem throttle_can_be_passed:
  assumes "av_initialized v" "av_lastSent v = t" "av_pending v = None" "av_timers v = []"
  shows "\<exists>v' s1 s2. run_events avatar_step [AvToggle (t + 100), AvToggle (t + 150), AvTimer 0 (t + 200)] v = Some (v', [s1])
    \<and> (\<exists>v''. run_events avatar_step [AvToggle (t + 200), AvTimer 0 (t + 201)] v' = Some (v'', [s2]))
    \<and> sent_states [s1, s2] = [s1, s2]"
  using assms
  by (simp add: avatar_step_def toggle_clicked_def emitStateChange_def Let_def STATE_THROTTLE_MS_def flushState_def start_timer_def
      sent_states_def avatar_send_def state_payload_def)

text \<open>A state that is sent is what the peer's page shows of this user.\<close>

theorem presence_reaches_the_peer:
  assumes "manifest_ok (ah_manifest a)" "has_permission ''peer.send'' a" "ah_link a \<noteq> None" "ah_iframe a"
    and "am_id (ah_manifest h) = am_id (ah_manifest a)" "ah_state h = HActive" "ah_iframe h" "has_permission ''peer.receive'' h"
    and "int now < 10 ^ 21"
  shows "\<exists>a' p t out. handleWindowMessage B now True (avatar_send (state_payload (speaking, emotion))) a = (a', [OSend p, OSendText t], [TSendText])
    \<and> on_peer_text t h = (h, [OPost out], [])
    \<and> avatar_message later True (bridge_message tx out) w = w\<lparr>av_peerSpeaking := speaking, av_peerEmotion := emotion\<rparr>"
proof -
  let ?p = "state_payload (speaking, emotion)"
  have p: "json_data ?p" "json_norm ?p = ?p" "?p \<noteq> Undef" by (simp_all add: state_payload_def)
  from send_then_deliver [OF assms(1-3) assms(5-8) p(1,3) assms(9)] obtain a' t where
    s: "fst (handleSend now ?p a) = (a', [OSend ?p, OSendText t], [TSendText])"
    and d: "on_peer_text t h = (h, [OPost (BDeliver ?p (Some (am_id (ah_manifest a))))], [])" by (auto simp: p(2))
  have "avatar_message later True (bridge_message tx (BDeliver ?p (Some (am_id (ah_manifest a))))) w
      = w\<lparr>av_peerSpeaking := speaking, av_peerEmotion := emotion\<rparr>"
    by (simp add: avatar_message_def Let_def from_field_def avatar_deliver_def state_payload_def avatar_applyPeer_def)
  with s d send_reaches_host [OF assms(4), of B now ?p] show ?thesis
    by (intro exI [of _ a'] exI [of _ ?p] exI [of _ t] exI [of _ "BDeliver ?p (Some (am_id (ah_manifest a)))"])
      (simp add: avatar_send_def del: bridge_message.simps)
qed

end
