(* ===== verification/Spec2Isabelle.thy ===== *)
theory Spec2Isabelle
  imports JS_Regex JS_JSON_Props Base64url Ids Envelope Web_Platform Bundle Invite Frames Frames_Props Peer_Session Peer_Session_Props Manifest Storage Event_System Addon_Manifest Addon_Host Addon_Host_Props Signaling_Transport Http_Poll Http_Poll_Props Url_Fragment Nostr_V2 Nostr Nostr_Props Nostr_Publish Nostr_Deliver Nostr_Secrecy Registry Registry_Props Nostr_Transfer Gallery Gallery_State Gallery_Props Licenses Licenses_Props Official_Check Forbidden_Apis Forbidden_Props Web_Page Web_Room Web_Addons Web_App Web_App_Props Web_Sessions_Props Web_Links_Props Addon_Sdk Addon_Bridge Addon_Bridge_Props Local_Vault Local_Vault_Props Small_Addons Whiteboard Avatar_Presence
begin

text \<open>
  A verification library for SENN, a browser-to-browser messenger with sandboxed add-ons and no server of
  its own: peers find each other through links or through signaling adapters, talk over WebRTC, and run
  signed add-ons in sandboxed frames. Paths below are relative to the repository's \<open>src\<close>.

  \<^bold>\<open>Reading the model.\<close> Functions that may throw return \<open>err + 'a\<close> (\<open>Senn_Prelude\<close>); an error keeps its class
  and its message without the values quoted in it. A JavaScript string is a list of 16-bit words, a number is
  an exact rational or one of \<open>NaN\<close>, \<open>PosInf\<close>, \<open>NegInf\<close>, an object its own properties in order
  (\<open>JS_Values\<close>); the text formats the code leans on are modelled, not assumed: UTF-8 (\<open>JS_Unicode\<close>),
  \<open>JSON.parse\<close> and \<open>JSON.stringify\<close> (\<open>JS_JSON\<close>, \<open>JS_JSON_Props\<close>), the anchored regular expressions (\<open>JS_Regex\<close>),
  \<open>URLSearchParams\<close> and the stream readers (\<open>Web_Platform\<close>). A class with asynchronous methods is a record and a
  step function: one event is what runs between two \<open>await\<close>s, its result the new state and the outputs in
  order, and \<open>None\<close> means that the event cannot happen now (\<open>Event_System\<close>: \<open>run_events\<close>, \<open>reach\<close>, and the locales
  for invariants of the state and of the outputs). What is not code of the repository is an argument: Web Crypto,
  the \<open>URL\<close> class, compression, \<open>Date\<close>, NIP-44 and event signing, \<open>fetch\<close>, IndexedDB; what theorems need of
  them is a named hypothesis (\<open>crypto_ok\<close>, \<open>url_api_ok\<close>, \<open>streams_inverse\<close>, \<open>nip44_ok\<close>, \<open>finalize_ok\<close>, \<open>idb_ok\<close>) with
  an instance in the samples.

  \<^bold>\<open>The parts and their theories.\<close>
  \<^item> \<open>packages/protocol\<close>: identifiers (\<open>Ids\<close>), the add-on envelope (\<open>Envelope\<close>), signaling messages and bundles
    (\<open>Bundle\<close>), invites and their links (\<open>Invite\<close>), the three copies of base64url (\<open>Base64url\<close>, one locale, three
    interpretations). Shown: exact schemas, round trips through text and links, order of ids by time.
  \<^item> \<open>packages/core/src/peer-session.ts\<close>: chunking and reassembly (\<open>Frames\<close>, \<open>Frames_Props\<close>) and the session with
    its negotiation, channels and close (\<open>Peer_Session\<close>, \<open>Peer_Session_Props\<close>). Shown: the reassembly budget holds in
    every reachable state, a binary message arrives once and whole unless the timer finds it incomplete after 60 s,
    glare has one winner, states follow the announcements, close releases everything.
  \<^item> \<open>packages/manifest\<close>: signatures and the key store (\<open>Manifest\<close>).
  \<^item> \<open>packages/storage\<close>: both backends against one map per add-on, as interpretations of one locale (\<open>Storage\<close>).
  \<^item> \<open>packages/addon-runtime\<close>: manifests and loading (\<open>Addon_Manifest\<close>), the host and its bridge (\<open>Addon_Host\<close>,
    \<open>Addon_Host_Props\<close>). Shown: an add-on gets nothing its manifest does not declare, a host's states only advance,
    stores are separate, close releases what was held.
  \<^item> signaling: the contract of the adapters' subscriptions is the locale \<open>subscription_table\<close>
    (\<open>Signaling_Transport\<close>), interpreted by HTTP polling (\<open>Http_Poll\<close>, \<open>Http_Poll_Props\<close>), URL fragments
    (\<open>Url_Fragment\<close>) and Nostr (\<open>Nostr\<close>, \<open>Nostr_Props\<close>). Beyond it: each item is delivered once, a polling loop makes
    progress, a publication settles once and honestly (\<open>Nostr_Publish\<close>), events are delivered once
    (\<open>Nostr_Deliver\<close>), an encrypting adapter never sends plain text (\<open>Nostr_V2\<close>, \<open>Nostr_Secrecy\<close>), and a message crosses
    from one adapter to another (\<open>Nostr_Transfer\<close>).
  \<^item> \<open>scripts/lib\<close>: the validators of a publisher's documents (\<open>Registry\<close>, \<open>Registry_Props\<close>), with the schema as a
    predicate, soundness and completeness against it, and the comparison with the host's own manifest check.
  \<^item> \<open>apps/addon-gallery/src/main.ts\<close>: loading a publisher's index, a meta index or a submissions index, checking each
    add-on's signature (\<open>Gallery\<close>), the page's state, its refreshes as events and its filters (\<open>Gallery_State\<close>). Shown
    (\<open>Gallery_Props\<close>): a verified badge means a signature by a trusted key, what the publisher's validators accept is
    shown, a refresh that is alone shows what loads, and what goes wrong when two overlap.
  \<^item> \<open>scripts\<close>: the licence gate with its SPDX expressions, overrides and the walk over the dependencies (\<open>Licenses\<close>,
    \<open>Licenses_Props\<close>), the release check of the bundled add-ons (\<open>Official_Check\<close>), and the scan for forbidden APIs with
    its walk over the add-on directories (\<open>Forbidden_Apis\<close>, \<open>Forbidden_Props\<close>; a directory is a tree, paths are relative
    to the repository's root). Shown: exit code 0 means that every package, add-on or file passed, and a reported hit is
    where it is said to be.
  \<^item> \<open>apps/web/src/main.ts\<close>: the messenger's page, with the URL-fragment adapter in its state and the add-on loader's
    result in its steps: what it keeps (\<open>Web_Page\<close>), rooms, links and retry (\<open>Web_Room\<close>), add-ons, hand-off, microphone
    and call (\<open>Web_Addons\<close>), the events (\<open>Web_App\<close>). Shown: it loads only what it carries, lists, or was confirmed
    under the keys on display (\<open>Web_App_Props\<close>), retries that do not overlap close every session
    (\<open>Web_Sessions_Props\<close>), and the links of two pages carry an invite and its answer across (\<open>Web_Links_Props\<close>).
  \<^item> \<open>packages/addon-sdk/runtime/senn-addon-sdk.js\<close>: the script inside an add-on's frame (\<open>Addon_Sdk\<close>) and the system it
    forms with the host, two windows that post to each other in order (\<open>Addon_Bridge\<close>, \<open>Addon_Bridge_Props\<close>). Shown: the
    calls of \<open>senn.storage\<close> are those of one private map, in the order they were made, each promise settles once with its
    own answer and none stays open; the host's subscription to the microphone's level follows the handlers.
  \<^item> \<open>apps/web/public/addons\<close>: the file vault (\<open>Local_Vault\<close>, \<open>Local_Vault_Props\<close>), the echo, voice call and voice meter pages
    (\<open>Small_Addons\<close>), the whiteboard (\<open>Whiteboard\<close>) and the presence page (\<open>Avatar_Presence\<close>). Shown: a file, a stroke and
    a state cross from one page to the other through SDK, host and session; what a vault keeps comes back; the presence
    page ends with its last state sent; the pages' buttons, counters and lists, and where they fail.

  \<^bold>\<open>Bounds.\<close> The JSON parser runs on fuel, the length of its text, and \<open>parse_value_fuel\<close> shows that more changes
  nothing. All other recursion is structural or has a measure. Loops that wait (polling, Nostr's relay loops) are
  events, so that they end or go on as the environment lets them.

  \<^bold>\<open>Not modelled.\<close> The drawing of lists in the page and in the gallery (DOM code), the page's end-to-end test hook, the
  samples behind an audio level (floating point; the level is an argument), a handler of the SDK that changes the handlers
  of its own event while they run, what a bundled add-on draws (a canvas's strokes and a row's elements are outputs), the
  other command-line tools and the self tests under \<open>scripts\<close>
  (file system, network and process exits around the validators), tests and examples. Functions as data, getters, and
  objects with a prototype other than the default do not occur among the values; doubles are exact (no modelled
  arithmetic leaves the integers below \<open>2^53\<close>, except the poll interval, which is only compared).
\<close>

subsection \<open>Sample values\<close>

definition peer_a :: jsstring where "peer_a = replicate 26 (ch CHR ''0'')"
definition peer_b :: jsstring where "peer_b = replicate 26 (ch CHR ''1'')"
definition room_1 :: jsstring where "room_1 = replicate 26 (ch CHR ''7'')"

definition sample_config :: ps_config where
  "sample_config = \<lparr>cf_session = new_session Inviter room_1 peer_a (Some peer_b), cf_tasks = []\<rparr>"

text \<open>A session from its start to its end: an offer, the answer, the channel's opening, the close.\<close>

definition sample_events :: "ps_event list" where
  "sample_events = [CallStart True, PcNegotiation, Resume 0 0 (DoneDesc (Some (js ''v=0''))), Resume 0 0 Done,
     Incoming SgHaveLocalOffer (Answer peer_b peer_a (js ''v=1'')), Resume 0 0 Done, ChOpen, CallClose]"

definition sample_effects :: "effect list" where
  "sample_effects = [EState SConnecting, FNewPeerConnection, FCreateChannel ''core.text'', FCreateChannel ''core.bin'',
     FSubscribe, FSetLocal, FPublish (Offer peer_a (js ''v=0'')), FSetRemote ''answer'' (js ''v=1''),
     EState SConnected, EState SClosed, FPublish (Bye peer_a)]"

definition sample_open :: session where
  "sample_open = (new_session Inviter room_1 peer_a (Some peer_b))
     \<lparr>ps_pc := True, ps_channel := True, ps_binChannel := True, ps_subscribed := True, ps_state := SConnected\<rparr>"

lemma peer_ids [simp]: "isPeerId (Str peer_a)" "isPeerId (Str peer_b)" "isRoomId (Str room_1)" "peer_a \<noteq> peer_b"
    "peer_b \<noteq> peer_a" "peer_b \<noteq> []"
  by (simp_all add: peer_a_def peer_b_def room_1_def ID_PATTERN_def in_cls_def ID_RANGES_def)

lemma sample_remote [simp]: "remote_of (new_session role room_1 me (Some peer_b)) = Some peer_b"
  by (simp add: remote_of_def new_session_def peer_b_def)

lemma sample_initial: "initial sample_config"
  by (auto simp: initial_def sample_config_def)

lemma sample_answer: "message_for s (Answer peer_b peer_a d)"
  if "ps_localPeerId s = peer_a" "remote_of s = Some peer_b"
  using that peer_ids by (simp add: message_for_def del: isPeerId.simps)

lemma sample_run: "ps_run sample_events sample_config =
   Some (\<lparr>cf_session = sample_open\<lparr>ps_state := SClosed\<rparr>, cf_tasks = [TCloseBye]\<rparr>, sample_effects)"
  by (simp add: sample_events_def sample_config_def sample_open_def sample_effects_def enabled_def ps_next_def
      run_event_def tasks_after_def new_session_def start_def setState_def bindDataChannel_def bindBinaryChannel_def
      runNegotiation_def resume_def negotiation_described_def negotiation_published_def handleSignalingMessage_def
      sample_answer remote_of_def learn_remote_def remote_refused_def channel_onopen_def close_session_def
      Let_def js_def)

lemma sample_reached: "reached sample_config sample_effects \<lparr>cf_session = sample_open\<lparr>ps_state := SClosed\<rparr>, cf_tasks = [TCloseBye]\<rparr>"
  using ps_run_reached [OF reached_start sample_run] by simp

definition sample_invite :: invite_payload where
  "sample_invite = \<lparr>inv_roomId = room_1, inv_from = peer_a, inv_protocolVersion = js ''0.1.0'',
     inv_capabilities = [js ''text-v1''], inv_note = None\<rparr>"

definition sample_bundle :: sig_bundle where
  "sample_bundle = \<lparr>bundle_roomId = room_1, bundle_messages = [Bye peer_a]\<rparr>"

lemma sample_invite_ok: "invite_ok sample_invite"
proof -
  have "rx_match SEMVER (js ''0.1.0'')"
    by (simp add: SEMVER_def rx_forms DIGITS_def SEMVER_TAIL_def LOWER_def in_cls_def js_def)
  moreover have "rx_match CAPABILITY_TAG (js ''text-v1'')"
    by (simp add: CAPABILITY_TAG_def LABEL_def rx_forms DIGITS_def LOWER_def in_cls_def js_def)
  ultimately show ?thesis
    by (simp add: invite_ok_def sample_invite_def del: isPeerId.simps isRoomId.simps)
qed

lemma sample_bundle_ok: "bundle_ok sample_bundle" "bundle_clean sample_bundle"
  by (simp_all add: bundle_ok_def bundle_clean_def sample_bundle_def msg_val_def del: isPeerId.simps isRoomId.simps)

lemma json_num_one: "json_num (Fin 1) = js ''1''"
  using json_num_of_int [of 1] by (simp add: radix_str.simps dig_def js_def ch_def)

lemma list_all_replicate [simp]: "list_all P (replicate n x) \<longleftrightarrow> n = 0 \<or> P x"
  by (simp add: list_all_iff set_replicate_conv_if)

lemmas sample_texts = json_quote_plain plain_unit_def room_1_def peer_a_def js_def json_num_one

lemma sample_invite_text:
  "\<exists>t. json_str (invite_val sample_invite) = Some t \<and> list_all (\<lambda>u. unat u < 128) t \<and> length t < 300"
  by (simp add: invite_val_def sample_invite_def sample_texts)

lemma sample_bundle_text:
  "\<exists>t. json_str (bundle_val sample_bundle) = Some t \<and> list_all (\<lambda>u. unat u < 128) t \<and> length t < 300"
  by (simp add: bundle_val_def sample_bundle_def msg_val_def sample_texts)

lemma sample_encoded:
  "\<exists>s. encodeInvite stored (invite_val sample_invite) = Inr s \<and> length s < 600"
  "\<exists>s. encodeSignalingBundle stored (bundle_val sample_bundle) = Inr s \<and> length s < 600"
proof -
  have v: "validateInvitePayload (invite_val sample_invite) = Inr sample_invite"
    using sample_invite_ok validate_invite_val by blast
  obtain t where t: "json_str (invite_val sample_invite) = Some t" "list_all (\<lambda>u. unat u < 128) t" "length t < 300"
    using sample_invite_text by blast
  have "encodeInvite stored (invite_val sample_invite) = Inr (b64_encode (utf8_encode t))"
    using v t(1) by (simp add: encodeInvite_def canonical_invite_val deflateRaw_def invite_runStream_def
        run_stream_concat stored_def invite_base64urlEncode_def concat_map_singleton)
  then show "\<exists>s. encodeInvite stored (invite_val sample_invite) = Inr s \<and> length s < 600"
    using length_encode_stored [of "utf8_encode t"] length_utf8_ascii [OF t(2)] t(3) by auto
  obtain u where u: "json_str (bundle_val sample_bundle) = Some u" "list_all (\<lambda>u. unat u < 128) u" "length u < 300"
    using sample_bundle_text by blast
  have "encodeSignalingBundle stored (bundle_val sample_bundle) = Inr (b64_encode (utf8_encode u))"
    using validate_bundle_val [OF sample_bundle_ok(1)] u(1) by (simp add: encodeSignalingBundle_def bundle_runStream_def
        run_stream_concat stored_def bundle_base64urlEncode_def concat_map_singleton)
  then show "\<exists>s. encodeSignalingBundle stored (bundle_val sample_bundle) = Inr s \<and> length s < 600"
    using length_encode_stored [of "utf8_encode u"] length_utf8_ascii [OF u(2)] u(3) by auto
qed

lemma sample_base: "\<exists>u. url_parse split_url (js ''https://senn.app/'') = Some u \<and> scheme_allowed split_url u
    \<and> fst u = js ''https://senn.app/''"
  by (simp add: split_url_def scheme_allowed_def js_def)

lemma sample_url_built:
  "is_ok (buildInviteBundleUrl split_url stored (js ''https://senn.app/'') (invite_val sample_invite) (bundle_val sample_bundle))"
proof -
  have v: "validateInvitePayload (invite_val sample_invite) = Inr sample_invite"
    using sample_invite_ok validate_invite_val by blast
  obtain u where u: "url_parse split_url (js ''https://senn.app/'') = Some u" "scheme_allowed split_url u" "fst u = js ''https://senn.app/''"
    using sample_base by blast
  obtain s where s: "encodeInvite stored (invite_val sample_invite) = Inr s" "length s < 600" using sample_encoded(1) by blast
  obtain t where t: "encodeSignalingBundle stored (bundle_val sample_bundle) = Inr t" "length t < 600" using sample_encoded(2) by blast
  have "length (takeWhile (\<lambda>c. c \<noteq> ch CHR ''#'') (fst u)) \<le> 17"
    using length_takeWhile_le [of "\<lambda>c. c \<noteq> ch CHR ''#''" "fst u"] u(3) by simp
  then have "length (url_toString split_url (url_set_hash split_url
      (param_text (js ''i'') s @ ch CHR ''&'' # param_text (js ''s'') t) u)) \<le> 2048"
    using s(2) t(2) by (cases u) (auto simp: split_url_def param_text_def)
  with v validate_bundle_val [OF sample_bundle_ok(1)] u s t show ?thesis
    by (intro built_of_parts) (auto simp: sample_invite_def sample_bundle_def)
qed

lemma sample_invite_url_parsed:
  assumes "set s \<subseteq> set B64_ALPHABET" "s \<noteq> []" "decodeInvite stored s = Inr p"
  shows "parseInviteBundleUrl split_url stored (js ''https://senn.app/#'' @ param_text (js ''i'') s) =
    Inr \<lparr>parsed_invite = p, parsed_bundle = None\<rparr>"
proof -
  have "js ''https://senn.app/#'' @ param_text (js ''i'') s = js ''https://senn.app/'' @ ch CHR ''#'' # param_text (js ''i'') s"
    by (simp add: js_def)
  moreover have "ch CHR ''#'' \<notin> set (js ''https://senn.app/'')" by (simp add: js_def)
  ultimately have u: "url_parse split_url (js ''https://senn.app/#'' @ param_text (js ''i'') s) =
      Some (js ''https://senn.app/'', ch CHR ''#'' # param_text (js ''i'') s)"
    by (simp add: split_url_def Let_def takeWhile_neq_stop)
  have h: "url_fragment split_url (js ''https://senn.app/'', ch CHR ''#'' # param_text (js ''i'') s) = param_text (js ''i'') s"
    by (rule url_fragment_hash) (simp add: split_url_def)
  have params: "search_params (param_text (js ''i'') s) = [(js ''i'', s)]"
    by (rule search_params_one) (use ascii_key_plain b64_all_plain assms(1) in auto)
  show ?thesis
    using assms(2,3) by (simp add: parseInviteBundleUrl_def u h params get_param_def Let_def)
qed

definition sample_envelope :: addon_envelope where
  "sample_envelope = \<lparr>env_id = js ''m1'', env_addon = js ''org.senn'', env_version = js ''1.0.0'', env_createdAt = 5, env_payload = Arr [Undef, Bool True]\<rparr>"

lemma sample_envelope_ok: "envelope_ok sample_envelope" "envelope_wire_ok sample_envelope"
proof -
  have "rx_match SEMVER (js ''1.0.0'')"
    by (simp add: SEMVER_def rx_forms DIGITS_def SEMVER_TAIL_def LOWER_def in_cls_def js_def)
  moreover have "rx_match ADDON_ID (js ''org.senn'')"
    by (simp add: ADDON_ID_def LABEL_def rx_forms DIGITS_def LOWER_def in_cls_def js_def)
  ultimately show "envelope_ok sample_envelope" "envelope_wire_ok sample_envelope"
    by (simp_all add: envelope_ok_def envelope_wire_ok_def sample_envelope_def)
qed

text \<open>A stand-in for Web Crypto whose keys are their raw bytes and whose only signature is 64 zeros.\<close>

definition sample_crypto :: "(bytes, bytes) web_crypto" where
  "sample_crypto = \<lparr>wc_exportRaw = Inr, wc_exportPkcs8 = Inr, wc_importRaw = Inr, wc_importPkcs8 = Inr,
     wc_sign = (\<lambda>_ _. Inr (replicate 64 0)), wc_verify = (\<lambda>_ s _. Inr (s = replicate 64 0))\<rparr>"

definition sample_dates :: date_api where
  "sample_dates = \<lparr>date_parse = (\<lambda>_. Fin 0), date_iso = (\<lambda>_. Inr (js ''1970-01-01T00:00:00.000Z''))\<rparr>"

definition sample_keys :: "(bytes, bytes) key_pair" where
  "sample_keys = \<lparr>kp_publicKey = replicate 32 1, kp_privateKey = replicate 32 2,
     kp_publicKeyBase64 = manifest_base64urlEncode (replicate 32 1)\<rparr>"

lemma sample_crypto_ok: "crypto_ok sample_crypto {(replicate 32 1, replicate 32 2)}"
  by (simp add: crypto_ok_def sample_crypto_def)

lemma sample_keys_made: "generateKeyPair (Some sample_crypto) (Inr (replicate 32 1, replicate 32 2)) = Inr sample_keys"
  by (simp add: generateKeyPair_def manifest_getCrypto_def sample_crypto_def ED25519_PUBLIC_KEY_BYTES_def sample_keys_def)

text \<open>A stand-in for IndexedDB: a list of entries.\<close>

definition sample_idb :: "(jsstring \<times> storage_record) list idb_api" where
  "sample_idb = \<lparr>idb_open = (\<lambda>_. OpenDone), idb_get = (\<lambda>k db. Inr (map_of db k)), idb_put = (\<lambda>r k db. Inr (al_set k r db)),
     idb_delete = (\<lambda>k db. Inr (al_del k db)),
     idb_cursor = (\<lambda>lo hi db. Inr (remdups (filter (\<lambda>k. lo \<le> k \<and> k \<le> hi) (map fst db))))\<rparr>"

lemma utf8_one: "length (utf8_encode (js ''1'')) = 1"
  by (subst length_utf8_ascii) (simp_all add: js_def)

lemma ch_less_last: "ch c < 0xFFFF"
proof -
  have "of_char c < (256 :: nat)" by (rule nat_of_char_less_256)
  then have "of_char c < (65535 :: nat)" by (rule less_trans) simp
  then have "unat (ch c) < unat (0xFFFF :: jschar)" unfolding unat_ch by simp
  then show ?thesis unfolding word_less_nat_alt .
qed

lemma sample_idb_ok: "idb_ok sample_idb map_of"
  by (auto simp: idb_ok_def sample_idb_def map_of_eq_None_iff dest: map_of_SomeD weak_map_of_SomeI)

definition sample_leftover :: "(jsstring \<times> storage_record) list idb_storage" where
  "sample_leftover = \<lparr>ib_closed = False, ib_dbPromise = Some (Inr ()),
      ib_db = [(namespaceKey (js ''a'') [0xFFFF, 1], \<lparr>rec_value = Null, rec_updatedAt = NaN\<rparr>)]\<rparr>"

lemma cursor_deletes_sample: "\<exists>db'. cursor_deletes sample_idb ks db = Inr db'"
  by (induction ks arbitrary: db) (simp_all add: sample_idb_def)

definition sample_manifest :: addon_manifest where
  "sample_manifest = \<lparr>am_id = js ''org.senn'', am_name = js ''Chat'', am_version = js ''1.0.0'', am_entry = js ''index.html'',
     am_license = js ''MIT'', am_permissions = [js ''peer.send'', js ''peer.receive'', js ''media.send.audio'', js ''storage.local.read''],
     am_capabilities = [Str (js ''text'')]\<rparr>"

lemma sample_manifest_ok: "manifest_ok sample_manifest"
  using sample_envelope_ok
  by (auto simp: manifest_ok_def sample_manifest_def envelope_ok_def sample_envelope_def KNOWN_PERMISSIONS_def)

definition sample_loaded :: "memory_storage host_config" where
  "sample_loaded = loaded sample_manifest (Some True) True \<lparr>mem_map = [], mem_closed = False\<rparr> (Some \<lparr>cap_audio = True, cap_video = False\<rparr>) None 0 0"

definition sample_host :: "jsstring \<Rightarrow> nat \<Rightarrow> memory_storage addon_host" where
  "sample_host sid n =
     \<lparr>ah_manifest = sample_manifest, ah_sessionId = sid, ah_link = Some True, ah_hasStorage = True, ah_store = \<lparr>mem_map = [], mem_closed = False\<rparr>,
      ah_iframe = True, ah_state = HMounted, ah_bound = True, ah_listening = True, ah_audioLevel = False,
      ah_capture = Some \<lparr>cap_audio = True, cap_video = False\<rparr>, ah_sink = None,
      ah_senders = [], ah_recvAudio = False, ah_recvVideo = False, ah_detachers = [], ah_tracks = [], ah_counter = n\<rparr>"

lemma sample_loaded_host: "\<exists>sid n. hc_host sample_loaded = sample_host sid n"
  using loaded_host [of sample_manifest "Some True" True "\<lparr>mem_map = [], mem_closed = False\<rparr>"
      "Some \<lparr>cap_audio = True, cap_video = False\<rparr>" None 0 0]
  unfolding sample_loaded_def sample_host_def by simp

definition bridge :: "string \<Rightarrow> jsval" where
  "bridge op = Obj [(js ''kind'', Str (js ''senn.addon.v1'')), (js ''op'', Str (js op))]"

lemma bridge_sample_fields: "bridge_fields (bridge op) = Some [(js ''kind'', Str (js ''senn.addon.v1'')), (js ''op'', Str (js op))]"
  by (simp add: bridge_fields_def bridge_def)

lemmas host_eval = host_step_def host_enabled_def host_run_def handleWindowMessage_def bridge_sample_fields Let_def on_ready_def
  ensureInitPosted_def host_setState_simps postToIframe_def host_tasks_after_def init_message_def

text \<open>A run that makes the add-on ready.\<close>

lemma sample_host_run:
  "\<exists>c b. run_events (host_step memory_backend) [WindowMessage 0 True (bridge ''ready'')] sample_loaded =
     Some (c, [OState HInitialized, OPost (BInit (js ''org.senn'') (js ''1.0.0'') b), OState HActive])"
proof -
  obtain sid n where h: "hc_host sample_loaded = sample_host sid n" using sample_loaded_host by blast
  show ?thesis by (simp add: host_eval h sample_host_def sample_manifest_def)
qed

lemma sample_host_reach:
  "\<exists>c b. reach (host_step memory_backend) sample_loaded
     [OState HInitialized, OPost (BInit (js ''org.senn'') (js ''1.0.0'') b), OState HActive] c"
  using sample_host_run run_events_reach [OF reach_start] by (metis append_Nil)

definition sample_active :: "memory_storage host_config" where
  "sample_active = \<lparr>hc_host = (hc_host sample_loaded)\<lparr>ah_state := HActive\<rparr>, hc_tasks = [TCapture MAudio, TCapture MAudio]\<rparr>"






definition sample_cipher :: nip44 where
  "sample_cipher = \<lparr>nip_encrypt = (\<lambda>s key nonce. Inr s), nip_decrypt = (\<lambda>v key. Inr (str_of v)),
     nip_hkdf = (\<lambda>salt info ikm bits. if 8 dvd bits then Inr (replicate (bits div 8) 0) else Inl (Thrown ''OperationError'' []))\<rparr>"

definition sample_nostr :: nostr_env where
  "sample_nostr = \<lparr>ne_cipher = sample_cipher, ne_finalize = (\<lambda>t rnd. (js ''id'', Str (js ''e1'')) # t), ne_url_ok = (\<lambda>_. True)\<rparr>"

abbreviation hp_ops :: "sub_op list \<Rightarrow> http_poll \<Rightarrow> http_poll" where
  "hp_ops \<equiv> table_ops (\<lambda>r h st. map_option fst (hp_subscribe r h st)) (\<lambda>r h st. fst (hp_unsubscribe r h st)) (\<lambda>st. fst (hp_close st))"

abbreviation uf_ops :: "sub_op list \<Rightarrow> url_fragment_adapter \<Rightarrow> url_fragment_adapter" where
  "uf_ops \<equiv> table_ops uf_subscribe uf_unsubscribe uf_close"

abbreviation ns_ops :: "nostr_env \<Rightarrow> sub_op list \<Rightarrow> nostr \<Rightarrow> nostr" where
  "ns_ops E \<equiv> table_ops (\<lambda>r h st. map_option fst (ns_subscribe E r h st)) (\<lambda>r h st. fst (ns_unsubscribe r h st)) (\<lambda>st. fst (ns_close st))"

lemma uf_listeners_new: "uf_listeners new_url_fragment = (\<lambda>_. [])"
  by (simp add: fun_eq_iff uf_listeners_def new_url_fragment_def)

text \<open>What is left of a text without the slashes at its end.\<close>

lemma stripped_rest: "\<exists>n. s = strip_slashes s @ replicate n (ch CHR ''/'')"
proof -
  let ?slash = "\<lambda>c. c = ch CHR ''/''"
  have "list_all ?slash (takeWhile ?slash (rev s))" by (auto simp: list_all_iff dest: set_takeWhileD)
  then have "takeWhile ?slash (rev s) = replicate (length (takeWhile ?slash (rev s))) (ch CHR ''/'')"
    by (intro nth_equalityI) (simp_all add: list_all_length)
  then have "rev (takeWhile ?slash (rev s)) = replicate (length (takeWhile ?slash (rev s))) (ch CHR ''/'')" by (metis rev_replicate)
  moreover have "s = rev (dropWhile ?slash (rev s)) @ rev (takeWhile ?slash (rev s))"
    by (metis rev_append rev_rev_ident takeWhile_dropWhile_id)
  ultimately show ?thesis unfolding strip_slashes_def by metis
qed

lemma stripped_end: "\<nexists>p. strip_slashes s = p @ [ch CHR ''/'']"
proof
  assume "\<exists>p. strip_slashes s = p @ [ch CHR ''/'']"
  then obtain p where "rev (dropWhile (\<lambda>c. c = ch CHR ''/'') (rev s)) = p @ [ch CHR ''/'']" by (auto simp: strip_slashes_def)
  then have "rev (rev (dropWhile (\<lambda>c. c = ch CHR ''/'') (rev s))) = rev (p @ [ch CHR ''/''])" by (rule arg_cong)
  then have "dropWhile (\<lambda>c. c = ch CHR ''/'') (rev s) = ch CHR ''/'' # rev p" by simp
  then show False by (simp add: dropWhile_eq_Cons_conv)
qed

abbreviation relay_1 :: jsstring where "relay_1 \<equiv> js ''wss://r''"

definition sample_nostr_start :: nostr where
  "sample_nostr_start = \<lparr>ns_relays = [relay_1], ns_sockets = [], ns_rooms = [], ns_closed = False, ns_subCounter = 0,
     ns_pendingAcks = [], ns_v2 = False, ns_init = None, ns_katError = None, ns_roomKeys = [],
     ns_ws = [], ns_states = [], ns_pubs = [], ns_reqs = [], ns_decodes = []\<rparr>"

lemma sample_nostr_made: "new_nostr [relay_1] True False = Inr sample_nostr_start"
  by (simp add: new_nostr_def sample_nostr_start_def)

definition sample_ok_frame :: jsstring where
  "sample_ok_frame = json_text (Arr [Str (js ''OK''), Str (js ''e1''), Bool True])"

lemma sample_ok_parsed: "json_parse sample_ok_frame = Some (Arr [Str (js ''OK''), Str (js ''e1''), Bool True])"
  unfolding sample_ok_frame_def by (rule json_parse_text) simp

definition sample_nostr_events :: "ns_event list" where
  "sample_nostr_events = [NsPublish room_1 (Bye peer_a), NsResumePub 0 0 [] [], NsOpened 0, NsResumePub 0 0 [] [], NsResumePub 0 0 [] [],
     NsMessage 0 sample_ok_frame]"

lemma sample_nostr_run:
  "\<exists>st os. run_events (ns_step sample_nostr) sample_nostr_events sample_nostr_start = Some (st, os) \<and> settled_pubs os = [(0, None)]"
  using sample_ok_parsed
  by (simp add: sample_nostr_events_def sample_nostr_start_def ns_publish_def resume_pub_def Let_def pub_event_def pub_next_def
      ensureSocket_def make_socket_def resend_reqs_def pub_socket_def pub_send_def send_throws_def
      ws_send_def ws_opened_def upd_ws_def pub_loop_end_def tryReject_def pub_report_def upd_pub_def onRelayMessage_def item_at_def
      pub_finish_def pub_settle_def sample_nostr_def event_template_def fld_append cancelAckTimeout_def)

lemma sample_nostr_waits:
  "\<exists>st os. run_events (ns_step sample_nostr) (take 5 sample_nostr_events) sample_nostr_start = Some (st, os)
    \<and> 0 < length (ns_pubs st) \<and> pb_phase (ns_pubs st ! 0) = PubAck"
  by (simp add: sample_nostr_events_def sample_nostr_start_def ns_publish_def resume_pub_def Let_def pub_event_def pub_next_def
      ensureSocket_def make_socket_def resend_reqs_def pub_socket_def pub_send_def send_throws_def
      ws_send_def ws_opened_def upd_ws_def pub_loop_end_def tryReject_def pub_report_def upd_pub_def
      sample_nostr_def event_template_def fld_append)

definition sample_v2 :: nostr where
  "sample_v2 = sample_nostr_start\<lparr>ns_v2 := True, ns_init := Some (Inr ()), ns_roomKeys := [(room_1, Some (Inr (replicate 32 0)))],
     ns_sockets := [(relay_1, 0)], ns_ws := [\<lparr>ws_url = relay_1, ws_ready = Open, ws_fired = True, ws_gone = False\<rparr>],
     ns_rooms := [(room_1, 0)], ns_states := [\<lparr>nr_handlers = [7], nr_subId = js ''s'', nr_delivered = []\<rparr>]\<rparr>"

lemma sample_v2_ok:
  "v2_ready sample_v2 room_1 (replicate 32 0)" "ns_wf sample_v2" "sub_of sample_v2 room_1 0 (js ''s'')" "finalize_ok sample_nostr"
  "nip44_ok (ne_cipher sample_nostr)"
  by (simp_all add: v2_ready_def sample_v2_def sample_nostr_start_def ns_wf_def rooms_ok_def ns_hs_def sub_of_def finalize_ok_def
      sample_nostr_def fld_append nip44_ok_def sample_cipher_def event_template_def)

lemma sample_bye_text: "\<exists>t. json_str (msg_val (Bye peer_a)) = Some t \<and> nip44_text (V2_SENTINEL @ t)"
proof -
  obtain t where t: "json_str (msg_val (Bye peer_a)) = Some t \<and> list_all (\<lambda>u. unat u < 128) t \<and> length t < 300"
    using that by (simp add: msg_val_def sample_texts)
  have "length (utf8_encode (V2_SENTINEL @ t)) \<le> 65535"
    using t by (subst length_utf8_ascii) (auto simp: V2_SENTINEL_def js_def)
  moreover have "well_formed (V2_SENTINEL @ t)"
    using t by (intro ascii_well_formed) (auto simp: V2_SENTINEL_def js_def list_all_iff)
  ultimately show ?thesis
    using t by (auto simp: nip44_text_def V2_SENTINEL_def)
qed

definition sample_registry_addon :: registry_addon where
  "sample_registry_addon = \<lparr>ra_id = js ''org.senn.chat'', ra_name = js ''Chat'', ra_version = js ''2.0.0'', ra_description = [],
     ra_path = js ''addons/chat'', ra_capabilities = [js ''text''], ra_categories = Some [js ''communication''],
     ra_tags = Some [js ''chat''],
     ra_deprecated = Some \<lparr>dp_since = js ''2026-01-01'', dp_reason = js ''merged'', dp_supersededBy = Some (js ''org.senn.chat'')\<rparr>,
     ra_history = Some [\<lparr>ve_version = js ''1.0.0'', ve_path = js ''addons/chat/1'', ve_signedAt = js ''2025-01-01'',
       ve_publicKey = replicate 43 (ch CHR ''A''), ve_changelog = None, ve_yanked = Some \<lparr>yk_at = js ''2026-01-01'', yk_reason = js ''bug''\<rparr>\<rparr>],
     ra_audit = Some \<lparr>au_auditor = js ''SENN'', au_auditedAt = js ''2026-01-01'', au_auditedVersion = js ''1.0.0'',
       au_findings = \<lparr>fi_summary = js ''clean'', fi_severityCounts = Some [(js ''high'', Fin 0)]\<rparr>, au_url = None\<rparr>\<rparr>"

definition sample_registry :: registry where
  "sample_registry = \<lparr>rg_v = 3, rg_publisher_name = js ''SENN'', rg_publisher_homepage = None,
     rg_trustedKeys = [replicate 43 (ch CHR ''A'')], rg_addons = [sample_registry_addon]\<rparr>"

lemma Upto_numeral: "Upto (numeral n) r = Opt (Seq r (Upto (pred_numeral n) r))"
  by (simp add: numeral_eq_Suc)

lemma sample_versions:
  "rx_match SEMVER (js ''1.0.0'')" "rx_match SEMVER (js ''2.0.0'')" "rx_match ADDON_ID (js ''org.senn.chat'')"
  "rx_match TAG_PATTERN (js ''chat'')" "rx_match ED25519_PUBKEY_PATTERN (replicate 43 (ch CHR ''A''))"
  by (simp_all add: SEMVER_def ADDON_ID_def TAG_PATTERN_def ED25519_PUBKEY_PATTERN_def LABEL_def rx_forms DIGITS_def
      SEMVER_TAIL_def LOWER_def in_cls_def js_def Upto_numeral)

lemma sample_registry_ok: "registry_ok split_url sample_dates sample_registry"
  using sample_versions
  by (auto simp: registry_ok_def sample_registry_def sample_registry_addon_def addon_ok_def dangling_def deprecation_ok_def
      version_ok_def yank_ok_def audit_ok_def findings_ok_def count_ok_def iso_def text_in_def sample_dates_def
      KNOWN_CATEGORIES_def SEVERITY_KEYS_def intro: exI [of _ 0])

definition sample_submission_val :: jsval where
  "sample_submission_val = Obj [(js ''id'', Str (js ''s1'')), (js ''addonId'', Str (js ''org.senn.chat'')), (js ''version'', Str (js ''1.0.0'')),
     (js ''manifestUrl'', Str (js ''https://a.org/m'')), (js ''signatureUrl'', Str (js ''https://a.org/s'')),
     (js ''publicKey'', Str (replicate 43 (ch CHR ''A''))), (js ''submittedAt'', Str (js ''2026-01-01'')), (js ''contact'', Str (js ''me'')),
     (js ''status'', Str (js ''accepted'')), (js ''statusUpdatedAt'', Str (js ''2026-01-02'')), (js ''statusReason'', Str (js ''fine''))]"

definition sample_submission :: submission where
  "sample_submission = \<lparr>sb_id = js ''s1'', sb_addonId = js ''org.senn.chat'', sb_version = js ''1.0.0'', sb_manifestUrl = js ''https://a.org/m'',
     sb_signatureUrl = js ''https://a.org/s'', sb_publicKey = replicate 43 (ch CHR ''A''), sb_submittedAt = js ''2026-01-01'',
     sb_contact = js ''me'', sb_status = js ''accepted'', sb_statusUpdatedAt = js ''2026-01-02'', sb_statusReason = Some (js ''fine''),
     sb_notes = None\<rparr>"

lemma sample_submission_accepted: "validate_submission split_url sample_dates [] sample_submission_val = Inr sample_submission"
proof -
  have "\<not> no_url split_url (Str (js ''https://a.org/m''))" "\<not> no_url split_url (Str (js ''https://a.org/s''))"
    by (simp_all add: no_url_def split_url_def js_def)
  then show ?thesis
    using sample_versions
    by (simp add: validate_submission_def sample_submission_val_def sample_submission_def any_object_def REGISTRY_ID_PATTERN_def
        REGISTRY_SEMVER_PATTERN_def SUBMISSION_STATUSES_def sample_dates_def)
qed

definition sample_publisher :: publisher_entry where
  "sample_publisher = \<lparr>pe_url = js ''https://a.org'', pe_name = None, pe_featured = Some True, pe_endorsedBy = None, pe_endorsementUrl = None\<rparr>"

lemma sample_lists_accepted:
  "validateMetaIndex split_url (Obj [(js ''v'', jint 1), (js ''kind'', Str (js ''senn-publisher-meta'')),
      (js ''publishers'', Arr [Obj [(js ''url'', Str (js ''https://a.org'')), (js ''featured'', Bool True)]])]) = Inr [sample_publisher]"
  "validateSubmissions split_url sample_dates (Obj [(js ''v'', jint 1), (js ''kind'', Str (js ''senn-publisher-submissions'')),
      (js ''submissions'', Arr [sample_submission_val])]) = Inr [sample_submission]"
proof -
  have "\<exists>u. url_parse split_url (js ''https://a.org'') = Some u \<and> url_protocol split_url u = js ''https:''"
    by (simp add: split_url_def js_def)
  then show "validateMetaIndex split_url (Obj [(js ''v'', jint 1), (js ''kind'', Str (js ''senn-publisher-meta'')),
      (js ''publishers'', Arr [Obj [(js ''url'', Str (js ''https://a.org'')), (js ''featured'', Bool True)]])]) = Inr [sample_publisher]"
    by (auto simp: validateMetaIndex_def validate_publisher_def publisher_url_def any_object_def opt_str_def sample_publisher_def)
qed (simp add: validateSubmissions_def any_object_def sample_submission_accepted)

text \<open>A gallery page: every address is itself, one registry with one add-on, signed by the sample key.\<close>

definition sample_page :: "jsstring page_url_api" where
  "sample_page = \<lparr>url_parse = Some, url_protocol = (\<lambda>_. js ''https:''), url_hostname = (\<lambda>u. u), url_hash = (\<lambda>_. []),
     url_set_hash = (\<lambda>_ u. u), url_toString = (\<lambda>u. u), url_base = (\<lambda>t b. Some t), url_pathname = (\<lambda>_. []),
     url_origin = (\<lambda>u. u), url_set_param = (\<lambda>k v u. u)\<rparr>"

definition sample_signature :: manifest_signature where
  "sample_signature = \<lparr>sg_publicKey = manifest_base64urlEncode (replicate 32 1),
     sg_signature = manifest_base64urlEncode (replicate 64 0), sg_signedAt = js ''now''\<rparr>"

definition sample_addon_val :: jsval where
  "sample_addon_val = Obj (map (\<lambda>k. (js k, Str (js k))) [''id'', ''name'', ''version'', ''description'', ''path'']
     @ [(js ''capabilities'', Arr [])])"

definition sample_listing :: jsval where
  "sample_listing = Obj [(js ''v'', jint 1), (js ''publisher'', Obj [(js ''name'', Str (js ''P''))]),
     (js ''trustedKeys'', Arr [Str (sg_publicKey sample_signature)]), (js ''addons'', Arr [sample_addon_val])]"

definition json_response :: "jsval \<Rightarrow> response" where
  "json_response v = \<lparr>rs_status = 200, rs_body = Inr (utf8_encode (the (json_str v)))\<rparr>"

definition sample_gallery_env :: gallery_env where
  "sample_gallery_env = \<lparr>ge_fetch = (\<lambda>u. Inr (json_response
       (if u = js ''reg'' then sample_listing else if u = js ''manifest.sig.json'' then signature_val sample_signature
        else Obj []))), ge_manifest_first = (\<lambda>_. True)\<rparr>"

lemma rs_json_response: "json_clean v \<Longrightarrow> rs_ok (json_response v) \<and> rs_json (json_response v) = Inr v"
  using json_utf8_roundtrip [OF json_clean_data] json_clean_str [of v]
  by (auto simp: rs_ok_def rs_json_def json_response_def json_clean_norm_id)

lemma sample_loads:
  "\<exists>l row. loadFromUrl sample_page (Some sample_crypto) sample_dates sample_gallery_env (js ''reg'') = Inr l
     \<and> lr_addons l = [row] \<and> rw_verify row = \<lparr>vr_ok = True, vr_reason = None\<rparr> \<and> rw_registryUrl row = js ''reg''"
proof -
  have listing: "json_clean sample_listing" "json_clean (signature_val sample_signature)"
    by (simp_all add: sample_listing_def sample_addon_val_def signature_val_def)
  have fetched: "fetchJson sample_gallery_env (js ''reg'') = Inr sample_listing"
    "fetchJson sample_gallery_env (js ''manifest.sig.json'') = Inr (signature_val sample_signature)"
    using listing rs_json_response by (auto simp: fetchJson_def sample_gallery_env_def)
  have sig: "validateSignaturePayload sample_dates (signature_val sample_signature) = Inr sample_signature"
    by (simp add: validate_signature_val signature_ok_def sample_signature_def manifest_codec.dec_enc sample_dates_def)
  have ver: "verifyManifest (Some sample_crypto) b sample_signature (Some [sg_publicKey sample_signature])
      = Inr \<lparr>vr_ok = True, vr_reason = None\<rparr>" for b
    by (simp add: verifyManifest_def importPublicKey_def manifest_getCrypto_def sample_crypto_def ED25519_PUBLIC_KEY_BYTES_def
        sample_signature_def manifest_codec.dec_enc)
  have b: "\<exists>b. fetchBytes sample_gallery_env (js ''/addons/'' @ x) = Inr b" for x
    by (simp add: fetchBytes_def sample_gallery_env_def json_response_def rs_ok_def js_Cons)
  let ?m = "js ''/addons/'' @ basenameOfPath (js ''path'') @ js ''/manifest.json''"
  have "manifestUrlFor sample_page (js ''reg'') (js ''path'') = Inr ?m" "sigUrlFor sample_page ?m = Inr (js ''manifest.sig.json'')"
    by (simp_all add: manifestUrlFor_def sigUrlFor_def sample_page_def new_URL_def registry_prefix_def)
  moreover obtain bytes where "fetchBytes sample_gallery_env ?m = Inr bytes" using b by blast
  then have "fetch_both sample_gallery_env ?m (js ''manifest.sig.json'') = Inr (bytes, signature_val sample_signature)"
    by (simp add: fetch_both_def fetched(2))
  ultimately have "\<exists>row. load_row sample_page (Some sample_crypto) sample_dates sample_gallery_env no_options (js ''reg'')
      (own_fields sample_listing) sample_addon_val = Inr row \<and> rw_verify row = \<lparr>vr_ok = True, vr_reason = None\<rparr>
      \<and> rw_registryUrl row = js ''reg''"
    using sig ver by (simp add: load_row_def sample_addon_val_def sample_listing_def trusted_keys_def Let_def)
  moreover have "isRegistry sample_listing" "\<not> isMetaIndex sample_listing" "\<not> isSubmissionsIndex sample_listing"
    by (simp_all add: isRegistry_def isMetaIndex_def isSubmissionsIndex_def sample_listing_def sample_addon_val_def isStringArray_def Let_def)
  ultimately show ?thesis
    by (auto simp: loadFromUrl_def fetched load_registry_def Let_def) (auto simp: sample_listing_def)
qed

definition sample_gallery :: gallery where
  "sample_gallery = fst (gallery_start (js ''reg'') (Inr None) None)"

lemma sample_gallery_facts: "gl_runs sample_gallery = [(0, \<lparr>rr_previousCache = False, rr_array = 0, rr_next = 0\<rparr>)]"
    "gl_arrays sample_gallery = [[js ''reg'']]" "gl_rows sample_gallery = []" "gl_registries sample_gallery = 0"
  by (simp_all add: sample_gallery_def gallery_start_def gallery_init_def refreshAll_def readRegistries_def listable_def
      registries_def cleared_def)

definition sample_meta_val :: jsval where
  "sample_meta_val = Obj [(js ''v'', jint 1), (js ''kind'', Str (js ''senn-publisher-meta'')),
     (js ''publishers'', Arr [Obj [(js ''url'', Str (js ''a''))], Obj [(js ''url'', Str (js ''b'')), (js ''featured'', Bool True)]])]"

text \<open>One package, licensed under a choice that holds an allowed licence.\<close>

definition sample_package_json :: jsval where
  "sample_package_json = Obj [(js ''license'', Str (js ''(GPL-3.0 OR MIT)''))]"

definition sample_license_env :: license_env where
  "sample_license_env = \<lparr>li_overrides = None,
     li_list = Inr [[(js ''a'', DepNode (Some (js ''1.0.0'')) (Some (js ''a'')) [])]], li_exists = (\<lambda>_. True),
     li_packageJson = (\<lambda>_. Inr (utf8_encode (the (json_str sample_package_json)))), li_today = js ''2026-01-01''\<rparr>"

lemma sample_choice: "evaluateExpression (js ''(GPL-3.0 OR MIT)'') = None"
proof -
  let ?e = "Parens (AnyOf [js ''GPL-3.0'', js ''MIT''])"
  have "spdx_text ?e = js ''(GPL-3.0 OR MIT)''" by (simp add: js_Cons)
  moreover have "spdx_ok ?e"
    by (simp add: plain_license_def bare_identifier_def has_word_def js_Cons word_here_def startsWith_def in_cls_def)
  moreover have "permitted ?e" by (simp add: Licenses.allowed_def ALLOWED_def)
  ultimately show ?thesis using evaluates_as_meant [of ?e] by simp
qed

lemma sample_license_exit: "license_exit_code sample_license_env = 0"
proof -
  have clean: "json_clean sample_package_json" by (simp add: sample_package_json_def)
  then obtain t where t: "json_str sample_package_json = Some t" using json_clean_str by blast
  have "well_formed t" using json_clean_well_formed(1) [OF clean t] .
  then have "readPackageJson sample_license_env d = Inr sample_package_json" for d
    using json_parse_str [OF clean t] by (simp add: readPackageJson_def sample_license_env_def t utf8_decode_nobom_encode)
  then have "check_package sample_license_env None d = Inr None" for d
    using sample_choice by (simp add: check_package_def extractLicenseString_def sample_package_json_def)
      (simp add: sample_license_env_def)
  moreover have "li_list sample_license_env = Inr [[(js ''a'', DepNode (Some (js ''1.0.0'')) (Some (js ''a'')) [])]]"
    "li_overrides sample_license_env = None" by (simp_all add: sample_license_env_def)
  ultimately show ?thesis
    by (simp add: license_exit_code_def check_licenses_def loadOverrides_def check_packages_def collectProdDeps_def note_dep_def
        override_map_def split: list.split)
qed

text \<open>A release: the official registry with one add-on, signed by the sample key.\<close>

definition sample_release :: registry where
  "sample_release = \<lparr>rg_v = 1, rg_publisher_name = js ''SENN'', rg_publisher_homepage = None,
     rg_trustedKeys = [sg_publicKey sample_signature], rg_addons = [\<lparr>ra_id = js ''org.senn.chat'', ra_name = js ''Chat'',
       ra_version = js ''1.0.0'', ra_description = [], ra_path = js ''addons/chat'', ra_capabilities = [], ra_categories = None,
       ra_tags = None, ra_deprecated = None, ra_history = None, ra_audit = None\<rparr>]\<rparr>"

definition sample_release_manifest :: jsval where
  "sample_release_manifest = Obj [(js ''id'', Str (js ''org.senn.chat'')), (js ''version'', Str (js ''1.0.0''))]"

definition sample_release_env :: official_env where
  "sample_release_env = \<lparr>oe_exists = (\<lambda>p. p \<noteq> js ''addons/official/meta.json''),
     oe_read = (\<lambda>p. Inr (utf8_encode (the (json_str (if p = js ''addons/official/index.json'' then registry_val sample_release
       else if p = js ''manifest.sig.json'' then signature_val sample_signature else sample_release_manifest))))),
     oe_resolve = (\<lambda>a b. b), oe_cwd = [], oe_root = []\<rparr>"

lemma read_json_clean:
  assumes "json_clean v"
  shows "json_parse (utf8_decode_nobom (utf8_encode (the (json_str v)))) = Some v"
proof -
  from assms obtain t where t: "json_str v = Some t" using json_clean_str by blast
  with json_clean_well_formed(1) [OF assms t] json_parse_str [OF assms t] show ?thesis by (simp add: utf8_decode_nobom_encode)
qed

lemma sample_release_exit: "official_exit_code sample_release_env split_url (Some sample_crypto) sample_dates [] = 0"
proof -
  have clean: "json_clean (registry_val sample_release)" "json_clean (signature_val sample_signature)" "json_clean sample_release_manifest"
    by (simp_all add: registry_val_def addon_val_def sample_release_def strings_val_def signature_val_def optf_def sample_release_manifest_def)
  have files: "read_json sample_release_env (js ''addons/official/index.json'') = Inr (registry_val sample_release)"
    "read_json sample_release_env (js ''manifest.sig.json'') = Inr (signature_val sample_signature)"
    "\<exists>b. oe_read sample_release_env (js ''manifest.json'') = Inr b \<and> json_parse (utf8_decode b) = Some sample_release_manifest"
    using read_json_clean [OF clean(1)] read_json_clean [OF clean(2)] json_utf8_roundtrip [OF json_clean_data [OF clean(3)]]
      json_clean_str [OF clean(3)] by (auto simp: read_json_def sample_release_env_def json_clean_norm_id clean(3))
  have "registry_ok split_url sample_dates sample_release"
    using sample_versions by (simp add: registry_ok_def sample_release_def addon_ok_def dangling_def)
  then have reg: "validateRegistry split_url sample_dates (registry_val sample_release) = Inr sample_release" by (rule registry_complete)
  have sig: "validateSignaturePayload sample_dates (signature_val sample_signature) = Inr sample_signature"
    by (simp add: validate_signature_val signature_ok_def sample_signature_def manifest_codec.dec_enc sample_dates_def)
  have ver: "verifyManifest (Some sample_crypto) b sample_signature (Some [sg_publicKey sample_signature])
      = Inr \<lparr>vr_ok = True, vr_reason = None\<rparr>" for b
    by (simp add: verifyManifest_def importPublicKey_def manifest_getCrypto_def sample_crypto_def ED25519_PUBLIC_KEY_BYTES_def
        sample_signature_def manifest_codec.dec_enc)
  have ex: "oe_exists sample_release_env p \<longleftrightarrow> p \<noteq> js ''addons/official/meta.json''" "oe_resolve sample_release_env a p = p" for a p
    by (simp_all add: sample_release_env_def)
  from files(3) obtain b where b: "oe_read sample_release_env (js ''manifest.json'') = Inr b"
    "json_parse (utf8_decode b) = Some sample_release_manifest" by blast
  define a where "a = hd (rg_addons sample_release)"
  have one: "rg_addons sample_release = [a]" by (simp add: a_def sample_release_def)
  obtain res where "verifyAddon sample_release_env (Some sample_crypto) sample_dates (rg_trustedKeys sample_release) a = Inr res" "ar_ok res"
    using b files(2) sig ver
    by (auto simp: a_def verifyAddon_def manifest_path_def signature_path_def ex sample_release_def cross_check_def sample_release_manifest_def)
  then have "throwing_map (verifyAddon sample_release_env (Some sample_crypto) sample_dates (rg_trustedKeys sample_release))
      (rg_addons sample_release) = Inr [res]" "ar_ok res" by (simp_all add: one)
  then show ?thesis
    using files(1) reg by (simp add: official_exit_code_def parseArgs_def default_args_def official_results_def official_meta_def ex)
qed

text \<open>One add-on with one script.\<close>

abbreviation sample_addon_files :: "(jsstring \<times> fs_node) list" where
  "sample_addon_files \<equiv> [(js ''manifest.json'', FFile []), (js ''main.js'', FFile (utf8_encode (js ''go()'')))]"

definition sample_tree :: "jsstring \<Rightarrow> fs_node option" where
  "sample_tree r = (if r = js ''examples'' then Some (FDir (Some [(js ''chat'', FDir (Some sample_addon_files))])) else None)"

lemma sample_scan: "forbidden_exit_code sample_tree = 0"
proof -
  have clean: "scanContents p (js ''go()'') = []" for p
    by (simp add: scanContents_def RULES_def js_Cons free_before_def word_char_def in_cls_def atom_len_def startsWith_def)
  have "listFilesRecursive p sample_addon_files = Inr [(path_join p (js ''main.js''), utf8_encode (js ''go()''))]" for p
    by (simp add: skipped_name_def scanned_name_def extension_def FILE_EXTS_def js_Cons startsWith_def)
  then have "scan_addon (p, sample_addon_files) = Inr []" for p
    using clean by (simp add: scan_addon_def utf8_decode_nobom_encode)
  moreover have "addon_roots p [(js ''chat'', FDir (Some sample_addon_files))] = [(path_join p (js ''chat''), sample_addon_files)]" for p
    by (simp add: skipped_name_def startsWith_def js_Cons)
  ultimately show ?thesis
    by (simp add: forbidden_exit_code_def forbidden_hits_def SCAN_ROOTS_def findAddonRoots_def sample_tree_def
        del: addon_roots.simps)
qed

definition sample_web :: "((jsstring \<times> jsstring), unit, unit) web_env" where
  "sample_web = \<lparr>we_api = split_url, we_param = (\<lambda>k u. Some (js (if k = ''addon'' then ''https://a/manifest.json'' else ''https://p/index.json''))),
     we_deflate = stored, we_inflate = stored, we_crypto = None,
     we_dates = sample_dates, we_me = peer_a, we_base = js ''https://senn.app/'',
     we_random = (\<lambda>_. Some (replicate 16 0)), we_qr = (\<lambda>level t. Some t)\<rparr>"

definition sample_offer :: jsval where
  "sample_offer = Obj [(js ''v'', jint 1), (js ''publisher'', Obj [(js ''name'', Str (js ''P''))]),
     (js ''trustedKeys'', Arr [Str (js ''k'')])]"

lemma sample_offer_parsed: "json_parse (utf8_decode (utf8_encode (the (json_str sample_offer)))) = Some sample_offer"
proof -
  have "json_clean sample_offer" by (simp add: sample_offer_def)
  moreover from this obtain t where "json_str sample_offer = Some t" using json_clean_str by blast
  ultimately show ?thesis using json_utf8_roundtrip [OF json_clean_data] by (simp add: json_clean_norm_id)
qed

definition sample_offer_response :: response where
  "sample_offer_response = \<lparr>rs_status = 200, rs_body = Inr (utf8_encode (the (json_str sample_offer)))\<rparr>"

lemma sample_offered: "handoff_registry sample_offer_response = Inr sample_offer"
  by (simp add: handoff_registry_def page_fetched_def sample_offer_response_def rs_ok_def rs_json_def sample_offer_parsed)
    (simp add: sample_offer_def fld_def js_Cons)

lemma sample_page_start:
  "\<exists>p os. page_start sample_web (js ''https://senn.app/'') = (p, os) \<and> wp_tasks p = [TOfficial, THandoff, TBoot (js ''https://senn.app/'')]
     \<and> wp_handoff p = HoFetching (js ''https://a/manifest.json'') (js ''https://p/index.json'') \<and> wp_addonHost p = None \<and> wp_session p = None
     \<and> wp_official p = (None, []) \<and> wp_room p = None \<and> wp_sessions p = []"
  by (simp add: page_start_def renderOfficialRegistry_def handleHandoff_def sample_web_def split_url_def empty_page_def wait_def js_def)


lemma sample_web_fields [simp]:
  "we_api sample_web = split_url" "we_deflate sample_web = stored" "we_inflate sample_web = stored"
  "we_me sample_web = peer_a" "we_base sample_web = js ''https://senn.app/''" "we_random sample_web = (\<lambda>_. Some (replicate 16 0))"
  by (simp_all add: sample_web_def)

lemma sample_rooms: "\<forall>k. \<exists>r. newRoomId (we_random sample_web k) = Inr r"
  by (simp add: newRoomId_def getCrypto_def encodeBase32_130_def)

definition sample_inviter :: web_page where
  "sample_inviter = empty_page\<lparr>wp_room := Some room_1, wp_session := Some 0,
     wp_sessions := [\<lparr>sn_role = Inviter, sn_room = room_1, sn_state = SConnecting\<rparr>],
     wp_transport := new_url_fragment\<lparr>uf_outbox := [(room_1, [Bye peer_a])], uf_handlers := [(room_1, [5])]\<rparr>\<rparr>"

definition sample_joiner :: web_page where
  "sample_joiner = empty_page\<lparr>wp_room := Some room_1, wp_remotePeer := Some peer_a,
     wp_transport := new_url_fragment\<lparr>uf_outbox := [(room_1, [Bye peer_b])]\<rparr>\<rparr>"

lemma sample_pages:
  "inviter_page room_1 [Bye peer_a] sample_inviter" "joiner_page room_1 [Bye peer_b] sample_joiner"
  by (simp_all add: inviter_page_def joiner_page_def sample_inviter_def sample_joiner_def empty_page_def new_url_fragment_def)

lemma sample_byes: "bundle_ok \<lparr>bundle_roomId = room_1, bundle_messages = [Bye peer_a]\<rparr>"
  "bundle_clean \<lparr>bundle_roomId = room_1, bundle_messages = [Bye peer_a]\<rparr>"
  "bundle_ok \<lparr>bundle_roomId = room_1, bundle_messages = [Bye peer_b]\<rparr>"
  "bundle_clean \<lparr>bundle_roomId = room_1, bundle_messages = [Bye peer_b]\<rparr>"
  by (simp_all add: bundle_ok_def bundle_clean_def msg_val_def del: isPeerId.simps isRoomId.simps)

lemma sample_page_invite: "we_me env = peer_a \<Longrightarrow> page_invite env room_1 = sample_invite"
  by (simp add: page_invite_def sample_invite_def SENN_PROTOCOL_VERSION_def LinkCapabilities_def)

lemma sample_base_ok: "base_ok split_url (js ''https://senn.app/'')"
proof -
  have "ch CHR ''#'' \<notin> set (js ''https://senn.app/'')" by (simp add: js_def)
  then have "\<exists>u. url_parse split_url (js ''https://senn.app/'' @ ch CHR ''#'' # s) = Some u \<and> url_hash split_url u = ch CHR ''#'' # s" for s
    by (simp add: split_url_def Let_def takeWhile_neq_stop)
  then show ?thesis
    by (simp add: base_ok_def) (simp add: js_Cons startsWith_def js_space_def ch_def)
qed

definition vault_manifest :: addon_manifest where
  "vault_manifest = \<lparr>am_id = js ''dev.senn.local-vault'', am_name = js ''Local Vault'', am_version = js ''0.1.0'', am_entry = js ''index.html'',
     am_license = js ''Apache-2.0'', am_permissions = map js [''storage.local.read'', ''storage.local.write'', ''file.read.user_selected'',
       ''file.write.user_approved'', ''peer.send.bin'', ''peer.receive.bin'', ''ui.panel''], am_capabilities = [Str (js ''local-vault-v1'')]\<rparr>"

lemma vault_id: "rx_match ADDON_ID (js ''dev.senn.local-vault'')" "rx_match SEMVER (js ''0.1.0'')"
  by (simp_all add: ADDON_ID_def LABEL_def SEMVER_def SEMVER_TAIL_def rx_forms DIGITS_def LOWER_def js_def in_cls_def)

lemma vault_manifest_ok:
  "manifest_ok vault_manifest" "js ''storage.local.read'' \<in> set (am_permissions vault_manifest)"
  "js ''storage.local.write'' \<in> set (am_permissions vault_manifest)"
  using vault_id by (auto simp: manifest_ok_def vault_manifest_def KNOWN_PERMISSIONS_def)

definition vault_host :: "memory_storage host_config" where
  "vault_host = loaded vault_manifest (Some True) True \<lparr>mem_map = [], mem_closed = False\<rparr> None None 0 0"

definition vault_host_record :: "jsstring \<Rightarrow> nat \<Rightarrow> memory_storage addon_host" where
  "vault_host_record sid n =
     \<lparr>ah_manifest = vault_manifest, ah_sessionId = sid, ah_link = Some True, ah_hasStorage = True, ah_store = \<lparr>mem_map = [], mem_closed = False\<rparr>,
      ah_iframe = True, ah_state = HMounted, ah_bound = True, ah_listening = True, ah_audioLevel = False, ah_capture = None, ah_sink = None,
      ah_senders = [], ah_recvAudio = False, ah_recvVideo = False, ah_detachers = [], ah_tracks = [], ah_counter = n\<rparr>"

lemma vault_host_shape: "\<exists>sid n. vault_host = \<lparr>hc_host = vault_host_record sid n, hc_tasks = []\<rparr>"
  using loaded_host [of vault_manifest "Some True" True "\<lparr>mem_map = [], mem_closed = False\<rparr>" None None 0 0]
  unfolding vault_host_def vault_host_record_def by (auto simp: loaded_def)

lemma null_fits: "\<not> MAX_VALUE_BYTES < approximateBytes Null"
  using utf8_bounds [of "js ''null''"] wide_le [of "js ''null''"] by (simp add: approximateBytes_def MAX_VALUE_BYTES_def)

text \<open>A call of the SDK, its handling by the host, the host's answer and its arrival.\<close>

lemma vault_bridge_run:
  "\<exists>es b. run_events (bridge_step memory_backend)
      [BrCall (DoStorage (RPut (Str (js ''k'')) Null)), BrUp 0, BrHost (HResume 0 HDone), BrDown []] (mounted_bridge vault_host) = Some (b, es)
    \<and> promises es = [RPut (Str (js ''k'')) Null] \<and> caught_up b"
proof -
  obtain sid n where h: "vault_host = \<lparr>hc_host = vault_host_record sid n, hc_tasks = []\<rparr>" using vault_host_shape by blast
  let ?h = "vault_host_record sid n"
  have serves: "serves ?h" "ah_state ?h \<noteq> HClosed" "ah_iframe ?h" "ah_listening ?h"
    using vault_manifest_ok by (simp_all add: serves_def has_permission_def vault_host_record_def)
  obtain st where run: "run_request memory_backend (am_id (ah_manifest ?h)) 0 (RPut (Str (js ''k'')) Null) (ah_store ?h) = (Some (Inr ADone), st)"
    by (simp add: run_request_def addon_call_def addon_put_def validateKey_def MAX_KEY_LENGTH_def null_fits
        memory_backend_def memory_put_def vault_host_record_def)
  have put: "sdk_run (DoStorage (RPut (Str (js ''k'')) Null)) new_sdk =
      (new_sdk\<lparr>sd_nextRid := 1, sd_pending := [(rid_of 1, 1)]\<rparr>,
       [SPromise 1 (RPut (Str (js ''k'')) Null), SPost (request_post 1 (RPut (Str (js ''k'')) Null))])"
    unfolding sdk_run.simps by (simp add: rpcStorage_def request_post_def sdk_post_def new_sdk_def)
  show ?thesis
    using request_served [OF serves(1-3), of memory_backend 0 1 "RPut (Str (js ''k'')) Null"] run serves
      result_message [of "BStorageOk (rid_of 1) Null" "rid_of 1" "Inr Null" "new_sdk\<lparr>sd_nextRid := 1, sd_pending := [(rid_of 1, 1)]\<rparr>" 1 "[]"]
    by (simp add: mounted_bridge_def h bridge_step_def put sdk_moves_def host_moves_def answers_Cons host_step_def host_enabled_def
        host_run_def host_tasks_after_def host_resume_def storage_settled_def storageReply_def postToIframe_def storage_result_of_def
        caught_up_def Let_def del: sdk_run.simps bridge_message.simps)
qed

definition meter_manifest :: addon_manifest where
  "meter_manifest = vault_manifest\<lparr>am_permissions := [js ''audio.level'', js ''ui.panel'']\<rparr>"

lemma meter_permission: "js ''audio.level'' \<in> set (am_permissions meter_manifest)"
  by (simp add: meter_manifest_def)

definition meter_host :: "memory_storage host_config" where
  "meter_host = loaded meter_manifest None False \<lparr>mem_map = [], mem_closed = False\<rparr> None None 0 0"

lemma meter_bridge_run:
  "\<exists>es b. run_events (bridge_step memory_backend) [BrCall (DoSubscribeLevel (Some 7)), BrUp 0] (mounted_bridge meter_host) = Some (b, es)
    \<and> sd_audio (br_sdk b) = [7] \<and> ah_listening (hc_host (br_host b)) \<and> ah_iframe (hc_host (br_host b)) \<and> br_up b = []"
proof -
  obtain sid c where h: "hc_host meter_host =
     \<lparr>ah_manifest = meter_manifest, ah_sessionId = sid, ah_link = None, ah_hasStorage = False, ah_store = \<lparr>mem_map = [], mem_closed = False\<rparr>,
      ah_iframe = True, ah_state = HMounted, ah_bound = False, ah_listening = True, ah_audioLevel = False, ah_capture = None, ah_sink = None,
      ah_senders = [], ah_recvAudio = False, ah_recvVideo = False, ah_detachers = [], ah_tracks = [], ah_counter = c\<rparr>"
    using loaded_host [of meter_manifest None False "\<lparr>mem_map = [], mem_closed = False\<rparr>" None None 0 0]
    by (auto simp: meter_host_def)
  show ?thesis
    by (simp add: mounted_bridge_def bridge_step_def h sdk_moves_def host_moves_def subscribeLevel_def new_sdk_def set_add_def sdk_post_def
        answers_Cons host_step_def host_enabled_def host_run_def handleWindowMessage_def bridge_fields_def bridge_obj_def
        handleAudioLevelSubscribe_def has_permission_def meter_manifest_def Let_def)
qed

lemma presence_run:
  "\<exists>os v. run_events avatar_step [AvMessage 0 True (bridge_message [] (BInit (js ''org.senn'') (js ''1.0.0'') [])), AvToggle 1000,
      AvEmotion 1050 (js ''happy''), AvTimer 0 1200] (fst new_avatar) = Some (v, os)
    \<and> av_speaking v \<and> av_emotion v = js ''happy'' \<and> av_timers v = [] \<and> sent_states os \<noteq> []"
  by (simp add: new_avatar_def avatar_step_def avatar_message_def Let_def toggle_clicked_def emitStateChange_def STATE_THROTTLE_MS_def
      flushState_def emotion_chosen_def start_timer_def sent_states_def avatar_send_def state_payload_def)

subsection \<open>Properties\<close>

text \<open>
  C1: A binary message that a connected session sends (within the 4 MiB cap, with a short add-on id and MIME type) is accepted and leaves as frames. However these arrive, in order, with the receiver's reassembly timer coming due at any times between them, and whatever other messages it is reassembling (none under the same id): if no pass of the timer before the last frame finds the first one 60 s old, the receiving session delivers exactly one binary event, with the same add-on id, MIME type and bytes; if one does, the message is never delivered. Beside it there are only notices of dropped messages.
\<close>

theorem binary_message_delivered_once:
  assumes "ps_state s = SConnected" "ps_binChannel s"
    and "addon \<noteq> []" "length addon + length mime \<le> 160" "length bs \<le> 4 * 1024 * 1024"
    and "0 \<le> now" "now < 36 ^ 9"
    and "reasm_ok (ps_reasm r)"
    and "\<forall>i\<in>{[], snd (newMessageId now (ps_nextSendId s))}. map_of (reassembly (ps_reasm r)) (slot_key addon i) = None"
    and "frames_of as = sent_frames now \<lparr>bm_addon = Str addon, bm_mime = Str mime, bm_bytes = U8 bs\<rparr> s"
  shows "(\<exists>s'. sendBinary now \<lparr>bm_addon = Str addon, bm_mime = Str mime, bm_bytes = U8 bs\<rparr> True s =
      ((s', map FSendFrame (frames_of as), []), None))
    \<and> (if in_time None as
       then \<exists>xs ys. snd (receive_all as r) = xs @ EBinary addon mime bs # ys \<and> set xs \<union> set ys \<subseteq> {EError E_OVERFLOW, EError E_TIMEOUT}
       else set (snd (receive_all as r)) \<subseteq> {EError E_OVERFLOW, EError E_TIMEOUT})
    \<and> reasm_ok (ps_reasm (fst (receive_all as r)))"
proof -
  have "length bs \<le> BIN_MESSAGE_MAX_BYTES" using assms(5) by (simp add: BIN_MESSAGE_MAX_BYTES_def)
  from session_binary_delivery [OF assms(1-4) this assms(6-10), unfolded drop_notices_def] show ?thesis by simp
qed

lemma binary_message_delivered_once_sample:
  "\<exists>fs xs ys. 1 < length fs \<and> sent_frames 5 \<lparr>bm_addon = Str (js ''org.senn.files''), bm_mime = Str (js ''image/png''), bm_bytes = U8 (replicate 100000 7)\<rparr>
      sample_open = fs
    \<and> snd (receive_all (paced 10 5010 fs) sample_open) = xs @ EBinary (js ''org.senn.files'') (js ''image/png'') (replicate 100000 7) # ys
    \<and> set (snd (receive_all (paced 10 70010 fs) sample_open)) \<subseteq> {EError E_OVERFLOW, EError E_TIMEOUT}"
proof -
  let ?m = "\<lparr>bm_addon = Str (js ''org.senn.files''), bm_mime = Str (js ''image/png''), bm_bytes = U8 (replicate 100000 7)\<rparr>"
  define fs where "fs = sent_frames 5 ?m sample_open"
  have h: "ps_state sample_open = SConnected" "ps_binChannel sample_open" "js ''org.senn.files'' \<noteq> []"
    "length (js ''org.senn.files'') + length (js ''image/png'') \<le> 160" "length (replicate 100000 7 :: bytes) \<le> 4 * 1024 * 1024"
    "(0 :: int) \<le> 5" "(5 :: int) < 36 ^ 9" "reasm_ok (ps_reasm sample_open)"
    "\<forall>i\<in>{[], snd (newMessageId 5 (ps_nextSendId sample_open))}. map_of (reassembly (ps_reasm sample_open)) (slot_key (js ''org.senn.files'') i) = None"
    by (simp_all add: sample_open_def new_session_def reasm0_def reasm_ok_def books_def)
  have two: "1 < length fs"
    using length_sent_frames [OF h(1-4), of "replicate 100000 7" 5] by (simp add: fs_def frame_total_def bin_limits)
  have p: "frames_of (paced 10 u fs) = sent_frames 5 ?m sample_open" for u by (simp add: fs_def)
  from binary_message_delivered_once [OF h p, of 5010] binary_message_delivered_once [OF h p, of 70010]
    paced_in_time [of 5010 10 fs] paced_too_late [of 70010 10 fs] two
  show ?thesis by (intro exI [of _ fs]) (auto simp: fs_def BIN_REASSEMBLY_TIMEOUT_MS_def)
qed

text \<open>
  C2: An adapter built with encryption never puts plaintext on the wire: every frame it sends is a subscription or an unsubscription, or carries an event whose content was encrypted under the room's key after the known-answer test passed, and it calls no handler if that test has failed.
\<close>

theorem encrypted_adapter_never_downgrades:
  assumes "new_nostr relays ws True = Inr st0" "reach (ns_step E) st0 os st"
  shows "list_all (v2_safe E) os"
  by (rule nostr_never_downgrades [OF assms])

lemma encrypted_adapter_never_downgrades_sample:
  "\<exists>st os. reach (ns_step sample_nostr) (sample_nostr_start\<lparr>ns_v2 := True\<rparr>) os st \<and> NConstruct 0 relay_1 \<in> set os \<and> list_all (v2_safe sample_nostr) os"
proof -
  have n: "new_nostr [relay_1] True True = Inr (sample_nostr_start\<lparr>ns_v2 := True\<rparr>)"
    by (simp add: new_nostr_def sample_nostr_start_def)
  obtain st os where r: "run_events (ns_step sample_nostr) [NsSubscribe room_1 7] (sample_nostr_start\<lparr>ns_v2 := True\<rparr>) = Some (st, os)"
      "NConstruct 0 relay_1 \<in> set os"
    by (simp add: sample_nostr_start_def ns_subscribe_def getV2RoomKey_def ns_start_room_def newSubId_def Let_def req_next_def
        ensureSocket_def make_socket_def sample_nostr_def upd_req_def)
  from run_events_reach [OF reach_start r(1)] encrypted_adapter_never_downgrades [OF n run_events_reach [OF reach_start r(1)]] r(2)
  show ?thesis by auto
qed

text \<open>
  C3: Whatever the add-on, the peer, the page and pending promises do, in whatever order, the host does only what the manifest gives permission for: it sends to the peer only valid envelopes of this add-on with peer.send, binary of at most 4 MiB with peer.send.bin, delivers with peer.receive and peer.receive.bin, captures and attaches media with the matching permission, clamps audio levels to 0..1, and grants downloads to the iframe only with file.write.user_approved.
\<close>

theorem host_stays_within_permissions:
  assumes "manifest_ok m" "reach (host_step B) (loaded m lnk hs st cap snk now cnt) os c"
  shows "list_all (out_allowed m) (snd (load_host m lnk hs st cap snk now cnt) @ os)"
  by (rule host_within_permissions [OF assms])

lemma host_stays_within_permissions_sample:
  "\<exists>b. list_all (out_allowed sample_manifest)
     [OState HInitialized, OPost (BInit (js ''org.senn'') (js ''1.0.0'') b), OState HActive]"
proof -
  obtain c b where "reach (host_step memory_backend) sample_loaded
     [OState HInitialized, OPost (BInit (js ''org.senn'') (js ''1.0.0'') b), OState HActive] c"
    using sample_host_reach by blast
  from host_stays_within_permissions [OF sample_manifest_ok this [unfolded sample_loaded_def]] show ?thesis
    by (intro exI [of _ b]) (simp only: list_all_append)
qed

text \<open>
  C4: When verifyManifest answers yes, the signature's key is one of the trusted keys (if a list was given), it decodes to a 32-byte key that Web Crypto imported, and Web Crypto itself verified the decoded signature over exactly the given bytes under that key.
\<close>

theorem verified_means_trusted_key_and_bytes:
  assumes "verifyManifest c m g trusted = Inr r" "vr_ok r"
  shows "\<exists>crypto pk raw sig. c = Some crypto \<and> manifest_base64urlDecode (sg_publicKey g) = Inr raw \<and> length raw = 32
    \<and> wc_importRaw crypto raw = Inr pk \<and> manifest_base64urlDecode (sg_signature g) = Inr sig
    \<and> wc_verify crypto pk sig m = Inr True \<and> pred_option (\<lambda>ks. sg_publicKey g \<in> set ks) trusted"
  by (rule verify_sound [OF assms])

lemma verified_means_trusted_key_and_bytes_sample:
  "\<exists>crypto pk raw sig. Some sample_crypto = Some crypto
    \<and> manifest_base64urlDecode (manifest_base64urlEncode (replicate 32 1)) = Inr raw \<and> length raw = 32
    \<and> wc_importRaw crypto raw = Inr pk \<and> manifest_base64urlDecode (manifest_base64urlEncode (replicate 64 0)) = Inr sig
    \<and> wc_verify crypto pk sig [7] = Inr True"
  using verified_means_trusted_key_and_bytes [of "Some sample_crypto" "[7]"
      "\<lparr>sg_publicKey = manifest_base64urlEncode (replicate 32 1), sg_signature = manifest_base64urlEncode (replicate 64 0), sg_signedAt = []\<rparr>"
      None "\<lparr>vr_ok = True, vr_reason = None\<rparr>"]
  by (simp add: verifyManifest_def importPublicKey_def manifest_getCrypto_def sample_crypto_def ED25519_PUBLIC_KEY_BYTES_def
      manifest_codec.dec_enc)



text \<open>
  C6: Whatever the page's address, its registries and its users do, every add-on the page asks a host to load is one of the five it carries, one its own registry lists, verified under that registry's keys, or the one the address proposed together with its publisher, after the user confirmed it and verified (required) under exactly the keys on display, of which there is at least one.
\<close>

theorem page_loads_only_what_was_offered:
  assumes "page_start env href = (p0, os0)" "reach (web_step env) p0 os p" "WLoad url v s \<in> set os"
  shows "(v = None \<and> url \<in> js ` set BUTTON_ADDONS)
    \<or> (\<exists>keys rows row. wp_official p = (Some keys, rows) \<and> row \<in> set rows \<and> la_url row = Some url \<and> v = Some (required keys))
    \<or> (\<exists>u name keys c loc. wp_handoff p = HoReady url u name keys True c \<and> keys \<noteq> [] \<and> v = Some (required keys)
        \<and> url_parse (we_api env) href = Some loc \<and> we_param env ''addon'' loc = Some url \<and> we_param env ''publisher'' loc = Some u)"
proof -
  have "loads_fit env href [] p0" using start_fits [OF assms(1)] by (simp add: loads_fit_def)
  with page_loads.reach_monitored [OF assms(2)] have "loads_fit env href os p" by blast
  then have "out_licensed p (WLoad url v s)" "handoff_fits env href (wp_handoff p)"
    using assms(3) unfolding loads_fit_def list_all_iff by blast+
  then show ?thesis
    by (auto simp: licensed_def listed_def confirmed_def handoff_fits_def proposed_def)
qed

lemma page_loads_only_what_was_offered_sample:
  "\<exists>p0 os0 p os. page_start sample_web (js ''https://senn.app/'') = (p0, os0) \<and> reach (web_step sample_web) p0 os p
     \<and> WLoad (js ''https://a/manifest.json'') (Some (required [Str (js ''k'')])) None \<in> set os
     \<and> (\<exists>u name keys c. wp_handoff p = HoReady (js ''https://a/manifest.json'') u name keys True c)"
proof -
  obtain p0 os0 where p0: "page_start sample_web (js ''https://senn.app/'') = (p0, os0)"
    "wp_tasks p0 = [TOfficial, THandoff, TBoot (js ''https://senn.app/'')]"
    "wp_handoff p0 = HoFetching (js ''https://a/manifest.json'') (js ''https://p/index.json'')" "wp_addonHost p0 = None" "wp_session p0 = None"
    "wp_official p0 = (None, [])"
    using sample_page_start by blast
  have fit: "fingerprint_shown (Str s)" "\<not> nullish (Obj fs)" "\<not> unprintable (Str s)" for s fs
    by (simp_all add: fingerprint_shown_def nullish_def)
  have "\<exists>p os. run_events (web_step sample_web) [WResume 1 (AResponse sample_offer_response), WConfirm] p0 = Some (p, os)
      \<and> WLoad (js ''https://a/manifest.json'') (Some (required [Str (js ''k'')])) None \<in> set os \<and> wp_official p = (None, [])"
    using p0(2-6)
    by (simp add: handoff_fetched_def sample_offered) (simp add: sample_offer_def fld_def js_set_add_def fit on_confirm_def loadAddonByManifest_def load_begun_def wait_def)
  then obtain p os where run: "run_events (web_step sample_web) [WResume 1 (AResponse sample_offer_response), WConfirm] p0 = Some (p, os)"
      "WLoad (js ''https://a/manifest.json'') (Some (required [Str (js ''k'')])) None \<in> set os" "wp_official p = (None, [])" by blast
  have r: "reach (web_step sample_web) p0 os p" using run_events_reach [OF reach_start run(1)] by simp
  have "\<exists>u name keys c. wp_handoff p = HoReady (js ''https://a/manifest.json'') u name keys True c"
    using page_loads_only_what_was_offered [OF p0(1) r run(2)] run(3) by auto
  then show ?thesis using p0(1) r run(2) by blast
qed

text \<open>
  C7: The link an inviting page exports, when it can be built at all, opens in a fresh page of any user: that page joins the same room with the inviter as its peer, starts a joining session, and hands the session's handler exactly the inviter's messages, in order; the export itself leaves the link in its field.
\<close>

theorem invite_link_opens_the_room:
  assumes "url_api_ok (we_api A)" "url_text_ok (we_api A)" "streams_inverse (we_deflate A) (we_inflate A)"
    and "we_api B = we_api A" "we_inflate B = we_inflate A" "isPeerId (Str (we_me A))"
    and "inviter_page r ms p" "bundle_ok \<lparr>bundle_roomId = r, bundle_messages = ms\<rparr>" "bundle_clean \<lparr>bundle_roomId = r, bundle_messages = ms\<rparr>"
    and "buildInviteBundleUrl (we_api A) (we_deflate A) (we_base A) (invite_val (page_invite A r))
          (bundle_val \<lparr>bundle_roomId = r, bundle_messages = ms\<rparr>) = Inr href"
    and "page_start B href = (q, os0)" "i = length (wp_tasks p)" "Suc j = length (wp_tasks q)"
  shows "\<exists>p' q' os. run_events (web_step A) [WExport, WResume i AOk, WResume i AOk] p = Some (p', []) \<and> wp_exportOut p' = href
    \<and> run_events (web_step B) [WResume j AOk, WResume j AOk, WAdapter (UfSubscribe r h), WResume j AOk, WAdapter (UfDecoded 0)] q
        = Some (q', os)
    \<and> wp_room q' = Some r \<and> wp_remotePeer q' = Some (we_me A) \<and> wp_session q' = Some 0
    \<and> WNewSession 0 (new_session Joiner r (we_me B) (Some (we_me A))) \<in> set os
    \<and> filter handler_out os = map (WHandler h) ms"
proof -
  have inv: "validateInvitePayload (invite_val (page_invite A r)) = Inr (page_invite A r)"
    using page_invite_ok assms(6,8) validate_invite_val by (metis bundle_ok_def sig_bundle.select_convs(1))
  obtain t u where link: "extractBundleFromUrl (we_api A) href = Inr (Some t)" "t \<noteq> []"
      "decodeSignalingBundle (we_inflate A) t = Inr \<lparr>bundle_roomId = r, bundle_messages = ms\<rparr>"
      "url_parse (we_api A) href = Some u" "str_includes (js ''i='') (url_hash (we_api A) u)"
      "str_includes (js ''#'') href" "str_includes (js ''i='') href" "href \<noteq> []"
      "parseInviteBundleUrl (we_api A) (we_inflate A) href
        = Inr \<lparr>parsed_invite = page_invite A r, parsed_bundle = Some \<lparr>bundle_roomId = r, bundle_messages = ms\<rparr>\<rparr>"
    using built_link [OF assms(1-3) inv validate_bundle_val [OF assms(8)] json_clean_bundle [OF assms(9)] assms(10)] by blast
  obtain xs where q: "wp_tasks q = xs @ [TBoot href]" "wp_room q = None" "wp_sessions q = []" "wp_transport q = new_url_fragment"
      "\<forall>t\<in>set xs. t = TOfficial \<or> t = THandoff"
    using start_page [OF assms(11)] by blast
  have r: "inv_roomId (page_invite A r) = r" "inv_from (page_invite A r) = we_me A" by (simp_all add: page_invite_def)
  have j: "j = length xs" using assms(13) q(1) by simp
  have "\<exists>p'. run_events (web_step A) [WExport, WResume i AOk, WResume i AOk] p = Some (p', []) \<and> wp_exportOut p' = href"
    using export_invite [OF assms(3,7-9)] link(8)
    by (simp add: assms(10,12) exported_text_def del: web_step.simps run_events.simps)
  moreover note open_link [where env = B and h = h, OF q, unfolded assms(4,5), OF link(4-7,9,1,2,3), unfolded r, folded j]
  ultimately show ?thesis by (simp del: web_step.simps run_events.simps) blast
qed

lemma invite_link_opens_the_room_sample:
  "\<exists>href q os0 q' os. page_start (sample_web\<lparr>we_me := peer_b\<rparr>) href = (q, os0)
     \<and> run_events (web_step (sample_web\<lparr>we_me := peer_b\<rparr>)) [WResume 2 AOk, WResume 2 AOk, WAdapter (UfSubscribe room_1 7),
         WResume 2 AOk, WAdapter (UfDecoded 0)] q = Some (q', os)
     \<and> wp_room q' = Some room_1 \<and> filter handler_out os = [WHandler 7 (Bye peer_a)]"
proof -
  let ?B = "sample_web\<lparr>we_me := peer_b\<rparr>"
  have B: "we_api ?B = we_api sample_web" "we_inflate ?B = we_inflate sample_web" by simp_all
  have inv: "page_invite sample_web room_1 = sample_invite" by (rule sample_page_invite) simp
  obtain href where built: "buildInviteBundleUrl (we_api sample_web) (we_deflate sample_web) (we_base sample_web)
      (invite_val (page_invite sample_web room_1)) (bundle_val \<lparr>bundle_roomId = room_1, bundle_messages = [Bye peer_a]\<rparr>) = Inr href"
    using sample_url_built by (auto simp: is_ok_ex inv sample_bundle_def)
  obtain t u where "url_parse split_url href = Some u"
    using built_link [OF split_url_ok split_url_text streams_inverse_stored _ validate_bundle_val [OF sample_byes(1)]
        json_clean_bundle [OF sample_byes(2)] built [unfolded sample_web_fields]] sample_invite_ok validate_invite_val inv by metis
  then obtain q os0 where q: "page_start ?B href = (q, os0)" "length (wp_tasks q) = 3"
    by (cases "page_start ?B href")
      (auto simp: page_start_def renderOfficialRegistry_def handleHandoff_def sample_web_def empty_page_def wait_def js_def)
  have hyps: "url_api_ok (we_api sample_web)" "url_text_ok (we_api sample_web)"
      "streams_inverse (we_deflate sample_web) (we_inflate sample_web)" "isPeerId (Str (we_me sample_web))" by (simp_all del: isPeerId.simps)
  have j: "Suc 2 = length (wp_tasks q)" using q(2) by simp
  from invite_link_opens_the_room [OF hyps(1-3) B hyps(4) sample_pages(1) sample_byes(1,2) built q(1) refl j, of 7] q(1)
  show ?thesis by (simp del: web_step.simps run_events.simps) blast
qed

text \<open>
  C8: In the system of an add-on's SDK and its host, two windows with their queues of messages, whatever the add-on, the peer and the page do in whatever order: the calls of senn.storage are answered as those of one private map on which they run in the order they were made (over the in-memory backend, with both storage permissions); a promise settles at most once and with the answer to its own call; when the messages and the host's continuations have been handled, every call has its answer and the SDK waits for none.
\<close>

theorem storage_calls_run_on_a_private_map:
  assumes "manifest_ok m" "js ''storage.local.read'' \<in> set (am_permissions m)" "js ''storage.local.write'' \<in> set (am_permissions m)"
    and "memory_inv st" "\<not> mem_closed st"
    and "reach (bridge_step memory_backend) (mounted_bridge (loaded m lnk True st cap snk now cnt)) es b"
  shows "distinct (map fst (settlements es))
    \<and> (\<forall>(n, x)\<in>set (settlements es). 1 \<le> n \<and> n \<le> length (promises es)
        \<and> x = private_map_answers (promises es) (values_of (memory_ns st (am_id m))) ! (n - 1))
    \<and> (caught_up b \<longrightarrow> length (settlements es) = length (promises es) \<and> sd_pending (br_sdk b) = [])"
  using storage_promises [OF assms] by blast

lemma storage_calls_run_on_a_private_map_sample:
  "\<exists>es b. reach (bridge_step memory_backend) (mounted_bridge vault_host) es b \<and> promises es = [RPut (Str (js ''k'')) Null]
    \<and> caught_up b \<and> length (settlements es) = 1
    \<and> (\<forall>(n, x)\<in>set (settlements es). x = private_map_answers [RPut (Str (js ''k'')) Null] Map.empty ! (n - 1))"
proof -
  obtain es b where r: "reach (bridge_step memory_backend) (mounted_bridge vault_host) es b"
    and e: "promises es = [RPut (Str (js ''k'')) Null]" "caught_up b"
    using vault_bridge_run run_events_reach [OF reach_start] by (metis append_Nil)
  have "memory_inv \<lparr>mem_map = [], mem_closed = False\<rparr>" by (simp add: memory_inv_def)
  from storage_calls_run_on_a_private_map [OF vault_manifest_ok(1) vault_manifest_ok(2,3) this _ r [unfolded vault_host_def]] e
  have "length (settlements es) = 1
    \<and> (\<forall>(n, x)\<in>set (settlements es). x = private_map_answers [RPut (Str (js ''k'')) Null] Map.empty ! (n - 1))"
    by (auto simp: memory_ns_def ns_of_def values_of_def)
  with r e show ?thesis by blast
qed



text \<open>
  C10: Whatever buttons are pressed and however refreshes overlap, a card with the badge "verified" has a signature whose key is one of its registry's trusted keys, and Web Crypto verified that signature under that key over the very bytes the card's manifest was parsed from.
\<close>

theorem verified_badge_means_trusted_signature:
  assumes "reach (gallery_step api c dates) (fst (gallery_start default_url raw host)) os s"
    and "row \<in> set (gl_rows s)" "badgeFor (rw_verify row) = (''badge badge-ok'', ''verified'')"
  shows "\<exists>crypto g pk raw sig b. c = Some crypto \<and> rw_signature row = Some g
    \<and> sg_publicKey g \<in> set (trusted_keys (rw_registry row))
    \<and> manifest_base64urlDecode (sg_publicKey g) = Inr raw \<and> length raw = 32 \<and> wc_importRaw crypto raw = Inr pk
    \<and> manifest_base64urlDecode (sg_signature g) = Inr sig \<and> wc_verify crypto pk sig b = Inr True
    \<and> rw_manifest row = json_parse (utf8_decode b)"
proof -
  have "row_checked c row" using reachable_gallery [OF assms(1)] assms(2) by (auto simp: gallery_inv_def list_all_iff)
  moreover have "vr_ok (rw_verify row)" using assms(3) by (auto simp: badgeFor_def split: if_splits)
  ultimately show ?thesis by (simp add: row_checked_def)
qed

lemma verified_badge_means_trusted_signature_sample:
  "\<exists>os s (row :: addon_row) g. reach (gallery_step sample_page (Some sample_crypto) sample_dates) sample_gallery os s
    \<and> gl_rows s = [row] \<and> rw_signature row = Some g \<and> sg_publicKey g \<in> set (trusted_keys (rw_registry row))"
proof -
  obtain l row where l: "loadFromUrl sample_page (Some sample_crypto) sample_dates sample_gallery_env (js ''reg'') = Inr l"
    "lr_addons l = [row]" "rw_verify row = \<lparr>vr_ok = True, vr_reason = None\<rparr>" using sample_loads by blast
  obtain s' os where st: "gallery_step sample_page (Some sample_crypto) sample_dates (GLoaded 0 sample_gallery_env) sample_gallery
      = Some (s', os)" "gl_rows s' = [row]"
    using l load_ends [of sample_gallery 0 _ "js ''reg''" sample_page "Some sample_crypto" sample_dates sample_gallery_env l]
    by (auto simp: sample_gallery_facts registries_def simp del: gallery_step.simps)
  have r: "reach (gallery_step sample_page (Some sample_crypto) sample_dates) sample_gallery ([] @ os) s'"
    by (rule reach_step) (rule reach_start, rule st(1))
  from verified_badge_means_trusted_signature [OF r [unfolded sample_gallery_def], of row] st(2) l(3)
  obtain g where "rw_signature row = Some g" "sg_publicKey g \<in> set (trusted_keys (rw_registry row))"
    by (auto simp: badgeFor_def)
  with r st(2) show ?thesis by blast
qed

text \<open>
  C11: A registry that passed the release check appears in the gallery as intended, whatever page serves the same files: it loads, each of its add-ons becomes a row with the badge "verified", and the signed manifest of the row has the id the row lists.
\<close>

theorem released_registry_shows_verified_badges:
  assumes "official_exit_code env api c dates argv = 0" "parseArgs env argv = Inr args" "read_json env (oa_registry args) = Inr v"
    and "serves_files page genv env url v"
  shows "\<exists>reg rows. load_registry page c dates genv opts url v = Inr (reg, rows)
    \<and> length rows = length (arr_of (fld (own_fields v) ''addons''))
    \<and> list_all (\<lambda>row. badgeFor (rw_verify row) = (''badge badge-ok'', ''verified'')
        \<and> (\<exists>man. rw_manifest row = Some man \<and> fld (own_fields man) ''id'' = fld (rw_addon row) ''id'')) rows"
proof -
  from checked_registry_rows [OF assms] obtain reg rows where
    "load_registry page c dates genv opts url v = Inr (reg, rows)" "length rows = length (arr_of (fld (own_fields v) ''addons''))"
    "list_all (\<lambda>row. rw_verify row = \<lparr>vr_ok = True, vr_reason = None\<rparr>
        \<and> (\<exists>man. rw_manifest row = Some man \<and> fld (own_fields man) ''id'' = fld (rw_addon row) ''id'')) rows" by blast
  then show ?thesis by (auto simp: badgeFor_def list_all_iff)
qed

lemma released_registry_shows_verified_badges_sample:
  "\<exists>page :: jsstring page_url_api. \<exists>genv reg (row :: addon_row).
    load_registry page (Some sample_crypto) sample_dates genv no_options [] (registry_val sample_release) = Inr (reg, [row])
    \<and> badgeFor (rw_verify row) = (''badge badge-ok'', ''verified'')"
proof -
  define genv where "genv = \<lparr>ge_fetch = (\<lambda>u. Inr \<lparr>rs_status = 200, rs_body = oe_read sample_release_env
     (if u = js ''manifest.sig.json'' then u else js ''manifest.json'')\<rparr>), ge_manifest_first = \<lambda>_. True\<rparr>"
  let ?r = "registry_val sample_release" and ?m = "js ''/addons/'' @ basenameOfPath (js ''addons/chat'') @ js ''/manifest.json''"
  have clean: "json_clean ?r" "json_clean (signature_val sample_signature)"
    by (simp_all add: registry_val_def addon_val_def sample_release_def strings_val_def signature_val_def optf_def)
  have read: "read_json sample_release_env (js ''addons/official/index.json'') = Inr ?r"
    "read_json sample_release_env (js ''manifest.sig.json'') = Inr (signature_val sample_signature)"
    using read_json_clean [OF clean(1)] read_json_clean [OF clean(2)] by (simp_all add: read_json_def sample_release_env_def)
  have "fetchJson genv (js ''manifest.sig.json'') = Inr (signature_val sample_signature)"
    using json_utf8_roundtrip [OF json_clean_data [OF clean(2)]] json_clean_str [OF clean(2)]
    by (auto simp: fetchJson_def genv_def rs_ok_def rs_json_def sample_release_env_def json_clean_norm_id clean(2))
  moreover have "fetchBytes genv (js ''/addons/'' @ x) = oe_read sample_release_env (js ''manifest.json'')" for x
    by (simp add: fetchBytes_def genv_def rs_ok_def js_Cons)
  moreover have "manifestUrlFor sample_page [] (js ''addons/chat'') = Inr ?m" "sigUrlFor sample_page ?m = Inr (js ''manifest.sig.json'')"
    by (simp_all add: manifestUrlFor_def sigUrlFor_def sample_page_def new_URL_def registry_prefix_def)
  moreover have "manifest_path sample_release_env p = js ''manifest.json''" "signature_path sample_release_env p = js ''manifest.sig.json''" for p
    by (simp_all add: manifest_path_def signature_path_def sample_release_env_def)
  ultimately have "serves_files sample_page genv sample_release_env [] ?r"
    using read(2) by (simp add: serves_files_def registry_val_def sample_release_def addon_val_def Let_def)
  moreover have "parseArgs sample_release_env [] = Inr (default_args sample_release_env)" by (simp add: parseArgs_def)
  moreover have "read_json sample_release_env (oa_registry (default_args sample_release_env)) = Inr ?r"
    using read(1) by (simp add: default_args_def) (simp add: sample_release_env_def)
  ultimately obtain reg rows where rows: "load_registry sample_page (Some sample_crypto) sample_dates genv no_options [] ?r = Inr (reg, rows)"
    "length rows = length (arr_of (fld (own_fields ?r) ''addons''))"
    "list_all (\<lambda>row. badgeFor (rw_verify row) = (''badge badge-ok'', ''verified'')
        \<and> (\<exists>man. rw_manifest row = Some man \<and> fld (own_fields man) ''id'' = fld (rw_addon row) ''id'')) rows"
    using released_registry_shows_verified_badges [OF sample_release_exit] by blast
  then have "length rows = 1" by (simp add: registry_val_def sample_release_def)
  then obtain row where "rows = [row]" by (auto simp: length_Suc_conv)
  with rows show ?thesis by auto
qed

text \<open>
  C12: Every signaling message a session publishes, on any run, carries its own peer id as sender and passes the bundle schema's validation of messages unchanged.
\<close>

theorem session_publishes_valid_messages:
  assumes "reached \<lparr>cf_session = new_session role room me rem, cf_tasks = []\<rparr> es c"
    and "isPeerId (Str me)" "\<forall>r\<in>set_option rem. isPeerId (Str r)" "FPublish m \<in> set es"
  shows "validateMessage (msg_val m) i = Inr m \<and> msg_from m = me"
  using reached_publishes_valid [OF assms(1,2) _ assms(4)] assms(3) by auto

lemma session_publishes_valid_messages_sample:
  "validateMessage (msg_val (Offer peer_a (js ''v=0''))) 0 = Inr (Offer peer_a (js ''v=0'')) \<and> msg_from (Offer peer_a (js ''v=0'')) = peer_a"
  by (rule session_publishes_valid_messages [OF sample_reached [unfolded sample_config_def]])
    (simp_all add: sample_effects_def del: isPeerId.simps)

text \<open>
  C13: In every state a peer session reaches, whatever frames, ticks, calls and messages it gets in whatever order, the reassembly's books are right: the byte counter is the sum over the slots, at most 16 MiB; every slot is incomplete, holds distinct chunks, at most 4 MiB; the timer runs exactly while there are slots.
\<close>

theorem reassembly_always_within_budget:
  assumes "initial c0" "reached c0 es c"
  shows "reasm_ok (ps_reasm (cf_session c))"
  by (rule reached_reasm [OF assms(2,1)])

lemma reassembly_always_within_budget_sample:
  "reasm_ok (ps_reasm (sample_open\<lparr>ps_state := SClosed\<rparr>))"
  using reassembly_always_within_budget [OF sample_initial sample_reached] by simp

text \<open>
  C14: Two adapters that share a room's key, joined by a relay: the message one publishes is encrypted and sent as one event, and when the relay hands that event to the other's subscription for the first time, each of its handlers for the room gets the message.
\<close>

theorem encrypted_message_crosses_the_relay:
  assumes "v2_ready a r key" "ns_relays a = [url]" "map_of (ns_sockets a) url = Some wa" "ws_ready (ns_ws a ! wa) = Open"
    and "v2_ready b r key" "ns_wf b" "sub_of b r ref subId" "wb < length (ns_ws b)" "ws_ready (ns_ws b ! wb) = Open"
    and "finalize_ok E" "nip44_ok (ne_cipher E)" "length key = 32" "length nonce = 32"
    and "json_clean (msg_val m)" "json_str (msg_val m) = Some json" "nip44_text (V2_SENTINEL @ json)"
  shows "\<exists>c a'. encryptV2 (ne_cipher E) m key nonce = Inr c
    \<and> run_events (ns_step E) (NsPublish r m # replicate 3 (NsResumePub (length (ns_pubs a)) now rnd nonce)
          @ [NsResumePub (length (ns_pubs a)) 0 [] []]) a
        = Some (a', [NSend wa (event_frame (event_of E r now rnd c))])
    \<and> (json_clean (Arr [Str (js ''EVENT''), Str subId, Obj (event_of E r now rnd c)])
       \<and> fld (event_of E r now rnd c) ''id'' \<notin> set (nr_delivered (ns_states b ! ref)) \<longrightarrow>
       (\<exists>b'. run_events (ns_step E) (NsMessage wb (relayed subId (event_of E r now rnd c))
            # replicate 3 (NsResumeDecode (length (ns_decodes b)))) b
          = Some (b', map (\<lambda>h. NCall ref h (fld (event_of E r now rnd c) ''id'') (msg_val m)) (ns_listeners b r))))"
  by (rule nostr_v2_transfer [OF assms])

lemma encrypted_message_crosses_the_relay_sample:
  "\<exists>c a' b'. run_events (ns_step sample_nostr) (NsPublish room_1 (Bye peer_a) # replicate 3 (NsResumePub 0 0 [] (replicate 32 1))
        @ [NsResumePub 0 0 [] []]) sample_v2 = Some (a', [NSend 0 (event_frame (event_of sample_nostr room_1 0 [] c))])
    \<and> run_events (ns_step sample_nostr) (NsMessage 0 (relayed (js ''s'') (event_of sample_nostr room_1 0 [] c)) # replicate 3 (NsResumeDecode 0)) sample_v2
      = Some (b', [NCall 0 7 (Str (js ''e1'')) (msg_val (Bye peer_a))])"
proof -
  obtain t where t: "json_str (msg_val (Bye peer_a)) = Some t" "nip44_text (V2_SENTINEL @ t)"
    using sample_bye_text by blast
  have c: "json_clean (msg_val (Bye peer_a))" by (simp add: msg_val_def)
  have e: "json_clean (Arr [Str (js ''EVENT''), Str (js ''s''), Obj (event_of sample_nostr room_1 0 [] c)])"
      "fld (event_of sample_nostr room_1 0 [] c) ''id'' = Str (js ''e1'')" for c
    by (simp_all add: event_of_def sample_nostr_def event_template_def fld_append SENN_NOSTR_KIND_def)
  show ?thesis
    using encrypted_message_crosses_the_relay [OF sample_v2_ok(1) _ _ _ sample_v2_ok(1-3) _ _ sample_v2_ok(4,5) _ _ c t, of relay_1 0 0 "replicate 32 1" 0 "[]"] e
    by (simp add: sample_v2_def sample_nostr_start_def ns_listeners_def rooms_table_def ns_hs_def) blast
qed

text \<open>
  C15: A publication on Nostr settles at most once, and it resolves only if some relay sent an OK frame with a true flag for its event id.
\<close>

theorem nostr_publish_has_one_honest_outcome:
  assumes "new_nostr relays ws v2 = Inr st0" "run_events (ns_step E) evs st0 = Some (st, os)"
  shows "distinct (map fst (settled_pubs os))
    \<and> list_all (\<lambda>(n, res). res = None \<longrightarrow> acked evs (pb_id (ns_pubs st ! n))) (settled_pubs os)"
  using nostr_publish_settles_once [OF assms] by (auto simp: list_all_iff)

lemma nostr_publish_has_one_honest_outcome_sample:
  "\<exists>st :: nostr. distinct (map fst [(0 :: nat, None :: err option)]) \<and> acked sample_nostr_events (pb_id (ns_pubs st ! 0))"
proof -
  obtain st os where r: "run_events (ns_step sample_nostr) sample_nostr_events sample_nostr_start = Some (st, os)" "settled_pubs os = [(0, None)]"
    using sample_nostr_run by blast
  show ?thesis
    using nostr_publish_has_one_honest_outcome [OF sample_nostr_made r(1)] unfolding r(2) by (intro exI [of _ st]) simp
qed

text \<open>
  C16: Whatever the server sends and however polls, subscriptions and closing interleave, the HTTP adapter never gives one room object's handler the same item twice, and while the adapter is open it only calls handlers whose last operation for the room was a subscription.
\<close>

theorem poll_items_reach_subscribers_once:
  assumes "new_http_poll endpoint interval = Inr st0" "run_events hp_step evs st0 = Some (st, os)"
  shows "distinct (hp_calls os)
    \<and> (hp_step ev st = Some (st', os') \<and> \<not> hp_closed st \<and> CallHandler ref h i m \<in> set os'
       \<longrightarrow> last_is_sub (fst (hp_loops st ! ref)) h (concat (map hp_sub_op evs)) False)"
  using http_poll_once [OF assms(1) run_events_reach [OF reach_start assms(2), simplified]]
    http_poll_calls_listeners [OF assms] by blast

lemma poll_items_reach_subscribers_once_sample:
  "\<exists>st0 st os. new_http_poll (js ''s'') None = Inr st0
    \<and> run_events hp_step [Subscribe room_1 7, FetchSettled 0 (Response 200), BodySettled 0 (Inr (poll_answer [(js ''a'', Null), (js ''a'', Null)] []))] st0
      = Some (st, os)
    \<and> hp_calls os = [(0, 7, js ''a'')] \<and> distinct (hp_calls os)"
proof -
  obtain st0 where s: "new_http_poll (js ''s'') None = Inr st0" "st0 = \<lparr>hp_endpoint = js ''s'', hp_interval = Fin 1000, hp_rooms = [],
      hp_closed = False, hp_states = [], hp_loops = [], hp_posts = [], hp_next_post = 0\<rparr>"
    by (simp add: new_http_poll_def strip_slashes_def js_def DEFAULT_INTERVAL_MS_def MIN_INTERVAL_MS_def MAX_INTERVAL_MS_def)
  have enc: "encodeURIComponent room_1 \<noteq> None"
    by (simp add: encodeURIComponent_def room_1_def ascii_well_formed)
  obtain st os where r: "run_events hp_step [Subscribe room_1 7, FetchSettled 0 (Response 200),
        BodySettled 0 (Inr (poll_answer [(js ''a'', Null), (js ''a'', Null)] []))] st0 = Some (st, os)"
      "hp_calls os = [(0, 7, js ''a'')]"
    using enc by (auto simp: s(2) hp_subscribe_def hp_start_room_def loop_head_def loop_stopped_def poll_start_def Let_def new_poll_room_def
      set_phase_def set_room_def loop_waits_def poll_fetched_def response_ok_def poll_read_def poll_body_def poll_answer_def poll_item_def
      next_cursor_def set_add_def after_poll_def hp_calls_def)
  with s(1) poll_items_reach_subscribers_once [OF s(1) r(1)] show ?thesis by blast
qed

text \<open>
  C17: Every signaling adapter (HTTP polling, URL fragments, Nostr) implements the same subscription contract: after any sequence of subscribe calls, calls of the closures they returned and close calls, whether it still accepts and the handlers it holds for every room are those of the abstract table.
\<close>

theorem adapters_keep_the_subscription_table:
  assumes "new_http_poll endpoint interval = Inr hp" "new_nostr relays True v2 = Inr ns"
  shows "(\<not> hp_closed (hp_ops ops hp), hp_listeners (hp_ops ops hp)) = spec_ops ops (True, \<lambda>_. [])
    \<and> (\<not> uf_closed (uf_ops ops new_url_fragment), uf_listeners (uf_ops ops new_url_fragment)) = spec_ops ops (True, \<lambda>_. [])
    \<and> (ns_accepts (ns_ops E ops ns), ns_listeners (ns_ops E ops ns)) = spec_ops ops (True, \<lambda>_. [])"
  using http_poll.ops_refine [of hp ops] new_http_poll_wf [OF assms(1)] nostr.ops_refine [of ns E ops] new_nostr_wf [OF assms(2)]
    url_fragment.ops_refine [of ops new_url_fragment]
  by (simp add: uf_listeners_new) (simp add: new_url_fragment_def)

lemma adapters_keep_the_subscription_table_sample:
  "\<exists>hp ns. new_http_poll (js ''https://s'') None = Inr hp \<and> new_nostr [js ''wss://r''] True False = Inr ns
    \<and> hp_listeners (hp_ops [Sub room_1 1, Sub room_1 2, Unsub room_1 1] hp) room_1 = [2]
    \<and> ns_listeners (ns_ops sample_nostr [Sub room_1 1, Sub room_1 2, Unsub room_1 1] ns) room_1 = [2]"
proof -
  obtain hp ns where "new_http_poll (js ''https://s'') None = Inr hp" "new_nostr [js ''wss://r''] True False = Inr ns"
    by (simp add: new_http_poll_def new_nostr_def DEFAULT_INTERVAL_MS_def MIN_INTERVAL_MS_def MAX_INTERVAL_MS_def)
  then show ?thesis
    using adapters_keep_the_subscription_table [of "js ''https://s''" None hp "[js ''wss://r'']" False ns
      "[Sub room_1 1, Sub room_1 2, Unsub room_1 1]" sample_nostr]
    by (auto simp: spec_ops_def set_add_def set_delete_def)
qed

text \<open>
  C18: Any sequence of storage calls by any add-ons over the in-memory backend gives exactly the answers and errors that a separate map for each add-on would give.
\<close>

theorem memory_store_is_a_private_map:
  assumes "memory_inv s" "\<not> mem_closed s" "list_all (\<lambda>(a, call). plain_id a) calls"
  shows "storage_run memory_backend calls s = spec_run calls (memory_ns s)"
  by (rule memory.run_refines [OF assms(1,2)]) (use assms(3) call_ok_True in \<open>auto simp: list_all_iff\<close>)

lemma memory_store_is_a_private_map_sample:
  "storage_run memory_backend [(js ''a.b'', CPut NaN (Str (js ''k'')) (jint 1)), (js ''a.c'', CList), (js ''a.b'', CList)]
      \<lparr>mem_map = [], mem_closed = False\<rparr>
    = spec_run [(js ''a.b'', CPut NaN (Str (js ''k'')) (jint 1)), (js ''a.c'', CList), (js ''a.b'', CList)]
      (memory_ns \<lparr>mem_map = [], mem_closed = False\<rparr>)"
  by (rule memory_store_is_a_private_map) (simp_all add: memory_inv_def plain_id_def js_def)

text \<open>
  C19: Over IndexedDB each call of an add-on does to its own map exactly what the specification says and leaves the other add-ons' maps alone, or is rejected and changes nothing, as long as keys stay within the cursor's range.
\<close>

theorem idb_store_is_a_private_map:
  assumes "idb_ok api content" "idb_inv content s" "plain_id a" "call_ok in_range call"
    and "addon_call (idb_backend api) a call s = (res, s')"
  shows "idb_inv content s' \<and>
     ((res, idb_ns content s') = (fst (spec_call call (idb_ns content s a)), (idb_ns content s)(a := snd (spec_call call (idb_ns content s a))))
    \<or> (\<exists>e. res = Inl e) \<and> idb_ns content s' = idb_ns content s)"
  by (rule storage_backend.call_refines [OF idb_is_backend [OF assms(1)] assms(2-5)])

lemma idb_store_is_a_private_map_sample:
  "\<exists>s'. addon_call (idb_backend sample_idb) (js ''a.b'') (CPut NaN (Str (js ''k'')) (jint 1))
      \<lparr>ib_closed = False, ib_dbPromise = None, ib_db = []\<rparr> = (Inr ADone, s')
    \<and> idb_ns map_of s' (js ''a.b'') (js ''k'') = Some \<lparr>rec_value = jint 1, rec_updatedAt = NaN\<rparr>"
proof -
  let ?s = "\<lparr>ib_closed = False, ib_dbPromise = None, ib_db = []\<rparr> :: (jsstring \<times> storage_record) list idb_storage"
  obtain s' where c: "addon_call (idb_backend sample_idb) (js ''a.b'') (CPut NaN (Str (js ''k'')) (jint 1)) ?s = (Inr ADone, s')"
    by (simp add: addon_call_def addon_put_def validateKey_def MAX_KEY_LENGTH_def approximateBytes_def MAX_VALUE_BYTES_def
        json_num_one utf8_one idb_backend_def idb_storage_put_def idb_tx_def idb_openDb_def sample_idb_def Let_def)
  have "call_ok in_range (CPut NaN (Str (js ''k'')) (jint 1))" "plain_id (js ''a.b'')" "idb_inv map_of ?s"
    by (simp_all add: in_range_def js_def ch_less_last plain_id_def idb_inv_def)
  from idb_store_is_a_private_map [OF sample_idb_ok this(3,2,1) c] show ?thesis
    using c by (auto simp: validateKey_def MAX_KEY_LENGTH_def approximateBytes_def MAX_VALUE_BYTES_def json_num_one utf8_one)
qed

text \<open>
  C20: A registry that validateRegistry returns satisfies the schema of its version: ids and versions match their patterns, version 1 carries none of the optional parts and version 2 neither history nor audit, categories and tags come from their sets, every date parses, a history lists each version once and never the head, an audit is of the head or of a listed version, and a deprecation names an add-on of the same registry.
\<close>

theorem accepted_registry_has_the_schema:
  assumes "validateRegistry api dates input = Inr r"
  shows "registry_ok api dates r"
  by (rule registry_sound [OF assms])

lemma accepted_registry_has_the_schema_sample:
  "registry_ok split_url sample_dates sample_registry"
  by (rule accepted_registry_has_the_schema [OF registry_complete [OF sample_registry_ok]])

text \<open>
  C21: When the release check exits with 0, the registry satisfies the schema and for each of its add-ons the manifest file on disk was verified by Web Crypto under one of the registry's keys, and names the id, the version and (if any) the description the registry lists.
\<close>

theorem passed_release_check_means_signed_and_matching:
  fixes c :: "('pk, 'sk) web_crypto option"
  assumes "official_exit_code env api c dates argv = 0"
  shows "\<exists>args v r. parseArgs env argv = Inr args \<and> read_json env (oa_registry args) = Inr v \<and> validateRegistry api dates v = Inr r
    \<and> registry_ok api dates r
    \<and> (\<forall>a\<in>set (rg_addons r). \<exists>b m. \<exists>g :: manifest_signature. \<exists>crypto :: ('pk, 'sk) web_crypto. \<exists>pk raw sig. oe_read env (manifest_path env (ra_path a)) = Inr b
         \<and> json_parse (utf8_decode b) = Some m \<and> fld (own_fields m) ''id'' = Str (ra_id a)
         \<and> fld (own_fields m) ''version'' = Str (ra_version a)
         \<and> fld (own_fields m) ''description'' \<in> {d. is_str d \<longrightarrow> d = Str (ra_description a)}
         \<and> c = Some crypto \<and> sg_publicKey g \<in> set (rg_trustedKeys r) \<and> manifest_base64urlDecode (sg_publicKey g) = Inr raw
         \<and> wc_importRaw crypto raw = Inr pk \<and> manifest_base64urlDecode (sg_signature g) = Inr sig
         \<and> wc_verify crypto pk sig b = Inr True)"
  using official_sound [OF assms] unfolding released_addon_def .

lemma passed_release_check_means_signed_and_matching_sample:
  "\<exists>args v r. parseArgs sample_release_env [] = Inr args \<and> read_json sample_release_env (oa_registry args) = Inr v
    \<and> validateRegistry split_url sample_dates v = Inr r \<and> registry_ok split_url sample_dates r"
  using passed_release_check_means_signed_and_matching [OF sample_release_exit] by blast

text \<open>
  C22: When the licence gate exits with 0, every external package at any depth of the dependency trees is permitted: an override for exactly its name and version is active (a complete, dated entry whose own licence is one bare identifier outside the forbidden families), or the package is on disk and its declared licence evaluates to permitted.
\<close>

theorem license_gate_permits_every_package:
  assumes "license_exit_code env = 0"
  shows "\<exists>os wss. loadOverrides (li_overrides env) = Inr os \<and> li_list env = Inr wss
    \<and> (\<forall>ws name version path deps. ws \<in> set wss \<and> in_tree ws name (DepNode (Some version) (Some path) deps) \<and> external_version version \<longrightarrow>
         (\<exists>ov\<in>set os. package_key (ov_name ov) (ov_version ov) = package_key name version \<and> isOverrideActive ov (li_today env)
            \<and> override_ok ov)
       \<or> (\<exists>dir pj l. li_exists env dir \<and> (package_key name version, dir) \<in> set (collectProdDeps wss)
            \<and> readPackageJson env dir = Inr pj \<and> extractLicenseString pj = Inr (Some l) \<and> evaluateExpression l = None))"
proof -
  have "check_licenses env = Inr []"
    using assms by (auto simp: license_exit_code_def split: sum.splits list.splits)
  from check_licenses_clean [OF this] obtain os wss where os: "loadOverrides (li_overrides env) = Inr os" "li_list env = Inr wss"
    and clean: "\<And>key path. (key, path) \<in> set (collectProdDeps wss) \<Longrightarrow> check_package env (override_map os key) path = Inr None"
    by blast
  have "(\<exists>ov\<in>set os. package_key (ov_name ov) (ov_version ov) = package_key name version \<and> isOverrideActive ov (li_today env)
            \<and> override_ok ov)
       \<or> (\<exists>dir pj l. li_exists env dir \<and> (package_key name version, dir) \<in> set (collectProdDeps wss)
            \<and> readPackageJson env dir = Inr pj \<and> extractLicenseString pj = Inr (Some l) \<and> evaluateExpression l = None)"
    if t: "ws \<in> set wss" "in_tree ws name (DepNode (Some version) (Some path) deps)" "external_version version"
    for ws name version path deps
  proof -
    from t have "package_key name version \<in> fst ` set (collectProdDeps wss)"
      unfolding collectProdDeps_keys tree_keys_def by blast
    then obtain dir where dir: "(package_key name version, dir) \<in> set (collectProdDeps wss)" by auto
    from check_package_ok [OF clean [OF this]] show ?thesis
    proof
      assume "\<exists>o'. override_map os (package_key name version) = Some o' \<and> isOverrideActive o' (li_today env)"
      then obtain ov where "override_map os (package_key name version) = Some ov" "isOverrideActive ov (li_today env)" by blast
      with override_map_Some loaded_overrides_ok [OF os(1)] show ?thesis by (metis list_all_iff)
    qed (use dir in blast)
  qed
  with os show ?thesis by blast
qed

lemma license_gate_permits_every_package_sample:
  "\<exists>os wss. loadOverrides (li_overrides sample_license_env) = Inr os \<and> li_list sample_license_env = Inr wss"
  using license_gate_permits_every_package [OF sample_license_exit] by blast

text \<open>
  C23: When the scan exits with 0, no file with a scanned extension, at any depth of any add-on directory under the scanned roots, contains at any position what one of the rules describes (as a language, without reference to the matcher). Left out, as by the walk itself, are files and directories whose own name begins with a dot or is node_modules, with all that such directories hold.
\<close>

theorem passed_scan_means_no_rule_matches:
  assumes "forbidden_exit_code tree = 0" "r \<in> set SCAN_ROOTS" "tree (js r) = Some (FDir (Some es))"
    and "addon_dir es inside" "shipped_file inside b" "(pattern, reason) \<in> set RULES" "i < length (utf8_decode_nobom b)"
  shows "\<not> (free_before (if i = 0 then None else Some (utf8_decode_nobom b ! (i - 1)))
    \<and> (\<exists>u v. drop i (utf8_decode_nobom b) = u @ v \<and> atoms_in pattern u))"
proof -
  have "\<forall>i<length (utf8_decode_nobom b). \<not> rule_at pattern (utf8_decode_nobom b) i"
    using bspec [OF exit_clean [OF assms(1-5)] assms(6)] by simp
  with assms(7) show ?thesis by (simp add: rule_at_def)
qed

lemma passed_scan_means_no_rule_matches_sample:
  "\<not> (\<exists>u v. drop 0 (js ''go()'') = u @ v \<and> atoms_in [Lit ''eval'', Space0, Lit ''(''] u)"
proof -
  have d: "addon_dir [(js ''chat'', FDir (Some sample_addon_files))] sample_addon_files"
    by (rule addon_here [of "js ''chat''"]) (simp_all add: skipped_name_def startsWith_def js_Cons)
  have f: "shipped_file sample_addon_files (utf8_encode (js ''go()''))"
    by (rule file_here [of "js ''main.js''"])
      (simp_all add: skipped_name_def startsWith_def js_Cons scanned_name_def extension_def FILE_EXTS_def)
  from passed_scan_means_no_rule_matches [OF sample_scan _ _ d f, of "''examples''" "[Lit ''eval'', Space0, Lit ''('']" "''no eval in add-ons''" 0]
  show ?thesis by (simp add: SCAN_ROOTS_def sample_tree_def RULES_def utf8_decode_nobom_encode free_before_def)
qed

text \<open>
  C24: A refresh of well-formed, distinct registry URLs, past the cache (the Refresh button) or not (the page's start, an entry added or removed), that starts while no other runs and while nothing but the answers to its requests happens, ends once each URL has been answered: each was fetched in the refresh's cache mode, in order, the rows are those of the registries that load, every other registry has its error, and the cache mode is what it was before.
\<close>

theorem lone_refresh_shows_what_loads:
  assumes "gl_runs s = []" "list_all well_formed (registries s)" "distinct (registries s)" "length envs = length (registries s)"
  shows "\<exists>s' os. run_events (gallery_step api c dates) (map (GLoaded (gl_nextRun s)) envs) (fst (refreshAll bypassCache s)) = Some (s', os)
    \<and> gl_rows s' = concat (map (\<lambda>(url, env). case loadFromUrl api c dates env url of Inl _ \<Rightarrow> [] | Inr l \<Rightarrow> lr_addons l)
        (zip (registries s) envs))
    \<and> gl_loadErrors s' = concat (map (\<lambda>(url, env). case loadFromUrl api c dates env url of Inl e \<Rightarrow> [(url, e)] | Inr _ \<Rightarrow> [])
        (zip (registries s) envs))
    \<and> gl_reload s' = gl_reload s \<and> gl_runs s' = []
    \<and> filter (\<lambda>out. \<exists>b u. out = GFetch b u) (snd (refreshAll bypassCache s) @ os) = map (GFetch bypassCache) (registries s)
    \<and> last (snd (refreshAll bypassCache s) @ os) = GDone (gl_nextRun s)"
proof -
  define s0 where "s0 = fst (refreshAll bypassCache s)"
  define s1 where "s1 = merge_loads api c dates (zip (registries s) envs) s0"
  obtain os where run: "run_events (gallery_step api c dates) (map (GLoaded (gl_nextRun s)) envs) (fst (refreshAll bypassCache s)) =
      Some (s1\<lparr>gl_status := loaded_status s1, gl_reload := gl_reload s, gl_runs := []\<rparr>, os)"
    and os: "snd (refreshAll bypassCache s) @ os = map (GFetch bypassCache) (registries s) @ rendered s1 @ [GDone (gl_nextRun s)]"
    using lone_refresh [of s envs api c dates bypassCache] assms(1,2,4) by (auto simp: listable_def s1_def s0_def)
  have "map fst (zip (registries s) envs) = registries s" using assms(4) by simp
  then have e: "gl_loadErrors s1 = concat (map (\<lambda>(url, env). case loadFromUrl api c dates env url of
      Inl e \<Rightarrow> [(url, e)] | Inr _ \<Rightarrow> []) (zip (registries s) envs))"
    using merge_loads_errors [of "zip (registries s) envs" s0 api c dates] assms(3) by (simp add: s1_def s0_def refreshAll_cleared)
  have r: "filter (\<lambda>out. \<exists>b u. out = GFetch b u) (rendered s1) = []"
    by (simp add: rendered_def split: sum.split)
  have f: "filter (\<lambda>out. \<exists>b u. out = GFetch b u) (map (GFetch bypassCache) us) = map (GFetch bypassCache) us" for us
    by (induction us) auto
  have "gl_rows s1 = concat (map (\<lambda>(url, env). case loadFromUrl api c dates env url of
      Inl _ \<Rightarrow> [] | Inr l \<Rightarrow> lr_addons l) (zip (registries s) envs))"
    by (simp add: s1_def s0_def merge_loads_rows refreshAll_cleared)
  moreover have "filter (\<lambda>out. \<exists>b u. out = GFetch b u) (snd (refreshAll bypassCache s) @ os) = map (GFetch bypassCache) (registries s)"
    "last (snd (refreshAll bypassCache s) @ os) = GDone (gl_nextRun s)"
    unfolding os by (simp_all add: r f)
  ultimately show ?thesis using e unfolding run by simp
qed

lemma lone_refresh_shows_what_loads_sample:
  "\<exists>(s' :: gallery) os. run_events (gallery_step sample_page (Some sample_crypto) sample_dates)
      [GLoaded 0 \<lparr>ge_fetch = \<lambda>_. Inl (Thrown ''TypeError'' ''''), ge_manifest_first = \<lambda>_. True\<rparr>]
      (fst (gallery_start (js ''reg'') (Inr None) None)) = Some (s', os)
    \<and> gl_rows s' = [] \<and> gl_loadErrors s' = [(js ''reg'', Thrown ''TypeError'' '''')] \<and> gl_reload s' = False"
  using lone_refresh_shows_what_loads [of "gallery_init (js ''reg'') (Inr None) None"
      "[\<lparr>ge_fetch = \<lambda>_. Inl (Thrown ''TypeError'' ''''), ge_manifest_first = \<lambda>_. True\<rparr>]"
      sample_page "Some sample_crypto" sample_dates False]
  by (auto simp: gallery_init_def gallery_start_def readRegistries_def registries_def loadFromUrl_def fetchJson_def
      simp del: run_events.simps)

text \<open>
  C25: The gallery's looser checks accept what the publishing side's validator accepts, of every schema version: a validated registry is recognised and keeps its trusted keys; if the addresses of its add-ons' files can be formed, it loads, whatever the requests and the signatures come to, each of its add-ons becomes one row, in order, and those rows never make a filter throw.
\<close>

theorem validated_registry_is_shown:
  assumes "validateRegistry api' dates v = Inr r"
    and "\<forall>a\<in>set (rg_addons r). is_ok (then_ok (manifestUrlFor api url (ra_path a)) (sigUrlFor api))"
  shows "isRegistry v \<and> trusted_keys (own_fields v) = rg_trustedKeys r
    \<and> (\<exists>rows. load_registry api c dates' env opts url v = Inr (own_fields v, rows)
      \<and> map (\<lambda>row. fld (rw_addon row) ''id'') rows = map (Str \<circ> ra_id) (rg_addons r)
      \<and> is_ok (unionCategories rows) \<and> is_ok (visible_rows lower filters rows))"
proof -
  obtain rows where l: "load_registry api c dates' env opts url v = Inr (own_fields v, rows)"
    using validated_registry_loads [OF assms] by blast
  note plain = validated_rows_plain [OF assms(1) l]
  have "is_ok (visible_rows lower filters rows)"
    by (rule visible_rows_ok) (use plain plain_row_visible in \<open>auto simp: list_all_iff\<close>)
  with l plain plain_rows_filters validated_registry(1,2) [OF assms(1)] show ?thesis by blast
qed

lemma validated_registry_is_shown_sample:
  "\<exists>row. load_registry sample_page (Some sample_crypto) sample_dates sample_gallery_env no_options (js ''reg'') (registry_val sample_registry)
      = Inr (own_fields (registry_val sample_registry), [row])
    \<and> fld (rw_addon row) ''id'' = Str (js ''org.senn.chat'') \<and> is_ok (unionCategories [row])"
proof -
  have v: "validateRegistry split_url sample_dates (registry_val sample_registry) = Inr sample_registry"
    by (rule registry_complete [OF sample_registry_ok])
  have u: "\<forall>a\<in>set (rg_addons sample_registry). is_ok (then_ok (manifestUrlFor sample_page (js ''reg'') (ra_path a)) (sigUrlFor sample_page))"
    by (simp add: sample_registry_def manifestUrlFor_def sigUrlFor_def sample_page_def new_URL_def)
  have i: "map (Str \<circ> ra_id) (rg_addons sample_registry) = [Str (js ''org.senn.chat'')]"
    by (simp add: sample_registry_def sample_registry_addon_def)
  from validated_registry_is_shown [OF v u] i show ?thesis by (fastforce simp: map_eq_Cons_conv)
qed

text \<open>
  C26: In the same system, for an add-on that declares audio.level: while its host listens, and once the messages it posted have been handled, the host is subscribed to the microphone's level exactly when a handler is registered with the SDK, however handlers came and went.
\<close>

theorem level_follows_the_handlers:
  assumes "js ''audio.level'' \<in> set (am_permissions m)"
    and "reach (bridge_step B) (mounted_bridge (loaded m lnk hs st cap snk now cnt)) es b"
    and "ah_listening (hc_host (br_host b))" "ah_iframe (hc_host (br_host b))" "br_up b = []"
  shows "ah_audioLevel (hc_host (br_host b)) \<longleftrightarrow> sd_audio (br_sdk b) \<noteq> []"
  by (rule level_follows_handlers [OF assms])

lemma level_follows_the_handlers_sample:
  "\<exists>es b. reach (bridge_step memory_backend) (mounted_bridge meter_host) es b \<and> sd_audio (br_sdk b) = [7]
    \<and> ah_audioLevel (hc_host (br_host b))"
proof -
  obtain es b where r: "reach (bridge_step memory_backend) (mounted_bridge meter_host) es b"
    and b: "sd_audio (br_sdk b) = [7]" "ah_listening (hc_host (br_host b))" "ah_iframe (hc_host (br_host b))" "br_up b = []"
    using meter_bridge_run run_events_reach [OF reach_start] by (metis append_Nil)
  from level_follows_the_handlers [OF meter_permission r [unfolded meter_host_def] b(2-4)] r b(1) show ?thesis by auto
qed

text \<open>
  C27: A file the picker offers, of at most 700 KiB with a name of at most 250 code units and a type of at most 1000, fits the store whatever characters its name has: the put is accepted, and as long as no later request of the add-on overwrites or deletes its key or clears the store, a get answers a record that the page can list and whose download is the file, with its name, its type and its bytes.
\<close>

theorem picked_file_is_kept:
  assumes "length bs \<le> STORAGE_DEMO_LIMIT" "length name \<le> 250" "length type \<le> 1000"
    and "list_all (leaves (KEY_PREFIX @ name)) later"
  shows "\<exists>req rec. snd (buffer_read name type bs v) = [VoCall (DoStorage req)]
    \<and> map_answers (before @ [req]) m ! length before = Inr Null
    \<and> map_answers (before @ [req] @ later @ [RGet (Str (KEY_PREFIX @ name))]) m ! (length before + length later + 1) = Inr rec
    \<and> row_prints rec \<and> snd (downloadKey rec w) = [VoDownload (Str name) (Str (file_mime type)) bs]"
  by (rule kept_file [OF assms])

lemma picked_file_is_kept_sample:
  "\<exists>req rec. snd (buffer_read (js ''a.txt'') [] [1, 2, 3] new_vault) = [VoCall (DoStorage req)]
    \<and> map_answers [RClear, req, RList, RDelete (Str (js ''other'')), RGet (Str (js ''vault/a.txt''))] Map.empty ! 4 = Inr rec
    \<and> snd (downloadKey rec new_vault) = [VoDownload (Str (js ''a.txt'')) (Str (js ''application/octet-stream'')) [1, 2, 3]]"
proof -
  let ?later = "[RList, RDelete (Str (js ''other''))]"
  have k: "KEY_PREFIX @ js ''a.txt'' = js ''vault/a.txt''" by (simp add: KEY_PREFIX_def js_def)
  have "length [1 :: 8 word, 2, 3] \<le> STORAGE_DEMO_LIMIT" "length (js ''a.txt'') \<le> 250" "length ([] :: jsstring) \<le> 1000"
    "list_all (leaves (KEY_PREFIX @ js ''a.txt'')) ?later"
    by (simp_all add: STORAGE_DEMO_LIMIT_def k)
  from picked_file_is_kept [OF this, of new_vault "[RClear]" Map.empty new_vault] obtain req rec where
    "snd (buffer_read (js ''a.txt'') [] [1, 2, 3] new_vault) = [VoCall (DoStorage req)]"
    "map_answers ([RClear] @ [req] @ ?later @ [RGet (Str (js ''vault/a.txt''))]) Map.empty ! (length [RClear] + length ?later + 1) = Inr rec"
    "snd (downloadKey rec new_vault) = [VoDownload (Str (js ''a.txt'')) (Str (file_mime [])) [1, 2, 3]]"
    unfolding k by blast
  moreover have "length [RClear] + length ?later + 1 = 4" by simp
  moreover have "file_mime [] = js ''application/octet-stream''" by (simp add: file_mime_def)
  ultimately show ?thesis by (metis append_Cons append_Nil)
qed

text \<open>
  C28: When the inviter has an offer under way (it is making it, or it is set and still unanswered: the connection is neither stable nor has it a remote offer) and receives the joiner's, it ignores that; the joiner, in whatever signaling state, applies the inviter's offer and, once its description is set, publishes an answer addressed to the inviter, which the inviter accepts and applies.
\<close>

theorem glare_has_one_winner:
  assumes "paired a b" "ps_role a = Inviter" "ps_role b = Joiner"
    and "ps_makingOffer a \<or> sa \<noteq> SgStable \<and> sa \<noteq> SgHaveRemoteOffer" "da \<noteq> []"
  shows "handleSignalingMessage sa (Offer (ps_localPeerId b) db) a = (a\<lparr>ps_ignoreOffer := True\<rparr>, [], [])
    \<and> (\<exists>b1 a1. handleSignalingMessage sb (Offer (ps_localPeerId a) dx) b = (b1, [FSetRemote ''offer'' dx], [TOfferRemote])
      \<and> offer_applied Done b1 = (b1, [FSetLocal], [TOfferLocal])
      \<and> offer_described (DoneDesc (Some da)) b1 =
          (b1, [FPublish (Answer (ps_localPeerId b) (ps_localPeerId a) da)], [TOfferPub])
      \<and> handleSignalingMessage sc (Answer (ps_localPeerId b) (ps_localPeerId a) da) (a\<lparr>ps_ignoreOffer := True\<rparr>) =
          (a1, [FSetRemote ''answer'' da], [TAnswerRemote]) \<and> remote_of a1 = Some (ps_localPeerId b))"
  using glare_ignored [OF assms, of db] glare_answered [OF assms, of sb dx sc] by blast

lemma glare_has_one_winner_sample:
  "handleSignalingMessage SgHaveLocalOffer (Offer peer_b (js ''v=1'')) sample_open = (sample_open\<lparr>ps_ignoreOffer := True\<rparr>, [], [])
    \<and> \<not> ps_makingOffer sample_open"
proof -
  let ?b = "(new_session Joiner room_1 peer_b None)\<lparr>ps_pc := True, ps_state := SConnecting\<rparr>"
  have p: "paired sample_open ?b"
    using peer_ids by (simp add: paired_def sample_open_def new_session_def remote_of_def peer_b_def del: isPeerId.simps)
  have r: "ps_role sample_open = Inviter" "ps_role ?b = Joiner"
    "ps_makingOffer sample_open \<or> SgHaveLocalOffer \<noteq> SgStable \<and> SgHaveLocalOffer \<noteq> SgHaveRemoteOffer" "js ''v=2'' \<noteq> []"
    by (simp_all add: sample_open_def new_session_def)
  have "ps_localPeerId ?b = peer_b" "\<not> ps_makingOffer sample_open" by (simp_all add: sample_open_def new_session_def)
  then show ?thesis using glare_has_one_winner [OF p r, of "js ''v=1''"] by simp
qed

text \<open>
  C29: Once the bye publication that close waits for has ended, however it ended and whatever happened in between, the session holds no peer connection, no channel and no signaling subscription, and never gets one again on any continuation.
\<close>

theorem close_releases_everything:
  assumes "initial c0" "reached c0 es0 c" "n < length (cf_tasks c)" "cf_tasks c ! n = TCloseBye"
    and "ps_step c (Resume now n res, es) c1" "reached c1 es2 c2"
  shows "ps_state (cf_session c2) \<noteq> SIdle \<and> \<not> ps_pc (cf_session c2) \<and> \<not> ps_channel (cf_session c2)
    \<and> \<not> ps_binChannel (cf_session c2) \<and> \<not> ps_subscribed (cf_session c2)"
  using close_releases [OF assms] by (simp add: released_def)

lemma close_releases_everything_sample:
  "\<exists>es c1. ps_step \<lparr>cf_session = sample_open\<lparr>ps_state := SClosed\<rparr>, cf_tasks = [TCloseBye]\<rparr> (Resume 0 0 (Rejected ''offline''), es) c1
    \<and> ps_state (cf_session c1) \<noteq> SIdle \<and> \<not> ps_pc (cf_session c1) \<and> \<not> ps_channel (cf_session c1)
    \<and> \<not> ps_binChannel (cf_session c1) \<and> \<not> ps_subscribed (cf_session c1)"
proof -
  let ?c = "\<lparr>cf_session = sample_open\<lparr>ps_state := SClosed\<rparr>, cf_tasks = [TCloseBye]\<rparr>"
  obtain c1 es where step: "ps_step ?c (Resume 0 0 (Rejected ''offline''), es) c1"
    by (auto simp: ps_step_unfold enabled_def)
  show ?thesis
    using close_releases_everything [OF sample_initial sample_reached _ _ step reached_start] step
    by (intro exI [of _ es] exI [of _ c1]) simp
qed

text \<open>
  C30: The link a joining page exports, pasted into the inviter's import field, hands the inviter's session exactly the joiner's messages, in order, and leaves its room and session as they were.
\<close>

theorem answer_link_reaches_the_inviter:
  assumes "streams_inverse (we_deflate B) (we_inflate B)" "we_inflate A = we_inflate B" "base_ok (we_api A) (we_base B)"
    and "joiner_page r ms q" "bundle_ok \<lparr>bundle_roomId = r, bundle_messages = ms\<rparr>" "bundle_clean \<lparr>bundle_roomId = r, bundle_messages = ms\<rparr>"
    and "wp_room p \<noteq> None" "\<not> uf_closed (wp_transport p)" "uf_listeners (wp_transport p) r = [h]" "uf_imports (wp_transport p) = []"
    and "\<forall>t\<in>set (wp_tasks p). imports_other (uf_next_import (wp_transport p)) t" "j = length (wp_tasks q)"
  shows "\<exists>q' p' os. run_events (web_step B) [WExport, WResume j AOk] q = Some (q', [])
    \<and> run_events (web_step A) [WTypeImport (wp_exportOut q'), WImport, WAdapter (UfDecoded (uf_next_import (wp_transport p)))] p = Some (p', os)
    \<and> filter handler_out os = map (WHandler h) ms \<and> wp_room p' = wp_room p \<and> wp_session p' = wp_session p \<and> wp_tasks p' = wp_tasks p"
proof -
  obtain enc where enc: "run_events (web_step B) [WExport, WResume j AOk] q
      = Some (q\<lparr>wp_transport := (wp_transport q)\<lparr>uf_outbox := al_del r (uf_outbox (wp_transport q))\<rparr>,
          wp_exportOut := bundle_link B enc\<rparr>, [])"
      "set enc \<subseteq> set B64_ALPHABET" "enc \<noteq> []" "decodeSignalingBundle (we_inflate A) enc = Inr \<lparr>bundle_roomId = r, bundle_messages = ms\<rparr>"
    using export_bundle [OF assms(1,4-6)] assms(2,12) by auto
  from import_answer [OF assms(7-11,3) enc(2-4)] show ?thesis
    unfolding enc(1) by (auto simp: bundle_link_def simp del: web_step.simps run_events.simps)
qed

lemma answer_link_reaches_the_inviter_sample:
  "\<exists>q' p' os. run_events (web_step sample_web) [WExport, WResume 0 AOk] sample_joiner = Some (q', [])
     \<and> run_events (web_step sample_web) [WTypeImport (wp_exportOut q'), WImport, WAdapter (UfDecoded 0)] sample_inviter = Some (p', os)
     \<and> filter handler_out os = [WHandler 5 (Bye peer_b)]"
proof -
  have p: "wp_room sample_inviter \<noteq> None" "\<not> uf_closed (wp_transport sample_inviter)"
      "uf_listeners (wp_transport sample_inviter) room_1 = [5]" "uf_imports (wp_transport sample_inviter) = []"
      "\<forall>t\<in>set (wp_tasks sample_inviter). imports_other (uf_next_import (wp_transport sample_inviter)) t"
      "uf_next_import (wp_transport sample_inviter) = 0" "0 = length (wp_tasks sample_joiner)"
    by (simp_all add: sample_inviter_def sample_joiner_def empty_page_def new_url_fragment_def uf_listeners_def)
  have hyps: "streams_inverse (we_deflate sample_web) (we_inflate sample_web)" "base_ok (we_api sample_web) (we_base sample_web)"
    using sample_base_ok by simp_all
  from answer_link_reaches_the_inviter [OF hyps(1) refl hyps(2) sample_pages(2) sample_byes(3,4) p(1-5) p(7)] p(6)
  show ?thesis by (simp del: web_step.simps run_events.simps) blast
qed

text \<open>
  C31: As long as retry is not pressed again while a retry is under way, every session the page has ever opened is either its current one or was asked to close, whatever else happens in between.
\<close>

theorem lone_retries_close_every_session:
  assumes "\<forall>k. \<exists>r. newRoomId (we_random env k) = Inr r" "page_start env href = (p0, os0)"
    and "reach (calm_step env) p0 os p" "n < length (wp_sessions p)"
  shows "wp_session p = Some n \<or> WCloseSession n \<in> set os"
  using calm_run_keeps_sessions [OF assms(1-3)] assms(4) by (simp add: sessions_kept_def)

lemma lone_retries_close_every_session_sample:
  "\<exists>p os. reach (calm_step sample_web) (fst (page_start sample_web (js ''https://senn.app/''))) os p
     \<and> length (wp_sessions p) = 2 \<and> (wp_session p = Some 0 \<or> WCloseSession 0 \<in> set os)"
proof -
  obtain p0 os0 where p0: "page_start sample_web (js ''https://senn.app/'') = (p0, os0)"
    "wp_tasks p0 = [TOfficial, THandoff, TBoot (js ''https://senn.app/'')]" "wp_room p0 = None" "wp_sessions p0 = []" "wp_addonHost p0 = None"
    using sample_page_start by blast
  obtain r where r: "newRoomId (Some (replicate 16 0)) = Inr r" using sample_rooms by auto
  have "\<exists>p os. run_events (calm_step sample_web) [WCreate, WResume 3 AOk, WSessionState 0 SFailed 0, WRetry, WResume 3 AOk] p0 = Some (p, os)
      \<and> length (wp_sessions p) = 2"
    using p0(2-5)
    by (simp add: calm_step_def startInviter_def open_session_def attachSession_def wait_def Let_def prepend_def r on_session_state_def
        resetForRetry_def retry_session_closed_def retry_host_def retry_reset_def setSessionState_def)
  then obtain p os where run: "run_events (calm_step sample_web) [WCreate, WResume 3 AOk, WSessionState 0 SFailed 0, WRetry, WResume 3 AOk] p0
      = Some (p, os)" "length (wp_sessions p) = 2" by blast
  have reach: "reach (calm_step sample_web) p0 os p" using run_events_reach [OF reach_start run(1)] by simp
  show ?thesis
    using lone_retries_close_every_session [OF sample_rooms p0(1) reach, of 0] p0(1) reach run(2) by auto
qed

text \<open>
  C32: The URL built for an invite and a signaling bundle is at most 2048 characters long and parses back into exactly that invite and that bundle, for every URL class and compression pair that keep what they are given.
\<close>

theorem invite_bundle_url_roundtrip:
  assumes "url_api_ok api" "streams_inverse deflate inflate"
    and "validateInvitePayload v = Inr p" "validateSignalingBundle w = Inr b" "json_clean w"
    and "buildInviteBundleUrl api deflate base v w = Inr href"
  shows "parseInviteBundleUrl api inflate href = Inr \<lparr>parsed_invite = p, parsed_bundle = Some b\<rparr> \<and> length href \<le> 2048"
  by (rule parse_build_invite_bundle_url [OF assms])

lemma invite_bundle_url_roundtrip_sample:
  "\<exists>href. buildInviteBundleUrl split_url stored (js ''https://senn.app/'') (invite_val sample_invite) (bundle_val sample_bundle) = Inr href
    \<and> parseInviteBundleUrl split_url stored href = Inr \<lparr>parsed_invite = sample_invite, parsed_bundle = Some sample_bundle\<rparr>"
proof -
  have v: "validateInvitePayload (invite_val sample_invite) = Inr sample_invite"
    using sample_invite_ok validate_invite_val by blast
  have w: "validateSignalingBundle (bundle_val sample_bundle) = Inr sample_bundle"
    by (rule validate_bundle_val [OF sample_bundle_ok(1)])
  have c: "json_clean (bundle_val sample_bundle)" by (rule json_clean_bundle [OF sample_bundle_ok(2)])
  obtain href where built: "buildInviteBundleUrl split_url stored (js ''https://senn.app/'') (invite_val sample_invite) (bundle_val sample_bundle) = Inr href"
    using sample_url_built by (auto simp: is_ok_ex)
  show ?thesis
    using invite_bundle_url_roundtrip [OF split_url_ok streams_inverse_stored v w c built] built by blast
qed

text \<open>
  C33: On every expression the gate supports (one identifier, a choice or a conjunction of two or more, in any number of brackets) the evaluator of texts permits exactly what the expression means: an allowed identifier, some allowed alternative, or only allowed parts.
\<close>

theorem licence_expressions_evaluate_as_meant:
  assumes "spdx_ok e"
  shows "evaluateExpression (spdx_text e) = None \<longleftrightarrow> permitted e"
  by (rule evaluates_as_meant [OF assms])

lemma licence_expressions_evaluate_as_meant_sample:
  "evaluateExpression (js ''((MIT AND LGPL-2.1))'') \<noteq> None"
proof -
  let ?e = "Parens (Parens (AllOf [js ''MIT'', js ''LGPL-2.1'']))"
  have "spdx_text ?e = js ''((MIT AND LGPL-2.1))''" by (simp add: js_Cons)
  moreover have "spdx_ok ?e"
    by (simp add: plain_license_def bare_identifier_def has_word_def js_Cons word_here_def startsWith_def in_cls_def)
  moreover have "\<not> permitted ?e" by (simp add: Licenses.allowed_def ALLOWED_def)
  ultimately show ?thesis using licence_expressions_evaluate_as_meant [of ?e] by simp
qed

text \<open>
  C34: Whatever an add-on asks of its host, what any other add-on has in the shared in-memory store never changes.
\<close>

theorem host_leaves_other_stores_alone:
  assumes "manifest_ok m" "memory_inv st" "b \<noteq> am_id m"
    and "reach (host_step memory_backend) (loaded m lnk hs st cap snk now cnt) os c"
  shows "memory_ns (ah_store (hc_host c)) b = memory_ns st b"
  by (rule host_store_isolated [OF assms])

lemma host_leaves_other_stores_alone_sample:
  "\<exists>c os. reach (host_step memory_backend) sample_loaded os c \<and> os \<noteq> []
    \<and> memory_ns (ah_store (hc_host c)) (js ''org.other'') = memory_ns \<lparr>mem_map = [], mem_closed = False\<rparr> (js ''org.other'')"
proof -
  obtain c b where r: "reach (host_step memory_backend) sample_loaded
     [OState HInitialized, OPost (BInit (js ''org.senn'') (js ''1.0.0'') b), OState HActive] c"
    using sample_host_reach by blast
  have "memory_inv \<lparr>mem_map = [], mem_closed = False\<rparr>" "js ''org.other'' \<noteq> am_id sample_manifest"
    by (simp_all add: memory_inv_def sample_manifest_def)
  from host_leaves_other_stores_alone [OF sample_manifest_ok this r [unfolded sample_loaded_def]] r show ?thesis by blast
qed

text \<open>
  C35: However relays repeat and reorder events, the Nostr adapter never gives the handler of a room object two events with the same id.
\<close>

theorem nostr_events_reach_handlers_once:
  assumes "new_nostr relays ws v2 = Inr st0" "reach (ns_step E) st0 os st"
  shows "sorted_wrt (\<lambda>a b. \<not> same_call a b) (ns_calls os)"
  by (rule nostr_delivers_once [OF assms])

lemma nostr_events_reach_handlers_once_sample:
  "\<exists>os. settled_pubs os = [(0, None)] \<and> sorted_wrt (\<lambda>a b. \<not> same_call a b) (ns_calls os)"
proof -
  obtain st os where r: "run_events (ns_step sample_nostr) sample_nostr_events sample_nostr_start = Some (st, os)" "settled_pubs os = [(0, None)]"
    using sample_nostr_run by blast
  show ?thesis
    using nostr_events_reach_handlers_once [OF sample_nostr_made run_events_reach [OF reach_start r(1)]] r(2) by auto
qed

text \<open>
  C36: A publication that waits for its relays' answers ends: its acknowledgement timer is still running, and when it fires the publication rejects with a timeout and is over.
\<close>

theorem nostr_publish_cannot_hang:
  assumes "new_nostr relays ws v2 = Inr st0" "run_events (ns_step E) evs st0 = Some (st, os)"
    and "n < length (ns_pubs st)" "pb_phase (ns_pubs st ! n) = PubAck"
  shows "\<exists>st'. ns_step E (NsAckTimeout n) st = Some (st', [NPublished n (Some (publish_error ''ack timeout''))])
    \<and> pb_phase (ns_pubs st' ! n) = PubOver"
  by (rule nostr_publish_ends [OF assms])

lemma nostr_publish_cannot_hang_sample:
  "\<exists>st st'. ns_step sample_nostr (NsAckTimeout 0) st = Some (st', [NPublished 0 (Some (publish_error ''ack timeout''))])"
proof -
  obtain st os where "run_events (ns_step sample_nostr) (take 5 sample_nostr_events) sample_nostr_start = Some (st, os)"
      "0 < length (ns_pubs st)" "pb_phase (ns_pubs st ! 0) = PubAck"
    using sample_nostr_waits by blast
  from nostr_publish_cannot_hang [OF sample_nostr_made this] show ?thesis by blast
qed

text \<open>
  C37: The presence add-on holds back changes of state, but loses none that matters: in every state it reaches, whenever no flush timer is left, the last state it sent to the peer is the one its page shows.
\<close>

theorem last_presence_state_is_sent:
  assumes "reach avatar_step (fst new_avatar) os v" "list_all (\<lambda>t. \<not> is_flush t) (av_timers v)" "sent_states os \<noteq> []"
  shows "last (sent_states os) = avatar_send (state_payload (av_speaking v, av_emotion v))"
  by (rule last_state_is_sent [OF assms])

lemma last_presence_state_is_sent_sample:
  "\<exists>os v. reach avatar_step (fst new_avatar) os v \<and> av_speaking v \<and> av_emotion v = js ''happy''
    \<and> last (sent_states os) = avatar_send (state_payload (True, js ''happy''))"
proof -
  obtain os v where r: "reach avatar_step (fst new_avatar) os v"
    and v: "av_speaking v" "av_emotion v = js ''happy''" "av_timers v = []" "sent_states os \<noteq> []"
    using presence_run run_events_reach [OF reach_start] by (metis append_Nil)
  from last_presence_state_is_sent [OF r _ v(4)] r v show ?thesis by auto
qed



text \<open>
  C39: The constructor of the HTTP adapter accepts exactly a non-empty endpoint with no interval or one of 200 to 60000 ms or NaN (which both comparisons let through); the adapter then has the interval given, or 1000 ms without one, and the endpoint given without the slashes at its end.
\<close>

theorem poll_interval_is_bounded_unless_nan:
  "case new_http_poll endpoint interval of
     Inl _ \<Rightarrow> \<not> (endpoint \<noteq> [] \<and> (interval = None \<or> interval = Some NaN \<or> (\<exists>q. interval = Some (Fin q) \<and> q \<in> {200..60000})))
   | Inr st \<Rightarrow> endpoint \<noteq> [] \<and> (interval = None \<or> interval = Some NaN \<or> (\<exists>q. interval = Some (Fin q) \<and> q \<in> {200..60000}))
       \<and> hp_interval st = (case interval of None \<Rightarrow> Fin 1000 | Some i \<Rightarrow> i)
       \<and> (\<exists>n. endpoint = hp_endpoint st @ replicate n (ch CHR ''/''))
       \<and> (\<nexists>p. hp_endpoint st = p @ [ch CHR ''/''])"
proof -
  have "\<exists>n. endpoint = strip_slashes endpoint @ replicate n (ch CHR ''/'')" "\<nexists>p. strip_slashes endpoint = p @ [ch CHR ''/'']"
    by (rule stripped_rest, rule stripped_end)
  then show ?thesis
    by (cases interval rule: option.exhaust; cases "the interval")
      (auto simp: new_http_poll_def Let_def MIN_INTERVAL_MS_def MAX_INTERVAL_MS_def DEFAULT_INTERVAL_MS_def)
qed

text \<open>
  C40: A session whose text channel is closed by the other side becomes closed but keeps its peer connection and its subscription, and then neither close nor an incoming bye does anything.
\<close>

theorem remote_close_never_releases:
  assumes "ps_channel s" "ps_pc s" "ps_state s \<noteq> SClosed"
  shows "\<exists>s'. channel_onclose s = (s', [EState SClosed], []) \<and> ps_pc s' \<and> ps_subscribed s' = ps_subscribed s
    \<and> close_session s' = (s', [], []) \<and> handleSignalingMessage sg (Bye f) s' = (s', [], [])"
  using remote_close_leaks [OF assms(1,3)] assms(2)
  by (intro exI [of _ "s\<lparr>ps_state := SClosed\<rparr>"]) (simp add: handleSignalingMessage_def)

lemma remote_close_never_releases_sample:
  "\<exists>s'. channel_onclose sample_open = (s', [EState SClosed], []) \<and> ps_pc s' \<and> ps_subscribed s' = ps_subscribed sample_open
    \<and> close_session s' = (s', [], []) \<and> handleSignalingMessage SgStable (Bye peer_b) s' = (s', [], [])"
  by (rule remote_close_never_releases) (simp_all add: sample_open_def)

subsection \<open>Further facts\<close>

text \<open>
  On any run the statuses announced to the listeners lead from idle to the current status by legal changes only: never back to idle, to connecting only from idle, from closed at most to connected (the window while bye is being published), and never the same status twice in a row.
\<close>

theorem status_follows_announcements:
  assumes "initial c0" "reached c0 es c"
  shows "last (SIdle # statuses es) = ps_state (cf_session c) \<and> successively legal (SIdle # statuses es)"
  by (rule reached_statuses [OF assms])

lemma status_follows_announcements_sample:
  "last (SIdle # statuses sample_effects) = SClosed \<and> successively legal (SIdle # statuses sample_effects)"
  using status_follows_announcements [OF sample_initial sample_reached] by simp

text \<open>
  Whatever a URL holds, and whatever the compression streams return, a parsed invite is valid, and a bundle that comes with it is valid, is for the invite's room, and holds only messages of the inviting peer.
\<close>

theorem parsed_invite_bundle_is_consistent:
  assumes "parseInviteBundleUrl api inflate href = Inr r"
  shows "invite_ok (parsed_invite r) \<and> pred_option (\<lambda>b. bundle_ok b \<and> bundle_roomId b = inv_roomId (parsed_invite r)
       \<and> list_all (\<lambda>m. msg_from m = inv_from (parsed_invite r)) (bundle_messages b)) (parsed_bundle r)"
  using parseInviteBundleUrl_ok [OF assms] by (auto simp: option.pred_set list_all_iff)

lemma parsed_invite_bundle_is_consistent_sample:
  "invite_ok sample_invite"
proof -
  have v: "validateInvitePayload (invite_val sample_invite) = Inr sample_invite"
    using sample_invite_ok validate_invite_val by blast
  obtain s where s: "set s \<subseteq> set B64_ALPHABET" "s \<noteq> []" "decodeInvite stored s = Inr sample_invite"
    using decode_encode_invite [OF streams_inverse_stored v] by blast
  have "parseInviteBundleUrl split_url stored (js ''https://senn.app/#'' @ param_text (js ''i'') s) =
      Inr \<lparr>parsed_invite = sample_invite, parsed_bundle = None\<rparr>"
    using s(1,2,3) by (rule sample_invite_url_parsed)
  from parsed_invite_bundle_is_consistent [OF this] show ?thesis by simp
qed

text \<open>
  Two objects that validate as the same invite, whatever the order of their fields, encode to the same text.
\<close>

theorem invite_encoding_is_canonical:
  assumes "validateInvitePayload v = Inr p" "validateInvitePayload w = Inr p"
  shows "encodeInvite deflate v = encodeInvite deflate w"
  by (rule encodeInvite_canonical [OF assms])

lemma invite_encoding_is_canonical_sample:
  "encodeInvite stored (Obj (rev [(js ''v'', jint 1), (js ''roomId'', Str room_1), (js ''from'', Str peer_a),
     (js ''protocolVersion'', Str (js ''0.1.0'')), (js ''capabilities'', Arr [Str (js ''text-v1'')])]))
   = encodeInvite stored (invite_val sample_invite)"
proof (rule invite_encoding_is_canonical [where p = sample_invite])
  show "validateInvitePayload (invite_val sample_invite) = Inr sample_invite"
    using sample_invite_ok validate_invite_val by blast
qed (use sample_invite_ok in \<open>auto simp: validateInvitePayload_fields sample_invite_def INVITE_ALLOWED_KEYS_def simp del: isPeerId.simps isRoomId.simps\<close>)

text \<open>
  An object validates as a signaling message exactly when its fields, in whatever order, are those of that message's own object (no field missing, none extra) and its ids, description and candidate are well formed.
\<close>

theorem message_schema_is_closed:
  assumes "distinct (map fst fs)"
  shows "validateMessage (Obj fs) i = Inr m \<longleftrightarrow> msg_ok m \<and> set fs = set (msg_fields m)"
  by (rule validateMessage_schema [OF assms])

lemma message_schema_is_closed_sample:
  "validateMessage (Obj [(js ''from'', Str peer_a), (js ''kind'', Str (js ''bye''))]) 3 = Inr (Bye peer_a)"
  using message_schema_is_closed [of "[(js ''from'', Str peer_a), (js ''kind'', Str (js ''bye''))]" 3 "Bye peer_a"]
  by (auto simp del: isPeerId.simps)

text \<open>
  A valid signaling bundle whose candidates hold what JSON can express encodes, and decoding the text gives the same bundle.
\<close>

theorem bundle_roundtrip:
  assumes "streams_inverse deflate inflate" "bundle_ok b" "bundle_clean b"
  shows "\<exists>s. encodeSignalingBundle deflate (bundle_val b) = Inr s \<and> decodeSignalingBundle inflate s = Inr b"
  by (rule decodeSignalingBundle_encode [OF assms])

lemma bundle_roundtrip_sample:
  "\<exists>s. encodeSignalingBundle stored (bundle_val sample_bundle) = Inr s \<and> decodeSignalingBundle stored s = Inr sample_bundle"
  by (rule bundle_roundtrip [OF streams_inverse_stored sample_bundle_ok])

text \<open>
  A receiver that parses the JSON text of a valid add-on envelope gets the envelope with its payload as JSON leaves it; a payload that is undefined makes the receiver drop the whole envelope.
\<close>

theorem envelope_over_the_wire:
  assumes "envelope_ok e" "envelope_wire_ok e" "json_str (envelope_val e) = Some t"
  shows "tryParseAddonEnvelope t =
    (if env_payload e = Undef then None else Some (e\<lparr>env_payload := json_norm (env_payload e)\<rparr>))"
  by (rule tryParse_stringify [OF assms])

lemma envelope_over_the_wire_sample:
  "\<exists>t. json_str (envelope_val sample_envelope) = Some t
    \<and> tryParseAddonEnvelope t = Some (sample_envelope\<lparr>env_payload := Arr [Null, Bool True]\<rparr>)"
proof -
  obtain t where t: "json_str (envelope_val sample_envelope) = Some t" using json_str_envelope by blast
  from envelope_over_the_wire [OF sample_envelope_ok t] t show ?thesis
    by (auto simp: sample_envelope_def)
qed

text \<open>
  Peer ids made at different times compare, as JavaScript strings, in the order of those times, whatever their random parts.
\<close>

theorem peer_ids_sort_by_time:
  assumes "length r1 = 10" "length r2 = 10" "t1 < t2" "t2 \<le> 0xFFFFFFFFFFFF"
  shows "\<exists>s1 s2. newPeerId (Fin (of_nat t1)) (Some r1) = Inr s1 \<and> newPeerId (Fin (of_nat t2)) (Some r2) = Inr s2
    \<and> isPeerId (Str s1) \<and> isPeerId (Str s2) \<and> s1 < s2"
proof -
  have "ulid_time_ok t1" "ulid_time_ok t2" using assms(3,4) by (simp_all add: ulid_time_ok_def)
  then show ?thesis
    using encodeUlid_ok [OF assms(1), of t1] encodeUlid_ok [OF assms(2), of t2] encodeUlid_ordered [OF assms(1,2) _ _ assms(3)]
      ulid_pattern by (simp add: newPeerId_def getCrypto_def)
qed

lemma peer_ids_sort_by_time_sample:
  "\<exists>s1 s2. newPeerId (Fin (of_nat 1700000000000)) (Some (replicate 10 255)) = Inr s1
    \<and> newPeerId (Fin (of_nat 1700000000001)) (Some (replicate 10 0)) = Inr s2
    \<and> isPeerId (Str s1) \<and> isPeerId (Str s2) \<and> s1 < s2"
  by (rule peer_ids_sort_by_time) simp_all

text \<open>
  Sixteen random bytes always make a valid room id, and different bytes make different ids.
\<close>

theorem room_ids_are_valid_and_distinct:
  assumes "length a = 16" "length b = 16"
  shows "\<exists>s t. newRoomId (Some a) = Inr s \<and> newRoomId (Some b) = Inr t \<and> isRoomId (Str s) \<and> isRoomId (Str t) \<and> (s = t \<longleftrightarrow> a = b)"
  using encodeBase32_130_ok [OF assms(1)] encodeBase32_130_ok [OF assms(2)] encodeBase32_130_inj [OF assms]
  by (auto simp: newRoomId_def getCrypto_def simp del: isRoomId.simps)

lemma room_ids_are_valid_and_distinct_sample:
  "\<exists>s t. newRoomId (Some (replicate 16 1)) = Inr s \<and> newRoomId (Some (replicate 15 1 @ [2])) = Inr t
    \<and> isRoomId (Str s) \<and> isRoomId (Str t) \<and> (s = t \<longleftrightarrow> replicate 16 1 = replicate 15 (1 :: byte) @ [2])"
  by (rule room_ids_are_valid_and_distinct) simp_all

text \<open>
  In each of the three copies of the codec, decoding what was encoded gives the same bytes, whatever the bytes and their number.
\<close>

theorem base64url_roundtrip:
  "bundle_base64urlDecode (bundle_base64urlEncode bs) = Inr bs
    \<and> invite_base64urlDecode (invite_base64urlEncode bs) = Inr bs
    \<and> manifest_base64urlDecode (manifest_base64urlEncode bs) = Inr bs"
  by (simp add: b64_copies b64_decode_encode)

text \<open>
  The decoder rejects exactly the texts with a character outside the alphabet or a length of 4n+1, with the matching error; on all others it returns as many bytes as their length calls for, and its digit error never occurs.
\<close>

theorem base64url_decode_is_total:
  "manifest_base64urlDecode s =
     (if \<not> set s \<subseteq> set B64_ALPHABET then Inl (Thrown ''ManifestSignatureError'' ''not base64url'')
      else if length s mod 4 = 1 then Inl (Thrown ''ManifestSignatureError'' ''invalid base64url length'')
      else Inr (the (b64_groups s)))
    \<and> (case manifest_base64urlDecode s of Inl _ \<Rightarrow> True | Inr bs \<Rightarrow> length bs = 3 * length s div 4)"
  using b64_groups_ok [of s] by (auto simp: manifest_base64urlDecode_def b64_decode_spec)

text \<open>
  After the timer's pass no partly received message is left that was begun a minute or more before, and the pass keeps the reassembly's books.
\<close>

theorem stale_messages_are_collected:
  assumes "reasm_ok r"
  shows "reasm_ok (fst (gcStaleReassemblies now r))
    \<and> list_all (\<lambda>(k, s). now - slot_firstSeenAt s < 60000) (reassembly (fst (gcStaleReassemblies now r)))"
  using gcStaleReassemblies_ok [OF assms] gcStaleReassemblies_young [OF assms]
  by (auto simp: list_all_iff BIN_REASSEMBLY_TIMEOUT_MS_def)

lemma stale_messages_are_collected_sample:
  "reasm_ok (fst (gcStaleReassemblies 7 reasm0))
    \<and> list_all (\<lambda>(k, s). 7 - slot_firstSeenAt s < 60000) (reassembly (fst (gcStaleReassemblies 7 reasm0)))"
  by (rule stale_messages_are_collected [OF reasm0_ok])

text \<open>
  A signaling message from the session itself, from no peer id, from a peer other than the known remote, or (an answer or candidate) to another peer, changes nothing and has no effect.
\<close>

theorem foreign_signaling_is_ignored:
  assumes "msg_from m = ps_localPeerId s \<or> isPeerId (Str (msg_from m)) = False
    \<or> (remote_of s \<noteq> None \<and> remote_of s \<noteq> Some (msg_from m))
    \<or> (case m of Answer f t d \<Rightarrow> t \<noteq> ps_localPeerId s | Ice f t x \<Rightarrow> t \<noteq> ps_localPeerId s | _ \<Rightarrow> False)"
  shows "handleSignalingMessage sg m s = (s, [], [])"
  by (rule foreign_message_ignored) (use assms in auto)

lemma foreign_signaling_is_ignored_sample:
  "handleSignalingMessage SgStable (Bye peer_a) sample_open = (sample_open, [], [])"
  by (rule foreign_signaling_is_ignored) (simp add: sample_open_def new_session_def)

text \<open>
  sendText succeeds exactly when the session is connected, its text channel is open and the UTF-8 text has at most 64 KiB; then it sends the text and nothing else, and otherwise it has no effect.
\<close>

theorem send_text_only_when_open:
  "(snd (sendText t op s) = None \<longleftrightarrow> ps_state s = SConnected \<and> utf8_size t \<le> 65536 \<and> ps_channel s \<and> op)
    \<and> fst (sendText t op s) = (s, if snd (sendText t op s) = None then [FSendText t] else [], [])"
  using sendText_spec(1) [of t op s] sendText_spec(2) [of t op s] sendText_spec(3) [of t op s] by auto

text \<open>
  A frame whose JSON header is null makes the frame handler throw a TypeError outside its try block: no event is emitted.
\<close>

theorem null_header_escapes_the_handler:
  "handleBinaryFrame now (le32 4 @ utf8_encode (js ''null'') @ body) r = (r, [], Some (Thrown ''TypeError'' ''''))"
  by (rule null_header_throws)

text \<open>
  A first chunk whose total is not a valid array length (a fraction, or 2^32 or more) makes the chunk handler throw a RangeError, with nothing stored and no event emitted.
\<close>

theorem bad_total_escapes_the_handler:
  assumes "1 < t" "\<not> is_int_rat t \<or> 2 ^ 32 \<le> t" "0 \<le> q" "q < t" "map_of (reassembly r) (slot_key addon i) = None"
  shows "handleChunk now \<lparr>ca_addon = addon, ca_mime = mime, ca_id = i, ca_seq = Fin q, ca_total = Fin t, ca_body = b\<rparr> r
    = (r, [], Some (Thrown ''RangeError'' ''''))"
  by (rule bad_total_throws [OF assms])

lemma bad_total_escapes_the_handler_sample:
  "handleChunk 0 \<lparr>ca_addon = js ''a'', ca_mime = [], ca_id = js ''x'', ca_seq = Fin 0, ca_total = Fin (5 / 2), ca_body = []\<rparr> reasm0
    = (reasm0, [], Some (Thrown ''RangeError'' ''''))"
proof -
  have "\<not> is_int_rat (5 / 2)"
  proof
    assume "is_int_rat (5 / 2)"
    then obtain i where "(5 / 2 :: rat) = of_int i" by (auto simp: is_int_rat_iff)
    then have "(of_int 5 :: rat) = of_int (2 * i)" by simp
    then have "5 = 2 * i" by (simp only: of_int_eq_iff)
    then show False by presburger
  qed
  then show ?thesis by (intro bad_total_escapes_the_handler) (simp_all add: reasm0_def)
qed

text \<open>
  A manifest signed with a generated key pair gets a signature that validates and that survives its JSON form, and verifying it against the manifest's bytes answers yes exactly when the public key's text is on the list of trusted keys (or there is no list).
\<close>

theorem signed_manifest_verifies:
  assumes "crypto_ok crypto made" "(pk, sk) \<in> made" "date_iso dates t = Inr stamp" "date_parse dates stamp \<noteq> NaN"
    and "generateKeyPair (Some crypto) (Inr (pk, sk)) = Inr kp"
  shows "\<exists>g. signManifest (Some crypto) dates now m kp (Some t) = Inr g
    \<and> validateSignaturePayload dates (signature_val g) = Inr g
    \<and> verifyManifest (Some crypto) m g trusted =
        Inr (if (case trusted of None \<Rightarrow> True | Some ks \<Rightarrow> kp_publicKeyBase64 kp \<in> set ks)
             then \<lparr>vr_ok = True, vr_reason = None\<rparr> else \<lparr>vr_ok = False, vr_reason = Some ''untrusted-key''\<rparr>)"
  using sign_then_verify [OF assms, of now m trusted] validate_signature_val by blast

lemma signed_manifest_verifies_sample:
  "\<exists>g. signManifest (Some sample_crypto) sample_dates NaN [1, 2, 3] sample_keys (Some (Fin 0)) = Inr g
    \<and> validateSignaturePayload sample_dates (signature_val g) = Inr g
    \<and> verifyManifest (Some sample_crypto) [1, 2, 3] g (Some []) = Inr \<lparr>vr_ok = False, vr_reason = Some ''untrusted-key''\<rparr>"
  using signed_manifest_verifies [OF sample_crypto_ok _ _ _ sample_keys_made, of sample_dates "Fin 0" _ NaN "[1, 2, 3]" "Some []"]
  by (simp add: sample_dates_def)

text \<open>
  A generated key pair exported to a key store and loaded from the store's object is the same key pair.
\<close>

theorem keystore_roundtrip_keeps_keys:
  assumes "crypto_ok crypto made" "(pk, sk) \<in> made" "generateKeyPair (Some crypto) (Inr (pk, sk)) = Inr kp"
  shows "\<exists>k. exportKeystore (Some crypto) kp = Inr k \<and> loadKeystore (Some crypto) (keystore_val k) = Inr kp"
  by (rule keystore_roundtrip [OF assms])

lemma keystore_roundtrip_keeps_keys_sample:
  "\<exists>k. exportKeystore (Some sample_crypto) sample_keys = Inr k \<and> loadKeystore (Some sample_crypto) (keystore_val k) = Inr sample_keys"
  by (rule keystore_roundtrip_keeps_keys [OF sample_crypto_ok _ sample_keys_made]) simp

text \<open>
  Over IndexedDB a key that begins with the code unit U+FFFF and goes on is stored, but listing never shows it and clearing never removes it.
\<close>

theorem idb_keys_above_range_survive_clear:
  assumes "idb_ok api content" "plain_id a" "length k \<ge> 2" "hd k = 0xFFFF"
    and "idb_storage_list api a s = (Inr ks, s1)" "idb_storage_clear api a s = (Inr u, s2)"
  shows "k \<notin> set ks \<and> idb_ns content s2 a k = idb_ns content s a k"
proof -
  have "\<not> in_range k" using assms(3,4) by (cases k; cases "tl k") (auto simp: in_range_def)
  with idb_key_above_range [OF assms(1,2)] assms(5,6) show ?thesis by blast
qed

lemma idb_keys_above_range_survive_clear_sample:
  "\<exists>ks s1 s2. idb_storage_list sample_idb (js ''a'') sample_leftover = (Inr ks, s1)
    \<and> idb_storage_clear sample_idb (js ''a'') sample_leftover = (Inr (), s2)
    \<and> [0xFFFF, 1] \<notin> set ks \<and> idb_ns map_of s2 (js ''a'') [0xFFFF, 1] = Some \<lparr>rec_value = Null, rec_updatedAt = NaN\<rparr>"
proof -
  have tx: "idb_tx sample_idb sample_leftover = (Inr (), sample_leftover)"
    by (simp add: idb_tx_def idb_openDb_def sample_leftover_def)
  have c: "\<exists>ks. idb_cursor sample_idb lo hi db = Inr ks" for lo hi db
    by (simp add: sample_idb_def)
  obtain xs where xs: "idb_cursor sample_idb (js ''a'' @ js '' '') (range_end (js ''a'' @ js '' '')) (ib_db sample_leftover) = Inr xs"
    using c by blast
  then obtain ks s1 where l: "idb_storage_list sample_idb (js ''a'') sample_leftover = (Inr ks, s1)"
    by (simp add: idb_storage_list_def tx Let_def)
  obtain db where "cursor_deletes sample_idb xs (ib_db sample_leftover) = Inr db"
    using cursor_deletes_sample by blast
  then obtain s2 where d: "idb_storage_clear sample_idb (js ''a'') sample_leftover = (Inr (), s2)"
    using xs by (simp add: idb_storage_clear_def tx Let_def)
  have p: "plain_id (js ''a'')" by (simp add: plain_id_def js_def)
  from idb_keys_above_range_survive_clear [OF sample_idb_ok p _ _ l d, of "[0xFFFF, 1]"] l d show ?thesis
    by (auto simp: idb_ns_def ns_of_def sample_leftover_def p)
qed

text \<open>
  On any run the states the host announces strictly advance in the order mounted, initialized, active, closed, and the last one announced is the current one.
\<close>

theorem host_states_only_advance:
  assumes "reach (host_step B) (loaded m lnk hs st cap snk now cnt) os c"
  shows "sorted_wrt (<) (HMounted # announced os) \<and> last (HMounted # announced os) = ah_state (hc_host c)"
  by (rule host_lifecycle [OF assms])

lemma host_states_only_advance_sample:
  "sorted_wrt (<) [HMounted, HInitialized, HActive]"
proof -
  obtain c b where "reach (host_step memory_backend) sample_loaded
     [OState HInitialized, OPost (BInit (js ''org.senn'') (js ''1.0.0'') b), OState HActive] c"
    using sample_host_reach by blast
  from host_states_only_advance [OF this [unfolded sample_loaded_def]] show ?thesis by simp
qed

text \<open>
  On any run the add-on gets the init message at most once, and nothing is delivered to it (text, binary or audio level) before it.
\<close>

theorem init_precedes_every_delivery:
  assumes "reach (host_step B) (loaded m lnk hs st cap snk now cnt) os c"
  shows "init_first False os \<and> length (filter is_init os) \<le> 1"
  by (rule host_init_once [OF assms])

lemma init_precedes_every_delivery_sample:
  "\<exists>b. init_first False [OState HInitialized, OPost (BInit (js ''org.senn'') (js ''1.0.0'') b), OState HActive]"
proof -
  obtain c b where "reach (host_step memory_backend) sample_loaded
     [OState HInitialized, OPost (BInit (js ''org.senn'') (js ''1.0.0'') b), OState HActive] c"
    using sample_host_reach by blast
  from init_precedes_every_delivery [OF this [unfolded sample_loaded_def]] show ?thesis by blast
qed

text \<open>
  Once a host is closed and no close is under way, it has no iframe, no listener on the window or the session, no audio-level or media subscription and no attached sink.
\<close>

theorem closed_host_is_released:
  assumes "reach (host_step B) (loaded m lnk hs st cap snk now cnt) os c"
    and "ah_state (hc_host c) = HClosed" "\<not> list_ex is_close (hc_tasks c)"
  shows "host_released (hc_host c)"
  by (rule host_close_releases [OF assms])

lemma closed_host_is_released_sample:
  "\<exists>c os. reach (host_step memory_backend) sample_loaded os c \<and> host_released (hc_host c)"
proof -
  obtain sid n where h: "hc_host sample_loaded = sample_host sid n" using sample_loaded_host by blast
  have t: "hc_tasks sample_loaded = []" by (simp add: sample_loaded_def loaded_def)
  obtain c os where r: "run_events (host_step memory_backend) [CallHostClose] sample_loaded = Some (c, os)"
    and c: "ah_state (hc_host c) = HClosed" "\<not> list_ex is_close (hc_tasks c)"
    by (simp add: host_eval h sample_host_def t host_close_def close_sender_def host_close_finish_def)
  have "reach (host_step memory_backend) sample_loaded ([] @ os) c" by (rule run_events_reach [OF reach_start r])
  from this closed_host_is_released [OF this [unfolded sample_loaded_def] c] show ?thesis by blast
qed

text \<open>
  When the user grants a pending capture after the host was closed, the track is added to the session and kept; nothing stops it, and closing again does nothing.
\<close>

theorem capture_granted_after_close_leaks:
  assumes "hc_tasks c = [TCapture k]" "ah_state (hc_host c) \<noteq> HClosed" "ah_senders (hc_host c) = []"
  shows "\<exists>c' os. run_events (host_step B) [CallHostClose, HResume 0 (HTrack t), HResume 0 HDone] c = Some (c', os)
    \<and> OAddTrack k t \<in> set os \<and> OStopTrack t \<notin> set os
    \<and> ah_senders (hc_host c') = [(k, t)] \<and> host_released (hc_host c') \<and> hc_tasks c' = []
    \<and> host_close (hc_host c') = (hc_host c', [], [])"
  by (rule capture_outlives_close [OF assms])

lemma capture_granted_after_close_leaks_sample:
  "\<exists>c' os. run_events (host_step memory_backend) [CallHostClose, HResume 0 (HTrack 5), HResume 0 HDone]
      (sample_loaded\<lparr>hc_tasks := [TCapture MAudio]\<rparr>) = Some (c', os) \<and> OStopTrack 5 \<notin> set os \<and> ah_senders (hc_host c') = [(MAudio, 5)]"
proof -
  obtain sid n where h: "hc_host sample_loaded = sample_host sid n" using sample_loaded_host by blast
  have "hc_tasks (sample_loaded\<lparr>hc_tasks := [TCapture MAudio]\<rparr>) = [TCapture MAudio]"
    "ah_state (hc_host (sample_loaded\<lparr>hc_tasks := [TCapture MAudio]\<rparr>)) \<noteq> HClosed"
    "ah_senders (hc_host (sample_loaded\<lparr>hc_tasks := [TCapture MAudio]\<rparr>)) = []"
    by (simp_all add: h sample_host_def)
  from capture_granted_after_close_leaks [OF this, of memory_backend 5] show ?thesis by blast
qed

text \<open>
  Two requests to send the same kind of media that are both made before the first capture is granted both pass the check for an existing sender; the second track takes the first one's place in the map, and closing then neither removes nor stops the first track.
\<close>

theorem overlapping_media_starts_leak:
  assumes "has_permission (send_permission k) (hc_host c)" "ah_capture (hc_host c) = Some cap" "can_capture k cap"
    and "ah_link (hc_host c) = Some True" "ah_senders (hc_host c) = []" "ah_state (hc_host c) = HActive"
    and "hc_tasks c = [TCapture k, TCapture k]" "t1 \<noteq> t2" "ah_detachers (hc_host c) = []"
  shows "handleMediaSendStart k src (hc_host c) = (hc_host c, [OCapture k src], [TCapture k])
    \<and> (\<exists>c' os. run_events (host_step B) [HResume 0 (HTrack t1), HResume 0 (HTrack t2), HResume 0 HDone, HResume 0 HDone,
          CallHostClose, HResume 0 HDone] c = Some (c', os)
        \<and> OAddTrack k t1 \<in> set os \<and> OStopTrack t1 \<notin> set os \<and> ORemoveSender k t1 \<notin> set os \<and> OStopTrack t2 \<in> set os
        \<and> host_released (hc_host c') \<and> hc_tasks c' = [])"
  by (rule double_start_leaks [OF assms])

lemma overlapping_media_starts_leak_sample:
  "\<exists>c' os. run_events (host_step memory_backend) [HResume 0 (HTrack 1), HResume 0 (HTrack 2), HResume 0 HDone, HResume 0 HDone,
          CallHostClose, HResume 0 HDone] sample_active = Some (c', os) \<and> OAddTrack MAudio 1 \<in> set os \<and> OStopTrack 1 \<notin> set os"
proof -
  obtain sid n where h: "hc_host sample_loaded = sample_host sid n" using sample_loaded_host by blast
  show ?thesis
    using overlapping_media_starts_leak [of MAudio sample_active "\<lparr>cap_audio = True, cap_video = False\<rparr>" 1 2 None memory_backend]
    by (simp add: sample_active_def h sample_host_def has_permission_def sample_manifest_def) blast
qed

text \<open>
  What an add-on sends to the peer, its counterpart there (same add-on id, active, with peer.receive) gets delivered as JSON leaves it, with the add-on's id as the sender; the text in between is the one the sending host hands to its session.
\<close>

theorem payload_reaches_peer_addon:
  assumes "manifest_ok (ah_manifest a)" "has_permission ''peer.send'' a" "ah_link a \<noteq> None"
    and "am_id (ah_manifest b) = am_id (ah_manifest a)" "ah_state b = HActive" "ah_iframe b" "has_permission ''peer.receive'' b"
    and "json_data payload" "payload \<noteq> Undef" "int now < 10 ^ 21"
  shows "\<exists>a' t. handleSend now payload a = ((a', [OSend payload, OSendText t], [TSendText]), None)
    \<and> on_peer_text t b = (b, [OPost (BDeliver (json_norm payload) (Some (am_id (ah_manifest a))))], [])"
  by (rule send_then_deliver [OF assms])

lemma payload_reaches_peer_addon_sample:
  "\<exists>a' t. handleSend 1700000000000 (Arr [Bool True, Undef]) (hc_host sample_active) = ((a', [OSend (Arr [Bool True, Undef]), OSendText t], [TSendText]), None)
    \<and> on_peer_text t (hc_host sample_active) = (hc_host sample_active, [OPost (BDeliver (Arr [Bool True, Null]) (Some (js ''org.senn'')))], [])"
proof -
  obtain sid n where h: "hc_host sample_loaded = sample_host sid n" using sample_loaded_host by blast
  have m: "ah_manifest (hc_host sample_active) = sample_manifest" by (simp add: sample_active_def h sample_host_def)
  have "manifest_ok (ah_manifest (hc_host sample_active))" unfolding m by (rule sample_manifest_ok)
  from payload_reaches_peer_addon [OF this, of "hc_host sample_active" "Arr [Bool True, Undef]" 1700000000000] show ?thesis
    by (simp add: sample_active_def h sample_host_def has_permission_def) (simp add: sample_manifest_def)
qed

text \<open>
  A polling loop that waits for its response makes progress: on an ok answer with fresh items it calls every handler for every item in order, sleeps for the interval and asks again, and the server reads back from the query exactly the cursor it gave.
\<close>

theorem poll_round_delivers_and_moves_the_cursor:
  assumes "hp_wf st" "map_of (hp_rooms st) r = Some ref" "loop_waits ref AwaitFetch st"
    and "distinct (map fst xs)" "set (map fst xs) \<inter> set (pr_delivered (hp_states st ! ref)) = {}"
    and "encodeURIComponent r = Some enc" "c \<noteq> []" "well_formed c"
  shows "\<exists>st'. run_events hp_step [FetchSettled ref (Response 200), BodySettled ref (Inr (poll_answer xs c)), DelayOver ref] st
      = Some (st', concat (map (\<lambda>x. map (\<lambda>h. CallHandler ref h (fst x) (snd x)) (hp_listeners st r)) xs)
          @ [Sleep ref (hp_interval st), Get ref (hp_endpoint st @ js ''/'' @ enc @ poll_query c)])
    \<and> loop_waits ref AwaitFetch st' \<and> search_params (poll_query c) = [(js ''since'', c)]"
  using http_poll_round [OF assms(1-7)] cursor_roundtrip [OF assms(8,7)] assms(2,3,7)
  by (auto simp: hp_listeners_def poll_query_def loop_waits_def set_phase_def set_room_def)

lemma poll_round_delivers_and_moves_the_cursor_sample:
  "\<exists>st'. run_events hp_step [FetchSettled 0 (Response 200), BodySettled 0 (Inr (poll_answer [(js ''a'', Null)] (js ''k''))), DelayOver 0]
      \<lparr>hp_endpoint = js ''s'', hp_interval = Fin 1000, hp_rooms = [(js ''r'', 0)], hp_closed = False,
        hp_states = [\<lparr>pr_handlers = [7], pr_delivered = [], pr_cursor = [], pr_aborted = False\<rparr>],
        hp_loops = [(js ''r'', AwaitFetch)], hp_posts = [], hp_next_post = 0\<rparr>
    = Some (st', [CallHandler 0 7 (js ''a'') Null, Sleep 0 (Fin 1000), Get 0 (js ''s/r'' @ poll_query (js ''k''))])"
proof -
  have "encodeURIComponent (js ''r'') = Some (js ''r'')"
    by (simp add: encodeURIComponent_def uri_point_def in_cls_def URI_PLAIN_def js_def ch_def scalar_of_def is_high_def is_low_def)
  then show ?thesis
    using poll_round_delivers_and_moves_the_cursor [of "\<lparr>hp_endpoint = js ''s'', hp_interval = Fin 1000, hp_rooms = [(js ''r'', 0)], hp_closed = False,
        hp_states = [\<lparr>pr_handlers = [7], pr_delivered = [], pr_cursor = [], pr_aborted = False\<rparr>],
        hp_loops = [(js ''r'', AwaitFetch)], hp_posts = [], hp_next_post = 0\<rparr>" "js ''r''" 0 "[(js ''a'', Null)]" "js ''r''" "js ''k''"]
    by (auto simp: hp_wf_def loop_waits_def hp_listeners_def well_formed_js js_Cons)
qed

text \<open>
  What one peer publishes for a room and exports, put into the fragment of a link, is found in the link by the other peer, whose import calls every handler of the room for every message in order and reports how many there were; the exporter's outbox is empty again.
\<close>

theorem fragment_link_carries_the_outbox:
  assumes "streams_inverse deflate inflate" "url_api_ok api"
    and "\<not> uf_closed a" "map_of (uf_outbox a) r = None"
    and "\<not> uf_closed b" "map_of (uf_imports b) (uf_next_import b) = None"
    and "bundle_ok \<lparr>bundle_roomId = r, bundle_messages = ms\<rparr>" "bundle_clean \<lparr>bundle_roomId = r, bundle_messages = ms\<rparr>"
  shows "\<exists>enc. run_events (uf_step deflate inflate) (map (UfPublish r) ms @ [UfExport r]) a
        = Some (a, map (\<lambda>_. UfPublished None) ms @ [UfExported (Inr enc)])
    \<and> uf_fromUrl api (url_toString api (url_set_hash api (uf_toFragment enc) u)) = Inr (Some enc)
    \<and> run_events (uf_step deflate inflate) [UfImport enc, UfDecoded (uf_next_import b)] b
        = Some (b\<lparr>uf_next_import := Suc (uf_next_import b)\<rparr>, uf_deliver (uf_listeners b r) ms
            @ [UfImported (uf_next_import b) (Inr (r, if uf_listeners b r = [] then 0 else length ms))])"
  by (rule url_fragment_transfer [OF assms])

lemma fragment_link_carries_the_outbox_sample:
  "\<exists>enc b. run_events (uf_step stored stored) [UfPublish room_1 (Bye peer_a), UfExport room_1] new_url_fragment
      = Some (new_url_fragment, [UfPublished None, UfExported (Inr enc)])
    \<and> run_events (uf_step stored stored) [UfImport enc, UfDecoded 0] (new_url_fragment\<lparr>uf_handlers := [(room_1, [7])]\<rparr>)
      = Some (b, [UfCall 7 (Bye peer_a), UfImported 0 (Inr (room_1, 1))])"
  using fragment_link_carries_the_outbox [OF streams_inverse_stored split_url_ok, of new_url_fragment room_1
      "new_url_fragment\<lparr>uf_handlers := [(room_1, [7])]\<rparr>" "[Bye peer_a]"] sample_bundle_ok
  by (simp add: new_url_fragment_def uf_listeners_def uf_deliver_def sample_bundle_def del: run_events.simps) blast

text \<open>
  Closing the adapter while the subscription loop is connecting does not stop the loop: it opens a socket to the next relay, which stays open, and a second close does nothing.
\<close>

theorem socket_opened_after_close:
  assumes "new_nostr [u, v] True False = Inr st0" "ne_url_ok E u" "ne_url_ok E v" "u \<noteq> v"
  shows "\<exists>st. run_events (ns_step E) [NsSubscribe r h, NsClose, NsErrored 0, NsResumeReq 0, NsResumeReq 0, NsOpened 1] st0
      = Some (st, [NConstruct 0 u, NWsClose 0, NConstruct 1 v])
    \<and> ns_closed st \<and> ws_ready (ns_ws st ! 1) = Open \<and> ns_step E NsClose st = Some (st, [])"
  by (rule socket_after_close [OF assms])

lemma socket_opened_after_close_sample:
  "\<exists>st st0. run_events (ns_step sample_nostr) [NsSubscribe room_1 7, NsClose, NsErrored 0, NsResumeReq 0, NsResumeReq 0, NsOpened 1] st0
      = Some (st, [NConstruct 0 (js ''a''), NWsClose 0, NConstruct 1 (js ''b'')]) \<and> ns_closed st"
  using socket_opened_after_close [of "js ''a''" "js ''b''" _ sample_nostr room_1 7] by (simp add: new_nostr_def sample_nostr_def) blast

text \<open>
  A registry document written out field by field is accepted as itself exactly when it satisfies the schema: no well-formed registry is refused, and validating what a validation returned gives the same registry.
\<close>

theorem validation_is_exact_and_idempotent:
  "validateRegistry api dates (registry_val r) = Inr r \<longleftrightarrow> registry_ok api dates r"
  by (rule registry_iff)

text \<open>
  Schema evolution is additive: a document accepted as version n is accepted under every later version, as the same registry but for the version number.
\<close>

theorem older_registries_stay_valid:
  assumes "validateRegistry api dates (Obj ((js ''v'', jint (int n)) # fs)) = Inr r" "n \<le> m" "m \<in> {1, 2, 3}"
  shows "validateRegistry api dates (Obj ((js ''v'', jint (int m)) # fs)) = Inr (r\<lparr>rg_v := m\<rparr>)"
  by (rule registry_evolves [OF assms])

lemma older_registries_stay_valid_sample:
  "validateRegistry split_url sample_dates (Obj [(js ''v'', jint (int 3)), (js ''publisher'', Obj [(js ''name'', Str [])]),
       (js ''trustedKeys'', Arr [Str (js ''k'')]), (js ''addons'', Arr [])])
     = Inr \<lparr>rg_v = 3, rg_publisher_name = [], rg_publisher_homepage = None, rg_trustedKeys = [js ''k''], rg_addons = []\<rparr>"
  using older_registries_stay_valid [of split_url sample_dates 1
      "[(js ''publisher'', Obj [(js ''name'', Str [])]), (js ''trustedKeys'', Arr [Str (js ''k'')]), (js ''addons'', Arr [])]"
      "\<lparr>rg_v = 1, rg_publisher_name = [], rg_publisher_homepage = None, rg_trustedKeys = [js ''k''], rg_addons = []\<rparr>" 3]
  by (simp add: validateRegistry_def any_object_def registry_version_def isStringArray_def opt_str_def)

text \<open>
  An accepted meta index lists each publisher's URL once and every one of them is http(s); an accepted submissions list uses each id once, and a submission that is no longer pending gives a reason of 1 to 280 code units.
\<close>

theorem publisher_lists_are_keyed:
  "(validateMetaIndex api input = Inr ps \<longrightarrow> ps \<noteq> [] \<and> list_all (publisher_ok api) ps \<and> distinct (map pe_url ps))
  \<and> (validateSubmissions api dates input' = Inr ss \<longrightarrow> list_all (submission_ok api dates) ss \<and> distinct (map sb_id ss)
      \<and> (\<forall>s\<in>set ss. sb_status s \<noteq> js ''pending'' \<longrightarrow> (\<exists>t. sb_statusReason s = Some t \<and> length t \<in> {1..280})))"
  using meta_index_sound [of api input ps] submissions_sound [of api dates input' ss]
  by (force simp: list_all_iff submission_ok_def text_in_def Suc_le_eq)

lemma publisher_lists_are_keyed_sample:
  "list_all (publisher_ok split_url) [sample_publisher] \<and> list_all (submission_ok split_url sample_dates) [sample_submission]"
  using publisher_lists_are_keyed [THEN conjunct1, THEN mp, OF sample_lists_accepted(1)]
    publisher_lists_are_keyed [THEN conjunct2, THEN mp, OF sample_lists_accepted(2)] by blast

text \<open>
  The command-line checker of manifests and the host's validator accept the same documents, but for the three texts (name, entry, license) that only the host requires to be non-empty strings.
\<close>

theorem manifest_checkers_agree:
  "(\<exists>m. validateManifest v = Inr m) \<longleftrightarrow>
     check_manifest v = Inr () \<and> list_all (\<lambda>k. \<not> no_text (fld (own_fields v) k)) [''name'', ''entry'', ''license'']"
  by (simp add: checkers_agree)

text \<open>
  Two clicks on Refresh before the first load ends leave the page in cache mode "reload" after both refreshes are over, and show every row twice: the mode found by the second is the first one's, and both append to the same rows.
\<close>

theorem overlapping_refreshes_keep_reloading:
  assumes "gl_runs s = []" "list_all well_formed (registries s)" "registries s = [url]"
    and "loadFromUrl api c dates env url = Inr l" "loadFromUrl api c dates env' url = Inr l'"
  shows "\<exists>s' os. run_events (gallery_step api c dates)
        [GRefresh, GRefresh, GLoaded (gl_nextRun s) env, GLoaded (Suc (gl_nextRun s)) env'] s = Some (s', os)
    \<and> gl_runs s' = [] \<and> gl_reload s' \<and> gl_rows s' = lr_addons l @ lr_addons l'"
  by (rule overlapping_refreshes) (use assms in \<open>simp_all add: listable_def\<close>)

lemma overlapping_refreshes_keep_reloading_sample:
  "\<exists>(s' :: gallery) os row. run_events (gallery_step sample_page (Some sample_crypto) sample_dates)
      [GRefresh, GRefresh, GLoaded 0 sample_gallery_env, GLoaded 1 sample_gallery_env]
      (gallery_init (js ''reg'') (Inr None) None) = Some (s', os)
    \<and> gl_runs s' = [] \<and> gl_reload s' \<and> gl_rows s' = [row, row]"
proof -
  obtain l row where l: "loadFromUrl sample_page (Some sample_crypto) sample_dates sample_gallery_env (js ''reg'') = Inr l"
    "lr_addons l = [row]" using sample_loads by blast
  from overlapping_refreshes_keep_reloading [OF _ _ _ l(1) l(1), of "gallery_init (js ''reg'') (Inr None) None"] l(2)
  show ?thesis by (force simp: gallery_init_def readRegistries_def registries_def simp del: run_events.simps)
qed

text \<open>
  A meta index the publishing side's validator accepts is recognised by the gallery, and normalising it loses no publisher: URL, name and mark of every one are kept, the featured ones come first and the order is otherwise unchanged.
\<close>

theorem validated_meta_index_is_shown:
  assumes "validateMetaIndex (url_api.truncate api) w = Inr ps"
  shows "isMetaIndex w
    \<and> map (\<lambda>p. (pe_url p, pe_name p, pe_featured p)) (normalizeMetaIndex api (own_fields w))
      = map (\<lambda>p. (pe_url p, pe_name p, pe_featured p)) (filter (\<lambda>p. pe_featured p = Some True) ps
          @ filter (\<lambda>p. pe_featured p \<noteq> Some True) ps)"
  using validated_meta [OF assms] unfolding publisher_head_def by (simp only:)

lemma validated_meta_index_is_shown_sample:
  "map (\<lambda>p. (pe_url p, pe_name p, pe_featured p)) (normalizeMetaIndex sample_page (own_fields sample_meta_val))
     = [(js ''b'', None, Some True), (js ''a'', None, None)]"
proof -
  have "validateMetaIndex (url_api.truncate sample_page) sample_meta_val =
      Inr [\<lparr>pe_url = js ''a'', pe_name = None, pe_featured = None, pe_endorsedBy = None, pe_endorsementUrl = None\<rparr>,
           \<lparr>pe_url = js ''b'', pe_name = None, pe_featured = Some True, pe_endorsedBy = None, pe_endorsementUrl = None\<rparr>]"
    by (simp add: validateMetaIndex_def any_object_def sample_meta_val_def validate_publisher_def publisher_url_def sample_page_def
        url_api.defs opt_str_def)
  from validated_meta_index_is_shown [OF this] show ?thesis by simp
qed

text \<open>
  A registry whose add-on has a number for categories passes the gallery's check, and as soon as one row of it is shown the filters throw a TypeError for all rows, however many good registries there are.
\<close>

theorem one_bad_listing_breaks_the_filters:
  assumes "row \<in> set rows" "fld (rw_addon row) ''categories'' = Num n"
  shows "unionCategories rows = Inl (Thrown ''TypeError'' '''')"
  by (rule bad_categories [OF assms])

text \<open>
  The list of registries never holds a URL twice, and what adding or removing one stores is read back by the next page as the same list (the default registry when it became empty).
\<close>

theorem registry_list_survives_reload:
  assumes "reach (gallery_step api c dates) (fst (gallery_start default_url raw host)) os s"
  shows "distinct (registries s) \<and> readRegistries d (Inr (writeRegistries (registries s))) = (if registries s = [] then [d] else registries s)"
proof -
  have "distinct (registries s)"
    using reachable_gallery [OF assms] by (auto simp: gallery_inv_def registries_def list_all_length)
  with registries_survive_reload show ?thesis by blast
qed

lemma registry_list_survives_reload_sample:
  "readRegistries [] (Inr (writeRegistries (registries sample_gallery))) = [js ''reg'']"
  using registry_list_survives_reload [OF reach_start [of "gallery_step sample_page (Some sample_crypto) sample_dates"],
      of "js ''reg''" "Inr None" None "[]"]
  by (simp add: sample_gallery_def [symmetric]) (simp add: sample_gallery_facts registries_def)

text \<open>
  The licence an override names is never compared with the package's own: while an override for its name and version is active, a package passes whatever its package.json declares, GPL included.
\<close>

theorem override_hides_the_declared_licence:
  assumes "isOverrideActive ov (li_today env)"
  shows "check_package (env\<lparr>li_packageJson := \<lambda>_. Inr (utf8_encode (the (json_str (Obj [(js ''license'', Str (js ''GPL-3.0''))]))))\<rparr>) (Some ov) path
    = Inr None"
  using assms by (simp add: check_package_def)

lemma override_hides_the_declared_licence_sample:
  "check_package (sample_license_env\<lparr>li_packageJson := \<lambda>_. Inr (utf8_encode (the (json_str (Obj [(js ''license'', Str (js ''GPL-3.0''))]))))\<rparr>)
     (Some \<lparr>ov_name = [], ov_version = [], ov_license = js ''MIT'', ov_tier = [], ov_rationale = [], ov_approvedBy = [], ov_approvedAt = [], ov_expiresAt = None\<rparr>) []
     = Inr None"
  by (rule override_hides_the_declared_licence) (simp add: isOverrideActive_def)

text \<open>
  Every hit of a file is a place where its rule matches, and its line and column lead back to that place: the lines before it, with their newlines, and the columns before it add up to its index.
\<close>

theorem hits_are_reported_where_they_are:
  assumes "h \<in> set (scanContents path body)"
  shows "\<exists>pattern i. (pattern, hit_reason h) \<in> set RULES \<and> i < length body
    \<and> free_before (if i = 0 then None else Some (body ! (i - 1))) \<and> (\<exists>u v. drop i body = u @ v \<and> atoms_in pattern u)
    \<and> 1 \<le> hit_line h \<and> hit_line h \<le> length (split_lines body) \<and> 1 \<le> hit_col h
    \<and> hit_col h \<le> length (split_lines body ! (hit_line h - 1)) + 1
    \<and> i = length (concat (map (\<lambda>l. l @ [10]) (take (hit_line h - 1) (split_lines body)))) + (hit_col h - 1)"
proof -
  from assms obtain pattern reason i where r: "(pattern, reason) \<in> set RULES" "i \<in> set (match_indices pattern None 0 body)"
    and h: "h = hit_at path (split_lines body) reason i" by (auto simp: scanContents_def)
  have "hit_reason h = reason" by (simp add: h hit_at_def split: prod.split)
  with match_indices_rule_at [OF r] hit_place [of i body path reason] r(1) show ?thesis
    by (auto simp: h Let_def rule_at_def)
qed

lemma hits_are_reported_where_they_are_sample:
  "\<exists>pattern i. (pattern, ''no eval in add-ons'') \<in> set RULES \<and> i < length (js ''eval(x)'')
    \<and> (\<exists>u v. drop i (js ''eval(x)'') = u @ v \<and> atoms_in pattern u)"
proof -
  have "hit_at [] (split_lines (js ''eval(x)'')) ''no eval in add-ons'' 0 \<in> set (scanContents [] (js ''eval(x)''))"
    by (simp add: scanContents_def RULES_def js_Cons free_before_def word_char_def in_cls_def atom_len_def startsWith_def js_space_def)
  from hits_are_reported_where_they_are [OF this] show ?thesis by (auto simp: hit_at_def split: prod.splits)
qed

text \<open>
  The rules exclude every member access, so a call of fetch through window passes the scan.
\<close>

theorem member_calls_are_not_seen:
  "scanContents path (js ''window.fetch(u)'') = []"
  by (rule member_call_unseen)

text \<open>
  Pressing retry twice before the old session has closed opens two sessions and forgets the first of them: it was started, is not the page's session, and nothing ever closes it.
\<close>

theorem second_retry_loses_a_session:
  assumes "\<forall>k. \<exists>r. newRoomId (we_random env k) = Inr r" "page_start env href = (p0, os0)" "wp_tasks p0 = ts" "k = length ts"
  shows "\<exists>p os. run_events (web_step env)
      [WCreate, WResume k AOk, WSessionState 0 SFailed now, WRetry, WRetry, WResume k AOk, WResume k AOk] p0 = Some (p, os)
    \<and> length (wp_sessions p) = 3 \<and> wp_session p = Some 2 \<and> WStart 1 \<in> set os \<and> WCloseSession 1 \<notin> set os"
proof -
  have p0: "wp_room p0 = None" "wp_sessions p0 = []" "wp_addonHost p0 = None"
    using assms(2) by (auto simp: page_start_def renderOfficialRegistry_def handleHandoff_def empty_page_def wait_def Let_def
        split: option.splits if_splits)
  obtain r where r: "\<And>k. newRoomId (we_random env k) = Inr (r k)" using assms(1) by metis
  note open_defs = startInviter_def open_session_def attachSession_def wait_def Let_def prepend_def r
  show ?thesis
    using p0 assms(3,4)
    by (simp add: open_defs on_session_state_def resetForRetry_def retry_session_closed_def retry_host_def retry_reset_def page_log_def setSessionState_def)
qed

lemma second_retry_loses_a_session_sample:
  "\<exists>p os. wp_session p = Some 2 \<and> WStart 1 \<in> set os \<and> WCloseSession 1 \<notin> set os
     \<and> reach (web_step sample_web) (fst (page_start sample_web (js ''https://senn.app/''))) os p"
proof -
  obtain p0 os0 where p0: "page_start sample_web (js ''https://senn.app/'') = (p0, os0)" by (cases "page_start sample_web (js ''https://senn.app/'')")
  from second_retry_loses_a_session [OF sample_rooms this refl refl] run_events_reach [OF reach_start]
  show ?thesis unfolding p0 fst_conv by (metis append_Nil)
qed

text \<open>
  When an inviter's link cannot be built (it would exceed 2048 characters, or the page's scheme is not allowed), the export shows the error but has emptied the outbox: the next export says that there is nothing to export, and the offer can no longer be sent.
\<close>

theorem failed_link_loses_the_messages:
  assumes "streams_inverse (we_deflate env) (we_inflate env)" "inviter_page r ms p"
    and "bundle_ok \<lparr>bundle_roomId = r, bundle_messages = ms\<rparr>" "bundle_clean \<lparr>bundle_roomId = r, bundle_messages = ms\<rparr>"
    and "buildInviteBundleUrl (we_api env) (we_deflate env) (we_base env) (invite_val (page_invite env r))
          (bundle_val \<lparr>bundle_roomId = r, bundle_messages = ms\<rparr>) = Inl e"
    and "i = length (wp_tasks p)"
  shows "\<exists>p' p''. run_events (web_step env) [WExport, WResume i AOk, WResume i AOk] p = Some (p', [])
    \<and> wp_exportOut p' = js (''(error: '' @ err_message e @ '')'')
    \<and> run_events (web_step env) [WExport, WResume i AOk] p' = Some (p'', []) \<and> wp_exportOut p'' = js ''(outbox empty)''"
proof -
  let ?p = "p\<lparr>wp_transport := (wp_transport p)\<lparr>uf_outbox := al_del r (uf_outbox (wp_transport p))\<rparr>,
      wp_exportOut := js (''(error: '' @ err_message e @ '')'')\<rparr>"
  have first: "run_events (web_step env) [WExport, WResume i AOk, WResume i AOk] p = Some (?p, [])"
    using export_invite [OF assms(1-4)] by (simp add: assms(5,6) exported_text_def del: web_step.simps run_events.simps)
  have "map_of (al_del r (uf_outbox (wp_transport p))) r = None" by (auto simp: al_del_def map_of_eq_None_iff)
  then have "\<exists>p''. run_events (web_step env) [WExport, WResume i AOk] ?p = Some (p'', []) \<and> wp_exportOut p'' = js ''(outbox empty)''"
    using assms(2,6) by (simp add: composeExportUrl_def inviter_page_def uf_exportBundle_def wait_def bundle_exported_def)
  with first show ?thesis by (simp del: web_step.simps run_events.simps)
qed

lemma failed_link_loses_the_messages_sample:
  "\<exists>p' p''. run_events (web_step (sample_web\<lparr>we_base := js ''ftp://x/''\<rparr>)) [WExport, WResume 0 AOk, WResume 0 AOk] sample_inviter = Some (p', [])
     \<and> run_events (web_step (sample_web\<lparr>we_base := js ''ftp://x/''\<rparr>)) [WExport, WResume 0 AOk] p' = Some (p'', [])
     \<and> wp_exportOut p'' = js ''(outbox empty)''"
proof -
  let ?F = "sample_web\<lparr>we_base := js ''ftp://x/''\<rparr>"
  have v: "validateInvitePayload (invite_val sample_invite) = Inr sample_invite"
    using sample_invite_ok validate_invite_val by blast
  have inv: "page_invite ?F room_1 = sample_invite" by (rule sample_page_invite) simp
  have "throwing_all (\<lambda>m. if msg_from m \<noteq> inv_from sample_invite then Some e else None) [Bye peer_a] = None" for e :: err
    by (simp add: sample_invite_def)
  then have "\<exists>e. buildInviteBundleUrl (we_api ?F) (we_deflate ?F) (we_base ?F) (invite_val (page_invite ?F room_1))
      (bundle_val \<lparr>bundle_roomId = room_1, bundle_messages = [Bye peer_a]\<rparr>) = Inl e"
    using v validate_bundle_val [OF sample_byes(1)] unfolding inv
    by (simp add: buildInviteBundleUrl_def sample_invite_def split_url_def assertAllowedScheme_def scheme_allowed_def js_def ch_def
        split: option.split sum.split)
  then obtain e where e: "buildInviteBundleUrl (we_api ?F) (we_deflate ?F) (we_base ?F) (invite_val (page_invite ?F room_1))
      (bundle_val \<lparr>bundle_roomId = room_1, bundle_messages = [Bye peer_a]\<rparr>) = Inl e" by blast
  have hyps: "streams_inverse (we_deflate ?F) (we_inflate ?F)" "0 = length (wp_tasks sample_inviter)"
    by (simp_all add: sample_inviter_def empty_page_def)
  from failed_link_loses_the_messages [OF hyps(1) sample_pages(1) sample_byes(1,2) e hyps(2)]
  show ?thesis by (simp del: web_step.simps run_events.simps) blast
qed

text \<open>
  When the host refuses the handed-over add-on (an unsigned manifest, say), the page logs the error and tells the user that it is loaded.
\<close>

theorem failed_hand_off_says_loaded:
  assumes "load_manifest le (we_crypto env) (we_dates env) url v = Inl e"
  shows "\<exists>p'. web_resume env (TLoad url v (LoadHandoff name)) (AHost le) p = Some (p', log_error ''addon load error: '' e)
    \<and> wp_handoffStatus p' = ''loaded'' \<and> wp_addonHost p' = wp_addonHost p"
  by (simp add: manifest_of_def assms host_loaded_def load_resolved_def)

text \<open>
  Two loads that overlap both find no host to close: both add-ons stay mounted, and the page has forgotten the first host.
\<close>

theorem overlapping_loads_leave_two_hosts:
  assumes "wp_addonHost p = None" "i = length (wp_tasks p)"
    and "manifest_of env (js (BUTTON_ADDONS ! 0)) None le = Inr m" "manifest_of env (js (BUTTON_ADDONS ! 1)) None le' = Inr m'"
  shows "\<exists>p' os. run_events (web_step env) [WLoadButton 0, WLoadButton 1, WResume i (AHost le), WResume i (AHost le')] p = Some (p', os)
    \<and> wp_hosts p' = wp_hosts p @ [m, m'] \<and> wp_addonHost p' = Some (Suc (length (wp_hosts p))) \<and> WCloseHost (length (wp_hosts p)) \<notin> set os"
  using assms by (simp add: BUTTON_ADDONS_def loadAddonByManifest_def load_begun_def wait_def host_loaded_def load_resolved_def)

text \<open>
  A call whose track is refused by the session is reported as an error, but the captured stream is never stopped, and the stop button stays hidden.
\<close>

theorem failed_call_keeps_the_microphone:
  assumes "wp_session p = Some n" "wp_callShown p" "\<not> wp_callDisabled p" "wp_call p = None" "i = length (wp_tasks p)"
  shows "\<exists>p' os. run_events (web_step env) [WCallStart, WResume i (AMedia stream [t]), WResume i (AFailed e)] p = Some (p', os)
    \<and> wp_call p' = None \<and> WStopStream stream \<notin> set os \<and> wp_callStatus p' = ''call: error: '' @ err_message e"
  using assms by (simp add: on_call_start_def wait_def call_media_def call_next_def call_track_def call_failed_def)

text \<open>
  An encoded bundle pasted on its own, which the code means to accept, is refused as an invalid URL before it is looked at.
\<close>

theorem pasted_bundle_is_refused:
  assumes "url_parse (we_api env) b = None" "js_trim b = b" "b \<noteq> []" "\<not> str_includes (js ''#'') b"
  shows "\<exists>p'. run_events (web_step env) [WTypeImport b, WImport] p
      = Some (p', log_error ''import error: '' (Thrown ''BundleValidationError'' ''not a valid URL: ''))
    \<and> wp_transport p' = wp_transport p"
  using assms by (simp add: on_import_def consumeUrl_def uf_fromUrl_def extractBundleFromUrl_def)

text \<open>
  A registry of schema version 3, which the gallery accepts and links to, is refused by the page's hand-off.
\<close>

theorem later_registry_is_refused:
  assumes "page_fetched res = Inr json" "isRegistry json" "fld (own_fields json) ''v'' = jint 3"
  shows "handoff_registry res = Inl (Thrown ''Error'' ''publisher registry schema invalid'')"
  using assms by (auto simp: handoff_registry_def isRegistry_def Let_def)

end
